(* ===== verification/Prelude.thy ===== *)
theory Prelude
  imports Main "HOL-Library.Word"
begin

text \<open>
  Shared vocabulary of the development: fixed-width integer names, Go's \<open>copy\<close> and
  \<open>clear\<close> on slices, the circular-buffer view every ring of the audio package is
  read through, and the automation collections of the component theories.
\<close>

type_synonym u8 = "8 word"
type_synonym i16 = "16 word"
type_synonym u16 = "16 word"
type_synonym u32 = "32 word"
type_synonym u64 = "64 word"

named_theorems ring_simps \<open>arithmetic of circular buffers\<close>
named_theorems queue_defs \<open>definitions of the generation queues\<close>
named_theorems fence_defs \<open>definitions of the barge-in fence\<close>

section \<open>Slices\<close>

text \<open>
  \<open>copy_into dst off src\<close> is Go's \<open>copy(dst[off:], src)\<close>: it overwrites at most the
  elements from \<open>off\<close> to the end of \<open>dst\<close> and never changes the length.
\<close>

definition copy_into :: "'a list \<Rightarrow> nat \<Rightarrow> 'a list \<Rightarrow> 'a list" where
  "copy_into dst off src =
     take off dst @ take (length dst - off) src @ drop (off + length src) dst"

text \<open>\<open>clear_range z xs a b\<close> is \<open>clear(xs[a:b])\<close> for an element type with zero value \<open>z\<close>.\<close>

definition clear_range :: "'a \<Rightarrow> 'a list \<Rightarrow> nat \<Rightarrow> nat \<Rightarrow> 'a list" where
  "clear_range z xs a b = copy_into xs a (replicate (b - a) z)"

lemma length_copy_into [simp]: "off \<le> length dst \<Longrightarrow> length (copy_into dst off src) = length dst"
  by (auto simp: copy_into_def)

lemma nth_copy_into:
  assumes "off \<le> length dst" and "i < length dst"
  shows "copy_into dst off src ! i = (if off \<le> i \<and> i < off + length src then src ! (i - off) else dst ! i)"
  using assms by (auto simp: copy_into_def nth_append min_def not_less)

lemma copy_into_Nil [simp]: "copy_into dst off [] = dst"
  by (simp add: copy_into_def)

lemma copy_into_0_fits: "length src = length dst \<Longrightarrow> copy_into dst 0 src = src"
  by (simp add: copy_into_def)

lemma take_copy_into_0: "length src \<le> length dst \<Longrightarrow> take (length src) (copy_into dst 0 src) = src"
  by (simp add: copy_into_def)

lemma length_clear_range [simp]: "a \<le> length xs \<Longrightarrow> length (clear_range z xs a b) = length xs"
  by (simp add: clear_range_def)

lemma nth_clear_range:
  "a \<le> length xs \<Longrightarrow> i < length xs \<Longrightarrow>
   clear_range z xs a b ! i = (if a \<le> i \<and> i < b then z else xs ! i)"
  by (auto simp: clear_range_def nth_copy_into)

text \<open>The clamp \<open>if first > remaining { first = remaining }\<close>.\<close>

lemma clamp_min: "(if b < a then b else a) = min a (b :: nat)"
  by auto

lemma min_pred: "Suc n = min a b \<Longrightarrow> a = Suc a' \<Longrightarrow> b = Suc b' \<Longrightarrow> n = min a' (b' :: nat)"
  by simp

section \<open>Circular buffers\<close>

text \<open>
  The logical contents of a circular buffer: \<open>n\<close> elements of the array \<open>xs\<close>
  starting at index \<open>h\<close>, indices taken modulo the array's length.
\<close>

definition ring_view :: "'a list \<Rightarrow> nat \<Rightarrow> nat \<Rightarrow> 'a list" where
  "ring_view xs h n = map (\<lambda>i. xs ! ((h + i) mod length xs)) [0..<n]"

lemma length_ring_view [simp]: "length (ring_view xs h n) = n"
  by (simp add: ring_view_def)

lemma nth_ring_view [simp]: "i < n \<Longrightarrow> ring_view xs h n ! i = xs ! ((h + i) mod length xs)"
  by (simp add: ring_view_def)

lemma ring_view_0 [simp]: "ring_view xs h 0 = []"
  by (simp add: ring_view_def)

lemma ring_view_eqI:
  assumes "length zs = n" and "\<And>i. i < n \<Longrightarrow> xs ! ((h + i) mod length xs) = zs ! i"
  shows "ring_view xs h n = zs"
  using assms by (intro nth_equalityI) auto

lemma ring_index_inj:
  assumes "i < L" and "j < L" and "(h + i) mod L = (h + j) mod (L :: nat)"
  shows "i = j"
proof -
  have "i \<le> j \<Longrightarrow> i = j" if "i < L" "j < L" "(h + i) mod L = (h + j) mod L" for i j
  proof -
    assume "i \<le> j"
    with that(3) have "L dvd (h + j) - (h + i)"
      by (metis add_le_cancel_left mod_eq_dvd_iff_nat)
    then have "L dvd j - i" by simp
    with that(2) \<open>i \<le> j\<close> show "i = j"
      by (metis diff_is_0_eq diff_less_mono2 dvd_imp_le le_antisym less_imp_diff_less neq0_conv not_le zero_less_diff)
  qed
  from this [of i j] this [of j i] assms show ?thesis by (cases "i \<le> j") auto
qed

lemma ring_view_push:
  assumes "n < length xs"
  shows "ring_view (xs[(h + n) mod length xs := x]) h (Suc n) = ring_view xs h n @ [x]"
proof (rule ring_view_eqI)
  fix i assume i: "i < Suc n"
  have L: "0 < length xs" using assms by linarith
  show "xs[(h + n) mod length xs := x] ! ((h + i) mod length (xs[(h + n) mod length xs := x]))
      = (ring_view xs h n @ [x]) ! i"
  proof (cases "i = n")
    case True
    with L show ?thesis by (simp add: nth_append)
  next
    case False
    with i assms have "i < n" and "i < length xs" by auto
    with False assms have "(h + i) mod length xs \<noteq> (h + n) mod length xs"
      by (metis ring_index_inj)
    with \<open>i < n\<close> show ?thesis by (simp add: nth_append)
  qed
qed simp

lemma ring_view_take: "k \<le> n \<Longrightarrow> take k (ring_view xs h n) = ring_view xs h k"
  by (rule nth_equalityI) auto

lemma ring_view_drop: "k \<le> n \<Longrightarrow> drop k (ring_view xs h n) = ring_view xs ((h + k) mod length xs) (n - k)"
  by (rule nth_equalityI) (auto simp: mod_simps ac_simps)

lemma ring_view_overwrite:
  assumes "h < length xs"
  shows "ring_view (xs[h := x]) ((h + 1) mod length xs) (length xs) = tl (ring_view xs h (length xs)) @ [x]"
proof (rule ring_view_eqI)
  let ?L = "length xs"
  show "length (tl (ring_view xs h ?L) @ [x]) = ?L" using assms by simp
  fix i assume i: "i < ?L"
  have idx: "((h + 1) mod ?L + i) mod ?L = (h + (i + 1)) mod ?L"
    by (simp add: mod_simps ac_simps)
  show "xs[h := x] ! (((h + 1) mod ?L + i) mod length (xs[h := x])) = (tl (ring_view xs h ?L) @ [x]) ! i"
  proof (cases "i + 1 < ?L")
    case True
    then have "(h + (i + 1)) mod ?L \<noteq> (h + 0) mod ?L"
      using assms ring_index_inj [of "i + 1" ?L 0 h] by linarith
    then have "(h + (i + 1)) mod ?L \<noteq> h" using assms by simp
    with True assms idx show ?thesis
      by (auto simp: nth_append nth_tl)
  next
    case False
    with i have "i + 1 = ?L" by simp
    then have "(h + (i + 1)) mod ?L = h" using assms by simp
    with False i assms idx show ?thesis by (auto simp: nth_append)
  qed
qed

lemma ring_view_mono_eq:
  assumes "length ys = length xs"
    and "\<And>i. i < n \<Longrightarrow> ys ! ((h + i) mod length xs) = xs ! ((h + i) mod length xs)"
  shows "ring_view ys h n = ring_view xs h n"
  using assms by (intro nth_equalityI) auto

text \<open>
  A block write split at the physical end of the array, as two slice copies, appends
  the whole block to the logical contents.
\<close>

lemma ring_view_push_block:
  assumes h: "h < length xs" and fits: "n + length src \<le> length xs" and ne: "src \<noteq> []"
  defines "w \<equiv> (h + n) mod length xs"
  defines "k \<equiv> min (length src) (length xs - w)"
  defines "ys \<equiv> copy_into (copy_into xs w (take k src)) 0 (drop k src)"
  shows "length ys = length xs" and "ring_view ys h (n + length src) = ring_view xs h n @ src"
proof -
  let ?L = "length xs"
  have L: "0 < ?L" using h by linarith
  have w: "w < ?L" using L by (simp add: w_def)
  have kk: "length (take k src) = k" by (simp add: k_def)
  have wq: "(h + (n + q)) mod ?L = (w + q) mod ?L" for q
    by (simp add: w_def mod_add_left_eq add.assoc [symmetric])
  show len: "length ys = ?L" using w by (simp add: ys_def)
  have rest: "length (drop k src) \<le> w"
  proof (cases "length src \<le> ?L - w")
    case True
    then show ?thesis by (simp add: k_def)
  next
    case False
    then have "length (drop k src) = length src - (?L - w)" by (simp add: k_def)
    with fits w show ?thesis by linarith
  qed
  have ys: "ys ! i = (if i < length (drop k src) then src ! (k + i)
      else if w \<le> i \<and> i < w + k then src ! (i - w) else xs ! i)" if "i < ?L" for i
    using that w rest kk by (auto simp: ys_def nth_copy_into add.commute)
  show "ring_view ys h (n + length src) = ring_view xs h n @ src"
  proof (rule ring_view_eqI)
    fix i assume i: "i < n + length src"
    have "ys ! ((h + i) mod ?L) = (ring_view xs h n @ src) ! i"
    proof (cases "i < n")
      case True
      then have out: "(h + i) mod ?L \<noteq> (h + (n + j)) mod ?L" if "j < length src" for j
        using ring_index_inj [of i ?L "n + j" h] fits that by linarith
      let ?p = "(h + i) mod ?L"
      have p: "?p < ?L" using L by simp
      have "\<not> (w \<le> ?p \<and> ?p < w + k)"
      proof
        assume a: "w \<le> ?p \<and> ?p < w + k"
        moreover have "k \<le> length src" by (simp add: k_def)
        ultimately have "?p - w < length src" by linarith
        moreover have "(h + (n + (?p - w))) mod ?L = ?p"
        proof -
          have "(h + (n + (?p - w))) mod ?L = (w + (?p - w)) mod ?L" by (rule wq)
          with a p show ?thesis by simp
        qed
        ultimately show False using out by force
      qed
      moreover have "\<not> ?p < length (drop k src)"
      proof
        assume a: "?p < length (drop k src)"
        then have k: "k = ?L - w" by (auto simp: k_def)
        with a have "k + ?p < length src" by simp
        moreover have "(h + (n + (k + ?p))) mod ?L = ?p"
        proof -
          have "(h + (n + (k + ?p))) mod ?L = (w + (k + ?p)) mod ?L"
            by (rule wq)
          also have "\<dots> = (?L + ?p) mod ?L" using k w by simp
          finally show ?thesis by simp
        qed
        ultimately show False using out by force
      qed
      ultimately show ?thesis using True ys [OF p] by (auto simp: nth_append)
    next
      case False
      define j where "j = i - n"
      have ij: "i = n + j" and j: "j < length src" using False i by (auto simp: j_def)
      have p: "(h + i) mod ?L = (w + j) mod ?L" by (simp add: ij wq)
      show ?thesis
      proof (cases "j < k")
        case True
        then have "w + j < ?L" using w by (auto simp: k_def)
        moreover have "\<not> w + j < length (drop k src)" using rest by linarith
        ultimately show ?thesis using True ij p ys [of "w + j"] by (simp add: nth_append)
      next
        case jk: False
        with j have k: "k = ?L - w" by (auto simp: k_def)
        have "w + j = ?L + (j - k)" using jk k w by linarith
        then have "(w + j) mod ?L = (j - k) mod ?L" by simp
        moreover have "j - k < length (drop k src)" using j jk by simp
        moreover have "j - k < ?L" using calculation(2) rest w by linarith
        ultimately show ?thesis using jk ij p ys [of "j - k"] by (simp add: nth_append)
      qed
    qed
    then show "ys ! ((h + i) mod length ys) = (ring_view xs h n @ src) ! i" by (simp add: len)
  qed simp
qed

text \<open>Reading a block that may wrap is two slice reads.\<close>

lemma ring_view_split:
  assumes "h < length xs" and "n \<le> length xs"
  shows "ring_view xs h n = take n (drop h xs) @ take (n - (length xs - h)) xs"
proof (rule ring_view_eqI)
  let ?L = "length xs"
  show "length (take n (drop h xs) @ take (n - (?L - h)) xs) = n" using assms by auto
  fix i assume i: "i < n"
  show "xs ! ((h + i) mod ?L) = (take n (drop h xs) @ take (n - (?L - h)) xs) ! i"
  proof (cases "h + i < ?L")
    case True
    then show ?thesis using i assms by (auto simp: nth_append)
  next
    case False
    then have "(h + i) mod ?L = h + i - ?L"
      using i assms by (simp add: mod_if)
    then show ?thesis using False i assms by (auto simp: nth_append add.commute)
  qed
qed

lemmas ring_facts = length_ring_view nth_ring_view ring_view_take ring_view_drop

section \<open>Integer division\<close>

text \<open>Go's integer division truncates towards zero, and the remainder has the sign of the dividend.\<close>

definition go_div :: "int \<Rightarrow> int \<Rightarrow> int" where
  "go_div a b = sgn a * sgn b * (\<bar>a\<bar> div \<bar>b\<bar>)"

definition go_mod :: "int \<Rightarrow> int \<Rightarrow> int" where
  "go_mod a b = a - b * go_div a b"

lemma go_div_nonneg [simp]: "0 \<le> a \<Longrightarrow> 0 < b \<Longrightarrow> go_div a b = a div b"
  by (cases "a = 0") (simp_all add: go_div_def)

lemma go_mod_nonneg [simp]: "0 \<le> a \<Longrightarrow> 0 < b \<Longrightarrow> go_mod a b = a mod b"
  by (simp add: go_mod_def minus_mult_div_eq_mod)

section \<open>Error results\<close>

text \<open>A Go function \<open>(T, error)\<close> whose value is meaningful only without an error.\<close>

abbreviation is_ok :: "('e + 'a) \<Rightarrow> bool" where
  "is_ok r \<equiv> \<not> Sum_Type.isl r"

lemma sum_case_Inr [elim]:
  assumes "(case r of Inl e \<Rightarrow> Inl e | Inr x \<Rightarrow> f x) = Inr y"
  obtains x where "r = Inr x" and "f x = Inr y"
  using assms by (cases r) auto

end
