(* ===== verification/Sample_Ring.thy ===== *)
theory Sample_Ring
  imports Prelude
begin

text \<open>
  \<open>internal/voice/audio/ring.go\<close>: the fixed-capacity PCM ring that keeps the newest
  samples for the voice-activity pre-roll. The ring is read through \<open>ring_contents\<close>,
  the list of its samples from the oldest to the newest; the contract of the component
  is that \<open>WriteLatest\<close> appends and keeps the newest \<open>Cap\<close> samples.
\<close>

record sample_ring =
  samples :: "i16 list"
  head :: nat
  size :: nat

definition PreRollSamples :: nat where
  "PreRollSamples = 16000 div 2"

datatype ring_error = ErrInvalidRingCapacity

definition NewSampleRing :: "int \<Rightarrow> ring_error + sample_ring" where
  "NewSampleRing capacity =
     (if capacity \<le> 0 then Inl ErrInvalidRingCapacity
      else Inr \<lparr>samples = replicate (nat capacity) 0, head = 0, size = 0\<rparr>)"

definition NewPreRollRing :: sample_ring where
  "NewPreRollRing = \<lparr>samples = replicate PreRollSamples 0, head = 0, size = 0\<rparr>"

text \<open>One iteration of the per-sample loop of \<open>WriteLatest\<close>.\<close>

definition write_sample :: "sample_ring \<Rightarrow> i16 \<Rightarrow> sample_ring" where
  "write_sample ring sample =
     (if size ring < length (samples ring)
      then let index = (head ring + size ring) mod length (samples ring)
           in ring\<lparr>samples := (samples ring)[index := sample], size := size ring + 1\<rparr>
      else ring\<lparr>samples := (samples ring)[head ring := sample],
                head := (head ring + 1) mod length (samples ring)\<rparr>)"

fun write_samples :: "sample_ring \<Rightarrow> i16 list \<Rightarrow> sample_ring" where
  "write_samples ring [] = ring"
| "write_samples ring (s # ss) = write_samples (write_sample ring s) ss"

definition WriteLatest :: "sample_ring \<Rightarrow> i16 list \<Rightarrow> int \<times> sample_ring" where
  "WriteLatest ring source =
     (let available = int (length (samples ring)) - int (size ring);
          dropped = int (length source) - available;
          dropped = (if dropped < 0 then 0 else dropped)
      in if length source \<ge> length (samples ring)
         then let tail = drop (length source - length (samples ring)) source
              in (dropped, ring\<lparr>samples := copy_into (samples ring) 0 tail, head := 0,
                                size := length (samples ring)\<rparr>)
         else (dropped, write_samples ring source))"

fun copy_latest_loop :: "i16 list \<Rightarrow> nat \<Rightarrow> nat \<Rightarrow> nat \<Rightarrow> i16 list \<Rightarrow> i16 list" where
  "copy_latest_loop buf start index 0 destination = destination"
| "copy_latest_loop buf start index (Suc left) destination =
     copy_latest_loop buf start (index + 1) left
       (destination[index := buf ! ((start + index) mod length buf)])"

definition CopyLatest :: "sample_ring \<Rightarrow> i16 list \<Rightarrow> nat \<times> i16 list" where
  "CopyLatest ring destination =
     (let count = (if length destination < size ring then length destination else size ring)
      in if count = 0 then (0, destination)
         else let start = (head ring + size ring - count) mod length (samples ring)
              in (count, copy_latest_loop (samples ring) start 0 count destination))"

definition ring_Len :: "sample_ring \<Rightarrow> nat" where
  "ring_Len ring = size ring"

definition ring_Cap :: "sample_ring \<Rightarrow> nat" where
  "ring_Cap ring = length (samples ring)"

definition ring_Reset :: "sample_ring \<Rightarrow> sample_ring" where
  "ring_Reset ring =
     ring\<lparr>samples := clear_range 0 (samples ring) 0 (length (samples ring)), head := 0, size := 0\<rparr>"

section \<open>Invariant and contents\<close>

definition ring_inv :: "sample_ring \<Rightarrow> bool" where
  "ring_inv r \<longleftrightarrow> 0 < length (samples r) \<and> head r < length (samples r) \<and> size r \<le> length (samples r)"

definition ring_contents :: "sample_ring \<Rightarrow> i16 list" where
  "ring_contents r = ring_view (samples r) (head r) (size r)"

text \<open>The newest \<open>n\<close> elements of a list: the specification of what the ring keeps.\<close>

definition newest :: "nat \<Rightarrow> 'a list \<Rightarrow> 'a list" where
  "newest n xs = drop (length xs - n) xs"

lemma length_newest [simp]: "length (newest n xs) = min n (length xs)"
  by (auto simp: newest_def)

lemma newest_all [simp]: "length xs \<le> n \<Longrightarrow> newest n xs = xs"
  by (simp add: newest_def)

lemma newest_append_full: "n \<le> length ys \<Longrightarrow> newest n (xs @ ys) = newest n ys"
  by (simp add: newest_def)

lemma newest_newest_append: "newest n (newest n xs @ ys) = newest n (xs @ ys)"
  by (cases "length xs \<le> n") (auto simp: newest_def drop_append add.commute)

lemma newest_snoc_full:
  "length xs = n \<Longrightarrow> 0 < n \<Longrightarrow> newest n (xs @ [x]) = tl xs @ [x]"
  by (cases xs) (auto simp: newest_def)

lemma length_ring_contents [simp]: "length (ring_contents r) = size r"
  by (simp add: ring_contents_def)

lemma NewSampleRing_inv: "NewSampleRing c = Inr r \<Longrightarrow> ring_inv r \<and> ring_contents r = []"
  by (auto simp: NewSampleRing_def ring_inv_def ring_contents_def split: if_splits)

lemma NewPreRollRing_inv: "ring_inv NewPreRollRing"
  by (simp add: NewPreRollRing_def ring_inv_def PreRollSamples_def)

lemma write_sample_inv: "ring_inv r \<Longrightarrow> ring_inv (write_sample r s)"
  by (auto simp: ring_inv_def write_sample_def Let_def)

lemma write_sample_cap [simp]: "length (samples (write_sample r s)) = length (samples r)"
  by (simp add: write_sample_def Let_def)

lemma write_sample_contents:
  assumes "ring_inv r"
  shows "ring_contents (write_sample r s) = newest (length (samples r)) (ring_contents r @ [s])"
proof (cases "size r < length (samples r)")
  case True
  with ring_view_push [OF True, of "head r" s] show ?thesis
    by (simp add: write_sample_def ring_contents_def Let_def)
next
  case False
  with assms have full: "size r = length (samples r)" and h: "head r < length (samples r)"
    by (auto simp: ring_inv_def)
  have "0 < length (samples r)" using h by linarith
  with full h ring_view_overwrite [OF h, of s] show ?thesis
    by (simp add: write_sample_def ring_contents_def newest_snoc_full)
qed

lemma write_samples_correct:
  "ring_inv r \<Longrightarrow> ring_inv (write_samples r ss) \<and>
     length (samples (write_samples r ss)) = length (samples r) \<and>
     ring_contents (write_samples r ss) = newest (length (samples r)) (ring_contents r @ ss)"
proof (induction ss arbitrary: r)
  case Nil
  then show ?case by (simp add: ring_inv_def)
next
  case (Cons s ss)
  have "ring_inv (write_sample r s)" by (rule write_sample_inv [OF Cons.prems])
  from Cons.IH [OF this] show ?case
    using newest_newest_append [of "length (samples r)" "ring_contents r @ [s]" ss]
    by (simp add: write_sample_contents [OF Cons.prems])
qed

lemma WriteLatest_correct:
  assumes "ring_inv r" and "WriteLatest r src = (d, r')"
  shows "ring_inv r'" and "ring_Cap r' = ring_Cap r"
    and "ring_contents r' = newest (ring_Cap r) (ring_contents r @ src)"
    and "d = int (size r + length src) - int (size r')"
proof -
  have inv: "0 < length (samples r)" "head r < length (samples r)" "size r \<le> length (samples r)"
    using assms(1) by (auto simp: ring_inv_def)
  have "ring_inv r' \<and> ring_Cap r' = ring_Cap r \<and>
      ring_contents r' = newest (ring_Cap r) (ring_contents r @ src) \<and>
      d = int (size r + length src) - int (size r')"
  proof (cases "length src \<ge> length (samples r)")
    case True
    let ?L = "length (samples r)"
    have len: "length (drop (length src - ?L) src) = ?L" using True by simp
    have v: "ring_view xs 0 (length xs) = xs" for xs :: "i16 list"
      by (rule ring_view_eqI) auto
    have "samples r' = drop (length src - ?L) src" "head r' = 0" "size r' = ?L"
      and "d = int (length src) - (int ?L - int (size r))"
      using True assms(2) len inv by (auto simp: WriteLatest_def Let_def copy_into_0_fits)
    with True len inv v [of "drop (length src - ?L) src"] show ?thesis
      by (simp add: ring_inv_def ring_contents_def ring_Cap_def newest_append_full)
         (simp add: newest_def)
  next
    case False
    then have r': "r' = write_samples r src"
      and d: "d = max 0 (int (length src) - (int (length (samples r)) - int (size r)))"
      using assms(2) by (auto simp: WriteLatest_def Let_def max_def)
    from write_samples_correct [OF assms(1), of src] have c:
      "ring_contents r' = newest (length (samples r)) (ring_contents r @ src)"
      "ring_inv r'" "length (samples r') = length (samples r)" by (auto simp: r')
    from arg_cong [OF c(1), of length] have "size r' = min (length (samples r)) (size r + length src)"
      by simp
    with c d inv show ?thesis by (auto simp: ring_Cap_def)
  qed
  then show "ring_inv r'" "ring_Cap r' = ring_Cap r"
    "ring_contents r' = newest (ring_Cap r) (ring_contents r @ src)"
    "d = int (size r + length src) - int (size r')" by blast+
qed

lemma copy_latest_loop_nth:
  "index + left \<le> length dst \<Longrightarrow> length (copy_latest_loop buf start index left dst) = length dst \<and>
   (\<forall>i < length dst. copy_latest_loop buf start index left dst ! i =
      (if index \<le> i \<and> i < index + left then buf ! ((start + i) mod length buf) else dst ! i))"
proof (induction left arbitrary: index dst)
  case 0
  then show ?case by auto
next
  case (Suc left)
  from Suc.IH [of "index + 1" "dst[index := buf ! ((start + index) mod length buf)]"] Suc.prems
  show ?case by (auto simp: nth_list_update) (metis le_antisym not_less_eq_eq)
qed

lemma CopyLatest_correct:
  assumes "ring_inv r"
  shows "CopyLatest r dst =
    (min (length dst) (size r), copy_into dst 0 (newest (length dst) (ring_contents r)))"
proof -
  let ?n = "min (length dst) (size r)" and ?L = "length (samples r)"
  let ?start = "(head r + size r - ?n) mod ?L"
  have inv: "size r \<le> ?L" "0 < ?L" using assms by (auto simp: ring_inv_def)
  have n: "newest (length dst) (ring_contents r) = ring_view (samples r) ?start ?n"
    using ring_view_drop [of "size r - ?n" "size r" "samples r" "head r"]
    by (auto simp: newest_def ring_contents_def min_def)
  have "copy_latest_loop (samples r) ?start 0 ?n dst =
      copy_into dst 0 (newest (length dst) (ring_contents r))"
    using copy_latest_loop_nth [of 0 ?n dst "samples r" ?start]
    by (intro nth_equalityI) (auto simp: nth_copy_into n)
  moreover have "?n = 0 \<Longrightarrow> copy_into dst 0 (newest (length dst) (ring_contents r)) = dst"
    by (simp add: n)
  moreover have "(if length dst < size r then length dst else size r) = ?n" by auto
  ultimately show ?thesis unfolding CopyLatest_def by (auto simp: Let_def)
qed

lemma ring_Reset_correct: "ring_inv r \<Longrightarrow> ring_inv (ring_Reset r) \<and> ring_contents (ring_Reset r) = []"
  by (simp add: ring_inv_def ring_Reset_def ring_contents_def)

end
