(* ===== verification/Audio_Frames.thy ===== *)
theory Audio_Frames
  imports Prelude
begin

unbundle bit_operations_syntax

text \<open>
  \<open>internal/voice/audio\<close>: the frame constants (\<open>decoder.go\<close>), the error values of the
  package, the PCM16LE byte codec (\<open>pcm.go\<close>), the RTP clock (\<open>clock.go\<close>) and the frame
  encoder and decoder around an Opus codec (\<open>encoder.go\<close>, \<open>decoder.go\<close>). The codec
  itself is libopus and is a parameter: a function of its own state, the input and the
  destination buffer.
\<close>

definition PCMRateHz :: nat where "PCMRateHz = 16000"
definition RTPClockRateHz :: nat where "RTPClockRateHz = 48000"
definition FrameDurationMS :: nat where "FrameDurationMS = 20"
definition SamplesPerFrame :: nat where "SamplesPerFrame = PCMRateHz * FrameDurationMS div 1000"
definition PCMBytesPerFrame :: nat where "PCMBytesPerFrame = SamplesPerFrame * 2"
definition RTPTimePerFrame :: u32 where "RTPTimePerFrame = of_nat (RTPClockRateHz * FrameDurationMS div 1000)"
definition MaxOpusPacketBytes :: nat where "MaxOpusPacketBytes = 1276"

lemma SamplesPerFrame_eq [simp]: "SamplesPerFrame = 320"
  by (simp add: SamplesPerFrame_def PCMRateHz_def FrameDurationMS_def)

lemma RTPTimePerFrame_eq: "RTPTimePerFrame = 960"
  by (simp add: RTPTimePerFrame_def RTPClockRateHz_def FrameDurationMS_def)

lemma MaxOpusPacketBytes_eq [simp]: "MaxOpusPacketBytes = 1276"
  by (simp add: MaxOpusPacketBytes_def)

text \<open>
  The sentinel errors of the package. \<open>ForeignError\<close> stands for an error value that a
  codec, a sender, a pacer or a context returns and this package only passes on.
\<close>

datatype audio_error =
    ErrInvalidGeneration | ErrNoActiveGeneration | ErrStaleGeneration | ErrFutureGeneration
  | ErrGenerationCancelled | ErrQueueOverflow | ErrQueueEmpty | ErrQueueClosed
  | ErrInvalidOpusPacket | ErrOpusPacketTooLarge
  | ErrInvalidPCMBytes | ErrDestinationTooSmall
  | ErrNilEncoder | ErrInvalidPCMFrame | ErrInvalidEncodedBytes
  | ErrNilDecoder | ErrUnexpectedDecodedSamples
  | ErrRTPClockReserved | ErrNoRTPTimestampReservation | ErrRTPTimestampMismatch
  | ErrInvalidPlayback | ErrPlaybackFinished
  | ForeignError nat

section \<open>PCM16LE\<close>

definition le_sample :: "u8 \<Rightarrow> u8 \<Rightarrow> i16" where
  "le_sample lo hi = (ucast lo) OR (push_bit 8 (ucast hi))"

fun pcm_to_samples_loop :: "u8 list \<Rightarrow> nat \<Rightarrow> nat \<Rightarrow> i16 list \<Rightarrow> i16 list" where
  "pcm_to_samples_loop source index 0 destination = destination"
| "pcm_to_samples_loop source index (Suc left) destination =
     (let offset = index * 2
      in pcm_to_samples_loop source (index + 1) left
           (destination[index := le_sample (source ! offset) (source ! (offset + 1))]))"

definition PCM16LEToSamples :: "u8 list \<Rightarrow> i16 list \<Rightarrow> audio_error + (nat \<times> i16 list)" where
  "PCM16LEToSamples source destination =
     (if length source mod 2 \<noteq> 0 then Inl ErrInvalidPCMBytes
      else let samples = length source div 2
           in if length destination < samples then Inl ErrDestinationTooSmall
              else Inr (samples, pcm_to_samples_loop source 0 samples destination))"

fun samples_to_pcm_loop :: "i16 list \<Rightarrow> nat \<Rightarrow> u8 list \<Rightarrow> u8 list" where
  "samples_to_pcm_loop [] index destination = destination"
| "samples_to_pcm_loop (sample # rest) index destination =
     (let offset = index * 2
      in samples_to_pcm_loop rest (index + 1)
           (destination[offset := ucast sample, offset + 1 := ucast (drop_bit 8 sample)]))"

definition SamplesToPCM16LE :: "i16 list \<Rightarrow> u8 list \<Rightarrow> audio_error + (nat \<times> u8 list)" where
  "SamplesToPCM16LE source destination =
     (let bytesRequired = length source * 2
      in if length destination < bytesRequired then Inl ErrDestinationTooSmall
         else Inr (bytesRequired, samples_to_pcm_loop source 0 destination))"

text \<open>The byte sequence and the sample sequence the two loops realise.\<close>

definition sample_bytes :: "i16 \<Rightarrow> u8 list" where
  "sample_bytes s = [ucast s, ucast (drop_bit 8 s)]"

fun decode_pcm :: "u8 list \<Rightarrow> i16 list" where
  "decode_pcm (lo # hi # rest) = le_sample lo hi # decode_pcm rest"
| "decode_pcm _ = []"

lemma le_sample_bytes [simp]: "le_sample (ucast s) (ucast (drop_bit 8 s)) = s"
  by (rule bit_word_eqI)
     (auto simp: le_sample_def bit_simps le_less_Suc_eq not_le)

lemma ucast_le_sample [simp]: "ucast (le_sample lo hi) = lo"
  by (rule bit_word_eqI) (auto simp: le_sample_def bit_simps)

lemma ucast_drop_le_sample [simp]: "ucast (drop_bit 8 (le_sample lo hi)) = hi"
  by (rule bit_word_eqI) (auto simp: le_sample_def bit_simps dest: bit_imp_le_length)

lemma decode_pcm_encode [simp]: "decode_pcm (concat (map sample_bytes ss)) = ss"
  by (induction ss) (simp_all add: sample_bytes_def)

lemma encode_decode_pcm: "even (length bs) \<Longrightarrow> concat (map sample_bytes (decode_pcm bs)) = bs"
  by (induction bs rule: decode_pcm.induct) (auto simp: sample_bytes_def)

lemma length_decode_pcm [simp]: "length (decode_pcm bs) = length bs div 2"
  by (induction bs rule: decode_pcm.induct) auto

lemma nth_decode_pcm:
  "i < length bs div 2 \<Longrightarrow> decode_pcm bs ! i = le_sample (bs ! (i * 2)) (bs ! (i * 2 + 1))"
proof (induction bs arbitrary: i rule: decode_pcm.induct)
  case (1 lo hi rest)
  then show ?case by (cases i) auto
qed auto

lemma length_concat_sample_bytes [simp]: "length (concat (map sample_bytes ss)) = length ss * 2"
  by (induction ss) (auto simp: sample_bytes_def)

lemma pcm_to_samples_loop_eq:
  "index + left \<le> length dst \<Longrightarrow> (index + left) * 2 \<le> length src \<Longrightarrow>
   pcm_to_samples_loop src index left dst =
     copy_into dst index (take left (drop index (decode_pcm src)))"
proof (induction left arbitrary: index dst)
  case 0
  then show ?case by simp
next
  case (Suc left)
  have i: "index < length (decode_pcm src)" using Suc.prems by simp
  then have "drop index (decode_pcm src) = decode_pcm src ! index # drop (Suc index) (decode_pcm src)"
    by (simp add: Cons_nth_drop_Suc)
  moreover have "decode_pcm src ! index = le_sample (src ! (index * 2)) (src ! (index * 2 + 1))"
    using i by (intro nth_decode_pcm) simp
  moreover have "copy_into (dst[index := x]) (Suc index) ys = copy_into dst index (x # ys)"
    if "index < length dst" for x :: i16 and ys
    using that by (intro nth_equalityI) (auto simp: nth_copy_into nth_list_update nth_Cons')
  ultimately show ?case using Suc by (simp add: Let_def)
qed

lemma samples_to_pcm_loop_eq:
  "(index + length ss) * 2 \<le> length dst \<Longrightarrow>
   samples_to_pcm_loop ss index dst = copy_into dst (index * 2) (concat (map sample_bytes ss))"
proof (induction ss arbitrary: index dst)
  case Nil
  then show ?case by simp
next
  case (Cons s ss)
  let ?o = "index * 2"
  have "copy_into (dst[?o := a, ?o + 1 := b]) (?o + 2) ys = copy_into dst ?o (a # b # ys)"
    for a b :: u8 and ys
  proof -
    have "?o + 1 < length dst" using Cons.prems by simp
    then show ?thesis
      by (intro nth_equalityI) (auto simp: nth_copy_into nth_list_update nth_Cons' Suc_diff_le)
  qed
  with Cons show ?case by (simp add: Let_def sample_bytes_def)
qed

lemma PCM16LEToSamples_eq:
  "PCM16LEToSamples src dst =
     (if odd (length src) then Inl ErrInvalidPCMBytes
      else if length dst < length src div 2 then Inl ErrDestinationTooSmall
      else Inr (length src div 2, copy_into dst 0 (decode_pcm src)))"
  by (auto simp: PCM16LEToSamples_def Let_def pcm_to_samples_loop_eq odd_iff_mod_2_eq_one)

lemma SamplesToPCM16LE_eq:
  "SamplesToPCM16LE ss dst =
     (if length dst < length ss * 2 then Inl ErrDestinationTooSmall
      else Inr (length ss * 2, copy_into dst 0 (concat (map sample_bytes ss))))"
  by (simp add: SamplesToPCM16LE_def Let_def samples_to_pcm_loop_eq)

section \<open>RTP clock\<close>

record rtp_clock =
  clock_next :: u32
  reserved :: bool

definition NewRTPClock :: "u32 \<Rightarrow> rtp_clock" where
  "NewRTPClock initial = \<lparr>clock_next = initial, reserved = False\<rparr>"

definition Prepare :: "rtp_clock \<Rightarrow> (audio_error + u32) \<times> rtp_clock" where
  "Prepare clock =
     (if reserved clock then (Inl ErrRTPClockReserved, clock)
      else (Inr (clock_next clock), clock\<lparr>reserved := True\<rparr>))"

definition Commit :: "u32 \<Rightarrow> rtp_clock \<Rightarrow> audio_error option \<times> rtp_clock" where
  "Commit timestamp clock =
     (if \<not> reserved clock then (Some ErrNoRTPTimestampReservation, clock)
      else if timestamp \<noteq> clock_next clock then (Some ErrRTPTimestampMismatch, clock)
      else (None, clock\<lparr>clock_next := clock_next clock + RTPTimePerFrame, reserved := False\<rparr>))"

definition clock_Abort :: "u32 \<Rightarrow> rtp_clock \<Rightarrow> audio_error option \<times> rtp_clock" where
  "clock_Abort timestamp clock =
     (if \<not> reserved clock then (Some ErrNoRTPTimestampReservation, clock)
      else if timestamp \<noteq> clock_next clock then (Some ErrRTPTimestampMismatch, clock)
      else (None, clock\<lparr>reserved := False\<rparr>))"

datatype clock_call = CallPrepare | CallCommit u32 | CallAbort u32

text \<open>
  A history of calls on one clock, in the order the mutex serialises them. It yields the
  final clock and the timestamps of the frames that were committed, oldest first.
\<close>

fun clock_run :: "rtp_clock \<Rightarrow> clock_call list \<Rightarrow> rtp_clock \<times> u32 list" where
  "clock_run c [] = (c, [])"
| "clock_run c (CallPrepare # cs) = clock_run (snd (Prepare c)) cs"
| "clock_run c (CallCommit t # cs) =
     (let (e, c') = Commit t c; (c'', ts) = clock_run c' cs
      in (c'', if e = None then t # ts else ts))"
| "clock_run c (CallAbort t # cs) = clock_run (snd (clock_Abort t c)) cs"

lemma clock_run_committed:
  "clock_run c cs = (c', ts) \<Longrightarrow>
     ts = map (\<lambda>k. clock_next c + of_nat k * RTPTimePerFrame) [0..<length ts] \<and>
     clock_next c' = clock_next c + of_nat (length ts) * RTPTimePerFrame"
proof (induction c cs arbitrary: c' ts rule: clock_run.induct)
  case (1 c)
  then show ?case by simp
next
  case (2 c cs)
  then show ?case by (simp add: Prepare_def split: if_splits)
next
  case (3 c t cs)
  obtain e c1 where cm: "Commit t c = (e, c1)" by fastforce
  obtain c2 us where r: "clock_run c1 cs = (c2, us)" by fastforce
  from "3.IH" [OF cm [symmetric] refl r] have IH:
    "us = map (\<lambda>k. clock_next c1 + of_nat k * RTPTimePerFrame) [0..<length us]"
    "clock_next c2 = clock_next c1 + of_nat (length us) * RTPTimePerFrame" by auto
  from "3.prems" cm r have res: "c' = c2" "ts = (if e = None then t # us else us)" by auto
  show ?case
  proof (cases e)
    case (Some x)
    then have "c1 = c" using cm by (auto simp: Commit_def split: if_splits)
    with IH res Some show ?thesis by simp
  next
    case None
    then have t: "t = clock_next c" and n: "clock_next c1 = clock_next c + RTPTimePerFrame"
      using cm by (auto simp: Commit_def split: if_splits)
    have "map (\<lambda>k. clock_next c + of_nat k * RTPTimePerFrame) [0..<Suc (length us)] =
        clock_next c # map (\<lambda>k. clock_next c1 + of_nat k * RTPTimePerFrame) [0..<length us]"
      by (subst map_upt_Suc) (auto simp: n algebra_simps)
    with IH t n None res show ?thesis by (auto simp: algebra_simps)
  qed
next
  case (4 c t cs)
  then show ?case by (simp add: clock_Abort_def split: if_splits)
qed

section \<open>Frame encoder and decoder\<close>

text \<open>
  A codec is a function of its state, the input and the caller-owned destination; it
  returns the count, the error and the destination as it left it. A Go slice argument
  cannot change length in the caller, which \<open>codec_keeps_buffer\<close> names.
\<close>

type_synonym ('c, 'a, 'b) codec = "'c \<Rightarrow> 'a list \<Rightarrow> 'b list \<Rightarrow> (int \<times> audio_error option) \<times> 'b list \<times> 'c"

definition codec_keeps_buffer :: "('c, 'a, 'b) codec \<Rightarrow> bool" where
  "codec_keeps_buffer codec \<longleftrightarrow> (\<forall>c xs dst. length (fst (snd (codec c xs dst))) = length dst)"

record 'c frame_encoder =
  enc_state :: 'c
  packet :: "u8 list"

definition NewFrameEncoder :: "'c option \<Rightarrow> audio_error + 'c frame_encoder" where
  "NewFrameEncoder encoder =
     (case encoder of None \<Rightarrow> Inl ErrNilEncoder
      | Some c \<Rightarrow> Inr \<lparr>enc_state = c, packet = replicate MaxOpusPacketBytes 0\<rparr>)"

definition Encode :: "('c, i16, u8) codec \<Rightarrow> 'c frame_encoder \<Rightarrow> i16 list
    \<Rightarrow> (audio_error + u8 list) \<times> 'c frame_encoder" where
  "Encode codec encoder pcm =
     (if length pcm \<noteq> SamplesPerFrame then (Inl ErrInvalidPCMFrame, encoder)
      else
        let cleared = clear_range 0 (packet encoder) 0 (length (packet encoder));
            ((encodedBytes, err), buf, c') = codec (enc_state encoder) pcm cleared;
            wiped = \<lparr>enc_state = c', packet = clear_range 0 buf 0 (length buf)\<rparr>
        in case err of
             Some e \<Rightarrow> (Inl e, wiped)
           | None \<Rightarrow>
               if encodedBytes \<le> 0 \<or> encodedBytes > int (length buf)
               then (Inl ErrInvalidEncodedBytes, wiped)
               else (Inr (take (nat encodedBytes) buf), \<lparr>enc_state = c', packet = buf\<rparr>))"

definition encoder_Reset :: "'c frame_encoder \<Rightarrow> 'c frame_encoder" where
  "encoder_Reset encoder = encoder\<lparr>packet := clear_range 0 (packet encoder) 0 (length (packet encoder))\<rparr>"

record 'c frame_decoder =
  dec_state :: 'c
  pcm_buf :: "i16 list"

definition NewFrameDecoder :: "'c option \<Rightarrow> audio_error + 'c frame_decoder" where
  "NewFrameDecoder decoder =
     (case decoder of None \<Rightarrow> Inl ErrNilDecoder
      | Some c \<Rightarrow> Inr \<lparr>dec_state = c, pcm_buf = replicate SamplesPerFrame 0\<rparr>)"

definition Decode :: "('c, u8, i16) codec \<Rightarrow> 'c frame_decoder \<Rightarrow> u8 list
    \<Rightarrow> (audio_error + i16 list) \<times> 'c frame_decoder" where
  "Decode codec decoder payload =
     (let cleared = clear_range 0 (pcm_buf decoder) 0 (length (pcm_buf decoder));
          ((samples, err), buf, c') = codec (dec_state decoder) payload cleared;
          wiped = \<lparr>dec_state = c', pcm_buf = clear_range 0 buf 0 (length buf)\<rparr>
      in case err of
           Some e \<Rightarrow> (Inl e, wiped)
         | None \<Rightarrow>
             if samples \<noteq> int SamplesPerFrame then (Inl ErrUnexpectedDecodedSamples, wiped)
             else (Inr (take (nat samples) buf), \<lparr>dec_state = c', pcm_buf = buf\<rparr>))"

definition decoder_Reset :: "'c frame_decoder \<Rightarrow> 'c frame_decoder" where
  "decoder_Reset decoder = decoder\<lparr>pcm_buf := clear_range 0 (pcm_buf decoder) 0 (length (pcm_buf decoder))\<rparr>"

definition encoder_inv :: "'c frame_encoder \<Rightarrow> bool" where
  "encoder_inv e \<longleftrightarrow> length (packet e) = MaxOpusPacketBytes"

definition decoder_inv :: "'c frame_decoder \<Rightarrow> bool" where
  "decoder_inv d \<longleftrightarrow> length (pcm_buf d) = SamplesPerFrame"

lemma clear_range_all: "clear_range z xs 0 (length xs) = replicate (length xs) z"
  by (simp add: clear_range_def copy_into_0_fits)

lemma clear_range_whole: "length xs = n \<Longrightarrow> clear_range z xs 0 n = replicate n z"
  using clear_range_all [of z xs] by simp

lemma Encode_correct:
  assumes "codec_keeps_buffer codec" and "encoder_inv e" and "Encode codec e pcm = (r, e')"
  shows "encoder_inv e'"
    and "r = Inr out \<Longrightarrow> 0 < length out \<and> length out \<le> MaxOpusPacketBytes \<and> length pcm = SamplesPerFrame"
    and "r = Inl err \<Longrightarrow> length pcm = SamplesPerFrame \<Longrightarrow> packet e' = replicate MaxOpusPacketBytes 0"
proof -
  obtain n er buf c' where co: "codec (enc_state e) pcm (clear_range 0 (packet e) 0 (length (packet e)))
      = ((n, er), buf, c')" by (metis surj_pair)
  from assms(1) have "length (fst (snd (codec (enc_state e) pcm
      (clear_range 0 (packet e) 0 (length (packet e)))))) = length (clear_range 0 (packet e) 0 (length (packet e)))"
    by (simp add: codec_keeps_buffer_def)
  then have len: "length buf = MaxOpusPacketBytes" using assms(2) co by (simp add: encoder_inv_def)
  show "encoder_inv e'"
    using assms(2,3) co len
    by (auto simp: Encode_def Let_def encoder_inv_def split: if_splits option.splits)
  show "0 < length out \<and> length out \<le> MaxOpusPacketBytes \<and> length pcm = SamplesPerFrame" if "r = Inr out"
    using assms(3) co len that by (auto simp: Encode_def Let_def split: if_splits option.splits)
  show "packet e' = replicate MaxOpusPacketBytes 0" if "r = Inl err" "length pcm = SamplesPerFrame"
    using assms(3) co len that by (auto simp: Encode_def Let_def clear_range_all split: if_splits option.splits)
qed

lemma Decode_correct:
  assumes "codec_keeps_buffer codec" and "decoder_inv d" and "Decode codec d payload = (r, d')"
  shows "decoder_inv d'"
    and "r = Inr out \<Longrightarrow> length out = SamplesPerFrame"
    and "r = Inl err \<Longrightarrow> pcm_buf d' = replicate SamplesPerFrame 0"
proof -
  obtain n er buf c' where co: "codec (dec_state d) payload (clear_range 0 (pcm_buf d) 0 (length (pcm_buf d)))
      = ((n, er), buf, c')" by (metis surj_pair)
  from assms(1) have "length (fst (snd (codec (dec_state d) payload
      (clear_range 0 (pcm_buf d) 0 (length (pcm_buf d)))))) = length (clear_range 0 (pcm_buf d) 0 (length (pcm_buf d)))"
    by (simp add: codec_keeps_buffer_def)
  then have len: "length buf = SamplesPerFrame" using assms(2) co by (simp add: decoder_inv_def)
  show "decoder_inv d'"
    using assms(2,3) co len
    by (auto simp: Decode_def Let_def decoder_inv_def split: if_splits option.splits)
  show "length out = SamplesPerFrame" if "r = Inr out"
    using assms(3) co len that by (auto simp: Decode_def Let_def split: if_splits option.splits)
  show "pcm_buf d' = replicate SamplesPerFrame 0" if "r = Inl err"
    using assms(3) co len that by (auto simp: Decode_def Let_def clear_range_all split: if_splits option.splits)
qed

end
