(* ===== verification/Generation_Queues.thy ===== *)
theory Generation_Queues
  imports Audio_Frames
begin

text \<open>
  \<open>internal/voice/audio/queue.go\<close>: the two bounded queues (PCM samples before the
  encoder, Opus packets after it) bound to one active generation. Both are circular
  buffers over fixed arrays; generations are \<open>uint64\<close>. The cancellation callback is
  outside this component: an operation returns the calls it makes to it.
\<close>

definition TTSQueueSamples :: nat where "TTSQueueSamples = PCMRateHz * 750 div 1000"
definition OpusQueueFrames :: nat where "OpusQueueFrames = 12"

lemma TTSQueueSamples_eq [simp]: "TTSQueueSamples = 12000"
  by (simp add: TTSQueueSamples_def PCMRateHz_def)

lemma OpusQueueFrames_eq [simp]: "OpusQueueFrames = 12"
  by (simp add: OpusQueueFrames_def)

record opus_slot =
  slot_size :: nat
  payload :: "u8 list"

definition zero_slot :: opus_slot where
  "zero_slot = \<lparr>slot_size = 0, payload = replicate MaxOpusPacketBytes 0\<rparr>"

text \<open>\<open>onCancel\<close> records whether a callback is installed (non-nil).\<close>

record queues =
  generation :: u64
  cancelled :: bool
  closed :: bool
  onCancel :: bool
  pcm :: "i16 list"
  pcmHead :: nat
  pcmSize :: nat
  opus :: "opus_slot list"
  opusHead :: nat
  opusSize :: nat

record queue_state =
  st_Generation :: u64
  st_PCMSamples :: nat
  st_OpusFrames :: nat
  st_Cancelled :: bool
  st_Closed :: bool

type_synonym callbacks = "(u64 \<times> audio_error) list"

definition NewGenerationQueues :: "bool \<Rightarrow> queues" where
  "NewGenerationQueues callback =
     \<lparr>generation = 0, cancelled = False, closed = False, onCancel = callback,
      pcm = replicate TTSQueueSamples 0, pcmHead = 0, pcmSize = 0,
      opus = replicate OpusQueueFrames zero_slot, opusHead = 0, opusSize = 0\<rparr>"

definition clearAudioLocked :: "queues \<Rightarrow> queues" where
  "clearAudioLocked q =
     q\<lparr>pcm := clear_range 0 (pcm q) 0 (length (pcm q)), pcmHead := 0, pcmSize := 0,
       opus := map (\<lambda>_. zero_slot) (opus q), opusHead := 0, opusSize := 0\<rparr>"

definition validateGenerationLocked :: "u64 \<Rightarrow> queues \<Rightarrow> audio_error option" where
  "validateGenerationLocked g q =
     (if closed q then Some ErrQueueClosed
      else if g = 0 then Some ErrInvalidGeneration
      else if generation q = 0 then Some ErrNoActiveGeneration
      else if g < generation q then Some ErrStaleGeneration
      else if g > generation q then Some ErrFutureGeneration
      else if cancelled q then Some ErrGenerationCancelled
      else None)"

text \<open>Returns whether a non-nil callback is handed back to the caller.\<close>

definition cancelLocked :: "queues \<Rightarrow> bool \<times> queues" where
  "cancelLocked q =
     (if cancelled q then (False, q)
      else (onCancel q, (clearAudioLocked q)\<lparr>cancelled := True\<rparr>))"

definition pushPCMLocked :: "i16 list \<Rightarrow> queues \<Rightarrow> queues" where
  "pushPCMLocked source q =
     (if length source = 0 then q
      else
        let writeIndex = (pcmHead q + pcmSize q) mod length (pcm q);
            first = (if length source > length (pcm q) - writeIndex
                     then length (pcm q) - writeIndex else length source);
            buf = copy_into (pcm q) writeIndex (take first source);
            buf = copy_into buf 0 (drop first source)
        in q\<lparr>pcm := buf, pcmSize := pcmSize q + length source\<rparr>)"

definition popPCMLocked :: "i16 list \<Rightarrow> queues \<Rightarrow> i16 list \<times> queues" where
  "popPCMLocked destination q =
     (let n = length destination;
          first = (if n > length (pcm q) - pcmHead q then length (pcm q) - pcmHead q else n);
          dst = copy_into destination 0 (take first (drop (pcmHead q) (pcm q)));
          buf = clear_range 0 (pcm q) (pcmHead q) (pcmHead q + first);
          dst = copy_into dst first (take (n - first) buf);
          buf = clear_range 0 buf 0 (n - first);
          size = pcmSize q - n
      in (dst, q\<lparr>pcm := buf,
                 pcmHead := (if size = 0 then 0 else (pcmHead q + n) mod length (pcm q)),
                 pcmSize := size\<rparr>))"

definition Activate :: "u64 \<Rightarrow> queues \<Rightarrow> audio_error option \<times> queues" where
  "Activate g q =
     (if closed q then (Some ErrQueueClosed, q)
      else if g = 0 then (Some ErrInvalidGeneration, q)
      else if generation q = 0 then (None, q\<lparr>generation := g\<rparr>)
      else if g < generation q then (Some ErrStaleGeneration, q)
      else if g = generation q
           then (if cancelled q then (Some ErrGenerationCancelled, q) else (None, q))
      else (None, (clearAudioLocked q)\<lparr>generation := g, cancelled := False\<rparr>))"

definition PushPCM :: "u64 \<Rightarrow> i16 list \<Rightarrow> queues \<Rightarrow> audio_error option \<times> callbacks \<times> queues" where
  "PushPCM g source q =
     (case validateGenerationLocked g q of
        Some err \<Rightarrow> (Some err, [], q)
      | None \<Rightarrow>
          if length source > length (pcm q) - pcmSize q
          then let (callback, q') = cancelLocked q
               in (Some ErrQueueOverflow, if callback then [(g, ErrQueueOverflow)] else [], q')
          else (None, [], pushPCMLocked source q))"

definition PopPCMFrame :: "u64 \<Rightarrow> i16 list \<Rightarrow> queues \<Rightarrow> audio_error option \<times> i16 list \<times> queues" where
  "PopPCMFrame g destination q =
     (case validateGenerationLocked g q of
        Some err \<Rightarrow> (Some err, destination, q)
      | None \<Rightarrow>
          if length destination \<noteq> SamplesPerFrame then (Some ErrInvalidPCMFrame, destination, q)
          else if pcmSize q < length destination then (Some ErrQueueEmpty, destination, q)
          else let (dst, q') = popPCMLocked destination q in (None, dst, q'))"

text \<open>The tail of \<open>PushOpus\<close> after its guards: fill the slot behind the last one.\<close>

definition pushOpusLocked :: "u8 list \<Rightarrow> queues \<Rightarrow> queues" where
  "pushOpusLocked bytes q =
     (let index = (opusHead q + opusSize q) mod length (opus q);
          slot = opus q ! index;
          cleared = clear_range 0 (payload slot) 0 (length (payload slot));
          slot' = slot\<lparr>payload := copy_into cleared 0 bytes, slot_size := length bytes\<rparr>
      in q\<lparr>opus := (opus q)[index := slot'], opusSize := opusSize q + 1\<rparr>)"

definition PushOpus :: "u64 \<Rightarrow> u8 list \<Rightarrow> queues \<Rightarrow> audio_error option \<times> callbacks \<times> queues" where
  "PushOpus g bytes q =
     (case validateGenerationLocked g q of
        Some err \<Rightarrow> (Some err, [], q)
      | None \<Rightarrow>
          if length bytes = 0 then (Some ErrInvalidOpusPacket, [], q)
          else if length bytes > MaxOpusPacketBytes then (Some ErrOpusPacketTooLarge, [], q)
          else if opusSize q = length (opus q)
          then let (callback, q') = cancelLocked q
               in (Some ErrQueueOverflow, if callback then [(g, ErrQueueOverflow)] else [], q')
          else (None, [], pushOpusLocked bytes q))"

text \<open>The tail of \<open>PopOpus\<close>: the packet at the head, and the queue without it.\<close>

definition popOpusLocked :: "queues \<Rightarrow> u8 list \<times> queues" where
  "popOpusLocked q =
     (let slot = opus q ! opusHead q;
          size = opusSize q - 1
      in (take (slot_size slot) (payload slot),
          q\<lparr>opus := (opus q)[opusHead q := zero_slot],
            opusHead := (if size = 0 then 0 else (opusHead q + 1) mod length (opus q)),
            opusSize := size\<rparr>))"

definition PopOpus :: "u64 \<Rightarrow> u8 list \<Rightarrow> queues \<Rightarrow> (audio_error + nat) \<times> u8 list \<times> queues" where
  "PopOpus g destination q =
     (case validateGenerationLocked g q of
        Some err \<Rightarrow> (Inl err, destination, q)
      | None \<Rightarrow>
          if opusSize q = 0 then (Inl ErrQueueEmpty, destination, q)
          else if length destination < slot_size (opus q ! opusHead q)
          then (Inl ErrDestinationTooSmall, destination, q)
          else let (bytes, q') = popOpusLocked q
               in (Inr (slot_size (opus q ! opusHead q)), copy_into destination 0 bytes, q'))"

definition Cancel :: "u64 \<Rightarrow> audio_error option \<Rightarrow> queues \<Rightarrow> audio_error option \<times> callbacks \<times> queues" where
  "Cancel g cause q =
     (case validateGenerationLocked g q of
        Some err \<Rightarrow> (Some err, [], q)
      | None \<Rightarrow>
          let c = (case cause of None \<Rightarrow> ErrGenerationCancelled | Some e \<Rightarrow> e);
              (callback, q') = cancelLocked q
          in (None, if callback then [(g, c)] else [], q'))"

definition State :: "queues \<Rightarrow> queue_state" where
  "State q = \<lparr>st_Generation = generation q, st_PCMSamples = pcmSize q, st_OpusFrames = opusSize q,
              st_Cancelled = cancelled q, st_Closed = closed q\<rparr>"

definition Close :: "queues \<Rightarrow> queues" where
  "Close q =
     (if closed q then q
      else (clearAudioLocked q)\<lparr>closed := True, cancelled := False, onCancel := False\<rparr>)"

lemmas [queue_defs] = Activate_def PushPCM_def PopPCMFrame_def PushOpus_def PopOpus_def
  Cancel_def State_def Close_def cancelLocked_def validateGenerationLocked_def

section \<open>Invariant and logical contents\<close>

definition pcm_contents :: "queues \<Rightarrow> i16 list" where
  "pcm_contents q = ring_view (pcm q) (pcmHead q) (pcmSize q)"

definition slot_bytes :: "opus_slot \<Rightarrow> u8 list" where
  "slot_bytes s = take (slot_size s) (payload s)"

definition opus_contents :: "queues \<Rightarrow> u8 list list" where
  "opus_contents q = map slot_bytes (ring_view (opus q) (opusHead q) (opusSize q))"

text \<open>
  Shape of the two rings. Every cell outside the live window holds the zero value: the
  code wipes what it consumes, so no audio outlives the window it was queued in.
\<close>

definition in_window :: "nat \<Rightarrow> nat \<Rightarrow> nat \<Rightarrow> nat \<Rightarrow> bool" where
  "in_window L h n p \<longleftrightarrow> (\<exists>i < n. p = (h + i) mod L)"

definition pcm_inv :: "queues \<Rightarrow> bool" where
  "pcm_inv q \<longleftrightarrow> length (pcm q) = TTSQueueSamples \<and> pcmHead q < TTSQueueSamples \<and> pcmSize q \<le> TTSQueueSamples \<and>
     (\<forall>p < TTSQueueSamples. \<not> in_window TTSQueueSamples (pcmHead q) (pcmSize q) p \<longrightarrow> pcm q ! p = 0)"

definition slot_ok :: "opus_slot \<Rightarrow> bool" where
  "slot_ok s \<longleftrightarrow> length (payload s) = MaxOpusPacketBytes \<and> 0 < slot_size s \<and> slot_size s \<le> MaxOpusPacketBytes"

definition opus_inv :: "queues \<Rightarrow> bool" where
  "opus_inv q \<longleftrightarrow> length (opus q) = OpusQueueFrames \<and> opusHead q < OpusQueueFrames \<and> opusSize q \<le> OpusQueueFrames \<and>
     (\<forall>p < OpusQueueFrames. if in_window OpusQueueFrames (opusHead q) (opusSize q) p
        then slot_ok (opus q ! p) else opus q ! p = zero_slot)"

definition queues_inv :: "queues \<Rightarrow> bool" where
  "queues_inv q \<longleftrightarrow> pcm_inv q \<and> opus_inv q \<and>
     (cancelled q \<or> closed q \<or> generation q = 0 \<longrightarrow> pcmSize q = 0 \<and> opusSize q = 0)"

lemma in_window_0 [simp]: "\<not> in_window L h 0 p"
  by (simp add: in_window_def)

lemma in_window_upto: "in_window L h n p \<Longrightarrow> n \<le> m \<Longrightarrow> in_window L h m p"
  by (auto simp: in_window_def intro: less_le_trans)

lemma in_window_Suc: "in_window L h (Suc n) p \<longleftrightarrow> in_window L h n p \<or> p = (h + n) mod L"
  by (auto simp: in_window_def less_Suc_eq)

lemma in_window_drop:
  assumes "h < L" and "n \<le> L" and "k \<le> n" and "p < L"
  shows "in_window L ((h + k) mod L) (n - k) p \<longleftrightarrow> in_window L h n p \<and> \<not> in_window L h k p"
proof
  assume "in_window L ((h + k) mod L) (n - k) p"
  then obtain i where i: "i < n - k" and p: "p = (h + (k + i)) mod L"
    by (auto simp: in_window_def mod_add_left_eq add.assoc)
  have "\<not> in_window L h k p"
  proof
    assume "in_window L h k p"
    then obtain j where "j < k" and "p = (h + j) mod L" by (auto simp: in_window_def)
    moreover have "k + i < L" using i assms by linarith
    ultimately show False using p ring_index_inj [of j L "k + i" h] by simp
  qed
  with i p show "in_window L h n p \<and> \<not> in_window L h k p"
    by (auto simp: in_window_def intro!: exI [of _ "k + i"])
next
  assume a: "in_window L h n p \<and> \<not> in_window L h k p"
  then obtain i where "i < n" and p: "p = (h + i) mod L" by (auto simp: in_window_def)
  with a have "k \<le> i" by (auto simp: in_window_def not_less)
  with \<open>i < n\<close> p show "in_window L ((h + k) mod L) (n - k) p"
    by (auto simp: in_window_def mod_add_left_eq intro!: exI [of _ "i - k"])
qed

lemma length_pcm_contents [simp]: "length (pcm_contents q) = pcmSize q"
  by (simp add: pcm_contents_def)

lemma length_opus_contents [simp]: "length (opus_contents q) = opusSize q"
  by (simp add: opus_contents_def)

lemma pcm_invD:
  assumes "pcm_inv q"
  shows "length (pcm q) = 12000" "pcmHead q < 12000" "pcmSize q \<le> 12000"
  using assms by (auto simp: pcm_inv_def)

lemma opus_invD:
  assumes "opus_inv q"
  shows "length (opus q) = 12" "opusHead q < 12" "opusSize q \<le> 12"
  using assms by (auto simp: opus_inv_def)

subsection \<open>The PCM ring\<close>

lemma pushPCM_frame [simp]:
  "opus (pushPCMLocked src q) = opus q" "opusHead (pushPCMLocked src q) = opusHead q"
  "opusSize (pushPCMLocked src q) = opusSize q" "generation (pushPCMLocked src q) = generation q"
  "cancelled (pushPCMLocked src q) = cancelled q" "closed (pushPCMLocked src q) = closed q"
  "onCancel (pushPCMLocked src q) = onCancel q" "pcmSize (pushPCMLocked src q) = pcmSize q + length src"
  "pcmHead (pushPCMLocked src q) = pcmHead q"
  by (simp_all add: pushPCMLocked_def Let_def)

lemma popPCM_frame [simp]:
  "opus (snd (popPCMLocked dst q)) = opus q" "opusHead (snd (popPCMLocked dst q)) = opusHead q"
  "opusSize (snd (popPCMLocked dst q)) = opusSize q" "generation (snd (popPCMLocked dst q)) = generation q"
  "cancelled (snd (popPCMLocked dst q)) = cancelled q" "closed (snd (popPCMLocked dst q)) = closed q"
  "onCancel (snd (popPCMLocked dst q)) = onCancel q" "pcmSize (snd (popPCMLocked dst q)) = pcmSize q - length dst"
  by (simp_all add: popPCMLocked_def Let_def)

lemma pushPCM_correct:
  assumes inv: "pcm_inv q" and fits: "pcmSize q + length src \<le> TTSQueueSamples"
  shows "pcm_inv (pushPCMLocked src q)" and "pcm_contents (pushPCMLocked src q) = pcm_contents q @ src"
proof -
  let ?q = "pushPCMLocked src q"
  note D = pcm_invD [OF inv]
  let ?w = "(pcmHead q + pcmSize q) mod length (pcm q)"
  let ?k = "min (length src) (length (pcm q) - ?w)"
  have both: "pcm_inv ?q \<and> pcm_contents ?q = pcm_contents q @ src"
  proof (cases "src = []")
    case True
    then show ?thesis using inv by (simp add: pushPCMLocked_def)
  next
    case False
    have buf: "pcm ?q = copy_into (copy_into (pcm q) ?w (take ?k src)) 0 (drop ?k src)"
      using False unfolding pushPCMLocked_def Let_def clamp_min by simp
    have h: "pcmHead q < length (pcm q)" and f: "pcmSize q + length src \<le> length (pcm q)"
      using D fits by simp_all
    from ring_view_push_block [OF h f False] have len: "length (pcm ?q) = length (pcm q)"
      and view: "pcm_contents ?q = pcm_contents q @ src"
      unfolding pcm_contents_def by (simp_all add: buf)
    have zero: "pcm ?q ! p = 0"
      if p: "p < 12000" and out: "\<not> in_window 12000 (pcmHead q) (pcmSize q + length src) p" for p
    proof -
      have "pcm q ! p = 0" using inv p out in_window_upto [of 12000 "pcmHead q" "pcmSize q" p]
        by (auto simp: pcm_inv_def)
      have w: "?w < 12000" using D by simp
      have notin: "p \<noteq> (?w + j) mod 12000" if "j < length src" for j
      proof
        assume "p = (?w + j) mod 12000"
        then have "p = (pcmHead q + (pcmSize q + j)) mod 12000"
          using D by (simp add: mod_add_left_eq add.assoc)
        moreover have "pcmSize q + j < pcmSize q + length src" using that by simp
        ultimately show False using out unfolding in_window_def by blast
      qed
      have a: "\<not> (?w \<le> p \<and> p < ?w + length (take ?k src))"
      proof
        assume a: "?w \<le> p \<and> p < ?w + length (take ?k src)"
        moreover have "length (take ?k src) \<le> length src" by simp
        ultimately have "p - ?w < length src" by linarith
        from notin [OF this] a p show False by simp
      qed
      have b: "\<not> p < length (drop ?k src)"
      proof
        assume "p < length (drop ?k src)"
        then have "p < length src - ?k" and k: "?k = 12000 - ?w" using D by (auto simp: min_def split: if_splits)
        then have "(12000 - ?w) + p < length src" by simp
        from notin [OF this] w p show False by simp
      qed
      have "pcm ?q ! p = copy_into (pcm q) ?w (take ?k src) ! p"
        using b p w D by (subst buf) (simp add: nth_copy_into)
      also have "\<dots> = pcm q ! p" using a p w D by (subst nth_copy_into) auto
      finally show ?thesis using \<open>pcm q ! p = 0\<close> by simp
    qed
    with view len D fits show ?thesis by (simp add: pcm_inv_def)
  qed
  then show "pcm_inv ?q" "pcm_contents ?q = pcm_contents q @ src" by blast+
qed

lemma popPCM_correct:
  assumes inv: "pcm_inv q" and n: "length dst \<le> pcmSize q"
  shows "pcm_inv (snd (popPCMLocked dst q))"
    and "fst (popPCMLocked dst q) = take (length dst) (pcm_contents q)"
    and "pcm_contents (snd (popPCMLocked dst q)) = drop (length dst) (pcm_contents q)"
proof -
  let ?n = "length dst" and ?h = "pcmHead q" and ?L = "length (pcm q)"
  let ?f = "min ?n (?L - ?h)"
  let ?q = "snd (popPCMLocked dst q)"
  note D = pcm_invD [OF inv]
  let ?buf1 = "clear_range 0 (pcm q) ?h (?h + ?f)"
  let ?buf = "clear_range 0 ?buf1 0 (?n - ?f)"
  have buf: "pcm ?q = ?buf" unfolding popPCMLocked_def Let_def clamp_min by simp
  have len: "length ?buf = ?L" using D by simp
  have nf: "?n - ?f \<le> ?h" using D n by (auto simp: min_def)
  have win: "in_window 12000 ?h ?n p \<longleftrightarrow> (?h \<le> p \<and> p < ?h + ?f) \<or> p < ?n - ?f" if "p < 12000" for p
  proof -
    have "in_window 12000 ?h ?n p \<longleftrightarrow> (\<exists>i < ?n. (?h + i < 12000 \<and> p = ?h + i) \<or> (12000 \<le> ?h + i \<and> p = ?h + i - 12000))"
      using D n unfolding in_window_def
      by (intro ex_cong) (auto simp: mod_if)
    also have "\<dots> \<longleftrightarrow> (?h \<le> p \<and> p < ?h + ?f) \<or> p < ?n - ?f"
    proof
      assume "\<exists>i < ?n. (?h + i < 12000 \<and> p = ?h + i) \<or> (12000 \<le> ?h + i \<and> p = ?h + i - 12000)"
      then show "(?h \<le> p \<and> p < ?h + ?f) \<or> p < ?n - ?f" using D by (auto simp: min_def)
    next
      assume "(?h \<le> p \<and> p < ?h + ?f) \<or> p < ?n - ?f"
      then consider "?h \<le> p" "p < ?h + ?f" | "p < ?n - ?f" by blast
      then show "\<exists>i < ?n. (?h + i < 12000 \<and> p = ?h + i) \<or> (12000 \<le> ?h + i \<and> p = ?h + i - 12000)"
      proof cases
        case 1
        then show ?thesis using that D by (intro exI [of _ "p - ?h"]) auto
      next
        case 2
        then show ?thesis using that D by (intro exI [of _ "12000 - ?h + p"]) (auto simp: min_def split: if_splits)
      qed
    qed
    finally show ?thesis .
  qed
  have nth: "?buf ! p = (if in_window 12000 ?h ?n p then 0 else pcm q ! p)" if "p < 12000" for p
    using that D by (auto simp: nth_clear_range win)
  have dwin: "in_window 12000 ((?h + ?n) mod 12000) (pcmSize q - ?n) p \<longleftrightarrow>
      in_window 12000 ?h (pcmSize q) p \<and> \<not> in_window 12000 ?h ?n p" if "p < 12000" for p
    using in_window_drop [of ?h 12000 "pcmSize q" ?n p] D n that by simp
  show "pcm_inv ?q"
  proof -
    have zero: "?buf ! p = 0"
      if "p < 12000" "\<not> in_window 12000 ((?h + ?n) mod 12000) (pcmSize q - ?n) p" for p
      using that nth dwin inv by (auto simp: pcm_inv_def)
    show ?thesis
    proof (cases "pcmSize q - ?n = 0")
      case True
      then have "pcmHead ?q = 0" by (simp add: popPCMLocked_def Let_def)
      with True zero len D show ?thesis by (simp add: pcm_inv_def buf)
    next
      case False
      then have "pcmHead ?q = (?h + ?n) mod 12000" using D by (simp add: popPCMLocked_def Let_def)
      with zero len D show ?thesis by (simp add: pcm_inv_def buf)
    qed
  qed
  show "fst (popPCMLocked dst q) = take ?n (pcm_contents q)"
  proof -
    have "take (?n - ?f) ?buf1 = take (?n - ?f) (pcm q)"
      using nf D by (intro nth_equalityI) (auto simp: nth_clear_range)
    moreover have "take ?n (pcm_contents q) = take ?n (drop ?h (pcm q)) @ take (?n - (?L - ?h)) (pcm q)"
      using ring_view_split [of ?h "pcm q" ?n] D n by (simp add: pcm_contents_def ring_view_take)
    moreover have "copy_into (copy_into dst 0 (take ?f (drop ?h (pcm q)))) ?f (take (?n - ?f) (pcm q))
        = take ?n (drop ?h (pcm q)) @ take (?n - (?L - ?h)) (pcm q)"
      using D n by (intro nth_equalityI) (auto simp: nth_copy_into nth_append min_def)
    ultimately show ?thesis unfolding popPCMLocked_def Let_def clamp_min by simp
  qed
  show "pcm_contents ?q = drop ?n (pcm_contents q)"
  proof (cases "pcmSize q - ?n = 0")
    case True
    then show ?thesis by (simp add: pcm_contents_def)
  next
    case False
    then have hd: "pcmHead ?q = (?h + ?n) mod 12000" using D by (simp add: popPCMLocked_def Let_def)
    have "drop ?n (pcm_contents q) = ring_view (pcm q) ((?h + ?n) mod 12000) (pcmSize q - ?n)"
      using n D by (simp add: pcm_contents_def ring_view_drop)
    also have "\<dots> = ring_view ?buf ((?h + ?n) mod 12000) (pcmSize q - ?n)"
    proof (rule ring_view_mono_eq [symmetric])
      fix i assume i: "i < pcmSize q - ?n"
      let ?p = "((?h + ?n) mod 12000 + i) mod 12000"
      have "in_window 12000 ((?h + ?n) mod 12000) (pcmSize q - ?n) ?p"
        using i by (auto simp: in_window_def)
      then show "?buf ! (((?h + ?n) mod 12000 + i) mod ?L) = pcm q ! (((?h + ?n) mod 12000 + i) mod ?L)"
        using nth [of ?p] dwin [of ?p] D by simp
    qed (use len in simp)
    finally show ?thesis by (simp add: pcm_contents_def buf hd)
  qed
qed

subsection \<open>The Opus ring\<close>

lemma pushOpus_frame [simp]:
  "pcm (pushOpusLocked b q) = pcm q" "pcmHead (pushOpusLocked b q) = pcmHead q"
  "pcmSize (pushOpusLocked b q) = pcmSize q" "generation (pushOpusLocked b q) = generation q"
  "cancelled (pushOpusLocked b q) = cancelled q" "closed (pushOpusLocked b q) = closed q"
  "onCancel (pushOpusLocked b q) = onCancel q" "opusSize (pushOpusLocked b q) = Suc (opusSize q)"
  "opusHead (pushOpusLocked b q) = opusHead q"
  by (simp_all add: pushOpusLocked_def Let_def)

lemma popOpus_frame [simp]:
  "pcm (snd (popOpusLocked q)) = pcm q" "pcmHead (snd (popOpusLocked q)) = pcmHead q"
  "pcmSize (snd (popOpusLocked q)) = pcmSize q" "generation (snd (popOpusLocked q)) = generation q"
  "cancelled (snd (popOpusLocked q)) = cancelled q" "closed (snd (popOpusLocked q)) = closed q"
  "onCancel (snd (popOpusLocked q)) = onCancel q" "opusSize (snd (popOpusLocked q)) = opusSize q - 1"
  by (simp_all add: popOpusLocked_def Let_def)

lemma opus_slot_free:
  assumes "opus_inv q" and "opusSize q < 12"
  shows "opus q ! ((opusHead q + opusSize q) mod 12) = zero_slot"
proof -
  note D = opus_invD [OF assms(1)]
  have "\<not> in_window 12 (opusHead q) (opusSize q) ((opusHead q + opusSize q) mod 12)"
  proof
    assume "in_window 12 (opusHead q) (opusSize q) ((opusHead q + opusSize q) mod 12)"
    then obtain i where "i < opusSize q" "(opusHead q + opusSize q) mod 12 = (opusHead q + i) mod 12"
      by (auto simp: in_window_def)
    with assms(2) ring_index_inj [of "opusSize q" 12 i "opusHead q"] show False by simp
  qed
  with assms show ?thesis unfolding opus_inv_def by force
qed

lemma pushOpus_correct:
  assumes inv: "opus_inv q" and room: "opusSize q < OpusQueueFrames"
    and ok: "0 < length bytes" "length bytes \<le> MaxOpusPacketBytes"
  shows "opus_inv (pushOpusLocked bytes q)"
    and "opus_contents (pushOpusLocked bytes q) = opus_contents q @ [bytes]"
proof -
  note D = opus_invD [OF inv]
  let ?i = "(opusHead q + opusSize q) mod 12"
  let ?s = "\<lparr>slot_size = length bytes, payload = copy_into (replicate 1276 0) 0 bytes\<rparr>"
  have room': "opusSize q < 12" using room by simp
  have opus': "opus (pushOpusLocked bytes q) = (opus q)[?i := ?s]"
    using opus_slot_free [OF inv room'] D
    by (simp add: pushOpusLocked_def Let_def zero_slot_def clear_range_all)
  have sok: "slot_ok ?s" using ok by (simp add: slot_ok_def)
  show "opus_inv (pushOpusLocked bytes q)"
    using inv D room' sok
    by (auto simp: opus_inv_def opus' nth_list_update in_window_Suc split: if_splits)
  have "ring_view ((opus q)[?i := ?s]) (opusHead q) (Suc (opusSize q)) =
      ring_view (opus q) (opusHead q) (opusSize q) @ [?s]"
    using ring_view_push [of "opusSize q" "opus q" "opusHead q" ?s] D room' by simp
  then show "opus_contents (pushOpusLocked bytes q) = opus_contents q @ [bytes]"
    using ok take_copy_into_0 [of bytes "replicate 1276 0"]
    by (simp add: opus_contents_def opus' slot_bytes_def)
qed

lemma opus_head_live:
  assumes "opus_inv q" and "0 < opusSize q"
  shows "slot_ok (opus q ! opusHead q)"
    and "hd (opus_contents q) = slot_bytes (opus q ! opusHead q)"
proof -
  note D = opus_invD [OF assms(1)]
  have "in_window 12 (opusHead q) (opusSize q) (opusHead q)"
    using assms(2) D by (auto simp: in_window_def intro!: exI [of _ 0])
  with assms(1) D show "slot_ok (opus q ! opusHead q)" by (auto simp: opus_inv_def)
  have "opus_contents q ! 0 = slot_bytes (opus q ! opusHead q)"
    using assms(2) D by (simp add: opus_contents_def)
  then show "hd (opus_contents q) = slot_bytes (opus q ! opusHead q)"
    using assms(2) by (metis hd_conv_nth length_opus_contents length_greater_0_conv)
qed

lemma popOpus_correct:
  assumes inv: "opus_inv q" and ne: "0 < opusSize q"
  shows "opus_inv (snd (popOpusLocked q))"
    and "fst (popOpusLocked q) = hd (opus_contents q)"
    and "opus_contents (snd (popOpusLocked q)) = tl (opus_contents q)"
proof -
  let ?q = "snd (popOpusLocked q)"
  note D = opus_invD [OF inv]
  have opus': "opus ?q = (opus q)[opusHead q := zero_slot]"
    by (simp add: popOpusLocked_def Let_def)
  have head: "opusHead ?q = (if opusSize q = 1 then 0 else (opusHead q + 1) mod 12)"
    using ne D by (auto simp: popOpusLocked_def Let_def)
  have win: "in_window 12 ((opusHead q + 1) mod 12) (opusSize q - 1) p \<longleftrightarrow>
      in_window 12 (opusHead q) (opusSize q) p \<and> p \<noteq> opusHead q" if "p < 12" for p
    using in_window_drop [of "opusHead q" 12 "opusSize q" 1 p] D ne that
    by (auto simp: in_window_Suc [of _ _ 0, simplified])
  have cells: "if in_window 12 (opusHead ?q) (opusSize q - 1) p
      then slot_ok (opus ?q ! p) else opus ?q ! p = zero_slot" if p: "p < 12" for p
    using inv win [OF p] D p unfolding head opus'
    by (auto simp: opus_inv_def nth_list_update split: if_splits)
  have "length (opus ?q) = 12" using D by (simp add: opus')
  moreover have "opusHead ?q < 12" by (simp add: head)
  ultimately show "opus_inv ?q" unfolding opus_inv_def using cells D(3) by simp
  show "fst (popOpusLocked q) = hd (opus_contents q)"
    using opus_head_live(2) [OF inv ne] by (simp add: popOpusLocked_def Let_def slot_bytes_def)
  show "opus_contents ?q = tl (opus_contents q)"
  proof (cases "opusSize q = 1")
    case True
    then show ?thesis by (simp add: opus_contents_def ring_view_def)
  next
    case False
    have "ring_view ((opus q)[opusHead q := zero_slot]) ((opusHead q + 1) mod 12) (opusSize q - 1) =
        ring_view (opus q) ((opusHead q + 1) mod 12) (opusSize q - 1)"
    proof (rule ring_view_mono_eq)
      fix i assume i: "i < opusSize q - 1"
      let ?p = "((opusHead q + 1) mod 12 + i) mod 12"
      have "in_window 12 ((opusHead q + 1) mod 12) (opusSize q - 1) ?p"
        using i by (auto simp: in_window_def)
      with win [of ?p] have "?p \<noteq> opusHead q" by simp
      then show "(opus q)[opusHead q := zero_slot] ! (((opusHead q + 1) mod 12 + i) mod length (opus q)) =
          opus q ! (((opusHead q + 1) mod 12 + i) mod length (opus q))" using D by simp
    qed simp
    moreover have "tl (opus_contents q) = drop 1 (opus_contents q)" by (simp add: drop_Suc)
    moreover have "drop 1 (ring_view (opus q) (opusHead q) (opusSize q)) =
        ring_view (opus q) ((opusHead q + 1) mod 12) (opusSize q - 1)"
      using ring_view_drop [of 1 "opusSize q" "opus q" "opusHead q"] ne D by simp
    ultimately show ?thesis using False head
      by (simp add: opus_contents_def opus' drop_map)
  qed
qed

subsection \<open>Clearing and the whole component\<close>

lemma clearAudio_frame [simp]:
  "generation (clearAudioLocked q) = generation q" "cancelled (clearAudioLocked q) = cancelled q"
  "closed (clearAudioLocked q) = closed q" "onCancel (clearAudioLocked q) = onCancel q"
  "pcmSize (clearAudioLocked q) = 0" "opusSize (clearAudioLocked q) = 0"
  by (simp_all add: clearAudioLocked_def)

lemma inv_frame [simp]:
  "pcm_inv (q\<lparr>generation := g\<rparr>) = pcm_inv q" "opus_inv (q\<lparr>generation := g\<rparr>) = opus_inv q"
  "pcm_inv (q\<lparr>cancelled := b\<rparr>) = pcm_inv q" "opus_inv (q\<lparr>cancelled := b\<rparr>) = opus_inv q"
  "pcm_inv (q\<lparr>closed := b\<rparr>) = pcm_inv q" "opus_inv (q\<lparr>closed := b\<rparr>) = opus_inv q"
  "pcm_inv (q\<lparr>onCancel := b\<rparr>) = pcm_inv q" "opus_inv (q\<lparr>onCancel := b\<rparr>) = opus_inv q"
  by (simp_all add: pcm_inv_def opus_inv_def)

lemma clearAudio_inv:
  assumes "pcm_inv q" and "opus_inv q"
  shows "pcm_inv (clearAudioLocked q)" and "opus_inv (clearAudioLocked q)"
  using pcm_invD [OF assms(1)] opus_invD [OF assms(2)]
  by (simp_all add: pcm_inv_def opus_inv_def clearAudioLocked_def clear_range_whole)

lemma clearAudio_wipes:
  "pcm_inv q \<Longrightarrow> opus_inv q \<Longrightarrow>
   pcm (clearAudioLocked q) = replicate TTSQueueSamples 0 \<and> opus (clearAudioLocked q) = replicate OpusQueueFrames zero_slot"
  by (simp add: clearAudioLocked_def clear_range_whole pcm_inv_def opus_inv_def map_replicate_const)

lemma NewGenerationQueues_inv: "queues_inv (NewGenerationQueues cb)"
  by (simp add: queues_inv_def pcm_inv_def opus_inv_def NewGenerationQueues_def)

lemma validate_None:
  "validateGenerationLocked g q = None \<longleftrightarrow>
     \<not> closed q \<and> g \<noteq> 0 \<and> generation q = g \<and> \<not> cancelled q"
  by (auto simp: validateGenerationLocked_def)

lemma cancelLocked_inv: "queues_inv q \<Longrightarrow> queues_inv (snd (cancelLocked q))"
  by (auto simp: cancelLocked_def queues_inv_def clearAudio_inv)

lemma Activate_inv: "queues_inv q \<Longrightarrow> queues_inv (snd (Activate g q))"
  by (auto simp: Activate_def queues_inv_def clearAudio_inv)

lemma PushPCM_inv: "queues_inv q \<Longrightarrow> queues_inv (snd (snd (PushPCM g src q)))"
proof -
  assume inv: "queues_inv q"
  show ?thesis
  proof (cases "validateGenerationLocked g q = None \<and> \<not> length src > length (pcm q) - pcmSize q")
    case True
    then have s: "snd (snd (PushPCM g src q)) = pushPCMLocked src q" by (simp add: PushPCM_def)
    have "pcm_inv q" using inv by (simp add: queues_inv_def)
    from pcm_invD [OF this] True have "pcmSize q + length src \<le> TTSQueueSamples" by auto
    with True inv pushPCM_correct(1) [of q src] show ?thesis
      by (simp add: s queues_inv_def validate_None opus_inv_def)
  next
    case False
    then have "snd (snd (PushPCM g src q)) = q \<or> snd (snd (PushPCM g src q)) = snd (cancelLocked q)"
      by (auto simp: PushPCM_def case_prod_beta split: option.splits)
    with inv cancelLocked_inv show ?thesis by auto
  qed
qed

lemma PopPCMFrame_inv: "queues_inv q \<Longrightarrow> queues_inv (snd (snd (PopPCMFrame g dst q)))"
proof -
  assume inv: "queues_inv q"
  show ?thesis
  proof (cases "validateGenerationLocked g q = None \<and> length dst = SamplesPerFrame \<and> \<not> pcmSize q < length dst")
    case True
    then have "snd (snd (PopPCMFrame g dst q)) = snd (popPCMLocked dst q)"
      by (simp add: PopPCMFrame_def case_prod_beta)
    with True inv popPCM_correct(1) [of q dst] show ?thesis
      by (auto simp: queues_inv_def validate_None opus_inv_def)
  next
    case False
    then have "snd (snd (PopPCMFrame g dst q)) = q"
      by (auto simp: PopPCMFrame_def split: option.splits)
    with inv show ?thesis by simp
  qed
qed

lemma PushOpus_inv: "queues_inv q \<Longrightarrow> queues_inv (snd (snd (PushOpus g b q)))"
proof -
  assume inv: "queues_inv q"
  show ?thesis
  proof (cases "validateGenerationLocked g q = None \<and> length b \<noteq> 0 \<and> \<not> length b > MaxOpusPacketBytes \<and>
      opusSize q \<noteq> length (opus q)")
    case True
    then have s: "snd (snd (PushOpus g b q)) = pushOpusLocked b q" by (simp add: PushOpus_def)
    have "opus_inv q" using inv by (simp add: queues_inv_def)
    from opus_invD [OF this] True have "opusSize q < OpusQueueFrames" by simp
    with True inv pushOpus_correct(1) [of q b] show ?thesis
      by (auto simp: s queues_inv_def validate_None pcm_inv_def)
  next
    case False
    then have "snd (snd (PushOpus g b q)) = q \<or> snd (snd (PushOpus g b q)) = snd (cancelLocked q)"
      by (auto simp: PushOpus_def case_prod_beta split: option.splits)
    with inv cancelLocked_inv show ?thesis by auto
  qed
qed

lemma PopOpus_inv: "queues_inv q \<Longrightarrow> queues_inv (snd (snd (PopOpus g dst q)))"
proof -
  assume inv: "queues_inv q"
  show ?thesis
  proof (cases "snd (snd (PopOpus g dst q)) = q")
    case False
    then have "validateGenerationLocked g q = None" "opusSize q \<noteq> 0"
      and s: "snd (snd (PopOpus g dst q)) = snd (popOpusLocked q)"
      by (auto simp: PopOpus_def case_prod_beta split: option.splits if_splits)
    with inv popOpus_correct(1) [of q] show ?thesis
      by (auto simp: queues_inv_def validate_None pcm_inv_def)
  qed (use inv in simp)
qed

lemma Cancel_inv: "queues_inv q \<Longrightarrow> queues_inv (snd (snd (Cancel g c q)))"
  using cancelLocked_inv [of q] by (auto simp: Cancel_def Let_def split: option.splits prod.splits)

lemma Close_inv: "queues_inv q \<Longrightarrow> queues_inv (Close q)"
  by (auto simp: Close_def queues_inv_def clearAudio_inv)

lemmas queue_op_inv = Activate_inv PushPCM_inv PopPCMFrame_inv PushOpus_inv PopOpus_inv Cancel_inv Close_inv

end
