(* ===== verification/Queue_Contract.thy ===== *)
theory Queue_Contract
  imports Generation_Queues "HOL-Library.Sublist"
begin

text \<open>
  The contract of \<open>internal/voice/audio/queue.go\<close>. \<open>bounded_fifo\<close> is the interface both
  rings provide; \<open>queue_spec\<close> is the component as its callers see it (two plain lists and
  the generation fence), and \<open>queue_step\<close> dispatches one API call. The ring-buffer
  implementation answers every history of calls as the list specification does. The last section
  keeps the account of every generation: what was put into it and what was taken out of it.
\<close>

section \<open>The FIFO interface of a ring\<close>

text \<open>
  A history of accepted operations on a queue: \<open>Put\<close> appends a block, \<open>Get\<close> removes one
  chunk. The result is everything put, everything taken and the final queue; \<open>None\<close>
  when some operation is not admissible where it is issued.
\<close>

datatype 'a fifo_op = Put "'a list" | Get

fun fifo_run :: "nat \<Rightarrow> nat \<Rightarrow> ('q \<Rightarrow> nat) \<Rightarrow> ('a list \<Rightarrow> bool) \<Rightarrow> ('a list \<Rightarrow> 'q \<Rightarrow> 'q) \<Rightarrow> ('q \<Rightarrow> 'a list \<times> 'q)
    \<Rightarrow> 'a fifo_op list \<Rightarrow> 'q \<Rightarrow> ('a list \<times> 'a list \<times> 'q) option" where
  "fifo_run cap chunk used admit put get [] q = Some ([], [], q)"
| "fifo_run cap chunk used admit put get (Put xs # ops) q =
     (if admit xs \<and> used q + length xs \<le> cap
      then map_option (\<lambda>(ps, ts, q'). (xs @ ps, ts, q')) (fifo_run cap chunk used admit put get ops (put xs q))
      else None)"
| "fifo_run cap chunk used admit put get (Get # ops) q =
     (if chunk \<le> used q
      then let (ys, q1) = get q
           in map_option (\<lambda>(ps, ts, q'). (ps, ys @ ts, q')) (fifo_run cap chunk used admit put get ops q1)
      else None)"

locale bounded_fifo =
  fixes invar :: "'q \<Rightarrow> bool" and contents :: "'q \<Rightarrow> 'a list" and used :: "'q \<Rightarrow> nat"
    and cap :: nat and chunk :: nat and admit :: "'a list \<Rightarrow> bool"
    and put :: "'a list \<Rightarrow> 'q \<Rightarrow> 'q" and get :: "'q \<Rightarrow> 'a list \<times> 'q"
  assumes used_contents: "invar q \<Longrightarrow> used q = length (contents q)"
    and within_cap: "invar q \<Longrightarrow> length (contents q) \<le> cap"
    and put_invar: "invar q \<Longrightarrow> admit xs \<Longrightarrow> used q + length xs \<le> cap \<Longrightarrow> invar (put xs q)"
    and put_contents: "invar q \<Longrightarrow> admit xs \<Longrightarrow> used q + length xs \<le> cap \<Longrightarrow> contents (put xs q) = contents q @ xs"
    and get_invar: "invar q \<Longrightarrow> chunk \<le> used q \<Longrightarrow> invar (snd (get q))"
    and get_value: "invar q \<Longrightarrow> chunk \<le> used q \<Longrightarrow> fst (get q) = take chunk (contents q)"
    and get_contents: "invar q \<Longrightarrow> chunk \<le> used q \<Longrightarrow> contents (snd (get q)) = drop chunk (contents q)"
begin

lemma run_conserves:
  "invar q \<Longrightarrow> fifo_run cap chunk used admit put get ops q = Some (ps, ts, q') \<Longrightarrow>
   invar q' \<and> contents q @ ps = ts @ contents q' \<and> used q' \<le> cap"
proof (induction ops arbitrary: q ps ts)
  case Nil
  then show ?case using used_contents within_cap by auto
next
  case (Cons op ops)
  show ?case
  proof (cases op)
    case (Put xs)
    with Cons.prems obtain ps1 where a: "admit xs" "used q + length xs \<le> cap"
      and r: "fifo_run cap chunk used admit put get ops (put xs q) = Some (ps1, ts, q')" and ps: "ps = xs @ ps1"
      by (auto split: if_splits)
    from Cons.IH [OF put_invar [OF Cons.prems(1) a] r] put_contents [OF Cons.prems(1) a] ps
    show ?thesis by simp
  next
    case Get
    obtain ys q1 where g: "get q = (ys, q1)" by fastforce
    with Get Cons.prems obtain ts1 where c: "chunk \<le> used q" and ts: "ts = ys @ ts1"
      and r: "fifo_run cap chunk used admit put get ops q1 = Some (ps, ts1, q')"
      by (auto split: if_splits)
    have "invar q1" "ys = take chunk (contents q)" "contents q1 = drop chunk (contents q)"
      using get_invar [OF Cons.prems(1) c] get_value [OF Cons.prems(1) c] get_contents [OF Cons.prems(1) c] g
      by simp_all
    with Cons.IH [OF this(1) r] ts show ?thesis by (metis append.assoc append_take_drop_id)
  qed
qed

end

text \<open>One 20 ms frame taken from the PCM ring, and one packet from the Opus ring.\<close>

definition get_pcm_frame :: "queues \<Rightarrow> i16 list \<times> queues" where
  "get_pcm_frame q = popPCMLocked (replicate SamplesPerFrame 0) q"

definition put_packet :: "u8 list list \<Rightarrow> queues \<Rightarrow> queues" where
  "put_packet bs q = pushOpusLocked (hd bs) q"

definition get_packet :: "queues \<Rightarrow> u8 list list \<times> queues" where
  "get_packet q = (let (b, q') = popOpusLocked q in ([b], q'))"

definition one_packet :: "u8 list list \<Rightarrow> bool" where
  "one_packet bs \<longleftrightarrow> length bs = 1 \<and> 0 < length (hd bs) \<and> length (hd bs) \<le> MaxOpusPacketBytes"

interpretation pcmq: bounded_fifo pcm_inv pcm_contents pcmSize TTSQueueSamples SamplesPerFrame
    "\<lambda>_. True" pushPCMLocked get_pcm_frame
proof
  fix q xs
  assume inv: "pcm_inv q"
  show "pcmSize q = length (pcm_contents q)" by simp
  show "length (pcm_contents q) \<le> TTSQueueSamples" using pcm_invD [OF inv] by simp
  show "pcm_inv (pushPCMLocked xs q)" if "pcmSize q + length xs \<le> TTSQueueSamples"
    using pushPCM_correct(1) [OF inv that] .
  show "pcm_contents (pushPCMLocked xs q) = pcm_contents q @ xs" if "pcmSize q + length xs \<le> TTSQueueSamples"
    using pushPCM_correct(2) [OF inv that] .
  assume "SamplesPerFrame \<le> pcmSize q"
  then have n: "length (replicate SamplesPerFrame (0::i16)) \<le> pcmSize q" by simp
  show "pcm_inv (snd (get_pcm_frame q))"
    and "fst (get_pcm_frame q) = take SamplesPerFrame (pcm_contents q)"
    and "pcm_contents (snd (get_pcm_frame q)) = drop SamplesPerFrame (pcm_contents q)"
    using popPCM_correct [OF inv n] by (simp_all add: get_pcm_frame_def)
qed

interpretation opusq: bounded_fifo opus_inv opus_contents opusSize OpusQueueFrames 1
    one_packet put_packet get_packet
proof
  fix q xs
  assume inv: "opus_inv q"
  show "opusSize q = length (opus_contents q)" by simp
  show "length (opus_contents q) \<le> OpusQueueFrames" using opus_invD [OF inv] by simp
  {
    assume one: "one_packet xs" and "opusSize q + length xs \<le> OpusQueueFrames"
    then have r: "opusSize q < OpusQueueFrames" and b: "0 < length (hd xs)" "length (hd xs) \<le> MaxOpusPacketBytes"
      and xs: "[hd xs] = xs" by (auto simp: one_packet_def length_Suc_conv)
    show "opus_inv (put_packet xs q)" and "opus_contents (put_packet xs q) = opus_contents q @ xs"
      using pushOpus_correct [OF inv r b] xs by (simp_all add: put_packet_def)
  next
    assume "1 \<le> opusSize q"
    then have ne: "0 < opusSize q" by simp
    then have "opus_contents q \<noteq> []" by (metis length_opus_contents length_greater_0_conv)
    then show "opus_inv (snd (get_packet q))"
      and "fst (get_packet q) = take 1 (opus_contents q)"
      and "opus_contents (snd (get_packet q)) = drop 1 (opus_contents q)"
      using popOpus_correct [OF inv ne]
      by (simp_all add: get_packet_def case_prod_beta take_Suc drop_Suc)
  }
qed

section \<open>The list specification\<close>

record queue_spec =
  sp_generation :: u64
  sp_cancelled :: bool
  sp_closed :: bool
  sp_handler :: bool
  sp_pcm :: "i16 list"
  sp_opus :: "u8 list list"

datatype queue_call =
    QActivate u64 | QPushPCM u64 "i16 list" | QPopPCM u64 "i16 list"
  | QPushOpus u64 "u8 list" | QPopOpus u64 "u8 list" | QCancel u64 "audio_error option"
  | QState | QClose

datatype queue_reply =
    RErr "audio_error option" callbacks
  | RFrame "audio_error option" "i16 list"
  | RPacket "audio_error + nat" "u8 list"
  | RState queue_state

fun queue_step :: "queues \<Rightarrow> queue_call \<Rightarrow> queue_reply \<times> queues" where
  "queue_step q (QActivate g) = (let (e, q') = Activate g q in (RErr e [], q'))"
| "queue_step q (QPushPCM g src) = (let (e, cb, q') = PushPCM g src q in (RErr e cb, q'))"
| "queue_step q (QPopPCM g dst) = (let (e, out, q') = PopPCMFrame g dst q in (RFrame e out, q'))"
| "queue_step q (QPushOpus g b) = (let (e, cb, q') = PushOpus g b q in (RErr e cb, q'))"
| "queue_step q (QPopOpus g dst) = (let (e, out, q') = PopOpus g dst q in (RPacket e out, q'))"
| "queue_step q (QCancel g c) = (let (e, cb, q') = Cancel g c q in (RErr e cb, q'))"
| "queue_step q QState = (RState (State q), q)"
| "queue_step q QClose = (RErr None [], Close q)"

fun queue_run :: "queues \<Rightarrow> queue_call list \<Rightarrow> queue_reply list \<times> queues" where
  "queue_run q [] = ([], q)"
| "queue_run q (c # cs) = (let (r, q1) = queue_step q c; (rs, q2) = queue_run q1 cs in (r # rs, q2))"

definition spec_check :: "u64 \<Rightarrow> queue_spec \<Rightarrow> audio_error option" where
  "spec_check g s =
     (if sp_closed s then Some ErrQueueClosed
      else if g = 0 then Some ErrInvalidGeneration
      else if sp_generation s = 0 then Some ErrNoActiveGeneration
      else if g < sp_generation s then Some ErrStaleGeneration
      else if g > sp_generation s then Some ErrFutureGeneration
      else if sp_cancelled s then Some ErrGenerationCancelled
      else None)"

definition spec_fence :: "queue_spec \<Rightarrow> queue_spec" where
  "spec_fence s = s\<lparr>sp_cancelled := True, sp_pcm := [], sp_opus := []\<rparr>"

definition spec_notify :: "queue_spec \<Rightarrow> u64 \<Rightarrow> audio_error \<Rightarrow> callbacks" where
  "spec_notify s g e = (if sp_handler s then [(g, e)] else [])"

fun spec_step :: "queue_spec \<Rightarrow> queue_call \<Rightarrow> queue_reply \<times> queue_spec" where
  "spec_step s (QActivate g) =
     (if sp_closed s then (RErr (Some ErrQueueClosed) [], s)
      else if g = 0 then (RErr (Some ErrInvalidGeneration) [], s)
      else if sp_generation s = 0 then (RErr None [], s\<lparr>sp_generation := g\<rparr>)
      else if g < sp_generation s then (RErr (Some ErrStaleGeneration) [], s)
      else if g = sp_generation s
           then (RErr (if sp_cancelled s then Some ErrGenerationCancelled else None) [], s)
      else (RErr None [], s\<lparr>sp_generation := g, sp_cancelled := False, sp_pcm := [], sp_opus := []\<rparr>))"
| "spec_step s (QPushPCM g src) =
     (case spec_check g s of Some e \<Rightarrow> (RErr (Some e) [], s)
      | None \<Rightarrow> if length (sp_pcm s) + length src > TTSQueueSamples
               then (RErr (Some ErrQueueOverflow) (spec_notify s g ErrQueueOverflow), spec_fence s)
               else (RErr None [], s\<lparr>sp_pcm := sp_pcm s @ src\<rparr>))"
| "spec_step s (QPopPCM g dst) =
     (case spec_check g s of Some e \<Rightarrow> (RFrame (Some e) dst, s)
      | None \<Rightarrow> if length dst \<noteq> SamplesPerFrame then (RFrame (Some ErrInvalidPCMFrame) dst, s)
               else if length (sp_pcm s) < SamplesPerFrame then (RFrame (Some ErrQueueEmpty) dst, s)
               else (RFrame None (take SamplesPerFrame (sp_pcm s)), s\<lparr>sp_pcm := drop SamplesPerFrame (sp_pcm s)\<rparr>))"
| "spec_step s (QPushOpus g b) =
     (case spec_check g s of Some e \<Rightarrow> (RErr (Some e) [], s)
      | None \<Rightarrow> if b = [] then (RErr (Some ErrInvalidOpusPacket) [], s)
               else if length b > MaxOpusPacketBytes then (RErr (Some ErrOpusPacketTooLarge) [], s)
               else if length (sp_opus s) = OpusQueueFrames
               then (RErr (Some ErrQueueOverflow) (spec_notify s g ErrQueueOverflow), spec_fence s)
               else (RErr None [], s\<lparr>sp_opus := sp_opus s @ [b]\<rparr>))"
| "spec_step s (QPopOpus g dst) =
     (case spec_check g s of Some e \<Rightarrow> (RPacket (Inl e) dst, s)
      | None \<Rightarrow> (case sp_opus s of [] \<Rightarrow> (RPacket (Inl ErrQueueEmpty) dst, s)
               | b # bs \<Rightarrow> if length dst < length b then (RPacket (Inl ErrDestinationTooSmall) dst, s)
                          else (RPacket (Inr (length b)) (copy_into dst 0 b), s\<lparr>sp_opus := bs\<rparr>)))"
| "spec_step s (QCancel g cause) =
     (case spec_check g s of Some e \<Rightarrow> (RErr (Some e) [], s)
      | None \<Rightarrow> (RErr None (spec_notify s g (case cause of None \<Rightarrow> ErrGenerationCancelled | Some e \<Rightarrow> e)), spec_fence s))"
| "spec_step s QState =
     (RState \<lparr>st_Generation = sp_generation s, st_PCMSamples = length (sp_pcm s),
              st_OpusFrames = length (sp_opus s), st_Cancelled = sp_cancelled s, st_Closed = sp_closed s\<rparr>, s)"
| "spec_step s QClose =
     (RErr None [], if sp_closed s then s
                    else s\<lparr>sp_closed := True, sp_cancelled := False, sp_handler := False, sp_pcm := [], sp_opus := []\<rparr>)"

fun spec_run :: "queue_spec \<Rightarrow> queue_call list \<Rightarrow> queue_reply list \<times> queue_spec" where
  "spec_run s [] = ([], s)"
| "spec_run s (c # cs) = (let (r, s1) = spec_step s c; (rs, s2) = spec_run s1 cs in (r # rs, s2))"

definition queue_abs :: "queues \<Rightarrow> queue_spec" where
  "queue_abs q = \<lparr>sp_generation = generation q, sp_cancelled = cancelled q, sp_closed = closed q,
     sp_handler = onCancel q, sp_pcm = pcm_contents q, sp_opus = opus_contents q\<rparr>"

section \<open>Refinement\<close>

lemma contents_frame [simp]:
  "pcm_contents (q\<lparr>generation := g\<rparr>) = pcm_contents q" "opus_contents (q\<lparr>generation := g\<rparr>) = opus_contents q"
  "pcm_contents (q\<lparr>cancelled := b\<rparr>) = pcm_contents q" "opus_contents (q\<lparr>cancelled := b\<rparr>) = opus_contents q"
  "pcm_contents (q\<lparr>closed := b\<rparr>) = pcm_contents q" "opus_contents (q\<lparr>closed := b\<rparr>) = opus_contents q"
  "pcm_contents (q\<lparr>onCancel := b\<rparr>) = pcm_contents q" "opus_contents (q\<lparr>onCancel := b\<rparr>) = opus_contents q"
  "pcm_contents (clearAudioLocked q) = []" "opus_contents (clearAudioLocked q) = []"
  by (simp_all add: pcm_contents_def opus_contents_def clearAudioLocked_def)

lemma queue_abs_sel [simp]:
  "sp_generation (queue_abs q) = generation q" "sp_cancelled (queue_abs q) = cancelled q"
  "sp_closed (queue_abs q) = closed q" "sp_handler (queue_abs q) = onCancel q"
  "sp_pcm (queue_abs q) = pcm_contents q" "sp_opus (queue_abs q) = opus_contents q"
  by (simp_all add: queue_abs_def)

lemma spec_check_abs [simp]: "spec_check g (queue_abs q) = validateGenerationLocked g q"
  by (simp add: spec_check_def validateGenerationLocked_def)

lemma abs_cancel:
  "validateGenerationLocked g q = None \<Longrightarrow>
   cancelLocked q = (onCancel q, (clearAudioLocked q)\<lparr>cancelled := True\<rparr>) \<and>
   queue_abs (snd (cancelLocked q)) = spec_fence (queue_abs q)"
  by (simp add: validate_None cancelLocked_def spec_fence_def queue_abs_def)

lemma step_push_pcm:
  assumes "queues_inv q"
  shows "spec_step (queue_abs q) (QPushPCM g src) = map_prod id queue_abs (queue_step q (QPushPCM g src))"
proof (cases "validateGenerationLocked g q")
  case None
  have inv: "pcm_inv q" using assms by (simp add: queues_inv_def)
  note D = pcm_invD [OF inv]
  show ?thesis
  proof (cases "length src > length (pcm q) - pcmSize q")
    case True
    with None D abs_cancel [OF None] show ?thesis
      by (auto simp: PushPCM_def spec_notify_def)
  next
    case False
    with D have f: "pcmSize q + length src \<le> TTSQueueSamples" by auto
    have "pcm_contents (pushPCMLocked src q) = pcm_contents q @ src"
      by (rule pcmq.put_contents [OF inv TrueI f])
    moreover have "opus_contents (pushPCMLocked src q) = opus_contents q" by (simp add: opus_contents_def)
    ultimately have "queue_abs (pushPCMLocked src q) = (queue_abs q)\<lparr>sp_pcm := pcm_contents q @ src\<rparr>"
      by (simp add: queue_abs_def)
    then show ?thesis using None False f by (simp add: PushPCM_def)
  qed
qed (simp add: PushPCM_def)

lemma step_pop_pcm:
  assumes "queues_inv q"
  shows "spec_step (queue_abs q) (QPopPCM g dst) = map_prod id queue_abs (queue_step q (QPopPCM g dst))"
proof (cases "validateGenerationLocked g q = None \<and> length dst = SamplesPerFrame \<and> \<not> pcmSize q < length dst")
  case True
  have inv: "pcm_inv q" using assms by (simp add: queues_inv_def)
  have n: "length dst \<le> pcmSize q" using True by simp
  obtain out q' where p: "popPCMLocked dst q = (out, q')" by fastforce
  from popPCM_correct(2,3) [OF inv n] popPCM_frame [of dst q] have
    "out = take SamplesPerFrame (pcm_contents q)" "pcm_contents q' = drop SamplesPerFrame (pcm_contents q)"
    "opus_contents q' = opus_contents q" "generation q' = generation q" "cancelled q' = cancelled q"
    "closed q' = closed q" "onCancel q' = onCancel q"
    using True by (simp_all add: p opus_contents_def)
  then have "out = take SamplesPerFrame (pcm_contents q)"
    "queue_abs q' = (queue_abs q)\<lparr>sp_pcm := drop SamplesPerFrame (pcm_contents q)\<rparr>"
    by (simp_all add: queue_abs_def)
  then show ?thesis using True p by (simp add: PopPCMFrame_def)
next
  case False
  then show ?thesis by (auto simp: PopPCMFrame_def split: option.splits)
qed

lemma step_push_opus:
  assumes "queues_inv q"
  shows "spec_step (queue_abs q) (QPushOpus g b) = map_prod id queue_abs (queue_step q (QPushOpus g b))"
proof (cases "validateGenerationLocked g q")
  case None
  have inv: "opus_inv q" using assms by (simp add: queues_inv_def)
  note D = opus_invD [OF inv]
  consider (bad) "b = [] \<or> length b > MaxOpusPacketBytes"
    | (full) "b \<noteq> []" "\<not> length b > MaxOpusPacketBytes" "opusSize q = length (opus q)"
    | (ok) "b \<noteq> []" "\<not> length b > MaxOpusPacketBytes" "opusSize q \<noteq> length (opus q)" by blast
  then show ?thesis
  proof cases
    case bad
    then show ?thesis using None by (auto simp: PushOpus_def)
  next
    case full
    with None D abs_cancel [OF None] show ?thesis by (auto simp: PushOpus_def spec_notify_def)
  next
    case ok
    with D have r: "opusSize q + length [b] \<le> OpusQueueFrames" and one: "one_packet [b]"
      by (auto simp: one_packet_def)
    have "opus_contents (pushOpusLocked b q) = opus_contents q @ [b]"
      using opusq.put_contents [OF inv one r] by (simp add: put_packet_def)
    moreover have "pcm_contents (pushOpusLocked b q) = pcm_contents q" by (simp add: pcm_contents_def)
    ultimately have "queue_abs (pushOpusLocked b q) = (queue_abs q)\<lparr>sp_opus := opus_contents q @ [b]\<rparr>"
      by (simp add: queue_abs_def)
    then show ?thesis using None ok D by (simp add: PushOpus_def)
  qed
qed (simp add: PushOpus_def)

lemma step_pop_opus:
  assumes "queues_inv q"
  shows "spec_step (queue_abs q) (QPopOpus g dst) = map_prod id queue_abs (queue_step q (QPopOpus g dst))"
proof (cases "validateGenerationLocked g q")
  case None
  have inv: "opus_inv q" using assms by (simp add: queues_inv_def)
  show ?thesis
  proof (cases "opusSize q = 0")
    case True
    then have "opus_contents q = []" by (simp add: opus_contents_def)
    with True None show ?thesis by (simp add: PopOpus_def)
  next
    case False
    then have ne: "0 < opusSize q" by simp
    obtain b bs where c: "opus_contents q = b # bs"
      using ne by (metis length_opus_contents length_greater_0_conv neq_Nil_conv)
    obtain out q' where p: "popOpusLocked q = (out, q')" by fastforce
    have b: "b = slot_bytes (opus q ! opusHead q)" and size: "slot_size (opus q ! opusHead q) = length b"
      using opus_head_live [OF inv ne] c by (auto simp: slot_ok_def slot_bytes_def)
    from popOpus_correct(2,3) [OF inv ne] popOpus_frame [of q] have
      "out = b" "opus_contents q' = bs" "pcm_contents q' = pcm_contents q" "generation q' = generation q"
      "cancelled q' = cancelled q" "closed q' = closed q" "onCancel q' = onCancel q"
      by (simp_all add: p c pcm_contents_def)
    then have "out = b" "queue_abs q' = (queue_abs q)\<lparr>sp_opus := bs\<rparr>"
      by (simp_all add: queue_abs_def)
    then show ?thesis using None False c p size by (simp add: PopOpus_def)
  qed
qed (simp add: PopOpus_def)

lemma queue_step_refines:
  assumes "queues_inv q"
  shows "spec_step (queue_abs q) c = map_prod id queue_abs (queue_step q c)"
proof (cases c)
  case (QActivate g)
  then show ?thesis by (auto simp: Activate_def queue_abs_def)
next
  case (QCancel g cause)
  then show ?thesis using abs_cancel [of g q]
    by (auto simp: Cancel_def Let_def spec_notify_def split: option.splits)
next
  case QClose
  then show ?thesis by (simp add: Close_def queue_abs_def)
next
  case QState
  then show ?thesis by (simp add: State_def)
qed (use assms step_push_pcm step_pop_pcm step_push_opus step_pop_opus in blast)+

lemma queue_step_inv: "queues_inv q \<Longrightarrow> queues_inv (snd (queue_step q c))"
  using queue_op_inv [of q] by (cases c) (auto simp: case_prod_beta Let_def)

lemma queue_run_inv: "queues_inv q \<Longrightarrow> queues_inv (snd (queue_run q cs))"
proof (induction cs arbitrary: q)
  case (Cons c cs)
  from Cons.IH [OF queue_step_inv [OF Cons.prems, of c]] show ?case
    by (simp add: case_prod_beta Let_def)
qed simp

lemma queue_run_refines:
  "queues_inv q \<Longrightarrow> spec_run (queue_abs q) cs = map_prod id queue_abs (queue_run q cs)"
proof (induction cs arbitrary: q)
  case (Cons c cs)
  from Cons.IH [OF queue_step_inv [OF Cons.prems, of c]] queue_step_refines [OF Cons.prems, of c]
  show ?case by (simp add: case_prod_beta Let_def map_prod_def)
qed simp

lemma queue_abs_new: "queue_abs (NewGenerationQueues cb) =
    \<lparr>sp_generation = 0, sp_cancelled = False, sp_closed = False, sp_handler = cb, sp_pcm = [], sp_opus = []\<rparr>"
  by (simp add: queue_abs_def NewGenerationQueues_def pcm_contents_def opus_contents_def)

section \<open>The generation fence\<close>

text \<open>A generation is fenced off once it is cancelled, superseded, or the queues are closed.\<close>

definition fenced :: "u64 \<Rightarrow> queues \<Rightarrow> bool" where
  "fenced g q \<longleftrightarrow> closed q \<or> g < generation q \<or> (g = generation q \<and> g \<noteq> 0 \<and> cancelled q)"

fun yields_audio :: "queue_reply \<Rightarrow> bool" where
  "yields_audio (RFrame e _) = (e = None)"
| "yields_audio (RPacket r _) = (case r of Inl _ \<Rightarrow> False | Inr _ \<Rightarrow> True)"
| "yields_audio _ = False"

fun accepts_audio :: "queue_reply \<Rightarrow> bool" where
  "accepts_audio (RErr e _) = (e = None)"
| "accepts_audio _ = False"

fun call_generation :: "queue_call \<Rightarrow> u64 option" where
  "call_generation (QPushPCM g _) = Some g"
| "call_generation (QPopPCM g _) = Some g"
| "call_generation (QPushOpus g _) = Some g"
| "call_generation (QPopOpus g _) = Some g"
| "call_generation _ = None"

lemma fenced_validate: "fenced g q \<Longrightarrow> validateGenerationLocked g q \<noteq> None"
  by (auto simp: fenced_def validate_None)

lemma cancelLocked_fenced: "fenced g q \<Longrightarrow> fenced g (snd (cancelLocked q))"
  by (auto simp: fenced_def cancelLocked_def)

lemma fenced_frame:
  "fenced g (pushPCMLocked src q) = fenced g q" "fenced g (snd (popPCMLocked dst q)) = fenced g q"
  "fenced g (pushOpusLocked b q) = fenced g q" "fenced g (snd (popOpusLocked q)) = fenced g q"
  by (simp_all add: fenced_def)

lemma queue_step_fenced: "fenced g q \<Longrightarrow> fenced g (snd (queue_step q c))"
proof (cases c)
  case (QActivate g')
  assume "fenced g q"
  with QActivate show ?thesis by (auto simp: Activate_def fenced_def)
next
  case QClose
  then show ?thesis by (auto simp: Close_def fenced_def)
qed (use cancelLocked_fenced [of g q] fenced_frame in
      \<open>auto simp: PushPCM_def PopPCMFrame_def PushOpus_def PopOpus_def Cancel_def case_prod_beta Let_def split: option.splits\<close>)

lemma fenced_silent:
  "fenced g q \<Longrightarrow> call_generation c = Some g \<Longrightarrow>
   \<not> yields_audio (fst (queue_step q c)) \<and> \<not> accepts_audio (fst (queue_step q c))"
  using fenced_validate [of g q]
  by (cases c) (auto simp: PushPCM_def PopPCMFrame_def PushOpus_def PopOpus_def split: option.splits)

lemma queue_run_fenced:
  "fenced g q \<Longrightarrow> i < length cs \<Longrightarrow> call_generation (cs ! i) = Some g \<Longrightarrow>
   \<not> yields_audio (fst (queue_run q cs) ! i) \<and> \<not> accepts_audio (fst (queue_run q cs) ! i)"
proof (induction cs arbitrary: q i)
  case (Cons c cs)
  obtain r q1 where s: "queue_step q c = (r, q1)" by fastforce
  obtain rs q2 where t: "queue_run q1 cs = (rs, q2)" by fastforce
  show ?case
  proof (cases i)
    case 0
    with Cons.prems fenced_silent [of g q c] s t show ?thesis by simp
  next
    case (Suc j)
    have "fenced g q1" using queue_step_fenced [OF Cons.prems(1), of c] s by simp
    from Cons.IH [OF this, of j] Suc Cons.prems s t show ?thesis by simp
  qed
qed simp

section \<open>Where audio comes from\<close>

text \<open>The audio one answered call put into a generation, and the audio it took out of it.\<close>

fun queued_packet :: "u64 \<Rightarrow> queue_call \<times> queue_reply \<Rightarrow> u8 list list" where
  "queued_packet g (QPushOpus h b, RErr None _) = (if h = g then [b] else [])"
| "queued_packet g _ = []"

fun taken_packet :: "u64 \<Rightarrow> queue_call \<times> queue_reply \<Rightarrow> u8 list list" where
  "taken_packet g (QPopOpus h _, RPacket (Inr n) out) = (if h = g then [take n out] else [])"
| "taken_packet g _ = []"

fun queued_block :: "u64 \<Rightarrow> queue_call \<times> queue_reply \<Rightarrow> i16 list" where
  "queued_block g (QPushPCM h src, RErr None _) = (if h = g then src else [])"
| "queued_block g _ = []"

fun taken_frame :: "u64 \<Rightarrow> queue_call \<times> queue_reply \<Rightarrow> i16 list" where
  "taken_frame g (QPopPCM h _, RFrame None out) = (if h = g then out else [])"
| "taken_frame g _ = []"

definition queue_history :: "bool \<Rightarrow> queue_call list \<Rightarrow> (queue_call \<times> queue_reply) list" where
  "queue_history cb cs = zip cs (fst (queue_run (NewGenerationQueues cb) cs))"

text \<open>
  The account of one generation: nothing before it is activated; while it is the active one, what
  was taken out followed by what is queued is what was put in; afterwards what was taken out is
  an initial part of what was put in.
\<close>

definition accounted :: "u64 \<Rightarrow> queue_spec \<Rightarrow> 'a list \<Rightarrow> 'a list \<Rightarrow> 'a list \<Rightarrow> bool" where
  "accounted g s contents queued taken \<longleftrightarrow>
     (sp_generation s = 0 \<longrightarrow> contents = [] \<and> \<not> sp_cancelled s) \<and>
     (if g = 0 \<or> sp_generation s < g then queued = [] \<and> taken = []
      else if g = sp_generation s \<and> \<not> sp_cancelled s \<and> \<not> sp_closed s then taken @ contents = queued
      else prefix taken queued)"

lemma accounted_prefix: "accounted g s xs queued taken \<Longrightarrow> prefix taken queued"
  by (auto simp: accounted_def split: if_splits)

lemma spec_check_None:
  "spec_check g s = None \<longleftrightarrow> \<not> sp_closed s \<and> g \<noteq> 0 \<and> sp_generation s = g \<and> \<not> sp_cancelled s"
  by (auto simp: spec_check_def)

lemma accounted_frame [simp]:
  "accounted g (s\<lparr>sp_pcm := x\<rparr>) = accounted g s" "accounted g (s\<lparr>sp_opus := y\<rparr>) = accounted g s"
  by (simp_all add: accounted_def fun_eq_iff)

lemma accounted_put:
  "accounted g s xs queued taken \<Longrightarrow> spec_check h s = None \<Longrightarrow>
   accounted g s (xs @ ys) (queued @ (if h = g then ys else [])) taken"
  by (auto simp: accounted_def spec_check_None)

lemma accounted_get:
  "accounted g s (ys @ xs) queued taken \<Longrightarrow> spec_check h s = None \<Longrightarrow>
   accounted g s xs queued (taken @ (if h = g then ys else []))"
  by (auto simp: accounted_def spec_check_None)

lemma accounted_fence:
  "accounted g s xs queued taken \<Longrightarrow> spec_check h s = None \<Longrightarrow> accounted g (spec_fence s) [] queued taken"
  by (auto simp: accounted_def spec_check_None spec_fence_def split: if_splits)

lemma accounted_close:
  "accounted g s xs queued taken \<Longrightarrow> xs' = (if sp_closed s then xs else []) \<Longrightarrow> accounted g (snd (spec_step s QClose)) xs' queued taken"
  by (auto simp: accounted_def split: if_splits)

lemma accounted_activate:
  assumes "accounted g s xs queued taken" and "xs' = (if sp_generation s \<noteq> 0 \<and> sp_generation (snd (spec_step s (QActivate h))) \<noteq> sp_generation s then [] else xs)"
  shows "accounted g (snd (spec_step s (QActivate h))) xs' queued taken"
proof -
  have pos: "0 < k \<longleftrightarrow> k \<noteq> 0" for k :: u64 by (simp add: word_gt_0)
  consider "sp_closed s \<or> h = 0 \<or> sp_generation s \<noteq> 0 \<and> h \<le> sp_generation s" | "\<not> sp_closed s" "h \<noteq> 0" "sp_generation s = 0"
    | "\<not> sp_closed s" "sp_generation s \<noteq> 0" "sp_generation s < h" by force
  then show ?thesis
  proof cases
    case 1
    then have "snd (spec_step s (QActivate h)) = s" by (auto simp: not_less)
    with assms show ?thesis by simp
  next
    case 3
    then have h: "h \<noteq> 0" by auto
    have "accounted g (s\<lparr>sp_generation := h, sp_cancelled := False, sp_pcm := [], sp_opus := []\<rparr>) [] queued taken"
      using assms(1) 3 h by (cases "g = h") (auto simp: accounted_def split: if_splits)
    with 3 h assms(2) show ?thesis by auto
  next
    case 2
    then show ?thesis using assms pos by (auto simp: accounted_def split: if_splits)
  qed
qed

lemma accounted_packets:
  assumes a: "accounted g s (sp_opus s) queued taken" and c: "spec_step s c = (r, s')"
  shows "accounted g s' (sp_opus s') (queued @ queued_packet g (c, r)) (taken @ taken_packet g (c, r))"
proof (cases c)
  case (QActivate h)
  moreover from this c have "queued_packet g (c, r) = []" "taken_packet g (c, r) = []" "s' = snd (spec_step s (QActivate h))" by simp_all
  ultimately show ?thesis using accounted_activate [OF a, of "sp_opus s'" h] by (auto split: if_splits)
next
  case (QPushOpus h b)
  then show ?thesis using c a accounted_put [OF a, of h "[b]"] accounted_fence [OF a, of h]
    by (auto simp: spec_fence_def split: option.splits if_splits)
next
  case (QPopOpus h dst)
  show ?thesis
  proof (cases "spec_check h s")
    case None
    then show ?thesis using c a QPopOpus accounted_get [of g s "[hd (sp_opus s)]" "tl (sp_opus s)" queued taken h]
      by (auto simp: take_copy_into_0 split: list.splits if_splits)
  qed (use c a QPopOpus in auto)
next
  case QClose
  then show ?thesis using c a accounted_close [OF a refl] by auto
qed (use c a accounted_fence [OF a] in \<open>auto simp: spec_fence_def split: option.splits if_splits\<close>)

lemma accounted_samples:
  assumes a: "accounted g s (sp_pcm s) queued taken" and c: "spec_step s c = (r, s')"
  shows "accounted g s' (sp_pcm s') (queued @ queued_block g (c, r)) (taken @ taken_frame g (c, r))"
proof (cases c)
  case (QActivate h)
  moreover from this c have "queued_block g (c, r) = []" "taken_frame g (c, r) = []" "s' = snd (spec_step s (QActivate h))" by simp_all
  ultimately show ?thesis using accounted_activate [OF a, of "sp_pcm s'" h] by (auto split: if_splits)
next
  case (QPushPCM h src)
  then show ?thesis using c a accounted_put [OF a, of h src] accounted_fence [OF a, of h]
    by (auto simp: spec_fence_def split: option.splits if_splits)
next
  case (QPopPCM h dst)
  then show ?thesis using c a accounted_get [of g s "take SamplesPerFrame (sp_pcm s)" "drop SamplesPerFrame (sp_pcm s)" queued taken h]
    by (auto split: option.splits if_splits)
next
  case (QPopOpus h dst)
  then show ?thesis using c a by (auto split: option.splits list.splits if_splits)
next
  case QClose
  then show ?thesis using c a accounted_close [OF a refl] by auto
qed (use c a accounted_fence [OF a] in \<open>auto simp: spec_fence_def split: option.splits if_splits\<close>)

lemma accounted_packets_run:
  "accounted g s (sp_opus s) queued taken \<Longrightarrow> spec_run s cs = (rs, s') \<Longrightarrow>
   accounted g s' (sp_opus s') (queued @ concat (map (queued_packet g) (zip cs rs))) (taken @ concat (map (taken_packet g) (zip cs rs)))"
proof (induction cs arbitrary: s queued taken rs)
  case (Cons c cs)
  obtain r s1 where c: "spec_step s c = (r, s1)" by fastforce
  obtain rs1 where t: "spec_run s1 cs = (rs1, s')" "rs = r # rs1" using Cons.prems(2) c by (auto split: prod.splits)
  from Cons.IH [OF accounted_packets [OF Cons.prems(1) c] t(1)] t(2) show ?case by simp
qed simp

lemma accounted_samples_run:
  "accounted g s (sp_pcm s) queued taken \<Longrightarrow> spec_run s cs = (rs, s') \<Longrightarrow>
   accounted g s' (sp_pcm s') (queued @ concat (map (queued_block g) (zip cs rs))) (taken @ concat (map (taken_frame g) (zip cs rs)))"
proof (induction cs arbitrary: s queued taken rs)
  case (Cons c cs)
  obtain r s1 where c: "spec_step s c = (r, s1)" by fastforce
  obtain rs1 where t: "spec_run s1 cs = (rs1, s')" "rs = r # rs1" using Cons.prems(2) c by (auto split: prod.splits)
  from Cons.IH [OF accounted_samples [OF Cons.prems(1) c] t(1)] t(2) show ?case by simp
qed simp

text \<open>The account of every generation over a whole history of calls.\<close>

lemma history_accounted:
  fixes cb cs
  defines "h \<equiv> queue_history cb cs" and "q \<equiv> snd (queue_run (NewGenerationQueues cb) cs)"
  shows "accounted g (queue_abs q) (opus_contents q) (concat (map (queued_packet g) h)) (concat (map (taken_packet g) h))"
    and "accounted g (queue_abs q) (pcm_contents q) (concat (map (queued_block g) h)) (concat (map (taken_frame g) h))"
proof -
  let ?s = "queue_abs (NewGenerationQueues cb)"
  have run: "spec_run ?s cs = (fst (queue_run (NewGenerationQueues cb) cs), queue_abs q)"
    using queue_run_refines [OF NewGenerationQueues_inv, of cb cs] by (simp add: q_def map_prod_def case_prod_beta)
  have "accounted g ?s (sp_opus ?s) [] []" "accounted g ?s (sp_pcm ?s) [] []" by (simp_all add: queue_abs_new accounted_def)
  from accounted_packets_run [OF this(1) run] accounted_samples_run [OF this(2) run]
  show "accounted g (queue_abs q) (opus_contents q) (concat (map (queued_packet g) h)) (concat (map (taken_packet g) h))"
    and "accounted g (queue_abs q) (pcm_contents q) (concat (map (queued_block g) h)) (concat (map (taken_frame g) h))"
    by (simp_all add: h_def queue_history_def)
qed

lemma accounted_live:
  "accounted g (queue_abs q) xs queued taken \<Longrightarrow> validateGenerationLocked g q = None \<Longrightarrow> taken @ xs = queued"
  by (simp add: accounted_def validate_None)

end
