(* ===== verification/Playback.thy ===== *)
theory Playback
  imports Queue_Contract
begin

text \<open>
  \<open>internal/voice/audio/playback.go\<close>: one generation's playback. A producer pushes PCM
  bytes, the \<open>run\<close> goroutine encodes 20 ms frames and sends them paced. The loops are
  functions of the playback state; what blocks (\<open>select\<close>) is an outcome, and the
  goroutines interleave in the step relation \<open>playback_step\<close>, one loop iteration at a
  time. Codec, sender, pacer and generation guard are external and appear as arguments.
  A method is called on a non-nil receiver.
\<close>

datatype ctx = CtxNil | CtxLive | CtxErr audio_error

text \<open>\<open>pb_wake\<close> and \<open>pb_space\<close> are the one-slot channels: whether a token is queued.\<close>

record 'c playback =
  pb_generation :: u64
  pb_queues :: queues
  pb_encoder :: "'c frame_encoder"
  pb_ctx_done :: bool
  pb_final :: bool
  pb_err :: "audio_error option"
  pb_wake :: bool
  pb_space :: bool
  pb_done :: bool
  pb_close_once :: bool

record 'c playback_config =
  cfg_Context :: ctx
  cfg_Generation :: u64
  cfg_Encoder :: "'c option"
  cfg_SenderNil :: bool
  cfg_PacerTypedNil :: bool

definition NewGenerationPlayback :: "'c playback_config \<Rightarrow> audio_error + 'c playback" where
  "NewGenerationPlayback config =
     (if cfg_Context config \<noteq> CtxLive \<or> cfg_Generation config = 0 \<or> cfg_Encoder config = None \<or>
         cfg_SenderNil config \<or> cfg_PacerTypedNil config
      then Inl ErrInvalidPlayback
      else case NewFrameEncoder (cfg_Encoder config) of
             Inl _ \<Rightarrow> Inl ErrInvalidPlayback
           | Inr frameEncoder \<Rightarrow>
               (case Activate (cfg_Generation config) (NewGenerationQueues False) of
                  (Some _, _) \<Rightarrow> Inl ErrInvalidPlayback
                | (None, q) \<Rightarrow>
                    Inr \<lparr>pb_generation = cfg_Generation config, pb_queues = q, pb_encoder = frameEncoder,
                         pb_ctx_done = False, pb_final = False, pb_err = None, pb_wake = False,
                         pb_space = False, pb_done = False, pb_close_once = False\<rparr>))"

definition setError :: "audio_error \<Rightarrow> 'c playback \<Rightarrow> 'c playback" where
  "setError e pb = (if pb_err pb = None then pb\<lparr>pb_err := Some e\<rparr> else pb)"

definition inputFinished :: "'c playback \<Rightarrow> bool" where
  "inputFinished pb = pb_final pb"

definition pb_fail :: "audio_error option \<Rightarrow> 'c playback \<Rightarrow> 'c playback" where
  "pb_fail err pb =
     (let e = (case err of None \<Rightarrow> ErrInvalidPlayback | Some e \<Rightarrow> e);
          pb1 = setError e pb;
          q = snd (snd (Cancel (pb_generation pb) (Some e) (pb_queues pb)))
      in pb1\<lparr>pb_queues := q, pb_ctx_done := True, pb_space := True\<rparr>)"

definition cancellationError :: "'c playback \<Rightarrow> audio_error" where
  "cancellationError pb =
     (if st_Cancelled (State (pb_queues pb)) then ErrGenerationCancelled
      else case pb_err pb of Some e \<Rightarrow> e | None \<Rightarrow> ErrQueueClosed)"

definition pb_Cancel :: "u64 \<Rightarrow> audio_error option \<Rightarrow> 'c playback \<Rightarrow> audio_error option \<times> 'c playback" where
  "pb_Cancel g cause pb =
     (if g = 0 then (Some ErrInvalidPlayback, pb)
      else if g < pb_generation pb then (Some ErrStaleGeneration, pb)
      else if g > pb_generation pb then (Some ErrFutureGeneration, pb)
      else
        let pb1 = setError ErrGenerationCancelled pb;
            (err, _, q) = Cancel g cause (pb_queues pb1);
            pb2 = pb1\<lparr>pb_queues := q\<rparr>
        in if err \<noteq> None \<and> err \<noteq> Some ErrGenerationCancelled then (err, pb2)
           else (None, pb2\<lparr>pb_ctx_done := True, pb_wake := True, pb_space := True\<rparr>))"

text \<open>
  One iteration of \<open>pushPCMBytesLocked\<close> at \<open>offset < len(source)\<close>: it fails, has to wait
  for space, or queues up to one frame and moves on.
\<close>

datatype 'c push_outcome = PushFail audio_error "'c playback" | PushWait | PushNext nat "'c playback"

definition push_iter :: "u8 list \<Rightarrow> nat \<Rightarrow> 'c playback \<Rightarrow> 'c push_outcome" where
  "push_iter source offset pb =
     (let state = State (pb_queues pb)
      in if st_Cancelled state then PushFail ErrGenerationCancelled pb
         else if st_Closed state then PushFail ErrQueueClosed pb
         else
           let available = TTSQueueSamples - st_PCMSamples state
           in if available = 0 then PushWait
              else
                let remainingSamples = (length source - offset) div 2;
                    count = min remainingSamples (min SamplesPerFrame available);
                    bytesRead = count * 2
                in case PCM16LEToSamples (take bytesRead (drop offset source)) (replicate count 0) of
                     Inl e \<Rightarrow> PushFail e pb
                   | Inr (_, samples) \<Rightarrow>
                       (case PushPCM (pb_generation pb) samples (pb_queues pb) of
                          (Some e, _, q) \<Rightarrow> PushFail e (pb\<lparr>pb_queues := q\<rparr>)
                        | (None, _, q) \<Rightarrow>
                            PushNext (offset + bytesRead) (pb\<lparr>pb_queues := q, pb_wake := True\<rparr>)))"

text \<open>The guards of \<open>PushPCM16LE\<close> before its loop; \<open>None\<close> admits the push.\<close>

definition push_guard :: "ctx \<Rightarrow> u8 list \<Rightarrow> 'c playback \<Rightarrow> audio_error option" where
  "push_guard c source pb =
     (if c = CtxNil then Some ErrInvalidPlayback
      else if length source = 0 \<or> length source mod 2 \<noteq> 0 then Some ErrInvalidPCMBytes
      else case c of CtxErr e \<Rightarrow> Some e
           | _ \<Rightarrow> if inputFinished pb then Some ErrPlaybackFinished else None)"

text \<open>
  The first half of \<open>Finish\<close>: an error, or the zero padding that completes the last
  frame (empty when there is nothing to pad).
\<close>

definition finish_padding :: "ctx \<Rightarrow> 'c playback \<Rightarrow> audio_error + u8 list" where
  "finish_padding c pb =
     (case c of CtxNil \<Rightarrow> Inl ErrInvalidPlayback
      | CtxErr e \<Rightarrow> Inl e
      | CtxLive \<Rightarrow>
          if inputFinished pb then Inr []
          else
            let state = State (pb_queues pb)
            in if st_Cancelled state then Inl ErrGenerationCancelled
               else let remainder = st_PCMSamples state mod SamplesPerFrame
                    in Inr (if remainder \<noteq> 0 then replicate ((SamplesPerFrame - remainder) * 2) 0 else []))"

definition finish_commit :: "'c playback \<Rightarrow> 'c playback" where
  "finish_commit pb = (if inputFinished pb then pb else pb\<lparr>pb_final := True, pb_wake := True\<rparr>)"

lemma PushOpus_pcmSize: "PushOpus g b q = (None, cb, q') \<Longrightarrow> pcmSize q' = pcmSize q"
  by (auto simp: PushOpus_def case_prod_beta Let_def split: option.splits if_splits)

lemma PopPCMFrame_pcmSize:
  "PopPCMFrame g dst q = (None, out, q') \<Longrightarrow> length dst \<le> pcmSize q \<and> pcmSize q' = pcmSize q - length dst"
  by (auto simp: PopPCMFrame_def split: option.splits if_splits prod.splits
        dest!: arg_cong [where f = "pcmSize \<circ> snd"])

text \<open>\<open>fillOpus\<close>: encode whole frames while the packet queue has room.\<close>

function fillOpus :: "('c, i16, u8) codec \<Rightarrow> 'c playback \<Rightarrow> audio_error option \<times> 'c playback" where
  "fillOpus codec pb =
     (let state = State (pb_queues pb)
      in if st_Cancelled state \<or> st_Closed state then (Some ErrGenerationCancelled, pb)
         else if st_PCMSamples state < SamplesPerFrame \<or> st_OpusFrames state \<ge> OpusQueueFrames then (None, pb)
         else case PopPCMFrame (pb_generation pb) (replicate SamplesPerFrame 0) (pb_queues pb) of
                (Some e, _, q) \<Rightarrow> (Some e, pb\<lparr>pb_queues := q\<rparr>)
              | (None, frame, q) \<Rightarrow>
                  (case Encode codec (pb_encoder pb) frame of
                     (Inl e, enc) \<Rightarrow> (Some e, pb\<lparr>pb_queues := q, pb_space := True, pb_encoder := enc\<rparr>)
                   | (Inr bytes, enc) \<Rightarrow>
                       (case PushOpus (pb_generation pb) bytes q of
                          (Some e, _, q') \<Rightarrow>
                            (Some e, pb\<lparr>pb_queues := q', pb_space := True, pb_encoder := enc\<rparr>)
                        | (None, _, q') \<Rightarrow>
                            fillOpus codec (pb\<lparr>pb_queues := q', pb_space := True, pb_encoder := enc\<rparr>))))"
  by pat_completeness auto

termination
  by (relation "measure (\<lambda>(codec, pb). pcmSize (pb_queues pb))")
     (auto dest!: PushOpus_pcmSize [OF sym] PopPCMFrame_pcmSize [OF sym] simp: State_def)

declare fillOpus.simps [simp del]

text \<open>
  One iteration of \<open>run\<close>, in the three parts between which other goroutines get in:
  \<open>run_fill\<close> up to the wait for the pacer, \<open>run_pop\<close> from the pacer's result \<open>pace\<close> to the
  packet taken off the queue, and \<open>run_send\<close>, where \<open>guarded\<close> is what the generation
  guard does with the packet: refuse it, or let the sender run with some result.
\<close>

datatype guard_result = GuardRefuses audio_error | GuardSends "audio_error option"

datatype 'c run_outcome =
    RunReturn "'c playback"
  | RunWait "'c playback"
  | RunReady "'c playback"
  | RunHold "u8 list" "'c playback"
  | RunSent "u8 list" "'c playback"

definition run_fill :: "('c, i16, u8) codec \<Rightarrow> 'c playback \<Rightarrow> 'c run_outcome" where
  "run_fill codec pb0 =
     (case fillOpus codec pb0 of
        (Some e, pb) \<Rightarrow> RunReturn ((pb_fail (Some e) pb)\<lparr>pb_done := True\<rparr>)
      | (None, pb) \<Rightarrow>
          let state = State (pb_queues pb)
          in if inputFinished pb \<and> st_PCMSamples state = 0 \<and> st_OpusFrames state = 0
             then RunReturn (pb\<lparr>pb_done := True\<rparr>)
             else if st_OpusFrames state = 0 then RunWait pb
             else RunReady pb)"

definition run_pop :: "audio_error option \<Rightarrow> bool \<Rightarrow> 'c playback \<Rightarrow> 'c run_outcome" where
  "run_pop pace sent pb =
     (if sent \<and> pace \<noteq> None
      then RunReturn ((if pb_ctx_done pb then pb else pb_fail pace pb)\<lparr>pb_done := True\<rparr>)
      else
        (case PopOpus (pb_generation pb) (replicate MaxOpusPacketBytes 0) (pb_queues pb) of
           (Inl e, _, q) \<Rightarrow>
             if e = ErrGenerationCancelled \<or> e = ErrQueueClosed
             then RunReturn (pb\<lparr>pb_queues := q, pb_done := True\<rparr>)
             else RunReturn ((pb_fail (Some e) (pb\<lparr>pb_queues := q\<rparr>))\<lparr>pb_done := True\<rparr>)
         | (Inr bytesRead, buf, q) \<Rightarrow> RunHold (take bytesRead buf) (pb\<lparr>pb_queues := q\<rparr>)))"

definition run_send :: "guard_result \<Rightarrow> u8 list \<Rightarrow> 'c playback \<Rightarrow> 'c run_outcome" where
  "run_send guarded b pb =
     (case guarded of
        GuardRefuses e \<Rightarrow> RunReturn ((pb_fail (Some e) pb)\<lparr>pb_done := True\<rparr>)
      | GuardSends (Some e) \<Rightarrow> RunReturn ((pb_fail (Some e) pb)\<lparr>pb_done := True\<rparr>)
      | GuardSends None \<Rightarrow> RunSent b (pb\<lparr>pb_space := True\<rparr>))"

definition run_iter :: "('c, i16, u8) codec \<Rightarrow> audio_error option \<Rightarrow> guard_result \<Rightarrow> bool \<Rightarrow> 'c playback \<Rightarrow> 'c run_outcome" where
  "run_iter codec pace guarded sent pb0 =
     (case run_fill codec pb0 of
        RunReady pb \<Rightarrow> (case run_pop pace sent pb of
                          RunHold b pb' \<Rightarrow> run_send guarded b pb'
                        | out \<Rightarrow> out)
      | out \<Rightarrow> out)"

lemmas run_parts = run_fill_def run_pop_def run_send_def

text \<open>The body of \<open>Close\<close>'s \<open>sync.Once\<close> after the cancellation and the wait for \<open>run\<close>.\<close>

definition pb_Close_finish :: "'c playback \<Rightarrow> 'c playback" where
  "pb_Close_finish pb = pb\<lparr>pb_queues := Close (pb_queues pb), pb_encoder := encoder_Reset (pb_encoder pb)\<rparr>"

definition pb_State :: "'c playback \<Rightarrow> queue_state" where
  "pb_State pb = State (pb_queues pb)"

definition pb_Err :: "'c playback \<Rightarrow> audio_error option" where
  "pb_Err pb = pb_err pb"

section \<open>Invariant\<close>

definition playback_inv :: "'c playback \<Rightarrow> bool" where
  "playback_inv pb \<longleftrightarrow> queues_inv (pb_queues pb) \<and> encoder_inv (pb_encoder pb) \<and>
     pb_generation pb \<noteq> 0 \<and> generation (pb_queues pb) = pb_generation pb"

lemma NewGenerationPlayback_inv: "NewGenerationPlayback cfg = Inr pb \<Longrightarrow> playback_inv pb \<and> pb_err pb = None"
proof -
  assume a: "NewGenerationPlayback cfg = Inr pb"
  let ?g = "cfg_Generation cfg"
  have g: "?g \<noteq> 0" using a by (auto simp: NewGenerationPlayback_def split: if_splits)
  have act: "Activate ?g (NewGenerationQueues False) = (None, (NewGenerationQueues False)\<lparr>generation := ?g\<rparr>)"
    using g by (simp add: Activate_def NewGenerationQueues_def)
  have "queues_inv (snd (Activate ?g (NewGenerationQueues False)))"
    by (rule Activate_inv [OF NewGenerationQueues_inv])
  with a g act show ?thesis
    by (auto simp: NewGenerationPlayback_def playback_inv_def NewFrameEncoder_def encoder_inv_def
          split: if_splits option.splits)
qed

lemma op_generation [simp]:
  "generation (snd (snd (Cancel g c q))) = generation q"
  "generation (snd (snd (PushPCM g src q))) = generation q"
  "generation (snd (snd (PopPCMFrame g dst q))) = generation q"
  "generation (snd (snd (PushOpus g b q))) = generation q"
  "generation (snd (snd (PopOpus g out q))) = generation q"
  by (auto simp: Cancel_def PushPCM_def PopPCMFrame_def PushOpus_def PopOpus_def cancelLocked_def
        case_prod_beta Let_def split: option.splits)

lemma setError_inv [simp]: "playback_inv (setError e pb) = playback_inv pb"
  by (simp add: setError_def playback_inv_def)

lemma pb_fail_inv: "playback_inv pb \<Longrightarrow> playback_inv (pb_fail e pb)"
  using Cancel_inv [of "pb_queues pb" "pb_generation pb"]
  by (simp add: pb_fail_def Let_def playback_inv_def setError_def)

lemma pb_Cancel_inv: "playback_inv pb \<Longrightarrow> playback_inv (snd (pb_Cancel g c pb))"
  using Cancel_inv [of "pb_queues pb" g c] op_generation(1) [of g c "pb_queues pb"]
  by (auto simp: pb_Cancel_def Let_def playback_inv_def setError_def case_prod_beta)

lemma playback_live:
  "playback_inv pb \<Longrightarrow> \<not> cancelled (pb_queues pb) \<Longrightarrow> \<not> closed (pb_queues pb) \<Longrightarrow>
   validateGenerationLocked (pb_generation pb) (pb_queues pb) = None"
  by (simp add: validate_None playback_inv_def)

text \<open>
  The producer never overruns the bounded PCM queue: an iteration either waits, fails
  because the generation is over, or queues the decoded bytes at the end of the queue.
\<close>

lemma push_iter_cases:
  assumes "playback_inv pb" and "even (length source)" and "even offset" and "offset < length source"
  shows "(cancelled (pb_queues pb) \<longrightarrow> push_iter source offset pb = PushFail ErrGenerationCancelled pb) \<and>
    (\<not> cancelled (pb_queues pb) \<and> closed (pb_queues pb) \<longrightarrow> push_iter source offset pb = PushFail ErrQueueClosed pb) \<and>
    (\<not> cancelled (pb_queues pb) \<and> \<not> closed (pb_queues pb) \<and> pcmSize (pb_queues pb) = TTSQueueSamples \<longrightarrow>
       push_iter source offset pb = PushWait) \<and>
    (\<not> cancelled (pb_queues pb) \<and> \<not> closed (pb_queues pb) \<and> pcmSize (pb_queues pb) < TTSQueueSamples \<longrightarrow>
       (\<exists>n. 0 < n \<and> n \<le> SamplesPerFrame \<and> offset + n * 2 \<le> length source \<and>
          pcmSize (pb_queues pb) + n \<le> TTSQueueSamples \<and>
          push_iter source offset pb = PushNext (offset + n * 2)
            (pb\<lparr>pb_queues := pushPCMLocked (decode_pcm (take (n * 2) (drop offset source))) (pb_queues pb), pb_wake := True\<rparr>)))"
proof -
  let ?q = "pb_queues pb"
  have inv: "pcm_inv ?q" using assms(1) by (simp add: playback_inv_def queues_inv_def)
  note D = pcm_invD [OF inv]
  have "\<exists>n. 0 < n \<and> n \<le> SamplesPerFrame \<and> offset + n * 2 \<le> length source \<and> pcmSize ?q + n \<le> TTSQueueSamples \<and>
      push_iter source offset pb = PushNext (offset + n * 2)
        (pb\<lparr>pb_queues := pushPCMLocked (decode_pcm (take (n * 2) (drop offset source))) ?q, pb_wake := True\<rparr>)"
    if live: "\<not> cancelled ?q" "\<not> closed ?q" "pcmSize ?q < TTSQueueSamples"
  proof -
    define n where "n = min ((length source - offset) div 2) (min SamplesPerFrame (TTSQueueSamples - pcmSize ?q))"
    have two: "(length source - offset) div 2 * 2 = length source - offset" "0 < (length source - offset) div 2"
      using assms by (auto simp: dvd_diff_nat div_greater_zero_iff elim!: evenE)
    have n: "0 < n" "n \<le> SamplesPerFrame" "n \<le> TTSQueueSamples - pcmSize ?q" "n \<le> (length source - offset) div 2"
      using two(2) live(3) by (auto simp: n_def)
    then have le: "n * 2 \<le> length source - offset" using two(1) by linarith
    let ?bytes = "take (n * 2) (drop offset source)"
    have len: "length ?bytes = n * 2" using le by simp
    have dec: "PCM16LEToSamples ?bytes (replicate n 0) = Inr (n, decode_pcm ?bytes)"
      using len by (simp add: PCM16LEToSamples_eq copy_into_0_fits)
    have room: "\<not> length (decode_pcm ?bytes) > length (pcm ?q) - pcmSize ?q" using len n D by simp
    have push: "PushPCM (pb_generation pb) (decode_pcm ?bytes) ?q = (None, [], pushPCMLocked (decode_pcm ?bytes) ?q)"
      using playback_live [OF assms(1) live(1,2)] room by (simp add: PushPCM_def)
    have "push_iter source offset pb = PushNext (offset + n * 2)
        (pb\<lparr>pb_queues := pushPCMLocked (decode_pcm ?bytes) ?q, pb_wake := True\<rparr>)"
      using live dec push by (simp add: push_iter_def Let_def State_def n_def)
    then show ?thesis using n le live(3) by (intro exI [of _ n]) auto
  qed
  then show ?thesis by (auto simp: push_iter_def Let_def State_def)
qed

lemma push_iter_inv:
  assumes "playback_inv pb" and "even (length source)" and "even offset" and "offset < length source"
    and "push_iter source offset pb = PushNext offset' pb'"
  shows "playback_inv pb' \<and> even offset' \<and> offset < offset' \<and> offset' \<le> length source \<and> pb_err pb' = pb_err pb \<and>
     pcm_contents (pb_queues pb') = pcm_contents (pb_queues pb) @ decode_pcm (take (offset' - offset) (drop offset source))"
proof -
  let ?q = "pb_queues pb"
  have inv: "pcm_inv ?q" "queues_inv ?q" using assms(1) by (auto simp: playback_inv_def queues_inv_def)
  note D = pcm_invD [OF inv(1)]
  note cs = push_iter_cases [OF assms(1-4)]
  have live: "\<not> cancelled ?q" "\<not> closed ?q" "pcmSize ?q < TTSQueueSamples"
    using cs assms(5) D by (auto simp: le_less)
  then obtain n where n: "0 < n" "offset + n * 2 \<le> length source" "pcmSize ?q + n \<le> TTSQueueSamples"
    and o: "offset' = offset + n * 2"
    and pb': "pb' = pb\<lparr>pb_queues := pushPCMLocked (decode_pcm (take (n * 2) (drop offset source))) ?q, pb_wake := True\<rparr>"
    using cs assms(5) by auto
  let ?src = "decode_pcm (take (n * 2) (drop offset source))"
  have fits: "pcmSize ?q + length ?src \<le> TTSQueueSamples" using n by simp
  have "queues_inv (pushPCMLocked ?src ?q)"
    using inv(2) live pushPCM_correct(1) [OF inv(1) fits] assms(1)
    by (simp add: queues_inv_def opus_inv_def playback_inv_def)
  with assms(1,3) n o pb' pcmq.put_contents [OF inv(1) TrueI fits] show ?thesis
    by (simp add: playback_inv_def)
qed

section \<open>Filling the packet queue\<close>

text \<open>
  What a run of the encoder makes of a sequence of frames: the packets in order and the
  encoder afterwards, or the error of the first frame that fails.
\<close>

fun encode_frames :: "('c, i16, u8) codec \<Rightarrow> 'c frame_encoder \<Rightarrow> nat \<Rightarrow> i16 list
    \<Rightarrow> (audio_error + u8 list list) \<times> 'c frame_encoder" where
  "encode_frames codec enc 0 xs = (Inr [], enc)"
| "encode_frames codec enc (Suc n) xs =
     (case Encode codec enc (take SamplesPerFrame xs) of
        (Inl e, enc') \<Rightarrow> (Inl e, enc')
      | (Inr b, enc') \<Rightarrow>
          (case encode_frames codec enc' n (drop SamplesPerFrame xs) of
             (Inl e, enc'') \<Rightarrow> (Inl e, enc'')
           | (Inr bs, enc'') \<Rightarrow> (Inr (b # bs), enc'')))"

definition fill_count :: "queues \<Rightarrow> nat" where
  "fill_count q = min (pcmSize q div SamplesPerFrame) (OpusQueueFrames - opusSize q)"

lemma playback_invD:
  assumes "playback_inv pb"
  shows "pcm_inv (pb_queues pb)" "opus_inv (pb_queues pb)" "queues_inv (pb_queues pb)" "encoder_inv (pb_encoder pb)"
  using assms by (auto simp: playback_inv_def queues_inv_def)

text \<open>One pass of the \<open>fillOpus\<close> loop body on a live generation with work to do.\<close>

lemma fill_pop:
  assumes inv: "playback_inv pb" and live: "\<not> cancelled (pb_queues pb)" "\<not> closed (pb_queues pb)"
    and pcm: "SamplesPerFrame \<le> pcmSize (pb_queues pb)"
  obtains q where "PopPCMFrame (pb_generation pb) (replicate SamplesPerFrame 0) (pb_queues pb)
      = (None, take SamplesPerFrame (pcm_contents (pb_queues pb)), q)"
    and "queues_inv q" and "pcm_contents q = drop SamplesPerFrame (pcm_contents (pb_queues pb))"
    and "opus_contents q = opus_contents (pb_queues pb)" and "generation q = pb_generation pb"
    and "\<not> cancelled q" and "\<not> closed q" and "pcmSize q = pcmSize (pb_queues pb) - SamplesPerFrame"
    and "opusSize q = opusSize (pb_queues pb)"
proof -
  let ?q = "pb_queues pb" and ?z = "replicate SamplesPerFrame (0 :: i16)"
  note I = playback_invD [OF inv]
  have n: "length ?z \<le> pcmSize ?q" using pcm by simp
  have pop: "PopPCMFrame (pb_generation pb) ?z ?q =
      (None, take SamplesPerFrame (pcm_contents ?q), snd (popPCMLocked ?z ?q))"
    using playback_live [OF inv live] pcm popPCM_correct(2) [OF I(1) n]
    by (simp add: PopPCMFrame_def) (metis prod.collapse)
  have "queues_inv (snd (snd (PopPCMFrame (pb_generation pb) ?z ?q)))" by (rule PopPCMFrame_inv [OF I(3)])
  then have "queues_inv (snd (popPCMLocked ?z ?q))" by (simp only: pop snd_conv)
  moreover have "generation ?q = pb_generation pb" using inv by (simp add: playback_inv_def)
  ultimately show thesis
    using that [OF pop] live popPCM_correct(3) [OF I(1) n] by (simp add: opus_contents_def)
qed

lemma fill_push:
  assumes "queues_inv q" and "generation q = g" and "g \<noteq> 0" and "\<not> cancelled q" and "\<not> closed q"
    and "opusSize q < OpusQueueFrames" and "0 < length b" and "length b \<le> MaxOpusPacketBytes"
  obtains q' where "PushOpus g b q = (None, [], q')" and "queues_inv q'" and "generation q' = g"
    and "\<not> cancelled q'" and "\<not> closed q'" and "pcm_contents q' = pcm_contents q"
    and "opus_contents q' = opus_contents q @ [b]" and "pcmSize q' = pcmSize q" and "opusSize q' = Suc (opusSize q)"
proof -
  have I: "opus_inv q" using assms(1) by (simp add: queues_inv_def)
  have "validateGenerationLocked g q = None" using assms by (simp add: validate_None)
  then have push: "PushOpus g b q = (None, [], pushOpusLocked b q)"
    using assms opus_invD [OF I] by (simp add: PushOpus_def)
  have "queues_inv (snd (snd (PushOpus g b q)))" by (rule PushOpus_inv [OF assms(1)])
  then show thesis
    using that [OF push] push assms pushOpus_correct(2) [OF I assms(6-8)] by (simp add: pcm_contents_def)
qed

lemma fillOpus_correct:
  assumes "codec_keeps_buffer codec" and "playback_inv pb"
    and "\<not> cancelled (pb_queues pb)" and "\<not> closed (pb_queues pb)"
    and "encode_frames codec (pb_encoder pb) (fill_count (pb_queues pb)) (pcm_contents (pb_queues pb)) = (Inr bs, enc)"
  shows "\<exists>pb'. fillOpus codec pb = (None, pb') \<and> playback_inv pb' \<and> \<not> cancelled (pb_queues pb') \<and> \<not> closed (pb_queues pb') \<and>
     pb_generation pb' = pb_generation pb \<and> pb_final pb' = pb_final pb \<and> pb_err pb' = pb_err pb \<and>
     pb_ctx_done pb' = pb_ctx_done pb \<and> pb_encoder pb' = enc \<and>
     pcm_contents (pb_queues pb') = drop (fill_count (pb_queues pb) * SamplesPerFrame) (pcm_contents (pb_queues pb)) \<and>
     opus_contents (pb_queues pb') = opus_contents (pb_queues pb) @ bs"
  using assms
proof (induction "fill_count (pb_queues pb)" arbitrary: pb bs)
  case 0
  then have stop: "pcmSize (pb_queues pb) < SamplesPerFrame \<or> opusSize (pb_queues pb) \<ge> OpusQueueFrames"
    by (auto simp: fill_count_def min_def split: if_splits)
  with 0 have "fillOpus codec pb = (None, pb)" by (subst fillOpus.simps) (auto simp: Let_def State_def)
  with 0 show ?case by simp
next
  case (Suc n)
  let ?q = "pb_queues pb" and ?P = "pcm_contents (pb_queues pb)"
  have work: "SamplesPerFrame \<le> pcmSize ?q" "opusSize ?q < OpusQueueFrames"
    using Suc.hyps(2) by (auto simp: fill_count_def min_def split: if_splits)
  obtain q where pop: "PopPCMFrame (pb_generation pb) (replicate SamplesPerFrame 0) ?q = (None, take SamplesPerFrame ?P, q)"
    and q: "queues_inv q" "pcm_contents q = drop SamplesPerFrame ?P" "opus_contents q = opus_contents ?q"
      "generation q = pb_generation pb" "\<not> cancelled q" "\<not> closed q"
      "pcmSize q = pcmSize ?q - SamplesPerFrame" "opusSize q = opusSize ?q"
    by (rule fill_pop [OF Suc.prems(2-4) work(1)])
  obtain b enc1 where e1: "Encode codec (pb_encoder pb) (take SamplesPerFrame ?P) = (Inr b, enc1)"
    and e2: "\<exists>bs1. bs = b # bs1 \<and> encode_frames codec enc1 n (drop SamplesPerFrame ?P) = (Inr bs1, enc)"
    using Suc.prems(5) unfolding Suc.hyps(2) [symmetric]
    by (auto split: prod.splits sum.splits simp del: SamplesPerFrame_eq)
  then obtain bs1 where bs: "bs = b # bs1"
    and e3: "encode_frames codec enc1 n (drop SamplesPerFrame ?P) = (Inr bs1, enc)" by blast
  note I = playback_invD [OF Suc.prems(2)]
  have b: "0 < length b" "length b \<le> MaxOpusPacketBytes" and enc1: "encoder_inv enc1"
    using Encode_correct [OF Suc.prems(1) I(4) e1] by auto
  have g0: "pb_generation pb \<noteq> 0" using Suc.prems(2) by (simp add: playback_inv_def)
  have room: "opusSize q < OpusQueueFrames" using work q by simp
  obtain q' where push: "PushOpus (pb_generation pb) b q = (None, [], q')"
    and q': "queues_inv q'" "generation q' = pb_generation pb" "\<not> cancelled q'" "\<not> closed q'"
      "pcm_contents q' = pcm_contents q" "opus_contents q' = opus_contents q @ [b]"
      "pcmSize q' = pcmSize q" "opusSize q' = Suc (opusSize q)"
    by (rule fill_push [OF q(1) q(4) g0 q(5,6) room b])
  let ?pb = "pb\<lparr>pb_queues := q', pb_space := True, pb_encoder := enc1\<rparr>"
  have "fillOpus codec pb = fillOpus codec ?pb"
    using pop e1 push work Suc.prems(3,4)
    by (subst fillOpus.simps) (simp add: Let_def State_def del: SamplesPerFrame_eq)
  moreover have n: "n = fill_count (pb_queues ?pb)"
  proof -
    have "pcmSize ?q div SamplesPerFrame = Suc ((pcmSize ?q - SamplesPerFrame) div SamplesPerFrame)"
      using work(1) by (simp add: le_div_geq)
    moreover have "OpusQueueFrames - opusSize ?q = Suc (OpusQueueFrames - Suc (opusSize ?q))"
      using work(2) by simp
    ultimately have "n = min ((pcmSize ?q - SamplesPerFrame) div SamplesPerFrame) (OpusQueueFrames - Suc (opusSize ?q))"
      using min_pred Suc.hyps(2) unfolding fill_count_def by blast
    then show ?thesis using q q' by (simp add: fill_count_def)
  qed
  moreover have "playback_inv ?pb" using q' enc1 g0 by (simp add: playback_inv_def)
  moreover have "encode_frames codec (pb_encoder ?pb) (fill_count (pb_queues ?pb)) (pcm_contents (pb_queues ?pb)) = (Inr bs1, enc)"
    using e3 n q q' by simp
  ultimately show ?case using Suc.hyps(1) [of ?pb bs1] Suc.prems(1) q q' bs
    by (simp add: Suc.hyps(2) [symmetric] n [symmetric] add.commute)
qed

section \<open>Draining\<close>

text \<open>
  The \<open>run\<close> goroutine on its own. What it meets in its iterations is the environment: whether
  \<open>playback.ctx\<close> is done, what the pacer and the guarded sender return, and which case a \<open>select\<close>
  takes when both are ready. The result is the packets put on the wire and the final state once
  the loop returns. Fuel bounds the iterations; \<open>None\<close> is a loop that has not returned within it
  or is blocked in its \<open>select\<close>.
\<close>

record run_env =
  env_ctx_done :: bool
  env_pace :: "audio_error option"
  env_guard :: guard_result
  env_wake :: bool

fun run_loop :: "nat \<Rightarrow> ('c, i16, u8) codec \<Rightarrow> (nat \<Rightarrow> run_env) \<Rightarrow> nat \<Rightarrow> bool \<Rightarrow> 'c playback \<Rightarrow> (u8 list list \<times> 'c playback) option" where
  "run_loop 0 codec env i sent pb = None"
| "run_loop (Suc fuel) codec env i sent pb =
     (case run_iter codec (env_pace (env i)) (env_guard (env i)) sent (pb\<lparr>pb_ctx_done := pb_ctx_done pb \<or> env_ctx_done (env i)\<rparr>) of
        RunReturn pb' \<Rightarrow> Some ([], pb')
      | RunSent b pb' \<Rightarrow> map_option (\<lambda>(bs, pb''). (b # bs, pb'')) (run_loop fuel codec env (Suc i) True pb')
      | RunWait pb' \<Rightarrow>
          if pb_wake pb' \<and> (env_wake (env i) \<or> \<not> pb_ctx_done pb')
          then run_loop fuel codec env (Suc i) sent (pb'\<lparr>pb_wake := False\<rparr>)
          else if pb_ctx_done pb' then Some ([], pb'\<lparr>pb_done := True\<rparr>) else None
      | _ \<Rightarrow> None)"

text \<open>An iteration with a packet to send gets it out, or not; how many do so before one fails.\<close>

definition env_sends :: "run_env \<Rightarrow> bool \<Rightarrow> bool" where
  "env_sends e sent \<longleftrightarrow> (sent \<longrightarrow> env_pace e = None) \<and> env_guard e = GuardSends None"

fun sends_until :: "(nat \<Rightarrow> run_env) \<Rightarrow> nat \<Rightarrow> bool \<Rightarrow> nat \<Rightarrow> nat" where
  "sends_until env i sent 0 = 0"
| "sends_until env i sent (Suc n) = (if env_sends (env i) sent then Suc (sends_until env (Suc i) True n) else 0)"

text \<open>The error of a failing iteration; that of a pacer whose context is done is not reported.\<close>

definition env_failure :: "bool \<Rightarrow> bool \<Rightarrow> run_env \<Rightarrow> audio_error option" where
  "env_failure ctx_done sent e =
     (if sent \<and> env_pace e \<noteq> None then (if ctx_done then None else env_pace e)
      else case env_guard e of GuardRefuses x \<Rightarrow> Some x | GuardSends r \<Rightarrow> r)"

definition ctx_done_by :: "(nat \<Rightarrow> run_env) \<Rightarrow> nat \<Rightarrow> nat \<Rightarrow> 'c playback \<Rightarrow> bool" where
  "ctx_done_by env i k pb \<longleftrightarrow> pb_ctx_done pb \<or> (\<exists>j \<in> {i..i + k}. env_ctx_done (env j))"

definition first_error :: "audio_error option \<Rightarrow> audio_error option \<Rightarrow> audio_error option" where
  "first_error e e' = (case e of Some x \<Rightarrow> Some x | None \<Rightarrow> e')"

definition total_encoder :: "('c, i16, u8) codec \<Rightarrow> bool" where
  "total_encoder codec \<longleftrightarrow> (\<forall>c xs dst. dst \<noteq> [] \<longrightarrow> snd (fst (codec c xs dst)) = None \<and>
     0 < fst (fst (codec c xs dst)) \<and> fst (fst (codec c xs dst)) \<le> int (length dst))"

lemma total_Encode:
  assumes "codec_keeps_buffer codec" and "total_encoder codec" and "encoder_inv enc" and "length xs = SamplesPerFrame"
  shows "\<exists>b enc'. Encode codec enc xs = (Inr b, enc')"
proof -
  let ?z = "clear_range 0 (packet enc) 0 (length (packet enc))"
  obtain n er buf c' where co: "codec (enc_state enc) xs ?z = ((n, er), buf, c')" by (metis surj_pair)
  have "?z \<noteq> []" using assms(3) by (simp add: encoder_inv_def flip: length_greater_0_conv)
  with assms(2) have "snd (fst (codec (enc_state enc) xs ?z)) = None \<and> 0 < fst (fst (codec (enc_state enc) xs ?z)) \<and>
      fst (fst (codec (enc_state enc) xs ?z)) \<le> int (length ?z)"
    unfolding total_encoder_def by blast
  moreover have "length (fst (snd (codec (enc_state enc) xs ?z))) = length ?z"
    using assms(1) unfolding codec_keeps_buffer_def by blast
  ultimately show ?thesis using assms(4) co by (simp add: Encode_def Let_def)
qed

lemma total_encode_frames:
  assumes "codec_keeps_buffer codec" and "total_encoder codec"
  shows "encoder_inv enc \<Longrightarrow> n * SamplesPerFrame \<le> length xs \<Longrightarrow>
    \<exists>bs enc'. encode_frames codec enc n xs = (Inr bs, enc') \<and> length bs = n"
proof (induction n arbitrary: enc xs)
  case (Suc n)
  obtain b enc1 where e: "Encode codec enc (take SamplesPerFrame xs) = (Inr b, enc1)"
    using total_Encode [OF assms Suc.prems(1), of "take SamplesPerFrame xs"] Suc.prems(2) by auto
  moreover have "n * SamplesPerFrame \<le> length (drop SamplesPerFrame xs)" using Suc.prems(2) by simp
  with Encode_correct(1) [OF assms(1) Suc.prems(1) e] obtain bs enc2 where "encode_frames codec enc1 n (drop SamplesPerFrame xs) = (Inr bs, enc2)" "length bs = n"
    using Suc.IH by blast
  ultimately show ?case by (simp del: SamplesPerFrame_eq)
qed simp

lemma encode_frames_add:
  "encode_frames codec enc (m + n) xs =
     (case encode_frames codec enc m xs of
        (Inl e, enc') \<Rightarrow> (Inl e, enc')
      | (Inr bs, enc') \<Rightarrow>
          (case encode_frames codec enc' n (drop (m * SamplesPerFrame) xs) of
             (Inl e, enc'') \<Rightarrow> (Inl e, enc'')
           | (Inr cs, enc'') \<Rightarrow> (Inr (bs @ cs), enc'')))"
proof (induction m arbitrary: enc xs)
  case 0
  then show ?case by (auto split: prod.splits sum.splits)
next
  case (Suc m)
  then show ?case
    by (auto split: prod.splits sum.splits simp: add.commute simp del: SamplesPerFrame_eq)
qed

lemma run_hold:
  assumes inv: "playback_inv pb1" and live: "\<not> cancelled (pb_queues pb1)" "\<not> closed (pb_queues pb1)"
    and ne: "opus_contents (pb_queues pb1) = b # bs"
  obtains pb2 where "\<And>pace sent. \<not> sent \<or> pace = None \<Longrightarrow> run_pop pace sent pb1 = RunHold b pb2"
    and "playback_inv pb2" and "\<not> cancelled (pb_queues pb2)" and "\<not> closed (pb_queues pb2)"
    and "opus_contents (pb_queues pb2) = bs" and "pcm_contents (pb_queues pb2) = pcm_contents (pb_queues pb1)"
    and "pb_encoder pb2 = pb_encoder pb1" and "pb_final pb2 = pb_final pb1" and "pb_err pb2 = pb_err pb1"
    and "pb_ctx_done pb2 = pb_ctx_done pb1"
proof -
  let ?q = "pb_queues pb1"
  note I = playback_invD [OF inv]
  have size: "0 < opusSize ?q" using ne by (metis length_opus_contents length_greater_0_conv list.discI)
  define q' where "q' = snd (popOpusLocked ?q)"
  have slot: "slot_size (opus ?q ! opusHead ?q) = length b" "length b \<le> MaxOpusPacketBytes" "fst (popOpusLocked ?q) = b"
    using opus_head_live [OF I(2) size] popOpus_correct(2) [OF I(2) size] ne
    by (auto simp: slot_ok_def slot_bytes_def)
  have pop: "PopOpus (pb_generation pb1) (replicate MaxOpusPacketBytes 0) ?q =
      (Inr (length b), copy_into (replicate MaxOpusPacketBytes 0) 0 b, q')"
    using playback_live [OF inv live] size slot by (simp add: PopOpus_def q'_def case_prod_beta)
  have "queues_inv (snd (snd (PopOpus (pb_generation pb1) (replicate MaxOpusPacketBytes 0) ?q)))"
    by (rule PopOpus_inv [OF I(3)])
  then have qi: "queues_inv q'" by (simp only: pop snd_conv)
  have "take (length b) (copy_into (replicate MaxOpusPacketBytes 0) 0 b) = b"
    using slot(2) by (intro take_copy_into_0) simp
  then have hold: "run_pop pace sent pb1 = RunHold b (pb1\<lparr>pb_queues := q'\<rparr>)" if "\<not> sent \<or> pace = None" for pace sent
    using that pop by (auto simp: run_pop_def)
  show thesis
    using that [OF hold] inv live qi popOpus_correct(3) [OF I(2) size] ne
    by (simp add: playback_inv_def q'_def pcm_contents_def)
qed

lemma pb_fail_live:
  assumes "playback_inv pb" and "\<not> cancelled (pb_queues pb)" and "\<not> closed (pb_queues pb)"
  shows "pb_err (pb_fail (Some e) pb) = first_error (pb_err pb) (Some e)" and "cancelled (pb_queues (pb_fail (Some e) pb))"
  using assms playback_live [OF assms]
  by (auto simp: pb_fail_def Let_def setError_def first_error_def Cancel_def cancelLocked_def split: option.splits)

text \<open>An iteration with a packet queued: it is sent and everything else kept, or the loop returns.\<close>

lemma run_iter_packet:
  assumes fill: "fillOpus codec pb = (None, pb1)" and inv: "playback_inv pb1"
    and live: "\<not> cancelled (pb_queues pb1)" "\<not> closed (pb_queues pb1)"
    and ne: "opus_contents (pb_queues pb1) = b # bs"
  obtains (sends) pb2 where "env_sends e sent" and "run_iter codec (env_pace e) (env_guard e) sent pb = RunSent b pb2"
    and "playback_inv pb2" and "\<not> cancelled (pb_queues pb2)" and "\<not> closed (pb_queues pb2)"
    and "opus_contents (pb_queues pb2) = bs" and "pcm_contents (pb_queues pb2) = pcm_contents (pb_queues pb1)"
    and "pb_encoder pb2 = pb_encoder pb1" and "pb_final pb2 = pb_final pb1" and "pb_err pb2 = pb_err pb1"
    and "pb_ctx_done pb2 = pb_ctx_done pb1"
  | (fails) pb2 where "\<not> env_sends e sent" and "run_iter codec (env_pace e) (env_guard e) sent pb = RunReturn pb2"
    and "pb_done pb2" and "pb_err pb2 = first_error (pb_err pb1) (env_failure (pb_ctx_done pb1) sent e)"
    and "env_failure (pb_ctx_done pb1) sent e \<noteq> None \<Longrightarrow> cancelled (pb_queues pb2)"
proof -
  have size: "0 < opusSize (pb_queues pb1)" using ne by (metis length_opus_contents length_greater_0_conv list.discI)
  have ready: "run_fill codec pb = RunReady pb1" using fill size by (simp add: run_fill_def Let_def State_def)
  obtain pb2 where hold: "\<And>pace sent. \<not> sent \<or> pace = None \<Longrightarrow> run_pop pace sent pb1 = RunHold b pb2"
    and p2: "playback_inv pb2" "\<not> cancelled (pb_queues pb2)" "\<not> closed (pb_queues pb2)" "opus_contents (pb_queues pb2) = bs"
      "pcm_contents (pb_queues pb2) = pcm_contents (pb_queues pb1)" "pb_encoder pb2 = pb_encoder pb1" "pb_final pb2 = pb_final pb1"
      "pb_err pb2 = pb_err pb1" "pb_ctx_done pb2 = pb_ctx_done pb1"
    using run_hold [OF inv live ne] by metis
  show thesis
  proof (cases "sent \<and> env_pace e \<noteq> None")
    case True
    then obtain x where x: "env_pace e = Some x" by blast
    have "run_iter codec (env_pace e) (env_guard e) sent pb = RunReturn ((if pb_ctx_done pb1 then pb1 else pb_fail (Some x) pb1)\<lparr>pb_done := True\<rparr>)"
      using True x ready by (simp add: run_iter_def run_pop_def)
    then show thesis using fails True x pb_fail_live [OF inv live, of x]
      by (auto simp: env_sends_def env_failure_def first_error_def split: option.splits if_splits)
  next
    case False
    then have it: "run_iter codec (env_pace e) (env_guard e) sent pb = run_send (env_guard e) b pb2"
      using ready hold by (auto simp: run_iter_def)
    show thesis
    proof (cases "env_guard e = GuardSends None")
      case True
      have "run_iter codec (env_pace e) (env_guard e) sent pb = RunSent b (pb2\<lparr>pb_space := True\<rparr>)" using it True by (simp add: run_send_def)
      then show thesis using sends True False p2 by (auto simp: env_sends_def playback_inv_def)
    next
      case notsent: False
      obtain x where x: "env_guard e = GuardRefuses x \<or> env_guard e = GuardSends (Some x)"
        using notsent by (metis guard_result.exhaust option.exhaust)
      have "run_iter codec (env_pace e) (env_guard e) sent pb = RunReturn ((pb_fail (Some x) pb2)\<lparr>pb_done := True\<rparr>)"
        using it x by (auto simp: run_send_def)
      moreover have "env_failure (pb_ctx_done pb1) sent e = Some x" using False x by (auto simp: env_failure_def)
      ultimately show thesis using fails notsent pb_fail_live [OF p2(1-3), of x] p2(8) by (auto simp: env_sends_def)
    qed
  qed
qed

lemma encode_frames_length: "encode_frames codec enc n xs = (Inr bs, enc') \<Longrightarrow> length bs = n"
  by (induction n arbitrary: enc xs bs) (auto split: prod.splits sum.splits simp del: SamplesPerFrame_eq)

lemma encode_frames_prefix:
  assumes "encode_frames codec enc (m + n) xs = (Inr bs, enc')"
  obtains bs1 bs2 enc1 where "encode_frames codec enc m xs = (Inr bs1, enc1)"
    and "encode_frames codec enc1 n (drop (m * SamplesPerFrame) xs) = (Inr bs2, enc')" and "bs = bs1 @ bs2"
  using assms unfolding encode_frames_add by (auto split: prod.splits sum.splits)

lemma ctx_done_by_Suc:
  "pb_ctx_done pb' = (pb_ctx_done pb \<or> env_ctx_done (env i)) \<Longrightarrow> ctx_done_by env (Suc i) k pb' = ctx_done_by env i (Suc k) pb"
proof -
  assume c: "pb_ctx_done pb' = (pb_ctx_done pb \<or> env_ctx_done (env i))"
  have "{i..i + Suc k} = insert i {Suc i..Suc i + k}" by auto
  with c show ?thesis unfolding ctx_done_by_def by auto
qed

text \<open>
  How the loop ends on finished input of whole frames, from any iteration on: it sends the packets
  up to the first iteration that fails and returns, with that failure recorded if it is reported.
\<close>

definition loop_outcome :: "(nat \<Rightarrow> run_env) \<Rightarrow> nat \<Rightarrow> bool \<Rightarrow> 'c playback \<Rightarrow> u8 list list \<Rightarrow> (u8 list list \<times> 'c playback) option \<Rightarrow> bool" where
  "loop_outcome env i sent pb packets result \<longleftrightarrow>
     (let n = length packets; k = sends_until env i sent n; failure = env_failure (ctx_done_by env i k pb) (sent \<or> 0 < k) (env (i + k)) in
      \<exists>pb'. result = Some (take k packets, pb') \<and> pb_done pb' \<and>
        (if k = n then pb_err pb' = pb_err pb \<and> pcmSize (pb_queues pb') = 0 \<and> opusSize (pb_queues pb') = 0
         else pb_err pb' = first_error (pb_err pb) failure \<and> (failure \<noteq> None \<longrightarrow> cancelled (pb_queues pb'))))"

lemma loop_outcome_Cons:
  assumes "env_sends (env i) sent" and "loop_outcome env (Suc i) True pb2 ps result" and "pb_err pb2 = pb_err pb"
    and "pb_ctx_done pb2 = (pb_ctx_done pb \<or> env_ctx_done (env i))"
  shows "loop_outcome env i sent pb (p # ps) (map_option (\<lambda>(bs, pb''). (p # bs, pb'')) result)"
  using assms(1-3) ctx_done_by_Suc [of pb2 pb env i, OF assms(4)]
  by (auto simp: loop_outcome_def Let_def)

lemma run_loop_outcome:
  assumes "codec_keeps_buffer codec" and "playback_inv pb" and "pb_final pb"
    and "\<not> cancelled (pb_queues pb)" and "\<not> closed (pb_queues pb)"
    and "pcmSize (pb_queues pb) mod SamplesPerFrame = 0"
    and "encode_frames codec (pb_encoder pb) (pcmSize (pb_queues pb) div SamplesPerFrame) (pcm_contents (pb_queues pb)) = (Inr bs, enc)"
    and "opusSize (pb_queues pb) + pcmSize (pb_queues pb) div SamplesPerFrame < fuel"
  shows "loop_outcome env i sent pb (opus_contents (pb_queues pb) @ bs) (run_loop fuel codec env i sent pb)"
  using assms
proof (induction fuel arbitrary: pb bs sent i)
  case 0
  then show ?case by simp
next
  case (Suc fuel)
  let ?q = "pb_queues pb" and ?pb0 = "pb\<lparr>pb_ctx_done := pb_ctx_done pb \<or> env_ctx_done (env i)\<rparr>"
  let ?k = "pcmSize ?q div SamplesPerFrame" and ?c = "fill_count ?q"
  have ck: "?c \<le> ?k" by (simp add: fill_count_def)
  then have k: "?k = ?c + (?k - ?c)" by simp
  obtain bs1 bs2 enc1 where e1: "encode_frames codec (pb_encoder pb) ?c (pcm_contents ?q) = (Inr bs1, enc1)"
    and e2: "encode_frames codec enc1 (?k - ?c) (drop (?c * SamplesPerFrame) (pcm_contents ?q)) = (Inr bs2, enc)"
    and bs: "bs = bs1 @ bs2"
    using encode_frames_prefix [of codec "pb_encoder pb" ?c "?k - ?c"] Suc.prems(7) k by metis
  have inv0: "playback_inv ?pb0" using Suc.prems(2) by (simp add: playback_inv_def)
  obtain pb1 where fill: "fillOpus codec ?pb0 = (None, pb1)" and p1: "playback_inv pb1"
      "\<not> cancelled (pb_queues pb1)" "\<not> closed (pb_queues pb1)" "pb_final pb1 = pb_final pb" "pb_err pb1 = pb_err pb"
      "pb_encoder pb1 = enc1" "pcm_contents (pb_queues pb1) = drop (?c * SamplesPerFrame) (pcm_contents ?q)"
      "opus_contents (pb_queues pb1) = opus_contents ?q @ bs1" "pb_ctx_done pb1 = (pb_ctx_done pb \<or> env_ctx_done (env i))"
    using fillOpus_correct [OF Suc.prems(1) inv0, of bs1 enc1] Suc.prems(4,5) e1 by auto
  have sz: "pcmSize (pb_queues pb1) = pcmSize ?q - ?c * SamplesPerFrame"
    using arg_cong [OF p1(7), of length] by simp
  have len1: "length bs1 = ?c" by (rule encode_frames_length [OF e1])
  have m: "pcmSize (pb_queues pb1) mod SamplesPerFrame = 0" "pcmSize (pb_queues pb1) div SamplesPerFrame = ?k - ?c"
    using Suc.prems(6) sz by (simp_all add: mod_eq_0_iff_dvd dvd_diff_nat div_diff)
  show ?case
  proof (cases "opus_contents (pb_queues pb1)")
    case Nil
    then have "opusSize ?q = 0" "?c = 0" using p1(8) len1 by (auto simp flip: length_opus_contents)
    then have "?k = 0" by (simp add: fill_count_def)
    then have z: "pcmSize ?q = 0" using Suc.prems(6) by (metis add.right_neutral mult_0_right mult_div_mod_eq)
    have z1: "pcmSize (pb_queues pb1) = 0" "opusSize (pb_queues pb1) = 0"
      using z sz Nil by (simp_all flip: length_opus_contents)
    then have "run_iter codec (env_pace (env i)) (env_guard (env i)) sent ?pb0 = RunReturn (pb1\<lparr>pb_done := True\<rparr>)"
      using fill p1(4) Suc.prems(3) by (simp add: run_iter_def run_fill_def Let_def State_def inputFinished_def)
    moreover have "bs = []" "opus_contents ?q = []" using Nil p1(8) e2 \<open>?k = 0\<close> bs by auto
    ultimately show ?thesis using z1 p1(5) by (simp add: loop_outcome_def Let_def)
  next
    case (Cons b rest)
    have packets: "opus_contents ?q @ bs = b # rest @ bs2" using Cons p1(8) bs by simp
    from fill p1(1-3) Cons show ?thesis
    proof (cases rule: run_iter_packet [where e = "env i" and sent = sent])
      case (sends pb2)
      have sz2: "pcmSize (pb_queues pb2) = pcmSize (pb_queues pb1)" using arg_cong [OF sends(7), of length] by simp
      have "Suc (opusSize (pb_queues pb2)) = opusSize ?q + ?c"
        using arg_cong [OF Cons, of length] arg_cong [OF p1(8), of length] sends(6) len1
        by (simp flip: length_opus_contents)
      then have fuel: "opusSize (pb_queues pb2) + pcmSize (pb_queues pb2) div SamplesPerFrame < fuel"
        unfolding sz2 m(2) using Suc.prems(8) ck by linarith
      have enc: "encode_frames codec (pb_encoder pb2) (pcmSize (pb_queues pb2) div SamplesPerFrame) (pcm_contents (pb_queues pb2)) = (Inr bs2, enc)"
        using e2 m(2) sz2 p1(6,7) sends(7,8) by simp
      have fin: "pb_final pb2" and mod: "pcmSize (pb_queues pb2) mod SamplesPerFrame = 0"
        using sends(9) p1(4) Suc.prems(3) m(1) sz2 by simp_all
      have "loop_outcome env (Suc i) True pb2 (rest @ bs2) (run_loop fuel codec env (Suc i) True pb2)"
        using Suc.IH [OF Suc.prems(1) sends(3) fin sends(4,5) mod enc fuel, of "Suc i" True] sends(6) by simp
      from loop_outcome_Cons [OF sends(1) this, of pb b] show ?thesis
        using sends(2,10,11) p1(5,9) packets by simp
    next
      case (fails pb2)
      then show ?thesis using packets p1(5,9)
        by (simp add: loop_outcome_def Let_def ctx_done_by_def)
    qed
  qed
qed

end
