(* ===== verification/Playback_System.thy ===== *)
theory Playback_System
  imports Playback
begin

text \<open>
  The goroutines of \<open>playback.go\<close> together: a producer inside \<open>PushPCM16LE\<close> or \<open>Finish\<close>
  (serialised by \<open>pushMu\<close>, so at most one), the \<open>run\<close> goroutine, and callers of
  \<open>Cancel\<close> and \<open>Close\<close>. A step is one call, one iteration of the producer's loop or one of
  the three parts of an iteration of \<open>run\<close>: a cancellation may fall while \<open>run\<close> waits for
  the pacer, and while it holds a packet that it took off the queue and has not sent. The
  system state adds to the playback the producer's position, where \<open>run\<close> is, its local
  \<open>sent\<close> and the packets sent.
\<close>

datatype run_phase = RunFilling | RunPacing | RunSending "u8 list"

record 'c pb_sys =
  sys_pb :: "'c playback"
  sys_push :: "(u8 list \<times> nat) option"
  sys_finishing :: bool
  sys_run :: run_phase
  sys_sent :: bool
  sys_wire :: "u8 list list"

inductive playback_step :: "('c, i16, u8) codec \<Rightarrow> 'c pb_sys \<Rightarrow> 'c pb_sys \<Rightarrow> bool" for codec where
  start_push: "sys_push s = None \<Longrightarrow> push_guard CtxLive src (sys_pb s) = None \<Longrightarrow>
     playback_step codec s (s\<lparr>sys_push := Some (src, 0), sys_finishing := False\<rparr>)"
| start_finish: "sys_push s = None \<Longrightarrow> finish_padding CtxLive (sys_pb s) = Inr pad \<Longrightarrow>
     playback_step codec s (s\<lparr>sys_push := Some (pad, 0), sys_finishing := True\<rparr>)"
| push_next: "sys_push s = Some (src, off) \<Longrightarrow> off < length src \<Longrightarrow>
     push_iter src off (sys_pb s) = PushNext off' pb' \<Longrightarrow>
     playback_step codec s (s\<lparr>sys_pb := pb', sys_push := Some (src, off')\<rparr>)"
| push_fails: "sys_push s = Some (src, off) \<Longrightarrow> off < length src \<Longrightarrow>
     push_iter src off (sys_pb s) = PushFail e pb' \<Longrightarrow>
     playback_step codec s (s\<lparr>sys_pb := pb', sys_push := None, sys_finishing := False\<rparr>)"
| push_space: "sys_push s = Some (src, off) \<Longrightarrow> off < length src \<Longrightarrow>
     push_iter src off (sys_pb s) = PushWait \<Longrightarrow> pb_space (sys_pb s) \<Longrightarrow>
     playback_step codec s (s\<lparr>sys_pb := (sys_pb s)\<lparr>pb_space := False\<rparr>\<rparr>)"
| push_abandoned: "sys_push s = Some (src, off) \<Longrightarrow> off < length src \<Longrightarrow>
     push_iter src off (sys_pb s) = PushWait \<Longrightarrow>
     playback_step codec s (s\<lparr>sys_push := None, sys_finishing := False\<rparr>)"
| push_done: "sys_push s = Some (src, off) \<Longrightarrow> \<not> off < length src \<Longrightarrow>
     playback_step codec s (s\<lparr>sys_pb := (if sys_finishing s then finish_commit (sys_pb s) else sys_pb s),
                             sys_push := None, sys_finishing := False\<rparr>)"
| run_fills: "\<not> pb_done (sys_pb s) \<Longrightarrow> sys_run s = RunFilling \<Longrightarrow> run_fill codec (sys_pb s) = RunReady pb' \<Longrightarrow>
     playback_step codec s (s\<lparr>sys_pb := pb', sys_run := RunPacing\<rparr>)"
| run_drained: "\<not> pb_done (sys_pb s) \<Longrightarrow> sys_run s = RunFilling \<Longrightarrow> run_fill codec (sys_pb s) = RunReturn pb' \<Longrightarrow>
     playback_step codec s (s\<lparr>sys_pb := pb'\<rparr>)"
| run_wakes: "\<not> pb_done (sys_pb s) \<Longrightarrow> sys_run s = RunFilling \<Longrightarrow> run_fill codec (sys_pb s) = RunWait pb' \<Longrightarrow>
     pb_wake pb' \<Longrightarrow> playback_step codec s (s\<lparr>sys_pb := pb'\<lparr>pb_wake := False\<rparr>\<rparr>)"
| run_stops: "\<not> pb_done (sys_pb s) \<Longrightarrow> sys_run s = RunFilling \<Longrightarrow> run_fill codec (sys_pb s) = RunWait pb' \<Longrightarrow>
     pb_ctx_done pb' \<Longrightarrow> playback_step codec s (s\<lparr>sys_pb := pb'\<lparr>pb_done := True\<rparr>\<rparr>)"
| run_holds: "\<not> pb_done (sys_pb s) \<Longrightarrow> sys_run s = RunPacing \<Longrightarrow> run_pop pace (sys_sent s) (sys_pb s) = RunHold b pb' \<Longrightarrow>
     playback_step codec s (s\<lparr>sys_pb := pb', sys_run := RunSending b\<rparr>)"
| run_unpaced: "\<not> pb_done (sys_pb s) \<Longrightarrow> sys_run s = RunPacing \<Longrightarrow> run_pop pace (sys_sent s) (sys_pb s) = RunReturn pb' \<Longrightarrow>
     playback_step codec s (s\<lparr>sys_pb := pb', sys_run := RunFilling\<rparr>)"
| run_sends: "\<not> pb_done (sys_pb s) \<Longrightarrow> sys_run s = RunSending b \<Longrightarrow> run_send guarded b (sys_pb s) = RunSent b' pb' \<Longrightarrow>
     playback_step codec s (s\<lparr>sys_pb := pb', sys_run := RunFilling, sys_sent := True, sys_wire := sys_wire s @ [b']\<rparr>)"
| run_refused: "\<not> pb_done (sys_pb s) \<Longrightarrow> sys_run s = RunSending b \<Longrightarrow> run_send guarded b (sys_pb s) = RunReturn pb' \<Longrightarrow>
     playback_step codec s (s\<lparr>sys_pb := pb', sys_run := RunFilling\<rparr>)"
| cancels: "playback_step codec s (s\<lparr>sys_pb := snd (pb_Cancel g cause (sys_pb s))\<rparr>)"
| parent_cancelled: "playback_step codec s (s\<lparr>sys_pb := (sys_pb s)\<lparr>pb_ctx_done := True\<rparr>\<rparr>)"
| closes: "\<not> pb_close_once (sys_pb s) \<Longrightarrow>
     playback_step codec s (s\<lparr>sys_pb := (snd (pb_Cancel (pb_generation (sys_pb s)) (Some ErrQueueClosed) (sys_pb s)))\<lparr>pb_close_once := True\<rparr>\<rparr>)"
| close_finishes: "pb_close_once (sys_pb s) \<Longrightarrow> pb_done (sys_pb s) \<Longrightarrow>
     playback_step codec s (s\<lparr>sys_pb := pb_Close_finish (sys_pb s)\<rparr>)"

inductive playback_reachable :: "('c, i16, u8) codec \<Rightarrow> 'c pb_sys \<Rightarrow> 'c pb_sys \<Rightarrow> bool" for codec where
  reach_refl: "playback_reachable codec s s"
| reach_step: "playback_reachable codec s t \<Longrightarrow> playback_step codec t u \<Longrightarrow> playback_reachable codec s u"

definition start_sys :: "'c playback \<Rightarrow> 'c pb_sys" where
  "start_sys pb = \<lparr>sys_pb = pb, sys_push = None, sys_finishing = False, sys_run = RunFilling,
     sys_sent = False, sys_wire = []\<rparr>"

section \<open>Invariant\<close>

definition push_ok :: "(u8 list \<times> nat) option \<Rightarrow> bool" where
  "push_ok p = (case p of None \<Rightarrow> True | Some (src, off) \<Rightarrow> even (length src) \<and> even off)"

text \<open>The packet \<open>run\<close> has taken off the queue and not yet handed to the sender.\<close>

definition in_flight :: "'c pb_sys \<Rightarrow> u8 list list" where
  "in_flight s = (case sys_run s of RunSending b \<Rightarrow> [b] | _ \<Rightarrow> [])"

definition sys_inv :: "'c pb_sys \<Rightarrow> bool" where
  "sys_inv s \<longleftrightarrow> playback_inv (sys_pb s) \<and> push_ok (sys_push s) \<and>
     (\<forall>b \<in> set (sys_wire s @ in_flight s). 0 < length b \<and> length b \<le> MaxOpusPacketBytes)"

lemma playback_inv_frame [simp]:
  "playback_inv (pb\<lparr>pb_space := b\<rparr>) = playback_inv pb" "playback_inv (pb\<lparr>pb_wake := b\<rparr>) = playback_inv pb"
  "playback_inv (pb\<lparr>pb_done := b\<rparr>) = playback_inv pb" "playback_inv (pb\<lparr>pb_ctx_done := b\<rparr>) = playback_inv pb"
  "playback_inv (pb\<lparr>pb_close_once := b\<rparr>) = playback_inv pb" "playback_inv (pb\<lparr>pb_final := b\<rparr>) = playback_inv pb"
  by (simp_all add: playback_inv_def)

lemma playback_inv_queues:
  "playback_inv pb \<Longrightarrow> queues_inv q \<Longrightarrow> generation q = pb_generation pb \<Longrightarrow> playback_inv (pb\<lparr>pb_queues := q\<rparr>)"
  by (simp add: playback_inv_def)

lemma fillOpus_inv:
  assumes codec: "codec_keeps_buffer codec"
  shows "playback_inv pb \<Longrightarrow> playback_inv (snd (fillOpus codec pb))"
proof (induction "pcmSize (pb_queues pb)" arbitrary: pb rule: less_induct)
  case less
  let ?q = "pb_queues pb" and ?g = "pb_generation pb"
  note I = playback_invD [OF less.prems]
  have g0: "?g \<noteq> 0" using less.prems by (simp add: playback_inv_def)
  show ?case
  proof (cases "cancelled ?q \<or> closed ?q \<or> pcmSize ?q < SamplesPerFrame \<or> opusSize ?q \<ge> OpusQueueFrames")
    case True
    then have "snd (fillOpus codec pb) = pb" by (subst fillOpus.simps) (auto simp: Let_def State_def)
    with less.prems show ?thesis by simp
  next
    case False
    then have live: "\<not> cancelled ?q" "\<not> closed ?q" and work: "SamplesPerFrame \<le> pcmSize ?q" "opusSize ?q < OpusQueueFrames"
      by auto
    obtain q where pop: "PopPCMFrame ?g (replicate SamplesPerFrame 0) ?q = (None, take SamplesPerFrame (pcm_contents ?q), q)"
      and q: "queues_inv q" "generation q = ?g" "\<not> cancelled q" "\<not> closed q"
        "pcmSize q = pcmSize ?q - SamplesPerFrame" "opusSize q = opusSize ?q"
      by (rule fill_pop [OF less.prems live work(1)]) blast
    obtain r enc where en: "Encode codec (pb_encoder pb) (take SamplesPerFrame (pcm_contents ?q)) = (r, enc)" by fastforce
    have enc: "encoder_inv enc" by (rule Encode_correct(1) [OF codec I(4) en])
    show ?thesis
    proof (cases r)
      case (Inl e)
      then have "snd (fillOpus codec pb) = pb\<lparr>pb_queues := q, pb_space := True, pb_encoder := enc\<rparr>"
        using pop en False by (subst fillOpus.simps) (simp add: Let_def State_def)
      with q enc g0 show ?thesis by (simp add: playback_inv_def)
    next
      case (Inr b)
      have b: "0 < length b" "length b \<le> MaxOpusPacketBytes"
        using Encode_correct(2) [OF codec I(4) en Inr] by auto
      have room: "opusSize q < OpusQueueFrames" using work q by simp
      obtain q' where push: "PushOpus ?g b q = (None, [], q')"
        and q': "queues_inv q'" "generation q' = ?g" "pcmSize q' = pcmSize q"
        by (rule fill_push [OF q(1,2) g0 q(3,4) room b]) blast
      let ?pb = "pb\<lparr>pb_queues := q', pb_space := True, pb_encoder := enc\<rparr>"
      have "fillOpus codec pb = fillOpus codec ?pb"
        using pop en Inr push False by (subst fillOpus.simps) (simp add: Let_def State_def)
      moreover have "playback_inv ?pb" using q' enc g0 by (simp add: playback_inv_def)
      moreover have "pcmSize (pb_queues ?pb) < pcmSize ?q" using q q' work by simp
      ultimately show ?thesis using less.hyps [of ?pb] by simp
    qed
  qed
qed

lemma fillOpus_fenced:
  "cancelled (pb_queues pb) \<or> closed (pb_queues pb) \<Longrightarrow> fillOpus codec pb = (Some ErrGenerationCancelled, pb)"
  by (subst fillOpus.simps) (simp add: Let_def State_def)

lemma run_fill_fenced:
  "cancelled (pb_queues pb) \<or> closed (pb_queues pb) \<Longrightarrow>
   run_fill codec pb = RunReturn ((pb_fail (Some ErrGenerationCancelled) pb)\<lparr>pb_done := True\<rparr>)"
  by (simp add: run_fill_def fillOpus_fenced)

lemma PopOpus_fenced:
  "cancelled q \<or> closed q \<Longrightarrow> \<exists>e. PopOpus g out q = (Inl e, out, q)"
  by (auto simp: PopOpus_def validateGenerationLocked_def split: option.splits)

lemma PopOpus_packet:
  assumes "queues_inv q" and "PopOpus g (replicate MaxOpusPacketBytes 0) q = (Inr n, buf, q')"
  shows "0 < n \<and> n \<le> MaxOpusPacketBytes \<and> length buf = MaxOpusPacketBytes"
proof -
  have inv: "opus_inv q" using assms(1) by (simp add: queues_inv_def)
  from assms(2) have ne: "0 < opusSize q" and n: "n = slot_size (opus q ! opusHead q)"
    and buf: "\<exists>bs. buf = copy_into (replicate MaxOpusPacketBytes 0) 0 bs"
    by (auto simp: PopOpus_def case_prod_beta Let_def split: option.splits if_splits)
  with opus_head_live(1) [OF inv ne] show ?thesis by (auto simp: slot_ok_def)
qed

fun outcome_ok :: "'c run_outcome \<Rightarrow> bool" where
  "outcome_ok (RunHold b pb) = (playback_inv pb \<and> 0 < length b \<and> length b \<le> MaxOpusPacketBytes)"
| "outcome_ok (RunReturn pb) = playback_inv pb"
| "outcome_ok (RunWait pb) = playback_inv pb"
| "outcome_ok (RunReady pb) = playback_inv pb"
| "outcome_ok (RunSent b pb) = playback_inv pb"

lemma run_fill_inv:
  assumes "codec_keeps_buffer codec" and "playback_inv pb0"
  shows "outcome_ok (run_fill codec pb0)"
proof -
  obtain e pb where f: "fillOpus codec pb0 = (e, pb)" by fastforce
  have inv: "playback_inv pb" using fillOpus_inv [OF assms] f by simp
  with f pb_fail_inv [OF inv] show ?thesis by (auto simp: run_fill_def Let_def split: option.splits)
qed

lemma run_pop_inv:
  assumes inv: "playback_inv pb"
  shows "outcome_ok (run_pop pace sent pb)"
proof -
  note I = playback_invD [OF inv]
  have g: "generation (pb_queues pb) = pb_generation pb" using inv by (simp add: playback_inv_def)
  obtain r buf q where pop: "PopOpus (pb_generation pb) (replicate MaxOpusPacketBytes 0) (pb_queues pb) = (r, buf, q)"
    by (metis surj_pair)
  have q: "queues_inv q" "generation q = pb_generation pb"
    using PopOpus_inv [OF I(3)] op_generation(5) g pop by (metis snd_conv)+
  have inv': "playback_inv (pb\<lparr>pb_queues := q\<rparr>)" by (rule playback_inv_queues [OF inv q])
  have "r = Inr n \<Longrightarrow> 0 < n \<and> n \<le> MaxOpusPacketBytes \<and> length buf = MaxOpusPacketBytes" for n
    using PopOpus_packet [OF I(3)] pop by blast
  then show ?thesis
    using pop inv inv' pb_fail_inv [OF inv] pb_fail_inv [OF inv']
    by (auto simp: run_pop_def Let_def split: sum.splits)
qed

lemma run_send_inv: "playback_inv pb \<Longrightarrow> outcome_ok (run_send guarded b pb)"
  using pb_fail_inv [of pb] by (auto simp: run_send_def split: guard_result.splits option.splits)

lemma push_iter_fail_inv:
  "playback_inv pb \<Longrightarrow> push_iter src off pb = PushFail e pb' \<Longrightarrow> playback_inv pb'"
proof -
  assume inv: "playback_inv pb" and f: "push_iter src off pb = PushFail e pb'"
  have "playback_inv (pb\<lparr>pb_queues := snd (snd (PushPCM g xs (pb_queues pb)))\<rparr>)" for g xs
    using inv PushPCM_inv [of "pb_queues pb" g xs] by (simp add: playback_inv_def)
  then have "PushPCM g xs (pb_queues pb) = (e', cb, q) \<Longrightarrow> playback_inv (pb\<lparr>pb_queues := q\<rparr>)" for g xs e' cb q
    by (metis snd_conv)
  with inv f show ?thesis
    by (auto simp: push_iter_def Let_def split: if_splits sum.splits option.splits prod.splits)
qed

lemma finish_padding_even: "finish_padding c pb = Inr pad \<Longrightarrow> even (length pad)"
  by (auto simp: finish_padding_def Let_def split: ctx.splits if_splits)

lemma pb_Close_finish_inv: "playback_inv pb \<Longrightarrow> playback_inv (pb_Close_finish pb)"
  using Close_inv [of "pb_queues pb"]
  by (simp add: pb_Close_finish_def playback_inv_def encoder_Reset_def encoder_inv_def Close_def)

lemma playback_step_inv:
  assumes codec: "codec_keeps_buffer codec" and step: "playback_step codec s t" and inv: "sys_inv s"
  shows "sys_inv t"
proof -
  have sp: "playback_inv (sys_pb s)" using inv by (simp add: sys_inv_def)
  show ?thesis
  using step
proof cases
  case (start_push src)
  then show ?thesis using inv
    by (auto simp: sys_inv_def in_flight_def push_ok_def push_guard_def split: if_splits)
next
  case (start_finish pad)
  then show ?thesis using inv finish_padding_even [of CtxLive "sys_pb s" pad]
    by (auto simp: sys_inv_def in_flight_def push_ok_def)
next
  case (push_next src off off' pb')
  have "even (length src)" "even off" "playback_inv (sys_pb s)" using inv push_next by (auto simp: sys_inv_def in_flight_def push_ok_def)
  from push_iter_inv [OF this(3,1,2) push_next(3,4)] push_next inv show ?thesis
    by (simp add: sys_inv_def in_flight_def push_ok_def)
next
  case (push_fails src off e pb')
  then show ?thesis using inv push_iter_fail_inv [of "sys_pb s"] by (auto simp: sys_inv_def in_flight_def push_ok_def)
next
  case (run_fills pb')
  with run_fill_inv [OF codec sp] inv show ?thesis by (auto simp: sys_inv_def in_flight_def)
next
  case (run_drained pb')
  with run_fill_inv [OF codec sp] inv show ?thesis by (auto simp: sys_inv_def in_flight_def)
next
  case (run_wakes pb')
  with run_fill_inv [OF codec sp] inv show ?thesis by (auto simp: sys_inv_def in_flight_def)
next
  case (run_stops pb')
  with run_fill_inv [OF codec sp] inv show ?thesis by (auto simp: sys_inv_def in_flight_def)
next
  case (run_holds pace b pb')
  with run_pop_inv [OF sp, of pace "sys_sent s"] inv show ?thesis by (auto simp: sys_inv_def in_flight_def)
next
  case (run_unpaced pace pb')
  with run_pop_inv [OF sp, of pace "sys_sent s"] inv show ?thesis by (auto simp: sys_inv_def in_flight_def)
next
  case (run_sends b guarded b' pb')
  moreover from this have "b' = b" by (auto simp: run_send_def split: guard_result.splits option.splits)
  ultimately show ?thesis using run_send_inv [OF sp, of guarded b] inv by (auto simp: sys_inv_def in_flight_def)
next
  case (run_refused b guarded pb')
  with run_send_inv [OF sp, of guarded b] inv show ?thesis by (auto simp: sys_inv_def in_flight_def)
next
  case (cancels g cause)
  then show ?thesis using inv pb_Cancel_inv [of "sys_pb s"] by (auto simp: sys_inv_def in_flight_def)
next
  case closes
  then show ?thesis using inv pb_Cancel_inv [of "sys_pb s"] by (auto simp: sys_inv_def in_flight_def)
next
  case close_finishes
  then show ?thesis using inv pb_Close_finish_inv [of "sys_pb s"] by (auto simp: sys_inv_def in_flight_def)
next
  case (push_done src off)
  then show ?thesis using inv by (auto simp: sys_inv_def in_flight_def push_ok_def finish_commit_def)
qed (use inv in \<open>auto simp: sys_inv_def in_flight_def push_ok_def in_flight_def\<close>)
qed

lemma playback_reachable_inv:
  "playback_reachable codec s t \<Longrightarrow> codec_keeps_buffer codec \<Longrightarrow> sys_inv s \<Longrightarrow> sys_inv t"
  by (induction rule: playback_reachable.induct) (auto intro: playback_step_inv)

lemma start_sys_inv: "NewGenerationPlayback cfg = Inr pb \<Longrightarrow> sys_inv (start_sys pb)"
  using NewGenerationPlayback_inv [of cfg pb] by (simp add: sys_inv_def start_sys_def push_ok_def in_flight_def)

section \<open>Nothing is sent after a cancellation\<close>

definition pb_fenced :: "'c playback \<Rightarrow> bool" where
  "pb_fenced pb \<longleftrightarrow> cancelled (pb_queues pb) \<or> closed (pb_queues pb)"

lemma Cancel_fenced_id: "cancelled q \<or> closed q \<Longrightarrow> snd (snd (Cancel g c q)) = q"
  by (auto simp: Cancel_def validateGenerationLocked_def split: option.splits)

lemma pb_fenced_frame [simp]:
  "pb_fenced (pb\<lparr>pb_space := b\<rparr>) = pb_fenced pb" "pb_fenced (pb\<lparr>pb_wake := b\<rparr>) = pb_fenced pb"
  "pb_fenced (pb\<lparr>pb_done := b\<rparr>) = pb_fenced pb" "pb_fenced (pb\<lparr>pb_ctx_done := b\<rparr>) = pb_fenced pb"
  "pb_fenced (pb\<lparr>pb_close_once := b\<rparr>) = pb_fenced pb" "pb_fenced (pb\<lparr>pb_final := b\<rparr>) = pb_fenced pb"
  by (simp_all add: pb_fenced_def)

lemma pb_fail_fenced: "pb_fenced pb \<Longrightarrow> pb_fenced (pb_fail e pb)"
  using Cancel_fenced_id [of "pb_queues pb"] by (simp add: pb_fenced_def pb_fail_def Let_def setError_def)

lemma pb_Cancel_fenced: "pb_fenced pb \<Longrightarrow> pb_fenced (snd (pb_Cancel g c pb))"
  using Cancel_fenced_id [of "pb_queues pb" g c]
  by (auto simp: pb_fenced_def pb_Cancel_def Let_def setError_def case_prod_beta)

text \<open>
  What a fenced generation may still do: finish handing over the one packet that was in
  flight when the fence went up.
\<close>

definition only_in_flight :: "'c pb_sys \<Rightarrow> 'c pb_sys \<Rightarrow> bool" where
  "only_in_flight s t \<longleftrightarrow> pb_fenced (sys_pb t) \<and>
     (sys_wire t = sys_wire s \<and> (in_flight t = in_flight s \<or> in_flight t = []) \<or>
      sys_wire t = sys_wire s @ in_flight s \<and> in_flight t = [])"

lemma playback_step_fenced:
  assumes "playback_step codec s t" and fen: "pb_fenced (sys_pb s)"
  shows "only_in_flight s t"
  using assms(1)
proof cases
  case (push_next src off off' pb')
  then show ?thesis using fen by (simp add: pb_fenced_def push_iter_def Let_def State_def split: if_splits)
next
  case (push_fails src off e pb')
  then show ?thesis using fen
    by (auto simp: only_in_flight_def in_flight_def pb_fenced_def push_iter_def Let_def State_def split: if_splits)
next
  case (push_done src off)
  then show ?thesis using fen by (simp add: only_in_flight_def in_flight_def finish_commit_def)
next
  case (run_drained pb')
  then have "pb' = (pb_fail (Some ErrGenerationCancelled) (sys_pb s))\<lparr>pb_done := True\<rparr>"
    using fen run_fill_fenced [of "sys_pb s"] by (auto simp: pb_fenced_def)
  with run_drained pb_fail_fenced [OF fen] show ?thesis by (simp add: only_in_flight_def in_flight_def)
next
  case (run_holds pace b pb')
  then show ?thesis using fen PopOpus_fenced [of "pb_queues (sys_pb s)" "pb_generation (sys_pb s)" "replicate MaxOpusPacketBytes 0"]
    by (auto simp: pb_fenced_def run_pop_def split: if_splits)
next
  case (run_unpaced pace pb')
  obtain e where "PopOpus (pb_generation (sys_pb s)) (replicate MaxOpusPacketBytes 0) (pb_queues (sys_pb s))
      = (Inl e, replicate MaxOpusPacketBytes 0, pb_queues (sys_pb s))"
    using PopOpus_fenced fen unfolding pb_fenced_def by blast
  then have "pb_fenced pb'" using run_unpaced(4) fen pb_fail_fenced [OF fen]
    by (auto simp: run_pop_def split: if_splits)
  then show ?thesis using run_unpaced by (simp add: only_in_flight_def in_flight_def)
next
  case (run_sends b guarded b' pb')
  then have "b' = b" "pb_fenced pb'" using fen by (auto simp: run_send_def split: guard_result.splits option.splits)
  with run_sends show ?thesis by (simp add: only_in_flight_def in_flight_def)
next
  case (run_refused b guarded pb')
  then have "pb_fenced pb'" using pb_fail_fenced [OF fen] by (auto simp: run_send_def split: guard_result.splits option.splits)
  with run_refused show ?thesis by (simp add: only_in_flight_def in_flight_def)
next
  case (cancels g cause)
  then show ?thesis using pb_Cancel_fenced [OF fen] by (simp add: only_in_flight_def in_flight_def)
next
  case closes
  then show ?thesis using pb_Cancel_fenced [OF fen] by (simp add: only_in_flight_def in_flight_def)
next
  case close_finishes
  then show ?thesis by (simp add: only_in_flight_def in_flight_def pb_fenced_def pb_Close_finish_def Close_def)
qed (use fen run_fill_fenced [of "sys_pb s"] in \<open>auto simp: only_in_flight_def in_flight_def pb_fenced_def\<close>)

lemma playback_reachable_fenced:
  "playback_reachable codec s t \<Longrightarrow> pb_fenced (sys_pb s) \<Longrightarrow> only_in_flight s t"
proof (induction rule: playback_reachable.induct)
  case (reach_refl s)
  then show ?case by (simp add: only_in_flight_def)
next
  case (reach_step s t u)
  then have "only_in_flight s t" "only_in_flight t u" by (auto simp: only_in_flight_def dest: playback_step_fenced)
  then show ?case by (auto simp: only_in_flight_def)
qed

lemma pb_Cancel_fences:
  assumes "playback_inv pb"
  shows "pb_fenced (snd (pb_Cancel (pb_generation pb) c pb))"
proof (cases "pb_fenced pb")
  case True
  then show ?thesis by (rule pb_Cancel_fenced)
next
  case False
  then have "validateGenerationLocked (pb_generation pb) (pb_queues pb) = None"
    using playback_live [OF assms] by (simp add: pb_fenced_def)
  then show ?thesis using False assms
    by (simp add: pb_Cancel_def Let_def setError_def Cancel_def cancelLocked_def pb_fenced_def playback_inv_def)
qed

end
