(* ===== verification/Audio_Properties.thy ===== *)
theory Audio_Properties
  imports Sample_Ring Playback_System
begin

text \<open>
  The properties of the audio package, stated over the definitions of the component
  theories, with the witnesses that apply them at concrete inputs.
\<close>

text \<open>A concrete codec for witnesses: every frame becomes the one-byte packet \<open>7\<close>.\<close>

definition one_byte_codec :: "nat \<Rightarrow> i16 list \<Rightarrow> u8 list \<Rightarrow> (int \<times> audio_error option) \<times> u8 list \<times> nat" where
  "one_byte_codec c xs dst = (if dst = [] then ((0, None), dst, c) else ((1, None), 7 # tl dst, Suc c))"

lemma one_byte_codec_keeps: "codec_keeps_buffer one_byte_codec"
  by (auto simp: codec_keeps_buffer_def one_byte_codec_def)

definition demo_config :: "nat playback_config" where
  "demo_config = \<lparr>cfg_Context = CtxLive, cfg_Generation = 3, cfg_Encoder = Some 0,
     cfg_SenderNil = False, cfg_PacerTypedNil = False\<rparr>"

definition demo_playback :: "nat playback" where
  "demo_playback = \<lparr>pb_generation = 3, pb_queues = (NewGenerationQueues False)\<lparr>generation := 3\<rparr>,
     pb_encoder = \<lparr>enc_state = 0, packet = replicate MaxOpusPacketBytes 0\<rparr>, pb_ctx_done = False,
     pb_final = False, pb_err = None, pb_wake = False, pb_space = False, pb_done = False, pb_close_once = False\<rparr>"

lemma demo_playback_new: "NewGenerationPlayback demo_config = Inr demo_playback"
  by (simp add: NewGenerationPlayback_def demo_config_def demo_playback_def NewFrameEncoder_def
        Activate_def NewGenerationQueues_def)

lemma demo_playback_inv: "playback_inv demo_playback"
  using NewGenerationPlayback_inv [OF demo_playback_new] by simp

definition audio_wiped :: "queues \<Rightarrow> bool" where
  "audio_wiped q \<longleftrightarrow> pcm q = replicate TTSQueueSamples 0 \<and> opus q = replicate OpusQueueFrames zero_slot"

section \<open>Generation queues\<close>

text \<open>
  C1: Every history of API calls on freshly created queues gets exactly the replies
  (errors, popped audio, counters and callback invocations) that the list specification
  gives: two FIFO lists bounded by 12000 samples and 12 packets behind one generation
  fence. The circular buffers, their wrap-around copies and head resets are invisible.
\<close>

theorem queues_refine_lists:
  "fst (queue_run (NewGenerationQueues cb) cs) =
   fst (spec_run \<lparr>sp_generation = 0, sp_cancelled = False, sp_closed = False, sp_handler = cb,
                  sp_pcm = [], sp_opus = []\<rparr> cs)"
  using queue_run_refines [OF NewGenerationQueues_inv, of cb cs] by (simp add: queue_abs_new)

text \<open>
  C2: Stale audio cannot cross a barge-in boundary. In every history of calls on fresh queues, the
  packets and samples that calls for a generation take out are, in order, an initial part of those
  that calls for the same generation put in, so none is audio of another generation; while the
  generation is active, nothing of it is missing: what was taken out followed by what is queued
  is what was put in. And once a generation is cancelled, superseded or the queues are closed, no
  later call for it, in any continuation, returns or accepts audio.
\<close>

theorem stale_audio_cannot_cross:
  "prefix (concat (map (taken_packet g) (queue_history cb cs))) (concat (map (queued_packet g) (queue_history cb cs))) \<and>
   prefix (concat (map (taken_frame g) (queue_history cb cs))) (concat (map (queued_block g) (queue_history cb cs))) \<and>
   (validateGenerationLocked g (snd (queue_run (NewGenerationQueues cb) cs)) = None \<longrightarrow>
      concat (map (taken_packet g) (queue_history cb cs)) @ opus_contents (snd (queue_run (NewGenerationQueues cb) cs)) =
        concat (map (queued_packet g) (queue_history cb cs)) \<and>
      concat (map (taken_frame g) (queue_history cb cs)) @ pcm_contents (snd (queue_run (NewGenerationQueues cb) cs)) =
        concat (map (queued_block g) (queue_history cb cs))) \<and>
   (fenced g (snd (queue_run (NewGenerationQueues cb) cs)) \<longrightarrow> i < length later \<longrightarrow> call_generation (later ! i) = Some g \<longrightarrow>
      \<not> yields_audio (fst (queue_run (snd (queue_run (NewGenerationQueues cb) cs)) later) ! i) \<and>
      \<not> accepts_audio (fst (queue_run (snd (queue_run (NewGenerationQueues cb) cs)) later) ! i))"
  using history_accounted [where cb = cb and cs = cs and g = g, THEN accounted_prefix] history_accounted [where cb = cb and cs = cs and g = g, THEN accounted_live]
    queue_run_fenced [of g "snd (queue_run (NewGenerationQueues cb) cs)" i later] by blast

theorem stale_audio_cannot_cross_witness:
  "concat (map (taken_packet 2) (queue_history True [QActivate 1, QPushOpus 1 [9], QActivate 2, QPopOpus 2 [0, 0]])) = [] \<and>
   \<not> yields_audio (fst (queue_run (snd (queue_run (NewGenerationQueues True) [QActivate 1, QPushOpus 1 [9], QActivate 2, QPopOpus 2 [0, 0]]))
      [QPopOpus 1 [0, 0]]) ! 0)"
proof -
  let ?cs = "[QActivate 1, QPushOpus 1 [9], QActivate 2, QPopOpus 2 [0, 0]]" and ?l = "[QPopOpus 1 [0, 0]]"
  have "concat (map (queued_packet 2) (queue_history True ?cs)) = []"
    by (simp add: queue_history_def case_prod_beta Let_def NewGenerationQueues_def Activate_def PushOpus_def validateGenerationLocked_def)
  moreover have f: "fenced 1 (snd (queue_run (NewGenerationQueues True) ?cs))"
    by (simp add: fenced_def NewGenerationQueues_def Activate_def PushOpus_def PopOpus_def pushOpusLocked_def
          validateGenerationLocked_def clearAudioLocked_def Let_def case_prod_beta)
  moreover have "0 < length ?l" "call_generation (?l ! 0) = Some 1" by simp_all
  ultimately show ?thesis
    using stale_audio_cannot_cross [where g = 2 and cb = True and cs = ?cs]
      stale_audio_cannot_cross [where g = 1 and cb = True and cs = ?cs and i = 0 and later = ?l] prefix_Nil by metis
qed

text \<open>
  Cancelling, superseding or closing wipes both queues physically: every cell of the
  PCM array is zero and every Opus slot is the zero slot, whatever was queued before.
\<close>

theorem fence_wipes_audio:
  assumes "queues_inv q"
  shows "(validateGenerationLocked g q = None \<longrightarrow> audio_wiped (snd (snd (Cancel g c q)))) \<and>
    (\<not> closed q \<and> generation q \<noteq> 0 \<and> generation q < h \<longrightarrow>
       fst (Activate h q) = None \<and> audio_wiped (snd (Activate h q))) \<and>
    (\<not> closed q \<longrightarrow> audio_wiped (Close q))"
proof -
  have inv: "pcm_inv q" "opus_inv q" using assms by (auto simp: queues_inv_def)
  note w = clearAudio_wipes [OF inv]
  have "audio_wiped (snd (snd (Cancel g c q)))" if v: "validateGenerationLocked g q = None"
  proof -
    have "\<not> cancelled q" using v by (simp add: validate_None)
    with w v show ?thesis by (simp add: Cancel_def cancelLocked_def audio_wiped_def)
  qed
  moreover have "fst (Activate h q) = None \<and> audio_wiped (snd (Activate h q))"
    if "\<not> closed q" "generation q \<noteq> 0" "generation q < h"
  proof -
    have "h \<noteq> 0" using that(3) by (metis word_not_simps(1))
    with w that show ?thesis by (auto simp: Activate_def audio_wiped_def)
  qed
  moreover have "audio_wiped (Close q)" if "\<not> closed q"
    using w that by (simp add: Close_def audio_wiped_def)
  ultimately show ?thesis by blast
qed

theorem fence_wipes_audio_witness:
  "audio_wiped (Close (NewGenerationQueues True)) \<and>
   audio_wiped (snd (Activate 5 ((NewGenerationQueues True)\<lparr>generation := 2\<rparr>))) \<and>
   audio_wiped (snd (snd (Cancel 2 None ((NewGenerationQueues True)\<lparr>generation := 2\<rparr>))))"
proof -
  let ?q = "(NewGenerationQueues True)\<lparr>generation := 2\<rparr>"
  have "queues_inv (snd (Activate 2 (NewGenerationQueues True)))" by (rule Activate_inv [OF NewGenerationQueues_inv])
  then have i: "queues_inv ?q" by (simp add: Activate_def NewGenerationQueues_def)
  have "validateGenerationLocked 2 ?q = None" by (simp add: validate_None NewGenerationQueues_def)
  moreover have "\<not> closed ?q" "generation ?q = 2" "\<not> closed (NewGenerationQueues True)"
    by (simp_all add: NewGenerationQueues_def)
  ultimately show ?thesis
    using fence_wipes_audio [OF i, where g = 2 and c = None and h = 5]
      fence_wipes_audio [OF NewGenerationQueues_inv [of True], where h = 1] by simp
qed

text \<open>
  PCM samples leave the queue in exactly the order they entered it. Over any sequence
  of accepted block writes and 320-sample frame reads, what was queued plus what was
  written is what was read plus what is still queued, and the bound holds throughout.
\<close>

theorem pcm_order_preserved:
  assumes "queues_inv q"
    and "fifo_run TTSQueueSamples SamplesPerFrame pcmSize (\<lambda>_. True) pushPCMLocked get_pcm_frame ops q = Some (written, taken, q')"
  shows "pcm_contents q @ written = taken @ pcm_contents q' \<and> pcmSize q' \<le> TTSQueueSamples"
  using pcmq.run_conserves [OF _ assms(2)] assms(1) by (simp add: queues_inv_def)

theorem pcm_order_preserved_witness:
  "pcm_contents (NewGenerationQueues False) @ [1, 2, 3] =
   [] @ pcm_contents (pushPCMLocked [3] (pushPCMLocked [1, 2] (NewGenerationQueues False)))"
proof -
  have "fifo_run TTSQueueSamples SamplesPerFrame pcmSize (\<lambda>_. True) pushPCMLocked get_pcm_frame
      [Put [1, 2], Put [3]] (NewGenerationQueues False) =
      Some ([1, 2, 3], [], pushPCMLocked [3] (pushPCMLocked [1, 2] (NewGenerationQueues False)))"
    by (simp add: NewGenerationQueues_def)
  from pcm_order_preserved [OF NewGenerationQueues_inv this] show ?thesis by simp
qed

section \<open>Sample ring\<close>

text \<open>
  \<open>WriteLatest\<close> keeps exactly the newest samples: afterwards the ring holds the last
  \<open>Cap\<close> samples of its old contents followed by the source, its capacity is unchanged,
  and the number it returns is the number of samples that were lost.
\<close>

theorem ring_keeps_newest:
  assumes "ring_inv r" and "WriteLatest r src = (dropped, r')"
  shows "ring_inv r' \<and> ring_contents r' = newest (ring_Cap r) (ring_contents r @ src) \<and>
         ring_Cap r' = ring_Cap r \<and> dropped = int (ring_Len r + length src) - int (ring_Len r')"
  using WriteLatest_correct [OF assms] by (simp add: ring_Len_def)

theorem ring_keeps_newest_witness:
  "ring_contents (snd (WriteLatest \<lparr>samples = [1, 2, 3], head = 1, size = 2\<rparr> [8, 9])) = [3, 8, 9]"
proof -
  let ?r = "\<lparr>samples = [1, 2, 3], head = 1, size = 2\<rparr> :: sample_ring"
  have "ring_inv ?r" by (simp add: ring_inv_def)
  from ring_keeps_newest [OF this surjective_pairing, of "[8, 9]"]
  have "ring_contents (snd (WriteLatest ?r [8, 9])) = newest (ring_Cap ?r) (ring_contents ?r @ [8, 9])" by simp
  moreover have "newest (ring_Cap ?r) (ring_contents ?r @ [8, 9]) = [3, 8, 9]"
    by (simp add: newest_def ring_Cap_def ring_contents_def ring_view_def upt_rec)
  ultimately show ?thesis by simp
qed

text \<open>
  \<open>CopyLatest\<close> overwrites the front of the destination with the newest samples that
  fit, in order from older to newer, and leaves the rest of the destination alone.
\<close>

theorem ring_copies_newest:
  assumes "ring_inv r"
  shows "CopyLatest r dst = (min (length dst) (ring_Len r), copy_into dst 0 (newest (length dst) (ring_contents r)))"
  using CopyLatest_correct [OF assms] by (simp add: ring_Len_def)

theorem ring_copies_newest_witness:
  "CopyLatest \<lparr>samples = [7, 5, 6], head = 1, size = 3\<rparr> [0, 0] = (2, [6, 7])"
proof -
  let ?r = "\<lparr>samples = [7, 5, 6], head = 1, size = 3\<rparr> :: sample_ring"
  have "ring_inv ?r" by (simp add: ring_inv_def)
  from ring_copies_newest [OF this, of "[0, 0]"] show ?thesis
    by (simp add: newest_def ring_contents_def ring_view_def upt_rec ring_Len_def copy_into_def)
qed

section \<open>PCM bytes, RTP clock, encoder\<close>

text \<open>
  The PCM16LE codec round-trips both ways: encoding samples and decoding the bytes
  gives the samples back, and decoding an even number of bytes and encoding the samples
  gives the bytes back.
\<close>

theorem pcm_roundtrip:
  "(SamplesToPCM16LE ss (replicate (2 * length ss) 0) = Inr (n, bs) \<longrightarrow>
      PCM16LEToSamples bs (replicate (length ss) 0) = Inr (length ss, ss)) \<and>
   (PCM16LEToSamples bs' (replicate (length bs' div 2) 0) = Inr (m, ss') \<longrightarrow>
      SamplesToPCM16LE ss' (replicate (length bs') 0) = Inr (length bs', bs'))"
proof (intro conjI impI)
  assume "SamplesToPCM16LE ss (replicate (2 * length ss) 0) = Inr (n, bs)"
  then have "bs = concat (map sample_bytes ss)"
    by (simp add: SamplesToPCM16LE_eq copy_into_0_fits mult.commute)
  then show "PCM16LEToSamples bs (replicate (length ss) 0) = Inr (length ss, ss)"
    by (simp add: PCM16LEToSamples_eq copy_into_0_fits)
next
  assume "PCM16LEToSamples bs' (replicate (length bs' div 2) 0) = Inr (m, ss')"
  then have e: "even (length bs')" and "ss' = decode_pcm bs'"
    by (auto simp: PCM16LEToSamples_eq copy_into_0_fits split: if_splits)
  with encode_decode_pcm [OF e] show "SamplesToPCM16LE ss' (replicate (length bs') 0) = Inr (length bs', bs')"
    by (simp add: SamplesToPCM16LE_eq copy_into_0_fits)
qed

theorem pcm_roundtrip_witness:
  "PCM16LEToSamples [1, 2, 255, 255] [0, 0] = Inr (2, [513, 65535]) \<and>
   SamplesToPCM16LE [513, 65535] [0, 0, 0, 0] = Inr (4, [1, 2, 255, 255])"
proof -
  have e: "SamplesToPCM16LE [513, 65535] (replicate (2 * length [513, 65535 :: i16]) 0) = Inr (4, [1, 2, 255, 255])"
    by code_simp
  have d: "PCM16LEToSamples [1, 2, 255, 255] (replicate (length [1, 2, 255, 255 :: u8] div 2) 0) = Inr (2, [513, 65535])"
    by code_simp
  show ?thesis
    using pcm_roundtrip [of "[513, 65535]" 4 "[1, 2, 255, 255]" "[1, 2, 255, 255]" 2 "[513, 65535]"] e d
    by (simp add: numeral_2_eq_2)
qed

text \<open>
  In any history of \<open>Prepare\<close>, \<open>Commit\<close> and \<open>Abort\<close> calls the committed timestamps
  are the initial one plus 0, 960, 1920, ... modulo 2 to the 32: consecutive frames are
  20 ms of 48 kHz apart, and aborted, duplicate or mismatched calls never advance it.
\<close>

theorem rtp_timestamps_consecutive:
  assumes "clock_run (NewRTPClock t0) calls = (c, stamps)"
  shows "stamps = map (\<lambda>k. t0 + of_nat k * 960) [0..<length stamps] \<and>
         clock_next c = t0 + of_nat (length stamps) * 960"
  using clock_run_committed [OF assms] by (simp add: NewRTPClock_def RTPTimePerFrame_eq)

theorem rtp_timestamps_consecutive_witness:
  "clock_next (fst (clock_run (NewRTPClock 4294967000) [CallPrepare, CallCommit 4294967000, CallCommit 7])) = 664"
proof -
  have "clock_run (NewRTPClock 4294967000) [CallPrepare, CallCommit 4294967000, CallCommit 7] =
      (\<lparr>clock_next = 664, reserved = False\<rparr>, [4294967000])"
    by (simp add: NewRTPClock_def Prepare_def Commit_def RTPTimePerFrame_eq)
  from rtp_timestamps_consecutive [OF this] this show ?thesis by simp
qed

text \<open>
  Whatever the Opus library returns, the frame encoder yields a packet of 1 to 1276
  bytes from a 320-sample frame or an error, and after an error on such a frame its
  reusable buffer holds no audio.
\<close>

theorem encoder_packets_bounded:
  assumes "codec_keeps_buffer codec" and "encoder_inv enc" and "Encode codec enc frame = (r, enc')"
  shows "encoder_inv enc' \<and>
    (case r of Inr out \<Rightarrow> 0 < length out \<and> length out \<le> MaxOpusPacketBytes \<and> length frame = SamplesPerFrame
     | Inl _ \<Rightarrow> (if length frame = SamplesPerFrame then packet enc' = replicate MaxOpusPacketBytes 0 else enc' = enc))"
proof (cases r)
  case (Inl e)
  with Encode_correct(1,3) [OF assms] assms(3) show ?thesis by (auto simp: Encode_def)
next
  case (Inr out)
  with Encode_correct(1,2) [OF assms] show ?thesis by simp
qed

theorem encoder_packets_bounded_witness:
  "fst (Encode one_byte_codec \<lparr>enc_state = 0, packet = replicate MaxOpusPacketBytes 0\<rparr> (replicate SamplesPerFrame 5)) = Inr [7]"
proof -
  let ?e = "\<lparr>enc_state = 0, packet = replicate MaxOpusPacketBytes 0\<rparr> :: nat frame_encoder"
  have i: "encoder_inv ?e" by (simp add: encoder_inv_def)
  let ?z = "clear_range 0 (replicate MaxOpusPacketBytes 0) 0 MaxOpusPacketBytes :: u8 list"
  have z: "length ?z = MaxOpusPacketBytes" by simp
  then have "?z \<noteq> []" by (metis MaxOpusPacketBytes_eq list.size(3) zero_neq_numeral)
  then have "Encode one_byte_codec ?e (replicate SamplesPerFrame 5) = (Inr [7], \<lparr>enc_state = 1, packet = 7 # tl ?z\<rparr>)"
    using z by (simp add: Encode_def one_byte_codec_def Let_def)
  with encoder_packets_bounded [OF one_byte_codec_keeps i this] show ?thesis by simp
qed

section \<open>Playback\<close>






text \<open>
  After a cancellation nothing more of the generation leaves the queues, however the
  producer, the sender goroutine and further callers interleave afterwards: the only
  packet that can still reach the wire is the one the sender goroutine had already taken
  off the queue when the cancellation came.
\<close>

theorem cancelled_playback_sends_nothing:
  assumes "codec_keeps_buffer codec" and "NewGenerationPlayback cfg = Inr pb"
    and "playback_reachable codec (start_sys pb) s"
    and "playback_reachable codec (s\<lparr>sys_pb := snd (pb_Cancel (pb_generation (sys_pb s)) cause (sys_pb s))\<rparr>) t"
  shows "sys_wire t = sys_wire s \<or> sys_wire t = sys_wire s @ in_flight s"
proof -
  have "sys_inv s" by (rule playback_reachable_inv [OF assms(3,1) start_sys_inv [OF assms(2)]])
  then have "pb_fenced (snd (pb_Cancel (pb_generation (sys_pb s)) cause (sys_pb s)))"
    by (intro pb_Cancel_fences) (simp add: sys_inv_def)
  from playback_reachable_fenced [OF assms(4)] this show ?thesis by (auto simp: only_in_flight_def in_flight_def)
qed

theorem cancelled_playback_sends_nothing_witness:
  "sys_wire ((start_sys demo_playback)\<lparr>sys_pb := snd (pb_Cancel 3 None demo_playback)\<rparr>) = []"
proof -
  let ?t = "(start_sys demo_playback)\<lparr>sys_pb := snd (pb_Cancel (pb_generation (sys_pb (start_sys demo_playback))) None (sys_pb (start_sys demo_playback)))\<rparr>"
  have "sys_wire ?t = sys_wire (start_sys demo_playback) \<or>
      sys_wire ?t = sys_wire (start_sys demo_playback) @ in_flight (start_sys demo_playback)"
    by (rule cancelled_playback_sends_nothing [OF one_byte_codec_keeps demo_playback_new reach_refl reach_refl])
  then show ?thesis by (simp add: start_sys_def demo_playback_def in_flight_def)
qed

text \<open>
  The producer is back-pressured and never overruns the PCM queue. On a live
  generation an iteration either waits for space because the queue is full, or moves
  between 1 and 320 whole samples of the source to the end of the queue; it reports an
  error only when the generation was cancelled or closed.
\<close>

theorem producer_backpressured:
  assumes "playback_inv pb" and "even (length source)" and "even offset" and "offset < length source"
  shows "case push_iter source offset pb of
      PushWait \<Rightarrow> pcmSize (pb_queues pb) = TTSQueueSamples
    | PushFail e pb' \<Rightarrow> pb' = pb \<and> (e = ErrGenerationCancelled \<and> cancelled (pb_queues pb) \<or> e = ErrQueueClosed \<and> closed (pb_queues pb))
    | PushNext offset' pb' \<Rightarrow> offset < offset' \<and> offset' \<le> length source \<and> playback_inv pb' \<and>
        pcm_contents (pb_queues pb') = pcm_contents (pb_queues pb) @ decode_pcm (take (offset' - offset) (drop offset source))"
proof (cases "push_iter source offset pb")
  case (PushNext offset' pb')
  with push_iter_inv [OF assms PushNext] show ?thesis by simp
next
  case PushWait
  have "pcmSize (pb_queues pb) \<le> 12000" using playback_invD(1) [OF assms(1)] pcm_invD(3) by blast
  with push_iter_cases [OF assms] PushWait show ?thesis
    by (cases "pcmSize (pb_queues pb) < TTSQueueSamples") auto
next
  case (PushFail e pb')
  have "pcmSize (pb_queues pb) \<le> 12000" using playback_invD(1) [OF assms(1)] pcm_invD(3) by blast
  with push_iter_cases [OF assms] PushFail show ?thesis
    by (cases "cancelled (pb_queues pb)"; cases "closed (pb_queues pb)";
        cases "pcmSize (pb_queues pb) < TTSQueueSamples") auto
qed

theorem producer_backpressured_witness:
  "push_iter [1, 0, 2, 0] 0 demo_playback =
     PushNext 4 (demo_playback\<lparr>pb_queues := pushPCMLocked [1, 2] (pb_queues demo_playback), pb_wake := True\<rparr>)"
proof -
  let ?q = "pb_queues demo_playback"
  have q: "pcmSize ?q = 0" "\<not> cancelled ?q" "\<not> closed ?q" "generation ?q = 3" "pb_generation demo_playback = 3"
      "length (pcm ?q) = 12000"
    by (simp_all add: demo_playback_def NewGenerationQueues_def)
  have d: "PCM16LEToSamples [1, 0, 2, 0] [0, 0] = Inr (2, [1, 2])" by code_simp
  have "replicate 2 0 = [0, 0 :: i16]" by (simp add: numeral_2_eq_2)
  with q d have "push_iter [1, 0, 2, 0] 0 demo_playback =
     PushNext 4 (demo_playback\<lparr>pb_queues := pushPCMLocked [1, 2] ?q, pb_wake := True\<rparr>)"
    by (simp add: push_iter_def State_def PushPCM_def validateGenerationLocked_def Let_def)
  with producer_backpressured [OF demo_playback_inv, of "[1, 0, 2, 0]" 0] show ?thesis by simp
qed

end
