(* ===== verification/Go_Time.thy ===== *)
theory Go_Time
  imports Prelude
begin

text \<open>
  What the sources use of Go's \<open>time\<close> package. A \<open>time.Time\<close> is an instant: nanoseconds
  since the Unix epoch as an unbounded integer; \<open>UTC()\<close> changes only how it prints and is
  the identity on instants. The calendar is the proleptic Gregorian one, counted the way
  \<open>time.Date\<close> and \<open>Time.Year\<close> do: 400, 100, 4 and 1 year cycles from 1 January of year 1.
\<close>

type_synonym instant = int

definition nsPerSecond :: int where "nsPerSecond = 1000000000"
definition nsPerDay :: int where "nsPerDay = 86400 * nsPerSecond"
definition hours :: "int \<Rightarrow> int" where "hours n = n * 3600 * nsPerSecond"

text \<open>The zero \<open>time.Time\<close>, 1 January of year 1.\<close>

definition zero_time :: instant where
  "zero_time = - 62135596800 * nsPerSecond"

definition Unix :: "int \<Rightarrow> instant" where
  "Unix sec = sec * nsPerSecond"

definition after_opt :: "instant option \<Rightarrow> instant \<Rightarrow> bool" where
  "after_opt t now = (case t of None \<Rightarrow> False | Some x \<Rightarrow> now < x)"

section \<open>Calendar\<close>

definition leap_year :: "int \<Rightarrow> bool" where
  "leap_year y \<longleftrightarrow> y mod 4 = 0 \<and> (y mod 100 \<noteq> 0 \<or> y mod 400 = 0)"

text \<open>The year and the zero-based day of the year of a day counted from 1 January of year 1.\<close>

definition year_yday :: "int \<Rightarrow> int \<times> int" where
  "year_yday d =
     (let n400 = d div 146097; d1 = d mod 146097;
          n100 = min 3 (d1 div 36524); d2 = d1 - 36524 * n100;
          n4 = d2 div 1461; d3 = d2 mod 1461;
          n1 = min 3 (d3 div 365)
      in (400 * n400 + 100 * n100 + 4 * n4 + n1 + 1, d3 - 365 * n1))"

definition month_lengths :: "bool \<Rightarrow> int list" where
  "month_lengths leap = [31, if leap then 29 else 28, 31, 30, 31, 30, 31, 31, 30, 31, 30, 31]"

text \<open>The one-based month and day of a zero-based day of the year.\<close>

fun month_day :: "int \<Rightarrow> int list \<Rightarrow> int \<Rightarrow> int \<times> int" where
  "month_day m [] yday = (m, yday + 1)"
| "month_day m [_] yday = (m, yday + 1)"
| "month_day m (l # ls) yday = (if yday < l then (m, yday + 1) else month_day (m + 1) ls (yday - l))"

definition civil :: "instant \<Rightarrow> int \<times> int \<times> int" where
  "civil t =
     (let (y, yday) = year_yday (t div nsPerDay + 719162);
          (m, d) = month_day 1 (month_lengths (leap_year y)) yday
      in (y, m, d))"

text \<open>\<open>time.Date(utc.Year(), utc.Month(), 1, 0, 0, 0, 0, time.UTC)\<close> for \<open>utc = now.UTC()\<close>.\<close>

definition month_start :: "instant \<Rightarrow> instant" where
  "month_start now = (case civil now of (_, _, d) \<Rightarrow> (now div nsPerDay - (d - 1)) * nsPerDay)"

lemma year_remainder:
  assumes "0 \<le> x" and "x < 1461"
  shows "0 \<le> x - 365 * min 3 (x div 365) \<and> x - 365 * min 3 (x div 365) \<le> (365 :: int)"
proof (cases "x div 365 \<le> 3")
  case True
  then have e: "x - 365 * min 3 (x div 365) = x mod 365" by (simp add: minus_mult_div_eq_mod)
  have "0 \<le> x mod 365" "x mod 365 < 365" by simp_all
  then show ?thesis unfolding e by linarith
next
  case False
  then have "365 * 4 \<le> 365 * (x div 365)" by linarith
  also have "\<dots> \<le> x" by (simp add: minus_mod_eq_mult_div [symmetric])
  finally show ?thesis using assms False by simp
qed

lemma year_yday_bounds: "0 \<le> snd (year_yday d)" "snd (year_yday d) \<le> 365"
proof -
  have r: "0 \<le> x mod 1461 - 365 * min 3 (x mod 1461 div 365) \<and> x mod 1461 - 365 * min 3 (x mod 1461 div 365) \<le> 365"
    for x :: int by (rule year_remainder) simp_all
  show "0 \<le> snd (year_yday d)" "snd (year_yday d) \<le> 365"
    using r by (simp_all only: year_yday_def Let_def snd_conv)
qed

lemma month_day_range:
  assumes "0 \<le> yday" and "yday \<le> 365"
  shows "1 \<le> snd (month_day 1 (month_lengths leap) yday)" "snd (month_day 1 (month_lengths leap) yday) \<le> 32"
  using assms by (auto simp: month_lengths_def)

lemma civil_day:
  assumes "civil t = (y, m, d)"
  shows "1 \<le> d \<and> d \<le> 32"
proof -
  have "d = snd (month_day 1 (month_lengths (leap_year y)) (snd (year_yday (t div nsPerDay + 719162))))"
    using assms by (auto simp: civil_def Let_def case_prod_beta)
  with month_day_range [OF year_yday_bounds] show ?thesis by simp
qed

text \<open>A monthly window opens at or before the instant it is computed for.\<close>

lemma month_start_le: "month_start now \<le> now"
proof -
  obtain y m d where c: "civil now = (y, m, d)" by (metis surj_pair)
  have "(now div nsPerDay - (d - 1)) * nsPerDay \<le> now div nsPerDay * nsPerDay"
    using civil_day [OF c] by (intro mult_right_mono) (simp_all add: nsPerDay_def nsPerSecond_def)
  also have "\<dots> \<le> now" by (simp add: nsPerDay_def nsPerSecond_def minus_mod_eq_div_mult [symmetric])
  finally show ?thesis by (simp add: month_start_def c)
qed

end
