(* ===== verification/Subscription_Catalog.thy ===== *)
theory Subscription_Catalog
  imports Go_Strings Go_Time
begin

text \<open>
  The subscription aggregate (\<open>internal/models/subscription.go\<close>) and the plan catalogue
  (\<open>internal/services/subscription_catalog.go\<close>): the four plans, the lookups by identity and
  by code, and the rule that says which plan a subscription entitles to at an instant.
  A Go map is a partial function; a nil pointer is \<open>None\<close>. The catalogue clones plans so
  that callers cannot change it through a shared map; values here are never shared.
\<close>

section \<open>Subscription\<close>

abbreviation BillingModeFree :: string where "BillingModeFree \<equiv> ''free''"
abbreviation BillingModeRenewable :: string where "BillingModeRenewable \<equiv> ''renewable''"
abbreviation StatusPendingPayment :: string where "StatusPendingPayment \<equiv> ''pending_payment''"
abbreviation StatusActive :: string where "StatusActive \<equiv> ''active''"
abbreviation StatusRenewalPending :: string where "StatusRenewalPending \<equiv> ''renewal_pending''"
abbreviation StatusPastDue :: string where "StatusPastDue \<equiv> ''past_due''"
abbreviation StatusGracePeriod :: string where "StatusGracePeriod \<equiv> ''grace_period''"
abbreviation StatusCancellationScheduled :: string where "StatusCancellationScheduled \<equiv> ''cancellation_scheduled''"
abbreviation StatusCancelled :: string where "StatusCancelled \<equiv> ''cancelled''"
abbreviation StatusExpired :: string where "StatusExpired \<equiv> ''expired''"
abbreviation StatusSuspended :: string where "StatusSuspended \<equiv> ''suspended''"
abbreviation StatusReconciliationRequired :: string where "StatusReconciliationRequired \<equiv> ''reconciliation_required''"

record subscription =
  sub_ID :: string
  sub_BusinessID :: string
  sub_Plan :: string
  sub_PlanCode :: string
  sub_CatalogVersion :: string
  sub_Status :: string
  sub_BillingMode :: string
  sub_ProviderMode :: string
  sub_ProviderCustomerID :: string
  sub_ProviderSubscriptionID :: string
  sub_ProviderPlanID :: string
  sub_MaxInvoices :: int
  sub_MaxCustomers :: int
  sub_MaxUsers :: int
  sub_MaxStorageMB :: int
  sub_StartDate :: instant
  sub_EndDate :: "instant option"
  sub_NextBillingDate :: "instant option"
  sub_PeriodStart :: "instant option"
  sub_PeriodEnd :: "instant option"
  sub_NextRenewalAt :: "instant option"
  sub_GraceDeadline :: "instant option"
  sub_CancelAtPeriodEnd :: bool
  sub_CancellationEffectiveAt :: "instant option"
  sub_CancelledAt :: "instant option"
  sub_PendingPlanID :: string
  sub_PendingProviderPlanID :: string
  sub_PendingPlanEffectiveAt :: "instant option"
  sub_LastProviderEventAt :: "instant option"
  sub_LastProviderPaidCount :: int
  sub_ReconciliationCode :: string
  sub_LifecycleVersion :: int
  sub_UpdatedAt :: instant
  sub_DeletedAt :: "instant option"

section \<open>Catalogue\<close>

abbreviation CurrentSubscriptionCatalogVersion :: string where
  "CurrentSubscriptionCatalogVersion \<equiv> ''swipe-v1''"

abbreviation QuotaInvoices :: string where "QuotaInvoices \<equiv> ''invoices''"
abbreviation QuotaCustomers :: string where "QuotaCustomers \<equiv> ''customers''"
abbreviation QuotaUsers :: string where "QuotaUsers \<equiv> ''users''"
abbreviation QuotaStorageMB :: string where "QuotaStorageMB \<equiv> ''storage_mb''"
abbreviation QuotaEInvoiceMonthly :: string where "QuotaEInvoiceMonthly \<equiv> ''einvoice_monthly''"
abbreviation QuotaEWayBillMonthly :: string where "QuotaEWayBillMonthly \<equiv> ''ewaybill_monthly''"

abbreviation FeatureEInvoice :: string where "FeatureEInvoice \<equiv> ''einvoice''"
abbreviation FeatureEWayBill :: string where "FeatureEWayBill \<equiv> ''ewaybill''"
abbreviation FeatureBulkGST :: string where "FeatureBulkGST \<equiv> ''bulk_gst''"
abbreviation FeatureGSTAPI :: string where "FeatureGSTAPI \<equiv> ''gst_api''"
abbreviation FeaturePOS :: string where "FeaturePOS \<equiv> ''pos''"
abbreviation FeatureDriveStorageMB :: string where "FeatureDriveStorageMB \<equiv> ''drive_storage_mb''"

definition plan_features :: "string list" where
  "plan_features =
     [FeatureEInvoice, FeatureEWayBill, FeatureBulkGST, FeatureGSTAPI, FeaturePOS, ''online_store'',
      ''multi_currency'', ''export_documents'', ''sez_documents'', ''deemed_export_documents'',
      ''multi_user'', ''custom_roles'', ''multi_business'', ''branches'', ''priority_support'',
      FeatureDriveStorageMB, ''whatsapp_notifications'']"

record subscription_plan =
  plan_ID :: string
  plan_DisplayName :: string
  plan_LegacyPlan :: string
  plan_PlanCode :: string
  plan_Currency :: string
  plan_Amount :: int
  plan_Interval :: string
  plan_Features :: "string \<rightharpoonup> bool"
  plan_Quotas :: "string \<rightharpoonup> int"

definition newSubscriptionPlan ::
  "string \<Rightarrow> string \<Rightarrow> string \<Rightarrow> string \<Rightarrow> int \<Rightarrow> int \<Rightarrow> int \<Rightarrow> int \<Rightarrow> int \<Rightarrow> bool \<Rightarrow> subscription_plan" where
  "newSubscriptionPlan pid displayName legacyPlan planCode amount invoices customers users storageMB paidFeatures =
     \<lparr>plan_ID = pid, plan_DisplayName = displayName, plan_LegacyPlan = legacyPlan, plan_PlanCode = planCode,
      plan_Currency = ''INR'', plan_Amount = amount, plan_Interval = ''month'',
      plan_Features = map_of (map (\<lambda>f. (f, paidFeatures)) plan_features),
      plan_Quotas = map_of [(QuotaInvoices, invoices), (QuotaCustomers, customers), (QuotaUsers, users),
        (QuotaStorageMB, storageMB), (QuotaEInvoiceMonthly, invoices), (QuotaEWayBillMonthly, invoices)]\<rparr>"

definition free_plan :: subscription_plan where
  "free_plan = newSubscriptionPlan ''free'' ''Free'' ''free'' ''free'' 0 10 10 3 100 False"
definition pro_plan :: subscription_plan where
  "pro_plan = newSubscriptionPlan ''pro_monthly'' ''Pro'' ''starter'' ''pro'' 29900 100 100 3 512 True"
definition rise_plan :: subscription_plan where
  "rise_plan = newSubscriptionPlan ''rise_monthly'' ''Rise'' ''professional'' ''rise'' 99900 1000 1000 10 2048 True"
definition biz_plan :: subscription_plan where
  "biz_plan = newSubscriptionPlan ''biz_monthly'' ''Biz'' ''enterprise'' ''biz'' 299900 100000 100000 50 10240 True"

definition subscriptionPlans :: "subscription_plan list" where
  "subscriptionPlans = [free_plan, pro_plan, rise_plan, biz_plan]"

definition SubscriptionCatalog :: "string \<times> subscription_plan list" where
  "SubscriptionCatalog = (CurrentSubscriptionCatalogVersion, subscriptionPlans)"

definition FindSubscriptionPlan :: "string \<Rightarrow> subscription_plan option" where
  "FindSubscriptionPlan pid = find (\<lambda>p. plan_ID p = norm_key pid) subscriptionPlans"

text \<open>The plan when it exists and costs something.\<close>

definition paidSubscriptionPlan :: "string \<Rightarrow> subscription_plan option" where
  "paidSubscriptionPlan pid =
     (case FindSubscriptionPlan pid of Some p \<Rightarrow> if plan_Amount p > 0 then Some p else None | None \<Rightarrow> None)"

definition subscriptionPlanForCode :: "string \<Rightarrow> subscription_plan" where
  "subscriptionPlanForCode code =
     (case find (\<lambda>p. plan_PlanCode p = norm_key code \<or> plan_LegacyPlan p = norm_key code) subscriptionPlans of
        Some p \<Rightarrow> p
      | None \<Rightarrow> (case FindSubscriptionPlan ''free'' of Some p \<Rightarrow> p | None \<Rightarrow> free_plan))"

definition normalizePlanCode :: "string \<Rightarrow> string \<Rightarrow> string" where
  "normalizePlanCode plan planCode =
     (if norm_key planCode \<noteq> [] then norm_key planCode
      else let p = norm_key plan in
        if p = ''starter'' then ''pro''
        else if p = ''professional'' then ''rise''
        else if p = ''enterprise'' then ''biz''
        else ''free'')"

definition normalizeCatalogVersion :: "string \<Rightarrow> string" where
  "normalizeCatalogVersion v = (if TrimSpace v = [] then CurrentSubscriptionCatalogVersion else v)"

definition has_access :: "subscription \<Rightarrow> instant \<Rightarrow> bool" where
  "has_access s now =
     (let periodEnd = (case sub_PeriodEnd s of None \<Rightarrow> sub_EndDate s | Some e \<Rightarrow> Some e);
          status = norm_key (sub_Status s)
      in if status \<in> {StatusActive, StatusRenewalPending, StatusCancellationScheduled}
         then periodEnd = None \<or> after_opt periodEnd now
         else if status \<in> {StatusPastDue, StatusGracePeriod}
         then sub_GraceDeadline s \<noteq> None \<and> after_opt (sub_GraceDeadline s) now
         else if status = StatusReconciliationRequired
         then sub_LastProviderPaidCount s > 0 \<and> periodEnd \<noteq> None \<and> after_opt periodEnd now
         else False)"

definition subscriptionPlanForSubscription :: "subscription option \<Rightarrow> instant \<Rightarrow> subscription_plan" where
  "subscriptionPlanForSubscription sopt now =
     (case sopt of
        None \<Rightarrow> subscriptionPlanForCode ''free''
      | Some s \<Rightarrow>
          if \<not> has_access s now then subscriptionPlanForCode ''free''
          else subscriptionPlanForCode (normalizePlanCode (sub_Plan s) (sub_PlanCode s)))"

definition currentCatalogPlanID :: "subscription \<Rightarrow> string" where
  "currentCatalogPlanID s = plan_ID (subscriptionPlanForCode (normalizePlanCode (sub_Plan s) (sub_PlanCode s)))"

definition feature_on :: "subscription_plan \<Rightarrow> string \<Rightarrow> bool" where
  "feature_on p f = (plan_Features p f = Some True)"

definition quota_of :: "subscription_plan \<Rightarrow> string \<Rightarrow> int" where
  "quota_of p k = (case plan_Quotas p k of Some v \<Rightarrow> v | None \<Rightarrow> 0)"

section \<open>Catalogue facts\<close>

lemmas plan_defs = free_plan_def pro_plan_def rise_plan_def biz_plan_def newSubscriptionPlan_def

lemma norm_key_literal [simp]:
  "norm_key ''free'' = ''free''" "norm_key ''pro'' = ''pro''" "norm_key ''rise'' = ''rise''" "norm_key ''biz'' = ''biz''"
  by (code_simp)+

lemma plan_for_free [simp]: "subscriptionPlanForCode ''free'' = free_plan"
  by (simp add: subscriptionPlanForCode_def subscriptionPlans_def plan_defs)

text \<open>Every code resolves to a plan of the catalogue.\<close>

lemma subscriptionPlanForCode_mem: "subscriptionPlanForCode code \<in> set subscriptionPlans"
proof -
  have "find P xs = Some p \<Longrightarrow> p \<in> set xs" for P and xs :: "subscription_plan list" and p
    by (metis find_Some_iff nth_mem)
  then show ?thesis
    by (auto simp: subscriptionPlanForCode_def FindSubscriptionPlan_def split: option.splits)
       (simp add: subscriptionPlans_def)
qed

lemma paidSubscriptionPlanD:
  assumes "paidSubscriptionPlan pid = Some p"
  shows "p \<in> {pro_plan, rise_plan, biz_plan}" and "plan_ID p = norm_key pid" and "plan_Amount p > 0"
proof -
  from assms have f: "FindSubscriptionPlan pid = Some p" and a: "plan_Amount p > 0"
    by (auto simp: paidSubscriptionPlan_def split: option.splits if_splits)
  from f have "p \<in> set subscriptionPlans" "plan_ID p = norm_key pid"
    by (auto simp: FindSubscriptionPlan_def find_Some_iff)
  with a show "p \<in> {pro_plan, rise_plan, biz_plan}" "plan_ID p = norm_key pid" "plan_Amount p > 0"
    by (auto simp: subscriptionPlans_def free_plan_def newSubscriptionPlan_def)
qed

lemma catalogue_codes:
  "subscriptionPlanForCode ''pro'' = pro_plan" "subscriptionPlanForCode ''rise'' = rise_plan"
  "subscriptionPlanForCode ''biz'' = biz_plan"
  by (simp_all add: subscriptionPlanForCode_def subscriptionPlans_def plan_defs)

text \<open>The plan code written by an upgrade reads back as the plan itself.\<close>

lemma plan_code_roundtrip:
  "p \<in> set subscriptionPlans \<Longrightarrow> subscriptionPlanForCode (normalizePlanCode (plan_LegacyPlan p) (plan_PlanCode p)) = p"
  by (auto simp: subscriptionPlans_def normalizePlanCode_def plan_defs)
     (simp_all add: subscriptionPlanForCode_def subscriptionPlans_def plan_defs)

lemma no_access_free: "\<not> has_access s now \<Longrightarrow> subscriptionPlanForSubscription (Some s) now = free_plan"
  by (simp add: subscriptionPlanForSubscription_def)

end
