(* ===== verification/Subscription_Store.thy ===== *)
theory Subscription_Store
  imports Subscription_Catalog "HOL-Library.List_Lexorder" "HOL-Library.Char_ord" "HOL-Library.Product_Lexorder"
begin

text \<open>
  The repository of the subscription lifecycle
  (\<open>internal/repositories/postgres/subscription_lifecycle_repo.go\<close>): the tables, one
  function per repository method, and \<open>Transaction\<close>. A repository action is a function of
  the database that gives an error or a value. Any statement may fail: \<open>db_faults\<close> says for
  each coming statement (and commit) whether it does, and as in PostgreSQL every statement
  after a failed one fails until the transaction is rolled back. A row of \<open>subscriptions\<close> that breaks a
  \<open>CHECK\<close> constraint of the table fails its statement. \<open>db_wall\<close> is the clock a
  handler reads, \<open>db_fresh\<close> the UUID generator and \<open>db_calls\<close> the mutations sent to the
  payment provider; a rollback undoes none of the three.
\<close>

datatype lifecycle_error =
    ErrSubscriptionIdempotencyConflict
  | ErrSubscriptionProviderUnknown
  | ErrSubscriptionProviderRejected
  | ErrSubscriptionLifecycleConflict
  | ErrSubscriptionUnavailable
  | ErrSubscriptionInternal
  | ErrSubscriptionMutationInternal
  | ErrSubscriptionWebhookRejected
  | ErrInvalidSubscriptionWebhookSignature
  | ErrSubscriptionLifecycleNotFound
  | ErrSubscriptionCommandNotFound
  | ErrRazorpayEventNotFound
  | ErrRazorpayEventAlreadyExists
  | ErrDatabase
  | ErrMessage string

record billing_record =
  br_ID :: string
  br_BusinessID :: string
  br_SubscriptionID :: string
  br_ProviderMode :: string
  br_ProviderEventID :: string
  br_ProviderInvoiceID :: string
  br_ProviderPaymentID :: string
  br_AmountMinor :: int
  br_Currency :: string
  br_Status :: string
  br_ReceiptReference :: string
  br_PeriodStart :: "instant option"
  br_PeriodEnd :: "instant option"
  br_QuotaPeriodStart :: "instant option"
  br_QuotaPeriodEnd :: "instant option"
  br_OccurredAt :: instant

record audit_record =
  au_ID :: string
  au_BusinessID :: string
  au_SubscriptionID :: string
  au_ActorUserID :: string
  au_Action :: string
  au_FromStatus :: string
  au_ToStatus :: string
  au_FromPlanID :: string
  au_ToPlanID :: string
  au_ProviderMode :: string
  au_ProviderEventID :: string
  au_SanitizedCode :: string
  au_OccurredAt :: instant

record command =
  cmd_ID :: string
  cmd_BusinessID :: string
  cmd_SubscriptionID :: string
  cmd_ActorUserID :: string
  cmd_Action :: string
  cmd_IdempotencyKey :: string
  cmd_RequestHash :: string
  cmd_Status :: string
  cmd_SanitizedErrorCode :: string
  cmd_ResponseStatus :: string
  cmd_ResponseBillingMode :: string
  cmd_ResponsePendingPlanID :: string
  cmd_ResponseAuthorizationURL :: string
  cmd_CompletedAt :: "instant option"

record inbox_event =
  ev_ID :: string
  ev_RazorpayEventID :: string
  ev_ProviderMode :: string
  ev_EventType :: string
  ev_PayloadHash :: string
  ev_SignatureVerified :: bool
  ev_ReceivedAt :: instant
  ev_ProviderOccurredAt :: "instant option"
  ev_ProcessingStatus :: string
  ev_AttemptCount :: int
  ev_SanitizedErrorCode :: string
  ev_ProcessedAt :: "instant option"
  ev_BusinessID :: string
  ev_SubscriptionID :: string
  ev_ReplayCount :: int
  ev_LastReplayedAt :: "instant option"

datatype provider_call =
    CallCreateSubscription string string
  | CallUpdateSubscription string string
  | CallCancelSubscription string

record lifedb =
  db_subs :: "subscription list"
  db_cmds :: "command list"
  db_events :: "inbox_event list"
  db_billing :: "billing_record list"
  db_audits :: "audit_record list"
  db_aborted :: bool
  db_faults :: "bool list"
  db_wall :: instant
  db_fresh :: "nat \<Rightarrow> string"
  db_next :: nat
  db_calls :: "provider_call list"

type_synonym 'a tx = "lifedb \<Rightarrow> (lifecycle_error + 'a) \<times> lifedb"

definition tx_return :: "'a \<Rightarrow> 'a tx" where
  "tx_return x s = (Inr x, s)"

definition tx_fail :: "lifecycle_error \<Rightarrow> 'a tx" where
  "tx_fail e s = (Inl e, s)"

text \<open>\<open>x, err := m; if err != nil { return err }; k(x)\<close>\<close>

definition tx_bind :: "'a tx \<Rightarrow> ('a \<Rightarrow> 'b tx) \<Rightarrow> 'b tx" where
  "tx_bind m k s = (case m s of (Inl e, s') \<Rightarrow> (Inl e, s') | (Inr x, s') \<Rightarrow> k x s')"

text \<open>\<open>x, err := m\<close> where the code looks at the error itself.\<close>

definition tx_try :: "'a tx \<Rightarrow> (lifecycle_error + 'a) tx" where
  "tx_try m s = (case m s of (r, s') \<Rightarrow> (Inr r, s'))"

definition new_uuid :: "string tx" where
  "new_uuid s = (Inr (db_fresh s (db_next s)), s\<lparr>db_next := Suc (db_next s)\<rparr>)"

definition statement :: "'a tx \<Rightarrow> 'a tx" where
  "statement f s =
     (if db_aborted s then (Inl ErrDatabase, s)
      else case db_faults s of
             [] \<Rightarrow> f s
           | True # fs \<Rightarrow> (Inl ErrDatabase, s\<lparr>db_faults := fs, db_aborted := True\<rparr>)
           | False # fs \<Rightarrow> f (s\<lparr>db_faults := fs\<rparr>))"

text \<open>
  \<open>Transaction\<close>: run the operation; commit when it returned no error and nothing in it
  failed, otherwise restore the tables.
\<close>

definition rollback_to :: "lifedb \<Rightarrow> lifedb \<Rightarrow> lifedb" where
  "rollback_to s0 s = s\<lparr>db_subs := db_subs s0, db_cmds := db_cmds s0, db_events := db_events s0,
     db_billing := db_billing s0, db_audits := db_audits s0, db_aborted := False\<rparr>"

definition Transaction :: "'a tx \<Rightarrow> 'a tx" where
  "Transaction operation s0 =
     (case operation (s0\<lparr>db_aborted := False\<rparr>) of
        (Inl e, s) \<Rightarrow> (Inl e, rollback_to s0 s)
      | (Inr x, s) \<Rightarrow>
          (case statement (tx_return x) s of
             (Inl e, s') \<Rightarrow> (Inl e, rollback_to s0 s')
           | (Inr y, s') \<Rightarrow> (Inr y, s')))"

text \<open>A statement outside a transaction commits on its own; its failure aborts nothing else.\<close>

definition autocommit :: "'a tx \<Rightarrow> 'a tx" where
  "autocommit m s = (case m (s\<lparr>db_aborted := False\<rparr>) of (r, s') \<Rightarrow> (r, s'\<lparr>db_aborted := False\<rparr>))"

definition live :: "subscription \<Rightarrow> bool" where
  "live r = (sub_DeletedAt r = None)"

definition GetByBusinessIDForUpdate :: "string \<Rightarrow> subscription tx" where
  "GetByBusinessIDForUpdate businessID =
     statement (\<lambda>s. case find (\<lambda>r. sub_BusinessID r = businessID \<and> live r) (db_subs s) of
        None \<Rightarrow> (Inl ErrSubscriptionLifecycleNotFound, s) | Some r \<Rightarrow> (Inr r, s))"

definition GetByProviderIDForUpdate :: "string \<Rightarrow> string \<Rightarrow> subscription tx" where
  "GetByProviderIDForUpdate mode providerSubscriptionID =
     statement (\<lambda>s. case find (\<lambda>r. sub_ProviderMode r = mode \<and> sub_ProviderSubscriptionID r = providerSubscriptionID \<and> live r)
                     (db_subs s) of
        None \<Rightarrow> (Inl ErrSubscriptionLifecycleNotFound, s) | Some r \<Rightarrow> (Inr r, s))"

text \<open>
  The \<open>CHECK\<close> constraints of the table \<open>subscriptions\<close> (\<open>migrations/000011\<close> and \<open>000055\<close>): a row that
  breaks one fails its statement. A time that is not set is \<open>NULL\<close>; gorm writes a string as it is,
  never \<open>NULL\<close>, so that the check of complete provider identities always holds. A conflict in a
  unique index is one of the failures that \<open>db_faults\<close> stands for.
\<close>

definition subscription_checks :: "subscription \<Rightarrow> bool" where
  "subscription_checks r \<longleftrightarrow>
     sub_Plan r \<in> {''free'', ''starter'', ''professional'', ''enterprise''} \<and>
     sub_Status r \<in> {StatusPendingPayment, StatusActive, StatusRenewalPending, StatusPastDue, StatusGracePeriod,
       StatusCancellationScheduled, StatusCancelled, StatusExpired, StatusSuspended, StatusReconciliationRequired} \<and>
     sub_BillingMode r \<in> {BillingModeFree, ''legacy_one_time'', BillingModeRenewable} \<and>
     sub_ProviderMode r \<in> {''test'', ''live''} \<and>
     (case (sub_PeriodStart r, sub_PeriodEnd r) of (Some ps, Some pe) \<Rightarrow> pe > ps | _ \<Rightarrow> True) \<and>
     (case (sub_GraceDeadline r, sub_PeriodEnd r) of (Some gd, Some pe) \<Rightarrow> gd \<ge> pe | _ \<Rightarrow> True) \<and>
     sub_LastProviderPaidCount r \<ge> 0 \<and> sub_LifecycleVersion r > 0"

definition CreateSubscription :: "subscription \<Rightarrow> subscription tx" where
  "CreateSubscription sub =
     statement (\<lambda>s. if sub_ID sub \<in> sub_ID ` set (db_subs s) then (Inl ErrDatabase, s\<lparr>db_aborted := True\<rparr>)
       else let row = sub\<lparr>sub_UpdatedAt := db_wall s\<rparr>
         in if subscription_checks row then (Inr row, s\<lparr>db_subs := db_subs s @ [row]\<rparr>) else (Inl ErrDatabase, s\<lparr>db_aborted := True\<rparr>))"

text \<open>gorm's \<open>Save\<close>: update the row with the same primary key, or insert it.\<close>

definition upsert_by :: "('a \<Rightarrow> string) \<Rightarrow> 'a \<Rightarrow> 'a list \<Rightarrow> 'a list" where
  "upsert_by key row rows =
     (if key row \<in> key ` set rows then map (\<lambda>r. if key r = key row then row else r) rows else rows @ [row])"

definition SaveSubscription :: "subscription \<Rightarrow> subscription tx" where
  "SaveSubscription sub =
     statement (\<lambda>s. let row = sub\<lparr>sub_LifecycleVersion := sub_LifecycleVersion sub + 1, sub_UpdatedAt := db_wall s\<rparr>
       in if subscription_checks row then (Inr row, s\<lparr>db_subs := upsert_by sub_ID row (db_subs s)\<rparr>)
          else (Inl ErrDatabase, s\<lparr>db_aborted := True\<rparr>))"

definition cmd_key :: "command \<Rightarrow> string \<times> string \<times> string \<times> string" where
  "cmd_key c = (cmd_BusinessID c, cmd_ActorUserID c, cmd_Action c, cmd_IdempotencyKey c)"

definition GetCommandForUpdate :: "string \<Rightarrow> string \<Rightarrow> string \<Rightarrow> string \<Rightarrow> command tx" where
  "GetCommandForUpdate businessID actorUserID action idempotencyKey =
     statement (\<lambda>s. case find (\<lambda>c. cmd_key c = (businessID, actorUserID, action, idempotencyKey)) (db_cmds s) of
        None \<Rightarrow> (Inl ErrSubscriptionCommandNotFound, s) | Some c \<Rightarrow> (Inr c, s))"

definition CreateCommand :: "command \<Rightarrow> unit tx" where
  "CreateCommand c =
     statement (\<lambda>s. if cmd_key c \<in> cmd_key ` set (db_cmds s) \<or> cmd_ID c \<in> cmd_ID ` set (db_cmds s)
       then (Inl ErrDatabase, s\<lparr>db_aborted := True\<rparr>)
       else (Inr (), s\<lparr>db_cmds := db_cmds s @ [c]\<rparr>))"

definition SaveCommand :: "command \<Rightarrow> unit tx" where
  "SaveCommand c = statement (\<lambda>s. (Inr (), s\<lparr>db_cmds := upsert_by cmd_ID c (db_cmds s)\<rparr>))"

definition CreateAudit :: "audit_record \<Rightarrow> unit tx" where
  "CreateAudit a =
     statement (\<lambda>s. if au_ID a \<in> au_ID ` set (db_audits s) then (Inl ErrDatabase, s\<lparr>db_aborted := True\<rparr>)
       else (Inr (), s\<lparr>db_audits := db_audits s @ [a]\<rparr>))"

text \<open>\<open>ON CONFLICT DO NOTHING\<close> over the primary key and the unique provider event.\<close>

definition CreateBillingRecord :: "billing_record \<Rightarrow> unit tx" where
  "CreateBillingRecord b =
     statement (\<lambda>s. if br_ID b \<in> br_ID ` set (db_billing s) \<or>
          (br_ProviderMode b, br_ProviderEventID b) \<in> (\<lambda>r. (br_ProviderMode r, br_ProviderEventID r)) ` set (db_billing s)
       then (Inr (), s) else (Inr (), s\<lparr>db_billing := db_billing s @ [b]\<rparr>))"

definition ev_key :: "inbox_event \<Rightarrow> string \<times> string" where
  "ev_key e = (ev_ProviderMode e, ev_RazorpayEventID e)"

definition GetEventForUpdate :: "string \<Rightarrow> string \<Rightarrow> inbox_event tx" where
  "GetEventForUpdate mode providerEventID =
     statement (\<lambda>s. case find (\<lambda>e. ev_key e = (mode, providerEventID)) (db_events s) of
        None \<Rightarrow> (Inl ErrRazorpayEventNotFound, s) | Some e \<Rightarrow> (Inr e, s))"

definition CreateEvent :: "inbox_event \<Rightarrow> unit tx" where
  "CreateEvent e =
     statement (\<lambda>s. if ev_key e \<in> ev_key ` set (db_events s) \<or> ev_ID e \<in> ev_ID ` set (db_events s)
       then (Inl ErrRazorpayEventAlreadyExists, s)
       else (Inr (), s\<lparr>db_events := db_events s @ [e]\<rparr>))"

definition SaveEvent :: "inbox_event \<Rightarrow> unit tx" where
  "SaveEvent e = statement (\<lambda>s. (Inr (), s\<lparr>db_events := upsert_by ev_ID e (db_events s)\<rparr>))"

definition ListBillingRecords :: "string \<Rightarrow> nat \<Rightarrow> billing_record list tx" where
  "ListBillingRecords businessID limit =
     statement (\<lambda>s. (Inr (take limit (rev (sort_key (\<lambda>r. (br_OccurredAt r, br_ID r)) (filter (\<lambda>r. br_BusinessID r = businessID) (db_billing s))))), s))"

definition ListAuditRecords :: "string \<Rightarrow> nat \<Rightarrow> audit_record list tx" where
  "ListAuditRecords businessID limit =
     statement (\<lambda>s. (Inr (take limit (rev (sort_key (\<lambda>r. (au_OccurredAt r, au_ID r)) (filter (\<lambda>r. au_BusinessID r = businessID) (db_audits s))))), s))"

definition ListReconciliationDue :: "string \<Rightarrow> nat \<Rightarrow> subscription list tx" where
  "ListReconciliationDue mode limit =
     statement (\<lambda>s. (Inr (take limit (sort_key sub_UpdatedAt
       (filter (\<lambda>r. sub_ProviderMode r = mode \<and> sub_Status r = StatusReconciliationRequired \<and>
                    sub_ProviderSubscriptionID r \<noteq> [] \<and> live r) (db_subs s)))), s))"

definition ListGraceDue :: "string \<Rightarrow> instant \<Rightarrow> nat \<Rightarrow> subscription list tx" where
  "ListGraceDue mode before limit =
     statement (\<lambda>s. (Inr (take limit (sort_key (\<lambda>r. case sub_GraceDeadline r of Some d \<Rightarrow> d | None \<Rightarrow> 0)
       (filter (\<lambda>r. sub_ProviderMode r = mode \<and> sub_Status r \<in> {StatusPastDue, StatusGracePeriod} \<and>
                    (case sub_GraceDeadline r of Some d \<Rightarrow> d \<le> before | None \<Rightarrow> False) \<and> live r) (db_subs s)))), s))"

section \<open>Transactions\<close>

text \<open>What a database state says apart from the fault schedule and the UUID counter.\<close>

definition tables :: "lifedb \<Rightarrow> subscription list \<times> command list \<times> inbox_event list \<times> billing_record list \<times> audit_record list" where
  "tables s = (db_subs s, db_cmds s, db_events s, db_billing s, db_audits s)"

text \<open>A failed transaction leaves every table as it was.\<close>

lemma Transaction_error:
  assumes "Transaction operation s = (Inl e, s')"
  shows "tables s' = tables s"
  using assms by (auto simp: Transaction_def rollback_to_def tables_def split: prod.splits sum.splits)

lemma statement_cases:
  assumes "statement f s = (r, s')"
  obtains (failed) fs where "r = Inl ErrDatabase" "s' = s\<lparr>db_faults := fs, db_aborted := True\<rparr>"
  | (run) fs where "f (s\<lparr>db_faults := fs\<rparr>) = (r, s')" "\<not> db_aborted s"
proof (cases "db_aborted s")
  case True
  then have "r = Inl ErrDatabase" "s' = s\<lparr>db_faults := db_faults s, db_aborted := True\<rparr>"
    using assms by (auto simp: statement_def)
  then show ?thesis by (rule failed)
next
  case False
  show ?thesis
  proof (cases "db_faults s")
    case Nil
    then have "s\<lparr>db_faults := []\<rparr> = s" by simp
    moreover have "f s = (r, s')" using Nil False assms by (simp add: statement_def)
    ultimately show ?thesis using False by (intro run [of "[]"]) simp_all
  next
    case (Cons b fs)
    with False assms show ?thesis by (cases b) (auto simp: statement_def intro: failed run)
  qed
qed

lemma statement_fault_free: "db_faults s = [] \<Longrightarrow> \<not> db_aborted s \<Longrightarrow> statement f s = f s"
  by (simp add: statement_def)

lemma Transaction_ok:
  assumes "Transaction operation s = (Inr x, s')"
  obtains s1 fs where "operation (s\<lparr>db_aborted := False\<rparr>) = (Inr x, s1)" "s' = s1\<lparr>db_faults := fs\<rparr>" "\<not> db_aborted s1"
proof -
  obtain r s1 where o: "operation (s\<lparr>db_aborted := False\<rparr>) = (r, s1)" by fastforce
  with assms obtain y where r: "r = Inr y" by (cases r) (auto simp: Transaction_def)
  obtain r2 s2 where st: "statement (tx_return y) s1 = (r2, s2)" by fastforce
  from o r st assms have r2: "r2 = Inr x" "s2 = s'" by (auto simp: Transaction_def split: sum.splits)
  from st show ?thesis
  proof (cases rule: statement_cases)
    case (failed fs)
    with r2 show ?thesis by simp
  next
    case (run fs)
    with r2 o r show ?thesis by (intro that [of s1 fs]) (auto simp: tx_return_def)
  qed
qed

lemma tx_bind_Inr:
  assumes "tx_bind m k s = (Inr y, s')"
  obtains x s1 where "m s = (Inr x, s1)" "k x s1 = (Inr y, s')"
  using assms by (auto simp: tx_bind_def split: prod.splits sum.splits)

end
