(* ===== verification/Subscription_Lifecycle.thy ===== *)
theory Subscription_Lifecycle
  imports Subscription_Store Go_Sha256
begin

text \<open>
  \<open>internal/services/subscription_lifecycle_service.go\<close>: starting a renewable subscription,
  scheduling plan changes and cancellations, provider webhooks, and the maintenance pass.
  A command runs a first transaction, one call to the payment provider, and a second
  transaction; they are separate functions here, composed in the handler, because other
  handlers run between them. The provider's answer, the settings the resolver returned and
  the decoded webhook body (JSON) are arguments. A handler reads the clock as \<open>db_wall\<close>.
\<close>

section \<open>Provider data\<close>

record rz_subscription =
  rz_ID :: string
  rz_PlanID :: string
  rz_CustomerID :: string
  rz_Status :: string
  rz_CurrentStart :: int
  rz_CurrentEnd :: int
  rz_PaidCount :: int
  rz_ShortURL :: string
  rz_HasScheduledChanges :: bool
  rz_ScheduleChangeAt :: string
  rz_Notes :: "string \<rightharpoonup> string"

record rz_payment =
  rp_ID :: string
  rp_Amount :: int
  rp_Currency :: string
  rp_Status :: string
  rp_InvoiceID :: string
  rp_Captured :: bool

record rz_event =
  we_Event :: string
  we_CreatedAtEpoch :: int
  we_Payment :: "rz_payment option"
  we_Subscription :: "rz_subscription option"

definition note_of :: "rz_subscription \<Rightarrow> string \<Rightarrow> string" where
  "note_of p k = (case rz_Notes p k of Some v \<Rightarrow> v | None \<Rightarrow> [])"

text \<open>A provider call returns a subscription (or nil), or an error that may carry an HTTP status.\<close>

datatype provider_outcome = ProviderReturned "rz_subscription option" | ProviderError "int option"

text \<open>\<open>providerMutationRejected\<close> of the error with this status.\<close>

definition providerMutationRejected :: "int option \<Rightarrow> bool" where
  "providerMutationRejected status = (case status of None \<Rightarrow> False | Some c \<Rightarrow> 400 \<le> c \<and> c < 500)"

definition verifyHMACSHA256 :: "u8 list \<Rightarrow> string \<Rightarrow> string \<Rightarrow> bool" where
  "verifyHMACSHA256 message receivedSignature secret =
     (if message = [] \<or> TrimSpace receivedSignature = [] \<or> secret = [] then False
      else case hex_decode receivedSignature of
             None \<Rightarrow> False
           | Some received \<Rightarrow> length received = 32 \<and> hmac_sha256 (string_bytes secret) message = received)"

definition VerifyRazorpayWebhook :: "u8 list \<Rightarrow> string \<Rightarrow> string \<Rightarrow> bool" where
  "VerifyRazorpayWebhook rawBody receivedSignature webhookSecret =
     verifyHMACSHA256 rawBody (TrimSpace receivedSignature) webhookSecret"

section \<open>Configuration\<close>

record lifecycle_config =
  lc_TotalCount :: int
  lc_GracePeriod :: int
  lc_ProviderNil :: bool
  lc_RepositoryNil :: bool

record provider_settings =
  ps_ProviderMode :: string
  ps_ProviderPlanIDs :: "(string \<times> string) list"
  ps_WebhookSecret :: string

definition NewSubscriptionLifecycleService :: "lifecycle_config \<Rightarrow> lifecycle_config" where
  "NewSubscriptionLifecycleService c =
     c\<lparr>lc_TotalCount := (if lc_TotalCount c \<le> 0 then 1200 else lc_TotalCount c),
       lc_GracePeriod := (if lc_GracePeriod c \<le> 0 then hours (7 * 24) else lc_GracePeriod c)\<rparr>"

text \<open>\<open>settings\<close>: the configured resolver's result, if there is a resolver, or the static values.\<close>

definition lifecycle_settings :: "(unit + provider_settings) option \<Rightarrow> provider_settings \<Rightarrow> lifecycle_error + provider_settings" where
  "lifecycle_settings resolved base =
     (case resolved of None \<Rightarrow> Inr base | Some (Inl _) \<Rightarrow> Inl ErrSubscriptionUnavailable | Some (Inr st) \<Rightarrow> Inr st)"

definition plan_id_of :: "provider_settings \<Rightarrow> string \<Rightarrow> string" where
  "plan_id_of st pid = (case map_of (ps_ProviderPlanIDs st) pid of Some v \<Rightarrow> v | None \<Rightarrow> [])"

text \<open>The code ranges over a map, whose order Go leaves open; here it is the order of the list.\<close>

definition planForProviderID :: "string \<Rightarrow> (string \<times> string) list \<Rightarrow> subscription_plan option" where
  "planForProviderID providerPlanID ids =
     (case find (\<lambda>(_, configured). configured = providerPlanID) ids of
        Some (planID, _) \<Rightarrow> paidSubscriptionPlan planID
      | None \<Rightarrow> None)"

definition validProviderMode :: "string \<Rightarrow> bool" where
  "validProviderMode mode \<longleftrightarrow> mode = ''test'' \<or> mode = ''live''"

definition sha256Hex :: "u8 list \<Rightarrow> string" where
  "sha256Hex v = hex_encode (sha256 v)"

definition subscriptionCommandHash :: "string list \<Rightarrow> string" where
  "subscriptionCommandHash values = sha256Hex (string_bytes (join_sep [CHR 0x00] values))"

definition billingReceiptReference :: "string \<Rightarrow> string \<Rightarrow> string" where
  "billingReceiptReference businessID providerEventID =
     ''BIL-'' @ ToUpper (take 16 (sha256Hex (string_bytes (businessID @ [CHR 0x00] @ providerEventID))))"

section \<open>The aggregate\<close>

definition applyPlanToAggregate :: "subscription_plan \<Rightarrow> subscription \<Rightarrow> subscription" where
  "applyPlanToAggregate plan a =
     a\<lparr>sub_Plan := plan_LegacyPlan plan, sub_PlanCode := plan_PlanCode plan,
       sub_CatalogVersion := CurrentSubscriptionCatalogVersion,
       sub_MaxInvoices := quota_of plan QuotaInvoices, sub_MaxCustomers := quota_of plan QuotaCustomers,
       sub_MaxUsers := quota_of plan QuotaUsers, sub_MaxStorageMB := quota_of plan QuotaStorageMB\<rparr>"

definition resetSubscriptionForRenewableRestart :: "instant \<Rightarrow> subscription \<Rightarrow> subscription" where
  "resetSubscriptionForRenewableRestart now a =
     (applyPlanToAggregate (subscriptionPlanForCode ''free'') a)
       \<lparr>sub_BillingMode := BillingModeFree, sub_ProviderMode := [], sub_ProviderCustomerID := [],
        sub_ProviderSubscriptionID := [], sub_ProviderPlanID := [], sub_StartDate := now, sub_EndDate := None,
        sub_NextBillingDate := None, sub_PeriodStart := None, sub_PeriodEnd := None, sub_NextRenewalAt := None,
        sub_GraceDeadline := None, sub_CancelAtPeriodEnd := False, sub_CancellationEffectiveAt := None,
        sub_CancelledAt := None, sub_PendingPlanID := [], sub_PendingProviderPlanID := [],
        sub_PendingPlanEffectiveAt := None, sub_LastProviderEventAt := None, sub_LastProviderPaidCount := 0,
        sub_ReconciliationCode := []\<rparr>"

definition subscriptionHasCurrentPaidAccess :: "subscription \<Rightarrow> instant \<Rightarrow> bool" where
  "subscriptionHasCurrentPaidAccess s now =
     (let end = (case sub_PeriodEnd s of None \<Rightarrow> sub_EndDate s | Some e \<Rightarrow> Some e)
      in end = None \<or> after_opt end now)"

definition lifecycleAudit :: "subscription \<Rightarrow> string \<Rightarrow> string \<Rightarrow> string \<Rightarrow> string \<Rightarrow> string \<Rightarrow> instant \<Rightarrow> audit_record tx" where
  "lifecycleAudit s action fromStatus toStatus code providerEventID occurredAt =
     tx_bind new_uuid (\<lambda>u. tx_return
       \<lparr>au_ID = u, au_BusinessID = sub_BusinessID s, au_SubscriptionID = sub_ID s, au_ActorUserID = [],
        au_Action = action, au_FromStatus = fromStatus, au_ToStatus = toStatus, au_FromPlanID = [],
        au_ToPlanID = currentCatalogPlanID s, au_ProviderMode = sub_ProviderMode s,
        au_ProviderEventID = providerEventID, au_SanitizedCode = code, au_OccurredAt = occurredAt\<rparr>)"

text \<open>\<open>CreateAudit\<close> of the record that the handlers of a user's command build in place.\<close>

definition command_audit where
  "command_audit businessID subscriptionID actor action fromStatus toStatus fromPlan toPlan mode code occurredAt =
     tx_bind new_uuid (\<lambda>u. CreateAudit
       \<lparr>au_ID = u, au_BusinessID = businessID, au_SubscriptionID = subscriptionID, au_ActorUserID = actor,
        au_Action = action, au_FromStatus = fromStatus, au_ToStatus = toStatus, au_FromPlanID = fromPlan,
        au_ToPlanID = toPlan, au_ProviderMode = mode, au_ProviderEventID = [], au_SanitizedCode = code,
        au_OccurredAt = occurredAt\<rparr>)"

text \<open>\<open>validateProviderSubscriptionIdentity\<close> and \<open>validateProviderSubscriptionPlan\<close>: a code, empty when valid.\<close>

definition validateProviderSubscriptionIdentity :: "subscription \<Rightarrow> rz_subscription \<Rightarrow> provider_settings \<Rightarrow> string" where
  "validateProviderSubscriptionIdentity a p st =
     (if sub_ProviderMode a \<noteq> ps_ProviderMode st then ''provider_mode_mismatch''
      else if rz_ID p \<noteq> sub_ProviderSubscriptionID a then ''provider_subscription_mismatch''
      else if note_of p ''provider_mode'' \<noteq> sub_ProviderMode a then ''provider_mode_mismatch''
      else if note_of p ''business_id'' \<noteq> sub_BusinessID a \<or> note_of p ''subscription_id'' \<noteq> sub_ID a
      then ''tenant_metadata_mismatch''
      else [])"

definition validateProviderSubscriptionPlan :: "subscription \<Rightarrow> rz_subscription \<Rightarrow> string" where
  "validateProviderSubscriptionPlan a p =
     (if rz_PlanID p \<noteq> sub_ProviderPlanID a \<and> rz_PlanID p \<noteq> sub_PendingProviderPlanID a
      then ''provider_plan_mismatch'' else [])"

definition validateProviderSubscriptionMetadata :: "subscription \<Rightarrow> rz_subscription \<Rightarrow> provider_settings \<Rightarrow> string" where
  "validateProviderSubscriptionMetadata a p st =
     (let code = validateProviderSubscriptionIdentity a p st
      in if code \<noteq> [] then code else validateProviderSubscriptionPlan a p)"

definition validatePaidPeriodAdvance :: "subscription \<Rightarrow> rz_subscription \<Rightarrow> instant \<Rightarrow> string" where
  "validatePaidPeriodAdvance a p start =
     (if sub_LastProviderPaidCount a > 0 \<and> sub_PendingProviderPlanID a = rz_PlanID p \<and>
         sub_PendingPlanEffectiveAt a \<noteq> Some start
      then ''pending_plan_boundary_mismatch''
      else if sub_LastProviderPaidCount a > 0 \<and> sub_PeriodEnd a \<noteq> Some start
      then ''provider_period_not_monotonic''
      else [])"

text \<open>The fields a verified charge or reconciliation writes, after \<open>applyPlanToAggregate\<close>.\<close>

definition clear_pending_plan :: "rz_subscription \<Rightarrow> subscription \<Rightarrow> subscription" where
  "clear_pending_plan p a =
     (if sub_PendingProviderPlanID a = rz_PlanID p
      then a\<lparr>sub_PendingPlanID := [], sub_PendingProviderPlanID := [], sub_PendingPlanEffectiveAt := None\<rparr> else a)"

definition paid_period :: "subscription_plan \<Rightarrow> rz_subscription \<Rightarrow> instant \<Rightarrow> instant \<Rightarrow> subscription \<Rightarrow> subscription" where
  "paid_period plan p start end a =
     clear_pending_plan p ((applyPlanToAggregate plan a)
       \<lparr>sub_Status := StatusActive, sub_ProviderPlanID := rz_PlanID p, sub_ProviderCustomerID := rz_CustomerID p,
        sub_PeriodStart := Some start, sub_PeriodEnd := Some end, sub_NextRenewalAt := Some end,
        sub_StartDate := start, sub_EndDate := Some end, sub_NextBillingDate := Some end,
        sub_GraceDeadline := None, sub_LastProviderPaidCount := rz_PaidCount p\<rparr>)"

section \<open>Provider events\<close>

text \<open>
  The decision of \<open>applySubscriptionEventTx\<close> before it touches the database: ignore the
  event, refuse it with a code, or a changed aggregate and perhaps a billing record.
\<close>

datatype event_effect =
    EventIgnored string
  | EventRefused string lifecycle_error
  | EventApplied subscription "billing_record option"

definition charged_effect :: "subscription \<Rightarrow> rz_event \<Rightarrow> rz_subscription \<Rightarrow> string \<Rightarrow> instant \<Rightarrow> provider_settings \<Rightarrow> event_effect" where
  "charged_effect a ev p providerEventID occurredAt st =
     (if sub_Status a = StatusCancellationScheduled
      then EventRefused ''cancellation_charge_race'' ErrSubscriptionProviderUnknown
      else case we_Payment ev of
        None \<Rightarrow> EventRefused ''charged_payment_missing'' ErrSubscriptionProviderUnknown
      | Some payment \<Rightarrow>
          (case planForProviderID (rz_PlanID p) (ps_ProviderPlanIDs st) of
             None \<Rightarrow> EventRefused ''charged_count_or_plan_mismatch'' ErrSubscriptionProviderUnknown
           | Some plan \<Rightarrow>
               if rz_PaidCount p \<le> sub_LastProviderPaidCount a
               then EventRefused ''charged_count_or_plan_mismatch'' ErrSubscriptionProviderUnknown
               else if rp_Amount payment \<noteq> plan_Amount plan \<or> \<not> EqualFold (rp_Currency payment) (plan_Currency plan) \<or>
                 (\<not> rp_Captured payment \<and> \<not> EqualFold (rp_Status payment) ''captured'')
               then EventRefused ''charged_amount_or_status_mismatch'' ErrSubscriptionProviderUnknown
               else if rz_CurrentStart p \<le> 0 \<or> rz_CurrentEnd p \<le> rz_CurrentStart p
               then EventRefused ''provider_period_invalid'' ErrSubscriptionProviderUnknown
               else
                 let start = Unix (rz_CurrentStart p); end = Unix (rz_CurrentEnd p);
                     code = validatePaidPeriodAdvance a p start
                 in if code \<noteq> [] then EventRefused code ErrSubscriptionProviderUnknown
                    else
                      let a' = (paid_period plan p start end a)\<lparr>sub_BillingMode := BillingModeRenewable, sub_ReconciliationCode := []\<rparr>
                      in EventApplied a' (Some
                        \<lparr>br_ID = [], br_BusinessID = sub_BusinessID a, br_SubscriptionID = sub_ID a,
                         br_ProviderMode = sub_ProviderMode a, br_ProviderEventID = providerEventID,
                         br_ProviderInvoiceID = rp_InvoiceID payment, br_ProviderPaymentID = rp_ID payment,
                         br_AmountMinor = rp_Amount payment, br_Currency = ToUpper (rp_Currency payment), br_Status = ''paid'',
                         br_ReceiptReference = billingReceiptReference (sub_BusinessID a) providerEventID,
                         br_PeriodStart = Some start, br_PeriodEnd = Some end, br_QuotaPeriodStart = Some start,
                         br_QuotaPeriodEnd = Some end, br_OccurredAt = occurredAt\<rparr>)))"

definition subscription_event_effect :: "lifecycle_config \<Rightarrow> subscription \<Rightarrow> rz_event \<Rightarrow> rz_subscription \<Rightarrow> string \<Rightarrow> instant \<Rightarrow> provider_settings \<Rightarrow> event_effect" where
  "subscription_event_effect cfg a ev p providerEventID occurredAt st =
     (let e = we_Event ev;
          terminal = (sub_Status a = StatusCancelled \<or> sub_Status a = StatusExpired)
      in if terminal \<and> e \<noteq> ''subscription.cancelled'' \<and> e \<noteq> ''subscription.completed''
         then EventIgnored ''terminal_event_ignored''
         else if e = ''subscription.activated'' then EventApplied (a\<lparr>sub_Status := StatusRenewalPending\<rparr>) None
         else if e = ''subscription.charged'' then charged_effect a ev p providerEventID occurredAt st
         else if e = ''subscription.pending'' then
           (let base = (case sub_PeriodEnd a of Some pe \<Rightarrow> if pe > occurredAt then pe else occurredAt | None \<Rightarrow> occurredAt)
            in EventApplied (a\<lparr>sub_Status := StatusPastDue, sub_GraceDeadline := Some (base + lc_GracePeriod cfg)\<rparr>) None)
         else if e = ''subscription.halted'' \<or> e = ''subscription.paused'' then EventApplied (a\<lparr>sub_Status := StatusSuspended\<rparr>) None
         else if e = ''subscription.cancelled'' then
           EventApplied (a\<lparr>sub_Status := StatusCancelled, sub_CancelAtPeriodEnd := False, sub_CancellationEffectiveAt := None,
                           sub_CancelledAt := Some occurredAt\<rparr>) None
         else if e = ''subscription.completed'' \<or> e = ''subscription.expired'' then EventApplied (a\<lparr>sub_Status := StatusExpired\<rparr>) None
         else if e = ''subscription.updated'' then
           EventApplied (if sub_PendingPlanID a \<noteq> [] then a\<lparr>sub_Status := StatusRenewalPending\<rparr> else a) None
         else EventRefused ''unsupported_subscription_event'' (ErrMessage ''unsupported subscription event''))"

text \<open>The aggregate as saved: the event's time, and the provider's period for every event but a charge.\<close>

definition after_event :: "rz_event \<Rightarrow> rz_subscription \<Rightarrow> instant \<Rightarrow> subscription \<Rightarrow> subscription" where
  "after_event ev p occurredAt a =
     (let a1 = a\<lparr>sub_LastProviderEventAt := Some occurredAt\<rparr>
      in if rz_CurrentStart p > 0 \<and> rz_CurrentEnd p > rz_CurrentStart p \<and> we_Event ev \<noteq> ''subscription.charged''
         then a1\<lparr>sub_PeriodStart := Some (Unix (rz_CurrentStart p)), sub_PeriodEnd := Some (Unix (rz_CurrentEnd p))\<rparr>
         else a1)"

definition create_billing :: "billing_record option \<Rightarrow> unit tx" where
  "create_billing b = (case b of None \<Rightarrow> tx_return () | Some r \<Rightarrow> tx_bind new_uuid (\<lambda>u. CreateBillingRecord (r\<lparr>br_ID := u\<rparr>)))"

text \<open>
  \<open>applySubscriptionEventTx\<close>: the code, the error and the aggregate as the function leaves
  it (a pointer in the source, so its changes are visible to the caller).
\<close>

definition applySubscriptionEventTx :: "lifecycle_config \<Rightarrow> subscription \<Rightarrow> rz_event \<Rightarrow> rz_subscription \<Rightarrow> string \<Rightarrow> instant \<Rightarrow> provider_settings
    \<Rightarrow> lifedb \<Rightarrow> (string \<times> lifecycle_error option \<times> subscription) \<times> lifedb" where
  "applySubscriptionEventTx cfg a ev p providerEventID occurredAt st s =
     (case subscription_event_effect cfg a ev p providerEventID occurredAt st of
        EventIgnored code \<Rightarrow> ((code, None, a), s)
      | EventRefused code e \<Rightarrow> ((code, Some e, a), s)
      | EventApplied a1 billing \<Rightarrow>
          (case create_billing billing s of
             (Inl e, s1) \<Rightarrow> ((''billing_record_failed'', Some e, a1), s1)
           | (Inr _, s1) \<Rightarrow>
               let a2 = after_event ev p occurredAt a1
               in case SaveSubscription a2 s1 of
                    (Inl e, s2) \<Rightarrow> ((''subscription_persistence_failed'', Some e, a2), s2)
                  | (Inr a3, s2) \<Rightarrow>
                      (case tx_bind new_uuid (\<lambda>u. CreateAudit
                         \<lparr>au_ID = u, au_BusinessID = sub_BusinessID a3, au_SubscriptionID = sub_ID a3, au_ActorUserID = [],
                          au_Action = we_Event ev, au_FromStatus = sub_Status a, au_ToStatus = sub_Status a3,
                          au_FromPlanID = currentCatalogPlanID a, au_ToPlanID = currentCatalogPlanID a3,
                          au_ProviderMode = sub_ProviderMode a3, au_ProviderEventID = providerEventID,
                          au_SanitizedCode = ''provider_event_applied'', au_OccurredAt = occurredAt\<rparr>) s2 of
                         (Inl e, s3) \<Rightarrow> ((''audit_persistence_failed'', Some e, a3), s3)
                       | (Inr _, s3) \<Rightarrow> (([], None, a3), s3))))"

definition subscriptionEventIsStale :: "subscription \<Rightarrow> rz_event \<Rightarrow> instant \<Rightarrow> bool" where
  "subscriptionEventIsStale a ev occurredAt =
     (case sub_LastProviderEventAt a of
        None \<Rightarrow> False
      | Some lastAt \<Rightarrow>
          if occurredAt < lastAt then True
          else if occurredAt > lastAt then False
          else if we_Event ev = ''subscription.charged''
          then (case we_Subscription ev of None \<Rightarrow> True | Some p \<Rightarrow> rz_PaidCount p \<le> sub_LastProviderPaidCount a)
          else if we_Event ev \<in> {''subscription.cancelled'', ''subscription.completed'', ''subscription.expired''} then False
          else True)"

definition subscriptionWebhookDomainError :: "string \<Rightarrow> lifecycle_error option" where
  "subscriptionWebhookDomainError status =
     (if status = ''reconciliation_required'' then Some ErrSubscriptionProviderUnknown
      else if status = ''rejected'' then Some ErrSubscriptionWebhookRejected
      else None)"

record webhook_result =
  wr_Status :: string
  wr_Duplicate :: bool
  wr_Code :: string

definition mark_reconciliation :: "string \<Rightarrow> subscription \<Rightarrow> subscription" where
  "mark_reconciliation code a = a\<lparr>sub_Status := StatusReconciliationRequired, sub_ReconciliationCode := code\<rparr>"

definition recordSubscriptionEventReplayTx :: "inbox_event \<Rightarrow> string \<Rightarrow> string \<Rightarrow> instant \<Rightarrow> (webhook_result \<times> lifecycle_error option) tx" where
  "recordSubscriptionEventReplayTx existing payloadHash providerEventID receivedAt =
     (let ex1 = existing\<lparr>ev_ReplayCount := ev_ReplayCount existing + 1, ev_LastReplayedAt := Some receivedAt\<rparr>
      in if ev_PayloadHash existing = payloadHash
         then tx_bind (SaveEvent ex1) (\<lambda>_. tx_return
                (\<lparr>wr_Status = ev_ProcessingStatus existing, wr_Duplicate = True, wr_Code = ev_SanitizedErrorCode existing\<rparr>,
                 subscriptionWebhookDomainError (ev_ProcessingStatus existing)))
         else
           let code = ''replay_payload_mismatch'';
               ex2 = ex1\<lparr>ev_ProcessingStatus := ''reconciliation_required'', ev_SanitizedErrorCode := code\<rparr>;
               result = (\<lparr>wr_Status = ''reconciliation_required'', wr_Duplicate = True, wr_Code = code\<rparr>,
                         Some ErrSubscriptionProviderUnknown)
           in if ev_BusinessID existing = [] then tx_bind (SaveEvent ex2) (\<lambda>_. tx_return result)
              else tx_bind (tx_try (GetByBusinessIDForUpdate (ev_BusinessID existing))) (\<lambda>r. case r of
                Inl _ \<Rightarrow> tx_bind (SaveEvent ex2) (\<lambda>_. tx_return result)
              | Inr current \<Rightarrow>
                  tx_bind (SaveSubscription (mark_reconciliation code current)) (\<lambda>current'.
                  tx_bind (lifecycleAudit current' ''provider_event_replay_mismatch'' (sub_Status current) (sub_Status current')
                             code providerEventID receivedAt) (\<lambda>a.
                  tx_bind (CreateAudit a) (\<lambda>_.
                  tx_bind (SaveEvent ex2) (\<lambda>_. tx_return result))))))"

section \<open>Webhooks\<close>

text \<open>The rejection of an event against its aggregate: save both, audit, and report.\<close>

definition reject_event :: "subscription \<Rightarrow> string \<Rightarrow> inbox_event \<Rightarrow> string \<Rightarrow> string \<Rightarrow> instant \<Rightarrow> (webhook_result \<times> lifecycle_error option) tx" where
  "reject_event a fromStatus inbox code providerEventID occurredAt =
     tx_bind (SaveSubscription (mark_reconciliation code a)) (\<lambda>a'.
     tx_bind (lifecycleAudit a' ''provider_event_rejected'' fromStatus (sub_Status a') code providerEventID occurredAt) (\<lambda>au.
     tx_bind (CreateAudit au) (\<lambda>_.
     tx_bind (SaveEvent (inbox\<lparr>ev_ProcessingStatus := ''reconciliation_required'', ev_SanitizedErrorCode := code\<rparr>)) (\<lambda>_.
     tx_return (\<lparr>wr_Status = ''reconciliation_required'', wr_Duplicate = False, wr_Code = code\<rparr>, Some ErrSubscriptionProviderUnknown)))))"

definition finish_event :: "inbox_event \<Rightarrow> string \<Rightarrow> (webhook_result \<times> lifecycle_error option) tx" where
  "finish_event inbox code s =
     tx_bind (SaveEvent (inbox\<lparr>ev_ProcessingStatus := ''processed'', ev_SanitizedErrorCode := code, ev_ProcessedAt := Some (db_wall s)\<rparr>))
       (\<lambda>_. tx_return (\<lparr>wr_Status = ''processed'', wr_Duplicate = False, wr_Code = code\<rparr>, None)) s"

definition load_aggregate :: "provider_settings \<Rightarrow> rz_subscription \<Rightarrow> subscription tx" where
  "load_aggregate st p =
     tx_bind (tx_try (GetByProviderIDForUpdate (ps_ProviderMode st) (rz_ID p))) (\<lambda>r. case r of
       Inl ErrSubscriptionLifecycleNotFound \<Rightarrow>
         let businessID = TrimSpace (note_of p ''business_id'')
         in if businessID \<noteq> [] then GetByBusinessIDForUpdate businessID else tx_fail ErrSubscriptionLifecycleNotFound
     | Inl e \<Rightarrow> tx_fail e
     | Inr a \<Rightarrow> tx_return a)"

text \<open>The part of the webhook transaction after the inbox row exists and the aggregate is loaded.\<close>

definition process_event :: "lifecycle_config \<Rightarrow> provider_settings \<Rightarrow> rz_event \<Rightarrow> rz_subscription \<Rightarrow> subscription \<Rightarrow> inbox_event \<Rightarrow> string \<Rightarrow> instant
    \<Rightarrow> (webhook_result \<times> lifecycle_error option) tx" where
  "process_event cfg st ev p a inbox providerEventID occurredAt =
     (let code = validateProviderSubscriptionIdentity a p st
      in if code \<noteq> [] then reject_event a (sub_Status a) inbox code providerEventID occurredAt
         else if subscriptionEventIsStale a ev occurredAt then finish_event inbox ''stale_event_ignored''
         else let code = validateProviderSubscriptionPlan a p
         in if code \<noteq> [] then reject_event a (sub_Status a) inbox code providerEventID occurredAt
            else (\<lambda>s. case applySubscriptionEventTx cfg a ev p providerEventID occurredAt st s of
                    ((code, Some _, a'), s1) \<Rightarrow> reject_event a' (sub_Status a') inbox code providerEventID occurredAt s1
                  | ((code, None, _), s1) \<Rightarrow> finish_event inbox code s1))"

definition reject_unsupported :: "inbox_event \<Rightarrow> (webhook_result \<times> lifecycle_error option) tx" where
  "reject_unsupported inbox =
     tx_bind (SaveEvent (inbox\<lparr>ev_ProcessingStatus := ''rejected'', ev_SanitizedErrorCode := ''unsupported_subscription_event''\<rparr>))
       (\<lambda>_. tx_return (\<lparr>wr_Status = ''rejected'', wr_Duplicate = False, wr_Code = ''unsupported_subscription_event''\<rparr>,
                       Some ErrSubscriptionWebhookRejected))"

definition new_inbox :: "provider_settings \<Rightarrow> rz_event \<Rightarrow> string \<Rightarrow> string \<Rightarrow> instant \<Rightarrow> instant \<Rightarrow> string \<Rightarrow> inbox_event" where
  "new_inbox st ev providerEventID payloadHash receivedAt occurredAt u =
     \<lparr>ev_ID = u, ev_RazorpayEventID = providerEventID, ev_ProviderMode = ps_ProviderMode st,
      ev_EventType = we_Event ev, ev_PayloadHash = payloadHash, ev_SignatureVerified = True,
      ev_ReceivedAt = receivedAt, ev_ProviderOccurredAt = Some occurredAt, ev_ProcessingStatus = ''processing'',
      ev_AttemptCount = 1, ev_SanitizedErrorCode = [], ev_ProcessedAt = None, ev_BusinessID = [],
      ev_SubscriptionID = [], ev_ReplayCount = 0, ev_LastReplayedAt = None\<rparr>"

text \<open>The webhook transaction from the created inbox row on.\<close>

definition dispatch_event :: "lifecycle_config \<Rightarrow> provider_settings \<Rightarrow> rz_event \<Rightarrow> inbox_event \<Rightarrow> string \<Rightarrow> instant
    \<Rightarrow> (webhook_result \<times> lifecycle_error option) tx" where
  "dispatch_event cfg st ev inbox providerEventID occurredAt =
     (case we_Subscription ev of
        None \<Rightarrow> reject_unsupported inbox
      | Some p \<Rightarrow>
          if \<not> HasPrefix (we_Event ev) ''subscription.'' then reject_unsupported inbox
          else tx_bind (tx_try (load_aggregate st p)) (\<lambda>r. case r of
            Inl _ \<Rightarrow>
              tx_bind (SaveEvent (inbox\<lparr>ev_ProcessingStatus := ''reconciliation_required'', ev_SanitizedErrorCode := ''subscription_unresolved''\<rparr>))
                (\<lambda>_. tx_return (\<lparr>wr_Status = ''reconciliation_required'', wr_Duplicate = False, wr_Code = ''subscription_unresolved''\<rparr>,
                                Some ErrSubscriptionProviderUnknown))
          | Inr a \<Rightarrow>
              process_event cfg st ev p a (inbox\<lparr>ev_BusinessID := sub_BusinessID a, ev_SubscriptionID := sub_ID a\<rparr>)
                providerEventID occurredAt))"

definition webhook_tx :: "lifecycle_config \<Rightarrow> provider_settings \<Rightarrow> rz_event \<Rightarrow> string \<Rightarrow> string \<Rightarrow> instant \<Rightarrow> instant
    \<Rightarrow> (webhook_result \<times> lifecycle_error option) tx" where
  "webhook_tx cfg st ev providerEventID payloadHash receivedAt occurredAt =
     tx_bind (tx_try (GetEventForUpdate (ps_ProviderMode st) providerEventID)) (\<lambda>r. case r of
       Inr existing \<Rightarrow> recordSubscriptionEventReplayTx existing payloadHash providerEventID receivedAt
     | Inl e \<Rightarrow>
         if e \<noteq> ErrRazorpayEventNotFound then tx_fail e
         else tx_bind new_uuid (\<lambda>u.
           let inbox = new_inbox st ev providerEventID payloadHash receivedAt occurredAt u
           in tx_bind (CreateEvent inbox) (\<lambda>_. dispatch_event cfg st ev inbox providerEventID occurredAt)))"

text \<open>The inbox record of a delivery that was not accepted, or the count of its repetition.\<close>

definition record_rejected_delivery :: "string \<Rightarrow> string \<Rightarrow> string \<Rightarrow> string \<Rightarrow> bool \<Rightarrow> string \<Rightarrow> instant \<Rightarrow> unit tx" where
  "record_rejected_delivery mode identity eventType payloadHash verified code receivedAt =
     tx_bind (tx_try (GetEventForUpdate mode identity)) (\<lambda>r. case r of
       Inr existing \<Rightarrow> SaveEvent (existing\<lparr>ev_ReplayCount := ev_ReplayCount existing + 1, ev_LastReplayedAt := Some receivedAt\<rparr>)
     | Inl e \<Rightarrow>
         if e \<noteq> ErrRazorpayEventNotFound then tx_fail e
         else tx_bind new_uuid (\<lambda>u. CreateEvent
           \<lparr>ev_ID = u, ev_RazorpayEventID = identity, ev_ProviderMode = mode, ev_EventType = eventType,
            ev_PayloadHash = payloadHash, ev_SignatureVerified = verified, ev_ReceivedAt = receivedAt,
            ev_ProviderOccurredAt = None, ev_ProcessingStatus = ''rejected'', ev_AttemptCount = 0,
            ev_SanitizedErrorCode = code, ev_ProcessedAt = None, ev_BusinessID = [], ev_SubscriptionID = [],
            ev_ReplayCount = 0, ev_LastReplayedAt = None\<rparr>))"

text \<open>\<open>parsed\<close> is what \<open>ParseWebhookEvent\<close> makes of the body: \<open>None\<close> for an error.\<close>

definition HandleWebhook :: "lifecycle_config \<Rightarrow> lifecycle_error + provider_settings \<Rightarrow> string \<Rightarrow> string \<Rightarrow> u8 list \<Rightarrow> rz_event option
    \<Rightarrow> (webhook_result \<times> lifecycle_error option) tx" where
  "HandleWebhook cfg resolved signature eventID rawBody parsed s =
     (case resolved of
        Inl e \<Rightarrow> (Inl e, s)
      | Inr st \<Rightarrow>
          let receivedAt = db_wall s;
              payloadHash = sha256Hex rawBody;
              providerEventID = TrimSpace eventID
          in if providerEventID = [] then (Inl (ErrMessage ''missing Razorpay event identity''), s)
             else if TrimSpace (ps_WebhookSecret st) = [] \<or> \<not> VerifyRazorpayWebhook rawBody signature (ps_WebhookSecret st)
             then (Inl ErrInvalidSubscriptionWebhookSignature,
                   snd (Transaction (record_rejected_delivery ''unverified'' (''unverified:'' @ sha256Hex (string_bytes providerEventID))
                          ''unverified'' payloadHash False ''invalid_signature'' receivedAt) s))
             else case parsed of
               None \<Rightarrow>
                 (Inl (ErrMessage ''invalid subscription webhook''),
                  snd (Transaction (record_rejected_delivery (ps_ProviderMode st) providerEventID ''invalid'' payloadHash True
                         ''invalid_payload'' receivedAt) s))
             | Some ev \<Rightarrow>
                 let occurredAt = (if we_CreatedAtEpoch ev > 0 then Unix (we_CreatedAtEpoch ev) else receivedAt)
                 in case Transaction (webhook_tx cfg st ev providerEventID payloadHash receivedAt occurredAt) s of
                      (Inl ErrRazorpayEventAlreadyExists, s1) \<Rightarrow>
                        Transaction (tx_bind (GetEventForUpdate (ps_ProviderMode st) providerEventID)
                          (\<lambda>existing. recordSubscriptionEventReplayTx existing payloadHash providerEventID receivedAt)) s1
                    | out \<Rightarrow> out)"

section \<open>Commands\<close>

abbreviation subscriptionCommandStart :: string where "subscriptionCommandStart \<equiv> ''start_renewable''"
abbreviation subscriptionCommandPlanChange :: string where "subscriptionCommandPlanChange \<equiv> ''schedule_plan_change''"
abbreviation subscriptionCommandCancellation :: string where "subscriptionCommandCancellation \<equiv> ''schedule_cancellation''"

record checkout_response =
  co_SubscriptionID :: string
  co_Status :: string
  co_BillingMode :: string
  co_PendingPlanID :: string
  co_AuthorizationURL :: string

record mutation_response =
  mr_SubscriptionID :: string
  mr_Status :: string
  mr_PlanID :: string
  mr_PendingPlanID :: string
  mr_EffectiveAt :: "instant option"
  mr_CancelAtPeriodEnd :: bool
  mr_ReconciliationRequired :: bool

definition checkoutResponse :: "subscription \<Rightarrow> string \<Rightarrow> checkout_response" where
  "checkoutResponse s url =
     \<lparr>co_SubscriptionID = sub_ID s, co_Status = sub_Status s, co_BillingMode = sub_BillingMode s,
      co_PendingPlanID = sub_PendingPlanID s, co_AuthorizationURL = url\<rparr>"

definition checkoutResponseFromCommand :: "command \<Rightarrow> checkout_response" where
  "checkoutResponseFromCommand c =
     \<lparr>co_SubscriptionID = cmd_SubscriptionID c, co_Status = cmd_ResponseStatus c, co_BillingMode = cmd_ResponseBillingMode c,
      co_PendingPlanID = cmd_ResponsePendingPlanID c, co_AuthorizationURL = cmd_ResponseAuthorizationURL c\<rparr>"

definition firstTime :: "instant option list \<Rightarrow> instant option" where
  "firstTime ts = (case find (\<lambda>t. t \<noteq> None) ts of Some t \<Rightarrow> t | None \<Rightarrow> None)"

definition mutationResponse :: "subscription \<Rightarrow> mutation_response" where
  "mutationResponse s =
     \<lparr>mr_SubscriptionID = sub_ID s, mr_Status = sub_Status s, mr_PlanID = currentCatalogPlanID s,
      mr_PendingPlanID = sub_PendingPlanID s,
      mr_EffectiveAt = firstTime [sub_PendingPlanEffectiveAt s, sub_CancellationEffectiveAt s],
      mr_CancelAtPeriodEnd = sub_CancelAtPeriodEnd s,
      mr_ReconciliationRequired = (sub_Status s = StatusReconciliationRequired)\<rparr>"

text \<open>The scope checks every command makes on its key, tenant and actor; the result is the trimmed key.\<close>

definition command_key :: "string \<Rightarrow> string \<Rightarrow> string \<Rightarrow> string option" where
  "command_key businessID actor key =
     (let k = TrimSpace key
      in if k = [] \<or> length k > 180 \<or> TrimSpace businessID = [] \<or> TrimSpace actor = [] then None else Some k)"

text \<open>What an existing command with the same key means for a repeated request.\<close>

definition replay_error :: "command \<Rightarrow> string \<Rightarrow> lifecycle_error option" where
  "replay_error c requestHash =
     (if cmd_RequestHash c \<noteq> requestHash then Some ErrSubscriptionIdempotencyConflict
      else if cmd_Status c = ''rejected'' then Some ErrSubscriptionProviderRejected
      else if cmd_Status c \<noteq> ''completed'' then Some ErrSubscriptionProviderUnknown
      else None)"

definition new_command :: "string \<Rightarrow> string \<Rightarrow> string \<Rightarrow> string \<Rightarrow> string \<Rightarrow> string \<Rightarrow> unit tx" where
  "new_command businessID subscriptionID actor action key requestHash =
     tx_bind new_uuid (\<lambda>u. CreateCommand
       \<lparr>cmd_ID = u, cmd_BusinessID = businessID, cmd_SubscriptionID = subscriptionID, cmd_ActorUserID = actor,
        cmd_Action = action, cmd_IdempotencyKey = key, cmd_RequestHash = requestHash, cmd_Status = ''initializing'',
        cmd_SanitizedErrorCode = [], cmd_ResponseStatus = [], cmd_ResponseBillingMode = [],
        cmd_ResponsePendingPlanID = [], cmd_ResponseAuthorizationURL = [], cmd_CompletedAt = None\<rparr>)"

text \<open>What the first transaction of a command leaves: a replayed answer, or work for the provider.\<close>

datatype 'r begun = Replayed 'r | Begun subscription "subscription option"

definition load_initializing :: "string \<Rightarrow> string \<Rightarrow> string \<Rightarrow> string \<Rightarrow> string \<Rightarrow> command tx" where
  "load_initializing businessID actor action key requestHash =
     tx_bind (GetCommandForUpdate businessID actor action key) (\<lambda>c.
       if cmd_RequestHash c \<noteq> requestHash \<or> cmd_Status c \<noteq> ''initializing'' then tx_fail ErrSubscriptionLifecycleConflict
       else tx_return c)"

definition load_same :: "string \<Rightarrow> string \<Rightarrow> subscription tx" where
  "load_same businessID subscriptionID =
     tx_bind (GetByBusinessIDForUpdate businessID) (\<lambda>current.
       if sub_ID current \<noteq> subscriptionID then tx_fail ErrSubscriptionLifecycleConflict else tx_return current)"

definition completeCommand :: "string \<Rightarrow> string \<Rightarrow> string \<Rightarrow> string \<Rightarrow> string \<Rightarrow> unit tx" where
  "completeCommand businessID actor action key requestHash s =
     Transaction (tx_bind (load_initializing businessID actor action key requestHash) (\<lambda>c.
       SaveCommand (c\<lparr>cmd_Status := ''completed'', cmd_CompletedAt := Some (db_wall s)\<rparr>))) s"

text \<open>The command, if it is found, is marked; an error of the query is left for the next statement to meet.\<close>

definition mark_command :: "string \<Rightarrow> string \<Rightarrow> string \<Rightarrow> string \<Rightarrow> string \<Rightarrow> unit tx" where
  "mark_command businessID actor action key code =
     tx_bind (tx_try (GetCommandForUpdate businessID actor action key)) (\<lambda>r. case r of
       Inr c \<Rightarrow> SaveCommand (c\<lparr>cmd_Status := ''reconciliation_required'', cmd_SanitizedErrorCode := code\<rparr>)
     | Inl _ \<Rightarrow> tx_return ())"

definition markCommandUnknown :: "subscription \<Rightarrow> string \<Rightarrow> string \<Rightarrow> string \<Rightarrow> string \<Rightarrow> instant \<Rightarrow> unit tx" where
  "markCommandUnknown aggregate actor action key code occurredAt =
     Transaction (
       tx_bind (load_same (sub_BusinessID aggregate) (sub_ID aggregate)) (\<lambda>current.
       tx_bind (SaveSubscription (mark_reconciliation code current)) (\<lambda>current'.
       tx_bind (mark_command (sub_BusinessID aggregate) actor action key code) (\<lambda>_.
       tx_bind (lifecycleAudit current' action (sub_Status current) (sub_Status current') code [] occurredAt) CreateAudit))))"

definition markUnknownProviderOutcome :: "string \<Rightarrow> string \<Rightarrow> string \<Rightarrow> string \<Rightarrow> instant \<Rightarrow> string \<Rightarrow> unit tx" where
  "markUnknownProviderOutcome subscriptionID businessID actor key occurredAt code =
     Transaction (
       tx_bind (load_same businessID subscriptionID) (\<lambda>current.
       tx_bind (SaveSubscription (mark_reconciliation code current)) (\<lambda>current'.
       tx_bind (mark_command businessID actor subscriptionCommandStart key code) (\<lambda>_.
       command_audit businessID subscriptionID actor subscriptionCommandStart (sub_Status current) (sub_Status current')
         [] (sub_PendingPlanID current') (sub_ProviderMode current') code occurredAt))))"

definition rejectProviderMutation :: "subscription \<Rightarrow> subscription option \<Rightarrow> string \<Rightarrow> string \<Rightarrow> string \<Rightarrow> string \<Rightarrow> string \<Rightarrow> instant \<Rightarrow> unit tx" where
  "rejectProviderMutation aggregate previous actor action key requestHash code occurredAt =
     Transaction (
       tx_bind (load_same (sub_BusinessID aggregate) (sub_ID aggregate)) (\<lambda>current.
       let restored = (case previous of
             Some p \<Rightarrow> p\<lparr>sub_LifecycleVersion := sub_LifecycleVersion current\<rparr>
           | None \<Rightarrow> (resetSubscriptionForRenewableRestart occurredAt current)
                       \<lparr>sub_Status := StatusActive, sub_BillingMode := BillingModeFree\<rparr>)
       in tx_bind (SaveSubscription restored) (\<lambda>restored'.
          tx_bind (load_initializing (sub_BusinessID aggregate) actor action key requestHash) (\<lambda>c.
          tx_bind (SaveCommand (c\<lparr>cmd_Status := ''rejected'', cmd_SanitizedErrorCode := code, cmd_CompletedAt := Some occurredAt\<rparr>)) (\<lambda>_.
          command_audit (sub_BusinessID restored') (sub_ID restored') actor (action @ ''_rejected'') (sub_Status current)
            (sub_Status restored') (currentCatalogPlanID current) (currentCatalogPlanID restored') (sub_ProviderMode current)
            code occurredAt)))))"

definition log_call :: "provider_call \<Rightarrow> lifedb \<Rightarrow> lifedb" where
  "log_call c s = s\<lparr>db_calls := db_calls s @ [c]\<rparr>"

subsection \<open>Starting a renewable subscription\<close>

definition StartRenewable_guard :: "lifecycle_config \<Rightarrow> lifecycle_error + provider_settings \<Rightarrow> string \<Rightarrow> string \<Rightarrow> string \<Rightarrow> string
    \<Rightarrow> lifecycle_error + (provider_settings \<times> subscription_plan \<times> string \<times> string)" where
  "StartRenewable_guard cfg resolved businessID actor planInput keyInput =
     (case resolved of
        Inl e \<Rightarrow> Inl e
      | Inr st \<Rightarrow>
          (case paidSubscriptionPlan (norm_key planInput) of
             None \<Rightarrow> Inl (ErrMessage ''unsupported subscription plan'')
           | Some plan \<Rightarrow>
               let providerPlanID = TrimSpace (plan_id_of st (plan_ID plan))
               in if \<not> validProviderMode (ps_ProviderMode st) \<or> providerPlanID = [] \<or> lc_RepositoryNil cfg \<or> lc_ProviderNil cfg
                  then Inl ErrSubscriptionUnavailable
                  else case command_key businessID actor keyInput of
                         None \<Rightarrow> Inl (ErrMessage ''subscription command scope is invalid'')
                       | Some key \<Rightarrow> Inr (st, plan, providerPlanID, key)))"

text \<open>The subscription a first checkout creates for a business without one.\<close>

definition fresh_subscription :: "string \<Rightarrow> string \<Rightarrow> instant \<Rightarrow> subscription" where
  "fresh_subscription u businessID now =
     (let free = subscriptionPlanForCode ''free'' in
      \<lparr>sub_ID = u, sub_BusinessID = businessID, sub_Plan = plan_LegacyPlan free, sub_PlanCode = plan_PlanCode free,
       sub_CatalogVersion = CurrentSubscriptionCatalogVersion, sub_Status = StatusPendingPayment,
       sub_BillingMode = BillingModeRenewable, sub_ProviderMode = [], sub_ProviderCustomerID = [],
       sub_ProviderSubscriptionID = [], sub_ProviderPlanID = [],
       sub_MaxInvoices = quota_of free QuotaInvoices, sub_MaxCustomers = quota_of free QuotaCustomers,
       sub_MaxUsers = quota_of free QuotaUsers, sub_MaxStorageMB = quota_of free QuotaStorageMB,
       sub_StartDate = now, sub_EndDate = None, sub_NextBillingDate = None, sub_PeriodStart = None, sub_PeriodEnd = None,
       sub_NextRenewalAt = None, sub_GraceDeadline = None, sub_CancelAtPeriodEnd = False,
       sub_CancellationEffectiveAt = None, sub_CancelledAt = None, sub_PendingPlanID = [], sub_PendingProviderPlanID = [],
       sub_PendingPlanEffectiveAt = None, sub_LastProviderEventAt = None, sub_LastProviderPaidCount = 0,
       sub_ReconciliationCode = [], sub_LifecycleVersion = 1, sub_UpdatedAt = 0, sub_DeletedAt = None\<rparr>)"

definition start_blocked :: "subscription \<Rightarrow> instant \<Rightarrow> bool" where
  "start_blocked current now =
     (sub_BillingMode current = BillingModeRenewable \<and> sub_Status current \<noteq> StatusCancelled \<and> sub_Status current \<noteq> StatusExpired \<or>
      sub_Status current \<noteq> StatusCancelled \<and> sub_Status current \<noteq> StatusExpired \<and>
      subscriptionHasCurrentPaidAccess current now \<and> normalizePlanCode (sub_Plan current) (sub_PlanCode current) \<noteq> ''free'')"

definition start_pending :: "provider_settings \<Rightarrow> subscription_plan \<Rightarrow> string \<Rightarrow> subscription \<Rightarrow> subscription" where
  "start_pending st plan providerPlanID a =
     a\<lparr>sub_Status := StatusPendingPayment, sub_BillingMode := BillingModeRenewable, sub_ProviderMode := ps_ProviderMode st,
       sub_ProviderCustomerID := [], sub_ProviderSubscriptionID := [], sub_ProviderPlanID := [],
       sub_PendingPlanID := plan_ID plan, sub_PendingProviderPlanID := providerPlanID, sub_ReconciliationCode := []\<rparr>"

definition StartRenewable_begin :: "provider_settings \<Rightarrow> subscription_plan \<Rightarrow> string \<Rightarrow> string \<Rightarrow> string \<Rightarrow> string \<Rightarrow> string \<Rightarrow> instant
    \<Rightarrow> checkout_response begun tx" where
  "StartRenewable_begin st plan providerPlanID businessID actor key requestHash now =
     Transaction (
       tx_bind (tx_try (GetCommandForUpdate businessID actor subscriptionCommandStart key)) (\<lambda>r. case r of
         Inr c \<Rightarrow>
           (case replay_error c requestHash of
              Some e \<Rightarrow> tx_fail e
            | None \<Rightarrow>
                let resp = checkoutResponseFromCommand c
                in if co_Status resp = [] \<or> co_BillingMode resp = [] \<or> co_PendingPlanID resp = []
                   then tx_fail ErrSubscriptionProviderUnknown else tx_return (Replayed resp))
       | Inl e \<Rightarrow>
           if e \<noteq> ErrSubscriptionCommandNotFound then tx_fail e
           else
             tx_bind (tx_try (GetByBusinessIDForUpdate businessID)) (\<lambda>r.
             tx_bind (case r of
                 Inr current \<Rightarrow>
                   if start_blocked current now then tx_fail ErrSubscriptionLifecycleConflict
                   else tx_bind (SaveSubscription (start_pending st plan providerPlanID (resetSubscriptionForRenewableRestart now current)))
                          (\<lambda>a. tx_return (a, Some current, sub_Status current))
               | Inl e \<Rightarrow>
                   if e \<noteq> ErrSubscriptionLifecycleNotFound then tx_fail e
                   else tx_bind new_uuid (\<lambda>u.
                     let f = fresh_subscription u businessID now
                     in tx_bind (CreateSubscription (start_pending st plan providerPlanID f))
                          (\<lambda>a. tx_return (a, None, sub_Status f)))) (\<lambda>(a, previous, fromStatus).
             tx_bind (new_command businessID (sub_ID a) actor subscriptionCommandStart key requestHash) (\<lambda>_.
             tx_bind (command_audit businessID (sub_ID a) actor subscriptionCommandStart fromStatus (sub_Status a) []
                        (plan_ID plan) (ps_ProviderMode st) ''subscription_start_requested'' now) (\<lambda>_.
             tx_return (Begun a previous)))))))"

definition StartRenewable_commit :: "provider_settings \<Rightarrow> subscription_plan \<Rightarrow> subscription \<Rightarrow> string \<Rightarrow> string \<Rightarrow> string \<Rightarrow> string \<Rightarrow> rz_subscription \<Rightarrow> instant \<Rightarrow> subscription tx" where
  "StartRenewable_commit st plan aggregate businessID actor key requestHash created completed =
     Transaction (
       tx_bind (load_same businessID (sub_ID aggregate)) (\<lambda>current.
       tx_bind (load_initializing businessID actor subscriptionCommandStart key requestHash) (\<lambda>c.
       tx_bind (SaveSubscription (current\<lparr>sub_ProviderSubscriptionID := rz_ID created, sub_ProviderCustomerID := rz_CustomerID created,
                  sub_ProviderPlanID := rz_PlanID created, sub_Status := StatusPendingPayment, sub_ReconciliationCode := []\<rparr>)) (\<lambda>current'.
       tx_bind (SaveCommand (c\<lparr>cmd_Status := ''completed'', cmd_ResponseStatus := StatusPendingPayment,
                  cmd_ResponseBillingMode := BillingModeRenewable, cmd_ResponsePendingPlanID := plan_ID plan,
                  cmd_ResponseAuthorizationURL := rz_ShortURL created, cmd_CompletedAt := Some completed\<rparr>)) (\<lambda>_.
       tx_bind (command_audit businessID (sub_ID current') actor ''provider_subscription_created'' StatusPendingPayment StatusPendingPayment []
                  (plan_ID plan) (ps_ProviderMode st) ''provider_subscription_created'' completed) (\<lambda>_.
       tx_return current'))))))"

definition StartRenewable_finish :: "provider_settings \<Rightarrow> subscription_plan \<Rightarrow> string \<Rightarrow> subscription \<Rightarrow> subscription option \<Rightarrow> string \<Rightarrow> string \<Rightarrow> string
    \<Rightarrow> string \<Rightarrow> instant \<Rightarrow> provider_outcome \<Rightarrow> checkout_response tx" where
  "StartRenewable_finish st plan providerPlanID aggregate previous businessID actor key requestHash now outcome s =
     (let unknown = (\<lambda>code s. (Inl ErrSubscriptionProviderUnknown,
            snd (markUnknownProviderOutcome (sub_ID aggregate) businessID actor key now code s)))
      in case outcome of
        ProviderError status \<Rightarrow>
          if providerMutationRejected status
          then (case rejectProviderMutation aggregate previous actor subscriptionCommandStart key requestHash
                       ''provider_create_rejected'' now s of
                  (Inl _, s1) \<Rightarrow> (Inl ErrSubscriptionMutationInternal, s1)
                | (Inr _, s1) \<Rightarrow> (Inl ErrSubscriptionProviderRejected, s1))
          else unknown ''provider_create_unknown'' s
      | ProviderReturned None \<Rightarrow> unknown ''provider_create_unknown'' s
      | ProviderReturned (Some created) \<Rightarrow>
          if TrimSpace (rz_ID created) = [] \<or> rz_PlanID created \<noteq> providerPlanID then unknown ''provider_create_unknown'' s
          else case StartRenewable_commit st plan aggregate businessID actor key requestHash created (db_wall s) s of
                 (Inl _, s1) \<Rightarrow> unknown ''local_persistence_unknown'' s1
               | (Inr a, s1) \<Rightarrow> (Inr (checkoutResponse a (rz_ShortURL created)), s1))"

definition StartRenewable :: "lifecycle_config \<Rightarrow> lifecycle_error + provider_settings \<Rightarrow> string \<Rightarrow> string \<Rightarrow> string \<Rightarrow> string
    \<Rightarrow> provider_outcome \<Rightarrow> checkout_response tx" where
  "StartRenewable cfg resolved businessID actor planInput keyInput outcome s =
     (case StartRenewable_guard cfg resolved businessID actor planInput keyInput of
        Inl e \<Rightarrow> (Inl e, s)
      | Inr (st, plan, providerPlanID, key) \<Rightarrow>
          let now = db_wall s;
              requestHash = subscriptionCommandHash [businessID, actor, subscriptionCommandStart, key, plan_ID plan]
          in case StartRenewable_begin st plan providerPlanID businessID actor key requestHash now s of
               (Inl e, s1) \<Rightarrow> (Inl e, s1)
             | (Inr (Replayed resp), s1) \<Rightarrow> (Inr resp, s1)
             | (Inr (Begun aggregate previous), s1) \<Rightarrow>
                 StartRenewable_finish st plan providerPlanID aggregate previous businessID actor key requestHash now outcome
                   (log_call (CallCreateSubscription providerPlanID (sub_ID aggregate)) s1))"

subsection \<open>Scheduling a plan change\<close>

text \<open>Only an active, unscheduled renewable subscription of this provider mode may be changed.\<close>

definition mutable_subscription :: "provider_settings \<Rightarrow> subscription \<Rightarrow> bool" where
  "mutable_subscription st c =
     (sub_BillingMode c = BillingModeRenewable \<and> sub_ProviderMode c = ps_ProviderMode st \<and> sub_ProviderSubscriptionID c \<noteq> [] \<and>
      sub_PeriodEnd c \<noteq> None \<and> sub_Status c = StatusActive \<and> \<not> sub_CancelAtPeriodEnd c \<and> sub_PendingPlanID c = [])"

text \<open>
  The shape both scheduling commands share: replay a known command, or check and change
  the subscription, record the command and audit it.
\<close>

definition schedule_begin :: "string \<Rightarrow> string \<Rightarrow> string \<Rightarrow> string \<Rightarrow> string \<Rightarrow> (subscription \<Rightarrow> bool) \<Rightarrow> (subscription \<Rightarrow> subscription)
    \<Rightarrow> (subscription \<Rightarrow> string) \<Rightarrow> string \<Rightarrow> instant \<Rightarrow> subscription begun tx" where
  "schedule_begin businessID actor action key requestHash allowed change toPlan code now =
     Transaction (
       tx_bind (tx_try (GetCommandForUpdate businessID actor action key)) (\<lambda>r. case r of
         Inr c \<Rightarrow>
           (case replay_error c requestHash of
              Some e \<Rightarrow> tx_fail e
            | None \<Rightarrow> tx_bind (GetByBusinessIDForUpdate businessID) (\<lambda>current. tx_return (Replayed current)))
       | Inl e \<Rightarrow>
           if e \<noteq> ErrSubscriptionCommandNotFound then tx_fail e
           else
             tx_bind (GetByBusinessIDForUpdate businessID) (\<lambda>current.
             if \<not> allowed current then tx_fail ErrSubscriptionLifecycleConflict
             else
               tx_bind (SaveSubscription (change current)) (\<lambda>a.
               tx_bind (new_command businessID (sub_ID a) actor action key requestHash) (\<lambda>_.
               tx_bind (command_audit businessID (sub_ID a) actor action (sub_Status current) (sub_Status a)
                          (currentCatalogPlanID a) (toPlan a) (sub_ProviderMode a) code now) (\<lambda>_.
               tx_return (Begun a (Some current))))))))"

definition plan_change_allowed :: "provider_settings \<Rightarrow> string \<Rightarrow> subscription \<Rightarrow> bool" where
  "plan_change_allowed st targetPlanID c = (mutable_subscription st c \<and> currentCatalogPlanID c \<noteq> targetPlanID)"

definition plan_change :: "subscription_plan \<Rightarrow> string \<Rightarrow> subscription \<Rightarrow> subscription" where
  "plan_change plan providerPlanID c =
     c\<lparr>sub_PendingPlanID := plan_ID plan, sub_PendingProviderPlanID := providerPlanID,
       sub_PendingPlanEffectiveAt := sub_PeriodEnd c, sub_Status := StatusRenewalPending\<rparr>"

text \<open>The provider's refusal or an unusable answer, and the closing of the command.\<close>

definition schedule_finish :: "subscription \<Rightarrow> subscription option \<Rightarrow> string \<Rightarrow> string \<Rightarrow> string \<Rightarrow> string \<Rightarrow> string \<Rightarrow> string \<Rightarrow> string \<Rightarrow> instant
    \<Rightarrow> (rz_subscription \<Rightarrow> bool) \<Rightarrow> provider_outcome \<Rightarrow> mutation_response tx" where
  "schedule_finish aggregate previous actor action key requestHash rejectedCode unknownCode persistenceCode now accepted outcome s =
     (let unknown = (\<lambda>code s. (Inl ErrSubscriptionProviderUnknown, snd (markCommandUnknown aggregate actor action key code now s)))
      in case outcome of
        ProviderError status \<Rightarrow>
          if providerMutationRejected status
          then (case rejectProviderMutation aggregate previous actor action key requestHash rejectedCode now s of
                  (Inl _, s1) \<Rightarrow> (Inl ErrSubscriptionMutationInternal, s1)
                | (Inr _, s1) \<Rightarrow> (Inl ErrSubscriptionProviderRejected, s1))
          else unknown unknownCode s
      | ProviderReturned None \<Rightarrow> unknown unknownCode s
      | ProviderReturned (Some updated) \<Rightarrow>
          if \<not> accepted updated then unknown unknownCode s
          else case completeCommand (sub_BusinessID aggregate) actor action key requestHash s of
                 (Inl _, s1) \<Rightarrow> unknown persistenceCode s1
               | (Inr _, s1) \<Rightarrow> (Inr (mutationResponse aggregate), s1))"

definition plan_change_accepted :: "subscription \<Rightarrow> rz_subscription \<Rightarrow> bool" where
  "plan_change_accepted aggregate updated =
     (rz_ID updated = sub_ProviderSubscriptionID aggregate \<and> rz_HasScheduledChanges updated \<and> rz_ScheduleChangeAt updated = ''cycle_end'')"

definition SchedulePlanChange :: "lifecycle_config \<Rightarrow> lifecycle_error + provider_settings \<Rightarrow> string \<Rightarrow> string \<Rightarrow> string \<Rightarrow> string
    \<Rightarrow> provider_outcome \<Rightarrow> mutation_response tx" where
  "SchedulePlanChange cfg resolved businessID actor planInput keyInput outcome s =
     (case resolved of
        Inl e \<Rightarrow> (Inl e, s)
      | Inr st \<Rightarrow>
          let targetPlanID = norm_key planInput;
              providerPlanID = TrimSpace (plan_id_of st targetPlanID)
          in case paidSubscriptionPlan targetPlanID of
               None \<Rightarrow> (Inl (ErrMessage ''unsupported subscription plan''), s)
             | Some plan \<Rightarrow>
                 if providerPlanID = [] \<or> \<not> validProviderMode (ps_ProviderMode st) \<or> lc_ProviderNil cfg \<or> lc_RepositoryNil cfg
                 then (Inl ErrSubscriptionUnavailable, s)
                 else case command_key businessID actor keyInput of
                   None \<Rightarrow> (Inl (ErrMessage ''subscription command scope is invalid''), s)
                 | Some key \<Rightarrow>
                     let now = db_wall s;
                         requestHash = subscriptionCommandHash [businessID, actor, subscriptionCommandPlanChange, key, targetPlanID]
                     in case schedule_begin businessID actor subscriptionCommandPlanChange key requestHash
                               (plan_change_allowed st targetPlanID) (plan_change plan providerPlanID) (\<lambda>_. plan_ID plan)
                               ''plan_change_scheduled'' now s of
                          (Inl e, s1) \<Rightarrow> (Inl e, s1)
                        | (Inr (Replayed current), s1) \<Rightarrow> (Inr (mutationResponse current), s1)
                        | (Inr (Begun aggregate previous), s1) \<Rightarrow>
                            schedule_finish aggregate previous actor subscriptionCommandPlanChange key requestHash
                              ''plan_change_provider_rejected'' ''plan_change_provider_unknown'' ''plan_change_persistence_unknown''
                              now (plan_change_accepted aggregate) outcome
                              (log_call (CallUpdateSubscription (sub_ProviderSubscriptionID aggregate) providerPlanID) s1))"

subsection \<open>Scheduling a cancellation\<close>

definition cancellation_change :: "subscription \<Rightarrow> subscription" where
  "cancellation_change c =
     c\<lparr>sub_Status := StatusCancellationScheduled, sub_CancelAtPeriodEnd := True, sub_CancellationEffectiveAt := sub_PeriodEnd c\<rparr>"

definition finalizeImmediateCancellation :: "subscription \<Rightarrow> string \<Rightarrow> string \<Rightarrow> string \<Rightarrow> subscription tx" where
  "finalizeImmediateCancellation aggregate actor key requestHash s =
     Transaction (
       tx_bind (GetByBusinessIDForUpdate (sub_BusinessID aggregate)) (\<lambda>current.
       if sub_ID current \<noteq> sub_ID aggregate \<or> sub_Status current \<noteq> StatusCancellationScheduled
       then tx_fail ErrSubscriptionLifecycleConflict
       else
         tx_bind (load_initializing (sub_BusinessID aggregate) actor subscriptionCommandCancellation key requestHash) (\<lambda>c.
         tx_bind (SaveSubscription (current\<lparr>sub_Status := StatusCancelled, sub_CancelAtPeriodEnd := False,
                    sub_CancellationEffectiveAt := None, sub_CancelledAt := Some (db_wall s), sub_ReconciliationCode := []\<rparr>)) (\<lambda>current'.
         tx_bind (SaveCommand (c\<lparr>cmd_Status := ''completed'', cmd_CompletedAt := Some (db_wall s)\<rparr>)) (\<lambda>_.
         tx_bind (command_audit (sub_BusinessID current') (sub_ID current') actor ''provider_cancellation_verified'' (sub_Status current)
                    (sub_Status current') (currentCatalogPlanID current') (currentCatalogPlanID current') (sub_ProviderMode current')
                    ''provider_cancellation_verified'' (db_wall s)) (\<lambda>_.
         tx_return current')))))) s"

text \<open>The provider's answer to a cancellation: it may already be in force.\<close>

definition cancellation_finish :: "subscription \<Rightarrow> subscription option \<Rightarrow> string \<Rightarrow> string \<Rightarrow> string \<Rightarrow> instant \<Rightarrow> provider_outcome
    \<Rightarrow> mutation_response tx" where
  "cancellation_finish aggregate previous actor key requestHash now outcome s =
     (let scheduled = schedule_finish aggregate previous actor subscriptionCommandCancellation key requestHash
            ''cancellation_provider_rejected'' ''cancellation_provider_unknown'' ''cancellation_persistence_unknown''
            now (\<lambda>u. rz_ID u = sub_ProviderSubscriptionID aggregate) outcome s
      in case outcome of
           ProviderReturned (Some cancelled) \<Rightarrow>
             if rz_ID cancelled = sub_ProviderSubscriptionID aggregate \<and> EqualFold (rz_Status cancelled) ''cancelled''
             then (case finalizeImmediateCancellation aggregate actor key requestHash s of
                     (Inl _, s1) \<Rightarrow> (Inl ErrSubscriptionProviderUnknown, s1)
                   | (Inr terminal, s1) \<Rightarrow> (Inr (mutationResponse terminal), s1))
             else scheduled
         | _ \<Rightarrow> scheduled)"

definition ScheduleCancellation :: "lifecycle_config \<Rightarrow> lifecycle_error + provider_settings \<Rightarrow> string \<Rightarrow> string \<Rightarrow> string
    \<Rightarrow> provider_outcome \<Rightarrow> mutation_response tx" where
  "ScheduleCancellation cfg resolved businessID actor keyInput outcome s =
     (case resolved of
        Inl e \<Rightarrow> (Inl e, s)
      | Inr st \<Rightarrow>
          (case command_key businessID actor keyInput of
             None \<Rightarrow> (Inl (ErrMessage ''subscription command scope is invalid''), s)
           | Some key \<Rightarrow>
               if lc_ProviderNil cfg \<or> lc_RepositoryNil cfg then (Inl (ErrMessage ''subscription command scope is invalid''), s)
               else
                 let now = db_wall s;
                     requestHash = subscriptionCommandHash [businessID, actor, subscriptionCommandCancellation, key]
                 in case schedule_begin businessID actor subscriptionCommandCancellation key requestHash
                           (mutable_subscription st) cancellation_change currentCatalogPlanID ''cancellation_scheduled'' now s of
                      (Inl e, s1) \<Rightarrow> (Inl e, s1)
                    | (Inr (Replayed current), s1) \<Rightarrow> (Inr (mutationResponse current), s1)
                    | (Inr (Begun aggregate previous), s1) \<Rightarrow>
                        cancellation_finish aggregate previous actor key requestHash now outcome
                          (log_call (CallCancelSubscription (sub_ProviderSubscriptionID aggregate)) s1)))"

section \<open>History and maintenance\<close>

definition history_limit :: "int \<Rightarrow> nat" where
  "history_limit limit = (if limit \<le> 0 \<or> limit > 100 then 50 else nat limit)"

definition BillingHistory :: "lifecycle_config \<Rightarrow> string \<Rightarrow> int \<Rightarrow> billing_record list tx" where
  "BillingHistory cfg businessID limit s =
     (if TrimSpace businessID = [] \<or> lc_RepositoryNil cfg then (Inl (ErrMessage ''subscription scope is invalid''), s)
      else case autocommit (ListBillingRecords businessID (history_limit limit)) s of
             (Inl _, s1) \<Rightarrow> (Inl ErrSubscriptionInternal, s1)
           | (Inr rs, s1) \<Rightarrow> (Inr rs, s1))"

definition AuditHistory :: "lifecycle_config \<Rightarrow> string \<Rightarrow> int \<Rightarrow> audit_record list tx" where
  "AuditHistory cfg businessID limit s =
     (if TrimSpace businessID = [] \<or> lc_RepositoryNil cfg then (Inl (ErrMessage ''subscription scope is invalid''), s)
      else case autocommit (ListAuditRecords businessID (history_limit limit)) s of
             (Inl _, s1) \<Rightarrow> (Inl ErrSubscriptionInternal, s1)
           | (Inr rs, s1) \<Rightarrow> (Inr rs, s1))"

text \<open>The decision of \<open>reconcileProviderState\<close>: the changed aggregate, and the plan when a payment was missed.\<close>

definition reconcile_effect :: "subscription \<Rightarrow> rz_subscription \<Rightarrow> provider_settings \<Rightarrow> instant
    \<Rightarrow> lifecycle_error + (subscription \<times> subscription_plan option)" where
  "reconcile_effect current p st now =
     (if EqualFold (rz_Status p) ''cancelled''
      then Inr (current\<lparr>sub_Status := StatusCancelled, sub_CancelAtPeriodEnd := False, sub_CancellationEffectiveAt := None,
                        sub_CancelledAt := Some now\<rparr>, None)
      else if rz_PaidCount p > sub_LastProviderPaidCount current
      then (case planForProviderID (rz_PlanID p) (ps_ProviderPlanIDs st) of
              None \<Rightarrow> Inl ErrSubscriptionProviderUnknown
            | Some plan \<Rightarrow>
                if rz_CurrentStart p \<le> 0 \<or> rz_CurrentEnd p \<le> rz_CurrentStart p \<or>
                   validatePaidPeriodAdvance current p (Unix (rz_CurrentStart p)) \<noteq> []
                then Inl ErrSubscriptionProviderUnknown
                else Inr (paid_period plan p (Unix (rz_CurrentStart p)) (Unix (rz_CurrentEnd p)) current, Some plan))
      else if rz_HasScheduledChanges p \<and> sub_PendingPlanID current \<noteq> []
      then Inr (current\<lparr>sub_Status := StatusRenewalPending\<rparr>, None)
      else if EqualFold (rz_Status p) ''active'' \<and> sub_CancelAtPeriodEnd current
      then Inr (current\<lparr>sub_Status := StatusCancellationScheduled\<rparr>, None)
      else Inl ErrSubscriptionProviderUnknown)"

text \<open>\<open>fmt.Sprintf("reconciliation:%s:%d", ...)\<close>; decimal digits of the paid count.\<close>

fun decimal :: "nat \<Rightarrow> string" where
  "decimal n = (if n < 10 then [hex_digit n] else decimal (n div 10) @ [hex_digit (n mod 10)])"

definition decimal_int :: "int \<Rightarrow> string" where
  "decimal_int i = (if i < 0 then ''-'' @ decimal (nat (- i)) else decimal (nat i))"

definition reconciliation_billing :: "subscription \<Rightarrow> rz_subscription \<Rightarrow> subscription_plan \<Rightarrow> instant \<Rightarrow> billing_record" where
  "reconciliation_billing a p plan now =
     (let observation = ''reconciliation:'' @ rz_ID p @ '':'' @ decimal_int (rz_PaidCount p);
          start = Unix (rz_CurrentStart p); end = Unix (rz_CurrentEnd p)
      in \<lparr>br_ID = [], br_BusinessID = sub_BusinessID a, br_SubscriptionID = sub_ID a, br_ProviderMode = sub_ProviderMode a,
          br_ProviderEventID = observation, br_ProviderInvoiceID = [], br_ProviderPaymentID = [],
          br_AmountMinor = plan_Amount plan, br_Currency = plan_Currency plan, br_Status = ''provider_verified'',
          br_ReceiptReference = billingReceiptReference (sub_BusinessID a) observation,
          br_PeriodStart = Some start, br_PeriodEnd = Some end, br_QuotaPeriodStart = Some start, br_QuotaPeriodEnd = Some end,
          br_OccurredAt = now\<rparr>)"

definition reconcileProviderState :: "string \<Rightarrow> rz_subscription \<Rightarrow> provider_settings \<Rightarrow> unit tx" where
  "reconcileProviderState businessID p st s =
     Transaction (
       tx_bind (GetByBusinessIDForUpdate businessID) (\<lambda>current.
       if sub_Status current \<noteq> StatusReconciliationRequired then tx_fail ErrSubscriptionLifecycleConflict
       else if validateProviderSubscriptionMetadata current p st \<noteq> [] then tx_fail ErrSubscriptionProviderUnknown
       else case reconcile_effect current p st (db_wall s) of
         Inl e \<Rightarrow> tx_fail e
       | Inr (a, paid) \<Rightarrow>
           tx_bind (create_billing (map_option (\<lambda>plan. reconciliation_billing a p plan (db_wall s)) paid)) (\<lambda>_.
           tx_bind (SaveSubscription (a\<lparr>sub_ReconciliationCode := []\<rparr>)) (\<lambda>a'.
           tx_bind (lifecycleAudit a' ''provider_reconciliation'' (sub_Status current) (sub_Status a') ''provider_state_verified'' [] (db_wall s))
             CreateAudit)))) s"

definition suspendExpiredGrace :: "string \<Rightarrow> unit tx" where
  "suspendExpiredGrace businessID s =
     Transaction (
       tx_bind (GetByBusinessIDForUpdate businessID) (\<lambda>current.
       if sub_GraceDeadline current = None \<or> after_opt (sub_GraceDeadline current) (db_wall s) \<or>
          (sub_Status current \<noteq> StatusPastDue \<and> sub_Status current \<noteq> StatusGracePeriod)
       then tx_fail ErrSubscriptionLifecycleConflict
       else tx_bind (SaveSubscription (current\<lparr>sub_Status := StatusSuspended\<rparr>)) (\<lambda>a.
            tx_bind (lifecycleAudit a ''grace_expired'' (sub_Status current) (sub_Status a) ''grace_period_expired'' [] (db_wall s))
              CreateAudit))) s"

record maintenance_result =
  mn_Reconciled :: nat
  mn_Suspended :: nat
  mn_Failed :: nat

text \<open>
  The two loops of \<open>RunMaintenance\<close>. \<open>fetch i\<close> is the provider's answer to the \<open>i\<close>-th
  query, and \<open>expired i\<close> whether the run's deadline has passed when item \<open>i\<close> starts.
\<close>

fun reconcile_loop :: "(nat \<Rightarrow> bool) \<Rightarrow> (nat \<Rightarrow> rz_subscription option) \<Rightarrow> provider_settings \<Rightarrow> nat \<Rightarrow> subscription list
    \<Rightarrow> maintenance_result \<Rightarrow> lifedb \<Rightarrow> maintenance_result \<times> lifedb" where
  "reconcile_loop expired fetch st i [] r s = (r, s)"
| "reconcile_loop expired fetch st i (d # ds) r s =
     (if expired i then (r\<lparr>mn_Failed := mn_Failed r + length (d # ds)\<rparr>, s)
      else case fetch i of
             None \<Rightarrow> reconcile_loop expired fetch st (Suc i) ds (r\<lparr>mn_Failed := Suc (mn_Failed r)\<rparr>) s
           | Some p \<Rightarrow>
               (case reconcileProviderState (sub_BusinessID d) p st s of
                  (Inl _, s1) \<Rightarrow> reconcile_loop expired fetch st (Suc i) ds (r\<lparr>mn_Failed := Suc (mn_Failed r)\<rparr>) s1
                | (Inr _, s1) \<Rightarrow> reconcile_loop expired fetch st (Suc i) ds (r\<lparr>mn_Reconciled := Suc (mn_Reconciled r)\<rparr>) s1))"

fun suspend_loop :: "subscription list \<Rightarrow> maintenance_result \<Rightarrow> lifedb \<Rightarrow> maintenance_result \<times> lifedb" where
  "suspend_loop [] r s = (r, s)"
| "suspend_loop (d # ds) r s =
     (case suspendExpiredGrace (sub_BusinessID d) s of
        (Inl _, s1) \<Rightarrow> suspend_loop ds (r\<lparr>mn_Failed := Suc (mn_Failed r)\<rparr>) s1
      | (Inr _, s1) \<Rightarrow> suspend_loop ds (r\<lparr>mn_Suspended := Suc (mn_Suspended r)\<rparr>) s1)"

definition RunMaintenance :: "lifecycle_config \<Rightarrow> lifecycle_error + provider_settings \<Rightarrow> (nat \<Rightarrow> bool) \<Rightarrow> (nat \<Rightarrow> rz_subscription option) \<Rightarrow> int
    \<Rightarrow> lifedb \<Rightarrow> (maintenance_result \<times> lifecycle_error option) \<times> lifedb" where
  "RunMaintenance cfg resolved expired fetch limit s =
     (let r0 = \<lparr>mn_Reconciled = 0, mn_Suspended = 0, mn_Failed = 0\<rparr>;
          incomplete = (\<lambda>r. if mn_Failed r > 0 then Some (ErrMessage ''subscription maintenance incomplete'') else None)
      in if lc_RepositoryNil cfg \<or> lc_ProviderNil cfg then ((r0, Some (ErrMessage ''subscription maintenance is not configured'')), s)
         else case resolved of
           Inl _ \<Rightarrow> ((r0, Some (ErrMessage ''subscription maintenance configuration unavailable'')), s)
         | Inr st \<Rightarrow>
             let lim = history_limit limit in
             case autocommit (ListReconciliationDue (ps_ProviderMode st) lim) s of
               (Inl _, s1) \<Rightarrow> ((r0, Some (ErrMessage ''subscription reconciliation query failed'')), s1)
             | (Inr due, s1) \<Rightarrow>
                 (case reconcile_loop expired fetch st 0 due r0 s1 of
                    (r1, s2) \<Rightarrow>
                      if lim - length due = 0 then ((r1, incomplete r1), s2)
                      else if expired (length due) then ((r1, Some (ErrMessage ''subscription maintenance incomplete'')), s2)
                      else case autocommit (ListGraceDue (ps_ProviderMode st) (db_wall s2) (lim - length due)) s2 of
                             (Inl _, s3) \<Rightarrow> ((r1, Some (ErrMessage ''subscription grace query failed'')), s3)
                           | (Inr graceDue, s3) \<Rightarrow>
                               (case suspend_loop graceDue r1 s3 of (r2, s4) \<Rightarrow> ((r2, incomplete r2), s4))))"

end
