(* ===== verification/Subscription_Invariant.thy ===== *)
theory Subscription_Invariant
  imports Subscription_Lifecycle
begin

text \<open>
  A small program logic for repository actions. A row invariant says something about every
  subscription row and every billing record; the locale proves once that each repository
  method keeps it, that a rollback restores it, and how it passes through the combinators,
  so that a property of a handler is proved from the rows the handler saves.
\<close>

text \<open>\<open>holds I m Q\<close>: from \<open>I\<close>, \<open>m\<close> ends in \<open>I\<close>, and a value it returns satisfies \<open>Q\<close>.\<close>

definition holds :: "(lifedb \<Rightarrow> bool) \<Rightarrow> 'a tx \<Rightarrow> ('a \<Rightarrow> bool) \<Rightarrow> bool" where
  "holds I m Q \<longleftrightarrow> (\<forall>s r s'. I s \<longrightarrow> m s = (r, s') \<longrightarrow> I s' \<and> (\<forall>x. r = Inr x \<longrightarrow> Q x))"

lemma holdsI: "(\<And>s r s'. I s \<Longrightarrow> m s = (r, s') \<Longrightarrow> I s' \<and> (\<forall>x. r = Inr x \<longrightarrow> Q x)) \<Longrightarrow> holds I m Q"
  by (auto simp: holds_def)

lemma holdsD: "holds I m Q \<Longrightarrow> I s \<Longrightarrow> m s = (r, s') \<Longrightarrow> I s' \<and> (\<forall>x. r = Inr x \<longrightarrow> Q x)"
  by (auto simp: holds_def)

named_theorems holds_rules \<open>rules of the logic for repository actions\<close>

lemma holds_return [holds_rules]: "Q x \<Longrightarrow> holds I (tx_return x) Q"
  by (auto simp: holds_def tx_return_def)

lemma holds_fail [holds_rules]: "holds I (tx_fail e) Q"
  by (auto simp: holds_def tx_fail_def)

lemma holds_top [simp]: "holds (\<lambda>_. True) m (\<lambda>_. True)"
  by (auto simp: holds_def)

lemma holds_weaken: "holds I m Q \<Longrightarrow> (\<And>x. Q x \<Longrightarrow> R x) \<Longrightarrow> holds I m R"
  by (auto simp: holds_def)

lemma holds_bind [holds_rules]:
  assumes "holds I m Q" and "\<And>x. Q x \<Longrightarrow> holds I (k x) R"
  shows "holds I (tx_bind m k) R"
proof (rule holdsI)
  fix s r s' assume i: "I s" and b: "tx_bind m k s = (r, s')"
  obtain r1 s1 where m: "m s = (r1, s1)" by fastforce
  from holdsD [OF assms(1) i m] have i1: "I s1" "\<forall>x. r1 = Inr x \<longrightarrow> Q x" by auto
  show "I s' \<and> (\<forall>x. r = Inr x \<longrightarrow> R x)"
  proof (cases r1)
    case (Inl e)
    with m b i1 show ?thesis by (auto simp: tx_bind_def)
  next
    case (Inr x)
    with i1 have "Q x" by simp
    moreover from Inr m b have "k x s1 = (r, s')" by (simp add: tx_bind_def)
    ultimately show ?thesis using holdsD [OF assms(2) i1(1)] by blast
  qed
qed

lemma holds_try:
  assumes "holds I m Q"
  shows "holds I (tx_try m) (\<lambda>r. case r of Inr x \<Rightarrow> Q x | Inl _ \<Rightarrow> True)"
  using assms by (fastforce simp: holds_def tx_try_def split: prod.splits sum.splits)

lemma holds_bind_try [holds_rules]:
  assumes "holds I m Q" and "\<And>x. Q x \<Longrightarrow> holds I (k (Inr x)) R" and "\<And>e. holds I (k (Inl e)) R"
  shows "holds I (tx_bind (tx_try m) k) R"
  by (rule holds_bind [OF holds_try [OF assms(1)]]) (auto split: sum.splits intro: assms)

lemma holds_if [holds_rules]: "(b \<Longrightarrow> holds I m Q) \<Longrightarrow> (\<not> b \<Longrightarrow> holds I n Q) \<Longrightarrow> holds I (if b then m else n) Q"
  by simp

lemma holds_let [holds_rules]: "holds I (f x) Q \<Longrightarrow> holds I (let y = x in f y) Q"
  by simp

text \<open>
  An invariant of transactions: it does not look at the fault schedule, the abort flag or
  the UUID counter, and rolling a state that satisfies it back to one that does keeps it.
\<close>

locale tx_invariant =
  fixes I :: "lifedb \<Rightarrow> bool"
  assumes faults [simp]: "I (s\<lparr>db_faults := fs\<rparr>) = I s"
    and aborted [simp]: "I (s\<lparr>db_aborted := b\<rparr>) = I s"
    and uuids [simp]: "I (s\<lparr>db_next := n\<rparr>) = I s"
    and rollback: "I s0 \<Longrightarrow> I s \<Longrightarrow> I (rollback_to s0 s)"
begin

lemma after_statement:
  assumes "I s" and "statement f s = (r, s')" and "\<And>t r t'. I t \<Longrightarrow> f t = (r, t') \<Longrightarrow> I t' \<and> (\<forall>x. r = Inr x \<longrightarrow> Q x)"
  shows "I s' \<and> (\<forall>x. r = Inr x \<longrightarrow> Q x)"
  using assms(2)
proof (cases rule: statement_cases)
  case (failed fs)
  have "I (s\<lparr>db_faults := fs, db_aborted := True\<rparr>)" using assms(1) by (simp only: faults aborted)
  with failed show ?thesis by simp
next
  case (run fs)
  with assms(3) [of "s\<lparr>db_faults := fs\<rparr>"] assms(1) show ?thesis by simp
qed

lemma holds_statement:
  assumes "\<And>s r s'. I s \<Longrightarrow> f s = (r, s') \<Longrightarrow> I s' \<and> (\<forall>x. r = Inr x \<longrightarrow> Q x)"
  shows "holds I (statement f) Q"
  by (rule holdsI) (rule after_statement [OF _ _ assms])

lemma holds_uuid: "holds I new_uuid (\<lambda>_. True)"
  by (auto simp: holds_def new_uuid_def)

lemma holds_Transaction:
  assumes "holds I m Q"
  shows "holds I (Transaction m) Q"
proof (rule holdsI)
  fix s r s' assume i: "I s" and t: "Transaction m s = (r, s')"
  obtain r1 s1 where m: "m (s\<lparr>db_aborted := False\<rparr>) = (r1, s1)" by fastforce
  from holdsD [OF assms _ m] i have i1: "I s1" "\<forall>x. r1 = Inr x \<longrightarrow> Q x" by auto
  show "I s' \<and> (\<forall>x. r = Inr x \<longrightarrow> Q x)"
  proof (cases r1)
    case (Inl e)
    with t m rollback [OF i i1(1)] show ?thesis by (auto simp: Transaction_def)
  next
    case (Inr x)
    obtain r2 s2 where c: "statement (tx_return x) s1 = (r2, s2)" by fastforce
    have "I s2 \<and> (\<forall>y. r2 = Inr y \<longrightarrow> Q y)"
      by (rule after_statement [OF i1(1) c]) (use i1(2) Inr in \<open>auto simp: tx_return_def\<close>)
    with t m Inr c rollback [OF i, of s2] show ?thesis by (auto simp: Transaction_def split: sum.splits)
  qed
qed

end

text \<open>An invariant of the tables only is one.\<close>

locale table_invariant =
  fixes I :: "lifedb \<Rightarrow> bool"
  assumes tables_only: "tables s' = tables s \<Longrightarrow> I s \<Longrightarrow> I s'"
begin

lemma same_tables: "tables s' = tables s \<Longrightarrow> I s' = I s"
  using tables_only [of s' s] tables_only [of s s'] by auto

lemma calls_frame [simp]: "I (s\<lparr>db_calls := cs\<rparr>) = I s"
  by (rule same_tables) (simp add: tables_def)

end

sublocale table_invariant \<subseteq> tx_invariant I
proof
  show "I (s\<lparr>db_faults := fs\<rparr>) = I s" "I (s\<lparr>db_aborted := b\<rparr>) = I s" "I (s\<lparr>db_next := n\<rparr>) = I s" for s fs b n
    by (rule same_tables, simp add: tables_def)+
  show "I (rollback_to s0 s)" if "I s0" for s0 s
    using that by (rule tables_only [rotated]) (simp add: tables_def rollback_to_def)
qed

text \<open>Row invariants: a predicate on subscription rows and one on billing records.\<close>

definition rows_ok :: "(subscription \<Rightarrow> bool) \<Rightarrow> (billing_record \<Rightarrow> bool) \<Rightarrow> lifedb \<Rightarrow> bool" where
  "rows_ok P B s \<longleftrightarrow> (\<forall>r \<in> set (db_subs s). P r) \<and> (\<forall>b \<in> set (db_billing s). B b)"

interpretation rows: table_invariant "rows_ok P B" for P B
  by unfold_locales (auto simp: rows_ok_def tables_def)

lemma find_mem: "find P xs = Some x \<Longrightarrow> x \<in> set xs \<and> P x"
  by (auto simp: find_Some_iff)

lemma set_upsert_by: "x \<in> set (upsert_by key row rows) \<Longrightarrow> x = row \<or> x \<in> set rows"
  by (auto simp: upsert_by_def split: if_splits)

lemma rows_get [holds_rules]:
  "holds (rows_ok P B) (GetByBusinessIDForUpdate b) P"
  "holds (rows_ok P B) (GetByProviderIDForUpdate m p) P"
  unfolding GetByBusinessIDForUpdate_def GetByProviderIDForUpdate_def
  by (rule rows.holds_statement; force simp: rows_ok_def split: option.splits dest: find_mem)+

lemma rows_save [holds_rules]:
  assumes "\<And>t. P (sub\<lparr>sub_LifecycleVersion := sub_LifecycleVersion sub + 1, sub_UpdatedAt := t\<rparr>)"
  shows "holds (rows_ok P B) (SaveSubscription sub) P"
  unfolding SaveSubscription_def
  by (rule rows.holds_statement) (use assms in \<open>auto simp: rows_ok_def Let_def split: if_splits dest!: set_upsert_by\<close>)

lemma rows_create [holds_rules]:
  assumes "\<And>t. P (sub\<lparr>sub_UpdatedAt := t\<rparr>)"
  shows "holds (rows_ok P B) (CreateSubscription sub) P"
  unfolding CreateSubscription_def
  by (rule rows.holds_statement) (use assms in \<open>auto simp: rows_ok_def Let_def split: if_splits\<close>)

lemma rows_other [holds_rules]:
  "holds (rows_ok P B) (GetCommandForUpdate b a c k) (\<lambda>_. True)"
  "holds (rows_ok P B) (CreateCommand cmd) (\<lambda>_. True)"
  "holds (rows_ok P B) (SaveCommand cmd) (\<lambda>_. True)"
  "holds (rows_ok P B) (CreateAudit au) (\<lambda>_. True)"
  "holds (rows_ok P B) (GetEventForUpdate m e) (\<lambda>_. True)"
  "holds (rows_ok P B) (CreateEvent ev) (\<lambda>_. True)"
  "holds (rows_ok P B) (SaveEvent ev) (\<lambda>_. True)"
  unfolding GetCommandForUpdate_def CreateCommand_def SaveCommand_def CreateAudit_def GetEventForUpdate_def CreateEvent_def SaveEvent_def
  by (rule rows.holds_statement; force simp: rows_ok_def split: option.splits if_splits)+

lemma rows_billing [holds_rules]: "B b \<Longrightarrow> holds (rows_ok P B) (CreateBillingRecord b) (\<lambda>_. True)"
  unfolding CreateBillingRecord_def
  by (rule rows.holds_statement) (auto simp: rows_ok_def split: if_splits)

lemma rows_audit [holds_rules]: "holds (rows_ok P B) (lifecycleAudit s a f t c e o') (\<lambda>_. True)"
  unfolding lifecycleAudit_def by (rule holds_bind [OF rows.holds_uuid]) (rule holds_return, simp)

lemma rows_command_audit [holds_rules]:
  "holds (rows_ok P B) (command_audit b i a ac fs ts fp tp m c t) (\<lambda>_. True)"
  "holds (rows_ok P B) (new_command b i a ac k h) (\<lambda>_. True)"
  unfolding command_audit_def new_command_def
  by (rule holds_bind [OF rows.holds_uuid], rule rows_other)+

end
