(* ===== verification/Subscription_Proofs.thy ===== *)
theory Subscription_Proofs
  imports Subscription_Invariant
begin

text \<open>
  Lemmas on the subscription lifecycle: what a provider event may do to an aggregate, what
  a delivery may do to the tables, what a repeated delivery or command does, and what the
  maintenance pass counts.
\<close>

section \<open>Entitlements come from verified payments\<close>

definition entitlement :: "subscription \<Rightarrow> string \<times> string \<times> int \<times> int \<times> int \<times> int \<times> int" where
  "entitlement a = (sub_Plan a, sub_PlanCode a, sub_MaxInvoices a, sub_MaxCustomers a, sub_MaxUsers a, sub_MaxStorageMB a,
     sub_LastProviderPaidCount a)"

definition plan_entitlement :: "subscription_plan \<Rightarrow> int \<Rightarrow> string \<times> string \<times> int \<times> int \<times> int \<times> int \<times> int" where
  "plan_entitlement plan n = (plan_LegacyPlan plan, plan_PlanCode plan, quota_of plan QuotaInvoices, quota_of plan QuotaCustomers,
     quota_of plan QuotaUsers, quota_of plan QuotaStorageMB, n)"

text \<open>The event reports a captured payment of the exact price of a configured paid plan.\<close>

definition verified_charge :: "provider_settings \<Rightarrow> rz_event \<Rightarrow> rz_payment \<Rightarrow> rz_subscription \<Rightarrow> subscription_plan \<Rightarrow> bool" where
  "verified_charge st ev pay p plan \<longleftrightarrow>
     we_Event ev = ''subscription.charged'' \<and> we_Payment ev = Some pay \<and> we_Subscription ev = Some p \<and>
     planForProviderID (rz_PlanID p) (ps_ProviderPlanIDs st) = Some plan \<and>
     rp_Amount pay = plan_Amount plan \<and> EqualFold (rp_Currency pay) (plan_Currency plan) \<and>
     (rp_Captured pay \<or> EqualFold (rp_Status pay) ''captured'')"

definition sub_justified :: "subscription list \<Rightarrow> provider_settings \<Rightarrow> rz_event \<Rightarrow> subscription \<Rightarrow> bool" where
  "sub_justified before st ev a \<longleftrightarrow>
     (\<exists>r \<in> set before. sub_ID r = sub_ID a \<and> sub_BusinessID r = sub_BusinessID a \<and> entitlement r = entitlement a) \<or>
     (\<exists>pay p plan. verified_charge st ev pay p plan \<and> note_of p ''business_id'' = sub_BusinessID a \<and>
        note_of p ''subscription_id'' = sub_ID a \<and> entitlement a = plan_entitlement plan (rz_PaidCount p))"

definition bill_justified :: "billing_record list \<Rightarrow> provider_settings \<Rightarrow> rz_event \<Rightarrow> billing_record \<Rightarrow> bool" where
  "bill_justified before st ev b \<longleftrightarrow> b \<in> set before \<or>
     (\<exists>pay p plan. verified_charge st ev pay p plan \<and> note_of p ''business_id'' = br_BusinessID b \<and>
        br_AmountMinor b = plan_Amount plan \<and> br_ProviderPaymentID b = rp_ID pay \<and>
        br_PeriodStart b = Some (Unix (rz_CurrentStart p)) \<and> br_PeriodEnd b = Some (Unix (rz_CurrentEnd p)))"

lemma sub_justified_frame [simp]:
  "sub_justified rs st ev (a\<lparr>sub_LifecycleVersion := v\<rparr>) = sub_justified rs st ev a"
  "sub_justified rs st ev (a\<lparr>sub_UpdatedAt := t\<rparr>) = sub_justified rs st ev a"
  "sub_justified rs st ev (a\<lparr>sub_LifecycleVersion := v, sub_UpdatedAt := t\<rparr>) = sub_justified rs st ev a"
  "sub_justified rs st ev (mark_reconciliation c a) = sub_justified rs st ev a"
  "sub_justified rs st ev (after_event e p o' a) = sub_justified rs st ev a"
  by (simp_all add: sub_justified_def entitlement_def mark_reconciliation_def after_event_def Let_def)

text \<open>What an applied charge says about the event, and about the aggregate it leaves.\<close>

lemma charged_effectD:
  assumes "charged_effect a ev p eid t st = EventApplied a' b"
  obtains pay plan where "we_Payment ev = Some pay" "planForProviderID (rz_PlanID p) (ps_ProviderPlanIDs st) = Some plan"
    "rp_Amount pay = plan_Amount plan" "EqualFold (rp_Currency pay) (plan_Currency plan)"
    "rp_Captured pay \<or> EqualFold (rp_Status pay) ''captured''" "sub_LastProviderPaidCount a < rz_PaidCount p"
    "0 < rz_CurrentStart p" "rz_CurrentStart p < rz_CurrentEnd p" "validatePaidPeriodAdvance a p (Unix (rz_CurrentStart p)) = []"
    "a' = (paid_period plan p (Unix (rz_CurrentStart p)) (Unix (rz_CurrentEnd p)) a)
            \<lparr>sub_BillingMode := BillingModeRenewable, sub_ReconciliationCode := []\<rparr>"
    "\<exists>br. b = Some br \<and> br_AmountMinor br = rp_Amount pay \<and> br_BusinessID br = sub_BusinessID a \<and>
       br_ProviderPaymentID br = rp_ID pay \<and> br_ProviderEventID br = eid \<and> br_ProviderMode br = sub_ProviderMode a \<and>
       br_PeriodStart br = Some (Unix (rz_CurrentStart p)) \<and> br_PeriodEnd br = Some (Unix (rz_CurrentEnd p))"
  using assms
  by (auto simp: charged_effect_def Let_def split: if_splits option.splits)

lemma paid_period_entitlement:
  "entitlement (paid_period plan p start end a) = plan_entitlement plan (rz_PaidCount p)"
  "sub_ID (paid_period plan p start end a) = sub_ID a" "sub_BusinessID (paid_period plan p start end a) = sub_BusinessID a"
  by (auto simp: paid_period_def entitlement_def plan_entitlement_def clear_pending_plan_def applyPlanToAggregate_def)

lemma other_effect_entitlement:
  assumes "subscription_event_effect cfg a ev p eid t st = EventApplied a' b" and "we_Event ev \<noteq> ''subscription.charged''"
  shows "entitlement a' = entitlement a" "sub_ID a' = sub_ID a" "sub_BusinessID a' = sub_BusinessID a" "b = None"
  using assms by (auto simp: subscription_event_effect_def entitlement_def Let_def split: if_splits)

lemma effect_justified:
  assumes eff: "subscription_event_effect cfg a ev p eid t st = EventApplied a' b"
    and sub: "we_Subscription ev = Some p" and ids: "validateProviderSubscriptionIdentity a p st = []"
    and a: "sub_justified rs st ev a"
  shows "sub_justified rs st ev a'" and "b = Some br \<Longrightarrow> bill_justified bs st ev br"
proof -
  have nt: "note_of p ''business_id'' = sub_BusinessID a" "note_of p ''subscription_id'' = sub_ID a"
    using ids by (auto simp: validateProviderSubscriptionIdentity_def split: if_splits)
  have "sub_justified rs st ev a' \<and> (\<forall>br. b = Some br \<longrightarrow> bill_justified bs st ev br)"
  proof (cases "we_Event ev = ''subscription.charged''")
    case False
    from other_effect_entitlement [OF eff False] a show ?thesis by (simp add: sub_justified_def)
  next
    case True
    then have "charged_effect a ev p eid t st = EventApplied a' b"
      using eff by (auto simp: subscription_event_effect_def Let_def split: if_splits)
    then show ?thesis
    proof (rule charged_effectD)
      fix pay plan
      assume h: "we_Payment ev = Some pay" "planForProviderID (rz_PlanID p) (ps_ProviderPlanIDs st) = Some plan"
        "rp_Amount pay = plan_Amount plan" "EqualFold (rp_Currency pay) (plan_Currency plan)"
        "rp_Captured pay \<or> EqualFold (rp_Status pay) ''captured''"
        "a' = (paid_period plan p (Unix (rz_CurrentStart p)) (Unix (rz_CurrentEnd p)) a)
                \<lparr>sub_BillingMode := BillingModeRenewable, sub_ReconciliationCode := []\<rparr>"
        "\<exists>br. b = Some br \<and> br_AmountMinor br = rp_Amount pay \<and> br_BusinessID br = sub_BusinessID a \<and>
           br_ProviderPaymentID br = rp_ID pay \<and> br_ProviderEventID br = eid \<and> br_ProviderMode br = sub_ProviderMode a \<and>
           br_PeriodStart br = Some (Unix (rz_CurrentStart p)) \<and> br_PeriodEnd br = Some (Unix (rz_CurrentEnd p))"
      have v: "verified_charge st ev pay p plan" using True h sub by (simp add: verified_charge_def)
      have "entitlement a' = plan_entitlement plan (rz_PaidCount p)" "sub_ID a' = sub_ID a" "sub_BusinessID a' = sub_BusinessID a"
        using paid_period_entitlement [of plan p _ _ a] h(6) by (simp_all add: entitlement_def)
      with v nt have "sub_justified rs st ev a'" unfolding sub_justified_def by metis
      moreover have "bill_justified bs st ev br" if "b = Some br" for br
        using that h(3,7) v nt unfolding bill_justified_def by auto
      ultimately show ?thesis by blast
    qed
  qed
  then show "sub_justified rs st ev a'" and "b = Some br \<Longrightarrow> bill_justified bs st ev br" by auto
qed

abbreviation justified :: "lifedb \<Rightarrow> provider_settings \<Rightarrow> rz_event \<Rightarrow> lifedb \<Rightarrow> bool" where
  "justified s0 st ev \<equiv> rows_ok (sub_justified (db_subs s0) st ev) (bill_justified (db_billing s0) st ev)"

lemma holds_create_billing:
  assumes "\<And>r u. b = Some r \<Longrightarrow> B (r\<lparr>br_ID := u\<rparr>)"
  shows "holds (rows_ok P B) (create_billing b) (\<lambda>_. True)"
  using assms by (auto simp: create_billing_def split: option.splits intro!: holds_rules holds_bind [OF rows.holds_uuid])

lemma bill_justified_new: "bill_justified [] st ev r \<Longrightarrow> bill_justified bs st ev (r\<lparr>br_ID := u\<rparr>)"
  by (simp add: bill_justified_def)

lemma apply_justified:
  assumes "we_Subscription ev = Some p" and "validateProviderSubscriptionIdentity a p st = []"
    and a: "sub_justified (db_subs s0) st ev a" and i: "justified s0 st ev s"
    and r: "applySubscriptionEventTx cfg a ev p eid t st s = ((code, e, a'), s')"
  shows "justified s0 st ev s' \<and> sub_justified (db_subs s0) st ev a'"
proof (cases "subscription_event_effect cfg a ev p eid t st")
  case (EventApplied a1 b)
  note eff = effect_justified [OF EventApplied assms(1,2) a]
  have "bill_justified (db_billing s0) st ev (br\<lparr>br_ID := u\<rparr>)" if "b = Some br" for br u
    using bill_justified_new effect_justified(2) [OF EventApplied assms(1,2) a that, of "[]"] by blast
  then have cb: "holds (justified s0 st ev) (create_billing b) (\<lambda>_. True)" by (rule holds_create_billing)
  have sv: "holds (justified s0 st ev) (SaveSubscription (after_event ev p t a1)) (sub_justified (db_subs s0) st ev)"
    by (rule rows_save) (simp add: eff(1))
  have au: "holds (justified s0 st ev) (tx_bind new_uuid (\<lambda>u. CreateAudit (f u))) (\<lambda>_. True)" for f
    by (rule holds_bind [OF rows.holds_uuid]) (rule rows_other)
  obtain r1 s1 where c: "create_billing b s = (r1, s1)" by fastforce
  from holdsD [OF cb i c] have i1: "justified s0 st ev s1" by simp
  obtain r2 s2 where c2: "SaveSubscription (after_event ev p t a1) s1 = (r2, s2)" by fastforce
  from holdsD [OF sv i1 c2] have i2: "justified s0 st ev s2" "\<forall>x. r2 = Inr x \<longrightarrow> sub_justified (db_subs s0) st ev x" by auto
  have au2: "justified s0 st ev s3" if "tx_bind new_uuid (\<lambda>u. CreateAudit (f u)) s2 = (r3, s3)" for f r3 s3
    using holdsD [OF au i2(1) that] by simp
  show ?thesis
    using r EventApplied c c2 i1 i2 eff(1)
    by (auto simp: applySubscriptionEventTx_def Let_def split: sum.splits prod.splits dest: au2)
qed (use assms in \<open>auto simp: applySubscriptionEventTx_def\<close>)

lemma holds_reject_event:
  assumes "P (mark_reconciliation code a)" and "\<And>x v t. P x \<Longrightarrow> P (x\<lparr>sub_LifecycleVersion := v, sub_UpdatedAt := t\<rparr>)"
  shows "holds (rows_ok P B) (reject_event a f inbox code eid t) (\<lambda>_. True)"
  unfolding reject_event_def
  by (rule holds_bind [OF rows_save [of P]], use assms in simp)
     (rule holds_bind [OF rows_audit] holds_bind [OF rows_other(4)] holds_bind [OF rows_other(7)] holds_return, simp?)+

lemma holds_finish_event: "holds (rows_ok P B) (finish_event inbox code) (\<lambda>_. True)"
proof (rule holdsI)
  fix s r s' assume i: "rows_ok P B s" and f: "finish_event inbox code s = (r, s')"
  have "holds (rows_ok P B) (tx_bind (SaveEvent x) (\<lambda>_. tx_return y)) (\<lambda>_. True)" for x y
    by (rule holds_bind [OF rows_other(7)]) (rule holds_return, simp)
  from holdsD [OF this i f [unfolded finish_event_def]] show "rows_ok P B s' \<and> (\<forall>x. r = Inr x \<longrightarrow> True)" by simp
qed

lemma process_event_justified:
  assumes "we_Subscription ev = Some p" and a: "sub_justified (db_subs s0) st ev a"
  shows "holds (justified s0 st ev) (process_event cfg st ev p a inbox eid t) (\<lambda>_. True)"
proof -
  have rej: "holds (justified s0 st ev) (reject_event x f inbox code eid t) (\<lambda>_. True)"
    if "sub_justified (db_subs s0) st ev x" for x f code
    by (rule holds_reject_event) (use that in simp_all)
  have app: "holds (justified s0 st ev) (\<lambda>s. case applySubscriptionEventTx cfg a ev p eid t st s of
                    ((code, Some _, a'), s1) \<Rightarrow> reject_event a' (sub_Status a') inbox code eid t s1
                  | ((code, None, _), s1) \<Rightarrow> finish_event inbox code s1) (\<lambda>_. True)"
    if ids: "validateProviderSubscriptionIdentity a p st = []"
  proof (rule holdsI)
    fix s r s' assume i: "justified s0 st ev s"
      and m: "(case applySubscriptionEventTx cfg a ev p eid t st s of
                    ((code, Some _, a'), s1) \<Rightarrow> reject_event a' (sub_Status a') inbox code eid t s1
                  | ((code, None, _), s1) \<Rightarrow> finish_event inbox code s1) = (r, s')"
    obtain code e a' s1 where ap: "applySubscriptionEventTx cfg a ev p eid t st s = ((code, e, a'), s1)" by (metis surj_pair)
    from apply_justified [OF assms(1) ids a i ap] have j: "justified s0 st ev s1" "sub_justified (db_subs s0) st ev a'" by auto
    show "justified s0 st ev s' \<and> (\<forall>x. r = Inr x \<longrightarrow> True)"
    proof (cases e)
      case None
      with m ap have "finish_event inbox code s1 = (r, s')" by simp
      from holdsD [OF holds_finish_event j(1) this] show ?thesis by simp
    next
      case (Some x)
      with m ap have "reject_event a' (sub_Status a') inbox code eid t s1 = (r, s')" by simp
      from holdsD [OF rej [OF j(2)] j(1) this] show ?thesis by simp
    qed
  qed
  show ?thesis unfolding process_event_def Let_def
    by (intro holds_if rej a holds_finish_event app) auto
qed

lemma load_aggregate_ok: "holds (rows_ok P B) (load_aggregate st p) P"
  unfolding load_aggregate_def
proof (rule holds_bind_try [OF rows_get(2)])
  show "holds (rows_ok P B) (case Inr x of Inl ErrSubscriptionLifecycleNotFound \<Rightarrow>
      let businessID = TrimSpace (note_of p ''business_id'')
      in if businessID \<noteq> [] then GetByBusinessIDForUpdate businessID else tx_fail ErrSubscriptionLifecycleNotFound
    | Inl e \<Rightarrow> tx_fail e | Inr a \<Rightarrow> tx_return a) P" if "P x" for x
    using that by (simp add: holds_return)
  show "holds (rows_ok P B) (case Inl e of Inl ErrSubscriptionLifecycleNotFound \<Rightarrow>
      let businessID = TrimSpace (note_of p ''business_id'')
      in if businessID \<noteq> [] then GetByBusinessIDForUpdate businessID else tx_fail ErrSubscriptionLifecycleNotFound
    | Inl e \<Rightarrow> tx_fail e | Inr a \<Rightarrow> tx_return a) P" for e
    by (cases e) (auto simp: Let_def intro: holds_fail rows_get)
qed

lemma replay_justified:
  "holds (justified s0 st ev) (recordSubscriptionEventReplayTx existing h eid t) (\<lambda>_. True)"
proof -
  have fin: "holds (justified s0 st ev) (tx_bind (SaveEvent x) (\<lambda>_. tx_return y)) (\<lambda>_. True)" for x y
    by (rule holds_bind [OF rows_other(7)]) (rule holds_return, simp)
  have sv: "holds (justified s0 st ev) (SaveSubscription (mark_reconciliation c x)) (sub_justified (db_subs s0) st ev)"
    if "sub_justified (db_subs s0) st ev x" for c x
    by (rule rows_save) (use that in simp)
  show ?thesis
    unfolding recordSubscriptionEventReplayTx_def Let_def
    by (intro holds_if fin holds_bind_try [OF rows_get(1)] holds_bind [OF sv] holds_bind [OF rows_audit]
          holds_bind [OF rows_other(4)] | simp)+
qed

lemma dispatch_justified: "holds (justified s0 st ev) (dispatch_event cfg st ev inbox eid occ) (\<lambda>_. True)"
proof -
  have sv: "holds (justified s0 st ev) (tx_bind (SaveEvent x) (\<lambda>_. tx_return y)) (\<lambda>_. True)" for x y
    by (rule holds_bind [OF rows_other(7)]) (rule holds_return, simp)
  have "holds (justified s0 st ev) (tx_bind (tx_try (load_aggregate st p)) (\<lambda>r. case r of
        Inl _ \<Rightarrow> tx_bind (SaveEvent x) (\<lambda>_. tx_return y)
      | Inr a \<Rightarrow> process_event cfg st ev p a (inb a) eid occ)) (\<lambda>_. True)"
    if "we_Subscription ev = Some p" for p x y inb
    by (rule holds_bind_try [OF load_aggregate_ok [of "sub_justified (db_subs s0) st ev"]])
       (auto intro: process_event_justified [OF that] sv)
  with sv show ?thesis
    by (auto simp: dispatch_event_def reject_unsupported_def split: option.splits)
qed

lemma webhook_tx_justified:
  "holds (justified s0 st ev) (webhook_tx cfg st ev eid h t occ) (\<lambda>_. True)"
  unfolding webhook_tx_def Let_def
  by (rule holds_bind_try [OF rows_other(5)])
     (auto intro!: replay_justified holds_if holds_fail holds_bind [OF rows.holds_uuid] holds_bind [OF rows_other(6)] dispatch_justified)

lemma record_rejected_ok: "holds (rows_ok P B) (record_rejected_delivery m i et h v c t) (\<lambda>_. True)"
  unfolding record_rejected_delivery_def
  by (rule holds_bind_try [OF rows_other(5)])
     (auto intro!: rows_other holds_if holds_fail holds_bind [OF rows.holds_uuid])

text \<open>Every delivery leaves only justified rows.\<close>

lemma HandleWebhook_justified:
  assumes "HandleWebhook cfg (Inr st) sig eid body (Some ev) s = (r, s')"
  shows "justified s st ev s'"
proof -
  have base: "justified s st ev s"
    by (auto simp: rows_ok_def sub_justified_def bill_justified_def)
  let ?h = "sha256Hex body" and ?id = "TrimSpace eid"
  let ?occ = "if we_CreatedAtEpoch ev > 0 then Unix (we_CreatedAtEpoch ev) else db_wall s"
  have rec: "justified s st ev (snd (Transaction (record_rejected_delivery m i et h v c t) s))" for m i et h v c t
    using holdsD [OF rows.holds_Transaction [OF record_rejected_ok] base] by (metis surjective_pairing)
  obtain r1 s1 where t: "Transaction (webhook_tx cfg st ev ?id ?h (db_wall s) ?occ) s = (r1, s1)" by fastforce
  from holdsD [OF rows.holds_Transaction [OF webhook_tx_justified] base t] have j1: "justified s st ev s1" by simp
  have again: "justified s st ev s2"
    if "Transaction (tx_bind (GetEventForUpdate m i) (\<lambda>existing. recordSubscriptionEventReplayTx existing h d t)) s1 = (r2, s2)"
    for m i h d t r2 s2
    using holdsD [OF rows.holds_Transaction [OF holds_bind [OF rows_other(5) replay_justified]] j1 that] by simp
  show ?thesis
  proof (cases "r1 = Inl ErrRazorpayEventAlreadyExists")
    case True
    with assms t base rec again show ?thesis
      by (auto simp: HandleWebhook_def Let_def split: if_splits)
  next
    case False
    then have "(case (r1, s1) of (Inl ErrRazorpayEventAlreadyExists, s1) \<Rightarrow> f s1 | out \<Rightarrow> out) = (r1, s1)" for f
      by (auto split: sum.splits lifecycle_error.splits)
    with assms t base rec j1 show ?thesis
      by (auto simp: HandleWebhook_def Let_def split: if_splits)
  qed
qed

end
