(* ===== verification/Subscription_Replay.thy ===== *)
theory Subscription_Replay
  imports Subscription_Invariant
begin

text \<open>
  Repeated requests: a webhook delivered again, and a command sent again with the same
  idempotency key; and a delivery whose row the database refuses. The facts hold for every
  schedule of database failures.
\<close>

section \<open>Which tables an action touches\<close>

lemma statement_frame:
  assumes "statement f s = (r, s')" and "\<And>t. g (snd (f t)) = g t"
    and "\<And>t fs b. g (t\<lparr>db_faults := fs, db_aborted := b\<rparr>) = g t" and "\<And>t fs. g (t\<lparr>db_faults := fs\<rparr>) = g t"
  shows "g s' = g s"
  using assms(1)
proof (cases rule: statement_cases)
  case (failed fs)
  then show ?thesis by (simp add: assms(3))
next
  case (run fs)
  then show ?thesis by (metis assms(2,4) snd_conv)
qed

lemmas repo_defs = GetByBusinessIDForUpdate_def GetByProviderIDForUpdate_def CreateSubscription_def SaveSubscription_def
  GetCommandForUpdate_def CreateCommand_def SaveCommand_def CreateAudit_def CreateBillingRecord_def GetEventForUpdate_def
  CreateEvent_def SaveEvent_def

lemma events_frame:
  "SaveSubscription a s = (r1, s') \<Longrightarrow> db_events s' = db_events s"
  "CreateAudit au s = (r2, s') \<Longrightarrow> db_events s' = db_events s"
  "CreateBillingRecord br s = (r3, s') \<Longrightarrow> db_events s' = db_events s"
  "GetByBusinessIDForUpdate b s = (r4, s') \<Longrightarrow> db_events s' = db_events s"
  "GetByProviderIDForUpdate m p s = (r5, s') \<Longrightarrow> db_events s' = db_events s"
  "GetEventForUpdate m e s = (r6, s') \<Longrightarrow> db_events s' = db_events s"
  unfolding repo_defs by (erule statement_frame; auto simp: Let_def split: option.splits if_splits)+

lemma lifecycleAudit_events: "lifecycleAudit a ac f t c e oc s = (r, s') \<Longrightarrow> db_events s' = db_events s"
  by (auto simp: lifecycleAudit_def tx_bind_def new_uuid_def tx_return_def)

lemma SaveEvent_ok:
  assumes "SaveEvent e s = (Inr x, s')"
  shows "db_events s' = upsert_by ev_ID e (db_events s)"
  using assms unfolding SaveEvent_def by (cases rule: statement_cases) auto

lemma CreateEvent_ok:
  assumes "CreateEvent e s = (Inr x, s')"
  shows "db_events s' = db_events s @ [e]" "ev_key e \<notin> ev_key ` set (db_events s)" "ev_ID e \<notin> ev_ID ` set (db_events s)"
  using assms unfolding CreateEvent_def by (cases rule: statement_cases; auto split: if_splits)+

lemma GetEvent_cases:
  assumes "GetEventForUpdate m e s = (r, s')"
  shows "r = Inl ErrDatabase \<or> (case find (\<lambda>x. ev_key x = (m, e)) (db_events s) of
           None \<Rightarrow> r = Inl ErrRazorpayEventNotFound | Some x \<Rightarrow> r = Inr x)"
  using assms unfolding GetEventForUpdate_def by (cases rule: statement_cases) (auto split: option.splits)

section \<open>Webhook deliveries\<close>

text \<open>How the inbox row of a first delivery is closed, and what the caller is told.\<close>

definition closes_inbox :: "inbox_event \<Rightarrow> webhook_result \<times> lifecycle_error option \<Rightarrow> lifedb \<Rightarrow> lifedb \<Rightarrow> bool" where
  "closes_inbox inbox out s s' \<longleftrightarrow> (\<exists>inbox'. db_events s' = upsert_by ev_ID inbox' (db_events s) \<and>
     ev_ID inbox' = ev_ID inbox \<and> ev_key inbox' = ev_key inbox \<and> ev_PayloadHash inbox' = ev_PayloadHash inbox \<and>
     ev_ProcessingStatus inbox' = wr_Status (fst out) \<and> ev_SanitizedErrorCode inbox' = wr_Code (fst out) \<and>
     snd out = subscriptionWebhookDomainError (wr_Status (fst out)) \<and> \<not> wr_Duplicate (fst out))"

lemma closes_inboxI:
  assumes "SaveEvent inbox' s1 = (Inr x, s')" and "db_events s1 = db_events s"
    and "ev_ID inbox' = ev_ID inbox" "ev_key inbox' = ev_key inbox" "ev_PayloadHash inbox' = ev_PayloadHash inbox"
    and "ev_ProcessingStatus inbox' = wr_Status (fst out)" "ev_SanitizedErrorCode inbox' = wr_Code (fst out)"
    and "snd out = subscriptionWebhookDomainError (wr_Status (fst out))" "\<not> wr_Duplicate (fst out)"
  shows "closes_inbox inbox out s s'"
  using assms SaveEvent_ok [OF assms(1)] unfolding closes_inbox_def by auto

lemma closes_bind:
  assumes "tx_bind m k s = (Inr out, s')" and "\<And>r s1. m s = (r, s1) \<Longrightarrow> db_events s1 = db_events s"
    and "\<And>x s1. k x s1 = (Inr out, s') \<Longrightarrow> closes_inbox inbox out s1 s'"
  shows "closes_inbox inbox out s s'"
proof -
  from assms(1) obtain x s1 where m: "m s = (Inr x, s1)" and k: "k x s1 = (Inr out, s')" by (rule tx_bind_Inr)
  from assms(3) [OF k] assms(2) [OF m] show ?thesis by (simp add: closes_inbox_def)
qed

lemma closes_save:
  assumes "tx_bind (SaveEvent inbox') (\<lambda>_. tx_return res) s = (Inr out, s')"
    and "ev_ID inbox' = ev_ID inbox" "ev_key inbox' = ev_key inbox" "ev_PayloadHash inbox' = ev_PayloadHash inbox"
    and "ev_ProcessingStatus inbox' = wr_Status (fst res)" "ev_SanitizedErrorCode inbox' = wr_Code (fst res)"
    and "snd res = subscriptionWebhookDomainError (wr_Status (fst res))" "\<not> wr_Duplicate (fst res)"
  shows "closes_inbox inbox out s s'"
proof -
  from assms(1) obtain x s1 where sv: "SaveEvent inbox' s = (Inr x, s1)" and r: "tx_return res s1 = (Inr out, s')"
    by (rule tx_bind_Inr)
  from r have "out = res" "s' = s1" by (auto simp: tx_return_def)
  with closes_inboxI [OF sv refl] assms(2-) show ?thesis by simp
qed

lemma reject_event_closes:
  assumes "reject_event a f inbox code eid t s = (Inr out, s')"
  shows "closes_inbox inbox out s s'"
  using assms unfolding reject_event_def
  apply (rule closes_bind)
   apply (erule events_frame(1))
  apply (erule closes_bind)
   apply (erule lifecycleAudit_events)
  apply (erule closes_bind)
   apply (erule events_frame(2))
  apply (erule closes_save; simp add: subscriptionWebhookDomainError_def ev_key_def)
  done

lemma finish_event_closes:
  assumes "finish_event inbox code s = (Inr out, s')"
  shows "closes_inbox inbox out s s'"
  using assms unfolding finish_event_def
  by (rule closes_save; simp add: subscriptionWebhookDomainError_def ev_key_def)

lemma apply_events:
  assumes "applySubscriptionEventTx cfg a ev p eid t st s = (out, s')"
  shows "db_events s' = db_events s"
proof (cases "subscription_event_effect cfg a ev p eid t st")
  case (EventApplied a1 b)
  have cb: "db_events s1 = db_events s" if "create_billing b s = (r, s1)" for r s1
    using that by (auto simp: create_billing_def tx_return_def tx_bind_def new_uuid_def split: option.splits dest!: events_frame(3))
  have au: "db_events s2 = db_events s1" if "tx_bind new_uuid (\<lambda>u. CreateAudit (f u)) s1 = (r, s2)" for f r s1 s2
    using that by (auto simp: tx_bind_def new_uuid_def dest!: events_frame(2))
  show ?thesis using assms EventApplied
    by (auto simp: applySubscriptionEventTx_def Let_def split: sum.splits prod.splits dest!: cb au events_frame(1))
qed (use assms in \<open>auto simp: applySubscriptionEventTx_def\<close>)

lemma process_event_closes:
  assumes "process_event cfg st ev p a inbox eid t s = (Inr out, s')"
  shows "closes_inbox inbox out s s'"
proof -
  obtain code e a' s1 where ap: "applySubscriptionEventTx cfg a ev p eid t st s = ((code, e, a'), s1)" by (metis surj_pair)
  have ev: "db_events s1 = db_events s" by (rule apply_events [OF ap])
  have shift: "closes_inbox inbox out s1 s' \<Longrightarrow> closes_inbox inbox out s s'" using ev by (simp add: closes_inbox_def)
  from assms show ?thesis
    by (auto simp: process_event_def Let_def ap split: if_splits option.splits
          intro: reject_event_closes finish_event_closes shift [OF reject_event_closes] shift [OF finish_event_closes])
qed

lemma replay_duplicate:
  assumes "recordSubscriptionEventReplayTx existing h eid t s = (Inr out, s')"
  shows "wr_Duplicate (fst out)"
proof -
  have fin: "holds (\<lambda>_. True) (tx_bind (SaveEvent x) (\<lambda>_. tx_return y)) (\<lambda>out. wr_Duplicate (fst out))"
    if "wr_Duplicate (fst y)" for x y
    by (rule holds_bind [OF holds_top]) (rule holds_return, use that in simp)
  have "holds (\<lambda>_. True) (recordSubscriptionEventReplayTx existing h eid t) (\<lambda>out. wr_Duplicate (fst out))"
    unfolding recordSubscriptionEventReplayTx_def Let_def
    by (intro holds_if fin holds_bind_try [OF holds_top] holds_bind [OF holds_top] | simp)+
  from holdsD [OF this _ assms] show ?thesis by simp
qed

lemma find_appended: "k \<notin> f ` set xs \<Longrightarrow> f y = k \<Longrightarrow> find (\<lambda>x. f x = k) (xs @ [y]) = Some y"
  by (induction xs) auto

lemma upsert_appended:
  assumes "key y' = key y" and "key y \<notin> key ` set xs"
  shows "upsert_by key y' (xs @ [y]) = xs @ [y']"
proof -
  have "map (\<lambda>r. if key r = key y then y' else r) xs = xs" using assms(2) by (induction xs) auto
  with assms(1) show ?thesis by (simp add: upsert_by_def)
qed

lemma load_events: "tx_try (load_aggregate st p) s = (r, s') \<Longrightarrow> db_events s' = db_events s"
  by (auto simp: load_aggregate_def tx_bind_def tx_try_def tx_fail_def tx_return_def Let_def
        split: prod.splits sum.splits lifecycle_error.splits if_splits dest!: events_frame(4,5))

lemma dispatch_closes:
  assumes "dispatch_event cfg st ev inbox eid occ s = (Inr out, s')"
  shows "closes_inbox inbox out s s'"
proof -
  have uns: "closes_inbox inbox out s s'" if "reject_unsupported inbox s = (Inr out, s')"
    using that unfolding reject_unsupported_def by (rule closes_save; simp add: subscriptionWebhookDomainError_def ev_key_def)
  have proc: "closes_inbox inbox out s1 s'"
    if "process_event cfg st ev p a (inbox\<lparr>ev_BusinessID := bb, ev_SubscriptionID := ii\<rparr>) eid occ s1 = (Inr out, s')" for p a bb ii s1
    using process_event_closes [OF that] by (simp add: closes_inbox_def ev_key_def)
  show ?thesis
  proof (cases "we_Subscription ev = None \<or> \<not> HasPrefix (we_Event ev) ''subscription.''")
    case True
    with assms show ?thesis by (auto simp: dispatch_event_def uns split: option.splits)
  next
    case False
    then obtain p where p: "we_Subscription ev = Some p" by auto
    show ?thesis
      using assms False unfolding dispatch_event_def p option.case
      apply (simp only: simp_thms if_False option.distinct)
      apply (erule closes_bind)
       apply (erule load_events)
      subgoal for r s1
        by (cases r) (auto intro: proc elim!: closes_save simp: subscriptionWebhookDomainError_def ev_key_def)
      done
  qed
qed

text \<open>A first delivery leaves its own row in the inbox, saying what the caller was told.\<close>

lemma first_delivery_recorded:
  assumes "webhook_tx cfg st ev eid h t occ s = (Inr out, s')" and "\<not> wr_Duplicate (fst out)"
  shows "\<exists>e. find (\<lambda>x. ev_key x = (ps_ProviderMode st, eid)) (db_events s') = Some e \<and> ev_PayloadHash e = h \<and>
    ev_ProcessingStatus e = wr_Status (fst out) \<and> ev_SanitizedErrorCode e = wr_Code (fst out) \<and>
    snd out = subscriptionWebhookDomainError (wr_Status (fst out))"
proof -
  let ?inb = "new_inbox st ev eid h t occ"
  from assms(1) obtain r0 s0
    where k: "(case r0 of Inr existing \<Rightarrow> recordSubscriptionEventReplayTx existing h eid t
       | Inl e \<Rightarrow> if e \<noteq> ErrRazorpayEventNotFound then tx_fail e
           else tx_bind new_uuid (\<lambda>u. tx_bind (CreateEvent (?inb u)) (\<lambda>_. dispatch_event cfg st ev (?inb u) eid occ))) s0 = (Inr out, s')"
    unfolding webhook_tx_def Let_def by (rule tx_bind_Inr)
  have "r0 = Inl ErrRazorpayEventNotFound"
    using k assms(2) replay_duplicate by (cases r0) (auto simp: tx_fail_def split: if_splits)
  with k obtain u s1 x s2 where cr: "CreateEvent (?inb u) s1 = (Inr x, s2)"
    and rest: "dispatch_event cfg st ev (?inb u) eid occ s2 = (Inr out, s')"
    by (auto elim!: tx_bind_Inr)
  from dispatch_closes [OF rest] obtain inbox' where ev: "db_events s' = upsert_by ev_ID inbox' (db_events s2)"
      "ev_ID inbox' = ev_ID (?inb u)" "ev_key inbox' = (ps_ProviderMode st, eid)" "ev_PayloadHash inbox' = h"
      "ev_ProcessingStatus inbox' = wr_Status (fst out)" "ev_SanitizedErrorCode inbox' = wr_Code (fst out)"
      "snd out = subscriptionWebhookDomainError (wr_Status (fst out))"
    by (auto simp: closes_inbox_def ev_key_def new_inbox_def)
  have "db_events s' = db_events s1 @ [inbox']"
    unfolding ev(1) CreateEvent_ok(1) [OF cr] using CreateEvent_ok(3) [OF cr] ev(2) by (simp add: upsert_appended)
  moreover have "find (\<lambda>x. ev_key x = (ps_ProviderMode st, eid)) (db_events s1 @ [inbox']) = Some inbox'"
    by (rule find_appended) (use CreateEvent_ok(2) [OF cr] ev(3) in \<open>simp_all add: ev_key_def new_inbox_def\<close>)
  ultimately show ?thesis using ev(4-) by auto
qed

text \<open>The tables a repeated delivery must not touch.\<close>

definition domain_tables :: "lifedb \<Rightarrow> subscription list \<times> command list \<times> billing_record list \<times> audit_record list" where
  "domain_tables s = (db_subs s, db_cmds s, db_billing s, db_audits s)"

lemma domain_frame:
  "GetEventForUpdate m e s = (r1, s') \<Longrightarrow> domain_tables s' = domain_tables s"
  "SaveEvent ev s = (r2, s') \<Longrightarrow> domain_tables s' = domain_tables s"
  "CreateEvent ev s = (r3, s') \<Longrightarrow> domain_tables s' = domain_tables s"
  unfolding repo_defs by (erule statement_frame; auto simp: domain_tables_def split: option.splits)+

lemma Transaction_domain:
  assumes "Transaction m s = (r, s')" and "\<And>t r t'. m t = (r, t') \<Longrightarrow> domain_tables t' = domain_tables t"
  shows "domain_tables s' = domain_tables s"
proof (cases r)
  case (Inl e)
  with assms(1) Transaction_error [of m s e s'] show ?thesis by (simp add: domain_tables_def tables_def)
next
  case (Inr x)
  from assms(1) [unfolded Inr] obtain s1 fs where "m (s\<lparr>db_aborted := False\<rparr>) = (Inr x, s1)" "s' = s1\<lparr>db_faults := fs\<rparr>"
    by (rule Transaction_ok)
  with assms(2) [of "s\<lparr>db_aborted := False\<rparr>"] show ?thesis by (simp add: domain_tables_def)
qed

lemma record_rejected_domain: "record_rejected_delivery m i et h v c t s = (r, s') \<Longrightarrow> domain_tables s' = domain_tables s"
proof -
  have u: "new_uuid s = (r, s') \<Longrightarrow> domain_tables s' = domain_tables s" for s r s'
    by (auto simp: new_uuid_def domain_tables_def)
  assume "record_rejected_delivery m i et h v c t s = (r, s')"
  then show ?thesis
    unfolding record_rejected_delivery_def tx_bind_def tx_try_def tx_fail_def
    by (auto split: prod.splits sum.splits if_splits dest!: domain_frame u)
qed

text \<open>A delivery already in the inbox with the same payload.\<close>

lemma replayed_delivery:
  assumes f: "find (\<lambda>x. ev_key x = (ps_ProviderMode st, eid)) (db_events s) = Some e" and h: "ev_PayloadHash e = h"
    and r: "webhook_tx cfg st ev eid h t occ s = (r, s')"
  shows "domain_tables s' = domain_tables s \<and>
    (\<forall>out. r = Inr out \<longrightarrow> out = (\<lparr>wr_Status = ev_ProcessingStatus e, wr_Duplicate = True, wr_Code = ev_SanitizedErrorCode e\<rparr>,
       subscriptionWebhookDomainError (ev_ProcessingStatus e))) \<and> r \<noteq> Inl ErrRazorpayEventAlreadyExists"
proof -
  obtain r1 s1 where g: "GetEventForUpdate (ps_ProviderMode st) eid s = (r1, s1)" by fastforce
  have d1: "domain_tables s1 = domain_tables s" by (rule domain_frame(1) [OF g])
  from GetEvent_cases [OF g] f consider "r1 = Inl ErrDatabase" | "r1 = Inr e" by auto
  then show ?thesis
  proof cases
    case 1
    with r g d1 show ?thesis by (auto simp: webhook_tx_def tx_bind_def tx_try_def tx_fail_def)
  next
    case 2
    let ?e = "e\<lparr>ev_ReplayCount := ev_ReplayCount e + 1, ev_LastReplayedAt := Some t\<rparr>"
    obtain r2 s2 where sv: "SaveEvent ?e s1 = (r2, s2)" by fastforce
    have d2: "domain_tables s2 = domain_tables s1" by (rule domain_frame(2) [OF sv])
    have "r2 = Inl ErrDatabase \<or> r2 = Inr ()" using sv unfolding SaveEvent_def by (cases rule: statement_cases) auto
    with 2 r g sv d1 d2 h show ?thesis
      by (auto simp: webhook_tx_def tx_bind_def tx_try_def tx_return_def recordSubscriptionEventReplayTx_def Let_def)
  qed
qed

lemma tx_error_event:
  assumes "Transaction m s = (Inl e, s')" and "\<And>t t'. m t \<noteq> (Inl e, t')" and "e \<noteq> ErrDatabase"
  shows False
  using assms(1,3) assms(2)
  by (auto simp: Transaction_def tx_return_def split: prod.splits sum.splits elim!: statement_cases)

lemma HandleWebhook_verified:
  assumes "TrimSpace eid \<noteq> []" and "TrimSpace (ps_WebhookSecret st) \<noteq> []"
    and "VerifyRazorpayWebhook body sig (ps_WebhookSecret st)"
  shows "HandleWebhook cfg (Inr st) sig eid body (Some ev) s =
    (let h = sha256Hex body; i = TrimSpace eid;
         occ = (if we_CreatedAtEpoch ev > 0 then Unix (we_CreatedAtEpoch ev) else db_wall s)
     in case Transaction (webhook_tx cfg st ev i h (db_wall s) occ) s of
          (Inl ErrRazorpayEventAlreadyExists, s1) \<Rightarrow>
            Transaction (tx_bind (GetEventForUpdate (ps_ProviderMode st) i)
              (\<lambda>existing. recordSubscriptionEventReplayTx existing h i (db_wall s))) s1
        | out \<Rightarrow> out)"
  using assms by (simp add: HandleWebhook_def Let_def)

section \<open>Rows that the database refuses\<close>

lemma aborted_statement: "db_aborted s \<Longrightarrow> statement f s = (Inl ErrDatabase, s)"
  by (simp add: statement_def)

lemma SaveSubscription_violates:
  assumes "\<And>v u. \<not> subscription_checks (a\<lparr>sub_LifecycleVersion := v, sub_UpdatedAt := u\<rparr>)" and "SaveSubscription a s = (r, s')"
  shows "r = Inl ErrDatabase \<and> db_aborted s'"
  using assms(2) unfolding SaveSubscription_def by (cases rule: statement_cases) (auto simp: assms(1) Let_def)

text \<open>A rejection inside a transaction that a statement has aborted fails too.\<close>

lemma reject_event_aborted: "db_aborted s \<Longrightarrow> \<exists>e s'. reject_event a f inbox c i t s = (Inl e, s')"
  by (simp add: reject_event_def tx_bind_def SaveSubscription_def aborted_statement)

text \<open>The period of a notice leaves the grace deadline computed from the old period behind.\<close>

definition grace_violated :: "lifecycle_config \<Rightarrow> subscription \<Rightarrow> rz_subscription \<Rightarrow> instant \<Rightarrow> bool" where
  "grace_violated cfg a p t \<longleftrightarrow> 0 < rz_CurrentStart p \<and> rz_CurrentStart p < rz_CurrentEnd p \<and>
     t + lc_GracePeriod cfg < Unix (rz_CurrentEnd p) \<and>
     (\<forall>pe. sub_PeriodEnd a = Some pe \<longrightarrow> pe + lc_GracePeriod cfg < Unix (rz_CurrentEnd p))"

lemma pending_row_violates:
  assumes "subscription_event_effect cfg a ev p i t st = EventApplied a1 b" and "we_Event ev = ''subscription.pending''"
    and "grace_violated cfg a p t"
  shows "b = None \<and> \<not> subscription_checks ((after_event ev p t a1)\<lparr>sub_LifecycleVersion := v, sub_UpdatedAt := u\<rparr>)"
proof -
  let ?row = "after_event ev p t a1"
  obtain gd where gd: "sub_GraceDeadline a1 = Some gd" "gd < Unix (rz_CurrentEnd p)" and b: "b = None"
    using assms by (auto simp: subscription_event_effect_def grace_violated_def Let_def split: if_splits option.splits)
  from gd(1) assms(2,3) have "sub_GraceDeadline ?row = Some gd" "sub_PeriodEnd ?row = Some (Unix (rz_CurrentEnd p))"
    by (simp_all add: after_event_def grace_violated_def)
  with gd(2) b show ?thesis by (simp add: subscription_checks_def)
qed

lemma pending_process_fails:
  assumes "we_Event ev = ''subscription.pending''" and "grace_violated cfg a p t"
    and "validateProviderSubscriptionIdentity a p st = []" and "validateProviderSubscriptionPlan a p = []"
    and "\<not> subscriptionEventIsStale a ev t" and "sub_Status a \<notin> {StatusCancelled, StatusExpired}"
  shows "\<exists>e s'. process_event cfg st ev p a inbox i t s = (Inl e, s')"
proof -
  obtain a1 b where eff: "subscription_event_effect cfg a ev p i t st = EventApplied a1 b"
    using assms(1,6) by (simp add: subscription_event_effect_def Let_def)
  note viol = pending_row_violates [OF eff assms(1,2)]
  obtain r s1 where save: "SaveSubscription (after_event ev p t a1) s = (r, s1)" by fastforce
  have "r = Inl ErrDatabase \<and> db_aborted s1" by (rule SaveSubscription_violates [OF _ save]) (use viol in blast)
  then have "applySubscriptionEventTx cfg a ev p i t st s = ((''subscription_persistence_failed'', Some ErrDatabase, after_event ev p t a1), s1)"
    and "db_aborted s1"
    using save viol by (simp_all add: applySubscriptionEventTx_def eff create_billing_def tx_return_def)
  with reject_event_aborted [of s1] show ?thesis using assms(3-5) by (simp add: process_event_def)
qed

lemma pending_tx_fails:
  assumes "we_Event ev = ''subscription.pending''" and "we_Subscription ev = Some p"
    and "find (\<lambda>x. ev_key x = (ps_ProviderMode st, i)) (db_events s) = None"
    and "find (\<lambda>r. sub_ProviderMode r = ps_ProviderMode st \<and> sub_ProviderSubscriptionID r = rz_ID p \<and> live r) (db_subs s) = Some a"
    and "\<And>inbox s. \<exists>e s'. process_event cfg st ev p a inbox i t s = (Inl e, s')"
  shows "webhook_tx cfg st ev i h rt t s \<noteq> (Inr x, s')"
proof
  assume "webhook_tx cfg st ev i h rt t s = (Inr x, s')"
  then obtain r s1 where g: "GetEventForUpdate (ps_ProviderMode st) i s = (r, s1)" and
    rest: "(case r of Inr existing \<Rightarrow> recordSubscriptionEventReplayTx existing h i rt
      | Inl e \<Rightarrow> if e \<noteq> ErrRazorpayEventNotFound then tx_fail e
         else tx_bind new_uuid (\<lambda>u. let inbox = new_inbox st ev i h rt t u
           in tx_bind (CreateEvent inbox) (\<lambda>_. dispatch_event cfg st ev inbox i t))) s1 = (Inr x, s')"
    unfolding webhook_tx_def by (elim tx_bind_Inr) (auto simp: tx_try_def split: prod.splits)
  have subs: "db_subs s1 = db_subs s" using g unfolding GetEventForUpdate_def
    by (cases rule: statement_cases) (auto split: option.splits)
  have "r = Inl ErrDatabase \<or> r = Inl ErrRazorpayEventNotFound" using GetEvent_cases [OF g] assms(3) by auto
  with rest obtain inbox s2 y s3 where c: "CreateEvent inbox s2 = (Inr y, s3)" "db_subs s2 = db_subs s1"
    and d: "dispatch_event cfg st ev inbox i t s3 = (Inr x, s')"
    by (auto simp: tx_fail_def Let_def new_uuid_def elim!: tx_bind_Inr)
  have subs3: "db_subs s3 = db_subs s" using c subs unfolding CreateEvent_def
    by (auto split: if_splits elim!: statement_cases)
  obtain g1 s4 where p: "GetByProviderIDForUpdate (ps_ProviderMode st) (rz_ID p) s3 = (g1, s4)" by fastforce
  have "g1 = Inl ErrDatabase \<and> db_aborted s4 \<or> g1 = Inr a"
    using p assms(4) subs3 unfolding GetByProviderIDForUpdate_def by (cases rule: statement_cases) auto
  then show False
    using d assms(5) [of "inbox\<lparr>ev_BusinessID := sub_BusinessID a, ev_SubscriptionID := sub_ID a\<rparr>" s4] p
    by (auto simp: dispatch_event_def assms(1,2) HasPrefix_def load_aggregate_def tx_bind_def tx_try_def tx_fail_def tx_return_def
        SaveEvent_def aborted_statement)
qed

lemma pending_delivery_fails:
  assumes "TrimSpace eid \<noteq> []" and "TrimSpace (ps_WebhookSecret st) \<noteq> []" and "VerifyRazorpayWebhook body sig (ps_WebhookSecret st)"
    and "we_Event ev = ''subscription.pending''" and "we_Subscription ev = Some p" and "0 < we_CreatedAtEpoch ev"
    and "find (\<lambda>x. ev_key x = (ps_ProviderMode st, TrimSpace eid)) (db_events s) = None"
    and "find (\<lambda>r. sub_ProviderMode r = ps_ProviderMode st \<and> sub_ProviderSubscriptionID r = rz_ID p \<and> live r) (db_subs s) = Some a"
    and "validateProviderSubscriptionIdentity a p st = []" and "validateProviderSubscriptionPlan a p = []"
    and "\<not> subscriptionEventIsStale a ev (Unix (we_CreatedAtEpoch ev))" and "sub_Status a \<notin> {StatusCancelled, StatusExpired}"
    and "grace_violated cfg a p (Unix (we_CreatedAtEpoch ev))"
  shows "\<exists>e s'. HandleWebhook cfg (Inr st) sig eid body (Some ev) s = (Inl e, s') \<and> tables s' = tables s"
proof -
  let ?tx = "webhook_tx cfg st ev (TrimSpace eid) (sha256Hex body) (db_wall s) (Unix (we_CreatedAtEpoch ev))"
  let ?again = "tx_bind (GetEventForUpdate (ps_ProviderMode st) (TrimSpace eid))
    (\<lambda>existing. recordSubscriptionEventReplayTx existing (sha256Hex body) (TrimSpace eid) (db_wall s))"
  have "\<And>inbox s i. \<exists>e s'. process_event cfg st ev p a inbox i (Unix (we_CreatedAtEpoch ev)) s = (Inl e, s')"
    by (rule pending_process_fails [OF assms(4,13,9-12)])
  then have tx: "?tx (s\<lparr>db_aborted := False\<rparr>) \<noteq> (Inr x, s')" for x s'
    by (intro pending_tx_fails [where p = p and a = a]) (use assms in auto)
  obtain r s1 where t: "Transaction ?tx s = (r, s1)" by fastforce
  with tx obtain e where r: "r = Inl e" by (cases r) (blast elim: Transaction_ok)+
  from Transaction_error t r have t1: "tables s1 = tables s" by blast
  obtain r2 s2 where t2: "Transaction ?again s1 = (r2, s2)" by fastforce
  have "r2 \<noteq> Inr y" for y
  proof
    assume "r2 = Inr y"
    with t2 obtain z s3 where "GetEventForUpdate (ps_ProviderMode st) (TrimSpace eid) (s1\<lparr>db_aborted := False\<rparr>) = (Inr z, s3)"
      by (auto elim!: Transaction_ok tx_bind_Inr)
    from GetEvent_cases [OF this] assms(7) t1 show False by (simp add: tables_def)
  qed
  then obtain e2 where "r2 = Inl e2" by (cases r2) auto
  with Transaction_error t2 t1 have "tables s2 = tables s" by metis
  with t t1 t2 r \<open>r2 = Inl e2\<close> show ?thesis
    unfolding HandleWebhook_verified [OF assms(1-3)] Let_def using assms(6) by (cases e) auto
qed

end
