(* ===== verification/Subscription_Commands.thy ===== *)
theory Subscription_Commands
  imports Subscription_Replay
begin

text \<open>
  Commands and their idempotency keys: a command whose key is on record never reaches the
  payment provider, and a command that reached the provider has its key on record, whatever
  fails afterwards.
\<close>

definition cmds_inv :: "(string \<times> string \<times> string \<times> string) set \<Rightarrow> provider_call list \<Rightarrow> lifedb \<Rightarrow> bool" where
  "cmds_inv K cs s \<longleftrightarrow> K \<subseteq> cmd_key ` set (db_cmds s) \<and> db_calls s = cs"

interpretation cmds: tx_invariant "cmds_inv K cs" for K cs
  by unfold_locales (auto simp: cmds_inv_def rollback_to_def)

lemma cmds_ops:
  "holds (cmds_inv K cs) (GetByBusinessIDForUpdate b) (\<lambda>_. True)"
  "holds (cmds_inv K cs) (CreateSubscription a) (\<lambda>_. True)"
  "holds (cmds_inv K cs) (SaveSubscription a) (\<lambda>_. True)"
  "holds (cmds_inv K cs) (CreateCommand c) (\<lambda>_. True)"
  "holds (cmds_inv K cs) (CreateAudit au) (\<lambda>_. True)"
  "holds (cmds_inv K cs) (GetCommandForUpdate b ac ax k) (\<lambda>c. cmd_key c = (b, ac, ax, k))"
  unfolding repo_defs
  by (rule cmds.holds_statement; force simp: cmds_inv_def Let_def split: option.splits if_splits dest: find_mem)+

lemma upsert_mem: "row \<in> set (upsert_by key row rows)"
  by (auto simp: upsert_by_def)

lemma cmds_save: "K \<subseteq> {cmd_key c} \<Longrightarrow> holds (cmds_inv K cs) (SaveCommand c) (\<lambda>_. True)"
  unfolding SaveCommand_def
  by (rule cmds.holds_statement) (use upsert_mem in \<open>fastforce simp: cmds_inv_def\<close>)

lemma cmds_audit:
  "holds (cmds_inv K cs) (lifecycleAudit s a f t2 c e oc) (\<lambda>_. True)"
  "holds (cmds_inv K cs) (command_audit b i a ac fs ts fp tp m c t) (\<lambda>_. True)"
  "holds (cmds_inv K cs) (new_command b i a ac k h) (\<lambda>_. True)"
  unfolding lifecycleAudit_def command_audit_def new_command_def
  by (rule holds_bind [OF cmds.holds_uuid]; (rule holds_return cmds_ops, simp?))+

lemma cmds_load:
  "holds (cmds_inv K cs) (load_same b i) (\<lambda>_. True)"
  "holds (cmds_inv K cs) (load_initializing b ac ax k h) (\<lambda>c. cmd_key c = (b, ac, ax, k))"
  unfolding load_same_def load_initializing_def
  by (rule holds_bind [OF cmds_ops(1)], auto intro: holds_if holds_fail holds_return)
     (rule holds_bind [OF cmds_ops(6)], auto intro: holds_if holds_fail holds_return)

lemma mark_command_inv:
  "K \<subseteq> {(b, ac, ax, k)} \<Longrightarrow> holds (cmds_inv K cs) (mark_command b ac ax k code) (\<lambda>_. True)"
  unfolding mark_command_def
  by (rule holds_bind_try [OF cmds_ops(6)]) (auto intro!: cmds_save holds_return simp: cmd_key_def)

lemma compensation_inv:
  assumes "K \<subseteq> {(b, ac, ax, k)}"
  shows "holds (cmds_inv K cs) (completeCommand b ac ax k h) (\<lambda>_. True)"
    and "sub_BusinessID a = b \<Longrightarrow> holds (cmds_inv K cs) (markCommandUnknown a ac ax k code t) (\<lambda>_. True)"
    and "sub_BusinessID a = b \<Longrightarrow> holds (cmds_inv K cs) (rejectProviderMutation a prev ac ax k h code t) (\<lambda>_. True)"
    and "ax = subscriptionCommandStart \<Longrightarrow> holds (cmds_inv K cs) (markUnknownProviderOutcome i b ac k t code) (\<lambda>_. True)"
proof -
  have sv: "holds (cmds_inv K cs) (SaveCommand (c\<lparr>cmd_Status := x, cmd_CompletedAt := y\<rparr>)) (\<lambda>_. True)"
    "holds (cmds_inv K cs) (SaveCommand (c\<lparr>cmd_Status := x, cmd_SanitizedErrorCode := z, cmd_CompletedAt := y\<rparr>)) (\<lambda>_. True)"
    if "cmd_key c = (b, ac, ax, k)" for c x y z
    using that assms by (auto intro!: cmds_save simp: cmd_key_def)
  show "holds (cmds_inv K cs) (completeCommand b ac ax k h) (\<lambda>_. True)"
  proof (rule holdsI)
    fix s r s' assume i: "cmds_inv K cs s" and c: "completeCommand b ac ax k h s = (r, s')"
    have "holds (cmds_inv K cs) (Transaction (tx_bind (load_initializing b ac ax k h) (\<lambda>c.
        SaveCommand (c\<lparr>cmd_Status := ''completed'', cmd_CompletedAt := Some (db_wall s)\<rparr>)))) (\<lambda>_. True)"
      by (intro cmds.holds_Transaction holds_bind [OF cmds_load(2)] sv)
    from holdsD [OF this i c [unfolded completeCommand_def]] show "cmds_inv K cs s' \<and> (\<forall>x. r = Inr x \<longrightarrow> True)" by simp
  qed
  show "holds (cmds_inv K cs) (markCommandUnknown a ac ax k code t) (\<lambda>_. True)" if "sub_BusinessID a = b"
    unfolding markCommandUnknown_def that
    by (intro cmds.holds_Transaction holds_bind [OF cmds_load(1)] holds_bind [OF cmds_ops(3)] holds_bind [OF mark_command_inv [OF assms]]
          holds_bind [OF cmds_audit(1)] cmds_ops)
  show "holds (cmds_inv K cs) (rejectProviderMutation a prev ac ax k h code t) (\<lambda>_. True)" if "sub_BusinessID a = b"
    unfolding rejectProviderMutation_def that Let_def
    by (intro cmds.holds_Transaction holds_bind [OF cmds_load(1)] holds_bind [OF cmds_ops(3)] holds_bind [OF cmds_load(2)]
          holds_bind [OF sv(2)] cmds_audit) simp
  show "holds (cmds_inv K cs) (markUnknownProviderOutcome i b ac k t code) (\<lambda>_. True)" if "ax = subscriptionCommandStart"
    unfolding markUnknownProviderOutcome_def using assms that
    by (intro cmds.holds_Transaction holds_bind [OF cmds_load(1)] holds_bind [OF cmds_ops(3)] holds_bind [OF mark_command_inv]
          cmds_audit) simp
qed

section \<open>The first transaction\<close>

text \<open>\<open>ensures m Q\<close>: a value that \<open>m\<close> returns and the state it leaves satisfy \<open>Q\<close>.\<close>

definition ensures :: "'a tx \<Rightarrow> ('a \<Rightarrow> lifedb \<Rightarrow> bool) \<Rightarrow> bool" where
  "ensures m Q \<longleftrightarrow> (\<forall>s x s'. m s = (Inr x, s') \<longrightarrow> Q x s')"

lemma ensures_bind: "(\<And>x. ensures (k x) Q) \<Longrightarrow> ensures (tx_bind m k) Q"
  by (force simp: ensures_def elim!: tx_bind_Inr)

lemma ensures_fail: "ensures (tx_fail e) Q"
  by (simp add: ensures_def tx_fail_def)

lemma ensures_return: "(\<And>s. Q x s) \<Longrightarrow> ensures (tx_return x) Q"
  by (simp add: ensures_def tx_return_def)

lemma ensures_if: "ensures m Q \<Longrightarrow> ensures n Q \<Longrightarrow> ensures (if b then m else n) Q"
  by simp

lemma ensures_Transaction:
  assumes "ensures m Q" and "\<And>x s fs. Q x s \<Longrightarrow> Q x (s\<lparr>db_faults := fs\<rparr>)"
  shows "ensures (Transaction m) Q"
  using assms unfolding ensures_def by (metis Transaction_ok)

definition begun_recorded :: "(string \<times> string \<times> string \<times> string) \<Rightarrow> 'r begun \<Rightarrow> lifedb \<Rightarrow> bool" where
  "begun_recorded k x s = (case x of Replayed _ \<Rightarrow> True | Begun _ _ \<Rightarrow> k \<in> cmd_key ` set (db_cmds s))"

lemma recorded_command:
  "ensures (tx_bind (new_command b i ac ax k h) (\<lambda>_. tx_bind (command_audit b2 i2 a2 ac2 fs ts fp tp m c t) (\<lambda>_. tx_return x)))
     (begun_recorded (b, ac, ax, k))"
  unfolding ensures_def
proof (intro allI impI)
  fix s y s' assume run: "tx_bind (new_command b i ac ax k h)
      (\<lambda>_. tx_bind (command_audit b2 i2 a2 ac2 fs ts fp tp m c t) (\<lambda>_. tx_return x)) s = (Inr y, s')"
  then obtain z s1 where n: "new_command b i ac ax k h s = (Inr z, s1)"
    and rest: "tx_bind (command_audit b2 i2 a2 ac2 fs ts fp tp m c t) (\<lambda>_. tx_return x) s1 = (Inr y, s')"
    by (rule tx_bind_Inr)
  have "cmds_inv {(b, ac, ax, k)} (db_calls s1) s1"
  proof -
    from n obtain u s0 where "CreateCommand \<lparr>cmd_ID = u, cmd_BusinessID = b, cmd_SubscriptionID = i, cmd_ActorUserID = ac,
        cmd_Action = ax, cmd_IdempotencyKey = k, cmd_RequestHash = h, cmd_Status = ''initializing'',
        cmd_SanitizedErrorCode = [], cmd_ResponseStatus = [], cmd_ResponseBillingMode = [],
        cmd_ResponsePendingPlanID = [], cmd_ResponseAuthorizationURL = [], cmd_CompletedAt = None\<rparr> s0 = (Inr z, s1)"
      unfolding new_command_def by (rule tx_bind_Inr)
    then show ?thesis unfolding CreateCommand_def
      by (cases rule: statement_cases) (auto simp: cmds_inv_def cmd_key_def split: if_splits)
  qed
  moreover have "holds (cmds_inv K cs) (tx_bind (command_audit b2 i2 a2 ac2 fs ts fp tp m c t) (\<lambda>_. tx_return x)) (\<lambda>_. True)" for K cs
    by (rule holds_bind [OF cmds_audit(2)]) (rule holds_return, simp)
  ultimately have "cmds_inv {(b, ac, ax, k)} (db_calls s1) s'" using rest holdsD by blast
  then show "begun_recorded (b, ac, ax, k) y s'" by (auto simp: begun_recorded_def cmds_inv_def split: begun.splits)
qed

lemma begun_frame: "begun_recorded k x s \<Longrightarrow> begun_recorded k x (s\<lparr>db_faults := fs\<rparr>)"
  by (auto simp: begun_recorded_def split: begun.splits)

lemma ensures_begin:
  assumes "\<And>r. ensures (k r) (begun_recorded c)"
  shows "ensures (Transaction (tx_bind m k)) (begun_recorded c)"
  by (rule ensures_Transaction) (auto intro: ensures_bind assms begun_frame)

lemma StartRenewable_begin_recorded:
  "ensures (StartRenewable_begin st plan pp b ac k h now) (begun_recorded (b, ac, subscriptionCommandStart, k))"
  unfolding StartRenewable_begin_def Let_def
  by (rule ensures_begin)
     (auto split: option.splits sum.splits
        intro!: ensures_if ensures_fail ensures_bind recorded_command ensures_return simp: begun_recorded_def case_prod_beta)

lemma schedule_begin_recorded:
  "ensures (schedule_begin b ac ax k h allowed change toPlan code now) (begun_recorded (b, ac, ax, k))"
  unfolding schedule_begin_def Let_def
  by (rule ensures_begin)
     (auto split: option.splits sum.splits
        intro!: ensures_if ensures_fail ensures_bind recorded_command ensures_return simp: begun_recorded_def)

text \<open>With the key on record the first transaction never starts new work.\<close>

lemma known_command:
  assumes "cmds_inv {(b, ac, ax, k)} cs s"
    and run: "Transaction (tx_bind (tx_try (GetCommandForUpdate b ac ax k)) f) s = (Inr (x :: 'r begun), s')"
    and found: "\<And>c. ensures (f (Inr c)) (\<lambda>x _. \<exists>y. x = Replayed y)" and failed: "f (Inl ErrDatabase) = tx_fail ErrDatabase"
  shows "\<exists>y. x = Replayed y"
proof -
  from run obtain s1 where "tx_bind (tx_try (GetCommandForUpdate b ac ax k)) f (s\<lparr>db_aborted := False\<rparr>) = (Inr x, s1)"
    by (rule Transaction_ok)
  then obtain r s2 where g: "GetCommandForUpdate b ac ax k (s\<lparr>db_aborted := False\<rparr>) = (r, s2)" and f: "f r s2 = (Inr x, s1)"
    by (auto simp: tx_bind_def tx_try_def split: prod.splits)
  have "find (\<lambda>c. cmd_key c = (b, ac, ax, k)) (db_cmds s) \<noteq> None"
    using assms(1) by (auto simp: cmds_inv_def find_None_iff)
  with g have "r = Inl ErrDatabase \<or> (\<exists>c. r = Inr c)"
    unfolding GetCommandForUpdate_def by (cases rule: statement_cases) (auto split: option.splits)
  then show ?thesis
  proof
    assume "r = Inl ErrDatabase"
    with f failed show ?thesis by (simp add: tx_fail_def)
  next
    assume "\<exists>c. r = Inr c"
    with f found show ?thesis unfolding ensures_def by blast
  qed
qed

lemma StartRenewable_begin_known:
  assumes "cmds_inv {(b, ac, subscriptionCommandStart, k)} cs s"
    and "StartRenewable_begin st plan pp b ac k h now s = (Inr x, s')"
  shows "\<exists>y. x = Replayed y"
  by (rule known_command [OF assms(1) assms(2) [unfolded StartRenewable_begin_def]])
     (auto split: option.splits simp: Let_def intro!: ensures_fail ensures_return ensures_if)

lemma schedule_begin_known:
  assumes "cmds_inv {(b, ac, ax, k)} cs s"
    and "schedule_begin b ac ax k h allowed change toPlan code now s = (Inr x, s')"
  shows "\<exists>y. x = Replayed y"
  by (rule known_command [OF assms(1) assms(2) [unfolded schedule_begin_def]])
     (auto split: option.splits intro!: ensures_fail ensures_return ensures_bind)

text \<open>The first transaction makes no call to the provider and forgets no command.\<close>

lemma begin_inv:
  "holds (cmds_inv K cs) (StartRenewable_begin st plan pp b ac k h now) (\<lambda>_. True)"
  "holds (cmds_inv K cs) (schedule_begin b ac ax k h allowed change toPlan code now) (\<lambda>_. True)"
proof -
  have work: "holds (cmds_inv K cs) (tx_bind (new_command b i ac ax k h)
      (\<lambda>_. tx_bind (command_audit b2 i2 a2 ac2 fs ts fp tp m c t) (\<lambda>_. tx_return y))) (\<lambda>_. True)"
    for i ax b2 i2 a2 ac2 fs ts fp tp m c t and y :: "'z begun"
    by (intro holds_bind [OF cmds_audit(3)] holds_bind [OF cmds_audit(2)] holds_return) simp
  show "holds (cmds_inv K cs) (StartRenewable_begin st plan pp b ac k h now) (\<lambda>_. True)"
    unfolding StartRenewable_begin_def Let_def
    by (rule cmds.holds_Transaction, rule holds_bind_try [OF cmds_ops(6)])
       (auto split: option.splits sum.splits simp: case_prod_beta
          intro!: holds_if holds_fail holds_return work holds_bind_try [OF cmds_ops(1)] holds_bind [OF holds_bind [OF cmds_ops(3)]]
            holds_bind [OF holds_fail] holds_bind [OF holds_if]
            holds_bind [OF holds_bind [OF cmds.holds_uuid holds_bind [OF cmds_ops(2)]]])
  show "holds (cmds_inv K cs) (schedule_begin b ac ax k h allowed change toPlan code now) (\<lambda>_. True)"
    unfolding schedule_begin_def
    by (rule cmds.holds_Transaction, rule holds_bind_try [OF cmds_ops(6)])
       (auto split: option.splits intro!: holds_if holds_fail holds_return work holds_bind [OF cmds_ops(1)] holds_bind [OF cmds_ops(3)])
qed

section \<open>The second transaction\<close>

lemma commit_inv:
  assumes K: "K \<subseteq> {(b, ac, subscriptionCommandStart, k)}"
  shows "holds (cmds_inv K cs) (StartRenewable_commit st plan a b ac k h created t) (\<lambda>_. True)"
proof -
  let ?c = "\<lambda>c. c\<lparr>cmd_Status := ''completed'', cmd_ResponseStatus := StatusPendingPayment,
                  cmd_ResponseBillingMode := BillingModeRenewable, cmd_ResponsePendingPlanID := plan_ID plan,
                  cmd_ResponseAuthorizationURL := rz_ShortURL created, cmd_CompletedAt := Some t\<rparr>"
  have "cmd_key (?c c) = cmd_key c" for c by (simp add: cmd_key_def)
  then have sv: "holds (cmds_inv K cs) (SaveCommand (?c c)) (\<lambda>_. True)" if "cmd_key c = (b, ac, subscriptionCommandStart, k)" for c
    by (intro cmds_save) (use that K in simp)
  show ?thesis unfolding StartRenewable_commit_def
    by (intro cmds.holds_Transaction holds_bind [OF cmds_load(1)] holds_bind [OF cmds_load(2)] holds_bind [OF cmds_ops(3)]
          holds_bind [OF sv] holds_bind [OF cmds_audit(2)] holds_return; simp)
qed

lemma StartRenewable_finish_inv:
  assumes "K \<subseteq> {(b, ac, subscriptionCommandStart, k)}" and "sub_BusinessID a = b"
  shows "holds (cmds_inv K cs) (StartRenewable_finish st plan pp a prev b ac k h now outcome) (\<lambda>_. True)"
proof (rule holdsI)
  fix s r s' assume i: "cmds_inv K cs s"
    and run: "StartRenewable_finish st plan pp a prev b ac k h now outcome s = (r, s')"
  note comp = compensation_inv [OF assms(1)]
  have unk: "cmds_inv K cs (snd (markUnknownProviderOutcome i b ac k now code s1))" if "cmds_inv K cs s1" for i code s1
    using holdsD [OF comp(4) [OF refl] that] by (metis surjective_pairing)
  have rej: "cmds_inv K cs s2" if "rejectProviderMutation a prev ac subscriptionCommandStart k h code now s = (r2, s2)" for code r2 s2
    using holdsD [OF comp(3) [OF assms(2)] i that] by simp
  have cm: "cmds_inv K cs s2" if "StartRenewable_commit st plan a b ac k h created t s = (r2, s2)" for created t r2 s2
    using holdsD [OF commit_inv [OF assms(1)] i that] by simp
  from run i show "cmds_inv K cs s' \<and> (\<forall>x. r = Inr x \<longrightarrow> True)"
    by (auto simp: StartRenewable_finish_def Let_def unk split: provider_outcome.splits option.splits if_splits sum.splits prod.splits
          dest: rej cm intro: unk)
qed

lemma schedule_finish_inv:
  assumes "K \<subseteq> {(sub_BusinessID a, ac, ax, k)}"
  shows "holds (cmds_inv K cs) (schedule_finish a prev ac ax k h c1 c2 c3 now accepted outcome) (\<lambda>_. True)"
proof (rule holdsI)
  fix s r s' assume i: "cmds_inv K cs s" and run: "schedule_finish a prev ac ax k h c1 c2 c3 now accepted outcome s = (r, s')"
  note comp = compensation_inv [OF assms]
  have unk: "cmds_inv K cs (snd (markCommandUnknown a ac ax k code now s1))" if "cmds_inv K cs s1" for code s1
    using holdsD [OF comp(2) [OF refl] that] by (metis surjective_pairing)
  have rej: "cmds_inv K cs s2" if "rejectProviderMutation a prev ac ax k h code now s = (r2, s2)" for code r2 s2
    using holdsD [OF comp(3) [OF refl] i that] by simp
  have cc: "cmds_inv K cs s2" if "completeCommand (sub_BusinessID a) ac ax k h s = (r2, s2)" for r2 s2
    using holdsD [OF comp(1) i that] by simp
  from run i show "cmds_inv K cs s' \<and> (\<forall>x. r = Inr x \<longrightarrow> True)"
    by (auto simp: schedule_finish_def Let_def unk split: provider_outcome.splits option.splits if_splits sum.splits prod.splits
          dest: rej cc intro: unk)
qed

end
