(* ===== verification/Subscription_Wellformed.thy ===== *)
theory Subscription_Wellformed
  imports Subscription_Proofs Subscription_Commands
begin

text \<open>
  Row invariants of the whole service. A predicate on subscription rows that every change
  the service makes to an aggregate preserves holds of every row after every handler, under
  any schedule of database failures. The locale states the changes; it is interpreted on
  the well-formedness of a row.
\<close>

locale row_property =
  fixes P :: "subscription \<Rightarrow> bool" and cfg :: lifecycle_config
  assumes frame [simp]: "P (a\<lparr>sub_LifecycleVersion := v, sub_UpdatedAt := t\<rparr>) = P a" "P (a\<lparr>sub_UpdatedAt := t\<rparr>) = P a"
      "P (a\<lparr>sub_LifecycleVersion := v\<rparr>) = P a"
    and mark: "P a \<Longrightarrow> P (mark_reconciliation code a)"
    and event: "P a \<Longrightarrow> subscription_event_effect cfg a ev p eid t st = EventApplied a' b \<Longrightarrow> P a' \<and> P (after_event ev p t a')"
    and fresh: "P (start_pending st plan pp (fresh_subscription u bid now))"
    and restart: "P a \<Longrightarrow> P (start_pending st plan pp (resetSubscriptionForRenewableRestart now a))"
    and created: "P a \<Longrightarrow> P (a\<lparr>sub_ProviderSubscriptionID := i, sub_ProviderCustomerID := c, sub_ProviderPlanID := pl,
        sub_Status := StatusPendingPayment, sub_ReconciliationCode := []\<rparr>)"
    and reset: "P a \<Longrightarrow> P ((resetSubscriptionForRenewableRestart now a)\<lparr>sub_Status := StatusActive, sub_BillingMode := BillingModeFree\<rparr>)"
    and changed: "P a \<Longrightarrow> mutable_subscription st a \<Longrightarrow> P (plan_change plan pp a)"
    and cancelling: "P a \<Longrightarrow> mutable_subscription st a \<Longrightarrow> P (cancellation_change a)"
    and ended: "P a \<Longrightarrow> P (a\<lparr>sub_Status := StatusCancelled, sub_CancelAtPeriodEnd := False, sub_CancellationEffectiveAt := None,
        sub_CancelledAt := Some t, sub_ReconciliationCode := []\<rparr>)"
    and reconciled: "P a \<Longrightarrow> reconcile_effect a p st now = Inr (a', pl') \<Longrightarrow> P (a'\<lparr>sub_ReconciliationCode := []\<rparr>)"
    and suspended: "P a \<Longrightarrow> P (a\<lparr>sub_Status := StatusSuspended\<rparr>)"
begin

abbreviation ok :: "lifedb \<Rightarrow> bool" where
  "ok \<equiv> rows_ok P (\<lambda>_. True)"

lemma save: "P a \<Longrightarrow> holds ok (SaveSubscription a) P"
  by (rule rows_save) simp

lemma billing: "holds ok (create_billing b) (\<lambda>_. True)"
  by (rule holds_create_billing) simp

lemma applied:
  assumes "P a" and "ok s" and "applySubscriptionEventTx cfg a ev p eid t st s = ((code, e, a'), s')"
  shows "ok s' \<and> P a'"
proof (cases "subscription_event_effect cfg a ev p eid t st")
  case (EventApplied a1 b)
  from event [OF assms(1) this] have p: "P a1" "P (after_event ev p t a1)" by auto
  have au: "holds ok (tx_bind new_uuid (\<lambda>u. CreateAudit (f u))) (\<lambda>_. True)" for f
    by (rule holds_bind [OF rows.holds_uuid]) (rule rows_other)
  obtain r1 s1 where c: "create_billing b s = (r1, s1)" by fastforce
  from holdsD [OF billing assms(2) c] have i1: "ok s1" by simp
  obtain r2 s2 where c2: "SaveSubscription (after_event ev p t a1) s1 = (r2, s2)" by fastforce
  from holdsD [OF save [OF p(2)] i1 c2] have i2: "ok s2" "\<forall>x. r2 = Inr x \<longrightarrow> P x" by auto
  have au2: "ok s3" if "tx_bind new_uuid (\<lambda>u. CreateAudit (f u)) s2 = (r3, s3)" for f r3 s3
    using holdsD [OF au i2(1) that] by simp
  show ?thesis
    using assms(3) EventApplied c c2 i1 i2 p
    by (auto simp: applySubscriptionEventTx_def Let_def split: sum.splits prod.splits dest: au2)
qed (use assms in \<open>auto simp: applySubscriptionEventTx_def\<close>)

lemma rejected: "P a \<Longrightarrow> holds ok (reject_event a f inbox code eid t) (\<lambda>_. True)"
  by (rule holds_reject_event) (simp_all add: mark)

lemma processed: "P a \<Longrightarrow> holds ok (process_event cfg st ev p a inbox eid t) (\<lambda>_. True)"
proof -
  assume a: "P a"
  have app: "holds ok (\<lambda>s. case applySubscriptionEventTx cfg a ev p eid t st s of
                    ((code, Some _, a'), s1) \<Rightarrow> reject_event a' (sub_Status a') inbox code eid t s1
                  | ((code, None, _), s1) \<Rightarrow> finish_event inbox code s1) (\<lambda>_. True)"
  proof (rule holdsI)
    fix s r s' assume i: "ok s"
      and m: "(case applySubscriptionEventTx cfg a ev p eid t st s of
                    ((code, Some _, a'), s1) \<Rightarrow> reject_event a' (sub_Status a') inbox code eid t s1
                  | ((code, None, _), s1) \<Rightarrow> finish_event inbox code s1) = (r, s')"
    obtain code e a' s1 where ap: "applySubscriptionEventTx cfg a ev p eid t st s = ((code, e, a'), s1)" by (metis surj_pair)
    from applied [OF a i ap] have j: "ok s1" "P a'" by auto
    show "ok s' \<and> (\<forall>x. r = Inr x \<longrightarrow> True)"
    proof (cases e)
      case None
      with m ap have "finish_event inbox code s1 = (r, s')" by simp
      from holdsD [OF holds_finish_event j(1) this] show ?thesis by simp
    next
      case (Some x)
      with m ap have "reject_event a' (sub_Status a') inbox code eid t s1 = (r, s')" by simp
      from holdsD [OF rejected [OF j(2)] j(1) this] show ?thesis by simp
    qed
  qed
  show ?thesis unfolding process_event_def Let_def by (intro holds_if rejected a holds_finish_event app)
qed

lemma saved_event: "holds ok (tx_bind (SaveEvent x) (\<lambda>_. tx_return y)) (\<lambda>_. True)"
  by (rule holds_bind [OF rows_other(7)]) (rule holds_return, simp)

lemma replayed: "holds ok (recordSubscriptionEventReplayTx existing h eid t) (\<lambda>_. True)"
  unfolding recordSubscriptionEventReplayTx_def Let_def
  by (intro holds_if saved_event holds_bind_try [OF rows_get(1)] holds_bind [OF save] holds_bind [OF rows_audit]
        holds_bind [OF rows_other(4)] mark | simp)+

lemma dispatched: "holds ok (dispatch_event cfg st ev inbox eid occ) (\<lambda>_. True)"
proof -
  have "holds ok (tx_bind (tx_try (load_aggregate st p)) (\<lambda>r. case r of
        Inl _ \<Rightarrow> tx_bind (SaveEvent x) (\<lambda>_. tx_return y)
      | Inr a \<Rightarrow> process_event cfg st ev p a (inb a) eid occ)) (\<lambda>_. True)" for p x y inb
    by (rule holds_bind_try [OF load_aggregate_ok [of P]]) (auto intro: processed saved_event)
  with saved_event show ?thesis
    by (auto simp: dispatch_event_def reject_unsupported_def split: option.splits)
qed

lemma webhook: "holds ok (webhook_tx cfg st ev eid h t occ) (\<lambda>_. True)"
  unfolding webhook_tx_def Let_def
  by (rule holds_bind_try [OF rows_other(5)])
     (auto intro!: replayed holds_if holds_fail holds_bind [OF rows.holds_uuid] holds_bind [OF rows_other(6)] dispatched)

lemma HandleWebhook_ok:
  assumes "ok s"
  shows "ok (snd (HandleWebhook cfg resolved sig eid body parsed s))"
proof -
  have tx: "ok (snd (Transaction m t))" if "holds ok m (\<lambda>_. True)" "ok t" for m :: "'x tx" and t
    using holdsD [OF rows.holds_Transaction [OF that(1)] that(2)] by (metis surjective_pairing)
  have again: "holds ok (tx_bind (GetEventForUpdate m i) (\<lambda>existing. recordSubscriptionEventReplayTx existing h d t)) (\<lambda>_. True)" for m i h d t
    by (rule holds_bind [OF rows_other(5) replayed])
  show ?thesis
  proof (cases resolved)
    case (Inl e)
    then show ?thesis using assms by (simp add: HandleWebhook_def)
  next
    case (Inr st)
    show ?thesis
    proof (cases "TrimSpace eid = [] \<or> (TrimSpace (ps_WebhookSecret st) = [] \<or> \<not> VerifyRazorpayWebhook body sig (ps_WebhookSecret st)) \<or> parsed = None")
      case True
      then show ?thesis using assms Inr tx [OF record_rejected_ok assms] by (auto simp: HandleWebhook_def Let_def)
    next
      case False
      then obtain ev where v: "TrimSpace eid \<noteq> []" "TrimSpace (ps_WebhookSecret st) \<noteq> []"
        "VerifyRazorpayWebhook body sig (ps_WebhookSecret st)" "parsed = Some ev" by auto
      let ?occ = "if we_CreatedAtEpoch ev > 0 then Unix (we_CreatedAtEpoch ev) else db_wall s"
      obtain r1 s1 where t: "Transaction (webhook_tx cfg st ev (TrimSpace eid) (sha256Hex body) (db_wall s) ?occ) s = (r1, s1)" by fastforce
      with tx [OF webhook assms] have "ok s1" by (metis snd_conv)
      with tx [OF again, of s1] show ?thesis
        unfolding Inr v(4) HandleWebhook_verified [OF v(1-3)] Let_def t
        by (auto split: sum.splits lifecycle_error.splits)
    qed
  qed
qed

text \<open>What the first transaction of a command hands to the second.\<close>

definition begun_ok :: "'r begun \<Rightarrow> bool" where
  "begun_ok x \<longleftrightarrow> (case x of Begun a prev \<Rightarrow> P a \<and> (\<forall>q. prev = Some q \<longrightarrow> P q) | Replayed _ \<Rightarrow> True)"

lemma recorded:
  "begun_ok x \<Longrightarrow> holds ok (tx_bind (new_command b i ac ax k h) (\<lambda>_. tx_bind (command_audit b2 i2 a2 ac2 fs ts fp tp m c t) (\<lambda>_. tx_return x))) begun_ok"
  by (intro holds_bind [OF rows_command_audit(2)] holds_bind [OF rows_command_audit(1)] holds_return)

lemma schedule_begin_ok:
  assumes "\<And>a. P a \<Longrightarrow> allowed a \<Longrightarrow> P (change a)"
  shows "holds ok (schedule_begin b ac ax k h allowed change toPlan code now) begun_ok"
proof -
  have work: "holds ok (tx_bind (SaveSubscription (change c)) (\<lambda>a. tx_bind (new_command b (sub_ID a) ac ax k h) (\<lambda>_.
      tx_bind (command_audit b (sub_ID a) ac ax (sub_Status c) (sub_Status a) (currentCatalogPlanID a) (toPlan a) (sub_ProviderMode a) code now)
        (\<lambda>_. tx_return (Begun a (Some c)))))) begun_ok" if "P c" "allowed c" for c
    by (rule holds_bind [OF save [OF assms [OF that]]]) (rule recorded, simp add: begun_ok_def that)
  have rep: "holds ok (tx_bind (GetByBusinessIDForUpdate b) (\<lambda>c. tx_return (Replayed c))) begun_ok"
    by (rule holds_bind [OF rows_get(1)]) (rule holds_return, simp add: begun_ok_def)
  show ?thesis unfolding schedule_begin_def
    by (rule rows.holds_Transaction, rule holds_bind_try [OF rows_other(1)])
       (auto split: option.splits intro!: holds_if holds_fail rep holds_bind [OF rows_get(1)] work)
qed

lemma StartRenewable_begin_ok: "holds ok (StartRenewable_begin st plan pp b ac k h now) begun_ok"
proof -
  have rest: "holds ok (case x of (a, prev, from) \<Rightarrow> tx_bind (new_command b (sub_ID a) ac ax k h) (\<lambda>_.
      tx_bind (command_audit b (sub_ID a) ac ax from (sub_Status a) [] (plan_ID plan) (ps_ProviderMode st) c now) (\<lambda>_. tx_return (Begun a prev)))) begun_ok"
    if "P (fst x) \<and> (\<forall>q. fst (snd x) = Some q \<longrightarrow> P q)" for x :: "subscription \<times> subscription option \<times> string" and ax c
    using that by (cases x) (auto intro!: recorded simp: begun_ok_def)
  have saved: "holds ok (tx_bind (SaveSubscription (start_pending st plan pp (resetSubscriptionForRenewableRestart now c)))
      (\<lambda>a. tx_return (a, Some c, sub_Status c))) (\<lambda>x. P (fst x) \<and> (\<forall>q. fst (snd x) = Some q \<longrightarrow> P q))" if "P c" for c
    by (rule holds_bind [OF save [OF restart [OF that]]]) (rule holds_return, use that in simp)
  have made: "holds ok (tx_bind new_uuid (\<lambda>u. tx_bind (CreateSubscription (start_pending st plan pp (fresh_subscription u b now)))
      (\<lambda>a. tx_return (a, None, sub_Status (fresh_subscription u b now))))) (\<lambda>x. P (fst x) \<and> (\<forall>q. fst (snd x) = Some q \<longrightarrow> P q))"
    by (rule holds_bind [OF rows.holds_uuid], rule holds_bind [OF rows_create [of P]]) (simp add: fresh, rule holds_return, simp)
  show ?thesis unfolding StartRenewable_begin_def Let_def
    apply (rule rows.holds_Transaction, rule holds_bind_try [OF rows_other(1)])
     apply (simp split: option.splits; intro conjI impI allI holds_if holds_fail holds_return; simp add: begun_ok_def holds_fail holds_return)
    apply (simp only: sum.case, rule holds_if, rule holds_fail)
    apply (rule holds_bind_try [OF rows_get(1)])
     apply (rule holds_bind [OF _ rest])
      apply (simp only: sum.case, rule holds_if, rule holds_fail, erule saved, assumption)
    apply (rule holds_bind [OF _ rest])
     apply (simp only: sum.case, rule holds_if, rule holds_fail, rule made, assumption)
    done
qed

lemma load_ok:
  "holds ok (load_same b i) P" "holds ok (load_initializing b ac ax k h) (\<lambda>_. True)" "holds ok (mark_command b ac ax k code) (\<lambda>_. True)"
  unfolding load_same_def load_initializing_def mark_command_def
    apply (rule holds_bind [OF rows_get(1)], rule holds_if, rule holds_fail, erule holds_return)
   apply (rule holds_bind [OF rows_other(1)], rule holds_if, rule holds_fail, rule holds_return, simp)
  apply (rule holds_bind_try [OF rows_other(1)]; simp add: rows_other(3) holds_return)
  done

lemma compensation_ok:
  shows "holds ok (completeCommand b ac ax k h) (\<lambda>_. True)"
    and "holds ok (markCommandUnknown a ac ax k code t) (\<lambda>_. True)"
    and "(\<And>q. prev = Some q \<Longrightarrow> P q) \<Longrightarrow> holds ok (rejectProviderMutation a prev ac ax k h code t) (\<lambda>_. True)"
    and "holds ok (markUnknownProviderOutcome i b ac k t code) (\<lambda>_. True)"
proof -
  show "holds ok (completeCommand b ac ax k h) (\<lambda>_. True)"
  proof (rule holdsI)
    fix s r s' assume i: "ok s" and c: "completeCommand b ac ax k h s = (r, s')"
    obtain t where t: "db_wall s = t" by simp
    from holdsD [OF rows.holds_Transaction [OF holds_bind [OF load_ok(2) rows_other(3)]] i c [unfolded completeCommand_def t]]
    show "ok s' \<and> (\<forall>x. r = Inr x \<longrightarrow> True)" by simp
  qed
  show "holds ok (markCommandUnknown a ac ax k code t) (\<lambda>_. True)"
    unfolding markCommandUnknown_def
    by (intro rows.holds_Transaction holds_bind [OF load_ok(1)] holds_bind [OF save] mark holds_bind [OF load_ok(3)]
          holds_bind [OF rows_audit] rows_other) assumption
  show "holds ok (rejectProviderMutation a prev ac ax k h code t) (\<lambda>_. True)" if "\<And>q. prev = Some q \<Longrightarrow> P q"
  proof -
    have "P (case prev of Some p \<Rightarrow> p\<lparr>sub_LifecycleVersion := sub_LifecycleVersion c\<rparr>
           | None \<Rightarrow> (resetSubscriptionForRenewableRestart t c)\<lparr>sub_Status := StatusActive, sub_BillingMode := BillingModeFree\<rparr>)" if "P c" for c
      using \<open>\<And>q. prev = Some q \<Longrightarrow> P q\<close> reset [OF that] by (auto split: option.splits)
    then show ?thesis unfolding rejectProviderMutation_def Let_def
      by (intro rows.holds_Transaction holds_bind [OF load_ok(1)] holds_bind [OF save] holds_bind [OF load_ok(2)]
            holds_bind [OF rows_other(3)] rows_command_audit) assumption
  qed
  show "holds ok (markUnknownProviderOutcome i b ac k t code) (\<lambda>_. True)"
    unfolding markUnknownProviderOutcome_def
    by (intro rows.holds_Transaction holds_bind [OF load_ok(1)] holds_bind [OF save] mark holds_bind [OF load_ok(3)] rows_command_audit) assumption
qed

lemma commit_ok: "holds ok (StartRenewable_commit st plan a b ac k h c t) (\<lambda>_. True)"
  unfolding StartRenewable_commit_def
  by (intro rows.holds_Transaction holds_bind [OF load_ok(1)] holds_bind [OF load_ok(2)] holds_bind [OF save] created
        holds_bind [OF rows_other(3)] holds_bind [OF rows_command_audit(1)] holds_return) simp_all

lemma finalize_ok: "holds ok (finalizeImmediateCancellation a ac k h) (\<lambda>_. True)"
proof (rule holdsI)
  fix s r s' assume i: "ok s" and run: "finalizeImmediateCancellation a ac k h s = (r, s')"
  obtain t where t: "db_wall s = t" by simp
  show "ok s' \<and> (\<forall>x. r = Inr x \<longrightarrow> True)"
    by (rule holdsD [OF rows.holds_Transaction [OF holds_bind [OF rows_get(1)]] i, OF _ run [unfolded finalizeImmediateCancellation_def t]])
       (intro holds_if holds_fail holds_bind [OF load_ok(2)] holds_bind [OF save] ended holds_bind [OF rows_other(3)]
          holds_bind [OF rows_command_audit(1)] holds_return, simp_all)
qed

text \<open>The handlers.\<close>

lemma holds_snd: "holds ok m Q \<Longrightarrow> ok s \<Longrightarrow> ok (snd (m s))"
  using holdsD by (metis surjective_pairing)

lemma log_call_ok [simp]: "ok (log_call c s) = ok s"
  by (simp add: log_call_def)

lemma StartRenewable_finish_ok:
  assumes "ok s" and "\<And>q. prev = Some q \<Longrightarrow> P q"
  shows "ok (snd (StartRenewable_finish st plan pp a prev b ac k h now outcome s))"
proof -
  note unk = holds_snd [OF compensation_ok(4)] and com = holds_snd [OF commit_ok]
  have rj: "ok s1" if "rejectProviderMutation a prev ac ax k h c now s = (r, s1)" for ax c r s1
    using holdsD [OF compensation_ok(3) assms(1) that] assms(2) by simp
  have cm: "ok s1" if "StartRenewable_commit st plan a b ac k h c t s = (r, s1)" for c t r s1
    using com [OF assms(1), of st plan a b ac k h c t] that by simp
  show ?thesis using assms(1)
    by (auto simp: StartRenewable_finish_def Let_def unk split: provider_outcome.splits option.splits sum.splits prod.splits dest: rj cm intro: unk)
qed

lemma schedule_finish_ok:
  assumes "ok s" and "\<And>q. prev = Some q \<Longrightarrow> P q"
  shows "ok (snd (schedule_finish a prev ac ax k h c1 c2 c3 now accepted outcome s))"
proof -
  note unk = holds_snd [OF compensation_ok(2)] and com = holds_snd [OF compensation_ok(1)]
  have rj: "ok s1" if "rejectProviderMutation a prev ac ax k h c now s = (r, s1)" for c r s1
    using holdsD [OF compensation_ok(3) assms(1) that] assms(2) by simp
  have cm: "ok s1" if "completeCommand b ac ax k h s = (r, s1)" for b r s1
    using com [OF assms(1), of b ac ax k h] that by simp
  show ?thesis using assms(1)
    by (auto simp: schedule_finish_def Let_def unk split: provider_outcome.splits option.splits sum.splits prod.splits dest: rj cm intro: unk)
qed

lemma cancellation_finish_ok:
  assumes "ok s" and "\<And>q. prev = Some q \<Longrightarrow> P q"
  shows "ok (snd (cancellation_finish a prev ac k h now outcome s))"
proof -
  have fi: "ok s1" if "finalizeImmediateCancellation a ac k h s = (r, s1)" for r s1
    using holdsD [OF finalize_ok assms(1) that] by simp
  show ?thesis
    by (auto simp: cancellation_finish_def Let_def schedule_finish_ok [OF assms] split: provider_outcome.splits option.splits sum.splits prod.splits dest: fi)
qed

lemma begun_cases:
  assumes "holds ok m begun_ok" and "ok s" and "m s = (r, s1)"
  shows "ok s1" and "r = Inr (Begun a prev) \<Longrightarrow> prev = Some q \<Longrightarrow> P q"
  using holdsD [OF assms] by (auto simp: begun_ok_def)

lemma StartRenewable_ok:
  assumes "ok s"
  shows "ok (snd (StartRenewable cfg' resolved b ac plan key outcome s))"
proof (cases "StartRenewable_guard cfg' resolved b ac plan key")
  case (Inr g)
  obtain st pl pp k where g: "g = (st, pl, pp, k)" by (metis surj_pair)
  let ?h = "subscriptionCommandHash [b, ac, subscriptionCommandStart, k, plan_ID pl]"
  obtain rb s1 where bg: "StartRenewable_begin st pl pp b ac k ?h (db_wall s) s = (rb, s1)" by fastforce
  note c = begun_cases [OF StartRenewable_begin_ok assms bg]
  show ?thesis using Inr g bg c
    by (auto simp: StartRenewable_def Let_def intro!: StartRenewable_finish_ok split: sum.splits begun.splits)
qed (use assms in \<open>simp add: StartRenewable_def\<close>)

lemma SchedulePlanChange_ok:
  assumes "ok s"
  shows "ok (snd (SchedulePlanChange cfg' resolved b ac plan key outcome s))"
proof -
  have a: "P (plan_change pl pp c)" if "P c" "plan_change_allowed st tp c" for pl pp st tp c
    using that by (intro changed [of c st]) (simp_all add: plan_change_allowed_def)
  have fin: "ok (snd (schedule_finish x prev ac ax k h c1 c2 c3 now acc outcome (log_call cl s1)))"
    if "schedule_begin b ac ax k h (plan_change_allowed st tp) (plan_change pl pp) toPlan code now s = (Inr (Begun x prev), s1)"
    for st tp pl pp toPlan code now x prev s1 ax k h c1 c2 c3 acc cl
    using begun_cases [OF schedule_begin_ok [OF a] assms that] by (intro schedule_finish_ok) auto
  have bg: "ok s1" if "schedule_begin b ac ax k h (plan_change_allowed st tp) (plan_change pl pp) toPlan code now s = (r, s1)"
    for st tp pl pp toPlan code now r s1 ax k h
    using begun_cases(1) [OF schedule_begin_ok [OF a] assms that] .
  show ?thesis using assms
    by (auto simp: SchedulePlanChange_def Let_def split: sum.splits option.splits begun.splits prod.splits dest: bg intro: fin)
qed

lemma ScheduleCancellation_ok:
  assumes "ok s"
  shows "ok (snd (ScheduleCancellation cfg' resolved b ac key outcome s))"
proof -
  have fin: "ok (snd (cancellation_finish x prev ac k h now outcome (log_call cl s1)))"
    if "schedule_begin b ac ax k h (mutable_subscription st) cancellation_change toPlan code now s = (Inr (Begun x prev), s1)"
    for st toPlan code now x prev s1 ax k h cl
    using begun_cases [OF schedule_begin_ok [OF cancelling] assms that] by (intro cancellation_finish_ok) auto
  have bg: "ok s1" if "schedule_begin b ac ax k h (mutable_subscription st) cancellation_change toPlan code now s = (r, s1)"
    for st toPlan code now r s1 ax k h
    using begun_cases(1) [OF schedule_begin_ok [OF cancelling] assms that] .
  show ?thesis using assms
    by (auto simp: ScheduleCancellation_def Let_def split: sum.splits option.splits begun.splits prod.splits dest: bg intro: fin)
qed

lemma reconcile_ok: "ok s \<Longrightarrow> ok (snd (reconcileProviderState b p st s))"
proof -
  assume i: "ok s"
  obtain r s' where run: "reconcileProviderState b p st s = (r, s')" by fastforce
  obtain t where t: "db_wall s = t" by simp
  have eff: "holds ok (case reconcile_effect c p st t of Inl e \<Rightarrow> tx_fail e | Inr (a, paid) \<Rightarrow>
      tx_bind (create_billing (map_option (\<lambda>plan. reconciliation_billing a p plan t) paid)) (\<lambda>_.
      tx_bind (SaveSubscription (a\<lparr>sub_ReconciliationCode := []\<rparr>)) (\<lambda>a'.
      tx_bind (lifecycleAudit a' ''provider_reconciliation'' (sub_Status c) (sub_Status a') ''provider_state_verified'' [] t) CreateAudit))) (\<lambda>_. True)"
    if "P c" for c
    using reconciled [OF that]
    by (auto split: sum.splits intro!: holds_fail holds_bind [OF billing] holds_bind [OF save] holds_bind [OF rows_audit] rows_other)
  have "ok s' \<and> (\<forall>x. r = Inr x \<longrightarrow> True)"
    by (rule holdsD [OF rows.holds_Transaction [OF holds_bind [OF rows_get(1)]] i, OF _ run [unfolded reconcileProviderState_def t]])
       (intro holds_if holds_fail eff)
  with run show ?thesis by simp
qed

lemma suspend_ok: "ok s \<Longrightarrow> ok (snd (suspendExpiredGrace b s))"
proof -
  assume i: "ok s"
  obtain r s' where run: "suspendExpiredGrace b s = (r, s')" by fastforce
  obtain t where t: "db_wall s = t" by simp
  have "ok s' \<and> (\<forall>x. r = Inr x \<longrightarrow> True)"
    by (rule holdsD [OF rows.holds_Transaction [OF holds_bind [OF rows_get(1)]] i, OF _ run [unfolded suspendExpiredGrace_def t]])
       (intro holds_if holds_fail holds_bind [OF save] suspended holds_bind [OF rows_audit] rows_other)
  with run show ?thesis by simp
qed

lemma reconcile_loop_ok: "ok s \<Longrightarrow> ok (snd (reconcile_loop expired fetch st i ds r s))"
proof (induction expired fetch st i ds r s rule: reconcile_loop.induct)
  case (2 expired fetch st i d ds r s)
  show ?case
  proof (cases "expired i \<or> fetch i = None")
    case True
    with 2 show ?thesis by auto
  next
    case False
    then obtain p where f: "\<not> expired i" "fetch i = Some p" by auto
    obtain r1 s1 where m: "reconcileProviderState (sub_BusinessID d) p st s = (r1, s1)" by fastforce
    then have "ok s1" using reconcile_ok [OF 2(4), of "sub_BusinessID d" p st] by simp
    with 2(2,3) f m show ?thesis by (auto split: sum.splits)
  qed
qed simp

lemma suspend_loop_ok: "ok s \<Longrightarrow> ok (snd (suspend_loop ds r s))"
proof (induction ds r s rule: suspend_loop.induct)
  case (2 d ds r s)
  obtain r1 s1 where m: "suspendExpiredGrace (sub_BusinessID d) s = (r1, s1)" by fastforce
  then have "ok s1" using suspend_ok [OF 2(3), of "sub_BusinessID d"] by simp
  with 2(1,2) m show ?case by (auto split: sum.splits)
qed simp

lemma autocommit_list_ok:
  assumes "ok s"
  shows "ok (snd (autocommit (ListReconciliationDue m l) s))" "ok (snd (autocommit (ListGraceDue m t l) s))"
  using assms by (auto simp: autocommit_def ListReconciliationDue_def ListGraceDue_def statement_def split: list.splits bool.splits)

lemma RunMaintenance_ok:
  assumes "ok s"
  shows "ok (snd (RunMaintenance cfg' resolved expired fetch limit s))"
proof -
  have l1: "ok s1" if "autocommit (ListReconciliationDue m l) t = (r, s1)" "ok t" for m l r s1 t
    using autocommit_list_ok(1) [OF that(2), of m l] that(1) by simp
  have l2: "ok s1" if "autocommit (ListGraceDue m w l) t = (r, s1)" "ok t" for m w l r s1 t
    using autocommit_list_ok(2) [OF that(2), of m w l] that(1) by simp
  have g1: "ok s1" if "reconcile_loop expired fetch st i ds r t = (r1, s1)" "ok t" for st i ds r r1 s1 t
    using reconcile_loop_ok [OF that(2), of expired fetch st i ds r] that(1) by simp
  have g2: "ok s1" if "suspend_loop ds r t = (r1, s1)" "ok t" for ds r r1 s1 t
    using suspend_loop_ok [OF that(2), of ds r] that(1) by simp
  show ?thesis using assms
    by (auto simp: RunMaintenance_def Let_def split: sum.splits prod.splits dest: l1 l2 g1 g2)
qed

end

section \<open>Well-formed subscriptions\<close>

definition lifecycle_statuses :: "string set" where
  "lifecycle_statuses = {StatusPendingPayment, StatusActive, StatusRenewalPending, StatusPastDue, StatusGracePeriod,
     StatusCancellationScheduled, StatusCancelled, StatusExpired, StatusSuspended, StatusReconciliationRequired}"

definition period_ok :: "instant option \<Rightarrow> instant option \<Rightarrow> bool" where
  "period_ok start end \<longleftrightarrow> (case (start, end) of (None, None) \<Rightarrow> True | (Some x, Some y) \<Rightarrow> x < y | _ \<Rightarrow> False)"

text \<open>
  A known status and billing mode, a paid count, a period with both ends in order or
  none, a deadline while payment is overdue, and a date for a scheduled cancellation.
\<close>

definition sub_wf :: "subscription \<Rightarrow> bool" where
  "sub_wf a \<longleftrightarrow>
     sub_Status a \<in> lifecycle_statuses \<and>
     sub_BillingMode a \<in> {BillingModeFree, ''legacy_one_time'', BillingModeRenewable} \<and>
     0 \<le> sub_LastProviderPaidCount a \<and> period_ok (sub_PeriodStart a) (sub_PeriodEnd a) \<and>
     (sub_Status a \<in> {StatusPastDue, StatusGracePeriod} \<longrightarrow> sub_GraceDeadline a \<noteq> None) \<and>
     (sub_CancelAtPeriodEnd a \<longrightarrow> sub_CancellationEffectiveAt a \<noteq> None)"

lemma Unix_less: "Unix x < Unix y \<longleftrightarrow> x < y"
  by (simp add: Unix_def nsPerSecond_def)

lemma wf_period: "x < y \<Longrightarrow> period_ok (Some (Unix x)) (Some (Unix y))"
  by (simp add: period_ok_def Unix_less)

lemma wf_after: "sub_wf a \<Longrightarrow> sub_wf (after_event ev p t a)"
  by (auto simp: sub_wf_def after_event_def Let_def wf_period)

lemma wf_paid_period:
  assumes "sub_wf a" and "sub_LastProviderPaidCount a < rz_PaidCount p" and "rz_CurrentStart p < rz_CurrentEnd p"
  shows "sub_wf (paid_period plan p (Unix (rz_CurrentStart p)) (Unix (rz_CurrentEnd p)) a)"
  using assms by (auto simp: sub_wf_def paid_period_def clear_pending_plan_def applyPlanToAggregate_def wf_period lifecycle_statuses_def)

lemma wf_codes [simp]:
  "sub_wf (a\<lparr>sub_BillingMode := BillingModeRenewable, sub_ReconciliationCode := c\<rparr>) \<longleftrightarrow> sub_wf (a\<lparr>sub_BillingMode := BillingModeRenewable\<rparr>)"
  "sub_wf (a\<lparr>sub_ReconciliationCode := c\<rparr>) = sub_wf a"
  "sub_wf a \<Longrightarrow> sub_wf (a\<lparr>sub_BillingMode := BillingModeRenewable\<rparr>)"
  by (simp_all add: sub_wf_def)

lemma wf_status:
  assumes "sub_wf a"
  shows "sub_wf (a\<lparr>sub_Status := StatusRenewalPending\<rparr>)" "sub_wf (a\<lparr>sub_Status := StatusSuspended\<rparr>)"
    "sub_wf (a\<lparr>sub_Status := StatusExpired\<rparr>)" "sub_wf (a\<lparr>sub_Status := StatusCancellationScheduled\<rparr>)"
    "sub_wf (a\<lparr>sub_Status := StatusPastDue, sub_GraceDeadline := Some d\<rparr>)"
    "sub_wf (a\<lparr>sub_Status := StatusCancelled, sub_CancelAtPeriodEnd := False, sub_CancellationEffectiveAt := None, sub_CancelledAt := t\<rparr>)"
  using assms by (simp_all add: sub_wf_def lifecycle_statuses_def)

lemma wf_event:
  assumes "sub_wf a" and "subscription_event_effect cfg a ev p eid t st = EventApplied a' b"
  shows "sub_wf a'"
proof (cases "we_Event ev = ''subscription.charged''")
  case True
  then have "charged_effect a ev p eid t st = EventApplied a' b"
    using assms(2) by (auto simp: subscription_event_effect_def Let_def split: if_splits)
  then show ?thesis by (rule charged_effectD) (use assms(1) in \<open>simp add: wf_paid_period\<close>)
next
  case False
  with assms show ?thesis
    by (auto simp: subscription_event_effect_def Let_def wf_status split: if_splits)
qed

lemma wf_reconcile:
  assumes "sub_wf a" and "reconcile_effect a p st now = Inr (a', pl)"
  shows "sub_wf a'"
proof (cases "\<not> EqualFold (rz_Status p) ''cancelled'' \<and> sub_LastProviderPaidCount a < rz_PaidCount p")
  case True
  with assms show ?thesis by (auto simp: reconcile_effect_def wf_paid_period split: if_splits option.splits)
next
  case False
  with assms show ?thesis
    by (auto simp: reconcile_effect_def wf_status split: if_splits)
qed

interpretation wf: row_property sub_wf cfg for cfg
proof
  show "sub_wf a' \<and> sub_wf (after_event ev p t a')"
    if "sub_wf a" "subscription_event_effect cfg a ev p eid t st = EventApplied a' b" for a ev p eid t st a' b
    using wf_event [OF that] wf_after by blast
  show "sub_wf (a'\<lparr>sub_ReconciliationCode := []\<rparr>)" if "sub_wf a" "reconcile_effect a p st now = Inr (a', pl')" for a p st now a' pl'
    using wf_reconcile [OF that] by simp
qed (auto simp: sub_wf_def mark_reconciliation_def start_pending_def fresh_subscription_def resetSubscriptionForRenewableRestart_def
       applyPlanToAggregate_def plan_change_def cancellation_change_def mutable_subscription_def period_ok_def lifecycle_statuses_def Let_def)

end
