(* ===== verification/Subscription_System.thy ===== *)
theory Subscription_System
  imports Subscription_Wellformed
begin

text \<open>
  The service as a state machine. Handlers of different requests interleave at
  transaction boundaries: a command whose first transaction committed is in flight until the
  provider has answered and its second part has run, and in between other commands,
  deliveries and maintenance steps run on the same database.
\<close>

datatype flight =
    StartFlight provider_settings subscription_plan string subscription "subscription option" string string string string instant
  | ChangeFlight string subscription "subscription option" string string string instant
  | CancelFlight subscription "subscription option" string string string instant

fun flight_call :: "flight \<Rightarrow> provider_call" where
  "flight_call (StartFlight st plan pp a prev b ac k h now) = CallCreateSubscription pp (sub_ID a)"
| "flight_call (ChangeFlight pp a prev ac k h now) = CallUpdateSubscription (sub_ProviderSubscriptionID a) pp"
| "flight_call (CancelFlight a prev ac k h now) = CallCancelSubscription (sub_ProviderSubscriptionID a)"

fun flight_previous :: "flight \<Rightarrow> subscription option" where
  "flight_previous (StartFlight st plan pp a prev b ac k h now) = prev"
| "flight_previous (ChangeFlight pp a prev ac k h now) = prev"
| "flight_previous (CancelFlight a prev ac k h now) = prev"

fun finish_flight :: "flight \<Rightarrow> provider_outcome \<Rightarrow> lifedb \<Rightarrow> lifedb" where
  "finish_flight (StartFlight st plan pp a prev b ac k h now) outcome s =
     snd (StartRenewable_finish st plan pp a prev b ac k h now outcome s)"
| "finish_flight (ChangeFlight pp a prev ac k h now) outcome s =
     snd (schedule_finish a prev ac subscriptionCommandPlanChange k h
       ''plan_change_provider_rejected'' ''plan_change_provider_unknown'' ''plan_change_persistence_unknown''
       now (plan_change_accepted a) outcome s)"
| "finish_flight (CancelFlight a prev ac k h now) outcome s = snd (cancellation_finish a prev ac k h now outcome s)"

definition begun_flights :: "(subscription \<Rightarrow> subscription option \<Rightarrow> flight) \<Rightarrow> lifecycle_error + 'r begun \<Rightarrow> flight list" where
  "begun_flights mk r = (case r of Inr (Begun a prev) \<Rightarrow> [mk a prev] | _ \<Rightarrow> [])"

inductive service_step :: "lifecycle_config \<Rightarrow> lifedb \<times> flight list \<Rightarrow> lifedb \<times> flight list \<Rightarrow> bool" for cfg where
  Environment: "service_step cfg (s, fl) (s\<lparr>db_faults := fs, db_wall := t\<rparr>, fl)"
| Delivery: "service_step cfg (s, fl) (snd (HandleWebhook cfg resolved sig eid body parsed s), fl)"
| Reconcile: "service_step cfg (s, fl) (snd (reconcileProviderState b p st s), fl)"
| Suspend: "service_step cfg (s, fl) (snd (suspendExpiredGrace b s), fl)"
| StartBegin:
    "StartRenewable_guard cfg resolved b ac planIn keyIn = Inr (st, plan, pp, k) \<Longrightarrow>
     h = subscriptionCommandHash [b, ac, subscriptionCommandStart, k, plan_ID plan] \<Longrightarrow>
     StartRenewable_begin st plan pp b ac k h (db_wall s) s = (r, s') \<Longrightarrow>
     service_step cfg (s, fl) (s', begun_flights (\<lambda>a prev. StartFlight st plan pp a prev b ac k h (db_wall s)) r @ fl)"
| ChangeBegin:
    "paidSubscriptionPlan tp = Some plan \<Longrightarrow> schedule_begin b ac subscriptionCommandPlanChange k h (plan_change_allowed st tp)
       (plan_change plan pp) (\<lambda>_. plan_ID plan) ''plan_change_scheduled'' (db_wall s) s = (r, s') \<Longrightarrow>
     service_step cfg (s, fl) (s', begun_flights (\<lambda>a prev. ChangeFlight pp a prev ac k h (db_wall s)) r @ fl)"
| CancelBegin:
    "schedule_begin b ac subscriptionCommandCancellation k h (mutable_subscription st) cancellation_change currentCatalogPlanID
       ''cancellation_scheduled'' (db_wall s) s = (r, s') \<Longrightarrow>
     service_step cfg (s, fl) (s', begun_flights (\<lambda>a prev. CancelFlight a prev ac k h (db_wall s)) r @ fl)"
| Finish: "service_step cfg (s, fl1 @ f # fl2) (finish_flight f outcome (log_call (flight_call f) s), fl1 @ fl2)"

inductive_cases service_stepE: "service_step cfg (s, fl) (s', fl')"

text \<open>The handlers of the source are runs of the machine that nothing interleaves.\<close>

lemma finish_first:
  "service_step cfg (s, f # fl) (finish_flight f outcome (log_call (flight_call f) s), fl)"
  using Finish [of cfg s "[]" f fl outcome] by simp

lemma StartRenewable_run:
  "(service_step cfg)\<^sup>*\<^sup>* (s, fl) (snd (StartRenewable cfg resolved b ac planIn keyIn outcome s), fl)"
proof (cases "StartRenewable_guard cfg resolved b ac planIn keyIn")
  case (Inr g)
  obtain st plan pp k where g: "g = (st, plan, pp, k)" by (metis surj_pair)
  let ?h = "subscriptionCommandHash [b, ac, subscriptionCommandStart, k, plan_ID plan]"
  obtain r s1 where bg: "StartRenewable_begin st plan pp b ac k ?h (db_wall s) s = (r, s1)" by fastforce
  note step = StartBegin [OF Inr [unfolded g] refl bg, of fl]
  show ?thesis
  proof (cases "\<exists>a prev. r = Inr (Begun a prev)")
    case True
    then obtain a prev where r: "r = Inr (Begun a prev)" by blast
    let ?f = "StartFlight st plan pp a prev b ac k ?h (db_wall s)"
    have "(service_step cfg)\<^sup>*\<^sup>* (s, fl) (finish_flight ?f outcome (log_call (flight_call ?f) s1), fl)"
      using step finish_first [of cfg s1 ?f fl outcome] by (simp add: begun_flights_def r converse_rtranclp_into_rtranclp)
    then show ?thesis using Inr g bg r by (simp add: StartRenewable_def Let_def)
  next
    case False
    with step Inr g bg show ?thesis
      by (auto simp: StartRenewable_def Let_def begun_flights_def split: sum.splits begun.splits)
  qed
qed (simp add: StartRenewable_def)

lemma schedule_run:
  assumes step: "\<And>r s'. bg s = (r, s') \<Longrightarrow> service_step cfg (s, fl) (s', begun_flights mk (r :: lifecycle_error + subscription begun) @ fl)"
    and out: "snd (handler s) = (case bg s of (Inr (Begun a prev), s1) \<Rightarrow> finish_flight (mk a prev) outcome (log_call (flight_call (mk a prev)) s1)
       | (_, s1) \<Rightarrow> s1)"
  shows "(service_step cfg)\<^sup>*\<^sup>* (s, fl) (snd (handler s), fl)"
proof -
  obtain r s1 where bg: "bg s = (r, s1)" by fastforce
  show ?thesis
  proof (cases "\<exists>a prev. r = Inr (Begun a prev)")
    case True
    then obtain a prev where r: "r = Inr (Begun a prev)" by blast
    have "(service_step cfg)\<^sup>*\<^sup>* (s, fl) (finish_flight (mk a prev) outcome (log_call (flight_call (mk a prev)) s1), fl)"
      using step [OF bg] finish_first [of cfg s1 "mk a prev" fl outcome] by (simp add: begun_flights_def r converse_rtranclp_into_rtranclp)
    then show ?thesis using bg r out by simp
  next
    case False
    then have "begun_flights mk r = []" "snd (handler s) = s1" using out bg by (auto simp: begun_flights_def split: sum.splits begun.splits)
    with step [OF bg] show ?thesis by simp
  qed
qed

lemma SchedulePlanChange_run:
  "(service_step cfg)\<^sup>*\<^sup>* (s, fl) (snd (SchedulePlanChange cfg resolved b ac planIn keyIn outcome s), fl)"
proof (cases "snd (SchedulePlanChange cfg resolved b ac planIn keyIn outcome s) = s")
  case False
  then obtain st plan k where g: "resolved = Inr st" "paidSubscriptionPlan (norm_key planIn) = Some plan"
    "\<not> (TrimSpace (plan_id_of st (norm_key planIn)) = [] \<or> \<not> validProviderMode (ps_ProviderMode st) \<or> lc_ProviderNil cfg \<or> lc_RepositoryNil cfg)"
    "command_key b ac keyIn = Some k"
    by (auto simp: SchedulePlanChange_def Let_def split: sum.splits option.splits if_splits)
  let ?pp = "TrimSpace (plan_id_of st (norm_key planIn))"
  let ?h = "subscriptionCommandHash [b, ac, subscriptionCommandPlanChange, k, norm_key planIn]"
  show ?thesis
    by (rule schedule_run [where mk = "\<lambda>a prev. ChangeFlight ?pp a prev ac k ?h (db_wall s)" and outcome = outcome,
          OF ChangeBegin [OF g(2), where st = st and b = b]], assumption)
       (use g in \<open>auto simp: SchedulePlanChange_def Let_def split: sum.splits begun.splits prod.splits\<close>)
qed simp

lemma ScheduleCancellation_run:
  "(service_step cfg)\<^sup>*\<^sup>* (s, fl) (snd (ScheduleCancellation cfg resolved b ac keyIn outcome s), fl)"
proof (cases "snd (ScheduleCancellation cfg resolved b ac keyIn outcome s) = s")
  case False
  then obtain st k where g: "resolved = Inr st" "command_key b ac keyIn = Some k" "\<not> (lc_ProviderNil cfg \<or> lc_RepositoryNil cfg)"
    by (auto simp: ScheduleCancellation_def split: sum.splits option.splits if_splits)
  let ?h = "subscriptionCommandHash [b, ac, subscriptionCommandCancellation, k]"
  show ?thesis
    by (rule schedule_run [where mk = "\<lambda>a prev. CancelFlight a prev ac k ?h (db_wall s)" and outcome = outcome,
          OF CancelBegin [where st = st and b = b]], assumption)
       (use g in \<open>auto simp: ScheduleCancellation_def Let_def split: sum.splits begun.splits prod.splits\<close>)
qed simp

section \<open>Invariants of the machine\<close>

definition system_wf :: "lifedb \<times> flight list \<Rightarrow> bool" where
  "system_wf c \<longleftrightarrow> (\<forall>a \<in> set (db_subs (fst c)). sub_wf a) \<and> (\<forall>f \<in> set (snd c). \<forall>q. flight_previous f = Some q \<longrightarrow> sub_wf q)"

lemma system_rows: "system_wf (s, fl) \<longleftrightarrow> rows_ok sub_wf (\<lambda>_. True) s \<and> (\<forall>f \<in> set fl. \<forall>q. flight_previous f = Some q \<longrightarrow> sub_wf q)"
  by (simp add: system_wf_def rows_ok_def)

lemma begun_wf:
  assumes "holds (rows_ok sub_wf (\<lambda>_. True)) m wf.begun_ok" and "rows_ok sub_wf (\<lambda>_. True) s" and "m s = (r, s')"
    and "\<And>a prev. flight_previous (mk a prev) = prev"
  shows "rows_ok sub_wf (\<lambda>_. True) s' \<and> (\<forall>f \<in> set (begun_flights mk r). \<forall>q. flight_previous f = Some q \<longrightarrow> sub_wf q)"
  using holdsD [OF assms(1-3)] assms(4)
  by (auto simp: begun_flights_def wf.begun_ok_def split: sum.splits begun.splits)

lemma finish_flight_wf:
  assumes "rows_ok sub_wf (\<lambda>_. True) s" and "\<And>q. flight_previous f = Some q \<Longrightarrow> sub_wf q"
  shows "rows_ok sub_wf (\<lambda>_. True) (finish_flight f outcome s)"
  using assms by (cases f) (simp_all add: wf.StartRenewable_finish_ok wf.schedule_finish_ok wf.cancellation_finish_ok)

lemma service_step_wf:
  assumes "service_step cfg c c'" and "system_wf c"
  shows "system_wf c'"
  using assms
proof (induction rule: service_step.induct)
  case (Environment s fl fs t)
  then show ?case by (simp add: system_wf_def)
next
  case (Delivery s fl resolved sig eid body parsed)
  then show ?case by (simp add: system_rows wf.HandleWebhook_ok)
next
  case (Reconcile s fl b p st)
  then show ?case by (simp add: system_rows wf.reconcile_ok)
next
  case (Suspend s fl b)
  then show ?case by (simp add: system_rows wf.suspend_ok)
next
  case (StartBegin resolved b ac planIn keyIn st plan pp k h s r s' fl)
  from begun_wf [OF wf.StartRenewable_begin_ok _ StartBegin(3), where mk = "\<lambda>a prev. StartFlight st plan pp a prev b ac k h (db_wall s)"] StartBegin(4) show ?case
    by (auto simp: system_rows)
next
  case (ChangeBegin tp plan b ac k h st pp s r s' fl)
  have "sub_wf (plan_change plan pp a)" if "sub_wf a" "plan_change_allowed st tp a" for a
    using that by (intro wf.changed [of a st]) (simp_all add: plan_change_allowed_def)
  from begun_wf [OF wf.schedule_begin_ok [OF this] _ ChangeBegin(2), where mk = "\<lambda>a prev. ChangeFlight pp a prev ac k h (db_wall s)"] ChangeBegin(3) show ?case
    by (auto simp: system_rows)
next
  case (CancelBegin b ac k h st s r s' fl)
  from begun_wf [OF wf.schedule_begin_ok [OF wf.cancelling] _ CancelBegin(1), where mk = "\<lambda>a prev. CancelFlight a prev ac k h (db_wall s)"] CancelBegin(2) show ?case
    by (auto simp: system_rows)
next
  case (Finish s fl1 f fl2 outcome)
  then show ?case by (auto simp: system_rows intro!: finish_flight_wf)
qed

lemma service_run_wf: "(service_step cfg)\<^sup>*\<^sup>* c c' \<Longrightarrow> system_wf c \<Longrightarrow> system_wf c'"
  by (induction rule: rtranclp_induct) (auto intro: service_step_wf)

end
