(* ===== verification/Subscription_Once.thy ===== *)
theory Subscription_Once
  imports Subscription_Commands
begin

text \<open>
  A whole command: its first transaction, the call to the provider and the second
  transaction, and what a sequence of requests with one idempotency key does to the provider.
\<close>

section \<open>Whole commands\<close>

text \<open>The invariant that holds of every database, for facts about returned values only.\<close>

definition any_db :: "lifedb \<Rightarrow> bool" where
  "any_db s \<longleftrightarrow> True"

interpretation anything: tx_invariant any_db
  by unfold_locales (auto simp: any_db_def)

lemma holds_any: "holds any_db m (\<lambda>_. True)"
  by (simp add: holds_def any_db_def)

lemma value_rules:
  "holds any_db (GetByBusinessIDForUpdate b) (\<lambda>r. sub_BusinessID r = b)"
  "holds any_db (SaveSubscription a) (\<lambda>r. sub_BusinessID r = sub_BusinessID a)"
  "holds any_db (CreateSubscription a) (\<lambda>r. sub_BusinessID r = sub_BusinessID a)"
  unfolding repo_defs
  by (rule anything.holds_statement; force simp: Let_def any_db_def split: option.splits if_splits dest: find_mem)+

definition begun_for :: "string \<Rightarrow> 'r begun \<Rightarrow> bool" where
  "begun_for b x = (case x of Begun a _ \<Rightarrow> sub_BusinessID a = b | Replayed _ \<Rightarrow> True)"

lemma start_frame [simp]:
  "sub_BusinessID (start_pending st plan pp a) = sub_BusinessID a"
  "sub_BusinessID (resetSubscriptionForRenewableRestart now a) = sub_BusinessID a"
  "sub_BusinessID (fresh_subscription u b now) = b"
  "sub_BusinessID (plan_change plan pp a) = sub_BusinessID a"
  "sub_BusinessID (cancellation_change a) = sub_BusinessID a"
  by (simp_all add: start_pending_def resetSubscriptionForRenewableRestart_def fresh_subscription_def applyPlanToAggregate_def
        plan_change_def cancellation_change_def Let_def)

lemma schedule_begin_for:
  assumes "\<And>a. sub_BusinessID (change a) = sub_BusinessID a"
  shows "holds any_db (schedule_begin b ac ax k h allowed change toPlan code now) (begun_for b)"
proof -
  have work: "holds any_db (tx_bind (SaveSubscription (change c)) (\<lambda>a. tx_bind (f a) (\<lambda>_. tx_bind (g a) (\<lambda>_. tx_return (Begun a (Some c)))))) (begun_for (sub_BusinessID c))"
    for c and f g :: "subscription \<Rightarrow> unit tx"
    by (rule holds_bind [OF value_rules(2)]) (intro holds_bind [OF holds_any] holds_return; simp add: begun_for_def assms)
  have rep: "holds any_db (tx_bind (GetByBusinessIDForUpdate b) (\<lambda>c. tx_return (Replayed c))) (begun_for b)"
    by (rule holds_bind [OF holds_any]) (rule holds_return, simp add: begun_for_def)
  show ?thesis unfolding schedule_begin_def
    by (rule anything.holds_Transaction, rule holds_bind_try [OF holds_any])
       (auto split: option.splits intro!: holds_if holds_fail rep holds_bind [OF value_rules(1)] work)
qed

lemma StartRenewable_begin_for:
  "holds any_db (StartRenewable_begin st plan pp b ac k h now) (begun_for b)"
proof -
  have rest: "holds any_db (case x of (a, prev, from) \<Rightarrow> tx_bind (f a) (\<lambda>_. tx_bind (g a from) (\<lambda>_. tx_return (Begun a prev)))) (begun_for b)"
    if "sub_BusinessID (fst x) = b" for x :: "subscription \<times> subscription option \<times> string"
      and f :: "subscription \<Rightarrow> unit tx" and g :: "subscription \<Rightarrow> string \<Rightarrow> unit tx"
    using that by (cases x) (auto intro!: holds_bind [OF holds_any] holds_return simp: begun_for_def)
  have saved: "holds any_db (tx_bind (SaveSubscription (start_pending st plan pp (resetSubscriptionForRenewableRestart now c)))
      (\<lambda>a. tx_return (a, Some c, sub_Status c))) (\<lambda>x. sub_BusinessID (fst x) = b)" if "sub_BusinessID c = b" for c
    by (rule holds_bind [OF value_rules(2)]) (rule holds_return, use that in simp)
  have made: "holds any_db (tx_bind new_uuid (\<lambda>u. tx_bind (CreateSubscription (start_pending st plan pp (fresh_subscription u b now)))
      (\<lambda>a. tx_return (a, None, sub_Status (fresh_subscription u b now))))) (\<lambda>x. sub_BusinessID (fst x) = b)"
    by (rule holds_bind [OF holds_any], rule holds_bind [OF value_rules(3)]) (rule holds_return, simp)
  show ?thesis unfolding StartRenewable_begin_def Let_def
    apply (rule anything.holds_Transaction, rule holds_bind_try [OF holds_any])
     apply (simp split: option.splits; intro conjI impI allI holds_if holds_fail holds_return; simp add: begun_for_def holds_fail holds_return)
    apply (simp only: sum.case, rule holds_if, rule holds_fail)
    apply (rule holds_bind_try [OF value_rules(1)])
     apply (rule holds_bind [where Q = "\<lambda>x. sub_BusinessID (fst x) = b", OF _ rest])
      apply (simp only: sum.case, rule holds_if, rule holds_fail, erule saved, assumption)
    apply (rule holds_bind [where Q = "\<lambda>x. sub_BusinessID (fst x) = b", OF _ rest])
     apply (simp only: sum.case, rule holds_if, rule holds_fail, rule made, assumption)
    done
qed

text \<open>What one run of a command does to the provider log and to the key's record.\<close>

definition called_once :: "(string \<times> string \<times> string \<times> string) \<Rightarrow> lifedb \<Rightarrow> lifedb \<Rightarrow> bool" where
  "called_once k s s' \<longleftrightarrow>
     (db_calls s' = db_calls s \<and> (k \<in> cmd_key ` set (db_cmds s) \<longrightarrow> k \<in> cmd_key ` set (db_cmds s'))) \<or>
     (k \<notin> cmd_key ` set (db_cmds s) \<and> k \<in> cmd_key ` set (db_cmds s') \<and> (\<exists>c. db_calls s' = db_calls s @ [c]))"

lemma called_once_run:
  assumes bg0: "bg s = ((r :: lifecycle_error + 'r begun), s1)"
    and inv: "\<And>K cs. holds (cmds_inv K cs) bg (\<lambda>_. True)" and rec: "ensures bg (begun_recorded k)"
    and known: "\<And>cs x. cmds_inv {k} cs s \<Longrightarrow> r = Inr x \<Longrightarrow> \<exists>y. x = Replayed y"
    and out: "case r of Inr (Begun a prev) \<Rightarrow> fin a prev (log_call (c a) s1) = (r', s') | _ \<Rightarrow> s' = s1"
    and fin: "\<And>a prev cs. r = Inr (Begun a prev) \<Longrightarrow> holds (cmds_inv {k} cs) (fin a prev) (\<lambda>_. True)"
  shows "called_once k s s'"
proof (cases "\<exists>a prev. r = Inr (Begun a prev)")
  case False
  then have "s' = s1" using out by (auto split: sum.splits begun.splits)
  moreover have "cmds_inv {} (db_calls s) s1" using holdsD [OF inv [of "{}" "db_calls s"] _ bg0] by (simp add: cmds_inv_def)
  moreover have "cmds_inv {k} (db_calls s) s1" if "k \<in> cmd_key ` set (db_cmds s)"
    using holdsD [OF inv [of "{k}" "db_calls s"] _ bg0] that by (simp add: cmds_inv_def)
  ultimately show ?thesis by (auto simp: called_once_def cmds_inv_def)
next
  case True
  then obtain a prev where r: "r = Inr (Begun a prev)" by blast
  have new: "k \<notin> cmd_key ` set (db_cmds s)" using known [of "db_calls s"] r by (auto simp: cmds_inv_def)
  have "cmds_inv {} (db_calls s) s1" using holdsD [OF inv [of "{}" "db_calls s"] _ bg0] by (simp add: cmds_inv_def)
  moreover have "begun_recorded k (Begun a prev :: 'r begun) s1" using rec bg0 r unfolding ensures_def by blast
  ultimately have "cmds_inv {k} (db_calls s @ [c a]) (log_call (c a) s1)"
    by (auto simp: cmds_inv_def begun_recorded_def log_call_def)
  moreover have "fin a prev (log_call (c a) s1) = (r', s')" using out r by simp
  ultimately have "cmds_inv {k} (db_calls s @ [c a]) s'" using holdsD [OF fin [OF r]] by blast
  with new show ?thesis by (auto simp: called_once_def cmds_inv_def)
qed

lemma StartRenewable_called_once:
  assumes "StartRenewable cfg resolved b ac planIn keyIn outcome s = (r, s')"
  shows "called_once (b, ac, subscriptionCommandStart, TrimSpace keyIn) s s'"
proof (cases "StartRenewable_guard cfg resolved b ac planIn keyIn")
  case (Inl e)
  with assms show ?thesis by (simp add: StartRenewable_def called_once_def)
next
  case (Inr g)
  obtain st plan pp key where g: "g = (st, plan, pp, key)" by (metis surj_pair)
  have key: "key = TrimSpace keyIn"
    using Inr g by (auto simp: StartRenewable_guard_def command_key_def Let_def split: sum.splits option.splits if_splits)
  let ?h = "subscriptionCommandHash [b, ac, subscriptionCommandStart, key, plan_ID plan]"
  let ?bg = "StartRenewable_begin st plan pp b ac key ?h (db_wall s)"
  obtain rb s1 where bg: "?bg s = (rb, s1)" by fastforce
  have for_b: "sub_BusinessID a = b" if "rb = Inr (Begun a prev)" for a prev
    using holdsD [OF StartRenewable_begin_for _ bg] that by (simp add: begun_for_def any_db_def)
  show ?thesis unfolding key [symmetric]
  proof (rule called_once_run [OF bg begin_inv(1) StartRenewable_begin_recorded,
      where fin = "\<lambda>a prev. StartRenewable_finish st plan pp a prev b ac key ?h (db_wall s) outcome"
        and c = "\<lambda>a. CallCreateSubscription pp (sub_ID a)" and r' = r])
    show "\<exists>y. x = Replayed y" if "cmds_inv {(b, ac, subscriptionCommandStart, key)} cs s" "rb = Inr x" for cs x
      using StartRenewable_begin_known [OF that(1)] bg that(2) by blast
    show "case rb of Inr (Begun a prev) \<Rightarrow> StartRenewable_finish st plan pp a prev b ac key ?h (db_wall s) outcome
        (log_call (CallCreateSubscription pp (sub_ID a)) s1) = (r, s') | _ \<Rightarrow> s' = s1"
      using assms Inr g bg by (auto simp: StartRenewable_def Let_def split: sum.splits begun.splits)
  qed (rule StartRenewable_finish_inv, auto dest: for_b)
qed

text \<open>The two scheduling commands share their first transaction; they differ in the call and what follows.\<close>

lemma schedule_called_once:
  assumes bg: "schedule_begin b ac ax k h allowed change toPlan code now s = (rb, s1)"
    and keeps: "\<And>a. sub_BusinessID (change a) = sub_BusinessID a"
    and fin: "\<And>a prev cs. sub_BusinessID a = b \<Longrightarrow> holds (cmds_inv {(b, ac, ax, k)} cs) (fin a prev) (\<lambda>_. True)"
    and out: "case rb of Inr (Begun a prev) \<Rightarrow> fin a prev (log_call (c a) s1) = (r, s') | _ \<Rightarrow> s' = s1"
  shows "called_once (b, ac, ax, k) s s'"
proof (rule called_once_run [OF bg begin_inv(2) schedule_begin_recorded, where fin = fin and c = c and r' = r])
  show "case rb of Inr (Begun a prev) \<Rightarrow> fin a prev (log_call (c a) s1) = (r, s') | _ \<Rightarrow> s' = s1" by (rule out)
  show "\<exists>y. x = Replayed y" if "cmds_inv {(b, ac, ax, k)} cs s" "rb = Inr x" for cs x
    using schedule_begin_known [OF that(1)] bg that(2) by blast
  show "holds (cmds_inv {(b, ac, ax, k)} cs) (fin a prev) (\<lambda>_. True)" if "rb = Inr (Begun a prev)" for a prev cs
    using holdsD [OF schedule_begin_for [OF keeps] _ bg] that by (intro fin) (simp add: begun_for_def any_db_def)
qed

lemma command_keyD: "command_key b ac keyIn = Some key \<Longrightarrow> key = TrimSpace keyIn"
  by (simp add: command_key_def Let_def split: if_splits)

lemma SchedulePlanChange_called_once:
  assumes "SchedulePlanChange cfg resolved b ac planIn keyIn outcome s = (r, s')"
  shows "called_once (b, ac, subscriptionCommandPlanChange, TrimSpace keyIn) s s'"
proof (cases "\<exists>st plan. resolved = Inr st \<and> paidSubscriptionPlan (norm_key planIn) = Some plan \<and>
    \<not> (TrimSpace (plan_id_of st (norm_key planIn)) = [] \<or> \<not> validProviderMode (ps_ProviderMode st) \<or> lc_ProviderNil cfg \<or> lc_RepositoryNil cfg) \<and>
    command_key b ac keyIn \<noteq> None")
  case False
  with assms show ?thesis
    by (auto simp: SchedulePlanChange_def called_once_def Let_def split: sum.splits option.splits if_splits)
next
  case True
  then obtain st plan key where g: "resolved = Inr st" "paidSubscriptionPlan (norm_key planIn) = Some plan"
    "\<not> (TrimSpace (plan_id_of st (norm_key planIn)) = [] \<or> \<not> validProviderMode (ps_ProviderMode st) \<or> lc_ProviderNil cfg \<or> lc_RepositoryNil cfg)"
    "command_key b ac keyIn = Some key" by blast
  let ?pp = "TrimSpace (plan_id_of st (norm_key planIn))"
  let ?h = "subscriptionCommandHash [b, ac, subscriptionCommandPlanChange, key, norm_key planIn]"
  obtain rb s1 where bg: "schedule_begin b ac subscriptionCommandPlanChange key ?h (plan_change_allowed st (norm_key planIn))
      (plan_change plan ?pp) (\<lambda>_. plan_ID plan) ''plan_change_scheduled'' (db_wall s) s = (rb, s1)" by fastforce
  show ?thesis unfolding command_keyD [OF g(4), symmetric]
  proof (rule schedule_called_once [OF bg, where c = "\<lambda>a. CallUpdateSubscription (sub_ProviderSubscriptionID a) ?pp"
      and fin = "\<lambda>a prev. schedule_finish a prev ac subscriptionCommandPlanChange key ?h
         ''plan_change_provider_rejected'' ''plan_change_provider_unknown'' ''plan_change_persistence_unknown''
         (db_wall s) (plan_change_accepted a) outcome" and r = r])
    show "case rb of Inr (Begun a prev) \<Rightarrow> schedule_finish a prev ac subscriptionCommandPlanChange key ?h
         ''plan_change_provider_rejected'' ''plan_change_provider_unknown'' ''plan_change_persistence_unknown''
         (db_wall s) (plan_change_accepted a) outcome (log_call (CallUpdateSubscription (sub_ProviderSubscriptionID a) ?pp) s1) = (r, s')
       | _ \<Rightarrow> s' = s1"
      using assms g bg by (auto simp: SchedulePlanChange_def Let_def split: sum.splits begun.splits)
  qed (auto intro: schedule_finish_inv)
qed

lemma finalize_inv:
  assumes K: "K \<subseteq> {(sub_BusinessID a, ac, subscriptionCommandCancellation, k)}"
  shows "holds (cmds_inv K cs) (finalizeImmediateCancellation a ac k h) (\<lambda>_. True)"
proof (rule holdsI)
  fix s r s' assume i: "cmds_inv K cs s" and run: "finalizeImmediateCancellation a ac k h s = (r, s')"
  have sv: "holds (cmds_inv K cs) (SaveCommand (c\<lparr>cmd_Status := x, cmd_CompletedAt := y\<rparr>)) (\<lambda>_. True)"
    if "cmd_key c = (sub_BusinessID a, ac, subscriptionCommandCancellation, k)" for c x y
  proof -
    have "cmd_key (c\<lparr>cmd_Status := x, cmd_CompletedAt := y\<rparr>) = cmd_key c" by (simp add: cmd_key_def)
    with that K show ?thesis by (intro cmds_save) simp
  qed
  have rest: "holds (cmds_inv K cs) (tx_bind (load_initializing (sub_BusinessID a) ac subscriptionCommandCancellation k h) (\<lambda>c.
         tx_bind (SaveSubscription n) (\<lambda>n'.
         tx_bind (SaveCommand (c\<lparr>cmd_Status := x, cmd_CompletedAt := y\<rparr>)) (\<lambda>_. tx_bind (f n') (\<lambda>_. tx_return n'))))) (\<lambda>_. True)"
    if "\<And>n'. holds (cmds_inv K cs) (f n') (\<lambda>_. True)" for n x y and f :: "subscription \<Rightarrow> unit tx"
    by (intro holds_bind [OF cmds_load(2)] holds_bind [OF cmds_ops(3)] holds_bind [OF sv] holds_bind [OF that] holds_return) simp_all
  obtain t where t: "db_wall s = t" by simp
  show "cmds_inv K cs s' \<and> (\<forall>x. r = Inr x \<longrightarrow> True)"
    by (rule holdsD [OF cmds.holds_Transaction [OF holds_bind [OF cmds_ops(1)]] i, OF _ run [unfolded finalizeImmediateCancellation_def t]])
       (intro holds_if holds_fail rest cmds_audit)
qed

lemma cancellation_finish_inv:
  assumes "K \<subseteq> {(sub_BusinessID a, ac, subscriptionCommandCancellation, k)}"
  shows "holds (cmds_inv K cs) (cancellation_finish a prev ac k h now outcome) (\<lambda>_. True)"
proof (rule holdsI)
  fix s r s' assume i: "cmds_inv K cs s" and run: "cancellation_finish a prev ac k h now outcome s = (r, s')"
  have sf: "cmds_inv K cs s2" if "schedule_finish a prev ac subscriptionCommandCancellation k h c1 c2 c3 now acc oc s = (r2, s2)"
    for c1 c2 c3 acc oc r2 s2 using holdsD [OF schedule_finish_inv [OF assms] i that] by simp
  have fi: "cmds_inv K cs s2" if "finalizeImmediateCancellation a ac k h s = (r2, s2)" for r2 s2
    using holdsD [OF finalize_inv [OF assms] i that] by simp
  from run show "cmds_inv K cs s' \<and> (\<forall>x. r = Inr x \<longrightarrow> True)"
    by (auto simp: cancellation_finish_def Let_def split: provider_outcome.splits option.splits if_splits sum.splits prod.splits dest: sf fi)
qed

lemma ScheduleCancellation_called_once:
  assumes "ScheduleCancellation cfg resolved b ac keyIn outcome s = (r, s')"
  shows "called_once (b, ac, subscriptionCommandCancellation, TrimSpace keyIn) s s'"
proof (cases "\<exists>st. resolved = Inr st \<and> command_key b ac keyIn \<noteq> None \<and> \<not> (lc_ProviderNil cfg \<or> lc_RepositoryNil cfg)")
  case False
  with assms show ?thesis
    by (auto simp: ScheduleCancellation_def called_once_def split: sum.splits option.splits if_splits)
next
  case True
  then obtain st key where g: "resolved = Inr st" "command_key b ac keyIn = Some key" "\<not> (lc_ProviderNil cfg \<or> lc_RepositoryNil cfg)"
    by blast
  let ?h = "subscriptionCommandHash [b, ac, subscriptionCommandCancellation, key]"
  let ?fin = "\<lambda>a prev. cancellation_finish a prev ac key ?h (db_wall s) outcome"
  obtain rb s1 where bg: "schedule_begin b ac subscriptionCommandCancellation key ?h (mutable_subscription st) cancellation_change
      currentCatalogPlanID ''cancellation_scheduled'' (db_wall s) s = (rb, s1)" by fastforce
  show ?thesis unfolding command_keyD [OF g(2), symmetric]
  proof (rule schedule_called_once [OF bg, where c = "\<lambda>a. CallCancelSubscription (sub_ProviderSubscriptionID a)" and fin = ?fin and r = r])
    show "case rb of Inr (Begun a prev) \<Rightarrow> ?fin a prev (log_call (CallCancelSubscription (sub_ProviderSubscriptionID a)) s1) = (r, s')
       | _ \<Rightarrow> s' = s1"
      using assms g bg by (auto simp: ScheduleCancellation_def Let_def split: sum.splits begun.splits)
  qed (auto intro: cancellation_finish_inv)
qed

section \<open>Retries\<close>

text \<open>
  A client repeats a command; each attempt meets its own provider answer, database failures
  and clock.
\<close>

fun retries :: "(provider_outcome \<Rightarrow> 'a tx) \<Rightarrow> (provider_outcome \<times> bool list \<times> instant) list \<Rightarrow> lifedb \<Rightarrow> lifedb" where
  "retries run [] s = s"
| "retries run ((outcome, faults, t) # rest) s =
     retries run rest (snd (run outcome (s\<lparr>db_faults := faults, db_wall := t\<rparr>)))"

locale idempotent_command =
  fixes run :: "provider_outcome \<Rightarrow> 'a tx" and key :: "string \<times> string \<times> string \<times> string"
  assumes once: "run outcome s = (r, s') \<Longrightarrow> called_once key s s'"
begin

lemma once_run: "called_once key s (snd (run outcome (s\<lparr>db_faults := fs, db_wall := t\<rparr>)))"
  using once [where s = "s\<lparr>db_faults := fs, db_wall := t\<rparr>" and outcome = outcome, OF surjective_pairing] by (simp add: called_once_def)

lemma known_no_calls: "key \<in> cmd_key ` set (db_cmds s) \<Longrightarrow> db_calls (retries run xs s) = db_calls s"
proof (induction xs arbitrary: s)
  case (Cons x xs)
  obtain outcome fs t where x: "x = (outcome, fs, t)" by (metis surj_pair)
  with once_run [where s = s and outcome = outcome and fs = fs and t = t] Cons show ?case by (auto simp: called_once_def)
qed simp

lemma retries_calls: "db_calls (retries run xs s) = db_calls s \<or> (\<exists>c. db_calls (retries run xs s) = db_calls s @ [c])"
proof (induction xs arbitrary: s)
  case (Cons x xs)
  obtain outcome fs t where x: "x = (outcome, fs, t)" by (metis surj_pair)
  let ?s1 = "snd (run outcome (s\<lparr>db_faults := fs, db_wall := t\<rparr>))"
  from once_run [where s = s and outcome = outcome and fs = fs and t = t] consider "db_calls ?s1 = db_calls s"
    | c where "key \<in> cmd_key ` set (db_cmds ?s1)" "db_calls ?s1 = db_calls s @ [c]" by (auto simp: called_once_def)
  then show ?case
  proof cases
    case 1
    with Cons.IH [of ?s1] show ?thesis by (simp add: x)
  next
    case 2
    with known_no_calls [OF 2(1), of xs] show ?thesis by (simp add: x)
  qed
qed simp

end

interpretation start: idempotent_command "StartRenewable cfg resolved b ac plan key"
    "(b, ac, subscriptionCommandStart, TrimSpace key)" for cfg resolved b ac plan key
  by unfold_locales (rule StartRenewable_called_once)

interpretation change: idempotent_command "SchedulePlanChange cfg resolved b ac plan key"
    "(b, ac, subscriptionCommandPlanChange, TrimSpace key)" for cfg resolved b ac plan key
  by unfold_locales (rule SchedulePlanChange_called_once)

interpretation cancel: idempotent_command "ScheduleCancellation cfg resolved b ac key"
    "(b, ac, subscriptionCommandCancellation, TrimSpace key)" for cfg resolved b ac key
  by unfold_locales (rule ScheduleCancellation_called_once)

end
