(* ===== verification/Subscription_Restore.thy ===== *)
theory Subscription_Restore
  imports Subscription_Commands
begin

text \<open>
  A change the provider refuses is undone: after the second transaction the subscription
  rows are those before the command, except for the version counter and the update time.
\<close>

definition same_row :: "subscription \<Rightarrow> subscription \<Rightarrow> bool" where
  "same_row a b \<longleftrightarrow> a\<lparr>sub_LifecycleVersion := 0, sub_UpdatedAt := 0\<rparr> = b\<lparr>sub_LifecycleVersion := 0, sub_UpdatedAt := 0\<rparr>"

lemma same_row_refl [simp]: "same_row a a"
  by (simp add: same_row_def)

lemma same_row_saved: "same_row a (a\<lparr>sub_LifecycleVersion := v, sub_UpdatedAt := t\<rparr>)"
  by (simp add: same_row_def)

lemma subs_frame:
  "CreateAudit au s = (r1, s') \<Longrightarrow> db_subs s' = db_subs s"
  "CreateCommand c s = (r2, s') \<Longrightarrow> db_subs s' = db_subs s"
  "SaveCommand c s = (r3, s') \<Longrightarrow> db_subs s' = db_subs s"
  "GetCommandForUpdate b ac ax k s = (r4, s') \<Longrightarrow> db_subs s' = db_subs s"
  "GetByBusinessIDForUpdate b s = (r5, s') \<Longrightarrow> db_subs s' = db_subs s"
  unfolding repo_defs by (erule statement_frame; auto split: option.splits)+

lemma subs_command_frame:
  "new_command b i ac ax k h s = (r, s') \<Longrightarrow> db_subs s' = db_subs s"
  "command_audit b i ac ax fs ts fp tp m c t s = (r, s') \<Longrightarrow> db_subs s' = db_subs s"
  "load_initializing b ac ax k h s = (q, s') \<Longrightarrow> db_subs s' = db_subs s"
  by (auto simp: new_command_def command_audit_def load_initializing_def tx_bind_def new_uuid_def tx_fail_def tx_return_def
        split: prod.splits sum.splits if_splits dest!: subs_frame)

lemma SaveSubscription_ok:
  assumes "SaveSubscription a s = (Inr x, s')"
  shows "\<exists>t. x = a\<lparr>sub_LifecycleVersion := sub_LifecycleVersion a + 1, sub_UpdatedAt := t\<rparr> \<and> db_subs s' = upsert_by sub_ID x (db_subs s)"
  using assms unfolding SaveSubscription_def by (cases rule: statement_cases) (auto simp: Let_def split: if_splits)

lemma GetByBusiness_ok:
  assumes "GetByBusinessIDForUpdate b s = (Inr x, s')"
  shows "x \<in> set (db_subs s)"
  using assms unfolding GetByBusinessIDForUpdate_def by (cases rule: statement_cases) (auto split: option.splits dest: find_mem)

lemma begun_saved:
  assumes "schedule_begin b ac ax k h allowed change toPlan code now s = (Inr (Begun a prev), s1)"
  shows "\<exists>c v t. prev = Some c \<and> c \<in> set (db_subs s) \<and> a = (change c)\<lparr>sub_LifecycleVersion := v, sub_UpdatedAt := t\<rparr> \<and>
    db_subs s1 = upsert_by sub_ID a (db_subs s)"
proof -
  from assms obtain s0 fs where s1: "s1 = s0\<lparr>db_faults := fs\<rparr>"
    and body: "tx_bind (tx_try (GetCommandForUpdate b ac ax k)) (\<lambda>r. case r of
         Inr c \<Rightarrow> (case replay_error c h of Some e \<Rightarrow> tx_fail e
            | None \<Rightarrow> tx_bind (GetByBusinessIDForUpdate b) (\<lambda>current. tx_return (Replayed current)))
       | Inl e \<Rightarrow> if e \<noteq> ErrSubscriptionCommandNotFound then tx_fail e
           else tx_bind (GetByBusinessIDForUpdate b) (\<lambda>current.
             if \<not> allowed current then tx_fail ErrSubscriptionLifecycleConflict
             else tx_bind (SaveSubscription (change current)) (\<lambda>a.
               tx_bind (new_command b (sub_ID a) ac ax k h) (\<lambda>_.
               tx_bind (command_audit b (sub_ID a) ac ax (sub_Status current) (sub_Status a)
                          (currentCatalogPlanID a) (toPlan a) (sub_ProviderMode a) code now) (\<lambda>_.
               tx_return (Begun a (Some current))))))) (s\<lparr>db_aborted := False\<rparr>) = (Inr (Begun a prev), s0)"
    unfolding schedule_begin_def by (elim Transaction_ok)
  obtain r t0 where get: "GetCommandForUpdate b ac ax k (s\<lparr>db_aborted := False\<rparr>) = (r, t0)" by fastforce
  with body obtain c t1 t2 t3 where c: "GetByBusinessIDForUpdate b t0 = (Inr c, t1)" and sv: "SaveSubscription (change c) t1 = (Inr a, t2)"
    and tail: "new_command b (sub_ID a) ac ax k h t2 = (Inr (), t3)" and "prev = Some c"
      "command_audit b (sub_ID a) ac ax (sub_Status c) (sub_Status a) (currentCatalogPlanID a) (toPlan a) (sub_ProviderMode a) code now t3 = (Inr (), s0)"
    by (auto simp: tx_try_def tx_fail_def tx_return_def split: sum.splits option.splits if_splits elim!: tx_bind_Inr)
  moreover have "db_subs t0 = db_subs s" using subs_frame(4) [OF get] by simp
  ultimately show ?thesis
    using GetByBusiness_ok [OF c] SaveSubscription_ok [OF sv] subs_frame(5) [OF c] subs_command_frame(1) [OF tail] s1
    by (auto dest: subs_command_frame(2))
qed

lemma rejected_restored:
  assumes "rejectProviderMutation a (Some c) ac ax k h code t s = (Inr x, s')" and "sub_ID c = sub_ID a"
  shows "\<exists>row. same_row c row \<and> sub_ID row = sub_ID a \<and> db_subs s' = upsert_by sub_ID row (db_subs s)"
proof -
  from assms(1) obtain s0 fs where s': "s' = s0\<lparr>db_faults := fs\<rparr>" and body: "tx_bind (load_same (sub_BusinessID a) (sub_ID a)) (\<lambda>current.
       tx_bind (SaveSubscription (c\<lparr>sub_LifecycleVersion := sub_LifecycleVersion current\<rparr>)) (\<lambda>restored'.
          tx_bind (load_initializing (sub_BusinessID a) ac ax k h) (\<lambda>cm.
          tx_bind (SaveCommand (cm\<lparr>cmd_Status := ''rejected'', cmd_SanitizedErrorCode := code, cmd_CompletedAt := Some t\<rparr>)) (\<lambda>_.
          command_audit (sub_BusinessID restored') (sub_ID restored') ac (ax @ ''_rejected'') (sub_Status current)
            (sub_Status restored') (currentCatalogPlanID current) (currentCatalogPlanID restored') (sub_ProviderMode current)
            code t)))) (s\<lparr>db_aborted := False\<rparr>) = (Inr x, s0)"
    unfolding rejectProviderMutation_def Let_def option.case by (elim Transaction_ok)
  then obtain cur t1 row t2 where l: "load_same (sub_BusinessID a) (sub_ID a) (s\<lparr>db_aborted := False\<rparr>) = (Inr cur, t1)"
    and sv: "SaveSubscription (c\<lparr>sub_LifecycleVersion := sub_LifecycleVersion cur\<rparr>) t1 = (Inr row, t2)" and fr: "db_subs s0 = db_subs t2"
    by (auto elim!: tx_bind_Inr dest!: subs_command_frame subs_frame)
  have "db_subs t1 = db_subs s"
    using l by (auto simp: load_same_def tx_return_def tx_fail_def elim!: tx_bind_Inr split: if_splits dest!: subs_frame(5))
  with SaveSubscription_ok [OF sv] fr s' assms(2) show ?thesis by (intro exI [of _ row]) (auto simp: same_row_def)
qed

lemma upsert_present: "key row \<in> key ` set rows \<Longrightarrow> upsert_by key row rows = map (\<lambda>r. if key r = key row then row else r) rows"
  by (simp add: upsert_by_def)

lemma restored_rows:
  assumes "distinct (map sub_ID rows)" and "c \<in> set rows" and "sub_ID a = sub_ID c" "sub_ID b = sub_ID c" "same_row c b"
  shows "list_all2 same_row rows (upsert_by sub_ID b (upsert_by sub_ID a rows))"
proof -
  have m: "sub_ID a \<in> sub_ID ` set rows" using assms by auto
  have "upsert_by sub_ID b (upsert_by sub_ID a rows) = map (\<lambda>r. if sub_ID r = sub_ID c then b else r) rows"
  proof -
    have "map sub_ID (upsert_by sub_ID a rows) = map sub_ID rows" using m by (simp add: upsert_present)
    then have "sub_ID ` set (upsert_by sub_ID a rows) = sub_ID ` set rows" by (metis set_map)
    then have "sub_ID b \<in> sub_ID ` set (upsert_by sub_ID a rows)" using assms by auto
    then show ?thesis using assms m by (auto simp: upsert_present)
  qed
  moreover have "same_row r (if sub_ID r = sub_ID c then b else r)" if "r \<in> set rows" for r
    using assms that by (auto simp: distinct_map inj_on_def)
  ultimately show ?thesis by (simp add: list_all2_map2 list_all2_same)
qed

lemma refused_change_restored:
  assumes "schedule_begin b ac ax k h allowed change toPlan code now s = (Inr (Begun a prev), s1)"
    and "rejectProviderMutation a prev ac2 ax2 k2 h2 code2 t2 (log_call cl s1) = (Inr x, s2)"
    and "distinct (map sub_ID (db_subs s))" and "\<And>c. sub_ID (change c) = sub_ID c"
  shows "list_all2 same_row (db_subs s) (db_subs s2)"
proof -
  from begun_saved [OF assms(1)] obtain c v t where c: "prev = Some c" "c \<in> set (db_subs s)"
    "a = (change c)\<lparr>sub_LifecycleVersion := v, sub_UpdatedAt := t\<rparr>" "db_subs s1 = upsert_by sub_ID a (db_subs s)" by blast
  have id: "sub_ID c = sub_ID a" using c(3) assms(4) by simp
  from rejected_restored [OF assms(2) [unfolded c(1)] id] obtain row where "same_row c row" "sub_ID row = sub_ID a"
    "db_subs s2 = upsert_by sub_ID row (db_subs (log_call cl s1))" by blast
  with c id restored_rows [OF assms(3) c(2), of a row] show ?thesis by (simp add: log_call_def)
qed

lemma schedule_begin_error:
  assumes "schedule_begin b ac ax k h allowed change toPlan code now s = (Inl e, s1)"
  shows "db_subs s1 = db_subs s"
  using Transaction_error [OF assms [unfolded schedule_begin_def]] by (simp add: tables_def)

lemma change_ids [simp]: "sub_ID (plan_change plan pp c) = sub_ID c" "sub_ID (cancellation_change c) = sub_ID c"
  by (simp_all add: plan_change_def cancellation_change_def)

lemma same_rows_refl: "list_all2 same_row xs xs"
  by (simp add: list_all2_same)

text \<open>Whenever a scheduling command answers that the provider refused, the rows are as before.\<close>

lemma schedule_finish_rejected:
  assumes "schedule_finish a prev ac ax k h c1 c2 c3 now accepted outcome s = (Inl ErrSubscriptionProviderRejected, s')"
  shows "\<exists>x. rejectProviderMutation a prev ac ax k h c1 now s = (Inr x, s')"
  using assms by (auto simp: schedule_finish_def Let_def split: provider_outcome.splits option.splits if_splits sum.splits prod.splits)

lemma SchedulePlanChange_refused:
  assumes "SchedulePlanChange cfg resolved b ac planIn keyIn outcome s = (Inl ErrSubscriptionProviderRejected, s')"
    and "distinct (map sub_ID (db_subs s))"
  shows "list_all2 same_row (db_subs s) (db_subs s')"
  using assms
  by (auto simp: SchedulePlanChange_def Let_def same_rows_refl split: sum.splits option.splits begun.splits if_splits prod.splits
        dest!: schedule_finish_rejected schedule_begin_error intro: refused_change_restored)

lemma ScheduleCancellation_refused:
  assumes "ScheduleCancellation cfg resolved b ac keyIn outcome s = (Inl ErrSubscriptionProviderRejected, s')"
    and "distinct (map sub_ID (db_subs s))"
  shows "list_all2 same_row (db_subs s) (db_subs s')"
  using assms
  by (auto simp: ScheduleCancellation_def cancellation_finish_def Let_def same_rows_refl
        split: sum.splits option.splits begun.splits if_splits prod.splits provider_outcome.splits
        dest!: schedule_finish_rejected schedule_begin_error intro: refused_change_restored)

end
