(* ===== verification/Entitlements.thy ===== *)
theory Entitlements
  imports Subscription_Catalog
begin

text \<open>
  \<open>internal/services/entitlements.go\<close>: which plan a business is on, which features the plan
  has, and the monthly quota counters. The repository query for the subscription is an
  argument (its result); the table \<open>subscription_quota_usage\<close> is a map from its primary key
  to the used value, and a failed statement is an argument too.
\<close>

datatype ent_error =
    EntFailed string
  | FeatureUnavailable string string
  | QuotaExceeded string int int string

text \<open>
  What the subscription query gives: a row, no row, or an error. The repository reports a
  missing row as an error whose text \<open>isSubscriptionNotFoundError\<close> recognises.
\<close>

datatype sub_lookup = LookupRow subscription | LookupNoRow | LookupError string

type_synonym usage_table = "(string \<times> string \<times> instant) \<rightharpoonup> int"

record plan_entitlements =
  pe_PlanID :: string
  pe_EInvoiceEnabled :: bool
  pe_EInvoiceLimit :: int
  pe_EWayBillEnabled :: bool
  pe_EWayBillLimit :: int
  pe_BulkGSTEnabled :: bool
  pe_GSTAPIEnabled :: bool
  pe_POSEnabled :: bool

record capability_quota =
  cq_Unit :: string
  cq_Limited :: bool
  cq_Limit :: int
  cq_Used :: int
  cq_Remaining :: int
  cq_Available :: bool

record feature_access =
  fa_Required :: bool
  fa_Entitled :: bool
  fa_Quota :: capability_quota

record drive_storage_quota =
  ds_Access :: feature_access
  ds_LimitBytes :: int
  ds_UsedBytes :: int

definition isSubscriptionNotFoundError :: "string \<Rightarrow> bool" where
  "isSubscriptionNotFoundError e =
     (Contains (ToLower e) ''subscription not found'' \<or> Contains (ToLower e) ''record not found'')"

definition entitlementsForPlan :: "subscription_plan \<Rightarrow> plan_entitlements" where
  "entitlementsForPlan p =
     \<lparr>pe_PlanID = plan_ID p,
      pe_EInvoiceEnabled = feature_on p FeatureEInvoice, pe_EInvoiceLimit = quota_of p QuotaEInvoiceMonthly,
      pe_EWayBillEnabled = feature_on p FeatureEWayBill, pe_EWayBillLimit = quota_of p QuotaEWayBillMonthly,
      pe_BulkGSTEnabled = feature_on p FeatureBulkGST, pe_GSTAPIEnabled = feature_on p FeatureGSTAPI,
      pe_POSEnabled = feature_on p FeaturePOS\<rparr>"

definition entitlementFeatureEnabled :: "plan_entitlements \<Rightarrow> string \<Rightarrow> bool" where
  "entitlementFeatureEnabled e f =
     (if f = FeatureEInvoice then pe_EInvoiceEnabled e
      else if f = FeatureEWayBill then pe_EWayBillEnabled e
      else if f = FeatureBulkGST then pe_BulkGSTEnabled e
      else if f = FeatureGSTAPI then pe_GSTAPIEnabled e
      else if f = FeaturePOS then pe_POSEnabled e
      else False)"

definition currentQuotaPeriodStart :: "instant \<Rightarrow> instant" where
  "currentQuotaPeriodStart now = month_start now"

definition quotaPeriodStart :: "subscription option \<Rightarrow> instant \<Rightarrow> instant" where
  "quotaPeriodStart sopt now =
     (case sopt of
        Some s \<Rightarrow> (if sub_BillingMode s \<noteq> BillingModeFree
                   then (case sub_PeriodStart s of Some p \<Rightarrow> p | None \<Rightarrow> currentQuotaPeriodStart now)
                   else currentQuotaPeriodStart now)
      | None \<Rightarrow> currentQuotaPeriodStart now)"

definition quotaLimitForFeature :: "subscription_plan \<Rightarrow> string \<Rightarrow> int option" where
  "quotaLimitForFeature p f =
     (if f = FeatureEInvoice then plan_Quotas p QuotaEInvoiceMonthly
      else if f = FeatureEWayBill then plan_Quotas p QuotaEWayBillMonthly
      else None)"

text \<open>\<open>resolvePlanAndQuotaStart\<close>; \<open>lookup = None\<close> is the service without a repository.\<close>

definition resolvePlanAndQuotaStart :: "(string + subscription) option \<Rightarrow> instant \<Rightarrow> ent_error + (subscription_plan \<times> instant)" where
  "resolvePlanAndQuotaStart lookup now =
     (case lookup of
        None \<Rightarrow> Inr (subscriptionPlanForCode ''free'', currentQuotaPeriodStart now)
      | Some (Inl e) \<Rightarrow>
          if isSubscriptionNotFoundError e
          then Inr (subscriptionPlanForCode ''free'', currentQuotaPeriodStart now)
          else Inl (EntFailed e)
      | Some (Inr s) \<Rightarrow> Inr (subscriptionPlanForSubscription (Some s) now, quotaPeriodStart (Some s) now))"

definition resolvePlan :: "(string + subscription) option \<Rightarrow> instant \<Rightarrow> ent_error + subscription_plan" where
  "resolvePlan lookup now = map_sum id fst (resolvePlanAndQuotaStart lookup now)"

definition ResolveByBusiness :: "(string + subscription) option \<Rightarrow> instant \<Rightarrow> ent_error + plan_entitlements" where
  "ResolveByBusiness lookup now =
     (case lookup of
        None \<Rightarrow> Inr (entitlementsForPlan (subscriptionPlanForCode ''free''))
      | Some (Inl e) \<Rightarrow>
          if isSubscriptionNotFoundError e then Inr (entitlementsForPlan (subscriptionPlanForCode ''free''))
          else Inl (EntFailed e)
      | Some (Inr s) \<Rightarrow> Inr (entitlementsForPlan (subscriptionPlanForSubscription (Some s) now)))"

definition EnsureFeature :: "(string + subscription) option \<Rightarrow> instant \<Rightarrow> string \<Rightarrow> ent_error option" where
  "EnsureFeature lookup now f =
     (case ResolveByBusiness lookup now of
        Inl e \<Rightarrow> Some e
      | Inr ent \<Rightarrow> if entitlementFeatureEnabled ent f then None
                   else Some (FeatureUnavailable f (pe_PlanID ent)))"

text \<open>\<open>used\<close> is the SUM over the business's live drive assets, or the query's error.\<close>

definition bytesPerMB :: int where "bytesPerMB = 1024 * 1024"

definition InspectDriveStorage :: "bool \<Rightarrow> (string + subscription) option \<Rightarrow> instant \<Rightarrow> string + int \<Rightarrow> ent_error + drive_storage_quota" where
  "InspectDriveStorage dbNil lookup now used =
     (case resolvePlan lookup now of
        Inl e \<Rightarrow> Inl e
      | Inr plan \<Rightarrow>
          let limited = (plan_Quotas plan QuotaStorageMB \<noteq> None);
              limitMB = quota_of plan QuotaStorageMB;
              entitled = feature_on plan FeatureDriveStorageMB
          in if dbNil then Inl (EntFailed ''storage quota database is required'')
             else case used of
                    Inl e \<Rightarrow> Inl (EntFailed (''read drive storage usage: '' @ e))
                  | Inr usedBytes \<Rightarrow>
                      let limitBytes = limitMB * bytesPerMB;
                          usedMB = go_div usedBytes bytesPerMB + (if go_mod usedBytes bytesPerMB \<noteq> 0 then 1 else 0);
                          remainingBytes = max (limitBytes - usedBytes) 0
                      in Inr \<lparr>ds_Access =
                           \<lparr>fa_Required = True, fa_Entitled = entitled,
                            fa_Quota = \<lparr>cq_Unit = ''MB'', cq_Limited = limited, cq_Limit = limitMB, cq_Used = usedMB,
                              cq_Remaining = go_div remainingBytes bytesPerMB,
                              cq_Available = (entitled \<and> (\<not> limited \<or> usedBytes < limitBytes))\<rparr>\<rparr>,
                         ds_LimitBytes = limitBytes, ds_UsedBytes = usedBytes\<rparr>)"

text \<open>\<open>qerr\<close> is a failure of the usage query other than a missing row.\<close>

definition InspectFeature :: "bool \<Rightarrow> (string + subscription) option \<Rightarrow> instant \<Rightarrow> string + int \<Rightarrow> usage_table \<Rightarrow> string option
    \<Rightarrow> string \<Rightarrow> string \<Rightarrow> ent_error + feature_access" where
  "InspectFeature dbNil lookup now driveUsed usage qerr businessID f =
     (if f = FeatureDriveStorageMB
      then map_sum id ds_Access (InspectDriveStorage dbNil lookup now driveUsed)
      else case resolvePlanAndQuotaStart lookup now of
        Inl e \<Rightarrow> Inl e
      | Inr (plan, periodStart) \<Rightarrow>
          let entitled = feature_on plan f;
              lim = quotaLimitForFeature plan f;
              limit = (case lim of Some l \<Rightarrow> l | None \<Rightarrow> 0);
              base = \<lparr>cq_Unit = '''', cq_Limited = (lim \<noteq> None), cq_Limit = limit, cq_Used = 0, cq_Remaining = 0,
                      cq_Available = entitled\<rparr>
          in if lim = None \<or> \<not> entitled
             then Inr \<lparr>fa_Required = True, fa_Entitled = entitled, fa_Quota = base\<rparr>
             else if dbNil then Inl (EntFailed ''quota database is required'')
             else case qerr of
                    Some e \<Rightarrow> Inl (EntFailed e)
                  | None \<Rightarrow>
                      let used = (case usage (businessID, f, periodStart) of Some v \<Rightarrow> v | None \<Rightarrow> 0)
                      in Inr \<lparr>fa_Required = True, fa_Entitled = entitled,
                             fa_Quota = base\<lparr>cq_Used := used, cq_Remaining := max (limit - used) 0,
                                             cq_Available := used < limit\<rparr>\<rparr>)"

definition resolvePlanTx :: "sub_lookup \<Rightarrow> instant \<Rightarrow> ent_error + (subscription_plan \<times> instant)" where
  "resolvePlanTx lookup now =
     (case lookup of
        LookupRow s \<Rightarrow> Inr (subscriptionPlanForSubscription (Some s) now, quotaPeriodStart (Some s) now)
      | LookupNoRow \<Rightarrow> Inr (subscriptionPlanForCode ''free'', currentQuotaPeriodStart now)
      | LookupError e \<Rightarrow> Inl (EntFailed e))"

text \<open>
  The upsert: insert the amount, or on a conflicting key add it when the sum stays within
  the limit. It returns whether a row was affected.
\<close>

definition usage_upsert :: "(string \<times> string \<times> instant) \<Rightarrow> int \<Rightarrow> int \<Rightarrow> usage_table \<Rightarrow> bool \<times> usage_table" where
  "usage_upsert k amount limit usage =
     (case usage k of
        None \<Rightarrow> (True, usage(k \<mapsto> amount))
      | Some v \<Rightarrow> if v + amount \<le> limit then (True, usage(k \<mapsto> v + amount)) else (False, usage))"

definition ReserveFeatureTx :: "bool \<Rightarrow> sub_lookup \<Rightarrow> instant \<Rightarrow> string option \<Rightarrow> string option \<Rightarrow> string \<Rightarrow> string \<Rightarrow> int \<Rightarrow> usage_table
    \<Rightarrow> ent_error option \<times> usage_table" where
  "ReserveFeatureTx txNil lookup now upsertErr readErr businessID f amount usage =
     (if txNil then (Some (EntFailed ''quota transaction is required''), usage)
      else if amount \<le> 0 then (Some (EntFailed ''quota reservation amount must be positive''), usage)
      else case resolvePlanTx lookup now of
        Inl e \<Rightarrow> (Some e, usage)
      | Inr (plan, periodStart) \<Rightarrow>
          if \<not> feature_on plan f then (Some (FeatureUnavailable f (plan_ID plan)), usage)
          else case quotaLimitForFeature plan f of
            None \<Rightarrow> (None, usage)
          | Some limit \<Rightarrow>
              if limit < amount then (Some (QuotaExceeded f limit 0 (plan_ID plan)), usage)
              else case upsertErr of
                Some e \<Rightarrow> (Some (EntFailed e), usage)
              | None \<Rightarrow>
                  (case usage_upsert (businessID, f, periodStart) amount limit usage of
                     (True, usage') \<Rightarrow> (None, usage')
                   | (False, usage') \<Rightarrow>
                       (case readErr of
                          Some e \<Rightarrow> (Some (EntFailed e), usage')
                        | None \<Rightarrow> (Some (QuotaExceeded f limit
                             (case usage' (businessID, f, periodStart) of Some v \<Rightarrow> v | None \<Rightarrow> 0) (plan_ID plan)), usage'))))"

section \<open>Reservations\<close>

lemmas ent_defs = resolvePlanTx_def resolvePlanAndQuotaStart_def

lemma ReserveFeatureTx_error:
  "ReserveFeatureTx txNil lookup now ue re b f amount u = (Some e, u') \<Longrightarrow> u' = u"
  by (auto simp: ReserveFeatureTx_def usage_upsert_def split: if_splits sum.splits option.splits prod.splits)

text \<open>A successful reservation of a limited feature adds exactly the amount, within the limit.\<close>

lemma ReserveFeatureTx_ok:
  assumes "ReserveFeatureTx txNil lookup now ue re b f amount u = (None, u')"
    and "resolvePlanTx lookup now = Inr (plan, start)" and "quotaLimitForFeature plan f = Some limit"
  shows "feature_on plan f" and "0 < amount"
    and "\<exists>v. u' = u((b, f, start) \<mapsto> v) \<and> v = (case u (b, f, start) of Some w \<Rightarrow> w | None \<Rightarrow> 0) + amount \<and> v \<le> limit"
  using assms by (auto simp: ReserveFeatureTx_def usage_upsert_def split: if_splits option.splits prod.splits)

text \<open>Reservations of one business and feature in one period, with the amounts that were accepted.\<close>

fun reserve_run :: "sub_lookup \<Rightarrow> instant \<Rightarrow> string \<Rightarrow> string \<Rightarrow> (int \<times> string option) list \<Rightarrow> usage_table \<Rightarrow> int list \<times> usage_table" where
  "reserve_run lookup now b f [] u = ([], u)"
| "reserve_run lookup now b f ((amount, err) # rs) u =
     (case ReserveFeatureTx False lookup now err None b f amount u of
        (None, u') \<Rightarrow> (case reserve_run lookup now b f rs u' of (acc, u'') \<Rightarrow> (amount # acc, u''))
      | (Some _, u') \<Rightarrow> reserve_run lookup now b f rs u')"

definition used_value :: "usage_table \<Rightarrow> (string \<times> string \<times> instant) \<Rightarrow> int" where
  "used_value u k = (case u k of Some v \<Rightarrow> v | None \<Rightarrow> 0)"

lemma reserve_run_sum:
  assumes "resolvePlanTx lookup now = Inr (plan, start)" and "quotaLimitForFeature plan f = Some limit"
  shows "reserve_run lookup now b f rs u = (acc, u') \<Longrightarrow> used_value u (b, f, start) \<le> limit \<Longrightarrow>
    used_value u' (b, f, start) = used_value u (b, f, start) + sum_list acc \<and>
    used_value u' (b, f, start) \<le> limit \<and> (\<forall>a \<in> set acc. 0 < a) \<and>
    (\<forall>k. k \<noteq> (b, f, start) \<longrightarrow> u' k = u k)"
proof (induction rs arbitrary: u acc)
  case Nil
  then show ?case by simp
next
  case (Cons r rs)
  obtain amount err where r: "r = (amount, err)" by fastforce
  obtain e u1 where step: "ReserveFeatureTx False lookup now err None b f amount u = (e, u1)" by fastforce
  show ?case
  proof (cases e)
    case None
    from ReserveFeatureTx_ok [OF step [unfolded None] assms] have a: "0 < amount"
      and u1: "used_value u1 (b, f, start) = used_value u (b, f, start) + amount" "used_value u1 (b, f, start) \<le> limit"
        "\<forall>k. k \<noteq> (b, f, start) \<longrightarrow> u1 k = u k"
      by (auto simp: used_value_def)
    obtain acc1 where run: "reserve_run lookup now b f rs u1 = (acc1, u')" and acc: "acc = amount # acc1"
      using Cons.prems(1) r step None by (auto split: prod.splits)
    from Cons.IH [OF run u1(2)] a u1 acc show ?thesis by auto
  next
    case (Some x)
    with ReserveFeatureTx_error step have "u1 = u" by blast
    with Cons.prems r step Some Cons.IH [of u acc] show ?thesis by simp
  qed
qed

text \<open>The observation and the reservation agree on what is available.\<close>

lemma inspect_reserve_agree:
  assumes "f \<noteq> FeatureDriveStorageMB"
    and "InspectFeature False (Some (Inr s)) now dr u None b f = Inr a"
  shows "cq_Available (fa_Quota a) \<longleftrightarrow> fst (ReserveFeatureTx False (LookupRow s) now None None b f 1 u) = None"
proof -
  let ?plan = "subscriptionPlanForSubscription (Some s) now"
  have "quotaLimitForFeature ?plan f = Some limit \<Longrightarrow> 0 < limit" for limit
  proof -
    assume "quotaLimitForFeature ?plan f = Some limit"
    moreover have "?plan \<in> set subscriptionPlans"
      by (simp add: subscriptionPlanForSubscription_def subscriptionPlanForCode_mem del: plan_for_free)
    ultimately show "0 < limit"
      by (auto simp: subscriptionPlans_def plan_defs quotaLimitForFeature_def split: if_splits)
  qed
  then show ?thesis using assms
    by (auto simp: InspectFeature_def ReserveFeatureTx_def ent_defs usage_upsert_def Let_def
          split: if_splits option.splits)
qed

end
