(* ===== verification/Subscription_Properties.thy ===== *)
theory Subscription_Properties
  imports Subscription_System Subscription_Once Subscription_Restore Entitlements
begin

text \<open>
  The properties of the subscription lifecycle and of the entitlements it grants, with a
  concrete run for each property that has a hypothesis.
\<close>

section \<open>Sample data\<close>

definition sample_cfg :: lifecycle_config where
  "sample_cfg = NewSubscriptionLifecycleService \<lparr>lc_TotalCount = 0, lc_GracePeriod = 0, lc_ProviderNil = False, lc_RepositoryNil = False\<rparr>"

definition sample_st :: provider_settings where
  "sample_st = \<lparr>ps_ProviderMode = ''test'', ps_ProviderPlanIDs = [(''pro_monthly'', ''plan_P''), (''rise_monthly'', ''plan_R'')],
     ps_WebhookSecret = ''whsec''\<rparr>"

definition sample_sub :: subscription where
  "sample_sub = (fresh_subscription ''sub-1'' ''biz-1'' 0)\<lparr>sub_ProviderMode := ''test'', sub_ProviderSubscriptionID := ''sub_X'',
     sub_ProviderPlanID := ''plan_P'', sub_PendingPlanID := ''pro_monthly'', sub_PendingProviderPlanID := ''plan_P''\<rparr>"

definition sample_provider :: rz_subscription where
  "sample_provider = \<lparr>rz_ID = ''sub_X'', rz_PlanID = ''plan_P'', rz_CustomerID = ''cust_1'', rz_Status = ''active'',
     rz_CurrentStart = 100, rz_CurrentEnd = 200, rz_PaidCount = 1, rz_ShortURL = [], rz_HasScheduledChanges = False,
     rz_ScheduleChangeAt = [],
     rz_Notes = [''business_id'' \<mapsto> ''biz-1'', ''subscription_id'' \<mapsto> ''sub-1'', ''provider_mode'' \<mapsto> ''test'']\<rparr>"

definition sample_payment :: rz_payment where
  "sample_payment = \<lparr>rp_ID = ''pay_1'', rp_Amount = 29900, rp_Currency = ''INR'', rp_Status = ''captured'', rp_InvoiceID = ''inv_1'', rp_Captured = True\<rparr>"

definition sample_event :: "string \<Rightarrow> rz_subscription \<Rightarrow> rz_event" where
  "sample_event name p = \<lparr>we_Event = name, we_CreatedAtEpoch = 150, we_Payment = Some sample_payment, we_Subscription = Some p\<rparr>"

definition sample_db :: lifedb where
  "sample_db = \<lparr>db_subs = [sample_sub], db_cmds = [], db_events = [], db_billing = [], db_audits = [], db_aborted = False,
     db_faults = [], db_wall = 5, db_fresh = (\<lambda>n. replicate n CHR ''u''), db_next = 1, db_calls = []\<rparr>"

lemmas sample_defs = sample_cfg_def sample_st_def sample_sub_def sample_provider_def sample_payment_def sample_event_def sample_db_def
  NewSubscriptionLifecycleService_def fresh_subscription_def

definition sample_body :: "u8 list" where
  "sample_body = [123, 125]"

definition sample_signature :: string where
  "sample_signature = hex_encode (hmac_sha256 (string_bytes ''whsec'') sample_body)"

section \<open>Signatures\<close>

lemma hex_not_space:
  assumes "n < 16"
  shows "\<not> is_space (hex_digit n)"
proof
  have n: "(of_char (hex_digit n) :: nat) = (if n < 10 then 48 + n else 87 + n)"
    using assms by (simp add: hex_digit_def of_char_of)
  assume "is_space (hex_digit n)"
  then have "(of_char (hex_digit n) :: nat) \<le> 32" by (auto simp: is_space_def)
  with n show False by (simp split: if_splits)
qed

lemma TrimSpace_id: "(\<And>c. c \<in> set s \<Longrightarrow> \<not> is_space c) \<Longrightarrow> TrimSpace s = s"
  unfolding TrimSpace_def by (subst (2) dropWhile_stable, simp, subst dropWhile_stable) (auto simp: hd_rev)

lemma TrimSpace_hex: "TrimSpace (hex_encode bs) = hex_encode bs"
proof (rule TrimSpace_id)
  fix c assume "c \<in> set (hex_encode bs)"
  then obtain b :: u8 where "c = hex_digit (unat b div 16) \<or> c = hex_digit (unat b mod 16)"
    unfolding hex_encode_def by auto
  moreover have "unat b < 256" by (rule order_less_le_trans [OF unsigned_less]) simp
  ultimately show "\<not> is_space c" by (auto simp: hex_not_space)
qed

lemma webhook_signature_iff:
  assumes "body \<noteq> []" and "secret \<noteq> []"
  shows "VerifyRazorpayWebhook body sig secret \<longleftrightarrow> hex_decode (TrimSpace sig) = Some (hmac_sha256 (string_bytes secret) body)"
proof -
  have len: "length (hmac_sha256 k m) = 32" for k m by (simp add: hmac_sha256_def Let_def)
  have "hex_decode [] \<noteq> Some (hmac_sha256 (string_bytes secret) body)" using len [of "string_bytes secret" body] by auto
  with assms len show ?thesis by (auto simp: VerifyRazorpayWebhook_def verifyHMACSHA256_def split: option.splits)
qed

text \<open>
  A body signed with the webhook secret is accepted: the hexadecimal HMAC-SHA256 of the
  body verifies, and it is the only digest that does. A signature is compared after
  decoding, so the accepted headers are exactly the hexadecimal spellings of that digest.
\<close>

theorem webhook_signature_exact:
  assumes "body \<noteq> []" and "secret \<noteq> []"
  shows "VerifyRazorpayWebhook body (hex_encode (hmac_sha256 (string_bytes secret) body)) secret \<and>
    (VerifyRazorpayWebhook body sig secret \<longleftrightarrow> hex_decode (TrimSpace sig) = Some (hmac_sha256 (string_bytes secret) body))"
  unfolding webhook_signature_iff [OF assms] by (simp add: TrimSpace_hex hex_roundtrip)

theorem webhook_signature_exact_witness:
  "VerifyRazorpayWebhook sample_body (hex_encode (hmac_sha256 (string_bytes ''whsec'') sample_body)) ''whsec'' \<and>
   \<not> VerifyRazorpayWebhook sample_body ''zz'' ''whsec''"
  using webhook_signature_exact [of sample_body "''whsec''" "''zz''"]
  by (simp add: sample_body_def TrimSpace_def is_space_def hex_value_def)

section \<open>Webhook deliveries\<close>

lemma HandleWebhook_first:
  assumes "HandleWebhook cfg (Inr st) sig eid body (Some ev) s = (Inr (w, e), s')" and "\<not> wr_Duplicate w"
  shows "TrimSpace eid \<noteq> []" and "TrimSpace (ps_WebhookSecret st) \<noteq> []"
    and "VerifyRazorpayWebhook body sig (ps_WebhookSecret st)"
    and "\<exists>row. find (\<lambda>x. ev_key x = (ps_ProviderMode st, TrimSpace eid)) (db_events s') = Some row \<and> ev_PayloadHash row = sha256Hex body \<and>
      ev_ProcessingStatus row = wr_Status w \<and> ev_SanitizedErrorCode row = wr_Code w \<and> e = subscriptionWebhookDomainError (wr_Status w)"
proof -
  from assms(1) show v: "TrimSpace eid \<noteq> []" "TrimSpace (ps_WebhookSecret st) \<noteq> []"
    "VerifyRazorpayWebhook body sig (ps_WebhookSecret st)"
    by (auto simp: HandleWebhook_def Let_def split: if_splits)
  let ?h = "sha256Hex body" and ?id = "TrimSpace eid"
  let ?occ = "if we_CreatedAtEpoch ev > 0 then Unix (we_CreatedAtEpoch ev) else db_wall s"
  obtain r1 s1 where t: "Transaction (webhook_tx cfg st ev ?id ?h (db_wall s) ?occ) s = (r1, s1)" by fastforce
  note run = assms(1) [unfolded HandleWebhook_verified [OF v] Let_def t]
  have "r1 \<noteq> Inl ErrRazorpayEventAlreadyExists"
  proof
    assume "r1 = Inl ErrRazorpayEventAlreadyExists"
    with run have "Transaction (tx_bind (GetEventForUpdate (ps_ProviderMode st) ?id)
        (\<lambda>existing. recordSubscriptionEventReplayTx existing ?h ?id (db_wall s))) s1 = (Inr (w, e), s')" by simp
    then have "wr_Duplicate w" by (elim Transaction_ok tx_bind_Inr) (auto dest: replay_duplicate)
    with assms(2) show False by simp
  qed
  with run have "r1 = Inr (w, e)" "s1 = s'" by (auto split: sum.splits lifecycle_error.splits)
  with t obtain s2 fs where "webhook_tx cfg st ev ?id ?h (db_wall s) ?occ (s\<lparr>db_aborted := False\<rparr>) = (Inr (w, e), s2)" "s' = s2\<lparr>db_faults := fs\<rparr>"
    by (auto elim: Transaction_ok)
  with first_delivery_recorded [of cfg st ev ?id ?h "db_wall s" ?occ _ "(w, e)" s2] assms(2)
  show "\<exists>row. find (\<lambda>x. ev_key x = (ps_ProviderMode st, TrimSpace eid)) (db_events s') = Some row \<and> ev_PayloadHash row = sha256Hex body \<and>
      ev_ProcessingStatus row = wr_Status w \<and> ev_SanitizedErrorCode row = wr_Code w \<and> e = subscriptionWebhookDomainError (wr_Status w)"
    by fastforce
qed

lemma replay_fault_free:
  assumes "find (\<lambda>x. ev_key x = (ps_ProviderMode st, eid)) (db_events s) = Some row" and "ev_PayloadHash row = h"
    and "db_faults s = []"
  shows "\<exists>out s'. Transaction (webhook_tx cfg st ev eid h t occ) s = (Inr out, s')"
  using assms
  by (simp add: Transaction_def webhook_tx_def tx_bind_def tx_try_def GetEventForUpdate_def SaveEvent_def statement_def
        recordSubscriptionEventReplayTx_def tx_return_def Let_def)

text \<open>
  C5: A webhook is applied once. After a delivery that was accepted as new, a second
  delivery of the same event and body, however much later and whatever happened to the other
  tables in between, changes no subscription, command, billing record or audit record; it
  answers as the first did, marked as a duplicate, and without database failures it does answer.
\<close>

theorem webhook_applied_once:
  assumes "HandleWebhook cfg (Inr st) sig eid body (Some ev) s = (Inr (w, e), s1)" and "\<not> wr_Duplicate w"
    and "db_events s2 = db_events s1"
    and "HandleWebhook cfg (Inr st) sig eid body (Some ev) s2 = (r, s3)"
  shows "domain_tables s3 = domain_tables s2 \<and>
    (\<forall>out. r = Inr out \<longrightarrow> out = (\<lparr>wr_Status = wr_Status w, wr_Duplicate = True, wr_Code = wr_Code w\<rparr>, e)) \<and>
    (db_faults s2 = [] \<longrightarrow> (\<exists>out. r = Inr out))"
proof -
  note first = HandleWebhook_first [OF assms(1,2)]
  from first(4) obtain row where row: "find (\<lambda>x. ev_key x = (ps_ProviderMode st, TrimSpace eid)) (db_events s1) = Some row"
    "ev_PayloadHash row = sha256Hex body" "ev_ProcessingStatus row = wr_Status w" "ev_SanitizedErrorCode row = wr_Code w"
    "e = subscriptionWebhookDomainError (wr_Status w)" by blast
  let ?tx = "webhook_tx cfg st ev (TrimSpace eid) (sha256Hex body) (db_wall s2)
    (if we_CreatedAtEpoch ev > 0 then Unix (we_CreatedAtEpoch ev) else db_wall s2)"
  obtain r1 t1 where t: "Transaction ?tx s2 = (r1, t1)" by fastforce
  obtain r0 t0 where b: "?tx (s2\<lparr>db_aborted := False\<rparr>) = (r0, t0)" by fastforce
  have f: "find (\<lambda>x. ev_key x = (ps_ProviderMode st, TrimSpace eid)) (db_events (s2\<lparr>db_aborted := False\<rparr>)) = Some row"
    using row(1) assms(3) by simp
  note rep = replayed_delivery [OF f row(2) b]
  have "r1 \<noteq> Inl ErrRazorpayEventAlreadyExists"
    using t b rep by (auto simp: Transaction_def tx_return_def split: sum.splits prod.splits elim!: statement_cases)
  then have out: "r = r1" "s3 = t1"
    using assms(4) [unfolded HandleWebhook_verified [OF first(1,2,3)] Let_def t] by (auto split: sum.splits lifecycle_error.splits)
  have dom: "domain_tables t1 = domain_tables s2"
  proof (cases r1)
    case (Inl x)
    with Transaction_error t show ?thesis by (fastforce simp: domain_tables_def tables_def)
  next
    case (Inr x)
    with t b rep show ?thesis by (auto simp: domain_tables_def elim!: Transaction_ok)
  qed
  have val: "x = (\<lparr>wr_Status = wr_Status w, wr_Duplicate = True, wr_Code = wr_Code w\<rparr>, e)" if "r1 = Inr x" for x
    using t b rep that row by (cases x) (auto elim!: Transaction_ok)
  have "\<exists>x. r1 = Inr x" if "db_faults s2 = []"
  proof -
    have "find (\<lambda>x. ev_key x = (ps_ProviderMode st, TrimSpace eid)) (db_events s2) = Some row" using row(1) assms(3) by simp
    from replay_fault_free [OF this row(2) that] obtain out s' where "Transaction ?tx s2 = (Inr out, s')" by metis
    with t show ?thesis by (metis prod.inject)
  qed
  with dom val out show ?thesis by blast
qed

lemma sample_verified:
  "TrimSpace ''evt_1'' = ''evt_1''" "TrimSpace ''whsec'' = ''whsec''"
  "VerifyRazorpayWebhook sample_body sample_signature ''whsec''"
  by (code_simp, code_simp, use webhook_signature_iff in \<open>simp add: sample_body_def sample_signature_def TrimSpace_hex hex_roundtrip\<close>)

lemmas exec_defs = Transaction_def tx_bind_def tx_try_def tx_return_def tx_fail_def statement_def new_uuid_def repo_defs

lemma sample_plan:
  "planForProviderID ''plan_P'' [(''pro_monthly'', ''plan_P''), (''rise_monthly'', ''plan_R'')] = Some pro_plan"
  "plan_Amount pro_plan = 29900" "plan_Currency pro_plan = ''INR''" "plan_PlanCode pro_plan = ''pro''" "plan_LegacyPlan pro_plan = ''starter''"
  by (simp_all add: planForProviderID_def paidSubscriptionPlan_def FindSubscriptionPlan_def subscriptionPlans_def plan_defs
        norm_key_def TrimSpace_def is_space_def ToLower_def lower_char_def)

lemma sample_effect:
  "\<exists>a br. subscription_event_effect sample_cfg sample_sub (sample_event ''subscription.charged'' sample_provider) sample_provider eid t sample_st =
     EventApplied a (Some br) \<and> sub_PlanCode a = ''pro'' \<and> sub_ID a = ''sub-1'' \<and>
     (\<forall>x v u. v > 0 \<longrightarrow> subscription_checks (a\<lparr>sub_LastProviderEventAt := x, sub_LifecycleVersion := v, sub_UpdatedAt := u\<rparr>)) \<and>
     sub_LifecycleVersion a = 1"
  by (simp add: subscription_event_effect_def charged_effect_def sample_defs sample_plan validatePaidPeriodAdvance_def
        paid_period_def clear_pending_plan_def applyPlanToAggregate_def subscription_checks_def Unix_def nsPerSecond_def Let_def)

lemma sample_charge_tx:
  "\<exists>w s1. webhook_tx sample_cfg sample_st (sample_event ''subscription.charged'' sample_provider) ''evt_1'' h t occ sample_db =
     (Inr (w, None), s1) \<and> \<not> wr_Duplicate w \<and> wr_Status w = ''processed'' \<and> length (db_billing s1) = 1 \<and>
     map sub_PlanCode (db_subs s1) = [''pro''] \<and> db_faults s1 = [] \<and> \<not> db_aborted s1"
proof -
  let ?ev = "sample_event ''subscription.charged'' sample_provider"
  obtain a br where eff: "subscription_event_effect sample_cfg sample_sub ?ev sample_provider ''evt_1'' occ sample_st =
     EventApplied a (Some br)" "sub_PlanCode a = ''pro''" "sub_ID a = ''sub-1''" "sub_LifecycleVersion a = 1"
     and ok: "\<And>x v u. v > 0 \<Longrightarrow> subscription_checks (a\<lparr>sub_LastProviderEventAt := x, sub_LifecycleVersion := v, sub_UpdatedAt := u\<rparr>)"
    using sample_effect by blast
  have ids: "validateProviderSubscriptionIdentity sample_sub sample_provider sample_st = []"
    "validateProviderSubscriptionPlan sample_sub sample_provider = []" "subscriptionEventIsStale sample_sub ?ev occ = False"
    "we_Subscription ?ev = Some sample_provider" "we_Event ?ev = ''subscription.charged''"
    by (simp_all add: sample_defs validateProviderSubscriptionIdentity_def note_of_def validateProviderSubscriptionPlan_def subscriptionEventIsStale_def)
  have db: "db_subs sample_db = [sample_sub]" "db_events sample_db = []" "db_faults sample_db = []" "\<not> db_aborted sample_db"
    "db_billing sample_db = []" "db_audits sample_db = []" "sub_ID sample_sub = ''sub-1''" "live sample_sub"
    "sub_ProviderMode sample_sub = ''test''" "sub_ProviderSubscriptionID sample_sub = ''sub_X''" "ps_ProviderMode sample_st = ''test''"
    "rz_ID sample_provider = ''sub_X''"
    by (simp_all add: sample_defs live_def)
  show ?thesis
    by (simp add: webhook_tx_def exec_defs db dispatch_event_def ids HasPrefix_def load_aggregate_def process_event_def applySubscriptionEventTx_def
          eff ok create_billing_def after_event_def finish_event_def Let_def upsert_by_def new_inbox_def)
qed

lemma sample_charge:
  obtains w s1 where "HandleWebhook sample_cfg (Inr sample_st) sample_signature ''evt_1'' sample_body
      (Some (sample_event ''subscription.charged'' sample_provider)) sample_db = (Inr (w, None), s1)"
    and "\<not> wr_Duplicate w" and "wr_Status w = ''processed''" and "length (db_billing s1) = 1"
    and "map sub_PlanCode (db_subs s1) = [''pro'']"
proof -
  have s: "TrimSpace ''evt_1'' \<noteq> []" "TrimSpace (ps_WebhookSecret sample_st) \<noteq> []"
    "VerifyRazorpayWebhook sample_body sample_signature (ps_WebhookSecret sample_st)"
    using sample_verified by (simp_all add: sample_st_def)
  have same: "sample_db\<lparr>db_aborted := False\<rparr> = sample_db" by (simp add: sample_db_def)
  obtain w s1 where "webhook_tx sample_cfg sample_st (sample_event ''subscription.charged'' sample_provider) ''evt_1'' (sha256Hex sample_body)
      (db_wall sample_db) (Unix 150) sample_db = (Inr (w, None), s1)" "\<not> wr_Duplicate w" "wr_Status w = ''processed''"
      "length (db_billing s1) = 1" "map sub_PlanCode (db_subs s1) = [''pro'']" "db_faults s1 = []" "\<not> db_aborted s1"
    using sample_charge_tx by metis
  moreover have "we_CreatedAtEpoch (sample_event n p) = 150" for n p by (simp add: sample_event_def)
  ultimately show ?thesis
    by (intro that [of w s1])
       (simp_all add: HandleWebhook_verified [OF s] sample_verified Transaction_def same statement_def tx_return_def)
qed

text \<open>The second delivery happens on the next day.\<close>

theorem webhook_applied_once_witness:
  "\<exists>w s1 out s3. HandleWebhook sample_cfg (Inr sample_st) sample_signature ''evt_1'' sample_body
       (Some (sample_event ''subscription.charged'' sample_provider)) sample_db = (Inr (w, None), s1) \<and>
     HandleWebhook sample_cfg (Inr sample_st) sample_signature ''evt_1'' sample_body
       (Some (sample_event ''subscription.charged'' sample_provider)) (s1\<lparr>db_faults := [], db_wall := nsPerDay\<rparr>) = (Inr (out, None), s3) \<and>
     wr_Duplicate out \<and> wr_Status out = ''processed'' \<and> length (db_billing s3) = 1 \<and> db_subs s3 = db_subs s1"
proof -
  let ?h = "HandleWebhook sample_cfg (Inr sample_st) sample_signature ''evt_1'' sample_body
       (Some (sample_event ''subscription.charged'' sample_provider))"
  obtain w s1 where run: "?h sample_db = (Inr (w, None), s1)" and w: "\<not> wr_Duplicate w" "wr_Status w = ''processed''" "length (db_billing s1) = 1"
    by (rule sample_charge)
  let ?s2 = "s1\<lparr>db_faults := [], db_wall := nsPerDay\<rparr>"
  obtain r s3 where again: "?h ?s2 = (r, s3)" by fastforce
  have "db_events ?s2 = db_events s1" "db_faults ?s2 = []" by simp_all
  with webhook_applied_once [OF run w(1) _ again] obtain out where
    "r = Inr out" "out = (\<lparr>wr_Status = wr_Status w, wr_Duplicate = True, wr_Code = wr_Code w\<rparr>, None)" "domain_tables s3 = domain_tables ?s2"
    by blast
  then show ?thesis
    by (intro exI [of _ w] exI [of _ s1] exI [of _ "fst out"] exI [of _ s3] conjI run again [THEN trans])
       (use w in \<open>simp_all add: domain_tables_def\<close>)
qed

text \<open>
  A delivery whose signature does not verify (or that arrives while no secret is
  configured) is refused with the signature error, whatever its body says, and changes no
  subscription, command, billing record or audit record; it makes no call to the provider.
\<close>

theorem invalid_signature_changes_nothing:
  assumes "TrimSpace eid \<noteq> []"
    and "TrimSpace (ps_WebhookSecret st) = [] \<or> \<not> VerifyRazorpayWebhook body sig (ps_WebhookSecret st)"
    and "HandleWebhook cfg (Inr st) sig eid body parsed s = (r, s')"
  shows "r = Inl ErrInvalidSubscriptionWebhookSignature \<and> domain_tables s' = domain_tables s \<and> db_calls s' = db_calls s"
proof -
  let ?tx = "record_rejected_delivery ''unverified'' (''unverified:'' @ sha256Hex (string_bytes (TrimSpace eid)))
    ''unverified'' (sha256Hex body) False ''invalid_signature'' (db_wall s)"
  obtain r1 s1 where t: "Transaction ?tx s = (r1, s1)" by fastforce
  have "r = Inl ErrInvalidSubscriptionWebhookSignature" "s' = s1"
    using assms t by (auto simp: HandleWebhook_def Let_def)
  moreover have "domain_tables s1 = domain_tables s" by (rule Transaction_domain [OF t]) (rule record_rejected_domain)
  moreover have "cmds_inv {} (db_calls s) s1"
  proof -
    have ops: "holds (cmds_inv K cs) (GetEventForUpdate m e) (\<lambda>_. True)" "holds (cmds_inv K cs) (SaveEvent x) (\<lambda>_. True)"
      "holds (cmds_inv K cs) (CreateEvent x) (\<lambda>_. True)" for K cs m e x
      unfolding GetEventForUpdate_def SaveEvent_def CreateEvent_def
      by (rule cmds.holds_statement; force simp: cmds_inv_def split: option.splits if_splits)+
    have "holds (cmds_inv {} (db_calls s)) ?tx (\<lambda>_. True)" unfolding record_rejected_delivery_def
      by (rule holds_bind_try [OF ops(1)]) (auto intro!: ops holds_if holds_fail holds_bind [OF cmds.holds_uuid])
    from holdsD [OF cmds.holds_Transaction [OF this] _ t] show ?thesis by (simp add: cmds_inv_def)
  qed
  ultimately show ?thesis by (simp add: cmds_inv_def)
qed

theorem invalid_signature_changes_nothing_witness:
  "fst (HandleWebhook sample_cfg (Inr sample_st) ''00'' ''evt_1'' sample_body (Some (sample_event ''subscription.charged'' sample_provider)) sample_db)
     = Inl ErrInvalidSubscriptionWebhookSignature"
proof -
  have t: "TrimSpace ''00'' = ''00''" by code_simp
  have "\<not> VerifyRazorpayWebhook sample_body ''00'' (ps_WebhookSecret sample_st)"
    by (simp add: VerifyRazorpayWebhook_def verifyHMACSHA256_def t hex_value_def sample_st_def)
  then show ?thesis
    using invalid_signature_changes_nothing [of "''evt_1''" sample_st sample_body "''00''" sample_cfg
      "Some (sample_event ''subscription.charged'' sample_provider)" sample_db, OF _ _ surjective_pairing] sample_verified(1) by simp
qed

text \<open>
  C4: Entitlements come from verified payments. Whatever a delivery does, with any
  database failures: every subscription row it leaves either has the plan, the limits and the
  paid count that a row of the same business had before, or has exactly those of a configured
  paid plan whose exact price the delivered event reports as captured, for the business and
  subscription named in the provider's notes; and every billing record was there before or
  records such a charge.
\<close>

theorem entitlements_only_from_verified_payments:
  assumes "HandleWebhook cfg (Inr st) sig eid body (Some ev) s = (r, s')"
  shows "(\<forall>a \<in> set (db_subs s'). sub_justified (db_subs s) st ev a) \<and>
    (\<forall>b \<in> set (db_billing s'). bill_justified (db_billing s) st ev b)"
  using HandleWebhook_justified [OF assms] by (simp add: rows_ok_def)

theorem entitlements_only_from_verified_payments_witness:
  "\<exists>s1. snd (HandleWebhook sample_cfg (Inr sample_st) sample_signature ''evt_1'' sample_body
       (Some (sample_event ''subscription.charged'' sample_provider)) sample_db) = s1 \<and>
     map sub_PlanCode (db_subs s1) = [''pro''] \<and>
     (\<forall>a \<in> set (db_subs s1). sub_justified [sample_sub] sample_st (sample_event ''subscription.charged'' sample_provider) a)"
proof -
  obtain w s1 where run: "HandleWebhook sample_cfg (Inr sample_st) sample_signature ''evt_1'' sample_body
       (Some (sample_event ''subscription.charged'' sample_provider)) sample_db = (Inr (w, None), s1)"
    and "map sub_PlanCode (db_subs s1) = [''pro'']" by (rule sample_charge)
  moreover have "db_subs sample_db = [sample_sub]" by (simp add: sample_db_def)
  ultimately show ?thesis using entitlements_only_from_verified_payments [OF run] by (metis snd_conv)
qed

text \<open>
  What a charge grants. A charge event that is applied raises the provider's paid
  count, grants the charged plan at every instant before the end of the period it pays for and
  the free plan from that end on, and produces a billing record over exactly that period, for
  exactly the plan's price.
\<close>

theorem charge_grants_paid_period:
  assumes "charged_effect a ev p eid t st = EventApplied a' b"
    and "we_Event ev = ''subscription.charged''"
  shows "\<exists>plan br. planForProviderID (rz_PlanID p) (ps_ProviderPlanIDs st) = Some plan \<and> 0 < plan_Amount plan \<and>
    sub_LastProviderPaidCount a < sub_LastProviderPaidCount a' \<and>
    (\<forall>now. subscriptionPlanForSubscription (Some (after_event ev p t a')) now =
       (if now < Unix (rz_CurrentEnd p) then plan else free_plan)) \<and>
    b = Some br \<and> br_AmountMinor br = plan_Amount plan \<and> br_BusinessID br = sub_BusinessID a \<and>
    br_PeriodStart br = Some (Unix (rz_CurrentStart p)) \<and> br_PeriodEnd br = Some (Unix (rz_CurrentEnd p))"
  using assms(1)
proof (rule charged_effectD)
  fix pay plan
  assume h: "planForProviderID (rz_PlanID p) (ps_ProviderPlanIDs st) = Some plan" "rp_Amount pay = plan_Amount plan"
    "sub_LastProviderPaidCount a < rz_PaidCount p"
    and a': "a' = (paid_period plan p (Unix (rz_CurrentStart p)) (Unix (rz_CurrentEnd p)) a)
            \<lparr>sub_BillingMode := BillingModeRenewable, sub_ReconciliationCode := []\<rparr>"
    and br: "\<exists>br. b = Some br \<and> br_AmountMinor br = rp_Amount pay \<and> br_BusinessID br = sub_BusinessID a \<and>
       br_ProviderPaymentID br = rp_ID pay \<and> br_ProviderEventID br = eid \<and> br_ProviderMode br = sub_ProviderMode a \<and>
       br_PeriodStart br = Some (Unix (rz_CurrentStart p)) \<and> br_PeriodEnd br = Some (Unix (rz_CurrentEnd p))"
  let ?a = "after_event ev p t a'"
  have paid: "plan \<in> {pro_plan, rise_plan, biz_plan}" "0 < plan_Amount plan"
    using h(1) by (auto simp: planForProviderID_def split: option.splits dest: paidSubscriptionPlanD)
  have f: "sub_Plan ?a = plan_LegacyPlan plan" "sub_PlanCode ?a = plan_PlanCode plan" "sub_Status ?a = StatusActive"
    "sub_PeriodEnd ?a = Some (Unix (rz_CurrentEnd p))" "sub_LastProviderPaidCount a' = rz_PaidCount p"
    using assms(2) by (auto simp: a' after_event_def paid_period_def clear_pending_plan_def applyPlanToAggregate_def Let_def)
  have "norm_key StatusActive = StatusActive" by code_simp
  then have "has_access ?a now \<longleftrightarrow> now < Unix (rz_CurrentEnd p)" for now
    by (simp add: has_access_def f after_opt_def)
  moreover have "subscriptionPlanForCode (normalizePlanCode (plan_LegacyPlan plan) (plan_PlanCode plan)) = plan"
    by (rule plan_code_roundtrip) (use paid(1) in \<open>auto simp: subscriptionPlans_def\<close>)
  ultimately have "subscriptionPlanForSubscription (Some ?a) now = (if now < Unix (rz_CurrentEnd p) then plan else free_plan)" for now
    by (simp add: subscriptionPlanForSubscription_def f)
  with h paid f br show ?thesis by auto
qed

theorem charge_grants_paid_period_witness:
  "\<exists>a br. charged_effect sample_sub (sample_event ''subscription.charged'' sample_provider) sample_provider ''evt_1'' 7 sample_st = EventApplied a (Some br) \<and>
     subscriptionPlanForSubscription (Some (after_event (sample_event ''subscription.charged'' sample_provider) sample_provider 7 a)) (Unix 150) = pro_plan \<and>
     subscriptionPlanForSubscription (Some (after_event (sample_event ''subscription.charged'' sample_provider) sample_provider 7 a)) (Unix 200) = free_plan"
proof -
  let ?ev = "sample_event ''subscription.charged'' sample_provider"
  have e: "we_Event ?ev = ''subscription.charged''" "sub_Status sample_sub = StatusPendingPayment" by (simp_all add: sample_defs)
  obtain a br where "charged_effect sample_sub ?ev sample_provider ''evt_1'' 7 sample_st = EventApplied a (Some br)"
    using sample_effect [of "''evt_1''" 7] e by (auto simp: subscription_event_effect_def Let_def)
  with charge_grants_paid_period [OF this e(1)] sample_plan show ?thesis
    by (auto simp: sample_st_def sample_provider_def Unix_def nsPerSecond_def)
qed

text \<open>
  Cancelled and expired subscriptions stay so. An event applied to a subscription in
  a terminal status leaves it in a terminal status and bills nothing.
\<close>

theorem terminal_status_is_final:
  assumes "sub_Status a \<in> {StatusCancelled, StatusExpired}"
    and "subscription_event_effect cfg a ev p eid t st = EventApplied a' b"
  shows "sub_Status a' \<in> {StatusCancelled, StatusExpired} \<and> b = None \<and> entitlement a' = entitlement a"
  using assms by (auto simp: subscription_event_effect_def entitlement_def Let_def split: if_splits)

theorem terminal_status_is_final_witness:
  "\<exists>a. subscription_event_effect sample_cfg (sample_sub\<lparr>sub_Status := StatusExpired\<rparr>) (sample_event ''subscription.cancelled'' sample_provider)
     sample_provider ''evt'' 7 sample_st = EventApplied a None \<and> sub_Status a \<in> {StatusCancelled, StatusExpired}"
proof -
  obtain a where e: "subscription_event_effect sample_cfg (sample_sub\<lparr>sub_Status := StatusExpired\<rparr>)
     (sample_event ''subscription.cancelled'' sample_provider) sample_provider ''evt'' 7 sample_st = EventApplied a None"
    by (simp add: subscription_event_effect_def sample_event_def Let_def)
  from terminal_status_is_final [OF _ this] e show ?thesis by auto
qed

text \<open>
  C9: A notice of an unpaid cycle is refused by the database. When a verified
  \<open>subscription.pending\<close> event, valid for a subscription that has not ended and newer than what it has seen,
  carries a billing period that ends later than the grace deadline computed from the old period (a monthly cycle
  under seven days of grace), the changed row has its deadline before the end of its period, which the check
  \<open>subscriptions_grace_check\<close> forbids. So every delivery of the event fails, however often
  the provider repeats it and whatever else the database does: no subscription becomes past due, no
  audit record and no inbox row is written, and the next delivery fails again.
\<close>

theorem pending_notice_refused_by_database:
  assumes "TrimSpace eid \<noteq> []" and "TrimSpace (ps_WebhookSecret st) \<noteq> []" and "VerifyRazorpayWebhook body sig (ps_WebhookSecret st)"
    and "we_Event ev = ''subscription.pending''" and "we_Subscription ev = Some p" and "0 < we_CreatedAtEpoch ev"
    and "find (\<lambda>x. ev_key x = (ps_ProviderMode st, TrimSpace eid)) (db_events s) = None"
    and "find (\<lambda>r. sub_ProviderMode r = ps_ProviderMode st \<and> sub_ProviderSubscriptionID r = rz_ID p \<and> live r) (db_subs s) = Some a"
    and "validateProviderSubscriptionIdentity a p st = []" and "validateProviderSubscriptionPlan a p = []"
    and "\<not> subscriptionEventIsStale a ev (Unix (we_CreatedAtEpoch ev))" and "sub_Status a \<notin> {StatusCancelled, StatusExpired}"
    and "0 < rz_CurrentStart p" and "rz_CurrentStart p < rz_CurrentEnd p"
    and "Unix (we_CreatedAtEpoch ev) + lc_GracePeriod cfg < Unix (rz_CurrentEnd p)"
    and "case sub_PeriodEnd a of None \<Rightarrow> True | Some pe \<Rightarrow> pe + lc_GracePeriod cfg < Unix (rz_CurrentEnd p)"
  shows "tables (retries (\<lambda>_. HandleWebhook cfg (Inr st) sig eid body (Some ev)) attempts s) = tables s \<and>
    (\<exists>e s'. HandleWebhook cfg (Inr st) sig eid body (Some ev)
       ((retries (\<lambda>_. HandleWebhook cfg (Inr st) sig eid body (Some ev)) attempts s)\<lparr>db_faults := faults, db_wall := now\<rparr>) = (Inl e, s') \<and>
       tables s' = tables s)"
proof -
  let ?h = "HandleWebhook cfg (Inr st) sig eid body (Some ev)"
  have one: "\<exists>e s'. ?h t = (Inl e, s') \<and> tables s' = tables s" if "tables t = tables s" for t
  proof -
    from that have "db_events t = db_events s" "db_subs t = db_subs s" by (simp_all add: tables_def)
    with assms(7,8) have t: "find (\<lambda>x. ev_key x = (ps_ProviderMode st, TrimSpace eid)) (db_events t) = None"
      "find (\<lambda>r. sub_ProviderMode r = ps_ProviderMode st \<and> sub_ProviderSubscriptionID r = rz_ID p \<and> live r) (db_subs t) = Some a" by simp_all
    have "grace_violated cfg a p (Unix (we_CreatedAtEpoch ev))" using assms(13-16) by (simp add: grace_violated_def split: option.splits)
    from pending_delivery_fails [OF assms(1-6) t assms(9-12) this] that show ?thesis by metis
  qed
  have all: "tables (retries (\<lambda>_. ?h) xs t) = tables s" if "tables t = tables s" for xs t
    using that
  proof (induction "\<lambda>_ :: provider_outcome. ?h" xs t rule: retries.induct)
    case (2 outcome faults now rest t)
    from one [of "t\<lparr>db_faults := faults, db_wall := now\<rparr>"] 2(2) have "tables (snd (?h (t\<lparr>db_faults := faults, db_wall := now\<rparr>))) = tables s"
      by (fastforce simp: tables_def)
    with 2(1) show ?case by simp
  qed simp
  from all [OF refl] one [of "(retries (\<lambda>_. ?h) attempts s)\<lparr>db_faults := faults, db_wall := now\<rparr>"]
  show ?thesis by (simp add: tables_def)
qed

definition paid_sub :: subscription where
  "paid_sub = sample_sub\<lparr>sub_Status := StatusActive, sub_Plan := ''starter'', sub_PlanCode := ''pro'', sub_LastProviderPaidCount := 1,
     sub_PeriodStart := Some (Unix 50), sub_PeriodEnd := Some (Unix 100), sub_PendingPlanID := [], sub_PendingProviderPlanID := []\<rparr>"

lemma paid_sub_checks:
  "v > 0 \<Longrightarrow> subscription_checks (paid_sub\<lparr>sub_LifecycleVersion := v, sub_UpdatedAt := u\<rparr>)"
  "v > 0 \<Longrightarrow> subscription_checks (paid_sub\<lparr>sub_Status := StatusCancellationScheduled, sub_CancelAtPeriodEnd := True,
     sub_CancellationEffectiveAt := t, sub_LifecycleVersion := v, sub_UpdatedAt := u\<rparr>)"
  by (simp_all add: subscription_checks_def paid_sub_def sample_sub_def fresh_subscription_def Unix_def nsPerSecond_def)

text \<open>A subscription of the month of January, and the unpaid notice of February, sent on the first of February.\<close>

definition january :: subscription where
  "january = paid_sub\<lparr>sub_PeriodStart := Some (Unix 1767225600), sub_PeriodEnd := Some (Unix 1769904000)\<rparr>"

definition february :: rz_subscription where
  "february = sample_provider\<lparr>rz_Status := ''pending'', rz_CurrentStart := 1769904000, rz_CurrentEnd := 1772323200\<rparr>"

definition february_notice :: rz_event where
  "february_notice = (sample_event ''subscription.pending'' february)\<lparr>we_CreatedAtEpoch := 1769904060\<rparr>"

theorem pending_notice_refused_by_database_witness:
  "\<exists>e s'. HandleWebhook sample_cfg (Inr sample_st) sample_signature ''evt_1'' sample_body (Some february_notice)
     (snd (HandleWebhook sample_cfg (Inr sample_st) sample_signature ''evt_1'' sample_body (Some february_notice)
        (sample_db\<lparr>db_subs := [january], db_faults := [], db_wall := 1\<rparr>))\<lparr>db_faults := [], db_wall := 2\<rparr>) = (Inl e, s') \<and>
     db_subs s' = [january] \<and> db_events s' = []"
proof -
  let ?s = "sample_db\<lparr>db_subs := [january]\<rparr>" and ?t = "Unix (we_CreatedAtEpoch february_notice)"
  note d = february_notice_def february_def january_def paid_sub_def
  have v: "TrimSpace ''evt_1'' \<noteq> []" "TrimSpace (ps_WebhookSecret sample_st) \<noteq> []"
    "VerifyRazorpayWebhook sample_body sample_signature (ps_WebhookSecret sample_st)"
    using sample_verified by (simp_all add: sample_st_def)
  have valid: "validateProviderSubscriptionIdentity january february sample_st = []" "validateProviderSubscriptionPlan january february = []"
    "\<not> subscriptionEventIsStale january february_notice ?t" "sub_Status january \<notin> {StatusCancelled, StatusExpired}"
    by (simp_all add: d sample_defs validateProviderSubscriptionIdentity_def note_of_def validateProviderSubscriptionPlan_def subscriptionEventIsStale_def)
  have grace: "?t + lc_GracePeriod sample_cfg < Unix (rz_CurrentEnd february)"
    "case sub_PeriodEnd january of None \<Rightarrow> True | Some pe \<Rightarrow> pe + lc_GracePeriod sample_cfg < Unix (rz_CurrentEnd february)"
    by (simp_all add: d sample_defs Unix_def nsPerSecond_def hours_def)
  have row: "find (\<lambda>r. sub_ProviderMode r = ps_ProviderMode sample_st \<and> sub_ProviderSubscriptionID r = rz_ID february \<and> live r) (db_subs ?s) = Some january"
    by (simp add: d sample_defs live_def)
  note C9 = pending_notice_refused_by_database [OF v _ _ _ _ row valid _ _ grace, where attempts = "[(ProviderError None, [], 1)]" and faults = "[]" and now = 2]
  have "we_Event february_notice = ''subscription.pending''" "we_Subscription february_notice = Some february"
    "0 < we_CreatedAtEpoch february_notice" "0 < rz_CurrentStart february" "rz_CurrentStart february < rz_CurrentEnd february"
    by (simp_all add: d sample_defs)
  from C9 [OF this(1-3) _ this(4,5)] show ?thesis by (auto simp: tables_def sample_db_def)
qed

section \<open>Commands\<close>

text \<open>
  C6: The provider is asked at most once per idempotency key. However often a client
  repeats a start, a plan change or a cancellation with one key, and whatever the provider
  answers and the database does in each attempt, at most one mutation reaches the provider.
\<close>

theorem provider_called_at_most_once:
  "length (db_calls (retries (StartRenewable cfg resolved b ac plan key) attempts s)) \<le> Suc (length (db_calls s)) \<and>
   length (db_calls (retries (SchedulePlanChange cfg resolved b ac plan key) attempts s)) \<le> Suc (length (db_calls s)) \<and>
   length (db_calls (retries (ScheduleCancellation cfg resolved b ac key) attempts s)) \<le> Suc (length (db_calls s))"
  using start.retries_calls [of cfg resolved b ac plan key attempts s]
    change.retries_calls [of cfg resolved b ac plan key attempts s]
    cancel.retries_calls [of cfg resolved b ac key attempts s]
  by auto

text \<open>
  C8: A refused change is undone. When a plan change or a cancellation answers that the
  provider refused it (row identifiers being unique), every subscription row is again what it was before the command,
  but for its version counter and update time, whether this is the first answer or a repeated one.
\<close>

theorem refused_change_is_undone:
  assumes "distinct (map sub_ID (db_subs s))"
  shows "(SchedulePlanChange cfg resolved b ac planIn keyIn outcome s = (Inl ErrSubscriptionProviderRejected, s1) \<longrightarrow>
       list_all2 same_row (db_subs s) (db_subs s1)) \<and>
    (ScheduleCancellation cfg resolved b ac keyIn outcome s = (Inl ErrSubscriptionProviderRejected, s2) \<longrightarrow>
       list_all2 same_row (db_subs s) (db_subs s2))"
  using SchedulePlanChange_refused ScheduleCancellation_refused assms by blast

lemma sample_refusal:
  "\<exists>s2. ScheduleCancellation sample_cfg (Inr sample_st) ''biz-1'' ''user'' ''key'' (ProviderError (Some 422)) (sample_db\<lparr>db_subs := [paid_sub]\<rparr>)
     = (Inl ErrSubscriptionProviderRejected, s2) \<and> length (db_calls s2) = 1"
proof -
  have k: "command_key ''biz-1'' ''user'' ''key'' = Some ''key''" by code_simp
  have nn: "lc_ProviderNil sample_cfg = False" "lc_RepositoryNil sample_cfg = False" by (simp_all add: sample_cfg_def NewSubscriptionLifecycleService_def)
  obtain h where h: "subscriptionCommandHash [''biz-1'', ''user'', subscriptionCommandCancellation, ''key''] = h" by simp
  have p: "mutable_subscription sample_st paid_sub" "sub_BusinessID paid_sub = ''biz-1''" "live paid_sub" "sub_ID paid_sub = ''sub-1''"
    "sub_DeletedAt paid_sub = None" "sub_LifecycleVersion paid_sub = 1"
    by (simp_all add: mutable_subscription_def paid_sub_def sample_sub_def sample_st_def fresh_subscription_def live_def)
  have d: "db_cmds sample_db = []" "db_faults sample_db = []" "db_aborted sample_db = False" "db_audits sample_db = []" "db_calls sample_db = []"
    "db_fresh sample_db = (\<lambda>n. replicate n CHR ''u'')" "db_next sample_db = 1"
    by (simp_all add: sample_db_def)
  show ?thesis
    by (simp add: ScheduleCancellation_def k nn h schedule_begin_def exec_defs d p cancellation_finish_def schedule_finish_def
          providerMutationRejected_def rejectProviderMutation_def load_same_def load_initializing_def new_command_def command_audit_def
          cmd_key_def upsert_by_def log_call_def cancellation_change_def live_def paid_sub_checks Let_def)
qed

theorem refused_change_is_undone_witness:
  "\<exists>s2. ScheduleCancellation sample_cfg (Inr sample_st) ''biz-1'' ''user'' ''key'' (ProviderError (Some 422)) (sample_db\<lparr>db_subs := [paid_sub]\<rparr>)
     = (Inl ErrSubscriptionProviderRejected, s2) \<and> list_all2 same_row [paid_sub] (db_subs s2)"
  using sample_refusal refused_change_is_undone [of "sample_db\<lparr>db_subs := [paid_sub]\<rparr>"] by fastforce

text \<open>
  A transaction is all or nothing. When the operation returns an error, a statement
  in it fails or the commit fails, the five tables are as before it began.
\<close>

theorem failed_transaction_changes_no_table:
  assumes "Transaction operation s = (Inl e, s')"
  shows "db_subs s' = db_subs s \<and> db_cmds s' = db_cmds s \<and> db_events s' = db_events s \<and> db_billing s' = db_billing s \<and> db_audits s' = db_audits s"
  using Transaction_error [OF assms] by (simp add: tables_def)

theorem failed_transaction_changes_no_table_witness:
  "fst (Transaction (SaveSubscription sample_sub) (sample_db\<lparr>db_faults := [False, True]\<rparr>)) = Inl ErrDatabase \<and>
   db_subs (snd (Transaction (SaveSubscription sample_sub) (sample_db\<lparr>db_faults := [False, True]\<rparr>))) = [sample_sub]"
proof -
  let ?t = "Transaction (SaveSubscription sample_sub) (sample_db\<lparr>db_faults := [False, True]\<rparr>)"
  have "fst ?t = Inl ErrDatabase" by (simp add: Transaction_def SaveSubscription_def statement_def tx_return_def Let_def sample_db_def)
  then obtain s' where t: "?t = (Inl ErrDatabase, s')" by (metis prod.collapse)
  from failed_transaction_changes_no_table [OF this] show ?thesis unfolding t by (simp add: sample_db_def)
qed

section \<open>The service as a whole\<close>

text \<open>
  C7: In every run of the service, with commands, deliveries and maintenance interleaved
  at transaction boundaries and any database failures, every subscription row keeps a known
  status and billing mode, a paid count that is not negative, a period whose ends are both set
  and in order or both unset, a grace deadline while payment is overdue and a date for a
  scheduled cancellation; and so does every snapshot that a command in flight would restore.
\<close>

theorem service_keeps_rows_wellformed:
  assumes "(service_step cfg)\<^sup>*\<^sup>* c c'" and "system_wf c"
  shows "system_wf c'"
  using assms by (rule service_run_wf)

theorem service_keeps_rows_wellformed_witness:
  "\<exists>s1. (service_step sample_cfg)\<^sup>*\<^sup>* (sample_db, []) (s1, []) \<and> map sub_PlanCode (db_subs s1) = [''pro''] \<and> system_wf (s1, [])"
proof -
  obtain w s1 where run: "HandleWebhook sample_cfg (Inr sample_st) sample_signature ''evt_1'' sample_body
       (Some (sample_event ''subscription.charged'' sample_provider)) sample_db = (Inr (w, None), s1)"
    and pl: "map sub_PlanCode (db_subs s1) = [''pro'']" by (rule sample_charge)
  have r: "(service_step sample_cfg)\<^sup>*\<^sup>* (sample_db, []) (s1, [])"
    using Delivery [of sample_cfg sample_db "[]" "Inr sample_st" sample_signature "''evt_1''" sample_body
      "Some (sample_event ''subscription.charged'' sample_provider)"] run by simp
  moreover have "system_wf (sample_db, [])"
    by (simp add: system_wf_def sample_defs sub_wf_def lifecycle_statuses_def period_ok_def)
  ultimately have "system_wf (s1, [])" by (rule service_keeps_rows_wellformed)
  with r pl show ?thesis by (intro exI [of _ s1] conjI)
qed

text \<open>
  The machine with interleaving covers the handlers: a call of a command handler is
  a run of the machine (its first transaction, the provider call, its second part, and no step
  of another request in between) that leaves nothing of it in flight.
\<close>

theorem handlers_are_runs:
  "(service_step cfg)\<^sup>*\<^sup>* (s, fl) (snd (StartRenewable cfg resolved b ac planIn keyIn outcome s), fl) \<and>
   (service_step cfg)\<^sup>*\<^sup>* (s, fl) (snd (SchedulePlanChange cfg resolved b ac planIn keyIn outcome s), fl) \<and>
   (service_step cfg)\<^sup>*\<^sup>* (s, fl) (snd (ScheduleCancellation cfg resolved b ac keyIn outcome s), fl)"
  by (intro conjI StartRenewable_run SchedulePlanChange_run ScheduleCancellation_run)

section \<open>Maintenance\<close>

definition counted :: "maintenance_result \<Rightarrow> nat" where
  "counted r = mn_Reconciled r + mn_Suspended r + mn_Failed r"

lemma reconcile_loop_counts: "counted (fst (reconcile_loop expired fetch st i ds r s)) = counted r + length ds"
  by (induction expired fetch st i ds r s rule: reconcile_loop.induct)
     (auto simp: counted_def split: option.splits prod.splits sum.splits)

lemma suspend_loop_counts: "counted (fst (suspend_loop ds r s)) = counted r + length ds"
  by (induction ds r s rule: suspend_loop.induct) (auto simp: counted_def split: prod.splits sum.splits)

lemma due_length:
  "autocommit (ListReconciliationDue m l) s = (Inr due, s1) \<Longrightarrow> length due \<le> l"
  "autocommit (ListGraceDue m t l) s = (Inr due, s2) \<Longrightarrow> length due \<le> l"
  by (auto simp: autocommit_def ListReconciliationDue_def ListGraceDue_def statement_def split: list.splits bool.splits if_splits prod.splits)

text \<open>
  A maintenance pass is bounded and accounts for its work: it touches at most as many
  subscriptions as asked for and never more than 100, each counted once as reconciled,
  suspended or failed, and it reports success only if nothing failed.
\<close>

theorem maintenance_bounded_and_counted:
  assumes "RunMaintenance cfg resolved expired fetch limit s = ((r, err), s')"
  shows "counted r \<le> history_limit limit \<and> history_limit limit \<le> 100 \<and> (err = None \<longrightarrow> mn_Failed r = 0)"
proof -
  let ?r0 = "\<lparr>mn_Reconciled = 0, mn_Suspended = 0, mn_Failed = 0\<rparr>"
  have zero: "counted ?r0 = 0" by (simp add: counted_def)
  have c1: "counted r1 = length ds" if "reconcile_loop expired fetch st i ds ?r0 t = (r1, t1)" for st i ds t r1 t1
    using reconcile_loop_counts [of expired fetch st i ds ?r0 t] that zero by simp
  have c2: "counted r2 = counted r1 + length ds" if "suspend_loop ds r1 t = (r2, t2)" for ds r1 t r2 t2
    using suspend_loop_counts [of ds r1 t] that by simp
  have "counted r \<le> history_limit limit \<and> (err = None \<longrightarrow> mn_Failed r = 0)"
  proof (cases "\<exists>st due s1. resolved = Inr st \<and> \<not> (lc_RepositoryNil cfg \<or> lc_ProviderNil cfg) \<and>
      autocommit (ListReconciliationDue (ps_ProviderMode st) (history_limit limit)) s = (Inr due, s1)")
    case False
    with assms show ?thesis by (auto simp: RunMaintenance_def Let_def zero split: if_splits sum.splits prod.splits)
  next
    case True
    then obtain st due s1 where g: "resolved = Inr st" "\<not> (lc_RepositoryNil cfg \<or> lc_ProviderNil cfg)"
      and due: "autocommit (ListReconciliationDue (ps_ProviderMode st) (history_limit limit)) s = (Inr due, s1)" by blast
    obtain r1 s2 where rl: "reconcile_loop expired fetch st 0 due ?r0 s1 = (r1, s2)" by fastforce
    let ?rem = "history_limit limit - length due"
    obtain q s3 where gq: "autocommit (ListGraceDue (ps_ProviderMode st) (db_wall s2) ?rem) s2 = (q, s3)" by fastforce
    have d: "length due \<le> history_limit limit" by (rule due_length(1) [OF due])
    note run = assms [unfolded RunMaintenance_def Let_def g(1) sum.case due prod.case rl gq if_not_P [OF g(2)]]
    show ?thesis
    proof (cases q)
      case (Inl e)
      with run c1 [OF rl] d show ?thesis by (auto split: if_splits)
    next
      case (Inr graceDue)
      obtain r2 s4 where sl: "suspend_loop graceDue r1 s3 = (r2, s4)" by fastforce
      have "length graceDue \<le> ?rem" using due_length(2) gq Inr by blast
      with run Inr sl c1 [OF rl] c2 [OF sl] d show ?thesis by (auto split: if_splits)
    qed
  qed
  moreover have "history_limit limit \<le> 100" by (auto simp: history_limit_def)
  ultimately show ?thesis by blast
qed

theorem maintenance_bounded_and_counted_witness:
  "\<exists>r err s'. RunMaintenance sample_cfg (Inr sample_st) (\<lambda>_. False) (\<lambda>_. None) 1
     (sample_db\<lparr>db_subs := [sample_sub\<lparr>sub_Status := StatusReconciliationRequired\<rparr>]\<rparr>) = ((r, err), s') \<and> counted r \<le> 1"
proof -
  obtain r err s' where run: "RunMaintenance sample_cfg (Inr sample_st) (\<lambda>_. False) (\<lambda>_. None) 1
     (sample_db\<lparr>db_subs := [sample_sub\<lparr>sub_Status := StatusReconciliationRequired\<rparr>]\<rparr>) = ((r, err), s')" by (metis surj_pair)
  have "history_limit 1 = 1" by (simp add: history_limit_def)
  with maintenance_bounded_and_counted [OF run] run show ?thesis by auto
qed

section \<open>Quotas\<close>

text \<open>
  C10: Reservations never exceed the plan. However many reservations of a limited feature
  are attempted in one period, whatever amounts they ask for and whichever of them fail, the
  counter equals what it was plus the accepted amounts, stays within the plan's limit, and no
  other counter moves.
\<close>

theorem quota_never_exceeded:
  assumes "resolvePlanTx lookup now = Inr (plan, start)" and "quotaLimitForFeature plan f = Some limit"
    and "reserve_run lookup now b f rs u = (acc, u')" and "used_value u (b, f, start) \<le> limit"
  shows "used_value u' (b, f, start) = used_value u (b, f, start) + sum_list acc \<and>
    used_value u' (b, f, start) \<le> limit \<and> (\<forall>a \<in> set acc. 0 < a) \<and> (\<forall>k. k \<noteq> (b, f, start) \<longrightarrow> u' k = u k)"
  using reserve_run_sum [OF assms] .

theorem quota_never_exceeded_witness:
  "used_value (snd (reserve_run (LookupRow (paid_sub\<lparr>sub_PeriodEnd := None, sub_EndDate := None\<rparr>)) 0 ''b'' FeatureEInvoice
     [(60, None), (60, None), (40, None)] Map.empty)) (''b'', FeatureEInvoice, Unix 50) = 100"
proof -
  let ?s = "paid_sub\<lparr>sub_PeriodEnd := None, sub_EndDate := None\<rparr>"
  have n: "norm_key StatusActive = StatusActive" by code_simp
  have plan: "resolvePlanTx (LookupRow ?s) 0 = Inr (pro_plan, Unix 50)"
    by (simp add: resolvePlanTx_def subscriptionPlanForSubscription_def has_access_def n paid_sub_def sample_sub_def fresh_subscription_def
          normalizePlanCode_def catalogue_codes quotaPeriodStart_def)
  have lim: "quotaLimitForFeature pro_plan FeatureEInvoice = Some 100" by (simp add: quotaLimitForFeature_def plan_defs)
  have on: "feature_on pro_plan FeatureEInvoice" by (simp add: feature_on_def plan_defs plan_features_def)
  let ?run = "reserve_run (LookupRow ?s) 0 ''b'' FeatureEInvoice [(60, None), (60, None), (40, None)] Map.empty"
  have "fst ?run = [60, 40]"
    by (simp add: ReserveFeatureTx_def plan lim on usage_upsert_def)
  with quota_never_exceeded [OF plan lim, of "''b''" _ Map.empty "fst ?run" "snd ?run", OF prod.collapse [symmetric]]
  show ?thesis by (simp add: used_value_def)
qed

text \<open>
  What the service shows and what it enforces agree: a feature is shown as available
  exactly when a reservation of one unit in the same state would be accepted.
\<close>

theorem shown_availability_is_enforced:
  assumes "f \<noteq> FeatureDriveStorageMB" and "InspectFeature False (Some (Inr s)) now dr u None b f = Inr a"
  shows "cq_Available (fa_Quota a) \<longleftrightarrow> fst (ReserveFeatureTx False (LookupRow s) now None None b f 1 u) = None"
  using assms by (rule inspect_reserve_agree)

theorem shown_availability_is_enforced_witness:
  "\<exists>a. InspectFeature False (Some (Inr sample_sub)) 0 (Inr 0) Map.empty None ''b'' FeatureEInvoice = Inr a \<and>
     (cq_Available (fa_Quota a) \<longleftrightarrow> fst (ReserveFeatureTx False (LookupRow sample_sub) 0 None None ''b'' FeatureEInvoice 1 Map.empty) = None)"
proof -
  have "\<exists>a. InspectFeature False (Some (Inr sample_sub)) 0 (Inr 0) Map.empty None ''b'' FeatureEInvoice = Inr a"
    by (simp add: InspectFeature_def resolvePlanAndQuotaStart_def Let_def)
  then obtain a where "InspectFeature False (Some (Inr sample_sub)) 0 (Inr 0) Map.empty None ''b'' FeatureEInvoice = Inr a" by blast
  with shown_availability_is_enforced [OF _ this] show ?thesis by auto
qed

end
