(* ===== verification/Go_Strconv.thy ===== *)
theory Go_Strconv
  imports Go_Strings Go_Sha256
begin

text \<open>
  Decimal numerals as \<open>strconv\<close>, \<open>fmt\<close> and \<open>math/big\<close> print and read them: the digits of a
  natural number, most significant first and without leading zeros, and the value of a digit string.
\<close>

definition is_digit :: "char \<Rightarrow> bool" where
  "is_digit c \<longleftrightarrow> 48 \<le> (of_char c :: nat) \<and> (of_char c :: nat) \<le> 57"

definition digits_value :: "string \<Rightarrow> int" where
  "digits_value s = foldl (\<lambda>acc c. 10 * acc + (of_char c - 48)) 0 s"

fun decimal_digits :: "nat \<Rightarrow> string" where
  "decimal_digits n = (if n < 10 then [hex_digit n] else decimal_digits (n div 10) @ [hex_digit (n mod 10)])"

declare decimal_digits.simps [simp del]

text \<open>\<open>strconv.Itoa\<close>, \<open>big.Int.String\<close> and the \<open>%d\<close> verb.\<close>

definition Itoa :: "int \<Rightarrow> string" where
  "Itoa i = (if i < 0 then ''-'' @ decimal_digits (nat (- i)) else decimal_digits (nat i))"

text \<open>A digit string with an optional sign, as \<open>big.Int.SetString(s, 10)\<close> reads it.\<close>

definition signed_value :: "string \<Rightarrow> int" where
  "signed_value s =
     (case s of c # t \<Rightarrow> if c = CHR ''-'' then - digits_value t else if c = CHR ''+'' then digits_value t else digits_value s
      | [] \<Rightarrow> 0)"

section \<open>Digits\<close>

lemma of_char_hex_digit [simp]: "n < 10 \<Longrightarrow> (of_char (hex_digit n) :: nat) = 48 + n"
  by (simp add: hex_digit_def of_char_of)

lemma of_char_hex_digit_int [simp]: "n < 10 \<Longrightarrow> (of_char (hex_digit n) :: int) = 48 + int n"
  by (metis of_char_hex_digit of_nat_add of_nat_numeral of_nat_of_char)

lemma is_digit_hex_digit [simp]: "n < 10 \<Longrightarrow> is_digit (hex_digit n)"
  by (simp add: is_digit_def)

lemma hex_digit_0: "hex_digit 0 = CHR ''0''"
  by code_simp

lemma hex_digit_zero: "n < 10 \<Longrightarrow> hex_digit n = CHR ''0'' \<longleftrightarrow> n = 0"
proof
  assume n: "n < 10" and "hex_digit n = CHR ''0''"
  then have "(of_char (hex_digit n) :: nat) = of_char (CHR ''0'')" by simp
  with n show "n = 0" by simp
qed (simp add: hex_digit_0)

lemma digits_value_Nil [simp]: "digits_value [] = 0"
  by (simp add: digits_value_def)

lemma digits_value_snoc [simp]: "digits_value (s @ [c]) = 10 * digits_value s + (of_char c - 48)"
  by (simp add: digits_value_def)

lemma digits_value_append: "digits_value (s @ t) = digits_value s * 10 ^ length t + digits_value t"
proof (induction t rule: rev_induct)
  case (snoc c t)
  have "digits_value (s @ t @ [c]) = 10 * digits_value (s @ t) + (of_char c - 48)"
    by (metis append_assoc digits_value_snoc)
  then show ?case using snoc by (simp add: algebra_simps)
qed simp

lemma digits_value_Cons: "digits_value (c # t) = (of_char c - 48) * 10 ^ length t + digits_value t"
  using digits_value_append [of "[c]" t] by (simp add: digits_value_def)

lemma digit_int_bounds:
  assumes "is_digit c"
  shows "0 \<le> (of_char c :: int) - 48" "(of_char c :: int) - 48 \<le> 9"
proof -
  have "(of_char c :: int) = int (of_char c)" by (simp only: of_nat_of_char)
  with assms show "0 \<le> (of_char c :: int) - 48" "(of_char c :: int) - 48 \<le> 9"
    by (auto simp: is_digit_def)
qed

lemma digits_value_bounds:
  assumes "list_all is_digit s"
  shows "0 \<le> digits_value s" "digits_value s < 10 ^ length s"
proof -
  have "0 \<le> digits_value s \<and> digits_value s < 10 ^ length s"
    using assms
  proof (induction s rule: rev_induct)
    case (snoc c s)
    then show ?case using digit_int_bounds [of c] by auto
  qed simp
  then show "0 \<le> digits_value s" "digits_value s < 10 ^ length s" by auto
qed

lemma digit_char_eqI: "of_char c = (of_char d :: int) \<Longrightarrow> c = d"
  by simp

text \<open>Digit strings of one length with one value are one string.\<close>

lemma digits_value_inj:
  assumes "list_all is_digit s" and "list_all is_digit t" and "length s = length t" and "digits_value s = digits_value t"
  shows "s = t"
  using assms
proof (induction s arbitrary: t rule: rev_induct)
  case (snoc c s)
  from snoc.prems(3) obtain t' d where t: "t = t' @ [d]" by (cases t rule: rev_cases) auto
  have c: "0 \<le> (of_char c :: int) - 48" "(of_char c :: int) - 48 \<le> 9"
    and d: "0 \<le> (of_char d :: int) - 48" "(of_char d :: int) - 48 \<le> 9"
    using snoc.prems digit_int_bounds by (auto simp: t)
  have e: "10 * digits_value s + (of_char c - 48) = 10 * digits_value t' + (of_char d - 48)"
    using snoc.prems by (simp add: t)
  with c d have "digits_value s = digits_value t'" by linarith
  with e have "of_char c = (of_char d :: int)" by simp
  moreover have "s = t'" by (rule snoc.IH) (use snoc.prems \<open>digits_value s = digits_value t'\<close> t in auto)
  ultimately show ?case by (simp add: t)
qed simp

section \<open>Printing\<close>

lemma decimal_digits_digits: "list_all is_digit (decimal_digits n)"
proof (induction n rule: decimal_digits.induct)
  case (1 n)
  then show ?case by (subst decimal_digits.simps) simp
qed

lemma decimal_digits_value [simp]: "digits_value (decimal_digits n) = int n"
proof (induction n rule: decimal_digits.induct)
  case (1 n)
  show ?case
  proof (cases "n < 10")
    case True
    then show ?thesis by (subst decimal_digits.simps) (simp add: digits_value_def)
  next
    case False
    then have "digits_value (decimal_digits n) = 10 * int (n div 10) + int (n mod 10)"
      using 1 by (subst decimal_digits.simps) simp
    then show ?thesis by (simp add: zdiv_int zmod_int)
  qed
qed

lemma decimal_digits_ne [simp]: "decimal_digits n \<noteq> []"
  by (subst decimal_digits.simps) simp

lemma decimal_digits_hd: "0 < n \<Longrightarrow> hd (decimal_digits n) \<noteq> CHR ''0''"
proof (induction n rule: decimal_digits.induct)
  case (1 n)
  then show ?case by (subst decimal_digits.simps) (auto simp: hex_digit_zero hd_append)
qed

lemma decimal_digits_inj [simp]: "decimal_digits m = decimal_digits n \<longleftrightarrow> m = n"
  by (metis decimal_digits_value of_nat_eq_iff)

lemma decimal_digits_0 [simp]: "decimal_digits 0 = ''0''"
  by (subst decimal_digits.simps) (simp add: hex_digit_0)

lemma length_decimal_digits: "0 < k \<Longrightarrow> n < 10 ^ k \<Longrightarrow> length (decimal_digits n) \<le> k"
proof (induction n arbitrary: k rule: decimal_digits.induct)
  case (1 n)
  show ?case
  proof (cases "n < 10")
    case True
    with 1 show ?thesis by (subst decimal_digits.simps) simp
  next
    case False
    from 1(2) obtain j where k: "k = Suc j" by (cases k) auto
    with 1(3) False have j: "0 < j" by (cases j) auto
    have "n div 10 < 10 ^ j" using 1(3) k by (simp add: less_mult_imp_div_less mult.commute)
    with False j have "length (decimal_digits (n div 10)) \<le> j" by (intro 1(1))
    with False k show ?thesis by (subst decimal_digits.simps) simp
  qed
qed

lemma digit_not_sign: "is_digit c \<Longrightarrow> c \<noteq> CHR ''-'' \<and> c \<noteq> CHR ''+''"
  by (auto simp: is_digit_def)

lemma signed_value_Itoa [simp]: "signed_value (Itoa i) = i"
proof -
  obtain c t where ct: "decimal_digits (nat i) = c # t" by (cases "decimal_digits (nat i)") auto
  with decimal_digits_digits [of "nat i"] have "is_digit c" by simp
  then have "c \<noteq> CHR ''-''" "c \<noteq> CHR ''+''" by (auto dest: digit_not_sign)
  then show ?thesis using ct decimal_digits_value [of "nat i"] by (auto simp: Itoa_def signed_value_def)
qed

lemma Itoa_inj [simp]: "Itoa i = Itoa j \<longleftrightarrow> i = j"
  by (metis signed_value_Itoa)

end
