(* ===== verification/Go_Json.thy ===== *)
theory Go_Json
  imports Go_Strconv "HOL-Library.AList"
begin

text \<open>
  What the sources use of \<open>encoding/json\<close> and \<open>unicode/utf8\<close>, on strings as byte lists: the
  encoding of strings, numbers and objects, and the decoder with its number literals kept
  (\<open>UseNumber\<close>), its nesting limit and its treatment of malformed UTF-8. An object is the list of
  its members as written; decoding it to a Go map lets a repeated key keep its last value,
  decoding it to a struct stores the members one after the other.
\<close>

section \<open>UTF-8\<close>

definition cont :: "nat \<Rightarrow> bool" where
  "cont b \<longleftrightarrow> 128 \<le> b \<and> b \<le> 191"

text \<open>The length of the well-formed sequence of two to four bytes that starts with \<open>b\<close> and goes on with \<open>bs\<close>; 0 if there is none.\<close>

definition rune_width :: "nat \<Rightarrow> nat list \<Rightarrow> nat" where
  "rune_width b bs =
     (if 194 \<le> b \<and> b \<le> 223 then (case bs of c # _ \<Rightarrow> if cont c then 2 else 0 | _ \<Rightarrow> 0)
      else if 224 \<le> b \<and> b \<le> 239 then
        (case bs of c # d # _ \<Rightarrow>
           if cont c \<and> cont d \<and> (b = 224 \<longrightarrow> 160 \<le> c) \<and> (b = 237 \<longrightarrow> c \<le> 159) then 3 else 0 | _ \<Rightarrow> 0)
      else if 240 \<le> b \<and> b \<le> 244 then
        (case bs of c # d # e # _ \<Rightarrow>
           if cont c \<and> cont d \<and> cont e \<and> (b = 240 \<longrightarrow> 144 \<le> c) \<and> (b = 244 \<longrightarrow> c \<le> 143) then 4 else 0 | _ \<Rightarrow> 0)
      else 0)"

definition char_width :: "char \<Rightarrow> string \<Rightarrow> nat" where
  "char_width c s = rune_width (of_char c) (map of_char (take 3 s))"

function ValidString :: "string \<Rightarrow> bool" where
  "ValidString [] = True"
| "ValidString (c # s) =
     (if of_char c < (128 :: nat) then ValidString s
      else let w = char_width c s in 0 < w \<and> ValidString (drop (w - 1) s))"
  by pat_completeness auto
termination
  by (relation "measure length") (auto simp: Let_def)

definition utf8_encode :: "nat \<Rightarrow> string" where
  "utf8_encode r =
     map char_of
       (if r < 128 then [r]
        else if r < 2048 then [192 + r div 64, 128 + r mod 64]
        else if r < 65536 then [224 + r div 4096, 128 + r div 64 mod 64, 128 + r mod 64]
        else [240 + r div 262144, 128 + r div 4096 mod 64, 128 + r div 64 mod 64, 128 + r mod 64])"

section \<open>Encoding\<close>

definition json_char :: "char \<Rightarrow> string" where
  "json_char c =
     (let n = of_char c :: nat
      in if c = CHR 0x22 then [CHR 0x5C, CHR 0x22]
         else if c = CHR 0x5C then [CHR 0x5C, CHR 0x5C]
         else if n = 8 then [CHR 0x5C, CHR ''b'']
         else if n = 12 then [CHR 0x5C, CHR ''f'']
         else if n = 10 then [CHR 0x5C, CHR ''n'']
         else if n = 13 then [CHR 0x5C, CHR ''r'']
         else if n = 9 then [CHR 0x5C, CHR ''t'']
         else if n < 32 \<or> c = CHR ''<'' \<or> c = CHR ''>'' \<or> c = CHR ''&''
         then [CHR 0x5C, CHR ''u'', CHR ''0'', CHR ''0'', hex_digit (n div 16), hex_digit (n mod 16)]
         else [c])"

text \<open>The line and paragraph separators U+2028 and U+2029 are escaped; a byte that starts no sequence becomes U+FFFD.\<close>

function json_escape :: "string \<Rightarrow> string" where
  "json_escape [] = []"
| "json_escape (c # s) =
     (if of_char c < (128 :: nat) then json_char c @ json_escape s
      else let w = char_width c s
           in if w = 0 then [CHR 0x5C] @ ''ufffd'' @ json_escape s
              else (if take w (c # s) = [CHR 0xE2, CHR 0x80, CHR 0xA8] then [CHR 0x5C] @ ''u2028''
                    else if take w (c # s) = [CHR 0xE2, CHR 0x80, CHR 0xA9] then [CHR 0x5C] @ ''u2029''
                    else take w (c # s)) @ json_escape (drop (w - 1) s))"
  by pat_completeness auto
termination
  by (relation "measure length") (auto simp: Let_def)

definition json_string :: "string \<Rightarrow> string" where
  "json_string s = [CHR 0x22] @ json_escape s @ [CHR 0x22]"

definition json_int :: "int \<Rightarrow> string" where
  "json_int i = Itoa i"

definition json_bool :: "bool \<Rightarrow> string" where
  "json_bool b = (if b then ''true'' else ''false'')"

definition json_array :: "string list \<Rightarrow> string" where
  "json_array vs = ''['' @ join_sep '','' vs @ '']''"

definition json_object :: "(string \<times> string) list \<Rightarrow> string" where
  "json_object kvs = ''{'' @ join_sep '','' (map (\<lambda>(k, v). json_string k @ '':'' @ v) kvs) @ ''}''"

section \<open>Decoding strings\<close>

definition hex4 :: "string \<Rightarrow> nat option" where
  "hex4 s =
     (case map hex_value s of
        [Some a, Some b, Some c, Some d] \<Rightarrow> Some (4096 * a + 256 * b + 16 * c + d)
      | _ \<Rightarrow> None)"

definition surrogate :: "nat \<Rightarrow> bool" where
  "surrogate r \<longleftrightarrow> 0xD800 \<le> r \<and> r < 0xE000"

text \<open>The code unit that follows a high surrogate, when the next six bytes are the escape of a low one.\<close>

definition low_surrogate :: "string \<Rightarrow> nat option" where
  "low_surrogate s =
     (if take 2 s = [CHR 0x5C, CHR ''u''] then
        (case hex4 (take 4 (drop 2 s)) of
           Some r \<Rightarrow> if 0xDC00 \<le> r \<and> r < 0xE000 then Some r else None
         | None \<Rightarrow> None)
      else None)"

text \<open>What a unicode escape stands for and how many further bytes it takes: a lone surrogate is U+FFFD.\<close>

definition unicode_escape :: "nat \<Rightarrow> string \<Rightarrow> string \<times> nat" where
  "unicode_escape r s =
     (if \<not> surrogate r then (utf8_encode r, 0)
      else if r < 0xDC00 then
        (case low_surrogate s of
           Some l \<Rightarrow> (utf8_encode (0x10000 + (r - 0xD800) * 1024 + (l - 0xDC00)), 6)
         | None \<Rightarrow> (utf8_encode 0xFFFD, 0))
      else (utf8_encode 0xFFFD, 0))"

definition simple_escape :: "char \<Rightarrow> char option" where
  "simple_escape c =
     (if c = CHR 0x22 then Some c
      else if c = CHR 0x5C then Some c
      else if c = CHR ''/'' then Some c
      else if c = CHR ''b'' then Some (CHR 0x08)
      else if c = CHR ''f'' then Some (CHR 0x0C)
      else if c = CHR ''n'' then Some (CHR 0x0A)
      else if c = CHR ''r'' then Some (CHR 0x0D)
      else if c = CHR ''t'' then Some (CHR 0x09)
      else None)"

definition emit :: "string \<Rightarrow> (string \<times> string) option \<Rightarrow> (string \<times> string) option" where
  "emit p = map_option (\<lambda>(t, r). (p @ t, r))"

text \<open>The text after an opening quote: its contents up to the closing quote, and what follows it.\<close>

function read_string :: "string \<Rightarrow> (string \<times> string) option" where
  "read_string [] = None"
| "read_string (c # s) =
     (if c = CHR 0x22 then Some ([], s)
      else if c = CHR 0x5C then
        (case s of
           [] \<Rightarrow> None
         | e # t \<Rightarrow>
             if e = CHR ''u'' then
               (case hex4 (take 4 t) of
                  None \<Rightarrow> None
                | Some r \<Rightarrow> emit (fst (unicode_escape r (drop 4 t)))
                    (read_string (drop (4 + snd (unicode_escape r (drop 4 t))) t)))
             else (case simple_escape e of None \<Rightarrow> None | Some x \<Rightarrow> emit [x] (read_string t)))
      else if of_char c < (32 :: nat) then None
      else if of_char c < (128 :: nat) then emit [c] (read_string s)
      else let w = char_width c s
           in if w = 0 then emit (utf8_encode 0xFFFD) (read_string s)
              else emit (take w (c # s)) (read_string (drop (w - 1) s)))"
  by pat_completeness auto
termination
  by (relation "measure length") (auto simp: Let_def)

section \<open>Decoding numbers\<close>

text \<open>A number literal in its parts: sign, integer digits, fraction digits, exponent text.\<close>

definition read_sign :: "string \<Rightarrow> string \<times> string" where
  "read_sign s = (case s of c # t \<Rightarrow> if c = CHR ''-'' then ([c], t) else ([], s) | [] \<Rightarrow> ([], s))"

definition read_integer :: "string \<Rightarrow> (string \<times> string) option" where
  "read_integer s =
     (case s of
        [] \<Rightarrow> None
      | c # t \<Rightarrow> if c = CHR ''0'' then Some ([c], t)
                 else if is_digit c then Some (takeWhile is_digit s, dropWhile is_digit s) else None)"

definition read_fraction :: "string \<Rightarrow> (string \<times> string) option" where
  "read_fraction s =
     (case s of
        [] \<Rightarrow> Some ([], s)
      | c # t \<Rightarrow> if c = CHR ''.'' then (if takeWhile is_digit t = [] then None else Some (c # takeWhile is_digit t, dropWhile is_digit t))
                 else Some ([], s))"

definition read_exponent :: "string \<Rightarrow> (string \<times> string) option" where
  "read_exponent s =
     (case s of
        [] \<Rightarrow> Some ([], s)
      | c # t \<Rightarrow>
          if c = CHR ''e'' \<or> c = CHR ''E'' then
            (let (sign, u) = (case t of d # v \<Rightarrow> if d = CHR ''+'' \<or> d = CHR ''-'' then ([d], v) else ([], t) | [] \<Rightarrow> ([], t))
             in if takeWhile is_digit u = [] then None else Some (c # sign @ takeWhile is_digit u, dropWhile is_digit u))
          else Some ([], s))"

definition read_number :: "string \<Rightarrow> (string \<times> string) option" where
  "read_number s =
     (case read_sign s of (sign, s1) \<Rightarrow>
        (case read_integer s1 of None \<Rightarrow> None | Some (ip, s2) \<Rightarrow>
           (case read_fraction s2 of None \<Rightarrow> None | Some (frac, s3) \<Rightarrow>
              (case read_exponent s3 of None \<Rightarrow> None | Some (ex, s4) \<Rightarrow>
                 Some (sign @ ip @ frac @ ex, s4)))))"

section \<open>Decoding values\<close>

datatype json = JNull | JBool bool | JNum string | JStr string | JArr "json list" | JObj "(string \<times> json) list"

definition is_ws :: "char \<Rightarrow> bool" where
  "is_ws c \<longleftrightarrow> c = CHR '' '' \<or> c = CHR 0x09 \<or> c = CHR 0x0A \<or> c = CHR 0x0D"

definition skip_ws :: "string \<Rightarrow> string" where
  "skip_ws s = dropWhile is_ws s"

definition read_atom :: "string \<Rightarrow> (json \<times> string) option" where
  "read_atom s =
     (if take 4 s = ''null'' then Some (JNull, drop 4 s)
      else if take 4 s = ''true'' then Some (JBool True, drop 4 s)
      else if take 5 s = ''false'' then Some (JBool False, drop 5 s)
      else if s \<noteq> [] \<and> hd s = CHR 0x22 then map_option (\<lambda>(t, r). (JStr t, r)) (read_string (tl s))
      else map_option (\<lambda>(t, r). (JNum t, r)) (read_number s))"

definition maxNestingDepth :: nat where "maxNestingDepth = 10000"

text \<open>
  A value, the elements that follow the first one of an array, and the members of an object. The first
  argument bounds the recursion, the second the nesting that is still allowed; the length of
  the text is enough for the first (\<open>read_fuel\<close> below).
\<close>

fun read_value :: "nat \<Rightarrow> nat \<Rightarrow> string \<Rightarrow> (json \<times> string) option"
and read_items :: "nat \<Rightarrow> nat \<Rightarrow> json list \<Rightarrow> string \<Rightarrow> (json \<times> string) option"
and read_members :: "nat \<Rightarrow> nat \<Rightarrow> (string \<times> json) list \<Rightarrow> string \<Rightarrow> (json \<times> string) option" where
  "read_value 0 d s = None"
| "read_value (Suc n) d s =
     (case skip_ws s of
        [] \<Rightarrow> None
      | c # t \<Rightarrow>
          if c = CHR ''['' then
            (if d = 0 then None
             else case skip_ws t of
                    [] \<Rightarrow> None
                  | e # u \<Rightarrow>
                      if e = CHR '']'' then Some (JArr [], u)
                      else (case read_value n (d - 1) t of None \<Rightarrow> None | Some (v, r) \<Rightarrow> read_items n (d - 1) [v] r))
          else if c = CHR ''{'' then
            (if d = 0 then None
             else case skip_ws t of
                    [] \<Rightarrow> None
                  | e # u \<Rightarrow> if e = CHR ''}'' then Some (JObj [], u) else read_members n (d - 1) [] t)
          else read_atom (c # t))"
| "read_items 0 d acc s = None"
| "read_items (Suc n) d acc s =
     (case skip_ws s of
        [] \<Rightarrow> None
      | c # t \<Rightarrow>
          if c = CHR '','' then
            (case read_value n d t of None \<Rightarrow> None | Some (v, r) \<Rightarrow> read_items n d (acc @ [v]) r)
          else if c = CHR '']'' then Some (JArr acc, t)
          else None)"
| "read_members 0 d acc s = None"
| "read_members (Suc n) d acc s =
     (case skip_ws s of
        [] \<Rightarrow> None
      | c # t \<Rightarrow>
          if c \<noteq> CHR 0x22 then None
          else (case read_string t of
                  None \<Rightarrow> None
                | Some (k, r) \<Rightarrow>
                    (case skip_ws r of
                       [] \<Rightarrow> None
                     | e # u \<Rightarrow>
                         if e \<noteq> CHR '':'' then None
                         else (case read_value n d u of
                                 None \<Rightarrow> None
                               | Some (v, r2) \<Rightarrow>
                                   (case skip_ws r2 of
                                      [] \<Rightarrow> None
                                    | f # u2 \<Rightarrow>
                                        if f = CHR '','' then read_members n d (acc @ [(k, v)]) u2
                                        else if f = CHR ''}'' then Some (JObj (acc @ [(k, v)]), u2)
                                        else None)))))"

text \<open>One value and nothing but white space after it: \<open>Decode\<close> followed by a \<open>Decode\<close> that meets the end of the input.\<close>

definition decode_json :: "string \<Rightarrow> json option" where
  "decode_json s =
     (case read_value (length s) maxNestingDepth s of
        Some (v, r) \<Rightarrow> if skip_ws r = [] then Some v else None
      | None \<Rightarrow> None)"

section \<open>Decoding to an interface value\<close>

lemma item_size: "v \<in> set vs \<Longrightarrow> size v < size (JArr vs)"
  by (induction vs) auto

lemma member_size: "(k, v) \<in> set kvs \<Longrightarrow> size v < size (JObj kvs)"
  by (induction kvs) auto

text \<open>Objects become maps.\<close>

definition put_members :: "(string \<times> json) list \<Rightarrow> (string \<times> json) list" where
  "put_members kvs = fold (\<lambda>(k, v). AList.update k v) kvs []"

function to_map :: "json \<Rightarrow> json" where
  "to_map (JArr vs) = JArr (map to_map vs)"
| "to_map (JObj kvs) = JObj (put_members (map (\<lambda>(k, v). (k, to_map v)) kvs))"
| "to_map JNull = JNull"
| "to_map (JBool b) = JBool b"
| "to_map (JNum l) = JNum l"
| "to_map (JStr s) = JStr s"
  by pat_completeness auto
termination
  by (relation "measure size") (auto simp del: json.size intro: item_size member_size)

definition decode_interface :: "string \<Rightarrow> json option" where
  "decode_interface s = map_option to_map (decode_json s)"

section \<open>Decoding to a struct\<close>

text \<open>
  A struct whose fields are strings and integers, with \<open>DisallowUnknownFields\<close>. A key belongs to the field of
  that name, or else to the field it equals under case folding; the two non-ASCII letters that
  fold to ASCII ones are U+017F and U+212A. A null leaves a field as it is, a value of
  another type is an error. The struct is the list of the fields that were set.
\<close>

datatype field_kind = FString | FInt

datatype field_value = SVal string | IVal int

fun fold_name :: "string \<Rightarrow> string" where
  "fold_name [] = []"
| "fold_name (c # s) =
     (if c = CHR 0xC5 \<and> s \<noteq> [] \<and> hd s = CHR 0xBF then CHR ''S'' # fold_name (tl s)
      else if c = CHR 0xE2 \<and> take 2 s = [CHR 0x84, CHR 0xAA] then CHR ''K'' # fold_name (drop 2 s)
      else upper_char c # fold_name s)"

definition struct_field :: "(string \<times> field_kind) list \<Rightarrow> string \<Rightarrow> (string \<times> field_kind) option" where
  "struct_field fields k =
     (case find (\<lambda>(n, _). n = k) fields of
        Some f \<Rightarrow> Some f
      | None \<Rightarrow> find (\<lambda>(n, _). fold_name n = fold_name k) fields)"

text \<open>\<open>strconv.ParseInt(l, 10, 64)\<close> of a number literal.\<close>

definition parse_int64 :: "string \<Rightarrow> int option" where
  "parse_int64 l =
     (let ds = snd (read_sign l) in
      if list_all is_digit ds \<and> - (2 ^ 63) \<le> signed_value l \<and> signed_value l < 2 ^ 63 then Some (signed_value l) else None)"

definition field_of :: "field_kind \<Rightarrow> json \<Rightarrow> field_value option" where
  "field_of kind v =
     (case (kind, v) of
        (FString, JStr s) \<Rightarrow> Some (SVal s)
      | (FInt, JNum l) \<Rightarrow> map_option IVal (parse_int64 l)
      | _ \<Rightarrow> None)"

fun store_members :: "(string \<times> field_kind) list \<Rightarrow> (string \<times> json) list \<Rightarrow> (string \<times> field_value) list \<Rightarrow> (string \<times> field_value) list option" where
  "store_members fields [] acc = Some acc"
| "store_members fields ((k, v) # kvs) acc =
     (case struct_field fields k of
        None \<Rightarrow> None
      | Some (n, kind) \<Rightarrow>
          if v = JNull then store_members fields kvs acc
          else (case field_of kind v of None \<Rightarrow> None | Some x \<Rightarrow> store_members fields kvs (AList.update n x acc)))"

definition decode_struct :: "(string \<times> field_kind) list \<Rightarrow> string \<Rightarrow> (string \<times> field_value) list option" where
  "decode_struct fields s =
     (case decode_json s of
        Some (JObj kvs) \<Rightarrow> store_members fields kvs []
      | Some JNull \<Rightarrow> Some []
      | _ \<Rightarrow> None)"

text \<open>A field that was not set has its zero value.\<close>

definition string_field :: "(string \<times> field_value) list \<Rightarrow> string \<Rightarrow> string" where
  "string_field st n = (case map_of st n of Some (SVal s) \<Rightarrow> s | _ \<Rightarrow> [])"

definition int_field :: "(string \<times> field_value) list \<Rightarrow> string \<Rightarrow> int" where
  "int_field st n = (case map_of st n of Some (IVal i) \<Rightarrow> i | _ \<Rightarrow> 0)"

end
