(* ===== verification/Voice_Session.thy ===== *)
theory Voice_Session
  imports Go_Time Go_Json
begin

text \<open>
  Voice sessions: the types of \<open>internal/voice/session/types.go\<close> and \<open>store.go\<close>, the rollout gate
  of \<open>rollout.go\<close>, and the pure functions of \<open>service.go\<close>: configuration, validation of a
  create request, branch scopes, session identifiers and leases. \<open>uuid.Parse\<close> of the uuid
  package and the random bytes of an identifier are arguments.
\<close>

unbundle bit_operations_syntax

section \<open>Types\<close>

datatype voice_status = VActive | VClosing | VClosed | VFailed | VExpired

datatype runtime_state = RuntimeRunning | RuntimeStopped

datatype voice_error =
    ErrInvalidRequest
  | ErrNotFound
  | ErrIdempotencyConflict
  | ErrUserCapacity
  | ErrGlobalCapacity
  | ErrNotResumable
  | ErrBranchForbidden
  | ErrUnavailable
  | ErrCreateGuardUnavailable
  | ErrInvalidFinalTurn
  | ErrFinalTurnSequence
  | ErrFinalTurnConflict
  | ErrLeaseNotRenewable
  | ErrLeaseHeartbeatFailed
  | ErrRolloutDenied
  | ErrProvider

record voice_config =
  vc_TableName :: string
  vc_AgentRuntimeARN :: string
  vc_AgentRuntimeQualifier :: string
  vc_AdmissionEnabled :: bool
  vc_RolloutStage :: string
  vc_RolloutInternalSubjectHashes :: "string list"
  vc_ProtocolVersion :: int
  vc_KVSChannelCount :: int
  vc_MaxDuration :: int
  vc_RotateAfter :: int
  vc_LeaseDuration :: int
  vc_IdempotencyTTL :: int
  vc_LeaseIndexName :: string
  vc_GlobalCapacityLimit :: int
  vc_PerUserCapacityLimit :: int

record scope =
  sc_UserID :: string
  sc_BusinessID :: string
  sc_AllBranches :: bool
  sc_AllowBranchless :: bool
  sc_AllowedBranchIDs :: "string list"

record create_input =
  ci_BranchID :: string
  ci_IdempotencyKey :: string
  ci_PreferredLanguage :: string
  ci_FallbackLanguage :: string
  ci_TranscriptStorage :: "bool option"
  ci_AudioRecording :: "bool option"
  ci_PolicyVersion :: string
  ci_Platform :: string
  ci_AppVersion :: string
  ci_ProtocolVersion :: int

record vsession =
  vs_ID :: string
  vs_RuntimeSessionID :: string
  vs_UserID :: string
  vs_BusinessID :: string
  vs_BranchID :: string
  vs_Status :: voice_status
  vs_RuntimeState :: runtime_state
  vs_ProtocolVersion :: int
  vs_KVSChannelIndex :: int
  vs_PreferredLanguage :: string
  vs_FallbackLanguage :: string
  vs_CurrentLanguage :: string
  vs_TurnSequence :: int
  vs_GenerationID :: int
  vs_ConsentTranscriptStorage :: bool
  vs_ConsentAudioRecording :: bool
  vs_ConsentPolicyVersion :: string
  vs_ClientPlatform :: string
  vs_ClientAppVersion :: string
  vs_CreatedAt :: instant
  vs_UpdatedAt :: instant
  vs_LeaseExpiresAt :: instant
  vs_ExpiresAt :: instant
  vs_RotateAt :: instant
  vs_ClosedAt :: "instant option"
  vs_CapacityReleased :: bool
  vs_Resumable :: bool

section \<open>Records passed to the store\<close>

record create_record =
  cr_Session :: vsession
  cr_IdempotencyKey :: string
  cr_RequestHash :: string
  cr_IdempotencyExpiresAt :: instant

record resume_record =
  rr_Scope :: scope
  rr_SessionID :: string
  rr_ExpectedBranchID :: string
  rr_OldRuntimeSessionID :: string
  rr_ExpectedRuntimeState :: runtime_state
  rr_ExpectedLeaseExpiresAt :: instant
  rr_NewRuntimeSessionID :: string
  rr_LeaseExpiresAt :: instant
  rr_UpdatedAt :: instant

record lease_renewal =
  lr_Scope :: scope
  lr_SessionID :: string
  lr_ExpectedBranchID :: string
  lr_RuntimeSessionID :: string
  lr_ExpectedLeaseExpiresAt :: instant
  lr_ExpectedExpiresAt :: instant
  lr_RenewedAt :: instant
  lr_LeaseDuration :: int

record release_state =
  rs_Released :: bool
  rs_ShouldStop :: bool
  rs_AlreadyClosed :: bool
  rs_LeaseRenewed :: bool

definition no_release :: release_state where
  "no_release = \<lparr>rs_Released = False, rs_ShouldStop = False, rs_AlreadyClosed = False, rs_LeaseRenewed = False\<rparr>"

record tool_outcome =
  to_Name :: string
  to_Success :: bool
  to_ErrorCode :: string

record turn_timings =
  tt_SpeechEndedAt :: instant
  tt_STTFinalAt :: instant
  tt_LLMFirstTokenAt :: instant
  tt_TTSFirstAudioAt :: instant
  tt_ClientFirstAudioAt :: instant

record turn_usage =
  tu_InputTokens :: "int option"
  tu_OutputTokens :: "int option"
  tu_TotalTokens :: "int option"
  tu_TTSCharacters :: "int option"

record final_turn =
  ft_SessionID :: string
  ft_Sequence :: int
  ft_GenerationID :: int
  ft_Transcript :: string
  ft_ProviderLanguage :: string
  ft_SelectedLanguage :: string
  ft_Response :: string
  ft_Tools :: "tool_outcome list"
  ft_Timings :: turn_timings
  ft_Usage :: turn_usage
  ft_Cancelled :: bool
  ft_CompletedAt :: instant
  ft_ExpiresAt :: instant

text \<open>\<open>Time.Unix()\<close>, the whole seconds.\<close>

definition epoch :: "instant \<Rightarrow> int" where
  "epoch t = t div nsPerSecond"

definition minutes :: "int \<Rightarrow> int" where
  "minutes n = n * 60 * nsPerSecond"

section \<open>Configuration\<close>

definition Enabled :: "voice_config \<Rightarrow> bool" where
  "Enabled c \<longleftrightarrow> vc_TableName c \<noteq> [] \<and> vc_AgentRuntimeARN c \<noteq> []"

definition normalizeConfig :: "voice_config \<Rightarrow> voice_config" where
  "normalizeConfig c = c\<lparr>
     vc_AgentRuntimeQualifier := (if vc_AgentRuntimeQualifier c = [] then ''PROD'' else vc_AgentRuntimeQualifier c),
     vc_ProtocolVersion := (if vc_ProtocolVersion c = 0 then 1 else vc_ProtocolVersion c),
     vc_KVSChannelCount := (if vc_KVSChannelCount c = 0 then 12 else vc_KVSChannelCount c),
     vc_MaxDuration := (if vc_MaxDuration c = 0 then minutes 55 else vc_MaxDuration c),
     vc_RotateAfter := (if vc_RotateAfter c = 0 then minutes 52 else vc_RotateAfter c),
     vc_LeaseDuration := (if vc_LeaseDuration c = 0 then minutes 2 else vc_LeaseDuration c),
     vc_IdempotencyTTL := (if vc_IdempotencyTTL c = 0 then hours 24 else vc_IdempotencyTTL c),
     vc_LeaseIndexName := (if vc_LeaseIndexName c = [] then ''gsi2'' else vc_LeaseIndexName c),
     vc_GlobalCapacityLimit := (if vc_GlobalCapacityLimit c = 0 then 100 else vc_GlobalCapacityLimit c),
     vc_PerUserCapacityLimit := (if vc_PerUserCapacityLimit c = 0 then 1 else vc_PerUserCapacityLimit c)\<rparr>"

section \<open>Rollout\<close>

text \<open>\<open>binary.BigEndian.Uint64\<close> of the first eight bytes.\<close>

definition be_u64 :: "u8 list \<Rightarrow> nat" where
  "be_u64 bs = foldl (\<lambda>acc b. 256 * acc + unat b) 0 (take 8 bs)"

definition rollout_bucket :: "scope \<Rightarrow> nat" where
  "rollout_bucket sc =
     be_u64 (sha256 (string_bytes (''billeif-voice-rollout-v1'' @ [CHR 0x00] @ sc_UserID sc @ [CHR 0x00] @ sc_BusinessID sc))) mod 100"

definition rollout_percentage :: "string \<Rightarrow> nat option" where
  "rollout_percentage stage =
     (if stage = ''5'' then Some 5 else if stage = ''25'' then Some 25 else if stage = ''50'' then Some 50
      else if stage = ''100'' then Some 100 else None)"

definition rolloutAllows :: "voice_config \<Rightarrow> scope \<Rightarrow> bool" where
  "rolloutAllows c sc =
     (if \<not> vc_AdmissionEnabled c then False
      else if vc_RolloutStage c = ''internal''
      then (''sha256:'' @ hex_encode (sha256 (string_bytes (sc_UserID sc)))) \<in> set (map TrimSpace (vc_RolloutInternalSubjectHashes c))
      else case rollout_percentage (vc_RolloutStage c) of
             None \<Rightarrow> False
           | Some p \<Rightarrow> rollout_bucket sc < p)"

section \<open>Scopes and identifiers\<close>

definition validateScope :: "scope \<Rightarrow> bool" where
  "validateScope sc \<longleftrightarrow> TrimSpace (sc_UserID sc) \<noteq> [] \<and> TrimSpace (sc_BusinessID sc) \<noteq> []"

definition scopeAllowsBranch :: "scope \<Rightarrow> string \<Rightarrow> bool" where
  "scopeAllowsBranch sc b =
     (if sc_AllBranches sc then True
      else if b = [] then sc_AllowBranchless sc
      else b \<in> set (sc_AllowedBranchIDs sc))"

definition validSessionID :: "string \<Rightarrow> bool" where
  "validSessionID v \<longleftrightarrow> HasPrefix v ''voice_'' \<and> length v \<ge> 7 \<and> length v \<le> 96"

definition SpokenLanguages :: "string list" where
  "SpokenLanguages = [''bn-IN'', ''en-IN'', ''gu-IN'', ''hi-IN'', ''kn-IN'', ''ml-IN'', ''mr-IN'', ''od-IN'', ''pa-IN'', ''ta-IN'', ''te-IN'']"

definition supportedLanguage :: "string \<Rightarrow> bool" where
  "supportedLanguage v \<longleftrightarrow> v \<in> set SpokenLanguages"

text \<open>FNV-1a over 64 bits, and the channel of a session.\<close>

definition fnv64a :: "u8 list \<Rightarrow> u64" where
  "fnv64a bs = foldl (\<lambda>h b. (h XOR ucast b) * 1099511628211) 14695981039346656037 bs"

definition stableChannel :: "string \<Rightarrow> int \<Rightarrow> int" where
  "stableChannel sid n = uint (fnv64a (string_bytes sid) mod word_of_int n)"

definition boundedLease :: "instant \<Rightarrow> instant \<Rightarrow> int \<Rightarrow> instant" where
  "boundedLease now expiresAt duration = (if now + duration > expiresAt then expiresAt else now + duration)"

definition setResumable :: "instant \<Rightarrow> vsession \<Rightarrow> vsession" where
  "setResumable now v = v\<lparr>vs_Resumable := (vs_Status v = VActive \<and> vs_ExpiresAt v > now \<and> vs_LeaseExpiresAt v > now)\<rparr>"

text \<open>
  \<open>generateULID\<close>: 48 bits of the time in milliseconds and ten random bytes, written in 26
  base-32 digits, most significant first.
\<close>

definition ulidAlphabet :: string where
  "ulidAlphabet = ''0123456789ABCDEFGHJKMNPQRSTVWXYZ''"

fun base32 :: "nat \<Rightarrow> nat \<Rightarrow> string \<Rightarrow> string" where
  "base32 0 v acc = acc"
| "base32 (Suc n) v acc = base32 n (v div 32) ((ulidAlphabet ! (v mod 32)) # acc)"

definition generateULID :: "instant \<Rightarrow> u8 list \<Rightarrow> string" where
  "generateULID now random =
     (let millis = nat ((now div 1000000) mod 2 ^ 48)
      in base32 26 (foldl (\<lambda>acc b. 256 * acc + unat b) millis random) [])"

section \<open>Validation of a create request\<close>

definition is_letter :: "char \<Rightarrow> bool" where
  "is_letter c \<longleftrightarrow> 65 \<le> (of_char c :: nat) \<and> (of_char c :: nat) \<le> 90 \<or> 97 \<le> (of_char c :: nat) \<and> (of_char c :: nat) \<le> 122"

text \<open>\<open>policyVersionPattern\<close>: four digits, two digits, two digits, with dashes between.\<close>

definition policyVersionPattern :: "string \<Rightarrow> bool" where
  "policyVersionPattern s \<longleftrightarrow>
     length s = 10 \<and> s ! 4 = CHR ''-'' \<and> s ! 7 = CHR ''-'' \<and> (\<forall>i \<in> {0, 1, 2, 3, 5, 6, 8, 9}. is_digit (s ! i))"

text \<open>\<open>time.Parse("2006-01-02", s)\<close> of a string of that shape: month and day in range.\<close>

definition parses_as_date :: "string \<Rightarrow> bool" where
  "parses_as_date s =
     (let y = digits_value (take 4 s); m = digits_value (take 2 (drop 5 s)); d = digits_value (drop 8 s)
      in 1 \<le> m \<and> m \<le> 12 \<and> 1 \<le> d \<and> d \<le> month_lengths (leap_year y) ! nat (m - 1))"

text \<open>\<open>appVersionPattern\<close>: three dotted numbers, and perhaps a tail introduced by a dash or a plus.\<close>

fun number_part :: "string \<Rightarrow> string option" where
  "number_part s = (let r = dropWhile is_digit s in if r = s then None else Some r)"

definition version_tail :: "string \<Rightarrow> bool" where
  "version_tail s =
     (case s of
        [] \<Rightarrow> True
      | c # t \<Rightarrow> (c = CHR ''-'' \<or> c = CHR ''+'') \<and> t \<noteq> [] \<and>
          list_all (\<lambda>x. is_digit x \<or> is_letter x \<or> x = CHR ''.'' \<or> x = CHR ''-'') t)"

definition appVersionPattern :: "string \<Rightarrow> bool" where
  "appVersionPattern s =
     (case number_part s of
        Some (c1 # s1) \<Rightarrow> c1 = CHR ''.'' \<and>
          (case number_part s1 of
             Some (c2 # s2) \<Rightarrow> c2 = CHR ''.'' \<and> (case number_part s2 of Some s3 \<Rightarrow> version_tail s3 | None \<Rightarrow> False)
           | _ \<Rightarrow> False)
      | _ \<Rightarrow> False)"

definition validateCreate :: "(string \<Rightarrow> bool) \<Rightarrow> voice_config \<Rightarrow> create_input \<Rightarrow> bool" where
  "validateCreate uuid_ok c i =
     (if \<not> uuid_ok (ci_IdempotencyKey i) then False
      else if TrimSpace (ci_BranchID i) \<noteq> [] \<and> \<not> uuid_ok (ci_BranchID i) then False
      else if \<not> supportedLanguage (ci_PreferredLanguage i) \<or> \<not> supportedLanguage (ci_FallbackLanguage i) then False
      else if ci_TranscriptStorage i = None then False
      else if ci_AudioRecording i \<noteq> Some False then False
      else if \<not> policyVersionPattern (ci_PolicyVersion i) then False
      else if \<not> parses_as_date (ci_PolicyVersion i) then False
      else if ci_Platform i \<noteq> ''ios'' \<and> ci_Platform i \<noteq> ''android'' then False
      else if length (ci_AppVersion i) > 64 \<or> \<not> appVersionPattern (ci_AppVersion i) then False
      else ci_ProtocolVersion i = vc_ProtocolVersion c \<and> ci_ProtocolVersion i = 1)"

section \<open>Canonical requests\<close>

definition json_opt_bool :: "bool option \<Rightarrow> string" where
  "json_opt_bool b = (case b of None \<Rightarrow> ''null'' | Some x \<Rightarrow> json_bool x)"

definition canonicalRequestHash :: "create_input \<Rightarrow> string" where
  "canonicalRequestHash i =
     hex_encode (sha256 (string_bytes (json_object
       [(''branch_id'', json_string (TrimSpace (ci_BranchID i))),
        (''preferred_language'', json_string (ci_PreferredLanguage i)),
        (''fallback_language'', json_string (ci_FallbackLanguage i)),
        (''consent'', json_object
           [(''transcript_storage'', json_opt_bool (ci_TranscriptStorage i)),
            (''audio_recording'', json_opt_bool (ci_AudioRecording i)),
            (''policy_version'', json_string (ci_PolicyVersion i))]),
        (''client'', json_object
           [(''platform'', json_string (ci_Platform i)), (''app_version'', json_string (ci_AppVersion i)),
            (''protocol_version'', json_int (ci_ProtocolVersion i))])])))"

section \<open>Facts\<close>

lemma length_base32: "length (base32 n v acc) = n + length acc"
  by (induction n arbitrary: v acc) auto

lemma set_base32: "set (base32 n v acc) \<subseteq> set ulidAlphabet \<union> set acc"
proof (induction n arbitrary: v acc)
  case (Suc n)
  have "length ulidAlphabet = 32" by (simp add: ulidAlphabet_def)
  then have "ulidAlphabet ! (v mod 32) \<in> set ulidAlphabet" by simp
  with Suc [of "v div 32" "(ulidAlphabet ! (v mod 32)) # acc"] show ?case by auto
qed simp

lemma boundedLease_le: "boundedLease now e d \<le> e" "0 < d \<Longrightarrow> now < e \<Longrightarrow> now < boundedLease now e d"
  by (auto simp: boundedLease_def)

lemma stableChannel_range:
  assumes "0 < n" and "n < 2 ^ 63"
  shows "0 \<le> stableChannel sid n \<and> stableChannel sid n < n"
proof -
  have "uint (word_of_int n :: u64) = n" using assms by (simp add: uint_word_of_int)
  then show ?thesis using assms by (simp add: stableChannel_def uint_mod)
qed

text \<open>A wider percentage admits everyone a narrower one admitted.\<close>

lemma rollout_monotone:
  assumes "rolloutAllows c sc" and "rollout_percentage (vc_RolloutStage c) = Some p"
    and "rollout_percentage stage = Some q" and "p \<le> q"
  shows "rolloutAllows (c\<lparr>vc_RolloutStage := stage\<rparr>) sc"
proof -
  have "vc_RolloutStage c \<noteq> ''internal''" "stage \<noteq> ''internal''" using assms(2,3) by (auto simp: rollout_percentage_def)
  with assms show ?thesis by (simp add: rolloutAllows_def split: if_splits)
qed

lemma scope_named_branch: "scopeAllowsBranch sc b \<Longrightarrow> \<not> sc_AllBranches sc \<Longrightarrow> b \<noteq> [] \<Longrightarrow> b \<in> set (sc_AllowedBranchIDs sc)"
  by (simp add: scopeAllowsBranch_def)

end
