(* ===== verification/Voice_Store.thy ===== *)
theory Voice_Store
  imports Voice_Session
begin

text \<open>
  The session table of \<open>internal/voice/session/dynamodb_store.go\<close>: its items, the condition and
  update expressions of its writes, and the store's operations over them. The items of the
  table are maps by key; a time attribute is the instant it formats, so that comparing the
  fixed-width time strings is comparing instants (years 0 to 9999). Whether a call to the
  service reaches it, and whether its answer arrives, is decided by a schedule of faults that
  is part of the state; an exhausted schedule means the service answers.
\<close>

section \<open>The table\<close>

record session_item =
  it_session :: vsession
  it_gsi1 :: "instant option"
  it_gsi2 :: "instant option"

record idempotency_item =
  ii_UserID :: string
  ii_BusinessID :: string
  ii_RequestHash :: string
  ii_SessionID :: string
  ii_ExpiresAt :: int

record turn_item =
  ti_turn :: final_turn
  ti_ExpiresAt :: int
  ti_ContentHash :: string

text \<open>
  A call is answered; or fails without effect; or takes effect and its answer is lost; or takes
  effect, its answer is lost and the client library's retry is answered instead.
\<close>

datatype api_fault = ApiOk | ApiLost | ApiNoReply | ApiRetried

record vdb =
  vd_items :: "string \<rightharpoonup> session_item"
  vd_turns :: "string \<times> int \<rightharpoonup> turn_item"
  vd_idem :: "string \<rightharpoonup> idempotency_item"
  vd_global :: "int option"
  vd_user :: "string \<rightharpoonup> int"
  vd_faults :: "api_fault list"

definition empty_vdb :: "api_fault list \<Rightarrow> vdb" where
  "empty_vdb fs = \<lparr>vd_items = Map.empty, vd_turns = Map.empty, vd_idem = Map.empty, vd_global = None, vd_user = Map.empty, vd_faults = fs\<rparr>"

record dynamo_store =
  ds_TableName :: string
  ds_LeaseIndexName :: string
  ds_GlobalCapacityLimit :: int
  ds_PerUserCapacityLimit :: int

definition NewDynamoDBStore :: "dynamo_store \<Rightarrow> dynamo_store" where
  "NewDynamoDBStore c = c\<lparr>
     ds_LeaseIndexName := (if ds_LeaseIndexName c = [] then ''gsi2'' else ds_LeaseIndexName c),
     ds_GlobalCapacityLimit := (if ds_GlobalCapacityLimit c = 0 then 100 else ds_GlobalCapacityLimit c),
     ds_PerUserCapacityLimit := (if ds_PerUserCapacityLimit c = 0 then 1 else ds_PerUserCapacityLimit c)\<rparr>"

definition validate_store :: "dynamo_store \<Rightarrow> bool" where
  "validate_store d \<longleftrightarrow> ds_TableName d \<noteq> []"

section \<open>Calls\<close>

text \<open>What a write reports: success, the conditions that failed by position, or another error.\<close>

datatype api_result = Done | Refused "bool list" | CallFailed

definition next_fault :: "vdb \<Rightarrow> api_fault \<times> vdb" where
  "next_fault s = (case vd_faults s of [] \<Rightarrow> (ApiOk, s) | f # fs \<Rightarrow> (f, s\<lparr>vd_faults := fs\<rparr>))"

definition get_item :: "(vdb \<Rightarrow> 'a option) \<Rightarrow> vdb \<Rightarrow> (voice_error + 'a option) \<times> vdb" where
  "get_item select s =
     (case next_fault s of (f, s1) \<Rightarrow>
        if f = ApiOk \<or> f = ApiRetried then (Inr (select s1), s1) else (Inl ErrProvider, s1))"

text \<open>
  \<open>TransactWriteItems\<close>: all the writes or none. A retry carries the same client token and is
  answered as the first attempt was.
\<close>

definition transact_write :: "(vdb \<Rightarrow> bool list) \<Rightarrow> (vdb \<Rightarrow> vdb) \<Rightarrow> vdb \<Rightarrow> api_result \<times> vdb" where
  "transact_write failed write s =
     (case next_fault s of (f, s1) \<Rightarrow>
        if f = ApiLost then (CallFailed, s1)
        else if True \<in> set (failed s1) then (if f = ApiNoReply then CallFailed else Refused (failed s1), s1)
        else (if f = ApiNoReply then CallFailed else Done, write s1))"

text \<open>\<open>UpdateItem\<close> on one item: a retry of a write that took effect meets its own condition and is refused.\<close>

definition update_item :: "(vdb \<Rightarrow> bool) \<Rightarrow> (vdb \<Rightarrow> vdb) \<Rightarrow> vdb \<Rightarrow> api_result \<times> vdb" where
  "update_item cond write s =
     (case next_fault s of (f, s1) \<Rightarrow>
        if f = ApiLost then (CallFailed, s1)
        else if \<not> cond s1 then (if f = ApiNoReply then CallFailed else Refused [True], s1)
        else (if f = ApiNoReply then CallFailed else if f = ApiRetried then Refused [True] else Done, write s1))"

definition cancellationReasonIs :: "api_result \<Rightarrow> nat \<Rightarrow> bool" where
  "cancellationReasonIs r i = (case r of Refused bs \<Rightarrow> i < length bs \<and> bs ! i | _ \<Rightarrow> False)"

section \<open>Items\<close>

definition marshalSession :: "vsession \<Rightarrow> session_item" where
  "marshalSession v =
     \<lparr>it_session = v\<lparr>vs_ExpiresAt := Unix (epoch (vs_ExpiresAt v)), vs_Resumable := False\<rparr>,
      it_gsi1 = (if vs_Status v = VActive then Some (vs_CreatedAt v) else None),
      it_gsi2 = (if vs_Status v = VActive then Some (vs_LeaseExpiresAt v) else None)\<rparr>"

definition idempotencyPK :: "string \<Rightarrow> string \<Rightarrow> string" where
  "idempotencyPK userID key = ''VOICE#IDEMPOTENCY#'' @ userID @ ''#'' @ key"

definition idempotencyItem :: "create_record \<Rightarrow> idempotency_item" where
  "idempotencyItem r =
     \<lparr>ii_UserID = vs_UserID (cr_Session r), ii_BusinessID = vs_BusinessID (cr_Session r),
      ii_RequestHash = cr_RequestHash r, ii_SessionID = vs_ID (cr_Session r),
      ii_ExpiresAt = epoch (cr_IdempotencyExpiresAt r)\<rparr>"

text \<open>\<open>addExpectedBranchCondition\<close>: an absent branch is stored as no attribute, the empty string here.\<close>

definition expected_branch :: "string \<Rightarrow> vsession \<Rightarrow> bool" where
  "expected_branch expected v = (if expected = [] then vs_BranchID v = [] else vs_BranchID v = expected)"

definition increment_allowed :: "int option \<Rightarrow> int \<Rightarrow> bool" where
  "increment_allowed count limit = (case count of None \<Rightarrow> True | Some n \<Rightarrow> n < limit)"

definition capacityIncrement :: "int option \<Rightarrow> int" where
  "capacityIncrement count = (case count of None \<Rightarrow> 0 | Some n \<Rightarrow> n) + 1"

definition decrement_allowed :: "int option \<Rightarrow> bool" where
  "decrement_allowed count = (case count of None \<Rightarrow> False | Some n \<Rightarrow> n \<ge> 1)"

definition capacityDecrement :: "int option \<Rightarrow> int option" where
  "capacityDecrement count = map_option (\<lambda>n. n - 1) count"

definition on_session :: "string \<Rightarrow> (vsession \<Rightarrow> bool) \<Rightarrow> vdb \<Rightarrow> bool" where
  "on_session sid p s = (case vd_items s sid of None \<Rightarrow> False | Some it \<Rightarrow> p (it_session it))"

definition set_item :: "string \<Rightarrow> (session_item \<Rightarrow> session_item) \<Rightarrow> vdb \<Rightarrow> vdb" where
  "set_item sid f s = s\<lparr>vd_items := (vd_items s)(sid := map_option f (vd_items s sid))\<rparr>"

section \<open>Writes\<close>

definition create_failed :: "dynamo_store \<Rightarrow> create_record \<Rightarrow> vdb \<Rightarrow> bool list" where
  "create_failed d r s =
     [\<not> increment_allowed (vd_global s) (ds_GlobalCapacityLimit d),
      \<not> increment_allowed (vd_user s (vs_UserID (cr_Session r))) (ds_PerUserCapacityLimit d),
      vd_items s (vs_ID (cr_Session r)) \<noteq> None,
      vd_idem s (idempotencyPK (vs_UserID (cr_Session r)) (cr_IdempotencyKey r)) \<noteq> None]"

definition create_write :: "create_record \<Rightarrow> vdb \<Rightarrow> vdb" where
  "create_write r s =
     (let v = cr_Session r in s\<lparr>
        vd_global := Some (capacityIncrement (vd_global s)),
        vd_user := (vd_user s)(vs_UserID v \<mapsto> capacityIncrement (vd_user s (vs_UserID v))),
        vd_items := (vd_items s)(vs_ID v \<mapsto> marshalSession v),
        vd_idem := (vd_idem s)(idempotencyPK (vs_UserID v) (cr_IdempotencyKey r) \<mapsto> idempotencyItem r)\<rparr>)"

definition resume_cond :: "resume_record \<Rightarrow> vsession \<Rightarrow> bool" where
  "resume_cond r v \<longleftrightarrow>
     vs_Status v = VActive \<and> vs_UserID v = sc_UserID (rr_Scope r) \<and> vs_BusinessID v = sc_BusinessID (rr_Scope r) \<and>
     vs_RuntimeSessionID v = rr_OldRuntimeSessionID r \<and> vs_RuntimeState v = rr_ExpectedRuntimeState r \<and>
     epoch (vs_ExpiresAt v) > epoch (rr_UpdatedAt r) \<and> vs_LeaseExpiresAt v = rr_ExpectedLeaseExpiresAt r \<and>
     vs_LeaseExpiresAt v > rr_UpdatedAt r \<and> expected_branch (rr_ExpectedBranchID r) v"

definition resume_item :: "resume_record \<Rightarrow> session_item \<Rightarrow> session_item" where
  "resume_item r it =
     (let v = (it_session it)\<lparr>vs_LeaseExpiresAt := rr_LeaseExpiresAt r, vs_UpdatedAt := rr_UpdatedAt r\<rparr>
      in it\<lparr>it_session := (if rr_NewRuntimeSessionID r \<noteq> []
                           then v\<lparr>vs_RuntimeSessionID := rr_NewRuntimeSessionID r, vs_RuntimeState := RuntimeRunning\<rparr> else v),
            it_gsi2 := Some (rr_LeaseExpiresAt r)\<rparr>)"

definition renew_cond :: "lease_renewal \<Rightarrow> instant \<Rightarrow> vsession \<Rightarrow> bool" where
  "renew_cond r lease v \<longleftrightarrow>
     vs_ID v = lr_SessionID r \<and> vs_UserID v = sc_UserID (lr_Scope r) \<and> vs_BusinessID v = sc_BusinessID (lr_Scope r) \<and>
     vs_RuntimeSessionID v = lr_RuntimeSessionID r \<and> vs_Status v = VActive \<and> vs_RuntimeState v = RuntimeRunning \<and>
     \<not> vs_CapacityReleased v \<and> vs_LeaseExpiresAt v = lr_ExpectedLeaseExpiresAt r \<and> vs_LeaseExpiresAt v > lr_RenewedAt r \<and>
     epoch (vs_ExpiresAt v) = epoch (lr_ExpectedExpiresAt r) \<and> epoch (vs_ExpiresAt v) > epoch (lr_RenewedAt r) \<and>
     epoch (vs_ExpiresAt v) \<ge> epoch lease \<and> expected_branch (lr_ExpectedBranchID r) v"

definition renew_item :: "lease_renewal \<Rightarrow> instant \<Rightarrow> session_item \<Rightarrow> session_item" where
  "renew_item r lease it =
     it\<lparr>it_session := (it_session it)\<lparr>vs_LeaseExpiresAt := lease, vs_UpdatedAt := lr_RenewedAt r\<rparr>, it_gsi2 := Some lease\<rparr>"

text \<open>\<open>releaseTransaction\<close>; \<open>expected\<close> holds the lease and the cutoff of a reconciliation.\<close>

definition release_cond :: "scope \<Rightarrow> string \<Rightarrow> (instant \<times> instant) option \<Rightarrow> vsession \<Rightarrow> bool" where
  "release_cond sc branch expected v \<longleftrightarrow>
     vs_Status v = VActive \<and> vs_UserID v = sc_UserID sc \<and> vs_BusinessID v = sc_BusinessID sc \<and>
     \<not> vs_CapacityReleased v \<and> expected_branch branch v \<and>
     (case expected of None \<Rightarrow> True | Some (lease, cutoff) \<Rightarrow> vs_LeaseExpiresAt v = lease \<and> vs_LeaseExpiresAt v \<le> cutoff)"

definition release_failed :: "scope \<Rightarrow> vsession \<Rightarrow> (instant \<times> instant) option \<Rightarrow> vdb \<Rightarrow> bool list" where
  "release_failed sc stored expected s =
     [\<not> on_session (vs_ID stored) (release_cond sc (vs_BranchID stored) expected) s,
      \<not> decrement_allowed (vd_global s),
      \<not> decrement_allowed (vd_user s (sc_UserID sc))]"

definition release_item :: "instant \<Rightarrow> session_item \<Rightarrow> session_item" where
  "release_item now it =
     it\<lparr>it_session := (it_session it)\<lparr>vs_Status := VClosing, vs_CapacityReleased := True, vs_UpdatedAt := now\<rparr>,
        it_gsi1 := None, it_gsi2 := Some now\<rparr>"

definition release_write :: "scope \<Rightarrow> vsession \<Rightarrow> instant \<Rightarrow> vdb \<Rightarrow> vdb" where
  "release_write sc stored now s =
     (set_item (vs_ID stored) (release_item now) s)\<lparr>
        vd_global := capacityDecrement (vd_global s),
        vd_user := (vd_user s)(sc_UserID sc := capacityDecrement (vd_user s (sc_UserID sc)))\<rparr>"

definition close_cond :: "scope \<Rightarrow> string \<Rightarrow> vsession \<Rightarrow> bool" where
  "close_cond sc branch v \<longleftrightarrow>
     vs_Status v = VClosing \<and> vs_UserID v = sc_UserID sc \<and> vs_BusinessID v = sc_BusinessID sc \<and>
     vs_CapacityReleased v \<and> expected_branch branch v"

definition close_item :: "instant \<Rightarrow> session_item \<Rightarrow> session_item" where
  "close_item now it =
     it\<lparr>it_session := (it_session it)\<lparr>vs_Status := VClosed, vs_RuntimeState := RuntimeStopped, vs_ClosedAt := Some now, vs_UpdatedAt := now\<rparr>,
        it_gsi2 := None\<rparr>"

definition turn_cond :: "final_turn \<Rightarrow> vsession \<Rightarrow> bool" where
  "turn_cond t v \<longleftrightarrow>
     vs_Status v = VActive \<and> vs_ConsentTranscriptStorage v \<and> vs_TurnSequence v = ft_Sequence t - 1 \<and>
     vs_GenerationID v < ft_GenerationID t \<and> epoch (vs_ExpiresAt v) > epoch (ft_CompletedAt t) \<and>
     epoch (vs_ExpiresAt v) \<ge> epoch (ft_ExpiresAt t)"

definition turn_failed :: "final_turn \<Rightarrow> vdb \<Rightarrow> bool list" where
  "turn_failed t s =
     [\<not> on_session (ft_SessionID t) (turn_cond t) s, vd_turns s (ft_SessionID t, ft_Sequence t) \<noteq> None]"

definition turn_session :: "final_turn \<Rightarrow> session_item \<Rightarrow> session_item" where
  "turn_session t it =
     it\<lparr>it_session := (it_session it)\<lparr>vs_TurnSequence := ft_Sequence t, vs_GenerationID := ft_GenerationID t, vs_UpdatedAt := ft_CompletedAt t\<rparr>\<rparr>"

definition turn_write :: "turn_item \<Rightarrow> vdb \<Rightarrow> vdb" where
  "turn_write i s =
     (let t = ti_turn i in
      (set_item (ft_SessionID t) (turn_session t) s)\<lparr>vd_turns := (vd_turns s)((ft_SessionID t, ft_Sequence t) \<mapsto> i)\<rparr>)"

end
