(* ===== verification/Voice_Turns.thy ===== *)
theory Voice_Turns
  imports Voice_Store
begin

text \<open>
  Final turns: their validation (\<open>validateFinalTurn\<close> and its helpers in
  \<open>internal/voice/session/dynamodb_store.go\<close>) and the item that is stored, with the hash of
  its canonical JSON.
\<close>

section \<open>Patterns\<close>

definition in_bytes :: "nat \<Rightarrow> nat \<Rightarrow> string \<Rightarrow> bool" where
  "in_bytes lo hi s = list_all (\<lambda>c. lo \<le> (of_char c :: nat) \<and> (of_char c :: nat) \<le> hi) s"

definition is_lower :: "char \<Rightarrow> bool" where
  "is_lower c \<longleftrightarrow> 97 \<le> (of_char c :: nat) \<and> (of_char c :: nat) \<le> 122"

definition finalTurnMetadataPattern :: "string \<Rightarrow> bool" where
  "finalTurnMetadataPattern s =
     (case s of
        [] \<Rightarrow> False
      | c # t \<Rightarrow> is_lower c \<and> length t \<le> 63 \<and> list_all (\<lambda>x. is_lower x \<or> is_digit x \<or> x = CHR ''_'') t)"

definition validRuntimeLeaseID :: "string \<Rightarrow> bool" where
  "validRuntimeLeaseID v \<longleftrightarrow>
     v \<noteq> [] \<and> length v \<le> 256 \<and> TrimSpace v = v \<and> ValidString v \<and> in_bytes 33 126 v"

section \<open>Validation\<close>

definition safeFinalTurnProviderLanguage :: "string \<Rightarrow> bool" where
  "safeFinalTurnProviderLanguage v \<longleftrightarrow> length v \<le> 16 \<and> in_bytes 32 126 v"

text \<open>The loop over the optional boundaries: the last one seen, whether one was missing, and whether to go on.\<close>

fun boundaries :: "instant list \<Rightarrow> instant \<Rightarrow> bool \<Rightarrow> (instant \<times> bool) option" where
  "boundaries [] prev missing = Some (prev, missing)"
| "boundaries (b # bs) prev missing =
     (if b = zero_time then boundaries bs prev True
      else if missing \<or> b < prev then None
      else boundaries bs b missing)"

definition validFinalTurnTimings :: "turn_timings \<Rightarrow> instant \<Rightarrow> bool \<Rightarrow> bool" where
  "validFinalTurnTimings t completedAt cancelled =
     (if tt_SpeechEndedAt t = zero_time \<or> tt_STTFinalAt t = zero_time \<or> tt_STTFinalAt t < tt_SpeechEndedAt t then False
      else case boundaries [tt_LLMFirstTokenAt t, tt_TTSFirstAudioAt t, tt_ClientFirstAudioAt t] (tt_STTFinalAt t) False of
             None \<Rightarrow> False
           | Some (prev, missing) \<Rightarrow> \<not> (\<not> cancelled \<and> missing \<or> completedAt < prev))"

definition validFinalTurnUsage :: "turn_usage \<Rightarrow> bool" where
  "validFinalTurnUsage u \<longleftrightarrow>
     list_all (\<lambda>x. case x of None \<Rightarrow> True | Some n \<Rightarrow> 0 \<le> n \<and> n \<le> 1000000)
       [tu_InputTokens u, tu_OutputTokens u, tu_TotalTokens u, tu_TTSCharacters u] \<and>
     (case (tu_InputTokens u, tu_OutputTokens u, tu_TotalTokens u) of
        (Some i, Some out, Some tot) \<Rightarrow> tot = i + out
      | _ \<Rightarrow> True)"

definition validateFinalTurn :: "final_turn \<Rightarrow> bool" where
  "validateFinalTurn t =
     (if \<not> validSessionID (ft_SessionID t) \<or> ft_Sequence t \<le> 0 \<or> ft_GenerationID t \<le> 0 \<or>
         ft_CompletedAt t = zero_time \<or> \<not> ft_ExpiresAt t > ft_CompletedAt t \<or>
         ft_ExpiresAt t - ft_CompletedAt t > minutes 55 \<or>
         TrimSpace (ft_Transcript t) = [] \<or>
         \<not> ValidString (ft_Transcript t) \<or> \<not> ValidString (ft_Response t) \<or>
         length (ft_Transcript t) > 16384 \<or> length (ft_Response t) > 32768
      then False
      else if \<not> ft_Cancelled t \<and> TrimSpace (ft_Response t) = [] \<or> ft_Cancelled t \<and> ft_Response t \<noteq> [] then False
      else if \<not> safeFinalTurnProviderLanguage (ft_ProviderLanguage t) \<or> \<not> supportedLanguage (ft_SelectedLanguage t) then False
      else if length (ft_Tools t) > 4 then False
      else if \<not> list_all (\<lambda>x. finalTurnMetadataPattern (to_Name x) \<and>
                \<not> (to_Success x \<and> to_ErrorCode x \<noteq> []) \<and>
                \<not> (\<not> to_Success x \<and> \<not> finalTurnMetadataPattern (to_ErrorCode x))) (ft_Tools t) then False
      else validFinalTurnTimings (ft_Timings t) (ft_CompletedAt t) (ft_Cancelled t) \<and> validFinalTurnUsage (ft_Usage t))"

section \<open>The stored item\<close>

definition pad :: "nat \<Rightarrow> int \<Rightarrow> string" where
  "pad w n = (let ds = decimal_digits (nat n) in replicate (w - length ds) (CHR ''0'') @ ds)"

text \<open>\<open>formatTime\<close>: the layout \<open>2006-01-02T15:04:05.000000000Z07:00\<close> in UTC.\<close>

definition formatTime :: "instant \<Rightarrow> string" where
  "formatTime t =
     (case civil t of (y, m, d) \<Rightarrow>
        (let r = t mod nsPerDay; sec = r div nsPerSecond
         in pad 4 y @ ''-'' @ pad 2 m @ ''-'' @ pad 2 d @ ''T'' @ pad 2 (sec div 3600) @ '':'' @ pad 2 (sec div 60 mod 60) @
            '':'' @ pad 2 (sec mod 60) @ ''.'' @ pad 9 (r mod nsPerSecond) @ ''Z''))"

definition optionalTime :: "instant \<Rightarrow> string" where
  "optionalTime t = (if t = zero_time then [] else formatTime t)"

definition json_tool :: "tool_outcome \<Rightarrow> string" where
  "json_tool x =
     json_object ([(''name'', json_string (to_Name x)), (''success'', json_bool (to_Success x))] @
       (if to_ErrorCode x = [] then [] else [(''error_code'', json_string (to_ErrorCode x))]))"

text \<open>A turn without tools holds the nil slice, which prints as null.\<close>

definition json_tools :: "tool_outcome list \<Rightarrow> string" where
  "json_tools xs = (if xs = [] then ''null'' else ''['' @ join_sep '','' (map json_tool xs) @ '']'')"

definition json_omit :: "string \<Rightarrow> int option \<Rightarrow> (string \<times> string) list" where
  "json_omit k v = (case v of None \<Rightarrow> [] | Some n \<Rightarrow> [(k, json_int n)])"

definition canonical_turn :: "final_turn \<Rightarrow> string" where
  "canonical_turn t =
     (let g = ft_Timings t; u = ft_Usage t in
      json_object
       ([(''session_id'', json_string (ft_SessionID t)), (''sequence'', json_int (ft_Sequence t)),
         (''generation_id'', json_int (ft_GenerationID t)), (''transcript'', json_string (ft_Transcript t)),
         (''detected_language'', json_string (ft_ProviderLanguage t)), (''selected_language'', json_string (ft_SelectedLanguage t)),
         (''response'', json_string (ft_Response t)), (''tools'', json_tools (ft_Tools t)),
         (''speech_ended_at'', json_string (formatTime (tt_SpeechEndedAt g))), (''stt_final_at'', json_string (formatTime (tt_STTFinalAt g))),
         (''llm_first_token_at'', json_string (optionalTime (tt_LLMFirstTokenAt g))),
         (''tts_first_audio_at'', json_string (optionalTime (tt_TTSFirstAudioAt g))),
         (''client_first_audio_at'', json_string (optionalTime (tt_ClientFirstAudioAt g))), (''cancelled'', json_bool (ft_Cancelled t))] @
        json_omit ''input_tokens'' (tu_InputTokens u) @ json_omit ''output_tokens'' (tu_OutputTokens u) @
        json_omit ''total_tokens'' (tu_TotalTokens u) @ json_omit ''tts_characters'' (tu_TTSCharacters u) @
        [(''completed_at'', json_string (formatTime (ft_CompletedAt t))), (''expires_at'', json_int (epoch (ft_ExpiresAt t)))]))"

definition marshalFinalTurn :: "final_turn \<Rightarrow> turn_item" where
  "marshalFinalTurn t =
     \<lparr>ti_turn = t, ti_ExpiresAt = epoch (ft_ExpiresAt t),
      ti_ContentHash = hex_encode (sha256 (string_bytes (canonical_turn t)))\<rparr>"

section \<open>Facts\<close>

lemma turn_write_keys [simp]:
  "ti_turn (marshalFinalTurn t) = t" "ti_ExpiresAt (marshalFinalTurn t) = epoch (ft_ExpiresAt t)"
  by (simp_all add: marshalFinalTurn_def)

text \<open>A valid turn's boundaries are in order: speech, transcript, first token, first audio, client audio, completion.\<close>

lemma timings_ordered:
  assumes "validFinalTurnTimings t c False"
  shows "tt_SpeechEndedAt t \<le> tt_STTFinalAt t" "tt_STTFinalAt t \<le> tt_LLMFirstTokenAt t"
    "tt_LLMFirstTokenAt t \<le> tt_TTSFirstAudioAt t" "tt_TTSFirstAudioAt t \<le> tt_ClientFirstAudioAt t" "tt_ClientFirstAudioAt t \<le> c"
  using assms by (auto simp: validFinalTurnTimings_def split: if_splits)

lemma valid_turn:
  assumes "validateFinalTurn t"
  shows "validSessionID (ft_SessionID t)" "0 < ft_Sequence t" "0 < ft_GenerationID t" "ft_CompletedAt t < ft_ExpiresAt t"
    "ft_ExpiresAt t \<le> ft_CompletedAt t + minutes 55" "length (ft_Transcript t) \<le> 16384" "length (ft_Response t) \<le> 32768"
  using assms by (auto simp: validateFinalTurn_def split: if_splits)

end
