(* ===== verification/Voice_Operations.thy ===== *)
theory Voice_Operations
  imports Voice_Turns
begin

text \<open>
  The operations of \<open>DynamoDBStore\<close> in \<open>internal/voice/session/dynamodb_store.go\<close>, in the order
  of the file. Each returns an error or a value, and the state of the table after its calls.
\<close>

type_synonym 'a outcome = "(voice_error + 'a) \<times> vdb"

section \<open>Reading\<close>

definition store_Get :: "dynamo_store \<Rightarrow> scope \<Rightarrow> string \<Rightarrow> vdb \<Rightarrow> vsession outcome" where
  "store_Get d sc sid s =
     (if \<not> validate_store d then (Inl ErrUnavailable, s)
      else case get_item (\<lambda>x. vd_items x sid) s of
             (Inl e, s1) \<Rightarrow> (Inl e, s1)
           | (Inr None, s1) \<Rightarrow> (Inl ErrNotFound, s1)
           | (Inr (Some it), s1) \<Rightarrow>
               (let v = it_session it in
                if vs_UserID v \<noteq> sc_UserID sc \<or> vs_BusinessID v \<noteq> sc_BusinessID sc then (Inl ErrNotFound, s1)
                else if \<not> scopeAllowsBranch sc (vs_BranchID v) then (Inl ErrNotFound, s1)
                else (Inr v, s1)))"

definition lookup_scope :: "vsession \<Rightarrow> scope" where
  "lookup_scope v =
     \<lparr>sc_UserID = vs_UserID v, sc_BusinessID = vs_BusinessID v, sc_AllBranches = (vs_BranchID v = []), sc_AllowBranchless = False,
      sc_AllowedBranchIDs = (if vs_BranchID v = [] then [] else [vs_BranchID v])\<rparr>"

definition lookupIdempotency :: "dynamo_store \<Rightarrow> create_record \<Rightarrow> vdb \<Rightarrow> vsession option outcome" where
  "lookupIdempotency d r s =
     (let v = cr_Session r in
      case get_item (\<lambda>x. vd_idem x (idempotencyPK (vs_UserID v) (cr_IdempotencyKey r))) s of
        (Inl e, s1) \<Rightarrow> (Inl e, s1)
      | (Inr None, s1) \<Rightarrow> (Inr None, s1)
      | (Inr (Some i), s1) \<Rightarrow>
          if ii_RequestHash i \<noteq> cr_RequestHash r \<or> ii_BusinessID i \<noteq> vs_BusinessID v then (Inl ErrIdempotencyConflict, s1)
          else if ii_SessionID i = [] then (Inl ErrUnavailable, s1)
          else case store_Get d (lookup_scope v) (ii_SessionID i) s1 of
                 (Inl e, s2) \<Rightarrow> (Inl e, s2)
               | (Inr w, s2) \<Rightarrow> (Inr (Some w), s2))"

section \<open>Creating\<close>

definition store_Create :: "dynamo_store \<Rightarrow> create_record \<Rightarrow> vdb \<Rightarrow> (vsession \<times> bool) outcome" where
  "store_Create d r s =
     (if \<not> validate_store d then (Inl ErrUnavailable, s)
      else case lookupIdempotency d r s of
             (Inl e, s1) \<Rightarrow> (Inl e, s1)
           | (Inr (Some w), s1) \<Rightarrow> (Inr (w, False), s1)
           | (Inr None, s1) \<Rightarrow>
               (case transact_write (create_failed d r) (create_write r) s1 of
                  (Done, s2) \<Rightarrow> (Inr (cr_Session r, True), s2)
                | (res, s2) \<Rightarrow>
                    (case lookupIdempotency d r s2 of
                       (Inl e, s3) \<Rightarrow> (Inl e, s3)
                     | (Inr (Some w), s3) \<Rightarrow> (Inr (w, False), s3)
                     | (Inr None, s3) \<Rightarrow>
                         (Inl (if cancellationReasonIs res 0 then ErrGlobalCapacity
                               else if cancellationReasonIs res 1 then ErrUserCapacity
                               else if cancellationReasonIs res 3 then ErrIdempotencyConflict
                               else ErrProvider), s3))))"

section \<open>Leases\<close>

definition store_Resume :: "dynamo_store \<Rightarrow> resume_record \<Rightarrow> vdb \<Rightarrow> vsession outcome" where
  "store_Resume d r s =
     (if \<not> validate_store d then (Inl ErrUnavailable, s)
      else if \<not> scopeAllowsBranch (rr_Scope r) (rr_ExpectedBranchID r) then (Inl ErrNotFound, s)
      else case update_item (on_session (rr_SessionID r) (resume_cond r)) (set_item (rr_SessionID r) (resume_item r)) s of
             (Refused _, s1) \<Rightarrow>
               (case store_Get d (rr_Scope r) (rr_SessionID r) s1 of
                  (Inl ErrNotFound, s2) \<Rightarrow> (Inl ErrNotFound, s2)
                | (_, s2) \<Rightarrow> (Inl ErrNotResumable, s2))
           | (CallFailed, s1) \<Rightarrow> (Inl ErrProvider, s1)
           | (Done, s1) \<Rightarrow>
               (case vd_items s1 (rr_SessionID r) of
                  None \<Rightarrow> store_Get d (rr_Scope r) (rr_SessionID r) s1
                | Some it \<Rightarrow>
                    (let v = it_session it in
                     if vs_UserID v \<noteq> sc_UserID (rr_Scope r) \<or> vs_BusinessID v \<noteq> sc_BusinessID (rr_Scope r) \<or>
                        \<not> scopeAllowsBranch (rr_Scope r) (vs_BranchID v)
                     then (Inl ErrNotFound, s1) else (Inr v, s1))))"

definition validRenewedLease :: "vsession \<Rightarrow> lease_renewal \<Rightarrow> instant \<Rightarrow> bool" where
  "validRenewedLease v r lease \<longleftrightarrow>
     vs_ID v = lr_SessionID r \<and> vs_RuntimeSessionID v = lr_RuntimeSessionID r \<and>
     vs_UserID v = sc_UserID (lr_Scope r) \<and> vs_BusinessID v = sc_BusinessID (lr_Scope r) \<and> vs_BranchID v = lr_ExpectedBranchID r \<and>
     vs_Status v = VActive \<and> vs_RuntimeState v = RuntimeRunning \<and> \<not> vs_CapacityReleased v \<and>
     vs_LeaseExpiresAt v = lease \<and> epoch (vs_ExpiresAt v) = epoch (lr_ExpectedExpiresAt r) \<and>
     vs_UpdatedAt v = lr_RenewedAt r \<and> \<not> vs_LeaseExpiresAt v > vs_ExpiresAt v"

definition renewal_invalid :: "lease_renewal \<Rightarrow> bool" where
  "renewal_invalid r \<longleftrightarrow>
     \<not> validateScope (lr_Scope r) \<or> \<not> validSessionID (lr_SessionID r) \<or> \<not> validRuntimeLeaseID (lr_RuntimeSessionID r) \<or>
     \<not> scopeAllowsBranch (lr_Scope r) (lr_ExpectedBranchID r) \<or>
     lr_ExpectedLeaseExpiresAt r = zero_time \<or> lr_ExpectedExpiresAt r = zero_time \<or> lr_RenewedAt r = zero_time \<or>
     lr_LeaseDuration r \<le> 0 \<or> lr_LeaseDuration r > minutes 5 \<or>
     \<not> lr_ExpectedLeaseExpiresAt r > lr_RenewedAt r \<or> epoch (lr_ExpectedExpiresAt r) \<le> epoch (lr_RenewedAt r)"

text \<open>The lease a renewal asks for: its duration from now, cut at the whole second the session expires.\<close>

definition renewed_lease :: "lease_renewal \<Rightarrow> instant" where
  "renewed_lease r =
     (let productExpiresAt = Unix (epoch (lr_ExpectedExpiresAt r)); lease = lr_RenewedAt r + lr_LeaseDuration r
      in if lease > productExpiresAt then productExpiresAt else lease)"

definition RenewLease :: "dynamo_store \<Rightarrow> lease_renewal \<Rightarrow> vdb \<Rightarrow> vsession outcome" where
  "RenewLease d r s =
     (if \<not> validate_store d then (Inl ErrUnavailable, s)
      else if renewal_invalid r then (Inl ErrInvalidRequest, s)
      else if lr_ExpectedLeaseExpiresAt r > Unix (epoch (lr_ExpectedExpiresAt r)) then (Inl ErrInvalidRequest, s)
      else if \<not> renewed_lease r > lr_ExpectedLeaseExpiresAt r then (Inl ErrLeaseNotRenewable, s)
      else case update_item (on_session (lr_SessionID r) (renew_cond r (renewed_lease r)))
                  (set_item (lr_SessionID r) (renew_item r (renewed_lease r))) s of
             (Refused _, s1) \<Rightarrow> (Inl ErrLeaseNotRenewable, s1)
           | (CallFailed, s1) \<Rightarrow> (Inl ErrUnavailable, s1)
           | (Done, s1) \<Rightarrow>
               (case vd_items s1 (lr_SessionID r) of
                  None \<Rightarrow> (Inl ErrUnavailable, s1)
                | Some it \<Rightarrow> if validRenewedLease (it_session it) r (renewed_lease r) then (Inr (it_session it), s1)
                             else (Inl ErrUnavailable, s1)))"

section \<open>Releasing and closing\<close>

definition released_session :: "vsession \<Rightarrow> instant \<Rightarrow> vsession" where
  "released_session v now = v\<lparr>vs_Status := VClosing, vs_CapacityReleased := True, vs_UpdatedAt := now\<rparr>"

definition Release :: "dynamo_store \<Rightarrow> scope \<Rightarrow> string \<Rightarrow> instant \<Rightarrow> vdb \<Rightarrow> (vsession \<times> release_state) outcome" where
  "Release d sc sid now s =
     (case store_Get d sc sid s of
        (Inl e, s1) \<Rightarrow> (Inl e, s1)
      | (Inr stored, s1) \<Rightarrow>
          (case vs_Status stored of
             VClosed \<Rightarrow> (Inr (stored, no_release\<lparr>rs_AlreadyClosed := True\<rparr>), s1)
           | VClosing \<Rightarrow> (Inr (stored, no_release\<lparr>rs_ShouldStop := True\<rparr>), s1)
           | VActive \<Rightarrow>
               (case transact_write (release_failed sc stored None) (release_write sc stored now) s1 of
                  (Done, s2) \<Rightarrow> (Inr (released_session stored now, no_release\<lparr>rs_Released := True, rs_ShouldStop := True\<rparr>), s2)
                | (_, s2) \<Rightarrow>
                    (case store_Get d sc sid s2 of
                       (Inl e, s3) \<Rightarrow> (Inl e, s3)
                     | (Inr current, s3) \<Rightarrow>
                         if vs_Status current = VClosed then (Inr (current, no_release\<lparr>rs_AlreadyClosed := True\<rparr>), s3)
                         else if vs_Status current = VClosing \<and> vs_CapacityReleased current
                         then (Inr (current, no_release\<lparr>rs_ShouldStop := True\<rparr>), s3)
                         else (Inl ErrProvider, s3)))
           | _ \<Rightarrow> (Inl ErrNotResumable, s1)))"

definition sessionScope :: "vsession \<Rightarrow> scope" where
  "sessionScope v =
     \<lparr>sc_UserID = vs_UserID v, sc_BusinessID = vs_BusinessID v, sc_AllBranches = False, sc_AllowBranchless = (vs_BranchID v = []),
      sc_AllowedBranchIDs = (if vs_BranchID v = [] then [] else [vs_BranchID v])\<rparr>"

definition classifyExpiredRelease :: "vsession \<Rightarrow> instant \<Rightarrow> instant \<Rightarrow> (vsession \<times> release_state) option" where
  "classifyExpiredRelease current lease cutoff =
     (case vs_Status current of
        VClosed \<Rightarrow> Some (current, no_release\<lparr>rs_AlreadyClosed := True\<rparr>)
      | VClosing \<Rightarrow> if vs_CapacityReleased current then Some (current, no_release\<lparr>rs_ShouldStop := True\<rparr>) else None
      | VActive \<Rightarrow> if vs_LeaseExpiresAt current \<noteq> lease \<or> vs_LeaseExpiresAt current > cutoff
                   then Some (current, no_release\<lparr>rs_LeaseRenewed := True\<rparr>) else None
      | _ \<Rightarrow> None)"

text \<open>
  \<open>ReleaseExpired\<close> in the two parts between which other clients get in: up to the first read, which
  answers or passes on the session as it was read, and the conditional write with what follows it.
\<close>

definition ReleaseExpired_read ::
  "dynamo_store \<Rightarrow> vsession \<Rightarrow> instant \<Rightarrow> vdb \<Rightarrow> ((vsession \<times> release_state) + vsession) outcome"
where
  "ReleaseExpired_read d candidate cutoff s =
     (if \<not> validate_store d then (Inl ErrUnavailable, s)
      else if vs_UserID candidate = [] \<or> vs_BusinessID candidate = [] \<or> \<not> validSessionID (vs_ID candidate) \<or>
              vs_LeaseExpiresAt candidate = zero_time \<or> vs_LeaseExpiresAt candidate > cutoff
      then (Inl ErrInvalidRequest, s)
      else case store_Get d (sessionScope candidate) (vs_ID candidate) s of
             (Inl e, s1) \<Rightarrow> (Inl e, s1)
           | (Inr current, s1) \<Rightarrow>
               (Inr (case classifyExpiredRelease current (vs_LeaseExpiresAt candidate) cutoff of
                       Some res \<Rightarrow> Inl res | None \<Rightarrow> Inr current), s1))"

definition ReleaseExpired_write ::
  "dynamo_store \<Rightarrow> vsession \<Rightarrow> instant \<Rightarrow> vsession \<Rightarrow> vdb \<Rightarrow> (vsession \<times> release_state) outcome"
where
  "ReleaseExpired_write d candidate cutoff current s =
     (let sc = sessionScope candidate; lease = vs_LeaseExpiresAt candidate in
      case transact_write (release_failed sc current (Some (lease, cutoff))) (release_write sc current cutoff) s of
        (Done, s2) \<Rightarrow> (Inr (released_session current cutoff, no_release\<lparr>rs_Released := True, rs_ShouldStop := True\<rparr>), s2)
      | (_, s2) \<Rightarrow>
          (case store_Get d sc (vs_ID candidate) s2 of
             (Inl e, s3) \<Rightarrow> (Inl e, s3)
           | (Inr latest, s3) \<Rightarrow>
               (case classifyExpiredRelease latest lease cutoff of
                  Some res \<Rightarrow> (Inr res, s3)
                | None \<Rightarrow> (Inl ErrProvider, s3))))"

definition ReleaseExpired :: "dynamo_store \<Rightarrow> vsession \<Rightarrow> instant \<Rightarrow> vdb \<Rightarrow> (vsession \<times> release_state) outcome" where
  "ReleaseExpired d candidate cutoff s =
     (case ReleaseExpired_read d candidate cutoff s of
        (Inl e, s1) \<Rightarrow> (Inl e, s1)
      | (Inr (Inl res), s1) \<Rightarrow> (Inr res, s1)
      | (Inr (Inr current), s1) \<Rightarrow> ReleaseExpired_write d candidate cutoff current s1)"

lemmas ReleaseExpired_parts = ReleaseExpired_def ReleaseExpired_read_def ReleaseExpired_write_def

definition MarkClosed :: "dynamo_store \<Rightarrow> scope \<Rightarrow> string \<Rightarrow> string \<Rightarrow> instant \<Rightarrow> vdb \<Rightarrow> unit outcome" where
  "MarkClosed d sc sid branch now s =
     (if \<not> scopeAllowsBranch sc branch then (Inl ErrNotFound, s)
      else case update_item (on_session sid (close_cond sc branch)) (set_item sid (close_item now)) s of
             (Done, s1) \<Rightarrow> (Inr (), s1)
           | (CallFailed, s1) \<Rightarrow> (Inl ErrProvider, s1)
           | (Refused _, s1) \<Rightarrow>
               (case store_Get d sc sid s1 of
                  (Inl e, s2) \<Rightarrow> (Inl e, s2)
                | (Inr current, s2) \<Rightarrow> if vs_Status current = VClosed then (Inr (), s2) else (Inl ErrProvider, s2)))"

section \<open>Expired leases\<close>

text \<open>
  The paged query of the lease index. The index is read with eventual consistency, so a page is
  whatever the service answers to a cursor and a page size: an error, or items (decoded, or not
  decodable) and the cursor of the next page. The loop also returns the number of its queries.
\<close>

type_synonym 'c lease_query = "'c option \<Rightarrow> nat \<Rightarrow> (vsession option list \<times> 'c option) option"

fun append_items :: "nat \<Rightarrow> vsession list \<Rightarrow> vsession option list \<Rightarrow> vsession list option" where
  "append_items limit values [] = Some values"
| "append_items limit values (i # is) =
     (if length values = limit then Some values
      else case i of None \<Rightarrow> None | Some v \<Rightarrow> append_items limit (values @ [v]) is)"

function lease_pages :: "'c lease_query \<Rightarrow> nat \<Rightarrow> nat \<Rightarrow> vsession list \<Rightarrow> 'c option \<Rightarrow> nat \<times> (voice_error + vsession list)" where
  "lease_pages query limit page values cursor =
     (if length values < limit \<and> page < limit then
        (case query cursor (limit - length values) of
           None \<Rightarrow> (page + 1, Inl ErrProvider)
         | Some (items, next) \<Rightarrow>
             (case append_items limit values items of
                None \<Rightarrow> (page + 1, Inl ErrProvider)
              | Some values' \<Rightarrow>
                  (case next of
                     None \<Rightarrow> (page + 1, Inr values')
                   | Some c \<Rightarrow> lease_pages query limit (page + 1) values' (Some c))))
      else (page, if length values < limit \<and> cursor \<noteq> None then Inl ErrUnavailable else Inr values))"
  by pat_completeness auto
termination
  by (relation "measure (\<lambda>(q, limit, page, v, c). limit - page)") auto

declare lease_pages.simps [simp del]

definition ExpiredLeases :: "dynamo_store \<Rightarrow> (instant \<Rightarrow> 'c lease_query) \<Rightarrow> instant \<Rightarrow> int \<Rightarrow> nat \<times> (voice_error + vsession list)" where
  "ExpiredLeases d query before limit =
     (if \<not> validate_store d then (0, Inl ErrUnavailable)
      else lease_pages (query before) (if limit \<le> 0 \<or> limit > 100 then 100 else nat limit) 0 [] None)"

section \<open>Final turns\<close>

definition lookupFinalTurnHash :: "string \<Rightarrow> int \<Rightarrow> vdb \<Rightarrow> string option outcome" where
  "lookupFinalTurnHash sid sequence s =
     (case get_item (\<lambda>x. vd_turns x (sid, sequence)) s of
        (Inl e, s1) \<Rightarrow> (Inl e, s1)
      | (Inr None, s1) \<Rightarrow> (Inr None, s1)
      | (Inr (Some i), s1) \<Rightarrow>
          if length (ti_ContentHash i) \<noteq> 64 then (Inl ErrFinalTurnConflict, s1) else (Inr (Some (ti_ContentHash i)), s1))"

definition PersistFinalTurn :: "dynamo_store \<Rightarrow> final_turn \<Rightarrow> vdb \<Rightarrow> unit outcome" where
  "PersistFinalTurn d t s =
     (if \<not> validate_store d then (Inl ErrUnavailable, s)
      else if \<not> validateFinalTurn t then (Inl ErrInvalidFinalTurn, s)
      else (let i = marshalFinalTurn t in
            case transact_write (turn_failed t) (turn_write i) s of
              (Done, s1) \<Rightarrow> (Inr (), s1)
            | (res, s1) \<Rightarrow>
                (case lookupFinalTurnHash (ft_SessionID t) (ft_Sequence t) s1 of
                   (Inl e, s2) \<Rightarrow> (Inl e, s2)
                 | (Inr (Some h), s2) \<Rightarrow> if h = ti_ContentHash i then (Inr (), s2) else (Inl ErrFinalTurnConflict, s2)
                 | (Inr None, s2) \<Rightarrow>
                     (Inl (if cancellationReasonIs res 0 then ErrFinalTurnSequence
                           else if cancellationReasonIs res 1 then ErrFinalTurnConflict else ErrProvider), s2))))"

end
