(* ===== verification/Voice_Service.thy ===== *)
theory Voice_Service
  imports Voice_Operations
begin

text \<open>
  The session service of \<open>internal/voice/session/service.go\<close> over the store, and the lease
  reconciler of \<open>internal/voice/reconciler/handler.go\<close>. The clock readings, the identifier, the
  admission guard, the runtime stopper and \<open>uuid.Parse\<close> are arguments.
\<close>

record runtime_target =
  rt_AgentRuntimeARN :: string
  rt_RuntimeSessionID :: string
  rt_Qualifier :: string

section \<open>Service\<close>

definition new_session :: "voice_config \<Rightarrow> scope \<Rightarrow> create_input \<Rightarrow> instant \<Rightarrow> string \<Rightarrow> vsession" where
  "new_session c sc i now ulid =
     \<lparr>vs_ID = ''voice_'' @ ulid, vs_RuntimeSessionID = ''voice-session-'' @ ulid,
      vs_UserID = sc_UserID sc, vs_BusinessID = sc_BusinessID sc, vs_BranchID = TrimSpace (ci_BranchID i),
      vs_Status = VActive, vs_RuntimeState = RuntimeRunning,
      vs_ProtocolVersion = vc_ProtocolVersion c, vs_KVSChannelIndex = stableChannel (''voice_'' @ ulid) (vc_KVSChannelCount c),
      vs_PreferredLanguage = ci_PreferredLanguage i, vs_FallbackLanguage = ci_FallbackLanguage i, vs_CurrentLanguage = ci_PreferredLanguage i,
      vs_TurnSequence = 0, vs_GenerationID = 0,
      vs_ConsentTranscriptStorage = (ci_TranscriptStorage i = Some True), vs_ConsentAudioRecording = (ci_AudioRecording i = Some True),
      vs_ConsentPolicyVersion = ci_PolicyVersion i, vs_ClientPlatform = ci_Platform i, vs_ClientAppVersion = ci_AppVersion i,
      vs_CreatedAt = now, vs_UpdatedAt = now, vs_LeaseExpiresAt = now + vc_LeaseDuration c,
      vs_ExpiresAt = now + vc_MaxDuration c, vs_RotateAt = now + vc_RotateAfter c,
      vs_ClosedAt = None, vs_CapacityReleased = False, vs_Resumable = False\<rparr>"

definition new_record :: "voice_config \<Rightarrow> scope \<Rightarrow> create_input \<Rightarrow> instant \<Rightarrow> string \<Rightarrow> create_record" where
  "new_record c sc i now ulid =
     \<lparr>cr_Session = new_session c sc i now ulid, cr_IdempotencyKey = ci_IdempotencyKey i,
      cr_RequestHash = canonicalRequestHash i, cr_IdempotencyExpiresAt = now + vc_IdempotencyTTL c\<rparr>"

text \<open>The checks of \<open>Create\<close> before the store, in order; the error of the first that fails.\<close>

definition create_refused ::
  "(string \<Rightarrow> bool) \<Rightarrow> (scope \<Rightarrow> create_input \<Rightarrow> voice_error option) \<Rightarrow> voice_config \<Rightarrow> scope \<Rightarrow> create_input \<Rightarrow> string \<Rightarrow> voice_error option"
where
  "create_refused uuid_ok guard c sc i ulid =
     (if \<not> Enabled c then Some ErrUnavailable
      else if \<not> validateScope sc then Some ErrInvalidRequest
      else case guard sc i of
             Some e \<Rightarrow> Some e
           | None \<Rightarrow>
               if \<not> rolloutAllows c sc then Some ErrRolloutDenied
               else if \<not> validateCreate uuid_ok c i then Some ErrInvalidRequest
               else if \<not> sc_AllBranches sc \<and> TrimSpace (ci_BranchID i) = [] then Some ErrInvalidRequest
               else if \<not> scopeAllowsBranch sc (TrimSpace (ci_BranchID i)) then Some ErrBranchForbidden
               else if length ulid \<noteq> 26 then Some ErrUnavailable
               else if length (''voice-session-'' @ ulid) < 33 \<or> length (''voice-session-'' @ ulid) > 256 then Some ErrUnavailable
               else None)"

definition service_Create where
  "service_Create d uuid_ok guard c sc i now ulid s =
     (case create_refused uuid_ok guard c sc i ulid of
        Some e \<Rightarrow> (Inl e, s)
      | None \<Rightarrow>
          (case store_Create d (new_record c sc i now ulid) s of
             (Inl e, s1) \<Rightarrow> (Inl e, s1)
           | (Inr (stored, _), s1) \<Rightarrow> (Inr (setResumable now stored), s1)))"

definition service_Get :: "dynamo_store \<Rightarrow> voice_config \<Rightarrow> scope \<Rightarrow> string \<Rightarrow> instant \<Rightarrow> vdb \<Rightarrow> vsession outcome" where
  "service_Get d c sc sid now s =
     (if \<not> validateScope sc then (Inl ErrInvalidRequest, s)
      else if \<not> validSessionID sid then (Inl ErrNotFound, s)
      else case store_Get d sc sid s of
             (Inl e, s1) \<Rightarrow> (Inl e, s1)
           | (Inr v, s1) \<Rightarrow>
               (let w = setResumable now v
                in (Inr (if \<not> rolloutAllows c sc then w\<lparr>vs_Resumable := False\<rparr> else w), s1)))"

definition resume_request :: "voice_config \<Rightarrow> scope \<Rightarrow> string \<Rightarrow> vsession \<Rightarrow> instant \<Rightarrow> string \<Rightarrow> resume_record" where
  "resume_request c sc sid stored now newID =
     \<lparr>rr_Scope = sc, rr_SessionID = sid, rr_ExpectedBranchID = vs_BranchID stored, rr_OldRuntimeSessionID = vs_RuntimeSessionID stored,
      rr_ExpectedRuntimeState = vs_RuntimeState stored, rr_ExpectedLeaseExpiresAt = vs_LeaseExpiresAt stored,
      rr_NewRuntimeSessionID = newID, rr_LeaseExpiresAt = boundedLease now (vs_ExpiresAt stored) (vc_LeaseDuration c), rr_UpdatedAt = now\<rparr>"

text \<open>\<open>Resume\<close> reads the clock twice: in \<open>Get\<close> and after it.\<close>

definition service_Resume :: "dynamo_store \<Rightarrow> voice_config \<Rightarrow> scope \<Rightarrow> string \<Rightarrow> instant \<Rightarrow> instant \<Rightarrow> string \<Rightarrow> vdb \<Rightarrow> vsession outcome" where
  "service_Resume d c sc sid now0 now ulid s =
     (case service_Get d c sc sid now0 s of
        (Inl e, s1) \<Rightarrow> (Inl e, s1)
      | (Inr stored, s1) \<Rightarrow>
          if \<not> rolloutAllows c sc then (Inl ErrRolloutDenied, s1)
          else if vs_Status stored \<noteq> VActive \<or> \<not> vs_ExpiresAt stored > now \<or> \<not> vs_LeaseExpiresAt stored > now
          then (Inl ErrNotResumable, s1)
          else if vs_RuntimeState stored = RuntimeStopped \<and> length ulid \<noteq> 26 then (Inl ErrUnavailable, s1)
          else (let newID = if vs_RuntimeState stored = RuntimeStopped then ''voice-session-'' @ ulid else []
                in case store_Resume d (resume_request c sc sid stored now newID) s1 of
                     (Inl e, s2) \<Rightarrow> (Inl e, s2)
                   | (Inr v, s2) \<Rightarrow> (Inr (setResumable now v), s2)))"

text \<open>\<open>Close\<close>; \<open>stopper\<close> is None when the service has none, and says whether the runtime was stopped.\<close>

definition service_Close ::
  "dynamo_store \<Rightarrow> (runtime_target \<Rightarrow> bool) option \<Rightarrow> voice_config \<Rightarrow> scope \<Rightarrow> string \<Rightarrow> instant \<Rightarrow> vdb \<Rightarrow> unit outcome"
where
  "service_Close d stopper c sc sid now s =
     (if \<not> validateScope sc then (Inl ErrInvalidRequest, s)
      else if \<not> validSessionID sid then (Inl ErrNotFound, s)
      else case Release d sc sid now s of
             (Inl e, s1) \<Rightarrow> (Inl e, s1)
           | (Inr (stored, st), s1) \<Rightarrow>
               if rs_AlreadyClosed st \<or> \<not> rs_ShouldStop st then (Inr (), s1)
               else (case stopper of
                       None \<Rightarrow> (Inl ErrUnavailable, s1)
                     | Some stop \<Rightarrow>
                         if \<not> stop \<lparr>rt_AgentRuntimeARN = vc_AgentRuntimeARN c, rt_RuntimeSessionID = vs_RuntimeSessionID stored,
                                    rt_Qualifier = vc_AgentRuntimeQualifier c\<rparr>
                         then (Inl ErrProvider, s1)
                         else MarkClosed d sc sid (vs_BranchID stored) now s1))"

definition service_ExpiredLeases where
  "service_ExpiredLeases d query before limit = ExpiredLeases d query before (if limit \<le> 0 \<or> limit > 100 then 100 else limit)"

section \<open>Reconciler\<close>

record reconcile_result =
  re_Examined :: int
  re_Released :: int
  re_Stopped :: int
  re_Closed :: int
  re_Skipped :: int
  re_Failed :: int

definition no_result :: reconcile_result where
  "no_result = \<lparr>re_Examined = 0, re_Released = 0, re_Stopped = 0, re_Closed = 0, re_Skipped = 0, re_Failed = 0\<rparr>"

definition validCandidate :: "vsession \<Rightarrow> bool" where
  "validCandidate v \<longleftrightarrow>
     HasPrefix (vs_ID v) ''voice_'' \<and> length (vs_ID v) \<le> 96 \<and> TrimSpace (vs_UserID v) \<noteq> [] \<and> TrimSpace (vs_BusinessID v) \<noteq> [] \<and>
     vs_LeaseExpiresAt v \<noteq> zero_time"

definition scopeFor :: "vsession \<Rightarrow> scope" where
  "scopeFor v =
     \<lparr>sc_UserID = vs_UserID v, sc_BusinessID = vs_BusinessID v, sc_AllBranches = (vs_BranchID v = []), sc_AllowBranchless = False,
      sc_AllowedBranchIDs = (if vs_BranchID v = [] then [] else [vs_BranchID v])\<rparr>"

definition count_failed :: "reconcile_result \<Rightarrow> reconcile_result" where
  "count_failed r = r\<lparr>re_Failed := re_Failed r + 1\<rparr>"

text \<open>The body of the loop for a candidate that is valid and new, with the result counted so far.\<close>

definition reconcile_candidate ::
  "dynamo_store \<Rightarrow> (runtime_target \<Rightarrow> bool) \<Rightarrow> string \<Rightarrow> string \<Rightarrow> instant \<Rightarrow> vsession \<Rightarrow> reconcile_result \<Rightarrow> vdb \<Rightarrow> reconcile_result \<times> vdb"
where
  "reconcile_candidate d stop arn qualifier cutoff v r s =
     (case ReleaseExpired d v cutoff s of
        (Inl _, s1) \<Rightarrow> (count_failed r, s1)
      | (Inr (current, st), s1) \<Rightarrow>
          if vs_ID current \<noteq> vs_ID v then (count_failed r, s1)
          else if rs_AlreadyClosed st \<or> rs_LeaseRenewed st then (r\<lparr>re_Skipped := re_Skipped r + 1\<rparr>, s1)
          else if \<not> rs_ShouldStop st \<or> TrimSpace (vs_RuntimeSessionID current) = [] then (count_failed r, s1)
          else
            (let r1 = (if rs_Released st then r\<lparr>re_Released := re_Released r + 1\<rparr> else r) in
             if \<not> stop \<lparr>rt_AgentRuntimeARN = arn, rt_RuntimeSessionID = vs_RuntimeSessionID current, rt_Qualifier = qualifier\<rparr>
             then (count_failed r1, s1)
             else
               (let r2 = r1\<lparr>re_Stopped := re_Stopped r1 + 1\<rparr> in
                case MarkClosed d (scopeFor current) (vs_ID current) (vs_BranchID current) cutoff s1 of
                  (Inl _, s2) \<Rightarrow> (count_failed r2, s2)
                | (Inr _, s2) \<Rightarrow> (r2\<lparr>re_Closed := re_Closed r2 + 1\<rparr>, s2))))"

text \<open>
  The loop over the candidates. \<open>ended\<close> holds, for each candidate, whether the context was
  done before it: then the loop returns with what it has counted.
\<close>

fun lease_loop where
  "lease_loop d stop arn qualifier cutoff seen [] ended r s = (r, s)"
| "lease_loop d stop arn qualifier cutoff seen (v # vs) ended r s =
     (if ended \<noteq> [] \<and> hd ended then (r, s)
      else
        (let r1 = r\<lparr>re_Examined := re_Examined r + 1\<rparr> in
         if \<not> validCandidate v then lease_loop d stop arn qualifier cutoff seen vs (tl ended) (count_failed r1) s
         else if vs_ID v \<in> set seen
         then lease_loop d stop arn qualifier cutoff seen vs (tl ended) (r1\<lparr>re_Skipped := re_Skipped r1 + 1\<rparr>) s
         else
           (case reconcile_candidate d stop arn qualifier cutoff v r1 s of
              (r2, s2) \<Rightarrow> lease_loop d stop arn qualifier cutoff (vs_ID v # seen) vs (tl ended) r2 s2)))"

text \<open>
  \<open>Handle\<close>: no result when the context is done at the start or the query fails, else the counts; a
  candidate that was not handled is counted as failed. The first entry of \<open>ended\<close> is the check at
  the start. The metric of recovered sessions is not modelled.
\<close>

definition Handle where
  "Handle d stop arn qualifier query batch cutoff ended s =
     (if ended \<noteq> [] \<and> hd ended then (None, s)
      else case snd (ExpiredLeases d query cutoff batch) of
             Inl _ \<Rightarrow> (None, s)
           | Inr candidates \<Rightarrow>
               (case lease_loop d stop arn qualifier cutoff [] candidates (tl ended) no_result s of (r, s1) \<Rightarrow> (Some r, s1)))"

end
