(* ===== verification/Voice_System.thy ===== *)
theory Voice_System
  imports Voice_Service
begin

text \<open>
  The table under concurrent clients: \<open>voice_write\<close> is one atomic write of the store by any
  request handler, runtime or reconciler, \<open>voice_step\<close> adds the service's own deletion of
  expired items. Any interleaving of operations is a sequence of such steps, and every operation
  is one. Here are the steps, the slots the sessions hold and the well-formedness of items.
\<close>

section \<open>Steps\<close>

text \<open>What every record of \<open>Create\<close> has; its first lease is the configured one, however long.\<close>

definition fresh_record :: "create_record \<Rightarrow> bool" where
  "fresh_record r \<longleftrightarrow>
     vs_Status (cr_Session r) = VActive \<and> vs_RuntimeState (cr_Session r) = RuntimeRunning \<and> \<not> vs_CapacityReleased (cr_Session r) \<and>
     vs_TurnSequence (cr_Session r) = 0 \<and> vs_GenerationID (cr_Session r) = 0 \<and> vs_ClosedAt (cr_Session r) = None"

text \<open>\<open>boundedLease\<close> cuts the lease of a resumption at the expiry of the session.\<close>

definition within_expiry :: "instant \<Rightarrow> vsession \<Rightarrow> bool" where
  "within_expiry lease v \<longleftrightarrow> lease \<le> vs_ExpiresAt v"

inductive voice_write :: "dynamo_store \<Rightarrow> vdb \<Rightarrow> vdb \<Rightarrow> bool" for d where
  w_faults: "voice_write d s (s\<lparr>vd_faults := fs\<rparr>)"
| w_create: "True \<notin> set (create_failed d r s) \<Longrightarrow> fresh_record r \<Longrightarrow> voice_write d s (create_write r s)"
| w_resume: "on_session sid (\<lambda>v. resume_cond r v \<and> within_expiry (rr_LeaseExpiresAt r) v) s \<Longrightarrow>
     voice_write d s (set_item sid (resume_item r) s)"
| w_renew: "on_session sid (renew_cond r (renewed_lease r)) s \<Longrightarrow> voice_write d s (set_item sid (renew_item r (renewed_lease r)) s)"
| w_release: "True \<notin> set (release_failed sc stored expected s) \<Longrightarrow> voice_write d s (release_write sc stored now s)"
| w_close: "on_session sid (close_cond sc branch) s \<Longrightarrow> voice_write d s (set_item sid (close_item now) s)"
| w_turn: "True \<notin> set (turn_failed t s) \<Longrightarrow> validateFinalTurn t \<Longrightarrow> voice_write d s (turn_write (marshalFinalTurn t) s)"

text \<open>The service deletes an item some time after the whole second in its \<open>expires_at\<close> has passed.\<close>

inductive voice_step :: "dynamo_store \<Rightarrow> vdb \<Rightarrow> vdb \<Rightarrow> bool" for d where
  s_write: "voice_write d s s' \<Longrightarrow> voice_step d s s'"
| s_expire_session: "vd_items s sid = Some it \<Longrightarrow> epoch (vs_ExpiresAt (it_session it)) < epoch now \<Longrightarrow>
     voice_step d s (s\<lparr>vd_items := (vd_items s)(sid := None)\<rparr>)"
| s_expire_turn: "vd_turns s k = Some i \<Longrightarrow> ti_ExpiresAt i < epoch now \<Longrightarrow> voice_step d s (s\<lparr>vd_turns := (vd_turns s)(k := None)\<rparr>)"
| s_expire_idem: "vd_idem s k = Some i \<Longrightarrow> ii_ExpiresAt i < epoch now \<Longrightarrow> voice_step d s (s\<lparr>vd_idem := (vd_idem s)(k := None)\<rparr>)"

abbreviation voice_writes :: "dynamo_store \<Rightarrow> vdb \<Rightarrow> vdb \<Rightarrow> bool" where
  "voice_writes d \<equiv> (voice_write d)\<^sup>*\<^sup>*"

abbreviation voice_run :: "dynamo_store \<Rightarrow> vdb \<Rightarrow> vdb \<Rightarrow> bool" where
  "voice_run d \<equiv> (voice_step d)\<^sup>*\<^sup>*"

section \<open>Slots\<close>

text \<open>The sessions that hold a slot, of the users a predicate selects.\<close>

definition holders :: "(string \<Rightarrow> bool) \<Rightarrow> vdb \<Rightarrow> string set" where
  "holders p s = {sid. \<exists>it. vd_items s sid = Some it \<and> \<not> vs_CapacityReleased (it_session it) \<and> p (vs_UserID (it_session it))}"

definition count :: "int option \<Rightarrow> int" where
  "count c = (case c of None \<Rightarrow> 0 | Some n \<Rightarrow> n)"

definition slack_global :: "vdb \<Rightarrow> int" where
  "slack_global s = count (vd_global s) - int (card (holders (\<lambda>_. True) s))"

definition slack_user :: "vdb \<Rightarrow> string \<Rightarrow> int" where
  "slack_user s u = count (vd_user s u) - int (card (holders ((=) u) s))"

lemma holders_dom: "holders p s \<subseteq> dom (vd_items s)"
  by (auto simp: holders_def)

lemma holders_cong: "vd_items s' = vd_items s \<Longrightarrow> holders p s' = holders p s"
  by (simp add: holders_def)

lemma finite_holders: "finite (dom (vd_items s)) \<Longrightarrow> finite (holders p s)"
  by (rule finite_subset [OF holders_dom])

lemma dom_set_item [simp]: "dom (vd_items (set_item sid f s)) = dom (vd_items s)"
  by (auto simp: set_item_def dom_def split: if_splits)

lemma set_item_fields [simp]:
  "vd_global (set_item sid f s) = vd_global s" "vd_user (set_item sid f s) = vd_user s"
  "vd_turns (set_item sid f s) = vd_turns s" "vd_idem (set_item sid f s) = vd_idem s"
  "vd_faults (set_item sid f s) = vd_faults s"
  by (simp_all add: set_item_def)

lemma holders_set_item:
  assumes "\<And>it. vd_items s sid = Some it \<Longrightarrow>
      vs_CapacityReleased (it_session (f it)) = vs_CapacityReleased (it_session it) \<and> vs_UserID (it_session (f it)) = vs_UserID (it_session it)"
  shows "holders p (set_item sid f s) = holders p s"
proof (rule set_eqI)
  fix x
  show "x \<in> holders p (set_item sid f s) \<longleftrightarrow> x \<in> holders p s"
    using assms by (cases "x = sid"; cases "vd_items s x") (auto simp: holders_def set_item_def)
qed

lemma item_updates [simp]:
  "vs_CapacityReleased (it_session (resume_item r it)) = vs_CapacityReleased (it_session it)"
  "vs_UserID (it_session (resume_item r it)) = vs_UserID (it_session it)"
  "vs_CapacityReleased (it_session (renew_item q l it)) = vs_CapacityReleased (it_session it)"
  "vs_UserID (it_session (renew_item q l it)) = vs_UserID (it_session it)"
  "vs_CapacityReleased (it_session (close_item now it)) = vs_CapacityReleased (it_session it)"
  "vs_UserID (it_session (close_item now it)) = vs_UserID (it_session it)"
  "vs_CapacityReleased (it_session (turn_session t it)) = vs_CapacityReleased (it_session it)"
  "vs_UserID (it_session (turn_session t it)) = vs_UserID (it_session it)"
  by (simp_all add: resume_item_def renew_item_def close_item_def turn_session_def Let_def)

lemma holders_create:
  assumes "vd_items s (vs_ID (cr_Session r)) = None" and "fresh_record r"
  shows "holders p (create_write r s) =
    (if p (vs_UserID (cr_Session r)) then insert (vs_ID (cr_Session r)) (holders p s) else holders p s)"
    and "vs_ID (cr_Session r) \<notin> holders p s"
  using assms by (auto simp: holders_def create_write_def Let_def marshalSession_def fresh_record_def)

lemma holders_release:
  assumes "vd_items s (vs_ID stored) = Some it"
  shows "holders p (release_write sc stored now s) = holders p s - {vs_ID stored}"
  using assms by (auto simp: holders_def release_write_def set_item_def release_item_def)

lemma holder_mem:
  assumes "vd_items s sid = Some it" and "\<not> vs_CapacityReleased (it_session it)"
  shows "sid \<in> holders p s \<longleftrightarrow> p (vs_UserID (it_session it))"
  using assms by (auto simp: holders_def)

text \<open>The facts of a successful create and a successful release.\<close>

lemma create_ok:
  assumes "True \<notin> set (create_failed d r s)"
  shows "vd_items s (vs_ID (cr_Session r)) = None"
    "vd_idem s (idempotencyPK (vs_UserID (cr_Session r)) (cr_IdempotencyKey r)) = None"
    "increment_allowed (vd_global s) (ds_GlobalCapacityLimit d)"
    "increment_allowed (vd_user s (vs_UserID (cr_Session r))) (ds_PerUserCapacityLimit d)"
  using assms by (auto simp: create_failed_def)

lemma release_ok:
  assumes "True \<notin> set (release_failed sc stored expected s)"
  obtains it where "vd_items s (vs_ID stored) = Some it" "release_cond sc (vs_BranchID stored) expected (it_session it)"
    "decrement_allowed (vd_global s)" "decrement_allowed (vd_user s (sc_UserID sc))"
  using assms by (auto simp: release_failed_def on_session_def split: option.splits)

lemma count_simps:
  "capacityIncrement c = count c + 1" "decrement_allowed c \<Longrightarrow> count (capacityDecrement c) = count c - 1"
  by (auto simp: count_def capacityIncrement_def capacityDecrement_def decrement_allowed_def split: option.splits)

lemma create_write_fields [simp]:
  "vd_global (create_write r s) = Some (count (vd_global s) + 1)"
  "vd_user (create_write r s) u =
     (if u = vs_UserID (cr_Session r) then Some (count (vd_user s u) + 1) else vd_user s u)"
  "dom (vd_items (create_write r s)) = insert (vs_ID (cr_Session r)) (dom (vd_items s))"
  by (auto simp: create_write_def Let_def count_simps)

lemma release_write_fields [simp]:
  "vd_global (release_write sc stored now s) = capacityDecrement (vd_global s)"
  "vd_user (release_write sc stored now s) u =
     (if u = sc_UserID sc then capacityDecrement (vd_user s u) else vd_user s u)"
  "dom (vd_items (release_write sc stored now s)) = dom (vd_items s)"
  by (simp_all add: release_write_def)

lemma turn_write_fields [simp]:
  "vd_global (turn_write i s) = vd_global s" "vd_user (turn_write i s) = vd_user s" "dom (vd_items (turn_write i s)) = dom (vd_items s)"
  by (simp_all add: turn_write_def Let_def)

lemma holders_turn [simp]: "holders p (turn_write i s) = holders p s"
proof -
  have "holders p (turn_write i s) = holders p (set_item (ft_SessionID (ti_turn i)) (turn_session (ti_turn i)) s)"
    by (rule holders_cong) (simp add: turn_write_def Let_def)
  then show ?thesis by (simp add: holders_set_item)
qed

lemma finite_items_write: "voice_write d s s' \<Longrightarrow> finite (dom (vd_items s)) \<Longrightarrow> finite (dom (vd_items s'))"
  by (induction rule: voice_write.induct) simp_all

text \<open>A write moves the counters and the holders together.\<close>

lemma write_slack:
  assumes "voice_write d s s'" and "finite (dom (vd_items s))"
  shows "slack_global s' = slack_global s \<and> slack_user s' u = slack_user s u"
  using assms
proof (induction rule: voice_write.induct)
  case (w_faults s fs)
  have "holders p (s\<lparr>vd_faults := fs\<rparr>) = holders p s" for p by (rule holders_cong) simp
  then show ?case by (simp add: slack_global_def slack_user_def)
next
  case (w_create r s)
  note c = create_ok [OF w_create(1)] and h = holders_create [OF create_ok(1) [OF w_create(1)] w_create(2)]
  have "finite (holders p s)" for p by (rule finite_holders [OF w_create(3)])
  then show ?case by (auto simp: slack_global_def slack_user_def h count_def)
next
  case (w_release sc stored expected s now)
  obtain it where it: "vd_items s (vs_ID stored) = Some it" "release_cond sc (vs_BranchID stored) expected (it_session it)"
    "decrement_allowed (vd_global s)" "decrement_allowed (vd_user s (sc_UserID sc))"
    using release_ok [OF w_release(1)] .
  have u: "vs_UserID (it_session it) = sc_UserID sc" and nr: "\<not> vs_CapacityReleased (it_session it)"
    using it(2) by (simp_all add: release_cond_def)
  have f: "finite (holders p s)" for p by (rule finite_holders [OF w_release(2)])
  have c: "int (card (holders p s - {vs_ID stored})) = int (card (holders p s)) - (if p (sc_UserID sc) then 1 else 0)" for p
  proof (cases "p (sc_UserID sc)")
    case True
    then have m: "vs_ID stored \<in> holders p s" using holder_mem [OF it(1) nr] u by simp
    then have "0 < card (holders p s)" using f card_gt_0_iff by blast
    with True m show ?thesis by (simp add: card_Diff_singleton of_nat_diff)
  next
    case False
    then have "vs_ID stored \<notin> holders p s" using holder_mem [OF it(1) nr] u by simp
    with False show ?thesis by simp
  qed
  show ?case using it(3,4)
    by (auto simp: slack_global_def slack_user_def holders_release [OF it(1)] c count_simps)
qed (simp_all add: slack_global_def slack_user_def holders_set_item)

lemma step_slack:
  assumes "voice_step d s s'" and "finite (dom (vd_items s))"
  shows "finite (dom (vd_items s')) \<and> slack_global s \<le> slack_global s' \<and> slack_user s u \<le> slack_user s' u"
  using assms
proof (induction rule: voice_step.induct)
  case (s_write s s')
  then show ?case using write_slack [of d s s' u] finite_items_write by auto
next
  case (s_expire_session s sid it now)
  have h: "holders p (s\<lparr>vd_items := (vd_items s)(sid := None)\<rparr>) = holders p s - {sid}" for p by (auto simp: holders_def)
  have "card (holders p s - {sid}) \<le> card (holders p s)" for p by (simp add: card_Diff1_le finite_holders [OF s_expire_session(3)])
  moreover have "finite (dom ((vd_items s)(sid := None)))"
    using s_expire_session(3) by (rule rev_finite_subset) (auto simp: dom_def split: if_splits)
  ultimately show ?case by (simp add: slack_global_def slack_user_def h del: fun_upd_apply)
next
  case (s_expire_turn s k i now)
  have "holders p (s\<lparr>vd_turns := (vd_turns s)(k := None)\<rparr>) = holders p s" for p by (rule holders_cong) simp
  then show ?case using s_expire_turn by (simp add: slack_global_def slack_user_def)
next
  case (s_expire_idem s k i now)
  have "holders p (s\<lparr>vd_idem := (vd_idem s)(k := None)\<rparr>) = holders p s" for p by (rule holders_cong) simp
  then show ?case using s_expire_idem by (simp add: slack_global_def slack_user_def)
qed

end
