(* ===== verification/Voice_Invariants.thy ===== *)
theory Voice_Invariants
  imports Voice_System
begin

text \<open>
  What the writes keep. Two interfaces carry the proofs: \<open>item_law\<close>, a relation every write
  establishes between a session item before and after, and \<open>item_invariant\<close>, a property of items
  that such a relation preserves. They are interpreted on the lifecycle of a session and on the
  well-formedness of items. Then the limits of the counters and the sequence of final turns.
\<close>

section \<open>Laws of items\<close>

definition every_item :: "(session_item \<Rightarrow> bool) \<Rightarrow> vdb \<Rightarrow> bool" where
  "every_item P s \<longleftrightarrow> (\<forall>sid it. vd_items s sid = Some it \<longrightarrow> P it)"

locale item_law =
  fixes R :: "session_item \<Rightarrow> session_item \<Rightarrow> bool"
  assumes refl: "R it it"
    and trans: "R it it' \<Longrightarrow> R it' it'' \<Longrightarrow> R it it''"
    and resume: "resume_cond r (it_session it) \<Longrightarrow> within_expiry (rr_LeaseExpiresAt r) (it_session it) \<Longrightarrow> R it (resume_item r it)"
    and renew: "renew_cond q (renewed_lease q) (it_session it) \<Longrightarrow> R it (renew_item q (renewed_lease q) it)"
    and release: "release_cond sc branch expected (it_session it) \<Longrightarrow> R it (release_item now it)"
    and close: "close_cond sc branch (it_session it) \<Longrightarrow> R it (close_item now it)"
    and turn: "turn_cond t (it_session it) \<Longrightarrow> validateFinalTurn t \<Longrightarrow> R it (turn_session t it)"
begin

lemma on_item:
  assumes "vd_items s x = Some it" and "on_session sid c s" and "\<And>it. c (it_session it) \<Longrightarrow> R it (f it)"
  shows "\<exists>it'. vd_items (set_item sid f s) x = Some it' \<and> R it it'"
  using assms refl by (cases "x = sid") (auto simp: on_session_def set_item_def)

lemma write_law:
  assumes "voice_write d s s'" and "vd_items s x = Some it"
  shows "\<exists>it'. vd_items s' x = Some it' \<and> R it it'"
  using assms
proof (induction rule: voice_write.induct)
  case (w_faults s fs)
  then show ?case using refl by auto
next
  case (w_create r s)
  have "x \<noteq> vs_ID (cr_Session r)" using create_ok(1) [OF w_create(1)] w_create(3) by auto
  with w_create(3) show ?case using refl by (auto simp: create_write_def Let_def)
next
  case (w_resume sid r s)
  then show ?case by (intro on_item [where c = "\<lambda>v. resume_cond r v \<and> within_expiry (rr_LeaseExpiresAt r) v"]) (auto intro: resume)
next
  case (w_renew sid r s)
  then show ?case by (intro on_item [where c = "renew_cond r (renewed_lease r)"]) (auto intro: renew)
next
  case (w_release sc stored expected s now)
  then have "on_session (vs_ID stored) (release_cond sc (vs_BranchID stored) expected) s" by (simp add: release_failed_def)
  with w_release(2) have "\<exists>it'. vd_items (set_item (vs_ID stored) (release_item now) s) x = Some it' \<and> R it it'"
    by (rule on_item) (rule release)
  then show ?case by (simp add: release_write_def)
next
  case (w_close sid sc branch s now)
  then show ?case by (intro on_item [where c = "close_cond sc branch"]) (auto intro: close)
next
  case (w_turn t s)
  then have "on_session (ft_SessionID t) (turn_cond t) s" by (simp add: turn_failed_def)
  with w_turn(3) have "\<exists>it'. vd_items (set_item (ft_SessionID t) (turn_session t) s) x = Some it' \<and> R it it'"
    by (rule on_item) (rule turn [OF _ w_turn(2)])
  then show ?case by (simp add: turn_write_def Let_def)
qed

lemma writes_law:
  assumes "voice_writes d s s'" and "vd_items s x = Some it"
  shows "\<exists>it'. vd_items s' x = Some it' \<and> R it it'"
  using assms
proof (induction rule: rtranclp_induct)
  case base
  then show ?case using refl by blast
next
  case (step s1 s2)
  then obtain it1 where "vd_items s1 x = Some it1" "R it it1" by blast
  with write_law [OF step(2)] trans show ?case by blast
qed

end

text \<open>A property of items that holds of new ones and is kept by a law holds of all.\<close>

locale item_invariant = item_law +
  fixes P :: "session_item \<Rightarrow> bool"
  assumes fresh: "fresh_record r \<Longrightarrow> P (marshalSession (cr_Session r))"
    and kept: "R it it' \<Longrightarrow> P it \<Longrightarrow> P it'"
begin

lemma write_items:
  assumes "voice_write d s s'" and "every_item P s"
  shows "every_item P s'"
proof -
  have new: "vd_items s sid \<noteq> None \<or> P it" if "vd_items s' sid = Some it" for sid it
    using assms(1) that
  proof (induction rule: voice_write.induct)
    case (w_create r s)
    then show ?case by (auto simp: create_write_def Let_def fresh split: if_splits)
  qed (auto simp: set_item_def release_write_def turn_write_def Let_def split: if_splits)
  show ?thesis unfolding every_item_def
  proof (intro allI impI)
    fix sid it assume it: "vd_items s' sid = Some it"
    show "P it"
    proof (cases "vd_items s sid")
      case None
      with new [OF it] show ?thesis by simp
    next
      case (Some it0)
      with write_law [OF assms(1) Some] it have "R it0 it" by auto
      with assms(2) Some kept show ?thesis by (auto simp: every_item_def)
    qed
  qed
qed

lemma step_items: "voice_step d s s' \<Longrightarrow> every_item P s \<Longrightarrow> every_item P s'"
  by (erule voice_step.cases) (auto simp: every_item_def write_items [unfolded every_item_def] split: if_splits)

lemma run_items: "voice_run d s s' \<Longrightarrow> every_item P s \<Longrightarrow> every_item P s'"
  by (induction rule: rtranclp_induct) (auto intro: step_items)

lemma run_from_empty:
  assumes "voice_run d (empty_vdb fs) s" and "vd_items s sid = Some it"
  shows "P it"
proof -
  have "every_item P (empty_vdb fs)" by (simp add: every_item_def empty_vdb_def)
  with run_items [OF assms(1)] assms(2) show ?thesis by (simp add: every_item_def)
qed

end

section \<open>Lifecycle\<close>

fun rank :: "voice_status \<Rightarrow> nat" where
  "rank VActive = 0" | "rank VClosing = 1" | "rank VClosed = 2" | "rank VFailed = 3" | "rank VExpired = 3"

text \<open>
  What never changes about a session, what only grows, and that a closed one is left alone; only
  an active session's lease, turns and generations move, and a lease that moves ends no later
  than the session.
\<close>

definition lease_bounded :: "vsession \<Rightarrow> vsession \<Rightarrow> bool" where
  "lease_bounded v w \<longleftrightarrow> vs_LeaseExpiresAt w = vs_LeaseExpiresAt v \<or> vs_LeaseExpiresAt w \<le> vs_ExpiresAt w"

definition evolves :: "session_item \<Rightarrow> session_item \<Rightarrow> bool" where
  "evolves it it' =
     (let v = it_session it; w = it_session it' in
      vs_ID w = vs_ID v \<and> vs_UserID w = vs_UserID v \<and> vs_BusinessID w = vs_BusinessID v \<and> vs_BranchID w = vs_BranchID v \<and>
      vs_ConsentTranscriptStorage w = vs_ConsentTranscriptStorage v \<and> vs_CreatedAt w = vs_CreatedAt v \<and> vs_ExpiresAt w = vs_ExpiresAt v \<and>
      rank (vs_Status v) \<le> rank (vs_Status w) \<and> vs_TurnSequence v \<le> vs_TurnSequence w \<and> vs_GenerationID v \<le> vs_GenerationID w \<and>
      (vs_CapacityReleased v \<longrightarrow> vs_CapacityReleased w) \<and>
      lease_bounded v w \<and>
      (vs_Status v \<noteq> VActive \<longrightarrow> vs_TurnSequence w = vs_TurnSequence v \<and> vs_LeaseExpiresAt w = vs_LeaseExpiresAt v) \<and>
      (vs_Status v = VClosed \<longrightarrow> it' = it))"

lemma renewed_lease_le: "renewed_lease q \<le> Unix (epoch (lr_ExpectedExpiresAt q))"
  by (simp add: renewed_lease_def Let_def)

lemma whole_second: "Unix (epoch x) \<le> x"
  by (simp add: Unix_def epoch_def nsPerSecond_def)

lemma lease_bounded_same: "vs_LeaseExpiresAt w = vs_LeaseExpiresAt v \<Longrightarrow> lease_bounded v w"
  by (simp add: lease_bounded_def)

lemma lease_bounded_trans:
  "lease_bounded a b \<Longrightarrow> lease_bounded b c \<Longrightarrow> vs_ExpiresAt c = vs_ExpiresAt b \<Longrightarrow> lease_bounded a c"
  by (auto simp: lease_bounded_def)

lemma rank_active: "rank a \<le> rank b \<Longrightarrow> a \<noteq> VActive \<Longrightarrow> b \<noteq> VActive"
  by (cases a) auto

lemma evolves_refl: "evolves it it"
  by (simp add: evolves_def Let_def lease_bounded_same)

lemma evolves_inactive: "evolves a b \<Longrightarrow> vs_Status (it_session a) \<noteq> VActive \<Longrightarrow> vs_Status (it_session b) \<noteq> VActive"
  using rank_active by (simp add: evolves_def Let_def) metis

lemma evolves_lease:
  assumes "evolves a b"
  shows "lease_bounded (it_session a) (it_session b)" "vs_ExpiresAt (it_session b) = vs_ExpiresAt (it_session a)"
  using assms by (simp_all add: evolves_def Let_def)

lemma evolves_closed: "evolves a b \<Longrightarrow> vs_Status (it_session a) = VClosed \<Longrightarrow> b = a"
  by (simp add: evolves_def Let_def)

lemma evolves_trans:
  assumes ab: "evolves a b" and bc: "evolves b c"
  shows "evolves a c"
proof (cases "vs_Status (it_session a) = VClosed")
  case True
  with evolves_closed [OF ab] bc show ?thesis by simp
next
  case False
  note inact = evolves_inactive [OF ab]
  have "lease_bounded (it_session a) (it_session c)"
    by (rule lease_bounded_trans [OF evolves_lease(1) [OF ab] evolves_lease(1) [OF bc] evolves_lease(2) [OF bc]])
  with ab bc False inact show ?thesis
    unfolding evolves_def Let_def by (elim conjE, intro conjI impI) simp_all
qed

interpretation life: item_law evolves
proof (unfold_locales, rule evolves_refl, rule evolves_trans)
  show "resume_cond r (it_session it) \<Longrightarrow> within_expiry (rr_LeaseExpiresAt r) (it_session it) \<Longrightarrow> evolves it (resume_item r it)" for r it
    by (simp add: evolves_def Let_def resume_cond_def resume_item_def within_expiry_def lease_bounded_def)
  show "renew_cond q (renewed_lease q) (it_session it) \<Longrightarrow> evolves it (renew_item q (renewed_lease q) it)" for q it
    using renewed_lease_le [of q] whole_second [of "vs_ExpiresAt (it_session it)"]
    by (auto simp: evolves_def Let_def renew_cond_def renew_item_def lease_bounded_def)
  show "release_cond sc branch expected (it_session it) \<Longrightarrow> evolves it (release_item now it)" for sc branch expected it now
    by (simp add: evolves_def Let_def release_cond_def release_item_def lease_bounded_same)
  show "close_cond sc branch (it_session it) \<Longrightarrow> evolves it (close_item now it)" for sc branch it now
    by (simp add: evolves_def Let_def close_cond_def close_item_def lease_bounded_same)
  show "turn_cond t (it_session it) \<Longrightarrow> validateFinalTurn t \<Longrightarrow> evolves it (turn_session t it)" for t it
    by (simp add: evolves_def Let_def turn_cond_def turn_session_def lease_bounded_same)
qed

section \<open>Well-formed items\<close>

definition item_wf :: "session_item \<Rightarrow> bool" where
  "item_wf it =
     (let v = it_session it in
      vs_Status v \<in> {VActive, VClosing, VClosed} \<and>
      (vs_CapacityReleased v \<longleftrightarrow> vs_Status v \<noteq> VActive) \<and>
      (vs_RuntimeState v = RuntimeStopped \<longleftrightarrow> vs_Status v = VClosed) \<and>
      (vs_ClosedAt v \<noteq> None \<longleftrightarrow> vs_Status v = VClosed) \<and>
      vs_ExpiresAt v = Unix (epoch (vs_ExpiresAt v)) \<and>
      (it_gsi1 it \<noteq> None \<longleftrightarrow> vs_Status v = VActive) \<and>
      (it_gsi2 it = None \<longleftrightarrow> vs_Status v = VClosed) \<and>
      (vs_Status v = VActive \<longrightarrow> it_gsi2 it = Some (vs_LeaseExpiresAt v)) \<and>
      0 \<le> vs_TurnSequence v \<and> 0 \<le> vs_GenerationID v)"

lemma epoch_Unix [simp]: "epoch (Unix n) = n"
  by (simp add: epoch_def Unix_def nsPerSecond_def)

definition keeps_wf :: "session_item \<Rightarrow> session_item \<Rightarrow> bool" where
  "keeps_wf it it' \<longleftrightarrow> (item_wf it \<longrightarrow> item_wf it')"

interpretation wfi: item_invariant keeps_wf item_wf
proof unfold_locales
  show "keeps_wf it it" for it by (simp add: keeps_wf_def)
  show "keeps_wf a b \<Longrightarrow> keeps_wf b c \<Longrightarrow> keeps_wf a c" for a b c by (simp add: keeps_wf_def)
  show "resume_cond r (it_session it) \<Longrightarrow> within_expiry (rr_LeaseExpiresAt r) (it_session it) \<Longrightarrow> keeps_wf it (resume_item r it)" for r it
    by (auto simp: keeps_wf_def item_wf_def Let_def resume_cond_def resume_item_def within_expiry_def)
  show "renew_cond q (renewed_lease q) (it_session it) \<Longrightarrow> keeps_wf it (renew_item q (renewed_lease q) it)" for q it
    by (auto simp: keeps_wf_def item_wf_def Let_def renew_cond_def renew_item_def)
  show "release_cond sc branch expected (it_session it) \<Longrightarrow> keeps_wf it (release_item now it)" for sc branch expected it now
    by (auto simp: keeps_wf_def item_wf_def Let_def release_cond_def release_item_def)
  show "close_cond sc branch (it_session it) \<Longrightarrow> keeps_wf it (close_item now it)" for sc branch it now
    by (auto simp: keeps_wf_def item_wf_def Let_def close_cond_def close_item_def)
  show "turn_cond t (it_session it) \<Longrightarrow> validateFinalTurn t \<Longrightarrow> keeps_wf it (turn_session t it)" for t it
    using valid_turn [of t] by (auto simp: keeps_wf_def item_wf_def Let_def turn_cond_def turn_session_def)
  show "fresh_record r \<Longrightarrow> item_wf (marshalSession (cr_Session r))" for r
    by (auto simp: item_wf_def Let_def fresh_record_def marshalSession_def)
  show "keeps_wf it it' \<Longrightarrow> item_wf it \<Longrightarrow> item_wf it'" for it it' by (simp add: keeps_wf_def)
qed

section \<open>Counters\<close>

definition within_limits :: "dynamo_store \<Rightarrow> vdb \<Rightarrow> bool" where
  "within_limits d s \<longleftrightarrow>
     count (vd_global s) \<le> ds_GlobalCapacityLimit d \<and> (\<forall>u. count (vd_user s u) \<le> ds_PerUserCapacityLimit d)"

lemma increment_le: "increment_allowed c l \<Longrightarrow> 1 \<le> l \<Longrightarrow> count c + 1 \<le> l"
  by (auto simp: increment_allowed_def count_def split: option.splits)

lemma count_some [simp]: "count (Some n) = n" "count None = 0"
  by (simp_all add: count_def)

lemma write_limits:
  assumes "voice_write d s s'" and "within_limits d s" and "1 \<le> ds_GlobalCapacityLimit d" and "1 \<le> ds_PerUserCapacityLimit d"
  shows "within_limits d s'"
  using assms(1,2)
proof (induction rule: voice_write.induct)
  case (w_create r s)
  note c = create_ok [OF w_create(1)]
  show ?case using w_create(3) increment_le [OF c(3) assms(3)] increment_le [OF c(4) assms(4)]
    by (simp add: within_limits_def)
next
  case (w_release sc stored expected s now)
  obtain it where "decrement_allowed (vd_global s)" "decrement_allowed (vd_user s (sc_UserID sc))"
    using release_ok [OF w_release(1)] .
  then have c: "count (capacityDecrement (vd_global s)) = count (vd_global s) - 1"
    "count (capacityDecrement (vd_user s (sc_UserID sc))) = count (vd_user s (sc_UserID sc)) - 1"
    using count_simps(2) by blast+
  have u: "count (vd_user s u) \<le> ds_PerUserCapacityLimit d" for u using w_release(2) by (simp add: within_limits_def)
  have "count (vd_user (release_write sc stored now s) u) \<le> ds_PerUserCapacityLimit d" for u
    using c(2) u [of u] by (cases "u = sc_UserID sc") simp_all
  then show ?case using c(1) w_release(2) by (simp add: within_limits_def del: release_write_fields(2))
qed (simp_all add: within_limits_def)

lemma step_limits:
  assumes "voice_step d s s'" and "within_limits d s" and "1 \<le> ds_GlobalCapacityLimit d" and "1 \<le> ds_PerUserCapacityLimit d"
  shows "within_limits d s'"
  using assms by (cases rule: voice_step.cases) (auto simp: within_limits_def dest: write_limits)

lemma slack_empty: "slack_global (empty_vdb fs) = 0" "slack_user (empty_vdb fs) u = 0" "finite (dom (vd_items (empty_vdb fs)))"
  by (simp_all add: slack_global_def slack_user_def holders_def empty_vdb_def)

lemma run_slack:
  assumes "voice_run d s s'" and "finite (dom (vd_items s))"
  shows "finite (dom (vd_items s')) \<and> slack_global s \<le> slack_global s' \<and> slack_user s u \<le> slack_user s' u"
  using assms(1)
proof (induction rule: rtranclp_induct)
  case (step s1 s2)
  with step_slack [OF step(2), of u] show ?case by linarith
qed (simp add: assms(2))

lemma writes_slack:
  assumes "voice_writes d s s'" and "finite (dom (vd_items s))"
  shows "finite (dom (vd_items s')) \<and> slack_global s' = slack_global s \<and> slack_user s' u = slack_user s u"
  using assms(1)
proof (induction rule: rtranclp_induct)
  case (step s1 s2)
  with write_slack [OF step(2), of u] finite_items_write [OF step(2)] show ?case by simp
qed (simp add: assms(2))

lemma run_limits:
  assumes "voice_run d (empty_vdb fs) s" and "1 \<le> ds_GlobalCapacityLimit d" and "1 \<le> ds_PerUserCapacityLimit d"
  shows "within_limits d s"
  using assms(1)
proof (induction rule: rtranclp_induct)
  case base
  then show ?case using assms(2,3) by (simp add: within_limits_def empty_vdb_def)
next
  case (step s1 s2)
  then show ?case using step_limits assms(2,3) by blast
qed

section \<open>Final turns\<close>

text \<open>
  The turns of a session are numbered from one without a gap up to its turn sequence, and their
  generations increase up to its generation.
\<close>

definition good_turns :: "(int \<rightharpoonup> turn_item) \<Rightarrow> int \<Rightarrow> int \<Rightarrow> bool" where
  "good_turns f m g \<longleftrightarrow>
     0 \<le> m \<and> (\<forall>n. f n \<noteq> None \<longleftrightarrow> 1 \<le> n \<and> n \<le> m) \<and>
     (\<forall>n i. f n = Some i \<longrightarrow> ft_GenerationID (ti_turn i) \<le> g) \<and>
     (\<forall>a b i j. f a = Some i \<longrightarrow> f b = Some j \<longrightarrow> a < b \<longrightarrow> ft_GenerationID (ti_turn i) < ft_GenerationID (ti_turn j))"

definition turns_wf :: "vdb \<Rightarrow> bool" where
  "turns_wf s \<longleftrightarrow>
     (\<forall>sid n. vd_items s sid = None \<longrightarrow> vd_turns s (sid, n) = None) \<and>
     (\<forall>sid it. vd_items s sid = Some it \<longrightarrow>
        good_turns (\<lambda>n. vd_turns s (sid, n)) (vs_TurnSequence (it_session it)) (vs_GenerationID (it_session it)))"

lemma good_turns_none: "good_turns (\<lambda>_. None) 0 g"
  by (auto simp: good_turns_def)

lemma good_turns_extend:
  assumes "good_turns f m g" and "g < ft_GenerationID (ti_turn i)"
  shows "good_turns (f(m + 1 := Some i)) (m + 1) (ft_GenerationID (ti_turn i))"
proof -
  have dom: "f n \<noteq> None \<longleftrightarrow> 1 \<le> n \<and> n \<le> m" and gen: "f n = Some j \<Longrightarrow> ft_GenerationID (ti_turn j) \<le> g" for n j
    using assms(1) by (simp_all add: good_turns_def)
  have new: "f n = Some j \<Longrightarrow> n < m + 1 \<and> ft_GenerationID (ti_turn j) < ft_GenerationID (ti_turn i)" for n j
    using dom [of n] gen [of n j] assms(2) by simp
  show ?thesis unfolding good_turns_def
  proof (intro conjI allI impI)
    show "0 \<le> m + 1" using assms(1) by (simp add: good_turns_def)
    show "(f(m + 1 := Some i)) n \<noteq> None \<longleftrightarrow> 1 \<le> n \<and> n \<le> m + 1" for n
      using dom [of n] assms(1) by (auto simp: good_turns_def)
    show "(f(m + 1 := Some i)) n = Some j \<Longrightarrow> ft_GenerationID (ti_turn j) \<le> ft_GenerationID (ti_turn i)" for n j
      using new [of n j] by (auto split: if_splits)
    show "(f(m + 1 := Some i)) a = Some j \<Longrightarrow> (f(m + 1 := Some i)) b = Some k \<Longrightarrow> a < b \<Longrightarrow>
        ft_GenerationID (ti_turn j) < ft_GenerationID (ti_turn k)" for a b j k
      using new [of a j] new [of b k] assms(1) by (auto simp: good_turns_def split: if_splits)
  qed
qed

text \<open>Writes that leave turns, sequences and generations alone.\<close>

lemma turns_wf_cong:
  assumes "turns_wf s" and "vd_turns s' = vd_turns s"
    and "\<And>sid. map_option (\<lambda>it. (vs_TurnSequence (it_session it), vs_GenerationID (it_session it))) (vd_items s' sid) =
               map_option (\<lambda>it. (vs_TurnSequence (it_session it), vs_GenerationID (it_session it))) (vd_items s sid)"
  shows "turns_wf s'"
  unfolding turns_wf_def
proof (intro conjI allI impI)
  fix sid n assume "vd_items s' sid = None"
  with assms(3) [of sid] have "vd_items s sid = None" by simp
  with assms(1,2) show "vd_turns s' (sid, n) = None" by (simp add: turns_wf_def)
next
  fix sid it assume "vd_items s' sid = Some it"
  with assms(3) [of sid] obtain it0 where "vd_items s sid = Some it0"
    "vs_TurnSequence (it_session it0) = vs_TurnSequence (it_session it)" "vs_GenerationID (it_session it0) = vs_GenerationID (it_session it)"
    by (cases "vd_items s sid") auto
  with assms(1,2) show "good_turns (\<lambda>n. vd_turns s' (sid, n)) (vs_TurnSequence (it_session it)) (vs_GenerationID (it_session it))"
    unfolding turns_wf_def by metis
qed

lemma same_turns [simp]:
  "vs_TurnSequence (it_session (resume_item r it)) = vs_TurnSequence (it_session it)"
  "vs_GenerationID (it_session (resume_item r it)) = vs_GenerationID (it_session it)"
  "vs_TurnSequence (it_session (renew_item q l it)) = vs_TurnSequence (it_session it)"
  "vs_GenerationID (it_session (renew_item q l it)) = vs_GenerationID (it_session it)"
  "vs_TurnSequence (it_session (release_item now it)) = vs_TurnSequence (it_session it)"
  "vs_GenerationID (it_session (release_item now it)) = vs_GenerationID (it_session it)"
  "vs_TurnSequence (it_session (close_item now it)) = vs_TurnSequence (it_session it)"
  "vs_GenerationID (it_session (close_item now it)) = vs_GenerationID (it_session it)"
  by (simp_all add: resume_item_def renew_item_def release_item_def close_item_def Let_def)

lemma write_turns:
  assumes "voice_write d s s'" and "turns_wf s"
  shows "turns_wf s'"
  using assms
proof (induction rule: voice_write.induct)
  case (w_create r s)
  have none: "vd_turns s (vs_ID (cr_Session r), n) = None" for n
    using w_create(3) create_ok(1) [OF w_create(1)] by (simp add: turns_wf_def)
  have "good_turns (\<lambda>n. vd_turns s (vs_ID (cr_Session r), n)) 0 0" by (simp add: none good_turns_none)
  with w_create(2,3) show ?case
    by (auto simp: turns_wf_def create_write_def Let_def marshalSession_def fresh_record_def)
next
  case (w_turn t s)
  let ?sid = "ft_SessionID t"
  obtain it where it: "vd_items s ?sid = Some it" and c: "turn_cond t (it_session it)"
    using w_turn(1) by (auto simp: turn_failed_def on_session_def split: option.splits)
  have old: "good_turns (\<lambda>n. vd_turns s (?sid, n)) (ft_Sequence t - 1) (vs_GenerationID (it_session it))"
    using w_turn(3) it c unfolding turns_wf_def turn_cond_def by metis
  have "good_turns ((\<lambda>n. vd_turns s (?sid, n))(ft_Sequence t := Some (marshalFinalTurn t))) (ft_Sequence t) (ft_GenerationID t)"
    using good_turns_extend [OF old, of "marshalFinalTurn t"] c by (simp add: turn_cond_def)
  moreover have "(\<lambda>n. ((vd_turns s)((?sid, ft_Sequence t) \<mapsto> marshalFinalTurn t)) (?sid, n)) =
      (\<lambda>n. vd_turns s (?sid, n))(ft_Sequence t := Some (marshalFinalTurn t))" by auto
  ultimately have new: "good_turns (\<lambda>n. ((vd_turns s)((?sid, ft_Sequence t) \<mapsto> marshalFinalTurn t)) (?sid, n)) (ft_Sequence t) (ft_GenerationID t)"
    by simp
  show ?case using w_turn(3) it new
    by (auto simp: turns_wf_def turn_write_def Let_def set_item_def turn_session_def split: if_splits)
qed (erule turns_wf_cong;
     simp add: set_item_def release_write_def option.map_comp comp_def)+

lemma writes_turns: "voice_writes d s s' \<Longrightarrow> turns_wf s \<Longrightarrow> turns_wf s'"
  by (induction rule: rtranclp_induct) (auto intro: write_turns)

end
