(* ===== verification/Voice_Runs.thy ===== *)
theory Voice_Runs
  imports Voice_Invariants
begin

text \<open>
  Every operation of the store, the service and the reconciler is a sequence of writes of the
  table, under every schedule of faults; so what the writes keep, the operations keep, however
  they interleave.
\<close>

named_theorems op_runs

lemma next_fault_run [op_runs]: "next_fault s = (f, s1) \<Longrightarrow> voice_writes d s s1"
  by (auto simp: next_fault_def split: list.splits intro: voice_write.w_faults)

lemma get_item_run [op_runs]: "get_item sel s = (x, s1) \<Longrightarrow> voice_writes d s s1"
  by (auto simp: get_item_def split: prod.splits if_splits dest: next_fault_run)

lemma get_item_select: "get_item sel s = (Inr x, s1) \<Longrightarrow> sel s1 = x"
  by (auto simp: get_item_def split: prod.splits if_splits)

lemma transact_write_run:
  assumes "transact_write failed write s = (res, s1)"
    and "\<And>s. True \<notin> set (failed s) \<Longrightarrow> voice_write d s (write s)"
  shows "voice_writes d s s1"
proof -
  obtain f s0 where n: "next_fault s = (f, s0)" by fastforce
  have "s1 = s0 \<or> voice_write d s0 s1" using assms n by (auto simp: transact_write_def split: if_splits)
  with next_fault_run [OF n] show ?thesis by (metis rtranclp.rtrancl_into_rtrancl)
qed

lemma update_item_run:
  assumes "update_item cond write s = (res, s1)" and "\<And>s0. next_fault s = (f, s0) \<Longrightarrow> cond s0 \<Longrightarrow> voice_write d s0 (write s0)"
    and "fst (next_fault s) = f"
  shows "voice_writes d s s1"
proof -
  obtain s0 where n: "next_fault s = (f, s0)" using assms(3) by (metis surjective_pairing)
  have "s1 = s0 \<or> voice_write d s0 s1" using assms(1,2) n by (auto simp: update_item_def split: if_splits)
  with next_fault_run [OF n] show ?thesis by (metis rtranclp.rtrancl_into_rtrancl)
qed

lemma next_fault_items: "next_fault s = (f, s1) \<Longrightarrow> vd_items s1 = vd_items s"
  by (auto simp: next_fault_def split: list.splits)

lemma store_Get_run [op_runs]: "store_Get d sc sid s = (x, s1) \<Longrightarrow> voice_writes d s s1"
  by (auto simp: store_Get_def Let_def split: prod.splits sum.splits option.splits if_splits dest: get_item_run [where d = d])

lemma lookupIdempotency_run [op_runs]: "lookupIdempotency d r s = (x, s1) \<Longrightarrow> voice_writes d s s1"
  by (auto simp: lookupIdempotency_def Let_def split: prod.splits sum.splits option.splits if_splits
      dest!: get_item_run [where d = d] store_Get_run intro: rtranclp_trans)

lemma create_run: "fresh_record r \<Longrightarrow> transact_write (create_failed d r) (create_write r) s = (res, s1) \<Longrightarrow> voice_writes d s s1"
  by (erule transact_write_run) (rule w_create)

lemma release_run: "transact_write (release_failed sc stored expected) (release_write sc stored now) s = (res, s1) \<Longrightarrow> voice_writes d s s1"
  by (erule transact_write_run) (rule w_release)

lemma turn_run:
  "validateFinalTurn t \<Longrightarrow> transact_write (turn_failed t) (turn_write (marshalFinalTurn t)) s = (res, s1) \<Longrightarrow> voice_writes d s s1"
  by (erule transact_write_run) (rule w_turn)

lemma close_run: "update_item (on_session sid (close_cond sc branch)) (set_item sid (close_item now)) s = (res, s1) \<Longrightarrow> voice_writes d s s1"
  by (erule update_item_run) (rule w_close, assumption, rule refl)

lemma renew_run:
  "update_item (on_session sid (renew_cond q (renewed_lease q))) (set_item sid (renew_item q (renewed_lease q))) s = (res, s1) \<Longrightarrow> voice_writes d s s1"
  by (erule update_item_run) (rule w_renew, assumption, rule refl)

lemma resume_run:
  assumes "update_item (on_session sid (resume_cond r)) (set_item sid (resume_item r)) s = (res, s1)"
    and "\<And>it. vd_items s sid = Some it \<Longrightarrow> within_expiry (rr_LeaseExpiresAt r) (it_session it)"
  shows "voice_writes d s s1"
  using assms(1)
proof (rule update_item_run)
  show "voice_write d s0 (set_item sid (resume_item r) s0)"
    if "next_fault s = (fst (next_fault s), s0)" and "on_session sid (resume_cond r) s0" for s0
    using that next_fault_items [OF that(1)] assms(2) by (intro w_resume) (auto simp: on_session_def split: option.splits)
qed simp

lemma store_Create_run [op_runs]: "store_Create d r s = (x, s1) \<Longrightarrow> fresh_record r \<Longrightarrow> voice_writes d s s1"
  by (auto simp: store_Create_def split: prod.splits sum.splits option.splits if_splits api_result.splits
      dest!: create_run [rotated] lookupIdempotency_run intro: rtranclp_trans)

lemma RenewLease_run [op_runs]: "RenewLease d q s = (x, s1) \<Longrightarrow> voice_writes d s s1"
  by (auto simp: RenewLease_def split: prod.splits api_result.splits option.splits if_splits dest!: renew_run [where d = d])

lemma Release_run [op_runs]: "Release d sc sid now s = (x, s1) \<Longrightarrow> voice_writes d s s1"
  by (auto simp: Release_def split: prod.splits sum.splits voice_status.splits api_result.splits if_splits
      dest!: store_Get_run release_run [where d = d] intro: rtranclp_trans)

lemma ReleaseExpired_run [op_runs]: "ReleaseExpired d v cutoff s = (x, s1) \<Longrightarrow> voice_writes d s s1"
  by (auto simp: ReleaseExpired_parts Let_def split: prod.splits sum.splits option.splits api_result.splits if_splits
      dest!: store_Get_run release_run [where d = d] intro: rtranclp_trans)

lemma MarkClosed_run [op_runs]: "MarkClosed d sc sid branch now s = (x, s1) \<Longrightarrow> voice_writes d s s1"
  by (auto simp: MarkClosed_def split: prod.splits sum.splits api_result.splits if_splits
      dest!: store_Get_run close_run [where d = d] intro: rtranclp_trans)

lemma PersistFinalTurn_run [op_runs]: "PersistFinalTurn d t s = (x, s1) \<Longrightarrow> voice_writes d s s1"
  by (auto simp: PersistFinalTurn_def lookupFinalTurnHash_def Let_def
      split: prod.splits sum.splits option.splits api_result.splits if_splits
      dest!: turn_run [where d = d] get_item_run [where d = d] intro: rtranclp_trans)

section \<open>The service\<close>

lemma store_Get_item:
  assumes "store_Get d sc sid s = (Inr v, s1)"
  shows "\<exists>it. vd_items s1 sid = Some it \<and> v = it_session it" "vs_UserID v = sc_UserID sc" "vs_BusinessID v = sc_BusinessID sc"
    "scopeAllowsBranch sc (vs_BranchID v)"
  using assms by (auto simp: store_Get_def Let_def split: prod.splits sum.splits option.splits if_splits dest!: get_item_select)

lemma service_Get_item:
  assumes "service_Get d c sc sid now s = (Inr v, s1)"
  shows "\<exists>it b. vd_items s1 sid = Some it \<and> v = (it_session it)\<lparr>vs_Resumable := b\<rparr>" "vs_UserID v = sc_UserID sc"
    "vs_BusinessID v = sc_BusinessID sc" "scopeAllowsBranch sc (vs_BranchID v)"
proof -
  obtain w b where "store_Get d sc sid s = (Inr w, s1)" "v = w\<lparr>vs_Resumable := b\<rparr>"
    using assms by (auto simp: service_Get_def setResumable_def Let_def split: prod.splits sum.splits if_splits)
  note g = store_Get_item [OF this(1)] and v = this(2)
  show "\<exists>it b. vd_items s1 sid = Some it \<and> v = (it_session it)\<lparr>vs_Resumable := b\<rparr>" using g(1) v by blast
  show "vs_UserID v = sc_UserID sc" "vs_BusinessID v = sc_BusinessID sc" "scopeAllowsBranch sc (vs_BranchID v)"
    using g(2-4) v by simp_all
qed

lemma service_Get_run [op_runs]: "service_Get d c sc sid now s = (x, s1) \<Longrightarrow> voice_writes d s s1"
  by (auto simp: service_Get_def Let_def split: prod.splits sum.splits if_splits dest: store_Get_run)

lemma store_Resume_run:
  assumes "store_Resume d r s = (x, s1)"
    and "\<And>it. vd_items s (rr_SessionID r) = Some it \<Longrightarrow> within_expiry (rr_LeaseExpiresAt r) (it_session it)"
  shows "voice_writes d s s1"
proof -
  have u: "voice_writes d s s0"
    if "update_item (on_session (rr_SessionID r) (resume_cond r)) (set_item (rr_SessionID r) (resume_item r)) s = (res, s0)" for res s0
    using that assms(2) by (rule resume_run)
  show ?thesis using assms(1)
    by (auto simp: store_Resume_def Let_def
        split: prod.splits sum.splits option.splits api_result.splits voice_error.splits if_splits
        dest!: u store_Get_run intro: rtranclp_trans)
qed

lemma service_Resume_run [op_runs]:
  assumes "service_Resume d c sc sid now0 now ulid s = (x, s1)"
  shows "voice_writes d s s1"
proof -
  obtain g s0 where g: "service_Get d c sc sid now0 s = (g, s0)" by fastforce
  have r0: "voice_writes d s s0" using g by (rule service_Get_run)
  have r1: "voice_writes d s0 s2"
    if gv: "g = Inr v" and st: "store_Resume d (resume_request c sc sid v now newID) s0 = (y, s2)" for y s2 v newID
  proof -
    obtain it b where it: "vd_items s0 sid = Some it" "v = (it_session it)\<lparr>vs_Resumable := b\<rparr>"
      using service_Get_item(1) g gv by blast
    from st show ?thesis
      by (rule store_Resume_run) (use it in \<open>simp add: resume_request_def within_expiry_def boundedLease_le\<close>)
  qed
  show ?thesis using assms g r0 r1
    by (auto simp: service_Resume_def Let_def split: prod.splits sum.splits if_splits intro: rtranclp_trans)
qed

lemma new_record_fresh: "fresh_record (new_record c sc i now ulid)"
  by (simp add: fresh_record_def new_record_def new_session_def)

lemma service_Create_run [op_runs]: "service_Create d uuid_ok guard c sc i now ulid s = (x, s1) \<Longrightarrow> voice_writes d s s1"
  using store_Create_run [OF _ new_record_fresh]
  by (auto simp: service_Create_def split: prod.splits sum.splits option.splits)

lemma service_Close_run [op_runs]: "service_Close d stopper c sc sid now s = (x, s1) \<Longrightarrow> voice_writes d s s1"
  by (auto simp: service_Close_def split: prod.splits sum.splits option.splits if_splits
      dest!: Release_run MarkClosed_run intro: rtranclp_trans)

section \<open>The reconciler\<close>

lemma reconcile_candidate_run [op_runs]:
  "reconcile_candidate d stop arn q cutoff v r s = (r', s1) \<Longrightarrow> voice_writes d s s1"
  by (auto simp: reconcile_candidate_def Let_def split: prod.splits sum.splits if_splits
      dest!: ReleaseExpired_run MarkClosed_run intro: rtranclp_trans)

lemma lease_loop_run: "lease_loop d stop arn q cutoff seen vs ended r s = (r', s1) \<Longrightarrow> voice_writes d s s1"
proof (induction vs arbitrary: seen ended r s)
  case (Cons v vs)
  then show ?case
    by (auto simp: Let_def split: prod.splits if_splits dest!: reconcile_candidate_run intro: rtranclp_trans)
qed simp

lemma Handle_run [op_runs]: "Handle d stop arn q query batch cutoff ended s = (r', s1) \<Longrightarrow> voice_writes d s s1"
  by (auto simp: Handle_def split: prod.splits sum.splits if_splits dest: lease_loop_run)

lemma writes_run: "voice_writes d s s' \<Longrightarrow> voice_run d s s'"
  by (induction rule: rtranclp_induct) (auto intro: rtranclp.rtrancl_into_rtrancl s_write)

end
