(* ===== verification/Voice_Retry.thy ===== *)
theory Voice_Retry
  imports Voice_Runs
begin

text \<open>
  Retries: what a final turn or an idempotency record that was written means for a later
  repetition of the same request, when the service answers: a conditional write that is refused
  changes nothing, and a repeated creation finds its record, and its session unless that has expired.
\<close>

section \<open>Refused calls\<close>

definition same_tables :: "vdb \<Rightarrow> vdb \<Rightarrow> bool" where
  "same_tables s s' \<longleftrightarrow> vd_items s' = vd_items s \<and> vd_turns s' = vd_turns s \<and> vd_idem s' = vd_idem s \<and> vd_global s' = vd_global s \<and> vd_user s' = vd_user s"

lemma same_tables_refl [simp]: "same_tables s s"
  by (simp add: same_tables_def)

lemma same_tables_trans: "same_tables s s1 \<Longrightarrow> same_tables s1 s2 \<Longrightarrow> same_tables s s2"
  by (simp add: same_tables_def)

lemma next_fault_same: "next_fault s = (f, s1) \<Longrightarrow> same_tables s s1"
  by (auto simp: next_fault_def same_tables_def split: list.splits)

lemma update_refused:
  assumes "update_item cond write s = (res, s1)" and "\<And>s0. same_tables s s0 \<Longrightarrow> \<not> cond s0"
  shows "res \<noteq> Done \<and> same_tables s s1"
proof -
  obtain f s0 where n: "next_fault s = (f, s0)" by fastforce
  show ?thesis using assms n next_fault_same [OF n] by (auto simp: update_item_def split: if_splits)
qed

lemma transact_refused:
  assumes "transact_write failed write s = (res, s1)" and "\<And>s0. same_tables s s0 \<Longrightarrow> True \<in> set (failed s0)"
  shows "res \<noteq> Done \<and> same_tables s s1"
proof -
  obtain f s0 where n: "next_fault s = (f, s0)" by fastforce
  show ?thesis using assms n next_fault_same [OF n] by (auto simp: transact_write_def split: if_splits)
qed

lemma store_Get_same: "store_Get d sc sid s = (x, s1) \<Longrightarrow> same_tables s s1"
  by (auto simp: store_Get_def get_item_def Let_def split: prod.splits sum.splits option.splits if_splits dest: next_fault_same)

section \<open>What is written stays\<close>

lemma write_keeps_turns: "voice_write d s s' \<Longrightarrow> vd_turns s k = Some i \<Longrightarrow> vd_turns s' k = Some i"
  by (induction rule: voice_write.induct)
     (auto simp: create_write_def release_write_def turn_write_def turn_failed_def Let_def)

lemma writes_keep_turns: "voice_writes d s s' \<Longrightarrow> vd_turns s k = Some i \<Longrightarrow> vd_turns s' k = Some i"
  by (induction rule: rtranclp_induct) (auto intro: write_keeps_turns)

lemma write_keeps_idem: "voice_write d s s' \<Longrightarrow> vd_idem s k = Some i \<Longrightarrow> vd_idem s' k = Some i"
  by (induction rule: voice_write.induct)
     (auto simp: create_write_def create_failed_def release_write_def turn_write_def Let_def)

lemma writes_keep_idem: "voice_writes d s s' \<Longrightarrow> vd_idem s k = Some i \<Longrightarrow> vd_idem s' k = Some i"
  by (induction rule: rtranclp_induct) (auto intro: write_keeps_idem)

text \<open>An item is stored under its own identifier.\<close>

definition keyed :: "vdb \<Rightarrow> bool" where
  "keyed s \<longleftrightarrow> (\<forall>sid it. vd_items s sid = Some it \<longrightarrow> vs_ID (it_session it) = sid)"

lemma keyed_write:
  assumes "voice_write d s s'" and "keyed s"
  shows "keyed s'"
proof -
  have new: "vd_items s sid \<noteq> None \<or> vs_ID (it_session it) = sid" if "vd_items s' sid = Some it" for sid it
    using assms(1) that
    by (induction rule: voice_write.induct)
       (auto simp: create_write_def marshalSession_def set_item_def release_write_def turn_write_def Let_def split: if_splits)
  show ?thesis unfolding keyed_def
  proof (intro allI impI)
    fix sid it assume it: "vd_items s' sid = Some it"
    show "vs_ID (it_session it) = sid"
    proof (cases "vd_items s sid")
      case None
      with new [OF it] show ?thesis by simp
    next
      case (Some it0)
      with life.write_law [OF assms(1) Some] it have "evolves it0 it" by auto
      with assms(2) Some show ?thesis by (auto simp: keyed_def evolves_def Let_def)
    qed
  qed
qed

lemma keyed_run:
  assumes "voice_run d (empty_vdb fs) s"
  shows "keyed s"
  using assms
proof (induction rule: rtranclp_induct)
  case base
  show ?case by (simp add: keyed_def empty_vdb_def)
next
  case (step s1 s2)
  from step(2,3) show ?case
  proof (cases rule: voice_step.cases)
    case s_write
    then show ?thesis using step(3) keyed_write by blast
  qed (auto simp: keyed_def split: if_splits)
qed

section \<open>Calls without faults\<close>

lemma no_fault [simp]:
  assumes "vd_faults s = []"
  shows "next_fault s = (ApiOk, s)" "get_item sel s = (Inr (sel s), s)"
    "transact_write failed write s = (if True \<in> set (failed s) then (Refused (failed s), s) else (Done, write s))"
    "update_item cond write s = (if cond s then (Done, write s) else (Refused [True], s))"
  using assms by (simp_all add: next_fault_def get_item_def transact_write_def update_item_def)

lemma store_Get_found:
  assumes "vd_faults s = []" and "validate_store d" and "vd_items s sid = Some it"
    and "vs_UserID (it_session it) = sc_UserID sc" and "vs_BusinessID (it_session it) = sc_BusinessID sc"
    and "scopeAllowsBranch sc (vs_BranchID (it_session it))"
  shows "store_Get d sc sid s = (Inr (it_session it), s)"
  using assms by (simp add: store_Get_def)

section \<open>Final turns\<close>

definition turn_hash :: "final_turn \<Rightarrow> string" where
  "turn_hash t = ti_ContentHash (marshalFinalTurn t)"

lemma length_turn_hash [simp]: "length (turn_hash t) = 64"
  by (simp add: turn_hash_def marshalFinalTurn_def length_hex_encode)

lemma transact_written:
  assumes "transact_write failed write s = (Done, s1)"
  shows "\<exists>s0. True \<notin> set (failed s0) \<and> s1 = write s0"
proof -
  obtain f s0 where "next_fault s = (f, s0)" by fastforce
  with assms show ?thesis by (auto simp: transact_write_def split: if_splits)
qed

lemma persisted_hash:
  assumes "PersistFinalTurn d t s = (Inr (), s1)"
  shows "\<exists>i. vd_turns s1 (ft_SessionID t, ft_Sequence t) = Some i \<and> ti_ContentHash i = turn_hash t"
proof -
  obtain res s0 where w: "transact_write (turn_failed t) (turn_write (marshalFinalTurn t)) s = (res, s0)" by fastforce
  show ?thesis
  proof (cases "res = Done")
    case True
    with w have "\<exists>s2. s0 = turn_write (marshalFinalTurn t) s2" using transact_written by blast
    with assms w True show ?thesis
      by (auto simp: PersistFinalTurn_def Let_def turn_write_def turn_hash_def split: if_splits)
  next
    case False
    with assms w have "lookupFinalTurnHash (ft_SessionID t) (ft_Sequence t) s0 = (Inr (Some (turn_hash t)), s1)"
      by (auto simp: PersistFinalTurn_def Let_def turn_hash_def
          split: if_splits api_result.splits prod.splits sum.splits option.splits)
    then show ?thesis
      by (auto simp: lookupFinalTurnHash_def split: prod.splits sum.splits option.splits if_splits dest!: get_item_select)
  qed
qed

lemma persisted_valid: "PersistFinalTurn d t s = (Inr (), s1) \<Longrightarrow> validate_store d \<and> validateFinalTurn t"
  by (simp add: PersistFinalTurn_def split: if_splits)

section \<open>Creating\<close>

text \<open>A create request is settled when its idempotency record points to a session of its tenant.\<close>

definition settled :: "create_record \<Rightarrow> string \<Rightarrow> vdb \<Rightarrow> bool" where
  "settled r sid s =
     (case vd_idem s (idempotencyPK (vs_UserID (cr_Session r)) (cr_IdempotencyKey r)) of
        None \<Rightarrow> False
      | Some i \<Rightarrow> ii_RequestHash i = cr_RequestHash r \<and> ii_BusinessID i = vs_BusinessID (cr_Session r) \<and> ii_SessionID i \<noteq> [] \<and>
          (case vd_items s (ii_SessionID i) of
             None \<Rightarrow> False
           | Some it \<Rightarrow> vs_ID (it_session it) = sid \<and> vs_UserID (it_session it) = vs_UserID (cr_Session r) \<and>
               vs_BusinessID (it_session it) = vs_BusinessID (cr_Session r) \<and>
               scopeAllowsBranch (lookup_scope (cr_Session r)) (vs_BranchID (it_session it))))"

lemma lookup_scope_fields [simp]: "sc_UserID (lookup_scope v) = vs_UserID v" "sc_BusinessID (lookup_scope v) = vs_BusinessID v"
  by (simp_all add: lookup_scope_def)

lemma store_Get_tables:
  assumes "store_Get d sc sid s = (x, s1)"
  shows "vd_items s1 = vd_items s" "vd_idem s1 = vd_idem s" "vd_turns s1 = vd_turns s" "vd_global s1 = vd_global s" "vd_user s1 = vd_user s"
  using assms
  by (auto simp: store_Get_def get_item_def next_fault_def Let_def split: prod.splits sum.splits option.splits if_splits list.splits)

lemma lookup_settled:
  assumes "lookupIdempotency d r s = (Inr (Some w), s1)"
  shows "settled r (vs_ID w) s1"
proof -
  let ?v = "cr_Session r"
  obtain i s0 where g: "get_item (\<lambda>x. vd_idem x (idempotencyPK (vs_UserID ?v) (cr_IdempotencyKey r))) s = (Inr (Some i), s0)"
    and ok: "ii_RequestHash i = cr_RequestHash r" "ii_BusinessID i = vs_BusinessID ?v" "ii_SessionID i \<noteq> []"
    and s: "store_Get d (lookup_scope ?v) (ii_SessionID i) s0 = (Inr w, s1)"
    using assms by (auto simp: lookupIdempotency_def Let_def split: prod.splits sum.splits option.splits if_splits)
  have "vd_idem s1 (idempotencyPK (vs_UserID ?v) (cr_IdempotencyKey r)) = Some i"
    using get_item_select [OF g] store_Get_tables(2) [OF s] by simp
  with ok store_Get_item [OF s] show ?thesis by (auto simp: settled_def)
qed

lemma written_settled:
  assumes "vs_ID (cr_Session r) \<noteq> []"
  shows "settled r (vs_ID (cr_Session r)) (create_write r s)"
  using assms by (simp add: settled_def create_write_def Let_def idempotencyItem_def marshalSession_def scopeAllowsBranch_def lookup_scope_def)

lemma created_settled:
  assumes "store_Create d r s = (Inr (v, b), s1)" and "vs_ID (cr_Session r) \<noteq> []"
  shows "settled r (vs_ID v) s1"
proof -
  obtain x s0 where l: "lookupIdempotency d r s = (x, s0)" by fastforce
  show ?thesis
  proof (cases x)
    case (Inl e)
    with assms(1) l show ?thesis by (simp add: store_Create_def split: if_splits)
  next
    case (Inr o')
    show ?thesis
    proof (cases o')
      case (Some w)
      with assms(1) l Inr have "w = v" "s0 = s1" by (simp_all add: store_Create_def split: if_splits)
      with lookup_settled l Inr Some show ?thesis by blast
    next
      case None
      obtain res s2 where t: "transact_write (create_failed d r) (create_write r) s0 = (res, s2)" by fastforce
      show ?thesis
      proof (cases "res = Done")
        case True
        with t have "\<exists>s3. s2 = create_write r s3" using transact_written by blast
        moreover have "v = cr_Session r" "s1 = s2" using assms(1) l Inr None t True by (simp_all add: store_Create_def split: if_splits)
        ultimately show ?thesis using written_settled [OF assms(2)] by auto
      next
        case False
        have "lookupIdempotency d r s2 = (Inr (Some v), s1)"
          using assms(1) l Inr None t False
          by (auto simp: store_Create_def split: if_splits api_result.splits prod.splits sum.splits option.splits)
        then show ?thesis by (rule lookup_settled)
      qed
    qed
  qed
qed

text \<open>What a repeated request is answered while its idempotency record is there.\<close>

lemma repeated_create:
  assumes "vd_idem s (idempotencyPK (vs_UserID (cr_Session r)) (cr_IdempotencyKey r)) = Some i"
    and "ii_RequestHash i = cr_RequestHash r" and "ii_BusinessID i = vs_BusinessID (cr_Session r)" and "ii_SessionID i \<noteq> []"
    and "vd_faults s = []" and "validate_store d"
    and "vs_UserID (cr_Session r') = vs_UserID (cr_Session r)" and "vs_BusinessID (cr_Session r') = vs_BusinessID (cr_Session r)"
    and "vs_BranchID (cr_Session r') = vs_BranchID (cr_Session r)" and "cr_IdempotencyKey r' = cr_IdempotencyKey r"
    and "cr_RequestHash r' = cr_RequestHash r"
  shows "store_Create d r' s =
    (case vd_items s (ii_SessionID i) of
       None \<Rightarrow> (Inl ErrNotFound, s)
     | Some it \<Rightarrow>
         if vs_UserID (it_session it) = vs_UserID (cr_Session r) \<and> vs_BusinessID (it_session it) = vs_BusinessID (cr_Session r) \<and>
            scopeAllowsBranch (lookup_scope (cr_Session r)) (vs_BranchID (it_session it))
         then (Inr (it_session it, False), s) else (Inl ErrNotFound, s))"
proof -
  have sc: "lookup_scope (cr_Session r') = lookup_scope (cr_Session r)" using assms by (simp add: lookup_scope_def)
  show ?thesis using assms sc
    by (auto simp: store_Create_def lookupIdempotency_def store_Get_def Let_def split: option.splits)
qed

end
