(* ===== verification/Voice_Heartbeat.thy ===== *)
theory Voice_Heartbeat
  imports Voice_Runs
begin

text \<open>
  The runtime's side of a session: the lease heartbeat of
  \<open>internal/voice/session/lease_heartbeat.go\<close> and the final turn worker of
  \<open>final_turn_worker.go\<close>. Each has a mutex and one goroutine that serves a channel: the calls and
  the goroutine's turns are the steps of a transition system. What the calls hand over is kept
  in a log, which no step reads.
\<close>

section \<open>Heartbeat\<close>

record heartbeat =
  hb_scope :: scope
  hb_sessionID :: string
  hb_branchID :: string
  hb_runtimeSessionID :: string
  hb_expectedLease :: instant
  hb_expiresAt :: instant
  hb_leaseDuration :: int
  hb_minInterval :: int
  hb_lastWriteAt :: instant
  hb_inFlight :: bool
  hb_closed :: bool
  hb_err :: bool
  hb_cancelled :: bool
  hb_jobs :: "(lease_renewal \<times> instant) list"
  hb_serving :: "(lease_renewal \<times> instant) option"
  hb_done :: bool
  hb_log :: "lease_renewal list"

record heartbeat_config =
  hc_ContextDone :: bool
  hc_Session :: vsession
  hc_LeaseDuration :: int
  hc_MinWriteInterval :: int
  hc_WriteTimeout :: int

definition seconds :: "int \<Rightarrow> int" where
  "seconds n = n * nsPerSecond"

definition validLeaseHeartbeatSession :: "vsession \<Rightarrow> instant \<Rightarrow> bool" where
  "validLeaseHeartbeatSession v now \<longleftrightarrow>
     validSessionID (vs_ID v) \<and> validRuntimeLeaseID (vs_RuntimeSessionID v) \<and>
     validateScope \<lparr>sc_UserID = vs_UserID v, sc_BusinessID = vs_BusinessID v, sc_AllBranches = False, sc_AllowBranchless = False, sc_AllowedBranchIDs = []\<rparr> \<and>
     (vs_BranchID v = [] \<or> scopeAllowsBranch (sessionScope v) (vs_BranchID v)) \<and>
     vs_Status v = VActive \<and> vs_RuntimeState v = RuntimeRunning \<and> \<not> vs_CapacityReleased v \<and>
     vs_UpdatedAt v \<noteq> zero_time \<and> vs_LeaseExpiresAt v > now \<and> vs_ExpiresAt v > now \<and> \<not> vs_LeaseExpiresAt v > vs_ExpiresAt v"

text \<open>\<open>safeLeaseHeartbeatNow\<close>: no reading when the clock panics or reads zero.\<close>

definition safeLeaseHeartbeatNow :: "instant option \<Rightarrow> instant option" where
  "safeLeaseHeartbeatNow clock = (case clock of None \<Rightarrow> None | Some t \<Rightarrow> if t = zero_time then None else Some t)"

definition NewLeaseHeartbeat :: "heartbeat_config \<Rightarrow> instant option \<Rightarrow> heartbeat option" where
  "NewLeaseHeartbeat c clock =
     (if hc_ContextDone c \<or> hc_LeaseDuration c < seconds 30 \<or> hc_LeaseDuration c > minutes 5 \<or>
         hc_MinWriteInterval c \<le> 0 \<or> hc_MinWriteInterval c > seconds 30 \<or> hc_MinWriteInterval c \<ge> hc_LeaseDuration c \<or>
         hc_WriteTimeout c \<le> 0 \<or> hc_WriteTimeout c > seconds 5
      then None
      else case safeLeaseHeartbeatNow clock of
             None \<Rightarrow> None
           | Some now \<Rightarrow>
               (let v = hc_Session c in
                if \<not> validLeaseHeartbeatSession v now then None
                else Some
                  \<lparr>hb_scope = sessionScope v, hb_sessionID = vs_ID v, hb_branchID = vs_BranchID v, hb_runtimeSessionID = vs_RuntimeSessionID v,
                   hb_expectedLease = vs_LeaseExpiresAt v, hb_expiresAt = vs_ExpiresAt v, hb_leaseDuration = hc_LeaseDuration c,
                   hb_minInterval = hc_MinWriteInterval c,
                   hb_lastWriteAt = (if vs_UpdatedAt v = zero_time \<or> vs_UpdatedAt v > now then now else vs_UpdatedAt v),
                   hb_inFlight = False, hb_closed = False, hb_err = False, hb_cancelled = False, hb_jobs = [], hb_serving = None,
                   hb_done = False, hb_log = []\<rparr>))"

definition hb_failLocked :: "heartbeat \<Rightarrow> heartbeat" where
  "hb_failLocked h = h\<lparr>hb_err := True, hb_inFlight := False, hb_cancelled := True\<rparr>"

definition hb_newLease :: "heartbeat \<Rightarrow> instant \<Rightarrow> instant" where
  "hb_newLease h now = (if now + hb_leaseDuration h > hb_expiresAt h then hb_expiresAt h else now + hb_leaseDuration h)"

definition hb_request :: "heartbeat \<Rightarrow> instant \<Rightarrow> lease_renewal" where
  "hb_request h now =
     \<lparr>lr_Scope = hb_scope h, lr_SessionID = hb_sessionID h, lr_ExpectedBranchID = hb_branchID h, lr_RuntimeSessionID = hb_runtimeSessionID h,
      lr_ExpectedLeaseExpiresAt = hb_expectedLease h, lr_ExpectedExpiresAt = hb_expiresAt h, lr_RenewedAt = now, lr_LeaseDuration = hb_leaseDuration h\<rparr>"

text \<open>
  \<open>Heartbeat\<close>, True when it returns no error. \<open>pick\<close> resolves the select between a free channel
  and a cancelled context, when both are ready; the channel holds one job.
\<close>

definition Heartbeat :: "bool \<Rightarrow> instant option \<Rightarrow> heartbeat \<Rightarrow> bool \<times> heartbeat" where
  "Heartbeat pick clock h =
     (if hb_err h \<or> hb_closed h then (False, h)
      else case safeLeaseHeartbeatNow clock of
             None \<Rightarrow> (False, hb_failLocked h)
           | Some now \<Rightarrow>
               if \<not> hb_expectedLease h > now \<or> \<not> hb_expiresAt h > now then (False, hb_failLocked h)
               else if hb_inFlight h \<or> now < hb_lastWriteAt h + hb_minInterval h then (True, h)
               else if \<not> hb_newLease h now > hb_expectedLease h then (True, h\<lparr>hb_lastWriteAt := now\<rparr>)
               else
                 (let h1 = h\<lparr>hb_inFlight := True, hb_lastWriteAt := now\<rparr> in
                  if hb_jobs h = [] \<and> (\<not> hb_cancelled h \<or> pick)
                  then (True, h1\<lparr>hb_jobs := [(hb_request h now, hb_newLease h now)], hb_log := hb_request h now # hb_log h\<rparr>)
                  else (False, hb_failLocked h1)))"

definition hb_Close :: "heartbeat \<Rightarrow> heartbeat" where
  "hb_Close h = (if hb_closed h then h else h\<lparr>hb_closed := True, hb_cancelled := True\<rparr>)"

definition validLeaseHeartbeatResult :: "vsession \<Rightarrow> lease_renewal \<Rightarrow> instant \<Rightarrow> bool" where
  "validLeaseHeartbeatResult v r lease \<longleftrightarrow>
     vs_ID v = lr_SessionID r \<and> vs_RuntimeSessionID v = lr_RuntimeSessionID r \<and>
     vs_UserID v = sc_UserID (lr_Scope r) \<and> vs_BusinessID v = sc_BusinessID (lr_Scope r) \<and> vs_BranchID v = lr_ExpectedBranchID r \<and>
     vs_Status v = VActive \<and> vs_RuntimeState v = RuntimeRunning \<and> \<not> vs_CapacityReleased v \<and>
     vs_LeaseExpiresAt v = lease \<and> vs_ExpiresAt v = lr_ExpectedExpiresAt r \<and>
     vs_UpdatedAt v = lr_RenewedAt r \<and> \<not> vs_LeaseExpiresAt v > vs_ExpiresAt v"

text \<open>The goroutine: it ends when the context is done, takes a job, or gets the renewer's answer (None an error).\<close>

definition hb_run_end :: "heartbeat \<Rightarrow> heartbeat" where
  "hb_run_end h = h\<lparr>hb_done := True\<rparr>"

definition hb_run_take :: "heartbeat \<Rightarrow> heartbeat" where
  "hb_run_take h = (case hb_jobs h of [] \<Rightarrow> h | j # js \<Rightarrow> h\<lparr>hb_jobs := js, hb_serving := Some j\<rparr>)"

definition hb_run_answer :: "vsession option \<Rightarrow> heartbeat \<Rightarrow> heartbeat" where
  "hb_run_answer res h =
     (case hb_serving h of
        None \<Rightarrow> h
      | Some (r, lease) \<Rightarrow>
          (let h1 = h\<lparr>hb_serving := None\<rparr> in
           case res of
             Some v \<Rightarrow>
               if validLeaseHeartbeatResult v r lease
               then (if hb_closed h then hb_run_end h1 else h1\<lparr>hb_expectedLease := vs_LeaseExpiresAt v, hb_inFlight := False\<rparr>)
               else hb_run_end (if hb_cancelled h then h1 else hb_failLocked h1)
           | None \<Rightarrow> hb_run_end (if hb_cancelled h then h1 else hb_failLocked h1)))"

inductive hb_step :: "heartbeat \<Rightarrow> heartbeat \<Rightarrow> bool" where
  h_beat: "hb_step h (snd (Heartbeat pick clock h))"
| h_close: "hb_step h (hb_Close h)"
| h_cancel: "hb_step h (h\<lparr>hb_cancelled := True\<rparr>)"
| h_end: "\<not> hb_done h \<Longrightarrow> hb_serving h = None \<Longrightarrow> hb_cancelled h \<Longrightarrow> hb_step h (hb_run_end h)"
| h_take: "\<not> hb_done h \<Longrightarrow> hb_serving h = None \<Longrightarrow> hb_step h (hb_run_take h)"
| h_answer: "\<not> hb_done h \<Longrightarrow> hb_step h (hb_run_answer res h)"

section \<open>One write at a time\<close>

fun spaced :: "int \<Rightarrow> lease_renewal list \<Rightarrow> bool" where
  "spaced m [] = True"
| "spaced m [r] = True"
| "spaced m (r # q # rs) = (lr_RenewedAt q + m \<le> lr_RenewedAt r \<and> spaced m (q # rs))"

definition pending :: "heartbeat \<Rightarrow> nat" where
  "pending h = length (hb_jobs h) + (case hb_serving h of None \<Rightarrow> 0 | Some _ \<Rightarrow> 1)"

definition serial :: "heartbeat \<Rightarrow> bool" where
  "serial h \<longleftrightarrow>
     pending h \<le> 1 \<and> (\<not> hb_err h \<longrightarrow> \<not> hb_closed h \<longrightarrow> hb_inFlight h \<or> pending h = 0) \<and>
     spaced (hb_minInterval h) (hb_log h) \<and>
     (hb_log h \<noteq> [] \<longrightarrow> lr_RenewedAt (hd (hb_log h)) \<le> hb_lastWriteAt h) \<and>
     (\<forall>r \<in> set (hb_log h). lr_ExpectedLeaseExpiresAt r > lr_RenewedAt r \<and> lr_ExpectedExpiresAt r = hb_expiresAt h)"

lemma spaced_cons: "spaced m rs \<Longrightarrow> (rs \<noteq> [] \<longrightarrow> lr_RenewedAt (hd rs) + m \<le> lr_RenewedAt r) \<Longrightarrow> spaced m (r # rs)"
  by (cases rs) auto

lemma hb_request_fields [simp]:
  "lr_RenewedAt (hb_request h now) = now" "lr_ExpectedLeaseExpiresAt (hb_request h now) = hb_expectedLease h"
  "lr_ExpectedExpiresAt (hb_request h now) = hb_expiresAt h" "lr_LeaseDuration (hb_request h now) = hb_leaseDuration h"
  by (simp_all add: hb_request_def)

lemma serial_new: "NewLeaseHeartbeat c clock = Some h \<Longrightarrow> serial h"
  by (auto simp: NewLeaseHeartbeat_def serial_def pending_def Let_def split: if_splits option.splits)

lemma serial_fail [simp]: "serial h \<Longrightarrow> serial (hb_failLocked h)"
  by (simp add: serial_def hb_failLocked_def pending_def)

lemma serial_beat:
  assumes "serial h" and "0 \<le> hb_minInterval h"
  shows "serial (snd (Heartbeat pick clock h))"
proof -
  have later: "serial (h\<lparr>hb_lastWriteAt := now\<rparr>)" if "\<not> now < hb_lastWriteAt h + hb_minInterval h" for now
    using assms that by (auto simp: serial_def pending_def)
  have fail: "serial (hb_failLocked (h\<lparr>hb_inFlight := True, hb_lastWriteAt := now\<rparr>))" if "\<not> now < hb_lastWriteAt h + hb_minInterval h" for now
    using assms that by (auto simp: serial_def pending_def hb_failLocked_def)
  have send: "serial (h\<lparr>hb_inFlight := True, hb_lastWriteAt := now, hb_jobs := [(hb_request h now, l)], hb_log := hb_request h now # hb_log h\<rparr>)"
    if "\<not> now < hb_lastWriteAt h + hb_minInterval h" "hb_expectedLease h > now" "\<not> hb_err h" "\<not> hb_closed h" "\<not> hb_inFlight h" for now l
  proof -
    have "hb_jobs h = []" "hb_serving h = None" using assms(1) that by (auto simp: serial_def pending_def split: option.splits)
    then show ?thesis using assms that by (auto simp: serial_def pending_def intro!: spaced_cons)
  qed
  show ?thesis using assms(1) later fail send
    by (auto simp: Heartbeat_def Let_def split: option.splits)
qed

lemma serial_step:
  assumes "hb_step h h'" and "serial h" and "0 \<le> hb_minInterval h"
  shows "serial h' \<and> hb_minInterval h' = hb_minInterval h"
  using assms
proof (induction rule: hb_step.induct)
  case (h_beat h pick clock)
  have "hb_minInterval (snd (Heartbeat pick clock h)) = hb_minInterval h"
    by (auto simp: Heartbeat_def hb_failLocked_def Let_def split: option.splits)
  with serial_beat [OF h_beat] show ?case by simp
next
  case (h_answer h res)
  then show ?case
    by (auto simp: hb_run_answer_def hb_run_end_def hb_failLocked_def serial_def pending_def Let_def split: option.splits)
qed (auto simp: hb_Close_def hb_run_end_def hb_run_take_def serial_def pending_def split: list.splits option.splits)

lemma serial_run: "hb_step\<^sup>*\<^sup>* h h' \<Longrightarrow> serial h \<Longrightarrow> 0 \<le> hb_minInterval h \<Longrightarrow> serial h' \<and> hb_minInterval h' = hb_minInterval h"
  by (induction rule: rtranclp_induct) (auto dest: serial_step)

section \<open>The renewer\<close>

text \<open>What the heartbeat relies on: a renewal that succeeds returns the session with the lease it asked for.\<close>

locale lease_renewer =
  fixes renew :: "lease_renewal \<Rightarrow> vdb \<Rightarrow> vsession outcome" and good :: "vdb \<Rightarrow> bool"
  assumes renewed: "good s \<Longrightarrow> renew r s = (Inr v, s1) \<Longrightarrow> validRenewedLease v r (renewed_lease r)"
    and whole: "good s \<Longrightarrow> renew r s = (Inr v, s1) \<Longrightarrow> vs_ExpiresAt v = Unix (epoch (vs_ExpiresAt v))"
begin

lemma accepted:
  assumes "good s" and "hb_expiresAt h = Unix n" and "renew (hb_request h now) s = (Inr v, s1)"
  shows "validLeaseHeartbeatResult v (hb_request h now) (hb_newLease h now)"
proof -
  have "renewed_lease (hb_request h now) = hb_newLease h now"
    using assms(2) by (simp add: renewed_lease_def hb_newLease_def Let_def)
  moreover have "vs_ExpiresAt v = hb_expiresAt h"
    using whole [OF assms(1,3)] renewed [OF assms(1,3)] assms(2) by (simp add: validRenewedLease_def)
  ultimately show ?thesis using renewed [OF assms(1,3)]
    by (simp add: validRenewedLease_def validLeaseHeartbeatResult_def)
qed

lemma answer:
  assumes "good s" and "hb_expiresAt h = Unix n" and "renew (hb_request h now) s = (Inr v, s1)"
    and "hb_serving h' = Some (hb_request h now, hb_newLease h now)" and "\<not> hb_closed h'"
  shows "hb_run_answer (Some v) h' = h'\<lparr>hb_serving := None, hb_expectedLease := hb_newLease h now, hb_inFlight := False\<rparr>"
proof -
  have a: "validLeaseHeartbeatResult v (hb_request h now) (hb_newLease h now)" by (rule accepted [OF assms(1-3)])
  then have "vs_LeaseExpiresAt v = hb_newLease h now" by (simp add: validLeaseHeartbeatResult_def)
  with a assms(4,5) show ?thesis by (simp add: hb_run_answer_def Let_def)
qed

end

lemma RenewLease_item:
  assumes "RenewLease d r s = (Inr v, s1)"
  shows "validRenewedLease v r (renewed_lease r)" "\<exists>it. vd_items s1 (lr_SessionID r) = Some it \<and> v = it_session it"
  using assms by (auto simp: RenewLease_def split: prod.splits api_result.splits option.splits if_splits)

interpretation store_renewer: lease_renewer "RenewLease d" "every_item item_wf" for d
proof unfold_locales
  fix s r v s1
  assume w: "every_item item_wf s" and r: "RenewLease d r s = (Inr v, s1)"
  show "validRenewedLease v r (renewed_lease r)" by (rule RenewLease_item(1) [OF r])
  have "every_item item_wf s1" using wfi.run_items [OF writes_run [OF RenewLease_run [OF r]] w] .
  with RenewLease_item(2) [OF r] show "vs_ExpiresAt v = Unix (epoch (vs_ExpiresAt v))"
    by (auto simp: every_item_def item_wf_def Let_def)
qed

section \<open>Final turn worker\<close>

datatype worker_error = FinalTurnQueueFull | FinalTurnWorkerClosed | FinalTurnWorkerFailed | FinalTurnInvalid | FinalTurnOutOfSequence

record turn_worker =
  fw_sessionID :: string
  fw_capacity :: nat
  fw_jobs :: "final_turn list"
  fw_closed :: bool
  fw_failed :: bool
  fw_cancelled :: bool
  fw_done :: bool
  fw_lastSequence :: int
  fw_lastGenerationID :: int
  fw_accepted :: "final_turn list"
  fw_persisted :: "final_turn list"

definition NewFinalTurnWorker :: "bool \<Rightarrow> string \<Rightarrow> int \<Rightarrow> int \<Rightarrow> int \<Rightarrow> int \<Rightarrow> turn_worker option" where
  "NewFinalTurnWorker ctxDone sid queueCapacity writeTimeout initialSequence initialGenerationID =
     (if ctxDone \<or> \<not> validSessionID sid \<or> initialSequence < 0 \<or> initialGenerationID < 0 then None
      else (let capacity = (if queueCapacity = 0 then 4 else queueCapacity);
                timeout = (if writeTimeout = 0 then seconds 2 else writeTimeout)
            in if capacity < 1 \<or> capacity > 16 then None
               else if timeout < 1000000 \<or> timeout > seconds 10 then None
               else Some \<lparr>fw_sessionID = sid, fw_capacity = nat capacity, fw_jobs = [], fw_closed = False, fw_failed = False,
                          fw_cancelled = False, fw_done = False, fw_lastSequence = initialSequence,
                          fw_lastGenerationID = initialGenerationID, fw_accepted = [], fw_persisted = []\<rparr>))"

definition EnqueueAfterPlayback :: "final_turn \<Rightarrow> turn_worker \<Rightarrow> worker_error option \<times> turn_worker" where
  "EnqueueAfterPlayback t w =
     (if \<not> validateFinalTurn t \<or> ft_SessionID t \<noteq> fw_sessionID w then (Some FinalTurnInvalid, w)
      else if fw_failed w then (Some FinalTurnWorkerFailed, w)
      else if fw_closed w \<or> fw_cancelled w then (Some FinalTurnWorkerClosed, w)
      else if ft_Sequence t \<noteq> fw_lastSequence w + 1 \<or> ft_GenerationID t \<le> fw_lastGenerationID w then (Some FinalTurnOutOfSequence, w)
      else if length (fw_jobs w) < fw_capacity w
      then (None, w\<lparr>fw_jobs := fw_jobs w @ [t], fw_lastSequence := ft_Sequence t, fw_lastGenerationID := ft_GenerationID t,
                    fw_accepted := fw_accepted w @ [t]\<rparr>)
      else (Some FinalTurnQueueFull, w))"

definition fw_Close :: "bool \<Rightarrow> turn_worker \<Rightarrow> turn_worker" where
  "fw_Close ctxDone w = (let w1 = w\<lparr>fw_closed := True\<rparr> in if \<not> fw_done w \<and> ctxDone then w1\<lparr>fw_cancelled := True\<rparr> else w1)"

text \<open>\<open>persist\<close>: two attempts, unless the context ends; an attempt is whether it succeeded and whether the context was done after it.\<close>

fun persist_attempts :: "nat \<Rightarrow> (bool \<times> bool) list \<Rightarrow> bool" where
  "persist_attempts 0 as = False"
| "persist_attempts (Suc n) [] = False"
| "persist_attempts (Suc n) ((ok, ctxDone) # as) = (if ok then True else if ctxDone then False else persist_attempts n as)"

definition fw_exit :: "turn_worker \<Rightarrow> turn_worker" where
  "fw_exit w = w\<lparr>fw_cancelled := True, fw_closed := True, fw_done := True\<rparr>"

text \<open>One round of the goroutine; \<open>pick\<close> resolves the select when the context is done and a turn is waiting.\<close>

definition fw_run :: "bool \<Rightarrow> (bool \<times> bool) list \<Rightarrow> turn_worker \<Rightarrow> turn_worker" where
  "fw_run pick attempts w =
     (if fw_done w then w
      else if fw_cancelled w \<and> (pick \<or> fw_jobs w = [] \<and> \<not> fw_closed w) then fw_exit w
      else case fw_jobs w of
             [] \<Rightarrow> if fw_closed w then fw_exit w else w
           | t # ts \<Rightarrow>
               (let w1 = w\<lparr>fw_jobs := ts\<rparr> in
                if persist_attempts 2 attempts then w1\<lparr>fw_persisted := fw_persisted w @ [t]\<rparr>
                else fw_exit (w1\<lparr>fw_failed := True\<rparr>)))"

inductive fw_step :: "turn_worker \<Rightarrow> turn_worker \<Rightarrow> bool" where
  f_enqueue: "fw_step w (snd (EnqueueAfterPlayback t w))"
| f_close: "fw_step w (fw_Close ctxDone w)"
| f_cancel: "fw_step w (w\<lparr>fw_cancelled := True\<rparr>)"
| f_run: "fw_step w (fw_run pick attempts w)"

fun consecutive :: "int \<Rightarrow> int \<Rightarrow> final_turn list \<Rightarrow> bool" where
  "consecutive n g [] = True"
| "consecutive n g (t # ts) = (ft_Sequence t = n + 1 \<and> ft_GenerationID t > g \<and> consecutive (n + 1) (ft_GenerationID t) ts)"

definition last_generation :: "int \<Rightarrow> final_turn list \<Rightarrow> int" where
  "last_generation g ts = (if ts = [] then g else ft_GenerationID (last ts))"

definition orderly :: "int \<Rightarrow> int \<Rightarrow> turn_worker \<Rightarrow> bool" where
  "orderly n g w \<longleftrightarrow>
     consecutive n g (fw_accepted w) \<and> fw_lastSequence w = n + int (length (fw_accepted w)) \<and>
     fw_lastGenerationID w = last_generation g (fw_accepted w) \<and>
     length (fw_jobs w) \<le> fw_capacity w \<and>
     (\<not> fw_failed w \<longrightarrow> fw_accepted w = fw_persisted w @ fw_jobs w) \<and>
     (fw_failed w \<longrightarrow> fw_done w \<and> (\<exists>t. fw_accepted w = fw_persisted w @ t # fw_jobs w))"

lemma consecutive_append:
  "consecutive n g ts \<Longrightarrow> ft_Sequence t = n + int (length ts) + 1 \<Longrightarrow> ft_GenerationID t > last_generation g ts \<Longrightarrow> consecutive n g (ts @ [t])"
  by (induction n g ts rule: consecutive.induct) (auto simp: last_generation_def split: if_splits)

lemma orderly_new:
  "NewFinalTurnWorker c sid q t n g = Some w \<Longrightarrow> orderly n g w"
  by (auto simp: NewFinalTurnWorker_def orderly_def last_generation_def Let_def split: if_splits)

text \<open>
  Turns are accepted in sequence and persisted in the order they were accepted; after a turn that
  could not be written none of the later ones is.
\<close>

lemma orderly_step:
  assumes "fw_step w w'" and "orderly n g w"
  shows "orderly n g w'"
  using assms
proof (induction rule: fw_step.induct)
  case (f_enqueue w t)
  have "orderly n g (w\<lparr>fw_jobs := fw_jobs w @ [t], fw_lastSequence := ft_Sequence t, fw_lastGenerationID := ft_GenerationID t,
      fw_accepted := fw_accepted w @ [t]\<rparr>)"
    if "\<not> fw_failed w" "ft_Sequence t = fw_lastSequence w + 1" "\<not> ft_GenerationID t \<le> fw_lastGenerationID w" "length (fw_jobs w) < fw_capacity w"
  proof -
    have "consecutive n g (fw_accepted w @ [t])"
      using f_enqueue that by (intro consecutive_append) (auto simp: orderly_def)
    then show ?thesis using f_enqueue that by (auto simp: orderly_def last_generation_def)
  qed
  then show ?case using f_enqueue by (auto simp: EnqueueAfterPlayback_def)
next
  case (f_run w pick attempts)
  then show ?case by (auto simp: fw_run_def fw_exit_def orderly_def Let_def split: list.splits)
qed (auto simp: fw_Close_def orderly_def Let_def)

lemma orderly_run: "fw_step\<^sup>*\<^sup>* w w' \<Longrightarrow> orderly n g w \<Longrightarrow> orderly n g w'"
  by (induction rule: rtranclp_induct) (auto intro: orderly_step)

section \<open>Properties\<close>

text \<open>
  whatever heartbeats arrive and however the renewals turn out, a heartbeat started by
  \<open>NewLeaseHeartbeat\<close> has at most one lease write queued or in flight, its writes are at least
  the minimum interval apart, and each asks to extend a lease that has not yet passed. The branch
  of \<open>Heartbeat\<close> for a full channel is never reached while it is healthy.
\<close>

theorem heartbeat_writes_serial_and_spaced:
  assumes "NewLeaseHeartbeat c clock = Some h0" and "hb_step\<^sup>*\<^sup>* h0 h"
  shows "pending h \<le> 1 \<and> spaced (hc_MinWriteInterval c) (hb_log h) \<and>
    (\<forall>r \<in> set (hb_log h). lr_RenewedAt r < lr_ExpectedLeaseExpiresAt r) \<and>
    (\<not> hb_err h \<longrightarrow> \<not> hb_closed h \<longrightarrow> \<not> hb_inFlight h \<longrightarrow> hb_jobs h = [])"
proof -
  have m: "hb_minInterval h0 = hc_MinWriteInterval c" "0 \<le> hb_minInterval h0"
    using assms(1) by (auto simp: NewLeaseHeartbeat_def Let_def split: if_splits option.splits)
  from serial_run [OF assms(2) serial_new [OF assms(1)] m(2)] m(1) show ?thesis
    by (auto simp: serial_def pending_def)
qed

definition demo_heartbeat :: heartbeat_config where
  "demo_heartbeat =
     \<lparr>hc_ContextDone = False,
      hc_Session =
        \<lparr>vs_ID = ''voice_a'', vs_RuntimeSessionID = ''run'', vs_UserID = ''u'', vs_BusinessID = ''b'', vs_BranchID = [],
         vs_Status = VActive, vs_RuntimeState = RuntimeRunning, vs_ProtocolVersion = 1, vs_KVSChannelIndex = 0,
         vs_PreferredLanguage = ''en-IN'', vs_FallbackLanguage = ''hi-IN'', vs_CurrentLanguage = ''en-IN'',
         vs_TurnSequence = 0, vs_GenerationID = 0, vs_ConsentTranscriptStorage = True, vs_ConsentAudioRecording = False,
         vs_ConsentPolicyVersion = ''2026-01-01'', vs_ClientPlatform = ''ios'', vs_ClientAppVersion = ''1.0.0'',
         vs_CreatedAt = 0, vs_UpdatedAt = 0, vs_LeaseExpiresAt = 120000000000, vs_ExpiresAt = 3300000000000, vs_RotateAt = 3120000000000,
         vs_ClosedAt = None, vs_CapacityReleased = False, vs_Resumable = False\<rparr>,
      hc_LeaseDuration = 120000000000, hc_MinWriteInterval = 30000000000, hc_WriteTimeout = 2000000000\<rparr>"

theorem heartbeat_writes_serial_and_spaced_witness:
  "\<exists>h0. NewLeaseHeartbeat demo_heartbeat (Some 1) = Some h0 \<and> pending (snd (Heartbeat True (Some 40000000000) h0)) \<le> 1 \<and>
     spaced 30000000000 (hb_log (snd (Heartbeat True (Some 40000000000) h0)))"
proof -
  have "NewLeaseHeartbeat demo_heartbeat (Some 1) \<noteq> None"
    by (simp add: NewLeaseHeartbeat_def demo_heartbeat_def seconds_def minutes_def nsPerSecond_def safeLeaseHeartbeatNow_def zero_time_def
        validLeaseHeartbeatSession_def validSessionID_def HasPrefix_def validRuntimeLeaseID_def validateScope_def TrimSpace_def is_space_def
        in_bytes_def Let_def)
  then obtain h0 where h0: "NewLeaseHeartbeat demo_heartbeat (Some 1) = Some h0" by blast
  have m: "hc_MinWriteInterval demo_heartbeat = 30000000000" by (simp add: demo_heartbeat_def)
  have "hb_step\<^sup>*\<^sup>* h0 (snd (Heartbeat True (Some 40000000000) h0))" by (rule r_into_rtranclp) (rule h_beat)
  from heartbeat_writes_serial_and_spaced [OF h0 this] h0 m show ?thesis by simp
qed

end
