(* ===== verification/Voice_Properties.thy ===== *)
theory Voice_Properties
  imports Voice_Retry Voice_Heartbeat
begin

text \<open>
  The properties of voice sessions, each with a witness on a concrete table.
\<close>

section \<open>A concrete session\<close>

definition demo_store :: dynamo_store where
  "demo_store = \<lparr>ds_TableName = ''voice'', ds_LeaseIndexName = ''gsi2'', ds_GlobalCapacityLimit = 100, ds_PerUserCapacityLimit = 1\<rparr>"

definition demo_session :: vsession where
  "demo_session =
     \<lparr>vs_ID = ''voice_a'', vs_RuntimeSessionID = ''run'', vs_UserID = ''u'', vs_BusinessID = ''b'', vs_BranchID = [],
      vs_Status = VActive, vs_RuntimeState = RuntimeRunning, vs_ProtocolVersion = 1, vs_KVSChannelIndex = 0,
      vs_PreferredLanguage = ''en-IN'', vs_FallbackLanguage = ''hi-IN'', vs_CurrentLanguage = ''en-IN'',
      vs_TurnSequence = 0, vs_GenerationID = 0, vs_ConsentTranscriptStorage = True, vs_ConsentAudioRecording = False,
      vs_ConsentPolicyVersion = ''2026-01-01'', vs_ClientPlatform = ''ios'', vs_ClientAppVersion = ''1.0.0'',
      vs_CreatedAt = 0, vs_UpdatedAt = 0, vs_LeaseExpiresAt = 120000000000, vs_ExpiresAt = 3300000000000, vs_RotateAt = 3120000000000,
      vs_ClosedAt = None, vs_CapacityReleased = False, vs_Resumable = False\<rparr>"

definition demo_record :: create_record where
  "demo_record = \<lparr>cr_Session = demo_session, cr_IdempotencyKey = ''k'', cr_RequestHash = ''h'', cr_IdempotencyExpiresAt = 86400000000000\<rparr>"

definition demo_db :: vdb where
  "demo_db = create_write demo_record (empty_vdb [])"

definition demo_item :: session_item where
  "demo_item = marshalSession demo_session"

lemma demo_fresh: "fresh_record demo_record"
  by (simp add: fresh_record_def demo_record_def demo_session_def Unix_def epoch_def nsPerSecond_def)

lemma demo_allowed: "True \<notin> set (create_failed demo_store demo_record (empty_vdb []))"
  by (simp add: create_failed_def empty_vdb_def increment_allowed_def)

lemma demo_writes: "voice_writes demo_store (empty_vdb []) demo_db"
  unfolding demo_db_def by (intro r_into_rtranclp w_create demo_allowed demo_fresh)

lemma demo_tables:
  "vd_items demo_db = [''voice_a'' \<mapsto> demo_item]" "vd_faults demo_db = []" "vd_turns demo_db = Map.empty"
  "vd_global demo_db = Some 1" "vd_user demo_db = [''u'' \<mapsto> 1]"
  by (auto simp: demo_db_def create_write_def empty_vdb_def demo_record_def demo_session_def demo_item_def Let_def
      marshalSession_def capacityIncrement_def)

lemma demo_item_session:
  "it_session demo_item = demo_session"
  by (simp add: demo_item_def marshalSession_def demo_session_def Unix_def epoch_def nsPerSecond_def)

lemma demo_fields [simp]:
  "vs_ID demo_session = ''voice_a''" "vs_RuntimeSessionID demo_session = ''run''" "vs_UserID demo_session = ''u''"
  "vs_BusinessID demo_session = ''b''" "vs_BranchID demo_session = []" "vs_Status demo_session = VActive"
  "vs_RuntimeState demo_session = RuntimeRunning" "vs_TurnSequence demo_session = 0" "vs_GenerationID demo_session = 0"
  "vs_ConsentTranscriptStorage demo_session" "\<not> vs_CapacityReleased demo_session" "vs_LeaseExpiresAt demo_session = 120000000000"
  "vs_ExpiresAt demo_session = 3300000000000" "cr_Session demo_record = demo_session" "validate_store demo_store"
  by (simp_all add: demo_session_def demo_record_def demo_store_def validate_store_def)

lemmas demo_simps = demo_tables demo_item_session

section \<open>Capacity\<close>

text \<open>
  C11: in every run of writes and expirations from the empty table, the sessions that hold a slot
  are no more than the global counter says, nor the sessions of a user than that user's counter,
  and the counters never exceed their limits; so the limits hold under any interleaving of
  creations, releases and crashes. As long as nothing has expired the counters are exact.
\<close>

theorem capacity_never_exceeded:
  assumes "1 \<le> ds_GlobalCapacityLimit d" and "1 \<le> ds_PerUserCapacityLimit d" and "voice_run d (empty_vdb fs) s"
  shows "int (card (holders (\<lambda>_. True) s)) \<le> count (vd_global s) \<and> count (vd_global s) \<le> ds_GlobalCapacityLimit d \<and>
    int (card (holders ((=) u) s)) \<le> count (vd_user s u) \<and> count (vd_user s u) \<le> ds_PerUserCapacityLimit d \<and>
    (voice_writes d (empty_vdb fs) s \<longrightarrow>
       count (vd_global s) = int (card (holders (\<lambda>_. True) s)) \<and> count (vd_user s u) = int (card (holders ((=) u) s)))"
proof -
  have "within_limits d s" using run_limits assms by blast
  moreover have "0 \<le> slack_global s \<and> 0 \<le> slack_user s u"
    using run_slack [OF assms(3) slack_empty(3), of u] by (simp add: slack_empty)
  moreover have "voice_writes d (empty_vdb fs) s \<Longrightarrow> slack_global s = 0 \<and> slack_user s u = 0"
    using writes_slack [OF _ slack_empty(3), of d fs s u] by (simp add: slack_empty)
  ultimately show ?thesis by (auto simp: within_limits_def slack_global_def slack_user_def)
qed

theorem capacity_never_exceeded_witness:
  "int (card (holders ((=) ''u'') demo_db)) \<le> 1 \<and> count (vd_user demo_db ''u'') = int (card (holders ((=) ''u'') demo_db))"
  using capacity_never_exceeded [OF _ _ writes_run [OF demo_writes], of "''u''"] demo_writes
  by (simp add: demo_store_def)

text \<open>
  C19: the table deletes a session item once its \<open>expires_at\<close> has passed. If that happens before
  its slot was released, the slot is lost for good: with a limit of one session per user, that
  user is refused every new session from then on, whatever else happens.
\<close>

theorem expiry_before_release_locks_user_out:
  assumes "voice_run d (empty_vdb fs) s" and "ds_PerUserCapacityLimit d = 1" and "validate_store d"
    and "vd_items s sid = Some it" and "\<not> vs_CapacityReleased (it_session it)"
    and "voice_run d (s\<lparr>vd_items := (vd_items s)(sid := None)\<rparr>) s'" and "vd_faults s' = []"
    and "vs_UserID (cr_Session r) = vs_UserID (it_session it)"
    and "vd_idem s' (idempotencyPK (vs_UserID (cr_Session r)) (cr_IdempotencyKey r)) = None"
  shows "store_Create d r s' \<in> {(Inl ErrGlobalCapacity, s'), (Inl ErrUserCapacity, s')}"
proof -
  let ?u = "vs_UserID (it_session it)" and ?t = "s\<lparr>vd_items := (vd_items s)(sid := None)\<rparr>"
  have s: "finite (dom (vd_items s))" "0 \<le> slack_user s ?u"
    using run_slack [OF assms(1) slack_empty(3), of ?u] by (simp_all add: slack_empty)
  have fin: "finite (dom (vd_items ?t))"
    using s(1) by (rule rev_finite_subset) (auto simp: dom_def split: if_splits)
  have "holders ((=) ?u) ?t = holders ((=) ?u) s - {sid}" by (auto simp: holders_def)
  moreover have "sid \<in> holders ((=) ?u) s" using assms(4,5) by (simp add: holder_mem)
  ultimately have "card (holders ((=) ?u) s) = Suc (card (holders ((=) ?u) ?t))"
    using finite_holders [OF s(1)] by (metis card_Suc_Diff1)
  then have "1 \<le> slack_user ?t ?u" using s(2) by (simp add: slack_user_def)
  then have "1 \<le> slack_user s' ?u" using run_slack [OF assms(6) fin, of ?u] by linarith
  then have "1 \<le> count (vd_user s' ?u)" by (simp add: slack_user_def)
  then have "\<not> increment_allowed (vd_user s' ?u) (ds_PerUserCapacityLimit d)"
    using assms(2) by (auto simp: increment_allowed_def count_def split: option.splits)
  then show ?thesis using assms(3,7-9)
    by (simp add: store_Create_def lookupIdempotency_def Let_def create_failed_def cancellationReasonIs_def)
qed

theorem expiry_before_release_locks_user_out_witness:
  "store_Create demo_store (demo_record\<lparr>cr_IdempotencyKey := ''k2''\<rparr>) (demo_db\<lparr>vd_items := (vd_items demo_db)(''voice_a'' := None)\<rparr>) \<in>
     {(Inl ErrGlobalCapacity, demo_db\<lparr>vd_items := (vd_items demo_db)(''voice_a'' := None)\<rparr>),
      (Inl ErrUserCapacity, demo_db\<lparr>vd_items := (vd_items demo_db)(''voice_a'' := None)\<rparr>)}"
proof (rule expiry_before_release_locks_user_out [where d = demo_store and s = demo_db and sid = "''voice_a''" and it = demo_item])
  show "voice_run demo_store (empty_vdb []) demo_db" by (rule writes_run [OF demo_writes])
  show "vd_idem (demo_db\<lparr>vd_items := (vd_items demo_db)(''voice_a'' := None)\<rparr>)
      (idempotencyPK (vs_UserID (cr_Session (demo_record\<lparr>cr_IdempotencyKey := ''k2''\<rparr>))) (cr_IdempotencyKey (demo_record\<lparr>cr_IdempotencyKey := ''k2''\<rparr>))) = None"
    by (simp add: demo_db_def create_write_def empty_vdb_def Let_def demo_record_def demo_session_def idempotencyPK_def)
qed (simp_all add: demo_tables demo_item_session demo_store_def validate_store_def demo_record_def demo_session_def)

section \<open>Leases\<close>

lemma renewed_state:
  assumes "RenewLease d q s = (Inr v, s1)"
  shows "\<exists>it. vd_items s1 (lr_SessionID q) = Some it \<and> v = it_session it \<and> validRenewedLease v q (renewed_lease q)"
    and "lr_ExpectedLeaseExpiresAt q < renewed_lease q"
  using assms by (auto simp: RenewLease_def split: prod.splits api_result.splits option.splits if_splits)

lemma classify_not_released: "classifyExpiredRelease v lease cutoff = Some (w, st) \<Longrightarrow> \<not> rs_Released st"
  by (auto simp: classifyExpiredRelease_def no_release_def split: voice_status.splits if_splits)

text \<open>
  When the lease of an active session is no longer the one a client read, each of the three
  conditional writes is refused and changes nothing: the reconciler's, another renewal, a resumption.
\<close>

lemma lease_moved_release:
  assumes "vd_items s sid = Some it" and "vs_Status (it_session it) = VActive" and "vs_LeaseExpiresAt (it_session it) \<noteq> vs_LeaseExpiresAt candidate"
    and "vs_ID candidate = sid" and "vs_ID current = sid" and "ReleaseExpired_write d candidate cutoff current s = (x, s1)"
  shows "same_tables s s1 \<and> (\<forall>w st. x = Inr (w, st) \<longrightarrow> rs_LeaseRenewed st \<and> \<not> rs_Released st)"
proof -
  let ?sc = "sessionScope candidate"
  obtain res s0 where t: "transact_write (release_failed ?sc current (Some (vs_LeaseExpiresAt candidate, cutoff))) (release_write ?sc current cutoff) s = (res, s0)"
    by fastforce
  have r: "res \<noteq> Done \<and> same_tables s s0"
    by (rule transact_refused [OF t])
       (use assms(1,3,5) in \<open>auto simp: same_tables_def release_failed_def on_session_def release_cond_def\<close>)
  obtain y s2 where g: "store_Get d ?sc sid s0 = (y, s2)" by fastforce
  have same: "same_tables s s2" using r store_Get_same [OF g] same_tables_trans by blast
  have "classifyExpiredRelease w (vs_LeaseExpiresAt candidate) cutoff = Some (w, no_release\<lparr>rs_LeaseRenewed := True\<rparr>)" if "y = Inr w" for w
    using store_Get_item(1) [OF g [unfolded that]] assms(1-3) same by (auto simp: classifyExpiredRelease_def same_tables_def)
  with r same show ?thesis using assms(4,6) t g
    by (auto simp: ReleaseExpired_write_def Let_def no_release_def split: api_result.splits sum.splits)
qed

lemma on_session_same: "same_tables s s0 \<Longrightarrow> on_session sid p s0 = on_session sid p s"
  by (simp add: on_session_def same_tables_def)

lemma renewal_refused:
  assumes "\<not> on_session (lr_SessionID q) (renew_cond q (renewed_lease q)) s" and "RenewLease d q s = (y, s1)"
  shows "(\<exists>e. y = Inl e) \<and> same_tables s s1"
proof -
  obtain res s0 where u: "update_item (on_session (lr_SessionID q) (renew_cond q (renewed_lease q)))
      (set_item (lr_SessionID q) (renew_item q (renewed_lease q))) s = (res, s0)" by fastforce
  have "res \<noteq> Done \<and> same_tables s s0" by (rule update_refused [OF u]) (simp add: on_session_same assms(1))
  with assms(2) u show ?thesis
    by (auto simp: RenewLease_def split: if_splits api_result.splits)
qed

lemma resume_refused:
  assumes "\<not> on_session (rr_SessionID r) (resume_cond r) s" and "store_Resume d r s = (y, s1)"
  shows "(\<exists>e. y = Inl e) \<and> same_tables s s1"
proof -
  obtain res s0 where u: "update_item (on_session (rr_SessionID r) (resume_cond r)) (set_item (rr_SessionID r) (resume_item r)) s = (res, s0)" by fastforce
  obtain g s2 where g: "store_Get d (rr_Scope r) (rr_SessionID r) s0 = (g, s2)" by fastforce
  have "res \<noteq> Done \<and> same_tables s s0" by (rule update_refused [OF u]) (simp add: on_session_same assms(1))
  then have r: "res \<noteq> Done" "same_tables s s0" by blast+
  moreover have "same_tables s s2" using r(2) store_Get_same [OF g] by (rule same_tables_trans)
  ultimately show ?thesis using assms(2) u g
    by (auto simp: store_Resume_def split: if_splits api_result.splits sum.splits voice_error.splits)
qed

lemma released_write_state:
  assumes "ReleaseExpired_write d candidate cutoff current s = (Inr (w, st), s1)" and "rs_Released st"
  shows "\<exists>it. vd_items s1 (vs_ID current) = Some it \<and> vs_Status (it_session it) = VClosing"
proof -
  let ?sc = "sessionScope candidate" and ?e = "Some (vs_LeaseExpiresAt candidate, cutoff)"
  have t: "transact_write (release_failed ?sc current ?e) (release_write ?sc current cutoff) s = (Done, s1)"
    using assms
    by (auto simp: ReleaseExpired_write_def Let_def split: prod.splits sum.splits option.splits api_result.splits
        dest: classify_not_released)
  obtain s2 where ok: "True \<notin> set (release_failed ?sc current ?e s2)" and w: "s1 = release_write ?sc current cutoff s2"
    using transact_written [OF t] by blast
  obtain it where "vd_items s2 (vs_ID current) = Some it" using release_ok [OF ok] by blast
  with w show ?thesis by (simp add: release_write_def set_item_def release_item_def)
qed

lemma read_candidate:
  assumes "ReleaseExpired_read d candidate cutoff s = (Inr (Inr current), s1)" and "keyed s"
  shows "vs_ID current = vs_ID candidate"
proof -
  obtain s0 where g: "store_Get d (sessionScope candidate) (vs_ID candidate) s = (Inr current, s0)"
    using assms(1) by (auto simp: ReleaseExpired_read_def split: if_splits prod.splits sum.splits option.splits)
  then show ?thesis using store_Get_item(1) [OF g] store_Get_tables(1) [OF g] assms(2) by (auto simp: keyed_def)
qed

lemma renewal_wins:
  assumes n: "RenewLease d q s = (Inr v, s1)" and ids: "vs_ID candidate = lr_SessionID q" "vs_ID current = lr_SessionID q"
    and lease: "vs_LeaseExpiresAt candidate = lr_ExpectedLeaseExpiresAt q"
    and others: "lr_SessionID q' = lr_SessionID q" "rr_SessionID r = lr_SessionID q"
  shows "ReleaseExpired_write d candidate cutoff current s1 = (x, s2) \<Longrightarrow>
      same_tables s1 s2 \<and> (\<forall>w st. x = Inr (w, st) \<longrightarrow> rs_LeaseRenewed st \<and> \<not> rs_Released st)"
    and "lr_ExpectedLeaseExpiresAt q' = lr_ExpectedLeaseExpiresAt q \<Longrightarrow> RenewLease d q' s1 = (y, s2) \<Longrightarrow> (\<exists>e. y = Inl e) \<and> same_tables s1 s2"
    and "rr_ExpectedLeaseExpiresAt r = lr_ExpectedLeaseExpiresAt q \<Longrightarrow> store_Resume d r s1 = (z, s2) \<Longrightarrow> (\<exists>e. z = Inl e) \<and> same_tables s1 s2"
proof -
  obtain it where it: "vd_items s1 (lr_SessionID q) = Some it" "v = it_session it" "validRenewedLease v q (renewed_lease q)"
    using renewed_state(1) [OF n] by blast
  have act: "vs_Status (it_session it) = VActive" and moved: "vs_LeaseExpiresAt (it_session it) \<noteq> lr_ExpectedLeaseExpiresAt q"
    using it(2,3) renewed_state(2) [OF n] by (auto simp: validRenewedLease_def)
  show "same_tables s1 s2 \<and> (\<forall>w st. x = Inr (w, st) \<longrightarrow> rs_LeaseRenewed st \<and> \<not> rs_Released st)"
    if "ReleaseExpired_write d candidate cutoff current s1 = (x, s2)"
    using lease_moved_release [OF it(1) act _ ids that] moved lease by simp
  show "(\<exists>e. y = Inl e) \<and> same_tables s1 s2"
    if "lr_ExpectedLeaseExpiresAt q' = lr_ExpectedLeaseExpiresAt q" "RenewLease d q' s1 = (y, s2)"
    by (rule renewal_refused [OF _ that(2)]) (use it(1) moved that(1) others in \<open>simp add: on_session_def renew_cond_def\<close>)
  show "(\<exists>e. z = Inl e) \<and> same_tables s1 s2"
    if "rr_ExpectedLeaseExpiresAt r = lr_ExpectedLeaseExpiresAt q" "store_Resume d r s1 = (z, s2)"
    by (rule resume_refused [OF _ that(2)]) (use it(1) moved that(1) others in \<open>simp add: on_session_def resume_cond_def\<close>)
qed

lemma release_wins:
  assumes e: "ReleaseExpired_write d candidate cutoff current s = (Inr (w, st), s3)" "rs_Released st" and wr: "voice_writes d s3 s4"
    and id: "vs_ID current = sid" and others: "lr_SessionID q' = sid" "rr_SessionID r = sid"
  shows "RenewLease d q' s4 = (y, s5) \<Longrightarrow> (\<exists>e. y = Inl e) \<and> same_tables s4 s5"
    and "store_Resume d r s4 = (z, s5) \<Longrightarrow> (\<exists>e. z = Inl e) \<and> same_tables s4 s5"
proof -
  obtain it where it: "vd_items s3 sid = Some it" "vs_Status (it_session it) = VClosing"
    using released_write_state [OF e] id by auto
  obtain it' where it': "vd_items s4 sid = Some it'" "evolves it it'" using life.writes_law [OF wr it(1)] by blast
  have gone: "vs_Status (it_session it') \<noteq> VActive" using evolves_inactive [OF it'(2)] it(2) by simp
  show "(\<exists>e. y = Inl e) \<and> same_tables s4 s5" if "RenewLease d q' s4 = (y, s5)"
    by (rule renewal_refused [OF _ that]) (use it'(1) gone others in \<open>simp add: on_session_def renew_cond_def\<close>)
  show "(\<exists>e. z = Inl e) \<and> same_tables s4 s5" if "store_Resume d r s4 = (z, s5)"
    by (rule resume_refused [OF _ that]) (use it'(1) gone others in \<open>simp add: on_session_def resume_cond_def\<close>)
qed

text \<open>
  C12: of the clients that have read the same lease of a session, one at most changes it. The
  reconciler has read the session and found its lease expired, and anything may have happened
  since. If now a renewal of that lease succeeds, the release that the reconciler then tries
  changes nothing and reports the lease as renewed, and any other renewal or resumption that
  rests on the same lease fails and changes nothing. If instead the release succeeds, every
  renewal or resumption of the session fails and changes nothing, then and after any further
  writes.
\<close>

theorem renewal_and_release_exclusive:
  assumes "voice_run d (empty_vdb fs) s0" and "ReleaseExpired_read d candidate cutoff s0 = (Inr (Inr current), s')" and "voice_run d s' s"
    and "vs_ID candidate = lr_SessionID q" and "vs_LeaseExpiresAt candidate = lr_ExpectedLeaseExpiresAt q"
    and "lr_SessionID q' = lr_SessionID q" and "rr_SessionID r = lr_SessionID q"
  shows "(RenewLease d q s = (Inr v, s1) \<longrightarrow>
      (ReleaseExpired_write d candidate cutoff current s1 = (x, s2) \<longrightarrow>
         same_tables s1 s2 \<and> (\<forall>w st. x = Inr (w, st) \<longrightarrow> rs_LeaseRenewed st \<and> \<not> rs_Released st)) \<and>
      (lr_ExpectedLeaseExpiresAt q' = lr_ExpectedLeaseExpiresAt q \<longrightarrow> RenewLease d q' s1 = (y, s2) \<longrightarrow> (\<exists>e. y = Inl e) \<and> same_tables s1 s2) \<and>
      (rr_ExpectedLeaseExpiresAt r = lr_ExpectedLeaseExpiresAt q \<longrightarrow> store_Resume d r s1 = (z, s2) \<longrightarrow> (\<exists>e. z = Inl e) \<and> same_tables s1 s2)) \<and>
    (ReleaseExpired_write d candidate cutoff current s = (Inr (w, st), s3) \<longrightarrow> rs_Released st \<longrightarrow> voice_writes d s3 s4 \<longrightarrow>
      (RenewLease d q' s4 = (y, s5) \<longrightarrow> (\<exists>e. y = Inl e) \<and> same_tables s4 s5) \<and>
      (store_Resume d r s4 = (z, s5) \<longrightarrow> (\<exists>e. z = Inl e) \<and> same_tables s4 s5))"
    (is "(?R \<longrightarrow> ?A) \<and> (?L \<longrightarrow> ?S \<longrightarrow> ?W \<longrightarrow> ?B)")
proof -
  have id: "vs_ID current = lr_SessionID q" using read_candidate [OF assms(2) keyed_run [OF assms(1)]] assms(4) by simp
  have ?A if n: ?R
    using renewal_wins [OF n assms(4) id assms(5-7)] by blast
  moreover have ?B if e: ?L ?S and w: ?W
    using release_wins [OF e w id assms(6,7)] by blast
  ultimately show ?thesis by blast
qed

definition demo_renewal :: lease_renewal where
  "demo_renewal = \<lparr>lr_Scope = sessionScope demo_session, lr_SessionID = ''voice_a'', lr_ExpectedBranchID = [], lr_RuntimeSessionID = ''run'',
     lr_ExpectedLeaseExpiresAt = 120000000000, lr_ExpectedExpiresAt = 3300000000000, lr_RenewedAt = 60000000000, lr_LeaseDuration = 120000000000\<rparr>"

lemma demo_renewal_fields [simp]:
  "lr_Scope demo_renewal = sessionScope demo_session" "lr_SessionID demo_renewal = ''voice_a''" "lr_ExpectedBranchID demo_renewal = []"
  "lr_RuntimeSessionID demo_renewal = ''run''" "lr_ExpectedLeaseExpiresAt demo_renewal = 120000000000"
  "lr_ExpectedExpiresAt demo_renewal = 3300000000000" "lr_RenewedAt demo_renewal = 60000000000" "lr_LeaseDuration demo_renewal = 120000000000"
  "sc_UserID (sessionScope demo_session) = ''u''" "sc_BusinessID (sessionScope demo_session) = ''b''"
  "scopeAllowsBranch (sessionScope demo_session) []"
  by (simp_all add: demo_renewal_def sessionScope_def scopeAllowsBranch_def)

lemma demo_renewed_lease [simp]: "renewed_lease demo_renewal = 180000000000"
  by (simp add: renewed_lease_def Let_def Unix_def epoch_def nsPerSecond_def)

lemma demo_renewal_valid: "\<not> renewal_invalid demo_renewal"
  by (simp add: renewal_invalid_def validateScope_def TrimSpace_def is_space_def
      validSessionID_def HasPrefix_def validRuntimeLeaseID_def in_bytes_def
      zero_time_def epoch_def minutes_def nsPerSecond_def)

lemma demo_renewed:
  "RenewLease demo_store demo_renewal demo_db =
     (Inr (demo_session\<lparr>vs_LeaseExpiresAt := 180000000000, vs_UpdatedAt := 60000000000\<rparr>),
      set_item ''voice_a'' (renew_item demo_renewal 180000000000) demo_db)"
proof -
  have c: "on_session ''voice_a'' (renew_cond demo_renewal 180000000000) demo_db"
    by (simp add: on_session_def demo_simps renew_cond_def epoch_def nsPerSecond_def expected_branch_def)
  show ?thesis using demo_renewal_valid c
    by (simp add: RenewLease_def demo_simps set_item_def renew_item_def validRenewedLease_def epoch_def nsPerSecond_def Unix_def)
qed

theorem renewal_and_release_exclusive_witness:
  "\<exists>v. ReleaseExpired_read demo_store demo_session 120000000000 demo_db = (Inr (Inr demo_session), demo_db) \<and>
     RenewLease demo_store demo_renewal demo_db = (Inr v, set_item ''voice_a'' (renew_item demo_renewal 180000000000) demo_db) \<and>
     same_tables (set_item ''voice_a'' (renew_item demo_renewal 180000000000) demo_db)
       (snd (ReleaseExpired_write demo_store demo_session 120000000000 demo_session (set_item ''voice_a'' (renew_item demo_renewal 180000000000) demo_db)))"
proof -
  let ?s = "set_item ''voice_a'' (renew_item demo_renewal 180000000000) demo_db"
  let ?r = "resume_request undefined (sessionScope demo_session) ''voice_a'' demo_session 0 []"
  obtain x s2 where e: "ReleaseExpired_write demo_store demo_session 120000000000 demo_session ?s = (x, s2)" by fastforce
  have "store_Get demo_store (sessionScope demo_session) ''voice_a'' demo_db = (Inr demo_session, demo_db)"
    using store_Get_found [of demo_db demo_store "''voice_a''" demo_item "sessionScope demo_session"] by (simp add: demo_simps)
  then have r: "ReleaseExpired_read demo_store demo_session 120000000000 demo_db = (Inr (Inr demo_session), demo_db)"
    by (simp add: ReleaseExpired_read_def classifyExpiredRelease_def validSessionID_def HasPrefix_def zero_time_def nsPerSecond_def)
  have "same_tables ?s s2"
    using renewal_and_release_exclusive [OF writes_run [OF demo_writes] r rtranclp.rtrancl_refl, where q = demo_renewal and q' = demo_renewal and r = ?r
        and v = "demo_session\<lparr>vs_LeaseExpiresAt := 180000000000, vs_UpdatedAt := 60000000000\<rparr>" and ?s1.0 = ?s and x = x and ?s2.0 = s2]
      demo_renewed e by (simp add: resume_request_def)
  with e demo_renewed r show ?thesis by simp
qed

section \<open>Lifecycle and turns\<close>




text \<open>
  C14: as long as nothing has expired, the final turns of a session are numbered from one without
  a gap up to its turn sequence, and their generations increase strictly and stay at or below
  its generation; there are no turns of a session that does not exist. This holds whatever
  turns the runtimes, old and new, try to persist.
\<close>

theorem final_turns_gapless:
  assumes "voice_writes d (empty_vdb fs) s"
  shows "(vd_items s sid = None \<longrightarrow> vd_turns s (sid, n) = None) \<and>
    (\<forall>it. vd_items s sid = Some it \<longrightarrow>
      (vd_turns s (sid, n) \<noteq> None \<longleftrightarrow> 1 \<le> n \<and> n \<le> vs_TurnSequence (it_session it)) \<and>
      (\<forall>a i. vd_turns s (sid, a) = Some i \<longrightarrow> ft_GenerationID (ti_turn i) \<le> vs_GenerationID (it_session it)) \<and>
      (\<forall>a b i j. vd_turns s (sid, a) = Some i \<longrightarrow> vd_turns s (sid, b) = Some j \<longrightarrow> a < b \<longrightarrow>
         ft_GenerationID (ti_turn i) < ft_GenerationID (ti_turn j)))"
proof -
  have "turns_wf (empty_vdb fs)" by (simp add: turns_wf_def empty_vdb_def)
  with writes_turns [OF assms(1)] have w: "turns_wf s" .
  show ?thesis
  proof (intro conjI allI impI)
    assume "vd_items s sid = None"
    with w show "vd_turns s (sid, n) = None" by (simp add: turns_wf_def)
  next
    fix it assume "vd_items s sid = Some it"
    with w have g: "good_turns (\<lambda>n. vd_turns s (sid, n)) (vs_TurnSequence (it_session it)) (vs_GenerationID (it_session it))"
      by (simp add: turns_wf_def)
    show "(vd_turns s (sid, n) \<noteq> None) = (1 \<le> n \<and> n \<le> vs_TurnSequence (it_session it))"
      using g unfolding good_turns_def by blast
    show "ft_GenerationID (ti_turn i) \<le> vs_GenerationID (it_session it)" if "vd_turns s (sid, a) = Some i" for a i
      using g that unfolding good_turns_def by blast
    show "ft_GenerationID (ti_turn i) < ft_GenerationID (ti_turn j)"
      if "vd_turns s (sid, a) = Some i" "vd_turns s (sid, b) = Some j" "a < b" for a b i j
      using g that unfolding good_turns_def by blast
  qed
qed

definition demo_turn :: final_turn where
  "demo_turn = \<lparr>ft_SessionID = ''voice_a'', ft_Sequence = 1, ft_GenerationID = 1, ft_Transcript = ''t'', ft_ProviderLanguage = ''en'',
     ft_SelectedLanguage = ''en-IN'', ft_Response = ''r'', ft_Tools = [],
     ft_Timings = \<lparr>tt_SpeechEndedAt = 1, tt_STTFinalAt = 2, tt_LLMFirstTokenAt = 3, tt_TTSFirstAudioAt = 4, tt_ClientFirstAudioAt = 5\<rparr>,
     ft_Usage = \<lparr>tu_InputTokens = None, tu_OutputTokens = None, tu_TotalTokens = None, tu_TTSCharacters = None\<rparr>,
     ft_Cancelled = False, ft_CompletedAt = 6, ft_ExpiresAt = 60000000000\<rparr>"

lemma demo_turn_valid: "validateFinalTurn demo_turn"
  by (simp add: validateFinalTurn_def demo_turn_def validSessionID_def HasPrefix_def zero_time_def minutes_def nsPerSecond_def
      TrimSpace_def is_space_def safeFinalTurnProviderLanguage_def in_bytes_def supportedLanguage_def SpokenLanguages_def
      validFinalTurnTimings_def validFinalTurnUsage_def)

definition demo_after_turn :: vdb where
  "demo_after_turn = turn_write (marshalFinalTurn demo_turn) demo_db"

lemma demo_turn_fields [simp]: "ft_SessionID demo_turn = ''voice_a''" "ft_Sequence demo_turn = 1" "ft_GenerationID demo_turn = 1"
  by (simp_all add: demo_turn_def)

lemma demo_turn_allowed: "True \<notin> set (turn_failed demo_turn demo_db)"
proof -
  have "turn_cond demo_turn demo_session" by (simp add: turn_cond_def demo_turn_def epoch_def nsPerSecond_def)
  then show ?thesis by (simp add: turn_failed_def on_session_def demo_simps)
qed

lemma demo_turn_write: "voice_write demo_store demo_db demo_after_turn"
  unfolding demo_after_turn_def by (rule w_turn [OF demo_turn_allowed demo_turn_valid])

lemma demo_after_turn_item:
  "vd_items demo_after_turn ''voice_a'' = Some (turn_session demo_turn demo_item)" "vd_faults demo_after_turn = []"
  by (simp_all add: demo_after_turn_def turn_write_def set_item_def demo_tables Let_def)

theorem final_turns_gapless_witness: "vd_turns demo_after_turn (''voice_a'', 1) \<noteq> None"
proof -
  have "voice_writes demo_store (empty_vdb []) demo_after_turn"
    using demo_writes demo_turn_write by (rule rtranclp.rtrancl_into_rtrancl)
  from final_turns_gapless [OF this, of "''voice_a''" 1] demo_after_turn_item(1)
  show ?thesis by (simp add: turn_session_def)
qed

text \<open>
  persisting a final turn is idempotent: once it was accepted, repeating the same turn
  after any further writes is accepted again and changes nothing, so that a retry after a lost
  answer is safe.
\<close>

theorem persist_final_turn_idempotent:
  assumes "PersistFinalTurn d t s = (Inr (), s1)" and "voice_writes d s1 s2" and "vd_faults s2 = []"
  shows "PersistFinalTurn d t s2 = (Inr (), s2)"
proof -
  obtain i where i: "vd_turns s1 (ft_SessionID t, ft_Sequence t) = Some i" "ti_ContentHash i = turn_hash t"
    using persisted_hash [OF assms(1)] by blast
  have "vd_turns s2 (ft_SessionID t, ft_Sequence t) = Some i" by (rule writes_keep_turns [OF assms(2) i(1)])
  then show ?thesis using i(2) assms(3) persisted_valid [OF assms(1)] length_turn_hash [of t]
    by (simp add: PersistFinalTurn_def Let_def turn_failed_def lookupFinalTurnHash_def turn_hash_def)
qed

theorem persist_final_turn_idempotent_witness:
  "PersistFinalTurn demo_store demo_turn demo_after_turn = (Inr (), demo_after_turn)"
proof (rule persist_final_turn_idempotent [OF _ rtranclp.rtrancl_refl demo_after_turn_item(2)])
  show "PersistFinalTurn demo_store demo_turn demo_db = (Inr (), demo_after_turn)"
    using demo_turn_valid demo_turn_allowed by (simp add: PersistFinalTurn_def Let_def demo_after_turn_def demo_tables)
qed

section \<open>Creating\<close>

text \<open>
  C15: creating a session is idempotent as long as the request's idempotency record is in the
  table. After a creation that returned a session, whatever happens in between, expirations of
  other items and of the session itself included, repeating the request with the same key and
  body at any time, with another fresh identifier and with the service answering, changes
  nothing, so that no second slot is taken, and answers with a session of the same identifier or
  with not found. It answers with the session if the item is still there and has only moved on in its lifecycle,
  in particular if nothing has expired, and with not found once the session item has expired, which with the
  default lifetimes (55 minutes and 24 hours) it does long before the record.
\<close>

theorem create_is_idempotent:
  assumes "voice_run d (empty_vdb fs) s" and "service_Create d uuid_ok guard c sc i now ulid s = (Inr v, s1)" and "voice_run d s1 s2"
    and "vd_idem s2 (idempotencyPK (sc_UserID sc) (ci_IdempotencyKey i)) = vd_idem s1 (idempotencyPK (sc_UserID sc) (ci_IdempotencyKey i))"
    and "vd_faults s2 = []" and "length ulid' = 26"
  shows "\<exists>x. service_Create d uuid_ok guard c sc i now' ulid' s2 = (x, s2) \<and>
    (x = Inl ErrNotFound \<or> (\<exists>w. x = Inr w \<and> vs_ID w = vs_ID v)) \<and>
    (vd_items s2 (vs_ID v) = None \<longrightarrow> x = Inl ErrNotFound) \<and>
    (\<forall>it it'. vd_items s1 (vs_ID v) = Some it \<longrightarrow> vd_items s2 (vs_ID v) = Some it' \<longrightarrow> evolves it it' \<longrightarrow> (\<exists>w. x = Inr w)) \<and>
    (voice_writes d s1 s2 \<longrightarrow> (\<exists>w. x = Inr w))"
proof -
  let ?r = "new_record c sc i now ulid" and ?r' = "new_record c sc i now' ulid'"
  have none: "create_refused uuid_ok guard c sc i ulid = None"
    using assms(2) by (cases "create_refused uuid_ok guard c sc i ulid") (simp_all add: service_Create_def)
  then have none': "create_refused uuid_ok guard c sc i ulid' = None"
    using assms(6) by (auto simp: create_refused_def split: if_splits option.splits)
  obtain v0 b where st: "store_Create d ?r s = (Inr (v0, b), s1)" and v: "v = setResumable now v0"
    using assms(2) none by (auto simp: service_Create_def split: prod.splits sum.splits)
  have fields: "vs_UserID (cr_Session ?r) = sc_UserID sc" "cr_IdempotencyKey ?r = ci_IdempotencyKey i" "vs_ID (cr_Session ?r) \<noteq> []"
    by (simp_all add: new_record_def new_session_def)
  have id: "vs_ID v = vs_ID v0" using v by (simp add: setResumable_def)
  have reach: "voice_run d (empty_vdb fs) s1" using assms(1) writes_run [OF service_Create_run [OF assms(2)]] by (rule rtranclp_trans)
  obtain k it where k: "vd_idem s1 (idempotencyPK (vs_UserID (cr_Session ?r)) (cr_IdempotencyKey ?r)) = Some k"
      "ii_RequestHash k = cr_RequestHash ?r" "ii_BusinessID k = vs_BusinessID (cr_Session ?r)" "ii_SessionID k \<noteq> []"
    and it: "vd_items s1 (ii_SessionID k) = Some it" "vs_ID (it_session it) = vs_ID v0"
      "vs_UserID (it_session it) = vs_UserID (cr_Session ?r)" "vs_BusinessID (it_session it) = vs_BusinessID (cr_Session ?r)"
      "scopeAllowsBranch (lookup_scope (cr_Session ?r)) (vs_BranchID (it_session it))"
    using created_settled [OF st fields(3)] by (auto simp: settled_def split: option.splits)
  have sid: "ii_SessionID k = vs_ID v" using keyed_run [OF reach] it(1,2) id by (simp add: keyed_def)
  have k2: "vd_idem s2 (idempotencyPK (vs_UserID (cr_Session ?r)) (cr_IdempotencyKey ?r)) = Some k" using k(1) assms(4) fields by simp
  have keyed: "\<And>it'. vd_items s2 (vs_ID v) = Some it' \<Longrightarrow> vs_ID (it_session it') = vs_ID v"
    using keyed_run [OF rtranclp_trans [OF reach assms(3)]] by (simp add: keyed_def)
  have valid: "validate_store d" using st by (simp add: store_Create_def split: if_splits)
  have create: "store_Create d ?r' s2 =
    (case vd_items s2 (vs_ID v) of
       None \<Rightarrow> (Inl ErrNotFound, s2)
     | Some it \<Rightarrow>
         if vs_UserID (it_session it) = vs_UserID (cr_Session ?r) \<and> vs_BusinessID (it_session it) = vs_BusinessID (cr_Session ?r) \<and>
            scopeAllowsBranch (lookup_scope (cr_Session ?r)) (vs_BranchID (it_session it))
         then (Inr (it_session it, False), s2) else (Inl ErrNotFound, s2))"
    using repeated_create [OF k2 k(2-4) assms(5) valid, of ?r'] sid by (simp add: new_record_def new_session_def)
  have same: "\<exists>w. store_Create d ?r' s2 = (Inr (w, False), s2)" if "vd_items s2 (vs_ID v) = Some it'" "evolves it it'" for it'
    using that it create by (simp add: evolves_def Let_def)
  have kept: "\<exists>it'. vd_items s2 (vs_ID v) = Some it' \<and> evolves it it'" if "voice_writes d s1 s2"
    using life.writes_law [OF that it(1)] sid by simp
  let ?x = "case store_Create d ?r' s2 of (Inl e, _) \<Rightarrow> Inl e | (Inr (w, _), _) \<Rightarrow> Inr (setResumable now' w)"
  have "service_Create d uuid_ok guard c sc i now' ulid' s2 = (?x, s2)"
    using none' create by (auto simp: service_Create_def split: option.splits if_splits)
  moreover have "?x = Inl ErrNotFound \<or> (\<exists>w. ?x = Inr w \<and> vs_ID w = vs_ID v)"
    using create keyed by (auto simp: setResumable_def split: option.splits)
  moreover have "vd_items s2 (vs_ID v) = None \<longrightarrow> ?x = Inl ErrNotFound" using create by simp
  moreover have "\<exists>w. ?x = Inr w" if "vd_items s2 (vs_ID v) = Some it'" "evolves it it'" for it' using same [OF that] by auto
  ultimately show ?thesis using it(1) sid kept by auto
qed

definition demo_config :: voice_config where
  "demo_config = normalizeConfig \<lparr>vc_TableName = ''voice'', vc_AgentRuntimeARN = ''arn'', vc_AgentRuntimeQualifier = [], vc_AdmissionEnabled = True,
     vc_RolloutStage = ''100'', vc_RolloutInternalSubjectHashes = [], vc_ProtocolVersion = 0, vc_KVSChannelCount = 0, vc_MaxDuration = 0,
     vc_RotateAfter = 0, vc_LeaseDuration = 0, vc_IdempotencyTTL = 0, vc_LeaseIndexName = [], vc_GlobalCapacityLimit = 0, vc_PerUserCapacityLimit = 0\<rparr>"

definition demo_scope :: scope where
  "demo_scope = \<lparr>sc_UserID = ''u'', sc_BusinessID = ''b'', sc_AllBranches = True, sc_AllowBranchless = False, sc_AllowedBranchIDs = []\<rparr>"

definition demo_input :: create_input where
  "demo_input = \<lparr>ci_BranchID = [], ci_IdempotencyKey = ''k'', ci_PreferredLanguage = ''en-IN'', ci_FallbackLanguage = ''hi-IN'',
     ci_TranscriptStorage = Some True, ci_AudioRecording = Some False, ci_PolicyVersion = ''2026-01-01'', ci_Platform = ''ios'',
     ci_AppVersion = ''1.0.0'', ci_ProtocolVersion = 1\<rparr>"

definition demo_ulid :: "char \<Rightarrow> string" where
  "demo_ulid x = replicate 26 x"

lemma demo_rollout: "rolloutAllows demo_config demo_scope"
  by (simp add: rolloutAllows_def demo_config_def normalizeConfig_def rollout_percentage_def rollout_bucket_def)

lemma demo_input_valid: "validateCreate (\<lambda>_. True) demo_config demo_input"
  by (simp add: validateCreate_def demo_input_def demo_config_def normalizeConfig_def TrimSpace_def supportedLanguage_def SpokenLanguages_def
      policyVersionPattern_def is_digit_def parses_as_date_def digits_value_def month_lengths_def leap_year_def appVersionPattern_def version_tail_def
      Let_def nth_Cons')

lemma demo_create_allowed: "create_refused (\<lambda>_. True) (\<lambda>_ _. None) demo_config demo_scope demo_input (demo_ulid x) = None"
  using demo_rollout demo_input_valid
  by (simp add: create_refused_def demo_ulid_def scopeAllowsBranch_def)
     (simp add: demo_config_def normalizeConfig_def Enabled_def validateScope_def demo_scope_def TrimSpace_def is_space_def)

theorem create_is_idempotent_witness:
  "\<exists>v w s1. service_Create demo_store (\<lambda>_. True) (\<lambda>_ _. None) demo_config demo_scope demo_input 0 (demo_ulid (CHR ''0'')) (empty_vdb []) = (Inr v, s1) \<and>
     service_Create demo_store (\<lambda>_. True) (\<lambda>_ _. None) demo_config demo_scope demo_input 5 (demo_ulid (CHR ''1'')) s1 = (Inr w, s1) \<and> vs_ID w = vs_ID v"
proof -
  let ?r = "new_record demo_config demo_scope demo_input 0 (demo_ulid (CHR ''0''))"
  let ?v = "setResumable 0 (cr_Session ?r)" and ?s = "create_write ?r (empty_vdb [])"
  have "store_Create demo_store ?r (empty_vdb []) = (Inr (cr_Session ?r, True), ?s)"
    by (simp add: store_Create_def lookupIdempotency_def Let_def create_failed_def empty_vdb_def increment_allowed_def)
  then have c: "service_Create demo_store (\<lambda>_. True) (\<lambda>_ _. None) demo_config demo_scope demo_input 0 (demo_ulid (CHR ''0'')) (empty_vdb []) = (Inr ?v, ?s)"
    by (simp add: service_Create_def demo_create_allowed)
  have "vd_faults ?s = []" by (simp add: create_write_def empty_vdb_def Let_def)
  from create_is_idempotent [OF rtranclp.rtrancl_refl c rtranclp.rtrancl_refl refl this, of "demo_ulid (CHR ''1'')" 5] c show ?thesis
    by (auto simp: demo_ulid_def)
qed

section \<open>Tenants\<close>

definition foreign :: "scope \<Rightarrow> vsession \<Rightarrow> bool" where
  "foreign sc v \<longleftrightarrow> vs_UserID v \<noteq> sc_UserID sc \<or> vs_BusinessID v \<noteq> sc_BusinessID sc \<or> \<not> scopeAllowsBranch sc (vs_BranchID v)"

lemma foreign_get:
  assumes "vd_items s sid = Some it" and "foreign sc (it_session it)" and "store_Get d sc sid s = (x, s1)"
  shows "same_tables s s1 \<and> (\<exists>e. x = Inl e)"
proof -
  have t: "same_tables s s1" using store_Get_tables [OF assms(3)] by (simp add: same_tables_def)
  have False if "x = Inr v" for v
  proof -
    note g = store_Get_item [OF assms(3) [unfolded that]]
    show False using g assms(1,2) t by (auto simp: foreign_def same_tables_def)
  qed
  with t show ?thesis by (cases x) auto
qed

text \<open>
  C16: a session of another user, of another business, or of a branch the caller may not see cannot
  be read, resumed or closed: each request fails, whatever the service answers, and leaves every
  item, turn and counter as it was.
\<close>

theorem foreign_sessions_untouched:
  assumes "vd_items s sid = Some it" and "foreign sc (it_session it)"
  shows "(\<exists>e s1. service_Get d c sc sid now s = (Inl e, s1) \<and> same_tables s s1) \<and>
    (\<exists>e s1. service_Resume d c sc sid now now' ulid s = (Inl e, s1) \<and> same_tables s s1) \<and>
    (\<exists>e s1. service_Close d stopper c sc sid now s = (Inl e, s1) \<and> same_tables s s1)"
proof -
  obtain e s1 where g: "store_Get d sc sid s = (Inl e, s1)" and t: "same_tables s s1"
    using foreign_get [OF assms] by (metis surj_pair)
  have same: "same_tables s s" by (simp add: same_tables_def)
  have get: "\<exists>e s1. service_Get d c sc sid now s = (Inl e, s1) \<and> same_tables s s1" for now
    using g t same by (simp add: service_Get_def)
  moreover have "\<exists>e s1. service_Resume d c sc sid now now' ulid s = (Inl e, s1) \<and> same_tables s s1"
    using get [of now] by (auto simp: service_Resume_def)
  moreover have "\<exists>e s1. service_Close d stopper c sc sid now s = (Inl e, s1) \<and> same_tables s s1"
    using g t same by (simp add: service_Close_def Release_def)
  ultimately show ?thesis by blast
qed

theorem foreign_sessions_untouched_witness:
  "\<exists>e s1. service_Close demo_store None demo_config (demo_scope\<lparr>sc_BusinessID := ''c''\<rparr>) ''voice_a'' 0 demo_db = (Inl e, s1) \<and> same_tables demo_db s1"
  using foreign_sessions_untouched [where s = demo_db and sid = "''voice_a''" and it = demo_item and sc = "demo_scope\<lparr>sc_BusinessID := ''c''\<rparr>"
      and d = demo_store and stopper = None and c = demo_config and now = 0]
  by (simp add: demo_simps foreign_def)

section \<open>Expired leases and reconciliation\<close>

lemma append_items_length:
  "append_items limit values is = Some values' \<Longrightarrow> length values \<le> limit \<Longrightarrow> length values' \<le> limit"
  by (induction limit "values" "is" rule: append_items.induct) (auto split: if_splits option.splits)

lemma lease_pages_bound:
  assumes "lease_pages query limit page values cursor = (n, x)" and "length values \<le> limit" and "page \<le> limit"
  shows "n \<le> limit \<and> (\<forall>vs. x = Inr vs \<longrightarrow> length vs \<le> limit)"
  using assms
proof (induction query limit page "values" cursor rule: lease_pages.induct)
  case (1 query limit page "values" cursor)
  note unfold = lease_pages.simps [of query limit page "values" cursor]
  show ?case
  proof (cases "length values < limit \<and> page < limit")
    case True
    then have app: "append_items limit values items = Some values' \<Longrightarrow> length values' \<le> limit" for items values'
      using append_items_length by fastforce
    show ?thesis using 1(2) 1(1) [OF True _ refl] True app
      by (auto simp: unfold split: option.splits prod.splits)
  next
    case False
    with 1(2-4) show ?thesis by (auto simp: unfold split: if_splits)
  qed
qed

text \<open>
  C18: the search for expired leases ends: whatever pages the index answers with, even pages that
  are empty or cursors that go round in circles, it asks at most a hundred times and at most the
  requested number of times, and returns no more sessions than requested.
\<close>

theorem expired_leases_end:
  "fst (ExpiredLeases d query before limit) \<le> 100 \<and>
   (1 \<le> limit \<longrightarrow> int (fst (ExpiredLeases d query before limit)) \<le> limit \<and>
      (\<forall>vs. snd (ExpiredLeases d query before limit) = Inr vs \<longrightarrow> int (length vs) \<le> limit))"
proof -
  let ?l = "if limit \<le> 0 \<or> limit > 100 then 100 else nat limit"
  obtain n x where p: "lease_pages (query before) ?l 0 [] None = (n, x)" by fastforce
  have b: "n \<le> ?l" "x = Inr vs \<Longrightarrow> length vs \<le> ?l" for vs using lease_pages_bound [OF p] by simp_all
  show ?thesis
  proof (cases "validate_store d")
    case True
    with p have e: "ExpiredLeases d query before limit = (n, x)" by (simp add: ExpiredLeases_def)
    have "?l \<le> 100" and "1 \<le> limit \<Longrightarrow> int ?l \<le> limit" by auto
    then show ?thesis unfolding e using b by fastforce
  qed (simp add: ExpiredLeases_def)
qed

theorem expired_leases_end_witness:
  "fst (ExpiredLeases demo_store (\<lambda>_ (c :: nat option) _. Some ([], Some 0)) 0 3) \<le> 3"
  using expired_leases_end [of demo_store "\<lambda>_ (c :: nat option) _. Some ([], Some 0)" 0 3] by simp

definition balanced :: "reconcile_result \<Rightarrow> bool" where
  "balanced r \<longleftrightarrow> re_Examined r = re_Closed r + re_Skipped r + re_Failed r \<and> re_Closed r \<le> re_Stopped r \<and>
     re_Stopped r \<le> re_Closed r + re_Failed r \<and> re_Released r \<le> re_Stopped r + re_Failed r"

lemma reconcile_candidate_balance:
  assumes "balanced r" and "reconcile_candidate d stop arn q cutoff v (r\<lparr>re_Examined := re_Examined r + 1\<rparr>) s = (r', s1)"
  shows "balanced r' \<and> re_Examined r' = re_Examined r + 1"
  using assms
  by (auto simp: reconcile_candidate_def count_failed_def balanced_def Let_def split: prod.splits sum.splits if_splits)

lemma lease_loop_balance:
  assumes "balanced r" and "lease_loop d stop arn q cutoff seen vs ended r s = (r', s1)"
  shows "balanced r' \<and> re_Examined r' \<le> re_Examined r + int (length vs)"
  using assms
proof (induction vs arbitrary: seen ended r s)
  case (Cons v vs)
  let ?r = "r\<lparr>re_Examined := re_Examined r + 1\<rparr>"
  have b: "balanced (count_failed ?r)" "balanced (?r\<lparr>re_Skipped := re_Skipped ?r + 1\<rparr>)"
    using Cons(2) by (simp_all add: balanced_def count_failed_def)
  obtain r2 s2 where c: "reconcile_candidate d stop arn q cutoff v ?r s = (r2, s2)" by fastforce
  note b2 = reconcile_candidate_balance [OF Cons(2) c]
  consider "ended \<noteq> [] \<and> hd ended" | "\<not> (ended \<noteq> [] \<and> hd ended)" "\<not> validCandidate v"
    | "\<not> (ended \<noteq> [] \<and> hd ended)" "validCandidate v" "vs_ID v \<in> set seen" | "\<not> (ended \<noteq> [] \<and> hd ended)" "validCandidate v" "vs_ID v \<notin> set seen"
    by blast
  then show ?case
  proof cases
    case 1
    with Cons(2,3) show ?thesis by simp
  next
    case 2
    with Cons(3) have "lease_loop d stop arn q cutoff seen vs (tl ended) (count_failed ?r) s = (r', s1)" by (auto simp: Let_def)
    from Cons(1) [OF b(1) this] show ?thesis by (simp add: count_failed_def)
  next
    case 3
    with Cons(3) have "lease_loop d stop arn q cutoff seen vs (tl ended) (?r\<lparr>re_Skipped := re_Skipped ?r + 1\<rparr>) s = (r', s1)" by (auto simp: Let_def)
    from Cons(1) [OF b(2) this] show ?thesis by simp
  next
    case 4
    with Cons(3) c have "lease_loop d stop arn q cutoff (vs_ID v # seen) vs (tl ended) r2 s2 = (r', s1)" by (auto simp: Let_def)
    from Cons(1) [OF conjunct1 [OF b2] this] b2 show ?thesis by simp
  qed
qed simp

text \<open>
  a reconciliation accounts for every candidate it examines: each is closed, skipped or
  failed, and counted once; it examines no more than its batch; nothing is counted as closed
  whose runtime was not stopped, and every stop and every released slot that did not lead to
  a closed session shows up as a failure.
\<close>

theorem reconciliation_accounts:
  assumes "Handle d stop arn q query batch cutoff ended s = (Some r, s1)" and "1 \<le> batch"
  shows "re_Examined r = re_Closed r + re_Skipped r + re_Failed r \<and> re_Examined r \<le> batch \<and> re_Closed r \<le> re_Stopped r \<and>
    re_Stopped r \<le> re_Closed r + re_Failed r \<and> re_Released r \<le> re_Stopped r + re_Failed r"
proof -
  obtain vs where vs: "snd (ExpiredLeases d query cutoff batch) = Inr vs"
    and l: "lease_loop d stop arn q cutoff [] vs (tl ended) no_result s = (r, s1)"
    using assms(1) by (auto simp: Handle_def split: prod.splits sum.splits if_splits)
  obtain n x where p: "ExpiredLeases d query cutoff batch = (n, x)" by fastforce
  have "int (length vs) \<le> batch"
  proof (cases "validate_store d")
    case True
    let ?l = "if batch \<le> 0 \<or> batch > 100 then 100 else nat batch"
    have "lease_pages (query cutoff) ?l 0 [] None = (n, Inr vs)" using p vs True by (simp add: ExpiredLeases_def)
    then have "length vs \<le> ?l" using lease_pages_bound by fastforce
    then show ?thesis using assms(2) by (auto split: if_splits)
  qed (use p vs in \<open>simp add: ExpiredLeases_def\<close>)
  moreover have "balanced no_result" by (simp add: balanced_def no_result_def)
  ultimately show ?thesis using lease_loop_balance [OF _ l] by (auto simp: balanced_def no_result_def)
qed

lemma demo_handle:
  "\<exists>r s1. Handle demo_store (\<lambda>_. True) ''arn'' ''PROD'' (\<lambda>_ (c :: nat option) _. Some ([Some demo_session], None)) 10 120000000000 [] demo_db = (Some r, s1)"
proof -
  have "snd (ExpiredLeases demo_store (\<lambda>_ (c :: nat option) _. Some ([Some demo_session], None)) 120000000000 10) = Inr [demo_session]"
    by (simp add: ExpiredLeases_def lease_pages.simps)
  then show ?thesis by (simp add: Handle_def case_prod_beta)
qed

theorem reconciliation_accounts_witness:
  "\<exists>r s1. Handle demo_store (\<lambda>_. True) ''arn'' ''PROD'' (\<lambda>_ (c :: nat option) _. Some ([Some demo_session], None)) 10 120000000000 [] demo_db = (Some r, s1) \<and>
     re_Examined r = re_Closed r + re_Skipped r + re_Failed r"
proof -
  obtain r s1 where h: "Handle demo_store (\<lambda>_. True) ''arn'' ''PROD'' (\<lambda>_ (c :: nat option) _. Some ([Some demo_session], None)) 10 120000000000 [] demo_db
      = (Some r, s1)" using demo_handle by blast
  from reconciliation_accounts [OF h] h show ?thesis by auto
qed

lemma slot_counted:
  assumes "voice_run d (empty_vdb fs) s" and "vd_items s sid = Some it" and "\<not> vs_CapacityReleased (it_session it)"
  shows "decrement_allowed (vd_global s)" "decrement_allowed (vd_user s (vs_UserID (it_session it)))"
proof -
  let ?u = "vs_UserID (it_session it)"
  have s: "finite (dom (vd_items s))" "0 \<le> slack_global s" "0 \<le> slack_user s ?u"
    using run_slack [OF assms(1) slack_empty(3), of ?u] by (simp_all add: slack_empty)
  have "0 < card (holders p s)" if "p ?u" for p
    using that finite_holders [OF s(1), of p] holder_mem [OF assms(2,3), of p] by (auto simp: card_gt_0_iff)
  then have "0 < card (holders (\<lambda>_. True) s)" "0 < card (holders ((=) ?u) s)" by simp_all
  with s(2,3) have "1 \<le> count (vd_global s)" "1 \<le> count (vd_user s ?u)" by (simp_all add: slack_global_def slack_user_def)
  then show "decrement_allowed (vd_global s)" "decrement_allowed (vd_user s ?u)"
    by (auto simp: decrement_allowed_def count_def split: option.splits)
qed

lemma own_scope [simp]:
  "scopeAllowsBranch (sessionScope v) (vs_BranchID v)" "scopeAllowsBranch (scopeFor v) (vs_BranchID v)"
  "sc_UserID (sessionScope v) = vs_UserID v" "sc_BusinessID (sessionScope v) = vs_BusinessID v"
  "sc_UserID (scopeFor v) = vs_UserID v" "sc_BusinessID (scopeFor v) = vs_BusinessID v"
  by (auto simp: scopeAllowsBranch_def sessionScope_def scopeFor_def)

lemma expected_branch_own [simp]: "expected_branch (vs_BranchID v) v"
  by (simp add: expected_branch_def)

lemma release_expired_done:
  assumes "voice_run d (empty_vdb fs) s" and "vd_faults s = []" and "validate_store d" and "vd_items s sid = Some it"
    and v: "v = it_session it" and "vs_Status v = VActive" and "validSessionID sid" and "vs_UserID v \<noteq> []" and "vs_BusinessID v \<noteq> []"
    and "vs_LeaseExpiresAt v \<noteq> zero_time" and "vs_LeaseExpiresAt v \<le> cutoff"
  shows "ReleaseExpired d v cutoff s =
    (Inr (released_session v cutoff, no_release\<lparr>rs_Released := True, rs_ShouldStop := True\<rparr>), release_write (sessionScope v) v cutoff s)"
proof -
  have id: "vs_ID v = sid" using keyed_run [OF assms(1)] assms(4) v by (simp add: keyed_def)
  have nr: "\<not> vs_CapacityReleased v" using wfi.run_from_empty [OF assms(1,4)] assms(6) v by (simp add: item_wf_def Let_def)
  have g: "store_Get d (sessionScope v) sid s = (Inr v, s)"
    using assms(2-4) v store_Get_found [of s d sid it "sessionScope v"] by simp
  have "True \<notin> set (release_failed (sessionScope v) v (Some (vs_LeaseExpiresAt v, cutoff)) s)"
    using slot_counted [OF assms(1,4)] assms(4,6,11) nr v id
    by (simp add: release_failed_def on_session_def release_cond_def)
  moreover have "classifyExpiredRelease v (vs_LeaseExpiresAt v) cutoff = None"
    using assms(6,11) by (simp add: classifyExpiredRelease_def)
  ultimately show ?thesis using g id assms(2,3,7-11) by (simp add: ReleaseExpired_parts Let_def)
qed

lemma mark_closed_done:
  assumes "vd_faults s = []" and "vd_items s sid = Some it" and "close_cond (scopeFor v) (vs_BranchID v) (it_session it)"
  shows "MarkClosed d (scopeFor v) sid (vs_BranchID v) now s = (Inr (), set_item sid (close_item now) s)"
  using assms by (simp add: MarkClosed_def on_session_def)

text \<open>
  C17: an abandoned session is reclaimed: when the service answers and the runtime can be stopped,
  one reconciliation of an active session whose lease has passed closes it and gives back its
  slot in both counters, and counts one release, one stop and one close.
\<close>

theorem abandoned_session_is_reclaimed:
  assumes "voice_run d (empty_vdb fs) s" and "vd_faults s = []" and "validate_store d" and "vd_items s sid = Some it"
    and "vs_Status (it_session it) = VActive" and "validSessionID sid" and "vs_UserID (it_session it) \<noteq> []" and "vs_BusinessID (it_session it) \<noteq> []"
    and "vs_LeaseExpiresAt (it_session it) \<noteq> zero_time" and "vs_LeaseExpiresAt (it_session it) \<le> cutoff"
    and "TrimSpace (vs_RuntimeSessionID (it_session it)) \<noteq> []"
  shows "\<exists>s1 it1. reconcile_candidate d (\<lambda>_. True) arn q cutoff (it_session it) no_result s =
      (no_result\<lparr>re_Released := 1, re_Stopped := 1, re_Closed := 1\<rparr>, s1) \<and>
    vd_items s1 sid = Some it1 \<and> vs_Status (it_session it1) = VClosed \<and>
    count (vd_global s1) = count (vd_global s) - 1 \<and>
    count (vd_user s1 (vs_UserID (it_session it))) = count (vd_user s (vs_UserID (it_session it))) - 1"
proof -
  let ?v = "it_session it" and ?s1 = "release_write (sessionScope (it_session it)) (it_session it) cutoff s"
  let ?it = "release_item cutoff it" and ?w = "released_session (it_session it) cutoff"
  have id: "vs_ID ?v = sid" using keyed_run [OF assms(1)] assms(4) by (simp add: keyed_def)
  have nr: "\<not> vs_CapacityReleased ?v" using wfi.run_from_empty [OF assms(1,4)] assms(5) by (simp add: item_wf_def Let_def)
  have e: "ReleaseExpired d ?v cutoff s = (Inr (?w, no_release\<lparr>rs_Released := True, rs_ShouldStop := True\<rparr>), ?s1)"
    by (rule release_expired_done [OF assms(1-4) refl assms(5-10)])
  have i: "vd_items ?s1 sid = Some ?it" "vd_faults ?s1 = []"
    using assms(2,4) id by (simp_all add: release_write_def set_item_def)
  have w: "vs_ID ?w = sid" "vs_BranchID ?w = vs_BranchID ?v" "vs_RuntimeSessionID ?w = vs_RuntimeSessionID ?v"
    using id by (simp_all add: released_session_def)
  have "close_cond (scopeFor ?w) (vs_BranchID ?w) (it_session ?it)"
    by (simp add: close_cond_def release_item_def released_session_def expected_branch_def scopeFor_def)
  from mark_closed_done [OF i(2,1) this]
  have m: "MarkClosed d (scopeFor ?w) sid (vs_BranchID ?w) cutoff ?s1 = (Inr (), set_item sid (close_item cutoff) ?s1)" .
  have "reconcile_candidate d (\<lambda>_. True) arn q cutoff ?v no_result s =
      (no_result\<lparr>re_Released := 1, re_Stopped := 1, re_Closed := 1\<rparr>, set_item sid (close_item cutoff) ?s1)"
    using assms(11) id w m by (simp add: reconcile_candidate_def e Let_def no_release_def no_result_def)
  moreover have "vd_items (set_item sid (close_item cutoff) ?s1) sid = Some (close_item cutoff ?it)" using i by (simp add: set_item_def)
  ultimately show ?thesis using slot_counted [OF assms(1,4) nr] by (auto simp: close_item_def count_simps)
qed

theorem abandoned_session_is_reclaimed_witness:
  "\<exists>s1 it1. reconcile_candidate demo_store (\<lambda>_. True) ''arn'' ''PROD'' 120000000000 (it_session demo_item) no_result demo_db =
      (no_result\<lparr>re_Released := 1, re_Stopped := 1, re_Closed := 1\<rparr>, s1) \<and>
    vd_items s1 ''voice_a'' = Some it1 \<and> vs_Status (it_session it1) = VClosed \<and> count (vd_global s1) = count (vd_global demo_db) - 1 \<and>
    count (vd_user s1 (vs_UserID (it_session demo_item))) = count (vd_user demo_db (vs_UserID (it_session demo_item))) - 1"
  by (rule abandoned_session_is_reclaimed [OF writes_run [OF demo_writes]])
     (simp_all add: demo_simps validSessionID_def HasPrefix_def zero_time_def nsPerSecond_def TrimSpace_def is_space_def)

text \<open>
  C20: a close whose runtime cannot be stopped leaves the session closing and listed in the
  lease index from that moment, for the reconciler to finish; but as long as the old lease is
  in the future the reconciler's release refuses that very session as an invalid request.
\<close>

theorem closing_session_refused_until_lease_passes:
  assumes "voice_run d (empty_vdb fs) s" and "vd_faults s = []" and "validate_store d" and "vd_items s sid = Some it"
    and "vs_Status (it_session it) = VActive" and "validSessionID sid" and "validateScope sc" and "\<not> foreign sc (it_session it)"
    and "now \<le> cutoff" and "cutoff < vs_LeaseExpiresAt (it_session it)"
  shows "\<exists>s1 it1. service_Close d (Some (\<lambda>_. False)) c sc sid now s = (Inl ErrProvider, s1) \<and> vd_items s1 sid = Some it1 \<and>
    vs_Status (it_session it1) = VClosing \<and> it_gsi2 it1 = Some now \<and>
    ReleaseExpired d (it_session it1) cutoff s1 = (Inl ErrInvalidRequest, s1)"
proof -
  let ?v = "it_session it" and ?s1 = "release_write sc (it_session it) now s" and ?it = "release_item now it"
  have f: "vs_UserID ?v = sc_UserID sc" "vs_BusinessID ?v = sc_BusinessID sc" "scopeAllowsBranch sc (vs_BranchID ?v)"
    using assms(8) by (simp_all add: foreign_def)
  have id: "vs_ID ?v = sid" using keyed_run [OF assms(1)] assms(4) by (simp add: keyed_def)
  have nr: "\<not> vs_CapacityReleased ?v" using wfi.run_from_empty [OF assms(1,4)] assms(5) by (simp add: item_wf_def Let_def)
  have g: "store_Get d sc sid s = (Inr ?v, s)" using assms(2-4) f by (simp add: store_Get_found)
  have "True \<notin> set (release_failed sc ?v None s)"
    using slot_counted [OF assms(1,4) nr] assms(4,5) nr id f by (simp add: release_failed_def on_session_def release_cond_def)
  then have "Release d sc sid now s = (Inr (released_session ?v now, no_release\<lparr>rs_Released := True, rs_ShouldStop := True\<rparr>), ?s1)"
    using g assms(2,5) by (simp add: Release_def)
  then have "service_Close d (Some (\<lambda>_. False)) c sc sid now s = (Inl ErrProvider, ?s1)"
    using assms(6,7) by (simp add: service_Close_def no_release_def)
  moreover have "vd_items ?s1 sid = Some ?it" using assms(4) id by (simp add: release_write_def set_item_def)
  moreover have "ReleaseExpired d (it_session ?it) cutoff ?s1 = (Inl ErrInvalidRequest, ?s1)"
    using assms(3,10) by (simp add: ReleaseExpired_parts release_item_def)
  ultimately show ?thesis by (auto simp: release_item_def)
qed

theorem closing_session_refused_until_lease_passes_witness:
  "\<exists>s1 it1. service_Close demo_store (Some (\<lambda>_. False)) demo_config demo_scope ''voice_a'' 1 demo_db = (Inl ErrProvider, s1) \<and>
    vd_items s1 ''voice_a'' = Some it1 \<and> vs_Status (it_session it1) = VClosing \<and> it_gsi2 it1 = Some 1 \<and>
    ReleaseExpired demo_store (it_session it1) 2 s1 = (Inl ErrInvalidRequest, s1)"
  by (rule closing_session_refused_until_lease_passes [where it = demo_item, OF writes_run [OF demo_writes]])
     (simp_all add: demo_simps validSessionID_def HasPrefix_def validateScope_def TrimSpace_def is_space_def foreign_def demo_scope_def scopeAllowsBranch_def)

section \<open>Heartbeat and store\<close>

text \<open>
  the heartbeat and the table agree on the lease: when the session's expiry is a whole
  second, as it is in every session read from the table, a renewal that the store carried out
  is accepted by the heartbeat, which then expects exactly the lease the table holds and is
  ready for the next write.
\<close>

theorem heartbeat_follows_stored_lease:
  assumes "voice_run d (empty_vdb fs) s" and "hb_expiresAt h = Unix n" and "RenewLease d (hb_request h now) s = (Inr v, s1)"
    and "hb_serving h' = Some (hb_request h now, hb_newLease h now)" and "\<not> hb_closed h'"
  shows "hb_run_answer (Some v) h' = h'\<lparr>hb_serving := None, hb_expectedLease := hb_newLease h now, hb_inFlight := False\<rparr> \<and>
    (\<exists>it. vd_items s1 (hb_sessionID h) = Some it \<and> vs_LeaseExpiresAt (it_session it) = hb_newLease h now)"
proof -
  have w: "every_item item_wf s" using wfi.run_from_empty [OF assms(1)] by (auto simp: every_item_def)
  have "vs_LeaseExpiresAt v = hb_newLease h now"
    using store_renewer.accepted [OF w assms(2,3)] by (simp add: validLeaseHeartbeatResult_def)
  moreover have "\<exists>it. vd_items s1 (hb_sessionID h) = Some it \<and> v = it_session it"
    using RenewLease_item(2) [OF assms(3)] by (simp add: hb_request_def)
  ultimately show ?thesis using store_renewer.answer [OF w assms(2-5)] by auto
qed

definition demo_beat :: heartbeat where
  "demo_beat = \<lparr>hb_scope = sessionScope demo_session, hb_sessionID = ''voice_a'', hb_branchID = [], hb_runtimeSessionID = ''run'',
     hb_expectedLease = 120000000000, hb_expiresAt = 3300000000000, hb_leaseDuration = 120000000000, hb_minInterval = 30000000000,
     hb_lastWriteAt = 60000000000, hb_inFlight = True, hb_closed = False, hb_err = False, hb_cancelled = False, hb_jobs = [],
     hb_serving = Some (demo_renewal, 180000000000), hb_done = False, hb_log = [demo_renewal]\<rparr>"

lemma demo_beat_request: "hb_request demo_beat 60000000000 = demo_renewal" "hb_newLease demo_beat 60000000000 = 180000000000"
  by (simp_all add: hb_request_def demo_beat_def demo_renewal_def hb_newLease_def)

theorem heartbeat_follows_stored_lease_witness:
  "\<exists>v s1. RenewLease demo_store demo_renewal demo_db = (Inr v, s1) \<and> hb_expectedLease (hb_run_answer (Some v) demo_beat) = 180000000000 \<and>
     (\<exists>it. vd_items s1 ''voice_a'' = Some it \<and> vs_LeaseExpiresAt (it_session it) = 180000000000)"
proof -
  have h: "hb_expiresAt demo_beat = Unix 3300" "hb_serving demo_beat = Some (hb_request demo_beat 60000000000, hb_newLease demo_beat 60000000000)"
    "\<not> hb_closed demo_beat" "hb_sessionID demo_beat = ''voice_a''"
    by (simp_all add: demo_beat_request) (simp_all add: demo_beat_def Unix_def nsPerSecond_def)
  from heartbeat_follows_stored_lease [OF writes_run [OF demo_writes] h(1) _ h(2,3), unfolded demo_beat_request, OF demo_renewed] demo_renewed h(4)
  show ?thesis by simp
qed

end
