(* ===== verification/Faults.thy ===== *)
theory Faults
  imports Main
begin

text \<open>
  Calls to a database or a service that may fail. A call is answered, fails without effect, or
  takes effect and its answer is lost; which of these happens is decided by a schedule that is
  part of the state of the callee. An exhausted schedule answers every call.
\<close>

datatype call_fault = Answered | Unsent | AnswerLost

record faulty =
  fa_faults :: "call_fault list"

definition external_call :: "('z faulty_scheme \<Rightarrow> 'a \<times> 'z faulty_scheme) \<Rightarrow> 'z faulty_scheme \<Rightarrow> 'a option \<times> 'z faulty_scheme" where
  "external_call f s =
     (case fa_faults s of
        [] \<Rightarrow> (case f s of (a, t) \<Rightarrow> (Some a, t))
      | Answered # fs \<Rightarrow> (case f (s\<lparr>fa_faults := fs\<rparr>) of (a, t) \<Rightarrow> (Some a, t))
      | Unsent # fs \<Rightarrow> (None, s\<lparr>fa_faults := fs\<rparr>)
      | AnswerLost # fs \<Rightarrow> (None, snd (f (s\<lparr>fa_faults := fs\<rparr>))))"

lemma external_call_effect:
  assumes "external_call f s = (r, t)"
  obtains fs where "t = s\<lparr>fa_faults := fs\<rparr>" and "r = None"
  | fs where "t = snd (f (s\<lparr>fa_faults := fs\<rparr>))" and "r = None \<or> r = Some (fst (f (s\<lparr>fa_faults := fs\<rparr>)))"
proof (cases "fa_faults s")
  case Nil
  then have e: "s\<lparr>fa_faults := []\<rparr> = s" by simp
  from assms Nil show ?thesis using that(2) [of "[]", unfolded e] by (auto simp: external_call_def split: prod.splits)
next
  case (Cons x fs)
  with assms show ?thesis using that(1) [of fs] that(2) [of fs]
    by (cases x) (auto simp: external_call_def split: prod.splits)
qed

lemma call_without_faults: "fa_faults s = [] \<Longrightarrow> external_call f s = (Some (fst (f s)), snd (f s))"
  by (simp add: external_call_def split_beta)

text \<open>A transaction that answers with an error is rolled back: its call leaves the state, or takes its whole effect.\<close>

lemma rollback_effect:
  assumes "external_call (\<lambda>s. case f s of (Inl e, _) \<Rightarrow> (Inl e, s) | (Inr a, t) \<Rightarrow> (Inr a, t)) s = (q, t)"
  obtains fs where "t = s\<lparr>fa_faults := fs\<rparr>" and "q = None \<or> (\<exists>e. q = Some (Inl e) \<and> fst (f (s\<lparr>fa_faults := fs\<rparr>)) = Inl e)"
  | fs a where "f (s\<lparr>fa_faults := fs\<rparr>) = (Inr a, t)" and "q = None \<or> q = Some (Inr a)"
  using assms
proof (cases rule: external_call_effect)
  case (1 fs)
  then show ?thesis using that(1) by simp
next
  case (2 fs)
  obtain x u where x: "f (s\<lparr>fa_faults := fs\<rparr>) = (x, u)" by fastforce
  show ?thesis
  proof (cases x)
    case (Inl e)
    then show ?thesis using 2 x that(1) [of fs] by auto
  next
    case (Inr a)
    then show ?thesis using 2 x that(2) [of fs a] by auto
  qed
qed

end
