(* ===== verification/Go_Json_Facts.thy ===== *)
theory Go_Json_Facts
  imports Go_Json
begin

text \<open>
  The decoder against the encoder. Decoding an encoded string gives it back, decoded strings
  are well-formed UTF-8, the recursion bound of the decoder is never what stops it, and the lemmas
  \<open>reads_*\<close> compose the texts of parts into the text of an array or an object.
\<close>

section \<open>UTF-8\<close>

lemma char_width_take:
  assumes "char_width c s = w" and "0 < w"
  shows "char_width c (take (w - 1) s @ x) = w" "w - 1 \<le> length s" "2 \<le> w"
proof -
  have "char_width c (take (w - 1) s @ x) = w \<and> w - 1 \<le> length s \<and> 2 \<le> w"
  proof -
    consider "s = []" | a where "s = [a]" | a b where "s = [a, b]" | a b d t where "s = a # b # d # t"
      by (metis list.exhaust)
    then show ?thesis using assms
      by cases (simp_all add: char_width_def rune_width_def numeral_3_eq_3 split: if_splits, auto)
  qed
  then show "char_width c (take (w - 1) s @ x) = w" "w - 1 \<le> length s" "2 \<le> w" by auto
qed

lemma take_width: "0 < w \<Longrightarrow> take w (c # s) = c # take (w - 1) s"
  by (cases w) auto

lemma ValidString_append: "ValidString p \<Longrightarrow> ValidString (p @ t) \<longleftrightarrow> ValidString t"
proof (induction p rule: ValidString.induct)
  case (2 c s)
  show ?case
  proof (cases "of_char c < (128 :: nat)")
    case True
    with 2 show ?thesis by simp
  next
    case False
    let ?w = "char_width c s"
    from False 2(3) have w: "0 < ?w" "ValidString (drop (?w - 1) s)" by (auto simp: Let_def)
    note f = char_width_take [OF refl w(1)]
    have "char_width c (s @ t) = ?w"
      using f(1) [of "drop (?w - 1) s @ t"] by (metis append_assoc append_take_drop_id)
    moreover have "drop (?w - 1) (s @ t) = drop (?w - 1) s @ t" using f(2) by simp
    ultimately show ?thesis using 2(2) [OF False refl w(2)] w False by (simp add: Let_def)
  qed
qed simp

lemma ValidString_chunk:
  assumes "\<not> of_char c < (128 :: nat)" and "0 < char_width c s"
  shows "ValidString (take (char_width c s) (c # s))"
  using char_width_take(1) [OF refl assms(2), of "[]"] char_width_take(2) [OF refl assms(2)] assms
  by (simp add: take_width Let_def)

lemma ValidString_ascii: "of_char c < (128 :: nat) \<Longrightarrow> ValidString [c]"
  by simp

lemma utf8_encode_ascii: "n < 128 \<Longrightarrow> utf8_encode n = [char_of n]"
  by (simp add: utf8_encode_def)

lemma div_digit:
  fixes r a b :: nat
  assumes "0 < a"
  shows "r div a = b * (r div (a * b)) + r div a mod b \<and> a * (r div a) \<le> r \<and> r < a * (r div a) + a"
proof -
  have "r div a = b * (r div a div b) + r div a mod b" by simp
  then show ?thesis using assms dividend_less_times_div [OF assms, of r] by (simp add: div_mult2_eq ac_simps)
qed

lemma ValidString_encode:
  assumes "r < 0x110000" and "\<not> surrogate r"
  shows "ValidString (utf8_encode r)"
proof -
  consider "r < 128" | "128 \<le> r" "r < 2048" | "2048 \<le> r" "r < 65536" | "65536 \<le> r" by linarith
  then show ?thesis
  proof cases
    case 1
    then show ?thesis by (simp add: utf8_encode_ascii of_char_of)
  next
    case 2
    then show ?thesis
      by (simp add: utf8_encode_def of_char_of char_width_def rune_width_def cont_def Let_def) linarith
  next
    case 3
    note q = div_digit [of 64 r 64, simplified]
    have "r div 4096 < 16" using 3 by linarith
    moreover have "r div 4096 = 0 \<Longrightarrow> 32 \<le> r div 64 mod 64" using 3 q by linarith
    moreover have "r div 4096 = 13 \<Longrightarrow> r div 64 mod 64 < 32" using 3 assms q unfolding surrogate_def by linarith
    ultimately show ?thesis using 3
      by (simp add: utf8_encode_def of_char_of char_width_def rune_width_def cont_def Let_def) (intro conjI impI; linarith)
  next
    case 4
    note q = div_digit [of 4096 r 64, simplified]
    have "r div 262144 \<le> 4" using assms by linarith
    moreover have "r div 262144 = 0 \<Longrightarrow> 16 \<le> r div 4096 mod 64" using 4 q by linarith
    moreover have "r div 262144 = 4 \<Longrightarrow> r div 4096 mod 64 < 16" using 4 assms q by linarith
    ultimately show ?thesis using 4
      by (simp add: utf8_encode_def of_char_of char_width_def rune_width_def cont_def Let_def) (intro conjI impI; linarith)
  qed
qed

section \<open>Strings\<close>

lemma hex4_low:
  assumes "n < 256"
  shows "hex4 [CHR ''0'', CHR ''0'', hex_digit (n div 16), hex_digit (n mod 16)] = Some n"
proof -
  have "hex_value (hex_digit (n div 16)) = Some (n div 16)" "hex_value (hex_digit (n mod 16)) = Some (n mod 16)"
    using assms by (auto intro!: hex_value_digit)
  moreover have "hex_value (CHR ''0'') = Some 0" by (simp add: hex_value_def)
  ultimately show ?thesis by (simp add: hex4_def)
qed

lemma char_code_eq:
  "of_char c = (8 :: nat) \<longleftrightarrow> c = CHR 0x08" "of_char c = (9 :: nat) \<longleftrightarrow> c = CHR 0x09"
  "of_char c = (10 :: nat) \<longleftrightarrow> c = CHR 0x0A" "of_char c = (12 :: nat) \<longleftrightarrow> c = CHR 0x0C"
  "of_char c = (13 :: nat) \<longleftrightarrow> c = CHR 0x0D"
  using of_char_eq_iff [where 'a = nat, of c "CHR 0x08"] of_char_eq_iff [where 'a = nat, of c "CHR 0x09"]
    of_char_eq_iff [where 'a = nat, of c "CHR 0x0A"] of_char_eq_iff [where 'a = nat, of c "CHR 0x0C"]
    of_char_eq_iff [where 'a = nat, of c "CHR 0x0D"]
  by simp_all

lemma read_json_char:
  assumes "of_char c < (128 :: nat)"
  shows "read_string (json_char c @ t) = emit [c] (read_string t)"
proof -
  let ?n = "of_char c :: nat"
  have u: "read_string ([CHR 0x5C, CHR ''u'', CHR ''0'', CHR ''0'', hex_digit (?n div 16), hex_digit (?n mod 16)] @ t) = emit [c] (read_string t)"
    using assms hex4_low [of ?n] utf8_encode_ascii [of ?n]
    by (simp add: unicode_escape_def surrogate_def)
  have e: "read_string ([CHR 0x5C, x] @ t) = emit [y] (read_string t)" if "simple_escape x = Some y" "x \<noteq> CHR ''u''" for x y
    using that by simp
  show ?thesis
  proof (cases "?n < 32 \<and> ?n \<notin> {8, 9, 10, 12, 13} \<or> c = CHR ''<'' \<or> c = CHR ''>'' \<or> c = CHR ''&''")
    case True
    then have "json_char c = [CHR 0x5C, CHR ''u'', CHR ''0'', CHR ''0'', hex_digit (?n div 16), hex_digit (?n mod 16)]"
      by (auto simp: json_char_def Let_def)
    then show ?thesis using u by simp
  next
    case False
    show ?thesis
    proof (cases "c \<in> {CHR 0x22, CHR 0x5C, CHR 0x08, CHR 0x09, CHR 0x0A, CHR 0x0C, CHR 0x0D}")
      case True
      then show ?thesis by (elim insertE emptyE) (simp_all add: json_char_def simple_escape_def)
    next
      case ord: False
      then have n: "?n \<notin> {8, 9, 10, 12, 13}" by (simp add: char_code_eq)
      with False have "\<not> ?n < 32" by blast
      moreover from this n ord False have "json_char c = [c]" by (simp add: json_char_def Let_def)
      ultimately show ?thesis using ord assms by simp
    qed
  qed
qed

lemma read_separator: "read_string ([CHR 0x5C] @ ''u2028'' @ t) = emit [CHR 0xE2, CHR 0x80, CHR 0xA8] (read_string t)"
    "read_string ([CHR 0x5C] @ ''u2029'' @ t) = emit [CHR 0xE2, CHR 0x80, CHR 0xA9] (read_string t)"
proof -
  have "hex4 ''2028'' = Some 0x2028" "hex4 ''2029'' = Some 0x2029" by code_simp+
  moreover have "utf8_encode 0x2028 = [CHR 0xE2, CHR 0x80, CHR 0xA8]" "utf8_encode 0x2029 = [CHR 0xE2, CHR 0x80, CHR 0xA9]"
  proof -
    have c: "map char_of [226, 128, 168 :: nat] = [CHR 0xE2, CHR 0x80, CHR 0xA8]"
      "map char_of [226, 128, 169 :: nat] = [CHR 0xE2, CHR 0x80, CHR 0xA9]" by code_simp+
    have "utf8_encode 0x2028 = map char_of [226, 128, 168 :: nat]" "utf8_encode 0x2029 = map char_of [226, 128, 169 :: nat]"
      by (simp_all add: utf8_encode_def)
    then show "utf8_encode 0x2028 = [CHR 0xE2, CHR 0x80, CHR 0xA8]" "utf8_encode 0x2029 = [CHR 0xE2, CHR 0x80, CHR 0xA9]"
      by (simp_all only: c)
  qed
  then have "unicode_escape 0x2028 t = ([CHR 0xE2, CHR 0x80, CHR 0xA8], 0)" "unicode_escape 0x2029 t = ([CHR 0xE2, CHR 0x80, CHR 0xA9], 0)"
    by (simp_all add: unicode_escape_def surrogate_def)
  ultimately show "read_string ([CHR 0x5C] @ ''u2028'' @ t) = emit [CHR 0xE2, CHR 0x80, CHR 0xA8] (read_string t)"
    "read_string ([CHR 0x5C] @ ''u2029'' @ t) = emit [CHR 0xE2, CHR 0x80, CHR 0xA9] (read_string t)" by simp_all
qed

lemma read_chunk:
  assumes "\<not> of_char c < (128 :: nat)" and "0 < char_width c s"
  shows "read_string (take (char_width c s) (c # s) @ t) = emit (take (char_width c s) (c # s)) (read_string t)"
proof -
  let ?w = "char_width c s"
  note f = char_width_take(1) [OF refl assms(2), of t] char_width_take(2) [OF refl assms(2)]
  have "c \<noteq> CHR 0x22" "c \<noteq> CHR 0x5C" using assms(1) by auto
  then show ?thesis
    using assms f by (simp add: take_width Let_def)
qed

text \<open>Decoding an encoded string gives it back.\<close>

lemma string_roundtrip: "ValidString s \<Longrightarrow> read_string (json_escape s @ [CHR 0x22] @ r) = Some (s, r)"
proof (induction s rule: ValidString.induct)
  case (2 c s)
  show ?case
  proof (cases "of_char c < (128 :: nat)")
    case True
    with 2 show ?thesis by (simp add: read_json_char emit_def)
  next
    case False
    let ?w = "char_width c s" and ?t = "json_escape (drop (char_width c s - 1) s) @ [CHR 0x22] @ r"
    from False 2(3) have w: "0 < ?w" "ValidString (drop (?w - 1) s)" by (auto simp: Let_def)
    let ?p = "take ?w (c # s)"
    have t: "read_string ?t = Some (drop (?w - 1) s, r)" using 2(2) [OF False refl w(2)] .
    define q where "q = (if ?p = [CHR 0xE2, CHR 0x80, CHR 0xA8] then [CHR 0x5C] @ ''u2028''
      else if ?p = [CHR 0xE2, CHR 0x80, CHR 0xA9] then [CHR 0x5C] @ ''u2029'' else ?p)"
    have "json_escape (c # s) @ [CHR 0x22] @ r = q @ ?t"
      using False w by (simp add: Let_def q_def del: append.simps)
    moreover have "read_string (q @ ?t) = emit ?p (read_string ?t)"
      using read_chunk [OF False w(1), of ?t] read_separator [of ?t] unfolding q_def
      by (simp del: read_string.simps append.simps)
    ultimately show ?thesis using t w by (simp add: emit_def take_width)
  qed
qed (simp add: emit_def)

lemma emit_SomeE:
  assumes "emit p x = Some (t, r)"
  obtains u where "x = Some (u, r)" and "t = p @ u"
  using assms by (auto simp: emit_def)

lemma ValidString_unicode_escape:
  assumes "r < 65536"
  shows "ValidString (fst (unicode_escape r s))"
proof (cases "surrogate r")
  case False
  with assms show ?thesis by (simp add: unicode_escape_def ValidString_encode)
next
  case True
  have fffd: "ValidString (utf8_encode 0xFFFD)" by (rule ValidString_encode) (simp_all add: surrogate_def)
  show ?thesis
  proof (cases "low_surrogate s")
    case None
    with True fffd show ?thesis by (simp add: unicode_escape_def)
  next
    case (Some l)
    then have l: "0xDC00 \<le> l" "l < 0xE000" by (auto simp: low_surrogate_def split: if_splits option.splits)
    then have "ValidString (utf8_encode (0x10000 + (r - 0xD800) * 1024 + (l - 0xDC00)))" if "r < 0xDC00"
      using that True by (intro ValidString_encode) (auto simp: surrogate_def)
    then show ?thesis using True Some fffd by (simp add: unicode_escape_def)
  qed
qed

lemma hex_value_bound: "hex_value c = Some n \<Longrightarrow> n < 16"
  by (auto simp: hex_value_def Let_def split: if_splits)

lemma hex4_bound: "hex4 s = Some r \<Longrightarrow> r < 65536"
  by (auto simp: hex4_def split: list.splits option.splits dest!: hex_value_bound)

text \<open>A decoded string is well-formed, and the closing quote has been consumed.\<close>

lemma read_string_result: "read_string s = Some (t, r) \<Longrightarrow> ValidString t \<and> length r < length s"
proof (induction s arbitrary: t r rule: read_string.induct)
  case (2 c s)
  have fffd: "ValidString (utf8_encode 0xFFFD)" by (rule ValidString_encode) (simp_all add: surrogate_def)
  consider (quote) "c = CHR 0x22" | (bs) "c = CHR 0x5C" | (low) "c \<noteq> CHR 0x22" "c \<noteq> CHR 0x5C" "of_char c < (32 :: nat)"
    | (ascii) "c \<noteq> CHR 0x22" "c \<noteq> CHR 0x5C" "\<not> of_char c < (32 :: nat)" "of_char c < (128 :: nat)"
    | (bad) "\<not> of_char c < (128 :: nat)" "char_width c s = 0"
    | (multi) "\<not> of_char c < (128 :: nat)" "0 < char_width c s" by blast
  then show ?case
  proof cases
    case quote
    with 2 show ?thesis by simp
  next
    case bs
    with 2(6) obtain e u where s: "s = e # u" by (cases s) auto
    show ?thesis
    proof (cases "e = CHR ''u''")
      case True
      with 2(6) bs s obtain h where h: "hex4 (take 4 u) = Some h"
        and em: "emit (fst (unicode_escape h (drop 4 u))) (read_string (drop (4 + snd (unicode_escape h (drop 4 u))) u)) = Some (t, r)"
        by (auto split: option.splits)
      from em obtain v where v: "read_string (drop (4 + snd (unicode_escape h (drop 4 u))) u) = Some (v, r)"
        and t: "t = fst (unicode_escape h (drop 4 u)) @ v" by (rule emit_SomeE)
      from v have "ValidString v \<and> length r < length (drop (4 + snd (unicode_escape h (drop 4 u))) u)"
        using 2(1) bs s True h by simp
      then show ?thesis using t s ValidString_append ValidString_unicode_escape [OF hex4_bound [OF h]] by auto
    next
      case False
      with 2(6) bs s obtain x where x: "simple_escape e = Some x" and em: "emit [x] (read_string u) = Some (t, r)"
        by (auto split: option.splits)
      from em obtain v where v: "read_string u = Some (v, r)" and t: "t = [x] @ v" by (rule emit_SomeE)
      have "of_char x < (128 :: nat)" using x by (auto simp: simple_escape_def split: if_splits)
      moreover have "ValidString v \<and> length r < length u" using 2(2) bs s False x v by simp
      ultimately show ?thesis using t s by simp
    qed
  next
    case low
    with 2(6) show ?thesis by simp
  next
    case ascii
    with 2(6) have "emit [c] (read_string s) = Some (t, r)" by simp
    then obtain v where v: "read_string s = Some (v, r)" and t: "t = [c] @ v" by (rule emit_SomeE)
    with 2(3) ascii have "ValidString v \<and> length r < length s" by simp
    with t ascii show ?thesis by simp
  next
    case bad
    then have c: "c \<noteq> CHR 0x22" "c \<noteq> CHR 0x5C" by auto
    with 2(6) bad have "emit (utf8_encode 0xFFFD) (read_string s) = Some (t, r)" by (simp add: Let_def)
    then obtain v where v: "read_string s = Some (v, r)" and t: "t = utf8_encode 0xFFFD @ v" by (rule emit_SomeE)
    with 2(4) bad c have "ValidString v \<and> length r < length s" by simp
    with t fffd ValidString_append show ?thesis by auto
  next
    case multi
    let ?w = "char_width c s"
    from multi have c: "c \<noteq> CHR 0x22" "c \<noteq> CHR 0x5C" by auto
    with 2(6) multi have "emit (take ?w (c # s)) (read_string (drop (?w - 1) s)) = Some (t, r)" by (simp add: Let_def)
    then obtain v where v: "read_string (drop (?w - 1) s) = Some (v, r)" and t: "t = take ?w (c # s) @ v" by (rule emit_SomeE)
    with 2(5) multi c have "ValidString v \<and> length r < length (drop (?w - 1) s)" by simp
    with t ValidString_append [OF ValidString_chunk [OF multi]] show ?thesis by auto
  qed
qed simp

section \<open>Numbers\<close>

text \<open>A text that does not continue a number literal.\<close>

definition stops :: "string \<Rightarrow> bool" where
  "stops r \<longleftrightarrow> r = [] \<or> \<not> is_digit (hd r) \<and> hd r \<notin> {CHR ''.'', CHR ''e'', CHR ''E'', CHR ''+'', CHR ''-''}"

definition number_literal :: "string \<Rightarrow> bool" where
  "number_literal s \<longleftrightarrow> read_number s = Some (s, [])"

lemma span_stop:
  assumes "r = [] \<or> \<not> P (hd r)"
  shows "takeWhile P (s @ r) = takeWhile P s" "dropWhile P (s @ r) = dropWhile P s @ r"
proof -
  have "takeWhile P r = [] \<and> dropWhile P r = r" using assms by (cases r) auto
  then show "takeWhile P (s @ r) = takeWhile P s" "dropWhile P (s @ r) = dropWhile P s @ r"
    by (induction s) auto
qed

lemma digit_facts [simp]: "is_digit (CHR ''0'')" "\<not> is_digit (CHR ''.'')" "\<not> is_digit (CHR ''e'')" "\<not> is_digit (CHR ''E'')"
  "\<not> is_digit (CHR ''-'')" "\<not> is_digit (CHR ''+'')"
  by (simp_all add: is_digit_def)

lemma read_integer_parts:
  assumes "read_integer s = Some (i, u)"
  shows "s = i @ u \<and> i \<noteq> [] \<and> is_digit (hd i) \<and> list_all is_digit i \<and> (i = ''0'' \<or> hd i \<noteq> CHR ''0'') \<and>
    (\<forall>x. x = [] \<or> \<not> is_digit (hd x) \<longrightarrow> read_integer (i @ x) = Some (i, x))"
proof (cases s)
  case (Cons c t)
  show ?thesis
  proof (cases "c = CHR ''0''")
    case True
    with assms Cons show ?thesis by (auto simp: read_integer_def)
  next
    case False
    with assms Cons have d: "is_digit c" and i: "i = c # takeWhile is_digit t" and u: "u = dropWhile is_digit t"
      by (auto simp: read_integer_def split: if_splits)
    have "takeWhile is_digit (i @ x) = i \<and> dropWhile is_digit (i @ x) = x" if "x = [] \<or> \<not> is_digit (hd x)" for x
      using span_stop [where P = is_digit and s = i, OF that] d i
      by (simp add: takeWhile_idem dropWhile_eq_Nil_conv) (meson set_takeWhileD)
    then have "read_integer (i @ x) = Some (i, x)" if "x = [] \<or> \<not> is_digit (hd x)" for x
      using that d False i by (simp add: read_integer_def)
    then show ?thesis using Cons d False i u by (auto simp: list_all_iff dest: set_takeWhileD)
  qed
qed (use assms in \<open>simp add: read_integer_def\<close>)

lemma read_fraction_parts:
  assumes "read_fraction s = Some (f, u)"
  shows "s = f @ u \<and> (f = [] \<or> (\<exists>ds. f = CHR ''.'' # ds \<and> ds \<noteq> [] \<and> list_all is_digit ds)) \<and>
    (\<forall>x. x = [] \<or> \<not> is_digit (hd x) \<and> hd x \<noteq> CHR ''.'' \<longrightarrow> read_fraction (f @ x) = Some (f, x))"
proof (cases "s \<noteq> [] \<and> hd s = CHR ''.''")
  case False
  with assms have "f = []" "u = s" by (auto simp: read_fraction_def split: list.splits if_splits)
  then show ?thesis by (auto simp: read_fraction_def split: list.splits)
next
  case True
  then obtain t where s: "s = CHR ''.'' # t" by (cases s) auto
  with assms have d: "takeWhile is_digit t \<noteq> []" and f: "f = CHR ''.'' # takeWhile is_digit t" and u: "u = dropWhile is_digit t"
    by (auto simp: read_fraction_def split: if_splits)
  have "read_fraction (f @ x) = Some (f, x)" if "x = [] \<or> \<not> is_digit (hd x)" for x
    using span_stop [where P = is_digit and s = "takeWhile is_digit t", OF that] d f
    by (simp add: read_fraction_def takeWhile_idem dropWhile_eq_Nil_conv) (meson set_takeWhileD)
  moreover have "s = f @ u" using s f u by simp
  moreover have "list_all is_digit (takeWhile is_digit t)" by (auto simp: list_all_iff dest: set_takeWhileD)
  ultimately show ?thesis using d f by blast
qed

lemma read_exponent_parts:
  assumes "read_exponent s = Some (e, u)"
  shows "s = e @ u \<and>
    (e = [] \<or> (\<exists>c g ds. e = c # g @ ds \<and> c \<in> {CHR ''e'', CHR ''E''} \<and> g \<in> {[], ''+'', ''-''} \<and> ds \<noteq> [] \<and> list_all is_digit ds)) \<and>
    (\<forall>x. stops x \<longrightarrow> read_exponent (e @ x) = Some (e, x))"
proof (cases "s \<noteq> [] \<and> hd s \<in> {CHR ''e'', CHR ''E''}")
  case False
  with assms have "e = []" "u = s" by (auto simp: read_exponent_def split: list.splits if_splits)
  then show ?thesis by (auto simp: read_exponent_def stops_def split: list.splits)
next
  case True
  then obtain c t where s: "s = c # t" and c: "c \<in> {CHR ''e'', CHR ''E''}" by (cases s) auto
  obtain g v where gv: "(case t of d # v \<Rightarrow> if d = CHR ''+'' \<or> d = CHR ''-'' then ([d], v) else ([], t) | [] \<Rightarrow> ([], t)) = (g, v)"
    by fastforce
  then have t: "t = g @ v" and g: "g \<in> {[], ''+'', ''-''}" by (auto split: list.splits if_splits)
  from assms s c gv have d: "takeWhile is_digit v \<noteq> []" and e: "e = c # g @ takeWhile is_digit v" and u: "u = dropWhile is_digit v"
    by (auto simp: read_exponent_def Let_def split: if_splits)
  have "read_exponent (e @ x) = Some (e, x)" if x: "stops x" for x
  proof -
    from x have x1: "x = [] \<or> \<not> is_digit (hd x)" by (auto simp: stops_def)
    let ?w = "takeWhile is_digit v @ x"
    have sp: "takeWhile is_digit ?w = takeWhile is_digit v" "dropWhile is_digit ?w = x"
      using span_stop [where P = is_digit and s = "takeWhile is_digit v", OF x1]
      by (simp_all add: takeWhile_idem dropWhile_eq_Nil_conv) (meson set_takeWhileD)
    from d obtain b bs where b: "takeWhile is_digit v = b # bs" by (cases "takeWhile is_digit v") auto
    then have "is_digit b" by (metis list.set_intros(1) set_takeWhileD)
    then have "b \<noteq> CHR ''+''" "b \<noteq> CHR ''-''" by auto
    then show ?thesis using g c sp d e b by (auto simp: read_exponent_def Let_def)
  qed
  then show ?thesis using s c t g d e u by (auto simp: list_all_iff dest: set_takeWhileD)
qed

text \<open>A literal that is read is a prefix of the text and reads as itself, whatever harmless text follows.\<close>

lemma read_number_parts:
  assumes "read_number s = Some (l, u)"
  shows "s = l @ u" "l \<noteq> []" "is_digit (hd l) \<or> hd l = CHR ''-''" "stops x \<Longrightarrow> read_number (l @ x) = Some (l, x)"
proof -
  obtain g s1 where g: "read_sign s = (g, s1)" by fastforce
  then have gs: "s = g @ s1" "g = [] \<or> g = ''-''" by (auto simp: read_sign_def split: list.splits if_splits)
  from assms g obtain i s2 f s3 e where i: "read_integer s1 = Some (i, s2)" and f: "read_fraction s2 = Some (f, s3)"
    and e: "read_exponent s3 = Some (e, u)" and l: "l = g @ i @ f @ e"
    by (auto simp: read_number_def split: option.splits)
  note pi = read_integer_parts [OF i] and pf = read_fraction_parts [OF f] and pe = read_exponent_parts [OF e]
  have "i \<noteq> []" "is_digit (hd i)" "s1 = i @ s2" "s2 = f @ s3" "s3 = e @ u" using pi pf pe by blast+
  with gs l show "s = l @ u" "l \<noteq> []" "is_digit (hd l) \<or> hd l = CHR ''-''" by auto
  have ri: "y = [] \<or> \<not> is_digit (hd y) \<Longrightarrow> read_integer (i @ y) = Some (i, y)" for y using pi by blast
  have rf: "y = [] \<or> \<not> is_digit (hd y) \<and> hd y \<noteq> CHR ''.'' \<Longrightarrow> read_fraction (f @ y) = Some (f, y)" for y using pf by blast
  have re: "stops y \<Longrightarrow> read_exponent (e @ y) = Some (e, y)" for y using pe by blast
  assume x: "stops x"
  have "i \<noteq> []" and "hd i \<noteq> CHR ''-''" using pi by fastforce+
  then have "read_sign (l @ x) = (g, i @ f @ e @ x)" using gs(2) l by (cases i) (auto simp: read_sign_def)
  moreover have f0: "f = [] \<or> hd f = CHR ''.''" and e0: "e = [] \<or> hd e \<in> {CHR ''e'', CHR ''E''}" using pf pe by fastforce+
  then have "f @ e @ x = [] \<or> \<not> is_digit (hd (f @ e @ x))" using x by (auto simp: stops_def hd_append)
  then have "read_integer (i @ f @ e @ x) = Some (i, f @ e @ x)" by (rule ri)
  moreover have "e @ x = [] \<or> \<not> is_digit (hd (e @ x)) \<and> hd (e @ x) \<noteq> CHR ''.''" using e0 x by (auto simp: stops_def hd_append)
  then have "read_fraction (f @ e @ x) = Some (f, e @ x)" by (rule rf)
  moreover have "read_exponent (e @ x) = Some (e, x)" by (rule re [OF x])
  ultimately show "read_number (l @ x) = Some (l, x)" by (simp add: read_number_def l)
qed

lemma number_literal_append: "number_literal s \<Longrightarrow> stops r \<Longrightarrow> read_number (s @ r) = Some (s, r)"
  unfolding number_literal_def by (rule read_number_parts(4))

lemma read_number_literal: "read_number s = Some (l, u) \<Longrightarrow> number_literal l"
  using read_number_parts(4) [of s l u "[]"] by (simp add: number_literal_def stops_def)

end
