(* ===== verification/Go_Json_Values.thy ===== *)
theory Go_Json_Values
  imports Go_Json_Facts
begin

text \<open>
  The decoder on whole values: it consumes text, its recursion bound is never reached, what it
  returns is well formed, and the printed form of a value decodes to that value.
\<close>

section \<open>Consumption and the recursion bound\<close>

lemma length_skip_ws [simp]: "length (skip_ws s) \<le> length s"
  by (simp add: skip_ws_def length_dropWhile_le)

lemma skip_ws_Cons: "skip_ws s = c # t \<Longrightarrow> length t < length s"
  by (metis length_Cons length_skip_ws less_Suc_eq_le not_less)

lemma read_atom_length: "read_atom s = Some (v, r) \<Longrightarrow> length r < length s"
proof -
  assume r: "read_atom s = Some (v, r)"
  have n: "length u < length s" if "read_number s = Some (l, u)" for l u
    using read_number_parts(1,2) [OF that] by (cases l) auto
  have q: "length u < length s" if "s \<noteq> []" "read_string (tl s) = Some (l, u)" for l u
    using read_string_result [OF that(2)] that(1) by (cases s) auto
  have k: "length (drop k s) < length s" if "take k s = p" "p \<noteq> []" for k p
    using that by (cases s; cases k) (auto simp: less_Suc_eq_le)
  show ?thesis using r n q k [of 4 "''null''"] k [of 4 "''true''"] k [of 5 "''false''"]
    by (auto simp: read_atom_def split: if_splits)
qed

lemma read_valueE:
  assumes "read_value n d s = Some (v, r)"
  obtains (atom) m c t where "n = Suc m" "skip_ws s = c # t" "c \<noteq> CHR ''[''" "c \<noteq> CHR ''{''" "read_atom (c # t) = Some (v, r)"
  | (arr0) m t where "n = Suc m" "skip_ws s = CHR ''['' # t" "0 < d" "skip_ws t = CHR '']'' # r" "v = JArr []"
  | (arr) m t e u w q where "n = Suc m" "skip_ws s = CHR ''['' # t" "0 < d" "skip_ws t = e # u" "e \<noteq> CHR '']''"
      "read_value m (d - 1) t = Some (w, q)" "read_items m (d - 1) [w] q = Some (v, r)"
  | (obj0) m t where "n = Suc m" "skip_ws s = CHR ''{'' # t" "0 < d" "skip_ws t = CHR ''}'' # r" "v = JObj []"
  | (obj) m t e u where "n = Suc m" "skip_ws s = CHR ''{'' # t" "0 < d" "skip_ws t = e # u" "e \<noteq> CHR ''}''"
      "read_members m (d - 1) [] t = Some (v, r)"
proof -
  from assms obtain m where n: "n = Suc m" by (cases n) auto
  with assms obtain c t where s: "skip_ws s = c # t" by (cases "skip_ws s") auto
  consider "c = CHR ''[''" | "c = CHR ''{''" | "c \<noteq> CHR ''[''" "c \<noteq> CHR ''{''" by blast
  then show ?thesis
  proof cases
    case 1
    with assms n s obtain e u where d: "0 < d" and t: "skip_ws t = e # u" by (cases "skip_ws t") (auto split: if_splits)
    show ?thesis
    proof (cases "e = CHR '']''")
      case True
      with assms n s d t 1 show ?thesis by (intro arr0) auto
    next
      case False
      with assms n s d t 1 obtain w q where "read_value m (d - 1) t = Some (w, q)" "read_items m (d - 1) [w] q = Some (v, r)"
        by (auto split: option.splits)
      with n s d t 1 False show ?thesis by (intro arr) auto
    qed
  next
    case 2
    with assms n s obtain e u where d: "0 < d" and t: "skip_ws t = e # u" by (cases "skip_ws t") (auto split: if_splits)
    show ?thesis
    proof (cases "e = CHR ''}''")
      case True
      with assms n s d t 2 show ?thesis by (intro obj0) auto
    next
      case False
      with assms n s d t 2 show ?thesis by (intro obj) auto
    qed
  next
    case 3
    with assms n s show ?thesis by (intro atom) auto
  qed
qed

lemma read_itemsE:
  assumes "read_items n d acc s = Some (v, r)"
  obtains (more) m t w q where "n = Suc m" "skip_ws s = CHR '','' # t" "read_value m d t = Some (w, q)" "read_items m d (acc @ [w]) q = Some (v, r)"
  | (close) m where "n = Suc m" "skip_ws s = CHR '']'' # r" "v = JArr acc"
proof -
  from assms obtain m where n: "n = Suc m" by (cases n) auto
  with assms obtain c t where s: "skip_ws s = c # t" by (cases "skip_ws s") auto
  show ?thesis
  proof (cases "c = CHR '',''")
    case True
    with assms n s obtain w q where "read_value m d t = Some (w, q)" "read_items m d (acc @ [w]) q = Some (v, r)"
      by (auto split: option.splits)
    with n s True show ?thesis by (intro more) auto
  next
    case False
    with assms n s show ?thesis by (intro close) (auto split: if_splits)
  qed
qed

lemma read_membersE:
  assumes "read_members n d acc s = Some (v, r)"
  obtains m t k p u w q c u2 where "n = Suc m" "skip_ws s = CHR 0x22 # t" "read_string t = Some (k, p)" "skip_ws p = CHR '':'' # u"
    "read_value m d u = Some (w, q)" "skip_ws q = c # u2"
    "c = CHR '','' \<and> read_members m d (acc @ [(k, w)]) u2 = Some (v, r) \<or>
     c = CHR ''}'' \<and> v = JObj (acc @ [(k, w)]) \<and> r = u2"
proof -
  from assms obtain m where n: "n = Suc m" by (cases n) auto
  with assms obtain t where s: "skip_ws s = CHR 0x22 # t" by (cases "skip_ws s") (auto split: if_splits)
  with assms n obtain k p where k: "read_string t = Some (k, p)" by (cases "read_string t") auto
  with assms n s obtain u where u: "skip_ws p = CHR '':'' # u" by (cases "skip_ws p") (auto split: if_splits)
  with assms n s k obtain w q where w: "read_value m d u = Some (w, q)" by (cases "read_value m d u") auto
  with assms n s k u obtain c u2 where c: "skip_ws q = c # u2" by (cases "skip_ws q") auto
  show ?thesis using assms n s k u w c by (intro that [OF n s k u w c]) (auto split: if_splits)
qed

lemma read_length:
  "(read_value n d s = Some (v, r) \<longrightarrow> length r < length s) \<and>
   (read_items n d acc s = Some (v, r) \<longrightarrow> length r < length s) \<and>
   (read_members n d kvs s = Some (v, r) \<longrightarrow> length r < length s)"
proof (induction n arbitrary: d s v r acc kvs)
  case (Suc n)
  have "length r < length s" if "read_value (Suc n) d s = Some (v, r)"
    using that
  proof (cases rule: read_valueE)
    case (atom m c t)
    then show ?thesis using read_atom_length [OF atom(5)] skip_ws_Cons [OF atom(2)] by simp
  next
    case (arr m t e u w q)
    then have "length q < length t" "length r < length q" using Suc by blast+
    then show ?thesis using skip_ws_Cons [OF arr(2)] by simp
  next
    case (obj m t e u)
    then have "length r < length t" using Suc by blast
    then show ?thesis using skip_ws_Cons [OF obj(2)] by simp
  qed (auto dest!: skip_ws_Cons)
  moreover have "length r < length s" if "read_items (Suc n) d acc s = Some (v, r)"
    using that
  proof (cases rule: read_itemsE)
    case (more m t w q)
    then have "length q < length t" "length r < length q" using Suc by blast+
    then show ?thesis using skip_ws_Cons [OF more(2)] by simp
  qed (auto dest!: skip_ws_Cons)
  moreover have "length r < length s" if "read_members (Suc n) d kvs s = Some (v, r)"
  proof -
    from that obtain t k p u w q c u2 where m: "skip_ws s = CHR 0x22 # t" "read_string t = Some (k, p)" "skip_ws p = CHR '':'' # u"
      "read_value n d u = Some (w, q)" "skip_ws q = c # u2"
      "c = CHR '','' \<and> read_members n d (kvs @ [(k, w)]) u2 = Some (v, r) \<or> c = CHR ''}'' \<and> v = JObj (kvs @ [(k, w)]) \<and> r = u2"
      by (elim read_membersE) auto
    have "length p < length t" using read_string_result [OF m(2)] by simp
    moreover have "length q < length u" using Suc m(4) by blast
    moreover have "length r \<le> length u2" using m(6) Suc by (meson less_imp_le order_refl)
    ultimately show ?thesis using skip_ws_Cons [OF m(1)] skip_ws_Cons [OF m(3)] skip_ws_Cons [OF m(5)] by simp
  qed
  ultimately show ?case by blast
qed simp

lemmas read_value_length = read_length [THEN conjunct1, rule_format]
lemmas read_items_length = read_length [THEN conjunct2, THEN conjunct1, rule_format]
lemmas read_members_length = read_length [THEN conjunct2, THEN conjunct2, rule_format]

text \<open>Whatever is read with some bound is read with the length of the text as the bound.\<close>

lemma read_bound:
  "(length s \<le> n \<longrightarrow> read_value m d s = Some (v, r) \<longrightarrow> read_value n d s = Some (v, r)) \<and>
   (length s \<le> n \<longrightarrow> read_items m d acc s = Some (v, r) \<longrightarrow> read_items n d acc s = Some (v, r)) \<and>
   (length s \<le> n \<longrightarrow> read_members m d kvs s = Some (v, r) \<longrightarrow> read_members n d kvs s = Some (v, r))"
proof (induction m arbitrary: n d s v r acc kvs)
  case (Suc m)
  have V: "read_value k d' s' = Some (v', r')" if "read_value m d' s' = Some (v', r')" "length s' \<le> k" for k d' s' v' r'
    using Suc that by blast
  have I: "read_items k d' acc' s' = Some (v', r')" if "read_items m d' acc' s' = Some (v', r')" "length s' \<le> k" for k d' s' v' r' acc'
    using Suc that by blast
  have M: "read_members k d' acc' s' = Some (v', r')" if "read_members m d' acc' s' = Some (v', r')" "length s' \<le> k" for k d' s' v' r' acc'
    using Suc that by blast
  have "read_value n d s = Some (v, r)" if n: "length s \<le> n" and s: "read_value (Suc m) d s = Some (v, r)"
  proof -
    from s have "length r < length s" by (rule read_value_length)
    with n obtain k where k: "n = Suc k" by (cases n) auto
    from s show ?thesis
    proof (cases rule: read_valueE)
      case (arr m' t e u w q)
      then have "length t \<le> k" "length q \<le> k"
        using skip_ws_Cons [OF arr(2)] read_value_length [OF arr(6)] n k by auto
      then show ?thesis using arr V [of "d - 1" t w q k] I [of "d - 1" "[w]" q v r k] k by simp
    next
      case (obj m' t e u)
      then have "length t \<le> k" using skip_ws_Cons [OF obj(2)] n k by auto
      then show ?thesis using obj M [of "d - 1" "[]" t v r k] k by simp
    qed (use k in auto)
  qed
  moreover have "read_items n d acc s = Some (v, r)" if n: "length s \<le> n" and s: "read_items (Suc m) d acc s = Some (v, r)"
  proof -
    from s have "length r < length s" by (rule read_items_length)
    with n obtain k where k: "n = Suc k" by (cases n) auto
    from s show ?thesis
    proof (cases rule: read_itemsE)
      case (more m' t w q)
      then have "length t \<le> k" "length q \<le> k"
        using skip_ws_Cons [OF more(2)] read_value_length [OF more(3)] n k by auto
      then show ?thesis using more V [of d t w q k] I [of d "acc @ [w]" q v r k] k by simp
    qed (use k in auto)
  qed
  moreover have "read_members n d kvs s = Some (v, r)" if n: "length s \<le> n" and s: "read_members (Suc m) d kvs s = Some (v, r)"
  proof -
    from s have "length r < length s" by (rule read_members_length)
    with n obtain k where k: "n = Suc k" by (cases n) auto
    from s obtain t key p u w q c u2 where m: "skip_ws s = CHR 0x22 # t" "read_string t = Some (key, p)" "skip_ws p = CHR '':'' # u"
      "read_value m d u = Some (w, q)" "skip_ws q = c # u2"
      "c = CHR '','' \<and> read_members m d (kvs @ [(key, w)]) u2 = Some (v, r) \<or>
       c = CHR ''}'' \<and> v = JObj (kvs @ [(key, w)]) \<and> r = u2"
      by (elim read_membersE) auto
    have "length u \<le> k" "length u2 \<le> k"
      using skip_ws_Cons [OF m(1)] read_string_result [OF m(2)] skip_ws_Cons [OF m(3)] read_value_length [OF m(4)]
        skip_ws_Cons [OF m(5)] n k by auto
    then show ?thesis using m V [of d u w q k] M [of d "kvs @ [(key, w)]" u2 v r k] k by auto
  qed
  ultimately show ?case by blast
qed simp

lemmas read_value_bound = read_bound [THEN conjunct1, rule_format]

section \<open>Well-formed values\<close>

text \<open>Number literals of the grammar, well-formed strings, and a nesting of at most \<open>d\<close>.\<close>

fun wf_json :: "nat \<Rightarrow> json \<Rightarrow> bool" where
  "wf_json d JNull = True"
| "wf_json d (JBool b) = True"
| "wf_json d (JNum l) = number_literal l"
| "wf_json d (JStr t) = ValidString t"
| "wf_json d (JArr vs) = (0 < d \<and> (\<forall>v \<in> set vs. wf_json (d - 1) v))"
| "wf_json d (JObj kvs) =
     (0 < d \<and> (\<forall>(k, v) \<in> set kvs. ValidString k \<and> wf_json (d - 1) v))"

lemma read_atom_wf: "read_atom s = Some (v, r) \<Longrightarrow> wf_json d v"
  by (auto simp: read_atom_def split: if_splits dest: read_number_literal read_string_result)

lemma read_wf:
  "(read_value n d s = Some (v, r) \<longrightarrow> wf_json d v) \<and>
   (read_items n d acc s = Some (v, r) \<longrightarrow> (\<forall>w \<in> set acc. wf_json d w) \<longrightarrow> wf_json (Suc d) v) \<and>
   (read_members n d kvs s = Some (v, r) \<longrightarrow> wf_json (Suc d) (JObj kvs) \<longrightarrow> wf_json (Suc d) v)"
proof (induction n arbitrary: d s v r acc kvs)
  case (Suc n)
  have V: "wf_json d' v'" if "read_value n d' s' = Some (v', r')" for d' s' v' r'
    using Suc that by blast
  have I: "wf_json (Suc d') v'" if "read_items n d' acc' s' = Some (v', r')" "\<forall>w \<in> set acc'. wf_json d' w" for d' s' v' r' acc'
    using Suc that by blast
  have M: "wf_json (Suc d') v'" if "read_members n d' kvs' s' = Some (v', r')" "wf_json (Suc d') (JObj kvs')" for d' s' v' r' kvs'
    using Suc that by blast
  have "wf_json d v" if s: "read_value (Suc n) d s = Some (v, r)"
    using s
  proof (cases rule: read_valueE)
    case (atom m c t)
    then show ?thesis using read_atom_wf by blast
  next
    case (arr m t e u w q)
    then show ?thesis using V [of "d - 1" t w q] I [of "d - 1" "[w]" q v r] by simp
  next
    case (obj m t e u)
    then show ?thesis using M [of "d - 1" "[]" t v r] by simp
  qed simp_all
  moreover have "wf_json (Suc d) v" if s: "read_items (Suc n) d acc s = Some (v, r)" and acc: "\<forall>w \<in> set acc. wf_json d w"
    using s
  proof (cases rule: read_itemsE)
    case (more m t w q)
    then show ?thesis using V [of d t w q] I [of d "acc @ [w]" q v r] acc by auto
  qed (use acc in simp)
  moreover have "wf_json (Suc d) v" if s: "read_members (Suc n) d kvs s = Some (v, r)" and acc: "wf_json (Suc d) (JObj kvs)"
  proof -
    from s obtain t key p u w q c u2 where m: "read_string t = Some (key, p)" "read_value n d u = Some (w, q)"
      "c = CHR '','' \<and> read_members n d (kvs @ [(key, w)]) u2 = Some (v, r) \<or>
       c = CHR ''}'' \<and> v = JObj (kvs @ [(key, w)]) \<and> r = u2"
      by (elim read_membersE) auto
    have "wf_json (Suc d) (JObj (kvs @ [(key, w)]))"
      using acc V [OF m(2)] read_string_result [OF m(1)] by auto
    then show ?thesis using m(3) M by blast
  qed
  ultimately show ?case by blast
qed simp

text \<open>What \<open>decode_json\<close> returns is well formed.\<close>

lemma decode_wf: "decode_json s = Some v \<Longrightarrow> wf_json maxNestingDepth v"
  using read_wf by (auto simp: decode_json_def split: option.splits if_splits)

section \<open>Printed values\<close>

text \<open>The text \<open>t\<close> reads as \<open>v\<close>, in any place where a value may stand and with a nesting of \<open>d\<close> still allowed.\<close>

definition reads :: "nat \<Rightarrow> string \<Rightarrow> json \<Rightarrow> bool" where
  "reads d t v \<longleftrightarrow>
     t \<noteq> [] \<and> \<not> is_ws (hd t) \<and> hd t \<noteq> CHR '']'' \<and>
     (\<forall>n r. length (t @ r) \<le> n \<longrightarrow> stops r \<longrightarrow> read_value n d (t @ r) = Some (v, r))"

lemma readsD: "reads d t v \<Longrightarrow> length (t @ r) \<le> n \<Longrightarrow> stops r \<Longrightarrow> read_value n d (t @ r) = Some (v, r)"
  by (simp add: reads_def)

lemma skip_ws_text [simp]: "t \<noteq> [] \<Longrightarrow> \<not> is_ws (hd t) \<Longrightarrow> skip_ws (t @ r) = t @ r"
  by (cases t) (simp_all add: skip_ws_def)

lemma skip_ws_char [simp]: "\<not> is_ws c \<Longrightarrow> skip_ws (c # r) = c # r"
  by (simp add: skip_ws_def)

lemma punctuation [simp]:
  "\<not> is_ws (CHR '','')" "\<not> is_ws (CHR '']'')" "\<not> is_ws (CHR ''}'')" "\<not> is_ws (CHR '':'')" "\<not> is_ws (CHR 0x22)"
  "\<not> is_ws (CHR ''['')" "\<not> is_ws (CHR ''{'')"
  "stops (CHR '','' # r)" "stops (CHR '']'' # r)" "stops (CHR ''}'' # r)" "stops []"
  by (simp_all add: is_ws_def stops_def is_digit_def)

lemma reads_atom:
  assumes "t \<noteq> []" and "\<not> is_ws (hd t)" and "hd t \<notin> {CHR ''['', CHR ''{'', CHR '']''}"
    and "\<And>r. stops r \<Longrightarrow> read_atom (t @ r) = Some (v, r)"
  shows "reads d t v"
proof -
  have "read_value n d (t @ r) = Some (v, r)" if n: "length (t @ r) \<le> n" and r: "stops r" for n r
  proof -
    obtain c u where t: "t = c # u" using assms(1) by (cases t) auto
    with n obtain m where m: "n = Suc m" by (cases n) auto
    have "skip_ws (t @ r) = c # u @ r" using skip_ws_text [OF assms(1,2)] t by simp
    then show ?thesis using m t assms(3,4) r by simp
  qed
  then show ?thesis using assms by (auto simp: reads_def)
qed

lemma reads_null: "reads d ''null'' JNull"
  by (rule reads_atom) (simp_all add: is_ws_def read_atom_def)

lemma reads_bool: "reads d (json_bool b) (JBool b)"
  by (rule reads_atom) (simp_all add: is_ws_def read_atom_def json_bool_def)

lemma reads_string: "ValidString s \<Longrightarrow> reads d (json_string s) (JStr s)"
  by (rule reads_atom) (simp_all add: read_atom_def json_string_def string_roundtrip [simplified])

lemma reads_number:
  assumes "number_literal l"
  shows "reads d l (JNum l)"
proof (rule reads_atom)
  note p = read_number_parts [OF assms [unfolded number_literal_def]]
  show "l \<noteq> []" by (rule p(2))
  have h: "is_digit (hd l) \<or> hd l = CHR ''-''" by (rule p(3))
  then show "\<not> is_ws (hd l)" "hd l \<notin> {CHR ''['', CHR ''{'', CHR '']''}" by (auto simp: is_ws_def is_digit_def)
  fix r assume "stops r"
  with assms have "read_number (l @ r) = Some (l, r)" by (rule number_literal_append)
  moreover obtain c u where "l = c # u" using p(2) by (cases l) auto
  moreover have "hd l \<notin> {CHR ''n'', CHR ''t'', CHR ''f'', CHR 0x22}" using h by (auto simp: is_digit_def)
  ultimately show "read_atom (l @ r) = Some (JNum l, r)" by (simp add: read_atom_def)
qed

lemma join_sep_Cons: "join_sep sep (t # ts) = t @ concat (map (\<lambda>u. sep @ u) ts)"
  by (induction ts arbitrary: t) simp_all

lemma append_single: "(@) [c] = (#) c"
  by (rule ext) simp

lemma items_text_stops: "stops (concat (map (\<lambda>u. '','' @ u) ts) @ CHR '']'' # r)"
  by (cases ts) simp_all

lemma reads_items:
  "list_all2 (reads d) ts vs \<Longrightarrow> length (concat (map (\<lambda>u. '','' @ u) ts) @ CHR '']'' # r) \<le> n \<Longrightarrow>
   read_items n d acc (concat (map (\<lambda>u. '','' @ u) ts) @ CHR '']'' # r) = Some (JArr (acc @ vs), r)"
proof (induction ts vs arbitrary: acc n rule: list_all2_induct)
  case Nil
  then show ?case by (cases n) auto
next
  case (Cons t ts v vs)
  let ?rest = "concat (map (\<lambda>u. '','' @ u) ts) @ CHR '']'' # r"
  from Cons(4) obtain m where m: "n = Suc m" by (cases n) auto
  have "read_value m d (t @ ?rest) = Some (v, ?rest)"
    using Cons(1,4) m items_text_stops by (intro readsD) auto
  moreover have "read_items m d (acc @ [v]) ?rest = Some (JArr ((acc @ [v]) @ vs), r)"
    using Cons(4) m by (intro Cons(3)) auto
  ultimately show ?case using m by simp
qed

lemma reads_array:
  assumes "list_all2 (reads d) ts vs"
  shows "reads (Suc d) (json_array ts) (JArr vs)"
proof -
  have "read_value n (Suc d) (json_array ts @ r) = Some (JArr vs, r)" if n: "length (json_array ts @ r) \<le> n" for n r
  proof (cases ts)
    case Nil
    with n assms show ?thesis by (cases n) (auto simp: json_array_def)
  next
    case (Cons t us)
    with assms obtain v ws where vs: "vs = v # ws" and v: "reads d t v" and us: "list_all2 (reads d) us ws"
      by (auto simp: list_all2_Cons1)
    let ?rest = "concat (map (\<lambda>u. '','' @ u) us) @ CHR '']'' # r"
    have tx: "json_array ts @ r = CHR ''['' # t @ ?rest" by (simp add: json_array_def Cons join_sep_Cons)
    with n obtain m where m: "n = Suc m" by (cases n) auto
    have l: "length (t @ ?rest) \<le> m" using n m tx by simp
    from v have t: "t \<noteq> []" "\<not> is_ws (hd t)" "hd t \<noteq> CHR '']''" by (auto simp: reads_def)
    then obtain c u where c: "t = c # u" by (cases t) auto
    have "read_value m d (t @ ?rest) = Some (v, ?rest)" by (rule readsD [OF v l items_text_stops])
    moreover have "read_items m d [v] ?rest = Some (JArr ([v] @ ws), r)" using us l by (intro reads_items) auto
    ultimately show ?thesis using m t c by (simp add: tx vs)
  qed
  then show ?thesis by (simp add: reads_def json_array_def)
qed

text \<open>Members: the key and the text of its value.\<close>

definition member_text :: "string \<times> string \<Rightarrow> string" where
  "member_text = (\<lambda>(k, t). json_string k @ '':'' @ t)"

lemma members_text_stops: "stops (concat (map (\<lambda>u. '','' @ u) ts) @ CHR ''}'' # r)"
  by (cases ts) simp_all

lemma reads_members:
  assumes "list_all2 (\<lambda>(k, t) (k', v). k = k' \<and> ValidString k \<and> reads d t v) kts kvs" and "kts \<noteq> []"
    and "length (join_sep '','' (map member_text kts) @ CHR ''}'' # r) \<le> n"
  shows "read_members n d acc (join_sep '','' (map member_text kts) @ CHR ''}'' # r) = Some (JObj (acc @ kvs), r)"
  using assms
proof (induction kts kvs arbitrary: acc n rule: list_all2_induct)
  case (Cons kt kts kv kvs)
  obtain k t v where kt: "kt = (k, t)" and kv: "kv = (k, v)" and k: "ValidString k" and v: "reads d t v"
    using Cons(1) by (auto split: prod.splits)
  let ?rest = "concat (map (\<lambda>u. '','' @ u) (map member_text kts)) @ CHR ''}'' # r"
  have tx: "join_sep '','' (map member_text (kt # kts)) @ CHR ''}'' # r = CHR 0x22 # json_escape k @ [CHR 0x22] @ CHR '':'' # t @ ?rest"
    by (simp add: join_sep_Cons member_text_def kt json_string_def del: map_map)
  with Cons(5) obtain m where m: "n = Suc m" by (cases n) auto
  have l: "length (t @ ?rest) \<le> m" using Cons(5) m unfolding tx by (simp add: append_single)
  have rk: "read_string (json_escape k @ [CHR 0x22] @ CHR '':'' # t @ ?rest) = Some (k, CHR '':'' # t @ ?rest)"
    by (rule string_roundtrip [OF k])
  have rv: "read_value m d (t @ ?rest) = Some (v, ?rest)" by (rule readsD [OF v l members_text_stops])
  show ?case
  proof (cases kts)
    case Nil
    with Cons(2) have "kvs = []" by simp
    then show ?thesis using rk rv m unfolding tx by (simp add: Nil kv)
  next
    case nonempty: (Cons kt2 kts2)
    have rest: "?rest = CHR '','' # join_sep '','' (map member_text kts) @ CHR ''}'' # r"
      by (simp add: nonempty join_sep_Cons)
    have "read_members m d (acc @ [(k, v)]) (join_sep '','' (map member_text kts) @ CHR ''}'' # r) = Some (JObj ((acc @ [(k, v)]) @ kvs), r)"
      using l nonempty unfolding rest by (intro Cons(3)) (auto simp: kv)
    then show ?thesis using rk rv m unfolding tx rest by (simp add: kv)
  qed
qed simp

lemma reads_object:
  assumes "list_all2 (\<lambda>(k, t) (k', v). k = k' \<and> ValidString k \<and> reads d t v) kts kvs"
  shows "reads (Suc d) (json_object kts) (JObj kvs)"
proof -
  have eq: "json_object kts = CHR ''{'' # join_sep '','' (map member_text kts) @ ''}''"
    by (simp add: json_object_def member_text_def)
  have "read_value n (Suc d) (json_object kts @ r) = Some (JObj kvs, r)" if n: "length (json_object kts @ r) \<le> n" for n r
  proof (cases kts)
    case Nil
    with n assms show ?thesis by (cases n) (auto simp: json_object_def)
  next
    case (Cons kt kts')
    obtain m where m: "n = Suc m" using n eq by (cases n) auto
    let ?body = "join_sep '','' (map member_text kts) @ CHR ''}'' # r"
    have "length ?body \<le> m" using n m by (simp add: eq)
    then have "read_members m d [] ?body = Some (JObj ([] @ kvs), r)"
      using assms Cons by (intro reads_members) auto
    moreover obtain u where "?body = CHR 0x22 # u"
      by (cases kt) (simp add: Cons join_sep_Cons member_text_def json_string_def)
    ultimately show ?thesis using m by (simp add: eq)
  qed
  then show ?thesis by (simp add: reads_def eq)
qed

lemma reads_decode:
  assumes "reads maxNestingDepth t v"
  shows "decode_json t = Some v"
  using readsD [OF assms, of "[]" "length t"] by (simp add: decode_json_def skip_ws_def)

section \<open>Maps\<close>

text \<open>All keys of every object are distinct, as in a value built of Go maps.\<close>

function distinct_json :: "json \<Rightarrow> bool" where
  "distinct_json (JArr vs) = (\<forall>v \<in> set vs. distinct_json v)"
| "distinct_json (JObj kvs) = (distinct (map fst kvs) \<and> (\<forall>(k, v) \<in> set kvs. distinct_json v))"
| "distinct_json JNull = True"
| "distinct_json (JBool b) = True"
| "distinct_json (JNum l) = True"
| "distinct_json (JStr s) = True"
  by pat_completeness auto
termination
  by (relation "measure size") (auto simp del: json.size intro: item_size member_size)

lemma put_members_snoc: "put_members (kvs @ [(k, v)]) = AList.update k v (put_members kvs)"
  by (simp add: put_members_def)

lemma put_members_Nil: "put_members [] = []"
  by (simp add: put_members_def)

lemma set_update: "(k', v') \<in> set (AList.update k v kvs) \<Longrightarrow> (k', v') = (k, v) \<or> (k', v') \<in> set kvs"
  by (induction kvs) (auto split: if_splits)

lemma put_members_distinct: "distinct (map fst (put_members kvs))"
  by (induction kvs rule: rev_induct) (auto simp: put_members_snoc put_members_Nil distinct_update)

lemma put_members_set: "(k, v) \<in> set (put_members kvs) \<Longrightarrow> (k, v) \<in> set kvs"
  by (induction kvs arbitrary: k v rule: rev_induct)
    (auto simp: put_members_snoc put_members_Nil dest!: set_update)

lemma update_append: "k \<notin> fst ` set kvs \<Longrightarrow> AList.update k v kvs = kvs @ [(k, v)]"
  by (induction kvs) auto

lemma put_members_id: "distinct (map fst kvs) \<Longrightarrow> put_members kvs = kvs"
proof (induction kvs rule: rev_induct)
  case (snoc kv kvs)
  obtain k v where kv: "kv = (k, v)" by fastforce
  from snoc show ?case by (simp add: kv put_members_snoc update_append)
qed (simp add: put_members_Nil)

lemma to_map_distinct: "distinct_json (to_map v)"
proof (induction v rule: to_map.induct)
  case (2 kvs)
  then show ?case by (auto simp: put_members_distinct dest!: put_members_set)
qed simp_all

lemma to_map_wf: "wf_json d v \<Longrightarrow> wf_json d (to_map v)"
proof (induction v arbitrary: d rule: to_map.induct)
  case (2 kvs)
  then show ?case by (fastforce dest!: put_members_set)
qed simp_all

lemma to_map_id: "distinct_json v \<Longrightarrow> to_map v = v"
proof (induction v rule: to_map.induct)
  case (1 vs)
  then show ?case by (simp add: map_idI)
next
  case (2 kvs)
  have "map (\<lambda>(k, v). (k, to_map v)) kvs = kvs" using 2 by (intro map_idI) auto
  with 2 show ?case by (simp add: put_members_id)
qed simp_all

lemma interface_wf:
  assumes "decode_interface s = Some v"
  shows "wf_json maxNestingDepth v" "distinct_json v"
  using assms decode_wf to_map_wf to_map_distinct by (auto simp: decode_interface_def)

lemma reads_interface: "reads maxNestingDepth t v \<Longrightarrow> distinct_json v \<Longrightarrow> decode_interface t = Some v"
  by (simp add: decode_interface_def reads_decode to_map_id)

end
