(* ===== verification/Outbox_Store.thy ===== *)
theory Outbox_Store
  imports Faults Go_Json_Values Go_Time "HOL-Library.List_Lexorder" "HOL-Library.Char_ord" "HOL-Library.Product_Lexorder"
begin

text \<open>
  The table \<open>outbox_events\<close> and the operations on it: \<open>internal/models/invoice_foundations.go\<close>
  and \<open>internal/repositories/postgres/outbox_repo.go\<close>. Calls fail as in \<open>Faults\<close>.
\<close>

record outbox_event =
  oe_ID :: string
  oe_BusinessID :: string
  oe_AggregateType :: string
  oe_AggregateID :: string
  oe_EventType :: string
  oe_Payload :: string
  oe_PublishAttempts :: int
  oe_AvailableAt :: instant
  oe_LeaseOwner :: "string option"
  oe_LeaseExpiresAt :: "instant option"
  oe_PublishedAt :: "instant option"
  oe_CreatedAt :: instant

text \<open>The queues are the messages they accepted, with the address of the queue and the event each was built from.\<close>

record sent_message =
  sm_Queue :: string
  sm_Body :: string
  sm_EventID :: string

record outbox_state = faulty +
  ob_rows :: "outbox_event list"
  ob_sent :: "sent_message list"

text \<open>
  What the database decides: which rows another transaction holds locked, and in which order
  an \<open>UPDATE ... RETURNING\<close> lists the rows it changed.
\<close>

record pg_choice =
  pg_locked :: "string \<Rightarrow> bool"
  pg_returning :: "outbox_event list \<Rightarrow> outbox_event list"

datatype outbox_error =
    OwnerRequired | InvalidClaimTimes | InvalidClaimLimit | EventTypesRequired | BlankEventType
  | MutationArguments | LeaseOwnerMismatch | NotPending | DatabaseError
  | MappingError string | DestinationMissing | SendError | PublisherNotConfigured
  | ClaimFailed outbox_error | ObserveFailed outbox_error
  | RetryFailed string outbox_error | PublishFailed string outbox_error | CompleteFailed string outbox_error
  | MarkFailed outbox_error | BatchSizeRange | LeaseDurationPositive | DuplicateEventType | RequestIDRequired

section \<open>Updates\<close>

text \<open>\<open>UPDATE ... WHERE\<close>: the rows that match are changed and counted.\<close>

definition update_rows :: "(outbox_event \<Rightarrow> bool) \<Rightarrow> (outbox_event \<Rightarrow> outbox_event) \<Rightarrow> outbox_state \<Rightarrow> nat \<times> outbox_state" where
  "update_rows p f s =
     (length (filter p (ob_rows s)), s\<lparr>ob_rows := map (\<lambda>e. if p e then f e else e) (ob_rows s)\<rparr>)"

section \<open>The repository\<close>

definition pending :: "string list \<Rightarrow> outbox_event \<Rightarrow> bool" where
  "pending types e \<longleftrightarrow> oe_PublishedAt e = None \<and> oe_EventType e \<in> set types"

definition OldestPendingOutboxEventCreatedAt :: "string list \<Rightarrow> outbox_state \<Rightarrow> (outbox_error + instant option) \<times> outbox_state" where
  "OldestPendingOutboxEventCreatedAt types s =
     (if types = [] then (Inl EventTypesRequired, s)
      else if \<not> list_all (\<lambda>t. TrimSpace t \<noteq> []) types then (Inl BlankEventType, s)
      else case external_call (\<lambda>s. (map oe_CreatedAt (filter (pending types) (ob_rows s)), s)) s of
             (None, s1) \<Rightarrow> (Inl DatabaseError, s1)
           | (Some ts, s1) \<Rightarrow> (Inr (if ts = [] then None else Some (Min (set ts))), s1))"

definition ready :: "instant \<Rightarrow> string list \<Rightarrow> outbox_event \<Rightarrow> bool" where
  "ready now types e \<longleftrightarrow>
     oe_PublishedAt e = None \<and> oe_AvailableAt e \<le> now \<and>
     (case oe_LeaseExpiresAt e of None \<Rightarrow> True | Some t \<Rightarrow> t \<le> now) \<and> oe_EventType e \<in> set types"

definition claim_order :: "outbox_event \<Rightarrow> instant \<times> instant \<times> string" where
  "claim_order e = (oe_AvailableAt e, oe_CreatedAt e, oe_ID e)"

definition claim_ids :: "pg_choice \<Rightarrow> instant \<Rightarrow> string list \<Rightarrow> int \<Rightarrow> outbox_event list \<Rightarrow> string list" where
  "claim_ids pg now types limit rows =
     map oe_ID (take (nat limit)
       (sort_key claim_order (filter (\<lambda>e. ready now types e \<and> \<not> pg_locked pg (oe_ID e)) rows)))"

definition lease_row :: "string \<Rightarrow> instant \<Rightarrow> outbox_event \<Rightarrow> outbox_event" where
  "lease_row owner leaseUntil e =
     e\<lparr>oe_LeaseOwner := Some owner, oe_LeaseExpiresAt := Some leaseUntil, oe_PublishAttempts := oe_PublishAttempts e + 1\<rparr>"

definition claim_rows :: "pg_choice \<Rightarrow> string \<Rightarrow> instant \<Rightarrow> instant \<Rightarrow> string list \<Rightarrow> int \<Rightarrow> outbox_state \<Rightarrow> outbox_event list \<times> outbox_state" where
  "claim_rows pg owner now leaseUntil types limit s =
     (let ids = claim_ids pg now types limit (ob_rows s);
          s1 = snd (update_rows (\<lambda>e. oe_ID e \<in> set ids) (lease_row owner leaseUntil) s)
      in (pg_returning pg (filter (\<lambda>e. oe_ID e \<in> set ids) (ob_rows s1)), s1))"

definition ClaimOutboxEvents :: "pg_choice \<Rightarrow> string \<Rightarrow> instant \<Rightarrow> instant \<Rightarrow> string list \<Rightarrow> int \<Rightarrow> outbox_state
    \<Rightarrow> (outbox_error + outbox_event list) \<times> outbox_state" where
  "ClaimOutboxEvents pg owner0 now leaseUntil types limit s =
     (let owner = TrimSpace owner0 in
      if owner = [] \<or> length owner > 255 then (Inl OwnerRequired, s)
      else if now = zero_time \<or> \<not> leaseUntil > now then (Inl InvalidClaimTimes, s)
      else if limit < 1 \<or> limit > 100 then (Inl InvalidClaimLimit, s)
      else if types = [] then (Inl EventTypesRequired, s)
      else if \<not> list_all (\<lambda>t. TrimSpace t \<noteq> []) types then (Inl BlankEventType, s)
      else case external_call (claim_rows pg owner now leaseUntil types limit) s of
             (None, s1) \<Rightarrow> (Inl DatabaseError, s1)
           | (Some es, s1) \<Rightarrow> (Inr es, s1))"

definition validateOutboxLeaseMutation :: "string \<Rightarrow> string \<Rightarrow> instant \<Rightarrow> bool" where
  "validateOutboxLeaseMutation eventID owner at \<longleftrightarrow> TrimSpace eventID \<noteq> [] \<and> TrimSpace owner \<noteq> [] \<and> at \<noteq> zero_time"

text \<open>The conditional updates of the repository: one row must be affected.\<close>

definition mutate_one :: "outbox_error \<Rightarrow> (outbox_event \<Rightarrow> bool) \<Rightarrow> (outbox_event \<Rightarrow> outbox_event) \<Rightarrow> outbox_state
    \<Rightarrow> outbox_error option \<times> outbox_state" where
  "mutate_one mismatch p f s =
     (case external_call (update_rows p f) s of
        (None, s1) \<Rightarrow> (Some DatabaseError, s1)
      | (Some n, s1) \<Rightarrow> (if n = 1 then None else Some mismatch, s1))"

definition owned_by :: "string \<Rightarrow> string \<Rightarrow> outbox_event \<Rightarrow> bool" where
  "owned_by eventID owner e \<longleftrightarrow> oe_ID e = eventID \<and> oe_PublishedAt e = None \<and> oe_LeaseOwner e = Some owner"

definition publish_row :: "instant \<Rightarrow> outbox_event \<Rightarrow> outbox_event" where
  "publish_row at e = e\<lparr>oe_PublishedAt := Some at, oe_LeaseOwner := None, oe_LeaseExpiresAt := None\<rparr>"

definition CompleteOutboxEvent :: "string \<Rightarrow> string \<Rightarrow> instant \<Rightarrow> outbox_state \<Rightarrow> outbox_error option \<times> outbox_state" where
  "CompleteOutboxEvent eventID owner publishedAt s =
     (if \<not> validateOutboxLeaseMutation eventID owner publishedAt then (Some MutationArguments, s)
      else mutate_one LeaseOwnerMismatch (owned_by eventID owner) (publish_row publishedAt) s)"

definition retry_row :: "instant \<Rightarrow> outbox_event \<Rightarrow> outbox_event" where
  "retry_row at e = e\<lparr>oe_AvailableAt := at, oe_LeaseOwner := None, oe_LeaseExpiresAt := None\<rparr>"

definition RetryOutboxEvent :: "string \<Rightarrow> string \<Rightarrow> instant \<Rightarrow> outbox_state \<Rightarrow> outbox_error option \<times> outbox_state" where
  "RetryOutboxEvent eventID owner availableAt s =
     (if \<not> validateOutboxLeaseMutation eventID owner availableAt then (Some MutationArguments, s)
      else mutate_one LeaseOwnerMismatch (owned_by eventID owner) (retry_row availableAt) s)"

definition unleased :: "string \<Rightarrow> outbox_event \<Rightarrow> bool" where
  "unleased eventID e \<longleftrightarrow> oe_ID e = eventID \<and> oe_PublishedAt e = None \<and> oe_LeaseOwner e = None \<and> oe_LeaseExpiresAt e = None"

definition MarkOutboxPublished :: "string \<Rightarrow> instant \<Rightarrow> outbox_state \<Rightarrow> outbox_error option \<times> outbox_state" where
  "MarkOutboxPublished eventID publishedAt s =
     (if eventID = [] \<or> publishedAt = zero_time then (Some MutationArguments, s)
      else mutate_one NotPending (unleased eventID) (publish_row publishedAt) s)"

end
