(* ===== verification/Outbox_Dispatch.thy ===== *)
theory Outbox_Dispatch
  imports Outbox_Store
begin

text \<open>
  From outbox events to queue messages: the mapping of \<open>internal/outbox/invoice_mapper.go\<close>, the
  publishers of \<open>immediate_publisher.go\<close> and the dispatcher of \<open>dispatcher.go\<close> (with the
  Lambda entry of \<open>cmd/lambda/outbox/main.go\<close>). \<open>uuid.Parse\<close> of the third-party package is the
  argument \<open>uuid_ok\<close>; the clock is an argument.
\<close>

section \<open>Event types and mapping\<close>

definition invoicePreviewRequestedEvent :: string where "invoicePreviewRequestedEvent = ''invoice.preview.requested.v1''"
definition invoiceIssuedEvent :: string where "invoiceIssuedEvent = ''invoice.issued.v1''"
definition invoiceDeliveryRequestedEvent :: string where "invoiceDeliveryRequestedEvent = ''invoice.delivery.requested.v1''"
definition generateDocumentPDFMessage :: string where "generateDocumentPDFMessage = ''generate_document_pdf''"
definition sendInvoicePDFMessage :: string where "sendInvoicePDFMessage = ''send_invoice_pdf''"

definition InvoiceRenderEventTypes :: "string list" where
  "InvoiceRenderEventTypes = [invoicePreviewRequestedEvent, invoiceIssuedEvent]"

definition InvoiceDispatchEventTypes :: "string list" where
  "InvoiceDispatchEventTypes = [invoicePreviewRequestedEvent, invoiceIssuedEvent, invoiceDeliveryRequestedEvent]"

definition validUUID :: "(string \<Rightarrow> bool) \<Rightarrow> string \<Rightarrow> bool" where
  "validUUID uuid_ok value \<longleftrightarrow> uuid_ok (TrimSpace value)"

definition invoicePreviewEnvelope :: "(string \<times> field_kind) list" where
  "invoicePreviewEnvelope =
     [(''schema_version'', FInt), (''type'', FString), (''aggregate_type'', FString), (''aggregate_id'', FString),
      (''invoice_id'', FString), (''document_id'', FString), (''invoice_version'', FInt), (''render_job_id'', FString)]"

definition invoiceIssuedEnvelope :: "(string \<times> field_kind) list" where
  "invoiceIssuedEnvelope =
     [(''schema_version'', FInt), (''aggregate_type'', FString), (''aggregate_id'', FString),
      (''invoice_no'', FString), (''invoice_version'', FInt), (''render_job_id'', FString)]"

definition invoiceDeliveryEnvelope :: "(string \<times> field_kind) list" where
  "invoiceDeliveryEnvelope =
     [(''schema_version'', FInt), (''delivery_id'', FString), (''invoice_id'', FString), (''render_job_id'', FString)]"

definition invoiceWorkerMessage :: "string \<Rightarrow> string \<Rightarrow> int \<Rightarrow> string \<Rightarrow> string" where
  "invoiceWorkerMessage invoiceID documentID version renderJobID =
     json_object
       [(''type'', json_string generateDocumentPDFMessage), (''invoice_id'', json_string invoiceID),
        (''document_id'', json_string documentID), (''invoice_version'', json_int version),
        (''render_job_id'', json_string renderJobID)]"

definition emailDeliveryWorkerMessage :: "string \<Rightarrow> string \<Rightarrow> string \<Rightarrow> string \<Rightarrow> string" where
  "emailDeliveryWorkerMessage businessID deliveryID invoiceID renderJobID =
     json_object
       [(''schema_version'', json_int 1), (''type'', json_string sendInvoicePDFMessage),
        (''business_id'', json_string businessID), (''delivery_id'', json_string deliveryID),
        (''invoice_id'', json_string invoiceID), (''render_job_id'', json_string renderJobID)]"

definition validInvoiceOutboxIdentity :: "(string \<Rightarrow> bool) \<Rightarrow> outbox_event \<Rightarrow> bool" where
  "validInvoiceOutboxIdentity uuid_ok e \<longleftrightarrow>
     validUUID uuid_ok (oe_ID e) \<and> validUUID uuid_ok (oe_BusinessID e) \<and> oe_AggregateType e = ''invoice'' \<and>
     validUUID uuid_ok (oe_AggregateID e) \<and> TrimSpace (oe_Payload e) \<noteq> []"

definition MapInvoiceEventToSQSMessage :: "(string \<Rightarrow> bool) \<Rightarrow> outbox_event \<Rightarrow> outbox_error + string" where
  "MapInvoiceEventToSQSMessage uuid_ok e =
     (let bad = Inl (MappingError (oe_ID e)) in
      if \<not> validInvoiceOutboxIdentity uuid_ok e then bad
      else if oe_EventType e = invoicePreviewRequestedEvent then
        (case decode_struct invoicePreviewEnvelope (oe_Payload e) of
           None \<Rightarrow> bad
         | Some v \<Rightarrow>
             if int_field v ''schema_version'' \<noteq> 1 \<or> string_field v ''type'' \<noteq> generateDocumentPDFMessage \<or>
                string_field v ''aggregate_type'' \<noteq> oe_AggregateType e \<or> string_field v ''aggregate_id'' \<noteq> oe_AggregateID e \<or>
                string_field v ''invoice_id'' \<noteq> oe_AggregateID e \<or> string_field v ''document_id'' \<noteq> oe_AggregateID e \<or>
                int_field v ''invoice_version'' < 1 \<or> \<not> validUUID uuid_ok (string_field v ''render_job_id'')
             then bad
             else Inr (invoiceWorkerMessage (string_field v ''invoice_id'') (string_field v ''document_id'')
                         (int_field v ''invoice_version'') (string_field v ''render_job_id'')))
      else if oe_EventType e = invoiceIssuedEvent then
        (case decode_struct invoiceIssuedEnvelope (oe_Payload e) of
           None \<Rightarrow> bad
         | Some v \<Rightarrow>
             if int_field v ''schema_version'' \<noteq> 1 \<or> string_field v ''aggregate_type'' \<noteq> oe_AggregateType e \<or>
                string_field v ''aggregate_id'' \<noteq> oe_AggregateID e \<or> int_field v ''invoice_version'' < 1 \<or>
                \<not> validUUID uuid_ok (string_field v ''render_job_id'')
             then bad
             else Inr (invoiceWorkerMessage (oe_AggregateID e) (oe_AggregateID e)
                         (int_field v ''invoice_version'') (string_field v ''render_job_id'')))
      else bad)"

definition MapEmailDeliveryEventToSQSMessage :: "(string \<Rightarrow> bool) \<Rightarrow> outbox_event \<Rightarrow> outbox_error + string" where
  "MapEmailDeliveryEventToSQSMessage uuid_ok e =
     (let bad = Inl (MappingError (oe_ID e)) in
      if \<not> validUUID uuid_ok (oe_ID e) \<or> \<not> validUUID uuid_ok (oe_BusinessID e) \<or> oe_AggregateType e \<noteq> ''email_delivery'' \<or>
         \<not> validUUID uuid_ok (oe_AggregateID e) \<or> oe_EventType e \<noteq> invoiceDeliveryRequestedEvent \<or> TrimSpace (oe_Payload e) = []
      then bad
      else case decode_struct invoiceDeliveryEnvelope (oe_Payload e) of
             None \<Rightarrow> bad
           | Some v \<Rightarrow>
               if int_field v ''schema_version'' \<noteq> 1 \<or> string_field v ''delivery_id'' \<noteq> oe_AggregateID e \<or>
                  \<not> validUUID uuid_ok (string_field v ''delivery_id'') \<or> \<not> validUUID uuid_ok (string_field v ''invoice_id'') \<or>
                  \<not> validUUID uuid_ok (string_field v ''render_job_id'')
               then bad
               else Inr (emailDeliveryWorkerMessage (oe_BusinessID e) (string_field v ''delivery_id'')
                           (string_field v ''invoice_id'') (string_field v ''render_job_id'')))"

section \<open>Publishers\<close>

record outbox_publisher =
  op_invoiceQueueURL :: string
  op_emailDeliveryQueueURL :: string
  op_uuid_ok :: "string \<Rightarrow> bool"

definition NewSQSOutboxPublisher :: "(string \<Rightarrow> bool) \<Rightarrow> string \<Rightarrow> string \<Rightarrow> outbox_publisher" where
  "NewSQSOutboxPublisher uuid_ok invoiceQueueURL emailDeliveryQueueURL =
     \<lparr>op_invoiceQueueURL = TrimSpace invoiceQueueURL, op_emailDeliveryQueueURL = TrimSpace emailDeliveryQueueURL,
      op_uuid_ok = uuid_ok\<rparr>"

text \<open>Where an event goes and as what: the part of \<open>Publish\<close> before \<open>SendMessage\<close>.\<close>

definition route :: "outbox_publisher \<Rightarrow> outbox_event \<Rightarrow> outbox_error + string \<times> string" where
  "route p e =
     (if oe_EventType e = invoicePreviewRequestedEvent \<or> oe_EventType e = invoiceIssuedEvent then
        (case MapInvoiceEventToSQSMessage (op_uuid_ok p) e of
           Inl err \<Rightarrow> Inl err
         | Inr m \<Rightarrow> if op_invoiceQueueURL p = [] then Inl DestinationMissing else Inr (op_invoiceQueueURL p, m))
      else if oe_EventType e = invoiceDeliveryRequestedEvent then
        (case MapEmailDeliveryEventToSQSMessage (op_uuid_ok p) e of
           Inl err \<Rightarrow> Inl err
         | Inr m \<Rightarrow> if op_emailDeliveryQueueURL p = [] then Inl DestinationMissing else Inr (op_emailDeliveryQueueURL p, m))
      else Inl (MappingError (oe_ID e)))"

definition SendMessage :: "string \<Rightarrow> string \<Rightarrow> string \<Rightarrow> outbox_state \<Rightarrow> outbox_error option \<times> outbox_state" where
  "SendMessage queueURL body eventID s =
     (case external_call (\<lambda>s. ((), s\<lparr>ob_sent := ob_sent s @ [\<lparr>sm_Queue = queueURL, sm_Body = body, sm_EventID = eventID\<rparr>]\<rparr>)) s of
        (None, s1) \<Rightarrow> (Some SendError, s1)
      | (Some _, s1) \<Rightarrow> (None, s1))"

definition outbox_Publish :: "outbox_publisher \<Rightarrow> outbox_event \<Rightarrow> outbox_state \<Rightarrow> outbox_error option \<times> outbox_state" where
  "outbox_Publish p e s =
     (case route p e of Inl err \<Rightarrow> (Some err, s) | Inr (queueURL, message) \<Rightarrow> SendMessage queueURL message (oe_ID e) s)"

text \<open>The publisher of rendering events alone.\<close>

definition invoice_Publish :: "(string \<Rightarrow> bool) \<Rightarrow> string \<Rightarrow> outbox_event \<Rightarrow> outbox_state \<Rightarrow> outbox_error option \<times> outbox_state" where
  "invoice_Publish uuid_ok queueURL0 e s =
     (let queueURL = TrimSpace queueURL0 in
      if queueURL = [] \<or> oe_ID e = [] \<or> oe_Payload e = [] then (Some PublisherNotConfigured, s)
      else case MapInvoiceEventToSQSMessage uuid_ok e of
             Inl err \<Rightarrow> (Some err, s)
           | Inr message \<Rightarrow> SendMessage queueURL message (oe_ID e) s)"

definition TryPublish :: "outbox_publisher \<Rightarrow> outbox_event \<Rightarrow> instant \<Rightarrow> outbox_state \<Rightarrow> outbox_error option \<times> outbox_state" where
  "TryPublish p e now s =
     (case outbox_Publish p e s of
        (Some err, s1) \<Rightarrow> (Some err, s1)
      | (None, s1) \<Rightarrow>
          (case MarkOutboxPublished (oe_ID e) now s1 of
             (Some err, s2) \<Rightarrow> (Some (MarkFailed err), s2)
           | (None, s2) \<Rightarrow> (None, s2)))"

section \<open>The dispatcher\<close>

record dispatcher =
  di_publisher :: outbox_publisher
  di_batchSize :: int
  di_leaseDuration :: int
  di_eventTypes :: "string list"

definition nsPerMinute :: int where "nsPerMinute = 60 * nsPerSecond"
definition maxRetryDelay :: int where "maxRetryDelay = 60 * nsPerMinute"

fun validate_types :: "string list \<Rightarrow> string list \<Rightarrow> outbox_error + string list" where
  "validate_types [] acc = Inr acc"
| "validate_types (v # vs) acc =
     (if TrimSpace v = [] then Inl BlankEventType
      else if TrimSpace v \<in> set acc then Inl DuplicateEventType
      else validate_types vs (acc @ [TrimSpace v]))"

definition validateEventTypes :: "string list \<Rightarrow> outbox_error + string list" where
  "validateEventTypes vs = (if vs = [] then Inl EventTypesRequired else validate_types vs [])"

definition NewDispatcher :: "outbox_publisher \<Rightarrow> int \<Rightarrow> int \<Rightarrow> string list \<Rightarrow> outbox_error + dispatcher" where
  "NewDispatcher p batchSize0 lease0 types =
     (let batchSize = (if batchSize0 = 0 then 25 else batchSize0); lease = (if lease0 = 0 then 2 * nsPerMinute else lease0) in
      if batchSize < 1 \<or> batchSize > 100 then Inl BatchSizeRange
      else if lease \<le> 0 then Inl LeaseDurationPositive
      else case validateEventTypes types of
             Inl err \<Rightarrow> Inl err
           | Inr ts \<Rightarrow> Inr \<lparr>di_publisher = p, di_batchSize = batchSize, di_leaseDuration = lease, di_eventTypes = ts\<rparr>)"

fun retry_loop :: "nat \<Rightarrow> int \<Rightarrow> int" where
  "retry_loop 0 delay = (if delay > maxRetryDelay then maxRetryDelay else delay)"
| "retry_loop (Suc n) delay = (if delay \<ge> maxRetryDelay div 2 then maxRetryDelay else retry_loop n (delay * 2))"

definition outboxRetryDelay :: "int \<Rightarrow> int" where
  "outboxRetryDelay attempts = (let a = (if attempts < 1 then 1 else attempts) in retry_loop (nat (a - 1)) nsPerMinute)"

definition pendingAgeSeconds :: "instant option \<Rightarrow> instant \<Rightarrow> int" where
  "pendingAgeSeconds createdAt now =
     (case createdAt of
        None \<Rightarrow> 0
      | Some t \<Rightarrow> if t = zero_time then 0 else if now - t \<le> 0 then 0 else min (2 ^ 63 - 1) (now - t) div nsPerSecond)"

record dispatch_result =
  rs_Claimed :: nat
  rs_Published :: nat
  rs_Retried :: nat
  rs_OldestPendingAgeSeconds :: int

definition empty_result :: dispatch_result where
  "empty_result = \<lparr>rs_Claimed = 0, rs_Published = 0, rs_Retried = 0, rs_OldestPendingAgeSeconds = 0\<rparr>"

text \<open>
  One iteration of the loop over the claimed events. A claimed event is never nil: the rows are
  scanned into fresh values.
\<close>

definition settle_event :: "string \<Rightarrow> instant \<Rightarrow> instant \<Rightarrow> outbox_event \<Rightarrow> outbox_error option \<Rightarrow> outbox_state
    \<Rightarrow> (nat \<times> nat \<times> outbox_error list) \<times> outbox_state" where
  "settle_event owner now completedAt e sent s =
     (case sent of
        Some err \<Rightarrow>
          (case RetryOutboxEvent (oe_ID e) owner (now + outboxRetryDelay (oe_PublishAttempts e)) s of
             (Some rerr, s1) \<Rightarrow> ((0, 0, [RetryFailed (oe_ID e) rerr, PublishFailed (oe_ID e) err]), s1)
           | (None, s1) \<Rightarrow> ((0, 1, [PublishFailed (oe_ID e) err]), s1))
      | None \<Rightarrow>
          (case CompleteOutboxEvent (oe_ID e) owner completedAt s of
             (Some cerr, s1) \<Rightarrow> ((0, 0, [CompleteFailed (oe_ID e) cerr]), s1)
           | (None, s1) \<Rightarrow> ((1, 0, []), s1)))"

fun dispatch_loop :: "outbox_publisher \<Rightarrow> string \<Rightarrow> instant \<Rightarrow> (nat \<Rightarrow> instant) \<Rightarrow> nat \<Rightarrow> outbox_event list \<Rightarrow> outbox_state
    \<Rightarrow> (nat \<times> nat \<times> outbox_error list) \<times> outbox_state" where
  "dispatch_loop p owner now clock i [] s = ((0, 0, []), s)"
| "dispatch_loop p owner now clock i (e # es) s =
     (case outbox_Publish p e s of (sent, s1) \<Rightarrow>
      case settle_event owner now (clock i) e sent s1 of ((pub, ret, errs), s2) \<Rightarrow>
      case dispatch_loop p owner now clock (Suc i) es s2 of ((pubs, rets, errss), s3) \<Rightarrow>
        ((pub + pubs, ret + rets, errs @ errss), s3))"

text \<open>\<open>clock 0\<close> is the first reading of the clock, \<open>clock (i + 1)\<close> the one after the event at position \<open>i\<close> is sent.\<close>

definition Dispatch :: "dispatcher \<Rightarrow> pg_choice \<Rightarrow> (nat \<Rightarrow> instant) \<Rightarrow> string \<Rightarrow> outbox_state
    \<Rightarrow> (dispatch_result \<times> outbox_error list) \<times> outbox_state" where
  "Dispatch d pg clock owner0 s =
     (let owner = TrimSpace owner0; now = clock 0 in
      if owner = [] then ((empty_result, [OwnerRequired]), s)
      else case OldestPendingOutboxEventCreatedAt (di_eventTypes d) s of
        (Inl err, s1) \<Rightarrow> ((empty_result, [ObserveFailed err]), s1)
      | (Inr oldest, s1) \<Rightarrow>
          (let result = empty_result\<lparr>rs_OldestPendingAgeSeconds := pendingAgeSeconds oldest now\<rparr> in
           case ClaimOutboxEvents pg owner now (now + di_leaseDuration d) (di_eventTypes d) (di_batchSize d) s1 of
             (Inl err, s2) \<Rightarrow> ((result, [ClaimFailed err]), s2)
           | (Inr events, s2) \<Rightarrow>
               (case dispatch_loop (di_publisher d) owner now (\<lambda>i. clock (Suc i)) 0 events s2 of
                  ((pub, ret, errs), s3) \<Rightarrow>
                    ((result\<lparr>rs_Claimed := length events, rs_Published := pub, rs_Retried := ret\<rparr>, errs), s3))))"

text \<open>The scheduled Lambda: its request identifier is the owner of the leases.\<close>

definition lambda_Handle :: "dispatcher \<Rightarrow> pg_choice \<Rightarrow> (nat \<Rightarrow> instant) \<Rightarrow> string option \<Rightarrow> outbox_state
    \<Rightarrow> (dispatch_result \<times> outbox_error list) \<times> outbox_state" where
  "lambda_Handle d pg clock requestID s =
     (case requestID of
        None \<Rightarrow> ((empty_result, [RequestIDRequired]), s)
      | Some r \<Rightarrow> if TrimSpace r = [] then ((empty_result, [RequestIDRequired]), s) else Dispatch d pg clock r s)"

end
