(* ===== verification/Delivery_Store.thy ===== *)
theory Delivery_Store
  imports Outbox_Dispatch
begin

text \<open>
  The tables behind invoice delivery and the transactions on them: requesting a delivery
  (\<open>internal/repositories/postgres/invoice_delivery.go\<close>), the final render of an invoice
  (\<open>document_repo.go\<close>), the leases of the email worker (\<open>email_delivery_worker_repo.go\<close>) and the
  feedback of the mail service (\<open>ses_feedback_repo.go\<close>, \<open>internal/sesfeedback\<close>). A transaction
  takes effect as a whole or not at all, and its commit may be reported or not, as in \<open>Faults\<close>.
\<close>

section \<open>Tables\<close>

datatype render_kind = RenderKindPreview | RenderKindFinal

datatype render_status = RJQueued | RJProcessing | RJCompleted | RJFailed | RJObsolete

record render_job =
  rj_ID :: string
  rj_DocumentID :: "string option"
  rj_InvoiceID :: "string option"
  rj_BusinessID :: string
  rj_Kind :: render_kind
  rj_SourceInvoiceVersion :: "int option"
  rj_ObjectKey :: string
  rj_Attempts :: int
  rj_LeaseOwner :: "string option"
  rj_LeaseExpiresAt :: "instant option"
  rj_Status :: render_status
  rj_OutputURL :: string
  rj_OutputFilename :: string
  rj_ErrorMessage :: string
  rj_CompletedAt :: "instant option"
  rj_CreatedAt :: instant
  rj_Deleted :: bool

record invoice_row =
  iv_ID :: string
  iv_BusinessID :: string
  iv_InvoiceNo :: "string option"
  iv_IssuedAt :: "instant option"
  iv_Status :: string
  iv_Version :: int
  iv_Deleted :: bool

record idempotency_key =
  ik_BusinessID :: string
  ik_Command :: string
  ik_IdempotencyKey :: string
  ik_RequestHash :: string
  ik_Completed :: bool
  ik_ResultType :: "string option"
  ik_ResultID :: "string option"

datatype delivery_status =
  WaitingForRender | Queued | Processing | Sent | Delivered | Failed | Bounced | Complained

record email_delivery =
  ed_ID :: string
  ed_BusinessID :: string
  ed_InvoiceID :: "string option"
  ed_RenderJobID :: "string option"
  ed_Recipient :: string
  ed_Subject :: string
  ed_SourceEmail :: string
  ed_Status :: delivery_status
  ed_ProviderMessageID :: string
  ed_ErrorMessage :: string
  ed_Attempts :: int
  ed_LeaseOwner :: "string option"
  ed_LeaseExpiresAt :: "instant option"
  ed_SentAt :: "instant option"
  ed_DeliveredAt :: "instant option"
  ed_FailedAt :: "instant option"
  ed_CreatedAt :: instant
  ed_UpdatedAt :: instant
  ed_Deleted :: bool

text \<open>The activity log keeps, of each entry, who asked for which delivery of which invoice.\<close>

record activity =
  ac_BusinessID :: string
  ac_ActorID :: string
  ac_EntityID :: string
  ac_Action :: string
  ac_DeliveryID :: string

text \<open>A message the mail service accepted.\<close>

record mail =
  ml_Source :: string
  ml_Destination :: string
  ml_ConfigurationSet :: string
  ml_Raw :: string
  ml_DeliveryID :: string
  ml_BusinessID :: string

record delivery_db = faulty +
  dd_keys :: "idempotency_key list"
  dd_invoices :: "invoice_row list"
  dd_jobs :: "render_job list"
  dd_deliveries :: "email_delivery list"
  dd_outbox :: "outbox_event list"
  dd_activity :: "activity list"
  dd_mail :: "mail list"

datatype delivery_error =
    DCommandInvalid | DStage string | DInvoiceNotFound | DInvoiceNotDeliverable | DConflict | DInProgress
  | DDeliveryNotFound | DRenderIdentity | DRenderJobMissing | DRenderVersion | DDatabase
  | ErrDeliveryTerminal | ErrLeaseUnavailable | ErrDeliveryMalformed | DLeaseInput | DLeaseExpiry | DSentMetadata | DFailureRequired
  | ErrInvalidEvent | ErrFeedbackUncorrelated | ErrInvalidTransition
  | DText string | DWrapped delivery_error | DJoined delivery_error delivery_error

text \<open>Rows changed where a condition holds, with their number.\<close>

definition update_deliveries :: "(email_delivery \<Rightarrow> bool) \<Rightarrow> (email_delivery \<Rightarrow> email_delivery) \<Rightarrow> delivery_db \<Rightarrow> nat \<times> delivery_db" where
  "update_deliveries p f s =
     (length (filter p (dd_deliveries s)), s\<lparr>dd_deliveries := map (\<lambda>d. if p d then f d else d) (dd_deliveries s)\<rparr>)"

definition update_jobs :: "(render_job \<Rightarrow> bool) \<Rightarrow> (render_job \<Rightarrow> render_job) \<Rightarrow> delivery_db \<Rightarrow> nat \<times> delivery_db" where
  "update_jobs p f s = (length (filter p (dd_jobs s)), s\<lparr>dd_jobs := map (\<lambda>j. if p j then f j else j) (dd_jobs s)\<rparr>)"

text \<open>A transaction that answers with an error is rolled back.\<close>

definition transaction :: "(delivery_db \<Rightarrow> (delivery_error + 'a) \<times> delivery_db) \<Rightarrow> delivery_db \<Rightarrow> (delivery_error + 'a) \<times> delivery_db" where
  "transaction f s =
     (case external_call (\<lambda>s. case f s of (Inl e, _) \<Rightarrow> (Inl e, s) | (Inr a, t) \<Rightarrow> (Inr a, t)) s of
        (None, t) \<Rightarrow> (Inl DDatabase, t)
      | (Some r, t) \<Rightarrow> (r, t))"

section \<open>Requesting a delivery\<close>

record delivery_command =
  dc_BusinessID :: string
  dc_InvoiceID :: string
  dc_Command :: string
  dc_IdempotencyKey :: string
  dc_RequestHash :: string
  dc_Recipient :: string
  dc_ActorID :: string

record delivery_result =
  dr_Delivery :: email_delivery
  dr_OutboxEvent :: "outbox_event option"
  dr_Replayed :: bool

definition invoiceDeliveryCommand :: string where
  "invoiceDeliveryCommand = ''invoice.delivery.create.v1''"

definition validateAtomicInvoiceDelivery :: "(string \<Rightarrow> bool) \<Rightarrow> delivery_command \<Rightarrow> bool" where
  "validateAtomicInvoiceDelivery uuid_ok c \<longleftrightarrow>
     uuid_ok (dc_BusinessID c) \<and> uuid_ok (dc_InvoiceID c) \<and> uuid_ok (dc_IdempotencyKey c) \<and> uuid_ok (dc_ActorID c) \<and>
     dc_Command c = invoiceDeliveryCommand \<and> length (dc_RequestHash c) = 64 \<and> dc_Recipient c \<noteq> []"

definition key_matches :: "delivery_command \<Rightarrow> idempotency_key \<Rightarrow> bool" where
  "key_matches c k \<longleftrightarrow> ik_BusinessID k = dc_BusinessID c \<and> ik_Command k = dc_Command c \<and> ik_IdempotencyKey k = dc_IdempotencyKey c"

definition invoiceHasDeliverableIssuanceFacts :: "invoice_row \<Rightarrow> bool" where
  "invoiceHasDeliverableIssuanceFacts i \<longleftrightarrow>
     iv_InvoiceNo i \<noteq> None \<and> iv_IssuedAt i \<noteq> None \<and>
     iv_Status i \<in> {''issued'', ''sent'', ''partially_paid'', ''paid'', ''overdue''}"

text \<open>The newest final job: by source version (an absent one first) and by time, both descending, then by identifier.\<close>

definition final_job_order :: "render_job \<Rightarrow> (int \<times> int) \<times> instant \<times> string" where
  "final_job_order j =
     ((case rj_SourceInvoiceVersion j of None \<Rightarrow> (0, 0) | Some v \<Rightarrow> (1, - v)), - rj_CreatedAt j, rj_ID j)"

definition latest_final_job :: "string \<Rightarrow> string \<Rightarrow> render_job list \<Rightarrow> render_job option" where
  "latest_final_job businessID invoiceID jobs =
     (case sort_key final_job_order
             (filter (\<lambda>j. rj_BusinessID j = businessID \<and> rj_InvoiceID j = Some invoiceID \<and> rj_Kind j = RenderKindFinal \<and> \<not> rj_Deleted j) jobs) of
        [] \<Rightarrow> None
      | j # _ \<Rightarrow> Some j)"

definition find_invoice :: "string \<Rightarrow> string \<Rightarrow> delivery_db \<Rightarrow> invoice_row option" where
  "find_invoice invoiceID businessID s =
     find (\<lambda>i. iv_ID i = invoiceID \<and> iv_BusinessID i = businessID \<and> \<not> iv_Deleted i) (dd_invoices s)"

definition delivery_matches :: "string \<Rightarrow> string \<Rightarrow> string \<Rightarrow> email_delivery \<Rightarrow> bool" where
  "delivery_matches deliveryID businessID invoiceID d \<longleftrightarrow>
     ed_ID d = deliveryID \<and> ed_BusinessID d = businessID \<and> ed_InvoiceID d = Some invoiceID \<and> \<not> ed_Deleted d"

definition replayInvoiceDelivery :: "delivery_command \<Rightarrow> delivery_db \<Rightarrow> delivery_error + delivery_result" where
  "replayInvoiceDelivery c s =
     (case find (key_matches c) (dd_keys s) of
        None \<Rightarrow> Inl (DStage ''idempotency replay lookup'')
      | Some k \<Rightarrow>
          if ik_RequestHash k \<noteq> dc_RequestHash c then Inl DConflict
          else if \<not> ik_Completed k then Inl DInProgress
          else if ik_ResultType k \<noteq> Some ''invoice_delivery'' \<or> ik_ResultID k = None then Inl (DStage ''idempotency result replay'')
          else case find (delivery_matches (the (ik_ResultID k)) (dc_BusinessID c) (dc_InvoiceID c)) (dd_deliveries s) of
                 None \<Rightarrow> Inl (DStage ''idempotency result replay'')
               | Some d \<Rightarrow>
                   if ed_Recipient d \<noteq> dc_Recipient c \<or> ed_RenderJobID d = None then Inl (DStage ''idempotency result replay'')
                   else Inr \<lparr>dr_Delivery = d, dr_OutboxEvent = None, dr_Replayed = True\<rparr>)"

text \<open>\<open>json.Marshal\<close> of a map writes its keys in order.\<close>

definition delivery_payload :: "string \<Rightarrow> string \<Rightarrow> string \<Rightarrow> string" where
  "delivery_payload deliveryID invoiceID renderJobID =
     json_object
       [(''delivery_id'', json_string deliveryID), (''invoice_id'', json_string invoiceID),
        (''render_job_id'', json_string renderJobID), (''schema_version'', json_int 1)]"

definition newInvoiceDeliveryOutboxEvent :: "email_delivery \<Rightarrow> string \<Rightarrow> instant \<Rightarrow> outbox_event option" where
  "newInvoiceDeliveryOutboxEvent d eventID now =
     (case (ed_InvoiceID d, ed_RenderJobID d) of
        (Some i, Some j) \<Rightarrow>
          Some \<lparr>oe_ID = eventID, oe_BusinessID = ed_BusinessID d, oe_AggregateType = ''email_delivery'', oe_AggregateID = ed_ID d,
                oe_EventType = invoiceDeliveryRequestedEvent, oe_Payload = delivery_payload (ed_ID d) i j,
                oe_PublishAttempts = 0, oe_AvailableAt = now, oe_LeaseOwner = None, oe_LeaseExpiresAt = None,
                oe_PublishedAt = None, oe_CreatedAt = now\<rparr>
      | _ \<Rightarrow> None)"

definition newInvoiceDeliveryActivity :: "delivery_command \<Rightarrow> email_delivery \<Rightarrow> activity" where
  "newInvoiceDeliveryActivity c d =
     \<lparr>ac_BusinessID = dc_BusinessID c, ac_ActorID = dc_ActorID c, ac_EntityID = dc_InvoiceID c,
      ac_Action = ''delivery_requested'', ac_DeliveryID = ed_ID d\<rparr>"

definition new_delivery :: "delivery_command \<Rightarrow> string \<Rightarrow> string \<Rightarrow> delivery_status \<Rightarrow> instant \<Rightarrow> email_delivery" where
  "new_delivery c deliveryID jobID status now =
     \<lparr>ed_ID = deliveryID, ed_BusinessID = dc_BusinessID c, ed_InvoiceID = Some (dc_InvoiceID c), ed_RenderJobID = Some jobID,
      ed_Recipient = dc_Recipient c, ed_Subject = [], ed_SourceEmail = [], ed_Status = status, ed_ProviderMessageID = [],
      ed_ErrorMessage = [], ed_Attempts = 0, ed_LeaseOwner = None, ed_LeaseExpiresAt = None, ed_SentAt = None,
      ed_DeliveredAt = None, ed_FailedAt = None, ed_CreatedAt = now, ed_UpdatedAt = now, ed_Deleted = False\<rparr>"

text \<open>The status a new delivery starts in, from the status of the final render.\<close>

definition start_status :: "render_job \<Rightarrow> delivery_error + delivery_status" where
  "start_status j =
     (case rj_Status j of
        RJQueued \<Rightarrow> Inr WaitingForRender
      | RJProcessing \<Rightarrow> Inr WaitingForRender
      | RJFailed \<Rightarrow> Inr WaitingForRender
      | RJCompleted \<Rightarrow> if TrimSpace (rj_ObjectKey j) = [] then Inl (DStage ''final render validation'') else Inr Queued
      | RJObsolete \<Rightarrow> Inl DInvoiceNotDeliverable)"

text \<open>The inserts of the transaction, and the completion of its idempotency claim, which must affect one row.\<close>

definition insert_delivery :: "delivery_command \<Rightarrow> email_delivery \<Rightarrow> string \<Rightarrow> instant \<Rightarrow> delivery_db \<Rightarrow> (delivery_error + delivery_result) \<times> delivery_db" where
  "insert_delivery c d eventID now s =
     (let claimed = (\<lambda>k. key_matches c k \<and> ik_RequestHash k = dc_RequestHash c \<and> \<not> ik_Completed k);
          event = (if ed_Status d = Queued then newInvoiceDeliveryOutboxEvent d eventID now else None);
          s1 = s\<lparr>dd_deliveries := dd_deliveries s @ [d], dd_activity := dd_activity s @ [newInvoiceDeliveryActivity c d],
                 dd_outbox := dd_outbox s @ (case event of None \<Rightarrow> [] | Some e \<Rightarrow> [e])\<rparr>
      in if ed_Status d = Queued \<and> event = None then (Inl (DStage ''outbox payload''), s)
         else if length (filter claimed (dd_keys s1)) \<noteq> 1 then (Inl (DStage ''idempotency completion''), s)
         else (Inr \<lparr>dr_Delivery = d, dr_OutboxEvent = event, dr_Replayed = False\<rparr>,
               s1\<lparr>dd_keys := map (\<lambda>k. if claimed k
                    then k\<lparr>ik_Completed := True, ik_ResultType := Some ''invoice_delivery'', ik_ResultID := Some (ed_ID d)\<rparr> else k) (dd_keys s1)\<rparr>))"

definition claim_key :: "delivery_command \<Rightarrow> idempotency_key" where
  "claim_key c =
     \<lparr>ik_BusinessID = dc_BusinessID c, ik_Command = dc_Command c, ik_IdempotencyKey = dc_IdempotencyKey c,
      ik_RequestHash = dc_RequestHash c, ik_Completed = False, ik_ResultType = None, ik_ResultID = None\<rparr>"

definition create_delivery_tx :: "delivery_command \<Rightarrow> string \<Rightarrow> string \<Rightarrow> instant \<Rightarrow> delivery_db \<Rightarrow> (delivery_error + delivery_result) \<times> delivery_db" where
  "create_delivery_tx c deliveryID eventID now s =
     (if (\<exists>k \<in> set (dd_keys s). key_matches c k) then (replayInvoiceDelivery c s, s)
      else
        let s1 = s\<lparr>dd_keys := dd_keys s @ [claim_key c]\<rparr>; inv = find_invoice (dc_InvoiceID c) (dc_BusinessID c) s in
        case latest_final_job (dc_BusinessID c) (dc_InvoiceID c) (dd_jobs s) of
          None \<Rightarrow> (Inl (if inv = None then DInvoiceNotFound else DInvoiceNotDeliverable), s)
        | Some j \<Rightarrow>
            (case inv of
               None \<Rightarrow> (Inl DInvoiceNotFound, s)
             | Some i \<Rightarrow>
                 if \<not> invoiceHasDeliverableIssuanceFacts i \<or> rj_InvoiceID j \<noteq> Some (iv_ID i) \<or> rj_SourceInvoiceVersion j \<noteq> Some (iv_Version i)
                 then (Inl DInvoiceNotDeliverable, s)
                 else (case start_status j of
                         Inl e \<Rightarrow> (Inl e, s)
                       | Inr status \<Rightarrow> insert_delivery c (new_delivery c deliveryID (rj_ID j) status now) eventID now s1)))"

definition CreateDeliveryAtomic :: "(string \<Rightarrow> bool) \<Rightarrow> delivery_command \<Rightarrow> string \<Rightarrow> string \<Rightarrow> instant \<Rightarrow> delivery_db
    \<Rightarrow> (delivery_error + delivery_result) \<times> delivery_db" where
  "CreateDeliveryAtomic uuid_ok c deliveryID eventID now s =
     (if \<not> validateAtomicInvoiceDelivery uuid_ok c then (Inl DCommandInvalid, s)
      else transaction (create_delivery_tx c deliveryID eventID now) s)"

definition GetInvoiceDelivery :: "string \<Rightarrow> string \<Rightarrow> string \<Rightarrow> delivery_db \<Rightarrow> (delivery_error + email_delivery) \<times> delivery_db" where
  "GetInvoiceDelivery businessID invoiceID deliveryID s =
     (case external_call (\<lambda>s. (find (delivery_matches deliveryID businessID invoiceID) (dd_deliveries s), s)) s of
        (None, t) \<Rightarrow> (Inl DDatabase, t)
      | (Some None, t) \<Rightarrow> (Inl DDeliveryNotFound, t)
      | (Some (Some d), t) \<Rightarrow> (Inr d, t))"

section \<open>The final render\<close>

datatype render_claim = FinalRenderClaimed | FinalRenderAlreadyProcessing | FinalRenderAlreadyCompleted | FinalRenderAlreadyObsolete

definition validRenderLeaseOwner :: "string \<Rightarrow> bool" where
  "validRenderLeaseOwner owner \<longleftrightarrow> TrimSpace owner \<noteq> [] \<and> length owner \<le> 255"

definition final_job :: "string \<Rightarrow> string \<Rightarrow> render_job \<Rightarrow> bool" where
  "final_job jobID businessID j \<longleftrightarrow> rj_ID j = jobID \<and> rj_BusinessID j = businessID \<and> rj_Kind j = RenderKindFinal \<and> \<not> rj_Deleted j"

definition owned_final_job :: "string \<Rightarrow> string \<Rightarrow> string \<Rightarrow> render_job \<Rightarrow> bool" where
  "owned_final_job jobID businessID owner j \<longleftrightarrow>
     final_job jobID businessID j \<and> rj_Status j = RJProcessing \<and> rj_LeaseOwner j = Some owner"

definition ClaimFinalRender :: "string \<Rightarrow> string \<Rightarrow> int \<Rightarrow> string \<Rightarrow> instant \<Rightarrow> instant \<Rightarrow> delivery_db \<Rightarrow> (delivery_error + render_claim) \<times> delivery_db" where
  "ClaimFinalRender businessID jobID sourceVersion owner now leaseUntil s =
     (if businessID = [] \<or> jobID = [] \<or> sourceVersion < 1 \<or> \<not> validRenderLeaseOwner owner \<or> \<not> leaseUntil > now
      then (Inl DRenderIdentity, s)
      else
        let claimable = (\<lambda>j. final_job jobID businessID j \<and> rj_SourceInvoiceVersion j = Some sourceVersion \<and>
              (rj_Status j \<in> {RJQueued, RJFailed} \<or>
               rj_Status j = RJProcessing \<and> (case rj_LeaseExpiresAt j of None \<Rightarrow> True | Some t \<Rightarrow> t \<le> now)));
            claim = (\<lambda>j. j\<lparr>rj_Status := RJProcessing, rj_Attempts := rj_Attempts j + 1, rj_ErrorMessage := [],
                          rj_CompletedAt := None, rj_LeaseOwner := Some owner, rj_LeaseExpiresAt := Some leaseUntil\<rparr>)
        in case external_call (update_jobs claimable claim) s of
             (None, t) \<Rightarrow> (Inl DDatabase, t)
           | (Some n, t) \<Rightarrow>
               if n = 1 then (Inr FinalRenderClaimed, t)
               else (case external_call (\<lambda>s. (find (final_job jobID businessID) (dd_jobs s), s)) t of
                       (None, u) \<Rightarrow> (Inl DDatabase, u)
                     | (Some None, u) \<Rightarrow> (Inl DRenderJobMissing, u)
                     | (Some (Some j), u) \<Rightarrow>
                         (if rj_SourceInvoiceVersion j \<noteq> Some sourceVersion then Inl DRenderVersion
                          else (case rj_Status j of
                                  RJProcessing \<Rightarrow> Inr FinalRenderAlreadyProcessing
                                | RJCompleted \<Rightarrow> Inr FinalRenderAlreadyCompleted
                                | RJObsolete \<Rightarrow> Inr FinalRenderAlreadyObsolete
                                | _ \<Rightarrow> Inl DRenderIdentity), u)))"

definition FailFinalRender :: "string \<Rightarrow> string \<Rightarrow> string \<Rightarrow> string \<Rightarrow> delivery_db \<Rightarrow> delivery_error option \<times> delivery_db" where
  "FailFinalRender businessID jobID owner errorMessage s =
     (if businessID = [] \<or> jobID = [] \<or> \<not> validRenderLeaseOwner owner then (Some DRenderIdentity, s)
      else case external_call (update_jobs (owned_final_job jobID businessID owner)
                  (\<lambda>j. j\<lparr>rj_Status := RJFailed, rj_ErrorMessage := errorMessage, rj_CompletedAt := None,
                         rj_LeaseOwner := None, rj_LeaseExpiresAt := None\<rparr>)) s of
             (None, t) \<Rightarrow> (Some DDatabase, t)
           | (Some n, t) \<Rightarrow>
               if n = 1 then (None, t)
               else (case external_call (\<lambda>s. (find (final_job jobID businessID) (dd_jobs s), s)) t of
                       (None, u) \<Rightarrow> (Some DDatabase, u)
                     | (Some None, u) \<Rightarrow> (Some DRenderJobMissing, u)
                     | (Some (Some j), u) \<Rightarrow> (if rj_Status j \<in> {RJFailed, RJCompleted} then None else Some DRenderIdentity, u)))"

text \<open>Deliveries that wait for a render are queued, each with its outbox event; \<open>eventIDs\<close> are the identifiers of the events.\<close>

definition waiting_delivery :: "string \<Rightarrow> string \<Rightarrow> string \<Rightarrow> email_delivery \<Rightarrow> bool" where
  "waiting_delivery businessID invoiceID jobID d \<longleftrightarrow>
     ed_BusinessID d = businessID \<and> ed_InvoiceID d = Some invoiceID \<and> ed_RenderJobID d = Some jobID \<and>
     ed_Status d = WaitingForRender \<and> \<not> ed_Deleted d"

definition queue_delivery :: "instant \<Rightarrow> email_delivery \<Rightarrow> email_delivery" where
  "queue_delivery now d = d\<lparr>ed_Status := Queued, ed_UpdatedAt := now\<rparr>"

definition queueWaitingInvoiceDeliveries :: "string \<Rightarrow> string \<Rightarrow> string \<Rightarrow> instant \<Rightarrow> delivery_db \<Rightarrow> email_delivery list \<times> delivery_db" where
  "queueWaitingInvoiceDeliveries businessID invoiceID jobID now s =
     (map (queue_delivery now) (filter (waiting_delivery businessID invoiceID jobID) (dd_deliveries s)),
      snd (update_deliveries (waiting_delivery businessID invoiceID jobID) (queue_delivery now) s))"

fun waiting_events :: "email_delivery list \<Rightarrow> (nat \<Rightarrow> string) \<Rightarrow> nat \<Rightarrow> instant \<Rightarrow> outbox_event list option" where
  "waiting_events [] eventIDs n now = Some []"
| "waiting_events (d # ds) eventIDs n now =
     (case newInvoiceDeliveryOutboxEvent d (eventIDs n) now of
        None \<Rightarrow> None
      | Some e \<Rightarrow> map_option (Cons e) (waiting_events ds eventIDs (Suc n) now))"

definition complete_render_tx :: "string \<Rightarrow> string \<Rightarrow> string \<Rightarrow> int \<Rightarrow> string \<Rightarrow> string \<Rightarrow> string \<Rightarrow> (nat \<Rightarrow> string) \<Rightarrow> instant \<Rightarrow> delivery_db
    \<Rightarrow> (delivery_error + bool) \<times> delivery_db" where
  "complete_render_tx businessID invoiceID jobID sourceVersion owner objectKey filename eventIDs now s =
     (case find (owned_final_job jobID businessID owner) (dd_jobs s) of
        None \<Rightarrow> (Inl DRenderJobMissing, s)
      | Some j \<Rightarrow>
          if rj_SourceInvoiceVersion j \<noteq> Some sourceVersion \<or> rj_ObjectKey j \<noteq> objectKey \<or>
             rj_InvoiceID j \<noteq> Some invoiceID \<or> rj_DocumentID j \<noteq> Some invoiceID
          then (Inl DRenderIdentity, s)
          else (case find_invoice invoiceID businessID s of
                  None \<Rightarrow> (Inl DInvoiceNotFound, s)
                | Some i \<Rightarrow>
                    if iv_Version i \<noteq> sourceVersion then (Inl DRenderVersion, s)
                    else (case update_jobs (owned_final_job jobID businessID owner)
                                 (\<lambda>j. j\<lparr>rj_Status := RJCompleted, rj_OutputURL := [], rj_OutputFilename := filename, rj_ErrorMessage := [],
                                        rj_CompletedAt := Some now, rj_LeaseOwner := None, rj_LeaseExpiresAt := None\<rparr>) s of
                            (n, s1) \<Rightarrow>
                              if n \<noteq> 1 then (Inl DRenderIdentity, s)
                              else (case queueWaitingInvoiceDeliveries businessID invoiceID jobID now s1 of
                                      (waiting, s2) \<Rightarrow>
                                        (case waiting_events waiting eventIDs 0 now of
                                           None \<Rightarrow> (Inl (DStage ''outbox payload''), s)
                                         | Some es \<Rightarrow> (Inr True, s2\<lparr>dd_outbox := dd_outbox s2 @ es\<rparr>))))))"

definition CompleteFinalRender :: "string \<Rightarrow> string \<Rightarrow> string \<Rightarrow> int \<Rightarrow> string \<Rightarrow> string \<Rightarrow> string \<Rightarrow> (nat \<Rightarrow> string) \<Rightarrow> instant \<Rightarrow> delivery_db
    \<Rightarrow> (delivery_error + bool) \<times> delivery_db" where
  "CompleteFinalRender businessID invoiceID jobID sourceVersion owner objectKey filename eventIDs now s =
     (if businessID = [] \<or> invoiceID = [] \<or> jobID = [] \<or> sourceVersion < 1 \<or> \<not> validRenderLeaseOwner owner \<or> objectKey = [] \<or> filename = []
      then (Inl DRenderIdentity, s)
      else transaction (complete_render_tx businessID invoiceID jobID sourceVersion owner objectKey filename eventIDs now) s)"

end
