(* ===== verification/Email_Repository.thy ===== *)
theory Email_Repository
  imports Delivery_Store
begin

text \<open>
  The leases of the email worker (\<open>internal/repositories/postgres/email_delivery_worker_repo.go\<close>)
  and the feedback of the mail service (\<open>internal/sesfeedback/transition.go\<close>, the tail of
  \<open>processor.go\<close>, \<open>internal/repositories/postgres/ses_feedback_repo.go\<close>).
\<close>

section \<open>Work items\<close>

record delivery_message =
  dm_SchemaVersion :: int
  dm_Type :: string
  dm_BusinessID :: string
  dm_DeliveryID :: string
  dm_InvoiceID :: string
  dm_RenderJobID :: string

record claimed_delivery =
  cd_DeliveryID :: string
  cd_BusinessID :: string
  cd_InvoiceID :: string
  cd_RenderJobID :: string
  cd_Recipient :: string
  cd_InvoiceNo :: string
  cd_InvoiceVersion :: int
  cd_ObjectKey :: string
  cd_OutputFilename :: string

definition validateEmailDeliveryLeaseInput :: "(string \<Rightarrow> bool) \<Rightarrow> string \<Rightarrow> string \<Rightarrow> instant \<Rightarrow> bool" where
  "validateEmailDeliveryLeaseInput uuid_ok deliveryID owner now \<longleftrightarrow>
     uuid_ok (TrimSpace deliveryID) \<and> TrimSpace owner \<noteq> [] \<and> length (TrimSpace owner) \<le> 255 \<and> now \<noteq> zero_time"

section \<open>Claiming\<close>

definition final_object_key :: "string \<Rightarrow> string \<Rightarrow> int \<Rightarrow> string" where
  "final_object_key businessID invoiceID version =
     ''invoices/'' @ businessID @ ''/'' @ invoiceID @ ''/v'' @ Itoa version @ ''/final.pdf''"

definition message_matches :: "delivery_message \<Rightarrow> email_delivery \<Rightarrow> bool" where
  "message_matches m d \<longleftrightarrow>
     ed_ID d = dm_DeliveryID m \<and> ed_BusinessID d = dm_BusinessID m \<and> ed_InvoiceID d = Some (dm_InvoiceID m) \<and>
     ed_RenderJobID d = Some (dm_RenderJobID m) \<and> \<not> ed_Deleted d"

definition claimable_delivery :: "delivery_message \<Rightarrow> instant \<Rightarrow> email_delivery \<Rightarrow> bool" where
  "claimable_delivery m now d \<longleftrightarrow>
     message_matches m d \<and> ed_Status d \<in> {Queued, Failed, Processing} \<and>
     (case ed_LeaseExpiresAt d of None \<Rightarrow> True | Some t \<Rightarrow> t \<le> now)"

definition claimable_invoice :: "email_delivery \<Rightarrow> invoice_row \<Rightarrow> bool" where
  "claimable_invoice d i \<longleftrightarrow>
     Some (iv_ID i) = ed_InvoiceID d \<and> iv_BusinessID i = ed_BusinessID d \<and> \<not> iv_Deleted i \<and>
     iv_Status i \<in> {''issued'', ''sent'', ''partially_paid'', ''paid'', ''overdue''} \<and> iv_InvoiceNo i \<noteq> None \<and> iv_IssuedAt i \<noteq> None"

definition claimable_job :: "email_delivery \<Rightarrow> invoice_row \<Rightarrow> render_job \<Rightarrow> bool" where
  "claimable_job d i j \<longleftrightarrow>
     Some (rj_ID j) = ed_RenderJobID d \<and> rj_InvoiceID j = ed_InvoiceID d \<and> rj_BusinessID j = ed_BusinessID d \<and> \<not> rj_Deleted j \<and>
     rj_Kind j = RenderKindFinal \<and> rj_Status j = RJCompleted \<and> rj_SourceInvoiceVersion j = Some (iv_Version i) \<and>
     rj_ObjectKey j = final_object_key (ed_BusinessID d) (iv_ID i) (iv_Version i)"

definition lease_delivery :: "string \<Rightarrow> instant \<Rightarrow> instant \<Rightarrow> email_delivery \<Rightarrow> email_delivery" where
  "lease_delivery owner leaseUntil now d =
     d\<lparr>ed_Status := Processing, ed_LeaseOwner := Some owner, ed_LeaseExpiresAt := Some leaseUntil,
       ed_Attempts := ed_Attempts d + 1, ed_ErrorMessage := [], ed_UpdatedAt := now\<rparr>"

text \<open>
  The statement with the common table expression: the delivery, its invoice and its final
  render, when all three qualify and the delivery is not locked by another transaction.
\<close>

definition claim_candidate :: "(string \<Rightarrow> bool) \<Rightarrow> delivery_message \<Rightarrow> instant \<Rightarrow> delivery_db \<Rightarrow> (email_delivery \<times> invoice_row \<times> render_job) option" where
  "claim_candidate locked m now s =
     (case find (claimable_delivery m now) (dd_deliveries s) of
        None \<Rightarrow> None
      | Some d \<Rightarrow>
          if locked (ed_ID d) then None
          else (case find (claimable_invoice d) (dd_invoices s) of
                  None \<Rightarrow> None
                | Some i \<Rightarrow> map_option (\<lambda>j. (d, i, j)) (find (claimable_job d i) (dd_jobs s))))"

definition claim_delivery :: "(string \<Rightarrow> bool) \<Rightarrow> delivery_message \<Rightarrow> string \<Rightarrow> instant \<Rightarrow> instant \<Rightarrow> delivery_db \<Rightarrow> claimed_delivery option \<times> delivery_db" where
  "claim_delivery locked m owner now leaseUntil s =
     (case claim_candidate locked m now s of
        None \<Rightarrow> (None, s)
      | Some (d, i, j) \<Rightarrow>
          (Some \<lparr>cd_DeliveryID = ed_ID d, cd_BusinessID = ed_BusinessID d, cd_InvoiceID = iv_ID i, cd_RenderJobID = rj_ID j,
                 cd_Recipient = ed_Recipient d, cd_InvoiceNo = (case iv_InvoiceNo i of Some n \<Rightarrow> n | None \<Rightarrow> []),
                 cd_InvoiceVersion = iv_Version i, cd_ObjectKey = rj_ObjectKey j, cd_OutputFilename = rj_OutputFilename j\<rparr>,
           snd (update_deliveries (\<lambda>x. ed_ID x = ed_ID d) (lease_delivery owner leaseUntil now) s)))"

definition classifyUnclaimed :: "delivery_message \<Rightarrow> instant \<Rightarrow> delivery_db \<Rightarrow> delivery_error \<times> delivery_db" where
  "classifyUnclaimed m now s =
     (case external_call (\<lambda>s. (find (message_matches m) (dd_deliveries s), s)) s of
        (None, t) \<Rightarrow> (DDatabase, t)
      | (Some None, t) \<Rightarrow> (ErrDeliveryMalformed, t)
      | (Some (Some d), t) \<Rightarrow>
          (if ed_Status d \<in> {Sent, Delivered, Bounced, Complained} then ErrDeliveryTerminal
           else if ed_Status d = Processing \<and> after_opt (ed_LeaseExpiresAt d) now then ErrLeaseUnavailable
           else ErrDeliveryMalformed, t))"

definition email_Claim :: "(string \<Rightarrow> bool) \<Rightarrow> (string \<Rightarrow> bool) \<Rightarrow> delivery_message \<Rightarrow> string \<Rightarrow> instant \<Rightarrow> instant \<Rightarrow> delivery_db
    \<Rightarrow> (delivery_error + claimed_delivery) \<times> delivery_db" where
  "email_Claim uuid_ok locked m owner now leaseUntil s =
     (if \<not> validateEmailDeliveryLeaseInput uuid_ok (dm_DeliveryID m) owner now then (Inl DLeaseInput, s)
      else if \<not> leaseUntil > now then (Inl DLeaseExpiry, s)
      else case external_call (claim_delivery locked m owner now leaseUntil) s of
             (None, t) \<Rightarrow> (Inl DDatabase, t)
           | (Some (Some c), t) \<Rightarrow> (Inr c, t)
           | (Some None, t) \<Rightarrow> (case classifyUnclaimed m now t of (e, u) \<Rightarrow> (Inl e, u)))"

section \<open>The lease and its end\<close>

definition leased_to :: "string \<Rightarrow> string \<Rightarrow> instant \<Rightarrow> email_delivery \<Rightarrow> bool" where
  "leased_to deliveryID owner now d \<longleftrightarrow>
     ed_ID d = deliveryID \<and> ed_Status d = Processing \<and> ed_LeaseOwner d = Some owner \<and>
     after_opt (ed_LeaseExpiresAt d) now \<and> \<not> ed_Deleted d"

definition VerifyLease :: "(string \<Rightarrow> bool) \<Rightarrow> string \<Rightarrow> string \<Rightarrow> instant \<Rightarrow> delivery_db \<Rightarrow> delivery_error option \<times> delivery_db" where
  "VerifyLease uuid_ok deliveryID owner now s =
     (if \<not> validateEmailDeliveryLeaseInput uuid_ok deliveryID owner now then (Some DLeaseInput, s)
      else case external_call (\<lambda>s. (length (filter (leased_to deliveryID owner now) (dd_deliveries s)), s)) s of
             (None, t) \<Rightarrow> (Some DDatabase, t)
           | (Some n, t) \<Rightarrow> (if n \<noteq> 1 then Some ErrLeaseUnavailable else None, t))"

text \<open>The conditional updates: exactly one row must be affected.\<close>

definition settle_delivery :: "string \<Rightarrow> string \<Rightarrow> instant \<Rightarrow> (email_delivery \<Rightarrow> email_delivery) \<Rightarrow> delivery_db \<Rightarrow> delivery_error option \<times> delivery_db" where
  "settle_delivery deliveryID owner now f s =
     (case external_call (update_deliveries (leased_to deliveryID owner now) f) s of
        (None, t) \<Rightarrow> (Some DDatabase, t)
      | (Some n, t) \<Rightarrow> (if n \<noteq> 1 then Some ErrLeaseUnavailable else None, t))"

definition sent_delivery :: "string \<Rightarrow> string \<Rightarrow> string \<Rightarrow> instant \<Rightarrow> email_delivery \<Rightarrow> email_delivery" where
  "sent_delivery providerMessageID source subject now d =
     d\<lparr>ed_Status := Sent, ed_ProviderMessageID := providerMessageID, ed_SourceEmail := source, ed_Subject := subject,
       ed_SentAt := Some now, ed_FailedAt := None, ed_ErrorMessage := [], ed_LeaseOwner := None, ed_LeaseExpiresAt := None,
       ed_UpdatedAt := now\<rparr>"

definition MarkSent :: "(string \<Rightarrow> bool) \<Rightarrow> string \<Rightarrow> string \<Rightarrow> string \<Rightarrow> string \<Rightarrow> string \<Rightarrow> instant \<Rightarrow> delivery_db
    \<Rightarrow> delivery_error option \<times> delivery_db" where
  "MarkSent uuid_ok deliveryID owner providerMessageID source subject now s =
     (if \<not> validateEmailDeliveryLeaseInput uuid_ok deliveryID owner now then (Some DLeaseInput, s)
      else if TrimSpace providerMessageID = [] \<or> TrimSpace source = [] \<or> TrimSpace subject = [] then (Some DSentMetadata, s)
      else settle_delivery deliveryID owner now
             (sent_delivery (TrimSpace providerMessageID) (TrimSpace source) (TrimSpace subject) now) s)"

definition failed_delivery :: "string \<Rightarrow> instant \<Rightarrow> email_delivery \<Rightarrow> email_delivery" where
  "failed_delivery failure now d =
     d\<lparr>ed_Status := Failed, ed_ErrorMessage := failure, ed_FailedAt := Some now, ed_LeaseOwner := None,
       ed_LeaseExpiresAt := None, ed_UpdatedAt := now\<rparr>"

definition delivery_MarkFailed :: "(string \<Rightarrow> bool) \<Rightarrow> string \<Rightarrow> string \<Rightarrow> string \<Rightarrow> instant \<Rightarrow> delivery_db
    \<Rightarrow> delivery_error option \<times> delivery_db" where
  "delivery_MarkFailed uuid_ok deliveryID owner failure now s =
     (if \<not> validateEmailDeliveryLeaseInput uuid_ok deliveryID owner now then (Some DLeaseInput, s)
      else if TrimSpace failure = [] then (Some DFailureRequired, s)
      else settle_delivery deliveryID owner now (failed_delivery (TrimSpace failure) now) s)"

section \<open>Feedback of the mail service\<close>

datatype event_type = EventTypeDelivery | EventTypeBounce | EventTypeComplaint

record feedback_event =
  fe_Type :: event_type
  fe_BusinessID :: string
  fe_DeliveryID :: string
  fe_ProviderMessageID :: string
  fe_OccurredAt :: instant

record apply_result =
  ar_Status :: delivery_status
  ar_Changed :: bool

definition ResolveTransition :: "delivery_status \<Rightarrow> event_type \<Rightarrow> delivery_error + delivery_status \<times> bool" where
  "ResolveTransition current e =
     (case current of
        Sent \<Rightarrow> (case e of EventTypeDelivery \<Rightarrow> Inr (Delivered, True) | EventTypeBounce \<Rightarrow> Inr (Bounced, True)
                 | EventTypeComplaint \<Rightarrow> Inr (Complained, True))
      | Delivered \<Rightarrow> (case e of EventTypeDelivery \<Rightarrow> Inr (current, False) | EventTypeBounce \<Rightarrow> Inr (Bounced, True)
                 | EventTypeComplaint \<Rightarrow> Inr (Complained, True))
      | Bounced \<Rightarrow> (case e of EventTypeDelivery \<Rightarrow> Inr (current, False) | EventTypeBounce \<Rightarrow> Inr (current, False)
                 | EventTypeComplaint \<Rightarrow> Inr (Complained, True))
      | Complained \<Rightarrow> Inr (current, False)
      | _ \<Rightarrow> Inl ErrInvalidTransition)"

definition earliestTime :: "instant option \<Rightarrow> instant \<Rightarrow> instant" where
  "earliestTime existing candidate = (case existing of Some t \<Rightarrow> if t < candidate then t else candidate | None \<Rightarrow> candidate)"

definition feedback_matches :: "feedback_event \<Rightarrow> email_delivery \<Rightarrow> bool" where
  "feedback_matches e d \<longleftrightarrow>
     ed_ID d = fe_DeliveryID e \<and> ed_BusinessID d = fe_BusinessID e \<and> ed_ProviderMessageID d = fe_ProviderMessageID e \<and> \<not> ed_Deleted d"

definition apply_to :: "feedback_event \<Rightarrow> delivery_status \<Rightarrow> instant \<Rightarrow> instant \<Rightarrow> email_delivery \<Rightarrow> email_delivery" where
  "apply_to e next timestamp now d =
     (if fe_Type e = EventTypeDelivery then d\<lparr>ed_Status := next, ed_DeliveredAt := Some timestamp, ed_UpdatedAt := now\<rparr>
      else d\<lparr>ed_Status := next, ed_FailedAt := Some timestamp, ed_UpdatedAt := now\<rparr>)"

text \<open>The transaction of \<open>ApplyFeedback\<close>, which holds the row locked; \<open>now\<close> is the clock of the database.\<close>

definition feedback_tx :: "feedback_event \<Rightarrow> instant \<Rightarrow> delivery_db \<Rightarrow> (delivery_error + apply_result) \<times> delivery_db" where
  "feedback_tx e now s =
     (case find (feedback_matches e) (dd_deliveries s) of
        None \<Rightarrow> (Inl ErrFeedbackUncorrelated, s)
      | Some d \<Rightarrow>
          (case ResolveTransition (ed_Status d) (fe_Type e) of
             Inl err \<Rightarrow> (Inl err, s)
           | Inr (next, statusChanged) \<Rightarrow>
               (let existing = (if fe_Type e = EventTypeDelivery then ed_DeliveredAt d else ed_FailedAt d);
                    timestampChanged = (case existing of None \<Rightarrow> True | Some t \<Rightarrow> fe_OccurredAt e < t);
                    applied = \<lparr>ar_Status = next, ar_Changed = (statusChanged \<or> timestampChanged)\<rparr>
                in if \<not> ar_Changed applied then (Inr applied, s)
                   else (case update_deliveries (feedback_matches e) (apply_to e next (earliestTime existing (fe_OccurredAt e)) now) s of
                           (n, s1) \<Rightarrow> if n \<noteq> 1 then (Inl ErrFeedbackUncorrelated, s) else (Inr applied, s1)))))"

definition ApplyFeedback :: "(string \<Rightarrow> bool) \<Rightarrow> feedback_event \<Rightarrow> instant \<Rightarrow> delivery_db \<Rightarrow> (delivery_error + apply_result) \<times> delivery_db" where
  "ApplyFeedback uuid_ok e now s =
     (if \<not> uuid_ok (fe_DeliveryID e) \<or> \<not> uuid_ok (fe_BusinessID e) \<or> TrimSpace (fe_ProviderMessageID e) = [] \<or> fe_OccurredAt e = zero_time
      then (Inl ErrInvalidEvent, s)
      else transaction (feedback_tx e now) s)"

end
