(* ===== verification/Email_Mime.thy ===== *)
theory Email_Mime
  imports Go_Json_Values
begin

text \<open>
  The message an invoice is mailed in (\<open>internal/emaildelivery/mime.go\<close>): validation, the name of
  the attachment, and the text of the message with the document in base64. What the packages
  \<open>net/mail\<close>, \<open>mime\<close> and \<open>mime/quotedprintable\<close> compute on addresses, parameters and texts is a
  record of functions, an argument of the definitions; the random boundary is an argument.
\<close>

record mime_lib =
  lib_ParseAddress :: "string \<Rightarrow> string option"
  lib_FormatMediaType :: "string \<Rightarrow> string \<Rightarrow> string \<Rightarrow> string"
  lib_QEncode :: "string \<Rightarrow> string"
  lib_QuotedPrintable :: "string \<Rightarrow> string"

record raw_message =
  rm_Source :: string
  rm_Recipient :: string
  rm_Subject :: string
  rm_TextBody :: string
  rm_Filename :: string
  rm_PDF :: string

definition maxPDFBytes :: nat where "maxPDFBytes = 6 * 1024 * 1024"
definition maxRawEmailBytes :: nat where "maxRawEmailBytes = 10000000"
definition maxMIMELineBytes :: nat where "maxMIMELineBytes = 1000"
definition base64LineBytes :: nat where "base64LineBytes = 76"

definition CRLF :: string where "CRLF = [CHR 0x0D, CHR 0x0A]"

definition has_newline :: "string \<Rightarrow> bool" where
  "has_newline s \<longleftrightarrow> CHR 0x0D \<in> set s \<or> CHR 0x0A \<in> set s"

definition is_pdf :: "string \<Rightarrow> bool" where
  "is_pdf b \<longleftrightarrow> take 5 b = ''%PDF-''"

datatype mime_error =
  BadBoundary | BadSource | BadRecipient | BadSubject | BadFilename | PDFTooLarge | NotAPDF | EmailTooLarge | LineTooLong

definition validateRawMessage :: "mime_lib \<Rightarrow> raw_message \<Rightarrow> string \<Rightarrow> mime_error option" where
  "validateRawMessage lib m boundary =
     (if has_newline boundary \<or> CHR 0x22 \<in> set boundary \<or> TrimSpace boundary = [] then Some BadBoundary
      else if lib_ParseAddress lib (rm_Source m) = None \<or> has_newline (rm_Source m) then Some BadSource
      else if lib_ParseAddress lib (rm_Recipient m) \<noteq> Some (TrimSpace (rm_Recipient m)) \<or> has_newline (rm_Recipient m) then Some BadRecipient
      else if TrimSpace (rm_Subject m) = [] \<or> has_newline (rm_Subject m) then Some BadSubject
      else if has_newline (rm_Filename m) then Some BadFilename
      else if length (rm_PDF m) > maxPDFBytes then Some PDFTooLarge
      else if \<not> is_pdf (rm_PDF m) then Some NotAPDF
      else None)"

section \<open>The name of the attachment\<close>

text \<open>
  Names are byte lists; the letters and digits outside ASCII, which the code keeps, are outside
  the model, as in \<open>Go_Strings\<close>: each of their bytes is treated as a separator.
\<close>

definition name_char :: "char \<Rightarrow> bool" where
  "name_char c \<longleftrightarrow>
     is_digit c \<or> 65 \<le> (of_char c :: nat) \<and> (of_char c :: nat) \<le> 90 \<or> 97 \<le> (of_char c :: nat) \<and> (of_char c :: nat) \<le> 122 \<or>
     c = CHR ''-'' \<or> c = CHR ''.''"

fun normalize_name :: "string \<Rightarrow> string \<Rightarrow> bool \<Rightarrow> string" where
  "normalize_name [] acc separator = acc"
| "normalize_name (c # s) acc separator =
     (if name_char c then normalize_name s (acc @ [c]) False
      else if acc \<noteq> [] \<and> \<not> separator then normalize_name s (acc @ ''_'') True
      else normalize_name s acc separator)"

definition is_trim :: "char \<Rightarrow> bool" where
  "is_trim c \<longleftrightarrow> c = CHR ''.'' \<or> c = CHR ''_'' \<or> c = CHR ''-''"

definition trim_right :: "string \<Rightarrow> string" where
  "trim_right s = rev (dropWhile is_trim (rev s))"

definition safePDFFilename :: "string \<Rightarrow> string" where
  "safePDFFilename value0 =
     (let value1 = TrimSpace value0;
          value = (if 4 \<le> length value1 \<and> ToLower (drop (length value1 - 4) value1) = ''.pdf''
                   then TrimSpace (take (length value1 - 4) value1) else value1);
          base0 = trim_right (dropWhile is_trim (normalize_name value [] False));
          base1 = (if base0 = [] then ''invoice'' else base0);
          base = (if length base1 > 180 then trim_right (take 180 base1) else base1)
      in base @ ''.pdf'')"

section \<open>Base 64\<close>

definition base64_alphabet :: string where
  "base64_alphabet = ''ABCDEFGHIJKLMNOPQRSTUVWXYZabcdefghijklmnopqrstuvwxyz0123456789+/''"

definition b64 :: "nat \<Rightarrow> char" where
  "b64 n = base64_alphabet ! (n mod 64)"

fun base64_encode :: "nat list \<Rightarrow> string" where
  "base64_encode [] = []"
| "base64_encode [a] = [b64 (a div 4), b64 (a * 16), CHR ''='', CHR ''='']"
| "base64_encode [a, b] = [b64 (a div 4), b64 (a * 16 + b div 16), b64 (b * 4), CHR ''='']"
| "base64_encode (a # b # c # r) = b64 (a div 4) # b64 (a * 16 + b div 16) # b64 (b * 4 + c div 64) # b64 c # base64_encode r"

definition bytes_of :: "string \<Rightarrow> nat list" where
  "bytes_of s = map of_char s"

function base64_lines :: "string \<Rightarrow> string" where
  "base64_lines encoded =
     (if encoded = [] then []
      else take base64LineBytes encoded @ CRLF @ base64_lines (drop base64LineBytes encoded))"
  by pat_completeness auto
termination
  by (relation "measure length") (auto simp: base64LineBytes_def)

declare base64_lines.simps [simp del]

section \<open>The message\<close>

definition mime_header :: "string \<Rightarrow> string \<Rightarrow> string" where
  "mime_header name value = name @ '': '' @ value @ CRLF"

definition HasSuffix :: "string \<Rightarrow> string \<Rightarrow> bool" where
  "HasSuffix s t \<longleftrightarrow> suffix t s"

text \<open>\<open>bytes.Split(raw, "\<close>CRLF\<open>")\<close>: the pieces between the line ends.\<close>

fun split_lines :: "string \<Rightarrow> string list" where
  "split_lines [] = [[]]"
| "split_lines [c] = [[c]]"
| "split_lines (c # e # s) =
     (if c = CHR 0x0D \<and> e = CHR 0x0A then [] # split_lines s
      else (case split_lines (e # s) of [] \<Rightarrow> [[c]] | l # ls \<Rightarrow> (c # l) # ls))"

definition raw_text :: "mime_lib \<Rightarrow> raw_message \<Rightarrow> string \<Rightarrow> string" where
  "raw_text lib m boundary =
     (let filename = safePDFFilename (rm_Filename m);
          head = mime_header ''From'' (rm_Source m) @ mime_header ''To'' (rm_Recipient m) @
                 mime_header ''Subject'' (lib_QEncode lib (rm_Subject m)) @ mime_header ''MIME-Version'' ''1.0'' @
                 mime_header ''Content-Type'' (''multipart/mixed; boundary='' @ [CHR 0x22] @ boundary @ [CHR 0x22]) @ CRLF @
                 ''--'' @ boundary @ CRLF @ ''Content-Type: text/plain; charset=UTF-8'' @ CRLF @
                 ''Content-Transfer-Encoding: quoted-printable'' @ CRLF @ CRLF @ lib_QuotedPrintable lib (rm_TextBody m);
          body = (if HasSuffix head CRLF then [] else CRLF);
          attachment = ''--'' @ boundary @ CRLF @
                 mime_header ''Content-Type'' (lib_FormatMediaType lib ''application/pdf'' ''name'' filename) @
                 mime_header ''Content-Disposition'' (lib_FormatMediaType lib ''attachment'' ''filename'' filename) @
                 ''Content-Transfer-Encoding: base64'' @ CRLF @ CRLF @ base64_lines (base64_encode (bytes_of (rm_PDF m)))
      in head @ body @ attachment @ ''--'' @ boundary @ ''--'' @ CRLF)"

definition buildRawMessage :: "mime_lib \<Rightarrow> raw_message \<Rightarrow> string \<Rightarrow> mime_error + string" where
  "buildRawMessage lib m boundary =
     (case validateRawMessage lib m boundary of
        Some e \<Rightarrow> Inl e
      | None \<Rightarrow>
          (let raw = raw_text lib m boundary in
           if length raw > maxRawEmailBytes then Inl EmailTooLarge
           else if list_ex (\<lambda>l. length l + 2 > maxMIMELineBytes) (split_lines raw) then Inl LineTooLong
           else Inr raw))"

text \<open>\<open>random\<close> stands for the 18 random bytes.\<close>

definition BuildRawMessage :: "mime_lib \<Rightarrow> raw_message \<Rightarrow> u8 list \<Rightarrow> mime_error + string" where
  "BuildRawMessage lib m random = buildRawMessage lib m (''billeif-'' @ hex_encode random)"

end
