(* ===== verification/Email_Worker.thy ===== *)
theory Email_Worker
  imports Email_Repository Email_Mime
begin

text \<open>
  The email worker (\<open>internal/emaildelivery/worker.go\<close>) and the Lambda that feeds it from the
  queue (\<open>cmd/lambda/sqs-email-delivery/main.go\<close>). What S3 and SES answer, the locks of the
  database, the clock and the random boundary are arguments.
\<close>

datatype object_reply = ObjectError string | ObjectEmpty | ObjectReadError string | ObjectBody string

record email_env =
  ee_uuid_ok :: "string \<Rightarrow> bool"
  ee_locked :: "string \<Rightarrow> bool"
  ee_objects :: "string \<Rightarrow> string \<Rightarrow> object_reply"
  ee_lib :: mime_lib
  ee_random :: "u8 list"
  ee_ses :: "string option"
  ee_send_error :: string

record email_worker =
  ew_bucket :: string
  ew_senderEmail :: string
  ew_configurationSet :: string

definition deliveryMessageType :: string where "deliveryMessageType = ''send_invoice_pdf''"
definition deliveryLeaseDuration :: int where "deliveryLeaseDuration = 2 * nsPerMinute"

definition NewWorker :: "mime_lib \<Rightarrow> string \<Rightarrow> string \<Rightarrow> string \<Rightarrow> email_worker option" where
  "NewWorker lib bucket sender configurationSet =
     (if TrimSpace bucket = [] \<or> lib_ParseAddress lib (TrimSpace sender) \<noteq> Some (TrimSpace sender) \<or> TrimSpace configurationSet = []
      then None
      else Some \<lparr>ew_bucket = TrimSpace bucket, ew_senderEmail = TrimSpace sender, ew_configurationSet = TrimSpace configurationSet\<rparr>)"

definition validateDeliveryMessage :: "(string \<Rightarrow> bool) \<Rightarrow> delivery_message \<Rightarrow> string \<Rightarrow> bool" where
  "validateDeliveryMessage uuid_ok m owner \<longleftrightarrow>
     dm_SchemaVersion m = 1 \<and> dm_Type m = deliveryMessageType \<and> validUUID uuid_ok (dm_BusinessID m) \<and>
     validUUID uuid_ok (dm_DeliveryID m) \<and> validUUID uuid_ok (dm_InvoiceID m) \<and> validUUID uuid_ok (dm_RenderJobID m) \<and>
     TrimSpace owner \<noteq> []"

definition validateClaim :: "delivery_message \<Rightarrow> claimed_delivery \<Rightarrow> bool" where
  "validateClaim m c \<longleftrightarrow>
     cd_DeliveryID c = dm_DeliveryID m \<and> cd_BusinessID c = dm_BusinessID m \<and> cd_InvoiceID c = dm_InvoiceID m \<and>
     cd_RenderJobID c = dm_RenderJobID m \<and> 1 \<le> cd_InvoiceVersion c \<and> TrimSpace (cd_InvoiceNo c) \<noteq> [] \<and>
     TrimSpace (cd_Recipient c) \<noteq> [] \<and>
     cd_ObjectKey c = final_object_key (dm_BusinessID m) (dm_InvoiceID m) (cd_InvoiceVersion c)"

definition downloadPDF :: "email_env \<Rightarrow> email_worker \<Rightarrow> string \<Rightarrow> delivery_error + string" where
  "downloadPDF env w objectKey =
     (case ee_objects env (ew_bucket w) objectKey of
        ObjectError e \<Rightarrow> Inl (DText (''download final PDF: '' @ e))
      | ObjectEmpty \<Rightarrow> Inl (DText ''download final PDF: empty object response'')
      | ObjectReadError e \<Rightarrow> Inl (DText (''read final PDF: '' @ e))
      | ObjectBody b \<Rightarrow>
          (let data = take (maxPDFBytes + 1) b in
           if length data > maxPDFBytes then Inl (DText ''final PDF exceeds size limit'')
           else if \<not> is_pdf data then Inl (DText ''final object is not a PDF'')
           else Inr data))"

definition mime_error_text :: "mime_error \<Rightarrow> string" where
  "mime_error_text e =
     (case e of
        BadBoundary \<Rightarrow> ''invalid MIME boundary''
      | BadSource \<Rightarrow> ''invalid source address''
      | BadRecipient \<Rightarrow> ''invalid recipient address''
      | BadSubject \<Rightarrow> ''invalid email subject''
      | BadFilename \<Rightarrow> ''invalid PDF filename''
      | PDFTooLarge \<Rightarrow> ''PDF attachment exceeds size limit''
      | NotAPDF \<Rightarrow> ''attachment is not a PDF''
      | EmailTooLarge \<Rightarrow> ''raw email exceeds SES size limit''
      | LineTooLong \<Rightarrow> ''raw email contains an oversized MIME line'')"

text \<open>The text of the failures a claim can end with.\<close>

fun failure_text :: "delivery_error \<Rightarrow> string" where
  "failure_text (DText t) = t"
| "failure_text _ = ''email delivery work is malformed''"

definition failClaim :: "email_env \<Rightarrow> string \<Rightarrow> string \<Rightarrow> delivery_error \<Rightarrow> instant \<Rightarrow> delivery_db \<Rightarrow> delivery_error option \<times> delivery_db" where
  "failClaim env deliveryID owner failure now s =
     (case delivery_MarkFailed (ee_uuid_ok env) deliveryID owner (take 1000 (TrimSpace (failure_text failure))) now s of
        (Some e, t) \<Rightarrow> (Some (DJoined failure (DWrapped e)), t)
      | (None, t) \<Rightarrow> (Some failure, t))"

definition raw_message_of :: "email_worker \<Rightarrow> claimed_delivery \<Rightarrow> string \<Rightarrow> raw_message" where
  "raw_message_of w c pdf =
     \<lparr>rm_Source = ''Billeif <'' @ ew_senderEmail w @ ''>'', rm_Recipient = cd_Recipient c,
      rm_Subject = ''Invoice '' @ TrimSpace (cd_InvoiceNo c), rm_TextBody = ''Your invoice is attached.'',
      rm_Filename = (if TrimSpace (cd_OutputFilename c) = [] then cd_InvoiceNo c else TrimSpace (cd_OutputFilename c)),
      rm_PDF = pdf\<rparr>"

definition SendRawEmail :: "email_env \<Rightarrow> email_worker \<Rightarrow> delivery_message \<Rightarrow> claimed_delivery \<Rightarrow> string \<Rightarrow> delivery_db
    \<Rightarrow> string option option \<times> delivery_db" where
  "SendRawEmail env w m c raw =
     external_call (\<lambda>s. (ee_ses env, s\<lparr>dd_mail := dd_mail s @
       [\<lparr>ml_Source = ew_senderEmail w, ml_Destination = cd_Recipient c, ml_ConfigurationSet = ew_configurationSet w,
         ml_Raw = raw, ml_DeliveryID = dm_DeliveryID m, ml_BusinessID = dm_BusinessID m\<rparr>]\<rparr>))"

text \<open>From the verified lease to the recorded outcome.\<close>

definition send_and_record :: "email_env \<Rightarrow> email_worker \<Rightarrow> delivery_message \<Rightarrow> string \<Rightarrow> claimed_delivery \<Rightarrow> string \<Rightarrow> instant \<Rightarrow> delivery_db
    \<Rightarrow> delivery_error option \<times> delivery_db" where
  "send_and_record env w m owner c raw now s =
     (case SendRawEmail env w m c raw s of
        (None, t) \<Rightarrow> failClaim env (dm_DeliveryID m) owner (DText (''send raw email: '' @ ee_send_error env)) now t
      | (Some None, t) \<Rightarrow> failClaim env (dm_DeliveryID m) owner (DText ''SES returned no response'') now t
      | (Some (Some messageID), t) \<Rightarrow>
          if TrimSpace messageID = [] then failClaim env (dm_DeliveryID m) owner (DText ''SES returned no message ID'') now t
          else (case MarkSent (ee_uuid_ok env) (dm_DeliveryID m) owner (TrimSpace messageID) (ew_senderEmail w)
                       (''Invoice '' @ TrimSpace (cd_InvoiceNo c)) now t of
                  (Some e, u) \<Rightarrow> (Some (DWrapped e), u)
                | (None, u) \<Rightarrow> (None, u)))"

text \<open>\<open>clock\<close> gives the three readings of the clock: at the claim, at the verification, at the end.\<close>

definition email_Process :: "email_env \<Rightarrow> email_worker \<Rightarrow> (nat \<Rightarrow> instant) \<Rightarrow> delivery_message \<Rightarrow> string \<Rightarrow> delivery_db
    \<Rightarrow> delivery_error option \<times> delivery_db" where
  "email_Process env w clock m owner s =
     (if \<not> validateDeliveryMessage (ee_uuid_ok env) m owner then (Some ErrDeliveryMalformed, s)
      else case email_Claim (ee_uuid_ok env) (ee_locked env) m (TrimSpace owner) (clock 0) (clock 0 + deliveryLeaseDuration) s of
        (Inl ErrDeliveryTerminal, t) \<Rightarrow> (None, t)
      | (Inl e, t) \<Rightarrow> (Some e, t)
      | (Inr c, t) \<Rightarrow>
          if \<not> validateClaim m c then failClaim env (dm_DeliveryID m) owner ErrDeliveryMalformed (clock 2) t
          else (case downloadPDF env w (cd_ObjectKey c) of
                  Inl e \<Rightarrow> failClaim env (dm_DeliveryID m) owner e (clock 2) t
                | Inr pdf \<Rightarrow>
                    (case BuildRawMessage (ee_lib env) (raw_message_of w c pdf) (ee_random env) of
                       Inl e \<Rightarrow> failClaim env (dm_DeliveryID m) owner (DText (mime_error_text e)) (clock 2) t
                     | Inr raw \<Rightarrow>
                         (case VerifyLease (ee_uuid_ok env) (dm_DeliveryID m) owner (clock 1) t of
                            (Some e, u) \<Rightarrow> (Some e, u)
                          | (None, u) \<Rightarrow> send_and_record env w m owner c raw (clock 2) u))))"

section \<open>The queue handler\<close>

definition delivery_message_fields :: "(string \<times> field_kind) list" where
  "delivery_message_fields =
     [(''schema_version'', FInt), (''type'', FString), (''business_id'', FString), (''delivery_id'', FString),
      (''invoice_id'', FString), (''render_job_id'', FString)]"

definition decodeDeliveryMessage :: "string \<Rightarrow> delivery_message option" where
  "decodeDeliveryMessage body =
     map_option (\<lambda>v. \<lparr>dm_SchemaVersion = int_field v ''schema_version'', dm_Type = string_field v ''type'',
       dm_BusinessID = string_field v ''business_id'', dm_DeliveryID = string_field v ''delivery_id'',
       dm_InvoiceID = string_field v ''invoice_id'', dm_RenderJobID = string_field v ''render_job_id''\<rparr>)
       (decode_struct delivery_message_fields body)"

record sqs_record =
  sq_MessageId :: string
  sq_Body :: string

text \<open>
  One batch: the identifiers of the records that failed, which the queue delivers again. The
  environment and the clock of a record are those of its position in the batch.
\<close>

fun handle_records :: "(nat \<Rightarrow> email_env) \<Rightarrow> email_worker \<Rightarrow> (nat \<Rightarrow> nat \<Rightarrow> instant) \<Rightarrow> string \<Rightarrow> nat \<Rightarrow> sqs_record list \<Rightarrow> delivery_db
    \<Rightarrow> string list \<times> delivery_db" where
  "handle_records env w clock requestID n [] s = ([], s)"
| "handle_records env w clock requestID n (r # rs) s =
     (case (case decodeDeliveryMessage (sq_Body r) of
              None \<Rightarrow> (True, s)
            | Some m \<Rightarrow> (case email_Process (env n) w (clock n) m (requestID @ '':'' @ sq_MessageId r) s of (e, t) \<Rightarrow> (e \<noteq> None, t))) of
        (failed, t) \<Rightarrow>
          (case handle_records env w clock requestID (Suc n) rs t of
             (ids, u) \<Rightarrow> ((if failed then [sq_MessageId r] else []) @ ids, u)))"

definition email_Handle :: "(nat \<Rightarrow> email_env) \<Rightarrow> email_worker \<Rightarrow> (nat \<Rightarrow> nat \<Rightarrow> instant) \<Rightarrow> string option \<Rightarrow> sqs_record list \<Rightarrow> delivery_db
    \<Rightarrow> string list option \<times> delivery_db" where
  "email_Handle env w clock requestID rs s =
     (case requestID of
        None \<Rightarrow> (None, s)
      | Some q \<Rightarrow>
          if TrimSpace q = [] \<or> list_ex (\<lambda>r. TrimSpace (sq_MessageId r) = []) rs then (None, s)
          else (case handle_records env w clock q 0 rs s of (ids, t) \<Rightarrow> (Some ids, t)))"

end
