(* ===== verification/Delivery_System.thy ===== *)
theory Delivery_System
  imports Email_Worker
begin

text \<open>
  Invoice delivery under concurrency: requests, renders, workers and feedback interleave at
  their transactions. Two invariants of every interleaving are proved here. A delivery is never
  forgotten: it waits for a render that is still unfinished, or an outbox event for it has been
  written. And the lease and the outcome of a delivery are consistent with its status.
\<close>

section \<open>Identifiers\<close>

text \<open>
  The text of a value of a \<open>uuid\<close> column, and of \<open>uuid.NewString\<close>: thirty-six characters, lower
  case hexadecimal digits but for four dashes. (\<open>uuid.Parse\<close>, the argument \<open>uuid_ok\<close>, accepts more.)
\<close>

definition lower_hex :: "char \<Rightarrow> bool" where
  "lower_hex c \<longleftrightarrow> is_digit c \<or> c \<in> set ''abcdef''"

definition canonical_uuid :: "string \<Rightarrow> bool" where
  "canonical_uuid s \<longleftrightarrow>
     length s = 36 \<and> list_all (\<lambda>(i, c). if i \<in> {8, 13, 18, 23} then c = CHR ''-'' else lower_hex c) (enumerate 0 s)"

lemma canonical_uuid_chars:
  assumes "canonical_uuid s" and "c \<in> set s"
  shows "lower_hex c \<or> c = CHR ''-''"
proof -
  obtain i where "i < length s" "s ! i = c" using assms(2) by (auto simp: in_set_conv_nth)
  then have "(i, c) \<in> set (enumerate 0 s)" by (auto simp: in_set_enumerate_eq)
  then show ?thesis using assms(1) unfolding canonical_uuid_def list_all_iff by (auto split: if_splits)
qed

lemma uuid_char: "lower_hex c \<or> c = CHR ''-'' \<Longrightarrow> of_char c < (128 :: nat) \<and> \<not> is_space c"
  by (auto simp: lower_hex_def is_digit_def is_space_def)

lemma ValidString_of_ascii: "(\<And>c. c \<in> set s \<Longrightarrow> of_char c < (128 :: nat)) \<Longrightarrow> ValidString s"
  by (induction s) auto

lemma canonical_uuid_text:
  assumes "canonical_uuid s"
  shows "ValidString s" and "TrimSpace s = s" and "s \<noteq> []"
proof -
  have c: "of_char c < (128 :: nat) \<and> \<not> is_space c" if "c \<in> set s" for c
    using uuid_char canonical_uuid_chars [OF assms that] by blast
  show "ValidString s" using c ValidString_of_ascii by blast
  show ne: "s \<noteq> []" using assms by (auto simp: canonical_uuid_def)
  have "hd s \<in> set s" "hd (rev s) \<in> set s" using ne hd_in_set [of "rev s"] by simp_all
  then have "dropWhile is_space s = s" "dropWhile is_space (rev s) = rev s" using c by (blast intro!: dropWhile_stable)+
  then show "TrimSpace s = s" by (simp add: TrimSpace_def)
qed

section \<open>Steps\<close>

text \<open>
  The issue of invoices, which creates their final render jobs, and later changes of an invoice's
  status are steps of the surroundings.
\<close>

definition set_invoice_status :: "string \<Rightarrow> string \<Rightarrow> delivery_db \<Rightarrow> delivery_db" where
  "set_invoice_status i st s = s\<lparr>dd_invoices := map (\<lambda>x. if iv_ID x = i then x\<lparr>iv_Status := st\<rparr> else x) (dd_invoices s)\<rparr>"

inductive delivery_step :: "(string \<Rightarrow> bool) \<Rightarrow> delivery_db \<Rightarrow> delivery_db \<Rightarrow> bool" for uuid_ok where
  add_invoice: "canonical_uuid (iv_ID i) \<Longrightarrow> canonical_uuid (iv_BusinessID i) \<Longrightarrow> delivery_step uuid_ok s (s\<lparr>dd_invoices := dd_invoices s @ [i]\<rparr>)"
| invoice_status: "delivery_step uuid_ok s (set_invoice_status i st s)"
| add_job:
    "rj_Status j = RJQueued \<Longrightarrow> canonical_uuid (rj_ID j) \<Longrightarrow> rj_ID j \<notin> rj_ID ` set (dd_jobs s) \<Longrightarrow>
     delivery_step uuid_ok s (s\<lparr>dd_jobs := dd_jobs s @ [j]\<rparr>)"
| request:
    "canonical_uuid deliveryID \<Longrightarrow> deliveryID \<notin> ed_ID ` set (dd_deliveries s) \<Longrightarrow> canonical_uuid eventID \<Longrightarrow>
     CreateDeliveryAtomic uuid_ok c deliveryID eventID now s = (r, t) \<Longrightarrow> delivery_step uuid_ok s t"
| claim_render: "ClaimFinalRender businessID jobID v owner now until s = (rc, t) \<Longrightarrow> delivery_step uuid_ok s t"
| fail_render: "FailFinalRender businessID jobID owner msg s = (rf, t) \<Longrightarrow> delivery_step uuid_ok s t"
| complete_render:
    "(\<And>n. canonical_uuid (eventIDs n)) \<Longrightarrow>
     CompleteFinalRender businessID invoiceID jobID v owner objectKey filename eventIDs now s = (rb, t) \<Longrightarrow> delivery_step uuid_ok s t"
| claim: "email_Claim uuid_ok locked m owner now until s = (rcl, t) \<Longrightarrow> delivery_step uuid_ok s t"
| verify: "VerifyLease uuid_ok deliveryID owner now s = (rv, t) \<Longrightarrow> delivery_step uuid_ok s t"
| send: "SendRawEmail env w m c raw s = (rs, t) \<Longrightarrow> delivery_step uuid_ok s t"
| mark_sent: "MarkSent uuid_ok deliveryID owner mid source subject now s = (rm, t) \<Longrightarrow> delivery_step uuid_ok s t"
| mark_failed: "delivery_MarkFailed uuid_ok deliveryID owner failure now s = (rf, t) \<Longrightarrow> delivery_step uuid_ok s t"
| feedback: "ApplyFeedback uuid_ok e now s = (ra, t) \<Longrightarrow> delivery_step uuid_ok s t"

definition empty_db :: "call_fault list \<Rightarrow> delivery_db" where
  "empty_db fs =
     \<lparr>fa_faults = fs, dd_keys = [], dd_invoices = [], dd_jobs = [], dd_deliveries = [], dd_outbox = [], dd_activity = [], dd_mail = []\<rparr>"

inductive delivery_reachable :: "(string \<Rightarrow> bool) \<Rightarrow> delivery_db \<Rightarrow> bool" for uuid_ok where
  init: "delivery_reachable uuid_ok (empty_db fs)"
| step: "delivery_reachable uuid_ok s \<Longrightarrow> delivery_step uuid_ok s t \<Longrightarrow> delivery_reachable uuid_ok t"

section \<open>What the steps do to the tables\<close>

text \<open>The identity of a delivery, which no step changes.\<close>

definition same_delivery :: "email_delivery \<Rightarrow> email_delivery \<Rightarrow> bool" where
  "same_delivery a b \<longleftrightarrow>
     ed_ID a = ed_ID b \<and> ed_BusinessID a = ed_BusinessID b \<and> ed_InvoiceID a = ed_InvoiceID b \<and> ed_RenderJobID a = ed_RenderJobID b \<and>
     ed_Recipient a = ed_Recipient b \<and> ed_Deleted a = ed_Deleted b"

definition finished :: "email_delivery \<Rightarrow> bool" where
  "finished d \<longleftrightarrow> ed_Status d \<in> {Sent, Delivered, Bounced, Complained}"

text \<open>The order in which a finished delivery progresses.\<close>

definition progress :: "delivery_status \<Rightarrow> nat" where
  "progress st = (case st of Sent \<Rightarrow> 1 | Delivered \<Rightarrow> 2 | Bounced \<Rightarrow> 3 | Complained \<Rightarrow> 4 | _ \<Rightarrow> 0)"

text \<open>A row whose lease and outcome agree with its status.\<close>

definition row_ok :: "email_delivery \<Rightarrow> bool" where
  "row_ok d \<longleftrightarrow>
     (ed_Status d = Processing \<longrightarrow> ed_LeaseOwner d \<noteq> None \<and> ed_LeaseExpiresAt d \<noteq> None) \<and>
     (ed_Status d \<noteq> Processing \<longrightarrow> ed_LeaseOwner d = None \<and> ed_LeaseExpiresAt d = None) \<and>
     (finished d \<longrightarrow> ed_SentAt d \<noteq> None \<and> ed_ProviderMessageID d \<noteq> [])"

text \<open>
  A change of one delivery row that the steps of workers and of feedback make: its identity and its
  waiting stay, a finished row stays finished and does not fall back.
\<close>

definition row_change :: "email_delivery \<Rightarrow> email_delivery \<Rightarrow> bool" where
  "row_change d d' \<longleftrightarrow>
     same_delivery d' d \<and> (ed_Status d' = WaitingForRender \<longleftrightarrow> ed_Status d = WaitingForRender) \<and>
     progress (ed_Status d) \<le> progress (ed_Status d') \<and> (row_ok d \<longrightarrow> row_ok d')"

definition same_but_deliveries :: "delivery_db \<Rightarrow> delivery_db \<Rightarrow> bool" where
  "same_but_deliveries s t \<longleftrightarrow> dd_keys t = dd_keys s \<and> dd_invoices t = dd_invoices s \<and> dd_jobs t = dd_jobs s \<and> dd_outbox t = dd_outbox s"

definition rows_changed :: "delivery_db \<Rightarrow> delivery_db \<Rightarrow> bool" where
  "rows_changed s t \<longleftrightarrow>
     same_but_deliveries s t \<and> list_all2 row_change (dd_deliveries s) (dd_deliveries t)"

lemma row_change_refl [simp]: "row_change d d"
  by (simp add: row_change_def same_delivery_def)

lemma rows_changed_refl: "dd_keys t = dd_keys s \<Longrightarrow> dd_invoices t = dd_invoices s \<Longrightarrow> dd_jobs t = dd_jobs s \<Longrightarrow> dd_outbox t = dd_outbox s \<Longrightarrow> dd_deliveries t = dd_deliveries s \<Longrightarrow> rows_changed s t"
  by (simp add: rows_changed_def same_but_deliveries_def list_all2_same)

lemma rows_changed_update:
  assumes "\<And>d. d \<in> set (dd_deliveries s) \<Longrightarrow> p d \<Longrightarrow> row_change d (f d)" and "(n, t) = update_deliveries p f s"
  shows "rows_changed s t"
  using assms by (auto simp: update_deliveries_def rows_changed_def same_but_deliveries_def list_all2_map2 list_all2_same)

lemma rows_changed_faults: "rows_changed (s\<lparr>fa_faults := fs\<rparr>) t \<longleftrightarrow> rows_changed s t"
  by (simp add: rows_changed_def same_but_deliveries_def)

lemma transaction_effect:
  assumes "transaction f s = (r, t)"
  obtains fs e where "t = s\<lparr>fa_faults := fs\<rparr>" "r = Inl e" | fs a where "f (s\<lparr>fa_faults := fs\<rparr>) = (Inr a, t)" "r = Inl DDatabase \<or> r = Inr a"
proof -
  obtain q where q: "external_call (\<lambda>s. case f s of (Inl e, _) \<Rightarrow> (Inl e, s) | (Inr a, t) \<Rightarrow> (Inr a, t)) s = (q, t)"
    and r: "r = (case q of None \<Rightarrow> Inl DDatabase | Some x \<Rightarrow> x)"
    using assms by (auto simp: transaction_def split: prod.splits option.splits)
  from q show ?thesis using that r by (cases rule: rollback_effect) auto
qed

lemma same_delivery_updates [simp]:
  "same_delivery (lease_delivery owner until now d) d" "same_delivery (sent_delivery mid source subject now d) d"
  "same_delivery (failed_delivery failure now d) d" "same_delivery (apply_to e next ts now d) d" "same_delivery (queue_delivery now d) d"
  by (simp_all add: same_delivery_def lease_delivery_def sent_delivery_def failed_delivery_def apply_to_def queue_delivery_def)

lemma lease_change: "ed_Status d \<in> {Queued, Failed, Processing} \<Longrightarrow> row_change d (lease_delivery owner until now d)"
  by (auto simp: row_change_def progress_def row_ok_def finished_def lease_delivery_def same_delivery_def)

lemma sent_change: "leased_to i owner now d \<Longrightarrow> mid \<noteq> [] \<Longrightarrow> row_change d (sent_delivery mid source subject now d)"
  by (auto simp: row_change_def progress_def row_ok_def finished_def leased_to_def sent_delivery_def same_delivery_def)

lemma failed_change: "leased_to i owner now d \<Longrightarrow> row_change d (failed_delivery failure now d)"
  by (auto simp: row_change_def progress_def row_ok_def finished_def leased_to_def failed_delivery_def same_delivery_def)

lemma feedback_change:
  assumes "ResolveTransition (ed_Status d) (fe_Type e) = Inr (next, changed)"
  shows "row_change d (apply_to e next ts now d)"
  using assms by (cases "ed_Status d"; cases "fe_Type e")
    (auto simp: row_change_def progress_def row_ok_def finished_def apply_to_def same_delivery_def ResolveTransition_def)

lemma find_some: "find p xs = Some x \<Longrightarrow> x \<in> set xs \<and> p x"
  by (induction xs) (auto split: if_splits)

lemma claim_rows_changed:
  assumes "email_Claim uuid_ok locked m owner now until s = (r, t)" and "distinct (map ed_ID (dd_deliveries s))"
  shows "rows_changed s t"
proof (cases "validateEmailDeliveryLeaseInput uuid_ok (dm_DeliveryID m) owner now \<and> until > now")
  case False
  with assms(1) have "t = s" by (auto simp: email_Claim_def split: if_splits)
  then show ?thesis by (simp add: rows_changed_refl)
next
  case True
  let ?c = "claim_delivery locked m owner now until"
  obtain q u where q: "external_call ?c s = (q, u)" by fastforce
  have su: "rows_changed s u"
    using q
  proof (cases rule: external_call_effect)
    case (1 fs)
    then show ?thesis by (simp add: rows_changed_refl)
  next
    case (2 fs)
    let ?s = "s\<lparr>fa_faults := fs\<rparr>"
    have "rows_changed ?s (snd (?c ?s))"
    proof (cases "claim_candidate locked m now ?s")
      case None
      then show ?thesis by (simp add: claim_delivery_def rows_changed_refl)
    next
      case (Some dij)
      obtain d i j where dij: "dij = (d, i, j)" by (cases dij) auto
      have d: "d \<in> set (dd_deliveries s)" "claimable_delivery m now d"
        using Some dij by (auto simp: claim_candidate_def split: option.splits if_splits dest!: find_some)
      have st: "ed_Status d \<in> {Queued, Failed, Processing}" using d(2) by (simp add: claimable_delivery_def)
      have eq: "x = d" if "x \<in> set (dd_deliveries s)" "ed_ID x = ed_ID d" for x
        using that d(1) assms(2) by (meson distinct_map inj_onD)
      let ?p = "\<lambda>x. ed_ID x = ed_ID d" and ?f = "lease_delivery owner until now"
      obtain n v where nv: "(n, v) = update_deliveries ?p ?f ?s" by (metis surj_pair)
      have "row_change x (?f x)" if "x \<in> set (dd_deliveries ?s)" "ed_ID x = ed_ID d" for x
      proof -
        have "x = d" using eq that by simp
        then show ?thesis using lease_change [OF st] by simp
      qed
      then have "rows_changed ?s v" by (rule rows_changed_update [OF _ nv])
      then show ?thesis using Some dij nv [symmetric] by (simp add: claim_delivery_def)
    qed
    then show ?thesis using 2(1) by (simp add: rows_changed_faults)
  qed
  show ?thesis
  proof (cases "q = Some None")
    case False
    then have "t = u" using assms(1) True q by (auto simp: email_Claim_def split: option.splits)
    then show ?thesis using su by simp
  next
    case none: True
    obtain e v where v: "classifyUnclaimed m now u = (e, v)" by fastforce
    then have t: "t = v" using assms(1) True q none by (simp add: email_Claim_def)
    obtain z where "external_call (\<lambda>s. (find (message_matches m) (dd_deliveries s), s)) u = (z, v)"
      using v by (auto simp: classifyUnclaimed_def split: prod.splits option.splits)
    then have "dd_deliveries v = dd_deliveries u \<and> dd_keys v = dd_keys u \<and> dd_invoices v = dd_invoices u \<and> dd_jobs v = dd_jobs u \<and> dd_outbox v = dd_outbox u"
      by (auto elim!: external_call_effect)
    then show ?thesis using su t by (simp add: rows_changed_def same_but_deliveries_def)
  qed
qed

lemma verify_rows_changed: "VerifyLease uuid_ok i owner now s = (r, t) \<Longrightarrow> rows_changed s t"
  by (auto simp: VerifyLease_def split: if_splits prod.splits option.splits elim!: external_call_effect intro!: rows_changed_refl)

lemma send_rows_changed: "SendRawEmail env w m c raw s = (r, t) \<Longrightarrow> rows_changed s t"
  by (auto simp: SendRawEmail_def elim!: external_call_effect intro!: rows_changed_refl)

lemma settle_rows_changed:
  assumes "settle_delivery i owner now f s = (r, t)" and "\<And>d. leased_to i owner now d \<Longrightarrow> row_change d (f d)"
  shows "rows_changed s t"
proof -
  obtain q where q: "external_call (update_deliveries (leased_to i owner now) f) s = (q, t)"
    using assms(1) by (auto simp: settle_delivery_def split: prod.splits option.splits)
  from q show ?thesis
  proof (cases rule: external_call_effect)
    case (1 fs)
    then show ?thesis by (simp add: rows_changed_refl)
  next
    case (2 fs)
    let ?s = "s\<lparr>fa_faults := fs\<rparr>"
    have "rows_changed ?s t"
      by (rule rows_changed_update [where n = "fst (update_deliveries (leased_to i owner now) f ?s)" and f = f])
        (use assms(2) 2(1) in auto)
    then show ?thesis by (simp add: rows_changed_faults)
  qed
qed

lemma mark_sent_rows_changed: "MarkSent uuid_ok i owner mid source subject now s = (r, t) \<Longrightarrow> rows_changed s t"
  by (auto simp: MarkSent_def rows_changed_refl split: if_splits intro: settle_rows_changed sent_change)

lemma mark_failed_rows_changed: "delivery_MarkFailed uuid_ok i owner failure now s = (r, t) \<Longrightarrow> rows_changed s t"
  by (auto simp: delivery_MarkFailed_def rows_changed_refl split: if_splits intro: settle_rows_changed failed_change)

lemma filter_one:
  assumes "length (filter p xs) = 1" and "x \<in> set xs" and "p x" and "y \<in> set xs" and "p y"
  shows "y = x"
proof -
  obtain z where "filter p xs = [z]" using assms(1) by (auto simp: length_Suc_conv)
  moreover have "x \<in> set (filter p xs)" "y \<in> set (filter p xs)" using assms by simp_all
  ultimately show ?thesis by simp
qed

lemma feedback_rows_changed:
  assumes "ApplyFeedback uuid_ok e now s = (r, t)"
  shows "rows_changed s t"
proof (cases "\<not> uuid_ok (fe_DeliveryID e) \<or> \<not> uuid_ok (fe_BusinessID e) \<or> TrimSpace (fe_ProviderMessageID e) = [] \<or> fe_OccurredAt e = zero_time")
  case True
  with assms have "t = s" by (simp add: ApplyFeedback_def)
  then show ?thesis by (simp add: rows_changed_refl)
next
  case False
  with assms have "transaction (feedback_tx e now) s = (r, t)" by (simp add: ApplyFeedback_def)
  then show ?thesis
  proof (cases rule: transaction_effect)
    case (1 fs)
    then show ?thesis by (simp add: rows_changed_refl)
  next
    case (2 fs a)
    let ?s = "s\<lparr>fa_faults := fs\<rparr>"
    obtain d where d: "find (feedback_matches e) (dd_deliveries ?s) = Some d" using 2 by (auto simp: feedback_tx_def split: option.splits)
    obtain nx ch where nx: "ResolveTransition (ed_Status d) (fe_Type e) = Inr (nx, ch)" using 2 d by (auto simp: feedback_tx_def split: sum.splits)
    define ts where "ts = earliestTime (if fe_Type e = EventTypeDelivery then ed_DeliveredAt d else ed_FailedAt d) (fe_OccurredAt e)"
    obtain n u where nu: "(n, u) = update_deliveries (feedback_matches e) (apply_to e nx ts now) ?s" by (metis surj_pair)
    have alt: "t = ?s \<or> t = u \<and> n = 1"
      using 2(1) d nx nu [symmetric] by (auto simp: feedback_tx_def Let_def ts_def split: if_splits)
    show ?thesis
    proof (cases "t = ?s")
      case True
      then show ?thesis by (simp add: rows_changed_refl)
    next
      case False
      with alt have t: "t = u" and n: "n = 1" by auto
      then have one: "length (filter (feedback_matches e) (dd_deliveries s)) = 1" using nu by (simp add: update_deliveries_def)
      have ds: "d \<in> set (dd_deliveries s)" "feedback_matches e d" using find_some [OF d] by simp_all
      have "row_change x (apply_to e nx ts now x)" if "x \<in> set (dd_deliveries ?s)" "feedback_matches e x" for x
      proof -
        have "x = d" using filter_one [OF one ds] that by simp
        then show ?thesis using feedback_change [OF nx] by simp
      qed
      from rows_changed_update [OF this nu] show ?thesis using t by (simp add: rows_changed_faults)
    qed
  qed
qed

section \<open>No delivery is forgotten\<close>

text \<open>
  A waiting delivery has its final render, and that render can still be completed. Any other
  delivery has its event in the outbox.
\<close>

definition unfinished :: "render_job \<Rightarrow> bool" where
  "unfinished j \<longleftrightarrow> rj_Status j \<in> {RJQueued, RJProcessing, RJFailed}"

definition awaits :: "email_delivery \<Rightarrow> render_job \<Rightarrow> bool" where
  "awaits d j \<longleftrightarrow>
     ed_RenderJobID d = Some (rj_ID j) \<and> rj_BusinessID j = ed_BusinessID d \<and> rj_InvoiceID j = ed_InvoiceID d \<and>
     rj_Kind j = RenderKindFinal \<and> \<not> rj_Deleted j \<and> unfinished j"

definition announces :: "email_delivery \<Rightarrow> outbox_event \<Rightarrow> bool" where
  "announces d e \<longleftrightarrow>
     canonical_uuid (oe_ID e) \<and> oe_BusinessID e = ed_BusinessID d \<and> oe_AggregateType e = ''email_delivery'' \<and> oe_AggregateID e = ed_ID d \<and>
     oe_EventType e = invoiceDeliveryRequestedEvent \<and>
     oe_Payload e = delivery_payload (ed_ID d) (the (ed_InvoiceID d)) (the (ed_RenderJobID d))"

definition identified :: "email_delivery \<Rightarrow> bool" where
  "identified d \<longleftrightarrow>
     \<not> ed_Deleted d \<and> canonical_uuid (ed_ID d) \<and> canonical_uuid (ed_BusinessID d) \<and>
     ed_InvoiceID d \<noteq> None \<and> canonical_uuid (the (ed_InvoiceID d)) \<and> ed_RenderJobID d \<noteq> None \<and> canonical_uuid (the (ed_RenderJobID d))"

definition cared_for :: "delivery_db \<Rightarrow> email_delivery \<Rightarrow> bool" where
  "cared_for s d \<longleftrightarrow>
     identified d \<and> row_ok d \<and>
     (if ed_Status d = WaitingForRender then \<exists>j \<in> set (dd_jobs s). awaits d j else \<exists>e \<in> set (dd_outbox s). announces d e)"

definition delivery_inv :: "delivery_db \<Rightarrow> bool" where
  "delivery_inv s \<longleftrightarrow>
     distinct (map ed_ID (dd_deliveries s)) \<and> distinct (map rj_ID (dd_jobs s)) \<and>
     (\<forall>i \<in> set (dd_invoices s). canonical_uuid (iv_ID i) \<and> canonical_uuid (iv_BusinessID i)) \<and>
     (\<forall>j \<in> set (dd_jobs s). canonical_uuid (rj_ID j)) \<and> (\<forall>d \<in> set (dd_deliveries s). cared_for s d)"

lemma same_announces: "same_delivery a b \<Longrightarrow> announces a e \<longleftrightarrow> announces b e"
  by (simp add: announces_def same_delivery_def)

lemma same_awaits: "same_delivery a b \<Longrightarrow> awaits a j \<longleftrightarrow> awaits b j"
  by (simp add: awaits_def same_delivery_def)

lemma same_identified: "same_delivery a b \<Longrightarrow> identified a \<longleftrightarrow> identified b"
  by (simp add: identified_def same_delivery_def)

lemma row_change_cared:
  assumes "row_change d d'" and "cared_for s d" and "dd_jobs t = dd_jobs s" and "dd_outbox t = dd_outbox s"
  shows "cared_for t d'"
proof -
  have same: "same_delivery d' d" using assms(1) by (simp add: row_change_def)
  show ?thesis
    using assms same_announces [OF same] same_awaits [OF same] same_identified [OF same] by (auto simp: row_change_def cared_for_def)
qed

lemma list_all2_right: "list_all2 P xs ys \<Longrightarrow> y \<in> set ys \<Longrightarrow> \<exists>x \<in> set xs. P x y"
  by (induction rule: list_all2_induct) auto

lemma list_all2_left: "list_all2 P xs ys \<Longrightarrow> x \<in> set xs \<Longrightarrow> \<exists>y \<in> set ys. P x y"
  by (induction rule: list_all2_induct) auto

lemma list_all2_keeps_ids: "list_all2 row_change xs ys \<Longrightarrow> map ed_ID ys = map ed_ID xs"
  by (induction rule: list_all2_induct) (simp_all add: row_change_def same_delivery_def)

lemma rows_changed_inv:
  assumes "rows_changed s t" and "delivery_inv s"
  shows "delivery_inv t"
proof -
  have l: "list_all2 row_change (dd_deliveries s) (dd_deliveries t)" and j: "dd_jobs t = dd_jobs s" and o: "dd_outbox t = dd_outbox s"
    and i: "dd_invoices t = dd_invoices s"
    using assms(1) by (simp_all add: rows_changed_def same_but_deliveries_def)
  have "cared_for t d'" if d': "d' \<in> set (dd_deliveries t)" for d'
  proof -
    obtain d where "d \<in> set (dd_deliveries s)" "row_change d d'" using list_all2_right [OF l d'] by blast
    then show ?thesis using row_change_cared [OF _ _ j o] assms(2) by (auto simp: delivery_inv_def)
  qed
  then show ?thesis using assms(2) list_all2_keeps_ids [OF l] j i by (simp add: delivery_inv_def)
qed

text \<open>Steps that only change render jobs, and leave the unfinished ones unfinished.\<close>

definition job_change :: "render_job \<Rightarrow> render_job \<Rightarrow> bool" where
  "job_change j j' \<longleftrightarrow>
     rj_ID j' = rj_ID j \<and> rj_BusinessID j' = rj_BusinessID j \<and> rj_InvoiceID j' = rj_InvoiceID j \<and> rj_Kind j' = rj_Kind j \<and>
     rj_Deleted j' = rj_Deleted j \<and> (unfinished j \<longrightarrow> unfinished j')"

definition jobs_changed :: "delivery_db \<Rightarrow> delivery_db \<Rightarrow> bool" where
  "jobs_changed s t \<longleftrightarrow>
     dd_keys t = dd_keys s \<and> dd_invoices t = dd_invoices s \<and> dd_deliveries t = dd_deliveries s \<and> dd_outbox t = dd_outbox s \<and> list_all2 job_change (dd_jobs s) (dd_jobs t)"

lemma job_change_refl [simp]: "job_change j j"
  by (simp add: job_change_def)

lemma jobs_changed_refl: "dd_keys t = dd_keys s \<Longrightarrow> dd_invoices t = dd_invoices s \<Longrightarrow> dd_deliveries t = dd_deliveries s \<Longrightarrow> dd_outbox t = dd_outbox s \<Longrightarrow> dd_jobs t = dd_jobs s \<Longrightarrow> jobs_changed s t"
  by (simp add: jobs_changed_def list_all2_same)

lemma jobs_changed_update:
  assumes "\<And>j. p j \<Longrightarrow> job_change j (f j)"
  shows "jobs_changed s (snd (update_jobs p f (s\<lparr>fa_faults := fs\<rparr>)))"
  using assms by (auto simp: jobs_changed_def update_jobs_def list_all2_map2 list_all2_same)

lemma list_all2_keeps_job_ids: "list_all2 job_change xs ys \<Longrightarrow> map rj_ID ys = map rj_ID xs"
  by (induction rule: list_all2_induct) (simp_all add: job_change_def)

lemma job_change_awaits: "job_change j j' \<Longrightarrow> awaits d j \<Longrightarrow> awaits d j'"
  by (simp add: job_change_def awaits_def)

lemma jobs_changed_inv:
  assumes "jobs_changed s t" and "delivery_inv s"
  shows "delivery_inv t"
proof -
  have l: "list_all2 job_change (dd_jobs s) (dd_jobs t)" and eq: "dd_deliveries t = dd_deliveries s" "dd_outbox t = dd_outbox s" "dd_invoices t = dd_invoices s"
    using assms(1) by (simp_all add: jobs_changed_def)
  have ids: "map rj_ID (dd_jobs t) = map rj_ID (dd_jobs s)" by (rule list_all2_keeps_job_ids [OF l])
  have "cared_for t d" if d: "cared_for s d" for d
  proof -
    have "\<exists>j' \<in> set (dd_jobs t). awaits d j'" if j: "j \<in> set (dd_jobs s)" "awaits d j" for j
    proof -
      obtain j' where "j' \<in> set (dd_jobs t)" "job_change j j'" using list_all2_left [OF l j(1)] by blast
      then show ?thesis using job_change_awaits j(2) by blast
    qed
    then show ?thesis using d eq by (auto simp: cared_for_def)
  qed
  moreover have "\<forall>j \<in> set (dd_jobs t). canonical_uuid (rj_ID j)"
  proof
    fix j
    assume "j \<in> set (dd_jobs t)"
    then have "rj_ID j \<in> set (map rj_ID (dd_jobs s))" using ids by (metis image_eqI list.set_map)
    then show "canonical_uuid (rj_ID j)" using assms(2) by (auto simp: delivery_inv_def)
  qed
  ultimately show ?thesis using assms(2) ids eq by (auto simp: delivery_inv_def)
qed

lemma update_jobs_call_changed:
  assumes "external_call (update_jobs p f) s = (q, t)" and "\<And>j. p j \<Longrightarrow> job_change j (f j)"
  shows "jobs_changed s t"
  using assms(1)
proof (cases rule: external_call_effect)
  case (1 fs)
  then show ?thesis by (simp add: jobs_changed_refl)
next
  case (2 fs)
  then show ?thesis using jobs_changed_update [OF assms(2)] by simp
qed

lemma read_call: "external_call (\<lambda>s. (g s, s)) s = (q, t) \<Longrightarrow> \<exists>fs. t = s\<lparr>fa_faults := fs\<rparr>"
  by (auto elim!: external_call_effect)

lemma jobs_changed_faults: "jobs_changed s t \<Longrightarrow> jobs_changed s (t\<lparr>fa_faults := fs\<rparr>)"
  by (simp add: jobs_changed_def)

lemma claim_render_changed:
  assumes "ClaimFinalRender businessID jobID v owner now until s = (r, t)"
  shows "jobs_changed s t"
proof (cases "businessID = [] \<or> jobID = [] \<or> v < 1 \<or> \<not> validRenderLeaseOwner owner \<or> \<not> until > now")
  case True
  with assms have "t = s" by (auto simp: ClaimFinalRender_def)
  then show ?thesis by (simp add: jobs_changed_refl)
next
  case False
  define p where "p j \<longleftrightarrow> final_job jobID businessID j \<and> rj_SourceInvoiceVersion j = Some v \<and>
      (rj_Status j \<in> {RJQueued, RJFailed} \<or> rj_Status j = RJProcessing \<and> (case rj_LeaseExpiresAt j of None \<Rightarrow> True | Some t \<Rightarrow> t \<le> now))" for j
  define f where "f (j :: render_job) = j\<lparr>rj_Status := RJProcessing, rj_Attempts := rj_Attempts j + 1, rj_ErrorMessage := [],
      rj_CompletedAt := None, rj_LeaseOwner := Some owner, rj_LeaseExpiresAt := Some until\<rparr>" for j
  obtain q u where q: "external_call (update_jobs p f) s = (q, u)" by fastforce
  have u: "jobs_changed s u" by (rule update_jobs_call_changed [OF q]) (simp add: job_change_def f_def unfinished_def)
  have "\<exists>fs. t = u\<lparr>fa_faults := fs\<rparr> \<or> t = u"
    using assms False q unfolding ClaimFinalRender_def Let_def p_def [symmetric] f_def [symmetric]
    by (auto split: option.splits if_splits prod.splits dest!: read_call)
  then show ?thesis using u jobs_changed_faults by auto
qed

lemma fail_render_changed:
  assumes "FailFinalRender businessID jobID owner msg s = (r, t)"
  shows "jobs_changed s t"
proof (cases "businessID = [] \<or> jobID = [] \<or> \<not> validRenderLeaseOwner owner")
  case True
  with assms have "t = s" by (auto simp: FailFinalRender_def)
  then show ?thesis by (simp add: jobs_changed_refl)
next
  case False
  define f where "f (j :: render_job) = j\<lparr>rj_Status := RJFailed, rj_ErrorMessage := msg, rj_CompletedAt := None, rj_LeaseOwner := None,
      rj_LeaseExpiresAt := None\<rparr>" for j
  obtain q u where q: "external_call (update_jobs (owned_final_job jobID businessID owner) f) s = (q, u)" by fastforce
  have u: "jobs_changed s u" by (rule update_jobs_call_changed [OF q]) (simp add: job_change_def f_def unfinished_def)
  have "\<exists>fs. t = u\<lparr>fa_faults := fs\<rparr> \<or> t = u"
    using assms False q unfolding FailFinalRender_def f_def [symmetric]
    by (auto split: option.splits if_splits prod.splits dest!: read_call)
  then show ?thesis using u jobs_changed_faults by auto
qed

section \<open>Requests and finished renders\<close>

lemma latest_final_job_in:
  assumes "latest_final_job businessID invoiceID jobs = Some j"
  shows "j \<in> set jobs" and "rj_BusinessID j = businessID" and "rj_InvoiceID j = Some invoiceID" and "rj_Kind j = RenderKindFinal" and "\<not> rj_Deleted j"
proof -
  let ?p = "\<lambda>j. rj_BusinessID j = businessID \<and> rj_InvoiceID j = Some invoiceID \<and> rj_Kind j = RenderKindFinal \<and> \<not> rj_Deleted j"
  obtain js where "sort_key final_job_order (filter ?p jobs) = j # js"
    using assms by (auto simp: latest_final_job_def split: list.splits)
  then have "j \<in> set (sort_key final_job_order (filter ?p jobs))" by simp
  then have "j \<in> set (filter ?p jobs)" by (simp only: set_sort)
  then show "j \<in> set jobs" and "rj_BusinessID j = businessID" and "rj_InvoiceID j = Some invoiceID" and "rj_Kind j = RenderKindFinal" and "\<not> rj_Deleted j"
    by simp_all
qed

lemma event_announces:
  assumes "newInvoiceDeliveryOutboxEvent d eventID now = Some e" and "canonical_uuid eventID"
  shows "announces d e"
  using assms by (auto simp: newInvoiceDeliveryOutboxEvent_def announces_def split: option.splits)

text \<open>What a request that is not a replay writes.\<close>

lemma create_delivery_effect:
  assumes "create_delivery_tx c deliveryID eventID now s = (Inr r, t)"
  obtains "t = s" | i j status where "latest_final_job (dc_BusinessID c) (dc_InvoiceID c) (dd_jobs s) = Some j" "start_status j = Inr status"
    "find_invoice (dc_InvoiceID c) (dc_BusinessID c) s = Some i" "dd_invoices t = dd_invoices s" "dd_jobs t = dd_jobs s" "dd_deliveries t = dd_deliveries s @ [new_delivery c deliveryID (rj_ID j) status now]"
    "dd_outbox t = dd_outbox s @ (case if status = Queued then newInvoiceDeliveryOutboxEvent (new_delivery c deliveryID (rj_ID j) status now) eventID now else None
       of None \<Rightarrow> [] | Some e \<Rightarrow> [e])"
proof (cases "\<exists>k \<in> set (dd_keys s). key_matches c k")
  case True
  then show ?thesis using assms that(1) by (simp add: create_delivery_tx_def)
next
  case False
  obtain j where j: "latest_final_job (dc_BusinessID c) (dc_InvoiceID c) (dd_jobs s) = Some j"
    using assms False by (auto simp: create_delivery_tx_def Let_def split: option.splits)
  obtain i where i: "find_invoice (dc_InvoiceID c) (dc_BusinessID c) s = Some i"
    using assms False j by (auto simp: create_delivery_tx_def Let_def split: option.splits)
  obtain st where st: "start_status j = Inr st"
    using assms False j by (auto simp: create_delivery_tx_def Let_def split: option.splits if_splits sum.splits)
  let ?d = "new_delivery c deliveryID (rj_ID j) st now"
  have ins: "insert_delivery c ?d eventID now (s\<lparr>dd_keys := dd_keys s @ [claim_key c]\<rparr>) = (Inr r, t)"
    using assms False j st by (auto simp: create_delivery_tx_def Let_def split: option.splits if_splits)
  have "ed_Status ?d = st" by (simp add: new_delivery_def)
  then show ?thesis using ins that(2) [OF j st i] by (auto simp: insert_delivery_def Let_def split: if_splits)
qed

lemma new_delivery_cared:
  assumes "latest_final_job (dc_BusinessID c) (dc_InvoiceID c) (dd_jobs s) = Some j" and "start_status j = Inr status"
    and "canonical_uuid (dc_BusinessID c)" "canonical_uuid (dc_InvoiceID c)" and "canonical_uuid deliveryID" and "canonical_uuid eventID" and "canonical_uuid (rj_ID j)"
    and "dd_jobs t = dd_jobs s"
    and "dd_outbox t = dd_outbox s @ (case if status = Queued then newInvoiceDeliveryOutboxEvent (new_delivery c deliveryID (rj_ID j) status now) eventID now else None
       of None \<Rightarrow> [] | Some e \<Rightarrow> [e])"
  shows "cared_for t (new_delivery c deliveryID (rj_ID j) status now)" (is "cared_for t ?d")
proof -
  note in_jobs = latest_final_job_in [OF assms(1)]
  have st: "status = WaitingForRender \<and> unfinished j \<or> status = Queued"
    using assms(2) by (auto simp: start_status_def unfinished_def split: render_status.splits if_splits)
  have "identified ?d" using assms by (simp add: identified_def new_delivery_def)
  moreover have "row_ok ?d" using st by (auto simp: row_ok_def finished_def new_delivery_def)
  moreover have "awaits ?d j" if "status = WaitingForRender" using st in_jobs that by (simp add: awaits_def new_delivery_def)
  moreover have "\<exists>e \<in> set (dd_outbox t). announces ?d e" if q: "status = Queued"
  proof -
    obtain e where e: "newInvoiceDeliveryOutboxEvent ?d eventID now = Some e"
      by (simp add: newInvoiceDeliveryOutboxEvent_def new_delivery_def)
    then show ?thesis using assms(9) q event_announces [where d = ?d, OF e assms(6)] by auto
  qed
  ultimately show ?thesis using st in_jobs(1) assms(8) by (auto simp: cared_for_def new_delivery_def)
qed

lemma cared_for_mono:
  "cared_for s d \<Longrightarrow> set (dd_jobs s) \<subseteq> set (dd_jobs t) \<Longrightarrow> set (dd_outbox s) \<subseteq> set (dd_outbox t) \<Longrightarrow> cared_for t d"
  unfolding cared_for_def by (cases "ed_Status d = WaitingForRender") (auto dest: subsetD)

lemma delivery_inv_faults [simp]: "delivery_inv (s\<lparr>fa_faults := fs\<rparr>) \<longleftrightarrow> delivery_inv s"
  by (simp add: delivery_inv_def cared_for_def)

lemma request_inv:
  assumes "CreateDeliveryAtomic uuid_ok c deliveryID eventID now s = (r, t)" and "canonical_uuid deliveryID" and "canonical_uuid eventID"
    and "deliveryID \<notin> ed_ID ` set (dd_deliveries s)" and "delivery_inv s"
  shows "delivery_inv t"
proof (cases "validateAtomicInvoiceDelivery uuid_ok c")
  case False
  then show ?thesis using assms by (simp add: CreateDeliveryAtomic_def)
next
  case valid: True
  then have "transaction (create_delivery_tx c deliveryID eventID now) s = (r, t)" using assms(1) by (simp add: CreateDeliveryAtomic_def)
  then show ?thesis
  proof (cases rule: transaction_effect)
    case (1 fs)
    then show ?thesis using assms(5) by simp
  next
    case (2 fs a)
    let ?s = "s\<lparr>fa_faults := fs\<rparr>"
    show ?thesis using 2(1)
    proof (cases rule: create_delivery_effect)
      case 1
      then show ?thesis using assms(5) by simp
    next
      case (2 i j st)
      let ?d = "new_delivery c deliveryID (rj_ID j) st now"
      have i: "i \<in> set (dd_invoices s)" "iv_ID i = dc_InvoiceID c" "iv_BusinessID i = dc_BusinessID c"
        using 2(3) by (auto simp: find_invoice_def dest!: find_some)
      have ids: "canonical_uuid (dc_BusinessID c)" "canonical_uuid (dc_InvoiceID c)" "canonical_uuid (rj_ID j)"
        using i latest_final_job_in(1) [OF 2(1)] assms(5) by (auto simp: delivery_inv_def)
      have "cared_for t ?d" by (rule new_delivery_cared [OF 2(1,2) ids(1,2) assms(2,3) ids(3) 2(5,7)])
      moreover have "cared_for t d" if "d \<in> set (dd_deliveries s)" for d
        using that assms(5) 2(5,7) by (intro cared_for_mono [of s d t]) (auto simp: delivery_inv_def)
      moreover have "ed_ID ?d = deliveryID" by (simp add: new_delivery_def)
      ultimately show ?thesis using assms(4,5) 2(4-6) by (auto simp: delivery_inv_def)
    qed
  qed
qed

lemma waiting_events_announce:
  assumes "waiting_events ds eventIDs n now = Some es" and "d \<in> set ds" and "\<And>n. canonical_uuid (eventIDs n)"
  shows "\<exists>e \<in> set es. announces d e"
  using assms(1,2)
proof (induction ds arbitrary: n es)
  case (Cons x ds)
  obtain e fs where e: "newInvoiceDeliveryOutboxEvent x (eventIDs n) now = Some e" and fs: "waiting_events ds eventIDs (Suc n) now = Some fs"
    and es: "es = e # fs"
    using Cons.prems(1) by (auto split: option.splits)
  have "announces x e" by (rule event_announces [OF e assms(3)])
  then show ?case using Cons.IH [OF fs] Cons.prems(2) es by auto
qed simp

lemma waiting_events_some:
  assumes "\<And>d. d \<in> set ds \<Longrightarrow> ed_InvoiceID d \<noteq> None \<and> ed_RenderJobID d \<noteq> None"
  shows "\<exists>es. waiting_events ds eventIDs n now = Some es"
  using assms
proof (induction ds arbitrary: n)
  case (Cons x ds)
  then show ?case by (fastforce simp: newInvoiceDeliveryOutboxEvent_def)
qed simp

text \<open>What a completed render writes: the job is completed and the deliveries that waited for it are queued and announced.\<close>

definition completed_job :: "string \<Rightarrow> instant \<Rightarrow> render_job \<Rightarrow> render_job" where
  "completed_job filename now j =
     j\<lparr>rj_Status := RJCompleted, rj_OutputURL := [], rj_OutputFilename := filename, rj_ErrorMessage := [], rj_CompletedAt := Some now,
       rj_LeaseOwner := None, rj_LeaseExpiresAt := None\<rparr>"

lemma complete_render_effect:
  assumes "complete_render_tx businessID invoiceID jobID v owner objectKey filename eventIDs now s = (Inr r, t)"
  obtains j es where "dd_keys t = dd_keys s \<and> dd_invoices t = dd_invoices s" "j \<in> set (dd_jobs s)" "owned_final_job jobID businessID owner j" "rj_InvoiceID j = Some invoiceID"
    "dd_jobs t = map (\<lambda>j. if owned_final_job jobID businessID owner j then completed_job filename now j else j) (dd_jobs s)"
    "dd_deliveries t = map (\<lambda>d. if waiting_delivery businessID invoiceID jobID d then queue_delivery now d else d) (dd_deliveries s)"
    "waiting_events (map (queue_delivery now) (filter (waiting_delivery businessID invoiceID jobID) (dd_deliveries s))) eventIDs 0 now = Some es"
    "dd_outbox t = dd_outbox s @ es"
proof -
  obtain j where j: "find (owned_final_job jobID businessID owner) (dd_jobs s) = Some j"
    using assms by (auto simp: complete_render_tx_def split: option.splits)
  have inv: "rj_InvoiceID j = Some invoiceID" using assms j by (auto simp: complete_render_tx_def split: if_splits)
  obtain es where es: "waiting_events (map (queue_delivery now) (filter (waiting_delivery businessID invoiceID jobID) (dd_deliveries s))) eventIDs 0 now = Some es"
    using assms j by (auto simp: complete_render_tx_def update_jobs_def queueWaitingInvoiceDeliveries_def split: if_splits option.splits)
  show ?thesis
    by (rule that [of j es])
      (use find_some [OF j] inv es assms j in \<open>auto simp: complete_render_tx_def update_jobs_def update_deliveries_def
        queueWaitingInvoiceDeliveries_def completed_job_def [abs_def] split: if_splits option.splits\<close>)
qed

lemma complete_render_cared:
  assumes "delivery_inv s" and "j \<in> set (dd_jobs s)" and "owned_final_job jobID businessID owner j" and "rj_InvoiceID j = Some invoiceID"
    and jobs: "dd_jobs t = map (\<lambda>j. if owned_final_job jobID businessID owner j then completed_job filename now j else j) (dd_jobs s)"
    and es: "waiting_events (map (queue_delivery now) (filter (waiting_delivery businessID invoiceID jobID) (dd_deliveries s))) eventIDs 0 now = Some es"
    and outbox: "dd_outbox t = dd_outbox s @ es" and ids: "\<And>n. canonical_uuid (eventIDs n)" and d: "d \<in> set (dd_deliveries s)"
  shows "cared_for t (if waiting_delivery businessID invoiceID jobID d then queue_delivery now d else d)"
proof -
  have c: "cared_for s d" using assms(1) d by (simp add: delivery_inv_def)
  show ?thesis
  proof (cases "waiting_delivery businessID invoiceID jobID d")
    case True
    have "\<exists>e \<in> set es. announces (queue_delivery now d) e"
      by (rule waiting_events_announce [OF es _ ids]) (use d True in auto)
    moreover have "identified (queue_delivery now d)" using c same_identified same_delivery_updates(5) cared_for_def by blast
    moreover have "row_ok (queue_delivery now d)"
      using c True by (auto simp: cared_for_def row_ok_def finished_def queue_delivery_def waiting_delivery_def)
    ultimately show ?thesis using True outbox by (auto simp: cared_for_def queue_delivery_def)
  next
    case False
    show ?thesis
    proof (cases "ed_Status d = WaitingForRender")
      case True
      then obtain w where w: "w \<in> set (dd_jobs s)" "awaits d w" using c by (auto simp: cared_for_def)
      have "\<not> owned_final_job jobID businessID owner w"
      proof
        assume o: "owned_final_job jobID businessID owner w"
        then have "rj_ID w = rj_ID j" using assms(3) by (simp add: owned_final_job_def final_job_def)
        then have "w = j" using assms(1,2) w(1) by (meson delivery_inv_def distinct_map inj_onD)
        then have "waiting_delivery businessID invoiceID jobID d"
          using w(2) assms(3,4) c True by (auto simp: awaits_def owned_final_job_def final_job_def waiting_delivery_def cared_for_def identified_def)
        with False show False by simp
      qed
      then have "w \<in> set (dd_jobs t)" using w(1) jobs by force
      then show ?thesis using False True c w(2) by (auto simp: cared_for_def)
    next
      case ns: False
      then show ?thesis using False c outbox by (auto simp: cared_for_def)
    qed
  qed
qed

lemma complete_render_inv:
  assumes "CompleteFinalRender businessID invoiceID jobID v owner objectKey filename eventIDs now s = (r, t)"
    and ids: "\<And>n. canonical_uuid (eventIDs n)" and inv: "delivery_inv s"
  shows "delivery_inv t"
proof (cases "businessID = [] \<or> invoiceID = [] \<or> jobID = [] \<or> v < 1 \<or> \<not> validRenderLeaseOwner owner \<or> objectKey = [] \<or> filename = []")
  case True
  then show ?thesis using assms by (simp add: CompleteFinalRender_def)
next
  case False
  then have "transaction (complete_render_tx businessID invoiceID jobID v owner objectKey filename eventIDs now) s = (r, t)"
    using assms(1) by (simp add: CompleteFinalRender_def)
  then show ?thesis
  proof (cases rule: transaction_effect)
    case (1 fs)
    then show ?thesis using inv by simp
  next
    case (2 fs a)
    have i: "delivery_inv (s\<lparr>fa_faults := fs\<rparr>)" using inv by simp
    from 2(1) show ?thesis
    proof (cases rule: complete_render_effect)
      case (1 j es)
      have "map ed_ID (dd_deliveries t) = map ed_ID (dd_deliveries s)" using 1(6) by (simp add: queue_delivery_def)
      moreover have "map rj_ID (dd_jobs t) = map rj_ID (dd_jobs s)" using 1(5) by (simp add: completed_job_def)
      moreover have "\<forall>j \<in> set (dd_jobs t). canonical_uuid (rj_ID j)" using inv 1(5) by (auto simp: delivery_inv_def completed_job_def)
      moreover have "\<forall>d \<in> set (dd_deliveries t). cared_for t d"
        unfolding 1(6) by (auto simp only: set_map intro!: complete_render_cared [OF i 1(2-5,7,8) ids] split del: if_split)
      ultimately show ?thesis using inv 1(1) by (simp add: delivery_inv_def)
    qed
  qed
qed

section \<open>The invariant\<close>

lemma delivery_inv_step:
  assumes "delivery_step uuid_ok s t" and "delivery_inv s"
  shows "delivery_inv t"
  using assms
proof (induction rule: delivery_step.induct)
  case (claim locked m owner now until s rcl t)
  then have "distinct (map ed_ID (dd_deliveries s))" by (simp add: delivery_inv_def)
  from claim_rows_changed [OF claim.hyps this] show ?case using claim.prems by (rule rows_changed_inv)
next
  case (add_job j s)
  have "cared_for (s\<lparr>dd_jobs := dd_jobs s @ [j]\<rparr>) d" if "d \<in> set (dd_deliveries s)" for d
    by (rule cared_for_mono [of s d]) (use add_job.prems that in \<open>auto simp: delivery_inv_def\<close>)
  then show ?case using add_job by (simp add: delivery_inv_def)
next
  case (request deliveryID s eventID c now r t)
  show ?case by (rule request_inv [OF request.hyps(4,1,3,2) request.prems])
next
  case (complete_render eventIDs businessID invoiceID jobID v owner objectKey filename now s rb t)
  show ?case by (rule complete_render_inv [OF complete_render.hyps(2,1) complete_render.prems])
next
  case (add_invoice i s)
  then show ?case by (auto simp: delivery_inv_def cared_for_def)
next
  case (invoice_status s i st)
  then show ?case by (auto simp: delivery_inv_def cared_for_def set_invoice_status_def)
qed (blast intro: rows_changed_inv jobs_changed_inv claim_render_changed fail_render_changed verify_rows_changed
  send_rows_changed mark_sent_rows_changed mark_failed_rows_changed feedback_rows_changed)+

lemma delivery_inv_reachable: "delivery_reachable uuid_ok s \<Longrightarrow> delivery_inv s"
proof (induction rule: delivery_reachable.induct)
  case (init fs)
  show ?case by (simp add: delivery_inv_def empty_db_def)
qed (blast intro: delivery_inv_step)

end
