(* ===== verification/Step_Systems.thy ===== *)
theory Step_Systems
  imports Main
begin

text \<open>
  Systems of interleaved steps with an invariant and with a preorder that every step from a
  state of the invariant respects: what one step keeps, every run keeps.
\<close>

locale step_system =
  fixes step :: "'s \<Rightarrow> 's \<Rightarrow> bool" and inv :: "'s \<Rightarrow> bool" and le :: "'s \<Rightarrow> 's \<Rightarrow> bool"
  assumes inv_step: "step s t \<Longrightarrow> inv s \<Longrightarrow> inv t"
    and le_refl: "le s s"
    and le_trans: "le s t \<Longrightarrow> le t u \<Longrightarrow> le s u"
    and le_step: "step s t \<Longrightarrow> inv s \<Longrightarrow> le s t"
begin

lemma run:
  assumes "step\<^sup>*\<^sup>* s t" and "inv s"
  shows "inv t" and "le s t"
proof -
  have "inv t \<and> le s t"
    using assms(1)
  proof (induction rule: rtranclp_induct)
    case base
    show ?case using assms(2) le_refl by simp
  next
    case (step t u)
    then show ?case using inv_step le_step le_trans by blast
  qed
  then show "inv t" and "le s t" by simp_all
qed

end

end
