(* ===== verification/Delivery_Messages.thy ===== *)
theory Delivery_Messages
  imports Delivery_System Step_Systems
begin

text \<open>
  What the database announces is what the worker reads: the event of a delivery is routed to the
  delivery queue, and the message the worker decodes there names the delivery. And the outcome
  of a delivery never falls back, over any number of steps.
\<close>

section \<open>Messages\<close>

lemma literal_texts: "ValidString ''delivery_id''" "ValidString ''invoice_id''" "ValidString ''render_job_id''"
  "ValidString ''schema_version''" "ValidString ''business_id''" "ValidString ''type''" "ValidString sendInvoicePDFMessage"
  by (simp_all add: sendInvoicePDFMessage_def)

lemma reads_one: "reads d (json_int 1) (JNum ''1'')"
proof -
  have "json_int 1 = ''1''" by code_simp
  moreover have "number_literal ''1''" by code_simp
  ultimately show ?thesis by (simp add: reads_number)
qed

lemma one_parses: "parse_int64 ''1'' = Some 1"
  by code_simp

lemma payload_decodes:
  assumes "ValidString a" and "ValidString b" and "ValidString c"
  shows "decode_struct invoiceDeliveryEnvelope (delivery_payload a b c) =
    Some [(''delivery_id'', SVal a), (''invoice_id'', SVal b), (''render_job_id'', SVal c), (''schema_version'', IVal 1)]"
proof -
  obtain n where n: "maxNestingDepth = Suc n" by (simp add: maxNestingDepth_def)
  have "reads (Suc n) (delivery_payload a b c)
    (JObj [(''delivery_id'', JStr a), (''invoice_id'', JStr b), (''render_job_id'', JStr c), (''schema_version'', JNum ''1'')])"
    unfolding delivery_payload_def by (rule reads_object) (simp add: assms literal_texts reads_string reads_one)
  then have "decode_json (delivery_payload a b c) =
    Some (JObj [(''delivery_id'', JStr a), (''invoice_id'', JStr b), (''render_job_id'', JStr c), (''schema_version'', JNum ''1'')])"
    by (intro reads_decode) (simp add: n)
  then show ?thesis by (simp add: decode_struct_def invoiceDeliveryEnvelope_def struct_field_def field_of_def one_parses)
qed

lemma message_decodes:
  assumes "ValidString a" and "ValidString b" and "ValidString c" and "ValidString e"
  shows "decodeDeliveryMessage (emailDeliveryWorkerMessage a b c e) =
    Some \<lparr>dm_SchemaVersion = 1, dm_Type = sendInvoicePDFMessage, dm_BusinessID = a, dm_DeliveryID = b, dm_InvoiceID = c, dm_RenderJobID = e\<rparr>"
proof -
  obtain n where n: "maxNestingDepth = Suc n" by (simp add: maxNestingDepth_def)
  let ?v = "JObj [(''schema_version'', JNum ''1''), (''type'', JStr sendInvoicePDFMessage), (''business_id'', JStr a), (''delivery_id'', JStr b),
     (''invoice_id'', JStr c), (''render_job_id'', JStr e)]"
  have "reads (Suc n) (emailDeliveryWorkerMessage a b c e) ?v"
    unfolding emailDeliveryWorkerMessage_def by (rule reads_object) (simp add: assms literal_texts reads_string reads_one)
  then have "decode_json (emailDeliveryWorkerMessage a b c e) = Some ?v" by (intro reads_decode) (simp add: n)
  then show ?thesis
    by (simp add: decodeDeliveryMessage_def decode_struct_def delivery_message_fields_def struct_field_def field_of_def one_parses
        string_field_def int_field_def)
qed

text \<open>The hypothesis on \<open>uuid_ok\<close> is what \<open>uuid.Parse\<close> documents: it accepts the canonical form.\<close>

lemma announced_delivery_routed:
  assumes "identified d" and "announces d e" and "\<And>u. canonical_uuid u \<Longrightarrow> op_uuid_ok p u" and "op_emailDeliveryQueueURL p \<noteq> []"
  shows "route p e = Inr (op_emailDeliveryQueueURL p,
    emailDeliveryWorkerMessage (ed_BusinessID d) (ed_ID d) (the (ed_InvoiceID d)) (the (ed_RenderJobID d)))"
proof -
  note i = assms(1) [unfolded identified_def] and a = assms(2) [unfolded announces_def]
  have ok: "validUUID (op_uuid_ok p) u" if "canonical_uuid u" for u
    using that assms(3) canonical_uuid_text(2) by (simp add: validUUID_def)
  have "TrimSpace (delivery_payload x y z) \<noteq> []" for x y z
    by (simp add: delivery_payload_def json_object_def TrimSpace_def is_space_def)
  moreover note payload_decodes [of "ed_ID d" "the (ed_InvoiceID d)" "the (ed_RenderJobID d)"]
  ultimately have "MapEmailDeliveryEventToSQSMessage (op_uuid_ok p) e =
    Inr (emailDeliveryWorkerMessage (ed_BusinessID d) (ed_ID d) (the (ed_InvoiceID d)) (the (ed_RenderJobID d)))"
    using i a ok canonical_uuid_text(1)
    by (simp add: MapEmailDeliveryEventToSQSMessage_def string_field_def int_field_def)
  then show ?thesis
    using a assms(4) by (simp add: route_def invoiceDeliveryRequestedEvent_def invoicePreviewRequestedEvent_def invoiceIssuedEvent_def)
qed

definition message_of :: "email_delivery \<Rightarrow> delivery_message" where
  "message_of d =
     \<lparr>dm_SchemaVersion = 1, dm_Type = deliveryMessageType, dm_BusinessID = ed_BusinessID d, dm_DeliveryID = ed_ID d,
      dm_InvoiceID = the (ed_InvoiceID d), dm_RenderJobID = the (ed_RenderJobID d)\<rparr>"

lemma message_of_valid:
  assumes "identified d" and "\<And>u. canonical_uuid u \<Longrightarrow> uuid_ok u" and "TrimSpace owner \<noteq> []"
  shows "validateDeliveryMessage uuid_ok (message_of d) owner" and "message_matches (message_of d) d"
  using assms canonical_uuid_text(2)
  by (auto simp: validateDeliveryMessage_def message_of_def message_matches_def validUUID_def identified_def)

lemma worker_reads_message:
  assumes "identified d"
  shows "decodeDeliveryMessage (emailDeliveryWorkerMessage (ed_BusinessID d) (ed_ID d) (the (ed_InvoiceID d)) (the (ed_RenderJobID d))) = Some (message_of d)"
  using assms message_decodes canonical_uuid_text(1)
  by (simp add: message_of_def identified_def sendInvoicePDFMessage_def deliveryMessageType_def)

section \<open>Outcomes do not fall back\<close>

definition carries_on :: "delivery_db \<Rightarrow> delivery_db \<Rightarrow> bool" where
  "carries_on s t \<longleftrightarrow>
     (\<forall>d \<in> set (dd_deliveries s). \<exists>d' \<in> set (dd_deliveries t). same_delivery d' d \<and> progress (ed_Status d) \<le> progress (ed_Status d'))"

lemma same_delivery_refl [simp]: "same_delivery d d"
  by (simp add: same_delivery_def)

lemma same_delivery_trans: "same_delivery a b \<Longrightarrow> same_delivery b c \<Longrightarrow> same_delivery a c"
  by (simp add: same_delivery_def)

lemma carries_on_refl [simp]: "carries_on s s"
  unfolding carries_on_def using same_delivery_refl by blast

lemma carries_on_keep: "set (dd_deliveries s) \<subseteq> set (dd_deliveries t) \<Longrightarrow> carries_on s t"
  unfolding carries_on_def using same_delivery_refl by blast

lemma carries_on_trans:
  assumes "carries_on s t" and "carries_on t u"
  shows "carries_on s u"
  unfolding carries_on_def
proof
  fix d
  assume "d \<in> set (dd_deliveries s)"
  then obtain e where e: "e \<in> set (dd_deliveries t)" "same_delivery e d" "progress (ed_Status d) \<le> progress (ed_Status e)"
    using assms(1) by (auto simp: carries_on_def)
  then obtain f where "f \<in> set (dd_deliveries u)" "same_delivery f e" "progress (ed_Status e) \<le> progress (ed_Status f)"
    using assms(2) by (auto simp: carries_on_def)
  then show "\<exists>f \<in> set (dd_deliveries u). same_delivery f d \<and> progress (ed_Status d) \<le> progress (ed_Status f)"
    using e same_delivery_trans order_trans by blast
qed

lemma rows_changed_carries_on: "rows_changed s t \<Longrightarrow> carries_on s t"
  unfolding rows_changed_def carries_on_def row_change_def by (blast dest: list_all2_left)

lemma jobs_changed_carries_on: "jobs_changed s t \<Longrightarrow> carries_on s t"
  by (rule carries_on_keep) (simp add: jobs_changed_def)

lemma request_carries_on:
  assumes "CreateDeliveryAtomic uuid_ok c deliveryID eventID now s = (r, t)"
  shows "carries_on s t"
proof (cases "validateAtomicInvoiceDelivery uuid_ok c")
  case False
  then show ?thesis using assms by (simp add: CreateDeliveryAtomic_def)
next
  case True
  then have "transaction (create_delivery_tx c deliveryID eventID now) s = (r, t)" using assms by (simp add: CreateDeliveryAtomic_def)
  then show ?thesis
  proof (cases rule: transaction_effect)
    case (2 fs a)
    from 2(1) show ?thesis by (cases rule: create_delivery_effect) (auto intro: carries_on_keep)
  qed (simp add: carries_on_keep)
qed

lemma complete_render_carries_on:
  assumes "CompleteFinalRender businessID invoiceID jobID v owner objectKey filename eventIDs now s = (r, t)"
  shows "carries_on s t"
proof (cases "businessID = [] \<or> invoiceID = [] \<or> jobID = [] \<or> v < 1 \<or> \<not> validRenderLeaseOwner owner \<or> objectKey = [] \<or> filename = []")
  case True
  then show ?thesis using assms by (simp add: CompleteFinalRender_def)
next
  case False
  then have "transaction (complete_render_tx businessID invoiceID jobID v owner objectKey filename eventIDs now) s = (r, t)"
    using assms by (simp add: CompleteFinalRender_def)
  then show ?thesis
  proof (cases rule: transaction_effect)
    case (2 fs a)
    from 2(1) show ?thesis
    proof (cases rule: complete_render_effect)
      case (1 j es)
      have "progress (ed_Status d) \<le> progress (ed_Status (queue_delivery now d))" if "waiting_delivery businessID invoiceID jobID d" for d
        using that by (simp add: waiting_delivery_def progress_def)
      then have "\<exists>d' \<in> set (dd_deliveries t). same_delivery d' d \<and> progress (ed_Status d) \<le> progress (ed_Status d')"
        if "d \<in> set (dd_deliveries s)" for d
        using that by (intro bexI [of _ "if waiting_delivery businessID invoiceID jobID d then queue_delivery now d else d"]) (simp_all add: 1(6))
      then show ?thesis by (simp add: carries_on_def)
    qed
  qed (simp add: carries_on_keep)
qed

lemma step_carries_on:
  assumes "delivery_step uuid_ok s t" and "delivery_inv s"
  shows "carries_on s t"
  using assms
proof (induction rule: delivery_step.induct)
  case (claim locked m owner now until s rcl t)
  then have "distinct (map ed_ID (dd_deliveries s))" by (simp add: delivery_inv_def)
  from claim_rows_changed [OF claim.hyps this] show ?case by (rule rows_changed_carries_on)
next
  case (request deliveryID s eventID c now r t)
  show ?case by (rule request_carries_on [OF request.hyps(4)])
next
  case (complete_render eventIDs businessID invoiceID jobID v owner objectKey filename now s rb t)
  show ?case by (rule complete_render_carries_on [OF complete_render.hyps(2)])
next
  case (add_invoice i s)
  then show ?case by (auto intro: carries_on_keep)
next
  case (invoice_status s i st)
  then show ?case by (auto simp: set_invoice_status_def intro: carries_on_keep)
next
  case (add_job j s)
  then show ?case by (auto intro: carries_on_keep)
qed (blast intro: rows_changed_carries_on jobs_changed_carries_on claim_render_changed fail_render_changed verify_rows_changed
  send_rows_changed mark_sent_rows_changed mark_failed_rows_changed feedback_rows_changed)+

interpretation deliveries: step_system "delivery_step uuid_ok" delivery_inv carries_on for uuid_ok
  by unfold_locales (blast intro: delivery_inv_step carries_on_refl carries_on_trans step_carries_on)+

end
