(* ===== verification/Delivery_Feedback.thy ===== *)
theory Delivery_Feedback
  imports Delivery_Messages
begin

text \<open>
  The outcome that feedback gives a delivery is a function of the set of events that concern it:
  their order and their repetitions do not matter.
\<close>

definition apply_events :: "(string \<Rightarrow> bool) \<Rightarrow> (feedback_event \<times> instant) list \<Rightarrow> delivery_db \<Rightarrow> delivery_db" where
  "apply_events uuid_ok es s = fold (\<lambda>(e, now) s. snd (ApplyFeedback uuid_ok e now s)) es s"

section \<open>The reference\<close>

definition concerns :: "(string \<Rightarrow> bool) \<Rightarrow> email_delivery \<Rightarrow> feedback_event \<Rightarrow> bool" where
  "concerns uuid_ok d e \<longleftrightarrow>
     uuid_ok (fe_DeliveryID e) \<and> uuid_ok (fe_BusinessID e) \<and> TrimSpace (fe_ProviderMessageID e) \<noteq> [] \<and> fe_OccurredAt e \<noteq> zero_time \<and>
     feedback_matches e d \<and> finished d"

definition outcome_status :: "delivery_status \<Rightarrow> feedback_event set \<Rightarrow> delivery_status" where
  "outcome_status st E =
     (if st = Complained \<or> EventTypeComplaint \<in> fe_Type ` E then Complained
      else if st = Bounced \<or> EventTypeBounce \<in> fe_Type ` E then Bounced
      else if st = Delivered \<or> EventTypeDelivery \<in> fe_Type ` E then Delivered
      else st)"

definition earliest :: "instant option \<Rightarrow> instant set \<Rightarrow> instant option" where
  "earliest t T = (if T = {} then t else Some (Min (set_option t \<union> T)))"

definition delivered_times :: "feedback_event set \<Rightarrow> instant set" where
  "delivered_times E = fe_OccurredAt ` {e \<in> E. fe_Type e = EventTypeDelivery}"

definition failed_times :: "feedback_event set \<Rightarrow> instant set" where
  "failed_times E = fe_OccurredAt ` {e \<in> E. fe_Type e \<noteq> EventTypeDelivery}"

definition outcome :: "email_delivery \<Rightarrow> string \<times> delivery_status \<times> instant option \<times> instant option" where
  "outcome d = (ed_ID d, ed_Status d, ed_DeliveredAt d, ed_FailedAt d)"

definition outcome_after :: "(string \<Rightarrow> bool) \<Rightarrow> feedback_event set \<Rightarrow> email_delivery \<Rightarrow> string \<times> delivery_status \<times> instant option \<times> instant option" where
  "outcome_after uuid_ok E d =
     (let F = {e \<in> E. concerns uuid_ok d e} in
      (ed_ID d, outcome_status (ed_Status d) F, earliest (ed_DeliveredAt d) (delivered_times F), earliest (ed_FailedAt d) (failed_times F)))"

section \<open>One event\<close>

definition feedback_row :: "(string \<Rightarrow> bool) \<Rightarrow> feedback_event \<Rightarrow> instant \<Rightarrow> email_delivery \<Rightarrow> email_delivery" where
  "feedback_row uuid_ok e now d =
     (case ResolveTransition (ed_Status d) (fe_Type e) of
        Inr (nx, changed) \<Rightarrow>
          (let existing = (if fe_Type e = EventTypeDelivery then ed_DeliveredAt d else ed_FailedAt d)
           in if concerns uuid_ok d e \<and> (changed \<or> (case existing of None \<Rightarrow> True | Some t \<Rightarrow> fe_OccurredAt e < t))
              then apply_to e nx (earliestTime existing (fe_OccurredAt e)) now d else d)
      | Inl _ \<Rightarrow> d)"

lemma transition_defined: "(\<exists>r. ResolveTransition (ed_Status d) t = Inr r) \<longleftrightarrow> finished d"
  by (cases "ed_Status d"; cases t) (auto simp: ResolveTransition_def finished_def)

lemma earliest_time: "Some (earliestTime t x) = earliest t {x}"
  by (cases t) (simp_all add: earliestTime_def earliest_def min_def)

lemma earliest_kept:
  assumes "\<not> (case t of None \<Rightarrow> True | Some u \<Rightarrow> x < u)"
  shows "earliest t {x} = t"
  using assms by (cases t) (simp_all add: earliest_def min_def)

lemma earliest_more:
  assumes "finite T"
  shows "earliest (earliest t {x}) T = earliest t (insert x T)"
proof (cases "T = {}")
  case False
  have "Min (insert x (set_option t) \<union> T) = min (Min (insert x (set_option t))) (Min T)"
    using assms False by (intro Min_Un) auto
  then have "Min (insert (Min (insert x (set_option t))) T) = Min (insert x (set_option t) \<union> T)"
    using assms False by (metis Min_insert)
  then show ?thesis using False by (simp add: earliest_def Un_commute insert_commute)
qed (simp add: earliest_def)

lemma status_more:
  assumes "ResolveTransition st (fe_Type e) = Inr (nx, changed)"
  shows "outcome_status nx E = outcome_status st (insert e E)"
  using assms by (cases st; cases "fe_Type e") (auto simp: ResolveTransition_def outcome_status_def)

lemma status_kept:
  assumes "ResolveTransition st t = Inr (nx, False)"
  shows "nx = st"
  using assms by (cases st; cases t) (simp_all add: ResolveTransition_def)

lemma feedback_row_change: "row_change d (feedback_row uuid_ok e now d)"
  using feedback_change by (auto simp: feedback_row_def Let_def split: sum.splits)

lemma feedback_row_keeps:
  "ed_ID (feedback_row uuid_ok e now d) = ed_ID d" "finished (feedback_row uuid_ok e now d) = finished d"
  "feedback_matches f (feedback_row uuid_ok e now d) = feedback_matches f d"
proof -
  have c: "row_change d (feedback_row uuid_ok e now d)" by (rule feedback_row_change)
  then show "ed_ID (feedback_row uuid_ok e now d) = ed_ID d" by (simp add: row_change_def same_delivery_def)
  have "finished (apply_to e nx ts now d)" if "ResolveTransition (ed_Status d) (fe_Type e) = Inr (nx, b)" for nx b ts
    using that by (cases "ed_Status d"; cases "fe_Type e") (auto simp: ResolveTransition_def apply_to_def finished_def)
  moreover have "finished d" if "concerns uuid_ok d e" using that by (simp add: concerns_def)
  ultimately show "finished (feedback_row uuid_ok e now d) = finished d"
    by (auto simp: feedback_row_def Let_def split: sum.splits)
  show "feedback_matches f (feedback_row uuid_ok e now d) = feedback_matches f d"
    by (auto simp: feedback_row_def Let_def feedback_matches_def apply_to_def split: sum.splits)
qed

lemma concerns_row: "concerns uuid_ok (feedback_row uuid_ok e now d) f \<longleftrightarrow> concerns uuid_ok d f"
  by (simp add: concerns_def feedback_row_keeps)

text \<open>What one event does to the outcome of a row it concerns.\<close>

lemma feedback_row_outcome:
  assumes "concerns uuid_ok d e" and "ResolveTransition (ed_Status d) (fe_Type e) = Inr (nx, changed)"
  shows "outcome (feedback_row uuid_ok e now d) =
    (ed_ID d, nx, earliest (ed_DeliveredAt d) (delivered_times {e}), earliest (ed_FailedAt d) (failed_times {e}))"
proof -
  let ?old = "if fe_Type e = EventTypeDelivery then ed_DeliveredAt d else ed_FailedAt d"
  have times: "delivered_times {e} = (if fe_Type e = EventTypeDelivery then {fe_OccurredAt e} else {})"
    "failed_times {e} = (if fe_Type e = EventTypeDelivery then {} else {fe_OccurredAt e})"
    by (auto simp: delivered_times_def failed_times_def)
  show ?thesis
  proof (cases "changed \<or> (case ?old of None \<Rightarrow> True | Some t \<Rightarrow> fe_OccurredAt e < t)")
    case True
    then have "feedback_row uuid_ok e now d = apply_to e nx (earliestTime ?old (fe_OccurredAt e)) now d"
      using assms by (simp add: feedback_row_def Let_def)
    then show ?thesis by (simp add: outcome_def apply_to_def times earliest_time) (simp add: earliest_def)
  next
    case False
    then have row: "feedback_row uuid_ok e now d = d" using assms by (simp add: feedback_row_def Let_def)
    have "changed = False" using False by simp
    then have "nx = ed_Status d" using status_kept assms(2) by blast
    moreover have "earliest ?old {fe_OccurredAt e} = ?old" using False by (intro earliest_kept) simp
    ultimately show ?thesis by (auto simp: row outcome_def times earliest_def split: if_splits)
  qed
qed

lemma outcome_after_event:
  assumes "finite E"
  shows "outcome_after uuid_ok E (feedback_row uuid_ok e now d) = outcome_after uuid_ok (insert e E) d"
proof (cases "concerns uuid_ok d e")
  case True
  let ?F = "{e \<in> E. concerns uuid_ok d e}"
  obtain nx changed where tr: "ResolveTransition (ed_Status d) (fe_Type e) = Inr (nx, changed)"
    using True transition_defined [of d "fe_Type e"] by (auto simp: concerns_def)
  have F: "{f. (f = e \<or> f \<in> E) \<and> concerns uuid_ok d f} = insert e ?F" using True by auto
  have fin: "finite (delivered_times ?F)" "finite (failed_times ?F)"
    using assms by (auto simp: delivered_times_def failed_times_def)
  have ins: "delivered_times (insert e ?F) = delivered_times {e} \<union> delivered_times ?F" "failed_times (insert e ?F) = failed_times {e} \<union> failed_times ?F"
    by (auto simp: delivered_times_def failed_times_def)
  have more: "earliest (earliest t T) U = earliest t (T \<union> U)" if "T = {} \<or> (\<exists>x. T = {x})" "finite U" for t T U
    using that earliest_more by (auto simp: earliest_def [of _ "{}"])
  have single: "delivered_times {e} = {} \<or> (\<exists>x. delivered_times {e} = {x})" "failed_times {e} = {} \<or> (\<exists>x. failed_times {e} = {x})"
    by (auto simp: delivered_times_def failed_times_def)
  note row = feedback_row_outcome [OF True tr, of now, unfolded outcome_def]
  show ?thesis
    using row by (simp add: outcome_after_def Let_def concerns_row F ins more [OF single(1) fin(1)] more [OF single(2) fin(2)] status_more [OF tr])
next
  case False
  then have "feedback_row uuid_ok e now d = d" by (auto simp: feedback_row_def Let_def split: sum.splits)
  moreover have "{f \<in> insert e E. concerns uuid_ok d f} = {f \<in> E. concerns uuid_ok d f}" using False by auto
  ultimately show ?thesis by (simp add: outcome_after_def)
qed

section \<open>The transaction\<close>

lemma filter_unique:
  assumes "distinct (map ed_ID ds)" and "d \<in> set ds" and "\<And>x. P x \<Longrightarrow> ed_ID x = ed_ID d" and "P d"
  shows "filter P ds = [d]"
  using assms(1,2)
proof (induction ds)
  case (Cons a ds)
  have tail: "\<not> P x" if "x \<in> set ds" "a = d" for x
    using that Cons.prems(1) assms(3) by (metis distinct.simps(2) image_eqI list.set_map list.simps(9))
  show ?case
  proof (cases "a = d")
    case True
    then have "filter P ds = []" using tail by (simp add: filter_empty_conv)
    then show ?thesis using True assms(4) by simp
  next
    case False
    then have d: "d \<in> set ds" using Cons.prems(2) by simp
    then have "\<not> P a" using assms(3) Cons.prems(1) by (metis distinct.simps(2) image_eqI list.set_map list.simps(9))
    then show ?thesis using Cons d by simp
  qed
qed simp

lemma map_unchanged: "(\<And>x. x \<in> set xs \<Longrightarrow> f x = x) \<Longrightarrow> map f xs = xs"
  by (simp add: map_idI)

lemma feedback_tx_effect:
  assumes "distinct (map ed_ID (dd_deliveries s))" and "uuid_ok (fe_DeliveryID e)" and "uuid_ok (fe_BusinessID e)"
    and "TrimSpace (fe_ProviderMessageID e) \<noteq> []" and "fe_OccurredAt e \<noteq> zero_time"
  shows "(case feedback_tx e now s of (Inl err, _) \<Rightarrow> s | (Inr a, t) \<Rightarrow> t) = s\<lparr>dd_deliveries := map (feedback_row uuid_ok e now) (dd_deliveries s)\<rparr>"
proof (cases "find (feedback_matches e) (dd_deliveries s)")
  case None
  then have "\<not> feedback_matches e d" if "d \<in> set (dd_deliveries s)" for d using that by (auto simp: find_None_iff)
  then have "map (feedback_row uuid_ok e now) (dd_deliveries s) = dd_deliveries s"
    by (intro map_unchanged) (auto simp: feedback_row_def concerns_def Let_def split: sum.splits)
  then show ?thesis using None by (simp add: feedback_tx_def)
next
  case (Some d)
  then have d: "d \<in> set (dd_deliveries s)" "feedback_matches e d" by (auto dest: find_some)
  have one: "filter (feedback_matches e) (dd_deliveries s) = [d]"
    by (rule filter_unique [OF assms(1) d(1)]) (use d(2) in \<open>auto simp: feedback_matches_def\<close>)
  have only: "x = d" if "x \<in> set (dd_deliveries s)" "feedback_matches e x" for x
  proof -
    have "x \<in> set (filter (feedback_matches e) (dd_deliveries s))" using that by simp
    then show ?thesis using one by simp
  qed
  have other: "feedback_row uuid_ok e now x = x" if "\<not> feedback_matches e x" for x
    using that by (auto simp: feedback_row_def concerns_def Let_def split: sum.splits)
  show ?thesis
  proof (cases "ResolveTransition (ed_Status d) (fe_Type e)")
    case (Inl err)
    then have "feedback_row uuid_ok e now d = d" by (simp add: feedback_row_def)
    then have "map (feedback_row uuid_ok e now) (dd_deliveries s) = dd_deliveries s"
      using only other by (intro map_unchanged) blast
    then show ?thesis using Some Inl by (simp add: feedback_tx_def)
  next
    case (Inr r)
    obtain nx changed where r: "r = (nx, changed)" by (cases r)
    have fin: "finished d" using Inr transition_defined by blast
    then have con: "concerns uuid_ok d e" using d(2) assms by (simp add: concerns_def)
    let ?old = "if fe_Type e = EventTypeDelivery then ed_DeliveredAt d else ed_FailedAt d"
    let ?new = "apply_to e nx (earliestTime ?old (fe_OccurredAt e)) now"
    show ?thesis
    proof (cases "changed \<or> (case ?old of None \<Rightarrow> True | Some t \<Rightarrow> fe_OccurredAt e < t)")
      case True
      then have "feedback_row uuid_ok e now d = ?new d" using Inr r con by (simp add: feedback_row_def Let_def)
      then have "(if feedback_matches e x then ?new x else x) = feedback_row uuid_ok e now x" if "x \<in> set (dd_deliveries s)" for x
        using only other that by (cases "feedback_matches e x") auto
      then have "map (\<lambda>x. if feedback_matches e x then ?new x else x) (dd_deliveries s) = map (feedback_row uuid_ok e now) (dd_deliveries s)"
        by (intro map_cong refl)
      then show ?thesis using True Some Inr r one by (auto simp: feedback_tx_def Let_def update_deliveries_def)
    next
      case False
      then have "feedback_row uuid_ok e now d = d" using Inr r con by (simp add: feedback_row_def Let_def)
      then have "map (feedback_row uuid_ok e now) (dd_deliveries s) = dd_deliveries s"
        using only other by (intro map_unchanged) blast
      then show ?thesis using False Some Inr r by (simp add: feedback_tx_def Let_def)
    qed
  qed
qed

lemma apply_feedback_effect:
  assumes "fa_faults s = []" and "distinct (map ed_ID (dd_deliveries s))"
  shows "snd (ApplyFeedback uuid_ok e now s) = s\<lparr>dd_deliveries := map (feedback_row uuid_ok e now) (dd_deliveries s)\<rparr>"
proof (cases "\<not> uuid_ok (fe_DeliveryID e) \<or> \<not> uuid_ok (fe_BusinessID e) \<or> TrimSpace (fe_ProviderMessageID e) = [] \<or> fe_OccurredAt e = zero_time")
  case True
  then have "map (feedback_row uuid_ok e now) (dd_deliveries s) = dd_deliveries s"
    by (intro map_unchanged) (auto simp: feedback_row_def concerns_def Let_def split: sum.splits)
  then show ?thesis using True by (simp add: ApplyFeedback_def)
next
  case False
  then have v: "uuid_ok (fe_DeliveryID e)" "uuid_ok (fe_BusinessID e)" "TrimSpace (fe_ProviderMessageID e) \<noteq> []" "fe_OccurredAt e \<noteq> zero_time"
    by simp_all
  obtain r t where rt: "feedback_tx e now s = (r, t)" by fastforce
  have "snd (transaction (feedback_tx e now) s) = (case feedback_tx e now s of (Inl err, _) \<Rightarrow> s | (Inr a, t) \<Rightarrow> t)"
    using assms(1) rt by (cases r) (simp_all add: transaction_def call_without_faults)
  then show ?thesis using False feedback_tx_effect [OF assms(2), of uuid_ok e now, OF v] by (simp add: ApplyFeedback_def)
qed

lemma outcomes_after_events:
  assumes "fa_faults s = []" and "distinct (map ed_ID (dd_deliveries s))"
  shows "map outcome (dd_deliveries (apply_events uuid_ok es s)) = map (outcome_after uuid_ok (fst ` set es)) (dd_deliveries s)"
  using assms
proof (induction es arbitrary: s)
  case Nil
  show ?case by (simp add: apply_events_def outcome_def [abs_def] outcome_after_def [abs_def] outcome_status_def earliest_def delivered_times_def failed_times_def)
next
  case (Cons a es)
  obtain e now where a: "a = (e, now)" by fastforce
  let ?t = "s\<lparr>dd_deliveries := map (feedback_row uuid_ok e now) (dd_deliveries s)\<rparr>"
  have eff: "snd (ApplyFeedback uuid_ok e now s) = ?t" by (rule apply_feedback_effect [OF Cons.prems])
  have "distinct (map ed_ID (dd_deliveries ?t))" using Cons.prems(2) by (simp add: feedback_row_keeps comp_def)
  with Cons.IH [of ?t] have "map outcome (dd_deliveries (apply_events uuid_ok es ?t)) = map (outcome_after uuid_ok (fst ` set es)) (dd_deliveries ?t)"
    using Cons.prems(1) by simp
  then show ?case by (simp add: apply_events_def a eff outcome_after_event)
qed

end
