(* ===== verification/Delivery_Worker.thy ===== *)
theory Delivery_Worker
  imports Delivery_Feedback
begin

text \<open>
  The email worker as a whole: what a message that was handled without an error leaves behind,
  what becomes of a message whose delivery is finished, and that a delivery is sent when nothing fails.
\<close>

section \<open>Answered calls\<close>

lemma external_call_answered:
  assumes "external_call f s = (Some a, t)"
  obtains fs where "f (s\<lparr>fa_faults := fs\<rparr>) = (a, t)"
  using assms by (cases rule: external_call_effect) (auto intro: that prod_eqI)

lemma classify_terminal:
  assumes "classifyUnclaimed m now s = (ErrDeliveryTerminal, t)"
  obtains d fs where "t = s\<lparr>fa_faults := fs\<rparr>" "d \<in> set (dd_deliveries s)" "message_matches m d" "finished d"
proof -
  obtain d where d: "external_call (\<lambda>s. (find (message_matches m) (dd_deliveries s), s)) s = (Some (Some d), t)"
    and st: "ed_Status d \<in> {Sent, Delivered, Bounced, Complained}"
    using assms by (auto simp: classifyUnclaimed_def split: prod.splits option.splits if_splits)
  from d show ?thesis
  proof (rule external_call_answered)
    fix fs
    assume f: "(find (message_matches m) (dd_deliveries (s\<lparr>fa_faults := fs\<rparr>)), s\<lparr>fa_faults := fs\<rparr>) = (Some d, t)"
    then have "d \<in> set (dd_deliveries s) \<and> message_matches m d" by (intro find_some) simp
    then show ?thesis using f st by (intro that [of fs d]) (auto simp: finished_def)
  qed
qed

lemma claim_terminal:
  assumes "email_Claim uuid_ok locked m owner now until s = (Inl ErrDeliveryTerminal, t)"
  obtains d fs where "t = s\<lparr>fa_faults := fs\<rparr>" "d \<in> set (dd_deliveries s)" "message_matches m d" "finished d"
proof -
  obtain u where u: "external_call (claim_delivery locked m owner now until) s = (Some None, u)"
    and c: "classifyUnclaimed m now u = (ErrDeliveryTerminal, t)"
    using assms by (auto simp: email_Claim_def split: if_splits prod.splits option.splits)
  from u obtain fs where fs: "claim_delivery locked m owner now until (s\<lparr>fa_faults := fs\<rparr>) = (None, u)" by (rule external_call_answered)
  then have us: "u = s\<lparr>fa_faults := fs\<rparr>" by (auto simp: claim_delivery_def split: option.splits prod.splits)
  from c show ?thesis by (rule classify_terminal) (use us that in auto)
qed

lemma claim_candidateD:
  assumes "claim_candidate locked m now s = Some (d, i, j)"
  shows "d \<in> set (dd_deliveries s)" and "claimable_delivery m now d" and "message_matches m d" and "\<not> finished d"
    and "i \<in> set (dd_invoices s)" and "claimable_invoice d i" and "j \<in> set (dd_jobs s)" and "claimable_job d i j"
  using assms by (auto simp: claim_candidate_def claimable_delivery_def finished_def split: option.splits if_splits dest!: find_some)

definition claim_of :: "email_delivery \<Rightarrow> invoice_row \<Rightarrow> render_job \<Rightarrow> claimed_delivery" where
  "claim_of d i j =
     \<lparr>cd_DeliveryID = ed_ID d, cd_BusinessID = ed_BusinessID d, cd_InvoiceID = iv_ID i, cd_RenderJobID = rj_ID j,
      cd_Recipient = ed_Recipient d, cd_InvoiceNo = (case iv_InvoiceNo i of Some n \<Rightarrow> n | None \<Rightarrow> []),
      cd_InvoiceVersion = iv_Version i, cd_ObjectKey = rj_ObjectKey j, cd_OutputFilename = rj_OutputFilename j\<rparr>"

lemma claim_granted:
  assumes "email_Claim uuid_ok locked m owner now until s = (Inr c, t)"
  obtains d i j fs where "claim_candidate locked m now s = Some (d, i, j)" "c = claim_of d i j"
    "t = s\<lparr>fa_faults := fs, dd_deliveries := map (\<lambda>x. if ed_ID x = ed_ID d then lease_delivery owner until now x else x) (dd_deliveries s)\<rparr>"
proof -
  have "external_call (claim_delivery locked m owner now until) s = (Some (Some c), t)"
    using assms by (auto simp: email_Claim_def split: if_splits prod.splits option.splits)
  then obtain fs where fs: "claim_delivery locked m owner now until (s\<lparr>fa_faults := fs\<rparr>) = (Some c, t)" by (rule external_call_answered)
  have cc: "claim_candidate locked m now (s\<lparr>fa_faults := fs\<rparr>) = claim_candidate locked m now s"
    by (simp add: claim_candidate_def split: option.split)
  obtain d i j where cand: "claim_candidate locked m now s = Some (d, i, j)"
    using fs cc by (auto simp: claim_delivery_def split: option.splits)
  show ?thesis
    by (rule that [OF cand, of fs]) (use fs in \<open>simp_all add: claim_delivery_def claim_of_def update_deliveries_def cc cand\<close>)
qed

lemma updated_in: "x \<in> set xs \<Longrightarrow> p x \<Longrightarrow> f x \<in> set (map (\<lambda>x. if p x then f x else x) xs)"
  by (auto intro: image_eqI [of _ _ x])

lemma verify_effect: "VerifyLease uuid_ok i owner now s = (r, t) \<Longrightarrow> \<exists>fs. t = s\<lparr>fa_faults := fs\<rparr>"
  by (auto simp: VerifyLease_def split: if_splits prod.splits option.splits dest!: read_call intro: exI [of _ "fa_faults s"])

lemma mark_sent_granted:
  assumes "MarkSent uuid_ok i owner mid source subject now s = (None, t)"
  obtains fs d where "d \<in> set (dd_deliveries s)" "leased_to i owner now d"
    "t = s\<lparr>fa_faults := fs, dd_deliveries := map (\<lambda>x. if leased_to i owner now x
       then sent_delivery (TrimSpace mid) (TrimSpace source) (TrimSpace subject) now x else x) (dd_deliveries s)\<rparr>"
proof -
  let ?f = "sent_delivery (TrimSpace mid) (TrimSpace source) (TrimSpace subject) now"
  have "external_call (update_deliveries (leased_to i owner now) ?f) s = (Some 1, t)"
    using assms by (auto simp: MarkSent_def settle_delivery_def split: if_splits prod.splits option.splits)
  then obtain fs where fs: "update_deliveries (leased_to i owner now) ?f (s\<lparr>fa_faults := fs\<rparr>) = (1, t)" by (rule external_call_answered)
  then have "length (filter (leased_to i owner now) (dd_deliveries s)) = 1" by (simp add: update_deliveries_def)
  then obtain d where "filter (leased_to i owner now) (dd_deliveries s) = [d]" by (auto simp: length_Suc_conv)
  then have "d \<in> set (filter (leased_to i owner now) (dd_deliveries s))" by simp
  then show ?thesis using fs by (intro that [of d fs]) (auto simp: update_deliveries_def)
qed

section \<open>Acknowledged messages\<close>

text \<open>The mail that a claim ends in, and the evidence that it is the right one.\<close>

definition mailed :: "email_env \<Rightarrow> email_worker \<Rightarrow> delivery_message \<Rightarrow> email_delivery \<Rightarrow> mail \<Rightarrow> bool" where
  "mailed env w m d x \<longleftrightarrow>
     (\<exists>c pdf. downloadPDF env w (final_object_key (dm_BusinessID m) (dm_InvoiceID m) (cd_InvoiceVersion c)) = Inr pdf \<and>
        BuildRawMessage (ee_lib env) (raw_message_of w c pdf) (ee_random env) = Inr (ml_Raw x) \<and> cd_Recipient c = ed_Recipient d \<and>
        ml_Source x = ew_senderEmail w \<and> ml_Destination x = ed_Recipient d \<and> ml_ConfigurationSet x = ew_configurationSet w \<and>
        ml_DeliveryID x = ed_ID d \<and> ml_BusinessID x = ed_BusinessID d)"

lemma sent_and_recorded:
  assumes "send_and_record env w m owner c raw now s = (None, t)"
  obtains fs d mid where "d \<in> set (dd_deliveries s)" "leased_to (dm_DeliveryID m) owner now d"
    "sent_delivery (TrimSpace mid) (TrimSpace (ew_senderEmail w)) (TrimSpace (''Invoice '' @ TrimSpace (cd_InvoiceNo c))) now d \<in> set (dd_deliveries t)"
    "dd_mail t = dd_mail s @ [\<lparr>ml_Source = ew_senderEmail w, ml_Destination = cd_Recipient c, ml_ConfigurationSet = ew_configurationSet w,
         ml_Raw = raw, ml_DeliveryID = dm_DeliveryID m, ml_BusinessID = dm_BusinessID m\<rparr>]"
proof -
  have nf: "failClaim env x o' e n u \<noteq> (None, t)" for x o' e n u by (auto simp: failClaim_def split: prod.splits option.splits)
  obtain mid u where send: "SendRawEmail env w m c raw s = (Some (Some mid), u)"
    and mark: "MarkSent (ee_uuid_ok env) (dm_DeliveryID m) owner (TrimSpace mid) (ew_senderEmail w) (''Invoice '' @ TrimSpace (cd_InvoiceNo c)) now u = (None, t)"
    using assms nf by (auto simp: send_and_record_def split: prod.splits option.splits if_splits)
  obtain fs where u: "u = s\<lparr>fa_faults := fs, dd_mail := dd_mail s @ [\<lparr>ml_Source = ew_senderEmail w, ml_Destination = cd_Recipient c,
      ml_ConfigurationSet = ew_configurationSet w, ml_Raw = raw, ml_DeliveryID = dm_DeliveryID m, ml_BusinessID = dm_BusinessID m\<rparr>]\<rparr>"
    using send unfolding SendRawEmail_def by (rule external_call_answered) auto
  from mark show ?thesis
  proof (rule mark_sent_granted)
    fix gs d
    let ?f = "sent_delivery (TrimSpace (TrimSpace mid)) (TrimSpace (ew_senderEmail w)) (TrimSpace (''Invoice '' @ TrimSpace (cd_InvoiceNo c))) now"
    assume d: "d \<in> set (dd_deliveries u)" "leased_to (dm_DeliveryID m) owner now d"
      and t: "t = u\<lparr>fa_faults := gs, dd_deliveries := map (\<lambda>x. if leased_to (dm_DeliveryID m) owner now x then ?f x else x) (dd_deliveries u)\<rparr>"
    have "?f d \<in> set (dd_deliveries t)" using d t by (auto intro!: image_eqI [of _ _ d])
    then show ?thesis using d t u by (intro that [of d mid]) auto
  qed
qed

lemma process_acknowledged:
  assumes "email_Process env w clock m owner s = (None, t)" and "distinct (map ed_ID (dd_deliveries s))"
  shows "\<exists>d \<in> set (dd_deliveries t). message_matches m d \<and> finished d \<and>
    (dd_mail t = dd_mail s \<or> (\<exists>x. dd_mail t = dd_mail s @ [x] \<and> mailed env w m d x \<and> ed_Status d = Sent))"
proof -
  let ?own = "TrimSpace owner" and ?until = "clock 0 + deliveryLeaseDuration"
  have nf: "failClaim env x o' e n u \<noteq> (None, t)" for x o' e n u by (auto simp: failClaim_def split: prod.splits option.splits)
  obtain rc u where claim: "email_Claim (ee_uuid_ok env) (ee_locked env) m ?own (clock 0) ?until s = (rc, u)" by fastforce
  have v: "validateDeliveryMessage (ee_uuid_ok env) m owner" using assms(1) by (auto simp: email_Process_def split: if_splits)
  show ?thesis
  proof (cases rc)
    case (Inl e)
    then have "e = ErrDeliveryTerminal" "t = u"
      using assms(1) v claim by (auto simp: email_Process_def split: delivery_error.splits)
    then have "email_Claim (ee_uuid_ok env) (ee_locked env) m ?own (clock 0) ?until s = (Inl ErrDeliveryTerminal, t)" using claim Inl by simp
    then show ?thesis by (rule claim_terminal) auto
  next
    case (Inr c)
    have vc: "validateClaim m c" using assms(1) v claim Inr nf by (auto simp: email_Process_def split: if_splits)
    obtain pdf where pdf: "downloadPDF env w (cd_ObjectKey c) = Inr pdf"
      using assms(1) v claim Inr vc nf by (auto simp: email_Process_def split: sum.splits)
    obtain raw where raw: "BuildRawMessage (ee_lib env) (raw_message_of w c pdf) (ee_random env) = Inr raw"
      using assms(1) v claim Inr vc pdf nf by (auto simp: email_Process_def split: sum.splits)
    obtain x where ver: "VerifyLease (ee_uuid_ok env) (dm_DeliveryID m) owner (clock 1) u = (None, x)"
      and rec: "send_and_record env w m owner c raw (clock 2) x = (None, t)"
      using assms(1) v claim Inr vc pdf raw by (auto simp: email_Process_def split: prod.splits option.splits)
    obtain fs where x: "x = u\<lparr>fa_faults := fs\<rparr>" using verify_effect [OF ver] by blast
    have cl: "email_Claim (ee_uuid_ok env) (ee_locked env) m ?own (clock 0) ?until s = (Inr c, u)" using claim Inr by simp
    from cl obtain d i j gs where cand: "claim_candidate (ee_locked env) m (clock 0) s = Some (d, i, j)" and c: "c = claim_of d i j"
      and u: "u = s\<lparr>fa_faults := gs, dd_deliveries := map (\<lambda>x. if ed_ID x = ed_ID d then lease_delivery ?own ?until (clock 0) x else x) (dd_deliveries s)\<rparr>"
      by (rule claim_granted)
    note cd = claim_candidateD [OF cand]
    from rec show ?thesis
    proof (rule sent_and_recorded)
      fix e mid
      let ?e = "sent_delivery (TrimSpace mid) (TrimSpace (ew_senderEmail w)) (TrimSpace (''Invoice '' @ TrimSpace (cd_InvoiceNo c))) (clock 2) e"
      let ?mail = "\<lparr>ml_Source = ew_senderEmail w, ml_Destination = cd_Recipient c, ml_ConfigurationSet = ew_configurationSet w,
         ml_Raw = raw, ml_DeliveryID = dm_DeliveryID m, ml_BusinessID = dm_BusinessID m\<rparr>"
      assume e: "e \<in> set (dd_deliveries x)" "leased_to (dm_DeliveryID m) owner (clock 2) e" and t: "?e \<in> set (dd_deliveries t)"
        and mail: "dd_mail t = dd_mail x @ [?mail]"
      have "ed_ID e = ed_ID d" using e(2) cd(3) by (simp add: leased_to_def message_matches_def)
      moreover obtain y where y: "y \<in> set (dd_deliveries s)" "ed_ID y = ed_ID e" "same_delivery e y"
        using e(1) x u by (auto simp: same_delivery_updates(1) lease_delivery_def same_delivery_def)
      ultimately have "y = d" using cd(1) assms(2) by (metis distinct_map inj_onD)
      then have same: "same_delivery ?e d" using y(3) same_delivery_trans same_delivery_updates(2) by blast
      have "message_matches m ?e" using same cd(3) by (auto simp: message_matches_def same_delivery_def)
      moreover have "finished ?e" "ed_Status ?e = Sent" by (simp_all add: finished_def sent_delivery_def)
      moreover have "mailed env w m ?e ?mail"
        using pdf raw vc same cd(3) c unfolding mailed_def
        by (intro exI [of _ c] exI [of _ pdf]) (auto simp: validateClaim_def claim_of_def same_delivery_def message_matches_def)
      moreover have "dd_mail x = dd_mail s" using x u by simp
      ultimately show ?thesis using t mail by auto
    qed
  qed
qed

section \<open>Finished deliveries\<close>

text \<open>A claim that meets a finished delivery is not granted, and a worker that got no claim changes nothing.\<close>

lemma finished_not_claimed:
  assumes "email_Claim uuid_ok locked m owner now until s = (r, t)" and "d \<in> set (dd_deliveries s)" and "finished d"
    and "ed_ID d = dm_DeliveryID m" and "distinct (map ed_ID (dd_deliveries s))"
  shows "(\<exists>e. r = Inl e) \<and> (\<exists>fs. t = s\<lparr>fa_faults := fs\<rparr>)"
proof -
  have no: "claim_candidate locked m now (s\<lparr>fa_faults := fs\<rparr>) = None" for fs
  proof (rule ccontr)
    assume "claim_candidate locked m now (s\<lparr>fa_faults := fs\<rparr>) \<noteq> None"
    then obtain x i j where x: "claim_candidate locked m now (s\<lparr>fa_faults := fs\<rparr>) = Some (x, i, j)" by auto
    then have "x \<in> set (dd_deliveries s)" "ed_ID x = ed_ID d" "\<not> finished x"
      using claim_candidateD(1,3,4) [OF x] assms(4) by (auto simp: message_matches_def)
    then show False using assms(2,3,5) by (metis distinct_map inj_onD)
  qed
  show ?thesis
  proof (cases "validateEmailDeliveryLeaseInput uuid_ok (dm_DeliveryID m) owner now \<and> until > now")
    case False
    then have "t = s\<lparr>fa_faults := fa_faults s\<rparr> \<and> (\<exists>e. r = Inl e)" using assms(1) by (auto simp: email_Claim_def split: if_splits)
    then show ?thesis by blast
  next
    case True
    obtain q u where q: "external_call (claim_delivery locked m owner now until) s = (q, u)" by fastforce
    have qu: "(\<exists>fs. u = s\<lparr>fa_faults := fs\<rparr>) \<and> (q = None \<or> q = Some None)"
      using q no by (cases rule: external_call_effect) (auto simp: claim_delivery_def)
    obtain e v where v: "classifyUnclaimed m now u = (e, v)" by fastforce
    then have "\<exists>fs. v = u\<lparr>fa_faults := fs\<rparr>" by (auto simp: classifyUnclaimed_def split: prod.splits option.splits dest!: read_call)
    then show ?thesis using assms(1) True q qu v by (auto simp: email_Claim_def)
  qed
qed

lemma finished_not_mailed:
  assumes "email_Process env w clock m owner s = (r, t)" and "d \<in> set (dd_deliveries s)" and "finished d"
    and "ed_ID d = dm_DeliveryID m" and "distinct (map ed_ID (dd_deliveries s))"
  shows "\<exists>fs. t = s\<lparr>fa_faults := fs\<rparr>"
proof (cases "validateDeliveryMessage (ee_uuid_ok env) m owner")
  case False
  then have "t = s\<lparr>fa_faults := fa_faults s\<rparr>" using assms(1) by (simp add: email_Process_def)
  then show ?thesis by blast
next
  case True
  obtain rc u where claim: "email_Claim (ee_uuid_ok env) (ee_locked env) m (TrimSpace owner) (clock 0) (clock 0 + deliveryLeaseDuration) s = (rc, u)"
    by fastforce
  from finished_not_claimed [OF claim assms(2-5)] obtain e fs where e: "rc = Inl e" "u = s\<lparr>fa_faults := fs\<rparr>" by blast
  then have "t = u" using assms(1) True claim by (auto simp: email_Process_def split: delivery_error.splits)
  then show ?thesis using e by blast
qed

section \<open>Sending\<close>

text \<open>With no fault, an answer of the mail service and time left on the lease, a claimable delivery is sent and recorded.\<close>

lemma delivery_sent:
  assumes "fa_faults s = []" and dist: "distinct (map ed_ID (dd_deliveries s))" and valid: "validateDeliveryMessage (ee_uuid_ok env) m owner"
    and own: "TrimSpace owner = owner" "length owner \<le> 255"
    and clock: "\<And>n. clock n \<noteq> zero_time" "clock 1 < clock 0 + deliveryLeaseDuration" "clock 2 < clock 0 + deliveryLeaseDuration"
    and cand: "claim_candidate (ee_locked env) m (clock 0) s = Some (d, i, j)" and vc: "validateClaim m (claim_of d i j)"
    and pdf: "downloadPDF env w (rj_ObjectKey j) = Inr pdf"
    and raw: "BuildRawMessage (ee_lib env) (raw_message_of w (claim_of d i j) pdf) (ee_random env) = Inr raw"
    and ses: "ee_ses env = Some mid" "TrimSpace mid \<noteq> []" and sender: "TrimSpace (ew_senderEmail w) \<noteq> []"
  shows "\<exists>t d'. email_Process env w clock m owner s = (None, t) \<and> d' \<in> set (dd_deliveries t) \<and> same_delivery d' d \<and>
    ed_Status d' = Sent \<and> ed_ProviderMessageID d' = TrimSpace mid \<and> length (dd_mail t) = Suc (length (dd_mail s))"
proof -
  let ?until = "clock 0 + deliveryLeaseDuration" and ?c = "claim_of d i j"
  let ?lease = "lease_delivery owner ?until (clock 0)"
  let ?s1 = "s\<lparr>dd_deliveries := map (\<lambda>x. if ed_ID x = ed_ID d then ?lease x else x) (dd_deliveries s)\<rparr>"
  note cd = claim_candidateD [OF cand]
  have id: "ed_ID d = dm_DeliveryID m" "\<not> ed_Deleted d" using cd(3) by (simp_all add: message_matches_def)
  have input: "validateEmailDeliveryLeaseInput (ee_uuid_ok env) (dm_DeliveryID m) owner (clock n)" for n
    using valid own clock(1) [of n] by (simp add: validateEmailDeliveryLeaseInput_def validateDeliveryMessage_def validUUID_def)
  have claim: "email_Claim (ee_uuid_ok env) (ee_locked env) m (TrimSpace owner) (clock 0) ?until s = (Inr ?c, ?s1)"
    using assms(1) cand input [of 0] own(1)
    by (simp add: email_Claim_def call_without_faults claim_delivery_def claim_of_def update_deliveries_def deliveryLeaseDuration_def nsPerMinute_def nsPerSecond_def)
  have leased: "leased_to (dm_DeliveryID m) owner (clock n) (?lease d)" if "clock n < ?until" for n
    using that id by (simp add: leased_to_def lease_delivery_def after_opt_def)
  have dist1: "distinct (map ed_ID (dd_deliveries ?s1))"
    using dist by (simp add: lease_delivery_def comp_def if_distrib cong: if_cong)
  have in1: "?lease d \<in> set (dd_deliveries ?s1)" using cd(1) by (auto intro!: image_eqI [of _ _ d])
  have only: "filter (leased_to (dm_DeliveryID m) owner (clock n)) (dd_deliveries ?s1) = [?lease d]" if "clock n < ?until" for n
    by (rule filter_unique [OF dist1 in1]) (use leased [OF that] id in \<open>auto simp: leased_to_def lease_delivery_def\<close>)
  have verify: "VerifyLease (ee_uuid_ok env) (dm_DeliveryID m) owner (clock 1) ?s1 = (None, ?s1)"
    using assms(1) input [of 1] only [OF clock(2)] by (simp add: VerifyLease_def call_without_faults)
  let ?mail = "\<lparr>ml_Source = ew_senderEmail w, ml_Destination = cd_Recipient ?c, ml_ConfigurationSet = ew_configurationSet w,
         ml_Raw = raw, ml_DeliveryID = dm_DeliveryID m, ml_BusinessID = dm_BusinessID m\<rparr>"
  let ?s2 = "?s1\<lparr>dd_mail := dd_mail s @ [?mail]\<rparr>"
  have send: "SendRawEmail env w m ?c raw ?s1 = (Some (Some mid), ?s2)"
    using assms(1) ses by (simp add: SendRawEmail_def call_without_faults)
  let ?subject = "''Invoice '' @ TrimSpace (cd_InvoiceNo ?c)"
  let ?sent = "sent_delivery (TrimSpace (TrimSpace mid)) (TrimSpace (ew_senderEmail w)) (TrimSpace ?subject) (clock 2)"
  let ?t = "?s2\<lparr>dd_deliveries := map (\<lambda>x. if leased_to (dm_DeliveryID m) owner (clock 2) x then ?sent x else x) (dd_deliveries ?s1)\<rparr>"
  have subject: "TrimSpace ?subject \<noteq> []"
    by (simp add: TrimSpace_def is_space_def dropWhile_append dropWhile_eq_Nil_conv)
  have mark: "MarkSent (ee_uuid_ok env) (dm_DeliveryID m) owner (TrimSpace mid) (ew_senderEmail w) ?subject (clock 2) ?s2 = (None, ?t)"
    using assms(1) input [of 2] only [OF clock(3)] subject ses(2) sender
    by (simp add: MarkSent_def settle_delivery_def call_without_faults update_deliveries_def)
  have "email_Process env w clock m owner s = (None, ?t)"
    using valid claim vc pdf raw verify send mark ses(2)
    by (simp add: email_Process_def send_and_record_def claim_of_def)
  moreover have "?sent (?lease d) \<in> set (dd_deliveries ?t)"
    using updated_in [OF in1, of "leased_to (dm_DeliveryID m) owner (clock 2)" ?sent] leased [OF clock(3)] by simp
  moreover have "same_delivery (?sent (?lease d)) d" using same_delivery_trans same_delivery_updates(1,2) by blast
  ultimately show ?thesis by (intro exI [of _ ?t] exI [of _ "?sent (?lease d)"]) (simp add: sent_delivery_def)
qed

section \<open>The worker as a run\<close>

lemma fail_claim_run:
  assumes "failClaim env i owner e now s = (r, t)"
  shows "(delivery_step (ee_uuid_ok env))\<^sup>*\<^sup>* s t"
proof -
  obtain q where "delivery_MarkFailed (ee_uuid_ok env) i owner (take 1000 (TrimSpace (failure_text e))) now s = (q, t)"
    using assms by (auto simp: failClaim_def split: prod.splits option.splits)
  then show ?thesis by (intro r_into_rtranclp) (rule delivery_step.mark_failed)
qed

lemma send_and_record_run:
  assumes "send_and_record env w m owner c raw now s = (r, t)"
  shows "(delivery_step (ee_uuid_ok env))\<^sup>*\<^sup>* s t"
proof -
  obtain q u where q: "SendRawEmail env w m c raw s = (q, u)" by fastforce
  have first: "delivery_step (ee_uuid_ok env) s u" by (rule delivery_step.send [OF q])
  have rest: "(delivery_step (ee_uuid_ok env))\<^sup>*\<^sup>* u t"
  proof (cases "\<exists>i o' e n. failClaim env i o' e n u = (r, t)")
    case True
    then show ?thesis using fail_claim_run by blast
  next
    case False
    then obtain mid x where "MarkSent (ee_uuid_ok env) (dm_DeliveryID m) owner (TrimSpace mid) (ew_senderEmail w)
        (''Invoice '' @ TrimSpace (cd_InvoiceNo c)) now u = (x, t)"
      using assms q by (auto simp: send_and_record_def split: option.splits if_splits prod.splits)
    then show ?thesis by (intro r_into_rtranclp) (rule delivery_step.mark_sent)
  qed
  show ?thesis using first rest by (rule converse_rtranclp_into_rtranclp)
qed

lemma process_is_run:
  assumes "email_Process env w clock m owner s = (r, t)"
  shows "(delivery_step (ee_uuid_ok env))\<^sup>*\<^sup>* s t"
proof (cases "validateDeliveryMessage (ee_uuid_ok env) m owner")
  case False
  then show ?thesis using assms by (simp add: email_Process_def)
next
  case True
  let ?step = "delivery_step (ee_uuid_ok env)"
  obtain rc u where claim: "email_Claim (ee_uuid_ok env) (ee_locked env) m (TrimSpace owner) (clock 0) (clock 0 + deliveryLeaseDuration) s = (rc, u)"
    by fastforce
  have first: "?step s u" by (rule delivery_step.claim [OF claim])
  have rest: "?step\<^sup>*\<^sup>* u t"
  proof (cases rc)
    case (Inl e)
    then have "t = u" using assms True claim by (auto simp: email_Process_def split: delivery_error.splits)
    then show ?thesis by simp
  next
    case (Inr c)
    show ?thesis
    proof (cases "\<exists>i o' e n. failClaim env i o' e n u = (r, t)")
      case True
      then show ?thesis using fail_claim_run by blast
    next
      case False
      then obtain pdf raw where "validateClaim m c" "downloadPDF env w (cd_ObjectKey c) = Inr pdf"
        "BuildRawMessage (ee_lib env) (raw_message_of w c pdf) (ee_random env) = Inr raw"
        using assms True claim Inr by (auto simp: email_Process_def split: if_splits sum.splits)
      then obtain q x where ver: "VerifyLease (ee_uuid_ok env) (dm_DeliveryID m) owner (clock 1) u = (q, x)"
        and alt: "t = x \<or> send_and_record env w m owner c raw (clock 2) x = (r, t)"
        using assms True claim Inr by (auto simp: email_Process_def split: prod.splits option.splits)
      have "?step u x" by (rule delivery_step.verify [OF ver])
      then show ?thesis using alt send_and_record_run by (metis converse_rtranclp_into_rtranclp r_into_rtranclp)
    qed
  qed
  show ?thesis using first rest by (rule converse_rtranclp_into_rtranclp)
qed

end
