(* ===== verification/Delivery_Requests.thy ===== *)
theory Delivery_Requests
  imports Delivery_Messages
begin

text \<open>
  Requests for a delivery are idempotent. A key, once claimed, is completed in the same
  transaction and never changes; whatever happens in between, repeating the request gives the delivery
  that the first one created, and the same key with another request is a conflict.
\<close>

section \<open>Keys\<close>

definition key_id :: "idempotency_key \<Rightarrow> string \<times> string \<times> string" where
  "key_id k = (ik_BusinessID k, ik_Command k, ik_IdempotencyKey k)"

text \<open>The delivery a completed key names.\<close>

definition key_ok :: "delivery_db \<Rightarrow> idempotency_key \<Rightarrow> bool" where
  "key_ok s k \<longleftrightarrow>
     ik_Completed k \<and> ik_ResultType k = Some ''invoice_delivery'' \<and>
     (\<exists>d \<in> set (dd_deliveries s). ik_ResultID k = Some (ed_ID d) \<and> ed_BusinessID d = ik_BusinessID k)"

definition keys_inv :: "delivery_db \<Rightarrow> bool" where
  "keys_inv s \<longleftrightarrow> delivery_inv s \<and> distinct (map key_id (dd_keys s)) \<and> (\<forall>k \<in> set (dd_keys s). key_ok s k)"

definition keeps_keys :: "delivery_db \<Rightarrow> delivery_db \<Rightarrow> bool" where
  "keeps_keys s t \<longleftrightarrow> carries_on s t \<and> set (dd_keys s) \<subseteq> set (dd_keys t)"

lemma key_matches_id: "key_matches c k \<longleftrightarrow> key_id k = (dc_BusinessID c, dc_Command c, dc_IdempotencyKey c)"
  by (auto simp: key_matches_def key_id_def)

lemma key_ok_carried:
  assumes "carries_on s t" and "key_ok s k"
  shows "key_ok t k"
proof -
  obtain d where d: "d \<in> set (dd_deliveries s)" "ik_ResultID k = Some (ed_ID d)" "ed_BusinessID d = ik_BusinessID k"
    using assms(2) by (auto simp: key_ok_def)
  then obtain e where "e \<in> set (dd_deliveries t)" "same_delivery e d" using assms(1) by (auto simp: carries_on_def)
  then have "ik_ResultID k = Some (ed_ID e) \<and> ed_BusinessID e = ik_BusinessID k" using d by (simp add: same_delivery_def)
  then show ?thesis using assms(2) \<open>e \<in> set (dd_deliveries t)\<close> unfolding key_ok_def by blast
qed

lemma keys_inv_carried:
  assumes "keys_inv s" and "delivery_inv t" and "carries_on s t" and "dd_keys t = dd_keys s"
  shows "keys_inv t"
  using assms key_ok_carried [OF assms(3)] by (simp add: keys_inv_def)

section \<open>The effect of a request\<close>

definition done_key :: "delivery_command \<Rightarrow> string \<Rightarrow> idempotency_key" where
  "done_key c deliveryID = (claim_key c)\<lparr>ik_Completed := True, ik_ResultType := Some ''invoice_delivery'', ik_ResultID := Some deliveryID\<rparr>"

text \<open>The row of a request that is not a replay.\<close>

definition created :: "delivery_command \<Rightarrow> string \<Rightarrow> email_delivery \<Rightarrow> bool" where
  "created c deliveryID d \<longleftrightarrow>
     ed_ID d = deliveryID \<and> ed_BusinessID d = dc_BusinessID c \<and> ed_InvoiceID d = Some (dc_InvoiceID c) \<and> ed_Recipient d = dc_Recipient c \<and>
     ed_RenderJobID d \<noteq> None \<and> \<not> ed_Deleted d"

lemma fresh_request:
  assumes "create_delivery_tx c deliveryID eventID now s = (Inr r, t)" and "\<not> (\<exists>k \<in> set (dd_keys s). key_matches c k)"
  shows "dd_keys t = dd_keys s @ [done_key c deliveryID]" and "\<not> dr_Replayed r" and "created c deliveryID (dr_Delivery r)"
    and "dd_deliveries t = dd_deliveries s @ [dr_Delivery r]"
proof -
  obtain j where j: "latest_final_job (dc_BusinessID c) (dc_InvoiceID c) (dd_jobs s) = Some j"
    using assms by (auto simp: create_delivery_tx_def Let_def split: option.splits)
  obtain st where st: "start_status j = Inr st"
    using assms j by (auto simp: create_delivery_tx_def Let_def split: option.splits if_splits sum.splits)
  let ?d = "new_delivery c deliveryID (rj_ID j) st now"
  have ins: "insert_delivery c ?d eventID now (s\<lparr>dd_keys := dd_keys s @ [claim_key c]\<rparr>) = (Inr r, t)"
    using assms j st by (auto simp: create_delivery_tx_def Let_def split: option.splits if_splits)
  let ?claimed = "\<lambda>k. key_matches c k \<and> ik_RequestHash k = dc_RequestHash c \<and> \<not> ik_Completed k"
  have same: "map (\<lambda>k. if ?claimed k then f k else k) (dd_keys s) = dd_keys s" for f
    using assms(2) by (intro map_idI) auto
  have own: "?claimed (claim_key c)" "ed_ID ?d = deliveryID" by (simp_all add: key_matches_def claim_key_def new_delivery_def)
  show "dd_keys t = dd_keys s @ [done_key c deliveryID]"
    using ins same own by (auto simp: insert_delivery_def Let_def done_key_def split: if_splits)
  show "\<not> dr_Replayed r" "created c deliveryID (dr_Delivery r)" "dd_deliveries t = dd_deliveries s @ [dr_Delivery r]"
    using ins by (auto simp: insert_delivery_def Let_def created_def new_delivery_def split: if_splits)
qed

lemma request_keys_inv:
  assumes "CreateDeliveryAtomic uuid_ok c deliveryID eventID now s = (r, t)" and "canonical_uuid deliveryID" and "canonical_uuid eventID"
    and "deliveryID \<notin> ed_ID ` set (dd_deliveries s)" and "keys_inv s"
  shows "keys_inv t \<and> set (dd_keys s) \<subseteq> set (dd_keys t)"
proof -
  have inv: "delivery_inv t" using request_inv [OF assms(1-4)] assms(5) by (simp add: keys_inv_def)
  have car: "carries_on s t" by (rule request_carries_on [OF assms(1)])
  have unchanged: ?thesis if "dd_keys t = dd_keys s" using that keys_inv_carried [OF assms(5) inv car] by simp
  show ?thesis
  proof (cases "validateAtomicInvoiceDelivery uuid_ok c")
    case False
    then show ?thesis using assms unchanged by (simp add: CreateDeliveryAtomic_def)
  next
    case True
    then have "transaction (create_delivery_tx c deliveryID eventID now) s = (r, t)" using assms(1) by (simp add: CreateDeliveryAtomic_def)
    then show ?thesis
    proof (cases rule: transaction_effect)
      case (1 fs e)
      then show ?thesis using unchanged by simp
    next
      case (2 fs a)
      show ?thesis
      proof (cases "\<exists>k \<in> set (dd_keys s). key_matches c k")
        case True
        then have "dd_keys t = dd_keys s" using 2(1) by (auto simp: create_delivery_tx_def)
        then show ?thesis using unchanged by simp
      next
        case False
        then have new: "\<not> (\<exists>k \<in> set (dd_keys (s\<lparr>fa_faults := fs\<rparr>)). key_matches c k)" by simp
        note f = fresh_request [OF 2(1) new]
        have "key_ok t (done_key c deliveryID)"
          using f(3,4) by (auto simp: key_ok_def done_key_def claim_key_def created_def)
        moreover have "key_id (done_key c deliveryID) \<notin> key_id ` set (dd_keys s)"
          using False by (auto simp: key_matches_id done_key_def claim_key_def key_id_def)
        ultimately show ?thesis
          using f(1) inv assms(5) key_ok_carried [OF car] by (auto simp: keys_inv_def)
      qed
    qed
  qed
qed

section \<open>Runs\<close>

lemma complete_render_keys:
  assumes "CompleteFinalRender businessID invoiceID jobID v owner objectKey filename eventIDs now s = (r, t)"
  shows "dd_keys t = dd_keys s"
proof (cases "businessID = [] \<or> invoiceID = [] \<or> jobID = [] \<or> v < 1 \<or> \<not> validRenderLeaseOwner owner \<or> objectKey = [] \<or> filename = []")
  case True
  then show ?thesis using assms by (simp add: CompleteFinalRender_def)
next
  case False
  then have "transaction (complete_render_tx businessID invoiceID jobID v owner objectKey filename eventIDs now) s = (r, t)"
    using assms by (simp add: CompleteFinalRender_def)
  then show ?thesis
  proof (cases rule: transaction_effect)
    case (2 fs a)
    from 2(1) show ?thesis by (cases rule: complete_render_effect) simp
  qed simp
qed

lemma rows_changed_keys: "rows_changed s t \<Longrightarrow> dd_keys t = dd_keys s"
  by (simp add: rows_changed_def same_but_deliveries_def)

lemma jobs_changed_keys: "jobs_changed s t \<Longrightarrow> dd_keys t = dd_keys s"
  by (simp add: jobs_changed_def)

lemma other_steps_keep_keys:
  assumes "delivery_step uuid_ok s t" and "delivery_inv s"
  shows "dd_keys t = dd_keys s \<or> (\<exists>c deliveryID eventID now r. canonical_uuid deliveryID \<and> canonical_uuid eventID \<and>
    deliveryID \<notin> ed_ID ` set (dd_deliveries s) \<and> CreateDeliveryAtomic uuid_ok c deliveryID eventID now s = (r, t))"
  using assms
proof (induction rule: delivery_step.induct)
  case (request deliveryID s eventID c now r t)
  then show ?case by blast
next
  case (claim locked m owner now until s rcl t)
  then have "distinct (map ed_ID (dd_deliveries s))" by (simp add: delivery_inv_def)
  from claim_rows_changed [OF claim.hyps this] show ?case using rows_changed_keys by blast
next
  case (complete_render eventIDs businessID invoiceID jobID v owner objectKey filename now s rb t)
  then show ?case using complete_render_keys by blast
qed (simp_all add: set_invoice_status_def rows_changed_keys [OF verify_rows_changed] rows_changed_keys [OF send_rows_changed]
  rows_changed_keys [OF mark_sent_rows_changed] rows_changed_keys [OF mark_failed_rows_changed] rows_changed_keys [OF feedback_rows_changed]
  jobs_changed_keys [OF claim_render_changed] jobs_changed_keys [OF fail_render_changed])

lemma step_keeps_keys:
  assumes "delivery_step uuid_ok s t" and "keys_inv s"
  shows "keys_inv t" and "keeps_keys s t"
proof -
  have inv: "delivery_inv s" using assms(2) by (simp add: keys_inv_def)
  have car: "carries_on s t" by (rule step_carries_on [OF assms(1) inv])
  have "keys_inv t \<and> set (dd_keys s) \<subseteq> set (dd_keys t)"
    using other_steps_keep_keys [OF assms(1) inv]
  proof
    assume "dd_keys t = dd_keys s"
    then show ?thesis using keys_inv_carried [OF assms(2) delivery_inv_step [OF assms(1) inv] car] by simp
  next
    assume "\<exists>c deliveryID eventID now r. canonical_uuid deliveryID \<and> canonical_uuid eventID \<and>
      deliveryID \<notin> ed_ID ` set (dd_deliveries s) \<and> CreateDeliveryAtomic uuid_ok c deliveryID eventID now s = (r, t)"
    then show ?thesis using request_keys_inv assms(2) by blast
  qed
  then show "keys_inv t" and "keeps_keys s t" using car by (simp_all add: keeps_keys_def)
qed

lemma keeps_keys_trans: "keeps_keys s t \<Longrightarrow> keeps_keys t u \<Longrightarrow> keeps_keys s u"
  unfolding keeps_keys_def using carries_on_trans by blast

interpretation requests: step_system "delivery_step uuid_ok" keys_inv keeps_keys for uuid_ok
proof unfold_locales
  show "keeps_keys s s" for s by (simp add: keeps_keys_def)
  show "keeps_keys s t \<Longrightarrow> keeps_keys t u \<Longrightarrow> keeps_keys s u" for s t u by (rule keeps_keys_trans)
qed (blast intro: step_keeps_keys)+

lemma keys_inv_reachable: "delivery_reachable uuid_ok s \<Longrightarrow> keys_inv s"
proof (induction rule: delivery_reachable.induct)
  case (init fs)
  have "delivery_inv (empty_db fs)" by (rule delivery_inv_reachable [OF delivery_reachable.init])
  then show ?case by (simp add: keys_inv_def empty_db_def)
qed (blast intro: step_keeps_keys)

section \<open>Repeated requests\<close>

text \<open>Two commands with the same idempotency key.\<close>

definition same_key :: "delivery_command \<Rightarrow> delivery_command \<Rightarrow> bool" where
  "same_key c e \<longleftrightarrow> dc_BusinessID c = dc_BusinessID e \<and> dc_Command c = dc_Command e \<and> dc_IdempotencyKey c = dc_IdempotencyKey e"

lemma find_key:
  assumes "keys_inv s" and "done_key c deliveryID \<in> set (dd_keys s)" and "same_key c e"
  shows "find (key_matches e) (dd_keys s) = Some (done_key c deliveryID)"
proof -
  let ?k = "done_key c deliveryID"
  have m: "key_matches e ?k" using assms(3) by (simp add: key_matches_def done_key_def claim_key_def same_key_def)
  then obtain k where k: "find (key_matches e) (dd_keys s) = Some k" using assms(2) by (metis find_None_iff option.exhaust)
  then have "k \<in> set (dd_keys s)" "key_id k = key_id ?k" using m find_some [OF k] by (auto simp: key_matches_id)
  then have "k = ?k" using assms(1,2) by (meson distinct_map inj_onD keys_inv_def)
  then show ?thesis using k by simp
qed

lemma repeated_request:
  assumes "keys_inv s" and "done_key c deliveryID \<in> set (dd_keys s)" and "d \<in> set (dd_deliveries s)" and "created c deliveryID d"
    and "same_key c e" and "validateAtomicInvoiceDelivery uuid_ok e" and "fa_faults s = []"
  shows "dc_RequestHash e \<noteq> dc_RequestHash c \<Longrightarrow> CreateDeliveryAtomic uuid_ok e deliveryID' eventID' now' s = (Inl DConflict, s)"
    and "dc_RequestHash e = dc_RequestHash c \<Longrightarrow> dc_InvoiceID e = dc_InvoiceID c \<Longrightarrow> dc_Recipient e = dc_Recipient c \<Longrightarrow>
      CreateDeliveryAtomic uuid_ok e deliveryID' eventID' now' s = (Inr \<lparr>dr_Delivery = d, dr_OutboxEvent = None, dr_Replayed = True\<rparr>, s)"
proof -
  note k = find_key [OF assms(1,2,5)]
  have ex: "\<exists>k \<in> set (dd_keys s). key_matches e k" using find_some [OF k] by blast
  have call: "CreateDeliveryAtomic uuid_ok e deliveryID' eventID' now' s = (replayInvoiceDelivery e s, s)"
    using assms(6,7) ex
    by (simp add: CreateDeliveryAtomic_def transaction_def call_without_faults create_delivery_tx_def split: sum.split)
  show "dc_RequestHash e \<noteq> dc_RequestHash c \<Longrightarrow> CreateDeliveryAtomic uuid_ok e deliveryID' eventID' now' s = (Inl DConflict, s)"
    using k by (simp add: call replayInvoiceDelivery_def done_key_def claim_key_def)
  assume same: "dc_RequestHash e = dc_RequestHash c" "dc_InvoiceID e = dc_InvoiceID c" "dc_Recipient e = dc_Recipient c"
  let ?p = "delivery_matches deliveryID (dc_BusinessID e) (dc_InvoiceID e)"
  have dm: "?p d" using assms(4,5) same by (auto simp: delivery_matches_def created_def same_key_def)
  then obtain x where x: "find ?p (dd_deliveries s) = Some x" using assms(3) by (metis find_None_iff option.exhaust)
  then have "x \<in> set (dd_deliveries s)" "ed_ID x = ed_ID d" using find_some [OF x] dm by (auto simp: delivery_matches_def)
  then have "x = d" using assms(1,3) by (metis delivery_inv_def distinct_map inj_onD keys_inv_def)
  then show "CreateDeliveryAtomic uuid_ok e deliveryID' eventID' now' s = (Inr \<lparr>dr_Delivery = d, dr_OutboxEvent = None, dr_Replayed = True\<rparr>, s)"
    using k x same assms(4) by (simp add: call replayInvoiceDelivery_def done_key_def claim_key_def created_def)
qed

text \<open>What a first request leaves: its key and its row.\<close>

lemma first_request:
  assumes "CreateDeliveryAtomic uuid_ok c deliveryID eventID now s = (Inr r, t)" and "\<not> dr_Replayed r"
  shows "done_key c deliveryID \<in> set (dd_keys t)" and "dr_Delivery r \<in> set (dd_deliveries t)" and "created c deliveryID (dr_Delivery r)"
    and "dd_deliveries t = dd_deliveries s @ [dr_Delivery r]"
proof -
  have "transaction (create_delivery_tx c deliveryID eventID now) s = (Inr r, t)"
    using assms(1) by (auto simp: CreateDeliveryAtomic_def split: if_splits)
  then obtain fs where fs: "create_delivery_tx c deliveryID eventID now (s\<lparr>fa_faults := fs\<rparr>) = (Inr r, t)"
    by (cases rule: transaction_effect) auto
  have new: "\<not> (\<exists>k \<in> set (dd_keys (s\<lparr>fa_faults := fs\<rparr>)). key_matches c k)"
    using fs assms(2) by (auto simp: create_delivery_tx_def replayInvoiceDelivery_def split: option.splits if_splits)
  show "done_key c deliveryID \<in> set (dd_keys t)" "dr_Delivery r \<in> set (dd_deliveries t)" "created c deliveryID (dr_Delivery r)"
    "dd_deliveries t = dd_deliveries s @ [dr_Delivery r]"
    using fresh_request [OF fs new] by simp_all
qed

lemma created_carried:
  assumes "carries_on s t" and "d \<in> set (dd_deliveries s)" and "created c deliveryID d"
  obtains e where "e \<in> set (dd_deliveries t)" "same_delivery e d" "created c deliveryID e"
proof -
  obtain e where "e \<in> set (dd_deliveries t)" "same_delivery e d" using assms(1,2) by (auto simp: carries_on_def)
  moreover have "created c deliveryID e" using assms(3) calculation(2) by (simp add: created_def same_delivery_def)
  ultimately show ?thesis by (rule that)
qed

end
