(* ===== verification/Delivery_Examples.thy ===== *)
theory Delivery_Examples
  imports Delivery_Worker Delivery_Requests
begin

text \<open>One business, one issued invoice and its delivery, for the concrete instances of the properties.\<close>

definition ex_id :: "char \<Rightarrow> string" where
  "ex_id c = ''00000000-0000-4000-8000-00000000000'' @ [c]"

definition ex_invoice :: invoice_row where
  "ex_invoice = \<lparr>iv_ID = ex_id CHR ''1'', iv_BusinessID = ex_id CHR ''b'', iv_InvoiceNo = Some ''INV-1'', iv_IssuedAt = Some 5,
     iv_Status = ''issued'', iv_Version = 1, iv_Deleted = False\<rparr>"

definition ex_job :: render_job where
  "ex_job = \<lparr>rj_ID = ex_id CHR ''2'', rj_DocumentID = Some (ex_id CHR ''1''), rj_InvoiceID = Some (ex_id CHR ''1''), rj_BusinessID = ex_id CHR ''b'',
     rj_Kind = RenderKindFinal, rj_SourceInvoiceVersion = Some 1, rj_ObjectKey = final_object_key (ex_id CHR ''b'') (ex_id CHR ''1'') 1,
     rj_Attempts = 0, rj_LeaseOwner = None, rj_LeaseExpiresAt = None, rj_Status = RJQueued, rj_OutputURL = [], rj_OutputFilename = [],
     rj_ErrorMessage = [], rj_CompletedAt = None, rj_CreatedAt = 5, rj_Deleted = False\<rparr>"

definition ex_command :: delivery_command where
  "ex_command = \<lparr>dc_BusinessID = ex_id CHR ''b'', dc_InvoiceID = ex_id CHR ''1'', dc_Command = invoiceDeliveryCommand,
     dc_IdempotencyKey = ex_id CHR ''3'', dc_RequestHash = replicate 64 CHR ''a'', dc_Recipient = ''ann@example.com'', dc_ActorID = ex_id CHR ''4''\<rparr>"

definition ex_issued :: delivery_db where
  "ex_issued = (empty_db [])\<lparr>dd_invoices := [ex_invoice], dd_jobs := [ex_job]\<rparr>"

definition ex_waiting :: email_delivery where
  "ex_waiting = new_delivery ex_command (ex_id CHR ''5'') (ex_id CHR ''2'') WaitingForRender 7"

definition ex_requested :: delivery_db where
  "ex_requested = ex_issued\<lparr>dd_keys := [done_key ex_command (ex_id CHR ''5'')], dd_deliveries := [ex_waiting],
     dd_activity := [newInvoiceDeliveryActivity ex_command ex_waiting]\<rparr>"

definition ex_rendering :: delivery_db where
  "ex_rendering = ex_requested\<lparr>dd_jobs := [ex_job\<lparr>rj_Status := RJProcessing, rj_Attempts := 1, rj_LeaseOwner := Some ''r'', rj_LeaseExpiresAt := Some 100\<rparr>]\<rparr>"

definition ex_queued :: email_delivery where
  "ex_queued = queue_delivery 9 ex_waiting"

definition ex_event :: outbox_event where
  "ex_event = \<lparr>oe_ID = ex_id CHR ''6'', oe_BusinessID = ex_id CHR ''b'', oe_AggregateType = ''email_delivery'', oe_AggregateID = ex_id CHR ''5'',
     oe_EventType = invoiceDeliveryRequestedEvent, oe_Payload = delivery_payload (ex_id CHR ''5'') (ex_id CHR ''1'') (ex_id CHR ''2''),
     oe_PublishAttempts = 0, oe_AvailableAt = 9, oe_LeaseOwner = None, oe_LeaseExpiresAt = None, oe_PublishedAt = None, oe_CreatedAt = 9\<rparr>"

definition ex_rendered :: delivery_db where
  "ex_rendered = ex_rendering\<lparr>dd_jobs := [ex_job\<lparr>rj_Status := RJCompleted, rj_Attempts := 1, rj_OutputFilename := ''INV-1.pdf'',
     rj_CompletedAt := Some 9\<rparr>], dd_deliveries := [ex_queued], dd_outbox := [ex_event]\<rparr>"

lemma ex_id_canonical:
  "canonical_uuid (ex_id CHR ''1'')" "canonical_uuid (ex_id CHR ''2'')" "canonical_uuid (ex_id CHR ''3'')" "canonical_uuid (ex_id CHR ''4'')"
  "canonical_uuid (ex_id CHR ''5'')" "canonical_uuid (ex_id CHR ''6'')" "canonical_uuid (ex_id CHR ''b'')"
  by code_simp+

lemma ex_request:
  "CreateDeliveryAtomic canonical_uuid ex_command (ex_id CHR ''5'') (ex_id CHR ''6'') 7 ex_issued =
    (Inr \<lparr>dr_Delivery = ex_waiting, dr_OutboxEvent = None, dr_Replayed = False\<rparr>, ex_requested)"
  by code_simp

lemma ex_claim:
  "ClaimFinalRender (ex_id CHR ''b'') (ex_id CHR ''2'') 1 ''r'' 8 100 ex_requested = (Inr FinalRenderClaimed, ex_rendering)"
  by code_simp

lemma ex_complete:
  "CompleteFinalRender (ex_id CHR ''b'') (ex_id CHR ''1'') (ex_id CHR ''2'') 1 ''r''
     (final_object_key (ex_id CHR ''b'') (ex_id CHR ''1'') 1) ''INV-1.pdf'' (\<lambda>n. ex_id CHR ''6'') 9 ex_rendering = (Inr True, ex_rendered)"
  by code_simp

lemma ex_issued_reachable: "delivery_reachable canonical_uuid ex_issued"
proof -
  have "delivery_reachable canonical_uuid (empty_db [])" by (rule delivery_reachable.init)
  moreover have "delivery_step canonical_uuid (empty_db []) ((empty_db [])\<lparr>dd_invoices := dd_invoices (empty_db []) @ [ex_invoice]\<rparr>)" (is "delivery_step _ _ ?s")
    by (rule delivery_step.add_invoice) (simp_all add: ex_invoice_def ex_id_canonical)
  moreover have "delivery_step canonical_uuid ?s (?s\<lparr>dd_jobs := dd_jobs ?s @ [ex_job]\<rparr>)"
    by (rule delivery_step.add_job) (simp_all add: ex_job_def ex_id_canonical empty_db_def)
  moreover have "?s\<lparr>dd_jobs := dd_jobs ?s @ [ex_job]\<rparr> = ex_issued" by (simp add: ex_issued_def empty_db_def)
  ultimately show ?thesis by (metis delivery_reachable.step)
qed

lemma ex_requested_reachable: "delivery_reachable canonical_uuid ex_requested"
proof (rule delivery_reachable.step [OF ex_issued_reachable])
  show "delivery_step canonical_uuid ex_issued ex_requested"
    by (rule delivery_step.request [OF ex_id_canonical(5) _ ex_id_canonical(6) ex_request]) (simp add: ex_issued_def empty_db_def)
qed

lemma ex_rendered_reachable: "delivery_reachable canonical_uuid ex_rendered"
proof (rule delivery_reachable.step)
  show "delivery_reachable canonical_uuid ex_rendering"
    by (rule delivery_reachable.step [OF ex_requested_reachable delivery_step.claim_render [OF ex_claim]])
  show "delivery_step canonical_uuid ex_rendering ex_rendered"
    by (rule delivery_step.complete_render [OF _ ex_complete]) (rule ex_id_canonical(6))
qed

end
