(* ===== verification/Delivery_Properties.thy ===== *)
theory Delivery_Properties
  imports Delivery_Examples
begin

text \<open>The properties of invoice delivery: requests, renders, the email worker and the feedback of the mail service.\<close>

section \<open>From the request to the queue\<close>

text \<open>C35: However requests, renders, workers and feedback interleave and whichever calls fail, no delivery is forgotten. A
  delivery that waits has its final render in the table, unfinished, of the same business and
  invoice. For any other delivery an outbox event was written that the publisher routes to the delivery queue, and the message
  the worker decodes there passes its validation and names the delivery.\<close>

theorem no_delivery_is_forgotten:
  assumes "\<forall>u. canonical_uuid u \<longrightarrow> op_uuid_ok p u" and "op_emailDeliveryQueueURL p \<noteq> []" and "TrimSpace owner \<noteq> []"
    and "delivery_reachable uuid_ok s" and "d \<in> set (dd_deliveries s)"
  shows "if ed_Status d = WaitingForRender then \<exists>j \<in> set (dd_jobs s). awaits d j
    else \<exists>e \<in> set (dd_outbox s). \<exists>body m. route p e = Inr (op_emailDeliveryQueueURL p, body) \<and> decodeDeliveryMessage body = Some m \<and>
      message_matches m d \<and> validateDeliveryMessage (op_uuid_ok p) m owner"
proof -
  have c: "cared_for s d" using delivery_inv_reachable [OF assms(4)] assms(5) by (simp add: delivery_inv_def)
  then have i: "identified d" by (simp add: cared_for_def)
  have ok: "canonical_uuid u \<Longrightarrow> op_uuid_ok p u" for u using assms(1) by blast
  show ?thesis
  proof (cases "ed_Status d = WaitingForRender")
    case True
    then show ?thesis using c by (simp add: cared_for_def)
  next
    case False
    then obtain e where e: "e \<in> set (dd_outbox s)" "announces d e" using c by (auto simp: cared_for_def)
    note r = announced_delivery_routed [OF i e(2) ok assms(2)] worker_reads_message [OF i]
    show ?thesis using False e(1) r message_of_valid [where uuid_ok = "op_uuid_ok p", OF i ok assms(3)] by auto
  qed
qed

definition ex_publisher :: outbox_publisher where
  "ex_publisher = NewSQSOutboxPublisher canonical_uuid ''q'' ''mail''"

lemma ex_publisher_facts: "op_uuid_ok ex_publisher = canonical_uuid" "op_emailDeliveryQueueURL ex_publisher = ''mail''"
  by (simp_all add: ex_publisher_def NewSQSOutboxPublisher_def TrimSpace_def is_space_def)

theorem no_delivery_is_forgotten_witness:
  "ed_Status ex_queued = Queued \<and> ex_queued \<in> set (dd_deliveries ex_rendered) \<and>
   (\<exists>e \<in> set (dd_outbox ex_rendered). \<exists>body m. route ex_publisher e = Inr (''mail'', body) \<and> decodeDeliveryMessage body = Some m \<and>
      message_matches m ex_queued \<and> validateDeliveryMessage canonical_uuid m ''w'')"
proof -
  have d: "ed_Status ex_queued = Queued" "ex_queued \<in> set (dd_deliveries ex_rendered)"
    by (simp_all add: ex_queued_def queue_delivery_def ex_rendered_def)
  show ?thesis
    using no_delivery_is_forgotten [of ex_publisher "''w''" canonical_uuid ex_rendered ex_queued] ex_rendered_reachable d
    by (simp add: ex_publisher_facts TrimSpace_def is_space_def)
qed

text \<open>C37: A request for a delivery is idempotent. Once it has created a delivery, whatever steps follow, repeating it changes
  nothing and returns that delivery, and another request under the same idempotency key is refused
  as a conflict and changes nothing either.\<close>

theorem delivery_requests_are_idempotent:
  assumes "delivery_reachable uuid_ok s" and "canonical_uuid deliveryID" and "canonical_uuid eventID"
    and "deliveryID \<notin> ed_ID ` set (dd_deliveries s)"
    and "CreateDeliveryAtomic uuid_ok c deliveryID eventID now s = (Inr r, t)" and "\<not> dr_Replayed r"
    and "(delivery_step uuid_ok)\<^sup>*\<^sup>* t u" and "fa_faults u = []" and "same_key c e" and "validateAtomicInvoiceDelivery uuid_ok e"
  shows "(dc_RequestHash e \<noteq> dc_RequestHash c \<longrightarrow> CreateDeliveryAtomic uuid_ok e deliveryID' eventID' now' u = (Inl DConflict, u)) \<and>
    (dc_RequestHash e = dc_RequestHash c \<and> dc_InvoiceID e = dc_InvoiceID c \<and> dc_Recipient e = dc_Recipient c \<longrightarrow>
      (\<exists>d. CreateDeliveryAtomic uuid_ok e deliveryID' eventID' now' u = (Inr \<lparr>dr_Delivery = d, dr_OutboxEvent = None, dr_Replayed = True\<rparr>, u) \<and>
        same_delivery d (dr_Delivery r)))"
proof -
  have t: "keys_inv t" using request_keys_inv [OF assms(5,2,3,4) keys_inv_reachable [OF assms(1)]] by simp
  note u = requests.run [OF assms(7) t]
  note f = first_request [OF assms(5,6)]
  have k: "done_key c deliveryID \<in> set (dd_keys u)" and car: "carries_on t u" using u(2) f(1) by (auto simp: keeps_keys_def)
  obtain d where d: "d \<in> set (dd_deliveries u)" "same_delivery d (dr_Delivery r)" "created c deliveryID d"
    using created_carried [OF car f(2,3)] by blast
  note rep = repeated_request [OF u(1) k d(1,3) assms(9,10,8), of deliveryID' eventID' now']
  show ?thesis using rep d(2) by auto
qed

theorem delivery_requests_are_idempotent_witness:
  "\<exists>d. CreateDeliveryAtomic canonical_uuid ex_command (ex_id CHR ''7'') (ex_id CHR ''8'') 20 ex_rendered =
     (Inr \<lparr>dr_Delivery = d, dr_OutboxEvent = None, dr_Replayed = True\<rparr>, ex_rendered) \<and> same_delivery d ex_waiting"
proof -
  let ?r = "\<lparr>dr_Delivery = ex_waiting, dr_OutboxEvent = None, dr_Replayed = False\<rparr>"
  have "delivery_step canonical_uuid ex_requested ex_rendering" by (rule delivery_step.claim_render [OF ex_claim])
  moreover have "delivery_step canonical_uuid ex_rendering ex_rendered"
    by (rule delivery_step.complete_render [OF _ ex_complete]) (rule ex_id_canonical(6))
  ultimately have run: "(delivery_step canonical_uuid)\<^sup>*\<^sup>* ex_requested ex_rendered" by simp
  have "ex_id CHR ''5'' \<notin> ed_ID ` set (dd_deliveries ex_issued)" by (simp add: ex_issued_def empty_db_def)
  moreover have "fa_faults ex_rendered = []" by (simp add: ex_rendered_def ex_rendering_def ex_requested_def ex_issued_def empty_db_def)
  moreover have "validateAtomicInvoiceDelivery canonical_uuid ex_command" by code_simp
  ultimately show ?thesis
    using delivery_requests_are_idempotent [OF ex_issued_reachable ex_id_canonical(5,6) _ ex_request, of ex_rendered ex_command "ex_id CHR ''7''" "ex_id CHR ''8''" 20] run
    by (simp add: same_key_def)
qed

section \<open>The worker\<close>

text \<open>C36: A message that the email worker acknowledges names a delivery that is finished. If the worker mailed it just now, exactly one
  mail was accepted: to the recipient of the delivery, with the final document of its invoice, and
  the delivery is recorded as sent. From then on, after any further steps, no call of the worker for this
  delivery changes a row or sends a mail, so a message that the queue delivers again is harmless.\<close>

theorem acknowledged_delivery_is_mailed_once:
  assumes "delivery_reachable (ee_uuid_ok env) s" and "email_Process env w clock m owner s = (None, t)"
  shows "(\<exists>d \<in> set (dd_deliveries t). message_matches m d \<and> finished d \<and>
      (dd_mail t = dd_mail s \<or> (\<exists>x. dd_mail t = dd_mail s @ [x] \<and> mailed env w m d x \<and> ed_Status d = Sent))) \<and>
    (\<forall>u env2 w2 clock2 m2 owner2 r v. (delivery_step (ee_uuid_ok env))\<^sup>*\<^sup>* t u \<longrightarrow> dm_DeliveryID m2 = dm_DeliveryID m \<longrightarrow>
      email_Process env2 w2 clock2 m2 owner2 u = (r, v) \<longrightarrow> dd_mail v = dd_mail u \<and> dd_deliveries v = dd_deliveries u)"
proof -
  have inv: "delivery_inv s" by (rule delivery_inv_reachable [OF assms(1)])
  have invt: "delivery_inv t" by (rule deliveries.run(1) [OF process_is_run [OF assms(2)] inv])
  have dist: "distinct (map ed_ID (dd_deliveries s))" using inv by (simp add: delivery_inv_def)
  note ack = process_acknowledged [OF assms(2) dist]
  then obtain d where d: "d \<in> set (dd_deliveries t)" "message_matches m d" "finished d" by blast
  have "dd_mail v = dd_mail u \<and> dd_deliveries v = dd_deliveries u"
    if u: "(delivery_step (ee_uuid_ok env))\<^sup>*\<^sup>* t u" and m2: "dm_DeliveryID m2 = dm_DeliveryID m"
      and p: "email_Process env2 w2 clock2 m2 owner2 u = (r, v)" for u env2 w2 clock2 m2 owner2 r v
  proof -
    note run = deliveries.run [OF u invt]
    obtain e where e: "e \<in> set (dd_deliveries u)" "same_delivery e d" "progress (ed_Status d) \<le> progress (ed_Status e)"
      using run(2) d(1) by (auto simp: carries_on_def)
    have "finished e" using d(3) e(3) by (cases "ed_Status e") (auto simp: finished_def progress_def)
    moreover have "ed_ID e = dm_DeliveryID m2" using e(2) d(2) m2 by (simp add: same_delivery_def message_matches_def)
    ultimately obtain fs where "v = u\<lparr>fa_faults := fs\<rparr>"
      using finished_not_mailed [OF p e(1)] run(1) by (auto simp: delivery_inv_def)
    then show ?thesis by simp
  qed
  then show ?thesis using ack by blast
qed

text \<open>When no call fails, the mail service answers with an identifier and the lease lasts, a delivery
  that can be claimed, with its document in place, is mailed once and recorded as sent
  under that identifier, and the message is acknowledged.\<close>

theorem claimed_delivery_is_sent:
  assumes "delivery_reachable uuid_ok s" and "fa_faults s = []" and "validateDeliveryMessage (ee_uuid_ok env) m owner"
    and "TrimSpace owner = owner" and "length owner \<le> 255"
    and "\<forall>n. clock n \<noteq> zero_time \<and> clock n < clock 0 + deliveryLeaseDuration"
    and "claim_candidate (ee_locked env) m (clock 0) s = Some (d, i, j)" and "validateClaim m (claim_of d i j)"
    and "downloadPDF env w (rj_ObjectKey j) = Inr pdf"
    and "BuildRawMessage (ee_lib env) (raw_message_of w (claim_of d i j) pdf) (ee_random env) = Inr raw"
    and "ee_ses env = Some mid" and "TrimSpace mid \<noteq> []" and "TrimSpace (ew_senderEmail w) \<noteq> []"
  shows "\<exists>t d'. email_Process env w clock m owner s = (None, t) \<and> d' \<in> set (dd_deliveries t) \<and> same_delivery d' d \<and>
    ed_Status d' = Sent \<and> ed_ProviderMessageID d' = TrimSpace mid \<and> length (dd_mail t) = Suc (length (dd_mail s))"
proof (rule delivery_sent [where clock = clock, OF assms(2) _ assms(3-5) _ _ _ assms(7-13)])
  show "distinct (map ed_ID (dd_deliveries s))" using delivery_inv_reachable [OF assms(1)] by (simp add: delivery_inv_def)
qed (use assms(6) in auto)

definition ex_lib :: mime_lib where
  "ex_lib = \<lparr>lib_ParseAddress = Some, lib_FormatMediaType = (\<lambda>t p v. t @ ''; '' @ p @ ''='' @ v), lib_QEncode = id, lib_QuotedPrintable = id\<rparr>"

definition ex_env :: email_env where
  "ex_env = \<lparr>ee_uuid_ok = canonical_uuid, ee_locked = (\<lambda>_. False), ee_objects = (\<lambda>_ _. ObjectBody ''%PDF-1''), ee_lib = ex_lib,
     ee_random = [], ee_ses = Some ''mid-1'', ee_send_error = []\<rparr>"

definition ex_worker :: email_worker where
  "ex_worker = \<lparr>ew_bucket = ''docs'', ew_senderEmail = ''billing@example.com'', ew_configurationSet = ''main''\<rparr>"

definition ex_message :: delivery_message where
  "ex_message = message_of ex_queued"

definition ex_completed_job :: render_job where
  "ex_completed_job = ex_job\<lparr>rj_Status := RJCompleted, rj_Attempts := 1, rj_OutputFilename := ''INV-1.pdf'', rj_CompletedAt := Some 9\<rparr>"

definition ex_raw_message :: raw_message where
  "ex_raw_message = raw_message_of ex_worker (claim_of ex_queued ex_invoice ex_completed_job) ''%PDF-1''"

lemma ex_candidate: "claim_candidate (ee_locked ex_env) ex_message 10 ex_rendered = Some (ex_queued, ex_invoice, ex_completed_job)"
  by code_simp

lemma ex_claim_valid: "validateDeliveryMessage (ee_uuid_ok ex_env) ex_message ''r:1''" "validateClaim ex_message (claim_of ex_queued ex_invoice ex_completed_job)"
  by code_simp+

lemma ex_download: "downloadPDF ex_env ex_worker k = Inr ''%PDF-1''"
  by (simp add: downloadPDF_def ex_env_def maxPDFBytes_def is_pdf_def Let_def)

lemma ex_raw_short: "length (raw_text ex_lib ex_raw_message ''billeif-'') < 900" "list_all (\<lambda>l. length l < 100) (split_lines (raw_text ex_lib ex_raw_message ''billeif-''))"
  by code_simp+

lemma ex_raw: "BuildRawMessage (ee_lib ex_env) (raw_message_of ex_worker (claim_of ex_queued ex_invoice ex_completed_job) ''%PDF-1'') (ee_random ex_env) =
  Inr (raw_text ex_lib ex_raw_message ''billeif-'')"
proof -
  have v: "validateRawMessage ex_lib ex_raw_message ''billeif-'' = None"
  proof -
    have "\<not> has_newline ''billeif-''" "TrimSpace ''billeif-'' \<noteq> []" "CHR 0x22 \<notin> set ''billeif-''" "\<not> has_newline (rm_Source ex_raw_message)"
      "\<not> has_newline (rm_Recipient ex_raw_message)" "TrimSpace (rm_Recipient ex_raw_message) = rm_Recipient ex_raw_message"
      "TrimSpace (rm_Subject ex_raw_message) \<noteq> []" "\<not> has_newline (rm_Subject ex_raw_message)" "\<not> has_newline (rm_Filename ex_raw_message)"
      "is_pdf (rm_PDF ex_raw_message)" "length (rm_PDF ex_raw_message) = 6"
      by code_simp+
    then show ?thesis by (simp add: validateRawMessage_def ex_lib_def maxPDFBytes_def)
  qed
  have "\<not> list_ex (\<lambda>l. length l + 2 > maxMIMELineBytes) (split_lines (raw_text ex_lib ex_raw_message ''billeif-''))"
    using ex_raw_short(2) by (auto simp: list_all_iff list_ex_iff maxMIMELineBytes_def)
  moreover have "''billeif-'' @ hex_encode [] = ''billeif-''" by code_simp
  ultimately show ?thesis
    using v ex_raw_short(1) by (simp add: BuildRawMessage_def buildRawMessage_def Let_def ex_env_def ex_raw_message_def [symmetric] maxRawEmailBytes_def)
qed

lemma ex_rendered_faults: "fa_faults ex_rendered = []" "dd_mail ex_rendered = []"
  by (simp_all add: ex_rendered_def ex_rendering_def ex_requested_def ex_issued_def empty_db_def)

lemma ex_texts: "TrimSpace ''r:1'' = ''r:1''" "TrimSpace ''mid-1'' = ''mid-1''" "TrimSpace (ew_senderEmail ex_worker) \<noteq> []"
  by code_simp+

lemma ex_clock: "(10 :: int) \<noteq> zero_time" "(10 :: int) < 10 + deliveryLeaseDuration"
  by (simp_all add: zero_time_def deliveryLeaseDuration_def nsPerMinute_def nsPerSecond_def)

theorem claimed_delivery_is_sent_witness:
  "\<exists>t d. email_Process ex_env ex_worker (\<lambda>_. 10) ex_message ''r:1'' ex_rendered = (None, t) \<and> d \<in> set (dd_deliveries t) \<and>
     same_delivery d ex_queued \<and> ed_Status d = Sent \<and> ed_ProviderMessageID d = ''mid-1'' \<and> length (dd_mail t) = 1"
proof -
  have "ee_ses ex_env = Some ''mid-1''" by (simp add: ex_env_def)
  then show ?thesis
    using claimed_delivery_is_sent [where clock = "\<lambda>_. 10", OF ex_rendered_reachable ex_rendered_faults(1) ex_claim_valid(1) ex_texts(1) _ _ ex_candidate
        ex_claim_valid(2) ex_download ex_raw] ex_clock ex_texts ex_rendered_faults(2) by simp
qed

theorem acknowledged_delivery_is_mailed_once_witness:
  "\<exists>t d. email_Process ex_env ex_worker (\<lambda>_. 10) ex_message ''r:1'' ex_rendered = (None, t) \<and> d \<in> set (dd_deliveries t) \<and>
     message_matches ex_message d \<and> finished d"
proof -
  have "distinct (map ed_ID (dd_deliveries ex_rendered))" by (simp add: ex_rendered_def)
  moreover have "ee_ses ex_env = Some ''mid-1''" by (simp add: ex_env_def)
  ultimately obtain t where t: "email_Process ex_env ex_worker (\<lambda>_. 10) ex_message ''r:1'' ex_rendered = (None, t)"
    using delivery_sent [where clock = "\<lambda>_. 10", OF ex_rendered_faults(1) _ ex_claim_valid(1) ex_texts(1) _ ex_clock(1,2,2)
        ex_candidate ex_claim_valid(2) ex_download ex_raw] ex_texts by auto
  have "delivery_reachable (ee_uuid_ok ex_env) ex_rendered" using ex_rendered_reachable by (simp add: ex_env_def)
  from acknowledged_delivery_is_mailed_once [OF this t] t show ?thesis by blast
qed

section \<open>Feedback\<close>

text \<open>C38: The outcome that the feedback of the mail service gives every delivery depends only on the set of events received:
  a complaint outweighs a bounce and a bounce a delivery, and the times kept are the earliest
  ones reported. The order of the events and their repetitions do not matter.\<close>

theorem feedback_outcome_is_order_free:
  assumes "fa_faults s = []" and "distinct (map ed_ID (dd_deliveries s))"
  shows "map outcome (dd_deliveries (apply_events uuid_ok es s)) = map (outcome_after uuid_ok (fst ` set es)) (dd_deliveries s)"
  by (rule outcomes_after_events [OF assms])

definition ex_sent :: delivery_db where
  "ex_sent = ex_rendered\<lparr>dd_deliveries := [sent_delivery ''mid-1'' ''a'' ''b'' 11 ex_queued]\<rparr>"

definition ex_feedback :: "event_type \<Rightarrow> instant \<Rightarrow> feedback_event" where
  "ex_feedback t at = \<lparr>fe_Type = t, fe_BusinessID = ex_id CHR ''b'', fe_DeliveryID = ex_id CHR ''5'', fe_ProviderMessageID = ''mid-1'', fe_OccurredAt = at\<rparr>"

theorem feedback_outcome_is_order_free_witness:
  "map outcome (dd_deliveries (apply_events canonical_uuid
     [(ex_feedback EventTypeBounce 30, 31), (ex_feedback EventTypeDelivery 20, 32), (ex_feedback EventTypeBounce 25, 33)] ex_sent)) =
     [(ex_id CHR ''5'', Bounced, Some 20, Some 25)] \<and>
   map (outcome_after canonical_uuid {ex_feedback EventTypeBounce 25, ex_feedback EventTypeDelivery 20, ex_feedback EventTypeBounce 30}) (dd_deliveries ex_sent) =
     [(ex_id CHR ''5'', Bounced, Some 20, Some 25)]"
proof -
  let ?es = "[(ex_feedback EventTypeBounce 30, 31), (ex_feedback EventTypeDelivery 20, 32), (ex_feedback EventTypeBounce 25, 33)]"
  have "map outcome (dd_deliveries (apply_events canonical_uuid ?es ex_sent)) = [(ex_id CHR ''5'', Bounced, Some 20, Some 25)]"
    by code_simp
  moreover have "fa_faults ex_sent = []" "distinct (map ed_ID (dd_deliveries ex_sent))"
    by (simp_all add: ex_sent_def ex_rendered_faults)
  from feedback_outcome_is_order_free [OF this, of canonical_uuid ?es]
  have "map outcome (dd_deliveries (apply_events canonical_uuid ?es ex_sent)) =
    map (outcome_after canonical_uuid {ex_feedback EventTypeBounce 25, ex_feedback EventTypeDelivery 20, ex_feedback EventTypeBounce 30}) (dd_deliveries ex_sent)"
    by (simp add: insert_commute)
  ultimately show ?thesis by simp
qed

end
