(* ===== verification/Outbox_System.thy ===== *)
theory Outbox_System
  imports Outbox_Dispatch "HOL-Library.Multiset"
begin

text \<open>
  The outbox under concurrency. Dispatchers, immediate publications and the transactions that
  insert events interleave at their calls to the database and to the queues, any of which may
  fail or lose its answer; a process that stops simply takes no further step.
\<close>

section \<open>Steps\<close>

record dispatch_run =
  dr_owner :: string
  dr_now :: instant
  dr_todo :: "outbox_event list"
  dr_held :: "(outbox_event \<times> outbox_error option) option"

text \<open>The last component records the events whose immediate publication was tried.\<close>

record outbox_system =
  os_state :: outbox_state
  os_runs :: "dispatch_run list"
  os_marks :: "string list"
  os_tries :: "string list"

definition fresh_event :: "outbox_event \<Rightarrow> bool" where
  "fresh_event e \<longleftrightarrow> oe_PublishedAt e = None \<and> oe_LeaseOwner e = None \<and> oe_LeaseExpiresAt e = None \<and> oe_PublishAttempts e = 0"

definition same_content :: "outbox_event \<Rightarrow> outbox_event \<Rightarrow> bool" where
  "same_content a b \<longleftrightarrow>
     oe_ID a = oe_ID b \<and> oe_BusinessID a = oe_BusinessID b \<and> oe_AggregateType a = oe_AggregateType b \<and>
     oe_AggregateID a = oe_AggregateID b \<and> oe_EventType a = oe_EventType b \<and> oe_Payload a = oe_Payload b"

definition lists_all :: "pg_choice \<Rightarrow> bool" where
  "lists_all pg \<longleftrightarrow> (\<forall>es. mset (pg_returning pg es) = mset es)"

definition initial_system :: "call_fault list \<Rightarrow> outbox_system" where
  "initial_system fs =
     \<lparr>os_state = \<lparr>fa_faults = fs, ob_rows = [], ob_sent = []\<rparr>, os_runs = [], os_marks = [], os_tries = []\<rparr>"

inductive outbox_step :: "dispatcher \<Rightarrow> outbox_system \<Rightarrow> outbox_system \<Rightarrow> bool" for d where
  insert_event:
    "fresh_event e \<Longrightarrow> oe_ID e \<notin> oe_ID ` set (ob_rows (os_state S)) \<Longrightarrow>
     outbox_step d S (S\<lparr>os_state := (os_state S)\<lparr>ob_rows := ob_rows (os_state S) @ [e]\<rparr>\<rparr>)"
| observe:
    "OldestPendingOutboxEventCreatedAt (di_eventTypes d) (os_state S) = (r, s) \<Longrightarrow> outbox_step d S (S\<lparr>os_state := s\<rparr>)"
| claim:
    "lists_all pg \<Longrightarrow>
     ClaimOutboxEvents pg owner now (now + di_leaseDuration d) (di_eventTypes d) (di_batchSize d) (os_state S) = (Inr es, s) \<Longrightarrow>
     outbox_step d S (S\<lparr>os_state := s, os_runs := os_runs S @ [\<lparr>dr_owner = owner, dr_now = now, dr_todo = es, dr_held = None\<rparr>]\<rparr>)"
| claim_failed:
    "lists_all pg \<Longrightarrow>
     ClaimOutboxEvents pg owner now (now + di_leaseDuration d) (di_eventTypes d) (di_batchSize d) (os_state S) = (Inl err, s) \<Longrightarrow>
     outbox_step d S (S\<lparr>os_state := s\<rparr>)"
| publish:
    "i < length (os_runs S) \<Longrightarrow> dr_todo (os_runs S ! i) = e # es \<Longrightarrow> dr_held (os_runs S ! i) = None \<Longrightarrow>
     outbox_Publish (di_publisher d) e (os_state S) = (sent, s) \<Longrightarrow>
     outbox_step d S (S\<lparr>os_state := s, os_runs := (os_runs S)[i := (os_runs S ! i)\<lparr>dr_todo := es, dr_held := Some (e, sent)\<rparr>]\<rparr>)"
| settle:
    "i < length (os_runs S) \<Longrightarrow> dr_held (os_runs S ! i) = Some (e, sent) \<Longrightarrow>
     settle_event (dr_owner (os_runs S ! i)) (dr_now (os_runs S ! i)) at e sent (os_state S) = (r, s) \<Longrightarrow>
     outbox_step d S (S\<lparr>os_state := s, os_runs := (os_runs S)[i := (os_runs S ! i)\<lparr>dr_held := None\<rparr>]\<rparr>)"
| try_publish:
    "row \<in> set (ob_rows (os_state S)) \<Longrightarrow> same_content e row \<Longrightarrow> outbox_Publish (di_publisher d) e (os_state S) = (sent, s) \<Longrightarrow>
     outbox_step d S (S\<lparr>os_state := s, os_marks := (if sent = None then [oe_ID e] else []) @ os_marks S, os_tries := oe_ID e # os_tries S\<rparr>)"
| mark:
    "eventID \<in> set (os_marks S) \<Longrightarrow> MarkOutboxPublished eventID at (os_state S) = (r, s) \<Longrightarrow>
     outbox_step d S (S\<lparr>os_state := s, os_marks := remove1 eventID (os_marks S)\<rparr>)"

inductive outbox_reachable :: "dispatcher \<Rightarrow> outbox_system \<Rightarrow> bool" for d where
  init: "outbox_reachable d (initial_system fs)"
| step: "outbox_reachable d S \<Longrightarrow> outbox_step d S T \<Longrightarrow> outbox_reachable d T"

section \<open>What a call does\<close>

text \<open>
  A repository operation of the outbox keeps the queue and changes each row by a function of
  that row which keeps its content.
\<close>

definition row_update :: "(outbox_event \<Rightarrow> outbox_event) \<Rightarrow> outbox_state \<Rightarrow> outbox_state \<Rightarrow> bool" where
  "row_update g s t \<longleftrightarrow> ob_sent t = ob_sent s \<and> ob_rows t = map g (ob_rows s) \<and> (\<forall>e. same_content (g e) e)"

lemma same_content_refl [simp]: "same_content e e"
  by (simp add: same_content_def)

lemma same_content_sym: "same_content a b \<Longrightarrow> same_content b a"
  by (auto simp: same_content_def)

lemma same_content_trans: "same_content a b \<Longrightarrow> same_content b c \<Longrightarrow> same_content a c"
  by (auto simp: same_content_def)

lemma content_updates [simp]:
  "same_content (lease_row owner until e) e" "same_content (publish_row at e) e" "same_content (retry_row at e) e"
  by (simp_all add: same_content_def lease_row_def publish_row_def retry_row_def)

lemma row_update_id: "ob_sent t = ob_sent s \<Longrightarrow> ob_rows t = ob_rows s \<Longrightarrow> row_update id s t"
  by (simp add: row_update_def)

lemma update_rows_update:
  assumes "external_call (update_rows p f) s = (r, t)" and "\<And>e. same_content (f e) e"
  obtains "row_update id s t" and "r = None"
  | "row_update (\<lambda>e. if p e then f e else e) s t" and "r = None \<or> r = Some (length (filter p (ob_rows s)))"
  using assms(1)
proof (cases rule: external_call_effect)
  case (1 fs)
  then show ?thesis using that(1) by (simp add: row_update_def)
next
  case (2 fs)
  then show ?thesis using that(2) assms(2) by (simp add: update_rows_def row_update_def)
qed

lemma mutate_one_update:
  assumes "mutate_one err p f s = (r, t)" and "\<And>e. same_content (f e) e"
  shows "row_update id s t \<and> r \<noteq> None \<or> row_update (\<lambda>e. if p e then f e else e) s t"
proof -
  obtain q where q: "external_call (update_rows p f) s = (q, t)" and r: "q = None \<Longrightarrow> r \<noteq> None"
    using assms(1) by (cases "external_call (update_rows p f) s") (auto simp: mutate_one_def split: option.splits)
  from q assms(2) show ?thesis
    by (cases rule: update_rows_update) (use r in auto)
qed

section \<open>The invariant\<close>

definition delivered :: "outbox_publisher \<Rightarrow> sent_message list \<Rightarrow> outbox_event \<Rightarrow> bool" where
  "delivered p ms e \<longleftrightarrow> (\<exists>m \<in> set ms. sm_EventID m = oe_ID e \<and> route p e = Inr (sm_Queue m, sm_Body m))"

definition in_flight :: "dispatch_run \<Rightarrow> outbox_event list" where
  "in_flight r = dr_todo r @ (case dr_held r of None \<Rightarrow> [] | Some (e, _) \<Rightarrow> [e])"

definition known :: "outbox_state \<Rightarrow> outbox_event \<Rightarrow> bool" where
  "known s e \<longleftrightarrow> (\<exists>row \<in> set (ob_rows s). same_content e row)"

definition outbox_inv :: "dispatcher \<Rightarrow> outbox_system \<Rightarrow> bool" where
  "outbox_inv d S \<longleftrightarrow>
     distinct (map oe_ID (ob_rows (os_state S))) \<and>
     (\<forall>e \<in> set (ob_rows (os_state S)). oe_PublishedAt e \<noteq> None \<longrightarrow> delivered (di_publisher d) (ob_sent (os_state S)) e) \<and>
     (\<forall>r \<in> set (os_runs S). \<forall>e \<in> set (in_flight r). known (os_state S) e) \<and>
     (\<forall>r \<in> set (os_runs S). \<forall>e. dr_held r = Some (e, None) \<longrightarrow> delivered (di_publisher d) (ob_sent (os_state S)) e) \<and>
     (\<forall>i \<in> set (os_marks S). \<exists>e. oe_ID e = i \<and> known (os_state S) e \<and> delivered (di_publisher d) (ob_sent (os_state S)) e)"

lemma route_content:
  assumes "same_content a b"
  shows "route p a = route p b"
proof -
  have eqs: "oe_ID a = oe_ID b" "oe_BusinessID a = oe_BusinessID b" "oe_AggregateType a = oe_AggregateType b"
    "oe_AggregateID a = oe_AggregateID b" "oe_EventType a = oe_EventType b" "oe_Payload a = oe_Payload b"
    using assms by (auto simp: same_content_def)
  show ?thesis
    by (simp only: route_def MapInvoiceEventToSQSMessage_def MapEmailDeliveryEventToSQSMessage_def validInvoiceOutboxIdentity_def eqs)
qed

lemma delivered_content: "same_content a b \<Longrightarrow> delivered p ms a \<longleftrightarrow> delivered p ms b"
  unfolding delivered_def using route_content [of a b p] by (simp add: same_content_def)

lemma delivered_mono: "delivered p ms e \<Longrightarrow> delivered p (ms @ ns) e"
  by (auto simp: delivered_def)

lemma known_content: "known s e \<Longrightarrow> same_content e' e \<Longrightarrow> known s e'"
  by (auto simp: known_def intro: same_content_trans)

lemma known_update: "row_update g s t \<Longrightarrow> known s e \<Longrightarrow> known t e"
  unfolding known_def row_update_def using same_content_trans same_content_sym by (metis image_eqI image_set)

lemma ids_update: "row_update g s t \<Longrightarrow> map oe_ID (ob_rows t) = map oe_ID (ob_rows s)"
  by (auto simp: row_update_def same_content_def)

text \<open>A row with the identifier of a known event has its content.\<close>

lemma known_row:
  assumes "known s e" and "row \<in> set (ob_rows s)" and "oe_ID row = oe_ID e" and "distinct (map oe_ID (ob_rows s))"
  shows "same_content e row"
proof -
  obtain row' where r: "row' \<in> set (ob_rows s)" "same_content e row'" using assms(1) by (auto simp: known_def)
  then have "oe_ID row' = oe_ID row" using assms(3) by (auto simp: same_content_def)
  then have "row' = row" using assms(2,4) r(1) by (meson distinct_map inj_onD)
  with r show ?thesis by simp
qed

lemma outbox_inv_update:
  assumes "outbox_inv d S" and "row_update g (os_state S) t"
    and "\<And>e. e \<in> set (ob_rows (os_state S)) \<Longrightarrow> oe_PublishedAt (g e) \<noteq> None \<Longrightarrow>
        oe_PublishedAt e \<noteq> None \<or> delivered (di_publisher d) (ob_sent (os_state S)) e"
  shows "outbox_inv d (S\<lparr>os_state := t\<rparr>)"
proof -
  have u: "ob_sent t = ob_sent (os_state S)" "ob_rows t = map g (ob_rows (os_state S))" "\<And>e. same_content (g e) e"
    using assms(2) by (auto simp: row_update_def)
  have ids: "map oe_ID (ob_rows t) = map oe_ID (ob_rows (os_state S))" by (rule ids_update [OF assms(2)])
  have pub: "delivered (di_publisher d) (ob_sent t) e" if "e \<in> set (ob_rows t)" "oe_PublishedAt e \<noteq> None" for e
  proof -
    obtain e0 where e0: "e0 \<in> set (ob_rows (os_state S))" "e = g e0" using \<open>e \<in> set (ob_rows t)\<close> u(2) by auto
    then have "delivered (di_publisher d) (ob_sent (os_state S)) e0" using assms(1,3) that by (auto simp: outbox_inv_def)
    then show ?thesis using u(1) u(3) [of e0] e0(2) delivered_content by simp
  qed
  have kn: "known (os_state S) e \<Longrightarrow> known t e" for e by (rule known_update [OF assms(2)])
  show ?thesis using assms(1) ids u(1) pub kn unfolding outbox_inv_def by (simp; blast)
qed

lemma outbox_inv_sent:
  assumes "outbox_inv d S" and "ob_rows t = ob_rows (os_state S)" and "ob_sent t = ob_sent (os_state S) @ ms"
  shows "outbox_inv d (S\<lparr>os_state := t\<rparr>)"
  using assms unfolding outbox_inv_def known_def by (simp; blast intro: delivered_mono)

text \<open>Publishing keeps the rows, appends at most one message of that event, and reports success only if it did.\<close>

lemma outbox_Publish_effect:
  assumes "outbox_Publish p e s = (sent, t)"
  obtains ms where "ob_rows t = ob_rows s" "ob_sent t = ob_sent s @ ms" "length ms \<le> 1" "\<forall>m \<in> set ms. sm_EventID m = oe_ID e"
    "sent = None \<longrightarrow> delivered p (ob_sent t) e"
proof (cases "route p e")
  case (Inl err)
  with assms show ?thesis using that [of "[]"] by (auto simp: outbox_Publish_def)
next
  case (Inr qm)
  obtain q m where qm: "qm = (q, m)" by fastforce
  let ?x = "\<lparr>sm_Queue = q, sm_Body = m, sm_EventID = oe_ID e\<rparr>"
  let ?f = "\<lambda>s. ((), s\<lparr>ob_sent := ob_sent s @ [?x]\<rparr>)"
  obtain r where r: "external_call ?f s = (r, t)" and s: "sent = None \<longleftrightarrow> r \<noteq> None"
    using assms Inr qm by (auto simp: outbox_Publish_def SendMessage_def split: prod.splits option.splits)
  from r show ?thesis
  proof (cases rule: external_call_effect)
    case (1 fs)
    then show ?thesis using that [of "[]"] s by simp
  next
    case (2 fs)
    then have "ob_sent t = ob_sent s @ [?x]" "ob_rows t = ob_rows s" by simp_all
    moreover from this have "delivered p (ob_sent t) e" using Inr qm by (simp add: delivered_def)
    ultimately show ?thesis using that [of "[?x]"] by simp
  qed
qed

lemma claim_effect:
  assumes "ClaimOutboxEvents pg owner now until types limit s = (r, t)" and "lists_all pg"
  obtains err where "row_update id s t" "r = Inl err"
  | ids g where "g = (\<lambda>e. if oe_ID e \<in> set ids then lease_row (TrimSpace owner) until e else e)" "row_update g s t"
      "(\<exists>err. r = Inl err) \<or> (\<exists>es. r = Inr es \<and> mset es = mset (filter (\<lambda>e. oe_ID e \<in> set ids) (ob_rows t)))"
proof (cases "row_update id s t \<and> (\<exists>err. r = Inl err)")
  case True
  then show ?thesis using that(1) by blast
next
  case False
  let ?c = "claim_rows pg (TrimSpace owner) now until types limit"
  obtain q where q: "external_call ?c s = (q, t)" and r: "r = (case q of None \<Rightarrow> Inl DatabaseError | Some es \<Rightarrow> Inr es)"
    using assms(1) False by (auto simp: ClaimOutboxEvents_def Let_def row_update_def split: if_splits prod.splits option.splits)
  from q show ?thesis
  proof (cases rule: external_call_effect)
    case (1 fs)
    then show ?thesis using that(1) r by (simp add: row_update_def)
  next
    case (2 fs)
    let ?ids = "claim_ids pg now types limit (ob_rows s)"
    let ?g = "\<lambda>e. if oe_ID e \<in> set ?ids then lease_row (TrimSpace owner) until e else e"
    have t: "ob_rows t = map ?g (ob_rows s)" "ob_sent t = ob_sent s"
      using 2 by (simp_all add: claim_rows_def update_rows_def Let_def)
    have "(\<exists>err. r = Inl err) \<or> (\<exists>es. r = Inr es \<and> mset es = mset (filter (\<lambda>e. oe_ID e \<in> set ?ids) (ob_rows t)))"
      using 2(2) r assms(2) t by (auto simp: claim_rows_def update_rows_def Let_def lists_all_def)
    then show ?thesis using that(2) [of ?g ?ids] t by (simp add: row_update_def)
  qed
qed

text \<open>Settling an event changes rows only, and publishes a row only if the event was sent and is owned.\<close>

lemma settle_effect:
  assumes "settle_event owner now at e sent s = (r, t)"
  obtains "row_update id s t"
  | "sent \<noteq> None" "row_update (\<lambda>x. if owned_by (oe_ID e) owner x then retry_row (now + outboxRetryDelay (oe_PublishAttempts e)) x else x) s t"
  | "sent = None" "row_update (\<lambda>x. if owned_by (oe_ID e) owner x then publish_row at x else x) s t"
proof (cases sent)
  case None
  then obtain q where q: "CompleteOutboxEvent (oe_ID e) owner at s = (q, t)"
    using assms by (auto simp: settle_event_def split: prod.splits option.splits)
  show ?thesis
  proof (cases "validateOutboxLeaseMutation (oe_ID e) owner at")
    case True
    with q have "mutate_one LeaseOwnerMismatch (owned_by (oe_ID e) owner) (publish_row at) s = (q, t)" by (simp add: CompleteOutboxEvent_def)
    from mutate_one_update [OF this] show ?thesis using that None by auto
  next
    case False
    with q have "t = s" by (simp add: CompleteOutboxEvent_def)
    then show ?thesis using that(1) by (simp add: row_update_id)
  qed
next
  case (Some err)
  let ?av = "now + outboxRetryDelay (oe_PublishAttempts e)"
  obtain q where q: "RetryOutboxEvent (oe_ID e) owner ?av s = (q, t)"
    using assms Some by (auto simp: settle_event_def split: prod.splits option.splits)
  show ?thesis
  proof (cases "validateOutboxLeaseMutation (oe_ID e) owner ?av")
    case True
    with q have "mutate_one LeaseOwnerMismatch (owned_by (oe_ID e) owner) (retry_row ?av) s = (q, t)" by (simp add: RetryOutboxEvent_def)
    from mutate_one_update [OF this] show ?thesis using that Some by auto
  next
    case False
    with q have "t = s" by (simp add: RetryOutboxEvent_def)
    then show ?thesis using that(1) by (simp add: row_update_id)
  qed
qed

lemma mark_effect:
  assumes "MarkOutboxPublished i at s = (r, t)"
  obtains "row_update id s t" | "row_update (\<lambda>x. if unleased i x then publish_row at x else x) s t"
proof (cases "i = [] \<or> at = zero_time")
  case True
  with assms have "t = s" by (simp add: MarkOutboxPublished_def)
  then show ?thesis using that(1) by (simp add: row_update_id)
next
  case False
  with assms have "mutate_one NotPending (unleased i) (publish_row at) s = (r, t)" by (simp add: MarkOutboxPublished_def)
  from mutate_one_update [OF this] show ?thesis using that by auto
qed

lemma observe_effect: "OldestPendingOutboxEventCreatedAt types s = (r, t) \<Longrightarrow> row_update id s t"
  by (auto simp: OldestPendingOutboxEventCreatedAt_def row_update_def split: if_splits option.splits prod.splits
      elim!: external_call_effect)

section \<open>The invariant is kept\<close>

lemma outbox_inv_runs:
  assumes "outbox_inv d S"
    and "\<And>r e. r \<in> set rs \<Longrightarrow> e \<in> set (in_flight r) \<Longrightarrow> known (os_state S) e"
    and "\<And>r e. r \<in> set rs \<Longrightarrow> dr_held r = Some (e, None) \<Longrightarrow> delivered (di_publisher d) (ob_sent (os_state S)) e"
  shows "outbox_inv d (S\<lparr>os_runs := rs\<rparr>)"
  using assms unfolding outbox_inv_def by simp

lemma outbox_inv_run:
  assumes "outbox_inv d S" and "\<And>e. e \<in> set (in_flight r) \<Longrightarrow> known (os_state S) e"
    and "\<And>e. dr_held r = Some (e, None) \<Longrightarrow> delivered (di_publisher d) (ob_sent (os_state S)) e"
  shows "outbox_inv d (S\<lparr>os_runs := (os_runs S)[i := r]\<rparr>)"
proof (rule outbox_inv_runs [OF assms(1)])
  fix r' e assume "r' \<in> set ((os_runs S)[i := r])" and "e \<in> set (in_flight r')"
  then show "known (os_state S) e"
    using assms(1,2) set_update_subset_insert [of "os_runs S" i r] unfolding outbox_inv_def by blast
next
  fix r' e assume "r' \<in> set ((os_runs S)[i := r])" and "dr_held r' = Some (e, None)"
  then show "delivered (di_publisher d) (ob_sent (os_state S)) e"
    using assms(1,3) set_update_subset_insert [of "os_runs S" i r] unfolding outbox_inv_def by blast
qed

lemma claimed_known:
  assumes "row_update g s t" and "mset es = mset (filter p (ob_rows t))" and "e \<in> set es"
  shows "known t e"
proof -
  have "set es = set (filter p (ob_rows t))" using assms(2) by (metis set_mset_mset)
  with assms(3) have "e \<in> set (ob_rows t)" by simp
  then show ?thesis unfolding known_def using same_content_refl by blast
qed

lemma outbox_inv_step: "outbox_step d S T \<Longrightarrow> outbox_inv d S \<Longrightarrow> outbox_inv d T"
proof (induction rule: outbox_step.induct)
  case (insert_event e S)
  let ?t = "(os_state S)\<lparr>ob_rows := ob_rows (os_state S) @ [e]\<rparr>"
  have k: "known (os_state S) x \<Longrightarrow> known ?t x" for x by (auto simp: known_def)
  have "oe_PublishedAt e = None" using insert_event(1) by (simp add: fresh_event_def)
  then show ?case using insert_event(2,3) k unfolding outbox_inv_def by (simp; blast)
next
  case (observe S r s)
  show ?case by (rule outbox_inv_update [OF observe(2) observe_effect [OF observe(1)]]) simp
next
  case (claim pg owner now S es s)
  from claim(2,1) show ?case
  proof (cases rule: claim_effect)
    case (2 ids g)
    then have es: "mset es = mset (filter (\<lambda>e. oe_ID e \<in> set ids) (ob_rows s))" by simp
    have i: "outbox_inv d (S\<lparr>os_state := s\<rparr>)"
      by (rule outbox_inv_update [OF claim(3) 2(2)]) (simp add: 2(1) lease_row_def split: if_splits)
    let ?S = "S\<lparr>os_state := s\<rparr>" and ?r = "\<lparr>dr_owner = owner, dr_now = now, dr_todo = es, dr_held = None\<rparr>"
    have "outbox_inv d (?S\<lparr>os_runs := os_runs S @ [?r]\<rparr>)"
    proof (rule outbox_inv_runs [OF i])
      fix r e assume "r \<in> set (os_runs S @ [?r])" "e \<in> set (in_flight r)"
      moreover have "in_flight ?r = es" by (simp add: in_flight_def)
      ultimately show "known (os_state ?S) e" using i claimed_known [OF 2(2) es] by (auto simp: outbox_inv_def)
    next
      fix r e assume "r \<in> set (os_runs S @ [?r])" "dr_held r = Some (e, None)"
      then show "delivered (di_publisher d) (ob_sent (os_state ?S)) e" using i by (auto simp: outbox_inv_def)
    qed
    then show ?thesis by simp
  qed simp
next
  case (claim_failed pg owner now S err s)
  from claim_failed(2,1) show ?case
  proof (cases rule: claim_effect)
    case (1 err)
    show ?thesis by (rule outbox_inv_update [OF claim_failed(3) 1(1)]) simp
  next
    case (2 ids g)
    show ?thesis by (rule outbox_inv_update [OF claim_failed(3) 2(2)]) (simp add: 2(1) lease_row_def split: if_splits)
  qed
next
  case (publish i S e es sent s)
  from publish(4) obtain ms where ms: "ob_rows s = ob_rows (os_state S)" "ob_sent s = ob_sent (os_state S) @ ms"
    "length ms \<le> 1" "\<forall>m \<in> set ms. sm_EventID m = oe_ID e" "sent = None \<longrightarrow> delivered (di_publisher d) (ob_sent s) e"
    by (rule outbox_Publish_effect)
  have i: "outbox_inv d (S\<lparr>os_state := s\<rparr>)" by (rule outbox_inv_sent [OF publish(5) ms(1,2)])
  let ?S = "S\<lparr>os_state := s\<rparr>" and ?r = "(os_runs S ! i)\<lparr>dr_todo := es, dr_held := Some (e, sent)\<rparr>"
  have mem: "os_runs S ! i \<in> set (os_runs S)" using publish(1) by simp
  have "set (in_flight ?r) = set (in_flight (os_runs S ! i))" using publish(2,3) by (auto simp: in_flight_def)
  then have kn: "known s x" if "x \<in> set (in_flight ?r)" for x
    using i mem that by (auto simp: outbox_inv_def)
  have "outbox_inv d (?S\<lparr>os_runs := (os_runs ?S)[i := ?r]\<rparr>)"
    by (rule outbox_inv_run [OF i]) (use kn ms(5) in simp_all)
  then show ?case by simp
next
  case (settle i S e sent at r s)
  let ?run = "os_runs S ! i"
  have mem: "?run \<in> set (os_runs S)" using settle(1) by simp
  have known: "known (os_state S) e" using settle(2,4) mem by (auto simp: outbox_inv_def in_flight_def)
  have dist: "distinct (map oe_ID (ob_rows (os_state S)))" using settle(4) by (simp add: outbox_inv_def)
  have i: "outbox_inv d (S\<lparr>os_state := s\<rparr>)"
    using settle(3)
  proof (cases rule: settle_effect)
    case 1
    show ?thesis by (rule outbox_inv_update [OF settle(4) 1]) simp
  next
    case 2
    show ?thesis by (rule outbox_inv_update [OF settle(4) 2(2)]) (simp add: retry_row_def split: if_splits)
  next
    case 3
    have dl: "delivered (di_publisher d) (ob_sent (os_state S)) e" using settle(2,4) mem 3(1) by (auto simp: outbox_inv_def)
    show ?thesis
    proof (rule outbox_inv_update [OF settle(4) 3(2)])
      fix x assume x: "x \<in> set (ob_rows (os_state S))"
        and p: "oe_PublishedAt (if owned_by (oe_ID e) (dr_owner ?run) x then publish_row at x else x) \<noteq> None"
      show "oe_PublishedAt x \<noteq> None \<or> delivered (di_publisher d) (ob_sent (os_state S)) x"
      proof (cases "owned_by (oe_ID e) (dr_owner ?run) x")
        case True
        then have "same_content e x" by (intro known_row [OF known x _ dist]) (simp add: owned_by_def)
        with dl show ?thesis using delivered_content by blast
      qed (use p in simp)
    qed
  qed
  have sub: "set (in_flight (?run\<lparr>dr_held := None\<rparr>)) \<subseteq> set (in_flight ?run)" by (auto simp: in_flight_def)
  let ?S = "S\<lparr>os_state := s\<rparr>"
  have kn: "known s x" if "x \<in> set (in_flight ?run)" for x using i mem that by (auto simp: outbox_inv_def)
  have "outbox_inv d (?S\<lparr>os_runs := (os_runs ?S)[i := ?run\<lparr>dr_held := None\<rparr>]\<rparr>)"
    by (rule outbox_inv_run [OF i]) (use kn sub in auto)
  then show ?case by simp
next
  case (try_publish row S e sent s)
  from try_publish(3) obtain ms where ms: "ob_rows s = ob_rows (os_state S)" "ob_sent s = ob_sent (os_state S) @ ms"
    "length ms \<le> 1" "\<forall>m \<in> set ms. sm_EventID m = oe_ID e" "sent = None \<longrightarrow> delivered (di_publisher d) (ob_sent s) e"
    by (rule outbox_Publish_effect)
  have i: "outbox_inv d (S\<lparr>os_state := s\<rparr>)" by (rule outbox_inv_sent [OF try_publish(4) ms(1,2)])
  have "known s e" using try_publish(1,2) ms(1) by (auto simp: known_def)
  then show ?case using i ms(5) unfolding outbox_inv_def by auto
next
  case (mark eventID S at r s)
  have dist: "distinct (map oe_ID (ob_rows (os_state S)))" using mark(3) by (simp add: outbox_inv_def)
  obtain e where e: "oe_ID e = eventID" "known (os_state S) e" "delivered (di_publisher d) (ob_sent (os_state S)) e"
    using mark(1,3) by (auto simp: outbox_inv_def)
  have i: "outbox_inv d (S\<lparr>os_state := s\<rparr>)"
    using mark(2)
  proof (cases rule: mark_effect)
    case 1
    show ?thesis by (rule outbox_inv_update [OF mark(3) 1]) simp
  next
    case 2
    show ?thesis
    proof (rule outbox_inv_update [OF mark(3) 2])
      fix x assume x: "x \<in> set (ob_rows (os_state S))" and p: "oe_PublishedAt (if unleased eventID x then publish_row at x else x) \<noteq> None"
      show "oe_PublishedAt x \<noteq> None \<or> delivered (di_publisher d) (ob_sent (os_state S)) x"
      proof (cases "unleased eventID x")
        case True
        then have "same_content e x" using e(1) by (intro known_row [OF e(2) x _ dist]) (simp add: unleased_def)
        with e(3) show ?thesis using delivered_content by blast
      qed (use p in simp)
    qed
  qed
  then show ?case unfolding outbox_inv_def by (auto dest: notin_set_remove1 in_set_remove1)
qed

lemma outbox_inv_reachable: "outbox_reachable d S \<Longrightarrow> outbox_inv d S"
proof (induction rule: outbox_reachable.induct)
  case (init fs)
  show ?case by (simp add: outbox_inv_def initial_system_def)
next
  case (step S T)
  then show ?case using outbox_inv_step by blast
qed

end
