(* ===== verification/Outbox_Proofs.thy ===== *)
theory Outbox_Proofs
  imports Outbox_System
begin

text \<open>
  Three facts about the dispatcher. Deliveries of an event are bounded by its publication
  attempts; a dispatch is a sequence of the steps of \<open>Outbox_System\<close>, so what holds of every
  interleaving holds of it; and a dispatch without faults publishes every due event of its batch.
\<close>

section \<open>Retry delays\<close>

lemma retry_loop_closed: "0 < delay \<Longrightarrow> retry_loop n delay = min maxRetryDelay (delay * 2 ^ n)"
proof (induction n arbitrary: delay)
  case (Suc n)
  show ?case
  proof (cases "delay \<ge> maxRetryDelay div 2")
    case True
    have even: "2 * (maxRetryDelay div 2) = maxRetryDelay" by (simp add: maxRetryDelay_def nsPerMinute_def nsPerSecond_def)
    have "1 * (2 * delay) \<le> 2 ^ n * (2 * delay)" by (rule mult_right_mono) (use Suc.prems in simp_all)
    then have "maxRetryDelay \<le> delay * 2 ^ Suc n" using True even by (simp add: ac_simps)
    with True show ?thesis by simp
  next
    case False
    then show ?thesis using Suc.IH [of "delay * 2"] Suc.prems by (simp add: ac_simps)
  qed
qed simp

lemma retry_delay_closed: "outboxRetryDelay a = min maxRetryDelay (nsPerMinute * 2 ^ nat (max a 1 - 1))"
proof -
  have "0 < nsPerMinute" by (simp add: nsPerMinute_def nsPerSecond_def)
  from retry_loop_closed [OF this] show ?thesis by (simp add: outboxRetryDelay_def max_def Let_def)
qed

section \<open>Deliveries are bounded by attempts\<close>

definition sent_count :: "outbox_state \<Rightarrow> string \<Rightarrow> nat" where
  "sent_count s i = length (filter (\<lambda>m. sm_EventID m = i) (ob_sent s))"

definition todo_count :: "string \<Rightarrow> dispatch_run \<Rightarrow> nat" where
  "todo_count i r = length (filter (\<lambda>e. oe_ID e = i) (dr_todo r))"

definition budget :: "outbox_system \<Rightarrow> string \<Rightarrow> nat" where
  "budget S i = sent_count (os_state S) i + sum_list (map (todo_count i) (os_runs S))"

definition attempts_inv :: "outbox_system \<Rightarrow> bool" where
  "attempts_inv S \<longleftrightarrow>
     (\<forall>row \<in> set (ob_rows (os_state S)).
        int (budget S (oe_ID row)) \<le> oe_PublishAttempts row + int (count_list (os_tries S) (oe_ID row))) \<and>
     (\<forall>i. 0 < budget S i \<longrightarrow> i \<in> oe_ID ` set (ob_rows (os_state S)))"

lemma attempts_inv_update:
  assumes "attempts_inv S" and "row_update g (os_state S) t"
    and "\<And>e. e \<in> set (ob_rows (os_state S)) \<Longrightarrow> oe_PublishAttempts e \<le> oe_PublishAttempts (g e)"
  shows "attempts_inv (S\<lparr>os_state := t\<rparr>)"
proof -
  have u: "ob_sent t = ob_sent (os_state S)" "ob_rows t = map g (ob_rows (os_state S))" "\<And>e. oe_ID (g e) = oe_ID e"
    using assms(2) by (auto simp: row_update_def same_content_def)
  have b: "budget (S\<lparr>os_state := t\<rparr>) i = budget S i" for i by (simp add: budget_def sent_count_def u(1))
  have "oe_ID ` set (ob_rows t) = oe_ID ` set (ob_rows (os_state S))" by (simp add: u image_image)
  then show ?thesis using assms(1,3) u b unfolding attempts_inv_def by (fastforce intro: order_trans)
qed

text \<open>A smaller budget keeps the bound.\<close>

lemma attempts_inv_budget:
  assumes "attempts_inv S" and "ob_rows (os_state T) = ob_rows (os_state S)"
    and "\<And>i. budget T i + count_list (os_tries S) i \<le> budget S i + count_list (os_tries T) i"
    and "\<And>i. 0 < budget T i \<Longrightarrow> 0 < budget S i \<or> i \<in> oe_ID ` set (ob_rows (os_state S))"
  shows "attempts_inv T"
proof -
  have "int (budget T (oe_ID row)) \<le> oe_PublishAttempts row + int (count_list (os_tries T) (oe_ID row))"
    if "row \<in> set (ob_rows (os_state S))" for row
    using assms(1) assms(3) [of "oe_ID row"] that unfolding attempts_inv_def by fastforce
  moreover have "i \<in> oe_ID ` set (ob_rows (os_state S))" if "0 < budget T i" for i
    using assms(1) assms(4) [OF that] unfolding attempts_inv_def by blast
  ultimately show ?thesis using assms(2) unfolding attempts_inv_def by simp
qed

lemma count_update:
  assumes "i < length rs" and "todo_count k r + c = todo_count k (rs ! i)"
  shows "sum_list (map (todo_count k) (rs[i := r])) + c = sum_list (map (todo_count k) rs)"
proof -
  have "todo_count k (rs ! i) \<le> sum_list (map (todo_count k) rs)"
    using elem_le_sum_list [of i "map (todo_count k) rs"] assms(1) by simp
  then show ?thesis using assms by (simp add: map_update sum_list_update)
qed

lemma filter_id_le_1: "distinct (map f xs) \<Longrightarrow> length (filter (\<lambda>x. f x = i) xs) \<le> 1"
  by (induction xs) (auto simp: filter_empty_conv image_iff)

lemma sent_message_count:
  assumes "length ms \<le> 1" and "\<forall>m \<in> set ms. sm_EventID m = j"
  shows "length (filter (\<lambda>m. sm_EventID m = i) ms) \<le> (if i = j then 1 else 0)"
  using assms by (cases ms) auto

lemma attempts_inv_step: "outbox_step d S T \<Longrightarrow> outbox_inv d S \<Longrightarrow> attempts_inv S \<Longrightarrow> attempts_inv T"
proof (induction rule: outbox_step.induct)
  case (insert_event e S)
  let ?T = "S\<lparr>os_state := (os_state S)\<lparr>ob_rows := ob_rows (os_state S) @ [e]\<rparr>\<rparr>"
  have b: "budget ?T i = budget S i" for i by (simp add: budget_def sent_count_def)
  have "budget S (oe_ID e) = 0" using insert_event(2,4) unfolding attempts_inv_def by (metis neq0_conv)
  then show ?case using insert_event(1,4) b unfolding attempts_inv_def by (auto simp: fresh_event_def)
next
  case (observe S r s)
  show ?case by (rule attempts_inv_update [OF observe(3) observe_effect [OF observe(1)]]) simp
next
  case (claim pg owner now S es s)
  let ?T = "S\<lparr>os_state := s, os_runs := os_runs S @ [\<lparr>dr_owner = owner, dr_now = now, dr_todo = es, dr_held = None\<rparr>]\<rparr>"
  from claim(2,1) show ?case
  proof (cases rule: claim_effect)
    case (2 ids g)
    then have es: "mset es = mset (filter (\<lambda>e. oe_ID e \<in> set ids) (ob_rows s))" by simp
    have u: "ob_sent s = ob_sent (os_state S)" "ob_rows s = map g (ob_rows (os_state S))" "\<And>e. oe_ID (g e) = oe_ID e"
      using 2(2) by (auto simp: row_update_def same_content_def)
    have dist: "distinct (map oe_ID (ob_rows s))"
      using claim(3) ids_update [OF 2(2)] by (simp add: outbox_inv_def)
    define n where "n i = length (filter (\<lambda>e. oe_ID e = i) es)" for i
    have nf: "n i = length (filter (\<lambda>e. oe_ID e = i) (filter (\<lambda>e. oe_ID e \<in> set ids) (ob_rows s)))" for i
      unfolding n_def using es by (metis mset_filter size_mset)
    have n1: "n i \<le> 1" for i
      unfolding nf using filter_id_le_1 [of oe_ID "filter (\<lambda>e. oe_ID e \<in> set ids) (ob_rows s)" i] dist by (simp add: distinct_map_filter)
    have n0: "n i = 0" if "i \<notin> set ids \<or> i \<notin> oe_ID ` set (ob_rows s)" for i
      unfolding nf using that by (auto simp: filter_empty_conv)
    have b: "budget ?T i = budget S i + n i" for i
      by (simp add: budget_def sent_count_def u(1) todo_count_def n_def)
    have img: "oe_ID ` set (ob_rows s) = oe_ID ` set (ob_rows (os_state S))" by (simp add: u image_image)
    have "int (budget ?T (oe_ID row)) \<le> oe_PublishAttempts row + int (count_list (os_tries S) (oe_ID row))"
      if row: "row \<in> set (ob_rows s)" for row
    proof -
      obtain e where e: "e \<in> set (ob_rows (os_state S))" "row = g e" using row u(2) by auto
      have "int (budget S (oe_ID e)) \<le> oe_PublishAttempts e + int (count_list (os_tries S) (oe_ID e))"
        using claim(4) e(1) by (simp add: attempts_inv_def)
      moreover have "oe_PublishAttempts e + int (n (oe_ID e)) \<le> oe_PublishAttempts (g e)"
        using n1 [of "oe_ID e"] n0 [of "oe_ID e"] by (simp add: 2(1) lease_row_def)
      ultimately show ?thesis using b e(2) u(3) by simp
    qed
    moreover have "i \<in> oe_ID ` set (ob_rows s)" if "0 < budget ?T i" for i
      using that claim(4) n0 [of i] img unfolding b attempts_inv_def by fastforce
    ultimately show ?thesis unfolding attempts_inv_def by simp
  qed simp
next
  case (claim_failed pg owner now S err s)
  from claim_failed(2,1) show ?case
  proof (cases rule: claim_effect)
    case (1 err)
    show ?thesis by (rule attempts_inv_update [OF claim_failed(4) 1(1)]) simp
  next
    case (2 ids g)
    show ?thesis by (rule attempts_inv_update [OF claim_failed(4) 2(2)]) (simp add: 2(1) lease_row_def)
  qed
next
  case (publish i S e es sent s)
  let ?r = "(os_runs S ! i)\<lparr>dr_todo := es, dr_held := Some (e, sent)\<rparr>"
  let ?T = "S\<lparr>os_state := s, os_runs := (os_runs S)[i := ?r]\<rparr>"
  from publish(4) obtain ms where ms: "ob_rows s = ob_rows (os_state S)" "ob_sent s = ob_sent (os_state S) @ ms"
    "length ms \<le> 1" "\<forall>m \<in> set ms. sm_EventID m = oe_ID e" "sent = None \<longrightarrow> delivered (di_publisher d) (ob_sent s) e"
    by (rule outbox_Publish_effect)
  have "todo_count k ?r + (if k = oe_ID e then 1 else 0) = todo_count k (os_runs S ! i)" for k
    using publish(2) by (simp add: todo_count_def)
  note cu = count_update [OF publish(1) this]
  have b: "budget ?T k \<le> budget S k" for k
  proof -
    have "budget ?T k = sent_count (os_state S) k + length (filter (\<lambda>m. sm_EventID m = k) ms)
        + sum_list (map (todo_count k) ((os_runs S)[i := ?r]))"
      by (simp add: budget_def sent_count_def ms(2))
    then show ?thesis using sent_message_count [OF ms(3,4), of k] cu [of k] unfolding budget_def by linarith
  qed
  show ?case
  proof (rule attempts_inv_budget [OF publish(6)])
    fix k assume "0 < budget ?T k"
    with b [of k] show "0 < budget S k \<or> k \<in> oe_ID ` set (ob_rows (os_state S))" by linarith
  qed (use ms(1) b in simp_all)
next
  case (settle i S e sent at r s)
  have "attempts_inv (S\<lparr>os_state := s\<rparr>)"
    using settle(3)
  proof (cases rule: settle_effect)
    case 1
    show ?thesis by (rule attempts_inv_update [OF settle(5) 1]) simp
  next
    case 2
    show ?thesis by (rule attempts_inv_update [OF settle(5) 2(2)]) (simp add: retry_row_def)
  next
    case 3
    show ?thesis by (rule attempts_inv_update [OF settle(5) 3(2)]) (simp add: publish_row_def)
  qed
  moreover have "sum_list (map (todo_count k) ((os_runs S)[i := (os_runs S ! i)\<lparr>dr_held := None\<rparr>])) = sum_list (map (todo_count k) (os_runs S))" for k
    using count_update [OF settle(1), of k "(os_runs S ! i)\<lparr>dr_held := None\<rparr>" 0] by (simp add: todo_count_def)
  ultimately show ?case unfolding attempts_inv_def budget_def by simp
next
  case (try_publish row S e sent s)
  from try_publish(3) obtain ms where ms: "ob_rows s = ob_rows (os_state S)" "ob_sent s = ob_sent (os_state S) @ ms"
    "length ms \<le> 1" "\<forall>m \<in> set ms. sm_EventID m = oe_ID e" "sent = None \<longrightarrow> delivered (di_publisher d) (ob_sent s) e"
    by (rule outbox_Publish_effect)
  let ?T = "S\<lparr>os_state := s, os_marks := (if sent = None then [oe_ID e] else []) @ os_marks S, os_tries := oe_ID e # os_tries S\<rparr>"
  have b: "budget ?T k \<le> budget S k + (if k = oe_ID e then 1 else 0)" for k
    using sent_message_count [OF ms(3,4), of k] by (simp add: budget_def sent_count_def ms(2))
  have "oe_ID e \<in> oe_ID ` set (ob_rows (os_state S))" using try_publish(1,2) by (auto simp: same_content_def)
  then have "0 < budget S k \<or> k \<in> oe_ID ` set (ob_rows (os_state S))" if "0 < budget ?T k" for k
    using that b [of k] by (cases "k = oe_ID e") auto
  moreover have "budget ?T k + count_list (os_tries S) k \<le> budget S k + count_list (os_tries ?T) k" for k
    using b [of k] by (auto split: if_splits)
  ultimately show ?case by (intro attempts_inv_budget [OF try_publish(5)]) (use ms(1) in auto)
next
  case (mark eventID S at r s)
  have "attempts_inv (S\<lparr>os_state := s\<rparr>)"
    using mark(2)
  proof (cases rule: mark_effect)
    case 1
    show ?thesis by (rule attempts_inv_update [OF mark(4) 1]) simp
  next
    case 2
    show ?thesis by (rule attempts_inv_update [OF mark(4) 2]) (simp add: publish_row_def)
  qed
  then show ?case unfolding attempts_inv_def budget_def by simp
qed

lemma attempts_inv_reachable: "outbox_reachable d S \<Longrightarrow> attempts_inv S"
proof (induction rule: outbox_reachable.induct)
  case (init fs)
  show ?case by (simp add: attempts_inv_def initial_system_def budget_def sent_count_def)
next
  case (step S T)
  then show ?case using attempts_inv_step outbox_inv_reachable by blast
qed

section \<open>A dispatch is a run of the system\<close>

lemma dispatch_loop_steps:
  assumes "dispatch_loop (di_publisher d) (dr_owner r) (dr_now r) clock i es s = (res, t)"
    and "os_state S = s" and "k < length (os_runs S)" and "os_runs S ! k = r" and "dr_todo r = es" and "dr_held r = None"
  shows "\<exists>rs. (outbox_step d)\<^sup>*\<^sup>* S (S\<lparr>os_state := t, os_runs := rs\<rparr>)"
  using assms
proof (induction es arbitrary: i s S r res)
  case Nil
  then have "S = S\<lparr>os_state := t, os_runs := os_runs S\<rparr>" by (cases S) auto
  then show ?case by (metis rtranclp.rtrancl_refl)
next
  case (Cons e es)
  obtain sent s1 where pub: "outbox_Publish (di_publisher d) e s = (sent, s1)" by fastforce
  obtain q s2 where set: "settle_event (dr_owner r) (dr_now r) (clock i) e sent s1 = (q, s2)" by fastforce
  obtain rest where rest: "dispatch_loop (di_publisher d) (dr_owner r) (dr_now r) clock (Suc i) es s2 = (rest, t)"
    using Cons(2) pub set by (auto split: prod.splits)
  let ?S1 = "S\<lparr>os_state := s1, os_runs := (os_runs S)[k := r\<lparr>dr_todo := es, dr_held := Some (e, sent)\<rparr>]\<rparr>"
  let ?r2 = "r\<lparr>dr_todo := es, dr_held := None\<rparr>"
  let ?S2 = "S\<lparr>os_state := s2, os_runs := (os_runs S)[k := ?r2]\<rparr>"
  have a: "outbox_step d S ?S1"
    using outbox_step.publish [of k S e es d sent s1] Cons(3-7) pub by simp
  have "outbox_step d ?S1 (?S1\<lparr>os_state := s2, os_runs := (os_runs ?S1)[k := (os_runs ?S1 ! k)\<lparr>dr_held := None\<rparr>]\<rparr>)"
    using outbox_step.settle [of k ?S1 e sent "clock i" q s2 d] Cons(4,5) set by simp
  then have b: "outbox_step d ?S1 ?S2" using Cons(4,5) by simp
  have "\<exists>rs. (outbox_step d)\<^sup>*\<^sup>* ?S2 (?S2\<lparr>os_state := t, os_runs := rs\<rparr>)"
    by (rule Cons(1) [of ?r2 "Suc i" s2 rest]) (use rest Cons(4) in simp_all)
  then obtain rs where "(outbox_step d)\<^sup>*\<^sup>* ?S2 (S\<lparr>os_state := t, os_runs := rs\<rparr>)" by auto
  then show ?case using a b by (meson converse_rtranclp_into_rtranclp)
qed

lemma dispatch_is_run:
  assumes "Dispatch d pg clock owner (os_state S) = (res, t)" and "lists_all pg"
  shows "\<exists>rs. (outbox_step d)\<^sup>*\<^sup>* S (S\<lparr>os_state := t, os_runs := rs\<rparr>)"
proof -
  have refl: "\<exists>rs. (outbox_step d)\<^sup>*\<^sup>* S' (S'\<lparr>os_state := os_state S', os_runs := rs\<rparr>)" for S'
    by (rule exI [of _ "os_runs S'"]) simp
  let ?o = "TrimSpace owner" and ?now = "clock 0"
  show ?thesis
  proof (cases "?o = []")
    case True
    with assms(1) have "t = os_state S" by (simp add: Dispatch_def)
    then show ?thesis using refl [of S] by simp
  next
    case False
    obtain q s1 where q: "OldestPendingOutboxEventCreatedAt (di_eventTypes d) (os_state S) = (q, s1)" by fastforce
    let ?S1 = "S\<lparr>os_state := s1\<rparr>"
    have st1: "outbox_step d S ?S1" by (rule outbox_step.observe [OF q])
    show ?thesis
    proof (cases q)
      case (Inl err)
      with assms(1) False q have "t = s1" by (simp add: Dispatch_def Let_def)
      then show ?thesis using st1 by (intro exI [of _ "os_runs S"]) auto
    next
      case (Inr oldest)
      obtain c s2 where c: "ClaimOutboxEvents pg ?o ?now (?now + di_leaseDuration d) (di_eventTypes d) (di_batchSize d) s1 = (c, s2)" by fastforce
      show ?thesis
      proof (cases c)
        case c': (Inl err)
        with assms(1) False q Inr c have t: "t = s2" by (simp add: Dispatch_def Let_def)
        have "outbox_step d ?S1 (?S1\<lparr>os_state := s2\<rparr>)"
          by (rule outbox_step.claim_failed [OF assms(2), of ?o ?now d _ err]) (use c c' in simp)
        with st1 have "(outbox_step d)\<^sup>*\<^sup>* S (S\<lparr>os_state := t, os_runs := os_runs S\<rparr>)" using t by simp
        then show ?thesis by blast
      next
        case c': (Inr es)
        let ?r = "\<lparr>dr_owner = ?o, dr_now = ?now, dr_todo = es, dr_held = None\<rparr>"
        let ?S2 = "?S1\<lparr>os_state := s2, os_runs := os_runs S @ [?r]\<rparr>"
        obtain l where l: "dispatch_loop (di_publisher d) ?o ?now (\<lambda>i. clock (Suc i)) 0 es s2 = (l, t)"
          using assms(1) False q Inr c c' by (auto simp: Dispatch_def Let_def split: prod.splits)
        have st2: "outbox_step d ?S1 ?S2"
          using outbox_step.claim [OF assms(2), of ?o ?now d ?S1 es s2] c c' by simp
        have "\<exists>rs. (outbox_step d)\<^sup>*\<^sup>* ?S2 (?S2\<lparr>os_state := t, os_runs := rs\<rparr>)"
          by (rule dispatch_loop_steps [where r = ?r and k = "length (os_runs S)"]) (use l in simp_all)
        then obtain rs where "(outbox_step d)\<^sup>*\<^sup>* ?S2 (S\<lparr>os_state := t, os_runs := rs\<rparr>)" by auto
        then show ?thesis using st1 st2 by (meson converse_rtranclp_into_rtranclp)
      qed
    qed
  qed
qed

lemma dispatch_reachable:
  assumes "outbox_reachable d S" and "Dispatch d pg clock owner (os_state S) = (res, t)" and "lists_all pg"
  shows "\<exists>rs. outbox_reachable d (S\<lparr>os_state := t, os_runs := rs\<rparr>)"
proof -
  have "(outbox_step d)\<^sup>*\<^sup>* S T \<Longrightarrow> outbox_reachable d T" for T
    by (induction rule: rtranclp_induct) (auto intro: assms(1) outbox_reachable.step)
  then show ?thesis using dispatch_is_run [OF assms(2,3)] by blast
qed

section \<open>A dispatch without faults\<close>

lemma row_ids [simp]: "oe_ID (lease_row owner until e) = oe_ID e" "oe_ID (publish_row at e) = oe_ID e"
  by (simp_all add: lease_row_def publish_row_def)

lemma publish_without_faults:
  assumes "fa_faults s = []" and "route p e = Inr (q, m)"
  shows "outbox_Publish p e s = (None, s\<lparr>ob_sent := ob_sent s @ [\<lparr>sm_Queue = q, sm_Body = m, sm_EventID = oe_ID e\<rparr>]\<rparr>)"
  using assms by (simp add: outbox_Publish_def SendMessage_def call_without_faults)

lemma complete_without_faults:
  assumes "fa_faults s = []" and "TrimSpace i \<noteq> []" and "TrimSpace owner \<noteq> []" and "at \<noteq> zero_time"
    and "length (filter (owned_by i owner) (ob_rows s)) = 1"
  shows "CompleteOutboxEvent i owner at s =
    (None, s\<lparr>ob_rows := map (\<lambda>e. if owned_by i owner e then publish_row at e else e) (ob_rows s)\<rparr>)"
  using assms by (simp add: CompleteOutboxEvent_def validateOutboxLeaseMutation_def mutate_one_def call_without_faults update_rows_def)

lemma owned_once:
  assumes "distinct (map oe_ID rows)" and "row \<in> set rows" and "owned_by (oe_ID row) owner row"
  shows "length (filter (owned_by (oe_ID row) owner) rows) = 1"
proof -
  have "filter (owned_by (oe_ID row) owner) rows \<noteq> []" using assms(2,3) by (auto simp: filter_empty_conv)
  moreover have "length (filter (owned_by (oe_ID row) owner) rows) \<le> length (filter (\<lambda>e. oe_ID e = oe_ID row) rows)"
  proof -
    have "filter (owned_by (oe_ID row) owner) rows = filter (owned_by (oe_ID row) owner) (filter (\<lambda>e. oe_ID e = oe_ID row) rows)"
      unfolding filter_filter by (rule filter_cong) (auto simp: owned_by_def)
    then show ?thesis by (metis length_filter_le)
  qed
  ultimately show ?thesis using filter_id_le_1 [OF assms(1), of "oe_ID row"]
    by (metis One_nat_def le_antisym le_trans length_greater_0_conv Suc_leI)
qed

text \<open>The row of an event after a dispatch that sent it.\<close>

definition published_from :: "outbox_event \<Rightarrow> outbox_event \<Rightarrow> bool" where
  "published_from x y \<longleftrightarrow> (\<exists>at. y = publish_row at x)"

lemma loop_without_faults:
  assumes "fa_faults s = []" and "distinct (map oe_ID (ob_rows s))" and "distinct (map oe_ID es)"
    and "\<forall>e \<in> set es. (\<exists>row \<in> set (ob_rows s). oe_ID row = oe_ID e \<and> owned_by (oe_ID e) owner row) \<and>
      TrimSpace (oe_ID e) \<noteq> [] \<and> (\<exists>q m. route p e = Inr (q, m))"
    and "TrimSpace owner \<noteq> []" and "\<forall>k. clock k \<noteq> zero_time"
  shows "\<exists>t. dispatch_loop p owner now clock i es s = ((length es, 0, []), t) \<and> fa_faults t = [] \<and>
    list_all2 (\<lambda>x y. if oe_ID x \<in> oe_ID ` set es then published_from x y else y = x) (ob_rows s) (ob_rows t) \<and>
    map sm_EventID (ob_sent t) = map sm_EventID (ob_sent s) @ map oe_ID es"
  using assms
proof (induction es arbitrary: s i)
  case Nil
  then show ?case by (simp add: list_all2_same)
next
  case (Cons e es)
  from Cons.prems(4) obtain row q m where row: "row \<in> set (ob_rows s)" "oe_ID row = oe_ID e" "owned_by (oe_ID e) owner row"
    and id: "TrimSpace (oe_ID e) \<noteq> []" and rt: "route p e = Inr (q, m)" by auto
  let ?s1 = "s\<lparr>ob_sent := ob_sent s @ [\<lparr>sm_Queue = q, sm_Body = m, sm_EventID = oe_ID e\<rparr>]\<rparr>"
  have pub: "outbox_Publish p e s = (None, ?s1)" by (rule publish_without_faults [OF Cons.prems(1) rt])
  let ?g = "\<lambda>x. if owned_by (oe_ID e) owner x then publish_row (clock i) x else x"
  let ?s2 = "?s1\<lparr>ob_rows := map ?g (ob_rows s)\<rparr>"
  have one: "length (filter (owned_by (oe_ID e) owner) (ob_rows s)) = 1"
    using owned_once [OF Cons.prems(2) row(1)] row by simp
  have st: "settle_event owner now (clock i) e None ?s1 = ((1, 0, []), ?s2)"
    using complete_without_faults [of ?s1 "oe_ID e" owner "clock i"] Cons.prems(1,5,6) id one by (simp add: settle_event_def)
  have gid: "oe_ID (?g x) = oe_ID x" for x by (simp add: publish_row_def)
  have keep: "?g x = x" if "oe_ID x \<noteq> oe_ID e" for x using that by (simp add: owned_by_def)
  have ids: "map oe_ID (map ?g (ob_rows s)) = map oe_ID (ob_rows s)" using gid by simp
  have "\<exists>t. dispatch_loop p owner now clock (Suc i) es ?s2 = ((length es, 0, []), t) \<and> fa_faults t = [] \<and>
    list_all2 (\<lambda>x y. if oe_ID x \<in> oe_ID ` set es then published_from x y else y = x) (ob_rows ?s2) (ob_rows t) \<and>
    map sm_EventID (ob_sent t) = map sm_EventID (ob_sent ?s2) @ map oe_ID es"
  proof (rule Cons.IH)
    have "map oe_ID (ob_rows ?s2) = map oe_ID (ob_rows s)" using ids by (simp del: map_map)
    then show "distinct (map oe_ID (ob_rows ?s2))" using Cons.prems(2) by presburger
    show "\<forall>x \<in> set es. (\<exists>row \<in> set (ob_rows ?s2). oe_ID row = oe_ID x \<and> owned_by (oe_ID x) owner row) \<and>
      TrimSpace (oe_ID x) \<noteq> [] \<and> (\<exists>q m. route p x = Inr (q, m))"
    proof
      fix x assume x: "x \<in> set es"
      then obtain row' where r: "row' \<in> set (ob_rows s)" "oe_ID row' = oe_ID x" "owned_by (oe_ID x) owner row'" using Cons.prems(4) by auto
      have "oe_ID x \<noteq> oe_ID e" using Cons.prems(3) x by (auto simp: image_iff)
      then have "?g row' = row'" using keep r(2) by simp
      then have "row' \<in> ?g ` set (ob_rows s)" using r(1) image_eqI [of row' ?g row'] by simp
      then have "row' \<in> set (ob_rows ?s2)" by simp
      then show "(\<exists>row \<in> set (ob_rows ?s2). oe_ID row = oe_ID x \<and> owned_by (oe_ID x) owner row) \<and>
        TrimSpace (oe_ID x) \<noteq> [] \<and> (\<exists>q m. route p x = Inr (q, m))" using r Cons.prems(4) x by auto
    qed
  qed (use Cons.prems in simp_all)
  then obtain t where t: "dispatch_loop p owner now clock (Suc i) es ?s2 = ((length es, 0, []), t)" "fa_faults t = []"
    "list_all2 (\<lambda>x y. if oe_ID x \<in> oe_ID ` set es then published_from x y else y = x) (map ?g (ob_rows s)) (ob_rows t)"
    "map sm_EventID (ob_sent t) = map sm_EventID (ob_sent s) @ oe_ID e # map oe_ID es" by auto
  have own: "owned_by (oe_ID e) owner x" if "x \<in> set (ob_rows s)" "oe_ID x = oe_ID e" for x
  proof -
    have "x = row" using that row Cons.prems(2) by (metis distinct_map inj_onD)
    with row show ?thesis by simp
  qed
  have nes: "oe_ID e \<notin> oe_ID ` set es" using Cons.prems(3) by simp
  have "list_all2 (\<lambda>x y. if oe_ID x \<in> oe_ID ` set (e # es) then published_from x y else y = x) (ob_rows s) (ob_rows t)"
  proof (rule list_all2_all_nthI)
    show "length (ob_rows s) = length (ob_rows t)" using list_all2_lengthD [OF t(3)] by simp
    fix n assume n: "n < length (ob_rows s)"
    let ?x = "ob_rows s ! n" and ?y = "ob_rows t ! n"
    have "n < length (map ?g (ob_rows s))" using n by simp
    from list_all2_nthD [OF t(3) this]
    have xy: "if oe_ID (?g ?x) \<in> oe_ID ` set es then published_from (?g ?x) ?y else ?y = ?g ?x" unfolding nth_map [OF n] .
    have mem: "?x \<in> set (ob_rows s)" using n by simp
    show "if oe_ID ?x \<in> oe_ID ` set (e # es) then published_from ?x ?y else ?y = ?x"
    proof (cases "oe_ID ?x = oe_ID e")
      case True
      then have "?y = publish_row (clock i) ?x" using xy nes gid own [OF mem True] by simp
      then show ?thesis using True by (auto simp: published_from_def)
    next
      case False
      then show ?thesis using xy keep by auto
    qed
  qed
  then show ?case using pub st t(1,2,4) by simp
qed

text \<open>What a dispatcher and its surroundings must satisfy for a dispatch to go through.\<close>

definition sound_dispatcher :: "dispatcher \<Rightarrow> bool" where
  "sound_dispatcher d \<longleftrightarrow>
     1 \<le> di_batchSize d \<and> di_batchSize d \<le> 100 \<and> 0 < di_leaseDuration d \<and>
     di_eventTypes d \<noteq> [] \<and> list_all (\<lambda>t. TrimSpace t \<noteq> []) (di_eventTypes d)"

lemma validate_types_result:
  "validate_types vs acc = Inr ts \<Longrightarrow> list_all (\<lambda>t. TrimSpace t \<noteq> []) acc \<Longrightarrow> list_all (\<lambda>t. TrimSpace t \<noteq> []) ts \<and> length acc + length vs = length ts"
proof (induction vs arbitrary: acc)
  case (Cons v vs)
  then have "validate_types vs (acc @ [TrimSpace v]) = Inr ts" "TrimSpace v \<noteq> []" by (auto split: if_splits)
  with Cons(1) [of "acc @ [TrimSpace v]"] Cons(3) show ?case by simp
qed simp

lemma NewDispatcher_sound: "NewDispatcher p batch lease types = Inr d \<Longrightarrow> sound_dispatcher d"
  by (auto simp: NewDispatcher_def validateEventTypes_def sound_dispatcher_def Let_def dest!: validate_types_result split: if_splits sum.splits)

lemma take_sorted_ids:
  assumes "distinct (map oe_ID rows)"
  shows "distinct (claim_ids pg now types limit rows)"
    "length (claim_ids pg now types limit rows) = min (nat limit) (length (filter (\<lambda>e. ready now types e \<and> \<not> pg_locked pg (oe_ID e)) rows))"
    "set (claim_ids pg now types limit rows) \<subseteq> oe_ID ` {e \<in> set rows. ready now types e}"
proof -
  let ?f = "filter (\<lambda>e. ready now types e \<and> \<not> pg_locked pg (oe_ID e)) rows"
  have "distinct (map oe_ID (sort_key claim_order ?f))"
    using assms by (auto simp: distinct_map intro: inj_on_subset)
  then show "distinct (claim_ids pg now types limit rows)"
    unfolding claim_ids_def take_map [symmetric] by (rule distinct_take)
  show "length (claim_ids pg now types limit rows) = min (nat limit) (length ?f)" by (simp add: claim_ids_def min.commute)
  have "set (take (nat limit) (sort_key claim_order ?f)) \<subseteq> set ?f" by (metis set_sort set_take_subset)
  then show "set (claim_ids pg now types limit rows) \<subseteq> oe_ID ` {e \<in> set rows. ready now types e}"
    by (auto simp: claim_ids_def)
qed

lemma map_filter_ids: "map oe_ID (filter (\<lambda>e. oe_ID e \<in> A) ys) = filter (\<lambda>i. i \<in> A) (map oe_ID ys)"
  by (simp add: filter_map o_def)

lemma dispatch_without_faults:
  assumes "sound_dispatcher d" and "TrimSpace owner \<noteq> []" and "length (TrimSpace owner) \<le> 255" and "\<forall>k. clock k \<noteq> zero_time"
    and "fa_faults s = []" and "lists_all pg" and "distinct (map oe_ID (ob_rows s))"
    and "\<forall>e \<in> set (ob_rows s). ready (clock 0) (di_eventTypes d) e \<longrightarrow> TrimSpace (oe_ID e) \<noteq> [] \<and> (\<exists>q m. route (di_publisher d) e = Inr (q, m))"
    and "ids = claim_ids pg (clock 0) (di_eventTypes d) (di_batchSize d) (ob_rows s)"
  shows "\<exists>res t. Dispatch d pg clock owner s = ((res, []), t) \<and> rs_Claimed res = length ids \<and> rs_Published res = length ids \<and>
    rs_Retried res = 0 \<and>
    list_all2 (\<lambda>x y. if oe_ID x \<in> set ids then same_content y x \<and> oe_PublishedAt y \<noteq> None else y = x) (ob_rows s) (ob_rows t)"
proof -
  let ?o = "TrimSpace owner" and ?now = "clock 0" and ?types = "di_eventTypes d"
  let ?g = "\<lambda>e. if oe_ID e \<in> set ids then lease_row ?o (?now + di_leaseDuration d) e else e"
  let ?s1 = "s\<lparr>ob_rows := map ?g (ob_rows s)\<rparr>"
  define es where "es = pg_returning pg (filter (\<lambda>e. oe_ID e \<in> set ids) (map ?g (ob_rows s)))"
  have ty: "?types \<noteq> []" "list_all (\<lambda>t. TrimSpace t \<noteq> []) ?types" and bs: "1 \<le> di_batchSize d" "di_batchSize d \<le> 100" "0 < di_leaseDuration d"
    using assms(1) by (auto simp: sound_dispatcher_def)
  obtain oldest where old: "OldestPendingOutboxEventCreatedAt ?types s = (Inr oldest, s)"
    using ty assms(5) by (simp add: OldestPendingOutboxEventCreatedAt_def call_without_faults)
  have cl: "ClaimOutboxEvents pg ?o ?now (?now + di_leaseDuration d) ?types (di_batchSize d) s = (Inr es, ?s1)"
    using ty bs assms(2-5) by (simp add: ClaimOutboxEvents_def call_without_faults claim_rows_def update_rows_def Let_def assms(9) [symmetric] es_def)
  have gid: "oe_ID (?g e) = oe_ID e" for e by (simp add: lease_row_def)
  have ids1: "map oe_ID (map ?g (ob_rows s)) = map oe_ID (ob_rows s)" using gid by simp
  note ti = take_sorted_ids [OF assms(7), of pg ?now ?types "di_batchSize d", folded assms(9)]
  have mes: "mset es = mset (filter (\<lambda>e. oe_ID e \<in> set ids) (map ?g (ob_rows s)))" using assms(6) by (simp add: es_def lists_all_def)
  have set_es: "set es = {e \<in> ?g ` set (ob_rows s). oe_ID e \<in> set ids}" using arg_cong [OF mes, of set_mset] by (simp only: set_mset_mset set_filter set_map)
  have "mset (map oe_ID es) = mset (map oe_ID (filter (\<lambda>e. oe_ID e \<in> set ids) (map ?g (ob_rows s))))"
    using arg_cong [OF mes, of "image_mset oe_ID"] unfolding mset_map .
  then have "mset (map oe_ID es) = mset (filter (\<lambda>i. i \<in> set ids) (map oe_ID (map ?g (ob_rows s))))" unfolding map_filter_ids .
  then have "mset (map oe_ID es) = mset (filter (\<lambda>i. i \<in> set ids) (map oe_ID (ob_rows s)))" unfolding ids1 .
  moreover have "distinct (filter (\<lambda>i. i \<in> set ids) (map oe_ID (ob_rows s)))" using assms(7) by simp
  ultimately have des: "distinct (map oe_ID es)" by (metis mset_eq_imp_distinct_iff)
  have sub: "set ids \<subseteq> oe_ID ` set (ob_rows s)" using ti(3) by auto
  have eids: "oe_ID ` set es = set ids"
  proof
    show "oe_ID ` set es \<subseteq> set ids" using set_es by auto
    show "set ids \<subseteq> oe_ID ` set es"
    proof
      fix i assume i: "i \<in> set ids"
      then obtain e where "e \<in> set (ob_rows s)" "oe_ID e = i" using sub by auto
      then have "?g e \<in> set es" "oe_ID (?g e) = i" using set_es gid i by auto
      then show "i \<in> oe_ID ` set es" by (metis imageI)
    qed
  qed
  have len: "length es = length ids" using des eids ti(1) by (metis distinct_card length_map list.set_map)
  have loop: "\<exists>t. dispatch_loop (di_publisher d) ?o ?now (\<lambda>k. clock (Suc k)) 0 es ?s1 = ((length es, 0, []), t) \<and> fa_faults t = [] \<and>
    list_all2 (\<lambda>x y. if oe_ID x \<in> oe_ID ` set es then published_from x y else y = x) (ob_rows ?s1) (ob_rows t) \<and>
    map sm_EventID (ob_sent t) = map sm_EventID (ob_sent ?s1) @ map oe_ID es"
  proof (rule loop_without_faults)
    have "map oe_ID (ob_rows ?s1) = map oe_ID (ob_rows s)" using ids1 by (simp del: map_map)
    then show "distinct (map oe_ID (ob_rows ?s1))" using assms(7) by presburger
    show "\<forall>e \<in> set es. (\<exists>row \<in> set (ob_rows ?s1). oe_ID row = oe_ID e \<and> owned_by (oe_ID e) ?o row) \<and>
      TrimSpace (oe_ID e) \<noteq> [] \<and> (\<exists>q m. route (di_publisher d) e = Inr (q, m))"
    proof
      fix e assume e: "e \<in> set es"
      then obtain x where x: "x \<in> set (ob_rows s)" "e = ?g x" "oe_ID x \<in> set ids" using set_es gid by auto
      obtain x' where x': "x' \<in> set (ob_rows s)" "ready ?now ?types x'" "oe_ID x' = oe_ID x" using ti(3) x(3) by auto
      then have "x' = x" using x(1) assms(7) by (meson distinct_map inj_onD)
      with x' have rd: "ready ?now ?types x" by simp
      have "same_content e x" using x by simp
      then have "\<exists>q m. route (di_publisher d) e = Inr (q, m)" using rd x(1) assms(8) route_content by metis
      moreover have "e \<in> set (ob_rows ?s1)" using x by simp
      moreover have "owned_by (oe_ID e) ?o e" using x rd by (simp add: owned_by_def lease_row_def ready_def)
      moreover have "TrimSpace (oe_ID e) \<noteq> []" using rd x assms(8) gid by simp
      ultimately show "(\<exists>row \<in> set (ob_rows ?s1). oe_ID row = oe_ID e \<and> owned_by (oe_ID e) ?o row) \<and>
        TrimSpace (oe_ID e) \<noteq> [] \<and> (\<exists>q m. route (di_publisher d) e = Inr (q, m))" by blast
    qed
  qed (use assms(2,4,5) des in simp_all)
  then obtain t where t: "dispatch_loop (di_publisher d) ?o ?now (\<lambda>k. clock (Suc k)) 0 es ?s1 = ((length es, 0, []), t)"
    "list_all2 (\<lambda>x y. if oe_ID x \<in> oe_ID ` set es then published_from x y else y = x) (map ?g (ob_rows s)) (ob_rows t)" by auto
  let ?r = "empty_result\<lparr>rs_OldestPendingAgeSeconds := pendingAgeSeconds oldest ?now, rs_Claimed := length es, rs_Published := length es, rs_Retried := 0\<rparr>"
  have "Dispatch d pg clock owner s = ((?r, []), t)"
    using assms(2) old cl t(1) by (simp add: Dispatch_def)
  moreover have "list_all2 (\<lambda>x y. if oe_ID x \<in> set ids then same_content y x \<and> oe_PublishedAt y \<noteq> None else y = x) (ob_rows s) (ob_rows t)"
    using t(2) unfolding eids list_all2_map1
    by (rule list_all2_mono) (auto simp: gid published_from_def publish_row_def lease_row_def same_content_def)
  ultimately show ?thesis using len by (intro exI [of _ ?r] exI [of _ t]) simp
qed

end
