(* ===== verification/Canonical_Number.thy ===== *)
theory Canonical_Number
  imports Go_Json_Values Complex_Main
begin

text \<open>
  The number literals of canonical payloads (\<open>internal/idempotency/canonical.go\<close>): their normal
  form in scientific notation, and the rational number a literal denotes. Two literals have one
  normal form exactly when they denote one number.
\<close>

section \<open>The code\<close>

definition jsonNumberPattern :: "string \<Rightarrow> bool" where
  "jsonNumberPattern raw \<longleftrightarrow> number_literal raw"

definition TrimLeft0 :: "string \<Rightarrow> string" where
  "TrimLeft0 s = dropWhile (\<lambda>c. c = CHR ''0'') s"

definition TrimRight0 :: "string \<Rightarrow> string" where
  "TrimRight0 s = rev (TrimLeft0 (rev s))"

definition is_e :: "char \<Rightarrow> bool" where
  "is_e c \<longleftrightarrow> c = CHR ''e'' \<or> c = CHR ''E''"

text \<open>The text of a number in scientific notation, as \<open>normalizeJSONNumber\<close> builds it.\<close>

definition scientific :: "bool \<Rightarrow> string \<Rightarrow> int \<Rightarrow> string" where
  "scientific negative digits exponent =
     (if negative then ''-'' else []) @ [hd digits] @
     (if 1 < length digits then ''.'' @ tl digits else []) @
     (if exponent \<noteq> 0 then ''e'' @ Itoa exponent else [])"

text \<open>
  \<open>exponent.SetString\<close> reads every exponent the pattern admits, so its error branch is not
  reached; the exponent is an unbounded integer.
\<close>

definition normalizeJSONNumber :: "string \<Rightarrow> string option" where
  "normalizeJSONNumber raw =
     (if \<not> jsonNumberPattern raw then None
      else
        let negative = HasPrefix raw ''-'';
            unsigned = (if negative then tl raw else raw);
            mantissa = takeWhile (Not \<circ> is_e) unsigned;
            exponentText = (if mantissa = unsigned then ''0'' else drop (length mantissa + 1) unsigned);
            integerPart = takeWhile (\<lambda>c. c \<noteq> CHR ''.'') mantissa;
            fractionPart = drop (length integerPart + 1) mantissa;
            digits0 = TrimLeft0 (integerPart @ fractionPart)
        in if digits0 = [] then Some ''0''
           else
             let digits = TrimRight0 digits0;
                 trailingZeros = int (length digits0) - int (length digits);
                 exponent = signed_value exponentText - int (length fractionPart) + trailingZeros + (int (length digits) - 1)
             in Some (scientific negative digits exponent))"

section \<open>The number a literal denotes\<close>

definition literal_parts :: "string \<Rightarrow> bool \<times> string \<times> string \<times> string" where
  "literal_parts raw =
     (case read_sign raw of (sign, s1) \<Rightarrow>
        (case read_integer s1 of None \<Rightarrow> (False, [], [], []) | Some (ip, s2) \<Rightarrow>
           (case read_fraction s2 of None \<Rightarrow> (False, [], [], []) | Some (fr, s3) \<Rightarrow> (sign \<noteq> [], ip, tl fr, tl s3))))"

definition number_value :: "string \<Rightarrow> rat" where
  "number_value raw =
     (case literal_parts raw of (negative, ip, fr, ex) \<Rightarrow>
        (if negative then - 1 else 1) * of_int (digits_value (ip @ fr)) * 10 powi (signed_value ex - int (length fr)))"

definition scientific_value :: "bool \<Rightarrow> string \<Rightarrow> int \<Rightarrow> rat" where
  "scientific_value negative digits exponent =
     (if negative then - 1 else 1) * of_int (digits_value digits) * 10 powi (exponent - (int (length digits) - 1))"

text \<open>Digits without zeros at either end.\<close>

definition significant :: "string \<Rightarrow> bool" where
  "significant ds \<longleftrightarrow> ds \<noteq> [] \<and> list_all is_digit ds \<and> hd ds \<noteq> CHR ''0'' \<and> last ds \<noteq> CHR ''0''"

section \<open>Literals and their parts\<close>

lemma literal_text:
  assumes "number_literal raw" and "literal_parts raw = (negative, ip, fr, ex)"
  obtains c where "is_e c"
    "raw = (if negative then ''-'' else []) @ ip @ (if fr = [] then [] else CHR ''.'' # fr) @ (if ex = [] then [] else c # ex)"
    "list_all is_digit ip" "ip \<noteq> []" "list_all is_digit fr" "list_all (\<lambda>c. is_digit c \<or> c = CHR ''+'' \<or> c = CHR ''-'') ex"
proof -
  obtain g s1 where g: "read_sign raw = (g, s1)" by fastforce
  then have gs: "raw = g @ s1" "g = [] \<or> g = ''-''" by (auto simp: read_sign_def split: list.splits if_splits)
  from assms(1) g obtain i s2 f s3 e u where i: "read_integer s1 = Some (i, s2)" and f: "read_fraction s2 = Some (f, s3)"
    and e: "read_exponent s3 = Some (e, u)" and l: "raw = g @ i @ f @ e" and u: "u = []"
    by (auto simp: read_number_def number_literal_def split: option.splits)
  have pi: "i \<noteq> []" "list_all is_digit i" "s1 = i @ s2" using read_integer_parts [OF i] by blast+
  have pf: "s2 = f @ s3" "f = [] \<or> (\<exists>ds. f = CHR ''.'' # ds \<and> ds \<noteq> [] \<and> list_all is_digit ds)"
    using read_fraction_parts [OF f] by blast+
  have pe: "s3 = e" "e = [] \<or> (\<exists>c h ds. e = c # h @ ds \<and> c \<in> {CHR ''e'', CHR ''E''} \<and> h \<in> {[], ''+'', ''-''} \<and> ds \<noteq> [] \<and> list_all is_digit ds)"
    using read_exponent_parts [OF e, unfolded u append_Nil2] by blast+
  have parts: "negative = (g \<noteq> [])" "ip = i" "fr = tl f" "ex = tl e"
    using assms(2) g i f pe(1) by (auto simp: literal_parts_def)
  have ftext: "f = (if fr = [] then [] else CHR ''.'' # fr)" "list_all is_digit fr" using pf(2) parts by auto
  obtain c where c: "is_e c" "e = (if ex = [] then [] else c # ex)"
    "list_all (\<lambda>c. is_digit c \<or> c = CHR ''+'' \<or> c = CHR ''-'') ex"
    using pe(2)
  proof
    assume "e = []"
    then show ?thesis using that [of "CHR ''e''"] parts by (simp add: is_e_def)
  next
    assume "\<exists>c h ds. e = c # h @ ds \<and> c \<in> {CHR ''e'', CHR ''E''} \<and> h \<in> {[], ''+'', ''-''} \<and> ds \<noteq> [] \<and> list_all is_digit ds"
    then obtain c h ds where x: "e = c # h @ ds" "c \<in> {CHR ''e'', CHR ''E''}" "h \<in> {[], ''+'', ''-''}" "ds \<noteq> []" "list_all is_digit ds"
      by blast
    have "ex = h @ ds" using parts x(1) by simp
    moreover have "list_all (\<lambda>c. is_digit c \<or> c = CHR ''+'' \<or> c = CHR ''-'') (h @ ds)"
      using x(3,5) by (auto simp: list_all_iff)
    ultimately show ?thesis using that [of c] x by (auto simp: is_e_def)
  qed
  show thesis
  proof (rule that [of c])
    show "raw = (if negative then ''-'' else []) @ ip @ (if fr = [] then [] else CHR ''.'' # fr) @ (if ex = [] then [] else c # ex)"
      using l gs(2) parts(1,2) ftext(1) c(2) by auto
  qed (use c ftext pi parts in simp_all)
qed

section \<open>Trimming zeros\<close>

lemma digits_value_zero: "digits_value (CHR ''0'' # s) = digits_value s"
  by (simp add: digits_value_Cons)

lemma TrimLeft0_value: "digits_value (TrimLeft0 s) = digits_value s"
  by (induction s) (simp_all add: TrimLeft0_def digits_value_zero)

lemma TrimLeft0_hd: "TrimLeft0 s \<noteq> [] \<Longrightarrow> hd (TrimLeft0 s) \<noteq> CHR ''0''"
  unfolding TrimLeft0_def by (metis (mono_tags, lifting) hd_dropWhile)

lemma TrimLeft0_digits: "list_all is_digit s \<Longrightarrow> list_all is_digit (TrimLeft0 s)"
  unfolding TrimLeft0_def list_all_iff by (meson set_dropWhileD)

lemma TrimRight0_snoc: "TrimRight0 (s @ [c]) = (if c = CHR ''0'' then TrimRight0 s else s @ [c])"
  by (simp add: TrimRight0_def TrimLeft0_def)

lemma TrimRight0_value:
  "length (TrimRight0 s) \<le> length s \<and> digits_value s = digits_value (TrimRight0 s) * 10 ^ (length s - length (TrimRight0 s))"
proof (induction s rule: rev_induct)
  case (snoc c s)
  then show ?case by (auto simp: TrimRight0_snoc Suc_diff_le)
qed (simp add: TrimRight0_def TrimLeft0_def)

lemma significant_TrimRight0:
  assumes "list_all is_digit s" and "s \<noteq> []" and "hd s \<noteq> CHR ''0''"
  shows "significant (TrimRight0 s)"
  using assms
proof (induction s rule: rev_induct)
  case (snoc c s)
  show ?case
  proof (cases "s = []")
    case True
    with snoc show ?thesis by (simp add: significant_def TrimRight0_def TrimLeft0_def)
  next
    case False
    with snoc show ?thesis by (auto simp: TrimRight0_snoc significant_def)
  qed
qed simp

section \<open>Scientific notation determines the number\<close>

lemma significant_pos:
  assumes "significant ds"
  shows "0 < digits_value ds" "10 ^ (length ds - 1) \<le> digits_value ds" "digits_value ds < 10 ^ length ds" "\<not> 10 dvd digits_value ds"
proof -
  obtain c t where ds: "ds = c # t" using assms by (cases ds) (auto simp: significant_def)
  have c: "is_digit c" "c \<noteq> CHR ''0''" "list_all is_digit t" using assms by (auto simp: significant_def ds)
  have c1: "1 \<le> (of_char c :: int) - 48"
  proof (rule ccontr)
    assume "\<not> 1 \<le> (of_char c :: int) - 48"
    with digit_int_bounds [OF c(1)] have "of_char c = (of_char (CHR ''0'') :: int)" by simp
    then have "c = CHR ''0''" by (rule digit_char_eqI)
    with c show False by simp
  qed
  have "1 * 10 ^ length t \<le> ((of_char c :: int) - 48) * 10 ^ length t"
    by (rule mult_right_mono [OF c1]) simp
  then have "10 ^ length t \<le> ((of_char c :: int) - 48) * 10 ^ length t + digits_value t"
    using digits_value_bounds(1) [OF c(3)] by linarith
  then show lo: "10 ^ (length ds - 1) \<le> digits_value ds" by (simp only: ds digits_value_Cons list.size) simp
  have "(0 :: int) < 10 ^ (length ds - 1)" by simp
  with lo show "0 < digits_value ds" by linarith
  show "digits_value ds < 10 ^ length ds" using digits_value_bounds assms by (simp add: significant_def)
  obtain l u where du: "ds = u @ [l]" using ds by (metis list.discI rev_exhaust)
  have l: "is_digit l" "l \<noteq> CHR ''0''" using assms by (auto simp: significant_def du)
  have "(of_char l :: int) - 48 \<noteq> 0"
  proof
    assume "(of_char l :: int) - 48 = 0"
    then have "of_char l = (of_char (CHR ''0'') :: int)" by simp
    then have "l = CHR ''0''" by (rule digit_char_eqI)
    with l show False by simp
  qed
  with digit_int_bounds [OF l(1)] have "\<not> 10 dvd (of_char l :: int) - 48"
    by (intro zdvd_not_zless) linarith+
  then show "\<not> 10 dvd digits_value ds" by (simp add: du dvd_add_right_iff)
qed

lemma power_digits_unique:
  fixes x y :: int
  assumes "0 < x" and "0 < y" and "\<not> 10 dvd x" and "\<not> 10 dvd y"
    and "(of_int x :: rat) * 10 powi a = of_int y * 10 powi b"
  shows "a = b \<and> x = y"
proof -
  have step: "a = b \<and> x = y" if "a \<le> b" "\<not> 10 dvd x" "(of_int x :: rat) * 10 powi a = of_int y * 10 powi b" for a b and x y :: int
  proof -
    define n where "n = nat (b - a)"
    have n: "b = a + int n" using that(1) by (simp add: n_def)
    have "(10 :: rat) powi b = 10 powi a * 10 ^ n" by (simp add: n power_int_add)
    then have "10 powi a * (of_int x :: rat) = 10 powi a * of_int (y * 10 ^ n)" using that(3) by (simp add: ac_simps)
    then have "(of_int x :: rat) = of_int (y * 10 ^ n)" by (rule mult_left_cancel [THEN iffD1, rotated]) simp
    then have x: "x = y * 10 ^ n" by (simp only: of_int_eq_iff)
    have "n = 0"
    proof (rule ccontr)
      assume "n \<noteq> 0"
      then have "10 dvd x" unfolding x by (simp add: dvd_power)
      with that(2) show False by simp
    qed
    with n x show ?thesis by simp
  qed
  show ?thesis
  proof (cases "a \<le> b")
    case True
    then show ?thesis using step assms by blast
  next
    case False
    then show ?thesis using step [of b a y x] assms by simp
  qed
qed

lemma scientific_unique:
  assumes "significant ds" and "significant es" and "scientific_value n ds E = scientific_value m es F"
  shows "n = m \<and> ds = es \<and> E = F"
proof -
  note p = significant_pos [OF assms(1)] and q = significant_pos [OF assms(2)]
  let ?a = "E - (int (length ds) - 1)" and ?b = "F - (int (length es) - 1)"
  let ?x = "(of_int (digits_value ds) :: rat) * 10 powi ?a" and ?y = "(of_int (digits_value es) :: rat) * 10 powi ?b"
  have "0 < ?x" "0 < ?y" using p(1) q(1) by simp_all
  moreover have "(if n then - ?x else ?x) = (if m then - ?y else ?y)" using assms(3) by (simp add: scientific_value_def split: if_splits)
  ultimately have nm: "n = m" and xy: "?x = ?y" by (auto split: if_splits)
  from power_digits_unique [OF p(1) q(1) p(4) q(4) xy] have ab: "?a = ?b" and v: "digits_value ds = digits_value es" by auto
  have len: "length ds = length es"
  proof (rule ccontr)
    assume "length ds \<noteq> length es"
    then have "length ds \<le> length es - 1 \<or> length es \<le> length ds - 1" by linarith
    then have "(10 :: int) ^ length ds \<le> 10 ^ (length es - 1) \<or> (10 :: int) ^ length es \<le> 10 ^ (length ds - 1)"
      by (metis one_le_numeral power_increasing)
    with p q v show False by linarith
  qed
  have "ds = es" using digits_value_inj [OF _ _ len v] assms(1,2) by (simp add: significant_def)
  with nm ab len show ?thesis by simp
qed

section \<open>Normalisation\<close>

lemma takeWhile_before: "list_all P s \<Longrightarrow> \<not> P c \<Longrightarrow> takeWhile P (s @ c # t) = s"
  by (induction s) auto

lemma takeWhile_whole: "list_all P s \<Longrightarrow> takeWhile P s = s"
  by (induction s) auto

lemma normalize_parts:
  assumes "number_literal raw" and "literal_parts raw = (negative, ip, fr, ex)"
  shows "normalizeJSONNumber raw =
    (let digits0 = TrimLeft0 (ip @ fr); digits = TrimRight0 digits0
     in if digits0 = [] then Some ''0''
        else Some (scientific negative digits
          (signed_value ex - int (length fr) + (int (length digits0) - int (length digits)) + (int (length digits) - 1))))"
proof -
  from literal_text [OF assms] obtain c where t: "is_e c"
    "raw = (if negative then ''-'' else []) @ ip @ (if fr = [] then [] else CHR ''.'' # fr) @ (if ex = [] then [] else c # ex)"
    "list_all is_digit ip" "ip \<noteq> []" "list_all is_digit fr" by blast
  let ?m = "ip @ (if fr = [] then [] else CHR ''.'' # fr)"
  let ?un = "?m @ (if ex = [] then [] else c # ex)"
  have "hd ip \<noteq> CHR ''-''" using t(3,4) by (cases ip) auto
  then have pre: "HasPrefix raw ''-'' = negative"
    using t(4) unfolding t(2) HasPrefix_def by (cases ip) (auto split: if_splits)
  have un: "(if negative then tl raw else raw) = ?un" using t(2) by auto
  have ne: "is_digit x \<Longrightarrow> \<not> is_e x \<and> x \<noteq> CHR ''.''" for x by (auto simp: is_e_def)
  have "list_all (Not \<circ> is_e) ?m" using t(3,5) ne by (auto simp: list_all_iff is_e_def)
  then have man: "takeWhile (Not \<circ> is_e) ?un = ?m"
    using takeWhile_before [of "Not \<circ> is_e" ?m c ex] takeWhile_whole [of "Not \<circ> is_e" ?m] t(1) by simp
  have "list_all (\<lambda>c. c \<noteq> CHR ''.'') ip" using t(3) ne by (auto simp: list_all_iff)
  then have int: "takeWhile (\<lambda>c. c \<noteq> CHR ''.'') ?m = ip"
    using takeWhile_before [of "\<lambda>c. c \<noteq> CHR ''.''" ip "CHR ''.''" fr] takeWhile_whole [of "\<lambda>c. c \<noteq> CHR ''.''" ip]
    by (auto simp del: takeWhile_eq_all_conv)
  have ext: "signed_value (if ?m = ?un then ''0'' else drop (length ?m + 1) ?un) = signed_value ex"
  proof (cases "ex = []")
    case True
    then show ?thesis by (simp add: signed_value_def digits_value_def)
  next
    case False
    then have "(if ?m = ?un then ''0'' else drop (length ?m + 1) ?un) = ex" by simp
    then show ?thesis by simp
  qed
  have frd: "drop (length ip + 1) ?m = fr" by simp
  show ?thesis
    using assms(1) unfolding normalizeJSONNumber_def jsonNumberPattern_def Let_def pre
    unfolding un unfolding man unfolding int unfolding frd ext by simp
qed

text \<open>Zero, or significant digits with an exponent, of the same value as the literal.\<close>

lemma normalize_value:
  assumes "number_literal raw"
  shows "number_value raw = 0 \<and> normalizeJSONNumber raw = Some ''0'' \<or>
    (\<exists>negative ds E. significant ds \<and> number_value raw = scientific_value negative ds E \<and>
       normalizeJSONNumber raw = Some (scientific negative ds E))"
proof -
  obtain negative ip fr ex where lp: "literal_parts raw = (negative, ip, fr, ex)" by (cases "literal_parts raw") auto
  let ?zd = "TrimLeft0 (ip @ fr)" and ?d = "TrimRight0 (TrimLeft0 (ip @ fr))"
  let ?E = "signed_value ex - int (length fr) + (int (length ?zd) - int (length ?d)) + (int (length ?d) - 1)"
  from literal_text [OF assms lp] have dig: "list_all is_digit (ip @ fr)" by auto
  have v: "number_value raw = (if negative then - 1 else 1) * of_int (digits_value ?zd) * 10 powi (signed_value ex - int (length fr))"
    by (simp add: number_value_def lp TrimLeft0_value)
  show ?thesis
  proof (cases "?zd = []")
    case True
    then have "number_value raw = 0" using v by simp
    with True show ?thesis using normalize_parts [OF assms lp] by (simp add: Let_def)
  next
    case False
    have sig: "significant ?d" using significant_TrimRight0 [OF TrimLeft0_digits [OF dig] False TrimLeft0_hd [OF False]] .
    note tr = TrimRight0_value [of ?zd]
    define k where "k = length ?zd - length ?d"
    have k: "int (length ?zd) - int (length ?d) = int k" using tr by (simp add: k_def of_nat_diff)
    have dv: "digits_value ?zd = digits_value ?d * 10 ^ k" using tr by (simp add: k_def)
    have "(10 :: rat) powi (?E - (int (length ?d) - 1)) = 10 powi (signed_value ex - int (length fr)) * 10 ^ k"
      by (simp add: k power_int_add)
    then have "number_value raw = scientific_value negative ?d ?E"
      unfolding v scientific_value_def dv by simp
    moreover have "normalizeJSONNumber raw = Some (scientific negative ?d ?E)"
      using normalize_parts [OF assms lp] False by (simp add: Let_def)
    ultimately show ?thesis using sig by blast
  qed
qed

section \<open>Scientific notation is a literal\<close>

lemma read_exponent_Itoa: "read_exponent (''e'' @ Itoa E) = Some (''e'' @ Itoa E, [])"
proof -
  have d: "list_all is_digit (decimal_digits n)" "decimal_digits n \<noteq> []" for n
    by (simp_all add: decimal_digits_digits)
  have span: "takeWhile is_digit (decimal_digits n) = decimal_digits n" "dropWhile is_digit (decimal_digits n) = []" for n
    using d(1) [of n] by (simp_all add: takeWhile_whole list_all_iff)
  obtain b t where b: "decimal_digits (nat E) = b # t" by (cases "decimal_digits (nat E)") auto
  then have "is_digit b" using d(1) [of "nat E"] by simp
  then have nb: "b \<noteq> CHR ''+''" "b \<noteq> CHR ''-''" by auto
  show ?thesis
  proof (cases "E < 0")
    case True
    then show ?thesis using span [of "nat (- E)"] by (simp add: read_exponent_def Itoa_def del: takeWhile_eq_all_conv dropWhile_eq_Nil_conv)
  next
    case False
    then have "Itoa E = b # t" "takeWhile is_digit (b # t) = b # t" "dropWhile is_digit (b # t) = []"
      using b span [of "nat E"] by (simp_all add: Itoa_def del: takeWhile_eq_all_conv dropWhile_eq_Nil_conv)
    then show ?thesis using nb by (simp add: read_exponent_def del: takeWhile_eq_all_conv dropWhile_eq_Nil_conv takeWhile.simps dropWhile.simps)
  qed
qed

lemma scientific_literal:
  assumes "significant ds"
  shows "number_literal (scientific negative ds E)" "number_value (scientific negative ds E) = scientific_value negative ds E"
proof -
  obtain d t where ds: "ds = d # t" using assms by (cases ds) (auto simp: significant_def)
  have d: "is_digit d" "d \<noteq> CHR ''0''" "list_all is_digit t" "d \<noteq> CHR ''-''" using assms by (auto simp: significant_def ds)
  let ?f = "if t = [] then [] else CHR ''.'' # t" and ?e = "if E \<noteq> 0 then ''e'' @ Itoa E else []"
  have tx: "scientific negative ds E = (if negative then ''-'' else []) @ d # ?f @ ?e"
    by (simp add: scientific_def ds)
  have sg: "read_sign (scientific negative ds E) = (if negative then ''-'' else [], d # ?f @ ?e)"
    unfolding tx using d(4) by (simp add: read_sign_def)
  have fe: "?f @ ?e = [] \<or> \<not> is_digit (hd (?f @ ?e))" by simp
  have ri: "read_integer (d # ?f @ ?e) = Some ([d], ?f @ ?e)"
    using d span_stop [where P = is_digit and s = "[]", OF fe] by (simp add: read_integer_def)
  have e: "?e = [] \<or> \<not> is_digit (hd ?e)" by simp
  have rf: "read_fraction (?f @ ?e) = Some (?f, ?e)"
  proof -
    have "takeWhile is_digit t = t" "dropWhile is_digit t = []" using d(3) by (simp_all add: takeWhile_whole list_all_iff)
    then show ?thesis using span_stop [where P = is_digit and s = t, OF e]
      by (cases "E = 0") (simp_all add: read_fraction_def del: takeWhile_eq_all_conv dropWhile_eq_Nil_conv)
  qed
  have re: "read_exponent ?e = Some (?e, [])" using read_exponent_Itoa by (simp add: read_exponent_def)
  show "number_literal (scientific negative ds E)"
    unfolding number_literal_def read_number_def sg prod.case ri option.case rf re by (simp add: tx)
  have "literal_parts (scientific negative ds E) = (negative, [d], t, tl ?e)"
    unfolding literal_parts_def sg prod.case ri option.case rf by simp
  moreover have "signed_value (tl ?e) = E" using signed_value_Itoa [of E] by (cases "E = 0") (simp_all add: signed_value_def [of "[]"])
  ultimately show "number_value (scientific negative ds E) = scientific_value negative ds E"
    by (simp add: number_value_def scientific_value_def ds)
qed

lemma zero_literal: "number_literal ''0''" "number_value ''0'' = 0"
  by code_simp (simp add: number_value_def literal_parts_def read_sign_def read_integer_def read_fraction_def digits_value_def)

lemma scientific_value_nonzero: "significant ds \<Longrightarrow> scientific_value n ds E \<noteq> 0"
  using significant_pos(1) [of ds] by (simp add: scientific_value_def)

text \<open>The normal form is a literal of the same value.\<close>

lemma normalize_literal:
  assumes "number_literal raw"
  obtains s where "normalizeJSONNumber raw = Some s" "number_literal s" "number_value s = number_value raw"
  using normalize_value [OF assms] zero_literal scientific_literal by fastforce

text \<open>One normal form, one number.\<close>

lemma normalize_eq_iff:
  assumes "number_literal r" and "number_literal q"
  shows "normalizeJSONNumber r = normalizeJSONNumber q \<longleftrightarrow> number_value r = number_value q"
proof
  assume "normalizeJSONNumber r = normalizeJSONNumber q"
  then show "number_value r = number_value q"
    by (metis assms normalize_literal option.inject)
next
  assume v: "number_value r = number_value q"
  show "normalizeJSONNumber r = normalizeJSONNumber q"
  proof (cases "number_value r = 0")
    case True
    then show ?thesis using normalize_value [OF assms(1)] normalize_value [OF assms(2)] v scientific_value_nonzero by auto
  next
    case False
    then obtain n ds E where r: "significant ds" "number_value r = scientific_value n ds E" "normalizeJSONNumber r = Some (scientific n ds E)"
      using normalize_value [OF assms(1)] by blast
    from False v obtain m es F where q: "significant es" "number_value q = scientific_value m es F" "normalizeJSONNumber q = Some (scientific m es F)"
      using normalize_value [OF assms(2)] by auto
    have "n = m \<and> ds = es \<and> E = F" by (rule scientific_unique [OF r(1) q(1)]) (use v r(2) q(2) in simp)
    then show ?thesis using r(3) q(3) by simp
  qed
qed

lemma normalize_idem:
  assumes "normalizeJSONNumber raw = Some s" and "number_literal raw"
  shows "normalizeJSONNumber s = Some s"
proof -
  obtain u where "normalizeJSONNumber raw = Some u" "number_literal u" "number_value u = number_value raw"
    using assms(2) by (rule normalize_literal)
  then have "number_literal s" "number_value s = number_value raw" using assms(1) by auto
  then show ?thesis using normalize_eq_iff [OF _ assms(2), of s] assms(1) by simp
qed

end
