(* ===== verification/Canonical_Json.thy ===== *)
theory Canonical_Json
  imports Canonical_Number "HOL-Library.List_Lexorder" "HOL-Library.Char_ord"
begin

text \<open>
  Canonical payloads and their hash (\<open>internal/idempotency/canonical.go\<close>), against the JSON value
  a text stands for: object members without order, numbers as rationals. The canonical text
  is a faithful name of that value: equal values have one canonical text, different values
  different texts, and decoding a canonical text gives the value back.
\<close>

section \<open>The code\<close>

text \<open>
  The cases of the type switch; a map is the list of its entries, whose keys are distinct.
  An error anywhere is an error of the whole.
\<close>

function writeCanonicalJSON :: "json \<Rightarrow> string option" where
  "writeCanonicalJSON JNull = Some ''null''"
| "writeCanonicalJSON (JBool b) = Some (if b then ''true'' else ''false'')"
| "writeCanonicalJSON (JStr s) = Some (json_string s)"
| "writeCanonicalJSON (JNum l) = normalizeJSONNumber l"
| "writeCanonicalJSON (JArr vs) = map_option json_array (those (map writeCanonicalJSON vs))"
| "writeCanonicalJSON (JObj kvs) =
     map_option json_object
       (those (map (\<lambda>(k, v). map_option (Pair k) (writeCanonicalJSON v)) (sort_key fst kvs)))"
  by pat_completeness auto
termination
  by (relation "measure size") (auto simp del: json.size intro: item_size member_size)

datatype hash_error = InvalidPayload

text \<open>\<open>json.Marshal\<close> of the request type is the argument \<open>marshal\<close>; \<open>decode_interface\<close> includes \<open>requireJSONEOF\<close>.\<close>

definition CanonicalHash :: "('v \<Rightarrow> string option) \<Rightarrow> 'v \<Rightarrow> hash_error + string" where
  "CanonicalHash marshal value =
     (case marshal value of
        None \<Rightarrow> Inl InvalidPayload
      | Some encoded \<Rightarrow>
          (case decode_interface encoded of
             None \<Rightarrow> Inl InvalidPayload
           | Some normalized \<Rightarrow>
               (case writeCanonicalJSON normalized of
                  None \<Rightarrow> Inl InvalidPayload
                | Some canonical \<Rightarrow> Inr (hex_encode (sha256 (string_bytes canonical))))))"

section \<open>The value of a text\<close>

datatype json_value = VNull | VBool bool | VNum rat | VStr string | VArr "json_value list" | VObj "string \<Rightarrow> json_value option"

function meaning :: "json \<Rightarrow> json_value" where
  "meaning JNull = VNull"
| "meaning (JBool b) = VBool b"
| "meaning (JStr s) = VStr s"
| "meaning (JNum l) = VNum (number_value l)"
| "meaning (JArr vs) = VArr (map meaning vs)"
| "meaning (JObj kvs) = VObj (map_of (map (\<lambda>(k, v). (k, meaning v)) kvs))"
  by pat_completeness auto
termination
  by (relation "measure size") (auto simp del: json.size intro: item_size member_size)

section \<open>Sorting members\<close>

lemma sort_members_unique:
  assumes "set xs = set ys" and "distinct (map fst xs)" and "distinct (map fst ys)"
  shows "sort_key fst xs = sort_key fst (ys :: (string \<times> 'a) list)"
proof (rule map_sorted_distinct_set_unique [where f = fst])
  show "inj_on fst (set (sort_key fst xs) \<union> set (sort_key fst ys))"
    using assms by (simp add: distinct_map)
  show "distinct (map fst (sort_key fst xs))" "distinct (map fst (sort_key fst ys))"
    using assms by (simp_all add: distinct_map)
qed (use assms in simp_all)

lemma keys_comp [simp]: "fst \<circ> (\<lambda>(k, v). (k, f v)) = fst"
  by auto

lemma insort_members_map:
  "insort_key fst (k, f v) (map (\<lambda>(k, v). (k, f v)) xs) = map (\<lambda>(k, v). (k, f v)) (insort_key fst (k, v) xs)"
  by (induction xs) auto

lemma sort_members_map: "sort_key fst (map (\<lambda>(k, v). (k, f v)) kvs) = map (\<lambda>(k, v). (k, f v)) (sort_key fst kvs)"
  by (induction kvs) (auto simp: insort_members_map)

lemma distinct_keys_sort: "distinct (map fst kvs) \<Longrightarrow> distinct (map fst (sort_key fst kvs))"
  by (simp add: distinct_map)

lemma map_of_sort_members:
  assumes "distinct (map fst kvs)"
  shows "map_of (map (\<lambda>(k, v). (k, f v)) (sort_key fst kvs)) = map_of (map (\<lambda>(k, v). (k, f v)) kvs)"
  using assms by (subst map_of_inject_set) (simp_all add: distinct_keys_sort)

section \<open>The canonical text\<close>

text \<open>What canonical text says of a value: it exists, and decodes to a value of the same meaning and the same text.\<close>

definition canonical :: "nat \<Rightarrow> json \<Rightarrow> string \<Rightarrow> json \<Rightarrow> bool" where
  "canonical d v c w \<longleftrightarrow> writeCanonicalJSON v = Some c \<and> reads d c w \<and> distinct_json w \<and> meaning w = meaning v \<and> writeCanonicalJSON w = Some c"

lemma canonical_items:
  assumes "\<And>v. v \<in> set vs \<Longrightarrow> \<exists>c w. canonical d v c w"
  shows "\<exists>cs ws. those (map writeCanonicalJSON vs) = Some cs \<and> list_all2 (reads d) cs ws \<and>
    (\<forall>w \<in> set ws. distinct_json w) \<and> map meaning ws = map meaning vs \<and> those (map writeCanonicalJSON ws) = Some cs"
  using assms
proof (induction vs)
  case (Cons v vs)
  from Cons(2) [of v] obtain c w where cw: "canonical d v c w" by auto
  from Cons obtain cs ws where r: "those (map writeCanonicalJSON vs) = Some cs" "list_all2 (reads d) cs ws"
    "\<forall>w \<in> set ws. distinct_json w" "map meaning ws = map meaning vs" "those (map writeCanonicalJSON ws) = Some cs" by auto
  show ?case by (rule exI [of _ "c # cs"], rule exI [of _ "w # ws"]) (use cw r in \<open>simp add: canonical_def\<close>)
qed simp

definition canonical_member :: "string \<times> json \<Rightarrow> (string \<times> string) option" where
  "canonical_member = (\<lambda>(k, v). map_option (Pair k) (writeCanonicalJSON v))"

lemma canonical_members:
  assumes "\<And>k v. (k, v) \<in> set kvs \<Longrightarrow> ValidString k \<and> (\<exists>c w. canonical d v c w)"
  shows "\<exists>kts ws. those (map canonical_member kvs) = Some kts \<and>
    list_all2 (\<lambda>(k, t) (k', v). k = k' \<and> ValidString k \<and> reads d t v) kts ws \<and> map fst ws = map fst kvs \<and>
    (\<forall>(k, w) \<in> set ws. distinct_json w) \<and>
    map (\<lambda>(k, v). (k, meaning v)) ws = map (\<lambda>(k, v). (k, meaning v)) kvs \<and> those (map canonical_member ws) = Some kts"
  using assms
proof (induction kvs)
  case (Cons kv kvs)
  obtain k v where kv: "kv = (k, v)" by fastforce
  from Cons(2) [of k v] kv obtain c w where cw: "canonical d v c w" "ValidString k" by auto
  obtain kts ws where r: "those (map canonical_member kvs) = Some kts"
    "list_all2 (\<lambda>(k, t) (k', v). k = k' \<and> ValidString k \<and> reads d t v) kts ws" "map fst ws = map fst kvs" "\<forall>(k, w) \<in> set ws. distinct_json w"
    "map (\<lambda>(k, v). (k, meaning v)) ws = map (\<lambda>(k, v). (k, meaning v)) kvs" "those (map canonical_member ws) = Some kts"
    using Cons(1) [OF Cons(2)] by auto
  show ?case by (rule exI [of _ "(k, c) # kts"], rule exI [of _ "(k, w) # ws"])
      (use cw r kv in \<open>simp add: canonical_def canonical_member_def\<close>)
qed simp

lemma canonical_exists: "wf_json d v \<Longrightarrow> distinct_json v \<Longrightarrow> \<exists>c w. canonical d v c w"
proof (induction v arbitrary: d rule: writeCanonicalJSON.induct)
  case 1
  show ?case by (intro exI [of _ "''null''"] exI [of _ JNull]) (simp add: canonical_def reads_null)
next
  case (2 b)
  have "reads d (if b then ''true'' else ''false'') (JBool b)" using reads_bool [of d b] by (simp add: json_bool_def)
  then show ?case unfolding canonical_def by (intro exI [of _ "if b then ''true'' else ''false''"] exI [of _ "JBool b"]) auto
next
  case (3 s)
  then show ?case using reads_string [of s d] by (auto simp: canonical_def)
next
  case (4 l)
  then have l: "number_literal l" by simp
  then obtain c where c: "normalizeJSONNumber l = Some c" "number_literal c" "number_value c = number_value l" by (rule normalize_literal)
  have "canonical d (JNum l) c (JNum c)"
    using c reads_number [OF c(2)] normalize_idem [OF c(1) l] by (simp add: canonical_def)
  then show ?case by blast
next
  case (5 vs)
  from 5(2) obtain e where d: "d = Suc e" by (cases d) auto
  have "\<exists>c w. canonical e v c w" if "v \<in> set vs" for v using 5 that d by auto
  from canonical_items [of vs e, OF this] obtain cs ws where r: "those (map writeCanonicalJSON vs) = Some cs" "list_all2 (reads e) cs ws"
    "\<forall>w \<in> set ws. distinct_json w" "map meaning ws = map meaning vs" "those (map writeCanonicalJSON ws) = Some cs" by blast
  then have "canonical d (JArr vs) (json_array cs) (JArr ws)"
    using reads_array [OF r(2)] d by (simp add: canonical_def)
  then show ?case by blast
next
  case (6 kvs)
  from 6(2) obtain e where d: "d = Suc e" by (cases d) auto
  let ?s = "sort_key fst kvs"
  have dist: "distinct (map fst kvs)" using 6(3) by simp
  have "ValidString k \<and> (\<exists>c w. canonical e v c w)" if "(k, v) \<in> set ?s" for k v
  proof -
    have "ValidString k" "wf_json e v" "distinct_json v" using 6(2,3) that d by auto
    then show ?thesis using 6(1) [of "(k, v)" k v e] that by simp
  qed
  from canonical_members [of ?s e, OF this] obtain kts ws where r: "those (map canonical_member ?s) = Some kts"
    "list_all2 (\<lambda>(k, t) (k', v). k = k' \<and> ValidString k \<and> reads e t v) kts ws" "map fst ws = map fst ?s" "\<forall>(k, w) \<in> set ws. distinct_json w"
    "map (\<lambda>(k, v). (k, meaning v)) ws = map (\<lambda>(k, v). (k, meaning v)) ?s" "those (map canonical_member ws) = Some kts" by blast
  have sorted: "sort_key fst ws = ws" using r(3) by (intro sort_key_id_if_sorted) simp
  have dw: "distinct (map fst ws)" using r(3) dist distinct_keys_sort by simp
  have "meaning (JObj ws) = meaning (JObj kvs)" using r(5) map_of_sort_members [OF dist, of meaning] by simp
  then have "canonical d (JObj kvs) (json_object kts) (JObj ws)"
    using reads_object [OF r(2)] r(1,4,6) dw sorted d by (simp add: canonical_def canonical_member_def del: meaning.simps)
  then show ?case by blast
qed

section \<open>Equal values, equal texts\<close>

lemma canonical_of_meaning:
  "wf_json d v \<Longrightarrow> wf_json d w \<Longrightarrow> distinct_json v \<Longrightarrow> distinct_json w \<Longrightarrow> meaning v = meaning w \<Longrightarrow> writeCanonicalJSON v = writeCanonicalJSON w"
proof (induction v arbitrary: d w rule: writeCanonicalJSON.induct)
  case (4 l)
  then obtain l' where w: "w = JNum l'" by (cases w) auto
  with 4 show ?case by (simp add: normalize_eq_iff)
next
  case (5 vs)
  then obtain ws where w: "w = JArr ws" by (cases w) auto
  have m: "map meaning vs = map meaning ws" using 5(6) w by simp
  then have len: "length vs = length ws" by (metis length_map)
  have "map writeCanonicalJSON vs = map writeCanonicalJSON ws"
  proof (rule nth_equalityI)
    fix i assume "i < length (map writeCanonicalJSON vs)"
    then have i: "i < length vs" "i < length ws" using len by simp_all
    have "meaning (vs ! i) = meaning (ws ! i)" using arg_cong [OF m, of "\<lambda>xs. xs ! i"] i by simp
    moreover have "wf_json (d - 1) (vs ! i)" "wf_json (d - 1) (ws ! i)" "distinct_json (vs ! i)" "distinct_json (ws ! i)" using 5(2-5) w i by simp_all
    ultimately show "map writeCanonicalJSON vs ! i = map writeCanonicalJSON ws ! i"
      using 5(1) [of "vs ! i" "d - 1" "ws ! i"] i by simp
  qed (simp add: len)
  then show ?case using w by simp
next
  case (6 kvs)
  then obtain lvs where w: "w = JObj lvs" by (cases w) auto
  let ?M = "map (\<lambda>(k, v). (k, meaning v))" and ?a = "sort_key fst kvs" and ?b = "sort_key fst lvs"
  have dk: "distinct (map fst (?M kvs))" "distinct (map fst (?M lvs))" using 6(4,5) w by simp_all
  have "map_of (?M kvs) = map_of (?M lvs)" using 6(6) w by simp
  then have "set (?M kvs) = set (?M lvs)" using map_of_inject_set [OF dk] by simp
  then have m: "?M ?a = ?M ?b" using sort_members_unique [OF _ dk] by (simp add: sort_members_map)
  then have len: "length ?a = length ?b" by (metis length_map)
  have "map canonical_member ?a = map canonical_member ?b"
  proof (rule nth_equalityI)
    fix i assume "i < length (map canonical_member ?a)"
    then have i: "i < length ?a" "i < length ?b" using len by simp_all
    obtain k v k' v' where a: "?a ! i = (k, v)" and b: "?b ! i = (k', v')" by fastforce
    have "k = k'" "meaning v = meaning v'" using arg_cong [OF m, of "\<lambda>xs. xs ! i"] i a b by simp_all
    moreover have mem: "(k, v) \<in> set ?a" "(k', v') \<in> set lvs" using nth_mem [OF i(1)] nth_mem [OF i(2)] a b by simp_all
    then have "wf_json (d - 1) v" "wf_json (d - 1) v'" "distinct_json v" "distinct_json v'" using 6(2-5) w by auto
    ultimately have "writeCanonicalJSON v = writeCanonicalJSON v'" using 6(1) [OF mem(1) refl, of "d - 1" v'] by simp
    then show "map canonical_member ?a ! i = map canonical_member ?b ! i"
      using \<open>k = k'\<close> i a b by (simp add: canonical_member_def)
  qed (simp only: length_map len)
  then show ?case using w by (simp add: canonical_member_def)
next
  case 1
  then show ?case by (cases w) auto
next
  case (2 b)
  then show ?case by (cases w) auto
next
  case (3 s)
  then show ?case by (cases w) auto
qed

lemma canonical_decode: "canonical maxNestingDepth v c w \<Longrightarrow> decode_interface c = Some w"
  unfolding canonical_def using reads_interface by blast

text \<open>A canonical text names a value: the texts of two decoded payloads agree exactly when their values do.\<close>

lemma canonical_eq_iff:
  assumes "decode_interface a = Some v" and "decode_interface b = Some w"
  shows "writeCanonicalJSON v = writeCanonicalJSON w \<longleftrightarrow> meaning v = meaning w"
proof
  assume e: "writeCanonicalJSON v = writeCanonicalJSON w"
  obtain c v' where v: "canonical maxNestingDepth v c v'" using canonical_exists [OF interface_wf [OF assms(1)]] by blast
  obtain c' w' where w: "canonical maxNestingDepth w c' w'" using canonical_exists [OF interface_wf [OF assms(2)]] by blast
  have "c = c'" using e v w by (simp add: canonical_def)
  then have "v' = w'" using canonical_decode [OF v] canonical_decode [OF w] by simp
  with v w show "meaning v = meaning w" by (simp add: canonical_def)
qed (rule canonical_of_meaning [OF interface_wf(1) [OF assms(1)] interface_wf(1) [OF assms(2)] interface_wf(2) [OF assms(1)] interface_wf(2) [OF assms(2)]])

lemma canonical_roundtrip:
  assumes "decode_interface a = Some v"
  obtains c w where "writeCanonicalJSON v = Some c" "decode_interface c = Some w" "meaning w = meaning v" "writeCanonicalJSON w = Some c"
proof -
  obtain c w where "canonical maxNestingDepth v c w" using canonical_exists [OF interface_wf [OF assms]] by blast
  then show ?thesis using that canonical_decode by (auto simp: canonical_def)
qed

end
