(* ===== verification/Outbox_Properties.thy ===== *)
theory Outbox_Properties
  imports Outbox_Proofs Delivery_Properties Canonical_Json
begin

text \<open>The properties of the transactional outbox and of the canonical form of payloads.\<close>

section \<open>The outbox\<close>

text \<open>C39: However dispatchers and immediate publications interleave, stop or lose answers, an event is marked as published only
  after a queue accepted the message it is routed to; identifiers stay unique, and no event is lost while
  a dispatcher holds it: every event in flight is still in the table.\<close>

theorem published_events_were_sent:
  assumes "outbox_reachable d S"
  shows "distinct (map oe_ID (ob_rows (os_state S))) \<and>
    (\<forall>e \<in> set (ob_rows (os_state S)). oe_PublishedAt e \<noteq> None \<longrightarrow> delivered (di_publisher d) (ob_sent (os_state S)) e) \<and>
    (\<forall>r \<in> set (os_runs S). \<forall>e \<in> set (in_flight r). known (os_state S) e)"
  using outbox_inv_reachable [OF assms] by (simp add: outbox_inv_def)

definition ex_dispatcher :: dispatcher where
  "ex_dispatcher = \<lparr>di_publisher = ex_publisher, di_batchSize = 25, di_leaseDuration = 2 * nsPerMinute, di_eventTypes = InvoiceDispatchEventTypes\<rparr>"

lemma ex_dispatcher_facts: "di_publisher ex_dispatcher = ex_publisher" "di_batchSize ex_dispatcher = 25" "di_eventTypes ex_dispatcher = InvoiceDispatchEventTypes"
  by (simp_all add: ex_dispatcher_def)

definition ex_pg :: pg_choice where
  "ex_pg = \<lparr>pg_locked = (\<lambda>_. False), pg_returning = (\<lambda>es. es)\<rparr>"

definition ex_outbox :: outbox_system where
  "ex_outbox = (initial_system [])\<lparr>os_state := (os_state (initial_system []))\<lparr>ob_rows := [ex_event]\<rparr>\<rparr>"

lemma ex_outbox_reachable: "outbox_reachable ex_dispatcher ex_outbox"
proof (rule outbox_reachable.step [OF outbox_reachable.init])
  show "outbox_step ex_dispatcher (initial_system []) ex_outbox"
    using outbox_step.insert_event [of ex_event "initial_system []" ex_dispatcher]
    by (simp add: ex_outbox_def fresh_event_def ex_event_def initial_system_def)
qed

lemma ex_rows: "ob_rows (os_state ex_outbox) = [ex_event]" and ex_no_faults: "fa_faults (os_state ex_outbox) = []"
  by (simp_all add: ex_outbox_def initial_system_def)

lemma ex_event_routed: "\<exists>q m. route ex_publisher ex_event = Inr (q, m)"
proof -
  have "identified ex_queued" "announces ex_queued ex_event"
    using ex_id_canonical
    by (simp_all add: identified_def announces_def ex_queued_def queue_delivery_def ex_waiting_def new_delivery_def ex_command_def ex_event_def)
  from announced_delivery_routed [OF this, of ex_publisher] show ?thesis by (simp add: ex_publisher_facts)
qed

text \<open>The premises of a dispatch without faults, at the example.\<close>

lemma ex_ids:
  "[oe_ID ex_event] = claim_ids ex_pg 50 (di_eventTypes ex_dispatcher) (di_batchSize ex_dispatcher) (ob_rows (os_state ex_outbox))"
proof -
  have "claim_ids ex_pg 50 InvoiceDispatchEventTypes 25 [ex_event] = [oe_ID ex_event]" by code_simp
  then show ?thesis by (simp only: ex_dispatcher_facts ex_rows)
qed

lemma ex_due:
  "\<forall>e \<in> set (ob_rows (os_state ex_outbox)). ready 50 (di_eventTypes ex_dispatcher) e \<longrightarrow>
     TrimSpace (oe_ID e) \<noteq> [] \<and> (\<exists>q m. route (di_publisher ex_dispatcher) e = Inr (q, m))"
proof -
  have "TrimSpace (oe_ID ex_event) \<noteq> []" by code_simp
  then show ?thesis using ex_event_routed by (simp only: ex_dispatcher_facts ex_rows list.set ball_simps simp_thms)
qed

lemma ex_surroundings: "TrimSpace ''w'' \<noteq> []" "length (TrimSpace ''w'') \<le> 255" "\<forall>k :: nat. (50 :: int) \<noteq> zero_time" "lists_all ex_pg"
  "distinct (map oe_ID (ob_rows (os_state ex_outbox)))"
proof -
  have w: "TrimSpace ''w'' = ''w''" by code_simp
  show "TrimSpace ''w'' \<noteq> []" "length (TrimSpace ''w'') \<le> 255" by (simp_all add: w)
  show "\<forall>k :: nat. (50 :: int) \<noteq> zero_time" by (simp add: zero_time_def nsPerSecond_def)
  show "lists_all ex_pg" by (simp add: lists_all_def ex_pg_def)
  show "distinct (map oe_ID (ob_rows (os_state ex_outbox)))" by (simp add: ex_rows)
qed

lemma ex_new: "NewDispatcher ex_publisher 0 0 InvoiceDispatchEventTypes = Inr ex_dispatcher"
proof -
  have "validateEventTypes InvoiceDispatchEventTypes = Inr InvoiceDispatchEventTypes" by code_simp
  then show ?thesis by (simp add: NewDispatcher_def ex_dispatcher_def nsPerMinute_def nsPerSecond_def)
qed

lemmas ex_dispatch =
  dispatch_without_faults [where clock = "\<lambda>_. 50", OF NewDispatcher_sound [OF ex_new] ex_surroundings(1-3) ex_no_faults ex_surroundings(4,5) ex_due ex_ids]

theorem published_events_were_sent_witness:
  "\<exists>S e. outbox_reachable ex_dispatcher S \<and> e \<in> set (ob_rows (os_state S)) \<and> oe_PublishedAt e \<noteq> None \<and>
     delivered ex_publisher (ob_sent (os_state S)) e"
proof -
  obtain res t where t: "Dispatch ex_dispatcher ex_pg (\<lambda>_. 50) ''w'' (os_state ex_outbox) = ((res, []), t)"
    and rows: "list_all2 (\<lambda>x y. if oe_ID x \<in> set [oe_ID ex_event] then same_content y x \<and> oe_PublishedAt y \<noteq> None else y = x) [ex_event] (ob_rows t)"
    using ex_dispatch unfolding ex_rows by blast
  from dispatch_reachable [OF ex_outbox_reachable t ex_surroundings(4)]
  obtain rs where S: "outbox_reachable ex_dispatcher (ex_outbox\<lparr>os_state := t, os_runs := rs\<rparr>)" by blast
  obtain e where e: "e \<in> set (ob_rows t)" "oe_PublishedAt e \<noteq> None" using rows by (cases "ob_rows t") auto
  have "delivered ex_publisher (ob_sent t) e" using published_events_were_sent [OF S] e by (simp add: ex_dispatcher_def)
  then show ?thesis using S e by (intro exI [of _ "ex_outbox\<lparr>os_state := t, os_runs := rs\<rparr>"] exI [of _ e]) simp
qed

text \<open>An event is sent at most as often as it was claimed, as its counter of publish attempts records, plus the number of its immediate
  publications. So duplicates of a message are bounded by the retries the table shows.\<close>

theorem sends_bounded_by_attempts:
  assumes "outbox_reachable d S" and "row \<in> set (ob_rows (os_state S))"
  shows "int (sent_count (os_state S) (oe_ID row)) \<le> oe_PublishAttempts row + int (count_list (os_tries S) (oe_ID row))"
proof -
  have "int (budget S (oe_ID row)) \<le> oe_PublishAttempts row + int (count_list (os_tries S) (oe_ID row))"
    using attempts_inv_reachable [OF assms(1)] assms(2) by (simp add: attempts_inv_def)
  then show ?thesis by (simp add: budget_def)
qed

theorem sends_bounded_by_attempts_witness:
  "int (sent_count (os_state ex_outbox) (oe_ID ex_event)) \<le> 0 + int (count_list (os_tries ex_outbox) (oe_ID ex_event))"
proof -
  have "ex_event \<in> set (ob_rows (os_state ex_outbox))" "oe_PublishAttempts ex_event = 0" by (simp_all add: ex_outbox_def ex_event_def)
  then show ?thesis using sends_bounded_by_attempts [OF ex_outbox_reachable, of ex_event] by simp
qed

text \<open>A dispatch is a sequence of the steps above, one per call, whatever its calls answer; with it every result about interleavings
  holds of the dispatcher as it is written, also when it is stopped half way.\<close>

theorem dispatch_is_interleaving:
  assumes "Dispatch d pg clock owner (os_state S) = (res, t)" and "lists_all pg"
  shows "\<exists>rs. (outbox_step d)\<^sup>*\<^sup>* S (S\<lparr>os_state := t, os_runs := rs\<rparr>)"
  by (rule dispatch_is_run [OF assms])

theorem dispatch_is_interleaving_witness:
  "\<exists>res t rs. Dispatch ex_dispatcher ex_pg (\<lambda>_. 50) ''w'' (os_state ex_outbox) = (res, t) \<and>
     (outbox_step ex_dispatcher)\<^sup>*\<^sup>* ex_outbox (ex_outbox\<lparr>os_state := t, os_runs := rs\<rparr>)"
proof -
  obtain res t where t: "Dispatch ex_dispatcher ex_pg (\<lambda>_. 50) ''w'' (os_state ex_outbox) = (res, t)" by fastforce
  from dispatch_is_interleaving [OF t ex_surroundings(4)] show ?thesis using t by blast
qed

text \<open>A dispatcher that \<open>NewDispatcher\<close> accepted, run when no call fails and every due event can be
  routed, publishes the whole batch it claims, the oldest due events up to the batch size, reports their
  number and no error, and changes no other event.\<close>

theorem dispatch_publishes_due_events:
  assumes "NewDispatcher p batch lease types = Inr d" and "TrimSpace owner \<noteq> []" and "length (TrimSpace owner) \<le> 255"
    and "\<forall>k. clock k \<noteq> zero_time" and "fa_faults s = []" and "lists_all pg" and "distinct (map oe_ID (ob_rows s))"
    and "\<forall>e \<in> set (ob_rows s). ready (clock 0) (di_eventTypes d) e \<longrightarrow> TrimSpace (oe_ID e) \<noteq> [] \<and> (\<exists>q m. route (di_publisher d) e = Inr (q, m))"
    and "ids = claim_ids pg (clock 0) (di_eventTypes d) (di_batchSize d) (ob_rows s)"
  shows "\<exists>res t. Dispatch d pg clock owner s = ((res, []), t) \<and> rs_Claimed res = length ids \<and> rs_Published res = length ids \<and>
    rs_Retried res = 0 \<and>
    list_all2 (\<lambda>x y. if oe_ID x \<in> set ids then same_content y x \<and> oe_PublishedAt y \<noteq> None else y = x) (ob_rows s) (ob_rows t)"
  by (rule dispatch_without_faults [OF NewDispatcher_sound [OF assms(1)] assms(2-)])

theorem dispatch_publishes_due_events_witness:
  "\<exists>res t. Dispatch ex_dispatcher ex_pg (\<lambda>_. 50) ''w'' (os_state ex_outbox) = ((res, []), t) \<and> rs_Claimed res = 1 \<and> rs_Published res = 1"
proof -
  show ?thesis
    using dispatch_publishes_due_events [where clock = "\<lambda>_. 50", OF ex_new ex_surroundings(1-3) ex_no_faults ex_surroundings(4,5) ex_due ex_ids]
    unfolding list.size by fastforce
qed

section \<open>Canonical payloads\<close>

text \<open>C40: The hash of a request payload is the SHA-256 of the text that the canonical writer makes of it, and two payloads have the same canonical text exactly when
  they stand for the same JSON value, objects taken without order and numbers as rationals. So a replay is
  recognised however its JSON was written, and two different requests differ in the text that is hashed.\<close>

theorem canonical_hash_names_value:
  assumes "marshal a = Some x" and "decode_interface x = Some v" and "marshal b = Some y" and "decode_interface y = Some w"
  shows "\<exists>p q. writeCanonicalJSON v = Some p \<and> writeCanonicalJSON w = Some q \<and>
    CanonicalHash marshal a = Inr (hex_encode (sha256 (string_bytes p))) \<and>
    CanonicalHash marshal b = Inr (hex_encode (sha256 (string_bytes q))) \<and> (p = q \<longleftrightarrow> meaning v = meaning w)"
proof -
  obtain p where p: "writeCanonicalJSON v = Some p" by (rule canonical_roundtrip [OF assms(2)])
  obtain q where q: "writeCanonicalJSON w = Some q" by (rule canonical_roundtrip [OF assms(4)])
  show ?thesis
    by (rule exI [of _ p], rule exI [of _ q]) (use canonical_eq_iff [OF assms(2,4)] p q assms in \<open>simp add: CanonicalHash_def\<close>)
qed

text \<open>Canonical text is JSON for the value it names: decoding it gives a value of the same meaning, whose canonical text it is.\<close>

theorem canonical_text_roundtrip:
  assumes "decode_interface a = Some v"
  shows "\<exists>c w. writeCanonicalJSON v = Some c \<and> decode_interface c = Some w \<and> meaning w = meaning v \<and> writeCanonicalJSON w = Some c"
  using canonical_roundtrip [OF assms] by metis

definition ex_text :: "string \<Rightarrow> string" where
  "ex_text l = ''{'' @ [CHR 0x22] @ ''a'' @ [CHR 0x22] @ '':['' @ l @ '', true]}''"

lemma ex_payloads:
  "decode_interface (ex_text ''1.50'') = Some (JObj [(''a'', JArr [JNum ''1.50'', JBool True])])"
  "decode_interface (ex_text ''15e-1'') = Some (JObj [(''a'', JArr [JNum ''15e-1'', JBool True])])"
  by code_simp+

theorem canonical_hash_names_value_witness:
  "writeCanonicalJSON (JObj [(''a'', JArr [JNum ''1.50'', JBool True])]) = writeCanonicalJSON (JObj [(''a'', JArr [JNum ''15e-1'', JBool True])]) \<and>
   (\<exists>h. CanonicalHash Some (ex_text ''1.50'') = Inr h \<and> CanonicalHash Some (ex_text ''15e-1'') = Inr h)"
proof -
  let ?v = "JObj [(''a'', JArr [JNum ''1.50'', JBool True])]" and ?w = "JObj [(''a'', JArr [JNum ''15e-1'', JBool True])]"
  have e: "writeCanonicalJSON ?v = writeCanonicalJSON ?w" by code_simp
  then have m: "meaning ?v = meaning ?w" using canonical_eq_iff [OF ex_payloads] by blast
  from canonical_hash_names_value [of Some, OF refl ex_payloads(1) refl ex_payloads(2)] m
  have "\<exists>h. CanonicalHash Some (ex_text ''1.50'') = Inr h \<and> CanonicalHash Some (ex_text ''15e-1'') = Inr h" by auto
  with e show ?thesis by blast
qed

theorem canonical_text_roundtrip_witness:
  "\<exists>c w. writeCanonicalJSON (JObj [(''a'', JArr [JNum ''1.50'', JBool True])]) = Some c \<and> decode_interface c = Some w \<and>
     meaning w = meaning (JObj [(''a'', JArr [JNum ''1.50'', JBool True])])"
  using canonical_text_roundtrip [OF ex_payloads(1)] by blast

end
