(* ===== verification/Invoice_Numbering.thy ===== *)
theory Invoice_Numbering
  imports Go_Time Go_Strconv Go_Strings
begin

text \<open>
  Financial years and invoice numbers (\<open>internal/invoiceissue/numbering.go\<close>). The time zone
  database behind \<open>time.LoadLocation\<close> is the argument \<open>zone\<close>: for the name of a zone, its offset
  from UTC, in seconds, at an instant.
\<close>

datatype issue_error =
    InvalidTimezone string | InvalidSeries string | InvalidDocumentType string | SequenceExhausted int
  | IssueNotFound | StaleVersion int int | AlreadyIssued | InvalidLifecycle string
  | InvalidFinancialYear string | IssueConflict | IssueInProgress | IssueStage string | IssueDatabase

type_synonym zone_table = "string \<Rightarrow> (instant \<Rightarrow> int) option"

definition DocumentTypeTaxInvoice :: string where "DocumentTypeTaxInvoice = ''tax_invoice''"
definition DocumentTypeBillOfSupply :: string where "DocumentTypeBillOfSupply = ''bill_of_supply''"
definition defaultTimezone :: string where "defaultTimezone = ''Asia/Kolkata''"

text \<open>\<open>%0wd\<close> of package \<open>fmt\<close>: the width counts the sign.\<close>

definition zero_pad :: "nat \<Rightarrow> string \<Rightarrow> string" where
  "zero_pad w s = replicate (w - length s) (CHR ''0'') @ s"

definition fmt_0d :: "nat \<Rightarrow> int \<Rightarrow> string" where
  "fmt_0d w i =
     (if i < 0 then CHR ''-'' # zero_pad (w - 1) (decimal_digits (nat (- i))) else zero_pad w (decimal_digits (nat i)))"

definition FinancialYear :: "zone_table \<Rightarrow> instant \<Rightarrow> string \<Rightarrow> issue_error + string" where
  "FinancialYear zone at timezone0 =
     (let timezone = (if timezone0 = [] then defaultTimezone else timezone0) in
      case zone timezone of
        None \<Rightarrow> Inl (InvalidTimezone timezone)
      | Some offset \<Rightarrow>
          (case civil (at + offset at * nsPerSecond) of
             (year, month, _) \<Rightarrow>
               (let startYear = (if month < 4 then year - 1 else year)
                in Inr (fmt_0d 4 startYear @ ''-'' @ fmt_0d 4 (startYear + 1)))))"

text \<open>\<open>seriesPattern\<close> and \<open>financialYearPattern\<close>.\<close>

definition is_upper :: "char \<Rightarrow> bool" where
  "is_upper c \<longleftrightarrow> 65 \<le> (of_char c :: nat) \<and> (of_char c :: nat) \<le> 90"

definition series_ok :: "string \<Rightarrow> bool" where
  "series_ok s \<longleftrightarrow> 1 \<le> length s \<and> length s \<le> 3 \<and> list_all is_upper s"

definition split_financial_year :: "string \<Rightarrow> (string \<times> string) option" where
  "split_financial_year s =
     (if length s = 9 \<and> list_all is_digit (take 4 s) \<and> s ! 4 = CHR ''-'' \<and> list_all is_digit (drop 5 s)
      then Some (take 4 s, drop 5 s) else None)"

definition FormatNumber :: "string \<Rightarrow> string \<Rightarrow> string \<Rightarrow> int \<Rightarrow> issue_error + string" where
  "FormatNumber documentType series financialYear number =
     (if documentType \<noteq> DocumentTypeTaxInvoice \<and> documentType \<noteq> DocumentTypeBillOfSupply then Inl (InvalidDocumentType documentType)
      else if \<not> series_ok series then Inl (InvalidSeries series)
      else if number < 1 \<or> number > 999999 then Inl (SequenceExhausted number)
      else case split_financial_year financialYear of
             None \<Rightarrow> Inl (InvalidFinancialYear financialYear)
           | Some (a, b) \<Rightarrow>
               (let startYear = digits_value a; endYear = digits_value b in
                if endYear \<noteq> startYear + 1 then Inl (InvalidFinancialYear financialYear)
                else Inr (series @ ''/'' @ fmt_0d 2 (startYear mod 100) @ ''-'' @ fmt_0d 2 (endYear mod 100) @ ''/'' @ fmt_0d 6 number)))"

section \<open>Padded numbers\<close>

lemma length_zero_pad: "length s \<le> w \<Longrightarrow> length (zero_pad w s) = w"
  by (simp add: zero_pad_def)

lemma digits_value_zeros: "digits_value (replicate k (CHR ''0'')) = 0"
  by (induction k) (simp_all add: digits_value_Cons)

lemma digits_value_pad [simp]: "digits_value (zero_pad w s) = digits_value s"
  by (simp add: zero_pad_def digits_value_append digits_value_zeros)

lemma zero_pad_digits: "list_all is_digit s \<Longrightarrow> list_all is_digit (zero_pad w s)"
  by (auto simp: zero_pad_def list_all_iff is_digit_def)

lemma fmt_0d_fixed:
  assumes "0 \<le> i" and "i < 10 ^ w" and "0 < w"
  shows "length (fmt_0d w i) = w" and "digits_value (fmt_0d w i) = i" and "list_all is_digit (fmt_0d w i)"
proof -
  have "nat i < 10 ^ w" using assms(1,2) by (simp add: nat_less_iff)
  then have "length (decimal_digits (nat i)) \<le> w" using assms(3) by (intro length_decimal_digits)
  then show "length (fmt_0d w i) = w" using assms(1) by (simp add: fmt_0d_def length_zero_pad)
  show "digits_value (fmt_0d w i) = i" using assms(1) by (simp add: fmt_0d_def)
  show "list_all is_digit (fmt_0d w i)" using assms(1) by (simp add: fmt_0d_def zero_pad_digits decimal_digits_digits)
qed

lemma fmt_0d_inj:
  assumes "0 \<le> i" "i < 10 ^ w" "0 \<le> j" "j < 10 ^ w" "0 < w" and "fmt_0d w i = fmt_0d w j"
  shows "i = j"
  using fmt_0d_fixed(2) [OF assms(1,2,5)] fmt_0d_fixed(2) [OF assms(3,4,5)] assms(6) by metis

section \<open>What a number says\<close>

text \<open>The last two digits of the year a financial year starts in.\<close>

definition short_year :: "string \<Rightarrow> int" where
  "short_year financialYear = digits_value (take 4 financialYear) mod 100"

lemma FormatNumber_SomeE:
  assumes "FormatNumber ty series fy n = Inr x"
  obtains "ty = DocumentTypeTaxInvoice \<or> ty = DocumentTypeBillOfSupply" "series_ok series" "1 \<le> n" "n \<le> 999999"
    "\<exists>a b. split_financial_year fy = Some (a, b) \<and> digits_value b = digits_value a + 1"
    "x = series @ ''/'' @ fmt_0d 2 (short_year fy) @ ''-'' @ fmt_0d 2 ((short_year fy + 1) mod 100) @ ''/'' @ fmt_0d 6 n"
proof -
  obtain a b where ab: "split_financial_year fy = Some (a, b)" "digits_value b = digits_value a + 1"
    and x: "x = series @ ''/'' @ fmt_0d 2 (digits_value a mod 100) @ ''-'' @ fmt_0d 2 (digits_value b mod 100) @ ''/'' @ fmt_0d 6 n"
    and rest: "ty = DocumentTypeTaxInvoice \<or> ty = DocumentTypeBillOfSupply" "series_ok series" "1 \<le> n" "n \<le> 999999"
    using assms by (auto simp: FormatNumber_def Let_def split: if_splits option.splits)
  have "digits_value a mod 100 = short_year fy" using ab(1) by (auto simp: split_financial_year_def short_year_def split: if_splits)
  moreover have "digits_value b mod 100 = (digits_value a mod 100 + 1) mod 100" using ab(2) by (simp add: mod_simps)
  ultimately show ?thesis using that rest ab x by metis
qed

text \<open>Whether a number can be written depends on its number only through the range.\<close>

lemma FormatNumber_next:
  assumes "FormatNumber ty series fy m = Inr x" and "1 \<le> n" and "n \<le> 999999"
  shows "\<exists>y. FormatNumber ty series fy n = Inr y"
  using assms by (auto simp: FormatNumber_def Let_def split: if_splits option.splits)

lemma FormatNumber_ignores_type:
  assumes "FormatNumber ty series fy n = Inr x" and "ty' = DocumentTypeTaxInvoice \<or> ty' = DocumentTypeBillOfSupply"
  shows "FormatNumber ty' series fy n = Inr x"
  using assms by (auto simp: FormatNumber_def split: if_splits)

lemma short_year_bounds: "0 \<le> short_year fy" "short_year fy < 10 ^ 2" "0 \<le> (short_year fy + 1) mod 100" "(short_year fy + 1) mod 100 < (10 :: int) ^ 2"
  by (simp_all add: short_year_def)

text \<open>A number determines its series, its year up to the century, and its position in the sequence.\<close>

lemma FormatNumber_inj:
  assumes "FormatNumber ty series fy n = Inr x" and "FormatNumber ty' series' fy' n' = Inr x"
  shows "series = series'" and "short_year fy = short_year fy'" and "n = n'"
proof -
  let ?t = "\<lambda>fy n. fmt_0d 2 (short_year fy) @ ''-'' @ fmt_0d 2 ((short_year fy + 1) mod 100) @ ''/'' @ fmt_0d 6 n"
  from assms(1) have s: "series_ok series" "1 \<le> n" "n \<le> 999999" and x: "x = series @ ''/'' @ ?t fy n" by (auto elim: FormatNumber_SomeE)
  from assms(2) have s': "series_ok series'" "1 \<le> n'" "n' \<le> 999999" and x': "x = series' @ ''/'' @ ?t fy' n'" by (auto elim: FormatNumber_SomeE)
  have len: "length (?t f k) = 12" if "1 \<le> k" "k \<le> 999999" for f k
    using that by (simp add: fmt_0d_fixed(1) short_year_bounds [simplified])
  have e: "series = series' \<and> ''/'' @ ?t fy n = ''/'' @ ?t fy' n'"
    using x x' len [OF s(2,3)] len [OF s'(2,3)] by (intro append_eq_append_conv [THEN iffD1]) simp_all
  then show "series = series'" by simp
  have two: "length (fmt_0d 2 (short_year f)) = 2" "length (fmt_0d 2 ((short_year f + 1) mod 100)) = 2" for f
    by (simp_all add: fmt_0d_fixed(1) short_year_bounds [simplified])
  have "fmt_0d 2 (short_year fy) = fmt_0d 2 (short_year fy') \<and> fmt_0d 6 n = fmt_0d 6 n'"
    using e by (auto simp: append_eq_append_conv two)
  then show "short_year fy = short_year fy'" "n = n'"
    using fmt_0d_inj [of "short_year fy" 2 "short_year fy'"] fmt_0d_inj [of n 6 n'] s s' short_year_bounds by (auto simp: short_year_bounds [simplified])
qed

text \<open>An invoice number has at most sixteen characters.\<close>

lemma FormatNumber_length:
  assumes "FormatNumber ty series fy n = Inr x"
  shows "length x \<le> 16"
proof -
  from assms have "series_ok series" "1 \<le> n" "n \<le> 999999"
    and x: "x = series @ ''/'' @ fmt_0d 2 (short_year fy) @ ''-'' @ fmt_0d 2 ((short_year fy + 1) mod 100) @ ''/'' @ fmt_0d 6 n"
    by (auto elim: FormatNumber_SomeE)
  then show ?thesis by (simp add: fmt_0d_fixed(1) short_year_bounds [simplified] series_ok_def)
qed

lemma upper_char_code: "is_upper c \<Longrightarrow> of_char c < (128 :: nat) \<and> \<not> is_space c"
  by (auto simp: is_upper_def is_space_def)

lemma digit_char_code: "is_digit c \<Longrightarrow> of_char c < (128 :: nat)"
  by (auto simp: is_digit_def)

text \<open>Its characters are ASCII, and it starts with a letter.\<close>

lemma FormatNumber_text:
  assumes "FormatNumber ty series fy n = Inr x"
  shows "\<And>c. c \<in> set x \<Longrightarrow> of_char c < (128 :: nat)" and "x \<noteq> []" and "\<not> is_space (hd x)"
proof -
  from assms have s: "series_ok series" "1 \<le> n" "n \<le> 999999"
    and x: "x = series @ ''/'' @ fmt_0d 2 (short_year fy) @ ''-'' @ fmt_0d 2 ((short_year fy + 1) mod 100) @ ''/'' @ fmt_0d 6 n"
    by (auto elim: FormatNumber_SomeE)
  have "is_upper c \<or> is_digit c \<or> c = CHR ''/'' \<or> c = CHR ''-''" if "c \<in> set x" for c
    using that s fmt_0d_fixed(3) [of "short_year fy" 2] fmt_0d_fixed(3) [of "(short_year fy + 1) mod 100" 2] fmt_0d_fixed(3) [of n 6]
      short_year_bounds [of fy]
    unfolding x by (auto simp: series_ok_def list_all_iff)
  then show "of_char c < (128 :: nat)" if "c \<in> set x" for c
    using that upper_char_code digit_char_code by fastforce
  show "x \<noteq> []" using x by simp
  have "series \<noteq> []" "is_upper (hd series)" using s(1) by (cases series; simp add: series_ok_def)+
  then show "\<not> is_space (hd x)" using x upper_char_code by simp
qed

section \<open>Financial years\<close>

text \<open>A financial year from a four-digit year is one that numbers can be written for.\<close>

lemma FinancialYear_format:
  assumes "FinancialYear zone at tz = Inr fy" and "series_ok series"
    and "ty = DocumentTypeTaxInvoice \<or> ty = DocumentTypeBillOfSupply" and "1 \<le> n" "n \<le> 999999"
    and "length fy = 9" and "fy ! 0 \<noteq> CHR ''-''"
  shows "\<exists>x. FormatNumber ty series fy n = Inr x"
proof -
  obtain y where fy: "fy = fmt_0d 4 y @ ''-'' @ fmt_0d 4 (y + 1)"
    using assms(1) by (auto simp: FinancialYear_def Let_def split: option.splits prod.splits)
  have big: "4 < length (decimal_digits (nat i))" if "10000 \<le> i" for i
  proof (rule ccontr)
    assume "\<not> 4 < length (decimal_digits (nat i))"
    then have "int (nat i) < 10 ^ 4"
      using digits_value_bounds [OF decimal_digits_digits, of "nat i"] power_increasing [of "length (decimal_digits (nat i))" 4 "10 :: int"] by simp
    then show False using that by simp
  qed
  have "0 \<le> y" using assms(7) fy by (auto simp: fmt_0d_def split: if_splits)
  moreover have "y + 1 < 10000"
  proof (rule ccontr)
    assume "\<not> y + 1 < 10000"
    then have "4 < length (fmt_0d 4 (y + 1))" "4 \<le> length (fmt_0d 4 y)"
      using big [of "y + 1"] \<open>0 \<le> y\<close> by (auto simp: fmt_0d_def zero_pad_def)
    then show False using assms(6) fy by simp
  qed
  ultimately have "length (fmt_0d 4 y) = 4" "digits_value (fmt_0d 4 y) = y" "list_all is_digit (fmt_0d 4 y)"
    "length (fmt_0d 4 (y + 1)) = 4" "digits_value (fmt_0d 4 (y + 1)) = y + 1" "list_all is_digit (fmt_0d 4 (y + 1))"
    using fmt_0d_fixed [of y 4] fmt_0d_fixed [of "y + 1" 4] by simp_all
  then have "split_financial_year fy = Some (fmt_0d 4 y, fmt_0d 4 (y + 1))" "digits_value (fmt_0d 4 (y + 1)) = digits_value (fmt_0d 4 y) + 1"
    by (simp_all add: split_financial_year_def fy nth_append)
  then show ?thesis using assms(2-5) by (auto simp: FormatNumber_def Let_def)
qed

end
