(* ===== verification/Invoice_Store.thy ===== *)
theory Invoice_Store
  imports Invoice_Numbering Delivery_Store
begin

text \<open>
  Invoices from draft to issue: the tables and the transactions on them of
  \<open>internal/repositories/postgres/invoice_repo.go\<close> and \<open>invoice_issue.go\<close>, with the state rules
  of \<open>internal/models/invoice.go\<close> and the constraints of the migrations. The columns that no
  operation here reads (amounts, addresses, texts) are kept as one text per row, those among them
  that an edit of a draft writes (dates, notes, references, tax profile) as another. What computes
  with them is an argument: the comparison of an invoice with its document projection, the JSON
  text of a row and of a source linkage, and the stock effect that the repository is configured
  with. A transaction takes effect as a whole or not at all, as in \<open>Delivery_Store\<close>.
\<close>

section \<open>Tables\<close>

record party_snapshot =
  ps_Name :: string
  ps_Email :: string
  ps_Phone :: string
  ps_Address :: string
  ps_City :: string
  ps_State :: string
  ps_Country :: string
  ps_PostalCode :: string
  ps_TaxID :: string
  ps_GSTIN :: string

definition snapshot_IsEmpty :: "party_snapshot \<Rightarrow> bool" where
  "snapshot_IsEmpty p \<longleftrightarrow> TrimSpace (ps_Name p) = []"

record invoice =
  in_ID :: string
  in_BusinessID :: string
  in_CustomerID :: "string option"
  in_Version :: int
  in_RenderProfileID :: "string option"
  in_InvoiceNo :: "string option"
  in_Origin :: string
  in_IssuedAt :: "instant option"
  in_SellerSnapshot :: party_snapshot
  in_BuyerSnapshot :: party_snapshot
  in_InvoiceDate :: instant
  in_Status :: string
  in_Metadata :: string
  in_Columns :: string
  in_CreatedAt :: instant
  in_UpdatedAt :: instant
  in_Deleted :: bool

record invoice_item =
  it_ID :: string
  it_InvoiceID :: string
  it_Columns :: string
  it_CreatedAt :: instant

record document =
  do_ID :: string
  do_BusinessID :: string
  do_Status :: string
  do_DraftState :: string
  do_BillOfSupply :: bool
  do_SerialNumber :: string
  do_IssueDate :: instant
  do_Locale :: string
  do_SourceLinkage :: string
  do_RenderProfileID :: "string option"
  do_Columns :: string
  do_UpdatedAt :: instant
  do_Deleted :: bool

record document_line =
  dl_ID :: string
  dl_DocumentID :: string
  dl_Columns :: string
  dl_CreatedAt :: instant

record document_sequence =
  sq_BusinessID :: string
  sq_DocumentType :: string
  sq_FinancialYear :: string
  sq_Series :: string
  sq_LastNumber :: int

record business_profile =
  bp_ID :: string
  bp_Timezone :: string
  bp_Deleted :: bool

record render_profile =
  rp_ID :: string
  rp_BusinessID :: string
  rp_IsDefault :: bool
  rp_Deleted :: bool

record sales_job = render_job +
  rj_RenderProfileID :: "string option"
  rj_Locale :: string
  rj_TemplateVersion :: string

record document_revision =
  dv_ID :: string
  dv_DocumentID :: string
  dv_BusinessID :: string
  dv_Action :: string
  dv_Snapshot :: string
  dv_Metadata :: string

record activity_log =
  al_ID :: string
  al_BusinessID :: string
  al_ActorID :: string
  al_ActorRole :: string
  al_RequestID :: string
  al_IPAddress :: string
  al_EntityType :: string
  al_EntityID :: string
  al_Action :: string
  al_Snapshot :: string
  al_Diff :: string
  al_Metadata :: string

text \<open>The inventory tables are rows of text: only the configured stock effect reads or writes them.\<close>

record sales_db = faulty +
  sb_keys :: "idempotency_key list"
  sb_businesses :: "business_profile list"
  sb_profiles :: "render_profile list"
  sb_invoices :: "invoice list"
  sb_items :: "invoice_item list"
  sb_documents :: "document list"
  sb_lines :: "document_line list"
  sb_sequences :: "document_sequence list"
  sb_inventory :: "string list"
  sb_jobs :: "sales_job list"
  sb_revisions :: "document_revision list"
  sb_outbox :: "outbox_event list"
  sb_activity :: "activity_log list"
  sb_deliveries :: "email_delivery list"

section \<open>The state of an invoice\<close>

definition invoice_statuses :: "string list" where
  "invoice_statuses = [''draft'', ''issued'', ''sent'', ''partially_paid'', ''paid'', ''overdue'', ''void'', ''canceled'']"

definition hasStringValue :: "string option \<Rightarrow> bool" where
  "hasStringValue v = (case v of None \<Rightarrow> False | Some s \<Rightarrow> TrimSpace s \<noteq> [])"

definition IsEditableDraft :: "invoice \<Rightarrow> bool" where
  "IsEditableDraft i \<longleftrightarrow> in_Status i = ''draft'' \<and> in_InvoiceNo i = None \<and> in_IssuedAt i = None"

datatype state_error = ErrInvalidInvoiceOrigin | ErrInvoiceCustomerRequired | ErrInvoicePartySnapshotRequired | ErrInvalidInvoiceLifecycle

definition state_error_text :: "state_error \<Rightarrow> string" where
  "state_error_text e = ''invalid invoice state: '' @
     (case e of
        ErrInvalidInvoiceOrigin \<Rightarrow> ''invalid invoice origin''
      | ErrInvoiceCustomerRequired \<Rightarrow> ''invoice customer required''
      | ErrInvoicePartySnapshotRequired \<Rightarrow> ''invoice party snapshot required''
      | ErrInvalidInvoiceLifecycle \<Rightarrow> ''invalid invoice lifecycle'')"

definition ValidateState :: "invoice \<Rightarrow> state_error option" where
  "ValidateState i =
     (let origin =
        (if in_Origin i \<in> {''manual'', ''pos''} then
           (if \<not> hasStringValue (in_CustomerID i) \<and> snapshot_IsEmpty (in_BuyerSnapshot i) then Some ErrInvoicePartySnapshotRequired else None)
         else if in_Origin i \<in> {''storefront'', ''subscription'', ''conversion''} then
           (if \<not> hasStringValue (in_CustomerID i) then Some ErrInvoiceCustomerRequired else None)
         else Some ErrInvalidInvoiceOrigin)
      in if origin \<noteq> None then origin
         else if in_Version i < 1 then Some ErrInvalidInvoiceLifecycle
         else if in_Status i \<notin> set invoice_statuses then Some ErrInvalidInvoiceLifecycle
         else if in_Status i = ''draft'' then (if \<not> IsEditableDraft i then Some ErrInvalidInvoiceLifecycle else None)
         else if (case in_InvoiceNo i of None \<Rightarrow> True | Some n \<Rightarrow> TrimSpace n = []) \<or> in_IssuedAt i = None \<or>
                 snapshot_IsEmpty (in_SellerSnapshot i) \<or> snapshot_IsEmpty (in_BuyerSnapshot i)
         then Some ErrInvalidInvoiceLifecycle else None)"

section \<open>Constraints of the tables\<close>

text \<open>
  The check constraints of \<open>invoices\<close>, its uniqueness constraints (the primary key, and
  \<open>(business_id, invoice_no)\<close>, which ignores rows without a number), and the trigger that keeps the
  legal identity of a row that is no draft. A statement that violates one of them fails.
\<close>

definition btrim :: "string \<Rightarrow> string" where
  "btrim s = rev (dropWhile (\<lambda>c. c = CHR '' '') (rev (dropWhile (\<lambda>c. c = CHR '' '') s)))"

definition invoice_checks :: "invoice \<Rightarrow> bool" where
  "invoice_checks i \<longleftrightarrow>
     in_Status i \<in> set invoice_statuses \<and>
     in_Origin i \<in> {''manual'', ''pos'', ''storefront'', ''subscription'', ''conversion''} \<and>
     in_Version i \<ge> 1 \<and>
     (in_CustomerID i \<noteq> None \<or> in_Origin i \<in> {''manual'', ''pos''} \<and> btrim (ps_Name (in_BuyerSnapshot i)) \<noteq> []) \<and>
     (in_Status i = ''draft'' \<and> in_InvoiceNo i = None \<and> in_IssuedAt i = None \<or>
      in_Status i \<noteq> ''draft'' \<and> (case in_InvoiceNo i of None \<Rightarrow> False | Some n \<Rightarrow> btrim n \<noteq> []) \<and> in_IssuedAt i \<noteq> None \<and>
      btrim (ps_Name (in_SellerSnapshot i)) \<noteq> [] \<and> btrim (ps_Name (in_BuyerSnapshot i)) \<noteq> [])"

definition identity_kept :: "invoice \<Rightarrow> invoice \<Rightarrow> bool" where
  "identity_kept old new \<longleftrightarrow>
     (in_Status old \<noteq> ''draft'' \<longrightarrow>
        in_InvoiceNo new = in_InvoiceNo old \<and> in_IssuedAt new = in_IssuedAt old \<and> in_Origin new = in_Origin old \<and>
        in_SellerSnapshot new = in_SellerSnapshot old \<and> in_BuyerSnapshot new = in_BuyerSnapshot old)"

definition invoice_numbers :: "invoice list \<Rightarrow> (string \<times> string) list" where
  "invoice_numbers rows = map (\<lambda>i. (in_BusinessID i, the (in_InvoiceNo i))) (filter (\<lambda>i. in_InvoiceNo i \<noteq> None) rows)"

definition invoices_ok :: "invoice list \<Rightarrow> bool" where
  "invoices_ok rows \<longleftrightarrow> distinct (map in_ID rows) \<and> distinct (invoice_numbers rows) \<and> list_all invoice_checks rows"

text \<open>An update of the rows where a condition holds: the new table and the number of rows, unless a constraint fails.\<close>

definition update_invoices :: "(invoice \<Rightarrow> bool) \<Rightarrow> (invoice \<Rightarrow> invoice) \<Rightarrow> invoice list \<Rightarrow> (nat \<times> invoice list) option" where
  "update_invoices p f rows =
     (let rows' = map (\<lambda>i. if p i then f i else i) rows in
      if list_all (\<lambda>i. p i \<longrightarrow> identity_kept i (f i)) rows \<and> invoices_ok rows'
      then Some (length (filter p rows), rows') else None)"

definition insert_invoice :: "invoice \<Rightarrow> invoice list \<Rightarrow> invoice list option" where
  "insert_invoice i rows = (if invoices_ok (rows @ [i]) then Some (rows @ [i]) else None)"

text \<open>At most one final job for an invoice and a version.\<close>

definition final_source :: "sales_job \<Rightarrow> (string \<times> int) option" where
  "final_source j =
     (case (rj_InvoiceID j, rj_SourceInvoiceVersion j) of
        (Some i, Some v) \<Rightarrow> if rj_Kind j = RenderKindFinal then Some (i, v) else None
      | _ \<Rightarrow> None)"

definition insert_job :: "sales_job \<Rightarrow> sales_job list \<Rightarrow> sales_job list option" where
  "insert_job j jobs =
     (if rj_ID j \<in> rj_ID ` set jobs \<or> final_source j \<noteq> None \<and> final_source j \<in> final_source ` set jobs then None
      else Some (jobs @ [j]))"

definition sales_transaction :: "(sales_db \<Rightarrow> (issue_error + 'a) \<times> sales_db) \<Rightarrow> sales_db \<Rightarrow> (issue_error + 'a) \<times> sales_db" where
  "sales_transaction f s =
     (case external_call (\<lambda>s. case f s of (Inl e, _) \<Rightarrow> (Inl e, s) | (Inr a, t) \<Rightarrow> (Inr a, t)) s of
        (None, t) \<Rightarrow> (Inl IssueDatabase, t)
      | (Some r, t) \<Rightarrow> (r, t))"

section \<open>Idempotency keys\<close>

definition ident :: "idempotency_key \<Rightarrow> string \<times> string \<times> string" where
  "ident k = (ik_BusinessID k, ik_Command k, ik_IdempotencyKey k)"

definition new_claim :: "string \<times> string \<times> string \<Rightarrow> string \<Rightarrow> idempotency_key" where
  "new_claim rid hash =
     (case rid of (businessID, command, key) \<Rightarrow>
        \<lparr>ik_BusinessID = businessID, ik_Command = command, ik_IdempotencyKey = key, ik_RequestHash = hash,
         ik_Completed = False, ik_ResultType = None, ik_ResultID = None\<rparr>)"

text \<open>
  The insert with \<open>ON CONFLICT DO NOTHING\<close>, and the look at the existing row: the new table after a
  claim, or the identifier of the result to replay.
\<close>

definition claim_command :: "string \<times> string \<times> string \<Rightarrow> string \<Rightarrow> string \<Rightarrow> idempotency_key list \<Rightarrow> issue_error + (idempotency_key list + string)" where
  "claim_command rid hash resultType keys =
     (case find (\<lambda>k. ident k = rid) keys of
        None \<Rightarrow> Inr (Inl (keys @ [new_claim rid hash]))
      | Some k \<Rightarrow>
          if ik_RequestHash k \<noteq> hash then Inl IssueConflict
          else if \<not> ik_Completed k \<or> ik_ResultType k \<noteq> Some resultType \<or> ik_ResultID k = None then Inl IssueInProgress
          else Inr (Inr (the (ik_ResultID k))))"

definition complete_command :: "string \<times> string \<times> string \<Rightarrow> string \<Rightarrow> string \<Rightarrow> string \<Rightarrow> idempotency_key list \<Rightarrow> issue_error + idempotency_key list" where
  "complete_command rid hash resultType resultID keys =
     (let claimed = (\<lambda>k. ident k = rid \<and> ik_RequestHash k = hash \<and> \<not> ik_Completed k) in
      if length (filter claimed keys) \<noteq> 1 then Inl (IssueStage ''idempotency completion'')
      else Inr (map (\<lambda>k. if claimed k then k\<lparr>ik_Completed := True, ik_ResultType := Some resultType, ik_ResultID := Some resultID\<rparr> else k) keys))"

section \<open>Drafts\<close>

record draft_command =
  fc_BusinessID :: string
  fc_Command :: string
  fc_IdempotencyKey :: string
  fc_RequestHash :: string
  fc_Invoice :: invoice
  fc_Items :: "invoice_item list"
  fc_Document :: document
  fc_Lines :: "document_line list"
  fc_Activity :: activity_log
  fc_OutboxEvents :: "outbox_event list"
  fc_RenderJobs :: "sales_job list"
  fc_EmailDeliveries :: "email_delivery list"

record draft_result =
  fr_Invoice :: invoice
  fr_Replayed :: bool

definition validateAtomicInvoiceDraft :: "draft_command \<Rightarrow> bool" where
  "validateAtomicInvoiceDraft c \<longleftrightarrow>
     fc_BusinessID c \<noteq> [] \<and> fc_Command c \<noteq> [] \<and> fc_IdempotencyKey c \<noteq> [] \<and> fc_RequestHash c \<noteq> [] \<and>
     in_BusinessID (fc_Invoice c) = fc_BusinessID c \<and> do_BusinessID (fc_Document c) = fc_BusinessID c \<and>
     al_BusinessID (fc_Activity c) = fc_BusinessID c \<and>
     in_ID (fc_Invoice c) \<noteq> [] \<and> do_ID (fc_Document c) = in_ID (fc_Invoice c) \<and> al_EntityID (fc_Activity c) = in_ID (fc_Invoice c) \<and>
     list_all (\<lambda>i. it_InvoiceID i = in_ID (fc_Invoice c)) (fc_Items c) \<and>
     list_all (\<lambda>l. dl_DocumentID l = do_ID (fc_Document c)) (fc_Lines c) \<and>
     list_all (\<lambda>e. oe_BusinessID e = fc_BusinessID c) (fc_OutboxEvents c) \<and>
     list_all (\<lambda>j. rj_BusinessID j = fc_BusinessID c \<and> (rj_DocumentID j = None \<or> rj_DocumentID j = Some (do_ID (fc_Document c))) \<and>
        (rj_InvoiceID j = None \<or> rj_InvoiceID j = Some (in_ID (fc_Invoice c)))) (fc_RenderJobs c) \<and>
     list_all (\<lambda>d. ed_BusinessID d = fc_BusinessID c \<and> (ed_InvoiceID d = None \<or> ed_InvoiceID d = Some (in_ID (fc_Invoice c)))) (fc_EmailDeliveries c)"

fun insert_jobs :: "sales_job list \<Rightarrow> sales_job list \<Rightarrow> sales_job list option" where
  "insert_jobs [] jobs = Some jobs"
| "insert_jobs (j # js) jobs = (case insert_job j jobs of None \<Rightarrow> None | Some jobs' \<Rightarrow> insert_jobs js jobs')"

text \<open>Rows with a primary key, appended unless a key is taken.\<close>

definition insert_rows :: "('r \<Rightarrow> string) \<Rightarrow> 'r list \<Rightarrow> 'r list \<Rightarrow> 'r list option" where
  "insert_rows key new rows = (if distinct (map key (rows @ new)) then Some (rows @ new) else None)"

definition draft_ident :: "draft_command \<Rightarrow> string \<times> string \<times> string" where
  "draft_ident c = (fc_BusinessID c, fc_Command c, fc_IdempotencyKey c)"

definition or_stage :: "string \<Rightarrow> 'a option \<Rightarrow> issue_error + 'a" where
  "or_stage stage v = (case v of None \<Rightarrow> Inl (IssueStage stage) | Some a \<Rightarrow> Inr a)"

definition insert_draft :: "draft_command \<Rightarrow> sales_db \<Rightarrow> issue_error + sales_db" where
  "insert_draft c s =
     (case or_stage ''invoice'' (insert_invoice (fc_Invoice c) (sb_invoices s)) of Inl e \<Rightarrow> Inl e | Inr invoices \<Rightarrow>
      case or_stage ''invoice items'' (insert_rows it_ID (fc_Items c) (sb_items s)) of Inl e \<Rightarrow> Inl e | Inr items \<Rightarrow>
      case or_stage ''document projection'' (insert_rows do_ID [fc_Document c] (sb_documents s)) of Inl e \<Rightarrow> Inl e | Inr documents \<Rightarrow>
      case or_stage ''document projection items'' (insert_rows dl_ID (fc_Lines c) (sb_lines s)) of Inl e \<Rightarrow> Inl e | Inr lines \<Rightarrow>
      case or_stage ''activity'' (insert_rows al_ID [fc_Activity c] (sb_activity s)) of Inl e \<Rightarrow> Inl e | Inr log \<Rightarrow>
      case or_stage ''outbox events'' (insert_rows oe_ID (fc_OutboxEvents c) (sb_outbox s)) of Inl e \<Rightarrow> Inl e | Inr outbox \<Rightarrow>
      case or_stage ''render jobs'' (insert_jobs (fc_RenderJobs c) (sb_jobs s)) of Inl e \<Rightarrow> Inl e | Inr jobs \<Rightarrow>
      case or_stage ''email deliveries'' (insert_rows ed_ID (fc_EmailDeliveries c) (sb_deliveries s)) of Inl e \<Rightarrow> Inl e | Inr deliveries \<Rightarrow>
      Inr (s\<lparr>sb_invoices := invoices, sb_items := items, sb_documents := documents, sb_lines := lines, sb_activity := log,
             sb_outbox := outbox, sb_jobs := jobs, sb_deliveries := deliveries\<rparr>))"

definition create_draft_tx :: "draft_command \<Rightarrow> sales_db \<Rightarrow> (issue_error + string option) \<times> sales_db" where
  "create_draft_tx c s =
     (case claim_command (draft_ident c) (fc_RequestHash c) ''invoice'' (sb_keys s) of
        Inl e \<Rightarrow> (Inl e, s)
      | Inr (Inr resultID) \<Rightarrow> (Inr (Some resultID), s)
      | Inr (Inl keys) \<Rightarrow>
          (case insert_draft c (s\<lparr>sb_keys := keys\<rparr>) of
             Inl e \<Rightarrow> (Inl e, s)
           | Inr t \<Rightarrow>
               (case complete_command (draft_ident c) (fc_RequestHash c) ''invoice'' (in_ID (fc_Invoice c)) (sb_keys t) of
                  Inl e \<Rightarrow> (Inl e, s)
                | Inr keys' \<Rightarrow> (Inr None, t\<lparr>sb_keys := keys'\<rparr>))))"

text \<open>The row an idempotency key names, deleted or not; a row that is gone reads as its identity alone.\<close>

definition empty_snapshot :: party_snapshot where
  "empty_snapshot = \<lparr>ps_Name = [], ps_Email = [], ps_Phone = [], ps_Address = [], ps_City = [], ps_State = [], ps_Country = [],
     ps_PostalCode = [], ps_TaxID = [], ps_GSTIN = []\<rparr>"

definition zero_invoice :: "string \<Rightarrow> string \<Rightarrow> invoice" where
  "zero_invoice rid businessID =
     \<lparr>in_ID = rid, in_BusinessID = businessID, in_CustomerID = None, in_Version = 0, in_RenderProfileID = None, in_InvoiceNo = None,
      in_Origin = [], in_IssuedAt = None, in_SellerSnapshot = empty_snapshot, in_BuyerSnapshot = empty_snapshot,
      in_InvoiceDate = zero_time, in_Status = [], in_Metadata = [], in_Columns = [], in_CreatedAt = zero_time, in_UpdatedAt = zero_time, in_Deleted = False\<rparr>"

definition getReplayInvoice :: "string \<Rightarrow> string \<Rightarrow> sales_db \<Rightarrow> invoice" where
  "getReplayInvoice rid businessID s =
     (case find (\<lambda>i. in_ID i = rid \<and> in_BusinessID i = businessID) (sb_invoices s) of
        None \<Rightarrow> zero_invoice rid businessID
      | Some i \<Rightarrow> i)"

definition CreateDraftAtomic :: "draft_command \<Rightarrow> sales_db \<Rightarrow> (issue_error + draft_result) \<times> sales_db" where
  "CreateDraftAtomic c s =
     (if \<not> validateAtomicInvoiceDraft c then (Inl (IssueStage ''command validation''), s)
      else case sales_transaction (create_draft_tx c) s of
             (Inl e, t) \<Rightarrow> (Inl e, t)
           | (Inr None, t) \<Rightarrow> (Inr \<lparr>fr_Invoice = fc_Invoice c, fr_Replayed = False\<rparr>, t)
           | (Inr (Some rid), t) \<Rightarrow>
               (if rid = [] then (Inr \<lparr>fr_Invoice = fc_Invoice c, fr_Replayed = False\<rparr>, t)
                else case external_call (\<lambda>s. (getReplayInvoice rid (fc_BusinessID c) s, s)) t of
                       (None, u) \<Rightarrow> (Inl (IssueStage ''idempotency result replay''), u)
                     | (Some i, u) \<Rightarrow> (Inr \<lparr>fr_Invoice = i, fr_Replayed = True\<rparr>, u)))"

definition ReplayCompletedDraft :: "string \<Rightarrow> string \<Rightarrow> string \<Rightarrow> string \<Rightarrow> sales_db \<Rightarrow> (issue_error + draft_result option) \<times> sales_db" where
  "ReplayCompletedDraft businessID command key hash s =
     (case external_call (\<lambda>s. (find (\<lambda>k. ident k = (businessID, command, key)) (sb_keys s), s)) s of
        (None, t) \<Rightarrow> (Inl (IssueStage ''idempotency replay lookup''), t)
      | (Some None, t) \<Rightarrow> (Inr None, t)
      | (Some (Some k), t) \<Rightarrow>
          if ik_RequestHash k \<noteq> hash then (Inl IssueConflict, t)
          else if \<not> ik_Completed k \<or> ik_ResultType k \<noteq> Some ''invoice'' \<or> ik_ResultID k = None then (Inr None, t)
          else (case external_call (\<lambda>s. (getReplayInvoice (the (ik_ResultID k)) businessID s, s)) t of
                  (None, u) \<Rightarrow> (Inl (IssueStage ''idempotency result replay''), u)
                | (Some i, u) \<Rightarrow> (Inr (Some \<lparr>fr_Invoice = i, fr_Replayed = True\<rparr>), u)))"

end
