(* ===== verification/Invoice_Issue.thy ===== *)
theory Invoice_Issue
  imports Invoice_Store
begin

text \<open>
  The issue of a draft (\<open>IssueDraftAtomic\<close> of \<open>internal/repositories/postgres/invoice_issue.go\<close>):
  one transaction that claims an idempotency key, checks the draft and its document, takes the
  next number of its sequence, and writes the invoice, the document, the final render job, a
  revision, an outbox event and an activity. Then the other statements on invoices of
  \<open>invoice_repo.go\<close>.
\<close>

section \<open>Commands and surroundings\<close>

record issue_command =
  sc_BusinessID :: string
  sc_InvoiceID :: string
  sc_Command :: string
  sc_IdempotencyKey :: string
  sc_RequestHash :: string
  sc_ExpectedVersion :: int
  sc_DocumentType :: string
  sc_Series :: string
  sc_ActorID :: string
  sc_ActorRole :: string
  sc_RequestID :: string
  sc_IPAddress :: string

record issue_result =
  sr_Invoice :: invoice
  sr_FinalRender :: sales_job
  sr_OutboxEvent :: "outbox_event option"
  sr_Replayed :: bool

text \<open>
  What the transaction is given: the time zones, \<open>uuid.Parse\<close>, the comparison of an invoice with its
  document projection (the reason of a refusal), the JSON texts of a linkage and of rows, the stock
  effect when one is configured, and the identifiers and the clock.
\<close>

record issue_env =
  ie_zone :: zone_table
  ie_uuid_ok :: "string \<Rightarrow> bool"
  ie_projection :: "invoice \<Rightarrow> invoice_item list \<Rightarrow> document \<Rightarrow> document_line list \<Rightarrow> string option"
  ie_linkage :: "string \<Rightarrow> invoice \<Rightarrow> instant \<Rightarrow> string option"
  ie_document_json :: "document \<Rightarrow> document_line list \<Rightarrow> string option"
  ie_invoice_json :: "invoice \<Rightarrow> invoice_item list \<Rightarrow> string option"
  ie_stock :: "(document \<Rightarrow> document_line list \<Rightarrow> string list \<Rightarrow> string list option) option"

record issue_ids =
  id_Render :: string
  id_Revision :: string
  id_Event :: string
  id_Activity :: string

definition issue_ident :: "issue_command \<Rightarrow> string \<times> string \<times> string" where
  "issue_ident c = (sc_BusinessID c, sc_Command c, sc_IdempotencyKey c)"

definition validateAtomicInvoiceIssue :: "issue_env \<Rightarrow> issue_command \<Rightarrow> bool" where
  "validateAtomicInvoiceIssue env c \<longleftrightarrow>
     sc_BusinessID c \<noteq> [] \<and> sc_InvoiceID c \<noteq> [] \<and> sc_Command c = ''invoice.issue'' \<and> sc_IdempotencyKey c \<noteq> [] \<and>
     sc_RequestHash c \<noteq> [] \<and> sc_ExpectedVersion c \<ge> 1 \<and> sc_ActorID c \<noteq> [] \<and>
     ie_uuid_ok env (sc_BusinessID c) \<and> ie_uuid_ok env (sc_InvoiceID c) \<and> ie_uuid_ok env (sc_ActorID c) \<and>
     (case FormatNumber (sc_DocumentType c) (sc_Series c) ''2000-2001'' 1 of Inl _ \<Rightarrow> False | Inr _ \<Rightarrow> True)"

definition claimInvoiceIssueIdempotency :: "issue_command \<Rightarrow> idempotency_key list \<Rightarrow> issue_error + (idempotency_key list + string)" where
  "claimInvoiceIssueIdempotency c keys = claim_command (issue_ident c) (sc_RequestHash c) ''invoice_issue'' keys"

definition completeInvoiceIssueIdempotency :: "issue_command \<Rightarrow> string \<Rightarrow> idempotency_key list \<Rightarrow> issue_error + idempotency_key list" where
  "completeInvoiceIssueIdempotency c invoiceID keys = complete_command (issue_ident c) (sc_RequestHash c) ''invoice_issue'' invoiceID keys"

section \<open>Checks on the draft\<close>

definition invoice_items :: "string \<Rightarrow> sales_db \<Rightarrow> invoice_item list" where
  "invoice_items invoiceID s = sort_key (\<lambda>i. (it_CreatedAt i, it_ID i)) (filter (\<lambda>i. it_InvoiceID i = invoiceID) (sb_items s))"

definition document_lines :: "string \<Rightarrow> sales_db \<Rightarrow> document_line list" where
  "document_lines documentID s = sort_key (\<lambda>l. (dl_CreatedAt l, dl_ID l)) (filter (\<lambda>l. dl_DocumentID l = documentID) (sb_lines s))"

definition resolveInvoicePreviewProfile :: "string \<Rightarrow> invoice \<Rightarrow> document \<Rightarrow> sales_db \<Rightarrow> string option" where
  "resolveInvoicePreviewProfile businessID i d s =
     (if in_RenderProfileID i \<noteq> None then in_RenderProfileID i
      else if do_RenderProfileID d \<noteq> None then do_RenderProfileID d
      else (case sort_key rp_ID (filter (\<lambda>p. rp_BusinessID p = businessID \<and> rp_IsDefault p \<and> \<not> rp_Deleted p) (sb_profiles s)) of
              [] \<Rightarrow> None
            | p # _ \<Rightarrow> Some (rp_ID p)))"

text \<open>The locked draft, its items, the financial year, its document with its lines.\<close>

definition check_invoice :: "issue_command \<Rightarrow> sales_db \<Rightarrow> issue_error + invoice" where
  "check_invoice c s =
     (case find (\<lambda>i. in_ID i = sc_InvoiceID c \<and> in_BusinessID i = sc_BusinessID c \<and> \<not> in_Deleted i) (sb_invoices s) of
        None \<Rightarrow> Inl IssueNotFound
      | Some i \<Rightarrow>
          if in_Status i \<noteq> ''draft'' \<or> in_InvoiceNo i \<noteq> None \<or> in_IssuedAt i \<noteq> None then Inl AlreadyIssued
          else if in_Version i \<noteq> sc_ExpectedVersion c then Inl (StaleVersion (sc_ExpectedVersion c) (in_Version i))
          else if snapshot_IsEmpty (in_SellerSnapshot i) \<or> snapshot_IsEmpty (in_BuyerSnapshot i)
          then Inl (InvalidLifecycle ''legal party snapshots are required'')
          else case ValidateState i of
                 Some e \<Rightarrow> Inl (InvalidLifecycle (state_error_text e))
               | None \<Rightarrow> Inr i)"

definition issue_year :: "issue_env \<Rightarrow> issue_command \<Rightarrow> invoice \<Rightarrow> sales_db \<Rightarrow> issue_error + string" where
  "issue_year env c i s =
     (case find (\<lambda>b. bp_ID b = sc_BusinessID c \<and> \<not> bp_Deleted b) (sb_businesses s) of
        None \<Rightarrow> Inl (IssueStage ''business timezone'')
      | Some b \<Rightarrow> FinancialYear (ie_zone env) (in_InvoiceDate i) (bp_Timezone b))"

definition check_document :: "issue_env \<Rightarrow> issue_command \<Rightarrow> invoice \<Rightarrow> sales_db \<Rightarrow> issue_error + document" where
  "check_document env c i s =
     (case find (\<lambda>d. do_ID d = sc_InvoiceID c \<and> do_BusinessID d = sc_BusinessID c \<and> \<not> do_Deleted d) (sb_documents s) of
        None \<Rightarrow> Inl (IssueStage ''document projection lock'')
      | Some d \<Rightarrow>
          if do_Status d \<noteq> ''draft'' then Inl (InvalidLifecycle ''document projection is not draft'')
          else case ie_projection env i (invoice_items (in_ID i) s) d (document_lines (do_ID d) s) of
                 Some reason \<Rightarrow> Inl (InvalidLifecycle reason)
               | None \<Rightarrow>
                   if (sc_DocumentType c = DocumentTypeBillOfSupply) \<noteq> do_BillOfSupply d
                   then Inl (InvalidLifecycle ''document type does not match legal projection'')
                   else Inr d)"

section \<open>Sequences\<close>

definition sequence_of :: "string \<Rightarrow> string \<Rightarrow> string \<Rightarrow> string \<Rightarrow> document_sequence \<Rightarrow> bool" where
  "sequence_of businessID ty fy series q \<longleftrightarrow>
     sq_BusinessID q = businessID \<and> sq_DocumentType q = ty \<and> sq_FinancialYear q = fy \<and> sq_Series q = series"

definition last_number :: "string \<Rightarrow> string \<Rightarrow> string \<Rightarrow> string \<Rightarrow> document_sequence list \<Rightarrow> int" where
  "last_number businessID ty fy series rows =
     (case find (sequence_of businessID ty fy series) rows of None \<Rightarrow> 0 | Some q \<Rightarrow> sq_LastNumber q)"

text \<open>The upsert with its \<open>RETURNING\<close>: nothing when the sequence is used up.\<close>

definition next_number :: "string \<Rightarrow> string \<Rightarrow> string \<Rightarrow> string \<Rightarrow> document_sequence list \<Rightarrow> (int \<times> document_sequence list) option" where
  "next_number businessID ty fy series rows =
     (case find (sequence_of businessID ty fy series) rows of
        None \<Rightarrow> Some (1, rows @ [\<lparr>sq_BusinessID = businessID, sq_DocumentType = ty, sq_FinancialYear = fy, sq_Series = series, sq_LastNumber = 1\<rparr>])
      | Some q \<Rightarrow>
          if sq_LastNumber q < 999999
          then Some (sq_LastNumber q + 1,
                     map (\<lambda>r. if sequence_of businessID ty fy series r then r\<lparr>sq_LastNumber := sq_LastNumber r + 1\<rparr> else r) rows)
          else None)"

definition allocate_number :: "issue_command \<Rightarrow> string \<Rightarrow> sales_db \<Rightarrow> issue_error + string \<times> sales_db" where
  "allocate_number c fy s =
     (case next_number (sc_BusinessID c) (sc_DocumentType c) fy (sc_Series c) (sb_sequences s) of
        None \<Rightarrow> Inl (SequenceExhausted 1000000)
      | Some (n, rows) \<Rightarrow>
          if n < 1 then Inl (SequenceExhausted 1000000)
          else case FormatNumber (sc_DocumentType c) (sc_Series c) fy n of
                 Inl e \<Rightarrow> Inl e
               | Inr number \<Rightarrow> Inr (number, s\<lparr>sb_sequences := rows\<rparr>))"

section \<open>What an issue writes\<close>

definition issued_invoice :: "string \<Rightarrow> instant \<Rightarrow> invoice \<Rightarrow> invoice" where
  "issued_invoice number issuedAt i =
     i\<lparr>in_InvoiceNo := Some number, in_IssuedAt := Some issuedAt, in_Status := ''issued'', in_Version := in_Version i + 1,
       in_UpdatedAt := issuedAt\<rparr>"

definition write_invoice :: "string \<Rightarrow> instant \<Rightarrow> invoice \<Rightarrow> sales_db \<Rightarrow> issue_error + sales_db" where
  "write_invoice number issuedAt i s =
     (case update_invoices (\<lambda>r. in_ID r = in_ID i \<and> in_BusinessID r = in_BusinessID i \<and> in_Version r = in_Version i \<and> in_Status r = ''draft'' \<and> \<not> in_Deleted r)
             (\<lambda>r. r\<lparr>in_InvoiceNo := Some number, in_IssuedAt := Some issuedAt, in_Status := ''issued'', in_Version := in_Version i + 1,
                    in_UpdatedAt := issuedAt\<rparr>) (sb_invoices s) of
        None \<Rightarrow> Inl (IssueStage ''invoice update'')
      | Some (n, rows) \<Rightarrow> if n \<noteq> 1 then Inl (IssueStage ''invoice update'') else Inr (s\<lparr>sb_invoices := rows\<rparr>))"

definition issued_document :: "string \<Rightarrow> invoice \<Rightarrow> string \<Rightarrow> instant \<Rightarrow> document \<Rightarrow> document" where
  "issued_document number i linkage issuedAt d =
     d\<lparr>do_Status := ''issued'', do_DraftState := ''final'', do_SerialNumber := number, do_IssueDate := in_InvoiceDate i,
       do_SourceLinkage := linkage, do_UpdatedAt := issuedAt\<rparr>"

definition write_document :: "string \<Rightarrow> invoice \<Rightarrow> string \<Rightarrow> instant \<Rightarrow> document \<Rightarrow> sales_db \<Rightarrow> issue_error + sales_db" where
  "write_document number i linkage issuedAt d s =
     (let draft = (\<lambda>r. do_ID r = do_ID d \<and> do_BusinessID r = do_BusinessID d \<and> do_Status r = ''draft'' \<and> \<not> do_Deleted r) in
      if length (filter draft (sb_documents s)) \<noteq> 1 then Inl (IssueStage ''document projection'')
      else Inr (s\<lparr>sb_documents := map (\<lambda>r. if draft r then issued_document number i linkage issuedAt r else r) (sb_documents s)\<rparr>))"

definition apply_stock :: "issue_env \<Rightarrow> document \<Rightarrow> document_line list \<Rightarrow> sales_db \<Rightarrow> issue_error + sales_db" where
  "apply_stock env d lines s =
     (case ie_stock env of
        None \<Rightarrow> Inr s
      | Some effect \<Rightarrow>
          (case effect d lines (sb_inventory s) of
             None \<Rightarrow> Inl (IssueStage ''inventory stock effect'')
           | Some rows \<Rightarrow> Inr (s\<lparr>sb_inventory := rows\<rparr>)))"

definition firstNonEmptyIssue :: "string list \<Rightarrow> string" where
  "firstNonEmptyIssue values = (case find (\<lambda>v. v \<noteq> []) values of None \<Rightarrow> [] | Some v \<Rightarrow> v)"

definition final_key :: "string \<Rightarrow> string \<Rightarrow> int \<Rightarrow> string" where
  "final_key businessID invoiceID v = ''invoices/'' @ businessID @ ''/'' @ invoiceID @ ''/v'' @ Itoa v @ ''/final.pdf''"

definition final_render :: "string \<Rightarrow> invoice \<Rightarrow> document \<Rightarrow> string option \<Rightarrow> instant \<Rightarrow> sales_job" where
  "final_render jobID i d profileID now =
     \<lparr>rj_ID = jobID, rj_DocumentID = Some (in_ID i), rj_InvoiceID = Some (in_ID i), rj_BusinessID = in_BusinessID i, rj_Kind = RenderKindFinal,
      rj_SourceInvoiceVersion = Some (in_Version i), rj_ObjectKey = final_key (in_BusinessID i) (in_ID i) (in_Version i), rj_Attempts = 0,
      rj_LeaseOwner = None, rj_LeaseExpiresAt = None, rj_Status = RJQueued, rj_OutputURL = [], rj_OutputFilename = [], rj_ErrorMessage = [],
      rj_CompletedAt = None, rj_CreatedAt = now, rj_Deleted = False, rj_RenderProfileID = profileID,
      rj_Locale = firstNonEmptyIssue [do_Locale d, ''en-IN''], rj_TemplateVersion = ''v1''\<rparr>"

definition newInvoiceFinalRenderRevision :: "issue_env \<Rightarrow> string \<Rightarrow> document \<Rightarrow> document_line list \<Rightarrow> sales_job \<Rightarrow> document_revision option" where
  "newInvoiceFinalRenderRevision env revisionID d lines j =
     (case (rj_SourceInvoiceVersion j, ie_document_json env d lines) of
        (Some v, Some snapshot) \<Rightarrow>
          Some \<lparr>dv_ID = revisionID, dv_DocumentID = do_ID d, dv_BusinessID = do_BusinessID d, dv_Action = ''final_render_snapshot'',
                dv_Snapshot = snapshot,
                dv_Metadata = json_object [(''render_job_id'', json_string (rj_ID j)), (''source_invoice_version'', json_int v)]\<rparr>
      | _ \<Rightarrow> None)"

definition issued_payload :: "string \<Rightarrow> string \<Rightarrow> int \<Rightarrow> string \<Rightarrow> string" where
  "issued_payload invoiceID number v jobID =
     json_object
       [(''aggregate_id'', json_string invoiceID), (''aggregate_type'', json_string ''invoice''), (''invoice_no'', json_string number),
        (''invoice_version'', json_int v), (''render_job_id'', json_string jobID), (''schema_version'', json_int 1)]"

definition issued_event :: "string \<Rightarrow> invoice \<Rightarrow> string \<Rightarrow> string \<Rightarrow> instant \<Rightarrow> outbox_event" where
  "issued_event eventID i number jobID issuedAt =
     \<lparr>oe_ID = eventID, oe_BusinessID = in_BusinessID i, oe_AggregateType = ''invoice'', oe_AggregateID = in_ID i,
      oe_EventType = invoiceIssuedEvent, oe_Payload = issued_payload (in_ID i) number (in_Version i) jobID,
      oe_PublishAttempts = 0, oe_AvailableAt = issuedAt, oe_LeaseOwner = None, oe_LeaseExpiresAt = None, oe_PublishedAt = None,
      oe_CreatedAt = issuedAt\<rparr>"

definition newInvoiceIssueActivity :: "issue_env \<Rightarrow> string \<Rightarrow> issue_command \<Rightarrow> invoice \<Rightarrow> invoice_item list \<Rightarrow> string \<Rightarrow> string \<Rightarrow> activity_log" where
  "newInvoiceIssueActivity env activityID c i items number jobID =
     \<lparr>al_ID = activityID, al_BusinessID = in_BusinessID i, al_ActorID = sc_ActorID c, al_ActorRole = sc_ActorRole c,
      al_RequestID = sc_RequestID c, al_IPAddress = sc_IPAddress c, al_EntityType = ''invoice'', al_EntityID = in_ID i, al_Action = ''issued'',
      al_Snapshot = (case ie_invoice_json env i items of None \<Rightarrow> ''{}'' | Some t \<Rightarrow> t),
      al_Diff = json_object [(''status'', json_string ''issued''), (''invoice_no'', json_string number), (''version'', json_int (in_Version i))],
      al_Metadata = json_object [(''render_job_id'', json_string jobID)]\<rparr>"

text \<open>From the allocated number on: the invoice, the document, the stock, the job, the revision, the event, the activity and the key.\<close>

definition issue_writes :: "issue_env \<Rightarrow> issue_ids \<Rightarrow> instant \<Rightarrow> issue_command \<Rightarrow> invoice \<Rightarrow> document \<Rightarrow> string \<Rightarrow> sales_db
    \<Rightarrow> issue_error + issue_result \<times> sales_db" where
  "issue_writes env ids now c i d number s =
     (let items = invoice_items (in_ID i) s; lines = document_lines (do_ID d) s;
          profileID = resolveInvoicePreviewProfile (sc_BusinessID c) i d s; i' = issued_invoice number now i in
      case write_invoice number now i s of Inl e \<Rightarrow> Inl e | Inr s1 \<Rightarrow>
      case or_stage ''document projection'' (ie_linkage env (do_SourceLinkage d) i' now) of Inl e \<Rightarrow> Inl e | Inr linkage \<Rightarrow>
      case write_document number i' linkage now d s1 of Inl e \<Rightarrow> Inl e | Inr s2 \<Rightarrow>
      (let d' = issued_document number i' linkage now d; j = final_render (id_Render ids) i' d' profileID now;
           event = issued_event (id_Event ids) i' number (id_Render ids) now in
       case apply_stock env d' lines s2 of Inl e \<Rightarrow> Inl e | Inr s3 \<Rightarrow>
       case or_stage ''final render'' (insert_job j (sb_jobs s3)) of Inl e \<Rightarrow> Inl e | Inr jobs \<Rightarrow>
       case or_stage ''final render snapshot'' (newInvoiceFinalRenderRevision env (id_Revision ids) d' lines j) of Inl e \<Rightarrow> Inl e | Inr revision \<Rightarrow>
       case or_stage ''final render snapshot'' (insert_rows dv_ID [revision] (sb_revisions s3)) of Inl e \<Rightarrow> Inl e | Inr revisions \<Rightarrow>
       case or_stage ''outbox event'' (insert_rows oe_ID [event] (sb_outbox s3)) of Inl e \<Rightarrow> Inl e | Inr outbox \<Rightarrow>
       case or_stage ''activity'' (insert_rows al_ID [newInvoiceIssueActivity env (id_Activity ids) c i' items number (id_Render ids)] (sb_activity s3)) of
         Inl e \<Rightarrow> Inl e
       | Inr log \<Rightarrow>
       case completeInvoiceIssueIdempotency c (in_ID i') (sb_keys s3) of Inl e \<Rightarrow> Inl e | Inr keys \<Rightarrow>
       Inr (\<lparr>sr_Invoice = i', sr_FinalRender = j, sr_OutboxEvent = Some event, sr_Replayed = False\<rparr>,
            s3\<lparr>sb_jobs := jobs, sb_revisions := revisions, sb_outbox := outbox, sb_activity := log, sb_keys := keys\<rparr>)))"

definition issue_tx :: "issue_env \<Rightarrow> issue_ids \<Rightarrow> instant \<Rightarrow> issue_command \<Rightarrow> sales_db \<Rightarrow> (issue_error + (issue_result + string)) \<times> sales_db" where
  "issue_tx env ids now c s =
     (case claimInvoiceIssueIdempotency c (sb_keys s) of
        Inl e \<Rightarrow> (Inl e, s)
      | Inr (Inr replayID) \<Rightarrow> (Inr (Inr replayID), s)
      | Inr (Inl keys) \<Rightarrow>
          (let s0 = s\<lparr>sb_keys := keys\<rparr> in
           case check_invoice c s0 of Inl e \<Rightarrow> (Inl e, s) | Inr i \<Rightarrow>
           case issue_year env c i s0 of Inl e \<Rightarrow> (Inl e, s) | Inr fy \<Rightarrow>
           case check_document env c i s0 of Inl e \<Rightarrow> (Inl e, s) | Inr d \<Rightarrow>
           case allocate_number c fy s0 of Inl e \<Rightarrow> (Inl e, s) | Inr (number, s1) \<Rightarrow>
           case issue_writes env ids now c i d number s1 of Inl e \<Rightarrow> (Inl e, s) | Inr (r, t) \<Rightarrow> (Inr (Inl r), t)))"

text \<open>An error that is not one of the types of the package or a stage is reported as a failed commit.\<close>

definition isInvoiceIssueTypedError :: "issue_error \<Rightarrow> bool" where
  "isInvoiceIssueTypedError e = (case e of InvalidFinancialYear _ \<Rightarrow> False | IssueDatabase \<Rightarrow> False | _ \<Rightarrow> True)"

definition getIssueReplay :: "string \<Rightarrow> string \<Rightarrow> sales_db \<Rightarrow> (invoice \<times> sales_job) option" where
  "getIssueReplay invoiceID businessID s =
     (let i = getReplayInvoice invoiceID businessID s in
      case sort_key rj_ID (filter (\<lambda>j. rj_InvoiceID j = Some invoiceID \<and> rj_BusinessID j = businessID \<and> rj_Kind j = RenderKindFinal \<and>
                                        rj_SourceInvoiceVersion j = Some (in_Version i)) (sb_jobs s)) of
        [] \<Rightarrow> None
      | j # _ \<Rightarrow> Some (i, j))"

definition IssueDraftAtomic :: "issue_env \<Rightarrow> issue_ids \<Rightarrow> instant \<Rightarrow> issue_command \<Rightarrow> sales_db \<Rightarrow> (issue_error + issue_result) \<times> sales_db" where
  "IssueDraftAtomic env ids now c s =
     (if \<not> validateAtomicInvoiceIssue env c then (Inl (IssueStage ''command validation''), s)
      else case sales_transaction (issue_tx env ids now c) s of
             (Inl e, t) \<Rightarrow> (Inl (if isInvoiceIssueTypedError e then e else IssueStage ''transaction commit''), t)
           | (Inr (Inl r), t) \<Rightarrow> (Inr r, t)
           | (Inr (Inr replayID), t) \<Rightarrow>
               (case external_call (\<lambda>s. (getIssueReplay replayID (sc_BusinessID c) s, s)) t of
                  (Some (Some (i, j)), u) \<Rightarrow> (Inr \<lparr>sr_Invoice = i, sr_FinalRender = j, sr_OutboxEvent = None, sr_Replayed = True\<rparr>, u)
                | (_, u) \<Rightarrow> (Inl (IssueStage ''idempotency result replay''), u)))"

section \<open>Other statements on invoices\<close>

definition run_update :: "(invoice \<Rightarrow> bool) \<Rightarrow> (invoice \<Rightarrow> invoice) \<Rightarrow> sales_db \<Rightarrow> (issue_error + nat) \<times> sales_db" where
  "run_update p f s =
     (case external_call (\<lambda>s. case update_invoices p f (sb_invoices s) of None \<Rightarrow> (None, s) | Some (n, rows) \<Rightarrow> (Some n, s\<lparr>sb_invoices := rows\<rparr>)) s of
        (Some (Some n), t) \<Rightarrow> (Inr n, t)
      | (_, t) \<Rightarrow> (Inl IssueDatabase, t))"

text \<open>
  The rows of the items that \<open>Create\<close> and \<open>Update\<close> write with the invoice, in the same transaction, are not modelled.
\<close>

definition invoice_Create :: "invoice \<Rightarrow> sales_db \<Rightarrow> issue_error option \<times> sales_db" where
  "invoice_Create i s =
     (case external_call (\<lambda>s. case insert_invoice i (sb_invoices s) of None \<Rightarrow> (False, s) | Some rows \<Rightarrow> (True, s\<lparr>sb_invoices := rows\<rparr>)) s of
        (Some True, t) \<Rightarrow> (None, t)
      | (_, t) \<Rightarrow> (Some IssueDatabase, t))"

text \<open>\<open>Save\<close> writes every column of the row with the identifier, and inserts the row where there is none.\<close>

definition invoice_Update :: "invoice \<Rightarrow> sales_db \<Rightarrow> (issue_error + nat) \<times> sales_db" where
  "invoice_Update i s =
     (case external_call
             (\<lambda>s. case (if in_ID i \<in> in_ID ` set (sb_invoices s) then update_invoices (\<lambda>r. in_ID r = in_ID i) (\<lambda>r. i) (sb_invoices s)
                        else map_option (Pair 1) (insert_invoice i (sb_invoices s))) of
                    None \<Rightarrow> (None, s)
                  | Some (n, rows) \<Rightarrow> (Some n, s\<lparr>sb_invoices := rows\<rparr>)) s of
        (Some (Some n), t) \<Rightarrow> (Inr n, t)
      | (_, t) \<Rightarrow> (Inl IssueDatabase, t))"

definition UpdateStatus :: "string \<Rightarrow> string \<Rightarrow> instant \<Rightarrow> sales_db \<Rightarrow> (issue_error + nat) \<times> sales_db" where
  "UpdateStatus invoiceID status now s =
     run_update (\<lambda>r. in_ID r = invoiceID \<and> \<not> in_Deleted r) (\<lambda>r. r\<lparr>in_Status := status, in_UpdatedAt := now\<rparr>) s"

definition invoice_Delete :: "string \<Rightarrow> sales_db \<Rightarrow> (issue_error + nat) \<times> sales_db" where
  "invoice_Delete invoiceID s = run_update (\<lambda>r. in_ID r = invoiceID \<and> \<not> in_Deleted r) (\<lambda>r. r\<lparr>in_Deleted := True\<rparr>) s"

definition UpdateDraftMetadataVersioned :: "invoice \<Rightarrow> int \<Rightarrow> instant \<Rightarrow> sales_db \<Rightarrow> issue_error option \<times> sales_db" where
  "UpdateDraftMetadataVersioned i expectedVersion now s =
     (if in_ID i = [] \<or> in_BusinessID i = [] \<or> expectedVersion < 1 \<or> in_Version i \<noteq> expectedVersion + 1
      then (Some (IssueStage ''versioned draft metadata update requires exact invoice identity''), s)
      else case run_update
                  (\<lambda>r. in_ID r = in_ID i \<and> in_BusinessID r = in_BusinessID i \<and> in_Version r = expectedVersion \<and> in_Status r = ''draft'' \<and> \<not> in_Deleted r)
                  (\<lambda>r. r\<lparr>in_Version := in_Version i, in_InvoiceDate := in_InvoiceDate i, in_RenderProfileID := in_RenderProfileID i,
                         in_Metadata := in_Metadata i, in_UpdatedAt := now\<rparr>) s of
             (Inl e, t) \<Rightarrow> (Some e, t)
           | (Inr n, t) \<Rightarrow> (if n \<noteq> 1 then Some (StaleVersion expectedVersion 0) else None, t))"

end
