(* ===== verification/Invoice_System.thy ===== *)
theory Invoice_System
  imports Invoice_Issue Delivery_Messages
begin

text \<open>
  Invoices under concurrency: drafts, issues and the other statements interleave at their
  transactions, and any of them may fail or lose its answer. The numbers of a sequence are used
  one after the other and none is left out; what an issue wrote stays.
\<close>

section \<open>Effects\<close>

lemma sales_transaction_effect:
  assumes "sales_transaction f s = (r, t)"
  obtains fs where "t = s\<lparr>fa_faults := fs\<rparr>" "r = Inl IssueDatabase \<or> (\<exists>e. r = Inl e \<and> fst (f (s\<lparr>fa_faults := fs\<rparr>)) = Inl e)"
  | fs a where "f (s\<lparr>fa_faults := fs\<rparr>) = (Inr a, t)" "r = Inl IssueDatabase \<or> r = Inr a"
proof -
  obtain q where q: "external_call (\<lambda>s. case f s of (Inl e, _) \<Rightarrow> (Inl e, s) | (Inr a, t) \<Rightarrow> (Inr a, t)) s = (q, t)"
    and r: "r = (case q of None \<Rightarrow> Inl IssueDatabase | Some x \<Rightarrow> x)"
    using assms by (auto simp: sales_transaction_def split: prod.splits option.splits)
  from q show ?thesis using that r by (cases rule: rollback_effect) auto
qed

lemma or_stageE: "or_stage stage v = Inr a \<Longrightarrow> v = Some a"
  by (auto simp: or_stage_def split: option.splits)

lemma update_invoicesE:
  assumes "update_invoices p f rows = Some (n, rows')"
  obtains "rows' = map (\<lambda>i. if p i then f i else i) rows" "n = length (filter p rows)" "invoices_ok rows'"
    "\<And>i. i \<in> set rows \<Longrightarrow> p i \<Longrightarrow> identity_kept i (f i)"
  using assms by (auto simp: update_invoices_def Let_def list_all_iff split: if_splits)

lemma update_invoices_cong: "(\<And>i. p i \<Longrightarrow> f i = g i) \<Longrightarrow> update_invoices p f rows = update_invoices p g rows"
proof -
  assume same: "\<And>i. p i \<Longrightarrow> f i = g i"
  then have "(\<lambda>i. if p i then f i else i) = (\<lambda>i. if p i then g i else i)" "(\<lambda>i. p i \<longrightarrow> identity_kept i (f i)) = (\<lambda>i. p i \<longrightarrow> identity_kept i (g i))"
    by auto
  then show ?thesis unfolding update_invoices_def by (simp only:)
qed

definition draft_row :: "invoice \<Rightarrow> invoice \<Rightarrow> bool" where
  "draft_row i r \<longleftrightarrow> in_ID r = in_ID i \<and> in_BusinessID r = in_BusinessID i \<and> in_Version r = in_Version i \<and> in_Status r = ''draft'' \<and> \<not> in_Deleted r"

lemma write_invoiceE:
  assumes "write_invoice number now i s = Inr t"
  obtains rows where "t = s\<lparr>sb_invoices := rows\<rparr>" "update_invoices (draft_row i) (issued_invoice number now) (sb_invoices s) = Some (1, rows)"
proof -
  have e: "update_invoices (draft_row i) (issued_invoice number now) (sb_invoices s) =
      update_invoices (\<lambda>r. in_ID r = in_ID i \<and> in_BusinessID r = in_BusinessID i \<and> in_Version r = in_Version i \<and> in_Status r = ''draft'' \<and> \<not> in_Deleted r)
             (\<lambda>r. r\<lparr>in_InvoiceNo := Some number, in_IssuedAt := Some now, in_Status := ''issued'', in_Version := in_Version i + 1,
                    in_UpdatedAt := now\<rparr>) (sb_invoices s)"
    unfolding draft_row_def [abs_def] by (rule update_invoices_cong) (simp add: issued_invoice_def)
  show ?thesis using assms that unfolding write_invoice_def e [symmetric] by (auto split: option.splits if_splits)
qed

lemma write_document_effect: "write_document number i linkage now d s = Inr t \<Longrightarrow> \<exists>rows. t = s\<lparr>sb_documents := rows\<rparr>"
  by (auto simp: write_document_def Let_def split: if_splits)

lemma apply_stock_effect: "apply_stock env d lines s = Inr t \<Longrightarrow> \<exists>rows. t = s\<lparr>sb_inventory := rows\<rparr>"
proof (cases "ie_stock env")
  case None
  moreover assume "apply_stock env d lines s = Inr t"
  ultimately have "t = s\<lparr>sb_inventory := sb_inventory s\<rparr>" by (simp add: apply_stock_def)
  then show ?thesis by blast
qed (auto simp: apply_stock_def split: option.splits)

text \<open>Everything a successful issue leaves behind that others rely on.\<close>

definition issue_leaves :: "issue_ids \<Rightarrow> instant \<Rightarrow> issue_command \<Rightarrow> invoice \<Rightarrow> string \<Rightarrow> issue_result \<Rightarrow> sales_db \<Rightarrow> sales_db \<Rightarrow> bool" where
  "issue_leaves ids now c i number r s t \<longleftrightarrow>
     sb_sequences t = sb_sequences s \<and>
     update_invoices (draft_row i) (issued_invoice number now) (sb_invoices s) = Some (1, sb_invoices t) \<and>
     sr_Invoice r = issued_invoice number now i \<and> \<not> sr_Replayed r \<and>
     (\<exists>d profileID. sr_FinalRender r = final_render (id_Render ids) (sr_Invoice r) d profileID now) \<and>
     insert_job (sr_FinalRender r) (sb_jobs s) = Some (sb_jobs t) \<and>
     sr_OutboxEvent r = Some (issued_event (id_Event ids) (sr_Invoice r) number (id_Render ids) now) \<and>
     sb_outbox t = sb_outbox s @ [issued_event (id_Event ids) (sr_Invoice r) number (id_Render ids) now] \<and>
     completeInvoiceIssueIdempotency c (in_ID i) (sb_keys s) = Inr (sb_keys t) \<and>
     sb_deliveries t = sb_deliveries s"

lemma in_ID_issued [simp]: "in_ID (issued_invoice number now i) = in_ID i"
  by (simp add: issued_invoice_def)

lemma issue_writes_effect:
  assumes "issue_writes env ids now c i d number s = Inr (r, t)"
  shows "issue_leaves ids now c i number r s t"
proof -
  let ?i = "issued_invoice number now i"
  obtain s1 where s1: "write_invoice number now i s = Inr s1"
    using assms by (auto simp: issue_writes_def Let_def split: sum.splits)
  then obtain rows where rows: "s1 = s\<lparr>sb_invoices := rows\<rparr>" "update_invoices (draft_row i) (issued_invoice number now) (sb_invoices s) = Some (1, rows)"
    by (rule write_invoiceE)
  obtain linkage where linkage: "or_stage ''document projection'' (ie_linkage env (do_SourceLinkage d) ?i now) = Inr linkage"
    using assms s1 by (auto simp: issue_writes_def Let_def split: sum.splits)
  obtain s2 where s2: "write_document number ?i linkage now d s1 = Inr s2"
    using assms s1 linkage by (auto simp: issue_writes_def Let_def split: sum.splits)
  obtain docs where docs: "s2 = s1\<lparr>sb_documents := docs\<rparr>" using write_document_effect [OF s2] by blast
  let ?d = "issued_document number ?i linkage now d"
  obtain s3 where s3: "apply_stock env ?d (document_lines (do_ID d) s) s2 = Inr s3"
    using assms s1 linkage s2 by (auto simp: issue_writes_def Let_def split: sum.splits)
  obtain inventory where inventory: "s3 = s2\<lparr>sb_inventory := inventory\<rparr>" using apply_stock_effect [OF s3] by blast
  show ?thesis
    using assms unfolding issue_writes_def Let_def s1 sum.case linkage s2 s3 issue_leaves_def
    by (auto simp: rows docs inventory insert_rows_def split: sum.splits if_splits dest!: or_stageE; blast)
qed

lemma issue_txE:
  assumes "issue_tx env ids now c s = (Inr (Inl r), t)"
  obtains keys i fy d number s1 where
    "claimInvoiceIssueIdempotency c (sb_keys s) = Inr (Inl keys)" "check_invoice c (s\<lparr>sb_keys := keys\<rparr>) = Inr i"
    "issue_year env c i (s\<lparr>sb_keys := keys\<rparr>) = Inr fy" "check_document env c i (s\<lparr>sb_keys := keys\<rparr>) = Inr d"
    "allocate_number c fy (s\<lparr>sb_keys := keys\<rparr>) = Inr (number, s1)" "issue_leaves ids now c i number r s1 t"
  using assms issue_writes_effect
  by (auto simp: issue_tx_def Let_def split: sum.splits prod.splits)

text \<open>A call is refused, replays, or issues.\<close>

lemma IssueDraftAtomic_cases:
  assumes "IssueDraftAtomic env ids now c s = (r, t)"
  obtains (unchanged) fs where "t = s\<lparr>fa_faults := fs\<rparr>" "\<And>x. r = Inr x \<Longrightarrow> sr_Replayed x"
  | (issued) fs x where "issue_tx env ids now c (s\<lparr>fa_faults := fs\<rparr>) = (Inr (Inl x), t)"
      "r = Inl (IssueStage ''transaction commit'') \<or> r = Inr x" "validateAtomicInvoiceIssue env c"
proof (cases "validateAtomicInvoiceIssue env c")
  case False
  then have "t = s\<lparr>fa_faults := fa_faults s\<rparr>" "r = Inl (IssueStage ''command validation'')" using assms by (simp_all add: IssueDraftAtomic_def)
  then show ?thesis using unchanged [of "fa_faults s"] by blast
next
  case True
  obtain q u where q: "sales_transaction (issue_tx env ids now c) s = (q, u)" by fastforce
  from q show ?thesis
  proof (cases rule: sales_transaction_effect)
    case (1 fs)
    then show ?thesis using assms True q unchanged [of fs] by (auto simp: IssueDraftAtomic_def)
  next
    case (2 fs a)
    show ?thesis
    proof (cases a)
      case (Inl x)
      then show ?thesis using assms True q 2 issued [of fs x] by (auto simp: IssueDraftAtomic_def isInvoiceIssueTypedError_def)
    next
      case (Inr replayID)
      have u: "u = s\<lparr>fa_faults := fs\<rparr>"
        using 2(1) Inr by (auto simp: issue_tx_def Let_def split: sum.splits prod.splits)
      obtain y v where y: "external_call (\<lambda>s. (getIssueReplay replayID (sc_BusinessID c) s, s)) u = (y, v)" by fastforce
      then obtain gs where gs: "v = s\<lparr>fa_faults := gs\<rparr>" by (cases rule: external_call_effect) (auto simp: u)
      show ?thesis
        using assms True q 2(2) Inr y gs unchanged [of gs] unchanged [of fs] u
        by (auto simp: IssueDraftAtomic_def isInvoiceIssueTypedError_def split: option.splits)
    qed
  qed
qed

section \<open>Steps\<close>

text \<open>
  The keys of issue commands and the identity of final render jobs. The surroundings may change
  everything else: profiles, documents, previews, the progress of jobs, other commands.
\<close>

definition issue_keys :: "idempotency_key list \<Rightarrow> idempotency_key list" where
  "issue_keys ks = filter (\<lambda>k. ik_Command k = ''invoice.issue'') ks"

type_synonym final_ident = "string \<times> string \<times> string option \<times> int option"

definition final_jobs :: "sales_job list \<Rightarrow> final_ident list" where
  "final_jobs js = map (\<lambda>j. (rj_ID j, rj_BusinessID j, rj_InvoiceID j, rj_SourceInvoiceVersion j)) (filter (\<lambda>j. rj_Kind j = RenderKindFinal) js)"

definition elsewhere :: "sales_db \<Rightarrow> sales_db \<Rightarrow> bool" where
  "elsewhere s t \<longleftrightarrow>
     sb_invoices t = sb_invoices s \<and> sb_sequences t = sb_sequences s \<and> issue_keys (sb_keys t) = issue_keys (sb_keys s) \<and>
     final_jobs (sb_jobs t) = final_jobs (sb_jobs s)"

text \<open>
  A saved row belongs to the business it was loaded for, and only drafts change their version; a
  draft comes under a command of its own and without a final render, as the service creates it.
\<close>

inductive sales_step :: "issue_env \<Rightarrow> sales_db \<Rightarrow> sales_db \<Rightarrow> bool" for env where
  surroundings: "elsewhere s t \<Longrightarrow> sales_step env s t"
| draft:
    "fc_Command c \<noteq> ''invoice.issue'' \<Longrightarrow> list_all (\<lambda>j. rj_Kind j = RenderKindPreview) (fc_RenderJobs c) \<Longrightarrow>
     CreateDraftAtomic c s = (r, t) \<Longrightarrow> sales_step env s t"
| insert: "invoice_Create i s = (r, t) \<Longrightarrow> sales_step env s t"
| save:
    "(\<And>x. x \<in> set (sb_invoices s) \<Longrightarrow> in_ID x = in_ID i \<Longrightarrow>
        in_BusinessID x = in_BusinessID i \<and> (in_Status x \<noteq> ''draft'' \<longrightarrow> in_Version x = in_Version i)) \<Longrightarrow>
     invoice_Update i s = (r, t) \<Longrightarrow> sales_step env s t"
| status: "UpdateStatus invoiceID st now s = (r, t) \<Longrightarrow> sales_step env s t"
| delete: "invoice_Delete invoiceID s = (r, t) \<Longrightarrow> sales_step env s t"
| edit: "UpdateDraftMetadataVersioned i v now s = (r, t) \<Longrightarrow> sales_step env s t"
| issue: "IssueDraftAtomic env ids now c s = (r, t) \<Longrightarrow> sales_step env s t"

text \<open>The tables before the first issue: any invoices that satisfy the constraints.\<close>

definition sales_init :: "sales_db \<Rightarrow> bool" where
  "sales_init s \<longleftrightarrow> invoices_ok (sb_invoices s) \<and> sb_sequences s = [] \<and> issue_keys (sb_keys s) = [] \<and> final_jobs (sb_jobs s) = []"

inductive sales_reachable :: "issue_env \<Rightarrow> sales_db \<Rightarrow> bool" for env where
  init: "sales_init s \<Longrightarrow> sales_reachable env s"
| step: "sales_reachable env s \<Longrightarrow> sales_step env s t \<Longrightarrow> sales_reachable env t"

section \<open>Invariants\<close>

definition numbered :: "invoice list \<Rightarrow> document_sequence \<Rightarrow> int \<Rightarrow> bool" where
  "numbered rows q k \<longleftrightarrow>
     (\<exists>x i. FormatNumber (sq_DocumentType q) (sq_Series q) (sq_FinancialYear q) k = Inr x \<and>
        i \<in> set rows \<and> in_BusinessID i = sq_BusinessID q \<and> in_InvoiceNo i = Some x)"

text \<open>What the numbers of a sequence show of it.\<close>

definition sequence_scope :: "document_sequence \<Rightarrow> string \<times> int \<times> string" where
  "sequence_scope q = (sq_BusinessID q, short_year (sq_FinancialYear q), sq_Series q)"

definition sequences_ok :: "invoice list \<Rightarrow> document_sequence list \<Rightarrow> bool" where
  "sequences_ok rows qs \<longleftrightarrow>
     distinct (map sequence_scope qs) \<and>
     (\<forall>q \<in> set qs. 1 \<le> sq_LastNumber q \<and> sq_LastNumber q \<le> 999999 \<and> (\<forall>k \<in> {1..sq_LastNumber q}. numbered rows q k))"

definition finals_ok :: "invoice list \<Rightarrow> final_ident list \<Rightarrow> bool" where
  "finals_ok rows fs \<longleftrightarrow>
     distinct (map (\<lambda>(_, _, i, v). (i, v)) fs) \<and>
     (\<forall>(_, _, ref, _) \<in> set fs. \<exists>i \<in> set rows. ref = Some (in_ID i) \<and> in_Status i \<noteq> ''draft'')"

definition issue_key_ok :: "invoice list \<Rightarrow> final_ident list \<Rightarrow> idempotency_key \<Rightarrow> bool" where
  "issue_key_ok rows fs k \<longleftrightarrow>
     ik_Completed k \<and> ik_ResultType k = Some ''invoice_issue'' \<and>
     (\<exists>i \<in> set rows. ik_ResultID k = Some (in_ID i) \<and> in_BusinessID i = ik_BusinessID k \<and> in_Status i \<noteq> ''draft'' \<and>
        (\<exists>j. (j, in_BusinessID i, Some (in_ID i), Some (in_Version i)) \<in> set fs))"

definition sales_inv :: "sales_db \<Rightarrow> bool" where
  "sales_inv s \<longleftrightarrow>
     invoices_ok (sb_invoices s) \<and> sequences_ok (sb_invoices s) (sb_sequences s) \<and> finals_ok (sb_invoices s) (final_jobs (sb_jobs s)) \<and>
     distinct (map ident (issue_keys (sb_keys s))) \<and>
     (\<forall>k \<in> set (issue_keys (sb_keys s)). issue_key_ok (sb_invoices s) (final_jobs (sb_jobs s)) k)"

text \<open>Rows stay, and what an issued one says stays with it.\<close>

definition same_issued :: "invoice \<Rightarrow> invoice \<Rightarrow> bool" where
  "same_issued i j \<longleftrightarrow>
     in_ID j = in_ID i \<and> in_BusinessID j = in_BusinessID i \<and>
     (in_Status i \<noteq> ''draft'' \<longrightarrow>
        in_Status j \<noteq> ''draft'' \<and> in_InvoiceNo j = in_InvoiceNo i \<and> in_IssuedAt j = in_IssuedAt i \<and> in_Version j = in_Version i \<and>
        in_SellerSnapshot j = in_SellerSnapshot i \<and> in_BuyerSnapshot j = in_BuyerSnapshot i)"

definition invoices_kept :: "invoice list \<Rightarrow> invoice list \<Rightarrow> bool" where
  "invoices_kept rows rows' \<longleftrightarrow> (\<forall>i \<in> set rows. \<exists>j \<in> set rows'. same_issued i j)"

definition sales_le :: "sales_db \<Rightarrow> sales_db \<Rightarrow> bool" where
  "sales_le s t \<longleftrightarrow>
     invoices_kept (sb_invoices s) (sb_invoices t) \<and> set (issue_keys (sb_keys s)) \<subseteq> set (issue_keys (sb_keys t)) \<and>
     set (final_jobs (sb_jobs s)) \<subseteq> set (final_jobs (sb_jobs t))"

lemma same_issued_refl [simp]: "same_issued i i"
  by (simp add: same_issued_def)

lemma same_issued_trans: "same_issued i j \<Longrightarrow> same_issued j k \<Longrightarrow> same_issued i k"
  by (auto simp: same_issued_def)

lemma invoices_kept_refl [simp]: "invoices_kept rows rows"
  unfolding invoices_kept_def using same_issued_refl by blast

lemma invoices_kept_append: "invoices_kept rows (rows @ new)"
  unfolding invoices_kept_def set_append using same_issued_refl by blast

lemma invoices_kept_trans: "invoices_kept a b \<Longrightarrow> invoices_kept b c \<Longrightarrow> invoices_kept a c"
  unfolding invoices_kept_def using same_issued_trans by blast

lemma checks_number: "invoice_checks i \<Longrightarrow> in_Status i = ''draft'' \<longleftrightarrow> in_InvoiceNo i = None"
  by (auto simp: invoice_checks_def)

lemma invoices_okD: "invoices_ok rows \<Longrightarrow> i \<in> set rows \<Longrightarrow> invoice_checks i"
  by (simp add: invoices_ok_def list_all_iff)

lemma number_owner:
  assumes "invoices_ok rows" and "i \<in> set rows" and "j \<in> set rows" and "in_BusinessID i = in_BusinessID j"
    and "in_InvoiceNo i = Some x" and "in_InvoiceNo j = Some x"
  shows "i = j"
  using assms by (auto simp: invoices_ok_def invoice_numbers_def distinct_map inj_on_def)

lemma id_owner: "invoices_ok rows \<Longrightarrow> i \<in> set rows \<Longrightarrow> j \<in> set rows \<Longrightarrow> in_ID i = in_ID j \<Longrightarrow> i = j"
  by (auto simp: invoices_ok_def distinct_map inj_on_def)

lemma kept_by_update:
  assumes "update_invoices p f rows = Some (n, rows')" and "invoices_ok rows"
    and "\<And>i. i \<in> set rows \<Longrightarrow> p i \<Longrightarrow>
      in_ID (f i) = in_ID i \<and> in_BusinessID (f i) = in_BusinessID i \<and> (in_Status i \<noteq> ''draft'' \<longrightarrow> in_Version (f i) = in_Version i)"
  shows "invoices_kept rows rows'"
  unfolding invoices_kept_def
proof
  fix i assume i: "i \<in> set rows"
  from assms(1) have rows': "rows' = map (\<lambda>i. if p i then f i else i) rows" and ok: "invoices_ok rows'"
    and kept: "p i \<Longrightarrow> identity_kept i (f i)" using i by (auto elim: update_invoicesE)
  let ?j = "if p i then f i else i"
  have j: "?j \<in> set rows'" unfolding rows' using i by force
  have "same_issued i ?j"
  proof (cases "p i")
    case True
    have "in_Status (f i) \<noteq> ''draft''" if "in_Status i \<noteq> ''draft''"
      using that True kept checks_number [OF invoices_okD [OF assms(2) i]] checks_number [OF invoices_okD [OF ok j]]
      by (auto simp: identity_kept_def)
    then show ?thesis using True kept assms(3) [OF i True] by (auto simp: same_issued_def identity_kept_def)
  qed simp
  then show "\<exists>j \<in> set rows'. same_issued i j" using j by blast
qed

text \<open>The invariants carry over to tables that keep what was issued.\<close>

lemma numbered_kept:
  assumes "numbered rows q k" and "invoices_ok rows" and "invoices_kept rows rows'"
  shows "numbered rows' q k"
proof -
  from assms(1) obtain x i where x: "FormatNumber (sq_DocumentType q) (sq_Series q) (sq_FinancialYear q) k = Inr x"
    and i: "i \<in> set rows" "in_BusinessID i = sq_BusinessID q" "in_InvoiceNo i = Some x" by (auto simp: numbered_def)
  obtain j where j: "j \<in> set rows'" "same_issued i j" using assms(3) i(1) by (auto simp: invoices_kept_def)
  have "in_Status i \<noteq> ''draft''" using checks_number [OF invoices_okD [OF assms(2) i(1)]] i(3) by simp
  then show ?thesis using x i j by (auto simp: numbered_def same_issued_def)
qed

lemma sequences_kept: "sequences_ok rows qs \<Longrightarrow> invoices_ok rows \<Longrightarrow> invoices_kept rows rows' \<Longrightarrow> sequences_ok rows' qs"
  unfolding sequences_ok_def using numbered_kept by blast

lemma finals_kept:
  assumes "finals_ok rows fs" and "invoices_kept rows rows'"
  shows "finals_ok rows' fs"
proof -
  have "\<exists>j \<in> set rows'. ref = Some (in_ID j) \<and> in_Status j \<noteq> ''draft''" if "i \<in> set rows" "ref = Some (in_ID i)" "in_Status i \<noteq> ''draft''" for i ref
    using that assms(2) unfolding invoices_kept_def same_issued_def by metis
  then show ?thesis using assms(1) unfolding finals_ok_def by blast
qed

lemma issue_key_kept:
  assumes "issue_key_ok rows fs k" and "invoices_kept rows rows'" and "set fs \<subseteq> set fs'"
  shows "issue_key_ok rows' fs' k"
proof -
  from assms(1) obtain i j where i: "i \<in> set rows" "ik_ResultID k = Some (in_ID i)" "in_BusinessID i = ik_BusinessID k" "in_Status i \<noteq> ''draft''"
    and j: "(j, in_BusinessID i, Some (in_ID i), Some (in_Version i)) \<in> set fs" and k: "ik_Completed k" "ik_ResultType k = Some ''invoice_issue''"
    by (auto simp: issue_key_ok_def)
  obtain i' where "i' \<in> set rows'" "same_issued i i'" using assms(2) i(1) by (auto simp: invoices_kept_def)
  then have "i' \<in> set rows' \<and> ik_ResultID k = Some (in_ID i') \<and> in_BusinessID i' = ik_BusinessID k \<and> in_Status i' \<noteq> ''draft'' \<and>
      (j, in_BusinessID i', Some (in_ID i'), Some (in_Version i')) \<in> set fs'"
    using i j assms(3) by (auto simp: same_issued_def)
  then show ?thesis using k unfolding issue_key_ok_def by blast
qed

lemma sales_inv_kept:
  assumes "sales_inv s" and "invoices_ok (sb_invoices t)" and "invoices_kept (sb_invoices s) (sb_invoices t)"
    and "sb_sequences t = sb_sequences s" and "issue_keys (sb_keys t) = issue_keys (sb_keys s)"
    and "final_jobs (sb_jobs t) = final_jobs (sb_jobs s)"
  shows "sales_inv t \<and> sales_le s t"
proof -
  note i = assms(1) [unfolded sales_inv_def]
  have "sequences_ok (sb_invoices t) (sb_sequences t)" using i assms(3,4) sequences_kept by metis
  moreover have "finals_ok (sb_invoices t) (final_jobs (sb_jobs t))" using i assms(3,6) finals_kept by metis
  moreover have "issue_key_ok (sb_invoices t) (final_jobs (sb_jobs t)) k" if "k \<in> set (issue_keys (sb_keys t))" for k
    using that i assms(3,5,6) issue_key_kept [OF _ assms(3) subset_refl] by simp
  ultimately show ?thesis using i assms(2,3,5,6) by (simp add: sales_inv_def sales_le_def)
qed

text \<open>A statement on invoices alone.\<close>

lemma statement_step:
  assumes "external_call (\<lambda>s. case g (sb_invoices s) of None \<Rightarrow> (a s, s) | Some (n, rows) \<Rightarrow> (b n s, s\<lparr>sb_invoices := rows\<rparr>)) s = (q, t)" and "sales_inv s"
    and "\<And>n rows. g (sb_invoices s) = Some (n, rows) \<Longrightarrow> invoices_ok rows \<and> invoices_kept (sb_invoices s) rows"
  shows "sales_inv t \<and> sales_le s t"
proof -
  have "\<exists>fs. t = s\<lparr>fa_faults := fs\<rparr> \<or> (\<exists>n rows. g (sb_invoices s) = Some (n, rows) \<and> t = s\<lparr>fa_faults := fs, sb_invoices := rows\<rparr>)"
    using assms(1) by (cases rule: external_call_effect) (auto split: option.splits; blast)+
  moreover have "invoices_ok (sb_invoices s)" using assms(2) by (simp add: sales_inv_def)
  ultimately have "invoices_ok (sb_invoices t) \<and> invoices_kept (sb_invoices s) (sb_invoices t) \<and> sb_sequences t = sb_sequences s \<and>
      issue_keys (sb_keys t) = issue_keys (sb_keys s) \<and> final_jobs (sb_jobs t) = final_jobs (sb_jobs s)"
    using assms(3) by auto
  then show ?thesis using sales_inv_kept [OF assms(2)] by blast
qed

lemma run_update_step:
  assumes "run_update p f s = (r, t)" and "sales_inv s"
    and "\<And>i. i \<in> set (sb_invoices s) \<Longrightarrow> p i \<Longrightarrow>
      in_ID (f i) = in_ID i \<and> in_BusinessID (f i) = in_BusinessID i \<and> (in_Status i \<noteq> ''draft'' \<longrightarrow> in_Version (f i) = in_Version i)"
  shows "sales_inv t \<and> sales_le s t"
proof -
  obtain q where "external_call (\<lambda>s. case update_invoices p f (sb_invoices s) of None \<Rightarrow> (None, s) | Some (n, rows) \<Rightarrow> (Some n, s\<lparr>sb_invoices := rows\<rparr>)) s = (q, t)"
    using assms(1) by (auto simp: run_update_def split: prod.splits option.splits)
  then show ?thesis
  proof (rule statement_step [OF _ assms(2)])
    fix n rows assume u: "update_invoices p f (sb_invoices s) = Some (n, rows)"
    have "invoices_ok (sb_invoices s)" using assms(2) by (simp add: sales_inv_def)
    then show "invoices_ok rows \<and> invoices_kept (sb_invoices s) rows" using kept_by_update [OF u] assms(3) u by (blast elim: update_invoicesE)
  qed
qed

lemma insert_invoice_kept: "insert_invoice i rows = Some rows' \<Longrightarrow> invoices_ok rows' \<and> invoices_kept rows rows'"
  by (auto simp: insert_invoice_def invoices_kept_append split: if_splits)

lemma create_step:
  assumes "invoice_Create i s = (r, t)" and "sales_inv s"
  shows "sales_inv t \<and> sales_le s t"
proof -
  let ?g = "\<lambda>rows. map_option (Pair ()) (insert_invoice i rows)"
  have e: "(\<lambda>s. case insert_invoice i (sb_invoices s) of None \<Rightarrow> (False, s) | Some rows \<Rightarrow> (True, s\<lparr>sb_invoices := rows\<rparr>)) =
      (\<lambda>s. case ?g (sb_invoices s) of None \<Rightarrow> (False, s) | Some (n, rows) \<Rightarrow> (True, s\<lparr>sb_invoices := rows\<rparr>))"
    by (auto split: option.splits)
  obtain q where "external_call (\<lambda>s. case insert_invoice i (sb_invoices s) of None \<Rightarrow> (False, s) | Some rows \<Rightarrow> (True, s\<lparr>sb_invoices := rows\<rparr>)) s = (q, t)"
    using assms(1) by (auto simp: invoice_Create_def split: prod.splits option.splits bool.splits)
  from this [unfolded e] show ?thesis by (rule statement_step [OF _ assms(2)]) (use insert_invoice_kept in auto)
qed

lemma save_step:
  assumes "invoice_Update i s = (r, t)" and "sales_inv s"
    and "\<And>x. x \<in> set (sb_invoices s) \<Longrightarrow> in_ID x = in_ID i \<Longrightarrow>
        in_BusinessID x = in_BusinessID i \<and> (in_Status x \<noteq> ''draft'' \<longrightarrow> in_Version x = in_Version i)"
  shows "sales_inv t \<and> sales_le s t"
proof -
  let ?g = "\<lambda>rows. if in_ID i \<in> in_ID ` set rows then update_invoices (\<lambda>r. in_ID r = in_ID i) (\<lambda>r. i) rows else map_option (Pair 1) (insert_invoice i rows)"
  have ok: "invoices_ok (sb_invoices s)" using assms(2) by (simp add: sales_inv_def)
  obtain q where "external_call (\<lambda>s. case ?g (sb_invoices s) of None \<Rightarrow> (None, s) | Some (n, rows) \<Rightarrow> (Some n, s\<lparr>sb_invoices := rows\<rparr>)) s = (q, t)"
    using assms(1) by (auto simp: invoice_Update_def split: prod.splits option.splits)
  then show ?thesis
  proof (rule statement_step [OF _ assms(2)])
    fix n rows assume g: "?g (sb_invoices s) = Some (n, rows)"
    show "invoices_ok rows \<and> invoices_kept (sb_invoices s) rows"
    proof (cases "in_ID i \<in> in_ID ` set (sb_invoices s)")
      case True
      then have u: "update_invoices (\<lambda>r. in_ID r = in_ID i) (\<lambda>r. i) (sb_invoices s) = Some (n, rows)" using g by simp
      have "invoices_kept (sb_invoices s) rows" by (rule kept_by_update [OF u ok]) (use assms(3) in auto)
      then show ?thesis using u by (blast elim: update_invoicesE)
    next
      case False
      then show ?thesis using g insert_invoice_kept by auto
    qed
  qed
qed

lemma edit_step:
  assumes "UpdateDraftMetadataVersioned i v now s = (r, t)" and "sales_inv s"
  shows "sales_inv t \<and> sales_le s t"
proof (cases "in_ID i = [] \<or> in_BusinessID i = [] \<or> v < 1 \<or> in_Version i \<noteq> v + 1")
  case True
  then have "t = s" using assms(1) by (auto simp: UpdateDraftMetadataVersioned_def)
  then show ?thesis using assms(2) sales_inv_kept [OF assms(2)] by (simp add: sales_inv_def)
next
  case False
  let ?p = "\<lambda>r. in_ID r = in_ID i \<and> in_BusinessID r = in_BusinessID i \<and> in_Version r = v \<and> in_Status r = ''draft'' \<and> \<not> in_Deleted r"
  let ?f = "\<lambda>r. r\<lparr>in_Version := in_Version i, in_InvoiceDate := in_InvoiceDate i, in_RenderProfileID := in_RenderProfileID i,
                         in_Metadata := in_Metadata i, in_UpdatedAt := now\<rparr>"
  obtain q where "run_update ?p ?f s = (q, t)"
    using assms(1) False by (auto simp: UpdateDraftMetadataVersioned_def split: prod.splits sum.splits)
  then show ?thesis by (rule run_update_step [OF _ assms(2)]) auto
qed

section \<open>Drafts\<close>

lemma issue_keys_other:
  assumes "complete_command (b, command, key) hash ty res (keys @ [new_claim (b, command, key) hash]) = Inr keys'" and "command \<noteq> ''invoice.issue''"
  shows "issue_keys keys' = issue_keys keys"
proof -
  have "filter (\<lambda>k. ik_Command k = ''invoice.issue'') (map (\<lambda>k. if ident k = (b, command, key) \<and> h k then g k else k) ks) =
      filter (\<lambda>k. ik_Command k = ''invoice.issue'') ks" if "\<And>k. ik_Command (g k) = ik_Command k" for g h ks
    using that assms(2) by (induction ks) (auto simp: ident_def)
  then show ?thesis
    using assms by (auto simp: complete_command_def Let_def issue_keys_def new_claim_def split: if_splits)
qed

lemma insert_jobs_final: "insert_jobs js jobs = Some jobs' \<Longrightarrow> list_all (\<lambda>j. rj_Kind j = RenderKindPreview) js \<Longrightarrow> final_jobs jobs' = final_jobs jobs"
  by (induction js jobs arbitrary: jobs' rule: insert_jobs.induct) (auto simp: insert_job_def final_jobs_def split: if_splits)

lemma create_draft_tx_effect:
  assumes "create_draft_tx c s = (Inr None, t)" and "fc_Command c \<noteq> ''invoice.issue''" and "list_all (\<lambda>j. rj_Kind j = RenderKindPreview) (fc_RenderJobs c)"
  shows "insert_invoice (fc_Invoice c) (sb_invoices s) = Some (sb_invoices t)" "sb_sequences t = sb_sequences s"
    "issue_keys (sb_keys t) = issue_keys (sb_keys s)" "final_jobs (sb_jobs t) = final_jobs (sb_jobs s)"
proof -
  let ?k = "new_claim (draft_ident c) (fc_RequestHash c)"
  obtain u where claim: "find (\<lambda>k. ident k = draft_ident c) (sb_keys s) = None"
    and u: "insert_draft c (s\<lparr>sb_keys := sb_keys s @ [?k]\<rparr>) = Inr u"
    using assms(1) by (auto simp: create_draft_tx_def claim_command_def split: option.splits sum.splits if_splits)
  obtain keys where keys: "complete_command (draft_ident c) (fc_RequestHash c) ''invoice'' (in_ID (fc_Invoice c)) (sb_keys u) = Inr keys"
    and t: "t = u\<lparr>sb_keys := keys\<rparr>"
    using assms(1) claim u by (auto simp: create_draft_tx_def claim_command_def split: sum.splits)
  have ku: "sb_keys u = sb_keys s @ [?k]" using u by (auto simp: insert_draft_def split: sum.splits)
  show "insert_invoice (fc_Invoice c) (sb_invoices s) = Some (sb_invoices t)" "sb_sequences t = sb_sequences s"
    using u by (auto simp: t insert_draft_def split: sum.splits dest!: or_stageE)
  show "final_jobs (sb_jobs t) = final_jobs (sb_jobs s)"
    using u insert_jobs_final [OF _ assms(3)] by (auto simp: t insert_draft_def split: sum.splits dest!: or_stageE)
  show "issue_keys (sb_keys t) = issue_keys (sb_keys s)"
    using keys issue_keys_other assms(2) unfolding ku by (auto simp: t draft_ident_def)
qed

lemma draft_step:
  assumes "CreateDraftAtomic c s = (r, t)" and "fc_Command c \<noteq> ''invoice.issue''" and "list_all (\<lambda>j. rj_Kind j = RenderKindPreview) (fc_RenderJobs c)"
    and "sales_inv s"
  shows "sales_inv t \<and> sales_le s t"
proof -
  have ok: "invoices_ok (sb_invoices s)" using assms(4) by (simp add: sales_inv_def)
  have same: ?thesis if "t = s\<lparr>fa_faults := fs\<rparr>" for fs using that sales_inv_kept [OF assms(4)] ok by simp
  obtain q u where q: "sales_transaction (create_draft_tx c) s = (q, u)" by fastforce
  show ?thesis
  proof (cases "validateAtomicInvoiceDraft c")
    case False
    then have "t = s\<lparr>fa_faults := fa_faults s\<rparr>" using assms(1) by (simp add: CreateDraftAtomic_def)
    then show ?thesis by (rule same)
  next
    case True
    from q show ?thesis
    proof (cases rule: sales_transaction_effect)
      case (1 fs)
      then have "t = s\<lparr>fa_faults := fs\<rparr>" using assms(1) True q by (auto simp: CreateDraftAtomic_def)
      then show ?thesis by (rule same)
    next
      case (2 fs a)
      show ?thesis
      proof (cases a)
        case None
        note e = create_draft_tx_effect [OF 2(1) [unfolded None] assms(2,3)]
        have "t = u" using assms(1) True q 2(2) None by (auto simp: CreateDraftAtomic_def)
        then show ?thesis using insert_invoice_kept [OF e(1)] e(2-4) by (intro sales_inv_kept [OF assms(4)]) simp_all
      next
        case (Some rid)
        have u: "u = s\<lparr>fa_faults := fs\<rparr>"
          using 2(1) Some by (auto simp: create_draft_tx_def split: sum.splits)
        obtain y v where y: "external_call (\<lambda>s. (getReplayInvoice rid (fc_BusinessID c) s, s)) u = (y, v)" by fastforce
        then obtain gs where gs: "v = s\<lparr>fa_faults := gs\<rparr>" by (cases rule: external_call_effect) (auto simp: u)
        have "t = u \<or> t = v"
          using assms(1) True q 2(2) Some y by (auto simp: CreateDraftAtomic_def split: option.splits if_splits)
        then show ?thesis using same u gs by blast
      qed
    qed
  qed
qed

end
