(* ===== verification/Invoice_Sequences.thy ===== *)
theory Invoice_Sequences
  imports Invoice_System Step_Systems
begin

text \<open>
  An issue takes the next number of its sequence and keeps the invariants; with the other steps,
  every run does. The number carries the series and the year but not the type of the document,
  while there is a sequence for each type.
\<close>

section \<open>The next number\<close>

lemma next_number_cases:
  assumes "next_number b ty fy series qs = Some (n, qs')"
  obtains (first) "find (sequence_of b ty fy series) qs = None" "n = 1"
      "qs' = qs @ [\<lparr>sq_BusinessID = b, sq_DocumentType = ty, sq_FinancialYear = fy, sq_Series = series, sq_LastNumber = 1\<rparr>]"
  | (next_one) q where "q \<in> set qs" "sequence_of b ty fy series q" "sq_LastNumber q < 999999" "n = sq_LastNumber q + 1"
      "qs' = map (\<lambda>r. if sequence_of b ty fy series r then r\<lparr>sq_LastNumber := sq_LastNumber r + 1\<rparr> else r) qs"
  using assms by (auto simp: next_number_def split: option.splits if_splits dest!: find_some)

lemma same_scope_number:
  assumes "FormatNumber ty series fy k = Inr x" and "FormatNumber ty' series fy' k' = Inr y" and "short_year fy = short_year fy'" and "k = k'"
  shows "x = y"
  using assms by (auto elim!: FormatNumber_SomeE)

lemma scope_owner: "sequences_ok rows qs \<Longrightarrow> q \<in> set qs \<Longrightarrow> r \<in> set qs \<Longrightarrow> sequence_scope q = sequence_scope r \<Longrightarrow> q = r"
  by (auto simp: sequences_ok_def distinct_map inj_on_def)

lemma next_number_ok:
  assumes inv: "sequences_ok rows qs" and nxt: "next_number b ty fy series qs = Some (n, qs')" and number: "FormatNumber ty series fy n = Inr x"
    and rows: "invoices_ok rows" "invoices_kept rows rows'" and i: "i \<in> set rows'" "in_BusinessID i = b" "in_InvoiceNo i = Some x"
    and fresh: "\<And>j. j \<in> set rows \<Longrightarrow> in_BusinessID j = b \<Longrightarrow> in_InvoiceNo j \<noteq> Some x"
  shows "sequences_ok rows' qs'"
proof -
  have kept: "sequences_ok rows' qs" by (rule sequences_kept [OF inv rows])
  from nxt show ?thesis
  proof (cases rule: next_number_cases)
    case first
    let ?q = "\<lparr>sq_BusinessID = b, sq_DocumentType = ty, sq_FinancialYear = fy, sq_Series = series, sq_LastNumber = 1\<rparr>"
    have "numbered rows' ?q 1" using number i first(2) by (auto simp: numbered_def)
    moreover have "sequence_scope ?q \<notin> sequence_scope ` set qs"
    proof
      assume "sequence_scope ?q \<in> sequence_scope ` set qs"
      then obtain r where r: "r \<in> set qs" "sq_BusinessID r = b" "short_year (sq_FinancialYear r) = short_year fy" "sq_Series r = series"
        by (auto simp: sequence_scope_def)
      then have "numbered rows r 1" using inv by (auto simp: sequences_ok_def)
      then obtain y j where y: "FormatNumber (sq_DocumentType r) series (sq_FinancialYear r) 1 = Inr y" "j \<in> set rows" "in_BusinessID j = b" "in_InvoiceNo j = Some y"
        using r by (auto simp: numbered_def)
      have "y = x" by (rule same_scope_number [OF y(1) number r(3)]) (simp add: first(2))
      then show False using fresh y by blast
    qed
    ultimately show ?thesis using kept unfolding first(3) by (auto simp: sequences_ok_def)
  next
    case (next_one q)
    let ?u = "\<lambda>r. if sequence_of b ty fy series r then r\<lparr>sq_LastNumber := sq_LastNumber r + 1\<rparr> else r"
    have scopes: "map sequence_scope qs' = map sequence_scope qs" by (simp add: next_one(5) sequence_scope_def)
    have "1 \<le> sq_LastNumber (?u r) \<and> sq_LastNumber (?u r) \<le> 999999 \<and> (\<forall>k \<in> {1..sq_LastNumber (?u r)}. numbered rows' (?u r) k)" if r: "r \<in> set qs" for r
    proof (cases "sequence_of b ty fy series r")
      case True
      then have "sequence_scope r = sequence_scope q" using next_one(2) by (auto simp: sequence_scope_def sequence_of_def)
      then have rq: "r = q" by (rule scope_owner [OF kept r next_one(1)])
      have "numbered rows' (?u q) k" if "k \<in> {1..sq_LastNumber q + 1}" for k
      proof (cases "k = sq_LastNumber q + 1")
        case True
        then show ?thesis using number i next_one(2,4) by (auto simp: numbered_def sequence_of_def)
      next
        case False
        then have "numbered rows' q k" using that kept next_one(1) by (auto simp: sequences_ok_def)
        then show ?thesis by (simp add: numbered_def)
      qed
      then show ?thesis using kept next_one(1-3) unfolding rq by (auto simp: sequences_ok_def)
    next
      case False
      then show ?thesis using kept r by (simp add: sequences_ok_def)
    qed
    then have "\<forall>q \<in> set qs'. 1 \<le> sq_LastNumber q \<and> sq_LastNumber q \<le> 999999 \<and> (\<forall>k \<in> {1..sq_LastNumber q}. numbered rows' q k)"
      unfolding next_one(5) set_map by blast
    moreover have "distinct (map sequence_scope qs')" unfolding scopes using kept by (simp add: sequences_ok_def)
    ultimately show ?thesis by (simp only: sequences_ok_def simp_thms)
  qed
qed

section \<open>An issue\<close>

definition done_issue :: "issue_command \<Rightarrow> idempotency_key" where
  "done_issue c = (new_claim (issue_ident c) (sc_RequestHash c))\<lparr>ik_Completed := True, ik_ResultType := Some ''invoice_issue'', ik_ResultID := Some (sc_InvoiceID c)\<rparr>"

text \<open>The facts of an issue over the tables before and after it.\<close>

definition issues :: "issue_env \<Rightarrow> issue_ids \<Rightarrow> instant \<Rightarrow> issue_command \<Rightarrow> issue_result \<Rightarrow> sales_db \<Rightarrow> sales_db \<Rightarrow> bool" where
  "issues env ids now c r s t \<longleftrightarrow>
     (\<exists>i fy n number.
        i \<in> set (sb_invoices s) \<and> in_ID i = sc_InvoiceID c \<and> in_BusinessID i = sc_BusinessID c \<and> in_Status i = ''draft'' \<and> in_InvoiceNo i = None \<and>
        in_Version i = sc_ExpectedVersion c \<and> in_Version i \<ge> 1 \<and> \<not> in_Deleted i \<and>
        issue_year env c i s = Inr fy \<and>
        next_number (sc_BusinessID c) (sc_DocumentType c) fy (sc_Series c) (sb_sequences s) = Some (n, sb_sequences t) \<and>
        FormatNumber (sc_DocumentType c) (sc_Series c) fy n = Inr number \<and>
        update_invoices (draft_row i) (issued_invoice number now) (sb_invoices s) = Some (1, sb_invoices t) \<and>
        sr_Invoice r = issued_invoice number now i \<and> \<not> sr_Replayed r \<and>
        (\<exists>d profileID. sr_FinalRender r = final_render (id_Render ids) (sr_Invoice r) d profileID now) \<and>
        insert_job (sr_FinalRender r) (sb_jobs s) = Some (sb_jobs t) \<and>
        sr_OutboxEvent r = Some (issued_event (id_Event ids) (sr_Invoice r) number (id_Render ids) now) \<and>
        sb_outbox t = sb_outbox s @ [issued_event (id_Event ids) (sr_Invoice r) number (id_Render ids) now] \<and>
        find (\<lambda>k. ident k = issue_ident c) (sb_keys s) = None \<and> sb_keys t = sb_keys s @ [done_issue c] \<and>
        sb_deliveries t = sb_deliveries s)"

lemma completed_claim:
  assumes "find (\<lambda>k. ident k = rid) keys = None" and "complete_command rid hash ty res (keys @ [new_claim rid hash]) = Inr keys'"
  shows "keys' = keys @ [(new_claim rid hash)\<lparr>ik_Completed := True, ik_ResultType := Some ty, ik_ResultID := Some res\<rparr>]"
proof -
  have "ident (new_claim rid hash) = rid" by (cases rid) (simp add: ident_def new_claim_def)
  moreover have "map (\<lambda>k. if ident k = rid \<and> g k then h k else k) keys = keys" for g h
    using assms(1) by (intro map_idI) (auto simp: find_None_iff)
  ultimately show ?thesis
    using assms(2) by (cases rid) (auto simp: complete_command_def Let_def new_claim_def split: if_splits)
qed

lemma check_invoiceE:
  assumes "check_invoice c s = Inr i"
  obtains "i \<in> set (sb_invoices s)" "in_ID i = sc_InvoiceID c" "in_BusinessID i = sc_BusinessID c" "in_Status i = ''draft''" "in_InvoiceNo i = None"
    "in_Version i = sc_ExpectedVersion c" "\<not> in_Deleted i" "in_Version i \<ge> 1"
    "\<not> snapshot_IsEmpty (in_SellerSnapshot i)" "\<not> snapshot_IsEmpty (in_BuyerSnapshot i)"
proof -
  have "in_Version i \<ge> 1" if "ValidateState i = None" using that by (auto simp: ValidateState_def Let_def split: if_splits)
  then show ?thesis using assms that by (auto simp: check_invoice_def split: option.splits if_splits dest!: find_some)
qed

lemma issue_tx_issues:
  assumes "issue_tx env ids now c s = (Inr (Inl r), t)"
  shows "issues env ids now c r s t"
  using assms
proof (rule issue_txE)
  fix keys i fy d number s1
  assume claim: "claimInvoiceIssueIdempotency c (sb_keys s) = Inr (Inl keys)" and i: "check_invoice c (s\<lparr>sb_keys := keys\<rparr>) = Inr i"
    and fy: "issue_year env c i (s\<lparr>sb_keys := keys\<rparr>) = Inr fy" and d: "check_document env c i (s\<lparr>sb_keys := keys\<rparr>) = Inr d"
    and s1: "allocate_number c fy (s\<lparr>sb_keys := keys\<rparr>) = Inr (number, s1)" and leaves: "issue_leaves ids now c i number r s1 t"
  have k: "find (\<lambda>k. ident k = issue_ident c) (sb_keys s) = None" "keys = sb_keys s @ [new_claim (issue_ident c) (sc_RequestHash c)]"
    using claim by (auto simp: claimInvoiceIssueIdempotency_def claim_command_def split: option.splits if_splits)
  obtain n qs where n: "next_number (sc_BusinessID c) (sc_DocumentType c) fy (sc_Series c) (sb_sequences s) = Some (n, qs)"
    "FormatNumber (sc_DocumentType c) (sc_Series c) fy n = Inr number" "s1 = s\<lparr>sb_keys := keys, sb_sequences := qs\<rparr>"
    using s1 by (auto simp: allocate_number_def split: option.splits prod.splits if_splits sum.splits)
  have "issue_year env c i s = Inr fy" using fy by (simp add: issue_year_def)
  moreover have "sb_keys t = sb_keys s @ [done_issue c]"
    using completed_claim [OF k(1)] leaves i
    by (auto simp: issue_leaves_def n(3) k(2) completeInvoiceIssueIdempotency_def done_issue_def elim: check_invoiceE)
  moreover have "sb_sequences t = qs" using leaves by (simp add: issue_leaves_def n(3))
  ultimately show ?thesis
    using i n leaves k(1) unfolding issues_def issue_leaves_def
    by (intro exI [of _ i] exI [of _ fy] exI [of _ n] exI [of _ number]) (auto elim!: check_invoiceE; blast)
qed

lemma issued_in_table:
  assumes "update_invoices (draft_row i) (issued_invoice number now) rows = Some (m, rows')" and "i \<in> set rows" and "in_Status i = ''draft''" and "\<not> in_Deleted i"
  shows "issued_invoice number now i \<in> set rows'" and "invoices_ok rows'"
proof -
  have "rows' = map (\<lambda>r. if draft_row i r then issued_invoice number now r else r) rows" using assms(1) by (auto elim: update_invoicesE)
  moreover have "draft_row i i" using assms(3,4) by (simp add: draft_row_def)
  ultimately show "issued_invoice number now i \<in> set rows'" using assms(2) by force
  show "invoices_ok rows'" using assms(1) by (auto elim: update_invoicesE)
qed

lemma issued_kept:
  assumes "update_invoices (draft_row i) (issued_invoice number now) rows = Some (m, rows')" and "invoices_ok rows"
  shows "invoices_kept rows rows'"
  using assms by (rule kept_by_update) (simp add: draft_row_def issued_invoice_def)

text \<open>No row had the number before.\<close>

lemma issued_number_fresh:
  assumes "update_invoices (draft_row i) (issued_invoice number now) rows = Some (m, rows')" and "invoices_ok rows"
    and "i \<in> set rows" "in_Status i = ''draft''" "\<not> in_Deleted i" "in_InvoiceNo i = None" and "j \<in> set rows" "in_BusinessID j = in_BusinessID i"
  shows "in_InvoiceNo j \<noteq> Some number"
proof
  assume n: "in_InvoiceNo j = Some number"
  note t = issued_in_table [OF assms(1,3,4,5)]
  obtain j' where j': "j' \<in> set rows'" "same_issued j j'" using issued_kept [OF assms(1,2)] assms(7) by (auto simp: invoices_kept_def)
  have "in_Status j \<noteq> ''draft''" using checks_number [OF invoices_okD [OF assms(2,7)]] n by simp
  then have "in_InvoiceNo j' = Some number" "in_BusinessID j' = in_BusinessID i" "in_ID j' = in_ID j" using j'(2) n assms(8) by (auto simp: same_issued_def)
  then have "j' = issued_invoice number now i" using number_owner [OF t(2) j'(1) t(1)] by (simp add: issued_invoice_def)
  then have "in_ID j = in_ID i" using \<open>in_ID j' = in_ID j\<close> by simp
  then have "j = i" by (rule id_owner [OF assms(2,7,3)])
  then show False using n assms(6) by simp
qed

lemma final_jobs_insert:
  assumes "insert_job j jobs = Some jobs'" and "rj_Kind j = RenderKindFinal" "rj_InvoiceID j = Some i" "rj_SourceInvoiceVersion j = Some v"
  shows "final_jobs jobs' = final_jobs jobs @ [(rj_ID j, rj_BusinessID j, Some i, Some v)]"
    and "(Some i, Some v) \<notin> (\<lambda>(_, _, i, v). (i, v)) ` set (final_jobs jobs)"
proof -
  show "final_jobs jobs' = final_jobs jobs @ [(rj_ID j, rj_BusinessID j, Some i, Some v)]"
    using assms by (auto simp: insert_job_def final_jobs_def split: if_splits)
  have "Some (i, v) \<notin> final_source ` set jobs" using assms by (auto simp: insert_job_def final_source_def split: if_splits)
  moreover have "final_source k = Some (i, v)" if "rj_Kind k = RenderKindFinal" "rj_InvoiceID k = Some i" "rj_SourceInvoiceVersion k = Some v" for k
    using that by (simp add: final_source_def)
  ultimately show "(Some i, Some v) \<notin> (\<lambda>(_, _, i, v). (i, v)) ` set (final_jobs jobs)"
    by (force simp: final_jobs_def)
qed

lemma issue_keys_append:
  "sc_Command c = ''invoice.issue'' \<Longrightarrow> issue_keys (keys @ [done_issue c]) = issue_keys keys @ [done_issue c]"
  by (simp add: issue_keys_def done_issue_def new_claim_def issue_ident_def)

lemma ident_done [simp]: "ident (done_issue c) = issue_ident c"
  by (simp add: ident_def done_issue_def new_claim_def issue_ident_def)

lemma issues_step:
  assumes "issues env ids now c r s t" and "sales_inv s" and "sc_Command c = ''invoice.issue''"
  shows "sales_inv t \<and> sales_le s t"
proof -
  note inv = assms(2) [unfolded sales_inv_def]
  obtain i fy n number where i: "i \<in> set (sb_invoices s)" "in_ID i = sc_InvoiceID c" "in_BusinessID i = sc_BusinessID c" "in_Status i = ''draft''"
      "in_InvoiceNo i = None" "\<not> in_Deleted i"
    and n: "next_number (sc_BusinessID c) (sc_DocumentType c) fy (sc_Series c) (sb_sequences s) = Some (n, sb_sequences t)"
      "FormatNumber (sc_DocumentType c) (sc_Series c) fy n = Inr number"
    and u: "update_invoices (draft_row i) (issued_invoice number now) (sb_invoices s) = Some (1, sb_invoices t)"
    and r: "sr_Invoice r = issued_invoice number now i" "\<exists>d profileID. sr_FinalRender r = final_render (id_Render ids) (sr_Invoice r) d profileID now"
      "insert_job (sr_FinalRender r) (sb_jobs s) = Some (sb_jobs t)"
    and k: "find (\<lambda>k. ident k = issue_ident c) (sb_keys s) = None" "sb_keys t = sb_keys s @ [done_issue c]"
    using assms(1) unfolding issues_def by blast
  let ?i = "issued_invoice number now i"
  have ok: "invoices_ok (sb_invoices s)" using inv by simp
  note table = issued_in_table [OF u i(1,4,6)] and kept = issued_kept [OF u ok]
  have sequences: "sequences_ok (sb_invoices t) (sb_sequences t)"
  proof (rule next_number_ok [OF _ n ok kept table(1)])
    show "sequences_ok (sb_invoices s) (sb_sequences s)" using inv by simp
    show "in_InvoiceNo j \<noteq> Some number" if "j \<in> set (sb_invoices s)" "in_BusinessID j = sc_BusinessID c" for j
      using that issued_number_fresh [OF u ok i(1,4,6,5)] i(3) by simp
  qed (simp_all add: issued_invoice_def i)
  let ?f = "(rj_ID (sr_FinalRender r), in_BusinessID ?i, Some (in_ID ?i), Some (in_Version ?i))"
  have job: "rj_Kind (sr_FinalRender r) = RenderKindFinal" "rj_InvoiceID (sr_FinalRender r) = Some (in_ID ?i)"
    "rj_SourceInvoiceVersion (sr_FinalRender r) = Some (in_Version ?i)" "rj_BusinessID (sr_FinalRender r) = in_BusinessID ?i"
    using r(1,2) by (auto simp: final_render_def)
  note finals = final_jobs_insert [OF r(3) job(1-3), unfolded job(4)]
  have st: "in_Status ?i \<noteq> ''draft''" by (simp add: issued_invoice_def)
  have "finals_ok (sb_invoices t) (final_jobs (sb_jobs s))" using inv finals_kept [OF _ kept] by blast
  then have finals_t: "finals_ok (sb_invoices t) (final_jobs (sb_jobs t))"
    using finals(2) table(1) st unfolding finals(1) finals_ok_def by auto
  have sub: "set (final_jobs (sb_jobs s)) \<subseteq> set (final_jobs (sb_jobs t))" unfolding finals(1) by auto
  have keys: "issue_keys (sb_keys t) = issue_keys (sb_keys s) @ [done_issue c]" unfolding k(2) by (rule issue_keys_append [OF assms(3)])
  have "ident k \<noteq> issue_ident c" if "k \<in> set (issue_keys (sb_keys s))" for k
    using that k(1) by (auto simp: issue_keys_def find_None_iff)
  then have "issue_ident c \<notin> ident ` set (issue_keys (sb_keys s))" by force
  then have distinct: "distinct (map ident (issue_keys (sb_keys t)))" using inv unfolding keys by simp
  have "issue_key_ok (sb_invoices t) (final_jobs (sb_jobs t)) (done_issue c)"
    using table(1) st i(2,3) finals(1)
    by (auto simp: issue_key_ok_def done_issue_def new_claim_def issue_ident_def issued_invoice_def intro!: bexI [of _ ?i])
  moreover have "issue_key_ok (sb_invoices t) (final_jobs (sb_jobs t)) k" if "k \<in> set (issue_keys (sb_keys s))" for k
    using that inv issue_key_kept [OF _ kept sub] by blast
  ultimately have "\<forall>k \<in> set (issue_keys (sb_keys t)). issue_key_ok (sb_invoices t) (final_jobs (sb_jobs t)) k" unfolding keys by auto
  then show ?thesis using table(2) sequences finals_t distinct kept sub keys by (auto simp: sales_inv_def sales_le_def)
qed

section \<open>Runs\<close>

lemma sales_step_inv:
  assumes "sales_step env s t" and "sales_inv s"
  shows "sales_inv t \<and> sales_le s t"
  using assms
proof (induction rule: sales_step.induct)
  case (surroundings s t)
  then show ?case by (intro sales_inv_kept) (simp_all add: elsewhere_def sales_inv_def)
next
  case (draft c s r t)
  then show ?case using draft_step by blast
next
  case (insert i s r t)
  then show ?case using create_step by blast
next
  case (save s i r t)
  from save.hyps(2) save.prems save.hyps(1) show ?case by (rule save_step)
next
  case (status invoiceID st now s r t)
  then show ?case unfolding UpdateStatus_def by (rule run_update_step) auto
next
  case (delete invoiceID s r t)
  then show ?case unfolding invoice_Delete_def by (rule run_update_step) auto
next
  case (edit i v now s r t)
  then show ?case by (rule edit_step)
next
  case (issue ids now c s r t)
  from issue.hyps show ?case
  proof (cases rule: IssueDraftAtomic_cases)
    case (unchanged fs)
    then show ?thesis using issue.prems by (intro sales_inv_kept) (simp_all add: sales_inv_def)
  next
    case (issued fs x)
    have "sc_Command c = ''invoice.issue''" using issued(3) by (simp add: validateAtomicInvoiceIssue_def)
    moreover have "sales_inv (s\<lparr>fa_faults := fs\<rparr>)" using issue.prems by (simp add: sales_inv_def)
    ultimately have "sales_inv t \<and> sales_le (s\<lparr>fa_faults := fs\<rparr>) t" using issues_step [OF issue_tx_issues [OF issued(1)]] by blast
    then show ?thesis by (simp add: sales_le_def)
  qed
qed

lemma sales_le_refl: "sales_le s s"
  by (simp add: sales_le_def)

lemma sales_le_trans: "sales_le s t \<Longrightarrow> sales_le t u \<Longrightarrow> sales_le s u"
  unfolding sales_le_def using invoices_kept_trans by blast

interpretation sales: step_system "sales_step env" sales_inv sales_le for env
  by unfold_locales (use sales_step_inv sales_le_refl sales_le_trans in blast)+

lemma sales_inv_init: "sales_init s \<Longrightarrow> sales_inv s"
  by (simp add: sales_init_def sales_inv_def sequences_ok_def finals_ok_def)

lemma sales_inv_reachable: "sales_reachable env s \<Longrightarrow> sales_inv s"
  by (induction rule: sales_reachable.induct) (use sales_inv_init sales_step_inv in blast)+

section \<open>Another type in the same series\<close>

text \<open>
  A sequence for one type of document blocks the others of its business, series and year: their
  first number is taken, the update of the invoice violates the uniqueness of numbers, and the
  transaction is rolled back.
\<close>

lemma taken_number_refused:
  assumes "invoices_ok rows" and "i \<in> set rows" "in_Status i = ''draft''" "\<not> in_Deleted i" "in_InvoiceNo i = None"
    and "j \<in> set rows" "in_BusinessID j = in_BusinessID i" "in_InvoiceNo j = Some number"
  shows "update_invoices (draft_row i) (issued_invoice number now) rows = None"
proof (rule ccontr)
  assume "update_invoices (draft_row i) (issued_invoice number now) rows \<noteq> None"
  then obtain m rows' where "update_invoices (draft_row i) (issued_invoice number now) rows = Some (m, rows')" by auto
  from issued_number_fresh [OF this assms(1-7)] show False using assms(8) by simp
qed

lemma other_type_allocates_first:
  assumes "sequences_ok rows qs" and "q \<in> set qs" and "sq_BusinessID q = sc_BusinessID c" "sq_Series q = sc_Series c"
    and "sq_DocumentType q \<noteq> sc_DocumentType c"
    and "sc_DocumentType c = DocumentTypeTaxInvoice \<or> sc_DocumentType c = DocumentTypeBillOfSupply" and "sb_sequences s = qs"
  obtains number s1 where "allocate_number c (sq_FinancialYear q) s = Inr (number, s1)" "sb_invoices s1 = sb_invoices s"
    "\<exists>j \<in> set rows. in_BusinessID j = sc_BusinessID c \<and> in_InvoiceNo j = Some number"
proof -
  have "numbered rows q 1" using assms(1,2) by (auto simp: sequences_ok_def)
  then obtain number j where y: "FormatNumber (sq_DocumentType q) (sc_Series c) (sq_FinancialYear q) 1 = Inr number" "j \<in> set rows"
      "in_BusinessID j = sc_BusinessID c" "in_InvoiceNo j = Some number" using assms(3,4) by (auto simp: numbered_def)
  have "find (sequence_of (sc_BusinessID c) (sc_DocumentType c) (sq_FinancialYear q) (sc_Series c)) qs = None"
    unfolding find_None_iff
  proof
    assume "\<exists>x. x \<in> set qs \<and> sequence_of (sc_BusinessID c) (sc_DocumentType c) (sq_FinancialYear q) (sc_Series c) x"
    then obtain x where x: "x \<in> set qs" "sequence_of (sc_BusinessID c) (sc_DocumentType c) (sq_FinancialYear q) (sc_Series c) x" by blast
    then have "sequence_scope x = sequence_scope q" using assms(3,4) by (simp add: sequence_scope_def sequence_of_def)
    then have "x = q" by (rule scope_owner [OF assms(1) x(1) assms(2)])
    then show False using x(2) assms(5) by (simp add: sequence_of_def)
  qed
  then obtain s1 where "allocate_number c (sq_FinancialYear q) s = Inr (number, s1)" "sb_invoices s1 = sb_invoices s"
    using FormatNumber_ignores_type [OF y(1) assms(6)] assms(7) by (simp add: allocate_number_def next_number_def)
  then show ?thesis using that y by blast
qed

end
