(* ===== verification/Invoice_Delivery.thy ===== *)
theory Invoice_Delivery
  imports Invoice_Sequences Delivery_Requests
begin

text \<open>
  From an issued invoice to its delivery: the event of an issue is routed to the render queue with
  the final job it names, and a delivery of the invoice can be requested at once. Repeating an
  issue returns what the first one wrote.
\<close>

section \<open>The event of an issue\<close>

lemma positive_literal:
  assumes "0 < n"
  shows "number_literal (decimal_digits n)"
proof -
  let ?s = "decimal_digits n"
  have digits: "list_all is_digit ?s" "?s \<noteq> []" "hd ?s \<noteq> CHR ''0''" by (simp_all add: decimal_digits_digits decimal_digits_hd assms)
  then have d: "is_digit (hd ?s)" by (simp add: list_all_iff)
  have "takeWhile is_digit ?s = ?s" "dropWhile is_digit ?s = []" using digits(1) by (simp_all add: list_all_iff takeWhile_eq_all_conv)
  then have "read_integer ?s = Some (?s, [])" using digits d by (cases ?s) (simp_all add: read_integer_def)
  moreover have "read_sign ?s = ([], ?s)" using digits(2) digit_not_sign [OF d] by (cases ?s) (simp_all add: read_sign_def)
  ultimately show ?thesis by (simp add: number_literal_def read_number_def read_fraction_def read_exponent_def)
qed

lemma positive_int_text:
  assumes "1 \<le> v" and "v < 2 ^ 63"
  shows "reads d (json_int v) (JNum (Itoa v))" and "parse_int64 (Itoa v) = Some v"
proof -
  have v: "Itoa v = decimal_digits (nat v)" using assms(1) by (simp add: Itoa_def)
  have "number_literal (Itoa v)" unfolding v by (rule positive_literal) (use assms(1) in simp)
  then show "reads d (json_int v) (JNum (Itoa v))" by (simp add: json_int_def reads_number)
  have "snd (read_sign (Itoa v)) = Itoa v"
    unfolding v using decimal_digits_digits [of "nat v"] decimal_digits_ne [of "nat v"]
    by (cases "decimal_digits (nat v)") (auto simp: read_sign_def dest: digit_not_sign)
  moreover have "list_all is_digit (Itoa v)" unfolding v by (rule decimal_digits_digits)
  ultimately show "parse_int64 (Itoa v) = Some v" using assms by (simp add: parse_int64_def)
qed

lemma issued_texts: "ValidString ''aggregate_id''" "ValidString ''aggregate_type''" "ValidString ''invoice''" "ValidString ''invoice_no''"
  "ValidString ''invoice_version''" "ValidString ''render_job_id''" "ValidString ''schema_version''"
  by simp_all

lemma issued_payload_decodes:
  assumes "ValidString a" and "ValidString b" and "ValidString c" and "1 \<le> v" and "v < 2 ^ 63"
  shows "decode_struct invoiceIssuedEnvelope (issued_payload a b v c) =
    Some [(''aggregate_id'', SVal a), (''aggregate_type'', SVal ''invoice''), (''invoice_no'', SVal b), (''invoice_version'', IVal v),
          (''render_job_id'', SVal c), (''schema_version'', IVal 1)]"
proof -
  obtain n where n: "maxNestingDepth = Suc n" by (simp add: maxNestingDepth_def)
  let ?v = "JObj [(''aggregate_id'', JStr a), (''aggregate_type'', JStr ''invoice''), (''invoice_no'', JStr b), (''invoice_version'', JNum (Itoa v)),
     (''render_job_id'', JStr c), (''schema_version'', JNum ''1'')]"
  have "reads (Suc n) (issued_payload a b v c) ?v"
    unfolding issued_payload_def
    by (rule reads_object) (simp add: assms issued_texts reads_string reads_one positive_int_text(1) [OF assms(4,5)])
  then have "decode_json (issued_payload a b v c) = Some ?v" by (intro reads_decode) (simp add: n)
  then show ?thesis
    by (simp add: decode_struct_def invoiceIssuedEnvelope_def struct_field_def field_of_def one_parses positive_int_text(2) [OF assms(4,5)])
qed

lemma issued_event_routed:
  assumes "canonical_uuid (in_ID i)" "canonical_uuid (in_BusinessID i)" "canonical_uuid eventID" "canonical_uuid jobID"
    and "FormatNumber ty series fy n = Inr number" and "1 \<le> in_Version i" "in_Version i < 2 ^ 63"
    and "\<And>u. canonical_uuid u \<Longrightarrow> op_uuid_ok p u" and "op_invoiceQueueURL p \<noteq> []"
  shows "route p (issued_event eventID i number jobID now) =
    Inr (op_invoiceQueueURL p, invoiceWorkerMessage (in_ID i) (in_ID i) (in_Version i) jobID)"
proof -
  have ok: "validUUID (op_uuid_ok p) u" if "canonical_uuid u" for u
    using that assms(8) canonical_uuid_text(2) by (simp add: validUUID_def)
  have "TrimSpace (issued_payload x y v z) \<noteq> []" for x y v z
    by (simp add: issued_payload_def json_object_def TrimSpace_def is_space_def)
  moreover have "ValidString number" using FormatNumber_text(1) [OF assms(5)] by (rule ValidString_of_ascii)
  ultimately have "MapInvoiceEventToSQSMessage (op_uuid_ok p) (issued_event eventID i number jobID now) =
      Inr (invoiceWorkerMessage (in_ID i) (in_ID i) (in_Version i) jobID)"
    using assms(1-4,6,7) ok canonical_uuid_text(1) issued_payload_decodes [of "in_ID i" number jobID "in_Version i"]
    by (simp add: MapInvoiceEventToSQSMessage_def validInvoiceOutboxIdentity_def issued_event_def string_field_def int_field_def
        invoiceIssuedEvent_def invoicePreviewRequestedEvent_def)
  then show ?thesis using assms(9) by (simp add: route_def issued_event_def invoiceIssuedEvent_def)
qed

section \<open>The tables of deliveries\<close>

text \<open>The tables that requests for deliveries read and write, as \<open>Delivery_Store\<close> has them.\<close>

definition invoice_view :: "invoice \<Rightarrow> invoice_row" where
  "invoice_view i = \<lparr>iv_ID = in_ID i, iv_BusinessID = in_BusinessID i, iv_InvoiceNo = in_InvoiceNo i, iv_IssuedAt = in_IssuedAt i,
     iv_Status = in_Status i, iv_Version = in_Version i, iv_Deleted = in_Deleted i\<rparr>"

definition delivery_view :: "sales_db \<Rightarrow> delivery_db" where
  "delivery_view s = \<lparr>fa_faults = fa_faults s, dd_keys = sb_keys s, dd_invoices = map invoice_view (sb_invoices s),
     dd_jobs = map render_job.truncate (sb_jobs s), dd_deliveries = sb_deliveries s, dd_outbox = sb_outbox s, dd_activity = [], dd_mail = []\<rparr>"

lemma delivery_view_simps [simp]:
  "fa_faults (delivery_view s) = fa_faults s" "dd_keys (delivery_view s) = sb_keys s" "dd_deliveries (delivery_view s) = sb_deliveries s"
  by (simp_all add: delivery_view_def)

lemma truncate_job [simp]:
  "rj_ID (render_job.truncate j) = rj_ID j" "rj_BusinessID (render_job.truncate j) = rj_BusinessID j"
  "rj_InvoiceID (render_job.truncate j) = rj_InvoiceID j" "rj_Kind (render_job.truncate j) = rj_Kind j"
  "rj_SourceInvoiceVersion (render_job.truncate j) = rj_SourceInvoiceVersion j" "rj_Status (render_job.truncate j) = rj_Status j"
  "rj_Deleted (render_job.truncate j) = rj_Deleted j"
  by (simp_all add: render_job.truncate_def)

lemma draft_has_no_final:
  assumes "sales_inv s" and "i \<in> set (sb_invoices s)" and "in_Status i = ''draft''" and "j \<in> set (sb_jobs s)" and "rj_Kind j = RenderKindFinal"
  shows "rj_InvoiceID j \<noteq> Some (in_ID i)"
proof
  assume r: "rj_InvoiceID j = Some (in_ID i)"
  have "(rj_ID j, rj_BusinessID j, rj_InvoiceID j, rj_SourceInvoiceVersion j) \<in> set (final_jobs (sb_jobs s))"
    using assms(4,5) by (auto simp: final_jobs_def)
  then obtain k where k: "k \<in> set (sb_invoices s)" "rj_InvoiceID j = Some (in_ID k)" "in_Status k \<noteq> ''draft''"
    using assms(1) unfolding sales_inv_def finals_ok_def by blast
  have "k = i" by (rule id_owner [OF _ k(1) assms(2)]) (use assms(1) k(2) r in \<open>simp_all add: sales_inv_def\<close>)
  then show False using k(3) assms(3) by simp
qed

lemma issued_job_is_latest:
  assumes "sales_inv s" and "issues env ids now c r s t"
  shows "latest_final_job (sc_BusinessID c) (sc_InvoiceID c) (dd_jobs (delivery_view t)) = Some (render_job.truncate (sr_FinalRender r))"
proof -
  obtain i number d profileID where i: "i \<in> set (sb_invoices s)" "in_ID i = sc_InvoiceID c" "in_BusinessID i = sc_BusinessID c" "in_Status i = ''draft''"
    and r: "sr_Invoice r = issued_invoice number now i" "sr_FinalRender r = final_render (id_Render ids) (sr_Invoice r) d profileID now"
      "insert_job (sr_FinalRender r) (sb_jobs s) = Some (sb_jobs t)"
    using assms(2) unfolding issues_def by blast
  have jobs: "sb_jobs t = sb_jobs s @ [sr_FinalRender r]" using r(3) by (auto simp: insert_job_def split: if_splits)
  let ?p = "\<lambda>j. rj_BusinessID j = sc_BusinessID c \<and> rj_InvoiceID j = Some (sc_InvoiceID c) \<and> rj_Kind j = RenderKindFinal \<and> \<not> rj_Deleted j"
  have "filter ?p (map render_job.truncate (sb_jobs s)) = []"
    using draft_has_no_final [OF assms(1) i(1,4)] i(2) by (auto simp: filter_empty_conv)
  moreover have "?p (render_job.truncate (sr_FinalRender r))" using r(1,2) i by (simp add: final_render_def issued_invoice_def)
  ultimately show ?thesis by (simp add: latest_final_job_def delivery_view_def jobs)
qed

lemma issued_row_found:
  assumes "invoices_ok (sb_invoices t)" and "i \<in> set (sb_invoices t)" and "\<not> in_Deleted i"
  shows "find_invoice (in_ID i) (in_BusinessID i) (delivery_view t) = Some (invoice_view i)"
proof -
  let ?p = "\<lambda>x. iv_ID x = in_ID i \<and> iv_BusinessID x = in_BusinessID i \<and> \<not> iv_Deleted x"
  have "?p (invoice_view i)" "invoice_view i \<in> set (map invoice_view (sb_invoices t))" using assms(2,3) by (simp_all add: invoice_view_def)
  then obtain x where x: "find ?p (map invoice_view (sb_invoices t)) = Some x" 
    by (cases "find ?p (map invoice_view (sb_invoices t))") (auto simp: find_None_iff)
  then obtain j where "j \<in> set (sb_invoices t)" "x = invoice_view j" "in_ID j = in_ID i" using find_some [OF x] by (auto simp: invoice_view_def)
  then have "x = invoice_view i" using id_owner [OF assms(1)] assms(2) by blast
  then show ?thesis using x by (simp add: find_invoice_def delivery_view_def)
qed

text \<open>A delivery of the invoice, requested with a key of its own.\<close>

lemma issued_invoice_requested:
  assumes "sales_inv s" and "issues env ids now c r s t" and "sales_inv t" and "fa_faults t = []"
    and "validateAtomicInvoiceDelivery uuid_ok e" and "dc_BusinessID e = sc_BusinessID c" "dc_InvoiceID e = sc_InvoiceID c"
    and "\<And>k. k \<in> set (sb_keys t) \<Longrightarrow> \<not> key_matches e k"
  shows "\<exists>d u. CreateDeliveryAtomic uuid_ok e deliveryID eventID now' (delivery_view t) =
      (Inr \<lparr>dr_Delivery = d, dr_OutboxEvent = None, dr_Replayed = False\<rparr>, u) \<and>
    ed_ID d = deliveryID \<and> ed_Status d = WaitingForRender \<and> ed_RenderJobID d = Some (rj_ID (sr_FinalRender r)) \<and> d \<in> set (dd_deliveries u)"
proof -
  obtain i number d profileID where i: "i \<in> set (sb_invoices s)" "in_ID i = sc_InvoiceID c" "in_BusinessID i = sc_BusinessID c" "in_Status i = ''draft''" "\<not> in_Deleted i"
    and u: "update_invoices (draft_row i) (issued_invoice number now) (sb_invoices s) = Some (1, sb_invoices t)"
    and r: "sr_Invoice r = issued_invoice number now i" "sr_FinalRender r = final_render (id_Render ids) (sr_Invoice r) d profileID now"
    using assms(2) unfolding issues_def by blast
  note job = issued_job_is_latest [OF assms(1,2)]
  have "find_invoice (sc_InvoiceID c) (sc_BusinessID c) (delivery_view t) = Some (invoice_view (issued_invoice number now i))"
    using issued_row_found [OF issued_in_table(2) issued_in_table(1), OF u i(1,4,5) u i(1,4,5)] i by (simp add: issued_invoice_def)
  moreover have "invoiceHasDeliverableIssuanceFacts (invoice_view (issued_invoice number now i))"
    by (simp add: invoiceHasDeliverableIssuanceFacts_def invoice_view_def issued_invoice_def)
  moreover have "start_status (render_job.truncate (sr_FinalRender r)) = Inr WaitingForRender" using r(2) by (simp add: start_status_def final_render_def)
  moreover have "\<not> (\<exists>k \<in> set (sb_keys t). key_matches e k)" using assms(8) by blast
  moreover have "rj_InvoiceID (sr_FinalRender r) = Some (in_ID i)" "rj_SourceInvoiceVersion (sr_FinalRender r) = Some (in_Version i + 1)"
    using r by (simp_all add: final_render_def issued_invoice_def)
  moreover have "filter (\<lambda>k. key_matches e k \<and> ik_RequestHash k = dc_RequestHash e \<and> \<not> ik_Completed k) (sb_keys t) = []"
    using assms(8) by (auto simp: filter_empty_conv)
  moreover have "key_matches e (claim_key e)" "ik_RequestHash (claim_key e) = dc_RequestHash e" "\<not> ik_Completed (claim_key e)"
    by (simp_all add: key_matches_def claim_key_def)
  moreover have "iv_ID (invoice_view (issued_invoice number now i)) = in_ID i" "iv_Version (invoice_view (issued_invoice number now i)) = in_Version i + 1"
    by (simp_all add: invoice_view_def issued_invoice_def)
  ultimately show ?thesis
    using assms(4-7) job
    by (simp add: CreateDeliveryAtomic_def transaction_def call_without_faults create_delivery_tx_def insert_delivery_def new_delivery_def Let_def)
qed

section \<open>Repeated issues\<close>

text \<open>What the result of an issue, first or replayed, has in the tables.\<close>

definition result_stands :: "issue_command \<Rightarrow> issue_result \<Rightarrow> sales_db \<Rightarrow> bool" where
  "result_stands c r s \<longleftrightarrow>
     (\<exists>k \<in> set (issue_keys (sb_keys s)). ident k = issue_ident c \<and> ik_RequestHash k = sc_RequestHash c \<and> ik_ResultID k = Some (in_ID (sr_Invoice r))) \<and>
     sr_Invoice r \<in> set (sb_invoices s) \<and> in_Status (sr_Invoice r) \<noteq> ''draft'' \<and>
     (\<exists>b. (rj_ID (sr_FinalRender r), b, Some (in_ID (sr_Invoice r)), Some (in_Version (sr_Invoice r))) \<in> set (final_jobs (sb_jobs s)))"

lemma find_issue_key:
  assumes "sales_inv s" and "k \<in> set (issue_keys (sb_keys s))" and "ident k = rid"
  shows "find (\<lambda>x. ident x = rid) (sb_keys s) = Some k"
proof -
  have k: "k \<in> set (sb_keys s)" "ik_Command k = ''invoice.issue''" using assms(2) by (auto simp: issue_keys_def)
  then obtain x where x: "find (\<lambda>x. ident x = rid) (sb_keys s) = Some x"
    using assms(3) by (cases "find (\<lambda>x. ident x = rid) (sb_keys s)") (auto simp: find_None_iff)
  then have "x \<in> set (issue_keys (sb_keys s))" "ident x = ident k"
    using find_some [OF x] k(2) assms(3) by (auto simp: issue_keys_def ident_def)
  moreover have "inj_on ident (set (issue_keys (sb_keys s)))" using assms(1) by (simp add: sales_inv_def distinct_map)
  ultimately have "x = k" using assms(2) by (blast dest: inj_onD)
  then show ?thesis using x by simp
qed

lemma replayed_row:
  assumes "sales_inv s" and "k \<in> set (issue_keys (sb_keys s))" and "ik_ResultID k = Some rid" and "ik_BusinessID k = b"
  obtains i where "getReplayInvoice rid b s = i" "i \<in> set (sb_invoices s)" "in_ID i = rid" "in_Status i \<noteq> ''draft''"
    "\<exists>j. (j, b, Some rid, Some (in_Version i)) \<in> set (final_jobs (sb_jobs s))"
proof -
  have ok: "invoices_ok (sb_invoices s)" using assms(1) by (simp add: sales_inv_def)
  have "issue_key_ok (sb_invoices s) (final_jobs (sb_jobs s)) k" using assms(1,2) by (simp add: sales_inv_def)
  then obtain i where i: "i \<in> set (sb_invoices s)" "in_ID i = rid" "in_BusinessID i = b" "in_Status i \<noteq> ''draft''"
      "\<exists>j. (j, b, Some rid, Some (in_Version i)) \<in> set (final_jobs (sb_jobs s))"
    using assms(3,4) unfolding issue_key_ok_def by (metis option.inject)
  let ?p = "\<lambda>x. in_ID x = rid \<and> in_BusinessID x = b"
  obtain x where x: "find ?p (sb_invoices s) = Some x" using i(1-3) by (cases "find ?p (sb_invoices s)") (auto simp: find_None_iff)
  then have "x = i" using id_owner [OF ok, of x i] find_some [OF x] i(1,2) by simp
  then show ?thesis using that [of i] x i by (simp add: getReplayInvoice_def)
qed

lemma replay_found:
  assumes "sales_inv s" and "k \<in> set (issue_keys (sb_keys s))" and "ident k = issue_ident c" and "ik_ResultID k = Some rid"
    and "ik_RequestHash k = sc_RequestHash c"
  shows "\<exists>i j. getIssueReplay rid (sc_BusinessID c) s = Some (i, j) \<and>
    (\<forall>r. sr_Invoice r = i \<longrightarrow> sr_FinalRender r = j \<longrightarrow> result_stands c r s \<and> in_ID (sr_Invoice r) = rid)"
proof -
  have b: "ik_BusinessID k = sc_BusinessID c" using assms(3) by (simp add: ident_def issue_ident_def)
  obtain i jid where i: "getReplayInvoice rid (sc_BusinessID c) s = i" "i \<in> set (sb_invoices s)" "in_ID i = rid" "in_Status i \<noteq> ''draft''"
      "(jid, sc_BusinessID c, Some rid, Some (in_Version i)) \<in> set (final_jobs (sb_jobs s))"
    using replayed_row [OF assms(1,2,4) b] by metis
  let ?p = "\<lambda>j. rj_InvoiceID j = Some rid \<and> rj_BusinessID j = sc_BusinessID c \<and> rj_Kind j = RenderKindFinal \<and> rj_SourceInvoiceVersion j = Some (in_Version i)"
  have "set (filter ?p (sb_jobs s)) \<noteq> {}" using i(5) by (auto simp: final_jobs_def filter_empty_conv)
  then have sorted: "set (sort_key rj_ID (filter ?p (sb_jobs s))) \<noteq> {}" unfolding set_sort .
  then obtain j js where j: "sort_key rj_ID (filter ?p (sb_jobs s)) = j # js" by (cases "sort_key rj_ID (filter ?p (sb_jobs s))") simp_all
  have "j \<in> set (sort_key rj_ID (filter ?p (sb_jobs s)))" unfolding j by simp
  then have "j \<in> set (filter ?p (sb_jobs s))" unfolding set_sort .
  then have "(rj_ID j, sc_BusinessID c, Some rid, Some (in_Version i)) \<in> set (final_jobs (sb_jobs s))" by (force simp: final_jobs_def)
  then have "result_stands c r s \<and> in_ID (sr_Invoice r) = rid" if "sr_Invoice r = i" "sr_FinalRender r = j" for r
    using i(2-4) assms(2-5) that unfolding result_stands_def by blast
  moreover have "getIssueReplay rid (sc_BusinessID c) s = Some (i, j)" using i(1) j by (simp add: getIssueReplay_def)
  ultimately show ?thesis by blast
qed

lemma issue_again:
  assumes "sales_inv s" and "k \<in> set (issue_keys (sb_keys s))" and "ident k = issue_ident c"
    and "validateAtomicInvoiceIssue env c" and "fa_faults s = []"
  shows "ik_RequestHash k \<noteq> sc_RequestHash c \<Longrightarrow> IssueDraftAtomic env ids now c s = (Inl IssueConflict, s)"
    and "ik_RequestHash k = sc_RequestHash c \<Longrightarrow>
      \<exists>r. IssueDraftAtomic env ids now c s = (Inr r, s) \<and> sr_Replayed r \<and> result_stands c r s \<and> ik_ResultID k = Some (in_ID (sr_Invoice r))"
proof -
  note f = find_issue_key [OF assms(1-3)]
  have "issue_key_ok (sb_invoices s) (final_jobs (sb_jobs s)) k" using assms(1,2) by (simp add: sales_inv_def)
  then obtain rid where rid: "ik_Completed k" "ik_ResultType k = Some ''invoice_issue''" "ik_ResultID k = Some rid" by (auto simp: issue_key_ok_def)
  show "ik_RequestHash k \<noteq> sc_RequestHash c \<Longrightarrow> IssueDraftAtomic env ids now c s = (Inl IssueConflict, s)"
    using assms(4,5) f
    by (simp add: IssueDraftAtomic_def sales_transaction_def call_without_faults issue_tx_def claimInvoiceIssueIdempotency_def claim_command_def
        isInvoiceIssueTypedError_def)
  assume h: "ik_RequestHash k = sc_RequestHash c"
  obtain i j where ij: "getIssueReplay rid (sc_BusinessID c) s = Some (i, j)"
      "\<And>r. sr_Invoice r = i \<Longrightarrow> sr_FinalRender r = j \<Longrightarrow> result_stands c r s \<and> in_ID (sr_Invoice r) = rid"
    using replay_found [OF assms(1-3) rid(3) h] by blast
  let ?r = "\<lparr>sr_Invoice = i, sr_FinalRender = j, sr_OutboxEvent = None, sr_Replayed = True\<rparr>"
  have "IssueDraftAtomic env ids now c s = (Inr ?r, s)"
    using assms(4,5) f rid h ij(1)
    by (simp add: IssueDraftAtomic_def sales_transaction_def call_without_faults issue_tx_def claimInvoiceIssueIdempotency_def claim_command_def)
  then show "\<exists>r. IssueDraftAtomic env ids now c s = (Inr r, s) \<and> sr_Replayed r \<and> result_stands c r s \<and> ik_ResultID k = Some (in_ID (sr_Invoice r))"
    using ij(2) [of ?r] rid(3) by auto
qed

lemma result_stands_faults [simp]: "result_stands c r (s\<lparr>fa_faults := fs\<rparr>) = result_stands c r s"
  by (simp add: result_stands_def)

lemma issued_result_stands:
  assumes "issues env ids now c r s t" and "sc_Command c = ''invoice.issue''"
  shows "result_stands c r t"
proof -
  obtain i number d profileID where i: "i \<in> set (sb_invoices s)" "in_ID i = sc_InvoiceID c" "in_Status i = ''draft''" "\<not> in_Deleted i"
    and u: "update_invoices (draft_row i) (issued_invoice number now) (sb_invoices s) = Some (1, sb_invoices t)"
    and r: "sr_Invoice r = issued_invoice number now i" "sr_FinalRender r = final_render (id_Render ids) (sr_Invoice r) d profileID now"
      "insert_job (sr_FinalRender r) (sb_jobs s) = Some (sb_jobs t)"
    and k: "sb_keys t = sb_keys s @ [done_issue c]"
    using assms(1) unfolding issues_def by blast
  have "done_issue c \<in> set (issue_keys (sb_keys t))" unfolding k using issue_keys_append [OF assms(2)] by simp
  moreover have "ik_RequestHash (done_issue c) = sc_RequestHash c" "ik_ResultID (done_issue c) = Some (in_ID (sr_Invoice r))"
    using r(1) i(2) by (simp_all add: done_issue_def new_claim_def issue_ident_def)
  moreover have "sr_Invoice r \<in> set (sb_invoices t)" "in_Status (sr_Invoice r) \<noteq> ''draft''"
    using issued_in_table(1) [OF u i(1,3,4)] r(1) by (simp_all add: issued_invoice_def)
  moreover have "(rj_ID (sr_FinalRender r), in_BusinessID (sr_Invoice r), Some (in_ID (sr_Invoice r)), Some (in_Version (sr_Invoice r))) \<in> set (final_jobs (sb_jobs t))"
    using final_jobs_insert(1) [OF r(3)] r(2) by (simp add: final_render_def)
  ultimately show ?thesis unfolding result_stands_def using ident_done by blast
qed

text \<open>Every successful call, and the runs that follow it.\<close>

lemma successful_issue_stands:
  assumes "IssueDraftAtomic env ids now c s = (Inr r, t)" and "sales_inv s"
  shows "result_stands c r t"
  using assms(1)
proof (cases rule: IssueDraftAtomic_cases)
  case (issued fs x)
  have "sc_Command c = ''invoice.issue''" using issued(3) by (simp add: validateAtomicInvoiceIssue_def)
  then show ?thesis using issued_result_stands [OF issue_tx_issues [OF issued(1)]] issued(2) by simp
next
  case (unchanged fs)
  have valid: "validateAtomicInvoiceIssue env c" using assms(1) by (auto simp: IssueDraftAtomic_def split: if_splits)
  then have cmd: "sc_Command c = ''invoice.issue''" by (simp add: validateAtomicInvoiceIssue_def)
  obtain a u where a: "sales_transaction (issue_tx env ids now c) s = (Inr a, u)"
    using assms(1) valid by (auto simp: IssueDraftAtomic_def split: prod.splits sum.splits)
  then obtain gs where gs: "issue_tx env ids now c (s\<lparr>fa_faults := gs\<rparr>) = (Inr a, u)" by (cases rule: sales_transaction_effect) auto
  show ?thesis
  proof (cases a)
    case (Inl x)
    have "sr_Replayed r" using unchanged(2) by simp
    moreover have "r = x" using assms(1) valid a Inl by (simp add: IssueDraftAtomic_def)
    moreover have "\<not> sr_Replayed x" using issue_tx_issues [OF gs [unfolded Inl]] unfolding issues_def by blast
    ultimately show ?thesis by simp
  next
    case (Inr rid)
    obtain k where k: "find (\<lambda>k. ident k = issue_ident c) (sb_keys s) = Some k" "ik_RequestHash k = sc_RequestHash c" "ik_ResultID k = Some rid"
      and u: "u = s\<lparr>fa_faults := gs\<rparr>"
      using gs Inr by (auto simp: issue_tx_def claimInvoiceIssueIdempotency_def claim_command_def Let_def split: option.splits if_splits sum.splits prod.splits)
    have mem: "k \<in> set (issue_keys (sb_keys s))" "ident k = issue_ident c"
      using find_some [OF k(1)] cmd by (auto simp: issue_keys_def ident_def issue_ident_def)
    obtain i j where ij: "getIssueReplay rid (sc_BusinessID c) s = Some (i, j)"
      "\<And>r. sr_Invoice r = i \<Longrightarrow> sr_FinalRender r = j \<Longrightarrow> result_stands c r s \<and> in_ID (sr_Invoice r) = rid"
      using replay_found [OF assms(2) mem k(3,2)] by blast
    obtain y v where y: "external_call (\<lambda>s. (getIssueReplay rid (sc_BusinessID c) s, s)) u = (y, v)" by fastforce
    have same: "getIssueReplay rid (sc_BusinessID c) (s\<lparr>fa_faults := hs\<rparr>) = Some (i, j)" for hs
      using ij(1) by (simp add: getIssueReplay_def getReplayInvoice_def Let_def)
    from y have "y = None \<or> y = Some (Some (i, j))" by (cases rule: external_call_effect) (auto simp: u same)
    then have "sr_Invoice r = i" "sr_FinalRender r = j" using assms(1) valid a Inr y by (auto simp: IssueDraftAtomic_def)
    then show ?thesis using ij(2) unchanged(1) by simp
  qed
qed

lemma result_stands_later:
  assumes "result_stands c r t" and "sales_le t u"
  obtains i b where "i \<in> set (sb_invoices u)" "same_issued (sr_Invoice r) i"
    "(rj_ID (sr_FinalRender r), b, Some (in_ID i), Some (in_Version i)) \<in> set (final_jobs (sb_jobs u))"
    "\<exists>k \<in> set (issue_keys (sb_keys u)). ident k = issue_ident c \<and> ik_RequestHash k = sc_RequestHash c \<and> ik_ResultID k = Some (in_ID i)"
proof -
  from assms obtain i where i: "i \<in> set (sb_invoices u)" "same_issued (sr_Invoice r) i" by (auto simp: result_stands_def sales_le_def invoices_kept_def)
  then have same: "in_ID i = in_ID (sr_Invoice r)" "in_Version i = in_Version (sr_Invoice r)" using assms(1) by (auto simp: same_issued_def result_stands_def)
  obtain b where "(rj_ID (sr_FinalRender r), b, Some (in_ID i), Some (in_Version i)) \<in> set (final_jobs (sb_jobs u))"
    using assms same unfolding result_stands_def sales_le_def by force
  moreover have "\<exists>k \<in> set (issue_keys (sb_keys u)). ident k = issue_ident c \<and> ik_RequestHash k = sc_RequestHash c \<and> ik_ResultID k = Some (in_ID i)"
    using assms same unfolding result_stands_def sales_le_def by fastforce
  ultimately show ?thesis using that i by blast
qed

lemma final_job_owner:
  assumes "finals_ok rows fs" and "(a, b, x, y) \<in> set fs" and "(a', b', x, y) \<in> set fs"
  shows "a = a'"
proof -
  have "inj_on (\<lambda>(_, _, i, v). (i, v)) (set fs)" using assms(1) by (simp add: finals_ok_def distinct_map)
  then have "(a, b, x, y) = (a', b', x, y)" by (rule inj_onD) (use assms(2,3) in auto)
  then show ?thesis by simp
qed

end
