(* ===== verification/Invoice_Examples.thy ===== *)
theory Invoice_Examples
  imports Invoice_Delivery Delivery_Examples
begin

text \<open>One business with two drafts, a tax invoice and a bill of supply, for the concrete instances of the properties.\<close>

definition ex_party :: "string \<Rightarrow> party_snapshot" where
  "ex_party name = empty_snapshot\<lparr>ps_Name := name\<rparr>"

text \<open>Noon of 10 June 2026, UTC.\<close>

definition ex_date :: instant where
  "ex_date = 1781092800000000000"

definition ex_draft :: "char \<Rightarrow> invoice" where
  "ex_draft c = (zero_invoice (ex_id c) (ex_id CHR ''b''))\<lparr>in_Version := 1, in_Origin := ''manual'', in_SellerSnapshot := ex_party ''Acme'',
     in_BuyerSnapshot := ex_party ''Ann'', in_InvoiceDate := ex_date, in_Status := ''draft'', in_CreatedAt := 1, in_UpdatedAt := 1\<rparr>"

definition ex_document :: "char \<Rightarrow> bool \<Rightarrow> document" where
  "ex_document c bill =
     \<lparr>do_ID = ex_id c, do_BusinessID = ex_id CHR ''b'', do_Status = ''draft'', do_DraftState = ''draft'', do_BillOfSupply = bill,
      do_SerialNumber = [], do_IssueDate = ex_date, do_Locale = ''en-IN'', do_SourceLinkage = ''{}'', do_RenderProfileID = None,
      do_Columns = [], do_UpdatedAt = 1, do_Deleted = False\<rparr>"

text \<open>India is five and a half hours ahead of UTC; the comparisons and texts of rows accept and print nothing of interest.\<close>

definition ex_issue_env :: issue_env where
  "ex_issue_env =
     \<lparr>ie_zone = (\<lambda>z. if z = ''Asia/Kolkata'' then Some (\<lambda>t. 19800) else None), ie_uuid_ok = canonical_uuid,
      ie_projection = (\<lambda>i items d lines. None), ie_linkage = (\<lambda>old i now. Some old), ie_document_json = (\<lambda>d lines. Some ''{}''),
      ie_invoice_json = (\<lambda>i items. Some ''{}''), ie_stock = None\<rparr>"

definition ex_drafts :: sales_db where
  "ex_drafts =
     \<lparr>fa_faults = [], sb_keys = [], sb_businesses = [\<lparr>bp_ID = ex_id CHR ''b'', bp_Timezone = [], bp_Deleted = False\<rparr>], sb_profiles = [],
      sb_invoices = [ex_draft CHR ''1'', ex_draft CHR ''2''], sb_items = [], sb_documents = [ex_document CHR ''1'' False, ex_document CHR ''2'' True],
      sb_lines = [], sb_sequences = [], sb_inventory = [], sb_jobs = [], sb_revisions = [], sb_outbox = [], sb_activity = [], sb_deliveries = []\<rparr>"

definition ex_issue :: "char \<Rightarrow> string \<Rightarrow> char \<Rightarrow> issue_command" where
  "ex_issue c ty key =
     \<lparr>sc_BusinessID = ex_id CHR ''b'', sc_InvoiceID = ex_id c, sc_Command = ''invoice.issue'', sc_IdempotencyKey = ex_id key,
      sc_RequestHash = replicate 64 key, sc_ExpectedVersion = 1, sc_DocumentType = ty, sc_Series = ''INV'', sc_ActorID = ex_id CHR ''a'',
      sc_ActorRole = ''owner'', sc_RequestID = [], sc_IPAddress = []\<rparr>"

definition ex_ids :: issue_ids where
  "ex_ids = \<lparr>id_Render = ex_id CHR ''3'', id_Revision = ex_id CHR ''4'', id_Event = ex_id CHR ''5'', id_Activity = ex_id CHR ''6''\<rparr>"

definition ex_first :: issue_command where "ex_first = ex_issue CHR ''1'' DocumentTypeTaxInvoice CHR ''7''"
definition ex_second :: issue_command where "ex_second = ex_issue CHR ''2'' DocumentTypeBillOfSupply CHR ''8''"

definition ex_issued_row :: invoice where
  "ex_issued_row = issued_invoice ''INV/26-27/000001'' 9 (ex_draft CHR ''1'')"

definition ex_issued_doc :: document where
  "ex_issued_doc = issued_document ''INV/26-27/000001'' ex_issued_row ''{}'' 9 (ex_document CHR ''1'' False)"

definition ex_final_job :: sales_job where
  "ex_final_job = final_render (ex_id CHR ''3'') ex_issued_row ex_issued_doc None 9"

definition ex_issued_event :: outbox_event where
  "ex_issued_event = issued_event (ex_id CHR ''5'') ex_issued_row ''INV/26-27/000001'' (ex_id CHR ''3'') 9"

definition ex_result :: issue_result where
  "ex_result = \<lparr>sr_Invoice = ex_issued_row, sr_FinalRender = ex_final_job, sr_OutboxEvent = Some ex_issued_event, sr_Replayed = False\<rparr>"

definition ex_sequence :: document_sequence where
  "ex_sequence = \<lparr>sq_BusinessID = ex_id CHR ''b'', sq_DocumentType = DocumentTypeTaxInvoice, sq_FinancialYear = ''2026-2027'',
     sq_Series = ''INV'', sq_LastNumber = 1\<rparr>"

definition ex_after :: sales_db where
  "ex_after = ex_drafts\<lparr>sb_keys := [done_issue ex_first], sb_invoices := [ex_issued_row, ex_draft CHR ''2''],
     sb_documents := [ex_issued_doc, ex_document CHR ''2'' True], sb_sequences := [ex_sequence], sb_jobs := [ex_final_job],
     sb_revisions := [the (newInvoiceFinalRenderRevision ex_issue_env (ex_id CHR ''4'') ex_issued_doc [] ex_final_job)],
     sb_outbox := [ex_issued_event],
     sb_activity := [newInvoiceIssueActivity ex_issue_env (ex_id CHR ''6'') ex_first ex_issued_row [] ''INV/26-27/000001'' (ex_id CHR ''3'')]\<rparr>"

lemma ex_issued: "IssueDraftAtomic ex_issue_env ex_ids 9 ex_first ex_drafts = (Inr ex_result, ex_after)"
  by code_simp

lemma ex_valid: "validateAtomicInvoiceIssue ex_issue_env ex_first" "validateAtomicInvoiceIssue ex_issue_env ex_second"
  by code_simp+

lemma ex_drafts_reachable: "sales_reachable env ex_drafts"
proof (rule sales_reachable.init)
  show "sales_init ex_drafts" by code_simp
qed

lemma ex_after_step: "sales_step ex_issue_env ex_drafts ex_after"
  by (rule sales_step.issue [OF ex_issued])

lemma ex_after_reachable: "sales_reachable ex_issue_env ex_after"
  by (rule sales_reachable.step [OF ex_drafts_reachable ex_after_step])

end
