(* ===== verification/Invoice_Properties.thy ===== *)
theory Invoice_Properties
  imports Invoice_Examples
begin

text \<open>The properties of invoices from draft to issue.\<close>

lemma checks_ignore_keys [simp]:
  "check_invoice c (s\<lparr>sb_keys := ks\<rparr>) = check_invoice c s" "issue_year env c i (s\<lparr>sb_keys := ks\<rparr>) = issue_year env c i s"
  "check_document env c i (s\<lparr>sb_keys := ks\<rparr>) = check_document env c i s"
proof -
  have "invoice_items x (s\<lparr>sb_keys := ks\<rparr>) = invoice_items x s" "document_lines x (s\<lparr>sb_keys := ks\<rparr>) = document_lines x s" for x
    by (simp_all add: invoice_items_def document_lines_def)
  then show "check_document env c i (s\<lparr>sb_keys := ks\<rparr>) = check_document env c i s" by (simp add: check_document_def split: option.split)
qed (simp_all add: check_invoice_def issue_year_def)

lemma write_invoice_refused:
  assumes "update_invoices (draft_row i) (issued_invoice number now) (sb_invoices s) = None"
  shows "write_invoice number now i s = Inl (IssueStage ''invoice update'')"
proof -
  have "update_invoices (draft_row i) (issued_invoice number now) (sb_invoices s) =
      update_invoices (\<lambda>r. in_ID r = in_ID i \<and> in_BusinessID r = in_BusinessID i \<and> in_Version r = in_Version i \<and> in_Status r = ''draft'' \<and> \<not> in_Deleted r)
             (\<lambda>r. r\<lparr>in_InvoiceNo := Some number, in_IssuedAt := Some now, in_Status := ''issued'', in_Version := in_Version i + 1,
                    in_UpdatedAt := now\<rparr>) (sb_invoices s)"
    unfolding draft_row_def [abs_def] by (rule update_invoices_cong) (simp add: issued_invoice_def)
  then show ?thesis using assms by (simp add: write_invoice_def)
qed

section \<open>Numbers\<close>

lemma find_map: "find p (map f xs) = map_option f (find (\<lambda>x. p (f x)) xs)"
  by (induction xs) auto

lemma find_append: "find p (xs @ ys) = (case find p xs of None \<Rightarrow> find p ys | Some x \<Rightarrow> Some x)"
  by (induction xs) auto

text \<open>The upsert moves one sequence by one.\<close>

lemma next_number_moves:
  assumes "next_number b ty fy series qs = Some (n, qs')"
  shows "n = last_number b ty fy series qs + 1"
    and "last_number b' ty' y z qs' = last_number b' ty' y z qs + (if b' = b \<and> ty' = ty \<and> y = fy \<and> z = series then 1 else 0)"
proof -
  show "n = last_number b ty fy series qs + 1"
    using assms by (auto simp: next_number_def last_number_def split: option.splits if_splits)
  show "last_number b' ty' y z qs' = last_number b' ty' y z qs + (if b' = b \<and> ty' = ty \<and> y = fy \<and> z = series then 1 else 0)"
    using assms
  proof (cases rule: next_number_cases)
    case first
    then show ?thesis by (auto simp: last_number_def find_append sequence_of_def split: option.splits)
  next
    case (next_one q)
    let ?u = "\<lambda>r. if sequence_of b ty fy series r then r\<lparr>sq_LastNumber := sq_LastNumber r + 1\<rparr> else r"
    have keys: "sequence_of b' ty' y z (?u r) = sequence_of b' ty' y z r" for r by (simp add: sequence_of_def)
    show ?thesis
    proof (cases "find (sequence_of b' ty' y z) qs")
      case None
      then have "\<not> (b' = b \<and> ty' = ty \<and> y = fy \<and> z = series)" using next_one(1,2) by (auto simp: find_None_iff)
      with None show ?thesis unfolding last_number_def next_one(5) find_map keys by simp
    next
      case (Some r)
      then have "sequence_of b ty fy series r \<longleftrightarrow> b' = b \<and> ty' = ty \<and> y = fy \<and> z = series"
        using find_some [OF Some] by (auto simp: sequence_of_def)
      with Some show ?thesis unfolding last_number_def next_one(5) find_map keys by simp
    qed
  qed
qed

text \<open>
  C28: In every state that drafts, issues, edits, status changes and deletions can lead to, with any
  of their transactions failing or losing its answer, the numbers of a sequence are used without
  gaps and without doubles: every number from one to the last one of the sequence is, in its
  written form, the number of exactly one invoice of the business.
\<close>

theorem issued_numbers_are_gapless:
  assumes "sales_reachable env s" and "q \<in> set (sb_sequences s)" and "1 \<le> k" and "k \<le> sq_LastNumber q"
  shows "\<exists>!i. i \<in> set (sb_invoices s) \<and> in_BusinessID i = sq_BusinessID q \<and>
    (\<exists>x. FormatNumber (sq_DocumentType q) (sq_Series q) (sq_FinancialYear q) k = Inr x \<and> in_InvoiceNo i = Some x)"
proof -
  have inv: "invoices_ok (sb_invoices s)" "sequences_ok (sb_invoices s) (sb_sequences s)"
    using sales_inv_reachable [OF assms(1)] by (simp_all add: sales_inv_def)
  have "numbered (sb_invoices s) q k" using inv(2) assms(2-4) by (simp add: sequences_ok_def)
  then obtain x i where x: "FormatNumber (sq_DocumentType q) (sq_Series q) (sq_FinancialYear q) k = Inr x" "i \<in> set (sb_invoices s)"
      "in_BusinessID i = sq_BusinessID q" "in_InvoiceNo i = Some x" by (auto simp: numbered_def)
  show ?thesis
  proof (rule ex1I [of _ i])
    fix j
    assume "j \<in> set (sb_invoices s) \<and> in_BusinessID j = sq_BusinessID q \<and>
      (\<exists>x. FormatNumber (sq_DocumentType q) (sq_Series q) (sq_FinancialYear q) k = Inr x \<and> in_InvoiceNo j = Some x)"
    then show "j = i" using number_owner [OF inv(1), of j i x] x by auto
  qed (use x in auto)
qed

theorem issued_numbers_are_gapless_witness:
  "\<exists>!i. i \<in> set (sb_invoices ex_after) \<and> in_BusinessID i = ex_id CHR ''b'' \<and>
    (\<exists>x. FormatNumber DocumentTypeTaxInvoice ''INV'' ''2026-2027'' 1 = Inr x \<and> in_InvoiceNo i = Some x)"
proof -
  have "ex_sequence \<in> set (sb_sequences ex_after)" by (simp add: ex_after_def)
  from issued_numbers_are_gapless [OF ex_after_reachable this, of 1] show ?thesis by (simp add: ex_sequence_def)
qed

text \<open>
  An issue that succeeds gives the invoice the number after the last one of its sequence, which
  is the sequence of the financial year the invoice date falls in at the place of the business, and
  moves that sequence, and no other, by one. An issue that is refused uses up no number: unless its
  commit is reported as failed, it leaves sequences, invoices, jobs, keys and outbox as they were.
\<close>

theorem issue_takes_next_number:
  assumes "IssueDraftAtomic env ids now c s = (r, t)"
  shows "(\<forall>x. r = Inr x \<and> \<not> sr_Replayed x \<longrightarrow>
      (\<exists>i fy number. i \<in> set (sb_invoices s) \<and> in_ID i = sc_InvoiceID c \<and> in_InvoiceNo i = None \<and> issue_year env c i s = Inr fy \<and>
         FormatNumber (sc_DocumentType c) (sc_Series c) fy (last_number (sc_BusinessID c) (sc_DocumentType c) fy (sc_Series c) (sb_sequences s) + 1) = Inr number \<and>
         in_InvoiceNo (sr_Invoice x) = Some number \<and> sr_Invoice x \<in> set (sb_invoices t) \<and>
         (\<forall>b ty y z. last_number b ty y z (sb_sequences t) = last_number b ty y z (sb_sequences s) +
            (if b = sc_BusinessID c \<and> ty = sc_DocumentType c \<and> y = fy \<and> z = sc_Series c then 1 else 0)))) \<and>
    (\<forall>e. r = Inl e \<and> e \<noteq> IssueStage ''transaction commit'' \<longrightarrow>
      sb_sequences t = sb_sequences s \<and> sb_invoices t = sb_invoices s \<and> sb_jobs t = sb_jobs s \<and> sb_keys t = sb_keys s \<and> sb_outbox t = sb_outbox s)"
  using assms
proof (cases rule: IssueDraftAtomic_cases)
  case (unchanged fs)
  then show ?thesis by simp
next
  case (issued fs x)
  obtain i fy n number where i: "i \<in> set (sb_invoices s)" "in_ID i = sc_InvoiceID c" "in_Status i = ''draft''" "in_InvoiceNo i = None" "\<not> in_Deleted i"
      "issue_year env c i s = Inr fy"
    and n: "next_number (sc_BusinessID c) (sc_DocumentType c) fy (sc_Series c) (sb_sequences s) = Some (n, sb_sequences t)"
      "FormatNumber (sc_DocumentType c) (sc_Series c) fy n = Inr number"
    and u: "update_invoices (draft_row i) (issued_invoice number now) (sb_invoices s) = Some (1, sb_invoices t)"
    and x: "sr_Invoice x = issued_invoice number now i"
    using issue_tx_issues [OF issued(1)] unfolding issues_def by (auto simp: issue_year_def)
  have "in_InvoiceNo (sr_Invoice x) = Some number" "sr_Invoice x \<in> set (sb_invoices t)"
    using issued_in_table(1) [OF u i(1,3,5)] x by (simp_all add: issued_invoice_def)
  then show ?thesis using issued(2) i n next_number_moves [OF n(1)] by auto
qed

theorem issue_takes_next_number_witness:
  "in_InvoiceNo (sr_Invoice ex_result) = Some ''INV/26-27/000001'' \<and>
   last_number (ex_id CHR ''b'') DocumentTypeTaxInvoice ''2026-2027'' ''INV'' (sb_sequences ex_after) = 1"
proof -
  have nr: "\<not> sr_Replayed ex_result" by (simp add: ex_result_def)
  have yr: "issue_year ex_issue_env ex_first i ex_drafts = Inr ''2026-2027''" if "i \<in> set (sb_invoices ex_drafts)" "in_ID i = sc_InvoiceID ex_first" for i
  proof -
    have "i = ex_draft CHR ''1''" using that by (auto simp: ex_drafts_def ex_first_def ex_issue_def ex_draft_def zero_invoice_def ex_id_def)
    moreover have "issue_year ex_issue_env ex_first (ex_draft CHR ''1'') ex_drafts = Inr ''2026-2027''" by code_simp
    ultimately show ?thesis by simp
  qed
  have f: "FormatNumber DocumentTypeTaxInvoice ''INV'' ''2026-2027'' 1 = Inr ''INV/26-27/000001''" by code_simp
  have c: "sc_BusinessID ex_first = ex_id CHR ''b''" "sc_DocumentType ex_first = DocumentTypeTaxInvoice" "sc_Series ex_first = ''INV''"
    by (simp_all add: ex_first_def ex_issue_def)
  have z: "last_number b ty y z (sb_sequences ex_drafts) = 0" for b ty y z by (simp add: last_number_def ex_drafts_def)
  from issue_takes_next_number [OF ex_issued] nr show ?thesis using yr f by (fastforce simp: c z)
qed

text \<open>
  C29: Sequences are kept for each type of document, but the written number does not contain the
  type, and numbers are unique within a business. So once a tax invoice has been issued in a series
  and a year, a bill of supply in the same series and year, or the other way around, can never be
  issued: its sequence starts at one again, the number is taken, the update of the invoice fails and
  the transaction, with the sequence, is rolled back, however often the request is repeated.
\<close>

theorem second_document_type_is_refused:
  assumes "sales_reachable env s" and "q \<in> set (sb_sequences s)" and "sq_BusinessID q = sc_BusinessID c" and "sq_Series q = sc_Series c"
    and "sq_DocumentType q \<noteq> sc_DocumentType c" and "validateAtomicInvoiceIssue env c" and "fa_faults s = []"
    and "find (\<lambda>k. ident k = issue_ident c) (sb_keys s) = None" and "check_invoice c s = Inr i"
    and "issue_year env c i s = Inr (sq_FinancialYear q)" and "check_document env c i s = Inr d"
  shows "IssueDraftAtomic env ids now c s = (Inl (IssueStage ''invoice update''), s)"
proof -
  have inv: "invoices_ok (sb_invoices s)" "sequences_ok (sb_invoices s) (sb_sequences s)"
    using sales_inv_reachable [OF assms(1)] by (simp_all add: sales_inv_def)
  have ty: "sc_DocumentType c = DocumentTypeTaxInvoice \<or> sc_DocumentType c = DocumentTypeBillOfSupply"
    using assms(6) by (auto simp: validateAtomicInvoiceIssue_def FormatNumber_def split: if_splits)
  let ?s = "s\<lparr>sb_keys := sb_keys s @ [new_claim (issue_ident c) (sc_RequestHash c)]\<rparr>"
  obtain number s1 where n: "allocate_number c (sq_FinancialYear q) ?s = Inr (number, s1)" "sb_invoices s1 = sb_invoices ?s"
      "\<exists>j \<in> set (sb_invoices s). in_BusinessID j = sc_BusinessID c \<and> in_InvoiceNo j = Some number"
    using other_type_allocates_first [OF inv(2) assms(2-5) ty, of ?s] by simp blast
  have i: "i \<in> set (sb_invoices s)" "in_Status i = ''draft''" "\<not> in_Deleted i" "in_InvoiceNo i = None" "in_BusinessID i = sc_BusinessID c"
    using assms(9) by (auto elim: check_invoiceE)
  have "update_invoices (draft_row i) (issued_invoice number now) (sb_invoices s1) = None"
    using n(2,3) i taken_number_refused [OF inv(1) i(1-4)] by auto
  then have "write_invoice number now i s1 = Inl (IssueStage ''invoice update'')" by (rule write_invoice_refused)
  then have "issue_writes env ids now c i d number s1 = Inl (IssueStage ''invoice update'')" by (simp add: issue_writes_def)
  then have "issue_tx env ids now c s = (Inl (IssueStage ''invoice update''), s)"
    using assms(8-11) n(1) by (simp add: issue_tx_def claimInvoiceIssueIdempotency_def claim_command_def)
  then show ?thesis
    using assms(6,7) by (simp add: IssueDraftAtomic_def sales_transaction_def call_without_faults isInvoiceIssueTypedError_def)
qed

theorem second_document_type_is_refused_witness:
  "IssueDraftAtomic ex_issue_env ex_ids 9 ex_second ex_after = (Inl (IssueStage ''invoice update''), ex_after)"
proof (rule second_document_type_is_refused [where q = ex_sequence and i = "ex_draft CHR ''2''" and d = "ex_document CHR ''2'' True", OF ex_after_reachable])
  show "validateAtomicInvoiceIssue ex_issue_env ex_second" by (rule ex_valid)
  show "ex_sequence \<in> set (sb_sequences ex_after)" by (simp add: ex_after_def)
  show "sq_DocumentType ex_sequence \<noteq> sc_DocumentType ex_second" by code_simp
  show "find (\<lambda>k. ident k = issue_ident ex_second) (sb_keys ex_after) = None" by code_simp
  show "check_invoice ex_second ex_after = Inr (ex_draft CHR ''2'')" by code_simp
  show "issue_year ex_issue_env ex_second (ex_draft CHR ''2'') ex_after = Inr (sq_FinancialYear ex_sequence)" by code_simp
  show "check_document ex_issue_env ex_second (ex_draft CHR ''2'') ex_after = Inr (ex_document CHR ''2'' True)" by code_simp
qed (simp_all add: ex_second_def ex_issue_def ex_sequence_def ex_after_def ex_drafts_def)

section \<open>Repetition and delivery\<close>

text \<open>
  C30: Issuing is idempotent. After a successful call, whatever steps follow, a call with the same
  key and the same request answers with the same invoice, its number and its final render job, and
  changes nothing; a call with the same key and another request is a conflict.
\<close>

theorem issue_is_idempotent:
  assumes "sales_reachable env s" and "IssueDraftAtomic env ids now c s = (Inr r, t)" and "(sales_step env)\<^sup>*\<^sup>* t u" and "fa_faults u = []"
    and "validateAtomicInvoiceIssue env e" and "issue_ident e = issue_ident c"
  shows "(sc_RequestHash e \<noteq> sc_RequestHash c \<longrightarrow> IssueDraftAtomic env ids' now' e u = (Inl IssueConflict, u)) \<and>
    (sc_RequestHash e = sc_RequestHash c \<longrightarrow>
      (\<exists>r'. IssueDraftAtomic env ids' now' e u = (Inr r', u) \<and> sr_Replayed r' \<and>
         in_ID (sr_Invoice r') = in_ID (sr_Invoice r) \<and> in_InvoiceNo (sr_Invoice r') = in_InvoiceNo (sr_Invoice r) \<and>
         rj_ID (sr_FinalRender r') = rj_ID (sr_FinalRender r)))"
proof -
  have inv: "sales_inv s" by (rule sales_inv_reachable [OF assms(1)])
  have inv_t: "sales_inv t" using sales_step_inv [OF sales_step.issue [OF assms(2)] inv] by simp
  have inv_u: "sales_inv u" and le: "sales_le t u" by (rule sales.run [OF assms(3) inv_t])+
  have stands: "result_stands c r t" by (rule successful_issue_stands [OF assms(2) inv])
  obtain i b where i: "i \<in> set (sb_invoices u)" "same_issued (sr_Invoice r) i"
      "(rj_ID (sr_FinalRender r), b, Some (in_ID i), Some (in_Version i)) \<in> set (final_jobs (sb_jobs u))"
    and ex: "\<exists>k \<in> set (issue_keys (sb_keys u)). ident k = issue_ident c \<and> ik_RequestHash k = sc_RequestHash c \<and> ik_ResultID k = Some (in_ID i)"
    by (rule result_stands_later [OF stands le])
  obtain k where k: "k \<in> set (issue_keys (sb_keys u))" "ident k = issue_ident e" "ik_RequestHash k = sc_RequestHash c" "ik_ResultID k = Some (in_ID i)"
    using ex assms(6) by auto
  note again = issue_again [OF inv_u k(1,2) assms(5,4)]
  have "\<exists>r'. IssueDraftAtomic env ids' now' e u = (Inr r', u) \<and> sr_Replayed r' \<and> in_ID (sr_Invoice r') = in_ID (sr_Invoice r) \<and>
      in_InvoiceNo (sr_Invoice r') = in_InvoiceNo (sr_Invoice r) \<and> rj_ID (sr_FinalRender r') = rj_ID (sr_FinalRender r)"
    if h: "sc_RequestHash e = sc_RequestHash c"
  proof -
    obtain r' where r': "IssueDraftAtomic env ids' now' e u = (Inr r', u)" "sr_Replayed r'" "result_stands e r' u" "ik_ResultID k = Some (in_ID (sr_Invoice r'))"
      using again(2) h k(3) by auto
    have "sr_Invoice r' \<in> set (sb_invoices u)" "in_ID (sr_Invoice r') = in_ID i" using r'(3,4) k(4) by (simp_all add: result_stands_def)
    then have ri: "sr_Invoice r' = i" using id_owner [of "sb_invoices u"] inv_u i(1) by (auto simp: sales_inv_def)
    obtain b' where "(rj_ID (sr_FinalRender r'), b', Some (in_ID i), Some (in_Version i)) \<in> set (final_jobs (sb_jobs u))"
      using r'(3) ri by (auto simp: result_stands_def)
    then have "rj_ID (sr_FinalRender r') = rj_ID (sr_FinalRender r)" using final_job_owner i(3) inv_u unfolding sales_inv_def by blast
    then show ?thesis using r' ri i(2) stands by (auto simp: same_issued_def result_stands_def)
  qed
  then show ?thesis using again(1) k(3) by simp
qed

theorem issue_is_idempotent_witness:
  "\<exists>r'. IssueDraftAtomic ex_issue_env ex_ids 20 ex_first ex_after = (Inr r', ex_after) \<and> sr_Replayed r' \<and>
    in_InvoiceNo (sr_Invoice r') = Some ''INV/26-27/000001''"
proof -
  have "fa_faults ex_after = []" by (simp add: ex_after_def ex_drafts_def)
  from issue_is_idempotent [OF ex_drafts_reachable ex_issued rtranclp.rtrancl_refl this ex_valid(1) refl] show ?thesis
    by (auto simp: ex_result_def ex_issued_row_def issued_invoice_def)
qed

text \<open>
  C31: An issue hands over to rendering and delivery. Its outbox event is routed to the invoice queue
  as the message that renders the final job it created for the new version of the invoice; and on
  the tables it leaves, a valid request for a delivery of the invoice with a key of its own succeeds,
  with a delivery that waits for that job. The identifiers are in the form that uuid columns have,
  and \<open>uuid.Parse\<close> accepts that form.
\<close>

theorem issued_invoice_is_deliverable:
  assumes "sales_reachable env s" and "IssueDraftAtomic env ids now c s = (Inr r, t)" and "\<not> sr_Replayed r" and "fa_faults t = []"
    and "canonical_uuid (sc_InvoiceID c)" "canonical_uuid (sc_BusinessID c)" "canonical_uuid (id_Event ids)" "canonical_uuid (id_Render ids)"
    and "\<And>x. canonical_uuid x \<Longrightarrow> op_uuid_ok p x" and "op_invoiceQueueURL p \<noteq> []" and "sc_ExpectedVersion c < 2 ^ 62"
    and "validateAtomicInvoiceDelivery uuid_ok e" and "dc_BusinessID e = sc_BusinessID c" and "dc_InvoiceID e = sc_InvoiceID c"
    and "\<And>k. k \<in> set (sb_keys t) \<Longrightarrow> \<not> key_matches e k"
  shows "(\<exists>event. sr_OutboxEvent r = Some event \<and> event \<in> set (sb_outbox t) \<and>
      route p event = Inr (op_invoiceQueueURL p,
        invoiceWorkerMessage (sc_InvoiceID c) (sc_InvoiceID c) (sc_ExpectedVersion c + 1) (rj_ID (sr_FinalRender r)))) \<and>
    (\<exists>d u. CreateDeliveryAtomic uuid_ok e deliveryID eventID now' (delivery_view t) =
        (Inr \<lparr>dr_Delivery = d, dr_OutboxEvent = None, dr_Replayed = False\<rparr>, u) \<and>
      ed_ID d = deliveryID \<and> ed_Status d = WaitingForRender \<and> ed_RenderJobID d = Some (rj_ID (sr_FinalRender r)) \<and> d \<in> set (dd_deliveries u))"
proof -
  have inv: "sales_inv s" by (rule sales_inv_reachable [OF assms(1)])
  have inv_t: "sales_inv t" using sales_step_inv [OF sales_step.issue [OF assms(2)] inv] by simp
  obtain fs where fs: "issue_tx env ids now c (s\<lparr>fa_faults := fs\<rparr>) = (Inr (Inl r), t)"
    using assms(2,3) by (cases rule: IssueDraftAtomic_cases) auto
  have iss: "issues env ids now c r (s\<lparr>fa_faults := fs\<rparr>) t" by (rule issue_tx_issues [OF fs])
  then obtain i fy n number d profileID where i: "in_ID i = sc_InvoiceID c" "in_BusinessID i = sc_BusinessID c" "in_Version i = sc_ExpectedVersion c" "in_Version i \<ge> 1"
    and n: "FormatNumber (sc_DocumentType c) (sc_Series c) fy n = Inr number"
    and r: "sr_Invoice r = issued_invoice number now i" "sr_FinalRender r = final_render (id_Render ids) (sr_Invoice r) d profileID now"
      "sr_OutboxEvent r = Some (issued_event (id_Event ids) (sr_Invoice r) number (id_Render ids) now)"
      "sb_outbox t = sb_outbox s @ [issued_event (id_Event ids) (sr_Invoice r) number (id_Render ids) now]"
    unfolding issues_def by (auto simp: issue_year_def)
  have "route p (issued_event (id_Event ids) (sr_Invoice r) number (id_Render ids) now) =
      Inr (op_invoiceQueueURL p, invoiceWorkerMessage (in_ID (sr_Invoice r)) (in_ID (sr_Invoice r)) (in_Version (sr_Invoice r)) (id_Render ids))"
    by (rule issued_event_routed [OF _ _ assms(7,8) n _ _ assms(9,10)]) (use r(1) i assms(5,6,11) in \<open>simp_all add: issued_invoice_def\<close>)
  moreover have "rj_ID (sr_FinalRender r) = id_Render ids" "in_ID (sr_Invoice r) = sc_InvoiceID c" "in_Version (sr_Invoice r) = sc_ExpectedVersion c + 1"
    using r(1,2) i by (simp_all add: final_render_def issued_invoice_def)
  moreover have "sales_inv (s\<lparr>fa_faults := fs\<rparr>)" using inv by (simp add: sales_inv_def)
  from issued_invoice_requested [OF this iss inv_t assms(4,12-15)]
  have "\<exists>d u. CreateDeliveryAtomic uuid_ok e deliveryID eventID now' (delivery_view t) =
        (Inr \<lparr>dr_Delivery = d, dr_OutboxEvent = None, dr_Replayed = False\<rparr>, u) \<and>
      ed_ID d = deliveryID \<and> ed_Status d = WaitingForRender \<and> ed_RenderJobID d = Some (rj_ID (sr_FinalRender r)) \<and> d \<in> set (dd_deliveries u)" .
  ultimately show ?thesis using r(3,4) by auto
qed

theorem issued_invoice_is_deliverable_witness:
  "\<exists>event. sr_OutboxEvent ex_result = Some event \<and> event \<in> set (sb_outbox ex_after) \<and>
     route (NewSQSOutboxPublisher canonical_uuid ''q'' []) event =
       Inr (''q'', invoiceWorkerMessage (ex_id CHR ''1'') (ex_id CHR ''1'') 2 (ex_id CHR ''3''))"
proof -
  let ?p = "NewSQSOutboxPublisher canonical_uuid ''q'' []"
  have p: "op_invoiceQueueURL ?p = ''q''" "op_uuid_ok ?p = canonical_uuid"
    by (simp_all add: NewSQSOutboxPublisher_def TrimSpace_def is_space_def)
  have keys: "\<not> key_matches ex_command k" if "k \<in> set (sb_keys ex_after)" for k
    using that by (auto simp: ex_after_def key_matches_def ex_command_def invoiceDeliveryCommand_def done_issue_def new_claim_def issue_ident_def
        ex_first_def ex_issue_def)
  have c: "sc_InvoiceID ex_first = ex_id CHR ''1''" "sc_BusinessID ex_first = ex_id CHR ''b''" "sc_ExpectedVersion ex_first = 1"
    "id_Event ex_ids = ex_id CHR ''5''" "id_Render ex_ids = ex_id CHR ''3''" "rj_ID (sr_FinalRender ex_result) = ex_id CHR ''3''"
    by (simp_all add: ex_first_def ex_issue_def ex_ids_def ex_result_def ex_final_job_def final_render_def)
  have "validateAtomicInvoiceDelivery canonical_uuid ex_command" by code_simp
  moreover have "dc_BusinessID ex_command = ex_id CHR ''b''" "dc_InvoiceID ex_command = ex_id CHR ''1''" "fa_faults ex_after = []" "\<not> sr_Replayed ex_result"
    by (simp_all add: ex_command_def ex_after_def ex_drafts_def ex_result_def)
  ultimately show ?thesis
    using issued_invoice_is_deliverable [OF ex_drafts_reachable ex_issued, where p = ?p and uuid_ok = canonical_uuid and e = ex_command] keys
    by (simp add: c p ex_id_canonical)
qed

end
