(* ===== verification/Go_Rfc3339.thy ===== *)
theory Go_Rfc3339
  imports Go_Time Invoice_Numbering
begin

text \<open>
  Instants as text: \<open>Time.Format\<close> and \<open>time.Parse\<close> with the layout \<open>RFC3339Nano\<close>. The parser of the
  package tries the strict form first (\<open>parseRFC3339\<close>, modelled here); what its general layout parser
  accepts beyond that (an hour of one digit, a comma for the point) is the argument \<open>lenient\<close>.
\<close>

section \<open>Days\<close>

text \<open>Days before a year, counted from 1 January of year 1, and before a month of a year.\<close>

definition days_before_year :: "int \<Rightarrow> int" where
  "days_before_year y = 365 * (y - 1) + (y - 1) div 4 - (y - 1) div 100 + (y - 1) div 400"

definition days_before_month :: "bool \<Rightarrow> int \<Rightarrow> int" where
  "days_before_month leap m = sum_list (take (nat (m - 1)) (month_lengths leap))"

definition days_in :: "int \<Rightarrow> int \<Rightarrow> int" where
  "days_in y m = month_lengths (leap_year y) ! nat (m - 1)"

lemma div_bounds:
  assumes "0 \<le> x" and "0 < (k :: int)"
  shows "k * (x div k) \<le> x" "x < k * (x div k) + k" "0 \<le> x div k"
proof -
  have "k * (x div k) + x mod k = x" "0 \<le> x mod k" "x mod k < k" using assms(2) by simp_all
  then show "k * (x div k) \<le> x" "x < k * (x div k) + k" by linarith+
  show "0 \<le> x div k" using assms by (simp add: pos_imp_zdiv_nonneg_iff)
qed

lemma year_yday_parts:
  obtains n400 n100 n4 n1 r where
    "d = 146097 * n400 + 36524 * n100 + 1461 * n4 + 365 * n1 + r"
    "year_yday d = (400 * n400 + 100 * n100 + 4 * n4 + n1 + 1, r)"
    "0 \<le> n100" "n100 \<le> 3" "0 \<le> n4" "n4 \<le> 24" "0 \<le> n1" "n1 \<le> 3" "0 \<le> r" "r \<le> 365"
    "r = 365 \<longrightarrow> n1 = 3" "r = 365 \<and> n4 = 24 \<longrightarrow> n100 = 3"
proof -
  define n400 where "n400 = d div 146097"
  define d1 where "d1 = d mod 146097"
  define n100 where "n100 = min 3 (d1 div 36524)"
  define d2 where "d2 = d1 - 36524 * n100"
  define n4 where "n4 = d2 div 1461"
  define d3 where "d3 = d2 mod 1461"
  define n1 where "n1 = min 3 (d3 div 365)"
  define r where "r = d3 - 365 * n1"
  have e: "year_yday d = (400 * n400 + 100 * n100 + 4 * n4 + n1 + 1, r)"
    by (simp add: year_yday_def Let_def n400_def d1_def n100_def d2_def n4_def d3_def n1_def r_def)
  have d1: "0 \<le> d1" "d1 < 146097" "d = 146097 * n400 + d1" by (simp_all add: d1_def n400_def)
  have b1: "36524 * (d1 div 36524) \<le> d1" "d1 < 36524 * (d1 div 36524) + 36524" "0 \<le> d1 div 36524" using div_bounds [OF d1(1)] by simp_all
  have n100: "0 \<le> n100" "n100 \<le> 3" using b1(3) by (simp_all add: n100_def)
  have d2: "0 \<le> d2" "d2 \<le> 36524" "n100 < 3 \<Longrightarrow> d2 < 36524"
    using b1 d1 by (auto simp: d2_def n100_def min_def split: if_splits)
  have d3: "0 \<le> d3" "d3 < 1461" "d2 = 1461 * n4 + d3" by (simp_all add: d3_def n4_def)
  have n4: "0 \<le> n4" "n4 \<le> 24" using d2(1,2) d3 by linarith+
  have b3: "365 * (d3 div 365) \<le> d3" "d3 < 365 * (d3 div 365) + 365" "0 \<le> d3 div 365" using div_bounds [OF d3(1)] by simp_all
  have n1: "0 \<le> n1" "n1 \<le> 3" using b3(3) by (simp_all add: n1_def)
  have r: "0 \<le> r" "r \<le> 365" "n1 < 3 \<Longrightarrow> r < 365"
    using b3 d3 by (auto simp: r_def n1_def min_def split: if_splits)
  have r3: "n1 = 3" if "r = 365" using r(3) n1 that by linarith
  have "n100 = 3" if "r = 365" "n4 = 24"
  proof (rule ccontr)
    assume "n100 \<noteq> 3"
    then have "d2 < 36524" using d2(3) n100 by linarith
    moreover have "d3 = 1460" using that(1) r3 [OF that(1)] by (simp add: r_def)
    ultimately show False using d3(3) that(2) by linarith
  qed
  moreover have "d = 146097 * n400 + 36524 * n100 + 1461 * n4 + 365 * n1 + r" using d1(3) d3(3) by (simp add: d2_def r_def)
  ultimately show ?thesis using that e n100 n4 n1 r r3 by blast
qed

lemma year_yday_inverse:
  assumes "year_yday d = (y, r)"
  shows "days_before_year y + r = d" and "0 \<le> r" and "r \<le> (if leap_year y then 365 else 364)"
proof -
  obtain n400 n100 n4 n1 r' where p: "d = 146097 * n400 + 36524 * n100 + 1461 * n4 + 365 * n1 + r'"
    "year_yday d = (400 * n400 + 100 * n100 + 4 * n4 + n1 + 1, r')"
    "0 \<le> n100" "n100 \<le> 3" "0 \<le> n4" "n4 \<le> 24" "0 \<le> n1" "n1 \<le> 3" "0 \<le> r'" "r' \<le> 365"
    "r' = 365 \<longrightarrow> n1 = 3" "r' = 365 \<and> n4 = 24 \<longrightarrow> n100 = 3" by (rule year_yday_parts [of d])
  have y: "y = 400 * n400 + 100 * n100 + 4 * n4 + n1 + 1" and r: "r = r'" using assms p(2) by auto
  have q: "(y - 1) div 4 = 100 * n400 + 25 * n100 + n4" "(y - 1) div 100 = 4 * n400 + n100" "(y - 1) div 400 = n400"
    using p(3-8) y int_div_pos_eq [of "y - 1" 4 "100 * n400 + 25 * n100 + n4" n1] int_div_pos_eq [of "y - 1" 100 "4 * n400 + n100" "4 * n4 + n1"]
      int_div_pos_eq [of "y - 1" 400 n400 "100 * n100 + 4 * n4 + n1"] by simp_all
  show "days_before_year y + r = d" unfolding days_before_year_def q using p(1) y r by simp
  show "0 \<le> r" using p(9) r by simp
  have "leap_year y" if "r = 365"
  proof -
    have n1: "n1 = 3" using p(11) that r by simp
    show ?thesis
    proof (cases "n4 = 24")
      case True
      then have "y = 400 * (n400 + 1)" using p(12) that r n1 y by simp
      then show ?thesis by (simp add: leap_year_def)
    next
      case False
      then have "y mod 4 = 0" "y mod 100 \<noteq> 0" 
        using y n1 p(3-6) int_mod_pos_eq [of y 4 "100 * n400 + 25 * n100 + n4 + 1" 0] int_mod_pos_eq [of y 100 "4 * n400 + n100" "4 * n4 + 4"] by simp_all
      then show ?thesis by (simp add: leap_year_def)
    qed
  qed
  then show "r \<le> (if leap_year y then 365 else 364)" using p(10) r by fastforce
qed

lemma month_day_list:
  assumes "0 \<le> r" and "r < sum_list ls" and "ls \<noteq> []" and "month_day k ls r = (m, d)"
  shows "k \<le> m \<and> m < k + int (length ls) \<and> 1 \<le> d \<and> d \<le> ls ! nat (m - k) \<and> sum_list (take (nat (m - k)) ls) + d - 1 = r"
  using assms
proof (induction k ls r rule: month_day.induct)
  case (3 k l l' ls r)
  show ?case
  proof (cases "r < l")
    case True
    then show ?thesis using 3 by auto
  next
    case False
    then have ih: "k + 1 \<le> m \<and> m < k + 1 + int (length (l' # ls)) \<and> 1 \<le> d \<and> d \<le> (l' # ls) ! nat (m - (k + 1)) \<and>
        sum_list (take (nat (m - (k + 1))) (l' # ls)) + d - 1 = r - l" using 3 by auto
    then have "k + 1 \<le> m" by blast
    then have n: "nat (m - k) = Suc (nat (m - (k + 1)))" by simp
    show ?thesis unfolding n using ih by simp
  qed
qed auto

lemma month_day_inverse:
  assumes "0 \<le> r" and "r \<le> (if leap then 365 else 364)" and "month_day 1 (month_lengths leap) r = (m, d)"
  shows "1 \<le> m" "m \<le> 12" "1 \<le> d" "d \<le> month_lengths leap ! nat (m - 1)" "days_before_month leap m + d - 1 = r"
proof -
  have "r < sum_list (month_lengths leap)" "month_lengths leap \<noteq> []" "length (month_lengths leap) = 12"
    using assms(2) by (auto simp: month_lengths_def split: if_splits)
  then have "1 \<le> m \<and> m < 13 \<and> 1 \<le> d \<and> d \<le> month_lengths leap ! nat (m - 1) \<and> sum_list (take (nat (m - 1)) (month_lengths leap)) + d - 1 = r"
    using month_day_list [OF assms(1) _ _ assms(3)] by simp
  then show "1 \<le> m" "m \<le> 12" "1 \<le> d" "d \<le> month_lengths leap ! nat (m - 1)" "days_before_month leap m + d - 1 = r"
    by (simp_all add: days_before_month_def)
qed

text \<open>The instant of a date and a time of the day, and the date back.\<close>

definition date_instant :: "int \<Rightarrow> int \<Rightarrow> int \<Rightarrow> int \<Rightarrow> instant" where
  "date_instant y m d ns = (days_before_year y + days_before_month (leap_year y) m + d - 1 - 719162) * nsPerDay + ns"

lemma civil_inverse:
  assumes "civil t = (y, m, d)"
  shows "date_instant y m d (t mod nsPerDay) = t" and "1 \<le> m" "m \<le> 12" "1 \<le> d" "d \<le> days_in y m"
proof -
  obtain y' r where yr: "year_yday (t div nsPerDay + 719162) = (y', r)" by fastforce
  then have md: "month_day 1 (month_lengths (leap_year y)) r = (m, d)" and y: "y' = y"
    using assms by (auto simp: civil_def Let_def split: prod.splits)
  note q = year_yday_inverse [OF yr [unfolded y]]
  note i = month_day_inverse [OF q(2,3) md]
  have "days_before_year y + days_before_month (leap_year y) m + d - 1 - 719162 = t div nsPerDay" using q(1) i(5) by linarith
  then show "date_instant y m d (t mod nsPerDay) = t" by (simp add: date_instant_def)
  show "1 \<le> m" "m \<le> 12" "1 \<le> d" "d \<le> days_in y m" using i(1-4) by (simp_all add: days_in_def)
qed

section \<open>Text\<close>

definition trim_zeros :: "string \<Rightarrow> string" where
  "trim_zeros s = rev (dropWhile (\<lambda>c. c = CHR ''0'') (rev s))"

definition format_nanos :: "int \<Rightarrow> string" where
  "format_nanos n = (if n = 0 then [] else CHR ''.'' # trim_zeros (fmt_0d 9 n))"

definition format_time :: "instant \<Rightarrow> string" where
  "format_time t =
     (case civil t of (y, m, d) \<Rightarrow>
        let ns = t mod nsPerDay; sec = ns div nsPerSecond in
        fmt_0d 4 y @ ''-'' @ fmt_0d 2 m @ ''-'' @ fmt_0d 2 d @ ''T'' @ fmt_0d 2 (sec div 3600) @ '':'' @ fmt_0d 2 (sec div 60 mod 60) @ '':'' @
        fmt_0d 2 (sec mod 60) @ format_nanos (ns mod nsPerSecond) @ ''Z'')"

definition slice :: "nat \<Rightarrow> nat \<Rightarrow> string \<Rightarrow> string" where
  "slice a b s = take (b - a) (drop a s)"

definition parse_uint :: "string \<Rightarrow> int \<Rightarrow> int \<Rightarrow> int option" where
  "parse_uint s lo hi = (if list_all is_digit s \<and> lo \<le> digits_value s \<and> digits_value s \<le> hi then Some (digits_value s) else None)"

definition parse_fraction :: "string \<Rightarrow> int \<times> string" where
  "parse_fraction s =
     (case s of
        c # c' # _ \<Rightarrow>
          if c = CHR ''.'' \<and> is_digit c'
          then (let ds = takeWhile is_digit (tl s)
                in (digits_value (take 9 ds) * 10 ^ (9 - min 9 (length ds)), dropWhile is_digit (tl s)))
          else (0, s)
      | _ \<Rightarrow> (0, s))"

text \<open>The offset of the zone in seconds.\<close>

definition parse_offset :: "string \<Rightarrow> int option" where
  "parse_offset s =
     (if s = ''Z'' then Some 0
      else if length s \<noteq> 6 then None
      else (case (parse_uint (slice 1 3 s) 0 23, parse_uint (slice 4 6 s) 0 59) of
              (Some h, Some m) \<Rightarrow>
                if (s ! 0 = CHR ''-'' \<or> s ! 0 = CHR ''+'') \<and> s ! 3 = CHR '':''
                then Some ((if s ! 0 = CHR ''-'' then -1 else 1) * (h * 60 + m) * 60) else None
            | _ \<Rightarrow> None))"

definition parse_strict :: "string \<Rightarrow> instant option" where
  "parse_strict s =
     (if length s < 19 then None
      else case (parse_uint (slice 0 4 s) 0 9999, parse_uint (slice 5 7 s) 1 12) of
             (Some y, Some m) \<Rightarrow>
               (case (parse_uint (slice 8 10 s) 1 (days_in y m), parse_uint (slice 11 13 s) 0 23, parse_uint (slice 14 16 s) 0 59, parse_uint (slice 17 19 s) 0 59) of
                  (Some d, Some hh, Some mm, Some ss) \<Rightarrow>
                    if s ! 4 = CHR ''-'' \<and> s ! 7 = CHR ''-'' \<and> s ! 10 = CHR ''T'' \<and> s ! 13 = CHR '':'' \<and> s ! 16 = CHR '':''
                    then (case parse_fraction (drop 19 s) of (nsec, rest) \<Rightarrow>
                            map_option (\<lambda>offset. date_instant y m d (((hh * 60 + mm) * 60 + ss) * nsPerSecond + nsec) - offset * nsPerSecond) (parse_offset rest))
                    else None
                | _ \<Rightarrow> None)
           | _ \<Rightarrow> None)"

definition parse_time :: "(string \<Rightarrow> instant option) \<Rightarrow> string \<Rightarrow> instant option" where
  "parse_time lenient s = (case parse_strict s of Some t \<Rightarrow> Some t | None \<Rightarrow> lenient s)"

section \<open>Round trip\<close>

lemma trim_zeros_split: "s = trim_zeros s @ replicate (length s - length (trim_zeros s)) (CHR ''0'')"
proof -
  let ?p = "\<lambda>c. c = CHR ''0''"
  have "takeWhile ?p (rev s) = replicate (length (takeWhile ?p (rev s))) (CHR ''0'')"
    by (rule replicate_length_same [symmetric]) (auto dest: set_takeWhileD)
  moreover have "rev s = takeWhile ?p (rev s) @ dropWhile ?p (rev s)" by simp
  ultimately have "s = trim_zeros s @ replicate (length (takeWhile ?p (rev s))) (CHR ''0'')"
    by (metis rev_append rev_replicate rev_rev_ident trim_zeros_def)
  then show ?thesis by (metis add_diff_cancel_left' length_append length_replicate)
qed

lemma fraction_roundtrip:
  assumes "0 \<le> n" and "n < nsPerSecond"
  shows "parse_fraction (format_nanos n @ ''Z'') = (n, ''Z'')"
proof (cases "n = 0")
  case True
  then show ?thesis by (simp add: format_nanos_def parse_fraction_def)
next
  case False
  let ?s = "fmt_0d 9 n" and ?ds = "trim_zeros (fmt_0d 9 n)"
  have s: "length ?s = 9" "digits_value ?s = n" "list_all is_digit ?s"
    using fmt_0d_fixed [of n 9] assms by (simp_all add: nsPerSecond_def)
  note split = trim_zeros_split [of ?s]
  have digits: "list_all is_digit ?ds" using s(3) split by (metis list_all_append)
  have len: "length ?ds \<le> 9" using s(1) split by (metis le_add1 length_append)
  have val: "digits_value ?ds * 10 ^ (9 - length ?ds) = n"
  proof -
    have "n = digits_value (?ds @ replicate (9 - length ?ds) (CHR ''0''))" using s(1,2) split by metis
    then show ?thesis by (simp add: digits_value_append digits_value_zeros)
  qed
  have ne: "?ds \<noteq> []" using val False by (auto simp: digits_value_Nil)
  then obtain c cs where c: "?ds = c # cs" "is_digit c" using digits by (cases ?ds) auto
  have "takeWhile is_digit (?ds @ ''Z'') = ?ds" "dropWhile is_digit (?ds @ ''Z'') = ''Z''"
    using digits by (auto simp: takeWhile_append list_all_iff is_digit_def takeWhile_eq_all_conv dropWhile_append)
  moreover have "take 9 ?ds = ?ds" "min 9 (length ?ds) = length ?ds" using len by simp_all
  moreover have "parse_fraction (CHR ''.'' # ?ds @ ''Z'') =
      (let ds = takeWhile is_digit (?ds @ ''Z'') in (digits_value (take 9 ds) * 10 ^ (9 - min 9 (length ds)), dropWhile is_digit (?ds @ ''Z'')))"
    unfolding c(1) using c(2) by (simp add: parse_fraction_def)
  ultimately show ?thesis using False val by (simp add: format_nanos_def Let_def)
qed

lemma parse_uint_fmt:
  assumes "0 \<le> i" "i < 10 ^ w" "0 < w" "lo \<le> i" "i \<le> hi"
  shows "parse_uint (fmt_0d w i) lo hi = Some i"
  using fmt_0d_fixed [OF assms(1-3)] assms(4,5) by (simp add: parse_uint_def)

lemma parse_pieces:
  assumes "length a = 4" "length b = 2" "length c = 2" "length e = 2" "length f = 2" "length g = 2"
  shows "let s = a @ ''-'' @ b @ ''-'' @ c @ ''T'' @ e @ '':'' @ f @ '':'' @ g @ r in
    slice 0 4 s = a \<and> slice 5 7 s = b \<and> slice 8 10 s = c \<and> slice 11 13 s = e \<and> slice 14 16 s = f \<and> slice 17 19 s = g \<and> drop 19 s = r \<and>
    s ! 4 = CHR ''-'' \<and> s ! 7 = CHR ''-'' \<and> s ! 10 = CHR ''T'' \<and> s ! 13 = CHR '':'' \<and> s ! 16 = CHR '':'' \<and> \<not> length s < 19"
  using assms by (simp add: slice_def nth_append Let_def)

lemma day_seconds:
  assumes "0 \<le> ns" and "ns < nsPerDay"
  shows "0 \<le> ns div nsPerSecond div 3600" "ns div nsPerSecond div 3600 \<le> 23" "0 \<le> ns div nsPerSecond div 60 mod 60" "ns div nsPerSecond div 60 mod 60 \<le> 59"
    "((ns div nsPerSecond div 3600 * 60 + ns div nsPerSecond div 60 mod 60) * 60 + ns div nsPerSecond mod 60) * nsPerSecond + ns mod nsPerSecond = ns"
proof -
  have sec: "0 \<le> ns div nsPerSecond" "ns div nsPerSecond < 86400"
    using assms div_bounds [OF assms(1), of nsPerSecond] by (simp_all add: nsPerSecond_def nsPerDay_def)
  then show "0 \<le> ns div nsPerSecond div 3600" "ns div nsPerSecond div 3600 \<le> 23" by (simp_all add: pos_imp_zdiv_nonneg_iff)
  show "0 \<le> ns div nsPerSecond div 60 mod 60" "ns div nsPerSecond div 60 mod 60 \<le> 59" by simp_all
  have "ns div nsPerSecond div 3600 = ns div nsPerSecond div 60 div 60" by (simp add: zdiv_zmult2_eq [symmetric] mult.commute)
  then have "(ns div nsPerSecond div 3600 * 60 + ns div nsPerSecond div 60 mod 60) * 60 + ns div nsPerSecond mod 60 = ns div nsPerSecond" by simp
  then show "((ns div nsPerSecond div 3600 * 60 + ns div nsPerSecond div 60 mod 60) * 60 + ns div nsPerSecond mod 60) * nsPerSecond + ns mod nsPerSecond = ns"
    by simp
qed

text \<open>The fields of a time of the years 0 to 9999, with their ranges.\<close>

lemma format_time_fields:
  assumes "0 \<le> fst (civil t)" and "fst (civil t) \<le> 9999"
  obtains y m d hh mm ss n where
    "format_time t = fmt_0d 4 y @ ''-'' @ fmt_0d 2 m @ ''-'' @ fmt_0d 2 d @ ''T'' @ fmt_0d 2 hh @ '':'' @ fmt_0d 2 mm @ '':'' @ fmt_0d 2 ss @ format_nanos n @ ''Z''"
    "0 \<le> y" "y \<le> 9999" "1 \<le> m" "m \<le> 12" "1 \<le> d" "d \<le> days_in y m" "d \<le> 31" "0 \<le> hh" "hh \<le> 23" "0 \<le> mm" "mm \<le> 59" "0 \<le> ss" "ss \<le> 59"
    "0 \<le> n" "n < nsPerSecond" "date_instant y m d (((hh * 60 + mm) * 60 + ss) * nsPerSecond + n) = t"
proof -
  obtain y m d where c: "civil t = (y, m, d)" by (metis surj_pair)
  note inv = civil_inverse [OF c]
  define ns where "ns = t mod nsPerDay"
  have ns: "0 \<le> ns" "ns < nsPerDay" by (simp_all add: ns_def nsPerDay_def nsPerSecond_def)
  note sec = day_seconds [OF ns]
  have "nat (m - 1) < 12" using inv(2,3) by simp
  then have "month_lengths (leap_year y) ! nat (m - 1) \<in> set (month_lengths (leap_year y))" by (intro nth_mem) (simp add: month_lengths_def)
  then have "days_in y m \<le> 31" by (auto simp: days_in_def month_lengths_def split: if_splits)
  then have d31: "d \<le> 31" using inv(5) by simp
  have y: "0 \<le> y" "y \<le> 9999" using assms c by simp_all
  have n: "0 \<le> ns mod nsPerSecond" "ns mod nsPerSecond < nsPerSecond" "0 \<le> ns div nsPerSecond mod 60" "ns div nsPerSecond mod 60 \<le> 59"
    by (simp_all add: nsPerSecond_def)
  have i: "date_instant y m d (((ns div nsPerSecond div 3600 * 60 + ns div nsPerSecond div 60 mod 60) * 60 + ns div nsPerSecond mod 60) * nsPerSecond + ns mod nsPerSecond) = t"
    using inv(1) unfolding sec(5) by (simp add: ns_def)
  show ?thesis
    by (rule that [OF _ y inv(2-5) d31 sec(1-4) n(3,4) n(1,2) i]) (simp only: format_time_def c Let_def ns_def prod.case)
qed

lemma parse_format_time:
  assumes "0 \<le> fst (civil t)" and "fst (civil t) \<le> 9999"
  shows "parse_time lenient (format_time t) = Some t"
proof -
  obtain y m d hh mm ss n where form:
    "format_time t = fmt_0d 4 y @ ''-'' @ fmt_0d 2 m @ ''-'' @ fmt_0d 2 d @ ''T'' @ fmt_0d 2 hh @ '':'' @ fmt_0d 2 mm @ '':'' @ fmt_0d 2 ss @ format_nanos n @ ''Z''"
    and y: "0 \<le> y" "y \<le> 9999" and m: "1 \<le> m" "m \<le> 12" and d: "1 \<le> d" "d \<le> days_in y m" "d \<le> 31"
    and h: "0 \<le> hh" "hh \<le> 23" and mm: "0 \<le> mm" "mm \<le> 59" and ss: "0 \<le> ss" "ss \<le> 59"
    and n: "0 \<le> n" "n < nsPerSecond" and i: "date_instant y m d (((hh * 60 + mm) * 60 + ss) * nsPerSecond + n) = t"
    by (rule format_time_fields [OF assms])
  have p: "parse_uint (fmt_0d 4 y) 0 9999 = Some y" "parse_uint (fmt_0d 2 m) 1 12 = Some m" "parse_uint (fmt_0d 2 d) 1 (days_in y m) = Some d"
    "parse_uint (fmt_0d 2 hh) 0 23 = Some hh" "parse_uint (fmt_0d 2 mm) 0 59 = Some mm" "parse_uint (fmt_0d 2 ss) 0 59 = Some ss"
    using y m d h mm ss by (simp_all add: parse_uint_fmt)
  have l: "length (fmt_0d 4 y) = 4" "length (fmt_0d 2 m) = 2" "length (fmt_0d 2 d) = 2" "length (fmt_0d 2 hh) = 2" "length (fmt_0d 2 mm) = 2" "length (fmt_0d 2 ss) = 2"
    using y m d h mm ss by (simp_all add: fmt_0d_fixed)
  note pieces = parse_pieces [OF l, of "format_nanos n @ ''Z''", unfolded Let_def, folded form]
  have f: "parse_fraction (format_nanos n @ ''Z'') = (n, ''Z'')" by (rule fraction_roundtrip [OF n])
  have "parse_offset ''Z'' = Some 0" by (simp add: parse_offset_def)
  then have "parse_strict (format_time t) = Some t"
    unfolding parse_strict_def using pieces by (simp only: p f i if_False if_True option.case prod.case option.map simp_thms mult_zero_left diff_0_right)
  then show ?thesis by (simp add: parse_time_def)
qed

end
