(* ===== verification/Go_Base64.thy ===== *)
theory Go_Base64
  imports Go_Sha256
begin

text \<open>
  \<open>base64.RawURLEncoding\<close>: encoding without padding, and strict decoding, which skips carriage
  returns and line feeds and refuses bits that are not zero in the last incomplete byte.
\<close>

definition base64_digit :: "nat \<Rightarrow> char" where
  "base64_digit n =
     (if n < 26 then char_of (65 + n) else if n < 52 then char_of (71 + n) else if n < 62 then char_of (n - 4)
      else if n = 62 then CHR ''-'' else CHR ''_'')"

definition base64_value :: "char \<Rightarrow> nat option" where
  "base64_value c =
     (let n = of_char c :: nat
      in if 65 \<le> n \<and> n \<le> 90 then Some (n - 65)
         else if 97 \<le> n \<and> n \<le> 122 then Some (n - 71)
         else if 48 \<le> n \<and> n \<le> 57 then Some (n + 4)
         else if c = CHR ''-'' then Some 62
         else if c = CHR ''_'' then Some 63
         else None)"

fun base64_digits :: "u8 list \<Rightarrow> nat list" where
  "base64_digits [] = []"
| "base64_digits [a] = [unat a div 4, unat a mod 4 * 16]"
| "base64_digits [a, b] = [unat a div 4, unat a mod 4 * 16 + unat b div 16, unat b mod 16 * 4]"
| "base64_digits (a # b # c # r) =
     [unat a div 4, unat a mod 4 * 16 + unat b div 16, unat b mod 16 * 4 + unat c div 64, unat c mod 64] @ base64_digits r"

definition base64_encode :: "u8 list \<Rightarrow> string" where
  "base64_encode bs = map base64_digit (base64_digits bs)"

fun base64_bytes :: "nat list \<Rightarrow> u8 list option" where
  "base64_bytes [] = Some []"
| "base64_bytes [_] = None"
| "base64_bytes [x, y] = (if y mod 16 \<noteq> 0 then None else Some [of_nat (x * 4 + y div 16)])"
| "base64_bytes [x, y, z] =
     (if z mod 4 \<noteq> 0 then None else Some [of_nat (x * 4 + y div 16), of_nat (y mod 16 * 16 + z div 4)])"
| "base64_bytes (x # y # z # w # r) =
     map_option (\<lambda>bs. [of_nat (x * 4 + y div 16), of_nat (y mod 16 * 16 + z div 4), of_nat (z mod 4 * 64 + w)] @ bs) (base64_bytes r)"

definition base64_decode :: "string \<Rightarrow> u8 list option" where
  "base64_decode s =
     (let vs = map base64_value (filter (\<lambda>c. c \<noteq> CHR 0x0D \<and> c \<noteq> CHR 0x0A) s)
      in if None \<in> set vs then None else base64_bytes (map the vs))"

section \<open>Round trip\<close>

lemma base64_value_digit:
  assumes "n < 64"
  shows "base64_value (base64_digit n) = Some n"
proof -
  consider "n < 26" | "26 \<le> n" "n < 52" | "52 \<le> n" "n < 62" | "n = 62" | "n = 63" using assms by linarith
  then show ?thesis by cases (auto simp: base64_value_def base64_digit_def Let_def)
qed

lemma base64_value_plain:
  assumes "base64_value c \<noteq> None"
  shows "c \<noteq> CHR ''.'' \<and> c \<noteq> CHR 0x0D \<and> c \<noteq> CHR 0x0A"
  using assms by (auto simp: base64_value_def)

lemma byte_bound: "unat (b :: u8) < 256"
  using unsigned_less [of b] by simp

lemma base64_digits_bound: "x \<in> set (base64_digits bs) \<Longrightarrow> x < 64"
proof (induction bs rule: base64_digits.induct)
  case (2 a)
  then show ?case using byte_bound [of a] by auto
next
  case (3 a b)
  then show ?case using byte_bound [of a] byte_bound [of b] by auto
next
  case (4 a b c r)
  then show ?case using byte_bound [of a] byte_bound [of b] byte_bound [of c] by auto
qed simp

lemma byte_of_nat: "n = unat (b :: u8) \<Longrightarrow> of_nat n = b"
  by simp

lemma base64_bytes_digits: "base64_bytes (base64_digits bs) = Some bs"
proof (induction bs rule: base64_digits.induct)
  case (2 a)
  have "unat a div 4 * 4 + unat a mod 4 * 16 div 16 = unat a" by simp
  then show ?case by (simp only: base64_digits.simps base64_bytes.simps byte_of_nat) simp
next
  case (3 a b)
  have "unat a div 4 * 4 + (unat a mod 4 * 16 + unat b div 16) div 16 = unat a"
    "(unat a mod 4 * 16 + unat b div 16) mod 16 * 16 + unat b mod 16 * 4 div 4 = unat b"
    using byte_bound [of b] by simp_all
  then show ?case by (simp only: base64_digits.simps base64_bytes.simps byte_of_nat) simp
next
  case (4 a b c r)
  have "unat a div 4 * 4 + (unat a mod 4 * 16 + unat b div 16) div 16 = unat a"
    "(unat a mod 4 * 16 + unat b div 16) mod 16 * 16 + (unat b mod 16 * 4 + unat c div 64) div 4 = unat b"
    "(unat b mod 16 * 4 + unat c div 64) mod 4 * 64 + unat c mod 64 = unat c"
    using byte_bound [of b] byte_bound [of c] by simp_all
  then show ?case using 4 by (simp only: base64_digits.simps append.simps base64_bytes.simps byte_of_nat option.map)
qed simp

theorem base64_roundtrip: "base64_decode (base64_encode bs) = Some bs"
proof -
  have v: "map base64_value (base64_encode bs) = map Some (base64_digits bs)"
    by (simp add: base64_encode_def base64_value_digit base64_digits_bound)
  then have "\<forall>c \<in> set (base64_encode bs). base64_value c \<noteq> None"
    by (metis image_eqI imageE list.set_map option.distinct(1))
  then have "filter (\<lambda>c. c \<noteq> CHR 0x0D \<and> c \<noteq> CHR 0x0A) (base64_encode bs) = base64_encode bs"
    using base64_value_plain by (auto intro: filter_True)
  then show ?thesis by (auto simp: base64_decode_def v Let_def base64_bytes_digits comp_def)
qed

lemma base64_encode_plain: "CHR ''.'' \<notin> set (base64_encode bs)"
proof
  assume "CHR ''.'' \<in> set (base64_encode bs)"
  then obtain n where n: "n \<in> set (base64_digits bs)" "CHR ''.'' = base64_digit n" by (auto simp: base64_encode_def)
  then have "base64_value (CHR ''.'') = Some n" using base64_value_digit base64_digits_bound by metis
  then show False by (simp add: base64_value_def)
qed

lemma base64_encode_Nil: "base64_encode bs = [] \<longleftrightarrow> bs = []"
  by (cases bs rule: base64_digits.cases) (simp_all add: base64_encode_def)

lemma length_base64_encode: "length (base64_encode bs) = (4 * length bs + 2) div 3"
  unfolding base64_encode_def length_map
  by (induction bs rule: base64_digits.induct) simp_all

section \<open>Bytes and text\<close>

definition bytes_string :: "u8 list \<Rightarrow> string" where
  "bytes_string bs = map (\<lambda>b. char_of (unat b)) bs"

lemma bytes_string_bytes [simp]: "bytes_string (string_bytes s) = s"
proof -
  have "char_of (unat (of_nat (of_char c) :: u8)) = c" for c
    by (simp add: unat_of_nat)
  then show ?thesis by (simp add: bytes_string_def string_bytes_def comp_def)
qed

lemma length_string_bytes [simp]: "length (string_bytes s) = length s"
  by (simp add: string_bytes_def)

end
