(* ===== verification/Invoice_Cursor.thy ===== *)
theory Invoice_Cursor
  imports Go_Rfc3339 Go_Base64 Go_Json_Values
begin

text \<open>
  The continuation tokens of the invoice list (\<open>internal/invoicecursor/codec.go\<close>): a position
  (creation time and identifier of the last row) and the business it belongs to, as JSON, in
  base64 and signed with HMAC-SHA-256. \<open>uuid.Validate\<close> is the argument \<open>uuid_ok\<close>, what
  \<open>time.Parse\<close> accepts beyond its strict form the argument \<open>lenient\<close>.
\<close>

definition cursorVersion :: string where "cursorVersion = ''v1''"

definition maxCursorLength :: nat where "maxCursorLength = 1024"

definition minimumKeyBytes :: nat where "minimumKeyBytes = 32"

datatype cursor_error = ErrInvalidCursor | CursorFailure string

record position =
  cp_CreatedAt :: instant
  cp_ID :: string

record codec =
  cd_key :: "u8 list"

definition payload_fields :: "(string \<times> field_kind) list" where
  "payload_fields = [(''business_id'', FString), (''created_at'', FString), (''id'', FString)]"

definition NewCodec :: "u8 list \<Rightarrow> codec option" where
  "NewCodec key = (if length key < minimumKeyBytes then None else Some \<lparr>cd_key = key\<rparr>)"

definition sign_cursor :: "codec \<Rightarrow> string \<Rightarrow> string" where
  "sign_cursor c signingInput = base64_encode (hmac_sha256 (cd_key c) (string_bytes signingInput))"

definition cursor_document :: "string \<Rightarrow> position \<Rightarrow> string" where
  "cursor_document businessID p =
     json_object [(''business_id'', json_string businessID), (''created_at'', json_string (format_time (cp_CreatedAt p))), (''id'', json_string (cp_ID p))]"

definition cursor_Encode :: "(string \<Rightarrow> bool) \<Rightarrow> codec option \<Rightarrow> string \<Rightarrow> position \<Rightarrow> cursor_error + string" where
  "cursor_Encode uuid_ok c businessID p =
     (case c of
        None \<Rightarrow> Inl ErrInvalidCursor
      | Some c \<Rightarrow>
          if \<not> uuid_ok businessID \<or> \<not> uuid_ok (cp_ID p) \<or> cp_CreatedAt p = zero_time then Inl ErrInvalidCursor
          else let encodedPayload = base64_encode (string_bytes (cursor_document businessID p));
                   signingInput = cursorVersion @ ''.'' @ encodedPayload;
                   token = signingInput @ ''.'' @ sign_cursor c signingInput
               in if length token > maxCursorLength then Inl ErrInvalidCursor else Inr token)"

text \<open>\<open>strings.Split\<close> with a separator of one byte.\<close>

fun split_on :: "char \<Rightarrow> string \<Rightarrow> string list" where
  "split_on sep [] = [[]]"
| "split_on sep (c # s) =
     (if c = sep then [] # split_on sep s
      else (case split_on sep s of [] \<Rightarrow> [[c]] | t # ts \<Rightarrow> (c # t) # ts))"

text \<open>The document of a token whose version and signature are right.\<close>

definition open_token :: "codec \<Rightarrow> string \<Rightarrow> string option" where
  "open_token c token =
     (case split_on (CHR ''.'') token of
        [version, body, mac] \<Rightarrow>
          if version \<noteq> cursorVersion \<or> body = [] \<or> mac = [] then None
          else (case (base64_decode body, base64_decode mac) of
                  (Some document, Some signature) \<Rightarrow>
                    if length signature \<noteq> 32 \<or> signature \<noteq> hmac_sha256 (cd_key c) (string_bytes (cursorVersion @ ''.'' @ body)) then None
                    else Some (bytes_string document)
                | _ \<Rightarrow> None)
      | _ \<Rightarrow> None)"

text \<open>The position in a document, if it is one of the expected business.\<close>

definition document_position :: "(string \<Rightarrow> bool) \<Rightarrow> (string \<Rightarrow> instant option) \<Rightarrow> string \<Rightarrow> string \<Rightarrow> position option" where
  "document_position uuid_ok lenient expectedBusinessID document =
     (case decode_struct payload_fields document of
        None \<Rightarrow> None
      | Some decoded \<Rightarrow>
          if \<not> uuid_ok (string_field decoded ''business_id'') \<or> \<not> uuid_ok (string_field decoded ''id'') \<or>
             string_field decoded ''business_id'' \<noteq> expectedBusinessID then None
          else map_option (\<lambda>t. \<lparr>cp_CreatedAt = t, cp_ID = string_field decoded ''id''\<rparr>)
                 (parse_time lenient (string_field decoded ''created_at'')))"

definition cursor_Decode :: "(string \<Rightarrow> bool) \<Rightarrow> (string \<Rightarrow> instant option) \<Rightarrow> codec option \<Rightarrow> string \<Rightarrow> string \<Rightarrow> cursor_error + position" where
  "cursor_Decode uuid_ok lenient c token expectedBusinessID =
     (case c of
        None \<Rightarrow> Inl ErrInvalidCursor
      | Some c \<Rightarrow>
          if length token = 0 \<or> length token > maxCursorLength \<or> \<not> uuid_ok expectedBusinessID then Inl ErrInvalidCursor
          else (case Option.bind (open_token c token) (document_position uuid_ok lenient expectedBusinessID) of
                  None \<Rightarrow> Inl ErrInvalidCursor
                | Some p \<Rightarrow> Inr p))"

section \<open>Round trip\<close>

text \<open>
  The texts \<open>uuid.Validate\<close> accepts are made of hexadecimal digits, hyphens, the prefix
  \<open>urn:uuid:\<close> and braces, and are at most 45 bytes long.
\<close>

definition uuid_char :: "char \<Rightarrow> bool" where
  "uuid_char c \<longleftrightarrow> (let n = of_char c :: nat in 48 \<le> n \<and> n \<le> 58 \<or> 65 \<le> n \<and> n \<le> 90 \<or> 97 \<le> n \<and> n \<le> 123 \<or> n = 125 \<or> n = 45)"

definition uuid_contract :: "(string \<Rightarrow> bool) \<Rightarrow> bool" where
  "uuid_contract uuid_ok \<longleftrightarrow> (\<forall>s. uuid_ok s \<longrightarrow> list_all uuid_char s \<and> length s \<le> 45)"

text \<open>A character that JSON does not escape.\<close>

definition plain_char :: "char \<Rightarrow> bool" where
  "plain_char c \<longleftrightarrow> json_char c = [c] \<and> of_char c < (128 :: nat)"

lemma split_on_plain: "sep \<notin> set s \<Longrightarrow> split_on sep s = [s]"
  by (induction s) auto

lemma split_on_append: "sep \<notin> set s \<Longrightarrow> split_on sep (s @ sep # t) = s # split_on sep t"
  by (induction s) auto

lemma json_escape_plain: "list_all plain_char s \<Longrightarrow> json_escape s = s \<and> ValidString s"
  by (induction s) (auto simp: plain_char_def)

lemma plain_charI:
  assumes "45 \<le> (of_char c :: nat)" and "of_char c < (128 :: nat)" and "of_char c \<notin> {60, 62, 92 :: nat}"
  shows "plain_char c"
  using assms by (auto simp: plain_char_def json_char_def Let_def)

lemma uuid_char_plain: "uuid_char c \<Longrightarrow> plain_char c"
  by (rule plain_charI) (auto simp: uuid_char_def Let_def)

lemma digit_plain: "is_digit c \<Longrightarrow> plain_char c"
  by (rule plain_charI) (auto simp: is_digit_def)

lemma uuid_plain:
  assumes "uuid_contract uuid_ok" and "uuid_ok s"
  shows "list_all plain_char s" and "length s \<le> 45"
  using assms uuid_char_plain by (auto simp: uuid_contract_def list_all_iff)

lemma length_trim_zeros: "length (trim_zeros s) \<le> length s"
  using length_dropWhile_le [of _ "rev s"] by (simp add: trim_zeros_def)

lemma trim_zeros_sub: "set (trim_zeros s) \<subseteq> set s"
  using set_dropWhileD by (fastforce simp: trim_zeros_def)

lemma format_nanos_text:
  assumes "0 \<le> n" and "n < nsPerSecond"
  shows "list_all plain_char (format_nanos n)" and "length (format_nanos n) \<le> 10"
proof -
  have s: "length (fmt_0d 9 n) = 9" "list_all is_digit (fmt_0d 9 n)" using fmt_0d_fixed [of n 9] assms by (simp_all add: nsPerSecond_def)
  have point: "plain_char (CHR ''.'')" by (rule plain_charI) simp_all
  show "list_all plain_char (format_nanos n)"
    using s(2) trim_zeros_sub [of "fmt_0d 9 n"] digit_plain point by (auto simp: format_nanos_def list_all_iff)
  show "length (format_nanos n) \<le> 10" using length_trim_zeros [of "fmt_0d 9 n"] s(1) by (simp add: format_nanos_def)
qed

lemma format_time_text:
  assumes "0 \<le> fst (civil t)" and "fst (civil t) \<le> 9999"
  shows "list_all plain_char (format_time t)" and "length (format_time t) \<le> 30"
proof -
  obtain y m d hh mm ss n where form:
    "format_time t = fmt_0d 4 y @ ''-'' @ fmt_0d 2 m @ ''-'' @ fmt_0d 2 d @ ''T'' @ fmt_0d 2 hh @ '':'' @ fmt_0d 2 mm @ '':'' @ fmt_0d 2 ss @ format_nanos n @ ''Z''"
    and b: "0 \<le> y" "y \<le> 9999" "1 \<le> m" "m \<le> 12" "1 \<le> d" "d \<le> 31" "0 \<le> hh" "hh \<le> 23" "0 \<le> mm" "mm \<le> 59" "0 \<le> ss" "ss \<le> 59"
    and n: "0 \<le> n" "n < nsPerSecond" by (rule format_time_fields [OF assms])
  have digits: "list_all plain_char (fmt_0d w i)" if "0 \<le> i" "i < 10 ^ w" "0 < w" for w i
    using fmt_0d_fixed(3) [OF that] digit_plain by (auto simp: list_all_iff)
  have marks: "plain_char (CHR ''-'')" "plain_char (CHR ''T'')" "plain_char (CHR '':'')" "plain_char (CHR ''Z'')"
    by (rule plain_charI; simp)+
  show "list_all plain_char (format_time t)"
    using b format_nanos_text(1) [OF n] by (simp add: form marks digits)
  show "length (format_time t) \<le> 30"
    using b format_nanos_text(2) [OF n] by (simp add: form fmt_0d_fixed)
qed

lemma plain_document:
  assumes "list_all plain_char b" and "list_all plain_char (format_time (cp_CreatedAt p))" and "list_all plain_char (cp_ID p)"
  shows "decode_struct payload_fields (cursor_document b p) =
      Some [(''business_id'', SVal b), (''created_at'', SVal (format_time (cp_CreatedAt p))), (''id'', SVal (cp_ID p))]"
    and "length (cursor_document b p) = length b + length (format_time (cp_CreatedAt p)) + length (cp_ID p) + 42"
proof -
  have keys: "ValidString ''business_id''" "ValidString ''created_at''" "ValidString ''id''" by code_simp+
  have fields: "struct_field payload_fields ''business_id'' = Some (''business_id'', FString)"
    "struct_field payload_fields ''created_at'' = Some (''created_at'', FString)"
    "struct_field payload_fields ''id'' = Some (''id'', FString)" by code_simp+
  have "reads maxNestingDepth (cursor_document b p)
      (JObj [(''business_id'', JStr b), (''created_at'', JStr (format_time (cp_CreatedAt p))), (''id'', JStr (cp_ID p))])"
    unfolding cursor_document_def maxNestingDepth_def numeral_eq_Suc
    by (rule reads_object) (use keys assms json_escape_plain reads_string in auto)
  from reads_decode [OF this]
  show "decode_struct payload_fields (cursor_document b p) =
      Some [(''business_id'', SVal b), (''created_at'', SVal (format_time (cp_CreatedAt p))), (''id'', SVal (cp_ID p))]"
    by (simp add: decode_struct_def fields field_of_def)
  have "json_escape ''business_id'' = ''business_id''" "json_escape ''created_at'' = ''created_at''" "json_escape ''id'' = ''id''" by code_simp+
  then show "length (cursor_document b p) = length b + length (format_time (cp_CreatedAt p)) + length (cp_ID p) + 42"
    using assms json_escape_plain by (simp add: cursor_document_def json_object_def json_string_def del: json_escape.simps)
qed

lemma open_signed:
  assumes "document \<noteq> []"
  shows "open_token c (cursorVersion @ ''.'' @ base64_encode (string_bytes document) @ ''.'' @
      sign_cursor c (cursorVersion @ ''.'' @ base64_encode (string_bytes document))) = Some document"
proof -
  let ?b = "base64_encode (string_bytes document)"
  let ?m = "sign_cursor c (cursorVersion @ ''.'' @ ?b)"
  have v: "CHR ''.'' \<notin> set cursorVersion" by (simp add: cursorVersion_def)
  have "split_on (CHR ''.'') (cursorVersion @ ''.'' @ ?b @ ''.'' @ ?m) = [cursorVersion, ?b, ?m]"
    using base64_encode_plain v by (simp add: split_on_append split_on_plain sign_cursor_def)
  moreover have "length (hmac_sha256 (cd_key c) x) = 32" for x by (simp add: hmac_sha256_def Let_def)
  moreover have "?b \<noteq> []" using assms by (simp add: base64_encode_Nil string_bytes_def)
  moreover have "?m \<noteq> []" using calculation(2) by (metis sign_cursor_def base64_encode_Nil list.size(3) zero_neq_numeral)
  ultimately show ?thesis by (simp add: open_token_def sign_cursor_def base64_roundtrip)
qed

text \<open>A position that a row of the list can have.\<close>

definition codable :: "(string \<Rightarrow> bool) \<Rightarrow> string \<Rightarrow> position \<Rightarrow> bool" where
  "codable uuid_ok businessID p \<longleftrightarrow>
     uuid_ok businessID \<and> uuid_ok (cp_ID p) \<and> cp_CreatedAt p \<noteq> zero_time \<and> 0 \<le> fst (civil (cp_CreatedAt p)) \<and> fst (civil (cp_CreatedAt p)) \<le> 9999"

lemma cursor_roundtrip:
  assumes "uuid_contract uuid_ok" and "codable uuid_ok businessID p"
  obtains token where "cursor_Encode uuid_ok (Some c) businessID p = Inr token" and "cursor_Decode uuid_ok lenient (Some c) token businessID = Inr p"
proof -
  let ?d = "cursor_document businessID p"
  let ?in = "cursorVersion @ ''.'' @ base64_encode (string_bytes ?d)"
  let ?token = "?in @ ''.'' @ sign_cursor c ?in"
  have u: "uuid_ok businessID" "uuid_ok (cp_ID p)" "cp_CreatedAt p \<noteq> zero_time" "0 \<le> fst (civil (cp_CreatedAt p))" "fst (civil (cp_CreatedAt p)) \<le> 9999"
    using assms(2) by (simp_all add: codable_def)
  note time = format_time_text [OF u(4,5)]
  note doc = plain_document [OF uuid_plain(1) [OF assms(1) u(1)] time(1) uuid_plain(1) [OF assms(1) u(2)]]
  have "length ?d \<le> 162" using doc(2) time(2) uuid_plain(2) [OF assms(1) u(1)] uuid_plain(2) [OF assms(1) u(2)] by linarith
  moreover have "length (sign_cursor c ?in) = 43" by (simp add: sign_cursor_def length_base64_encode hmac_sha256_def Let_def)
  ultimately have len: "length ?token \<le> maxCursorLength" by (simp add: length_base64_encode cursorVersion_def maxCursorLength_def)
  have "cursor_Encode uuid_ok (Some c) businessID p = Inr ?token" using u len by (simp add: cursor_Encode_def Let_def)
  moreover have "?d \<noteq> []" using doc(2) by auto
  then have "open_token c ?token = Some ?d" using open_signed by simp
  moreover have "document_position uuid_ok lenient businessID ?d = Some p"
    using u parse_format_time [OF u(4,5)] by (simp add: document_position_def doc(1) string_field_def)
  ultimately show ?thesis using that len u(1) by (simp add: cursor_Decode_def cursorVersion_def)
qed

end
