(* ===== verification/Invoice_Listing.thy ===== *)
theory Invoice_Listing
  imports Invoice_Cursor Invoice_Store "HOL-Library.Product_Lexorder" "HOL-Library.List_Lexorder" "HOL-Library.Char_ord"
begin

text \<open>
  The list of invoices in pages: the query of \<open>invoice_repo.go\<close>, the service and the handler
  \<open>InvoiceHandler.List\<close> with its limit and its cursor. Identifiers are UUIDs in their canonical text,
  whose order is the order of the column. The codec is known to the handler as an interface;
  \<open>cursor_codec\<close> states what it relies on, and a client that follows the cursors is verified against it.
\<close>

section \<open>Repository and service\<close>

definition list_key :: "invoice \<Rightarrow> instant \<times> string" where
  "list_key i = (in_CreatedAt i, in_ID i)"

definition position_key :: "position \<Rightarrow> instant \<times> string" where
  "position_key p = (cp_CreatedAt p, cp_ID p)"

definition listed :: "string \<Rightarrow> position option \<Rightarrow> invoice \<Rightarrow> bool" where
  "listed businessID cursor i \<longleftrightarrow>
     in_BusinessID i = businessID \<and> \<not> in_Deleted i \<and>
     (case cursor of
        None \<Rightarrow> True
      | Some p \<Rightarrow> in_CreatedAt i < cp_CreatedAt p \<or> in_CreatedAt i = cp_CreatedAt p \<and> in_ID i < cp_ID p)"

definition page_of :: "string \<Rightarrow> position option \<Rightarrow> nat \<Rightarrow> invoice list \<Rightarrow> invoice list \<times> bool" where
  "page_of businessID cursor limit rows =
     (let invoices = take (limit + 1) (rev (sort_key list_key (filter (listed businessID cursor) rows)));
          hasMore = length invoices > limit
      in (if hasMore then take limit invoices else invoices, hasMore))"

definition ListByCursor :: "string \<Rightarrow> position option \<Rightarrow> nat \<Rightarrow> sales_db \<Rightarrow> (invoice list \<times> bool) option \<times> sales_db" where
  "ListByCursor businessID cursor limit s = external_call (\<lambda>s. (page_of businessID cursor limit (sb_invoices s), s)) s"

text \<open>The service fills in a missing version; the fields it decodes from JSON columns are not part of the row.\<close>

definition hydrateInvoiceEditorFields :: "invoice \<Rightarrow> invoice" where
  "hydrateInvoiceEditorFields i = (if in_Version i \<le> 0 then i\<lparr>in_Version := 1\<rparr> else i)"

definition InvoiceService_List :: "string \<Rightarrow> position option \<Rightarrow> nat \<Rightarrow> sales_db \<Rightarrow> (invoice list \<times> bool) option \<times> sales_db" where
  "InvoiceService_List businessID cursor limit s =
     (case ListByCursor businessID cursor limit s of
        (None, s') \<Rightarrow> (None, s')
      | (Some (invoices, hasMore), s') \<Rightarrow> (Some (map hydrateInvoiceEditorFields invoices, hasMore), s'))"

section \<open>Handler\<close>

record cursor_interface =
  ci_Encode :: "string \<Rightarrow> position \<Rightarrow> cursor_error + string"
  ci_Decode :: "string \<Rightarrow> string \<Rightarrow> cursor_error + position"

record list_request =
  lr_Business :: string
  lr_Page :: bool
  lr_Limit :: string
  lr_Cursor :: "string option"

datatype list_response = ListForbidden | ListBadRequest string | ListFailed | ListOK "invoice list" "string option"

definition parseInvoiceListLimit :: "string \<Rightarrow> int option" where
  "parseInvoiceListLimit raw =
     (if raw = [] then Some 20
      else if \<not> list_all is_digit raw then None
      else (case parse_int64 raw of
              None \<Rightarrow> None
            | Some limit \<Rightarrow> if limit \<le> 0 then None else if limit > 100 then Some 100 else Some limit))"

definition next_cursor :: "cursor_interface \<Rightarrow> string \<Rightarrow> invoice list \<Rightarrow> bool \<Rightarrow> list_response" where
  "next_cursor codec businessID invoices hasMore =
     (if hasMore \<and> invoices \<noteq> []
      then (case ci_Encode codec businessID \<lparr>cp_CreatedAt = in_CreatedAt (last invoices), cp_ID = in_ID (last invoices)\<rparr> of
              Inl _ \<Rightarrow> ListFailed
            | Inr token \<Rightarrow> ListOK invoices (Some token))
      else ListOK invoices None)"

definition InvoiceHandler_List :: "cursor_interface option \<Rightarrow> list_request \<Rightarrow> sales_db \<Rightarrow> list_response \<times> sales_db" where
  "InvoiceHandler_List cursor r s =
     (let businessID = lr_Business r in
      if businessID = [] then (ListForbidden, s)
      else if lr_Page r then (ListBadRequest ''page pagination is not supported'', s)
      else case parseInvoiceListLimit (lr_Limit r) of
        None \<Rightarrow> (ListBadRequest ''invalid limit'', s)
      | Some limit \<Rightarrow>
          (case cursor of
             None \<Rightarrow> (ListFailed, s)
           | Some codec \<Rightarrow>
               (case (case lr_Cursor r of None \<Rightarrow> Inr None | Some token \<Rightarrow> map_sum (\<lambda>e. e) Some (ci_Decode codec token businessID)) of
                  Inl ErrInvalidCursor \<Rightarrow> (ListBadRequest ''invalid cursor'', s)
                | Inl (CursorFailure _) \<Rightarrow> (ListFailed, s)
                | Inr position \<Rightarrow>
                    (case InvoiceService_List businessID position (nat limit) s of
                       (None, s') \<Rightarrow> (ListFailed, s')
                     | (Some (invoices, hasMore), s') \<Rightarrow> (next_cursor codec businessID invoices hasMore, s')))))"

text \<open>
  A client that follows the cursors, meeting the database in one state after the other: it repeats a
  request that failed and stops at a page without a cursor. The result says whether it got there.
\<close>

fun follow :: "cursor_interface \<Rightarrow> string \<Rightarrow> string \<Rightarrow> string option \<Rightarrow> sales_db list \<Rightarrow> invoice list \<times> bool" where
  "follow codec businessID limit cursor [] = ([], False)"
| "follow codec businessID limit cursor (s # ss) =
     (case fst (InvoiceHandler_List (Some codec) \<lparr>lr_Business = businessID, lr_Page = False, lr_Limit = limit, lr_Cursor = cursor\<rparr> s) of
        ListOK items None \<Rightarrow> (items, True)
      | ListOK items (Some token) \<Rightarrow> (case follow codec businessID limit (Some token) ss of (rest, finished) \<Rightarrow> (items @ rest, finished))
      | ListFailed \<Rightarrow> follow codec businessID limit cursor ss
      | _ \<Rightarrow> ([], False))"

section \<open>Pages\<close>

lemma parse_limit_bounds: "parseInvoiceListLimit raw = Some limit \<Longrightarrow> 1 \<le> limit \<and> limit \<le> 100"
  by (auto simp: parseInvoiceListLimit_def split: if_splits option.splits)

lemma listed_key:
  "listed b cursor i \<longleftrightarrow> in_BusinessID i = b \<and> \<not> in_Deleted i \<and> (\<forall>p. cursor = Some p \<longrightarrow> list_key i < position_key p)"
  by (auto simp: listed_def list_key_def position_key_def split: option.split)

text \<open>The rows of a business in the order of the list.\<close>

definition descending :: "invoice list \<Rightarrow> bool" where
  "descending xs \<longleftrightarrow> sorted_wrt (\<lambda>i j. list_key j < list_key i) xs"

definition selected :: "string \<Rightarrow> position option \<Rightarrow> invoice list \<Rightarrow> invoice list" where
  "selected b cursor rows = rev (sort_key list_key (filter (listed b cursor) rows))"

lemma selected_set: "set (selected b cursor rows) = {i \<in> set rows. listed b cursor i}"
  by (auto simp: selected_def)

lemma selected_descending:
  assumes "distinct (map in_ID rows)"
  shows "descending (selected b cursor rows)"
proof -
  have "distinct (map in_ID (filter (listed b cursor) rows))" using assms by (rule distinct_map_filter)
  then have "distinct (map list_key (filter (listed b cursor) rows))" by (auto simp: distinct_map list_key_def inj_on_def)
  then have "distinct (map list_key (sort_key list_key (filter (listed b cursor) rows)))"
    by (simp add: distinct_map inj_on_def)
  then have "sorted_wrt (<) (map list_key (sort_key list_key (filter (listed b cursor) rows)))"
    by (simp add: strict_sorted_iff)
  then show ?thesis by (simp add: descending_def selected_def sorted_wrt_map sorted_wrt_rev)
qed

lemma page_of_eq:
  "page_of b cursor limit rows = (take limit (selected b cursor rows), length (selected b cursor rows) > limit)"
  by (auto simp: page_of_def selected_def Let_def min_def)

lemma descending_unique:
  assumes "descending xs" and "descending ys" and "set xs = set ys"
  shows "xs = ys"
  using assms
proof (induction xs arbitrary: ys)
  case (Cons x xs)
  then obtain y ys' where ys: "ys = y # ys'" by (cases ys) auto
  have x: "\<forall>i \<in> set xs. list_key i < list_key x" and y: "\<forall>i \<in> set ys'. list_key i < list_key y"
    using Cons.prems(1,2) ys by (simp_all add: descending_def)
  have "x \<in> set (y # ys')" "y \<in> set (x # xs)" using Cons.prems(3) ys by auto
  then have eq: "x = y" using x y by (metis order.asym set_ConsD)
  moreover have "set xs = set ys'" using Cons.prems(3) x y ys eq by (metis insert_ident less_irrefl list.simps(15))
  ultimately show ?case using Cons ys by (simp add: descending_def)
qed simp

definition last_position :: "invoice list \<Rightarrow> position" where
  "last_position page = \<lparr>cp_CreatedAt = in_CreatedAt (last page), cp_ID = in_ID (last page)\<rparr>"

lemma last_position_key [simp]: "position_key (last_position page) = list_key (last page)"
  by (simp add: last_position_def position_key_def list_key_def)

text \<open>A full page, and what comes after it.\<close>

lemma page_split:
  assumes d: "distinct (map in_ID rows)" and limit: "0 < limit" and more: "length (selected b cursor rows) > limit"
  shows "take limit (selected b cursor rows) \<noteq> []"
    and "selected b cursor rows = take limit (selected b cursor rows) @ selected b (Some (last_position (take limit (selected b cursor rows)))) rows"
proof -
  let ?all = "selected b cursor rows" and ?page = "take limit (selected b cursor rows)"
  show ne: "?page \<noteq> []" using limit more by auto
  have desc: "descending ?all" by (rule selected_descending [OF d])
  then have parts: "descending (drop limit ?all)" "\<forall>i \<in> set ?page. \<forall>j \<in> set (drop limit ?all). list_key j < list_key i"
    and page: "descending ?page"
    unfolding descending_def by (metis append_take_drop_id sorted_wrt_append)+
  have last: "list_key (last ?page) \<le> list_key i" if "i \<in> set ?page" for i
  proof -
    have "descending (butlast ?page @ [last ?page])" using page ne by simp
    moreover have "i \<in> set (butlast ?page @ [last ?page])" using that ne by simp
    ultimately show ?thesis by (auto simp: descending_def sorted_wrt_append less_imp_le)
  qed
  have "i \<in> set (drop limit ?all) \<longleftrightarrow> i \<in> set (selected b (Some (last_position ?page)) rows)" for i
  proof
    assume i: "i \<in> set (drop limit ?all)"
    then have "i \<in> set ?all" by (rule in_set_dropD)
    moreover have "list_key i < list_key (last ?page)" using parts(2) i ne by simp
    ultimately show "i \<in> set (selected b (Some (last_position ?page)) rows)" by (simp add: selected_set listed_key)
  next
    assume i: "i \<in> set (selected b (Some (last_position ?page)) rows)"
    have "last ?page \<in> set ?all" using ne by (metis in_set_takeD last_in_set)
    then have l: "\<forall>p. cursor = Some p \<longrightarrow> list_key (last ?page) < position_key p" by (simp add: selected_set listed_key)
    from i have lt: "list_key i < list_key (last ?page)" by (simp add: selected_set listed_key)
    then have "i \<in> set ?all" using i l by (auto simp: selected_set listed_key intro: less_trans)
    moreover have "i \<notin> set ?page" using last lt by (metis not_less)
    ultimately show "i \<in> set (drop limit ?all)" by (metis UnE append_take_drop_id set_append)
  qed
  then have "set (drop limit ?all) = set (selected b (Some (last_position ?page)) rows)" by blast
  from descending_unique [OF parts(1) selected_descending [OF d] this]
  show "?all = ?page @ selected b (Some (last_position ?page)) rows" by (metis append_take_drop_id)
qed

section \<open>The codec as an interface\<close>

locale cursor_codec =
  fixes codec :: cursor_interface
    and good :: "string \<Rightarrow> position \<Rightarrow> bool"
  assumes roundtrip: "good b p \<Longrightarrow> \<exists>token. ci_Encode codec b p = Inr token \<and> ci_Decode codec token b = Inr p"
begin

text \<open>A token and the position it stands for.\<close>

definition stands_for :: "string \<Rightarrow> string option \<Rightarrow> position option \<Rightarrow> bool" where
  "stands_for b cursor p \<longleftrightarrow>
     (case cursor of None \<Rightarrow> p = None | Some token \<Rightarrow> (\<exists>q. p = Some q \<and> ci_Decode codec token b = Inr q))"

definition good_rows :: "string \<Rightarrow> invoice list \<Rightarrow> bool" where
  "good_rows b rows \<longleftrightarrow> distinct (map in_ID rows) \<and> (\<forall>i \<in> set rows. in_Version i \<ge> 1 \<and> good b \<lparr>cp_CreatedAt = in_CreatedAt i, cp_ID = in_ID i\<rparr>)"

definition ask :: "string \<Rightarrow> string \<Rightarrow> string option \<Rightarrow> list_request" where
  "ask b limit cursor = \<lparr>lr_Business = b, lr_Page = False, lr_Limit = limit, lr_Cursor = cursor\<rparr>"

lemma list_page:
  assumes "b \<noteq> []" and "parseInvoiceListLimit limit = Some n" and "stands_for b cursor p" and "good_rows b (sb_invoices s)"
    and resp: "fst (InvoiceHandler_List (Some codec) (ask b limit cursor) s) = resp"
  obtains "resp = ListFailed" and "fa_faults s \<noteq> []"
  | "resp = ListOK (selected b p (sb_invoices s)) None"
  | token where "resp = ListOK (take (nat n) (selected b p (sb_invoices s))) (Some token)" 
      and "length (selected b p (sb_invoices s)) > nat n"
      and "stands_for b (Some token) (Some (last_position (take (nat n) (selected b p (sb_invoices s)))))"
proof -
  let ?rows = "sb_invoices s" 
  have pos: "(case lr_Cursor (ask b limit cursor) of None \<Rightarrow> Inr None | Some token \<Rightarrow> map_sum (\<lambda>e. e) Some (ci_Decode codec token b)) = Inr p"
    using assms(3) by (auto simp: stands_for_def ask_def split: option.splits)
  have n: "0 < nat n" using parse_limit_bounds [OF assms(2)] by simp
  have hydrate: "map hydrateInvoiceEditorFields xs = xs" if "set xs \<subseteq> set ?rows" for xs
    using that assms(4) by (intro map_idI) (force simp: good_rows_def hydrateInvoiceEditorFields_def)
  obtain q t where call: "InvoiceService_List b p (nat n) s = (q, t)" by fastforce
  have r: "resp = (case q of None \<Rightarrow> ListFailed | Some (invoices, hasMore) \<Rightarrow> next_cursor codec b invoices hasMore)"
    using resp assms(1,2) pos call by (auto simp: InvoiceHandler_List_def ask_def Let_def split: option.splits)
  show ?thesis
  proof (cases q)
    case None
    then have "fa_faults s \<noteq> []" using call by (auto simp: InvoiceService_List_def ListByCursor_def call_without_faults split: prod.splits)
    then show ?thesis using that(1) r None by simp
  next
    case (Some v)
    let ?page = "take (nat n) (selected b p ?rows)"
    have rows: "set ?page \<subseteq> set ?rows" using set_take_subset selected_set by fastforce
    have v: "v = (?page, length (selected b p ?rows) > nat n)"
      using call Some hydrate [OF rows]
      by (auto simp: InvoiceService_List_def ListByCursor_def external_call_def page_of_eq split: prod.splits option.splits list.splits call_fault.splits)
    show ?thesis
    proof (cases "length (selected b p ?rows) > nat n")
      case False
      then show ?thesis using that(2) r Some v by (simp add: next_cursor_def)
    next
      case True
      then have ne: "?page \<noteq> []" using page_split(1) assms(4) n by (auto simp: good_rows_def)
      then have "last ?page \<in> set ?rows" using rows last_in_set by blast
      then have "good b (last_position ?page)" using assms(4) by (simp add: good_rows_def last_position_def)
      then obtain token where token: "ci_Encode codec b (last_position ?page) = Inr token" "ci_Decode codec token b = Inr (last_position ?page)"
        using roundtrip by blast
      then show ?thesis using that(3) r Some v True ne by (simp add: next_cursor_def last_position_def stands_for_def)
    qed
  qed
qed

lemma page_last:
  assumes "good_rows b rows" and "parseInvoiceListLimit limit = Some n" and "length (selected b p rows) > nat n"
  defines "page \<equiv> take (nat n) (selected b p rows)"
  shows "page \<noteq> []" and "descending page" and "selected b p rows = page @ selected b (Some (last_position page)) rows"
    and "i \<in> set page \<Longrightarrow> list_key (last page) \<le> list_key i" and "i \<in> set page \<Longrightarrow> i \<in> set rows \<and> listed b p i"
proof -
  have d: "distinct (map in_ID rows)" using assms(1) by (simp add: good_rows_def)
  have n: "0 < nat n" using parse_limit_bounds [OF assms(2)] by simp
  show ne: "page \<noteq> []" and "selected b p rows = page @ selected b (Some (last_position page)) rows"
    using page_split [OF d n assms(3)] by (simp_all add: page_def)
  show desc: "descending page" using selected_descending [OF d] unfolding page_def descending_def by (metis append_take_drop_id sorted_wrt_append)
  show "list_key (last page) \<le> list_key i" if "i \<in> set page"
  proof -
    have "descending (butlast page @ [last page])" "i \<in> set (butlast page @ [last page])" using desc ne that by simp_all
    then show ?thesis by (auto simp: descending_def sorted_wrt_append less_imp_le)
  qed
  show "i \<in> set rows \<and> listed b p i" if "i \<in> set page"
    using that selected_set by (fastforce simp: page_def dest: in_set_takeD)
qed

text \<open>
  What a client that follows the cursors has seen, if the table changes between its requests: rows in
  strict order, none twice, and when it finishes every row that was there all the time.
\<close>

lemma follow_changing:
  assumes "b \<noteq> []" and lim: "parseInvoiceListLimit limit = Some n"
    and "\<forall>s \<in> set ss. good_rows b (sb_invoices s)" and "stands_for b cursor p" and "follow codec b limit cursor ss = (items, finished)"
  shows "descending items \<and> (\<forall>i \<in> set items. listed b p i \<and> (\<exists>s \<in> set ss. i \<in> set (sb_invoices s))) \<and>
    (finished \<longrightarrow> (\<forall>k. (\<forall>s \<in> set ss. \<exists>i \<in> set (sb_invoices s). listed b p i \<and> list_key i = k) \<longrightarrow> k \<in> list_key ` set items))"
  using assms(3-5)
proof (induction ss arbitrary: cursor p items finished)
  case Nil
  then show ?case by (simp add: descending_def)
next
  case (Cons s ss)
  let ?rows = "sb_invoices s"
  have good: "good_rows b ?rows" and goods: "\<forall>s \<in> set ss. good_rows b (sb_invoices s)" using Cons.prems(1) by simp_all
  obtain resp where resp: "fst (InvoiceHandler_List (Some codec) (ask b limit cursor) s) = resp" by blast
  note step = Cons.prems(3) [unfolded follow.simps resp [unfolded ask_def]]
  from assms(1) lim Cons.prems(2) good resp show ?case
  proof (cases rule: list_page)
    case 1
    then have "follow codec b limit cursor ss = (items, finished)" using step by simp
    from Cons.IH [OF goods Cons.prems(2) this] show ?thesis by auto
  next
    case 2
    then have "items = selected b p ?rows" using step by simp
    then show ?thesis using selected_descending good by (auto simp: good_rows_def selected_set intro: rev_image_eqI)
  next
    case (3 token)
    let ?page = "take (nat n) (selected b p ?rows)"
    note page = page_last [OF good lim 3(2)]
    obtain rest where rest: "follow codec b limit (Some token) ss = (rest, finished)" "items = ?page @ rest"
      using step 3(1) by (auto split: prod.splits)
    note ih = Cons.IH [OF goods 3(3) rest(1)]
    have below: "\<forall>i \<in> set rest. list_key i < list_key (last ?page)" using ih by (auto simp: listed_key)
    have old: "\<forall>q. p = Some q \<longrightarrow> list_key (last ?page) < position_key q" using page(5) [of "last ?page"] page(1) by (simp add: listed_key)
    have "descending items"
      using page(2,4) below ih unfolding rest(2) descending_def sorted_wrt_append by (meson less_le_trans)
    moreover have "listed b p i \<and> (\<exists>s' \<in> set (s # ss). i \<in> set (sb_invoices s'))" if "i \<in> set items" for i
    proof (cases "i \<in> set ?page")
      case True
      then show ?thesis using page(5) by auto
    next
      case False
      then have "i \<in> set rest" using that rest(2) by simp
      then show ?thesis using ih old by (auto simp: listed_key intro: less_trans)
    qed
    moreover have "k \<in> list_key ` set items" if fin: "finished" and k: "\<forall>s' \<in> set (s # ss). \<exists>i \<in> set (sb_invoices s'). listed b p i \<and> list_key i = k" for k
    proof (cases "k \<in> list_key ` set ?page")
      case False
      obtain i where i: "i \<in> set ?rows" "listed b p i" "list_key i = k" using k by auto
      then have "i \<in> set (selected b p ?rows)" by (simp add: selected_set)
      then have "i \<in> set (?page @ selected b (Some (last_position ?page)) ?rows)" by (simp only: page(3) [symmetric])
      then have "k < list_key (last ?page)" using False i(3) by (auto simp: selected_set listed_key)
      then have "listed b (Some (last_position ?page)) i" if "listed b p i" "list_key i = k" for i
        using that by (simp add: listed_key)
      then have "\<forall>s' \<in> set ss. \<exists>i \<in> set (sb_invoices s'). listed b (Some (last_position ?page)) i \<and> list_key i = k"
        using k by (meson list.set_intros(2))
      then have "k \<in> list_key ` set rest" using ih fin by blast
      then show ?thesis using rest(2) by auto
    qed (use rest(2) in auto)
    ultimately show ?thesis by blast
  qed
qed

text \<open>On a table that does not change it gets the whole list, after at most as many requests as there are rows and one more.\<close>

lemma follow_unchanged:
  assumes "b \<noteq> []" and lim: "parseInvoiceListLimit limit = Some n" and good: "good_rows b rows"
    and "\<forall>s \<in> set ss. sb_invoices s = rows \<and> fa_faults s = []" and "stands_for b cursor p" and "length ss > length (selected b p rows)"
  shows "follow codec b limit cursor ss = (selected b p rows, True)"
  using assms(4-6)
proof (induction ss arbitrary: cursor p)
  case (Cons s ss)
  have s: "sb_invoices s = rows" "fa_faults s = []" and ss: "\<forall>s \<in> set ss. sb_invoices s = rows \<and> fa_faults s = []" using Cons.prems(1) by simp_all
  obtain resp where resp: "fst (InvoiceHandler_List (Some codec) (ask b limit cursor) s) = resp" by blast
  from assms(1) lim Cons.prems(2) good [folded s(1)] resp show ?case
  proof (cases rule: list_page)
    case 1
    then show ?thesis using s(2) by simp
  next
    case 2
    then show ?thesis using resp s(1) by (simp add: ask_def)
  next
    case (3 token)
    let ?page = "take (nat n) (selected b p rows)"
    note page = page_last [OF good lim 3(2) [unfolded s(1)]]
    have "length (selected b p rows) = length ?page + length (selected b (Some (last_position ?page)) rows)"
      using page(3) by (metis length_append)
    moreover have "0 < length ?page" using page(1) by blast
    moreover have "length (selected b p rows) \<le> length ss" using Cons.prems(3) by simp
    ultimately have "length ss > length (selected b (Some (last_position ?page)) rows)" by linarith
    then have "follow codec b limit (Some token) ss = (selected b (Some (last_position ?page)) rows, True)"
      using Cons.IH [OF ss] 3(3) s(1) by blast
    then show ?thesis using resp 3(1) page(3) s(1) by (simp add: ask_def)
  qed
qed simp

end

section \<open>The signed codec\<close>

definition signed_codec :: "(string \<Rightarrow> bool) \<Rightarrow> (string \<Rightarrow> instant option) \<Rightarrow> codec \<Rightarrow> cursor_interface" where
  "signed_codec uuid_ok lenient c = \<lparr>ci_Encode = cursor_Encode uuid_ok (Some c), ci_Decode = cursor_Decode uuid_ok lenient (Some c)\<rparr>"

interpretation signed: cursor_codec "signed_codec uuid_ok lenient c" "\<lambda>b p. uuid_contract uuid_ok \<and> codable uuid_ok b p"
  for uuid_ok lenient c
proof
  fix b p
  assume "uuid_contract uuid_ok \<and> codable uuid_ok b p"
  then obtain token where "cursor_Encode uuid_ok (Some c) b p = Inr token" "cursor_Decode uuid_ok lenient (Some c) token b = Inr p"
    using cursor_roundtrip by metis
  then show "\<exists>token. ci_Encode (signed_codec uuid_ok lenient c) b p = Inr token \<and> ci_Decode (signed_codec uuid_ok lenient c) token b = Inr p"
    by (simp add: signed_codec_def)
qed

end
