(* ===== verification/Cursor_Properties.thy ===== *)
theory Cursor_Properties
  imports Invoice_Listing Invoice_Examples
begin

text \<open>The results about the invoice list and its cursors.\<close>

section \<open>Tokens\<close>

text \<open>C32: A cursor decodes to the position it was made of: for a position with valid identifiers and a
  creation time of the years 0 to 9999 (other than the zero time, which the code rejects) encoding succeeds, and decoding the token for the same business
  gives the position back, to the nanosecond, whatever the signing key.\<close>

theorem cursor_names_its_position:
  assumes "uuid_contract uuid_ok" and "codable uuid_ok businessID p"
  shows "\<exists>token. cursor_Encode uuid_ok (Some c) businessID p = Inr token \<and> cursor_Decode uuid_ok lenient (Some c) token businessID = Inr p"
  using cursor_roundtrip [OF assms] by metis

lemma canonical_uuid_contract: "uuid_contract canonical_uuid"
proof -
  have "uuid_char c" if "canonical_uuid s" "c \<in> set s" for s c
    using canonical_uuid_chars [OF that] by (auto simp: uuid_char_def lower_hex_def is_digit_def Let_def)
  then show ?thesis by (auto simp: uuid_contract_def list_all_iff canonical_uuid_def)
qed

definition ex_position :: position where
  "ex_position = \<lparr>cp_CreatedAt = ex_date + 120000, cp_ID = ex_id CHR ''1''\<rparr>"

lemma ex_codable: "codable canonical_uuid (ex_id CHR ''b'') ex_position"
  by code_simp

theorem cursor_names_its_position_witness:
  "\<exists>token. cursor_Encode canonical_uuid (Some \<lparr>cd_key = replicate 32 7\<rparr>) (ex_id CHR ''b'') ex_position = Inr token \<and>
     cursor_Decode canonical_uuid (\<lambda>s. None) (Some \<lparr>cd_key = replicate 32 7\<rparr>) token (ex_id CHR ''b'') = Inr ex_position"
  by (rule cursor_names_its_position [OF canonical_uuid_contract ex_codable])

lemma join_split_on: "join_sep [sep] (split_on sep s) = s"
proof (induction s)
  case (Cons c s)
  have "split_on sep s \<noteq> []" by (induction s) (auto split: list.splits)
  then obtain t ts where "split_on sep s = t # ts" by (meson list.exhaust)
  then show ?case using Cons by (cases ts) auto
qed simp

text \<open>A token that is accepted was signed and belongs to the caller. It consists of the version, a body and
  a signature which is the HMAC-SHA-256 of version and body under the key of the codec, and the body is
  a JSON document of the business that asks, with the identifier and the time of the position returned.\<close>

theorem accepted_cursor_is_signed:
  assumes "cursor_Decode uuid_ok lenient c token businessID = Inr p"
  shows "\<exists>codec body mac document decoded.
    c = Some codec \<and> length token \<le> maxCursorLength \<and> token = ''v1.'' @ body @ ''.'' @ mac \<and>
    base64_decode mac = Some (hmac_sha256 (cd_key codec) (string_bytes (''v1.'' @ body))) \<and>
    base64_decode body = Some document \<and> decode_struct payload_fields (bytes_string document) = Some decoded \<and>
    string_field decoded ''business_id'' = businessID \<and> string_field decoded ''id'' = cp_ID p \<and> uuid_ok (cp_ID p) \<and>
    parse_time lenient (string_field decoded ''created_at'') = Some (cp_CreatedAt p)"
proof -
  obtain codec doc where c: "c = Some codec" and len: "length token \<le> maxCursorLength" and o: "open_token codec token = Some doc"
    and d: "document_position uuid_ok lenient businessID doc = Some p"
    using assms by (auto simp: cursor_Decode_def split: option.splits if_splits Option.bind_splits)
  obtain body mac document where s: "split_on (CHR ''.'') token = [cursorVersion, body, mac]" and b: "base64_decode body = Some document"
    and m: "base64_decode mac = Some (hmac_sha256 (cd_key codec) (string_bytes (cursorVersion @ ''.'' @ body)))" and doc: "doc = bytes_string document"
    using o by (auto simp: open_token_def split: list.splits option.splits if_splits)
  have "token = ''v1.'' @ body @ ''.'' @ mac" using join_split_on [of "CHR ''.''" token] by (simp add: s cursorVersion_def)
  moreover obtain decoded where "decode_struct payload_fields doc = Some decoded" "string_field decoded ''business_id'' = businessID"
    "string_field decoded ''id'' = cp_ID p" "uuid_ok (cp_ID p)" "parse_time lenient (string_field decoded ''created_at'') = Some (cp_CreatedAt p)"
    using d by (auto simp: document_position_def split: option.splits if_splits)
  ultimately show ?thesis using c len b m doc by (auto simp: cursorVersion_def)
qed

text \<open>A codec with a key of 32 bytes and the token it makes of the position.\<close>

definition ex_codec :: codec where "ex_codec = \<lparr>cd_key = replicate 32 7\<rparr>"

definition ex_token :: string where
  "ex_token = (case cursor_Encode canonical_uuid (Some ex_codec) (ex_id CHR ''b'') ex_position of Inr t \<Rightarrow> t | Inl _ \<Rightarrow> [])"

theorem accepted_cursor_is_signed_witness:
  "cursor_Decode canonical_uuid (\<lambda>s. None) (Some ex_codec) ex_token (ex_id CHR ''b'') = Inr ex_position \<and>
   (\<exists>body mac. ex_token = ''v1.'' @ body @ ''.'' @ mac \<and>
      base64_decode mac = Some (hmac_sha256 (replicate 32 7) (string_bytes (''v1.'' @ body))))"
proof -
  obtain t where "cursor_Encode canonical_uuid (Some ex_codec) (ex_id CHR ''b'') ex_position = Inr t"
    and "cursor_Decode canonical_uuid (\<lambda>s. None) (Some ex_codec) t (ex_id CHR ''b'') = Inr ex_position"
    by (rule cursor_roundtrip [OF canonical_uuid_contract ex_codable])
  then have d: "cursor_Decode canonical_uuid (\<lambda>s. None) (Some ex_codec) ex_token (ex_id CHR ''b'') = Inr ex_position"
    by (simp add: ex_token_def)
  from accepted_cursor_is_signed [OF d] show ?thesis using d by (auto simp: ex_codec_def)
qed

section \<open>Pages\<close>

lemma rows_good:
  assumes "uuid_contract uuid_ok" and "invoices_ok rows"
    and "\<forall>i \<in> set rows. codable uuid_ok businessID \<lparr>cp_CreatedAt = in_CreatedAt i, cp_ID = in_ID i\<rparr>"
  shows "signed.good_rows uuid_ok businessID rows"
  unfolding signed.good_rows_def using assms by (simp add: invoices_ok_def invoice_checks_def list_all_iff)

lemma unchanged_listing:
  assumes "uuid_contract uuid_ok" and "businessID \<noteq> []" and "parseInvoiceListLimit limit \<noteq> None" and "fa_faults s = []"
    and "invoices_ok (sb_invoices s)"
    and "\<forall>i \<in> set (sb_invoices s). codable uuid_ok businessID \<lparr>cp_CreatedAt = in_CreatedAt i, cp_ID = in_ID i\<rparr>"
    and "m > length (selected businessID None (sb_invoices s))"
  shows "follow (signed_codec uuid_ok lenient c) businessID limit None (replicate m s) = (selected businessID None (sb_invoices s), True)"
proof -
  obtain n where n: "parseInvoiceListLimit limit = Some n" using assms(3) by blast
  have good: "signed.good_rows uuid_ok businessID (sb_invoices s)" using rows_good assms(1,5,6) by blast
  have st: "signed.stands_for uuid_ok lenient c businessID None None" by (simp add: signed.stands_for_def)
  show ?thesis using signed.follow_unchanged [OF assms(2) n good _ st] assms(4,7) by simp
qed

text \<open>The example: two drafts in pages of one.\<close>

lemma ex_limit: "parseInvoiceListLimit ''1'' \<noteq> None"
  by code_simp

lemma ex_rows_ok: "invoices_ok (sb_invoices ex_drafts)" "fa_faults ex_drafts = []" "ex_id CHR ''b'' \<noteq> []"
  by code_simp+

lemma ex_rows_codable:
  "\<forall>i \<in> set (sb_invoices ex_drafts). codable canonical_uuid (ex_id CHR ''b'') \<lparr>cp_CreatedAt = in_CreatedAt i, cp_ID = in_ID i\<rparr>"
  by code_simp

lemma ex_selected: "selected (ex_id CHR ''b'') None (sb_invoices ex_drafts) = [ex_draft CHR ''2'', ex_draft CHR ''1'']"
  by code_simp

lemma ex_follow:
  "follow (signed_codec canonical_uuid (\<lambda>s. None) ex_codec) (ex_id CHR ''b'') ''1'' None (replicate 3 ex_drafts) = ([ex_draft CHR ''2'', ex_draft CHR ''1''], True)"
  using unchanged_listing [OF canonical_uuid_contract ex_rows_ok(3) ex_limit ex_rows_ok(2,1) ex_rows_codable, of 3] by (simp add: ex_selected)

text \<open>C33: Following the cursors is safe while the table changes. Let a client read page after page, each from a
  state the system can be in, repeating requests that failed. What it collects is strictly descending in creation
  time and identifier, so no invoice comes twice, and holds only undeleted invoices of the business. When it reaches
  the last page it has every invoice that was in the table throughout.\<close>

theorem listing_survives_changes:
  assumes "uuid_contract uuid_ok" and "businessID \<noteq> []" and "parseInvoiceListLimit limit \<noteq> None"
    and "\<forall>s \<in> set ss. sales_reachable env s"
    and "\<forall>s \<in> set ss. \<forall>i \<in> set (sb_invoices s). codable uuid_ok businessID \<lparr>cp_CreatedAt = in_CreatedAt i, cp_ID = in_ID i\<rparr>"
    and "follow (signed_codec uuid_ok lenient c) businessID limit None ss = (items, ended)"
  shows "sorted_wrt (\<lambda>i j. in_CreatedAt j < in_CreatedAt i \<or> in_CreatedAt j = in_CreatedAt i \<and> in_ID j < in_ID i) items \<and>
    (\<forall>i \<in> set items. in_BusinessID i = businessID \<and> \<not> in_Deleted i \<and> (\<exists>s \<in> set ss. i \<in> set (sb_invoices s))) \<and>
    (ended \<longrightarrow>
      (\<forall>rid at. (\<forall>s \<in> set ss. \<exists>i \<in> set (sb_invoices s). in_ID i = rid \<and> in_CreatedAt i = at \<and> in_BusinessID i = businessID \<and> \<not> in_Deleted i) \<longrightarrow>
         (\<exists>i \<in> set items. in_ID i = rid \<and> in_CreatedAt i = at)))"
proof -
  have ok: "\<forall>s \<in> set ss. signed.good_rows uuid_ok businessID (sb_invoices s)"
  proof
    fix s
    assume s: "s \<in> set ss"
    then have "invoices_ok (sb_invoices s)" using assms(4) sales_inv_reachable by (auto simp: sales_inv_def)
    then show "signed.good_rows uuid_ok businessID (sb_invoices s)" using rows_good assms(1,5) s by blast
  qed
  obtain n where n: "parseInvoiceListLimit limit = Some n" using assms(3) by blast
  have "signed.stands_for uuid_ok lenient c businessID None None" by (simp add: signed.stands_for_def)
  note f = signed.follow_changing [OF assms(2) n ok this assms(6)]
  have "sorted_wrt (\<lambda>i j. in_CreatedAt j < in_CreatedAt i \<or> in_CreatedAt j = in_CreatedAt i \<and> in_ID j < in_ID i) items"
    using f unfolding descending_def by (auto simp: list_key_def elim!: sorted_wrt_mono_rel [rotated])
  moreover have "\<forall>i \<in> set items. in_BusinessID i = businessID \<and> \<not> in_Deleted i \<and> (\<exists>s \<in> set ss. i \<in> set (sb_invoices s))"
    using f by (simp add: listed_def)
  moreover have "\<exists>i \<in> set items. in_ID i = rid \<and> in_CreatedAt i = at"
    if ended and there: "\<forall>s \<in> set ss. \<exists>i \<in> set (sb_invoices s). in_ID i = rid \<and> in_CreatedAt i = at \<and> in_BusinessID i = businessID \<and> \<not> in_Deleted i" for rid at
  proof -
    have "\<forall>s \<in> set ss. \<exists>i \<in> set (sb_invoices s). listed businessID None i \<and> list_key i = (at, rid)"
      using there by (auto simp: listed_def list_key_def)
    then have "(at, rid) \<in> list_key ` set items" using f \<open>ended\<close> by blast
    then show ?thesis by (auto simp: list_key_def)
  qed
  ultimately show ?thesis by blast
qed

theorem listing_survives_changes_witness:
  "\<exists>i \<in> set [ex_draft CHR ''2'', ex_draft CHR ''1'']. in_ID i = ex_id CHR ''1'' \<and> in_CreatedAt i = 1"
proof -
  have "\<forall>s \<in> set (replicate 3 ex_drafts). sales_reachable ex_issue_env s" using ex_drafts_reachable by simp
  moreover have "\<forall>s \<in> set (replicate 3 ex_drafts). \<forall>i \<in> set (sb_invoices s). codable canonical_uuid (ex_id CHR ''b'') \<lparr>cp_CreatedAt = in_CreatedAt i, cp_ID = in_ID i\<rparr>"
    using ex_rows_codable by simp
  moreover have "\<exists>i \<in> set (sb_invoices ex_drafts). in_ID i = ex_id CHR ''1'' \<and> in_CreatedAt i = 1 \<and> in_BusinessID i = ex_id CHR ''b'' \<and> \<not> in_Deleted i"
    by code_simp
  ultimately show ?thesis
    using listing_survives_changes [OF canonical_uuid_contract ex_rows_ok(3) ex_limit _ _ ex_follow] by simp
qed

text \<open>C34: On a table that does not change the cursors lead through the whole list and end. Whatever page size the limit asks
  for, a client of a database that answers gets, after at most one request more than there are invoices, exactly
  the undeleted invoices of the business, newest first.\<close>

theorem listing_is_complete:
  assumes "uuid_contract uuid_ok" and "businessID \<noteq> []" and "parseInvoiceListLimit limit \<noteq> None" and "fa_faults s = []"
    and "invoices_ok (sb_invoices s)"
    and "\<forall>i \<in> set (sb_invoices s). codable uuid_ok businessID \<lparr>cp_CreatedAt = in_CreatedAt i, cp_ID = in_ID i\<rparr>"
    and "m > length (filter (\<lambda>i. in_BusinessID i = businessID \<and> \<not> in_Deleted i) (sb_invoices s))"
  shows "follow (signed_codec uuid_ok lenient c) businessID limit None (replicate m s) =
    (rev (sort_key (\<lambda>i. (in_CreatedAt i, in_ID i)) (filter (\<lambda>i. in_BusinessID i = businessID \<and> \<not> in_Deleted i) (sb_invoices s))), True)"
proof -
  have sel: "selected businessID None (sb_invoices s) =
      rev (sort_key (\<lambda>i. (in_CreatedAt i, in_ID i)) (filter (\<lambda>i. in_BusinessID i = businessID \<and> \<not> in_Deleted i) (sb_invoices s)))"
    by (simp add: selected_def listed_def [abs_def] list_key_def [abs_def])
  show ?thesis using unchanged_listing [OF assms(1-6)] assms(7) by (simp add: sel)
qed

theorem listing_is_complete_witness:
  "follow (signed_codec canonical_uuid (\<lambda>s. None) ex_codec) (ex_id CHR ''b'') ''1'' None (replicate 3 ex_drafts) =
     (rev (sort_key (\<lambda>i. (in_CreatedAt i, in_ID i)) (filter (\<lambda>i. in_BusinessID i = ex_id CHR ''b'' \<and> \<not> in_Deleted i) (sb_invoices ex_drafts))), True)"
proof -
  have "3 > length (filter (\<lambda>i. in_BusinessID i = ex_id CHR ''b'' \<and> \<not> in_Deleted i) (sb_invoices ex_drafts))" by code_simp
  then show ?thesis by (rule listing_is_complete [OF canonical_uuid_contract ex_rows_ok(3) ex_limit ex_rows_ok(2,1) ex_rows_codable])
qed

end
