(* ===== verification/Turn_Fence.thy ===== *)
theory Turn_Fence
  imports Prelude Step_Systems
begin

text \<open>
  The generation fence of voice turns (\<open>internal/voice/turn/bargein.go\<close>). Every method takes the
  mutex for its change of state; what it has detached is cleaned up after the mutex was
  released. A method is therefore a function to its result, the new state and the calls of
  its clean-up. A TTS stream and a playback are known to the controller by a handle, the context
  of a turn by its generation. Which clean-up calls fail or panic is the argument \<open>fails\<close>; a
  callback that runs below the mutex acts on a state of its own.
\<close>

datatype turn_error =
    ErrTurnInterrupted | ErrVoiceGenerationClosed | ErrNoActiveVoiceGeneration | ErrStaleVoiceGeneration | ErrFutureVoiceGeneration
  | ErrVoiceGenerationOverflow | ErrVoiceGenerationCleanup | ErrTurnInProgress | ErrOrchestratorClosed | ErrOrchestratorContextRequired
  | ErrChatStreamerRequired | ErrTextHandlerRequired | ErrInvalidConversationContext | ErrInvalidVoiceMaxTokens | ErrInvalidTurnTimeout
  | ErrInvalidFinalTranscript | ErrFirstOutputTimeout | ErrGenerationTimeout | ErrSpeechLifecycleTimeout | ErrChatProtocol | ErrChatStream
  | ErrTextHandler | ErrToolRoundLimit | ErrToolCallLimit | ErrToolAuthorizationRefresh | ContextCanceled | OtherTurnError string

record bargein =
  bi_generation :: u64
  bi_active :: bool
  bi_reserved :: bool
  bi_closed :: bool
  bi_cancelLLM :: "u64 option"
  bi_tts :: "nat option"
  bi_cancelAudio :: "nat option"
  bi_staleGeneration :: u64
  bi_staleCause :: "turn_error option"
  bi_closeErr :: "turn_error option"

definition maxUint64 :: u64 where "maxUint64 = 2 ^ 64 - 1"

definition NewBargeInAfter :: "u64 \<Rightarrow> bargein" where
  "NewBargeInAfter lastGeneration =
     \<lparr>bi_generation = lastGeneration, bi_active = False, bi_reserved = False, bi_closed = False, bi_cancelLLM = None, bi_tts = None,
      bi_cancelAudio = None, bi_staleGeneration = 0, bi_staleCause = None, bi_closeErr = None\<rparr>"

definition NewBargeIn :: bargein where "NewBargeIn = NewBargeInAfter 0"

section \<open>Clean-up\<close>

datatype cleanup = CancelContext u64 "turn_error option" | CloseTTS nat | CancelAudio nat u64 turn_error

definition validateActiveLocked :: "u64 \<Rightarrow> bargein \<Rightarrow> turn_error option" where
  "validateActiveLocked g c =
     (if bi_closed c then Some ErrVoiceGenerationClosed
      else if g < bi_generation c then Some ErrStaleVoiceGeneration
      else if g > bi_generation c then Some ErrFutureVoiceGeneration
      else if g = 0 \<or> \<not> bi_active c then Some ErrNoActiveVoiceGeneration
      else None)"

definition detachLocked :: "bargein \<Rightarrow> (u64 option \<times> nat option \<times> nat option) \<times> bargein" where
  "detachLocked c = ((bi_cancelLLM c, bi_tts c, bi_cancelAudio c), c\<lparr>bi_cancelLLM := None, bi_tts := None, bi_cancelAudio := None\<rparr>)"

definition safeCloseGenerationResource :: "(cleanup \<Rightarrow> bool) \<Rightarrow> nat option \<Rightarrow> turn_error option \<times> cleanup list" where
  "safeCloseGenerationResource fails closer =
     (case closer of
        None \<Rightarrow> (None, [])
      | Some h \<Rightarrow> (if fails (CloseTTS h) then Some ErrVoiceGenerationCleanup else None, [CloseTTS h]))"

definition safeCancelGenerationAudio :: "(cleanup \<Rightarrow> bool) \<Rightarrow> nat option \<Rightarrow> u64 \<Rightarrow> turn_error \<Rightarrow> turn_error option \<times> cleanup list" where
  "safeCancelGenerationAudio fails cancel g cause =
     (case cancel of
        None \<Rightarrow> (None, [])
      | Some h \<Rightarrow> (if fails (CancelAudio h g cause) then Some ErrVoiceGenerationCleanup else None, [CancelAudio h g cause]))"

definition cancel_context :: "u64 option \<Rightarrow> turn_error option \<Rightarrow> cleanup list" where
  "cancel_context cancel cause = (case cancel of None \<Rightarrow> [] | Some h \<Rightarrow> [CancelContext h cause])"

definition runGenerationCleanup ::
    "(cleanup \<Rightarrow> bool) \<Rightarrow> u64 \<Rightarrow> turn_error \<Rightarrow> u64 option \<times> nat option \<times> nat option \<Rightarrow> turn_error option \<times> cleanup list" where
  "runGenerationCleanup fails g cause resources =
     (case resources of (cancel, closer, cancelAudio) \<Rightarrow>
        let (closed, cs) = safeCloseGenerationResource fails closer;
            (cancelled, as) = safeCancelGenerationAudio fails cancelAudio g cause
        in (if closed \<noteq> None \<or> cancelled \<noteq> None then Some ErrVoiceGenerationCleanup else None, cancel_context cancel (Some cause) @ cs @ as))"

section \<open>Methods\<close>

definition Begin :: "turn_error option \<Rightarrow> bargein \<Rightarrow> (turn_error + u64) \<times> bargein" where
  "Begin parentErr c =
     (if parentErr \<noteq> None then (Inl (the parentErr), c)
      else if bi_closed c then (Inl ErrVoiceGenerationClosed, c)
      else if bi_active c then (Inl ErrTurnInProgress, c)
      else if bi_generation c \<noteq> 0 \<and> \<not> bi_reserved c \<and> bi_generation c = maxUint64 then (Inl ErrVoiceGenerationOverflow, c)
      else let c1 = (if bi_generation c = 0 then c\<lparr>bi_generation := 1\<rparr>
                     else if bi_reserved c then c\<lparr>bi_reserved := False\<rparr>
                     else c\<lparr>bi_generation := bi_generation c + 1\<rparr>)
           in (Inr (bi_generation c1),
               c1\<lparr>bi_active := True, bi_cancelLLM := Some (bi_generation c1), bi_tts := None, bi_cancelAudio := None\<rparr>))"

definition BindTTS :: "(cleanup \<Rightarrow> bool) \<Rightarrow> u64 \<Rightarrow> nat option \<Rightarrow> bargein \<Rightarrow> turn_error option \<times> bargein \<times> cleanup list" where
  "BindTTS fails g closer c =
     (if closer = None then (Some ErrVoiceGenerationCleanup, c, [])
      else let err = (case validateActiveLocked g c of
                        None \<Rightarrow> if bi_tts c \<noteq> None then Some ErrVoiceGenerationCleanup else None
                      | Some e \<Rightarrow> Some e)
           in if err = None then (None, c\<lparr>bi_tts := closer\<rparr>, [])
              else (err, c, snd (safeCloseGenerationResource fails closer)))"

definition BindAudio :: "(cleanup \<Rightarrow> bool) \<Rightarrow> u64 \<Rightarrow> nat option \<Rightarrow> bargein \<Rightarrow> turn_error option \<times> bargein \<times> cleanup list" where
  "BindAudio fails g cancel c =
     (if cancel = None then (Some ErrVoiceGenerationCleanup, c, [])
      else let err = (case validateActiveLocked g c of
                        None \<Rightarrow> if bi_cancelAudio c \<noteq> None then Some ErrVoiceGenerationCleanup else None
                      | Some e \<Rightarrow> Some e)
           in case err of
                None \<Rightarrow> (None, c\<lparr>bi_cancelAudio := cancel\<rparr>, [])
              | Some e \<Rightarrow>
                  (let cause = (if g = bi_staleGeneration c \<and> bi_staleCause c \<noteq> None then the (bi_staleCause c) else e)
                   in (err, c, snd (safeCancelGenerationAudio fails cancel g cause))))"

text \<open>What a callback does to the state it acts on, and whether it returns an error or panics.\<close>

datatype callback_result = Returned "turn_error option" | Panicked

definition run_callback :: "('x \<Rightarrow> callback_result \<times> 'x) \<Rightarrow> 'x \<Rightarrow> turn_error option \<times> 'x" where
  "run_callback f x = (case f x of (Returned e, y) \<Rightarrow> (e, y) | (Panicked, y) \<Rightarrow> (Some ErrVoiceGenerationCleanup, y))"

definition WithGeneration :: "u64 \<Rightarrow> ('x \<Rightarrow> callback_result \<times> 'x) option \<Rightarrow> bargein \<Rightarrow> 'x \<Rightarrow> turn_error option \<times> 'x" where
  "WithGeneration g callback c x =
     (case callback of
        None \<Rightarrow> (Some ErrVoiceGenerationClosed, x)
      | Some f \<Rightarrow> (case validateActiveLocked g c of Some e \<Rightarrow> (Some e, x) | None \<Rightarrow> run_callback f x))"

definition Interrupt :: "(cleanup \<Rightarrow> bool) \<Rightarrow> u64 \<Rightarrow> bargein \<Rightarrow> (u64 \<times> turn_error option) \<times> bargein \<times> cleanup list" where
  "Interrupt fails g c =
     (case validateActiveLocked g c of
        Some e \<Rightarrow> ((bi_generation c, Some e), c, [])
      | None \<Rightarrow>
          if bi_generation c = maxUint64 then ((g, Some ErrVoiceGenerationOverflow), c, [])
          else let old = bi_generation c;
                   c1 = c\<lparr>bi_generation := old + 1, bi_active := False, bi_reserved := True, bi_staleGeneration := old, bi_staleCause := Some ErrTurnInterrupted\<rparr>;
                   (resources, c2) = detachLocked c1;
                   (err, calls) = runGenerationCleanup fails old ErrTurnInterrupted resources
               in ((bi_generation c2, err), c2, calls))"

definition retire :: "u64 \<Rightarrow> turn_error \<Rightarrow> bargein \<Rightarrow> bargein" where
  "retire g cause c = c\<lparr>bi_active := False, bi_reserved := False, bi_staleGeneration := g, bi_staleCause := Some cause\<rparr>"

definition CompleteWith ::
    "(cleanup \<Rightarrow> bool) \<Rightarrow> u64 \<Rightarrow> ('x \<Rightarrow> callback_result \<times> 'x) option \<Rightarrow> bargein \<Rightarrow> 'x \<Rightarrow> turn_error option \<times> bargein \<times> cleanup list \<times> 'x" where
  "CompleteWith fails g commit c x =
     (case validateActiveLocked g c of
        Some e \<Rightarrow> (Some e, c, [], x)
      | None \<Rightarrow>
          (case (case commit of None \<Rightarrow> (None, x) | Some f \<Rightarrow> run_callback f x) of
             (Some e, y) \<Rightarrow> (Some e, c, [], y)
           | (None, y) \<Rightarrow>
               (let ((cancel, closer, _), c2) = detachLocked (retire g ContextCanceled c);
                    (err, cs) = safeCloseGenerationResource fails closer
                in (err, c2, cancel_context cancel None @ cs, y))))"

definition Complete :: "(cleanup \<Rightarrow> bool) \<Rightarrow> u64 \<Rightarrow> bargein \<Rightarrow> turn_error option \<times> bargein \<times> cleanup list" where
  "Complete fails g c = (case CompleteWith fails g None c () of (e, c', calls, _) \<Rightarrow> (e, c', calls))"

definition Abort :: "(cleanup \<Rightarrow> bool) \<Rightarrow> u64 \<Rightarrow> turn_error option \<Rightarrow> bargein \<Rightarrow> turn_error option \<times> bargein \<times> cleanup list" where
  "Abort fails g cause c =
     (let why = (case cause of None \<Rightarrow> ErrVoiceGenerationCleanup | Some e \<Rightarrow> e) in
      case validateActiveLocked g c of
        Some e \<Rightarrow> (Some e, c, [])
      | None \<Rightarrow>
          (let (resources, c2) = detachLocked (retire g why c); (err, calls) = runGenerationCleanup fails g why resources
           in (err, c2, calls)))"

definition Current :: "bargein \<Rightarrow> u64" where "Current c = bi_generation c"

text \<open>The first call closes, later ones return its result.\<close>

definition CloseFence :: "(cleanup \<Rightarrow> bool) \<Rightarrow> bargein \<Rightarrow> turn_error option \<times> bargein \<times> cleanup list" where
  "CloseFence fails c =
     (if bi_closed c then (bi_closeErr c, c, [])
      else let g = bi_generation c;
               (resources, c2) = detachLocked (retire g ErrVoiceGenerationClosed (c\<lparr>bi_closed := True\<rparr>));
               (err, calls) = runGenerationCleanup fails g ErrVoiceGenerationClosed resources
           in (err, c2\<lparr>bi_closeErr := err\<rparr>, calls))"

end
