(* ===== verification/Turn_System.thy ===== *)
theory Turn_System
  imports Turn_Fence "HOL-Library.Multiset" "HOL-Library.Sublist"
begin

text \<open>
  The fence of \<open>Turn_Fence\<close> under concurrent callers. A step is one method up to the release of the
  mutex, or one clean-up call of a method that released it earlier. A log records what happens to
  the generations: admitted, callbacks run, turns committed, and how a generation ended.
\<close>

datatype turn_outcome = Interrupted | Completed | Aborted | Closed

datatype fence_event = Began u64 | Called u64 | Committed u64 | Ended u64 turn_outcome

fun subject :: "fence_event \<Rightarrow> u64" where
  "subject (Began g) = g"
| "subject (Called g) = g"
| "subject (Committed g) = g"
| "subject (Ended g _) = g"

record fence_state =
  fc :: bargein
  fc_pending :: "cleanup list"
  fc_made :: "cleanup list"
  fc_tts :: "nat list"
  fc_audio :: "nat list"
  fc_played :: "nat list"
  fc_log :: "fence_event list"

definition new_fence :: "u64 \<Rightarrow> fence_state" where
  "new_fence g0 = \<lparr>fc = NewBargeInAfter g0, fc_pending = [], fc_made = [], fc_tts = [], fc_audio = [], fc_played = [], fc_log = []\<rparr>"

text \<open>How a method that ends the active generation is logged.\<close>

definition ended :: "turn_outcome \<Rightarrow> bargein \<Rightarrow> bargein \<Rightarrow> fence_event list" where
  "ended how c c' = (if bi_active c \<and> \<not> bi_active c' then [Ended (bi_generation c) how] else [])"

definition opt :: "'a option \<Rightarrow> 'a list" where
  "opt x = (case x of None \<Rightarrow> [] | Some a \<Rightarrow> [a])"

text \<open>The commit of a turn appends to the log what it does to the memory of the conversation, if it succeeds.\<close>

definition commit_log :: "u64 \<Rightarrow> callback_result \<Rightarrow> fence_event list \<Rightarrow> callback_result \<times> fence_event list" where
  "commit_log g r l = (r, if r = Returned None then l @ [Committed g] else l)"

inductive fence_step :: "fence_state \<Rightarrow> fence_state \<Rightarrow> bool" where
  begin_turn: "Begin parentErr (fc s) = (r, c') \<Longrightarrow>
    fence_step s (s\<lparr>fc := c', fc_log := fc_log s @ (case r of Inl _ \<Rightarrow> [] | Inr g \<Rightarrow> [Began g])\<rparr>)"
| bind_tts: "h \<notin> set (fc_tts s) \<Longrightarrow> BindTTS fails g (Some h) (fc s) = (e, c', calls) \<Longrightarrow>
    fence_step s (s\<lparr>fc := c', fc_pending := fc_pending s @ calls, fc_tts := fc_tts s @ [h]\<rparr>)"
| bind_audio: "h \<notin> set (fc_audio s) \<Longrightarrow> BindAudio fails g (Some h) (fc s) = (e, c', calls) \<Longrightarrow>
    fence_step s (s\<lparr>fc := c', fc_pending := fc_pending s @ calls, fc_audio := fc_audio s @ [h]\<rparr>)"
| callback: "WithGeneration g (Some (\<lambda>l. (r, l @ [Called g]))) (fc s) (fc_log s) = (e, l) \<Longrightarrow>
    fence_step s (s\<lparr>fc_log := l\<rparr>)"
| interrupt: "Interrupt fails g (fc s) = (r, c', calls) \<Longrightarrow>
    fence_step s (s\<lparr>fc := c', fc_pending := fc_pending s @ calls, fc_log := fc_log s @ ended Interrupted (fc s) c'\<rparr>)"
| complete: "CompleteWith fails g (Some (commit_log g r)) (fc s) (fc_log s) = (e, c', calls, l) \<Longrightarrow>
    fence_step s (s\<lparr>fc := c', fc_pending := fc_pending s @ calls, fc_log := l @ ended Completed (fc s) c',
      fc_played := fc_played s @ (if bi_active (fc s) \<and> \<not> bi_active c' then opt (bi_cancelAudio (fc s)) else [])\<rparr>)"
| abort: "Abort fails g cause (fc s) = (e, c', calls) \<Longrightarrow>
    fence_step s (s\<lparr>fc := c', fc_pending := fc_pending s @ calls, fc_log := fc_log s @ ended Aborted (fc s) c'\<rparr>)"
| close: "CloseFence fails (fc s) = (e, c', calls) \<Longrightarrow>
    fence_step s (s\<lparr>fc := c', fc_pending := fc_pending s @ calls, fc_log := fc_log s @ ended Closed (fc s) c'\<rparr>)"
| cleanup_call: "fc_pending s = xs @ a # ys \<Longrightarrow> fence_step s (s\<lparr>fc_pending := xs @ ys, fc_made := fc_made s @ [a]\<rparr>)"

inductive fence_reachable :: "u64 \<Rightarrow> fence_state \<Rightarrow> bool" where
  init: "fence_reachable g0 (new_fence g0)"
| step: "fence_reachable g0 s \<Longrightarrow> fence_step s t \<Longrightarrow> fence_reachable g0 t"

section \<open>What the methods do\<close>

text \<open>The shape of the controller.\<close>

definition fence_ok :: "bargein \<Rightarrow> bool" where
  "fence_ok c \<longleftrightarrow>
     (bi_active c \<longrightarrow> \<not> bi_closed c \<and> \<not> bi_reserved c \<and> bi_generation c \<noteq> 0 \<and> bi_cancelLLM c = Some (bi_generation c)) \<and>
     (\<not> bi_active c \<longrightarrow> bi_cancelLLM c = None \<and> bi_tts c = None \<and> bi_cancelAudio c = None) \<and>
     (bi_reserved c \<longrightarrow> \<not> bi_closed c \<and> 1 < bi_generation c)"

fun contexts :: "cleanup list \<Rightarrow> u64 list" where
  "contexts [] = []"
| "contexts (CancelContext g _ # cs) = g # contexts cs"
| "contexts (_ # cs) = contexts cs"

fun closes :: "cleanup list \<Rightarrow> nat list" where
  "closes [] = []"
| "closes (CloseTTS h # cs) = h # closes cs"
| "closes (_ # cs) = closes cs"

fun cancels :: "cleanup list \<Rightarrow> nat list" where
  "cancels [] = []"
| "cancels (CancelAudio h _ _ # cs) = h # cancels cs"
| "cancels (_ # cs) = cancels cs"

lemma contexts_append [simp]: "contexts (xs @ ys) = contexts xs @ contexts ys"
  by (induction xs rule: contexts.induct) auto

lemma closes_append [simp]: "closes (xs @ ys) = closes xs @ closes ys"
  by (induction xs rule: closes.induct) auto

lemma cancels_append [simp]: "cancels (xs @ ys) = cancels xs @ cancels ys"
  by (induction xs rule: cancels.induct) auto

lemma cleanup_calls:
  assumes "runGenerationCleanup fails g cause (cancel, closer, audio) = (e, calls)"
  shows "contexts calls = opt cancel" and "closes calls = opt closer" and "cancels calls = opt audio"
  using assms
  by (auto simp: runGenerationCleanup_def safeCloseGenerationResource_def safeCancelGenerationAudio_def cancel_context_def opt_def Let_def split: option.splits)

lemma valid_active:
  "validateActiveLocked g c = None \<longleftrightarrow> \<not> bi_closed c \<and> g = bi_generation c \<and> g \<noteq> 0 \<and> bi_active c"
  by (auto simp: validateActiveLocked_def not_less)

lemma u64_succ:
  assumes "x \<noteq> maxUint64"
  shows "x < x + 1" and "x \<noteq> 0 \<Longrightarrow> 1 < x + 1"
proof -
  have "maxUint64 = - 1" by (simp add: maxUint64_def)
  then have "x \<noteq> - 1" using assms by simp
  then show lt: "x < x + 1" by (simp add: inc_less_eq_self_iff_eq flip: not_le)
  show "1 < x + 1" if "x \<noteq> 0"
    using lt that by (metis inc_le le_less_trans word_gt_0 add_0)
qed

lemma Begin_cases:
  assumes "Begin p c = (r, c')" and "fence_ok c"
  obtains e where "r = Inl e" and "c' = c"
  | g where "r = Inr g" and "\<not> bi_active c" and "fence_ok c'" and "bi_active c'" and "bi_generation c' = g"
      and "bi_reserved c \<longrightarrow> g = bi_generation c" and "\<not> bi_reserved c \<longrightarrow> bi_generation c < g" and "bi_tts c' = None" and "bi_cancelAudio c' = None"
proof (cases r)
  case (Inl e)
  then show ?thesis using assms(1) that(1) by (simp add: Begin_def Let_def split: if_splits)
next
  case (Inr g)
  have a: "\<not> bi_active c" "\<not> bi_closed c" and ok: "bi_generation c \<noteq> 0 \<Longrightarrow> \<not> bi_reserved c \<Longrightarrow> bi_generation c \<noteq> maxUint64"
    using assms(1) Inr by (auto simp: Begin_def split: if_splits)
  have c': "c' = (if bi_generation c = 0 then c\<lparr>bi_generation := 1\<rparr> else if bi_reserved c then c\<lparr>bi_reserved := False\<rparr> else c\<lparr>bi_generation := bi_generation c + 1\<rparr>)
      \<lparr>bi_active := True, bi_cancelLLM := Some g, bi_tts := None, bi_cancelAudio := None\<rparr>" and g: "bi_generation c' = g"
    using assms(1) Inr by (auto simp: Begin_def Let_def split: if_splits)
  have z: "bi_generation c = 0 \<Longrightarrow> \<not> bi_reserved c" using assms(2) by (auto simp: fence_ok_def)
  consider "bi_generation c = 0" | "bi_generation c \<noteq> 0" "bi_reserved c" | "bi_generation c \<noteq> 0" "\<not> bi_reserved c" by blast
  then have "g \<noteq> 0 \<and> (bi_reserved c \<longrightarrow> g = bi_generation c) \<and> (\<not> bi_reserved c \<longrightarrow> bi_generation c < g) \<and> \<not> bi_reserved c' \<and> \<not> bi_closed c'"
  proof cases
    case 1
    then show ?thesis using g z a by (simp add: c')
  next
    case 2
    then show ?thesis using g a by (simp add: c')
  next
    case 3
    have lt: "bi_generation c < bi_generation c + 1" by (rule u64_succ(1) [OF ok [OF 3]])
    then have "bi_generation c + 1 \<noteq> 0" by (metis word_not_simps(1))
    then show ?thesis using g a lt 3 by (simp add: c')
  qed
  then show ?thesis using that(2) [of g] Inr a g by (simp add: fence_ok_def c')
qed

text \<open>A method that ends the active generation detaches all it holds; so does closing, when nothing is active.\<close>

definition retires :: "bargein \<Rightarrow> bargein \<Rightarrow> cleanup list \<Rightarrow> nat list \<Rightarrow> bool" where
  "retires c c' calls played \<longleftrightarrow>
     fence_ok c' \<and> \<not> bi_active c' \<and> bi_generation c \<le> bi_generation c' \<and> (bi_reserved c' \<longrightarrow> bi_generation c < bi_generation c') \<and>
     contexts calls = opt (bi_cancelLLM c) \<and> closes calls = opt (bi_tts c) \<and> cancels calls @ played = opt (bi_cancelAudio c)"

lemma Interrupt_effect:
  assumes "Interrupt fails g c = (r, c', calls)" and "fence_ok c"
  obtains "c' = c" and "calls = []" | "retires c c' calls []"
proof (cases "validateActiveLocked g c = None \<and> bi_generation c \<noteq> maxUint64")
  case False
  then show ?thesis using assms(1) that(1) by (auto simp: Interrupt_def split: option.splits if_splits)
next
  case True
  obtain e where run: "runGenerationCleanup fails (bi_generation c) ErrTurnInterrupted (bi_cancelLLM c, bi_tts c, bi_cancelAudio c) = (e, calls)"
    and c': "c' = c\<lparr>bi_generation := bi_generation c + 1, bi_active := False, bi_reserved := True, bi_staleGeneration := bi_generation c,
      bi_staleCause := Some ErrTurnInterrupted, bi_cancelLLM := None, bi_tts := None, bi_cancelAudio := None\<rparr>"
    using assms(1) True by (auto simp: Interrupt_def detachLocked_def Let_def split: prod.splits)
  have "bi_generation c \<noteq> 0" "\<not> bi_closed c" using True by (auto simp: valid_active)
  then show ?thesis using that(2) u64_succ [of "bi_generation c"] True
    by (simp add: retires_def fence_ok_def cleanup_calls [OF run] c' less_imp_le)
qed

lemma detached:
  assumes "runGenerationCleanup fails g cause (bi_cancelLLM c, bi_tts c, bi_cancelAudio c) = (e, calls)"
    and "c' = snd (detachLocked (retire g cause c))\<lparr>bi_closed := b, bi_closeErr := x\<rparr>"
  shows "retires c c' calls []"
  by (simp add: retires_def fence_ok_def cleanup_calls [OF assms(1)] assms(2) detachLocked_def retire_def)

lemma Abort_effect:
  assumes "Abort fails g cause c = (e, c', calls)"
  obtains "c' = c" and "calls = []" | "retires c c' calls []"
proof (cases "validateActiveLocked g c")
  case (Some e')
  then show ?thesis using assms that(1) by (simp add: Abort_def)
next
  case None
  let ?why = "case cause of None \<Rightarrow> ErrVoiceGenerationCleanup | Some e \<Rightarrow> e"
  have run: "runGenerationCleanup fails g ?why (bi_cancelLLM c, bi_tts c, bi_cancelAudio c) = (e, calls)"
    and c': "c' = snd (detachLocked (retire g ?why c))\<lparr>bi_closed := bi_closed c, bi_closeErr := bi_closeErr c\<rparr>"
    using assms None by (auto simp: Abort_def detachLocked_def retire_def Let_def split: prod.splits)
  show ?thesis by (rule that(2) [OF detached [OF run c']])
qed

lemma CloseFence_effect:
  assumes "CloseFence fails c = (e, c', calls)"
  obtains "c' = c" and "calls = []" | "retires c c' calls []"
proof (cases "bi_closed c")
  case True
  then show ?thesis using assms that(1) by (simp add: CloseFence_def)
next
  case False
  have run: "runGenerationCleanup fails (bi_generation c) ErrVoiceGenerationClosed (bi_cancelLLM c, bi_tts c, bi_cancelAudio c) = (e, calls)"
    and c': "c' = snd (detachLocked (retire (bi_generation c) ErrVoiceGenerationClosed c))\<lparr>bi_closed := True, bi_closeErr := e\<rparr>"
    using assms False by (auto simp: CloseFence_def detachLocked_def retire_def Let_def split: prod.splits)
  show ?thesis by (rule that(2) [OF detached [OF run c']])
qed

lemma CompleteWith_effect:
  assumes "CompleteWith fails g commit c x = (e, c', calls, y)"
  obtains "c' = c" and "calls = []" and "validateActiveLocked g c \<noteq> None \<and> y = x \<or> (\<exists>f e. commit = Some f \<and> run_callback f x = (Some e, y))"
  | "validateActiveLocked g c = None" and "retires c c' calls (opt (bi_cancelAudio c))"
      and "(None, y) = (case commit of None \<Rightarrow> (None, x) | Some f \<Rightarrow> run_callback f x)"
proof (cases "validateActiveLocked g c")
  case (Some e')
  then have "c' = c" "calls = []" "y = x" using assms by (simp_all add: CompleteWith_def)
  then show ?thesis using Some that(1) by simp
next
  case None
  obtain q z where q: "(case commit of None \<Rightarrow> (None, x) | Some f \<Rightarrow> run_callback f x) = (q, z)" by fastforce
  show ?thesis
  proof (cases q)
    case (Some e')
    then show ?thesis using assms None q that(1) by (auto simp: CompleteWith_def split: option.splits)
  next
    case q': None
    obtain cs where run: "safeCloseGenerationResource fails (bi_tts c) = (e, cs)" and calls: "calls = cancel_context (bi_cancelLLM c) None @ cs"
      and c': "c' = snd (detachLocked (retire g ContextCanceled c))" and y: "y = z"
      using assms None q q' by (auto simp: CompleteWith_def detachLocked_def retire_def Let_def split: prod.splits)
    have "closes cs = opt (bi_tts c)" "cancels cs = []" "contexts cs = []"
      using run by (auto simp: safeCloseGenerationResource_def opt_def split: option.splits)
    moreover have "contexts (cancel_context (bi_cancelLLM c) None) = opt (bi_cancelLLM c)"
      "closes (cancel_context (bi_cancelLLM c) None) = []" "cancels (cancel_context (bi_cancelLLM c) None) = []"
      by (simp_all add: cancel_context_def opt_def split: option.splits)
    ultimately have "retires c c' calls (opt (bi_cancelAudio c))"
      by (simp add: retires_def fence_ok_def calls c' detachLocked_def retire_def)
    then show ?thesis using that(2) None q q' y by simp
  qed
qed

section \<open>Invariant\<close>

fun begun :: "fence_event list \<Rightarrow> u64 list" where
  "begun [] = []"
| "begun (Began g # l) = g # begun l"
| "begun (_ # l) = begun l"

fun ends :: "fence_event list \<Rightarrow> u64 list" where
  "ends [] = []"
| "ends (Ended g _ # l) = g # ends l"
| "ends (_ # l) = ends l"

lemma begun_append [simp]: "begun (xs @ ys) = begun xs @ begun ys"
  by (induction xs rule: begun.induct) auto

lemma ends_append [simp]: "ends (xs @ ys) = ends xs @ ends ys"
  by (induction xs rule: ends.induct) auto

lemma ends_set: "g \<in> set (ends l) \<longleftrightarrow> (\<exists>how. Ended g how \<in> set l)"
  by (induction l rule: ends.induct) auto

text \<open>Nothing of a generation comes after its end.\<close>

definition fenced_log :: "fence_event list \<Rightarrow> bool" where
  "fenced_log l \<longleftrightarrow> sorted_wrt (\<lambda>a b. \<forall>g how. a = Ended g how \<longrightarrow> subject b \<noteq> g) l"

lemma fenced_log_append:
  "fenced_log (l @ [e]) \<longleftrightarrow> fenced_log l \<and> subject e \<notin> set (ends l)"
  by (auto simp: fenced_log_def sorted_wrt_append ends_set)

definition log_inv :: "u64 \<Rightarrow> bargein \<Rightarrow> fence_event list \<Rightarrow> bool" where
  "log_inv g0 c l \<longleftrightarrow>
     g0 \<le> bi_generation c \<and> (bi_reserved c \<longrightarrow> g0 < bi_generation c) \<and> sorted_wrt (<) (begun l) \<and>
     (\<forall>g \<in> set (begun l). g0 < g \<and> g \<le> bi_generation c \<and> (bi_reserved c \<longrightarrow> g < bi_generation c)) \<and>
     (bi_active c \<longrightarrow> bi_generation c \<in> set (begun l)) \<and>
     distinct (ends l) \<and> set (ends l) = set (begun l) - (if bi_active c then {bi_generation c} else {}) \<and>
     fenced_log l \<and> (\<forall>e \<in> set l. subject e \<in> set (begun l)) \<and>
     (\<forall>g. Committed g \<in> set l \<longleftrightarrow> Ended g Completed \<in> set l)"

definition resources_inv :: "fence_state \<Rightarrow> bool" where
  "resources_inv s \<longleftrightarrow>
     mset (opt (bi_cancelLLM (fc s))) + mset (contexts (fc_pending s)) + mset (contexts (fc_made s)) = mset (begun (fc_log s)) \<and>
     mset (opt (bi_tts (fc s))) + mset (closes (fc_pending s)) + mset (closes (fc_made s)) = mset (fc_tts s) \<and>
     mset (opt (bi_cancelAudio (fc s))) + mset (cancels (fc_pending s)) + mset (cancels (fc_made s)) + mset (fc_played s) = mset (fc_audio s) \<and>
     distinct (fc_tts s) \<and> distinct (fc_audio s)"

definition turn_inv :: "u64 \<Rightarrow> fence_state \<Rightarrow> bool" where
  "turn_inv g0 s \<longleftrightarrow> fence_ok (fc s) \<and> log_inv g0 (fc s) (fc_log s) \<and> resources_inv s"

lemma retire_log:
  assumes inv: "log_inv g0 c l" and r: "retires c c' calls played"
    and extra: "bi_active c \<and> extra = (if how = Completed then [Committed (bi_generation c)] else []) \<or> \<not> bi_active c \<and> extra = []"
  shows "log_inv g0 c' (l @ extra @ ended how c c')"
proof (cases "bi_active c")
  case False
  then have "extra @ ended how c c' = []" using extra by (simp add: ended_def)
  moreover have "g \<le> bi_generation c' \<and> (bi_reserved c' \<longrightarrow> g < bi_generation c')" if "g \<le> bi_generation c" for g
    using r that by (auto simp: retires_def)
  ultimately show ?thesis using inv r False by (auto simp: log_inv_def retires_def)
next
  case True
  let ?g = "bi_generation c"
  have e: "ended how c c' = [Ended ?g how]" using True r by (simp add: ended_def retires_def)
  have x: "begun extra = []" "ends extra = []" and s: "\<forall>e \<in> set extra. subject e = ?g" using extra by (auto split: if_splits)
  have new: "?g \<notin> set (ends l)" "?g \<in> set (begun l)" "set (begun l) = insert ?g (set (ends l))" using inv True by (auto simp: log_inv_def)
  have "fenced_log (l @ extra)" using inv extra new(1) by (auto simp: log_inv_def fenced_log_append split: if_splits)
  then have "fenced_log ((l @ extra) @ [Ended ?g how])" unfolding fenced_log_append using x(2) new(1) by simp
  moreover have "g \<le> bi_generation c' \<and> (bi_reserved c' \<longrightarrow> g < bi_generation c')" if "g \<le> ?g" for g
    using r that by (auto simp: retires_def)
  moreover have "Committed ?g \<notin> set l" using inv new(1) by (auto simp: log_inv_def ends_set)
  ultimately show ?thesis using inv r new x s extra True
    by (auto simp: log_inv_def retires_def e split: if_splits)
qed

lemma begin_log:
  assumes inv: "log_inv g0 c l" and "fence_ok c" and "\<not> bi_active c" and "bi_active c'" and "\<not> bi_reserved c'" and "bi_generation c' = g"
    and "bi_reserved c \<longrightarrow> g = bi_generation c" and "\<not> bi_reserved c \<longrightarrow> bi_generation c < g"
  shows "log_inv g0 c' (l @ [Began g])"
proof -
  have less: "\<forall>h \<in> set (begun l). h < g" using inv assms(7,8) by (auto simp: log_inv_def)
  then have "g \<notin> set (ends l)" using inv assms(3) by (auto simp: log_inv_def)
  moreover have "g0 < g" using inv assms(7,8) by (cases "bi_reserved c") (auto simp: log_inv_def)
  ultimately show ?thesis using inv less assms(3-6)
    by (auto simp: log_inv_def fenced_log_append sorted_wrt_append less_imp_le)
qed

lemma call_log:
  assumes "log_inv g0 c l" and "validateActiveLocked g c = None"
  shows "log_inv g0 c (l @ [Called g])"
  using assms by (auto simp: log_inv_def valid_active fenced_log_append)

lemma retire_resources:
  assumes "resources_inv s" and "retires (fc s) c' calls played" and "begun l = begun (fc_log s)"
  shows "resources_inv (s\<lparr>fc := c', fc_pending := fc_pending s @ calls, fc_log := l, fc_played := fc_played s @ played\<rparr>)"
proof -
  have "opt (bi_cancelLLM c') = []" "opt (bi_tts c') = []" "opt (bi_cancelAudio c') = []"
    using assms(2) by (simp_all add: retires_def fence_ok_def opt_def)
  moreover have "mset (opt (bi_cancelAudio (fc s))) = mset (cancels calls) + mset played"
    using assms(2) by (metis mset_append retires_def)
  moreover have "contexts calls = opt (bi_cancelLLM (fc s))" "closes calls = opt (bi_tts (fc s))" using assms(2) by (simp_all add: retires_def)
  ultimately show ?thesis using assms(1,3) by (simp add: resources_inv_def ac_simps)
qed

text \<open>A method that refuses, or retires the active generation.\<close>

lemma retire_step:
  assumes "turn_inv g0 s" and "retires (fc s) c' calls []" and "how \<noteq> Completed"
  shows "turn_inv g0 (s\<lparr>fc := c', fc_pending := fc_pending s @ calls, fc_log := fc_log s @ ended how (fc s) c'\<rparr>)"
proof -
  have i: "fence_ok (fc s)" "log_inv g0 (fc s) (fc_log s)" "resources_inv s" using assms(1) by (simp_all add: turn_inv_def)
  have "log_inv g0 c' (fc_log s @ [] @ ended how (fc s) c')" by (rule retire_log [OF i(2) assms(2)]) (use assms(3) in auto)
  moreover have "begun (fc_log s @ ended how (fc s) c') = begun (fc_log s)" by (simp add: ended_def)
  from retire_resources [OF i(3) assms(2) this]
  have "resources_inv (s\<lparr>fc := c', fc_pending := fc_pending s @ calls, fc_log := fc_log s @ ended how (fc s) c'\<rparr>)" by simp
  ultimately show ?thesis using assms(2) by (simp add: turn_inv_def retires_def)
qed

lemma complete_step:
  assumes "turn_inv g0 s" and "retires (fc s) c' calls (opt (bi_cancelAudio (fc s)))" and "validateActiveLocked g (fc s) = None"
  shows "turn_inv g0 (s\<lparr>fc := c', fc_pending := fc_pending s @ calls, fc_log := (fc_log s @ [Committed g]) @ ended Completed (fc s) c',
      fc_played := fc_played s @ (if bi_active (fc s) \<and> \<not> bi_active c' then opt (bi_cancelAudio (fc s)) else [])\<rparr>)"
proof -
  have i: "log_inv g0 (fc s) (fc_log s)" "resources_inv s" using assms(1) by (simp_all add: turn_inv_def)
  have a: "bi_active (fc s)" "g = bi_generation (fc s)" "\<not> bi_active c'" using assms(2,3) by (auto simp: valid_active retires_def)
  have "log_inv g0 c' (fc_log s @ [Committed g] @ ended Completed (fc s) c')" by (rule retire_log [OF i(1) assms(2)]) (use a in auto)
  moreover have "begun ((fc_log s @ [Committed g]) @ ended Completed (fc s) c') = begun (fc_log s)" by (simp add: ended_def)
  note retire_resources [OF i(2) assms(2) this]
  ultimately show ?thesis using assms(2) a by (simp add: turn_inv_def retires_def)
qed

lemma refused_step:
  assumes "turn_inv g0 s"
  shows "turn_inv g0 (s\<lparr>fc := fc s, fc_pending := fc_pending s @ [], fc_log := fc_log s @ ended how (fc s) (fc s)\<rparr>)"
    and "turn_inv g0 (s\<lparr>fc := fc s, fc_pending := fc_pending s @ [], fc_log := fc_log s @ ended how (fc s) (fc s), fc_played := fc_played s @ []\<rparr>)"
  using assms by (simp_all add: ended_def)

lemma bind_resources:
  assumes "resources_inv s"
  shows "h \<notin> set (fc_tts s) \<Longrightarrow> bi_tts (fc s) = None \<Longrightarrow> resources_inv (s\<lparr>fc := (fc s)\<lparr>bi_tts := Some h\<rparr>, fc_tts := fc_tts s @ [h]\<rparr>)"
    and "h \<notin> set (fc_audio s) \<Longrightarrow> bi_cancelAudio (fc s) = None \<Longrightarrow> resources_inv (s\<lparr>fc := (fc s)\<lparr>bi_cancelAudio := Some h\<rparr>, fc_audio := fc_audio s @ [h]\<rparr>)"
    and "h \<notin> set (fc_tts s) \<Longrightarrow> resources_inv (s\<lparr>fc_pending := fc_pending s @ [CloseTTS h], fc_tts := fc_tts s @ [h]\<rparr>)"
    and "h \<notin> set (fc_audio s) \<Longrightarrow> resources_inv (s\<lparr>fc_pending := fc_pending s @ [CancelAudio h g e], fc_audio := fc_audio s @ [h]\<rparr>)"
  using assms by (auto simp: resources_inv_def opt_def ac_simps)

lemma turn_inv_step:
  assumes "fence_step s t" and "turn_inv g0 s"
  shows "turn_inv g0 t"
proof -
  have i: "fence_ok (fc s)" "log_inv g0 (fc s) (fc_log s)" "resources_inv s" using assms(2) by (simp_all add: turn_inv_def)
  from assms(1) show ?thesis
  proof cases
    case (begin_turn p r c')
    from begin_turn(2) i(1) show ?thesis
    proof (cases rule: Begin_cases)
      case (1 e)
      then show ?thesis using begin_turn(1) assms(2) by simp
    next
      case (2 g)
      have "\<not> bi_reserved c'" using 2(3,4) by (auto simp: fence_ok_def)
      then have "log_inv g0 c' (fc_log s @ [Began g])" using begin_log [OF i(2,1)] 2 by blast
      moreover have "bi_cancelLLM c' = Some g" "bi_cancelLLM (fc s) = None" "bi_tts (fc s) = None" "bi_cancelAudio (fc s) = None"
        using 2 i(1) by (auto simp: fence_ok_def)
      then have "resources_inv (s\<lparr>fc := c', fc_log := fc_log s @ [Began g]\<rparr>)"
        using i(3) 2(8,9) by (simp add: resources_inv_def opt_def)
      ultimately show ?thesis using begin_turn(1) 2(1,3) by (simp add: turn_inv_def)
    qed
  next
    case (interrupt fails g r c' calls)
    from interrupt(2) i(1) show ?thesis
      by (cases rule: Interrupt_effect) (use interrupt(1) refused_step(1) [OF assms(2)] retire_step [OF assms(2)] in simp_all)
  next
    case (abort fails g cause e c' calls)
    from abort(2) show ?thesis
      by (cases rule: Abort_effect) (use abort(1) refused_step(1) [OF assms(2)] retire_step [OF assms(2)] in simp_all)
  next
    case (close fails e c' calls)
    from close(2) show ?thesis
      by (cases rule: CloseFence_effect) (use close(1) refused_step(1) [OF assms(2)] retire_step [OF assms(2)] in simp_all)
  next
    case (cleanup_call xs a ys)
    have "resources_inv (s\<lparr>fc_pending := xs @ ys, fc_made := fc_made s @ [a]\<rparr>)"
      using i(3) cleanup_call(2) by (cases a) (auto simp: resources_inv_def ac_simps)
    then show ?thesis using cleanup_call(1) i by (simp add: turn_inv_def)
  next
    case (callback g r e l)
    show ?thesis
    proof (cases "validateActiveLocked g (fc s)")
      case None
      then have l: "l = fc_log s @ [Called g]" using callback(2) by (auto simp: WithGeneration_def run_callback_def split: callback_result.splits)
      have "resources_inv (s\<lparr>fc_log := l\<rparr>)" using i(3) by (simp add: resources_inv_def l)
      then show ?thesis using callback(1) i(1) call_log [OF i(2) None] by (simp add: turn_inv_def l)
    next
      case (Some e')
      then have "l = fc_log s" using callback(2) by (simp add: WithGeneration_def)
      then show ?thesis using callback(1) assms(2) by simp
    qed
  next
    case (complete fails g r e c' calls l)
    from complete(2) show ?thesis
    proof (cases rule: CompleteWith_effect)
      case 1
      then have "l = fc_log s" by (auto simp: run_callback_def commit_log_def split: callback_result.splits)
      then show ?thesis using complete(1) refused_step(2) [OF assms(2)] 1 by (simp add: ended_def)
    next
      case 2
      then have "l = fc_log s @ [Committed g]" by (auto simp: run_callback_def commit_log_def split: callback_result.splits)
      then show ?thesis using complete(1) complete_step [OF assms(2) 2(2,1)] by simp
    qed
  next
    case (bind_tts h fails g e c' calls)
    have ok: "fence_ok c'" "log_inv g0 c' (fc_log s)"
      using bind_tts(3) i by (auto simp: BindTTS_def Let_def fence_ok_def log_inv_def valid_active split: option.splits if_splits)
    consider "c' = (fc s)\<lparr>bi_tts := Some h\<rparr>" "calls = []" "bi_tts (fc s) = None" | "c' = fc s" "calls = [CloseTTS h]"
      using bind_tts(3) by (auto simp: BindTTS_def Let_def safeCloseGenerationResource_def split: option.splits if_splits)
    then show ?thesis by cases (use bind_tts(1,2) ok bind_resources [OF i(3)] in \<open>simp_all add: turn_inv_def\<close>)
  next
    case (bind_audio h fails g e c' calls)
    have ok: "fence_ok c'" "log_inv g0 c' (fc_log s)"
      using bind_audio(3) i by (auto simp: BindAudio_def Let_def fence_ok_def log_inv_def valid_active split: option.splits if_splits)
    consider "c' = (fc s)\<lparr>bi_cancelAudio := Some h\<rparr>" "calls = []" "bi_cancelAudio (fc s) = None" | e where "c' = fc s" "calls = [CancelAudio h g e]"
      using bind_audio(3) by (auto simp: BindAudio_def Let_def safeCancelGenerationAudio_def split: option.splits if_splits)
    then show ?thesis by cases (use bind_audio(1,2) ok bind_resources [OF i(3)] in \<open>simp_all add: turn_inv_def\<close>)
  qed
qed

text \<open>The log only grows, so what was reached along a run is still in it.\<close>

lemma log_grows:
  assumes "fence_step s t"
  shows "prefix (fc_log s) (fc_log t)"
  using assms
proof cases
  case (callback g r e l)
  then show ?thesis by (auto simp: WithGeneration_def run_callback_def split: option.splits callback_result.splits)
next
  case (complete fails g r e c' calls l)
  have "l = fc_log s \<or> l = fc_log s @ [Committed g]"
    using complete(2) by (cases rule: CompleteWith_effect) (auto simp: run_callback_def commit_log_def split: callback_result.splits if_splits)
  then show ?thesis using complete(1) by auto
qed simp_all

interpretation fence: step_system fence_step "turn_inv g0" "\<lambda>s t. prefix (fc_log s) (fc_log t)" for g0
  by unfold_locales (auto intro: turn_inv_step log_grows prefix_order.trans)

lemma turn_inv_reachable: "fence_reachable g0 s \<Longrightarrow> turn_inv g0 s"
proof (induction rule: fence_reachable.induct)
  case (init g0)
  show ?case
    by (simp add: turn_inv_def new_fence_def NewBargeInAfter_def fence_ok_def log_inv_def resources_inv_def fenced_log_def opt_def)
next
  case (step g0 s t)
  then show ?case using turn_inv_step by blast
qed

end
