(* ===== verification/Turn_Memory.thy ===== *)
theory Turn_Memory
  imports Turn_Orchestrator Turn_System
begin

text \<open>What the orchestrator promises of a turn: its work is bounded, what is spoken is what is remembered, and only a completed turn is.\<close>

section \<open>A round\<close>

lemma look_fields [simp]:
  "ru_requests (snd (look env r)) = ru_requests r" "ru_deltas (snd (look env r)) = ru_deltas r" "ru_tools (snd (look env r)) = ru_tools r"
  by (simp_all add: look_def)

lemma HandleChatEvent_run:
  assumes "HandleChatEvent env call (co, r) = (co', r')"
  shows "ru_requests r' = ru_requests r" and "ru_tools r' = ru_tools r"
    and "\<exists>ds. ru_deltas r' = ru_deltas r @ ds \<and> co_text co' = co_text co @ concat ds"
  using assms
  by (auto simp: HandleChatEvent_def handle_delta_def look_def Let_def split: if_splits chat_call.splits option.splits)

lemma collected_run:
  assumes "fold (HandleChatEvent env) calls (co, r) = (co', r')"
  shows "ru_requests r' = ru_requests r \<and> ru_tools r' = ru_tools r \<and>
    (\<exists>ds. ru_deltas r' = ru_deltas r @ ds \<and> co_text co' = co_text co @ concat ds)"
  using assms
proof (induction calls arbitrary: co r)
  case (Cons call calls)
  obtain co1 r1 where one: "HandleChatEvent env call (co, r) = (co1, r1)" by fastforce
  then have "fold (HandleChatEvent env) calls (co1, r1) = (co', r')" using Cons.prems by simp
  note ih = Cons.IH [OF this]
  obtain ds where "ru_deltas r1 = ru_deltas r @ ds" "co_text co1 = co_text co @ concat ds" using HandleChatEvent_run(3) [OF one] by blast
  moreover obtain es where "ru_deltas r' = ru_deltas r1 @ es" "co_text co' = co_text co1 @ concat es" using ih by blast
  ultimately have "ru_deltas r' = ru_deltas r @ (ds @ es)" "co_text co' = co_text co @ concat (ds @ es)" by simp_all
  then show ?case using ih HandleChatEvent_run(1,2) [OF one] by metis
qed simp

lemma chat_round_effect:
  assumes "chat_round env req res r = (q, res', r')"
  shows "ru_tools r' = ru_tools r"
    and "ru_requests r' = ru_requests r \<or> validVoiceChatRequest req \<and> ru_requests r' = ru_requests r @ [req]"
    and "q = Inr x \<Longrightarrow> concat (ru_deltas r') = concat (ru_deltas r) @ cx_Text x"
    and "q = Inr x \<Longrightarrow> cx_FinishReason x = ''stop'' \<or> cx_Text x = [] \<and> calls_of x \<noteq> []"
    and "tr_Text res' = tr_Text res \<and> tr_GenerationID res' = tr_GenerationID res \<and> tr_Transcript res' = tr_Transcript res"
proof -
  obtain c1 r1 where l: "look env r = (c1, r1)" by fastforce
  have r1: "ru_requests r1 = ru_requests r" "ru_deltas r1 = ru_deltas r" "ru_tools r1 = ru_tools r" using look_fields [of env r] by (simp_all add: l)
  consider (early) "r' = r1" "\<exists>e. q = Inl e" "res' = res" | (sent) calls answer co r2 where "validVoiceChatRequest req" "c1 = None"
      "te_stream env (length (ru_requests r1)) req = (calls, answer)"
      "fold (HandleChatEvent env) calls (empty_collector, r1\<lparr>ru_requests := ru_requests r1 @ [req]\<rparr>) = (co, r2)"
    using assms by (auto simp: chat_round_def l split: if_splits prod.splits)
  then have "ru_tools r' = ru_tools r \<and> (ru_requests r' = ru_requests r \<or> validVoiceChatRequest req \<and> ru_requests r' = ru_requests r @ [req]) \<and>
      (q = Inr x \<longrightarrow> concat (ru_deltas r') = concat (ru_deltas r) @ cx_Text x \<and> (cx_FinishReason x = ''stop'' \<or> cx_Text x = [] \<and> calls_of x \<noteq> [])) \<and>
      tr_Text res' = tr_Text res \<and> tr_GenerationID res' = tr_GenerationID res \<and> tr_Transcript res' = tr_Transcript res"
  proof cases
    case early
    then show ?thesis using r1 by auto
  next
    case sent
    obtain c3 r3 where l3: "look env r2 = (c3, r3)" by fastforce
    have r3: "ru_requests r3 = ru_requests r2" "ru_deltas r3 = ru_deltas r2" "ru_tools r3 = ru_tools r2" using look_fields [of env r2] by (simp_all add: l3)
    note col = collected_run [OF sent(4)]
    have d: "ru_requests r2 = ru_requests r @ [req]" "ru_tools r2 = ru_tools r" "concat (ru_deltas r2) = concat (ru_deltas r) @ co_text co"
      using col r1 by (auto simp: empty_collector_def)
    have "r' = r2 \<and> (\<exists>e. q = Inl e) \<or> r' = r3"
      using assms sent by (auto simp: chat_round_def l l3 Let_def split: if_splits option.splits)
    moreover have "q = Inr x \<longrightarrow> r' = r3 \<and> cx_Text x = co_text co \<and> (cx_FinishReason x = ''stop'' \<or> cx_Text x = [] \<and> calls_of x \<noteq> [])"
      using assms sent by (auto simp: chat_round_def l l3 Let_def split: if_splits option.splits)
    moreover have "tr_Text res' = tr_Text res \<and> tr_GenerationID res' = tr_GenerationID res \<and> tr_Transcript res' = tr_Transcript res"
      using assms sent by (auto simp: chat_round_def l l3 Let_def split: if_splits option.splits)
    ultimately show ?thesis using d r3 sent(1) by auto
  qed
  then show "ru_tools r' = ru_tools r" and "ru_requests r' = ru_requests r \<or> validVoiceChatRequest req \<and> ru_requests r' = ru_requests r @ [req]"
    and "q = Inr x \<Longrightarrow> concat (ru_deltas r') = concat (ru_deltas r) @ cx_Text x"
    and "q = Inr x \<Longrightarrow> cx_FinishReason x = ''stop'' \<or> cx_Text x = [] \<and> calls_of x \<noteq> []"
    and "tr_Text res' = tr_Text res \<and> tr_GenerationID res' = tr_GenerationID res \<and> tr_Transcript res' = tr_Transcript res" by blast+
qed

lemma run_tools_effect:
  assumes "run_tools env calls msgs res r = (q, res', r')"
  shows "ru_requests r' = ru_requests r \<and> ru_deltas r' = ru_deltas r \<and> length (ru_tools r') \<le> length (ru_tools r) + length calls \<and>
    tr_Text res' = tr_Text res \<and> tr_GenerationID res' = tr_GenerationID res \<and> tr_Transcript res' = tr_Transcript res"
  using assms
proof (induction env calls msgs res r rule: run_tools.induct)
  case (2 env c cs msgs res r)
  obtain cause r1 where l: "look env (r\<lparr>ru_tools := ru_tools r @ [c]\<rparr>) = (cause, r1)" by fastforce
  have r1: "ru_requests r1 = ru_requests r" "ru_deltas r1 = ru_deltas r" "ru_tools r1 = ru_tools r @ [c]"
    using look_fields [of env "r\<lparr>ru_tools := ru_tools r @ [c]\<rparr>"] by (simp_all add: l)
  show ?case
    using 2 r1 by (auto simp: l Let_def split: option.splits tool_answer.splits)
qed simp

lemma speech_stage_run:
  assumes "speech_stage env r = (e, r')"
  shows "ru_requests r' = ru_requests r" "ru_deltas r' = ru_deltas r" "ru_tools r' = ru_tools r"
  using assms by (auto simp: speech_stage_def look_def split: if_splits)

section \<open>The whole turn\<close>

lemma turn_loop_effect:
  assumes "turn_loop env rounds used req res r = (e, res', r')" and "rounds \<le> defaultMaxToolRounds" and "used \<le> defaultMaxToolCalls"
    and "concat (ru_deltas r) = []"
  shows "length (ru_requests r') + rounds \<le> length (ru_requests r) + defaultMaxToolRounds + 1 \<and>
    (\<forall>q \<in> set (ru_requests r'). q \<in> set (ru_requests r) \<or> validVoiceChatRequest q) \<and>
    length (ru_tools r') + used \<le> length (ru_tools r) + defaultMaxToolCalls \<and>
    (e = None \<longrightarrow> tr_Text res' = concat (ru_deltas r')) \<and> tr_GenerationID res' = tr_GenerationID res \<and> tr_Transcript res' = tr_Transcript res"
  using assms
proof (induction env rounds used req res r rule: turn_loop.induct)
  case (1 env rounds used req res r)
  obtain q res1 r1 where round: "chat_round env req res r = (q, res1, r1)" by (metis surj_pair)
  note eff = chat_round_effect [OF round]
  have req: "length (ru_requests r1) \<le> length (ru_requests r) + 1" "\<forall>p \<in> set (ru_requests r1). p \<in> set (ru_requests r) \<or> validVoiceChatRequest p"
    using eff(2) by auto
  show ?case
  proof (cases q)
    case (Inl e1)
    then show ?thesis using 1(2-5) round eff(1,5) req by (auto simp del: turn_loop.simps simp: turn_loop.simps [of env rounds])
  next
    case (Inr x)
    show ?thesis
    proof (cases "cx_FinishReason x = ''stop''")
      case True
      obtain e2 r2 where sp: "speech_stage env r1 = (e2, r2)" by fastforce
      have "e = e2" "res' = res1\<lparr>tr_Text := cx_Text x\<rparr>" "r' = r2"
        using 1(2) round Inr True sp by (auto simp del: turn_loop.simps simp: turn_loop.simps [of env rounds])
      then show ?thesis using speech_stage_run [OF sp] eff(1,5) eff(3) [OF Inr] req 1(3-5) by auto
    next
      case False
      let ?calls = "calls_of x"
      show ?thesis
      proof (cases "rounds \<ge> defaultMaxToolRounds \<or> length ?calls > defaultMaxToolCalls - used")
        case True
        then have "res' = res1 \<and> r' = r1 \<and> e \<noteq> None"
          using 1(2) round Inr False by (auto simp del: turn_loop.simps simp: turn_loop.simps [of env rounds] Let_def split: if_splits)
        then show ?thesis using eff(1,5) req 1(3-5) by auto
      next
        case go: False
        let ?msgs = "cr_Messages req @ [\<lparr>cm_Role = ''assistant'', cm_Content = cx_Text x, cm_ToolCallID = [], cm_ToolCalls = ?calls\<rparr>]"
        obtain q2 res2 r2 where tools: "run_tools env ?calls ?msgs res1 r1 = (q2, res2, r2)" by (metis surj_pair)
        note te = run_tools_effect [OF tools]
        show ?thesis
        proof (cases q2)
          case (Inl e2)
          then have "res' = res2 \<and> r' = r2 \<and> e \<noteq> None"
            using 1(2) round Inr False go tools by (auto simp del: turn_loop.simps simp: turn_loop.simps [of env rounds] Let_def split: if_splits)
          then show ?thesis using te eff(1,5) req go 1(3-5) by auto
        next
          case msgs: (Inr msgs)
          have rec: "turn_loop env (rounds + 1) (used + length ?calls) (req\<lparr>cr_Messages := msgs\<rparr>) res2 r2 = (e, res', r')"
            using 1(2) round Inr False go tools msgs by (auto simp del: turn_loop.simps simp: turn_loop.simps [of env rounds] Let_def split: if_splits)
          have none: "concat (ru_deltas r2) = []" using te eff(3) [OF Inr] eff(4) [OF Inr] False 1(5) by simp
          have fits: "used + length ?calls \<le> defaultMaxToolCalls" using go 1(4) by linarith
          have ih: "length (ru_requests r') + (rounds + 1) \<le> length (ru_requests r2) + defaultMaxToolRounds + 1 \<and>
              (\<forall>q \<in> set (ru_requests r'). q \<in> set (ru_requests r2) \<or> validVoiceChatRequest q) \<and>
              length (ru_tools r') + (used + length ?calls) \<le> length (ru_tools r2) + defaultMaxToolCalls \<and>
              (e = None \<longrightarrow> tr_Text res' = concat (ru_deltas r')) \<and> tr_GenerationID res' = tr_GenerationID res2 \<and> tr_Transcript res' = tr_Transcript res2"
            by (rule 1(1) [of "Inr x" "(res1, r1)" x res1 r1 ?calls "Inr msgs" "(res2, r2)" msgs res2 r2])
              (use round Inr False go tools msgs rec none fits 1(3) in \<open>simp_all del: turn_loop.simps\<close>)
          then show ?thesis using te eff(1,5) req by auto
        qed
      qed
    qed
  qed
qed

lemma turn_body_effect:
  assumes "turn_body env req res = (e, res', r')"
  shows "length (ru_requests r') \<le> defaultMaxToolRounds + 1" and "\<forall>q \<in> set (ru_requests r'). validVoiceChatRequest q"
    and "length (ru_tools r') \<le> defaultMaxToolCalls" and "e = None \<Longrightarrow> tr_Text res' = concat (ru_deltas r')"
    and "tr_GenerationID res' = tr_GenerationID res" and "tr_Transcript res' = tr_Transcript res"
proof -
  have all: "length (ru_requests r') \<le> defaultMaxToolRounds + 1 \<and> (\<forall>q \<in> set (ru_requests r'). validVoiceChatRequest q) \<and>
      length (ru_tools r') \<le> defaultMaxToolCalls \<and> (e = None \<longrightarrow> tr_Text res' = concat (ru_deltas r')) \<and>
      tr_GenerationID res' = tr_GenerationID res \<and> tr_Transcript res' = tr_Transcript res"
  proof (cases "te_ctx env 0 = None \<and> \<not> (te_lifecycle env \<and> te_begin_fails env)")
    case False
    then show ?thesis using assms by (auto simp: turn_body_def look_def new_run_def split: if_splits)
  next
    case True
    then have "turn_loop env 0 0 req res (new_run\<lparr>ru_looks := 1\<rparr>) = (e, res', r')"
      using assms by (auto simp del: turn_loop.simps simp: turn_body_def look_def new_run_def split: if_splits)
    from turn_loop_effect [OF this] show ?thesis by (simp add: new_run_def)
  qed
  then show "length (ru_requests r') \<le> defaultMaxToolRounds + 1" "\<forall>q \<in> set (ru_requests r'). validVoiceChatRequest q"
    "length (ru_tools r') \<le> defaultMaxToolCalls" "e = None \<Longrightarrow> tr_Text res' = concat (ru_deltas r')"
    "tr_GenerationID res' = tr_GenerationID res" "tr_Transcript res' = tr_Transcript res" by blast+
qed

section \<open>Handling a transcript\<close>

text \<open>An admitted turn: the stages of \<open>HandleFinal\<close>.\<close>

lemma abandon_window:
  assumes "abandon_turn fails env g r o1 = (o2, calls)"
  shows "or_window o2 = or_window o1"
  using assms by (auto simp: abandon_turn_def endTurn_def Let_def split: prod.splits)

lemma HandleFinal_cases:
  assumes "HandleFinal fails env meanwhile callerErr final o1 = (q, o2, r, calls)"
  obtains (refused) e where "q = Inl e" and "r = new_run" and "or_window o2 = or_window o1"
  | (failed) f g c1 e res where "turn_body env (first_request o1 (or_window o1) f) (new_result g f) = (Some e, res, r)" and "q = Inl e"
      and "or_window o2 = or_window (meanwhile (o1\<lparr>or_active := True, or_fence := c1\<rparr>))"
  | (committing) f g c1 res c3 calls1 o3 e where "normalizeFinalTranscript final = Inr f" and "Begin None (or_fence o1) = (Inr g, c1)"
      and "turn_body env (first_request o1 (or_window o1) f) (new_result g f) = (None, res, r)"
      and "CompleteWith fails g (Some (commitTurn (ft_Text f) (tr_Text res))) (or_fence (meanwhile (o1\<lparr>or_active := True, or_fence := c1\<rparr>)))
             (meanwhile (o1\<lparr>or_active := True, or_fence := c1\<rparr>)) = (e, c3, calls1, o3)"
      and "q = (case e of None \<Rightarrow> Inr res | Some x \<Rightarrow> Inl x)" and "or_window o2 = or_window o3"
proof (cases "callerErr = None \<and> (\<exists>f. normalizeFinalTranscript final = Inr f) \<and> (\<exists>w ob. beginTurn o1 = (Inr w, ob))")
  case False
  then show ?thesis using assms refused
    by (auto simp: HandleFinal_def beginTurn_def split: option.splits sum.splits if_splits)
next
  case True
  then obtain f where f: "callerErr = None" "normalizeFinalTranscript final = Inr f" by blast
  have b: "beginTurn o1 = (Inr (or_window o1), o1\<lparr>or_active := True\<rparr>)" "or_ctx o1 = None"
    using True by (auto simp: beginTurn_def split: if_splits)
  obtain x c1 where begin': "Begin None (or_fence o1) = (x, c1)" by fastforce
  show ?thesis
  proof (cases x)
    case (Inl e)
    then show ?thesis using assms refused f b begin' by (auto simp: HandleFinal_def endTurn_def)
  next
    case (Inr g)
    let ?o2 = "o1\<lparr>or_active := True, or_fence := c1\<rparr>"
    have req: "first_request ?o2 (or_window o1) f = first_request o1 (or_window o1) f" by (simp add: first_request_def)
    obtain e res r1 where body: "turn_body env (first_request o1 (or_window o1) f) (new_result g f) = (e, res, r1)" by (metis surj_pair)
    show ?thesis
    proof (cases e)
      case (Some e1)
      then show ?thesis using assms f b begin' Inr req body abandon_window failed [of f g e1 res c1]
        by (auto simp: HandleFinal_def Let_def split: prod.splits)
    next
      case None
      obtain e3 c3 calls1 o3 where done': "CompleteWith fails g (Some (commitTurn (ft_Text f) (tr_Text res))) (or_fence (meanwhile ?o2)) (meanwhile ?o2) = (e3, c3, calls1, o3)"
        by (metis surj_pair)
      have "r = r1 \<and> q = (case e3 of None \<Rightarrow> Inr res | Some x \<Rightarrow> Inl x) \<and> or_window o2 = or_window o3"
        using assms f b begin' Inr req body None done' abandon_window
        by (cases e3) (auto simp: HandleFinal_def Let_def endTurn_def split: prod.splits)
      then show ?thesis using committing [of f g c1 res e3 c3 calls1 o3] f(2) begin' Inr body None done' by simp
    qed
  qed
qed

text \<open>A commit changes the window if the turn completes, and is then reported unless closing the speech stream fails.\<close>

lemma commit_outcome:
  assumes "CompleteWith fails g (Some (commitTurn u a)) c x = (e, c', calls, y)"
  shows "or_window y = or_window x \<and> e \<noteq> None \<or>
    bi_active c \<and> e \<in> {None, Some ErrVoiceGenerationCleanup} \<and>
    or_window y = (or_window x)\<lparr>cw_Turns := newest_turns (cw_Turns (or_window x) @ [\<lparr>ct_User = u, ct_Assistant = a\<rparr>])\<rparr>"
proof (cases "validateActiveLocked g c = None \<and> \<not> or_closed x \<and> or_ctx x = None")
  case False
  then show ?thesis using assms by (auto simp: CompleteWith_def run_callback_def commitTurn_def split: option.splits if_splits)
next
  case True
  then have "bi_active c" by (simp add: valid_active)
  then show ?thesis using assms True
    by (auto simp: CompleteWith_def run_callback_def commitTurn_def safeCloseGenerationResource_def Let_def split: option.splits prod.splits if_splits)
qed

lemma normalized_text: "normalizeFinalTranscript final = Inr f \<Longrightarrow> ft_Text f = TrimSpace (ft_Text final)"
  by (auto simp: normalizeFinalTranscript_def Let_def split: if_splits option.splits float_value.splits)

lemma add_sizes_sum: "used \<le> maxVoicePromptBytes \<Longrightarrow> add_sizes used ns \<longleftrightarrow> used + sum_list ns \<le> maxVoicePromptBytes"
  by (induction ns arbitrary: used) auto

lemma valid_request_size: "validVoiceChatRequest q \<Longrightarrow> sum_list (request_sizes q) \<le> maxVoicePromptBytes"
  by (simp add: validVoiceChatRequest_def add_sizes_sum)

text \<open>The messages of a turn contain the window.\<close>

definition turns_size :: "completed_turn list \<Rightarrow> nat" where
  "turns_size ts = sum_list (map (\<lambda>t. length (ct_User t) + length (ct_Assistant t)) ts)"

lemma turn_messages_size:
  "turns_size ts \<le> sum_list (concat (map (\<lambda>m. (length (cm_Role m) + length (cm_Content m) + length (cm_ToolCallID m)) # map call_size (cm_ToolCalls m))
     (concat (map (\<lambda>t. [text_message ''user'' (ct_User t), text_message ''assistant'' (ct_Assistant t)]) ts))))"
  by (induction ts) (simp_all add: turns_size_def text_message_def)

lemma first_request_size: "turns_size (cw_Turns w) \<le> sum_list (request_sizes (first_request o1 w f))"
  using turn_messages_size [of "cw_Turns w"] by (simp add: request_sizes_def first_request_def buildVoiceMessages_def)

lemma oversized_body:
  assumes "\<not> validVoiceChatRequest req"
  shows "\<exists>e res' r. turn_body env req res = (Some e, res', r) \<and> ru_requests r = []"
  using assms
  by (auto simp: turn_body_def look_def new_run_def chat_round_def turn_loop.simps [of env 0] simp del: turn_loop.simps)

end
