(* ===== verification/Turn_Examples.thy ===== *)
theory Turn_Examples
  imports Turn_Memory Go_Json_Facts
begin

text \<open>Turns in surroundings where nothing fails, for the concrete instances of the properties: the language model answers each transcript with one text.\<close>

definition plain_env :: "string \<Rightarrow> turn_env" where
  "plain_env t =
     \<lparr>te_ctx = (\<lambda>_. None), te_lifecycle = False, te_begin_fails = False,
      te_stream = (\<lambda>n req. ([ChatEvent None t None], Some \<lparr>cx_Text = t, cx_ToolCalls = None, cx_Usage = zero_usage, cx_FinishReason = ''stop''\<rparr>)),
      te_delta = (\<lambda>_. False), te_tool = (\<lambda>_ _. ToolFailed), te_complete_fails = False, te_speech = None\<rparr>"

definition ex_quiet :: "cleanup \<Rightarrow> bool" where "ex_quiet = (\<lambda>_. False)"

lemma plain_body:
  assumes "validVoiceChatRequest req" and "TrimSpace t \<noteq> []" and "validPromptText t maxAssistantTextBytes False" and "tr_Usage res = zero_usage"
  obtains r where "turn_body (plain_env t) req res = (None, res\<lparr>tr_Text := t\<rparr>, r)" and "ru_deltas r = [t]" and "ru_requests r = [req]"
proof -
  have t: "t \<noteq> []" "length t \<le> maxAssistantTextBytes" using assms(2,3) by (auto simp: TrimSpace_def validPromptText_def)
  have u: "addChatUsage zero_usage zero_usage = Some zero_usage" by code_simp
  have res: "res\<lparr>tr_Usage := zero_usage, tr_Text := t\<rparr> = res\<lparr>tr_Text := t\<rparr>" using assms(4) by simp
  have "\<exists>r. turn_body (plain_env t) req res = (None, res\<lparr>tr_Text := t\<rparr>, r) \<and> ru_deltas r = [t] \<and> ru_requests r = [req]"
    using assms t u res
    by (simp add: turn_body_def look_def new_run_def plain_env_def turn_loop.simps [of _ 0 0] chat_round_def HandleChatEvent_def handle_delta_def empty_collector_def
        equalToolCalls_def calls_of_def speech_stage_def Let_def del: turn_loop.simps)
  then show ?thesis using that by blast
qed

text \<open>An orchestrator between two turns.\<close>

definition idle :: "nat \<Rightarrow> orchestrator \<Rightarrow> bool" where
  "idle n o1 \<longleftrightarrow>
     \<not> or_active o1 \<and> \<not> or_closed o1 \<and> or_ctx o1 = None \<and> or_maxTokens o1 = 180 \<and> or_definitions o1 = [] \<and>
     bi_generation (or_fence o1) = of_nat n \<and> \<not> bi_active (or_fence o1) \<and> \<not> bi_closed (or_fence o1) \<and> \<not> bi_reserved (or_fence o1) \<and>
     bi_tts (or_fence o1) = None \<and> bi_cancelAudio (or_fence o1) = None"

lemma plain_turn:
  assumes "idle n o1" and "n < 100" and "normalizeFinalTranscript final = Inr f"
    and "validVoiceChatRequest (first_request o1 (or_window o1) f)" and "TrimSpace t \<noteq> []" and "validPromptText t maxAssistantTextBytes False"
  obtains o2 r calls where "HandleFinal ex_quiet (plain_env t) (\<lambda>x. x) None final o1 = (Inr ((new_result (of_nat (Suc n)) f)\<lparr>tr_Text := t\<rparr>), o2, r, calls)" 
    and "idle (Suc n) o2" and "ru_deltas r = [t]"
    and "or_window o2 = (or_window o1)\<lparr>cw_Turns := newest_turns (cw_Turns (or_window o1) @ [\<lparr>ct_User = ft_Text f, ct_Assistant = t\<rparr>])\<rparr>"
proof -
  have "unat (of_nat n :: u64) = n" using assms(2) by (simp add: unat_of_nat)
  then have n: "(of_nat n :: u64) \<noteq> maxUint64" using assms(2) by (auto simp: maxUint64_def)
  let ?c = "or_fence o1" and ?g = "of_nat (Suc n) :: u64"
  let ?c1 = "?c\<lparr>bi_generation := ?g, bi_active := True, bi_cancelLLM := Some ?g\<rparr>"
  have c: "bi_generation ?c = of_nat n" "\<not> bi_active ?c" "\<not> bi_closed ?c" "\<not> bi_reserved ?c" "bi_tts ?c = None" "bi_cancelAudio ?c = None"
    and o: "\<not> or_active o1" "\<not> or_closed o1" "or_ctx o1 = None" using assms(1) by (simp_all add: idle_def)
  have b: "Begin None ?c = (Inr ?g, ?c1)"
    using n c by (auto simp: Begin_def Let_def)
  have g: "?g \<noteq> 0" using assms(2) by (simp add: word_of_nat_eq_0_iff del: of_nat_Suc) (auto dest: dvd_imp_le)
  obtain r where body: "turn_body (plain_env t) (first_request o1 (or_window o1) f) (new_result ?g f) = (None, (new_result ?g f)\<lparr>tr_Text := t\<rparr>, r)" "ru_deltas r = [t]"
    using plain_body [OF assms(4-6), of "new_result ?g f"] by (auto simp: new_result_def)
  let ?o = "o1\<lparr>or_active := True, or_fence := ?c1\<rparr>"
  let ?w = "(or_window o1)\<lparr>cw_Turns := newest_turns (cw_Turns (or_window o1) @ [\<lparr>ct_User = ft_Text f, ct_Assistant = t\<rparr>])\<rparr>"
  let ?c3 = "?c1\<lparr>bi_active := False, bi_reserved := False, bi_staleGeneration := ?g, bi_staleCause := Some ContextCanceled, bi_cancelLLM := None, bi_tts := None, bi_cancelAudio := None\<rparr>"
  have v: "validateActiveLocked ?g ?c1 = None" using c g by (simp add: validateActiveLocked_def del: of_nat_Suc)
  have complete: "CompleteWith ex_quiet ?g (Some (commitTurn (ft_Text f) t)) ?c1 ?o = (None, ?c3, [CancelContext ?g None], ?o\<lparr>or_window := ?w\<rparr>)"
    using o c by (simp add: CompleteWith_def v run_callback_def commitTurn_def detachLocked_def retire_def safeCloseGenerationResource_def cancel_context_def Let_def del: of_nat_Suc)
  have "beginTurn o1 = (Inr (or_window o1), o1\<lparr>or_active := True\<rparr>)" using o by (simp add: beginTurn_def)
  moreover have "first_request ?o (or_window o1) f = first_request o1 (or_window o1) f" by (simp add: first_request_def)
  ultimately have "HandleFinal ex_quiet (plain_env t) (\<lambda>x. x) None final o1 =
      (Inr ((new_result ?g f)\<lparr>tr_Text := t\<rparr>), endTurn ((?o\<lparr>or_window := ?w\<rparr>)\<lparr>or_fence := ?c3\<rparr>), r, [CancelContext ?g None])"
    using assms(3) o b body(1) complete by (simp add: HandleFinal_def Let_def del: of_nat_Suc)
  moreover have "idle (Suc n) (endTurn ((?o\<lparr>or_window := ?w\<rparr>)\<lparr>or_fence := ?c3\<rparr>))"
    using assms(1) by (simp add: idle_def endTurn_def del: of_nat_Suc)
  ultimately show ?thesis using that body(2) by (simp add: endTurn_def del: of_nat_Suc)
qed

section \<open>Three long turns\<close>

lemma replicate_letter:
  assumes "97 \<le> (of_char c :: nat)" and "of_char c \<le> (122 :: nat)"
  shows "TrimSpace (replicate n c) = replicate n c" and "n \<le> m \<Longrightarrow> 0 < n \<Longrightarrow> validPromptText (replicate n c) m b"
proof -
  have sp: "\<not> is_space c" using assms by (auto simp: is_space_def)
  then have "dropWhile is_space (replicate n c) = replicate n c" for n by (cases n) simp_all
  then show trim: "TrimSpace (replicate n c) = replicate n c" by (simp add: TrimSpace_def)
  have "ValidString (replicate n c)" using assms by (induction n) simp_all
  moreover have "prompt_char c" using assms by (auto simp: prompt_char_def Let_def)
  ultimately show "n \<le> m \<Longrightarrow> 0 < n \<Longrightarrow> validPromptText (replicate n c) m b" using trim by (simp add: validPromptText_def list_all_iff)
qed

definition ex_config :: orchestrator_config where
  "ex_config =
     \<lparr>oc_ContextErr = None, oc_HasChat = True, oc_HasHandler = True, oc_Definitions = Some [],
      oc_Window = \<lparr>cw_SystemPolicy = ''Be brief.'', cw_BusinessContext = ''Acme'', cw_Summary = [], cw_Turns = []\<rparr>, oc_BargeIn = None, oc_MaxTokens = 0,
      oc_FirstOutputTimeout = 0, oc_TotalTimeout = 0, oc_SpeechTimeout = 0\<rparr>"

definition ex_orchestrator :: orchestrator where
  "ex_orchestrator =
     \<lparr>or_ctx = None, or_definitions = [], or_window = oc_Window ex_config, or_fence = NewBargeIn, or_maxTokens = 180, or_active = False, or_closed = False\<rparr>"

lemma ex_orchestrator_new: "NewOrchestrator ex_config = Inr ex_orchestrator"
  by code_simp

lemma ex_idle: "idle 0 ex_orchestrator"
  by code_simp

definition ex_long :: final_transcript where
  "ex_long = \<lparr>ft_Text = replicate 16384 CHR ''a'', ft_ProviderLanguage = [], ft_DetectedLanguage = [], ft_ResponseLanguage = ''en-IN'', ft_LanguageProbability = None\<rparr>"

definition ex_reply :: string where "ex_reply = replicate 32768 CHR ''b''"

lemma ex_long_normal: "normalizeFinalTranscript ex_long = Inr ex_long"
proof -
  have "validPromptText [] maxProviderLanguageBytes False" "supportedResponseLanguage ''en-IN''" by code_simp+
  then show ?thesis
    using replicate_letter [of "CHR ''a''" 16384]
    by (simp add: normalizeFinalTranscript_def ex_long_def Let_def MaxFinalTranscriptBytes_def)
qed

lemma ex_reply_ok: "TrimSpace ex_reply \<noteq> []" "validPromptText ex_reply maxAssistantTextBytes False" "length ex_reply = 32768"
  using replicate_letter [of "CHR ''b''" 32768] by (simp_all add: ex_reply_def maxAssistantTextBytes_def)

definition ex_turn :: completed_turn where "ex_turn = \<lparr>ct_User = ft_Text ex_long, ct_Assistant = ex_reply\<rparr>"

lemma ex_request_valid:
  assumes "idle n o1" and "or_window o1 = (oc_Window ex_config)\<lparr>cw_Turns := replicate k ex_turn\<rparr>" and "k \<le> 2"
  shows "validVoiceChatRequest (first_request o1 (or_window o1) ex_long)"
proof -
  have "or_maxTokens o1 = 180" "or_definitions o1 = []" using assms(1) by (simp_all add: idle_def)
  moreover have "k \<in> {0, 1, 2}" using assms(3) by auto
  then have "sum_list (request_sizes (first_request o1 (or_window o1) ex_long)) \<le> maxVoicePromptBytes"
    using calculation assms(2)
    by (auto simp: request_sizes_def first_request_def buildVoiceMessages_def text_message_def ex_config_def ex_turn_def ex_reply_def ex_long_def
        line_break_def maxVoicePromptBytes_def numeral_2_eq_2)
  ultimately show ?thesis
    by (simp add: validVoiceChatRequest_def add_sizes_sum first_request_def buildVoiceMessages_def MinVoiceMaxTokens_def MaxVoiceMaxTokens_def)
qed

lemma ex_next_turn:
  assumes "idle n o1" and "n < 100" and "or_window o1 = (oc_Window ex_config)\<lparr>cw_Turns := replicate k ex_turn\<rparr>" and "k \<le> 2"
  obtains res o2 r calls where "HandleFinal ex_quiet (plain_env ex_reply) (\<lambda>x. x) None ex_long o1 = (Inr res, o2, r, calls)"
    and "idle (Suc n) o2" and "or_window o2 = (oc_Window ex_config)\<lparr>cw_Turns := replicate (Suc k) ex_turn\<rparr>"
proof -
  have new: "newest_turns (replicate k ex_turn @ [ex_turn]) = replicate (Suc k) ex_turn"
    using assms(4) by (simp add: newest_turns_def MaxConversationTurns_def replicate_append_same)
  obtain o2 r calls where t: "HandleFinal ex_quiet (plain_env ex_reply) (\<lambda>x. x) None ex_long o1 = (Inr ((new_result (of_nat (Suc n)) ex_long)\<lparr>tr_Text := ex_reply\<rparr>), o2, r, calls)"
    "idle (Suc n) o2" "or_window o2 = (or_window o1)\<lparr>cw_Turns := newest_turns (cw_Turns (or_window o1) @ [\<lparr>ct_User = ft_Text ex_long, ct_Assistant = ex_reply\<rparr>])\<rparr>"
    by (rule plain_turn [OF assms(1,2) ex_long_normal ex_request_valid [OF assms(1,3,4)] ex_reply_ok(1,2)])
  have "or_window o2 = (oc_Window ex_config)\<lparr>cw_Turns := replicate (Suc k) ex_turn\<rparr>"
    using new by (simp add: t(3) assms(3) del: replicate.simps flip: ex_turn_def)
  then show ?thesis using that t(1,2) by blast
qed

text \<open>After three such turns the window is larger than a request may be.\<close>

definition long_turn :: "orchestrator \<Rightarrow> orchestrator \<Rightarrow> bool" where
  "long_turn o1 o2 \<longleftrightarrow> (\<exists>res r calls. HandleFinal ex_quiet (plain_env ex_reply) (\<lambda>x. x) None ex_long o1 = (Inr res, o2, r, calls))"

lemma ex_three_turns:
  obtains o1 o2 o3 where "long_turn ex_orchestrator o1" and "long_turn o1 o2" and "long_turn o2 o3"
    and "turns_size (cw_Turns (or_window o3)) > maxVoicePromptBytes"
proof -
  have w: "or_window ex_orchestrator = (oc_Window ex_config)\<lparr>cw_Turns := replicate 0 ex_turn\<rparr>" by (simp add: ex_orchestrator_def ex_config_def)
  obtain o1 where o1: "long_turn ex_orchestrator o1" "idle 1 o1" "or_window o1 = (oc_Window ex_config)\<lparr>cw_Turns := replicate 1 ex_turn\<rparr>"
    using ex_next_turn [OF ex_idle _ w] by (metis One_nat_def long_turn_def zero_less_numeral zero_le)
  obtain o2 where o2: "long_turn o1 o2" "idle 2 o2" "or_window o2 = (oc_Window ex_config)\<lparr>cw_Turns := replicate 2 ex_turn\<rparr>"
    using ex_next_turn [OF o1(2) _ o1(3)] by (metis Suc_1 long_turn_def one_le_numeral one_less_numeral_iff semiring_norm(76) num.distinct(1) numeral_One)
  obtain o3 where o3: "long_turn o2 o3" "or_window o3 = (oc_Window ex_config)\<lparr>cw_Turns := replicate 3 ex_turn\<rparr>"
    using ex_next_turn [OF o2(2) _ o2(3)] by (metis numeral_3_eq_3 Suc_1 numeral_2_eq_2 long_turn_def order_refl numeral_less_iff semiring_norm(76,78,80))
  have "turns_size (cw_Turns (or_window o3)) > maxVoicePromptBytes"
    by (simp add: o3(2) numeral_3_eq_3 turns_size_def ex_turn_def ex_long_def ex_reply_def maxVoicePromptBytes_def)
  then show ?thesis using that o1(1) o2(1) o3(1) by blast
qed

end
