(* ===== verification/Turn_Properties.thy ===== *)
theory Turn_Properties
  imports Turn_Examples
begin

text \<open>The results about turn taking: the generation fence and the turns that run behind it.\<close>

section \<open>The fence\<close>

text \<open>C21: A generation that ended stays silent. However callers interleave, once a generation was interrupted, completed,
  aborted or closed, nothing of it happens any more: no callback runs under it, it is not committed, not begun
  again and does not end a second time.\<close>

theorem ended_generation_stays_silent:
  assumes "fence_reachable g0 s" and "Ended g how \<in> set (fc_log s)" and "fence_step\<^sup>*\<^sup>* s t"
  shows "filter (\<lambda>e. subject e = g) (fc_log t) = filter (\<lambda>e. subject e = g) (fc_log s)"
proof -
  have inv: "turn_inv g0 s" by (rule turn_inv_reachable [OF assms(1)])
  have "fenced_log (fc_log t)" using fence.run(1) [OF assms(3) inv] by (simp add: turn_inv_def log_inv_def)
  moreover obtain after where "fc_log t = fc_log s @ after" using fence.run(2) [OF assms(3) inv] by (auto elim: prefixE)
  ultimately show ?thesis using assms(2) by (auto simp: fenced_log_def sorted_wrt_append filter_empty_conv)
qed

text \<open>A generation that is admitted, called and interrupted, and the next one, admitted after it.\<close>

definition ex_begun :: fence_state where
  "ex_begun = (new_fence 0)\<lparr>fc := snd (Begin None (NewBargeInAfter 0)), fc_log := [Began 1]\<rparr>"

definition ex_interrupted :: fence_state where
  "ex_interrupted = ex_begun\<lparr>fc := fst (snd (Interrupt ex_quiet 1 (fc ex_begun))), fc_pending := [CancelContext 1 (Some ErrTurnInterrupted)],
     fc_log := [Began 1, Ended 1 Interrupted]\<rparr>"

definition ex_second_turn :: fence_state where
  "ex_second_turn = ex_interrupted\<lparr>fc := snd (Begin None (fc ex_interrupted)), fc_log := [Began 1, Ended 1 Interrupted, Began 2]\<rparr>"

lemma ex_interrupted_reachable: "fence_reachable 0 ex_interrupted"
proof -
  have "Begin None (fc (new_fence 0)) = (Inr 1, fc ex_begun)" by code_simp
  from fence_step.begin_turn [OF this] have "fence_step (new_fence 0) ex_begun"
    by (simp add: ex_begun_def new_fence_def)
  moreover have "Interrupt ex_quiet 1 (fc ex_begun) = ((2, None), fc ex_interrupted, [CancelContext 1 (Some ErrTurnInterrupted)])" by code_simp
  from fence_step.interrupt [OF this] have "fence_step ex_begun ex_interrupted"
    by (simp add: ex_interrupted_def ex_begun_def new_fence_def ended_def Begin_def NewBargeInAfter_def Interrupt_def validateActiveLocked_def
        detachLocked_def maxUint64_def Let_def split: prod.splits)
  ultimately show ?thesis by (meson fence_reachable.intros)
qed

lemma ex_second_step: "fence_step ex_interrupted ex_second_turn"
proof -
  have "Begin None (fc ex_interrupted) = (Inr 2, fc ex_second_turn)" by code_simp
  from fence_step.begin_turn [OF this] show ?thesis by (simp add: ex_second_turn_def ex_interrupted_def)
qed

lemma ex_second_reachable: "fence_reachable 0 ex_second_turn"
  by (rule fence_reachable.step [OF ex_interrupted_reachable ex_second_step])

theorem ended_generation_stays_silent_witness:
  "filter (\<lambda>e. subject e = 1) (fc_log ex_second_turn) = filter (\<lambda>e. subject e = 1) (fc_log ex_interrupted)"
proof -
  have "Ended 1 Interrupted \<in> set (fc_log ex_interrupted)" by (simp add: ex_interrupted_def)
  moreover have "fence_step\<^sup>*\<^sup>* ex_interrupted ex_second_turn" using ex_second_step by (rule r_into_rtranclp)
  ultimately show ?thesis using ended_generation_stays_silent [OF ex_interrupted_reachable] by blast
qed

text \<open>C22: Generations are admitted in strictly increasing order, after the one retained from before, and each has exactly one
  end: as many have ended as have begun, except the active one, none of them twice. A turn was
  committed exactly if its generation ended by completion, so of completion and interruption one wins.\<close>

theorem generations_end_once:
  assumes "fence_reachable g0 s"
  shows "sorted_wrt (<) (begun (fc_log s)) \<and> (\<forall>g \<in> set (begun (fc_log s)). g0 < g) \<and> distinct (ends (fc_log s)) \<and>
    set (ends (fc_log s)) = set (begun (fc_log s)) - (if bi_active (fc s) then {bi_generation (fc s)} else {}) \<and>
    (\<forall>g. Committed g \<in> set (fc_log s) \<longleftrightarrow> Ended g Completed \<in> set (fc_log s))"
  using turn_inv_reachable [OF assms] by (simp add: turn_inv_def log_inv_def)

theorem generations_end_once_witness:
  "set (ends (fc_log ex_second_turn)) = set (begun (fc_log ex_second_turn)) - (if bi_active (fc ex_second_turn) then {bi_generation (fc ex_second_turn)} else {})"
  using generations_end_once [OF ex_second_reachable] by simp

text \<open>C23: What a turn holds is released exactly once. When no generation is active and all clean-up calls have been made, each
  context of a turn was cancelled once, each speech stream offered was closed once, and each playback
  offered was cancelled once, unless its turn completed with it.\<close>

theorem turn_resources_released_once:
  assumes "fence_reachable g0 s" and "\<not> bi_active (fc s)" and "fc_pending s = []"
  shows "mset (contexts (fc_made s)) = mset (begun (fc_log s)) \<and> mset (closes (fc_made s)) = mset (fc_tts s) \<and>
    mset (cancels (fc_made s)) + mset (fc_played s) = mset (fc_audio s) \<and>
    distinct (contexts (fc_made s)) \<and> distinct (closes (fc_made s)) \<and> distinct (cancels (fc_made s))"
proof -
  have i: "fence_ok (fc s)" "log_inv g0 (fc s) (fc_log s)" "resources_inv s" using turn_inv_reachable [OF assms(1)] by (simp_all add: turn_inv_def)
  then have eq: "mset (contexts (fc_made s)) = mset (begun (fc_log s))" "mset (closes (fc_made s)) = mset (fc_tts s)"
    "mset (cancels (fc_made s)) + mset (fc_played s) = mset (fc_audio s)"
    using assms(2,3) by (simp_all add: resources_inv_def fence_ok_def opt_def)
  have "distinct (begun (fc_log s))" using i(2) by (simp add: log_inv_def strict_sorted_iff)
  then have "distinct (contexts (fc_made s))" using eq(1) by (metis mset_eq_imp_distinct_iff)
  moreover have "distinct (closes (fc_made s))" using i(3) eq(2) by (metis mset_eq_imp_distinct_iff resources_inv_def)
  moreover have "distinct (cancels (fc_made s) @ fc_played s)" using i(3) eq(3) by (metis mset_append mset_eq_imp_distinct_iff resources_inv_def)
  ultimately show ?thesis using eq by simp
qed

definition ex_cleaned :: fence_state where
  "ex_cleaned = ex_interrupted\<lparr>fc_pending := [], fc_made := [CancelContext 1 (Some ErrTurnInterrupted)]\<rparr>"

theorem turn_resources_released_once_witness:
  "mset (contexts (fc_made ex_cleaned)) = mset (begun (fc_log ex_cleaned)) \<and> distinct (contexts (fc_made ex_cleaned))"
proof -
  have "fc_pending ex_interrupted = [] @ CancelContext 1 (Some ErrTurnInterrupted) # []" by (simp add: ex_interrupted_def)
  from fence_step.cleanup_call [OF this] have "fence_step ex_interrupted ex_cleaned"
    by (simp add: ex_cleaned_def ex_interrupted_def ex_begun_def new_fence_def)
  then have "fence_reachable 0 ex_cleaned" by (rule fence_reachable.step [OF ex_interrupted_reachable])
  moreover have "\<not> bi_active (fc ex_cleaned)" "fc_pending ex_cleaned = []" by code_simp+
  ultimately show ?thesis using turn_resources_released_once by blast
qed

section \<open>Turns\<close>

text \<open>C24: Only completed turns are remembered, and as they were spoken. Whatever the language model, the tools, the text handler
  and other goroutines do, as long as no other goroutine writes the window (which the orchestrator's active flag sees to): a turn that succeeds has appended to the newest six turns the trimmed transcript and the text
  handed over to speech, delta by delta; a turn that fails has left the window as it was, unless the failure is only that
  of closing the speech stream of a turn that completed; and a turn whose generation is no longer active when
  it wants to commit fails and leaves the window as it was.\<close>

theorem only_completed_turns_are_remembered:
  assumes "HandleFinal fails env meanwhile callerErr final o1 = (q, o2, r, calls)"
    and "\<forall>x. or_window (meanwhile x) = or_window x"
  defines "remembered \<equiv> (or_window o1)\<lparr>cw_Turns := newest_turns (cw_Turns (or_window o1) @ [\<lparr>ct_User = TrimSpace (ft_Text final), ct_Assistant = concat (ru_deltas r)\<rparr>])\<rparr>"
  shows "(\<forall>res. q = Inr res \<longrightarrow> tr_Text res = concat (ru_deltas r) \<and> or_window o2 = remembered) \<and>
    (\<forall>e. q = Inl e \<longrightarrow> or_window o2 = or_window o1 \<or> e = ErrVoiceGenerationCleanup \<and> or_window o2 = remembered) \<and>
    ((\<forall>x. \<not> bi_active (or_fence (meanwhile x))) \<longrightarrow> (\<exists>e. q = Inl e) \<and> or_window o2 = or_window o1)"
  using assms(1)
proof (cases rule: HandleFinal_cases)
  case (refused e)
  then show ?thesis by simp
next
  case (failed f g c1 e res)
  then show ?thesis using assms(2) by simp
next
  case (committing f g c1 res c3 calls1 o3 e)
  let ?x = "meanwhile (o1\<lparr>or_active := True, or_fence := c1\<rparr>)"
  have w: "or_window ?x = or_window o1" using assms(2) by simp
  have t: "tr_Text res = concat (ru_deltas r)" "ft_Text f = TrimSpace (ft_Text final)"
    using turn_body_effect(4) [OF committing(3)] normalized_text [OF committing(1)] by simp_all
  have "or_window o3 = or_window o1 \<and> e \<noteq> None \<or> bi_active (or_fence ?x) \<and> e \<in> {None, Some ErrVoiceGenerationCleanup} \<and> or_window o3 = remembered"
    using commit_outcome [OF committing(4)] by (simp add: w t remembered_def)
  then show ?thesis using committing(5,6) t(1) by (auto split: option.splits)
qed

lemma ex_first_turn:
  obtains res o2 r calls where "HandleFinal ex_quiet (plain_env ex_reply) (\<lambda>x. x) None ex_long ex_orchestrator = (Inr res, o2, r, calls)"
proof -
  have "or_window ex_orchestrator = (oc_Window ex_config)\<lparr>cw_Turns := replicate 0 ex_turn\<rparr>" by (simp add: ex_orchestrator_def ex_config_def)
  from ex_next_turn [OF ex_idle _ this] show ?thesis using that by (metis zero_less_numeral zero_le)
qed

theorem only_completed_turns_are_remembered_witness:
  "\<exists>res o2 r calls. HandleFinal ex_quiet (plain_env ex_reply) (\<lambda>x. x) None ex_long ex_orchestrator = (Inr res, o2, r, calls) \<and>
     tr_Text res = concat (ru_deltas r) \<and>
     cw_Turns (or_window o2) = newest_turns (cw_Turns (or_window ex_orchestrator) @ [\<lparr>ct_User = TrimSpace (ft_Text ex_long), ct_Assistant = concat (ru_deltas r)\<rparr>])"
proof -
  obtain res o2 r calls where t: "HandleFinal ex_quiet (plain_env ex_reply) (\<lambda>x. x) None ex_long ex_orchestrator = (Inr res, o2, r, calls)" by (rule ex_first_turn)
  from only_completed_turns_are_remembered [OF t] show ?thesis using t by auto
qed

text \<open>C25: The work of a turn is bounded. It sends at most three requests to the language model and runs at most four tools,
  whatever the model answers, and every request it sends asks for 120 to 220 tokens and carries at most 128 KiB.\<close>

theorem turn_work_is_bounded:
  assumes "HandleFinal fails env meanwhile callerErr final o1 = (q, o2, r, calls)"
  shows "length (ru_requests r) \<le> 3 \<and> length (ru_tools r) \<le> 4 \<and>
    (\<forall>req \<in> set (ru_requests r). 120 \<le> cr_MaxTokens req \<and> cr_MaxTokens req \<le> 220 \<and> sum_list (request_sizes req) \<le> 131072)"
proof -
  have "length (ru_requests r) \<le> 3 \<and> length (ru_tools r) \<le> 4 \<and> (\<forall>req \<in> set (ru_requests r). validVoiceChatRequest req)"
    using assms
  proof (cases rule: HandleFinal_cases)
    case (refused e)
    then show ?thesis by (simp add: new_run_def)
  next
    case (failed f g c1 e res)
    then show ?thesis using turn_body_effect(1-3) [OF failed(1)] by (simp add: defaultMaxToolRounds_def defaultMaxToolCalls_def)
  next
    case (committing f g c1 res c3 calls1 o3 e)
    then show ?thesis using turn_body_effect(1-3) [OF committing(3)] by (simp add: defaultMaxToolRounds_def defaultMaxToolCalls_def)
  qed
  then show ?thesis using valid_request_size
    by (auto simp: validVoiceChatRequest_def MinVoiceMaxTokens_def MaxVoiceMaxTokens_def maxVoicePromptBytes_def)
qed

theorem turn_work_is_bounded_witness:
  "\<exists>q o2 r calls. HandleFinal ex_quiet (plain_env ex_reply) (\<lambda>x. x) None ex_long ex_orchestrator = (q, o2, r, calls) \<and>
     length (ru_requests r) \<le> 3 \<and> length (ru_tools r) \<le> 4"
proof -
  obtain q o2 r calls where t: "HandleFinal ex_quiet (plain_env ex_reply) (\<lambda>x. x) None ex_long ex_orchestrator = (q, o2, r, calls)" by (metis surj_pair)
  from turn_work_is_bounded [OF t] show ?thesis using t by blast
qed

text \<open>C26: A window that has outgrown the limit of a request is never left again. Committing does not bound the size of a turn,
  as building a window does; once the remembered turns exceed 128 KiB every further transcript fails before the language model is asked
  and the window stays as it is.\<close>

theorem oversized_window_refuses_every_turn:
  assumes "turns_size (cw_Turns (or_window o1)) > maxVoicePromptBytes"
    and "HandleFinal fails env meanwhile callerErr final o1 = (q, o2, r, calls)" and "\<forall>x. or_window (meanwhile x) = or_window x"
  shows "(\<exists>e. q = Inl e) \<and> ru_requests r = [] \<and> or_window o2 = or_window o1"
proof -
  have "\<not> validVoiceChatRequest (first_request o1 (or_window o1) f)" for f
    using assms(1) valid_request_size first_request_size by (meson leD le_trans)
  note body = oversized_body [OF this]
  from assms(2) show ?thesis
  proof (cases rule: HandleFinal_cases)
    case (refused e)
    then show ?thesis by (simp add: new_run_def)
  next
    case (failed f g c1 e res)
    then show ?thesis using body [of env f "new_result g f"] assms(3) by simp
  next
    case (committing f g c1 res c3 calls1 o3 e)
    then show ?thesis using body [of env f "new_result g f"] by simp
  qed
qed

theorem oversized_window_refuses_every_turn_witness:
  "\<exists>o1 o2 o3 e o4 r calls. long_turn ex_orchestrator o1 \<and> long_turn o1 o2 \<and> long_turn o2 o3 \<and>
     HandleFinal ex_quiet (plain_env ''Yes.'') (\<lambda>x. x) None ex_long o3 = (Inl e, o4, r, calls) \<and> ru_requests r = [] \<and> or_window o4 = or_window o3"
proof -
  obtain o1 o2 o3 where o: "long_turn ex_orchestrator o1" "long_turn o1 o2" "long_turn o2 o3" "turns_size (cw_Turns (or_window o3)) > maxVoicePromptBytes"
    by (rule ex_three_turns)
  obtain q o4 r calls where t: "HandleFinal ex_quiet (plain_env ''Yes.'') (\<lambda>x. x) None ex_long o3 = (q, o4, r, calls)" by (metis surj_pair)
  from oversized_window_refuses_every_turn [OF o(4) t]
  obtain e where "q = Inl e" "ru_requests r = []" "or_window o4 = or_window o3" by auto
  then show ?thesis using o(1-3) t by blast
qed

text \<open>A turn that completed is reported as failed if its speech stream cannot be closed.\<close>

lemma failed_close_hides_completed_turn:
  assumes "validateActiveLocked g c = None" and "bi_tts c = Some h" and "fails (CloseTTS h)" and "\<not> or_closed x" and "or_ctx x = None"
    and "CompleteWith fails g (Some (commitTurn u a)) c x = (e, c', calls, y)"
  shows "e = Some ErrVoiceGenerationCleanup \<and> cw_Turns (or_window y) = newest_turns (cw_Turns (or_window x) @ [\<lparr>ct_User = u, ct_Assistant = a\<rparr>])"
  using assms by (auto simp: CompleteWith_def run_callback_def commitTurn_def safeCloseGenerationResource_def detachLocked_def retire_def Let_def)

end
