(* ===== verification/Turn_Chunker.thy ===== *)
theory Turn_Chunker
  imports Go_Json "HOL-Library.Code_Target_Nat"
begin

text \<open>
  The segmentation of streamed text into spoken phrases (\<open>internal/voice/turn/chunker.go\<close>). Text arrives as
  bytes and is cut as runes; a chunk is the list of the runes of its text. The Unicode tables of
  letters, of digits and of lower case are the arguments \<open>letter\<close>, \<open>digit\<close> and \<open>lower\<close> of the
  record \<open>unicode\<close>; white space and control characters are those of the package \<open>unicode\<close>.
\<close>

record unicode =
  un_letter :: "nat \<Rightarrow> bool"
  un_digit :: "nat \<Rightarrow> bool"
  un_lower :: "nat \<Rightarrow> nat"

definition IsSpace :: "nat \<Rightarrow> bool" where
  "IsSpace r \<longleftrightarrow> 9 \<le> r \<and> r \<le> 13 \<or> r \<in> {0x20, 0x85, 0xA0, 0x1680, 0x2028, 0x2029, 0x202f, 0x205f, 0x3000} \<or> 0x2000 \<le> r \<and> r \<le> 0x200a"

definition IsControl :: "nat \<Rightarrow> bool" where
  "IsControl r \<longleftrightarrow> r < 0x20 \<or> 0x7f \<le> r \<and> r \<le> 0x9f"

text \<open>The runes of a text; a byte that starts no sequence is U+FFFD.\<close>

definition rune_value :: "nat list \<Rightarrow> nat" where
  "rune_value bs =
     (case bs of
        [a, b] \<Rightarrow> (a - 192) * 64 + (b - 128)
      | [a, b, c] \<Rightarrow> (a - 224) * 4096 + (b - 128) * 64 + (c - 128)
      | [a, b, c, d] \<Rightarrow> (a - 240) * 262144 + (b - 128) * 4096 + (c - 128) * 64 + (d - 128)
      | _ \<Rightarrow> 0xFFFD)"

function runes :: "string \<Rightarrow> nat list" where
  "runes [] = []"
| "runes (c # s) =
     (if of_char c < (128 :: nat) then of_char c # runes s
      else let w = char_width c s in
           if w = 0 then 0xFFFD # runes s else rune_value (map of_char (take w (c # s))) # runes (drop (w - 1) s))"
  by pat_completeness auto
termination
  by (relation "measure length") (auto simp: Let_def)

definition ascii :: "string \<Rightarrow> nat list" where
  "ascii s = map of_char s"

section \<open>Boundaries\<close>

definition speechChunkTargetMinRunes :: nat where "speechChunkTargetMinRunes = 80"
definition speechChunkTargetMaxRunes :: nat where "speechChunkTargetMaxRunes = 220"
definition speechChunkHardMaxRunes :: nat where "speechChunkHardMaxRunes = 500"
definition speechTextMaximumBytes :: nat where "speechTextMaximumBytes = 32768"

definition speechAbbreviations :: "nat list list" where
  "speechAbbreviations = map ascii [''dr.'', ''mr.'', ''mrs.'', ''ms.'', ''prof.'', ''sr.'', ''jr.'', ''vs.'', ''etc.'', ''e.g.'', ''i.e.'', ''a.m.'', ''p.m.'']"

definition isClosingSpeechPunctuation :: "nat \<Rightarrow> bool" where
  "isClosingSpeechPunctuation r \<longleftrightarrow> r \<in> {0x22, 0x27, 0x201D, 0x2019, 0x29, 0x5D, 0x7D}"

definition utf8_length :: "nat \<Rightarrow> nat" where
  "utf8_length r = length (utf8_encode r)"

text \<open>The token that ends with the period at an index starts after the last rune before it that is neither a letter nor a period.\<close>

definition period_token :: "unicode \<Rightarrow> nat list \<Rightarrow> nat \<Rightarrow> nat list" where
  "period_token u text index =
     map (un_lower u) (rev (takeWhile (\<lambda>r. un_letter u r \<or> r = 0x2E) (rev (take index text)))) @ [un_lower u (text ! index)]"

definition between_digits :: "unicode \<Rightarrow> nat list \<Rightarrow> nat \<Rightarrow> bool" where
  "between_digits u text index \<longleftrightarrow> index > 0 \<and> index + 1 < length text \<and> un_digit u (text ! (index - 1)) \<and> un_digit u (text ! (index + 1))"

definition periodEndsSentence :: "unicode \<Rightarrow> nat list \<Rightarrow> nat \<Rightarrow> bool" where
  "periodEndsSentence u text index =
     (if between_digits u text index then False
      else let token = period_token u text index in
           if token \<in> set speechAbbreviations then False
           else \<not> (length (filter (un_letter u) token) = 1 \<and> sum_list (map utf8_length token) = 2))"

definition sentence_end :: "nat \<Rightarrow> bool" where
  "sentence_end r \<longleftrightarrow> r \<in> {0x2E, 0x21, 0x3F, 0x0964, 0x0965, 0x061F}"

text \<open>The closing marks that follow a sentence belong to it, up to the limit.\<close>

definition skip_closing :: "nat list \<Rightarrow> nat \<Rightarrow> nat \<Rightarrow> nat" where
  "skip_closing text limit index = index + length (takeWhile isClosingSpeechPunctuation (take (limit - (index + 1)) (drop (index + 1) text)))"

definition sentenceBoundary :: "unicode \<Rightarrow> nat list \<Rightarrow> nat \<Rightarrow> nat option" where
  "sentenceBoundary u text maximum =
     (let limit = min (length text) maximum in
      map_option (skip_closing text limit)
        (find (\<lambda>index. sentence_end (text ! index) \<and> (text ! index = 0x2E \<longrightarrow> periodEndsSentence u text index)) [0..<limit]))"

definition phraseBoundary :: "unicode \<Rightarrow> nat list \<Rightarrow> nat \<Rightarrow> nat \<Rightarrow> nat option" where
  "phraseBoundary u text minimum maximum =
     find (\<lambda>index. text ! index \<in> {0x2C, 0x060C} \<and> \<not> between_digits u text index \<or> text ! index \<in> {0x3B, 0x3A}) [minimum - 1..<min (length text) maximum]"

definition whitespaceBoundary :: "nat list \<Rightarrow> nat \<Rightarrow> nat \<Rightarrow> nat option" where
  "whitespaceBoundary text minimum maximum = find (\<lambda>index. IsSpace (text ! index)) (rev [minimum..<min (length text) maximum])"

section \<open>Unsafe text\<close>

definition contains :: "nat list \<Rightarrow> nat list \<Rightarrow> bool" where
  "contains s t \<longleftrightarrow> sublist t s"

definition trim_runes :: "(nat \<Rightarrow> bool) \<Rightarrow> nat list \<Rightarrow> nat list" where
  "trim_runes p s = rev (dropWhile p (rev (dropWhile p s)))"

fun split_runes :: "(nat \<Rightarrow> bool) \<Rightarrow> nat list \<Rightarrow> nat list list" where
  "split_runes p [] = [[]]"
| "split_runes p (r # s) =
     (if p r then [] # split_runes p s
      else (case split_runes p s of [] \<Rightarrow> [[r]] | t # ts \<Rightarrow> (r # t) # ts))"

definition fields :: "nat list \<Rightarrow> nat list list" where
  "fields s = filter (\<lambda>t. t \<noteq> []) (split_runes IsSpace s)"

definition unsafe_markers :: "nat list list" where
  "unsafe_markers = map ascii [''http://'', ''https://'', ''www.'', [CHR 0x60, CHR 0x60, CHR 0x60], ''~~~'', [CHR 0x60], ''|'', ''**'', ''__'', ''!['', ''](''
     , ''<think'', ''</think'', ''chain of thought'', ''hidden reasoning'']"

definition unsafe_line :: "nat list \<Rightarrow> bool" where
  "unsafe_line line \<longleftrightarrow> (\<exists>p \<in> set (map ascii [''# '', ''##'', ''> '', ''- '', ''* '', ''+ '']). prefix p (trim_runes IsSpace line))"

definition trimmed_marks :: "nat list" where
  "trimmed_marks = ascii ''()[]{}<>,;:!?'' @ [0x22, 0x27]"

definition unsafe_token :: "nat list \<Rightarrow> bool" where
  "unsafe_token t \<longleftrightarrow>
     (let token = trim_runes (\<lambda>r. r \<in> set trimmed_marks) t in
      contains token [0x40] \<or>
      (\<exists>sfx \<in> set (map ascii [''.com'', ''.org'', ''.net'', ''.in'', ''.ai'', ''.io'']). suffix sfx token \<or> contains token (sfx @ [0x2F])))"

definition unsafeSpeechText :: "unicode \<Rightarrow> nat list \<Rightarrow> bool" where
  "unsafeSpeechText u value \<longleftrightarrow>
     (let low = map (un_lower u) value in
      (\<exists>m \<in> set unsafe_markers. contains low m) \<or>
      (\<exists>line \<in> set (split_runes (\<lambda>r. r = 10) low). unsafe_line line) \<or>
      (\<exists>t \<in> set (fields low). unsafe_token t))"

section \<open>The chunker\<close>

datatype speech_error = ErrInvalidSpeechText | ErrUnsafeSpeechText

record speech_chunker =
  sc_pending :: "nat list"
  sc_checked :: string
  sc_closed :: bool
  sc_err :: "speech_error option"

definition NewSpeechChunker :: speech_chunker where
  "NewSpeechChunker = \<lparr>sc_pending = [], sc_checked = [], sc_closed = False, sc_err = None\<rparr>"

definition append_rune :: "nat \<Rightarrow> nat list \<Rightarrow> nat list" where
  "append_rune r pending =
     (if IsSpace r then (if pending = [] \<or> last pending \<noteq> 0x20 then pending @ [0x20] else pending) else pending @ [r])"

definition appendNormalized :: "nat list \<Rightarrow> nat list \<Rightarrow> nat list" where
  "appendNormalized delta pending = fold append_rune delta pending"

definition boundary_of :: "unicode \<Rightarrow> bool \<Rightarrow> nat list \<Rightarrow> nat option" where
  "boundary_of u flush pending =
     (case sentenceBoundary u pending speechChunkTargetMaxRunes of
        Some b \<Rightarrow> Some b
      | None \<Rightarrow>
     (case phraseBoundary u pending speechChunkTargetMinRunes speechChunkTargetMaxRunes of
        Some b \<Rightarrow> Some b
      | None \<Rightarrow>
     (case (if length pending \<ge> speechChunkTargetMaxRunes then whitespaceBoundary pending speechChunkTargetMinRunes speechChunkTargetMaxRunes else None) of
        Some b \<Rightarrow> Some b
      | None \<Rightarrow>
        if length pending > speechChunkHardMaxRunes
        then (case whitespaceBoundary pending speechChunkTargetMinRunes speechChunkHardMaxRunes of
                Some b \<Rightarrow> Some b
              | None \<Rightarrow> Some (speechChunkHardMaxRunes - 1))
        else if flush then Some (length pending - 1)
        else None)))"

text \<open>The rune at a boundary is the last one of its chunk.\<close>

function extract_chunks :: "unicode \<Rightarrow> bool \<Rightarrow> nat list \<Rightarrow> nat list list \<times> nat list" where
  "extract_chunks u flush pending =
     (let trimmed = dropWhile IsSpace pending in
      if trimmed = [] then ([], [])
      else (case boundary_of u flush trimmed of
              None \<Rightarrow> ([], trimmed)
            | Some b \<Rightarrow>
                (let chunk = trim_runes IsSpace (take (b + 1) trimmed);
                     (chunks, rest) = extract_chunks u flush (drop (b + 1) trimmed)
                 in (if chunk = [] then chunks else chunk # chunks, rest))))"
  by pat_completeness auto
termination
proof (relation "measure (\<lambda>(u, flush, pending). length pending)", goal_cases)
  case (2 u flush pending trimmed b)
  have "0 < length trimmed" using 2(2) by blast
  moreover have "length trimmed \<le> length pending" unfolding 2(1) by (rule length_dropWhile_le)
  ultimately have "length trimmed - (b + 1) < length pending" by linarith
  then show ?case by simp
qed simp

declare extract_chunks.simps [simp del]

definition Write :: "unicode \<Rightarrow> string \<Rightarrow> speech_chunker \<Rightarrow> (speech_error + nat list list) \<times> speech_chunker" where
  "Write u delta c =
     (if sc_closed c then (Inl ErrInvalidSpeechText, c)
      else if sc_err c \<noteq> None then (Inl (the (sc_err c)), c)
      else if delta = [] \<or> \<not> ValidString delta \<or> length (sc_checked c) + length delta > speechTextMaximumBytes \<or>
              list_ex (\<lambda>r. r = 0 \<or> IsControl r \<and> r \<noteq> 10 \<and> r \<noteq> 13 \<and> r \<noteq> 9) (runes delta)
      then (Inl ErrInvalidSpeechText, c\<lparr>sc_err := Some ErrInvalidSpeechText\<rparr>)
      else let c1 = c\<lparr>sc_checked := sc_checked c @ delta\<rparr> in
           if unsafeSpeechText u (runes (sc_checked c1))
           then (Inl ErrUnsafeSpeechText, c1\<lparr>sc_err := Some ErrUnsafeSpeechText, sc_pending := []\<rparr>)
           else (case extract_chunks u False (appendNormalized (runes delta) (sc_pending c)) of
                   (chunks, pending) \<Rightarrow> (Inr chunks, c1\<lparr>sc_pending := pending\<rparr>)))"

definition Flush :: "unicode \<Rightarrow> speech_chunker \<Rightarrow> (speech_error + nat list list) \<times> speech_chunker" where
  "Flush u c =
     (if sc_err c \<noteq> None then (Inl (the (sc_err c)), c)
      else if sc_closed c then (Inl ErrInvalidSpeechText, c)
      else (case extract_chunks u True (sc_pending c) of
              (chunks, pending) \<Rightarrow>
                (let c1 = c\<lparr>sc_closed := True, sc_pending := pending\<rparr> in
                 if chunks = [] \<and> trim_runes IsSpace (runes (sc_checked c)) = [] then (Inl ErrInvalidSpeechText, c1) else (Inr chunks, c1))))"

section \<open>What is extracted\<close>

abbreviation spoken :: "nat list \<Rightarrow> nat list" where
  "spoken \<equiv> filter (\<lambda>r. \<not> IsSpace r)"

lemma spoken_dropWhile [simp]: "spoken (dropWhile IsSpace s) = spoken s"
  by (induction s) auto

lemma spoken_trim [simp]: "spoken (trim_runes IsSpace s) = spoken s"
  unfolding trim_runes_def by (simp only: rev_filter [symmetric] spoken_dropWhile rev_rev_ident)

lemma find_range: "find p [a..<b] = Some i \<Longrightarrow> a \<le> i \<and> i < b"
  by (metis atLeastLessThan_iff find_Some_iff nth_mem set_upt)

lemma find_rev_range: "find p (rev [a..<b]) = Some i \<Longrightarrow> a \<le> i \<and> i < b"
  by (metis atLeastLessThan_iff find_Some_iff nth_mem set_rev set_upt)

lemma skip_closing_bound:
  assumes "index < limit"
  shows "skip_closing text limit index < limit"
proof -
  have "length (takeWhile isClosingSpeechPunctuation (take (limit - (index + 1)) (drop (index + 1) text))) \<le> limit - (index + 1)"
    by (metis length_take length_takeWhile_le min.boundedE)
  then show ?thesis using assms by (simp add: skip_closing_def)
qed

lemma sentenceBoundary_bound:
  assumes "sentenceBoundary u text maximum = Some b"
  shows "b < min (length text) maximum"
proof -
  obtain i where i: "find (\<lambda>index. sentence_end (text ! index) \<and> (text ! index = 0x2E \<longrightarrow> periodEndsSentence u text index)) [0..<min (length text) maximum] = Some i"
    and b: "b = skip_closing text (min (length text) maximum) i"
    using assms unfolding sentenceBoundary_def Let_def map_option_eq_Some by blast
  show ?thesis unfolding b by (rule skip_closing_bound) (use find_range [OF i] in simp)
qed

lemma phraseBoundary_bound: "phraseBoundary u text minimum maximum = Some b \<Longrightarrow> b < min (length text) maximum"
  unfolding phraseBoundary_def using find_range by blast

lemma whitespaceBoundary_bound: "whitespaceBoundary text minimum maximum = Some b \<Longrightarrow> b < min (length text) maximum"
  unfolding whitespaceBoundary_def using find_rev_range by blast

lemma boundary_bound:
  assumes "boundary_of u flush pending = Some b" and "pending \<noteq> []"
  shows "b < length pending \<and> b < speechChunkHardMaxRunes"
proof -
  have limits: "speechChunkTargetMaxRunes \<le> speechChunkHardMaxRunes" "0 < speechChunkHardMaxRunes"
    by (simp_all add: speechChunkTargetMaxRunes_def speechChunkHardMaxRunes_def)
  consider "sentenceBoundary u pending speechChunkTargetMaxRunes = Some b"
    | "phraseBoundary u pending speechChunkTargetMinRunes speechChunkTargetMaxRunes = Some b"
    | maximum where "whitespaceBoundary pending speechChunkTargetMinRunes maximum = Some b" "maximum \<le> speechChunkHardMaxRunes"
    | "length pending > speechChunkHardMaxRunes" "b = speechChunkHardMaxRunes - 1"
    | "length pending \<le> speechChunkHardMaxRunes" "b = length pending - 1"
    using assms(1) limits(1) unfolding boundary_of_def by (auto split: option.splits if_splits)
  then show ?thesis
  proof cases
    case 1
    then show ?thesis using sentenceBoundary_bound limits(1) by fastforce
  next
    case 2
    then show ?thesis using phraseBoundary_bound limits(1) by fastforce
  next
    case 3
    then show ?thesis using whitespaceBoundary_bound by fastforce
  next
    case 4
    then show ?thesis using limits(2) by simp
  next
    case 5
    then have "0 < length pending" using assms(2) by simp
    then show ?thesis using 5 by linarith
  qed
qed

lemma boundary_none:
  assumes "boundary_of u flush pending = None"
  shows "\<not> flush" and "length pending \<le> speechChunkHardMaxRunes"
  using assms by (auto simp: boundary_of_def split: option.splits if_splits)

lemma trim_runes_ends:
  assumes "trim_runes p s \<noteq> []"
  shows "\<not> p (hd (trim_runes p s))" and "\<not> p (last (trim_runes p s))"
proof -
  let ?a = "dropWhile p s"
  have ne: "dropWhile p (rev ?a) \<noteq> []" using assms by (simp add: trim_runes_def)
  show "\<not> p (last (trim_runes p s))" using hd_dropWhile [OF ne] by (simp add: trim_runes_def last_rev)
  obtain t where t: "?a = trim_runes p s @ t"
    by (metis rev_append rev_rev_ident takeWhile_dropWhile_id trim_runes_def)
  then have "?a \<noteq> []" "hd ?a = hd (trim_runes p s)" using assms by (metis append_is_Nil_conv, metis hd_append2)
  then show "\<not> p (hd (trim_runes p s))" using hd_dropWhile by metis
qed

definition good_chunk :: "nat list \<Rightarrow> bool" where
  "good_chunk c \<longleftrightarrow> c \<noteq> [] \<and> length c \<le> speechChunkHardMaxRunes \<and> \<not> IsSpace (hd c) \<and> \<not> IsSpace (last c)"

lemma trim_runes_length: "length (trim_runes p s) \<le> length s"
  unfolding trim_runes_def by (metis length_dropWhile_le length_rev order_trans)

lemma extract_effect:
  assumes "extract_chunks u flush pending = (chunks, rest)"
  shows "spoken (concat chunks) @ spoken rest = spoken pending \<and> (\<forall>c \<in> set chunks. good_chunk c) \<and>
    (flush \<longrightarrow> rest = []) \<and> length rest \<le> speechChunkHardMaxRunes"
  using assms
proof (induction u flush pending arbitrary: chunks rest rule: extract_chunks.induct)
  case (1 u flush pending)
  let ?t = "dropWhile IsSpace pending"
  have sp: "spoken ?t = spoken pending" by simp
  note unf = 1(2) [unfolded extract_chunks.simps [of u flush pending] Let_def]
  show ?case
  proof (cases "?t = []")
    case True
    then have "chunks = [] \<and> rest = []" using unf by (simp del: dropWhile_eq_Nil_conv)
    moreover have "spoken pending = []" using sp unfolding True by simp
    ultimately show ?thesis by simp
  next
    case ne: False
    show ?thesis
    proof (cases "boundary_of u flush ?t")
      case None
      then have "chunks = [] \<and> rest = ?t" using unf ne by (simp only: if_False option.case prod.inject)
      then show ?thesis using boundary_none [OF None] sp by simp
    next
      case (Some b)
      obtain cs rs where ex: "extract_chunks u flush (drop (b + 1) ?t) = (cs, rs)" by fastforce
      let ?c = "trim_runes IsSpace (take (b + 1) ?t)"
      have "(chunks, rest) = (if ?c = [] then cs else ?c # cs, rs)"
        using unf by (simp only: ne if_False Some option.case ex prod.case)
      then have res: "chunks = (if ?c = [] then cs else ?c # cs)" "rest = rs" by simp_all
      note ih = 1(1) [OF refl ne Some refl ex]
      have "spoken ?c @ spoken (drop (b + 1) ?t) = spoken ?t" by (metis append_take_drop_id filter_append spoken_trim)
      moreover have "spoken (concat chunks) = spoken ?c @ spoken (concat cs)" using res(1) by (cases "?c = []") simp_all
      ultimately have "spoken (concat chunks) @ spoken rest = spoken pending" using ih sp res(2) by simp
      moreover have "good_chunk ?c" if "?c \<noteq> []"
        using that boundary_bound [OF Some ne] trim_runes_ends [OF that] trim_runes_length [of IsSpace "take (b + 1) ?t"]
        by (simp add: good_chunk_def)
      ultimately show ?thesis using ih res by (auto split: if_splits)
    qed
  qed
qed

lemma appendNormalized_spoken: "spoken (appendNormalized delta pending) = spoken pending @ spoken delta"
proof -
  have "IsSpace 0x20" by (simp add: IsSpace_def)
  then show ?thesis unfolding appendNormalized_def
    by (induction delta arbitrary: pending) (auto simp: append_rune_def)
qed

section \<open>Runs\<close>

text \<open>The deltas of a reply, all accepted: the chunks they give and the chunker after them.\<close>

fun write_all :: "unicode \<Rightarrow> string list \<Rightarrow> speech_chunker \<Rightarrow> (nat list list \<times> speech_chunker) option" where
  "write_all u [] c = Some ([], c)"
| "write_all u (d # ds) c =
     (case Write u d c of
        (Inl _, _) \<Rightarrow> None
      | (Inr chunks, c1) \<Rightarrow> map_option (\<lambda>(more, c2). (chunks @ more, c2)) (write_all u ds c1))"

lemma Write_effect:
  assumes "Write u d c = (Inr chunks, c1)"
  shows "spoken (concat chunks) @ spoken (sc_pending c1) = spoken (sc_pending c) @ spoken (runes d)" and "\<forall>k \<in> set chunks. good_chunk k"
    and "length (sc_pending c1) \<le> speechChunkHardMaxRunes" and "\<not> unsafeSpeechText u (runes (sc_checked c1))" and "sc_checked c1 = sc_checked c @ d"
proof -
  obtain rest where ex: "extract_chunks u False (appendNormalized (runes d) (sc_pending c)) = (chunks, rest)" and c1: "c1 = c\<lparr>sc_checked := sc_checked c @ d, sc_pending := rest\<rparr>"
    and safe: "\<not> unsafeSpeechText u (runes (sc_checked c @ d))"
    using assms by (auto simp: Write_def Let_def split: if_splits prod.splits)
  from extract_effect [OF ex] safe
  show "spoken (concat chunks) @ spoken (sc_pending c1) = spoken (sc_pending c) @ spoken (runes d)" and "\<forall>k \<in> set chunks. good_chunk k"
    and "length (sc_pending c1) \<le> speechChunkHardMaxRunes" and "\<not> unsafeSpeechText u (runes (sc_checked c1))" and "sc_checked c1 = sc_checked c @ d"
    by (simp_all add: c1 appendNormalized_spoken)
qed

lemma write_all_effect:
  assumes "write_all u ds c = Some (chunks, c1)" and "length (sc_pending c) \<le> speechChunkHardMaxRunes"
  shows "spoken (concat chunks) @ spoken (sc_pending c1) = spoken (sc_pending c) @ spoken (concat (map runes ds)) \<and>
    (\<forall>k \<in> set chunks. good_chunk k) \<and> length (sc_pending c1) \<le> speechChunkHardMaxRunes \<and> sc_checked c1 = sc_checked c @ concat ds"
  using assms
proof (induction ds arbitrary: c chunks)
  case (Cons d ds)
  obtain ks c2 more where w: "Write u d c = (Inr ks, c2)" and rest: "write_all u ds c2 = Some (more, c1)" and chunks: "chunks = ks @ more"
    using Cons.prems(1) by (auto split: prod.splits sum.splits)
  note e = Write_effect [OF w]
  note ih = Cons.IH [OF rest e(3)]
  have "spoken (concat chunks) @ spoken (sc_pending c1) = spoken (concat ks) @ spoken (sc_pending c2) @ spoken (concat (map runes ds))"
    using ih by (simp add: chunks)
  also have "\<dots> = spoken (sc_pending c) @ spoken (concat (map runes (d # ds)))"
    using e(1) by (metis append.assoc concat.simps(2) filter_append list.simps(9))
  finally show ?case using ih e chunks by auto
qed simp

section \<open>The whole reply\<close>

text \<open>C27: The phrases handed to speech synthesis are the reply. If all deltas of a reply are accepted and it is flushed, the
  chunks in their order carry exactly the text, up to white space: nothing is lost, repeated or reordered. No chunk
  is empty, longer than 500 runes, or starts or ends with white space, and at any time at most 500 runes are held back.\<close>

theorem chunks_speak_the_reply:
  assumes "write_all u ds NewSpeechChunker = Some (chunks, c)" and "Flush u c = (Inr final, c')"
  shows "filter (\<lambda>r. \<not> IsSpace r) (concat (chunks @ final)) = filter (\<lambda>r. \<not> IsSpace r) (concat (map runes ds)) \<and>
    list_all (\<lambda>k. k \<noteq> [] \<and> length k \<le> 500 \<and> \<not> IsSpace (hd k) \<and> \<not> IsSpace (last k)) (chunks @ final) \<and>
    length (sc_pending c) \<le> 500 \<and> sc_pending c' = []"
proof -
  have w: "spoken (concat chunks) @ spoken (sc_pending c) = spoken (concat (map runes ds))" "\<forall>k \<in> set chunks. good_chunk k"
    "length (sc_pending c) \<le> speechChunkHardMaxRunes"
    using write_all_effect [OF assms(1)] by (simp_all add: NewSpeechChunker_def)
  obtain rest where ex: "extract_chunks u True (sc_pending c) = (final, rest)" and c': "sc_pending c' = rest"
    using assms(2) by (auto simp: Flush_def Let_def split: if_splits prod.splits)
  from extract_effect [OF ex] have "spoken (concat final) = spoken (sc_pending c)" "\<forall>k \<in> set final. good_chunk k" "rest = []" by auto
  then show ?thesis using w c' by (auto simp: list_all_iff good_chunk_def speechChunkHardMaxRunes_def)
qed

text \<open>The tables of ASCII.\<close>

definition ex_unicode :: unicode where
  "ex_unicode = \<lparr>un_letter = (\<lambda>r. 65 \<le> r \<and> r \<le> 90 \<or> 97 \<le> r \<and> r \<le> 122), un_digit = (\<lambda>r. 48 \<le> r \<and> r \<le> 57),
     un_lower = (\<lambda>r. if 65 \<le> r \<and> r \<le> 90 then r + 32 else r)\<rparr>"

lemma ex_written:
  "map_option fst (write_all ex_unicode [''Hi '', ''Ann.  It is '', ''due''] NewSpeechChunker) = Some [ascii ''Hi Ann.'']"
  by code_simp

text \<open>A decimal number that arrives in two deltas is cut at its point, one that arrives in one is not.\<close>

lemma decimal_is_cut_between_deltas:
  "map_option fst (write_all ex_unicode [''Pay 3.'', ''5 now.''] NewSpeechChunker) = Some [ascii ''Pay 3.'', ascii ''5 now.'']"
  "map_option fst (write_all ex_unicode [''Pay 3.5 now.''] NewSpeechChunker) = Some [ascii ''Pay 3.5 now.'']"
  by code_simp+

text \<open>A domain name is recognised at the end of a token, but not before a full stop.\<close>

lemma domain_before_full_stop_passes:
  "unsafeSpeechText ex_unicode (runes ''Visit acme.com'')" "\<not> unsafeSpeechText ex_unicode (runes ''Visit acme.com.'')"
  by code_simp+

theorem chunks_speak_the_reply_witness:
  "\<exists>c final c'. write_all ex_unicode [''Hi '', ''Ann.  It is '', ''due''] NewSpeechChunker = Some ([ascii ''Hi Ann.''], c) \<and>
     Flush ex_unicode c = (Inr final, c') \<and> final = [ascii ''It is due''] \<and>
     filter (\<lambda>r. \<not> IsSpace r) (concat ([ascii ''Hi Ann.''] @ final)) = filter (\<lambda>r. \<not> IsSpace r) (concat (map runes [''Hi '', ''Ann.  It is '', ''due'']))"
proof -
  obtain c where c: "write_all ex_unicode [''Hi '', ''Ann.  It is '', ''due''] NewSpeechChunker = Some ([ascii ''Hi Ann.''], c)"
    using ex_written by auto
  have "map_option (\<lambda>(_, c). fst (Flush ex_unicode c)) (write_all ex_unicode [''Hi '', ''Ann.  It is '', ''due''] NewSpeechChunker) = Some (Inr [ascii ''It is due''])"
    by code_simp
  then have "fst (Flush ex_unicode c) = Inr [ascii ''It is due'']" unfolding c by simp
  then obtain c' where f: "Flush ex_unicode c = (Inr [ascii ''It is due''], c')" by (metis prod.collapse)
  from chunks_speak_the_reply [OF c f] show ?thesis using c f by blast
qed

end
